(* ===== verification/Draft.thy ===== *)
theory Draft
  imports Prelude
begin

section \<open>The draft crate: copy-on-write configuration with a staged draft\<close>

text \<open>
  Models \<open>crates/clash-verge-draft/src/lib.rs\<close>.  A \<open>Draft\<close> keeps a committed
  \<open>Arc\<close> and an optional draft \<open>Arc\<close> behind one lock.  Pointer identity matters here
  (\<open>Arc::ptr_eq\<close> is the optimistic lock, \<open>Arc::make_mut\<close> writes in place when the
  pointer is unique), so the model has a heap: an \<open>Arc\<close> is an address, \<open>heap\<close> gives
  its contents, and \<open>handles\<close> is the multiset (as a list) of the \<open>Arc\<close>s that
  callers still hold, from which the strong count is computed.
\<close>

record 'a draft =
  heap :: "nat \<Rightarrow> 'a"
  next_addr :: nat
  committed :: nat
  staged :: "nat option"
  handles :: "nat list"
  data_modifying :: bool
  claimed :: bool

definition draft_new :: "'a \<Rightarrow> 'a draft" where
  "draft_new v = \<lparr>heap = (\<lambda>_. v), next_addr = 1, committed = 0, staged = None, handles = [],
     data_modifying = False, claimed = False\<rparr>"

definition strong_count :: "'a draft \<Rightarrow> nat \<Rightarrow> nat" where
  "strong_count d p = (if committed d = p then 1 else 0) + (if staged d = Some p then 1 else 0)
     + count_list (handles d) p"

definition data_arc :: "'a draft \<Rightarrow> nat \<times> 'a draft" where
  "data_arc d = (committed d, d\<lparr>handles := committed d # handles d\<rparr>)"

definition latest_ptr :: "'a draft \<Rightarrow> nat" where
  "latest_ptr d = (case staged d of Some p \<Rightarrow> p | None \<Rightarrow> committed d)"

definition latest_arc :: "'a draft \<Rightarrow> nat \<times> 'a draft" where
  "latest_arc d = (latest_ptr d, d\<lparr>handles := latest_ptr d # handles d\<rparr>)"

definition drop_arc :: "nat \<Rightarrow> 'a draft \<Rightarrow> 'a draft" where
  "drop_arc p d = d\<lparr>handles := remove1 p (handles d)\<rparr>"

text \<open>
  \<open>edit_draft\<close>: the draft pointer is taken out of its slot, or the committed one is cloned
  (which raises its count), and \<open>make_mut\<close> writes in place only when that pointer is the
  last one; otherwise it clones the value into a fresh allocation.
\<close>

definition edit_draft :: "('a \<Rightarrow> 'r \<times> 'a) \<Rightarrow> 'a draft \<Rightarrow> 'r \<times> 'a draft" where
  "edit_draft f d =
     (let p = latest_ptr d;
          cnt = (case staged d of Some _ \<Rightarrow> strong_count d p | None \<Rightarrow> Suc (strong_count d p));
          (r, v) = f (heap d p)
      in if cnt = 1 then (r, d\<lparr>heap := (heap d)(p := v), staged := Some p\<rparr>)
         else (r, d\<lparr>heap := (heap d)(next_addr d := v), next_addr := Suc (next_addr d),
                    staged := Some (next_addr d)\<rparr>))"

definition apply_draft :: "'a draft \<Rightarrow> 'a draft" where
  "apply_draft d = (case staged d of Some p \<Rightarrow> d\<lparr>committed := p, staged := None\<rparr> | None \<Rightarrow> d)"

definition discard_draft :: "'a draft \<Rightarrow> 'a draft" where
  "discard_draft d = d\<lparr>staged := None\<rparr>"

text \<open>
  \<open>with_data_modify\<close> suspends between taking the permit with a copy of the committed value
  and writing the result back, so it is two steps.  \<open>modify_begin\<close> is \<open>None\<close> while
  another task holds the permit (the caller keeps waiting); the original \<open>Arc\<close> stays among
  the handles until the second step, which also drops the permit on every path.
\<close>

definition try_acquire_permit :: "'a draft \<Rightarrow> 'a draft option" where
  "try_acquire_permit d = (if data_modifying d then None else Some (d\<lparr>data_modifying := True\<rparr>))"

definition release_permit :: "'a draft \<Rightarrow> 'a draft" where
  "release_permit d = d\<lparr>data_modifying := False\<rparr>"

definition modify_begin :: "'a draft \<Rightarrow> ((nat \<times> 'a) \<times> 'a draft) option" where
  "modify_begin d = (case try_acquire_permit d of None \<Rightarrow> None
     | Some d' \<Rightarrow> (let (p, d'') = data_arc d' in Some ((p, heap d'' p), d'')))"

definition optimistic_lock_failed :: string where
  "optimistic_lock_failed =
     ''Optimistic lock failed: Committed data has changed during async operation''"

definition modify_finish :: "nat \<Rightarrow> ('a \<times> 'r) res \<Rightarrow> 'a draft \<Rightarrow> 'r res \<times> 'a draft" where
  "modify_finish original outcome d =
     (let (r, d') =
        (case outcome of
           Inl e \<Rightarrow> (Inl e, d)
         | Inr (v, r) \<Rightarrow>
             (if committed d \<noteq> original then (Inl optimistic_lock_failed, d)
              else (Inr r, d\<lparr>heap := (heap d)(next_addr d := v), next_addr := Suc (next_addr d),
                             committed := next_addr d\<rparr>)))
      in (r, release_permit (drop_arc original d')))"

definition claim :: "'a draft \<Rightarrow> bool \<times> 'a draft" where
  "claim d = (if claimed d then (False, d) else (True, d\<lparr>claimed := True\<rparr>))"

definition unclaim :: "'a draft \<Rightarrow> 'a draft" where
  "unclaim d = d\<lparr>claimed := False\<rparr>"

lemmas draft_defs = edit_draft_def apply_draft_def discard_draft_def data_arc_def latest_arc_def
  latest_ptr_def drop_arc_def strong_count_def

subsection \<open>Well-formed drafts\<close>

text \<open>Every live pointer is allocated, and the draft never aliases the committed value.\<close>

definition draft_ok :: "'a draft \<Rightarrow> bool" where
  "draft_ok d \<longleftrightarrow> committed d < next_addr d \<and> (\<forall>p. staged d = Some p \<longrightarrow> p < next_addr d \<and> p \<noteq> committed d)
     \<and> (\<forall>p\<in>set (handles d). p < next_addr d)"

lemma draft_ok_new [simp]: "draft_ok (draft_new v)"
  by (simp add: draft_ok_def draft_new_def)

lemma draft_ok_ops:
  assumes "draft_ok d"
  shows "draft_ok (snd (edit_draft f d))" "draft_ok (apply_draft d)" "draft_ok (discard_draft d)"
    "draft_ok (snd (data_arc d))" "draft_ok (snd (latest_arc d))" "draft_ok (drop_arc p d)"
    "draft_ok (snd (modify_finish q out d))" "draft_ok (release_permit d)" "draft_ok (snd (claim d))"
    "draft_ok (unclaim d)"
  using assms
  by (auto simp: draft_ok_def draft_defs modify_finish_def release_permit_def claim_def unclaim_def
      Let_def less_Suc_eq split: option.splits prod.splits sum.splits dest: set_remove1_subset [THEN subsetD])


subsection \<open>What a draft promises: two values, no pointers\<close>

text \<open>The abstraction forgets addresses: a committed value and an optional draft value.\<close>

type_synonym 'a draft_view = "'a \<times> 'a option"

definition draft_abs :: "'a draft \<Rightarrow> 'a draft_view" where
  "draft_abs d = (heap d (committed d), map_option (heap d) (staged d))"

fun view_latest :: "'a draft_view \<Rightarrow> 'a" where
  "view_latest (c, s) = unwrap_or c s"

definition view_edit :: "('a \<Rightarrow> 'r \<times> 'a) \<Rightarrow> 'a draft_view \<Rightarrow> 'r \<times> 'a draft_view" where
  "view_edit f v = (let (r, x) = f (view_latest v) in (r, (fst v, Some x)))"

fun view_apply :: "'a draft_view \<Rightarrow> 'a draft_view" where
  "view_apply (c, s) = (unwrap_or c s, None)"

fun view_discard :: "'a draft_view \<Rightarrow> 'a draft_view" where
  "view_discard (c, s) = (c, None)"

lemma heap_latest: "heap d (latest_ptr d) = view_latest (draft_abs d)"
  by (simp add: latest_ptr_def draft_abs_def split: option.splits)

lemma edit_draft_abs:
  assumes "draft_ok d"
  shows "map_prod id draft_abs (edit_draft f d) = view_edit f (draft_abs d)"
proof (cases "staged d")
  case None
  with assms show ?thesis
    by (auto simp: draft_ok_def edit_draft_def latest_ptr_def view_edit_def draft_abs_def strong_count_def
        split: prod.splits)
next
  case (Some p)
  with assms show ?thesis
    by (auto simp: draft_ok_def edit_draft_def latest_ptr_def view_edit_def draft_abs_def Let_def
        split: prod.splits)
qed

lemma apply_draft_abs: "draft_abs (apply_draft d) = view_apply (draft_abs d)"
  by (simp add: apply_draft_def draft_abs_def split: option.splits)

lemma discard_draft_abs: "draft_abs (discard_draft d) = view_discard (draft_abs d)"
  by (simp add: discard_draft_def draft_abs_def)



subsection \<open>Interleavings: snapshots and the optimistic lock\<close>

datatype 'a draft_op =
    OpEdit "'a \<Rightarrow> 'a" | OpApply | OpDiscard | OpDataArc | OpLatestArc | OpDropArc nat
  | OpModifyBegin | OpModifyFinish nat "'a res"

fun draft_step :: "'a draft_op \<Rightarrow> 'a draft \<Rightarrow> 'a draft" where
  "draft_step (OpEdit f) d = snd (edit_draft (\<lambda>x. ((), f x)) d)"
| "draft_step OpApply d = apply_draft d"
| "draft_step OpDiscard d = discard_draft d"
| "draft_step OpDataArc d = snd (data_arc d)"
| "draft_step OpLatestArc d = snd (latest_arc d)"
| "draft_step (OpDropArc p) d = drop_arc p d"
| "draft_step OpModifyBegin d = (case modify_begin d of None \<Rightarrow> d | Some (_, d') \<Rightarrow> d')"
| "draft_step (OpModifyFinish p out) d = snd (modify_finish p (map_sum id (\<lambda>v. (v, ())) out) d)"

fun draft_run :: "'a draft_op list \<Rightarrow> 'a draft \<Rightarrow> 'a draft" where
  "draft_run [] d = d"
| "draft_run (x # xs) d = draft_run xs (draft_step x d)"

text \<open>Somebody still holds \<open>p\<close> after every step of the run.\<close>

fun held_through :: "nat \<Rightarrow> 'a draft_op list \<Rightarrow> 'a draft \<Rightarrow> bool" where
  "held_through p [] d = (p \<in> set (handles d))"
| "held_through p (x # xs) d = (p \<in> set (handles d) \<and> held_through p xs (draft_step x d))"

lemma modify_begin_Some:
  "modify_begin d = Some ((p, v), d') \<Longrightarrow>
     \<not> data_modifying d \<and> p = committed d \<and> v = heap d p
     \<and> d' = d\<lparr>data_modifying := True, handles := committed d # handles d\<rparr>"
  by (auto simp: modify_begin_def try_acquire_permit_def data_arc_def split: if_splits)

lemma draft_ok_begin: "draft_ok d \<Longrightarrow> modify_begin d = Some (t, d') \<Longrightarrow> draft_ok d'"
  by (cases t) (auto simp: draft_ok_def dest!: modify_begin_Some)

lemma draft_step_ok: "draft_ok d \<Longrightarrow> draft_ok (draft_step x d)"
  by (cases x) (auto simp: draft_ok_ops draft_ok_begin split: option.splits)

lemma edit_draft_keeps_held:
  assumes "p \<in> set (handles d)" "draft_ok d"
  shows "heap (snd (edit_draft f d)) p = heap d p"
proof -
  from assms have "0 < count_list (handles d) p" "p < next_addr d"
    by (auto simp: count_list_0_iff draft_ok_def zero_less_iff_neq_zero)
  then show ?thesis
    by (auto simp: edit_draft_def strong_count_def latest_ptr_def Let_def split: prod.splits option.splits)
qed

lemma draft_step_keeps_held:
  assumes "p \<in> set (handles d)" "draft_ok d"
  shows "heap (draft_step x d) p = heap d p"
  using assms edit_draft_keeps_held [OF assms]
  by (cases x)
    (auto simp: apply_draft_def discard_draft_def data_arc_def latest_arc_def drop_arc_def modify_finish_def
      release_permit_def Let_def draft_ok_def dest!: modify_begin_Some split: option.splits sum.splits prod.splits)

lemma draft_run_keeps_held:
  "held_through p xs d \<Longrightarrow> draft_ok d \<Longrightarrow> heap (draft_run xs d) p = heap d p \<and> draft_ok (draft_run xs d)"
proof (induction xs arbitrary: d)
  case Nil
  then show ?case by simp
next
  case (Cons x xs)
  then show ?case by (simp add: draft_step_ok draft_step_keeps_held)
qed

text \<open>C15: a snapshot that is still held never changes, whatever the other tasks do to the draft.\<close>

theorem snapshot_isolation:
  assumes "draft_ok d" and "latest_arc d = (p, d')" and "held_through p xs d'"
  shows "heap (draft_run xs d') p = view_latest (draft_abs d)"
proof -
  from assms(1,2) have "draft_ok d'" "heap d' = heap d" "p = latest_ptr d"
    using draft_ok_ops(5) [of d] by (auto simp: latest_arc_def)
  with draft_run_keeps_held [OF assms(3)] show ?thesis by (simp add: heap_latest)
qed

theorem snapshot_isolation_witness:
  "let (p, d) = latest_arc (draft_new (7::nat))
   in heap (draft_run [OpEdit (\<lambda>x. x + 1), OpApply, OpEdit (\<lambda>x. x * 2)] d) p = 7"
proof -
  let ?xs = "[OpEdit (\<lambda>x. x + 1), OpApply, OpEdit (\<lambda>x. x * 2)] :: nat draft_op list"
  obtain p d where l: "latest_arc (draft_new (7::nat)) = (p, d)" by fastforce
  then have "held_through p ?xs d" by (auto simp: draft_defs draft_new_def)
  from snapshot_isolation [OF draft_ok_new l this] l show ?thesis
    by (simp add: draft_abs_def draft_new_def)
qed

text \<open>
  If the asynchronous edit is committed, nothing was committed while it ran (no update is
  lost); if it fails, neither the committed value nor the draft moved; the permit is released
  either way.
\<close>

theorem with_data_modify_no_lost_update:
  assumes ok: "draft_ok d" and bg: "modify_begin d = Some ((p, v), d1)"
    and held: "held_through p xs d1" and d2: "d2 = draft_run xs d1"
    and fin: "modify_finish p outcome d2 = (res, d3)"
  shows "\<not> data_modifying d3
    \<and> (case res of
         Inr r \<Rightarrow> fst (draft_abs d2) = v \<and> outcome = Inr (fst (draft_abs d3), r)
                  \<and> snd (draft_abs d3) = snd (draft_abs d2)
       | Inl e \<Rightarrow> draft_abs d3 = draft_abs d2 \<and> (outcome = Inl e \<or> e = optimistic_lock_failed))"
proof -
  from ok modify_begin_Some [OF bg] have d1: "draft_ok d1" "p = committed d" "v = heap d1 p"
    by (auto simp: draft_ok_def)
  with draft_run_keeps_held [OF held] d2 have h: "heap d2 p = v" and ok2: "draft_ok d2" by auto
  show ?thesis
  proof (cases outcome)
    case (Inl e)
    with fin show ?thesis
      by (auto simp: modify_finish_def release_permit_def drop_arc_def draft_abs_def Let_def)
  next
    case (Inr vr)
    with fin h ok2 show ?thesis
      by (cases "staged d2")
        (auto simp: modify_finish_def release_permit_def drop_arc_def draft_abs_def Let_def draft_ok_def
          split: if_splits prod.splits)
  qed
qed

theorem with_data_modify_no_lost_update_witness:
  "\<exists>d1 d3. modify_begin (draft_new (3::nat)) = Some ((0, 3), d1)
     \<and> modify_finish 0 (Inr (9, ())) (draft_run [OpEdit (\<lambda>x. x + 1), OpApply] d1) = (Inl optimistic_lock_failed, d3)
     \<and> draft_abs d3 = (4, None) \<and> \<not> data_modifying d3"
proof -
  let ?d = "draft_new (3::nat)"
  let ?d1 = "?d\<lparr>data_modifying := True, handles := [0]\<rparr>"
  let ?xs = "[OpEdit (\<lambda>x. x + 1), OpApply] :: nat draft_op list"
  have b: "modify_begin ?d = Some ((0, 3), ?d1)"
    by (simp add: modify_begin_def try_acquire_permit_def data_arc_def draft_new_def)
  have h: "held_through 0 ?xs ?d1" and c: "committed (draft_run ?xs ?d1) = 1"
    and a: "draft_abs (draft_run ?xs ?d1) = (4, None)"
    by (simp_all add: draft_defs draft_new_def draft_abs_def)
  obtain r d3 where f: "modify_finish 0 (Inr (9, ())) (draft_run ?xs ?d1) = (r, d3)" by fastforce
  from c f have r: "r = Inl optimistic_lock_failed"
    by (simp add: modify_finish_def)
  from with_data_modify_no_lost_update [OF draft_ok_new b h refl f] r a
  have "draft_abs d3 = (4, None)" "\<not> data_modifying d3" by auto
  with b f r show ?thesis by blast
qed


section \<open>Transactions over several draft layers\<close>

text \<open>
  The trait \<open>DraftLayer\<close> is used through \<open>dyn\<close> references, so a layer is its table of
  operations over the shared state \<open>'s\<close>.  \<open>begin\<close> claims the layers in order and gives back
  what it took when one is busy; dropping a transaction discards the drafts unless it was
  committed, and releases every claim.
\<close>

record 's draft_layer =
  try_claim :: "'s \<Rightarrow> bool \<times> 's"
  release :: "'s \<Rightarrow> 's"
  layer_apply :: "'s \<Rightarrow> 's"
  layer_discard :: "'s \<Rightarrow> 's"
  layer_name :: string

record 's draft_transaction =
  layers :: "'s draft_layer list"
  is_committed :: bool

fun release_all :: "'s draft_layer list \<Rightarrow> 's \<Rightarrow> 's" where
  "release_all [] s = s"
| "release_all (l # ls) s = release_all ls (release l s)"

text \<open>The loop of \<open>begin\<close>: \<open>taken\<close> is \<open>layers[..index]\<close>.\<close>

fun begin_loop :: "'s draft_layer list \<Rightarrow> 's draft_layer list \<Rightarrow> 's \<Rightarrow> (string + unit) \<times> 's" where
  "begin_loop taken [] s = (Inr (), s)"
| "begin_loop taken (l # ls) s =
     (let (ok, s') = try_claim l s
      in if ok then begin_loop (taken @ [l]) ls s'
         else (Inl (layer_name l), release_all taken s'))"

definition transaction_begin :: "'s draft_layer list \<Rightarrow> 's \<Rightarrow> (string + 's draft_transaction) \<times> 's" where
  "transaction_begin ls s =
     (let (r, s') = begin_loop [] ls s
      in (map_sum id (\<lambda>_. \<lparr>layers = ls, is_committed = False\<rparr>) r, s'))"

fun apply_all :: "'s draft_layer list \<Rightarrow> 's \<Rightarrow> 's" where
  "apply_all [] s = s"
| "apply_all (l # ls) s = apply_all ls (layer_apply l s)"

fun drop_layers :: "bool \<Rightarrow> 's draft_layer list \<Rightarrow> 's \<Rightarrow> 's" where
  "drop_layers c [] s = s"
| "drop_layers c (l # ls) s = drop_layers c ls (release l (if c then s else layer_discard l s))"

definition transaction_drop :: "'s draft_transaction \<Rightarrow> 's \<Rightarrow> 's" where
  "transaction_drop t s = drop_layers (is_committed t) (layers t) s"

definition transaction_commit :: "'s draft_transaction \<Rightarrow> 's \<Rightarrow> 's" where
  "transaction_commit t s = transaction_drop (t\<lparr>is_committed := True\<rparr>) (apply_all (layers t) s)"

definition transaction_rollback :: "'s draft_transaction \<Rightarrow> 's \<Rightarrow> 's" where
  "transaction_rollback t s = transaction_drop t s"

text \<open>
  The contract of a family of layers: claims are per layer and exclusive, and committing or
  discarding one layer touches no other one and no claim.
\<close>

locale draft_layers =
  fixes layer :: "'i \<Rightarrow> 's draft_layer"
    and held :: "'i \<Rightarrow> 's \<Rightarrow> bool"
    and view :: "'i \<Rightarrow> 's \<Rightarrow> 'v"
    and commit_view :: "'v \<Rightarrow> 'v"
    and discard_view :: "'v \<Rightarrow> 'v"
  assumes claim_result: "fst (try_claim (layer i) s) = (\<not> held i s)"
    and claim_held: "held j (snd (try_claim (layer i) s)) = (j = i \<or> held j s)"
    and claim_view: "view j (snd (try_claim (layer i) s)) = view j s"
    and release_held: "held j (release (layer i) s) = (j \<noteq> i \<and> held j s)"
    and release_view: "view j (release (layer i) s) = view j s"
    and apply_held: "held j (layer_apply (layer i) s) = held j s"
    and apply_view: "view j (layer_apply (layer i) s) = (if j = i then commit_view (view i s) else view j s)"
    and discard_held: "held j (layer_discard (layer i) s) = held j s"
    and discard_view: "view j (layer_discard (layer i) s) = (if j = i then discard_view (view i s) else view j s)"
begin

lemmas laws = claim_result claim_held claim_view release_held release_view apply_held apply_view
  discard_held discard_view

lemma release_all_laws:
  "held j (release_all (map layer is) s) = (j \<notin> set is \<and> held j s)"
  "view j (release_all (map layer is) s) = view j s"
  by (induction "is" arbitrary: s) (auto simp: laws)

lemma begin_loop_ok:
  "distinct is \<Longrightarrow> \<forall>i\<in>set is. \<not> held i s \<Longrightarrow>
     \<exists>s'. begin_loop taken (map layer is) s = (Inr (), s')
        \<and> (\<forall>j. held j s' = (j \<in> set is \<or> held j s)) \<and> (\<forall>j. view j s' = view j s)"
proof (induction "is" arbitrary: s taken)
  case Nil
  then show ?case by simp
next
  case (Cons i "is")
  obtain ok s1 where s1: "try_claim (layer i) s = (ok, s1)" by fastforce
  then have c: "ok = (\<not> held i s)" and h: "\<And>j. held j s1 = (j = i \<or> held j s)"
    and v: "\<And>j. view j s1 = view j s"
    by (metis claim_result fst_conv, metis claim_held snd_conv, metis claim_view snd_conv)
  from c Cons.prems have ok: ok by simp
  from Cons.prems h have "\<forall>k\<in>set is. \<not> held k s1" by auto
  with Cons.IH Cons.prems(1) obtain s' where
    "begin_loop (taken @ [layer i]) (map layer is) s1 = (Inr (), s')"
    "\<forall>j. held j s' = (j \<in> set is \<or> held j s1)" "\<forall>j. view j s' = view j s1"
    by fastforce
  with s1 ok h v show ?case by auto
qed

text \<open>When some layer is taken (or named twice), \<open>begin\<close> reports it and leaves no claim behind.\<close>

lemma begin_loop_busy:
  assumes "\<forall>i\<in>set taken. held i s" "\<forall>j. held j s0 = (held j s \<and> j \<notin> set taken)"
    "\<forall>j. view j s0 = view j s" "\<not> (distinct is \<and> (\<forall>i\<in>set is. \<not> held i s))"
  shows "\<exists>i\<in>set is. \<exists>s'. begin_loop (map layer taken) (map layer is) s = (Inl (layer_name (layer i)), s')
     \<and> (\<forall>j. held j s' = held j s0) \<and> (\<forall>j. view j s' = view j s0)"
  using assms
proof (induction "is" arbitrary: s taken)
  case Nil
  then show ?case by simp
next
  case (Cons i "is")
  obtain ok s1 where s1: "try_claim (layer i) s = (ok, s1)" by fastforce
  then have c: "ok = (\<not> held i s)" and h: "\<And>j. held j s1 = (j = i \<or> held j s)"
    and v: "\<And>j. view j s1 = view j s"
    by (metis claim_result fst_conv, metis claim_held snd_conv, metis claim_view snd_conv)
  show ?case
  proof (cases "held i s")
    case True
    with Cons.prems s1 c h v have "begin_loop (map layer taken) (map layer (i # is)) s
        = (Inl (layer_name (layer i)), release_all (map layer taken) s1)"
      by simp
    with True Cons.prems h v release_all_laws [of _ taken s1] show ?thesis by auto
  next
    case False
    with Cons.prems h v have "\<not> (distinct is \<and> (\<forall>k\<in>set is. \<not> held k s1))"
      "\<forall>k\<in>set (taken @ [i]). held k s1" "\<forall>j. held j s0 = (held j s1 \<and> j \<notin> set (taken @ [i]))"
      "\<forall>j. view j s0 = view j s1"
      by auto
    from Cons.IH [OF this(2,3,4,1)] s1 c False show ?thesis by auto
  qed
qed

lemma apply_all_laws:
  "held j (apply_all (map layer is) s) = held j s"
  "distinct is \<Longrightarrow> view j (apply_all (map layer is) s) = (if j \<in> set is then commit_view (view j s) else view j s)"
  by (induction "is" arbitrary: s) (auto simp: laws)

lemma drop_layers_laws:
  "held j (drop_layers c (map layer is) s) = (j \<notin> set is \<and> held j s)"
  "distinct is \<Longrightarrow> view j (drop_layers c (map layer is) s) =
     (if j \<in> set is \<and> \<not> c then discard_view (view j s) else view j s)"
  by (induction "is" arbitrary: s) (auto simp: laws)

lemma begin_busy:
  assumes "\<not> (distinct is \<and> (\<forall>i\<in>set is. \<not> held i s))"
  shows "\<exists>i\<in>set is. \<exists>s'. transaction_begin (map layer is) s = (Inl (layer_name (layer i)), s')
     \<and> (\<forall>j. held j s' = held j s) \<and> (\<forall>j. view j s' = view j s)"
  using begin_loop_busy [of "[]" s s "is"] assms by (fastforce simp: transaction_begin_def)

lemma begin_commit:
  assumes "distinct is" "\<forall>i\<in>set is. \<not> held i s"
  shows "\<exists>t s'. transaction_begin (map layer is) s = (Inr t, s')
     \<and> (\<forall>j. held j s' = (j \<in> set is \<or> held j s)) \<and> (\<forall>j. view j s' = view j s)
     \<and> (\<forall>s2 j. view j (transaction_commit t s2) = (if j \<in> set is then commit_view (view j s2) else view j s2)
            \<and> held j (transaction_commit t s2) = (j \<notin> set is \<and> held j s2))
     \<and> (\<forall>s2 j. view j (transaction_rollback t s2) = (if j \<in> set is then discard_view (view j s2) else view j s2)
            \<and> held j (transaction_rollback t s2) = (j \<notin> set is \<and> held j s2))"
proof -
  from begin_loop_ok [OF assms, of "[]"] obtain s' where
    "begin_loop [] (map layer is) s = (Inr (), s')"
    "\<forall>j. held j s' = (j \<in> set is \<or> held j s)" "\<forall>j. view j s' = view j s" by blast
  then show ?thesis
    by (auto simp: transaction_begin_def transaction_commit_def transaction_rollback_def transaction_drop_def
        drop_layers_laws apply_all_laws assms(1))
qed

end

text \<open>
  The layers of the program are \<open>Draft\<close>s: layer \<open>i\<close> of a family of drafts, with the trait
  implementation of \<open>Draft<T>\<close>.
\<close>

definition draft_layer_of :: "(nat \<Rightarrow> string) \<Rightarrow> nat \<Rightarrow> (nat \<Rightarrow> 'a draft) draft_layer" where
  "draft_layer_of type_name i =
     \<lparr>try_claim = (\<lambda>s. let (ok, d) = claim (s i) in (ok, s(i := d))),
      release = (\<lambda>s. s(i := unclaim (s i))),
      layer_apply = (\<lambda>s. s(i := apply_draft (s i))),
      layer_discard = (\<lambda>s. s(i := discard_draft (s i))),
      layer_name = type_name i\<rparr>"

lemma claimed_frame [simp]:
  "claimed (apply_draft d) = claimed d" "claimed (discard_draft d) = claimed d"
  by (simp_all add: apply_draft_def discard_draft_def split: option.splits)

lemma draft_abs_claim [simp]:
  "draft_abs (d\<lparr>claimed := b\<rparr>) = draft_abs d" "draft_abs (unclaim d) = draft_abs d"
  "claimed (unclaim d) = False"
  by (simp_all add: draft_abs_def unclaim_def)

interpretation drafts: draft_layers "draft_layer_of tn" "\<lambda>i s. claimed (s i)" "\<lambda>i s. draft_abs (s i)"
  view_apply view_discard for tn
  by unfold_locales
    (auto simp: draft_layer_of_def claim_def apply_draft_abs discard_draft_abs draft_abs_claim
      split: prod.splits if_splits)

text \<open>
  C13: a transaction over distinct free layers claims exactly them; committing it commits every
  draft and rolling it back discards every draft, and both give all claims back.
\<close>

theorem transaction_all_or_nothing:
  assumes "distinct is" and "\<forall>i\<in>set is. \<not> claimed (s i)"
  shows "\<exists>t s'. transaction_begin (map (draft_layer_of tn) is) s = (Inr t, s')
     \<and> (\<forall>j. claimed (s' j) = (j \<in> set is \<or> claimed (s j))) \<and> (\<forall>j. draft_abs (s' j) = draft_abs (s j))
     \<and> (\<forall>s2 j. draft_abs (transaction_commit t s2 j) =
              (if j \<in> set is then view_apply (draft_abs (s2 j)) else draft_abs (s2 j))
            \<and> claimed (transaction_commit t s2 j) = (j \<notin> set is \<and> claimed (s2 j)))
     \<and> (\<forall>s2 j. draft_abs (transaction_rollback t s2 j) =
              (if j \<in> set is then view_discard (draft_abs (s2 j)) else draft_abs (s2 j))
            \<and> claimed (transaction_rollback t s2 j) = (j \<notin> set is \<and> claimed (s2 j)))"
  using drafts.begin_commit [OF assms] by blast

theorem transaction_all_or_nothing_witness:
  "\<exists>t s'. transaction_begin (map (draft_layer_of (\<lambda>_. ''IVerge'')) [0, 1]) (\<lambda>_. draft_new (0::nat)) = (Inr t, s')
     \<and> claimed (s' 0) \<and> claimed (s' 1) \<and> \<not> claimed (s' 2)"
proof -
  have "distinct [0, 1 :: nat]" "\<forall>i\<in>set [0, 1]. \<not> claimed ((\<lambda>_. draft_new (0::nat)) i)"
    by (simp_all add: draft_new_def)
  from transaction_all_or_nothing [OF this, of "\<lambda>_. ''IVerge''"] show ?thesis
    by (auto simp: draft_new_def)
qed

text \<open>
  When a layer is already claimed, or asked for twice, \<open>begin\<close> fails naming one of the
  layers asked for, and no claim and no draft is changed.
\<close>

theorem transaction_busy_leaves_no_claim:
  assumes "\<not> (distinct is \<and> (\<forall>i\<in>set is. \<not> claimed (s i)))"
  shows "\<exists>i\<in>set is. \<exists>s'. transaction_begin (map (draft_layer_of tn) is) s = (Inl (tn i), s')
     \<and> (\<forall>j. claimed (s' j) = claimed (s j)) \<and> (\<forall>j. draft_abs (s' j) = draft_abs (s j))"
proof -
  have "layer_name (draft_layer_of tn i :: (nat \<Rightarrow> 'a draft) draft_layer) = tn i" for i
    by (simp add: draft_layer_of_def)
  with drafts.begin_busy [OF assms, of tn] show ?thesis by simp
qed

theorem transaction_busy_leaves_no_claim_witness:
  "\<exists>i\<in>{0, 1 :: nat}. fst (transaction_begin (map (draft_layer_of show_nat) [0, 1])
     ((\<lambda>_. draft_new (0::nat))(1 := (draft_new 0)\<lparr>claimed := True\<rparr>))) = Inl (show_nat i)"
proof -
  have "\<not> (distinct [0, 1 :: nat]
      \<and> (\<forall>i\<in>set [0, 1]. \<not> claimed (((\<lambda>_. draft_new (0::nat))(1 := (draft_new 0)\<lparr>claimed := True\<rparr>)) i)))"
    by simp
  from transaction_busy_leaves_no_claim [OF this, of show_nat]
  obtain i where "i \<in> set [0, 1 :: nat]" "fst (transaction_begin (map (draft_layer_of show_nat) [0, 1])
     ((\<lambda>_. draft_new (0::nat))(1 := (draft_new 0)\<lparr>claimed := True\<rparr>))) = Inl (show_nat i)"
    by (metis fst_conv)
  then show ?thesis by (metis list.set(1) list.set(2))
qed

end
