(* ===== verification/Patching.thy ===== *)
theory Patching
  imports Prelude
begin

section \<open>Patches that overwrite only the fields they name\<close>

text \<open>
  The settings, the profile list and the profile options are all changed by partial records: a
  field that is \<open>None\<close> in the patch is left alone.  The laws that make such patches composable are
  stated once as a locale; the components interpret it with their own patch functions.
\<close>

definition patched :: "'a option \<Rightarrow> 'a option \<Rightarrow> 'a option" where
  "patched p cur = (case p of Some v \<Rightarrow> Some v | None \<Rightarrow> cur)"

lemma patched_simps [simp]:
  "patched None c = c" "patched (Some v) c = Some v" "patched p p = p" "patched p None = p"
  "patched p (patched p c) = patched p c"
  by (auto simp: patched_def split: option.splits)

lemma patched_assoc: "patched (patched r q) c = patched r (patched q c)"
  by (simp add: patched_def split: option.splits)

locale patching =
  fixes patch :: "'p \<Rightarrow> 'p \<Rightarrow> 'p" and empty :: 'p
  assumes patch_assoc: "patch r (patch q s) = patch (patch r q) s"
    and patch_empty: "patch empty s = s"
    and patch_again: "patch p (patch p s) = patch p s"
begin

definition apply_patches :: "'p list \<Rightarrow> 'p \<Rightarrow> 'p" where
  "apply_patches ps s = fold patch ps s"

definition merge_patches :: "'p list \<Rightarrow> 'p" where
  "merge_patches ps = fold patch ps empty"

lemma fold_patch: "fold patch ps (patch q s) = patch (fold patch ps q) s"
  by (induction ps arbitrary: q) (simp_all add: patch_assoc)

lemma apply_is_one_patch: "apply_patches ps s = patch (merge_patches ps) s"
  using fold_patch [of ps empty s] by (simp add: apply_patches_def merge_patches_def patch_empty)

lemma apply_twice: "apply_patches ps (apply_patches ps s) = apply_patches ps s"
  by (simp add: apply_is_one_patch patch_again)

end

end
