(* ===== verification/Verge.thy ===== *)
theory Verge
  imports Draft Patching
begin

section \<open>The application settings\<close>

text \<open>
  Models \<open>IVerge\<close> of \<open>src-tauri/src/config/verge.rs\<close> with every field, patching,
  validation at start-up and loading.  Fields that exist on one platform only are present in the
  record and untouched by the other platforms' code.  What reading and writing the settings file
  gives, and the system language, are arguments.
\<close>

datatype json = JNull | JBool bool | JNumber int | JString string | JArray "json list" | JObject "(string \<times> json) list"

record profile_dns_settings =
  dns_enabled :: bool
  dns_confirmation :: "string option"

record iverge_test_item =
  item_uid :: "string option"
  item_name :: "string option"
  item_icon :: "string option"
  item_url :: "string option"

record iverge_theme =
  primary_color :: "string option"
  secondary_color :: "string option"
  primary_text :: "string option"
  secondary_text :: "string option"
  info_color :: "string option"
  error_color :: "string option"
  warning_color :: "string option"
  success_color :: "string option"
  font_family :: "string option"
  css_injection :: "string option"

record iverge =
  app_log_level :: "string option"
  app_log_max_size :: "u64 option"
  app_log_max_count :: "u64 option"
  language :: "string option"
  theme_mode :: "string option"
  tray_event :: "string option"
  env_type :: "string option"
  start_page :: "string option"
  startup_script :: "string option"
  traffic_graph :: "bool option"
  enable_memory_usage :: "bool option"
  enable_group_icon :: "bool option"
  pause_render_traffic_stats_on_blur :: "bool option"
  common_tray_icon :: "bool option"
  tray_icon :: "string option"
  menu_icon :: "string option"
  menu_order :: "string list option"
  proxy_group_tools_position :: "string option"
  notice_position :: "string option"
  collapse_navbar :: "bool option"
  sysproxy_tray_icon :: "bool option"
  tun_tray_icon :: "bool option"
  enable_tun_mode :: "bool option"
  enable_auto_launch :: "bool option"
  enable_silent_start :: "bool option"
  enable_system_proxy :: "bool option"
  enable_proxy_guard :: "bool option"
  enable_bypass_check :: "bool option"
  enable_dns_settings :: "bool option"
  profile_dns_settings :: "string \<rightharpoonup> profile_dns_settings"
  use_default_bypass :: "bool option"
  system_proxy_bypass :: "string option"
  proxy_guard_duration :: "u64 option"
  proxy_auto_config :: "bool option"
  pac_file_content :: "string option"
  proxy_host :: "string option"
  theme_setting :: "iverge_theme option"
  web_ui_list :: "string list option"
  clash_core :: "string option"
  hotkeys :: "string list option"
  enable_global_hotkey :: "bool option"
  home_cards :: "json option"
  auto_close_connection :: "bool option"
  auto_check_update :: "bool option"
  default_latency_test :: "string option"
  default_latency_timeout :: "16 word option"
  enable_auto_delay_detection :: "bool option"
  auto_delay_detection_interval_minutes :: "u64 option"
  enable_builtin_enhanced :: "bool option"
  proxy_layout_column :: "u8 option"
  test_list :: "iverge_test_item list option"
  auto_log_clean :: "32 word option"
  enable_auto_backup_schedule :: "bool option"
  auto_backup_interval_hours :: "u64 option"
  auto_backup_on_change :: "bool option"
  verge_redir_port :: "u16 option"
  verge_redir_enabled :: "bool option"
  verge_tproxy_port :: "u16 option"
  verge_tproxy_enabled :: "bool option"
  verge_mixed_port :: "u16 option"
  verge_socks_port :: "u16 option"
  verge_socks_enabled :: "bool option"
  verge_port :: "u16 option"
  verge_http_enabled :: "bool option"
  webdav_url :: "string option"
  webdav_username :: "string option"
  webdav_password :: "string option"
  enable_tray_speed :: "bool option"
  tray_proxy_groups_display_mode :: "string option"
  tray_inline_outbound_modes :: "bool option"
  enable_auto_light_weight_mode :: "bool option"
  auto_light_weight_minutes :: "u64 option"
  enable_hover_jump_navigator :: "bool option"
  hover_jump_navigator_delay :: "u64 option"
  enable_external_controller :: "bool option"

definition iverge_default :: iverge where
  "iverge_default = \<lparr>app_log_level = None,
     app_log_max_size = None,
     app_log_max_count = None,
     language = None,
     theme_mode = None,
     tray_event = None,
     env_type = None,
     start_page = None,
     startup_script = None,
     traffic_graph = None,
     enable_memory_usage = None,
     enable_group_icon = None,
     pause_render_traffic_stats_on_blur = None,
     common_tray_icon = None,
     tray_icon = None,
     menu_icon = None,
     menu_order = None,
     proxy_group_tools_position = None,
     notice_position = None,
     collapse_navbar = None,
     sysproxy_tray_icon = None,
     tun_tray_icon = None,
     enable_tun_mode = None,
     enable_auto_launch = None,
     enable_silent_start = None,
     enable_system_proxy = None,
     enable_proxy_guard = None,
     enable_bypass_check = None,
     enable_dns_settings = None,
     profile_dns_settings = Map.empty,
     use_default_bypass = None,
     system_proxy_bypass = None,
     proxy_guard_duration = None,
     proxy_auto_config = None,
     pac_file_content = None,
     proxy_host = None,
     theme_setting = None,
     web_ui_list = None,
     clash_core = None,
     hotkeys = None,
     enable_global_hotkey = None,
     home_cards = None,
     auto_close_connection = None,
     auto_check_update = None,
     default_latency_test = None,
     default_latency_timeout = None,
     enable_auto_delay_detection = None,
     auto_delay_detection_interval_minutes = None,
     enable_builtin_enhanced = None,
     proxy_layout_column = None,
     test_list = None,
     auto_log_clean = None,
     enable_auto_backup_schedule = None,
     auto_backup_interval_hours = None,
     auto_backup_on_change = None,
     verge_redir_port = None,
     verge_redir_enabled = None,
     verge_tproxy_port = None,
     verge_tproxy_enabled = None,
     verge_mixed_port = None,
     verge_socks_port = None,
     verge_socks_enabled = None,
     verge_port = None,
     verge_http_enabled = None,
     webdav_url = None,
     webdav_username = None,
     webdav_password = None,
     enable_tray_speed = None,
     tray_proxy_groups_display_mode = None,
     tray_inline_outbound_modes = None,
     enable_auto_light_weight_mode = None,
     auto_light_weight_minutes = None,
     enable_hover_jump_navigator = None,
     hover_jump_navigator_delay = None,
     enable_external_controller = None\<rparr>"

definition valid_clash_cores :: "string list" where
  "valid_clash_cores = [''verge-mihomo'', ''verge-mihomo-alpha'']"

definition default_mixed :: u16 where
  "default_mixed = 7897"

definition default_pac :: string where
  "default_pac = ''function FindProxyForURL(url, host) {'' @ [char_of (10 :: nat)]
     @ ''  return '' @ [char_of (34 :: nat)]
     @ ''PROXY 127.0.0.1:%mixed-port%; SOCKS5 127.0.0.1:%mixed-port%; DIRECT;'' @ [char_of (34 :: nat)]
     @ '';'' @ [char_of (10 :: nat)] @ ''}'' @ [char_of (10 :: nat)]"

definition template_config :: "platform \<Rightarrow> string \<Rightarrow> iverge" where
  "template_config plat lang = iverge_default\<lparr>
     app_log_max_size := Some 128,
     app_log_max_count := Some 8,
     clash_core := Some ''verge-mihomo'',
     language := Some lang,
     theme_mode := Some ''system'',
     env_type := Some (if plat = Windows then ''powershell'' else ''bash''),
     start_page := Some ''/'',
     traffic_graph := Some True,
     enable_memory_usage := Some True,
     enable_group_icon := Some True,
     pause_render_traffic_stats_on_blur := Some True,
     tray_icon := (if plat = MacOS then Some ''monochrome'' else None),
     menu_icon := Some ''monochrome'',
     notice_position := Some ''top-right'',
     collapse_navbar := Some False,
     common_tray_icon := Some False,
     sysproxy_tray_icon := Some False,
     tun_tray_icon := Some False,
     enable_auto_launch := Some False,
     enable_silent_start := Some False,
     enable_hover_jump_navigator := Some True,
     hover_jump_navigator_delay := Some 280,
     enable_system_proxy := Some False,
     proxy_auto_config := Some False,
     pac_file_content := Some default_pac,
     proxy_host := Some ''127.0.0.1'',
     verge_redir_port := (if plat \<noteq> Windows then Some 7895 else None),
     verge_redir_enabled := (if plat \<noteq> Windows then Some False else None),
     verge_tproxy_port := (if plat = Linux then Some 7896 else None),
     verge_tproxy_enabled := (if plat = Linux then Some False else None),
     verge_mixed_port := Some default_mixed,
     verge_socks_port := Some 7898,
     verge_socks_enabled := Some False,
     verge_port := Some 7899,
     verge_http_enabled := Some False,
     enable_proxy_guard := Some False,
     enable_bypass_check := Some True,
     use_default_bypass := Some True,
     proxy_guard_duration := Some 30,
     auto_close_connection := Some True,
     auto_check_update := Some False,
     enable_builtin_enhanced := Some True,
     auto_log_clean := Some 2,
     enable_auto_backup_schedule := Some False,
     auto_backup_interval_hours := Some 24,
     auto_backup_on_change := Some True,
     enable_tray_speed := (if plat = MacOS then Some False else None),
     tray_proxy_groups_display_mode := Some ''default'',
     tray_inline_outbound_modes := Some False,
     enable_global_hotkey := Some True,
     enable_auto_light_weight_mode := Some False,
     auto_light_weight_minutes := Some 10,
     enable_dns_settings := Some False,
     enable_external_controller := Some False\<rparr>"

definition patch_config :: "platform \<Rightarrow> iverge \<Rightarrow> iverge \<Rightarrow> iverge" where
  "patch_config plat patch s = s\<lparr>
     app_log_level := patched (app_log_level patch) (app_log_level s),
     app_log_max_size := patched (app_log_max_size patch) (app_log_max_size s),
     app_log_max_count := patched (app_log_max_count patch) (app_log_max_count s),
     language := patched (language patch) (language s),
     theme_mode := patched (theme_mode patch) (theme_mode s),
     tray_event := patched (tray_event patch) (tray_event s),
     env_type := patched (env_type patch) (env_type s),
     start_page := patched (start_page patch) (start_page s),
     startup_script := patched (startup_script patch) (startup_script s),
     traffic_graph := patched (traffic_graph patch) (traffic_graph s),
     enable_memory_usage := patched (enable_memory_usage patch) (enable_memory_usage s),
     enable_group_icon := patched (enable_group_icon patch) (enable_group_icon s),
     pause_render_traffic_stats_on_blur := patched (pause_render_traffic_stats_on_blur patch) (pause_render_traffic_stats_on_blur s),
     common_tray_icon := patched (common_tray_icon patch) (common_tray_icon s),
     tray_icon := (if plat = MacOS then patched (tray_icon patch) (tray_icon s) else tray_icon s),
     menu_icon := patched (menu_icon patch) (menu_icon s),
     menu_order := patched (menu_order patch) (menu_order s),
     proxy_group_tools_position := patched (proxy_group_tools_position patch) (proxy_group_tools_position s),
     notice_position := patched (notice_position patch) (notice_position s),
     collapse_navbar := patched (collapse_navbar patch) (collapse_navbar s),
     sysproxy_tray_icon := patched (sysproxy_tray_icon patch) (sysproxy_tray_icon s),
     tun_tray_icon := patched (tun_tray_icon patch) (tun_tray_icon s),
     enable_tun_mode := patched (enable_tun_mode patch) (enable_tun_mode s),
     enable_auto_launch := patched (enable_auto_launch patch) (enable_auto_launch s),
     enable_silent_start := patched (enable_silent_start patch) (enable_silent_start s),
     enable_system_proxy := patched (enable_system_proxy patch) (enable_system_proxy s),
     enable_proxy_guard := patched (enable_proxy_guard patch) (enable_proxy_guard s),
     enable_bypass_check := patched (enable_bypass_check patch) (enable_bypass_check s),
     enable_dns_settings := patched (enable_dns_settings patch) (enable_dns_settings s),
     use_default_bypass := patched (use_default_bypass patch) (use_default_bypass s),
     system_proxy_bypass := patched (system_proxy_bypass patch) (system_proxy_bypass s),
     proxy_guard_duration := patched (proxy_guard_duration patch) (proxy_guard_duration s),
     proxy_auto_config := patched (proxy_auto_config patch) (proxy_auto_config s),
     pac_file_content := patched (pac_file_content patch) (pac_file_content s),
     proxy_host := patched (proxy_host patch) (proxy_host s),
     theme_setting := patched (theme_setting patch) (theme_setting s),
     web_ui_list := patched (web_ui_list patch) (web_ui_list s),
     clash_core := patched (clash_core patch) (clash_core s),
     hotkeys := patched (hotkeys patch) (hotkeys s),
     enable_global_hotkey := patched (enable_global_hotkey patch) (enable_global_hotkey s),
     home_cards := patched (home_cards patch) (home_cards s),
     auto_close_connection := patched (auto_close_connection patch) (auto_close_connection s),
     auto_check_update := patched (auto_check_update patch) (auto_check_update s),
     default_latency_test := patched (default_latency_test patch) (default_latency_test s),
     default_latency_timeout := patched (default_latency_timeout patch) (default_latency_timeout s),
     enable_auto_delay_detection := patched (enable_auto_delay_detection patch) (enable_auto_delay_detection s),
     auto_delay_detection_interval_minutes := patched (auto_delay_detection_interval_minutes patch) (auto_delay_detection_interval_minutes s),
     enable_builtin_enhanced := patched (enable_builtin_enhanced patch) (enable_builtin_enhanced s),
     proxy_layout_column := patched (proxy_layout_column patch) (proxy_layout_column s),
     test_list := patched (test_list patch) (test_list s),
     auto_log_clean := patched (auto_log_clean patch) (auto_log_clean s),
     enable_auto_backup_schedule := patched (enable_auto_backup_schedule patch) (enable_auto_backup_schedule s),
     auto_backup_interval_hours := patched (auto_backup_interval_hours patch) (auto_backup_interval_hours s),
     auto_backup_on_change := patched (auto_backup_on_change patch) (auto_backup_on_change s),
     verge_redir_port := (if plat \<noteq> Windows then patched (verge_redir_port patch) (verge_redir_port s) else verge_redir_port s),
     verge_redir_enabled := (if plat \<noteq> Windows then patched (verge_redir_enabled patch) (verge_redir_enabled s) else verge_redir_enabled s),
     verge_tproxy_port := (if plat = Linux then patched (verge_tproxy_port patch) (verge_tproxy_port s) else verge_tproxy_port s),
     verge_tproxy_enabled := (if plat = Linux then patched (verge_tproxy_enabled patch) (verge_tproxy_enabled s) else verge_tproxy_enabled s),
     verge_mixed_port := patched (verge_mixed_port patch) (verge_mixed_port s),
     verge_socks_port := patched (verge_socks_port patch) (verge_socks_port s),
     verge_socks_enabled := patched (verge_socks_enabled patch) (verge_socks_enabled s),
     verge_port := patched (verge_port patch) (verge_port s),
     verge_http_enabled := patched (verge_http_enabled patch) (verge_http_enabled s),
     webdav_url := patched (webdav_url patch) (webdav_url s),
     webdav_username := patched (webdav_username patch) (webdav_username s),
     webdav_password := patched (webdav_password patch) (webdav_password s),
     enable_tray_speed := (if plat = MacOS then patched (enable_tray_speed patch) (enable_tray_speed s) else enable_tray_speed s),
     tray_proxy_groups_display_mode := patched (tray_proxy_groups_display_mode patch) (tray_proxy_groups_display_mode s),
     tray_inline_outbound_modes := patched (tray_inline_outbound_modes patch) (tray_inline_outbound_modes s),
     enable_auto_light_weight_mode := patched (enable_auto_light_weight_mode patch) (enable_auto_light_weight_mode s),
     auto_light_weight_minutes := patched (auto_light_weight_minutes patch) (auto_light_weight_minutes s),
     enable_hover_jump_navigator := patched (enable_hover_jump_navigator patch) (enable_hover_jump_navigator s),
     hover_jump_navigator_delay := patched (hover_jump_navigator_delay patch) (hover_jump_navigator_delay s),
     enable_external_controller := patched (enable_external_controller patch) (enable_external_controller s)\<rparr>"

definition get_valid_clash_core :: "iverge \<Rightarrow> string" where
  "get_valid_clash_core s = unwrap_or ''verge-mihomo'' (clash_core s)"

datatype level_filter = Off | LvError | Warn | Info | Debug | Trace

definition get_log_level :: "iverge \<Rightarrow> level_filter" where
  "get_log_level s =
     (case app_log_level s of
        None \<Rightarrow> Info
      | Some l \<Rightarrow>
          (let level = to_lower l
           in if level = ''silent'' then Off else if level = ''error'' then LvError
              else if level = ''warn'' then Warn else if level = ''info'' then Info
              else if level = ''debug'' then Debug else if level = ''trace'' then Trace else Info))"

definition glass_to_dark :: "iverge \<Rightarrow> iverge" where
  "glass_to_dark s = (if theme_mode s = Some ''glass'' then s\<lparr>theme_mode := Some ''dark''\<rparr> else s)"

definition core_needs_fix :: "iverge \<Rightarrow> bool" where
  "core_needs_fix s =
     (case clash_core s of None \<Rightarrow> True
      | Some core \<Rightarrow> trim core = [] \<or> trim core \<notin> set valid_clash_cores)"

definition fixed_config :: "iverge \<Rightarrow> bool \<times> iverge" where
  "fixed_config s =
     (let s1 = glass_to_dark s;
          s2 = (if core_needs_fix s1 then s1\<lparr>clash_core := Some ''verge-mihomo''\<rparr> else s1)
      in (theme_mode s = Some ''glass'' \<or> core_needs_fix s1, s2))"

definition reload_config_after_fix :: "iverge \<Rightarrow> iverge draft \<Rightarrow> iverge draft" where
  "reload_config_after_fix c d = apply_draft (snd (edit_draft (\<lambda>_. ((), c)) d))"

definition validate_and_fix_config :: "platform \<Rightarrow> string \<Rightarrow> string + unit \<Rightarrow> string + iverge \<Rightarrow> (iverge \<Rightarrow> string + unit)
    \<Rightarrow> iverge draft \<Rightarrow> (string + unit) \<times> iverge draft" where
  "validate_and_fix_config plat lang path_ok file_read save d =
     (case path_ok of
        Inl e \<Rightarrow> (Inl e, d)
      | Inr _ \<Rightarrow>
          (let config = (case file_read of Inr c \<Rightarrow> c | Inl _ \<Rightarrow> template_config plat lang);
               (needs_fix, config') = fixed_config config
           in if needs_fix
              then (case save config' of Inl e \<Rightarrow> (Inl e, d) | Inr _ \<Rightarrow> (Inr (), reload_config_after_fix config' d))
              else (Inr (), d)))"

definition iverge_new :: "platform \<Rightarrow> string \<Rightarrow> string + unit \<Rightarrow> string + iverge \<Rightarrow> iverge" where
  "iverge_new plat lang path_ok file_read =
     (case path_ok of
        Inl e \<Rightarrow> template_config plat lang
      | Inr _ \<Rightarrow>
          (case file_read of
             Inl e \<Rightarrow> template_config plat lang
           | Inr c \<Rightarrow> (let c1 = glass_to_dark c
                      in if start_page c1 = Some ''/home'' then c1\<lparr>start_page := Some ''/''\<rparr> else c1)))"

subsection \<open>Patches compose\<close>

interpretation verge_patch: patching "patch_config plat" iverge_default
  by unfold_locales (simp_all add: patch_config_def patched_assoc [symmetric] iverge_default_def)


lemma patch_keeps_dns_settings: "profile_dns_settings (patch_config plat p s) = profile_dns_settings s"
  by (simp add: patch_config_def)

subsection \<open>The core that starts is a known one\<close>

lemma fixed_config_core: "trim (get_valid_clash_core (snd (fixed_config s))) \<in> set valid_clash_cores"
proof -
  have "trim ''verge-mihomo'' = ''verge-mihomo''" by (simp add: trim_def is_ws_def)
  then show ?thesis
    by (auto simp: fixed_config_def Let_def core_needs_fix_def get_valid_clash_core_def valid_clash_cores_def
        split: option.splits if_splits)
qed

lemma unfixed_core:
  assumes "\<not> fst (fixed_config s)"
  shows "snd (fixed_config s) = s"
proof -
  from assms have t: "theme_mode s \<noteq> Some ''glass''" and n: "\<not> core_needs_fix (glass_to_dark s)"
    by (simp_all only: fixed_config_def Let_def fst_conv de_Morgan_disj not_False_eq_True)
  from t have g: "glass_to_dark s = s" by (simp only: glass_to_dark_def if_False)
  from n g show ?thesis by (simp only: fixed_config_def Let_def snd_conv if_False)
qed

lemma glass_to_dark_core: "clash_core (glass_to_dark c) = clash_core c"
  by (simp add: glass_to_dark_def)

lemma iverge_new_core: "clash_core (iverge_new plat lang (Inr ()) (Inr c)) = clash_core c"
proof -
  let ?c1 = "glass_to_dark c"
  have "iverge_new plat lang (Inr ()) (Inr c)
      = (if start_page ?c1 = Some ''/home'' then ?c1\<lparr>start_page := Some ''/''\<rparr> else ?c1)"
    by (simp only: iverge_new_def sum.case Let_def)
  then show ?thesis using glass_to_dark_core [of c] by simp
qed

lemma reload_abs: "draft_ok d \<Longrightarrow> draft_abs (reload_config_after_fix c d) = (c, None)"
proof -
  assume ok: "draft_ok d"
  obtain r d1 where e: "edit_draft (\<lambda>_. ((), c)) d = (r, d1)" by (rule prod.exhaust)
  with edit_draft_abs [OF ok, of "\<lambda>_. ((), c)"] have "draft_abs d1 = (fst (draft_abs d), Some c)"
    by (simp add: view_edit_def)
  with e show ?thesis by (simp add: reload_config_after_fix_def apply_draft_abs)
qed

lemma template_core_ok: "\<not> fst (fixed_config (template_config plat lang))"
proof -
  have "trim ''verge-mihomo'' = ''verge-mihomo''" by (simp add: trim_def is_ws_def)
  then show ?thesis
    by (simp add: fixed_config_def Let_def glass_to_dark_def core_needs_fix_def template_config_def valid_clash_cores_def)
qed

text \<open>
  After a successful start-up validation the settings in memory, which were loaded from the same
  file, name one of the shipped cores, up to surrounding white space; and if they were changed, it
  was only after the corrected settings reached the disk.
\<close>

theorem validated_core_is_shipped:
  assumes "draft_ok d" and "draft_abs d = (iverge_new plat lang (Inr ()) file_read, None)"
    and "validate_and_fix_config plat lang (Inr ()) file_read save d = (r, d')"
  shows "(is_ok r \<longrightarrow> trim (get_valid_clash_core (fst (draft_abs d'))) \<in> set valid_clash_cores)
    \<and> (d' \<noteq> d \<longrightarrow> is_ok (save (fst (draft_abs d'))))"
proof (cases file_read)
  case (Inl e)
  then have "d' = d" using assms(3) template_core_ok [of plat lang]
    by (auto simp: validate_and_fix_config_def Let_def split: prod.splits sum.splits if_splits)
  then show ?thesis using Inl assms(2) unfixed_core [OF template_core_ok] fixed_config_core [of "template_config plat lang"]
    by (simp add: iverge_new_def)
next
  case (Inr c)
  obtain b c' where f: "fixed_config c = (b, c')" by fastforce
  have shipped: "trim (get_valid_clash_core c') \<in> set valid_clash_cores"
    using fixed_config_core [of c] f by simp
  have unfixed: "get_valid_clash_core c' = get_valid_clash_core (iverge_new plat lang (Inr ()) (Inr c))" if "\<not> b"
    using that f unfixed_core [of c] by (simp add: get_valid_clash_core_def iverge_new_core)
  have v: "(r, d') = (if b then (case save c' of Inl e \<Rightarrow> (Inl e, d) | Inr _ \<Rightarrow> (Inr (), reload_config_after_fix c' d))
      else (Inr (), d))"
    using assms(3) Inr f by (simp add: validate_and_fix_config_def)
  show ?thesis
  proof (cases b)
    case True
    show ?thesis
    proof (cases "save c'")
      case (Inl e)
      with v True show ?thesis by simp
    next
      case (Inr u)
      with v True have "r = Inr ()" "d' = reload_config_after_fix c' d" by simp_all
      with Inr shipped reload_abs [OF assms(1), of c'] show ?thesis by simp
    qed
  next
    case False
    with v have "r = Inr ()" "d' = d" by simp_all
    with False assms(2) unfixed shipped Inr \<open>file_read = Inr c\<close> show ?thesis by simp
  qed
qed

theorem validated_core_is_shipped_witness:
  "let d = draft_new (iverge_new Linux ''en'' (Inr ()) (Inr iverge_default))
   in trim (get_valid_clash_core (fst (draft_abs
        (snd (validate_and_fix_config Linux ''en'' (Inr ()) (Inr iverge_default) (\<lambda>_. Inr ()) d))))) \<in> set valid_clash_cores"
proof -
  let ?d = "draft_new (iverge_new Linux ''en'' (Inr ()) (Inr iverge_default))"
  have a: "draft_abs ?d = (iverge_new Linux ''en'' (Inr ()) (Inr iverge_default), None)"
    by (simp add: draft_abs_def draft_new_def)
  obtain r d' where v: "validate_and_fix_config Linux ''en'' (Inr ()) (Inr iverge_default) (\<lambda>_. Inr ()) ?d = (r, d')"
    by fastforce
  then have "is_ok r" by (auto simp: validate_and_fix_config_def Let_def split: prod.splits if_splits)
  with validated_core_is_shipped [OF draft_ok_new a v] v show ?thesis by simp
qed

text \<open>Surrounding white space passes the validation and stays in the name of the core that is started.\<close>

lemma untrimmed_core_accepted:
  "let c = iverge_default\<lparr>clash_core := Some '' verge-mihomo''\<rparr>
   in \<not> fst (fixed_config c) \<and> get_valid_clash_core c \<notin> set valid_clash_cores"
  by (simp add: fixed_config_def glass_to_dark_def core_needs_fix_def get_valid_clash_core_def valid_clash_cores_def
      iverge_default_def trim_def is_ws_def Let_def)

end
