(* ===== verification/DnsOverride.thy ===== *)
theory DnsOverride
  imports Verge
begin

section \<open>Per-profile DNS override settings\<close>

text \<open>
  Models \<open>DnsOverrideState\<close>, \<open>dns_settings_for\<close> and \<open>sync_dns_override\<close> of
  \<open>src-tauri/src/config/dns.rs\<close>: the verdict on a requested override is computed when the runtime
  configuration is generated and written back to the settings later, when the settings may already
  say something else.  The settings are the draft cell of the draft crate; the digest that identifies
  the provider fields (\<open>source\<close>) and the outcome of saving the file are arguments.
\<close>

record dns_override_state =
  ovr_profile_uid :: string
  ovr_source :: "string option"
  ovr_enabled :: bool
  ovr_requested :: bool
  ovr_confirmation :: "string option"

definition dns_override_new :: "string \<Rightarrow> string option \<Rightarrow> bool \<Rightarrow> string option \<Rightarrow> dns_override_state" where
  "dns_override_new uid source requested confirmation =
     \<lparr>ovr_profile_uid = uid, ovr_source = source,
      ovr_enabled = (requested \<and> (source = None \<or> source = confirmation)),
      ovr_requested = requested, ovr_confirmation = confirmation\<rparr>"

definition dns_settings_for :: "string \<Rightarrow> iverge \<Rightarrow> profile_dns_settings" where
  "dns_settings_for uid s =
     (case profile_dns_settings s uid of
        Some x \<Rightarrow> x
      | None \<Rightarrow> \<lparr>dns_enabled = unwrap_or False (enable_dns_settings s), dns_confirmation = None\<rparr>)"

definition clears_confirmation :: "dns_override_state \<Rightarrow> bool" where
  "clears_confirmation st \<longleftrightarrow> ovr_confirmation st \<noteq> None \<and> ovr_source st \<noteq> ovr_confirmation st"

definition recorded_settings :: "dns_override_state \<Rightarrow> profile_dns_settings" where
  "recorded_settings st = \<lparr>dns_enabled = ovr_enabled st,
     dns_confirmation = (if clears_confirmation st then None else ovr_confirmation st)\<rparr>"

definition apply_to :: "dns_override_state \<Rightarrow> iverge \<Rightarrow> bool \<times> iverge" where
  "apply_to st s =
     (if ovr_profile_uid st = [] then (False, s)
      else let settings = dns_settings_for (ovr_profile_uid st) s
      in if (dns_enabled settings, dns_confirmation settings) \<noteq> (ovr_requested st, ovr_confirmation st) then (False, s)
      else if ovr_enabled st = ovr_requested st \<and> \<not> clears_confirmation st
              \<and> profile_dns_settings s (ovr_profile_uid st) \<noteq> None then (False, s)
      else (True, s\<lparr>profile_dns_settings := (profile_dns_settings s)(ovr_profile_uid st \<mapsto> recorded_settings st)\<rparr>))"

text \<open>A draft cell as the one layer of a transaction.\<close>

definition draft_cell :: "string \<Rightarrow> 'a draft draft_layer" where
  "draft_cell name = \<lparr>try_claim = claim, release = unclaim, layer_apply = apply_draft,
     layer_discard = discard_draft, layer_name = name\<rparr>"

datatype dns_effect = RefreshVerge | AutoDisabledNotice | SaveVerge iverge

definition sync_dns_override :: "dns_override_state option \<Rightarrow> (iverge \<Rightarrow> string + unit) \<Rightarrow> iverge draft
    \<Rightarrow> (string + unit) \<times> iverge draft \<times> dns_effect list" where
  "sync_dns_override state save d =
     (case state of
        None \<Rightarrow> (Inr (), d, [])
      | Some st \<Rightarrow>
          (case transaction_begin [draft_cell ''verge''] d of
             (Inl e, d1) \<Rightarrow> (Inl e, d1, [])
           | (Inr tx, d1) \<Rightarrow>
               (let (changed, d2) = edit_draft (apply_to st) d1
                in if \<not> changed then (Inr (), transaction_drop tx d2, [])
                   else let d3 = transaction_commit tx d2; v = fst (draft_abs d3)
                        in (save v, d3, [RefreshVerge]
                              @ (if ovr_requested st \<and> \<not> ovr_enabled st then [AutoDisabledNotice] else [])
                              @ [SaveVerge v]))))"

subsection \<open>What a synchronisation writes\<close>

lemma apply_to_cases:
  "apply_to st s = (False, s) \<or>
   (let uid = ovr_profile_uid st; old = dns_settings_for uid s
    in uid \<noteq> [] \<and> dns_enabled old = ovr_requested st \<and> dns_confirmation old = ovr_confirmation st
       \<and> apply_to st s = (True, s\<lparr>profile_dns_settings := (profile_dns_settings s)(uid \<mapsto> recorded_settings st)\<rparr>))"
  by (simp only: apply_to_def Let_def prod.inject split: if_split) blast

lemma draft_abs_flags [simp]:
  "draft_abs (unclaim d) = draft_abs d" "draft_abs (d\<lparr>claimed := b\<rparr>) = draft_abs d"
  by (simp_all add: draft_abs_def unclaim_def)

lemma draft_ok_claimed [simp]: "draft_ok (d\<lparr>claimed := b\<rparr>) = draft_ok d"
  by (simp add: draft_ok_def)

lemma edit_draft_claimed: "claimed (snd (edit_draft f d)) = claimed d"
  by (simp add: edit_draft_def Let_def split: prod.splits)

lemma sync_dns_override_claimed:
  "claimed d \<Longrightarrow> sync_dns_override (Some st) save d = (Inl ''verge'', d, [])"
  by (simp add: sync_dns_override_def transaction_begin_def draft_cell_def claim_def)

lemma sync_dns_override_free:
  assumes "draft_ok d" and "\<not> claimed d" and "draft_abs d = (v, None)"
    and "sync_dns_override (Some st) save d = (r, d', es)"
  shows "\<not> claimed d' \<and> draft_abs d' = (snd (apply_to st v), None)
    \<and> (if fst (apply_to st v) then r = save (snd (apply_to st v)) \<and> SaveVerge (snd (apply_to st v)) \<in> set es
       else r = Inr () \<and> es = [])"
proof -
  let ?d1 = "d\<lparr>claimed := True\<rparr>"
  obtain c d2 where e: "edit_draft (apply_to st) ?d1 = (c, d2)" by (rule prod.exhaust)
  have abs2: "c = fst (apply_to st v)" "draft_abs d2 = (v, Some (snd (apply_to st v)))"
    using edit_draft_abs [of ?d1 "apply_to st"] assms(1,3) e
    by (simp_all add: view_edit_def split: prod.splits)
  let ?tx = "\<lparr>layers = [draft_cell ''verge''], is_committed = False\<rparr>"
  have b: "transaction_begin [draft_cell ''verge''] d = (Inr ?tx, ?d1)"
    using assms(2) by (simp add: transaction_begin_def draft_cell_def claim_def)
  have drop: "transaction_drop ?tx d2 = unclaim (discard_draft d2)"
    and commit: "transaction_commit ?tx d2 = unclaim (apply_draft d2)"
    by (simp_all add: transaction_drop_def transaction_commit_def draft_cell_def)
  have s: "(r, d', es) = (if \<not> c then (Inr (), unclaim (discard_draft d2), [])
      else (save (snd (apply_to st v)), unclaim (apply_draft d2), [RefreshVerge]
              @ (if ovr_requested st \<and> \<not> ovr_enabled st then [AutoDisabledNotice] else [])
              @ [SaveVerge (snd (apply_to st v))]))"
  proof -
    have v3: "fst (draft_abs (unclaim (apply_draft d2))) = snd (apply_to st v)"
      using abs2(2) by (simp add: apply_draft_abs)
    have "sync_dns_override (Some st) save d = (if \<not> c then (Inr (), transaction_drop ?tx d2, [])
        else let d3 = transaction_commit ?tx d2; v = fst (draft_abs d3)
             in (save v, d3, [RefreshVerge]
                  @ (if ovr_requested st \<and> \<not> ovr_enabled st then [AutoDisabledNotice] else []) @ [SaveVerge v]))"
      by (simp only: sync_dns_override_def b e option.case prod.case sum.case Let_def)
    then show ?thesis unfolding drop commit Let_def v3 assms(4) .
  qed
  have "snd (apply_to st v) = v" if "\<not> c"
    using that abs2(1) apply_to_cases [of st v] by (auto simp only: fst_conv snd_conv Let_def)
  with s abs2 show ?thesis
    by (cases c) (simp_all add: unclaim_def discard_draft_abs apply_draft_abs)
qed

text \<open>
  Writing an override verdict back never touches what the user changed meanwhile: the settings of
  every other profile stay, and the profile's own settings change only if they are still the request
  the verdict answers, and then to that verdict; the settings' draft slot is free afterwards.
\<close>

theorem dns_sync_keeps_later_writes:
  assumes "draft_ok d" and "\<not> claimed d" and "draft_abs d = (v, None)"
    and "sync_dns_override (Some st) save d = (r, d', es)"
  shows "(let uid = ovr_profile_uid st; old = dns_settings_for uid v; new = fst (draft_abs d')
    in \<not> claimed d' \<and> snd (draft_abs d') = None
       \<and> (\<forall>u. u \<noteq> uid \<longrightarrow> dns_settings_for u new = dns_settings_for u v)
       \<and> (dns_settings_for uid new \<noteq> old \<longrightarrow>
            dns_enabled old = ovr_requested st \<and> dns_confirmation old = ovr_confirmation st
            \<and> dns_settings_for uid new = recorded_settings st))"
proof -
  from sync_dns_override_free [OF assms] have d': "\<not> claimed d'" "draft_abs d' = (snd (apply_to st v), None)"
    by simp_all
  from apply_to_cases [of st v] show ?thesis
  proof
    assume "apply_to st v = (False, v)"
    with d' show ?thesis by (simp add: Let_def)
  next
    assume *: "let uid = ovr_profile_uid st; old = dns_settings_for uid v
      in uid \<noteq> [] \<and> dns_enabled old = ovr_requested st \<and> dns_confirmation old = ovr_confirmation st
       \<and> apply_to st v = (True, v\<lparr>profile_dns_settings := (profile_dns_settings v)(uid \<mapsto> recorded_settings st)\<rparr>)"
    then have n: "snd (apply_to st v)
        = v\<lparr>profile_dns_settings := (profile_dns_settings v)(ovr_profile_uid st \<mapsto> recorded_settings st)\<rparr>"
      by (simp only: Let_def snd_conv)
    have "dns_settings_for u (snd (apply_to st v))
        = (if u = ovr_profile_uid st then recorded_settings st else dns_settings_for u v)" for u
      unfolding n by (simp add: dns_settings_for_def split: option.splits)
    with d' * show ?thesis by (simp add: Let_def)
  qed
qed

theorem dns_sync_keeps_later_writes_witness:
  "let v = iverge_default\<lparr>profile_dns_settings := [''p1'' \<mapsto> \<lparr>dns_enabled = True, dns_confirmation = None\<rparr>]\<rparr>;
       st = dns_override_new ''p1'' (Some ''digest'') True None;
       (r, d', es) = sync_dns_override (Some st) (\<lambda>_. Inr ()) (draft_new v)
   in dns_settings_for ''p1'' (fst (draft_abs d')) = recorded_settings st \<and> \<not> dns_enabled (recorded_settings st)"
proof -
  let ?v = "iverge_default\<lparr>profile_dns_settings := [''p1'' \<mapsto> \<lparr>dns_enabled = True, dns_confirmation = None\<rparr>]\<rparr>"
  let ?st = "dns_override_new ''p1'' (Some ''digest'') True None"
  obtain r d' es where s: "sync_dns_override (Some ?st) (\<lambda>_. Inr ()) (draft_new ?v) = (r, d', es)"
    by (rule prod_cases3)
  have c: "\<not> claimed (draft_new ?v)" "draft_abs (draft_new ?v) = (?v, None)"
    by (simp_all add: draft_new_def draft_abs_def)
  have rec: "recorded_settings ?st = \<lparr>dns_enabled = False, dns_confirmation = None\<rparr>"
    by (simp add: recorded_settings_def dns_override_new_def clears_confirmation_def)
  have old: "dns_settings_for ''p1'' ?v = \<lparr>dns_enabled = True, dns_confirmation = None\<rparr>"
    by (simp add: dns_settings_for_def)
  have "fst (apply_to ?st ?v)"
    using old by (simp add: apply_to_def dns_override_new_def Let_def)
  then have "dns_settings_for ''p1'' (fst (draft_abs d')) \<noteq> dns_settings_for ''p1'' ?v"
    using sync_dns_override_free [OF draft_ok_new c s] apply_to_cases [of ?st ?v] rec old
    by (auto simp: Let_def dns_settings_for_def dns_override_new_def)
  with dns_sync_keeps_later_writes [OF draft_ok_new c s] s rec show ?thesis
    by (simp add: Let_def dns_override_new_def)
qed

end
