(* ===== verification/Failures.thy ===== *)
theory Failures
  imports Prelude "HOL-Library.AList"
begin

section \<open>Error chains and the table of unresolved failures\<close>

text \<open>
  An \<open>anyhow::Error\<close> is the list of its causes, the outermost context first: \<open>context\<close> puts a
  cause in front, \<open>downcast_ref\<close> finds the first cause of a type, \<open>{:#}\<close> prints them all.  The
  second part models the failure table of \<open>src-tauri/src/core/notification.rs\<close>; its hash map is
  an association list with one entry per key, read only through its sorted snapshot and by key.
\<close>

datatype sysproxy_failure =
    PrivilegeRequired | DirectFallback string | SidecarWhileServiceReady | GuardStopped string
  | CoreNotReady | SystemCallFailed

text \<open>The cases of the \<open>sysproxy\<close> crate's error that the code names, and the rest.\<close>

datatype sysproxy_error =
  RequiresAdminPrivileges | SystemCall string | NoActiveNetworkService | NetworkInterface | OtherSysproxy string

datatype cause =
    Text string
  | Proxy sysproxy_failure
  | StateUnknown
  | Sys sysproxy_error
  | StartRefusal u16 string string
  | Residual string

type_synonym error = "cause list"
type_synonym 'a outcome = "error + 'a"

definition failure_code :: "sysproxy_failure \<Rightarrow> string" where
  "failure_code f = (case f of PrivilegeRequired \<Rightarrow> ''SYSPROXY_PRIVILEGE_REQUIRED''
     | DirectFallback _ \<Rightarrow> ''SYSPROXY_DIRECT_FALLBACK''
     | SidecarWhileServiceReady \<Rightarrow> ''SYSPROXY_SIDECAR_WHILE_SERVICE_READY''
     | GuardStopped _ \<Rightarrow> ''SYSPROXY_GUARD_STOPPED'' | CoreNotReady \<Rightarrow> ''SYSPROXY_CORE_NOT_READY''
     | SystemCallFailed \<Rightarrow> ''SYSPROXY_SYSTEM_CALL_FAILED'')"

definition show_failure :: "sysproxy_failure \<Rightarrow> string" where
  "show_failure f = (case f of PrivilegeRequired \<Rightarrow> ''system proxy write requires elevated privileges''
     | DirectFallback d \<Rightarrow> ''system proxy failed and fell back to direct: '' @ d
     | SidecarWhileServiceReady \<Rightarrow> ''system proxy write was refused locally while the service was ready''
     | GuardStopped d \<Rightarrow> ''system proxy guard stopped after repeated failures: '' @ d
     | CoreNotReady \<Rightarrow> ''the core is not ready, so the system proxy was not enabled''
     | SystemCallFailed \<Rightarrow> ''a Windows system call failed while writing the system proxy'')"

definition show_sysproxy_error :: "sysproxy_error \<Rightarrow> string" where
  "show_sysproxy_error e = (case e of OtherSysproxy s \<Rightarrow> s | SystemCall s \<Rightarrow> s | _ \<Rightarrow> [])"

definition show_start_refusal :: "u16 \<Rightarrow> string \<Rightarrow> string \<Rightarrow> string" where
  "show_start_refusal code core_path message =
     ''failed to start Service core at '' @ core_path @ '' (code '' @ show_nat (unat code) @ ''): '' @ message"

definition state_unknown_text :: string where
  "state_unknown_text = ''the system proxy was left partly applied; turning it off was attempted''"

definition show_cause :: "cause \<Rightarrow> string" where
  "show_cause c = (case c of Text s \<Rightarrow> s | Proxy f \<Rightarrow> show_failure f
     | StateUnknown \<Rightarrow> state_unknown_text
     | Sys e \<Rightarrow> show_sysproxy_error e | StartRefusal code p m \<Rightarrow> show_start_refusal code p m | Residual s \<Rightarrow> s)"

fun show_chain :: "error \<Rightarrow> string" where
  "show_chain [] = []"
| "show_chain [c] = show_cause c"
| "show_chain (c # cs) = show_cause c @ '': '' @ show_chain cs"

definition bail :: "string \<Rightarrow> error" where
  "bail msg = [Text msg]"

definition add_context :: "cause \<Rightarrow> error \<Rightarrow> error" where
  "add_context c e = c # e"

fun from_chain :: "error \<Rightarrow> sysproxy_failure option" where
  "from_chain [] = None"
| "from_chain (Proxy f # cs) = Some f"
| "from_chain (_ # cs) = from_chain cs"

fun refusal_of :: "error \<Rightarrow> (u16 \<times> string \<times> string) option" where
  "refusal_of [] = None"
| "refusal_of (StartRefusal code p m # cs) = Some (code, p, m)"
| "refusal_of (_ # cs) = refusal_of cs"

definition state_unknown_in :: "error \<Rightarrow> bool" where
  "state_unknown_in e \<longleftrightarrow> StateUnknown \<in> set e"

lemma from_chain_context [simp]:
  "from_chain (Text t # e) = from_chain e" "from_chain (StateUnknown # e) = from_chain e"
  by simp_all

lemma state_unknown_cons [simp]:
  "state_unknown_in (c # e) \<longleftrightarrow> c = StateUnknown \<or> state_unknown_in e"
  by (auto simp: state_unknown_in_def)

definition carries_a_mappable_code :: "error \<Rightarrow> bool" where
  "carries_a_mappable_code e \<longleftrightarrow> from_chain e \<noteq> None"

definition rollback_failure :: "error \<Rightarrow> error \<Rightarrow> error" where
  "rollback_failure caused_by rollback =
     (let state_unknown = state_unknown_in caused_by \<or> state_unknown_in rollback;
          combined = (if carries_a_mappable_code caused_by \<or> \<not> carries_a_mappable_code rollback
            then add_context (Text (''the rollback that followed also failed: '' @ show_chain rollback)) caused_by
            else add_context (Text (''this rollback followed an earlier failure: '' @ show_chain caused_by)) rollback)
      in if state_unknown \<and> \<not> state_unknown_in combined then add_context StateUnknown combined else combined)"

text \<open>
  Joining a failure with the failure of the rollback after it never hides what the user can act
  on: the joint error is classified like the cause, or like the rollback when only that is
  classified, and it says the proxy state is unknown exactly when one of the two said so.
\<close>

theorem rollback_failure_keeps_classification:
  "from_chain (rollback_failure c r) = (case from_chain c of Some f \<Rightarrow> Some f | None \<Rightarrow> from_chain r)
   \<and> (state_unknown_in (rollback_failure c r) \<longleftrightarrow> state_unknown_in c \<or> state_unknown_in r)"
  by (auto simp: rollback_failure_def Let_def add_context_def carries_a_mappable_code_def split: option.splits)

subsection \<open>The failure table\<close>

datatype failed_operation = SystemProxyEnable | SystemProxyDisable | SystemProxyRestore | SystemProxyGuard

definition outranks :: "failed_operation \<Rightarrow> failed_operation \<Rightarrow> bool" where
  "outranks a b \<longleftrightarrow> a \<in> {SystemProxyEnable, SystemProxyDisable} \<and> b = SystemProxyRestore"

fun retired_by_success_of :: "failed_operation \<Rightarrow> failed_operation \<Rightarrow> bool" where
  "retired_by_success_of SystemProxyGuard asked = False"
| "retired_by_success_of op SystemProxyGuard = False"
| "retired_by_success_of op SystemProxyEnable = True"
| "retired_by_success_of op SystemProxyDisable = True"
| "retired_by_success_of SystemProxyRestore SystemProxyRestore = True"
| "retired_by_success_of op SystemProxyRestore = False"

record pending_failure =
  pf_code :: string
  pf_detail :: string
  pf_operation :: failed_operation
  pf_sequence :: u64

record failure_table =
  entries :: "(string \<times> pending_failure) list"
  sequence :: u64
  nudges :: nat

definition table_default :: failure_table where
  "table_default = \<lparr>entries = [], sequence = 0, nudges = 0\<rparr>"

definition kept_operation :: "failed_operation \<Rightarrow> pending_failure option \<Rightarrow> failed_operation" where
  "kept_operation op existing =
     (case existing of Some f \<Rightarrow> (if outranks (pf_operation f) op then pf_operation f else op) | None \<Rightarrow> op)"

definition table_record :: "failed_operation \<Rightarrow> string \<Rightarrow> string \<Rightarrow> failure_table \<Rightarrow> failure_table" where
  "table_record op code detail t =
     (let op' = kept_operation op (map_of (entries t) code);
          f = \<lparr>pf_code = code, pf_detail = detail, pf_operation = op', pf_sequence = sequence t + 1\<rparr>
      in t\<lparr>entries := AList.update code f (entries t), sequence := sequence t + 1\<rparr>)"

definition table_snapshot :: "failure_table \<Rightarrow> pending_failure list" where
  "table_snapshot t = sort_key pf_sequence (map snd (entries t))"

definition retain :: "(pending_failure \<Rightarrow> bool) \<Rightarrow> failure_table \<Rightarrow> bool \<times> failure_table" where
  "retain keep t = (let es = filter (\<lambda>(k, f). keep f) (entries t)
     in (length (entries t) \<noteq> length es, t\<lparr>entries := es\<rparr>))"

definition retire_guard :: "failure_table \<Rightarrow> bool \<times> failure_table" where
  "retire_guard t = retain (\<lambda>f. pf_operation f \<noteq> SystemProxyGuard) t"

definition retire_system_proxy :: "failed_operation \<Rightarrow> failure_table \<Rightarrow> bool \<times> failure_table" where
  "retire_system_proxy asked t = retain (\<lambda>f. \<not> retired_by_success_of (pf_operation f) asked) t"

definition notify_pending_failures_changed :: "failure_table \<Rightarrow> failure_table" where
  "notify_pending_failures_changed t = t\<lparr>nudges := nudges t + 1\<rparr>"

definition record_failure :: "failed_operation \<Rightarrow> string \<Rightarrow> string \<Rightarrow> failure_table \<Rightarrow> failure_table" where
  "record_failure op code detail t = notify_pending_failures_changed (table_record op code detail t)"

definition has_pending_failure :: "string \<Rightarrow> failure_table \<Rightarrow> bool" where
  "has_pending_failure code t \<longleftrightarrow> map_of (entries t) code \<noteq> None"

definition retire_guard_failures :: "failure_table \<Rightarrow> failure_table" where
  "retire_guard_failures t = (let (gone, t') = retire_guard t in if gone then notify_pending_failures_changed t' else t')"

definition retire_system_proxy_failures :: "failed_operation \<Rightarrow> failure_table \<Rightarrow> failure_table" where
  "retire_system_proxy_failures asked t =
     (let (gone, t') = retire_system_proxy asked t in if gone then notify_pending_failures_changed t' else t')"

text \<open>\<open>asking_for\<close> sets the task-local \<open>ASKING_FOR\<close>; without it the operation is a restore.\<close>

definition what_was_asked :: "failed_operation option \<Rightarrow> failed_operation" where
  "what_was_asked asking = unwrap_or SystemProxyRestore asking"

datatype table_op = Record failed_operation string string | RetireGuard | RetireProxy failed_operation

fun table_step :: "table_op \<Rightarrow> failure_table \<Rightarrow> failure_table" where
  "table_step (Record op code detail) t = record_failure op code detail t"
| "table_step RetireGuard t = retire_guard_failures t"
| "table_step (RetireProxy asked) t = retire_system_proxy_failures asked t"

abbreviation lookup :: "failure_table \<Rightarrow> string \<Rightarrow> pending_failure option" where
  "lookup t \<equiv> map_of (entries t)"

definition keys_distinct :: "failure_table \<Rightarrow> bool" where
  "keys_distinct t \<longleftrightarrow> distinct (map fst (entries t))"

lemma retain_lookup:
  "distinct (map fst es) \<Longrightarrow> map_of (filter (\<lambda>(k, f). keep f) es) c
     = (case map_of es c of None \<Rightarrow> None | Some f \<Rightarrow> if keep f then Some f else None)"
proof (induction es)
  case Nil
  then show ?case by simp
next
  case (Cons e es)
  then have "map_of es (fst e) = None" by (simp add: map_of_eq_None_iff)
  with Cons show ?case by (cases e) auto
qed

lemma retain_distinct: "distinct (map fst es) \<Longrightarrow> distinct (map fst (filter p es))"
  by (induction es) auto

lemma table_step_distinct: "keys_distinct t \<Longrightarrow> keys_distinct (table_step x t)"
  by (cases x)
    (auto simp: keys_distinct_def record_failure_def table_record_def notify_pending_failures_changed_def Let_def
      retire_guard_failures_def retire_system_proxy_failures_def retire_guard_def retire_system_proxy_def retain_def
      retain_distinct distinct_update)

lemma table_step_lookup:
  assumes "keys_distinct t"
  shows "lookup (table_step x t) c =
    (case x of
       Record op code detail \<Rightarrow>
         (if c = code then Some \<lparr>pf_code = code, pf_detail = detail, pf_operation = kept_operation op (lookup t code),
            pf_sequence = sequence t + 1\<rparr> else lookup t c)
     | RetireGuard \<Rightarrow> (case lookup t c of Some f \<Rightarrow> if pf_operation f = SystemProxyGuard then None else Some f | None \<Rightarrow> None)
     | RetireProxy asked \<Rightarrow> (case lookup t c of Some f \<Rightarrow>
         if retired_by_success_of (pf_operation f) asked then None else Some f | None \<Rightarrow> None))"
  using assms
  by (cases x)
    (auto simp: keys_distinct_def record_failure_def table_record_def notify_pending_failures_changed_def Let_def
      retire_guard_failures_def retire_system_proxy_failures_def retire_guard_def retire_system_proxy_def retain_def
      retain_lookup update_conv' split: option.splits)

fun table_run :: "table_op list \<Rightarrow> failure_table \<Rightarrow> failure_table" where
  "table_run [] t = t"
| "table_run (x # xs) t = table_run xs (table_step x t)"

lemma table_run_distinct: "keys_distinct t \<Longrightarrow> keys_distinct (table_run xs t)"
  by (induction xs arbitrary: t) (auto simp: table_step_distinct)

definition user_request :: "failed_operation \<Rightarrow> bool" where
  "user_request op \<longleftrightarrow> op = SystemProxyEnable \<or> op = SystemProxyDisable"

text \<open>What the table hears that says nothing about a request the user made under \<open>code\<close>.\<close>

fun incidental :: "string \<Rightarrow> table_op \<Rightarrow> bool" where
  "incidental code (Record op c detail) \<longleftrightarrow> c = code \<longrightarrow> op \<noteq> SystemProxyGuard"
| "incidental code RetireGuard \<longleftrightarrow> True"
| "incidental code (RetireProxy asked) \<longleftrightarrow> \<not> user_request asked"

lemma incidental_keeps:
  assumes "keys_distinct t" "incidental code x" "lookup t code = Some f" "user_request (pf_operation f)"
  shows "\<exists>f'. lookup (table_step x t) code = Some f' \<and> user_request (pf_operation f')"
  using assms
proof (cases x)
  case (RetireProxy asked)
  with assms show ?thesis
    by (cases asked; cases "pf_operation f") (auto simp: table_step_lookup user_request_def simp del: table_step.simps)
next
  case (Record op c detail)
  with assms show ?thesis
    by (cases op) (auto simp: table_step_lookup user_request_def kept_operation_def outranks_def
        simp del: table_step.simps)
qed (auto simp: table_step_lookup user_request_def simp del: table_step.simps)

text \<open>
  The failure of something the user asked for stays in the table, under a user request, until the
  user asks again and gets an answer: no later failure or success of an incidental restore, and no
  replaced guard, removes it or demotes it.
\<close>

theorem user_failure_stays_pending:
  assumes "keys_distinct t" and "user_request op" and "\<forall>x\<in>set xs. incidental code x"
  shows "\<exists>f. lookup (table_run xs (record_failure op code detail t)) code = Some f \<and> user_request (pf_operation f)"
proof -
  let ?t = "record_failure op code detail t"
  have d: "keys_distinct ?t" and s: "\<exists>f. lookup ?t code = Some f \<and> user_request (pf_operation f)"
    using table_step_distinct [OF assms(1), of "Record op code detail"]
      table_step_lookup [OF assms(1), of "Record op code detail" code] assms(2)
    by (auto simp: kept_operation_def outranks_def user_request_def split: option.splits)
  have "keys_distinct t \<Longrightarrow> \<exists>f. lookup t code = Some f \<and> user_request (pf_operation f) \<Longrightarrow>
      \<exists>f. lookup (table_run xs t) code = Some f \<and> user_request (pf_operation f)" for t
    using assms(3)
  proof (induction xs arbitrary: t)
    case (Cons x xs)
    then show ?case using incidental_keeps [of t code x] table_step_distinct [of t x] by auto
  qed simp
  from this [OF d s] show ?thesis .
qed

theorem user_failure_stays_pending_witness:
  "\<exists>f. lookup (table_run [RetireProxy SystemProxyRestore, Record SystemProxyRestore ''C'' ''d'', RetireGuard]
       (record_failure SystemProxyEnable ''C'' ''x'' table_default)) ''C'' = Some f \<and> user_request (pf_operation f)"
  by (rule user_failure_stays_pending) (simp_all add: keys_distinct_def table_default_def user_request_def)

end
