(* ===== verification/RunHealth.thy ===== *)
theory RunHealth
  imports Prelude
begin

section \<open>Run state: service health, session intent and probe classification\<close>

text \<open>
  Models \<open>src-tauri/src/core/runstate/health.rs\<close> and \<open>probe.rs\<close> and the running mode of
  \<open>core/manager/mod.rs\<close>: the observed health of the privileged service, the snapshot the rest
  of the program reads, and the pure classification of a protocol-version reply.  The protocol
  types and constants of the service crate are parameters (\<open>service_contract\<close>).
\<close>

datatype running_mode = ModeService | ModeSidecar | NotRunning

datatype service_health = Unknown | Ready | NotInstalled | VersionMismatch | Unavailable string

datatype pending_action = Install | Uninstall | Reinstall | ForceReinstall

definition health_kind :: "service_health \<Rightarrow> string" where
  "health_kind h = (case h of Unknown \<Rightarrow> ''unknown'' | Ready \<Rightarrow> ''ready'' | NotInstalled \<Rightarrow> ''notInstalled''
     | VersionMismatch \<Rightarrow> ''versionMismatch'' | Unavailable _ \<Rightarrow> ''unavailable'')"

definition health_reason :: "service_health \<Rightarrow> string option" where
  "health_reason h = (case h of Unavailable r \<Rightarrow> Some r | _ \<Rightarrow> None)"

record run_state =
  health :: service_health
  pending :: "pending_action option"
  sidecar_allowed :: bool
  mode :: running_mode
  is_admin :: bool
  op_in_flight :: bool

definition service_ready :: "run_state \<Rightarrow> bool" where
  "service_ready s \<longleftrightarrow> health s = Ready"

definition service_usable :: "run_state \<Rightarrow> bool" where
  "service_usable s \<longleftrightarrow> service_ready s \<and> \<not> op_in_flight s"

definition tun_capable :: "run_state \<Rightarrow> bool" where
  "tun_capable s \<longleftrightarrow> is_admin s \<or> service_usable s"

definition service_needs_attention :: "run_state \<Rightarrow> bool" where
  "service_needs_attention s =
     (if op_in_flight s then False
      else if pending s \<noteq> None then True
      else if sidecar_allowed s then False
      else (case health s of VersionMismatch \<Rightarrow> True | Unavailable _ \<Rightarrow> True | _ \<Rightarrow> False))"

definition tun_should_be_disabled :: "run_state \<Rightarrow> bool \<Rightarrow> bool" where
  "tun_should_be_disabled s tun_enabled =
     (if \<not> tun_enabled \<or> tun_capable s then False
      else health s \<noteq> Unknown \<and> \<not> op_in_flight s \<and> \<not> service_needs_attention s)"

definition startup_tun_should_be_disabled :: "run_state \<Rightarrow> bool \<Rightarrow> bool" where
  "startup_tun_should_be_disabled s tun_enabled \<longleftrightarrow> health s = NotInstalled \<and> tun_should_be_disabled s tun_enabled"

record run_state_view =
  view_mode :: running_mode
  view_service :: string
  view_unavailable_reason :: "string option"
  view_pending_action :: "pending_action option"
  view_sidecar_allowed :: bool
  view_is_admin :: bool
  view_op_in_flight :: bool
  view_service_usable :: bool
  view_tun_capable :: bool
  view_needs_attention :: bool

definition to_view :: "run_state \<Rightarrow> run_state_view" where
  "to_view s = \<lparr>view_mode = mode s, view_service = health_kind (health s),
     view_unavailable_reason = health_reason (health s), view_pending_action = pending s,
     view_sidecar_allowed = sidecar_allowed s, view_is_admin = is_admin s,
     view_op_in_flight = op_in_flight s, view_service_usable = service_usable s,
     view_tun_capable = tun_capable s, view_needs_attention = service_needs_attention s\<rparr>"

text \<open>The part of the state behind the service lock.\<close>

record stored_service =
  svc_health :: service_health
  svc_pending :: "pending_action option"
  svc_sidecar :: bool

definition stored_default :: stored_service where
  "stored_default = \<lparr>svc_health = Unknown, svc_pending = None, svc_sidecar = False\<rparr>"

definition stored_observe :: "service_health \<Rightarrow> stored_service \<Rightarrow> stored_service" where
  "stored_observe h s = s\<lparr>svc_health := h, svc_pending := None, svc_sidecar := False\<rparr>"

definition stored_request :: "pending_action \<Rightarrow> stored_service \<Rightarrow> stored_service" where
  "stored_request a s = s\<lparr>svc_pending := Some a, svc_sidecar := False\<rparr>"

definition stored_allow_sidecar :: "stored_service \<Rightarrow> stored_service" where
  "stored_allow_sidecar s = s\<lparr>svc_pending := None, svc_sidecar := True\<rparr>"

definition stored_ok :: "stored_service \<Rightarrow> bool" where
  "stored_ok s \<longleftrightarrow> \<not> (svc_pending s \<noteq> None \<and> svc_sidecar s)"

lemma stored_ok_ops [simp, intro]:
  "stored_ok (stored_observe h s)" "stored_ok (stored_request a s)" "stored_ok (stored_allow_sidecar s)"
  "stored_ok stored_default" "stored_ok s \<Longrightarrow> stored_ok (s\<lparr>svc_sidecar := False\<rparr>)"
  by (simp_all add: stored_ok_def stored_observe_def stored_request_def stored_allow_sidecar_def stored_default_def)

subsection \<open>When TUN is turned off\<close>

text \<open>
  TUN is turned off for lack of privileges exactly when the user is not an administrator, no
  privileged operation runs or is asked for, and the service is either absent or unusable with the
  sidecar accepted in its place; in particular never while the user still has a decision to make.
\<close>

theorem tun_disabled_exactly_when_conclusive:
  "tun_should_be_disabled s True \<longleftrightarrow>
     \<not> is_admin s \<and> \<not> op_in_flight s \<and> pending s = None
     \<and> (health s = NotInstalled
        \<or> sidecar_allowed s \<and> (health s = VersionMismatch \<or> (\<exists>r. health s = Unavailable r)))"
  by (cases "health s")
    (auto simp: tun_should_be_disabled_def tun_capable_def service_usable_def service_ready_def
      service_needs_attention_def)

lemma tun_never_disabled_when_asked:
  "service_needs_attention s \<Longrightarrow> \<not> tun_should_be_disabled s b"
  "op_in_flight s \<Longrightarrow> \<not> tun_should_be_disabled s b"
  "tun_capable s \<Longrightarrow> \<not> tun_should_be_disabled s b"
  by (simp_all add: tun_should_be_disabled_def)

lemma view_agrees:
  "view_needs_attention (to_view s) \<Longrightarrow> \<not> view_op_in_flight (to_view s)"
  "view_service_usable (to_view s) \<Longrightarrow> view_service (to_view s) = ''ready'' \<and> view_tun_capable (to_view s)"
  "view_unavailable_reason (to_view s) \<noteq> None \<longleftrightarrow> view_service (to_view s) = ''unavailable''"
  by (auto simp: to_view_def service_needs_attention_def service_usable_def service_ready_def tun_capable_def
      health_kind_def health_reason_def split: service_health.splits if_splits)

subsection \<open>Classifying a reply of the service\<close>

record protocol_info =
  info_epoch :: nat
  info_revision :: nat
  build_version :: string

datatype core_availability = CoreReady | CoreMissing | DigestMismatch | CoreRejected string

record service_contract =
  service_version :: string
  client_epoch :: nat
  min_revision :: nat
  supports_client :: "protocol_info \<Rightarrow> bool"

record version_reply =
  reply_code :: u16
  reply_message :: string
  reply_protocol :: "protocol_info option"
  reply_core :: "core_availability option"

datatype version_check = CheckReady | NeedsReinstall string | CoreUnavailable string

datatype current_probe = ProbeMissing | ProbeReady | ProbeVersionMismatch | ProbeUnavailable

definition core_missing_message :: string where
  "core_missing_message =
     ''the selected approved core is missing or does not match; reinstall the service to repair it''"

definition mismatch_detail :: "service_contract \<Rightarrow> version_reply \<Rightarrow> string" where
  "mismatch_detail c r =
     (if reply_code r = 0 then
        (case reply_protocol r of
           Some info \<Rightarrow> ''client requires service version '' @ service_version c @ '' with epoch ''
             @ show_nat (client_epoch c) @ '' revision >= '' @ show_nat (min_revision c)
             @ '', service reports epoch '' @ show_nat (info_epoch info) @ '' revision ''
             @ show_nat (info_revision info) @ '' (build '' @ build_version info @ '')''
         | None \<Rightarrow> ''service did not report protocol information'')
      else ''protocol query returned code '' @ show_nat (unat (reply_code r)) @ '' ('' @ reply_message r
             @ '') while expecting epoch '' @ show_nat (client_epoch c))"

definition compatible :: "service_contract \<Rightarrow> version_reply \<Rightarrow> bool" where
  "compatible c r \<longleftrightarrow> reply_code r = 0
     \<and> (case reply_protocol r of None \<Rightarrow> False
         | Some info \<Rightarrow> build_version info = service_version c \<and> supports_client c info)"

definition classify_service_version_reply :: "service_contract \<Rightarrow> version_reply \<Rightarrow> version_check" where
  "classify_service_version_reply c r =
     (if compatible c r then
        (case reply_core r of
           Some CoreReady \<Rightarrow> CheckReady
         | Some (CoreRejected reason) \<Rightarrow> CoreUnavailable (''approved core was rejected: '' @ reason)
         | _ \<Rightarrow> CoreUnavailable core_missing_message)
      else NeedsReinstall (''Service helper version or protocol mismatch: '' @ mismatch_detail c r
             @ ''. Choose Reinstall to uninstall the existing service and install the required version''))"

definition probe_outcome :: "service_contract \<Rightarrow> version_reply \<Rightarrow> current_probe" where
  "probe_outcome c r =
     (case classify_service_version_reply c r of CheckReady \<Rightarrow> ProbeReady
      | NeedsReinstall _ \<Rightarrow> ProbeVersionMismatch | CoreUnavailable _ \<Rightarrow> ProbeUnavailable)"

definition classify_service_health :: "current_probe \<Rightarrow> bool \<Rightarrow> string \<Rightarrow> service_health" where
  "classify_service_health p has_install_marker unavailable_reason =
     (case p of ProbeReady \<Rightarrow> Ready | ProbeVersionMismatch \<Rightarrow> VersionMismatch
      | ProbeUnavailable \<Rightarrow> Unavailable unavailable_reason
      | ProbeMissing \<Rightarrow> (if has_install_marker then VersionMismatch else NotInstalled))"

lemma classify_ready_iff:
  "classify_service_version_reply c r = CheckReady \<longleftrightarrow> compatible c r \<and> reply_core r = Some CoreReady"
  by (auto simp: classify_service_version_reply_def split: option.splits core_availability.splits)

lemma probe_outcome_never_missing: "probe_outcome c r \<noteq> ProbeMissing"
  by (simp add: probe_outcome_def split: version_check.splits)

end
