(* ===== verification/RunStore.thy ===== *)
theory RunStore
  imports RunHealth
begin

section \<open>The run-state store: observations, intents, the operation slot and PAC\<close>

text \<open>
  Models \<open>RunStateStore\<close> of \<open>src-tauri/src/core/runstate/mod.rs\<close>.  The environment
  (\<open>RunStateEnv\<close>) is split: what it answers (probe replies, installation evidence, the outcome
  of a privileged command) are arguments, what it is told (PAC availability, published snapshots)
  is appended to \<open>effects\<close>, together with the stores to the mode cell, in the order the code
  performs them.  Asynchronous operations are split at their await points.
\<close>

datatype run_effect = SetPac bool | StoreMode running_mode | Publish run_state

datatype run_error =
    OperationRunning | SidecarRefused stored_service | FallbackPending
  | ReplyRejected string | ProbeFailed string | NoAttempts | PrivilegedFailed string

record run_store =
  service :: stored_service
  generation :: u64
  observation :: u64
  st_mode :: running_mode
  operation_running :: bool
  elevated :: bool
  effects :: "run_effect list"

definition store_new :: "bool \<Rightarrow> run_store" where
  "store_new admin = \<lparr>service = stored_default, generation = 0, observation = 0, st_mode = NotRunning,
     operation_running = False, elevated = admin, effects = []\<rparr>"

definition emit :: "run_effect \<Rightarrow> run_store \<Rightarrow> run_store" where
  "emit e s = s\<lparr>effects := effects s @ [e]\<rparr>"

definition snapshot :: "run_store \<Rightarrow> run_state" where
  "snapshot s = \<lparr>health = svc_health (service s), pending = svc_pending (service s),
     sidecar_allowed = svc_sidecar (service s), mode = st_mode s, is_admin = elevated s,
     op_in_flight = operation_running s\<rparr>"

definition announce :: "run_store \<Rightarrow> run_store" where
  "announce s = emit (Publish (snapshot s)) s"

definition bump :: "run_store \<Rightarrow> run_store" where
  "bump s = s\<lparr>generation := generation s + 1, observation := observation s + 1\<rparr>"

definition next_observation :: "run_store \<Rightarrow> run_store" where
  "next_observation s = s\<lparr>observation := observation s + 1\<rparr>"

text \<open>\<open>settled\<close> looks at the state at each wake-up and returns the first with no operation in flight.\<close>

fun settled :: "run_store list \<Rightarrow> run_state option" where
  "settled [] = None"
| "settled (s # wakeups) = (if \<not> op_in_flight (snapshot s) then Some (snapshot s) else settled wakeups)"

definition reasserts :: "service_health \<Rightarrow> stored_service \<Rightarrow> bool" where
  "reasserts h v \<longleftrightarrow> svc_health v = h \<and> svc_pending v = None \<and> \<not> svc_sidecar v"

definition observe :: "service_health \<Rightarrow> run_store \<Rightarrow> run_store" where
  "observe h s = (if reasserts h (service s) then next_observation s
     else announce (bump (s\<lparr>service := stored_observe h (service s)\<rparr>)))"

definition reserve_health_observation :: "run_store \<Rightarrow> u64 \<times> run_store" where
  "reserve_health_observation s = (observation (next_observation s), next_observation s)"

definition commit_reserved_observation :: "service_health \<Rightarrow> u64 \<Rightarrow> run_store \<Rightarrow> service_health \<times> run_store" where
  "commit_reserved_observation h reservation s =
     (if observation s \<noteq> reservation then (svc_health (service s), s)
      else if reasserts h (service s) then (h, s)
      else (h, announce (s\<lparr>service := stored_observe h (service s), generation := generation s + 1\<rparr>)))"

definition request_action :: "pending_action \<Rightarrow> run_store \<Rightarrow> bool \<times> run_store" where
  "request_action a s =
     (let displaced = svc_sidecar (service s)
      in if svc_pending (service s) = Some a \<and> \<not> displaced then (displaced, next_observation s)
         else (displaced, announce (bump (s\<lparr>service := stored_request a (service s)\<rparr>))))"

definition accept_sidecar :: "run_store \<Rightarrow> run_store" where
  "accept_sidecar s =
     (if svc_sidecar (service s) \<and> svc_pending (service s) = None then next_observation s
      else announce (bump (s\<lparr>service := stored_allow_sidecar (service s)\<rparr>)))"

definition restore_sidecar_allowance :: "run_store \<Rightarrow> bool \<times> run_store" where
  "restore_sidecar_allowance s =
     (if svc_sidecar (service s) then (False, next_observation s)
      else if svc_health (service s) = Ready then (False, s)
      else (True, announce (bump (s\<lparr>service := stored_allow_sidecar (service s)\<rparr>))))"

definition withdraw_sidecar_allowance :: "run_store \<Rightarrow> bool \<times> run_store" where
  "withdraw_sidecar_allowance s =
     (if \<not> svc_sidecar (service s) then (False, s)
      else (True, announce (bump (s\<lparr>service := (service s)\<lparr>svc_sidecar := False\<rparr>\<rparr>))))"

definition sidecar_permitted :: "stored_service \<Rightarrow> bool" where
  "sidecar_permitted v =
     (case (svc_pending v, svc_sidecar v) of
        (Some Install, _) \<Rightarrow> True
      | (Some _, _) \<Rightarrow> False
      | (None, True) \<Rightarrow> False
      | (None, False) \<Rightarrow> (case svc_health v of NotInstalled \<Rightarrow> True | VersionMismatch \<Rightarrow> True
                          | Unavailable _ \<Rightarrow> True | _ \<Rightarrow> False))"

definition allow_sidecar_for_session :: "run_store \<Rightarrow> (run_error + unit) \<times> run_store" where
  "allow_sidecar_for_session s =
     (if operation_running s then (Inl OperationRunning, s)
      else if \<not> sidecar_permitted (service s) then (Inl (SidecarRefused (service s)), s)
      else (Inr (), announce (bump (s\<lparr>service := stored_allow_sidecar (service s)\<rparr>))))"

definition allow_sidecar_after_service_refusal :: "string \<Rightarrow> run_store \<Rightarrow> (run_error + unit) \<times> run_store" where
  "allow_sidecar_after_service_refusal reason s =
     (if operation_running s \<or> svc_pending (service s) \<noteq> None then (Inl FallbackPending, s)
      else (Inr (), announce (bump
             (s\<lparr>service := stored_allow_sidecar ((service s)\<lparr>svc_health := Unavailable reason\<rparr>)\<rparr>))))"

definition require_install_for_session :: "run_store \<Rightarrow> (run_error + unit) \<times> run_store" where
  "require_install_for_session s =
     (if operation_running s then (Inl OperationRunning, s)
      else let v = service s;
               s' = (if svc_pending v = None \<and> \<not> svc_sidecar v \<and> svc_health v = NotInstalled
                     then bump (s\<lparr>service := stored_request Install v\<rparr>)
                     else if svc_pending v = Some Install then next_observation s else s)
           in (Inr (), announce s'))"

definition enter_mode :: "running_mode \<Rightarrow> run_store \<Rightarrow> run_store" where
  "enter_mode m s =
     (let running = (m \<noteq> NotRunning);
          s1 = (if running then s else emit (SetPac False) s);
          s2 = emit (StoreMode m) (s1\<lparr>st_mode := m\<rparr>);
          s3 = (if running then emit (SetPac True) s2 else s2)
      in announce s3)"

definition core_started :: "running_mode \<Rightarrow> run_store \<Rightarrow> run_store" where
  "core_started m s = enter_mode m s"

definition core_stopped :: "run_store \<Rightarrow> run_store" where
  "core_stopped s = enter_mode NotRunning s"

definition core_starting :: "run_store \<Rightarrow> run_store" where
  "core_starting s = emit (SetPac False) s"

definition core_start_settled :: "run_store \<Rightarrow> run_store" where
  "core_start_settled s = emit (SetPac (st_mode s \<noteq> NotRunning)) s"

definition begin_operation :: "run_store \<Rightarrow> (run_error + unit) \<times> run_store" where
  "begin_operation s =
     (if operation_running s then (Inl OperationRunning, s)
      else (Inr (), announce (bump (s\<lparr>operation_running := True\<rparr>))))"

definition end_operation :: "run_store \<Rightarrow> run_store" where
  "end_operation s = announce (s\<lparr>operation_running := False\<rparr>)"

subsection \<open>Probing the service\<close>

definition record_reply :: "service_contract \<Rightarrow> version_reply \<Rightarrow> run_store \<Rightarrow> (run_error + run_state) \<times> run_store" where
  "record_reply c r s =
     (case classify_service_version_reply c r of
        CheckReady \<Rightarrow> (let s' = observe Ready s in (Inr (snapshot s'), s'))
      | CoreUnavailable e \<Rightarrow> (Inl (ReplyRejected e), observe (Unavailable e) s)
      | NeedsReinstall e \<Rightarrow> (Inl (ReplyRejected e), observe VersionMismatch s))"

definition probe :: "service_contract \<Rightarrow> (string + version_reply) \<Rightarrow> run_store \<Rightarrow> (run_error + run_state) \<times> run_store" where
  "probe c outcome s = (case outcome of Inl e \<Rightarrow> (Inl (ProbeFailed e), s) | Inr r \<Rightarrow> record_reply c r s)"

text \<open>\<open>await_ready\<close>: \<open>replies k\<close> is the outcome of the \<open>k\<close>-th probe.\<close>

fun await_loop :: "service_contract \<Rightarrow> (nat \<Rightarrow> string + version_reply) \<Rightarrow> nat \<Rightarrow> nat \<Rightarrow> string option
    \<Rightarrow> run_store \<Rightarrow> (run_error + run_state) \<times> run_store" where
  "await_loop c replies attempt 0 last_error s =
     (Inl (case last_error of Some e \<Rightarrow> ProbeFailed e | None \<Rightarrow> NoAttempts), s)"
| "await_loop c replies attempt (Suc n) last_error s =
     (case replies attempt of
        Inr r \<Rightarrow> record_reply c r s
      | Inl e \<Rightarrow> await_loop c replies (Suc attempt) n (Some e) s)"

definition await_ready :: "service_contract \<Rightarrow> (nat \<Rightarrow> string + version_reply) \<Rightarrow> nat \<Rightarrow> run_store
    \<Rightarrow> (run_error + run_state) \<times> run_store" where
  "await_ready c replies attempts s = await_loop c replies 0 attempts None s"

definition detection_failed :: "string \<Rightarrow> string" where
  "detection_failed e = ''service detection failed: '' @ e"

definition detect_service_health :: "service_contract \<Rightarrow> string + bool \<Rightarrow> string + version_reply \<Rightarrow> service_health" where
  "detect_service_health c evidence reply =
     (case evidence of
        Inl e \<Rightarrow> Unavailable (detection_failed e)
      | Inr has_marker \<Rightarrow>
          (if \<not> has_marker then classify_service_health ProbeMissing False []
           else (case reply of
                   Inr r \<Rightarrow> (case classify_service_version_reply c r of
                              CoreUnavailable reason \<Rightarrow> Unavailable reason
                            | _ \<Rightarrow> classify_service_health (probe_outcome c r) has_marker [])
                 | Inl e \<Rightarrow> classify_service_health ProbeUnavailable has_marker (detection_failed e))))"

text \<open>\<open>during\<close> is what the other tasks do to the store while the probe runs.\<close>

definition observe_current_health :: "service_contract \<Rightarrow> string + bool \<Rightarrow> string + version_reply
    \<Rightarrow> (run_store \<Rightarrow> run_store) \<Rightarrow> run_store \<Rightarrow> service_health \<times> run_store" where
  "observe_current_health c evidence reply during s =
     (let (reservation, s1) = reserve_health_observation s
      in commit_reserved_observation (detect_service_health c evidence reply) reservation (during s1))"

definition perform :: "service_contract \<Rightarrow> pending_action \<Rightarrow> string + unit \<Rightarrow> string + bool \<Rightarrow> string + version_reply
    \<Rightarrow> (run_store \<Rightarrow> run_store) \<Rightarrow> run_store \<Rightarrow> (run_error + unit) \<times> run_store" where
  "perform c action outcome evidence reply during s =
     (case outcome of
        Inr () \<Rightarrow> (Inr (), if action = Uninstall then observe NotInstalled s else s)
      | Inl e \<Rightarrow> (Inl (PrivilegedFailed e), snd (observe_current_health c evidence reply during s)))"

lemmas store_defs = observe_def reserve_health_observation_def commit_reserved_observation_def
  request_action_def accept_sidecar_def restore_sidecar_allowance_def withdraw_sidecar_allowance_def
  allow_sidecar_for_session_def allow_sidecar_after_service_refusal_def require_install_for_session_def
  enter_mode_def core_started_def core_stopped_def core_starting_def core_start_settled_def
  begin_operation_def end_operation_def announce_def emit_def bump_def next_observation_def Let_def

subsection \<open>Interleaved operations\<close>

datatype store_op =
    OObserve service_health | ORequest pending_action | OAcceptSidecar | ORestore | OWithdraw
  | OAllowSession | OAfterRefusal string | ORequireInstall | OBegin | OEnd
  | OReserve | OCommit service_health u64
  | OCoreStarted running_mode | OCoreStopped | OCoreStarting | OCoreStartSettled

fun store_step :: "store_op \<Rightarrow> run_store \<Rightarrow> run_store" where
  "store_step (OObserve h) s = observe h s"
| "store_step (ORequest a) s = snd (request_action a s)"
| "store_step OAcceptSidecar s = accept_sidecar s"
| "store_step ORestore s = snd (restore_sidecar_allowance s)"
| "store_step OWithdraw s = snd (withdraw_sidecar_allowance s)"
| "store_step OAllowSession s = snd (allow_sidecar_for_session s)"
| "store_step (OAfterRefusal r) s = snd (allow_sidecar_after_service_refusal r s)"
| "store_step ORequireInstall s = snd (require_install_for_session s)"
| "store_step OBegin s = snd (begin_operation s)"
| "store_step OEnd s = end_operation s"
| "store_step OReserve s = snd (reserve_health_observation s)"
| "store_step (OCommit h r) s = snd (commit_reserved_observation h r s)"
| "store_step (OCoreStarted m) s = core_started m s"
| "store_step OCoreStopped s = core_stopped s"
| "store_step OCoreStarting s = core_starting s"
| "store_step OCoreStartSettled s = core_start_settled s"

fun store_run :: "store_op list \<Rightarrow> run_store \<Rightarrow> run_store" where
  "store_run [] s = s"
| "store_run (x # xs) s = store_run xs (store_step x s)"

lemma store_run_append: "store_run (xs @ ys) s = store_run ys (store_run xs s)"
  by (induction xs arbitrary: s) auto

lemma store_step_ok: "stored_ok (service s) \<Longrightarrow> stored_ok (service (store_step x s))"
  by (cases x) (auto simp: store_defs)

text \<open>
  A pending request and the sidecar allowance exclude each other in every reachable state.
\<close>

theorem pending_excludes_sidecar:
  "\<not> (pending (snapshot (store_run xs (store_new admin))) \<noteq> None
      \<and> sidecar_allowed (snapshot (store_run xs (store_new admin))))"
proof -
  have "stored_ok (service s) \<Longrightarrow> stored_ok (service (store_run xs s))" for s
    by (induction xs arbitrary: s) (auto simp: store_step_ok)
  from this [of "store_new admin"] show ?thesis
    by (simp add: store_new_def stored_ok_def [symmetric]) (simp add: stored_ok_def snapshot_def)
qed

subsection \<open>The latest reserved observation wins\<close>

definition orders :: "store_op \<Rightarrow> run_store \<Rightarrow> bool" where
  "orders x s \<longleftrightarrow> observation (store_step x s) \<noteq> observation s"

fun ordered_count :: "store_op list \<Rightarrow> run_store \<Rightarrow> nat" where
  "ordered_count [] s = 0"
| "ordered_count (x # xs) s = (if orders x s then 1 else 0) + ordered_count xs (store_step x s)"

fun is_commit :: "store_op \<Rightarrow> bool" where
  "is_commit (OCommit h r) = True"
| "is_commit _ = False"

lemma store_step_observation:
  "observation (store_step x s) = observation s + (if orders x s then 1 else 0)"
  by (cases x) (auto simp: orders_def store_defs split: if_splits)

lemma store_run_observation: "observation (store_run xs s) = observation s + of_nat (ordered_count xs s)"
  by (induction xs arbitrary: s) (simp_all add: store_step_observation)

lemma ordered_count_le: "ordered_count xs s \<le> length xs"
  by (induction xs arbitrary: s) (auto intro: le_SucI)

lemma reassertions_order:
  "orders (OObserve h) s" "orders (ORequest a) s" "orders OAcceptSidecar s" "orders OReserve s"
  "svc_pending (service s) = Some Install \<Longrightarrow> \<not> operation_running s \<Longrightarrow> orders ORequireInstall s"
  "svc_sidecar (service s) \<Longrightarrow> orders ORestore s"
  by (auto simp: orders_def store_defs)

text \<open>An operation that takes no part in the ordering leaves the service state as it is.\<close>

lemma unordered_keeps_service:
  "\<not> orders x s \<Longrightarrow> \<not> is_commit x \<Longrightarrow> service (store_step x s) = service s"
  by (cases x) (auto simp: orders_def store_defs split: if_splits)

lemma uncounted_keeps_service:
  "ordered_count xs s = 0 \<Longrightarrow> list_all (Not \<circ> is_commit) xs \<Longrightarrow> service (store_run xs s) = service s"
  by (induction xs arbitrary: s) (auto simp: unordered_keeps_service split: if_splits)

lemma of_nat_u64_zero: "n < 2 ^ 64 \<Longrightarrow> (of_nat n :: u64) = 0 \<longleftrightarrow> n = 0"
  by (auto simp: word_of_nat_eq_0_iff dest: nat_dvd_not_less)

text \<open>
  A health reading that took time is recorded exactly when nothing was observed, requested or
  reserved while it ran; otherwise it is dropped without a trace and the newer health is reported,
  even when the newer observation changed nothing visible.
\<close>

theorem stale_reading_is_discarded:
  assumes "reserve_health_observation s = (r, s1)" and "s2 = store_run xs s1"
    and "list_all (Not \<circ> is_commit) xs" and "length xs < 2 ^ 64"
  shows "if ordered_count xs s1 = 0
    then service s2 = service s \<and> fst (commit_reserved_observation h r s2) = h
      \<and> service (snd (commit_reserved_observation h r s2)) = stored_observe h (service s)
    else commit_reserved_observation h r s2 = (svc_health (service s2), s2)"
proof -
  let ?n = "ordered_count xs s1"
  from assms(1) have s1: "service s1 = service s" "observation s1 = r"
    by (auto simp: store_defs)
  have "?n < 2 ^ 64" using ordered_count_le [of xs s1] assms(4) by linarith
  then have "observation s2 = r \<longleftrightarrow> ?n = 0"
    using of_nat_u64_zero s1 by (simp add: assms(2) store_run_observation)
  moreover have "?n = 0 \<Longrightarrow> service s2 = service s"
    using uncounted_keeps_service assms(2,3) s1 by metis
  ultimately show ?thesis
    by (auto simp: commit_reserved_observation_def announce_def emit_def reasserts_def stored_observe_def)
qed

theorem stale_reading_is_discarded_witness:
  "let (r, s1) = reserve_health_observation (store_run [OObserve Ready] (store_new False));
       s2 = store_run [OObserve Ready] s1
   in commit_reserved_observation NotInstalled r s2 = (Ready, s2)"
proof -
  let ?s = "store_run [OObserve Ready] (store_new False)"
  obtain r s1 where r: "reserve_health_observation ?s = (r, s1)" by fastforce
  then have "service s1 = service ?s" by (auto simp: store_defs)
  then have "svc_health (service (store_run [OObserve Ready] s1)) = Ready"
    by (simp add: store_defs reasserts_def stored_observe_def)
  with stale_reading_is_discarded [OF r refl, of "[OObserve Ready]" NotInstalled] r show ?thesis
    by (simp add: reassertions_order)
qed

subsection \<open>One privileged operation at a time\<close>

text \<open>A guard is the value a successful \<open>begin_operation\<close> returns; only its owner can drop it.\<close>

fun guarded_step :: "store_op \<Rightarrow> run_store \<times> nat \<Rightarrow> run_store \<times> nat" where
  "guarded_step OBegin (s, g) = (snd (begin_operation s), if is_ok (fst (begin_operation s)) then Suc g else g)"
| "guarded_step OEnd (s, g) = (case g of 0 \<Rightarrow> (s, 0) | Suc g' \<Rightarrow> (end_operation s, g'))"
| "guarded_step x (s, g) = (store_step x s, g)"

fun guarded_run :: "store_op list \<Rightarrow> run_store \<times> nat \<Rightarrow> run_store \<times> nat" where
  "guarded_run [] sg = sg"
| "guarded_run (x # xs) sg = guarded_run xs (guarded_step x sg)"

definition slot_inv :: "run_store \<times> nat \<Rightarrow> bool" where
  "slot_inv sg \<longleftrightarrow> snd sg = (if operation_running (fst sg) then 1 else 0)"

lemma slot_step: "slot_inv sg \<Longrightarrow> slot_inv (guarded_step x sg)"
  by (cases sg; cases x) (auto simp: slot_inv_def store_defs split: nat.splits if_splits)

text \<open>
  C31: whatever the interleaving, at most one guard of a privileged operation exists, exactly while
  the state reports an operation in flight; and no state reports a usable service meanwhile.
\<close>

theorem one_privileged_operation:
  assumes "guarded_run xs (store_new admin, 0) = (s, g)"
  shows "g \<le> 1 \<and> (op_in_flight (snapshot s) \<longleftrightarrow> g = 1) \<and> (g = 1 \<longrightarrow> \<not> service_usable (snapshot s))"
proof -
  have "slot_inv sg \<Longrightarrow> slot_inv (guarded_run xs sg)" for sg
    by (induction xs arbitrary: sg) (auto simp: slot_step)
  from this [of "(store_new admin, 0)"] assms have "slot_inv (s, g)"
    by (simp add: slot_inv_def store_new_def)
  then show ?thesis
    by (auto simp: slot_inv_def snapshot_def service_usable_def split: if_splits)
qed

theorem one_privileged_operation_witness:
  "let (s, g) = guarded_run [OObserve Ready, OBegin, OBegin] (store_new False, 0)
   in g \<le> 1 \<and> op_in_flight (snapshot s)"
proof -
  obtain s g where r: "guarded_run [OObserve Ready, OBegin, OBegin] (store_new False, 0) = (s, g)" by fastforce
  then have "g = 1" by (auto simp: store_defs store_new_def reasserts_def stored_default_def)
  with one_privileged_operation [OF r] r show ?thesis by simp
qed

subsection \<open>PAC follows the running mode\<close>

text \<open>The PAC flag and the mode cell as an outside reader sees them after each effect.\<close>

fun pac_after :: "run_effect \<Rightarrow> bool \<times> running_mode \<Rightarrow> bool \<times> running_mode" where
  "pac_after (SetPac b) (p, m) = (b, m)"
| "pac_after (StoreMode m') (p, m) = (p, m')"
| "pac_after (Publish v) pm = pm"

fun pac_safe :: "run_effect list \<Rightarrow> bool \<times> running_mode \<Rightarrow> bool" where
  "pac_safe [] pm = (fst pm \<longrightarrow> snd pm \<noteq> NotRunning)"
| "pac_safe (e # es) pm = ((fst pm \<longrightarrow> snd pm \<noteq> NotRunning) \<and> pac_safe es (pac_after e pm))"

lemma pac_safe_append:
  "pac_safe (xs @ ys) pm \<longleftrightarrow> pac_safe xs pm \<and> pac_safe ys (fold pac_after xs pm)"
  by (induction xs arbitrary: pm) (auto, (cases ys; auto)+)

definition pac_inv :: "run_store \<Rightarrow> bool" where
  "pac_inv s \<longleftrightarrow> pac_safe (effects s) (False, NotRunning)
     \<and> snd (fold pac_after (effects s) (False, NotRunning)) = st_mode s"

lemma pac_safe_end: "pac_safe es pm \<Longrightarrow> fst (fold pac_after es pm) \<Longrightarrow> snd (fold pac_after es pm) \<noteq> NotRunning"
  by (induction es arbitrary: pm) auto

lemma pac_inv_same_effects: "pac_inv s \<Longrightarrow> effects t = effects s \<Longrightarrow> st_mode t = st_mode s \<Longrightarrow> pac_inv t"
  by (simp add: pac_inv_def)

lemma pac_inv_announce: "pac_inv s \<Longrightarrow> pac_inv (announce s)"
  by (auto simp: pac_inv_def announce_def emit_def pac_safe_append dest: pac_safe_end)

lemma pac_inv_modes:
  assumes "pac_inv s"
  shows "pac_inv (enter_mode m s)" "pac_inv (core_starting s)" "pac_inv (core_start_settled s)"
proof -
  obtain p m0 where e: "fold pac_after (effects s) (False, NotRunning) = (p, m0)" by fastforce
  with assms have "m0 = st_mode s" "p \<longrightarrow> st_mode s \<noteq> NotRunning"
    using pac_safe_end [of "effects s" "(False, NotRunning)"] by (auto simp: pac_inv_def)
  with assms e show "pac_inv (enter_mode m s)" "pac_inv (core_starting s)" "pac_inv (core_start_settled s)"
    by (auto simp: pac_inv_def enter_mode_def core_starting_def core_start_settled_def announce_def emit_def
        pac_safe_append Let_def)
qed

lemma pac_step: "pac_inv s \<Longrightarrow> pac_inv (store_step x s)"
  by (cases x)
    (auto simp: observe_def reserve_health_observation_def commit_reserved_observation_def
      request_action_def accept_sidecar_def restore_sidecar_allowance_def withdraw_sidecar_allowance_def
      allow_sidecar_for_session_def allow_sidecar_after_service_refusal_def require_install_for_session_def
      begin_operation_def end_operation_def core_started_def core_stopped_def pac_inv_modes Let_def
      bump_def next_observation_def intro!: pac_inv_announce elim: pac_inv_same_effects)


subsection \<open>Waiting for the service\<close>

text \<open>
  waiting for the service acts on the first readable reply within the budget and on no later
  one; silence throughout leaves the store untouched and reports the last transport error.
\<close>

theorem await_ready_first_reply:
  "await_ready c replies n s =
     (case find (is_ok \<circ> replies) [0..<n] of
        Some k \<Rightarrow> record_reply c (projr (replies k)) s
      | None \<Rightarrow> (Inl (case n of 0 \<Rightarrow> NoAttempts | Suc m \<Rightarrow> ProbeFailed (projl (replies m))), s))"
proof -
  have "await_loop c replies a n le s =
     (case find (is_ok \<circ> replies) [a..<a + n] of
        Some k \<Rightarrow> record_reply c (projr (replies k)) s
      | None \<Rightarrow> (Inl (case n of 0 \<Rightarrow> (case le of Some e \<Rightarrow> ProbeFailed e | None \<Rightarrow> NoAttempts)
                 | Suc m \<Rightarrow> ProbeFailed (projl (replies (a + m)))), s))" for a le
  proof (induction n arbitrary: a le)
    case 0
    then show ?case by simp
  next
    case (Suc n)
    have upt: "[a..<a + Suc n] = a # [Suc a..<Suc a + n]" by (simp add: upt_conv_Cons)
    show ?case
    proof (cases "replies a")
      case (Inr r)
      then show ?thesis unfolding upt by simp
    next
      case (Inl e)
      then show ?thesis
        unfolding upt using Suc.IH [of "Suc a" "Some e"] by (cases n) (simp_all del: upt_Suc split: option.splits)
    qed
  qed
  from this [of 0 None] show ?thesis by (cases n) (simp_all add: await_ready_def split: option.splits)
qed

end
