(* ===== verification/OwnerWatch.thy ===== *)
theory OwnerWatch
  imports Prelude
begin

section \<open>Watching who owns the service\<close>

text \<open>
  Models \<open>src-tauri/src/core/runstate/owner.rs\<close>: samples of the service's owner status are
  folded into two saturating 8-bit counters, and a decision is returned for each sample.  The
  lifecycle states belong to the service crate; the code tells three of them apart.
\<close>

datatype lifecycle_state = Starting | RecoveringCore | Fatal | Running | OtherState nat

datatype owner_recovery_reason = Displaced | SameOwnerFailure | TransportFailure

datatype owner_sample =
    Unreadable
  | NotActive
  | OwnerStatus (is_active: bool) (desired_running: bool) (service_state: lifecycle_state) (core_pid: "u32 option")

datatype owner_step = Continue | VerifyTransport | Recover owner_recovery_reason

record owner_watch =
  unreadable_samples :: u8
  missing_core_samples :: u8

definition sustained_samples :: u8 where
  "sustained_samples = 3"

definition watch_new :: owner_watch where
  "watch_new = \<lparr>unreadable_samples = 0, missing_core_samples = 0\<rparr>"

definition just_became_sustained :: "owner_watch \<Rightarrow> bool" where
  "just_became_sustained w \<longleftrightarrow> unreadable_samples w = sustained_samples"

definition is_settling :: "lifecycle_state \<Rightarrow> bool" where
  "is_settling st \<longleftrightarrow> st = Starting \<or> st = RecoveringCore"

definition recovery_reason :: "bool \<Rightarrow> bool \<Rightarrow> lifecycle_state \<Rightarrow> u32 option \<Rightarrow> u8 \<Rightarrow> owner_recovery_reason option" where
  "recovery_reason active desired st pid missing =
     (if \<not> active then Some Displaced
      else let core_is_gone = \<not> is_settling st \<and> pid = None \<and> missing \<ge> sustained_samples
           in if \<not> desired \<or> st = Fatal \<or> core_is_gone then Some SameOwnerFailure else None)"

fun watch_observe :: "owner_sample \<Rightarrow> owner_watch \<Rightarrow> owner_step \<times> owner_watch" where
  "watch_observe Unreadable w =
     (let w' = w\<lparr>unreadable_samples := saturating_inc (unreadable_samples w)\<rparr>
      in (if unreadable_samples w' \<ge> sustained_samples then VerifyTransport else Continue, w'))"
| "watch_observe NotActive w = (Recover Displaced, w)"
| "watch_observe (OwnerStatus active desired st pid) w =
     (let w' = w\<lparr>unreadable_samples := 0,
                 missing_core_samples := (if pid = None \<and> \<not> is_settling st
                                          then saturating_inc (missing_core_samples w) else 0)\<rparr>
      in (case recovery_reason active desired st pid (missing_core_samples w') of
            Some r \<Rightarrow> Recover r
          | None \<Rightarrow> Continue, w'))"

definition resolve_transport :: "bool \<Rightarrow> owner_watch \<Rightarrow> owner_step \<times> owner_watch" where
  "resolve_transport endpoint_available w =
     (if endpoint_available then (Continue, w\<lparr>unreadable_samples := 0\<rparr>)
      else (Recover TransportFailure, w))"

subsection \<open>The counters, read off the history\<close>

datatype watch_event = Sample owner_sample | Transport bool

fun watch_step :: "watch_event \<Rightarrow> owner_watch \<Rightarrow> owner_step \<times> owner_watch" where
  "watch_step (Sample x) w = watch_observe x w"
| "watch_step (Transport b) w = resolve_transport b w"

fun watch_run :: "watch_event list \<Rightarrow> owner_watch \<Rightarrow> owner_watch" where
  "watch_run [] w = w"
| "watch_run (e # es) w = watch_run es (snd (watch_step e w))"

lemma watch_run_append: "watch_run (xs @ ys) w = watch_run ys (watch_run xs w)"
  by (induction xs arbitrary: w) auto

text \<open>Both functions read a history with the latest event first.\<close>

fun unreadable_run :: "watch_event list \<Rightarrow> nat" where
  "unreadable_run [] = 0"
| "unreadable_run (Sample Unreadable # es) = Suc (unreadable_run es)"
| "unreadable_run (Sample NotActive # es) = unreadable_run es"
| "unreadable_run (Sample (OwnerStatus a d st pid) # es) = 0"
| "unreadable_run (Transport b # es) = (if b then 0 else unreadable_run es)"

definition reports_missing_core :: "owner_sample \<Rightarrow> bool" where
  "reports_missing_core x = (case x of OwnerStatus a d st pid \<Rightarrow> pid = None \<and> \<not> is_settling st | _ \<Rightarrow> False)"

fun missing_run :: "watch_event list \<Rightarrow> nat" where
  "missing_run [] = 0"
| "missing_run (Sample (OwnerStatus a d st pid) # es) =
     (if pid = None \<and> \<not> is_settling st then Suc (missing_run es) else 0)"
| "missing_run (_ # es) = missing_run es"

lemma unat_saturating_inc_u8: "unat (saturating_inc (x :: u8)) = min 255 (Suc (unat x))"
proof -
  have "unat x < 2 ^ LENGTH(8)" by (rule unsigned_less)
  then show ?thesis by (simp add: unat_saturating_inc min_def)
qed

lemma watch_counters:
  "unat (unreadable_samples (watch_run (rev es) watch_new)) = min 255 (unreadable_run es)
   \<and> unat (missing_core_samples (watch_run (rev es) watch_new)) = min 255 (missing_run es)"
proof (induction es)
  case Nil
  then show ?case by (simp add: watch_new_def)
next
  case (Cons e es)
  show ?case
  proof (cases e)
    case (Sample x)
    with Cons show ?thesis
      by (cases x) (auto simp: watch_run_append unat_saturating_inc_u8 Let_def min_def)
  next
    case (Transport b)
    with Cons show ?thesis by (auto simp: watch_run_append resolve_transport_def)
  qed
qed

lemma sustained_iff: "sustained_samples \<le> (x :: u8) \<longleftrightarrow> 3 \<le> unat x"
  by (simp add: sustained_samples_def word_le_nat_alt)

text \<open>
  After any history, an unreadable sample asks for a transport check exactly when it ends a run
  of at least three unreadable samples, and a status reply makes the app give up on the service
  exactly when the service is not ours, should not run, is fatal, or has lost its core for at least
  three status replies in a row.
\<close>

theorem owner_decision_from_history:
  "fst (watch_observe Unreadable (watch_run (rev es) watch_new)) =
      (if 3 \<le> Suc (unreadable_run es) then VerifyTransport else Continue)
   \<and> fst (watch_observe (OwnerStatus active desired st pid) (watch_run (rev es) watch_new)) =
      (if \<not> active then Recover Displaced
       else if \<not> desired \<or> st = Fatal \<or> (pid = None \<and> \<not> is_settling st \<and> 3 \<le> Suc (missing_run es))
       then Recover SameOwnerFailure else Continue)"
    (is "?silence \<and> ?status")
proof -
  let ?w = "watch_run (rev es) watch_new"
  have u: "unat (unreadable_samples ?w) = min 255 (unreadable_run es)"
    and m: "unat (missing_core_samples ?w) = min 255 (missing_run es)"
    using watch_counters by blast+
  have ?silence
    using u by (auto simp: sustained_iff unat_saturating_inc_u8 Let_def min_def)
  moreover have ?status
    using m by (auto simp: recovery_reason_def sustained_iff unat_saturating_inc_u8 Let_def min_def)
  ultimately show ?thesis ..
qed

theorem owner_decision_from_history_witness:
  "fst (watch_observe (OwnerStatus True True Running None)
          (watch_run (rev [Sample (OwnerStatus True True Running None), Sample Unreadable,
             Sample (OwnerStatus True True Running None)]) watch_new)) = Recover SameOwnerFailure"
  using owner_decision_from_history
    [of "[Sample (OwnerStatus True True Running None), Sample Unreadable,
        Sample (OwnerStatus True True Running None)]" True True Running None]
  by (simp add: is_settling_def)

text \<open>A run of silence is reported as newly sustained once: at its third sample, never later.\<close>

lemma sustained_reported_once:
  "just_became_sustained (watch_run (rev es) watch_new) \<longleftrightarrow> unreadable_run es = 3"
proof -
  have "(x :: u8) = sustained_samples \<longleftrightarrow> unat x = 3" for x
    by (simp add: sustained_samples_def word_unat_eq_iff)
  with watch_counters [of es] show ?thesis by (auto simp: just_became_sustained_def min_def)
qed

end
