(* ===== verification/ServiceStatus.thy ===== *)
theory ServiceStatus
  imports RunStore OwnerWatch
begin

section \<open>The service manager: legacy statuses, privileged actions, sessions\<close>

text \<open>
  Models the decision logic of \<open>src-tauri/src/core/service.rs\<close>: the flat \<open>ServiceStatus\<close>
  derived from the run state and recorded into it, the privileged actions with their operation
  slot and the restored sidecar allowance, the owner session, and the hexadecimal payloads.  What
  the service answers over IPC is an argument.
\<close>

datatype service_status =
    Checking | StReady | StNotInstalled | NeedsReinstall | InstallRequired | UninstallRequired
  | ReinstallRequired | ForceReinstallRequired | SidecarAllowed | StUnavailable string

definition from_run_state :: "run_state \<Rightarrow> service_status" where
  "from_run_state s =
     (case pending s of
        Some Install \<Rightarrow> InstallRequired
      | Some Uninstall \<Rightarrow> UninstallRequired
      | Some Reinstall \<Rightarrow> ReinstallRequired
      | Some ForceReinstall \<Rightarrow> ForceReinstallRequired
      | None \<Rightarrow>
          (if sidecar_allowed s then SidecarAllowed
           else (case health s of Unknown \<Rightarrow> Checking | Ready \<Rightarrow> StReady | NotInstalled \<Rightarrow> StNotInstalled
                 | VersionMismatch \<Rightarrow> NeedsReinstall | Unavailable r \<Rightarrow> StUnavailable r)))"

definition requested_action :: "service_status \<Rightarrow> pending_action option" where
  "requested_action st =
     (case st of InstallRequired \<Rightarrow> Some Install | UninstallRequired \<Rightarrow> Some Uninstall
      | ReinstallRequired \<Rightarrow> Some Reinstall | ForceReinstallRequired \<Rightarrow> Some ForceReinstall | _ \<Rightarrow> None)"

definition record_status :: "service_status \<Rightarrow> run_store \<Rightarrow> run_store" where
  "record_status st s =
     (case requested_action st of
        Some a \<Rightarrow> snd (request_action a s)
      | None \<Rightarrow>
          (case st of SidecarAllowed \<Rightarrow> accept_sidecar s
           | Checking \<Rightarrow> observe Unknown s
           | StReady \<Rightarrow> observe Ready s
           | StNotInstalled \<Rightarrow> observe NotInstalled s
           | NeedsReinstall \<Rightarrow> observe VersionMismatch s
           | StUnavailable r \<Rightarrow> observe (Unavailable r) s
           | _ \<Rightarrow> s))"

definition report_non_actionable_status :: "service_status \<Rightarrow> string + unit" where
  "report_non_actionable_status st =
     (case st of
        Checking \<Rightarrow> Inl ''service status is still being checked''
      | StReady \<Rightarrow> Inr ()
      | StNotInstalled \<Rightarrow> Inr ()
      | NeedsReinstall \<Rightarrow> Inl ''service needs reinstall; explicit authorization is required''
      | StUnavailable r \<Rightarrow> Inl r
      | SidecarAllowed \<Rightarrow> Inr ()
      | _ \<Rightarrow> Inl ''a requested action should have been handled as a privileged operation'')"

text \<open>
  recording any status and reading it back gives that status, from any state of the store.
\<close>

theorem status_roundtrip: "from_run_state (snapshot (record_status st s)) = st"
  by (cases st)
    (auto simp: from_run_state_def record_status_def requested_action_def snapshot_def store_defs reasserts_def
      stored_observe_def stored_request_def stored_allow_sidecar_def split: option.splits)

subsection \<open>Privileged operations\<close>

definition error_text :: "run_error \<Rightarrow> string" where
  "error_text e =
     (case e of OperationRunning \<Rightarrow> ''service operation already running''
      | FallbackPending \<Rightarrow> ''cannot fall back while a service operation is pending''
      | SidecarRefused v \<Rightarrow> ''sidecar cannot be allowed from service state''
      | ReplyRejected r \<Rightarrow> r
      | ProbeFailed r \<Rightarrow> r
      | NoAttempts \<Rightarrow> ''service readiness wait was configured with no attempts''
      | PrivilegedFailed r \<Rightarrow> r)"

definition ready_attempts :: nat where
  "ready_attempts = 61"

definition wait_for_service_ipc :: "service_contract \<Rightarrow> (nat \<Rightarrow> string + version_reply) \<Rightarrow> run_store
    \<Rightarrow> (run_error + unit) \<times> run_store" where
  "wait_for_service_ipc c replies s =
     (case await_ready c replies ready_attempts s of
        (Inr _, s') \<Rightarrow> (Inr (), s')
      | (Inl (ReplyRejected e), s') \<Rightarrow> (Inl (ReplyRejected e), s')
      | (Inl e, s') \<Rightarrow>
          (Inl e, observe (Unavailable (''service IPC did not become available: '' @ error_text e)) s'))"

definition run_action_restoring_sidecar :: "bool \<Rightarrow> (run_store \<Rightarrow> (run_error + unit) \<times> run_store) \<Rightarrow> run_store
    \<Rightarrow> (run_error + unit) \<times> run_store" where
  "run_action_restoring_sidecar was_allowed action s =
     (let (outcome, s') = action s
      in (outcome, if \<not> is_ok outcome \<and> was_allowed then snd (restore_sidecar_allowance s') else s'))"

definition run_operation_and_then :: "(run_store \<Rightarrow> (run_error + unit) \<times> run_store)
    \<Rightarrow> (run_store \<Rightarrow> (run_error + unit) \<times> run_store) \<Rightarrow> run_store \<Rightarrow> (run_error + unit) \<times> run_store" where
  "run_operation_and_then operation post s =
     (case begin_operation s of
        (Inl e, s1) \<Rightarrow> (Inl e, s1)
      | (Inr _, s1) \<Rightarrow>
          (let (r, s2) = operation s1; s3 = end_operation s2
           in (case r of Inl e \<Rightarrow> (Inl e, s3) | Inr _ \<Rightarrow> post s3)))"

text \<open>What the machine answers to one privileged action, and what other tasks do meanwhile.\<close>

record action_env =
  contract :: service_contract
  privileged_outcome :: "string + unit"
  evidence :: "string + bool"
  reprobe :: "string + version_reply"
  wait_replies :: "nat \<Rightarrow> string + version_reply"
  during_probe :: "run_store \<Rightarrow> run_store"

definition perform_and_wait :: "action_env \<Rightarrow> pending_action \<Rightarrow> run_store \<Rightarrow> (run_error + unit) \<times> run_store" where
  "perform_and_wait env a s =
     (case perform (contract env) a (privileged_outcome env) (evidence env) (reprobe env) (during_probe env) s of
        (Inl e, s') \<Rightarrow> (Inl e, s')
      | (Inr _, s') \<Rightarrow>
          (if a \<noteq> Uninstall then wait_for_service_ipc (contract env) (wait_replies env) s' else (Inr (), s')))"

definition apply_service_status :: "action_env \<Rightarrow> service_status \<Rightarrow> run_store \<Rightarrow> (run_error + unit) \<times> run_store" where
  "apply_service_status env st s =
     (case requested_action st of
        None \<Rightarrow>
          (map_sum PrivilegedFailed id (report_non_actionable_status st), record_status st s)
      | Some a \<Rightarrow>
          (let (allowed_before, s1) = request_action a s
           in run_action_restoring_sidecar allowed_before (perform_and_wait env a) s1))"

text \<open>The tray refresh after an operation reports its failures to the log only.\<close>

definition handle_service_status :: "action_env \<Rightarrow> service_status \<Rightarrow> run_store \<Rightarrow> (run_error + unit) \<times> run_store" where
  "handle_service_status env st s = run_operation_and_then (apply_service_status env st) (\<lambda>s. (Inr (), s)) s"

definition confirm_ready :: "service_contract \<Rightarrow> string + version_reply \<Rightarrow> run_store \<Rightarrow> (run_error + unit) \<times> run_store" where
  "confirm_ready c reply s = (let (r, s') = probe c reply s in (map_sum id (\<lambda>_. ()) r, s'))"

definition refresh :: "service_contract \<Rightarrow> string + version_reply \<Rightarrow> run_store \<Rightarrow> (run_error + unit) \<times> run_store" where
  "refresh c reply s = run_operation_and_then (confirm_ready c reply) (\<lambda>s. (Inr (), s)) s"

definition detect_startup_status :: "bool \<Rightarrow> action_env \<Rightarrow> run_store \<Rightarrow> run_store" where
  "detect_startup_status dev_sidecar env s =
     (if dev_sidecar then accept_sidecar s
      else snd (observe_current_health (contract env) (evidence env) (reprobe env) (during_probe env) s))"

lemma operation_slot_kept [frame_simps]:
  "operation_running (observe h s) = operation_running s"
  "operation_running (snd (request_action a s)) = operation_running s"
  "operation_running (snd (restore_sidecar_allowance s)) = operation_running s"
  "operation_running (snd (record_reply c r s)) = operation_running s"
  "operation_running (accept_sidecar s) = operation_running s"
  by (auto simp: store_defs record_reply_def split: version_check.splits)

lemma await_loop_slot [frame_simps]:
  "operation_running (snd (await_loop c f a n le s)) = operation_running s"
  by (induction c f a n le s rule: await_loop.induct) (auto simp: frame_simps split: sum.splits)

lemma end_operation_frame [frame_simps]:
  "service (end_operation s) = service s" "\<not> operation_running (end_operation s)"
  "st_mode (end_operation s) = st_mode s"
  by (simp_all add: store_defs)

lemma begin_operation_cases:
  "begin_operation s = (if operation_running s then (Inl OperationRunning, s)
     else (Inr (), announce (bump (s\<lparr>operation_running := True\<rparr>))))"
  by (simp add: begin_operation_def)

lemma run_operation_releases_slot:
  assumes "\<And>s. \<not> operation_running s \<Longrightarrow> \<not> operation_running (snd (post s))"
  shows "operation_running (snd (run_operation_and_then op post s)) \<longleftrightarrow> operation_running s"
  using assms by (auto simp: run_operation_and_then_def begin_operation_cases frame_simps Let_def
      split: sum.splits prod.splits)

lemma restore_after:
  "svc_sidecar (service (snd (restore_sidecar_allowance s))) \<longleftrightarrow>
     svc_sidecar (service s) \<or> svc_health (service s) \<noteq> Ready"
  "svc_health (service (snd (restore_sidecar_allowance s))) = svc_health (service s)"
  by (auto simp: store_defs stored_allow_sidecar_def)

text \<open>
  A privileged action that fails, whether in the command, in the probe after it or in the wait
  for the service, leaves the sidecar accepted if it was accepted before, unless the service turned
  out to be ready; and the operation slot is free again whatever happened.
\<close>

theorem failed_action_restores_sidecar:
  assumes "requested_action st = Some a" and "\<not> operation_running s" and "svc_sidecar (service s)"
    and "handle_service_status env st s = (Inl e, s')"
  shows "\<not> operation_running s' \<and> (sidecar_allowed (snapshot s') \<or> health (snapshot s') = Ready)"
proof -
  let ?s1 = "announce (bump (s\<lparr>operation_running := True\<rparr>))"
  have srv: "service ?s1 = service s" by (simp add: store_defs)
  obtain b s2 where req: "request_action a ?s1 = (b, s2)" by fastforce
  with assms(3) srv have b: "b" by (auto simp: request_action_def Let_def split: if_splits)
  obtain r s3 where pw: "perform_and_wait env a s2 = (r, s3)" by fastforce
  have ap: "apply_service_status env st ?s1 =
      (r, if \<not> is_ok r then snd (restore_sidecar_allowance s3) else s3)"
    using assms(1) req b pw by (simp add: apply_service_status_def run_action_restoring_sidecar_def)
  with assms(2,4) have r: "r = Inl e" and s': "s' = end_operation (snd (restore_sidecar_allowance s3))"
    by (auto simp: handle_service_status_def run_operation_and_then_def begin_operation_cases Let_def
        split: sum.splits if_splits)
  show ?thesis unfolding s' by (auto simp: frame_simps snapshot_def restore_after)
qed

theorem failed_action_restores_sidecar_witness:
  "let env = \<lparr>contract = \<lparr>service_version = [], client_epoch = 1, min_revision = 1, supports_client = (\<lambda>_. True)\<rparr>,
        privileged_outcome = Inl ''denied'', evidence = Inr False, reprobe = Inl ''no reply'',
        wait_replies = (\<lambda>_. Inl ''no reply''), during_probe = id\<rparr>
   in sidecar_allowed (snapshot (snd (handle_service_status env InstallRequired (accept_sidecar (store_new False)))))"
proof -
  let ?env = "\<lparr>contract = \<lparr>service_version = [], client_epoch = 1, min_revision = 1, supports_client = (\<lambda>_. True)\<rparr>,
        privileged_outcome = Inl ''denied'', evidence = Inr False, reprobe = Inl ''no reply'',
        wait_replies = (\<lambda>_. Inl ''no reply''), during_probe = id\<rparr> :: action_env"
  let ?s = "accept_sidecar (store_new False)"
  have a: "requested_action InstallRequired = Some Install" by (simp add: requested_action_def)
  have f: "\<not> operation_running ?s" "svc_sidecar (service ?s)"
    by (simp_all add: store_defs store_new_def stored_default_def stored_allow_sidecar_def)
  obtain r s' where h: "handle_service_status ?env InstallRequired ?s = (r, s')" by fastforce
  from h f have r: "r = Inl (PrivilegedFailed ''denied'')"
    and n: "health (snapshot s') = NotInstalled"
    by (auto simp: handle_service_status_def run_operation_and_then_def apply_service_status_def
        run_action_restoring_sidecar_def perform_and_wait_def perform_def observe_current_health_def
        detect_service_health_def classify_service_health_def requested_action_def snapshot_def store_defs
        store_new_def stored_default_def stored_request_def stored_allow_sidecar_def stored_observe_def reasserts_def)
  from failed_action_restores_sidecar [OF a f h [unfolded r]] n h show ?thesis by simp
qed


subsection \<open>The owner session\<close>

record session_proof =
  proof_generation :: u64
  proof_token :: string

record active_session =
  session_proof_of :: session_proof
  supports_runtime_staging :: bool
  supports_runtime_file_read :: bool

definition session_matches_status :: "session_proof \<Rightarrow> bool \<Rightarrow> u64 option \<Rightarrow> bool" where
  "session_matches_status proof is_act gen \<longleftrightarrow> is_act \<and> gen = Some (proof_generation proof)"

definition session_matches_active_status :: "active_session option \<Rightarrow> bool \<Rightarrow> u64 option \<Rightarrow> bool" where
  "session_matches_active_status session is_act gen =
     (case session of None \<Rightarrow> False | Some a \<Rightarrow> session_matches_status (session_proof_of a) is_act gen)"

definition active_service_supports_runtime_staging :: "active_session option \<Rightarrow> bool" where
  "active_service_supports_runtime_staging session =
     (case session of None \<Rightarrow> False | Some a \<Rightarrow> supports_runtime_staging a)"

definition active_service_supports_runtime_file_read :: "active_session option \<Rightarrow> bool" where
  "active_service_supports_runtime_file_read session =
     (case session of None \<Rightarrow> False | Some a \<Rightarrow> supports_runtime_file_read a)"

record status_snapshot =
  ss_is_active :: bool
  ss_active_generation :: "u64 option"
  ss_desired_running :: bool
  ss_service_state :: lifecycle_state
  ss_core_pid :: "u32 option"
  ss_restart_count :: u32
  ss_last_exit :: "string option"

text \<open>One reading of the owner status; \<open>not_active_code\<close> is the service's error code for it.\<close>

definition read_owner_sample :: "u16 \<Rightarrow> active_session option \<Rightarrow> string + (u16 \<times> status_snapshot option)
    \<Rightarrow> owner_sample \<times> status_snapshot option" where
  "read_owner_sample not_active_code session response =
     (case response of
        Inl e \<Rightarrow> (Unreadable, None)
      | Inr (code, data) \<Rightarrow>
          (if code = not_active_code then (NotActive, None)
           else if code \<noteq> 0 then (Unreadable, None)
           else (case data of
                   None \<Rightarrow> (Unreadable, None)
                 | Some st \<Rightarrow>
                     (if \<not> session_matches_active_status session (ss_is_active st) (ss_active_generation st)
                      then (NotActive, None)
                      else (OwnerStatus (ss_is_active st) (ss_desired_running st) (ss_service_state st) (ss_core_pid st),
                            Some st)))))"

definition log_core_restarts :: "u32 option \<Rightarrow> status_snapshot \<Rightarrow> bool \<times> u32 option" where
  "log_core_restarts seen st =
     ((case seen of None \<Rightarrow> False | Some n \<Rightarrow> ss_restart_count st > n), Some (ss_restart_count st))"

definition owner_recovery_resets_proxy :: "owner_recovery_reason \<Rightarrow> bool \<Rightarrow> bool" where
  "owner_recovery_resets_proxy reason is_macos \<longleftrightarrow> \<not> is_macos \<or> reason = SameOwnerFailure"

definition mark_service_unavailable_after_owner_loss :: "owner_recovery_reason \<Rightarrow> run_store \<Rightarrow> run_store" where
  "mark_service_unavailable_after_owner_loss reason s =
     (if reason = TransportFailure
      then observe (Unavailable ''service control IPC unavailable after sustained transport failure'') s else s)"

definition claim_owner_recovery_generation :: "u64 \<Rightarrow> u64 \<Rightarrow> u64 option \<times> u64" where
  "claim_owner_recovery_generation captured current =
     (if current = captured then (Some (captured + 1), captured + 1) else (None, current))"

text \<open>
  a status sample is only ever about this app's own session, reported active; whatever another
  owner's session looks like, it is reported as not active, which the watch takes for displacement.
\<close>

theorem owner_status_is_ours:
  "(case fst (read_owner_sample code session response) of
      OwnerStatus is_act desired st pid \<Rightarrow>
        is_act \<and> (\<exists>a snap. session = Some a \<and> snd (read_owner_sample code session response) = Some snap
                   \<and> ss_active_generation snap = Some (proof_generation (session_proof_of a)))
    | NotActive \<Rightarrow> fst (watch_observe (fst (read_owner_sample code session response)) w) = Recover Displaced
    | Unreadable \<Rightarrow> snd (read_owner_sample code session response) = None)"
  by (auto simp: read_owner_sample_def session_matches_active_status_def session_matches_status_def
      split: sum.splits option.splits if_splits)

lemma recovery_claimed_once:
  "claim_owner_recovery_generation captured current = (Some g, current') \<Longrightarrow>
     fst (claim_owner_recovery_generation captured current') = None"
  by (auto simp: claim_owner_recovery_generation_def split: if_splits)

subsection \<open>Hexadecimal payloads\<close>

definition hex_char :: "nat \<Rightarrow> char" where
  "hex_char n = (if n < 10 then char_of (48 + n) else char_of (87 + n))"

definition hex_value :: "char \<Rightarrow> nat option" where
  "hex_value c = (let n = of_char c :: nat in
     if 48 \<le> n \<and> n \<le> 57 then Some (n - 48)
     else if 97 \<le> n \<and> n \<le> 102 then Some (n - 87)
     else if 65 \<le> n \<and> n \<le> 70 then Some (n - 55) else None)"

text \<open>The token of a session: 32 random bytes, two lower-case digits each.\<close>

fun session_token :: "u8 list \<Rightarrow> string" where
  "session_token [] = []"
| "session_token (b # bs) = hex_char (unat b div 16) # hex_char (unat b mod 16) # session_token bs"

text \<open>
  \<open>u8::from_str_radix\<close> on a two-byte slice: an optional plus sign, then digits.
\<close>

definition parse_hex_pair :: "char \<Rightarrow> char \<Rightarrow> u8 option" where
  "parse_hex_pair a b =
     (if a = CHR ''+'' then map_option of_nat (hex_value b)
      else (case (hex_value a, hex_value b) of (Some x, Some y) \<Rightarrow> Some (of_nat (16 * x + y)) | _ \<Rightarrow> None))"

fun decode_pairs :: "string \<Rightarrow> string + u8 list" where
  "decode_pairs (a # b # cs) =
     (case parse_hex_pair a b of
        None \<Rightarrow> Inl ''hex payload is malformed''
      | Some x \<Rightarrow> (case decode_pairs cs of Inl e \<Rightarrow> Inl e | Inr xs \<Rightarrow> Inr (x # xs)))"
| "decode_pairs _ = Inr []"

definition decode_hex :: "string \<Rightarrow> string + u8 list" where
  "decode_hex encoded =
     (if odd (length encoded) then Inl ''hex payload has an odd length'' else decode_pairs encoded)"

lemma hex_value_char:
  assumes "n < 16"
  shows "hex_value (hex_char n) = Some n" "hex_char n \<noteq> CHR ''+''"
proof -
  have code: "(of_char (hex_char n) :: nat) = (if n < 10 then 48 + n else 87 + n)"
    using assms by (simp add: hex_char_def of_char_of)
  with assms show "hex_value (hex_char n) = Some n" by (simp add: hex_value_def Let_def)
  have "(of_char (CHR ''+'') :: nat) = 43" by simp
  with code show "hex_char n \<noteq> CHR ''+''" by (auto split: if_splits)
qed

lemma parse_hex_pair_token: "parse_hex_pair (hex_char (unat b div 16)) (hex_char (unat b mod 16)) = Some b"
proof -
  have "unat b < 2 ^ LENGTH(8)" by (rule unsigned_less)
  then have "unat b div 16 < 16" by simp
  with hex_value_char [of "unat b div 16"] hex_value_char [of "unat b mod 16"] show ?thesis
    by (simp add: parse_hex_pair_def)
qed

text \<open>decoding what the hexadecimal encoder of the service tokens prints gives the bytes back.\<close>

theorem hex_roundtrip: "decode_hex (session_token bs) = Inr bs"
proof -
  have "decode_pairs (session_token bs) = Inr bs"
    by (induction bs) (simp_all add: parse_hex_pair_token)
  moreover have "even (length (session_token bs))" by (induction bs) simp_all
  ultimately show ?thesis by (simp add: decode_hex_def)
qed

text \<open>A signed pair is accepted as one byte, although it is no hexadecimal encoding of anything.\<close>

lemma hex_sign_accepted: "decode_hex ''+a'' = Inr [10]"
  by (simp add: decode_hex_def parse_hex_pair_def hex_value_def)

subsection \<open>Freshness of provider caches and refusals\<close>

definition provider_settle_ns :: nat where
  "provider_settle_ns = 2000000000"

definition finished_loading :: "u64 option \<Rightarrow> u64 option \<Rightarrow> bool" where
  "finished_loading mtime_ns updated_at_ns =
     (case (mtime_ns, updated_at_ns) of
        (Some mtime, Some updated_at) \<Rightarrow> unat mtime \<le> unat updated_at + provider_settle_ns
      | _ \<Rightarrow> True)"

definition has_settled :: "nat \<Rightarrow> u64 option \<Rightarrow> bool" where
  "has_settled now_ns mtime_ns =
     (case mtime_ns of None \<Rightarrow> True | Some mtime \<Rightarrow> now_ns - unat mtime \<ge> provider_settle_ns)"

definition is_about_the_bundle :: "u16 \<Rightarrow> u16 \<Rightarrow> u16 \<Rightarrow> bool" where
  "is_about_the_bundle invalid_runtime_asset invalid_install_location code \<longleftrightarrow>
     code = invalid_runtime_asset \<or> code = invalid_install_location"

end
