(* ===== verification/ProxyControl.thy ===== *)
theory ProxyControl
  imports Failures Verge ServiceStatus
begin

section \<open>Applying, clearing and guarding the system proxy\<close>

text \<open>
  Models \<open>src-tauri/src/core/proxy_control.rs\<close>: the choice between the local writer and the
  privileged service, the classification of failures and their filing in the failure table, the
  retry of a clear, the configuration sent to the service, and the generation that keeps a replaced
  guard from writing.  The local writer (\<open>core/sysopt.rs\<close>) and the service answer through
  arguments; strings are byte lists.
\<close>

subsection \<open>Classifying failures\<close>

definition classify_refused_locally :: "platform \<Rightarrow> error \<Rightarrow> bool" where
  "classify_refused_locally plat e \<longleftrightarrow> plat = MacOS \<and> Sys RequiresAdminPrivileges \<in> set e"

fun is_system_call :: "cause \<Rightarrow> bool" where
  "is_system_call (Sys (SystemCall _)) = True"
| "is_system_call _ = False"

definition was_a_failed_system_call :: "platform \<Rightarrow> error \<Rightarrow> bool" where
  "was_a_failed_system_call plat e \<longleftrightarrow> plat = Windows \<and> list_ex is_system_call e"

definition classify_local_failure :: "platform \<Rightarrow> error \<Rightarrow> error" where
  "classify_local_failure plat e =
     (if classify_refused_locally plat e then add_context (Proxy PrivilegeRequired) e
      else if was_a_failed_system_call plat e then add_context (Proxy SystemCallFailed) e
      else e)"

definition is_missing_network_service :: "platform \<Rightarrow> sysproxy_error \<Rightarrow> bool" where
  "is_missing_network_service plat e \<longleftrightarrow> plat = MacOS \<and> (e = NoActiveNetworkService \<or> e = NetworkInterface)"

definition refusal_classification :: "bool option \<Rightarrow> sysproxy_failure" where
  "refusal_classification usable = (if usable = Some True then SidecarWhileServiceReady else PrivilegeRequired)"

text \<open>\<open>reply\<close> is \<open>None\<close> when the two-second probe times out: nothing is recorded then.\<close>

definition classify_local_apply_failure :: "platform \<Rightarrow> service_contract \<Rightarrow> (string + version_reply) option
    \<Rightarrow> error \<Rightarrow> run_store \<Rightarrow> error \<times> run_store" where
  "classify_local_apply_failure plat c reply e s =
     (if from_chain e \<noteq> None \<or> \<not> classify_refused_locally plat e then (e, s)
      else case reply of
        None \<Rightarrow> (add_context (Proxy (refusal_classification None)) e, s)
      | Some r \<Rightarrow>
          (let (probed, s') = probe c r s
           in (add_context (Proxy (refusal_classification
                 (case probed of Inr fresh \<Rightarrow> Some (service_usable fresh) | Inl _ \<Rightarrow> None))) e, s')))"

subsection \<open>The configuration sent to the service\<close>

datatype proxy_backend_route = RouteLocal | RouteService

definition backend_route :: "platform \<Rightarrow> running_mode \<Rightarrow> proxy_backend_route" where
  "backend_route plat m = (if plat = MacOS \<and> m = ModeService then RouteService else RouteLocal)"

fun boundary_below :: "string \<Rightarrow> nat \<Rightarrow> nat" where
  "boundary_below s 0 = 0"
| "boundary_below s (Suc n) = (if is_char_boundary s (Suc n) then Suc n else boundary_below s n)"

definition truncate_utf8 :: "nat \<Rightarrow> string \<Rightarrow> string" where
  "truncate_utf8 max_bytes s = (if length s \<le> max_bytes then s else take (boundary_below s max_bytes) s)"

definition loopback_host :: string where
  "loopback_host = ''127.0.0.1''"

definition macos_default_bypass :: string where
  "macos_default_bypass = ''127.0.0.1,192.168.0.0/16,10.0.0.0/8,172.16.0.0/12,localhost,*.local,*.crashlytics.com,<local>''"

definition max_service_bypass_len :: nat where
  "max_service_bypass_len = 8192"

definition service_bypass :: "iverge \<Rightarrow> string outcome" where
  "service_bypass v =
     (let custom = unwrap_or [] (system_proxy_bypass v)
      in if char_of (0 :: nat) \<in> set custom then Inl (bail ''system proxy bypass contains NUL'')
         else Inr (truncate_utf8 max_service_bypass_len
           (if custom = [] then macos_default_bypass
            else if unwrap_or True (use_default_bypass v) then macos_default_bypass @ '','' @ custom
            else custom)))"

datatype macos_proxy_config =
  ProxyDisabled | ProxyPac (pac_url: string) | ProxyGlobal (proxy_host_of: string) (port_of: u16) (bypass_of: string)

definition service_proxy_config :: "iverge \<Rightarrow> u16 \<Rightarrow> u16 \<Rightarrow> macos_proxy_config outcome" where
  "service_proxy_config v mixed_port pac_port =
     (if \<not> unwrap_or False (enable_system_proxy v) then Inr ProxyDisabled
      else if unwrap_or False (proxy_auto_config v) then
        (if pac_port = 0 then Inl (bail ''embedded PAC server port must not be zero'')
         else Inr (ProxyPac (''http://'' @ loopback_host @ '':'' @ show_nat (unat pac_port) @ ''/commands/pac'')))
      else if mixed_port = 0 then Inl (bail ''system proxy port must not be zero'')
      else and_then (service_bypass v) (\<lambda>b. Inr (ProxyGlobal loopback_host mixed_port b)))"

definition current_service_proxy_config :: "iverge \<Rightarrow> u16 outcome \<Rightarrow> u16 \<Rightarrow> macos_proxy_config outcome" where
  "current_service_proxy_config v embedded_server_port desired_mixed_port =
     (if \<not> unwrap_or False (enable_system_proxy v) then Inr ProxyDisabled
      else if unwrap_or False (proxy_auto_config v) then
        and_then embedded_server_port (\<lambda>pac. service_proxy_config v 0 pac)
      else service_proxy_config v desired_mixed_port 0)"

datatype proxy_apply_outcome = Applied | NotRequested | OutcomeDirectFallback string

definition service_apply_result :: "macos_proxy_config \<Rightarrow> proxy_apply_outcome \<Rightarrow> unit outcome" where
  "service_apply_result requested out =
     (case out of
        OutcomeDirectFallback message \<Rightarrow>
          (if requested = ProxyDisabled then Inr () else Inl [Proxy (DirectFallback message)])
      | _ \<Rightarrow> Inr ())"

subsection \<open>Filing failures\<close>

datatype table_effect = Retire failed_operation | File failed_operation error | EffectNothing

definition clear_table_effect :: "failed_operation option \<Rightarrow> unit outcome \<Rightarrow> table_effect" where
  "clear_table_effect asking r =
     (case r of
        Inl e \<Rightarrow> (if from_chain e \<noteq> None then File (what_was_asked asking) e else EffectNothing)
      | Inr _ \<Rightarrow> EffectNothing)"

definition apply_table_effect :: "failed_operation option \<Rightarrow> unit outcome \<Rightarrow> table_effect" where
  "apply_table_effect asking r =
     (case r of
        Inr _ \<Rightarrow> Retire (what_was_asked asking)
      | Inl e \<Rightarrow> (if from_chain e \<noteq> None then File (what_was_asked asking) e else EffectNothing))"

definition report_failure :: "failed_operation \<Rightarrow> error \<Rightarrow> failure_table \<Rightarrow> bool \<times> failure_table" where
  "report_failure op e t =
     (case from_chain e of None \<Rightarrow> (False, t)
      | Some f \<Rightarrow> (True, record_failure op (failure_code f) (show_chain e) t))"

definition settle_table :: "table_effect \<Rightarrow> failure_table \<Rightarrow> failure_table" where
  "settle_table eff t =
     (case eff of Retire asked \<Rightarrow> retire_system_proxy_failures asked t
      | File op e \<Rightarrow> snd (report_failure op e t) | EffectNothing \<Rightarrow> t)"

definition is_reportable :: "error \<Rightarrow> failure_table \<Rightarrow> bool" where
  "is_reportable e t = (case from_chain e of None \<Rightarrow> False | Some f \<Rightarrow> has_pending_failure (failure_code f) t)"

subsection \<open>The service write and the guard generation\<close>

record proxy_world =
  run :: run_store
  table :: failure_table
  guard_generation :: u64
  service_writes :: "macos_proxy_config list"
  guards_stopped :: nat

definition invalidate_guard :: "proxy_world \<Rightarrow> u64 \<times> proxy_world" where
  "invalidate_guard w = (guard_generation w + 1, w\<lparr>guard_generation := guard_generation w + 1\<rparr>)"

definition run_final_service_operation :: "(proxy_world \<Rightarrow> 'r \<times> proxy_world) \<Rightarrow> proxy_world \<Rightarrow> 'r \<times> proxy_world" where
  "run_final_service_operation op w = op (snd (invalidate_guard w))"

definition cancel_and_drain :: "(proxy_world \<Rightarrow> 'r \<times> proxy_world) \<Rightarrow> proxy_world \<Rightarrow> (u64 \<times> 'r) \<times> proxy_world" where
  "cancel_and_drain cancel w = (let (g, w1) = invalidate_guard w; (r, w2) = cancel w1 in ((g, r), w2))"

definition record_if_current :: "u64 \<Rightarrow> (proxy_world \<Rightarrow> bool \<times> proxy_world) \<Rightarrow> proxy_world \<Rightarrow> bool \<times> proxy_world" where
  "record_if_current captured rec w = (if guard_generation w = captured then rec w else (False, w))"

text \<open>One request to the service; \<open>service_writes\<close> logs what the helper was asked for.\<close>

definition send_service :: "macos_proxy_config \<Rightarrow> proxy_apply_outcome outcome \<Rightarrow> proxy_world \<Rightarrow> unit outcome \<times> proxy_world" where
  "send_service cfg answer w =
     (case answer of Inl e \<Rightarrow> Inl e | Inr out \<Rightarrow> service_apply_result cfg out,
      w\<lparr>service_writes := service_writes w @ [cfg]\<rparr>)"

definition run_guard_request :: "u64 \<Rightarrow> session_proof \<Rightarrow> macos_proxy_config \<Rightarrow> bool \<Rightarrow> session_proof outcome
    \<Rightarrow> proxy_apply_outcome outcome \<Rightarrow> proxy_world \<Rightarrow> bool outcome \<times> proxy_world" where
  "run_guard_request captured proof cfg is_service_mode active_proof answer w =
     (if guard_generation w \<noteq> captured \<or> \<not> is_service_mode \<or> active_proof \<noteq> Inr proof then (Inr False, w)
      else let (r, w') = send_service cfg answer w in (map_sum id (\<lambda>_. True) r, w'))"

record proxy_env =
  plat_of :: platform
  settings :: iverge
  contract_of :: service_contract
  local_apply :: "unit outcome"
  local_reset :: "nat \<Rightarrow> unit outcome"
  probe_reply :: "(string + version_reply) option"
  service_answer :: "nat \<Rightarrow> proxy_apply_outcome outcome"
  embedded_port :: "u16 outcome"
  desired_port :: u16
  asking :: "failed_operation option"
  local_guard :: bool
  session_of :: "session_proof outcome"

text \<open>
  \<open>apply\<close>: a local guard that does not stop in time does not keep the service from writing, and
  a configuration that cannot be built returns before the table is settled.
\<close>

definition apply_through_route :: "proxy_env \<Rightarrow> proxy_world \<Rightarrow> (unit outcome \<times> bool) \<times> proxy_world" where
  "apply_through_route env w =
     (case backend_route (plat_of env) (st_mode (run w)) of
        RouteLocal \<Rightarrow>
          (case local_apply env of
             Inr _ \<Rightarrow> ((Inr (), True), w)
           | Inl e \<Rightarrow>
               (let (e', s') = classify_local_apply_failure (plat_of env) (contract_of env) (probe_reply env) e (run w)
                in ((Inl e', True), w\<lparr>run := s'\<rparr>)))
      | RouteService \<Rightarrow>
          (case current_service_proxy_config (settings env) (embedded_port env) (desired_port env) of
             Inl e \<Rightarrow> ((Inl e, False), w)
           | Inr cfg \<Rightarrow>
               (let (r, w') = run_final_service_operation (send_service cfg (service_answer env 0)) w
                in ((r, True), w'))))"

definition proxy_apply :: "proxy_env \<Rightarrow> proxy_world \<Rightarrow> unit outcome \<times> proxy_world" where
  "proxy_apply env w =
     (let ((r, settles), w') = apply_through_route env w
      in (r, if settles then w'\<lparr>table := settle_table (apply_table_effect (asking env) r) (table w')\<rparr> else w'))"

definition clear_inner :: "proxy_env \<Rightarrow> nat \<Rightarrow> proxy_world \<Rightarrow> unit outcome \<times> proxy_world" where
  "clear_inner env k w =
     (case backend_route (plat_of env) (st_mode (run w)) of
        RouteLocal \<Rightarrow> (map_sum (classify_local_failure (plat_of env)) id (local_reset env k), w)
      | RouteService \<Rightarrow> run_final_service_operation (send_service ProxyDisabled (service_answer env k)) w)"

definition clear_attempts :: nat where
  "clear_attempts = 3"

definition is_transient :: "unit outcome \<Rightarrow> bool" where
  "is_transient r = (case r of Inl e \<Rightarrow> from_chain e = Some SystemCallFailed | Inr _ \<Rightarrow> False)"

fun clear_loop :: "proxy_env \<Rightarrow> nat \<Rightarrow> nat \<Rightarrow> proxy_world \<Rightarrow> unit outcome \<times> proxy_world" where
  "clear_loop env k 0 w = clear_inner env k w"
| "clear_loop env k (Suc n) w =
     (let (r, w') = clear_inner env k w in if is_transient r then clear_loop env (Suc k) n w' else (r, w'))"

definition clear_with_retry :: "proxy_env \<Rightarrow> proxy_world \<Rightarrow> unit outcome \<times> proxy_world" where
  "clear_with_retry env w = clear_loop env 0 (clear_attempts - 1) w"

definition proxy_clear :: "proxy_env \<Rightarrow> proxy_world \<Rightarrow> unit outcome \<times> proxy_world" where
  "proxy_clear env w =
     (let (r, w') = clear_with_retry env w
      in (r, w'\<lparr>table := settle_table (clear_table_effect (asking env) r) (table w')\<rparr>))"

definition stop_guard :: "bool \<Rightarrow> proxy_world \<Rightarrow> bool \<times> proxy_world" where
  "stop_guard drained w = (let ((g, r), w') = cancel_and_drain (\<lambda>w. (drained, w)) w in (r, w'))"

text \<open>What \<open>refresh_guard\<close> leaves running: nothing of its own, or a guard of the service.\<close>

datatype guard_task = NoTask | ServiceGuard u64 session_proof macos_proxy_config u64

definition max_u64 :: "u64 \<Rightarrow> u64 \<Rightarrow> u64" where
  "max_u64 a b = (if a \<le> b then b else a)"

definition retire_guards :: "proxy_world \<Rightarrow> proxy_world" where
  "retire_guards w = w\<lparr>table := retire_guard_failures (table w)\<rparr>"

definition refresh_guard :: "proxy_env \<Rightarrow> bool \<Rightarrow> proxy_world \<Rightarrow> guard_task outcome \<times> proxy_world" where
  "refresh_guard env drained w =
     (let ((g, _), w1) = cancel_and_drain (\<lambda>w. (drained, w)) w; v = settings env
      in if backend_route (plat_of env) (st_mode (run w1)) = RouteLocal
         then (Inr NoTask, if local_guard env then retire_guards w1 else w1)
         else if \<not> unwrap_or False (enable_system_proxy v) \<or> \<not> unwrap_or False (enable_proxy_guard v)
         then (Inr NoTask, retire_guards w1)
         else (case current_service_proxy_config v (embedded_port env) (desired_port env) of
             Inl e \<Rightarrow> (Inl e, w1)
           | Inr cfg \<Rightarrow>
               (case session_of env of
                  Inl e \<Rightarrow> (Inl e, w1)
                | Inr proof \<Rightarrow>
                    (Inr (ServiceGuard g proof cfg (max_u64 (unwrap_or 30 (proxy_guard_duration v)) 1)), retire_guards w1))))"

definition guard_failures_before_stopping :: u32 where
  "guard_failures_before_stopping = 3"

definition report_guard_stopped :: "u64 \<Rightarrow> error \<Rightarrow> bool \<Rightarrow> proxy_world \<Rightarrow> proxy_world" where
  "report_guard_stopped captured e window_hidden w =
     (let stopped = [Proxy (GuardStopped (show_chain e))];
          (recorded, w') = record_if_current captured
            (\<lambda>w. let (b, t) = report_failure SystemProxyGuard stopped (table w) in (b, w\<lparr>table := t\<rparr>)) w
      in if recorded \<and> window_hidden then w'\<lparr>guards_stopped := guards_stopped w' + 1\<rparr> else w')"

text \<open>
  The guard's loop over its ticks.  A tick brings the answers of the outside world and, before it,
  what the rest of the program did to the shared state.
\<close>

record guard_tick =
  before_tick :: "proxy_world \<Rightarrow> proxy_world"
  in_service_mode :: bool
  tick_proof :: "session_proof outcome"
  tick_answer :: "proxy_apply_outcome outcome"
  tick_window_hidden :: bool

datatype guard_end = StillGuarding u32 | Superseded | GaveUp

fun guard_loop :: "u64 \<Rightarrow> session_proof \<Rightarrow> macos_proxy_config \<Rightarrow> u32 \<Rightarrow> guard_tick list \<Rightarrow> proxy_world \<Rightarrow> guard_end \<times> proxy_world" where
  "guard_loop g proof cfg failures [] w = (StillGuarding failures, w)"
| "guard_loop g proof cfg failures (t # ts) w =
     (case run_guard_request g proof cfg (in_service_mode t) (tick_proof t) (tick_answer t) (before_tick t w) of
        (Inr True, w') \<Rightarrow> guard_loop g proof cfg 0 ts w'
      | (Inr False, w') \<Rightarrow> (Superseded, w')
      | (Inl e, w') \<Rightarrow>
          (if guard_failures_before_stopping \<le> failures + 1
           then (GaveUp, report_guard_stopped g e (tick_window_hidden t) w')
           else guard_loop g proof cfg (failures + 1) ts w'))"

subsection \<open>What is sent to the service\<close>

lemma boundary_below_le: "boundary_below s n \<le> n"
  by (induction n) auto

lemma boundary_below_boundary: "is_char_boundary s (boundary_below s n)"
  by (induction n) (auto simp: is_char_boundary_def)

lemma truncate_utf8_bound: "length (truncate_utf8 n s) \<le> n"
  using boundary_below_le [of s n] by (simp add: truncate_utf8_def)

lemma truncate_utf8_prefix: "\<exists>k. truncate_utf8 n s = take k s \<and> is_char_boundary s k"
  using boundary_below_boundary [of s n]
  by (cases "length s \<le> n") (auto simp: truncate_utf8_def is_char_boundary_def intro: exI [of _ "length s"])

lemma set_truncate: "set (truncate_utf8 n s) \<subseteq> set s"
  using truncate_utf8_prefix [of n s] set_take_subset by fastforce

lemma nul_free_default: "char_of (0 :: nat) \<notin> set macos_default_bypass"
  by (simp add: macos_default_bypass_def char_of_def)

lemma service_bypass_ok:
  assumes "service_bypass v = Inr b"
  shows "length b \<le> 8192 \<and> char_of (0 :: nat) \<notin> set b"
proof -
  let ?custom = "unwrap_or [] (system_proxy_bypass v)"
  from assms have "char_of (0 :: nat) \<notin> set ?custom"
    and b: "b = truncate_utf8 8192 (if ?custom = [] then macos_default_bypass
            else if unwrap_or True (use_default_bypass v) then macos_default_bypass @ '','' @ ?custom else ?custom)"
    by (simp_all add: service_bypass_def max_service_bypass_len_def Let_def split: if_split_asm)
  let ?x = "if ?custom = [] then macos_default_bypass
            else if unwrap_or True (use_default_bypass v) then macos_default_bypass @ '','' @ ?custom else ?custom"
  have "char_of (0 :: nat) \<noteq> CHR '',''" by (simp add: char_of_def)
  with \<open>char_of (0 :: nat) \<notin> set ?custom\<close> nul_free_default have "char_of (0 :: nat) \<notin> set ?x"
    by (simp del: unwrap_or_simps)
  with set_truncate [of 8192 ?x] have "char_of (0 :: nat) \<notin> set (truncate_utf8 8192 ?x)" by blast
  with b truncate_utf8_bound [of 8192 ?x] show ?thesis by (simp only: simp_thms)
qed



subsection \<open>Clearing and filing\<close>

lemma settle_table_distinct: "keys_distinct t \<Longrightarrow> keys_distinct (settle_table eff t)"
  using table_step_distinct [of t "RetireProxy _"] table_step_distinct [of t "Record _ _ _"]
  by (auto simp: settle_table_def report_failure_def split: table_effect.splits option.splits)

lemma reported_is_pending:
  assumes "keys_distinct t" "from_chain e \<noteq> None"
  shows "is_reportable e (snd (report_failure op e t))"
proof -
  from assms(2) obtain f where f: "from_chain e = Some f" by auto
  have "lookup (record_failure op (failure_code f) (show_chain e) t) (failure_code f) \<noteq> None"
    using table_step_lookup [OF assms(1), of "Record op (failure_code f) (show_chain e)" "failure_code f"] by simp
  with f show ?thesis by (simp add: is_reportable_def report_failure_def has_pending_failure_def)
qed

lemma send_service_table [simp]: "table (snd (send_service cfg a w)) = table w" "run (snd (send_service cfg a w)) = run w"
  by (simp_all add: send_service_def)

lemma clear_inner_frame [simp]:
  "table (snd (clear_inner env k w)) = table w" "run (snd (clear_inner env k w)) = run w"
  by (simp_all add: clear_inner_def run_final_service_operation_def invalidate_guard_def split: proxy_backend_route.splits)

lemma clear_loop_frame [simp]:
  "table (snd (clear_loop env k n w)) = table w" "run (snd (clear_loop env k n w)) = run w"
  by (induction env k n w rule: clear_loop.induct)
    (simp_all add: Let_def split: prod.splits, (metis clear_inner_frame snd_conv)+)

text \<open>The answer to the \<open>k\<close>-th attempt, whichever route is taken.\<close>

definition clear_answer :: "proxy_env \<Rightarrow> running_mode \<Rightarrow> nat \<Rightarrow> unit outcome" where
  "clear_answer env m k =
     (case backend_route (plat_of env) m of
        RouteLocal \<Rightarrow> map_sum (classify_local_failure (plat_of env)) id (local_reset env k)
      | RouteService \<Rightarrow> (case service_answer env k of Inl e \<Rightarrow> Inl e | Inr out \<Rightarrow> service_apply_result ProxyDisabled out))"

lemma clear_inner_answer: "fst (clear_inner env k w) = clear_answer env (st_mode (run w)) k"
  by (simp add: clear_inner_def clear_answer_def run_final_service_operation_def invalidate_guard_def send_service_def
      split: proxy_backend_route.splits)

lemma clear_loop_answer:
  "fst (clear_loop env k n w) =
     (case find (\<lambda>i. \<not> is_transient (clear_answer env (st_mode (run w)) i)) [k..<k + n] of
        Some i \<Rightarrow> clear_answer env (st_mode (run w)) i
      | None \<Rightarrow> clear_answer env (st_mode (run w)) (k + n))"
proof (induction n arbitrary: k w)
  case 0
  then show ?case by (simp add: clear_inner_answer)
next
  case (Suc n)
  obtain r w' where c: "clear_inner env k w = (r, w')" by (rule prod.exhaust)
  have r: "r = clear_answer env (st_mode (run w)) k" and w': "run w' = run w"
    using c clear_inner_answer [of env k w] clear_inner_frame(2) [of env k w] by simp_all
  have upt: "[k..<k + Suc n] = k # [Suc k..<Suc k + n]" by (simp add: upt_conv_Cons)
  have ks: "k + Suc n = Suc k + n" by simp
  show ?case
    unfolding upt unfolding ks using Suc.IH [of "Suc k" w', unfolded w'] r c by (simp add: Let_def del: upt_Suc)
qed

text \<open>
  Clearing the proxy gives the first answer that is not a transient system-call failure, or the
  third if all are, and asks no further; a successful clear leaves the failure table alone, so an
  unanswered request to enable the proxy stays; a classified failure of the clear becomes pending.
\<close>

theorem proxy_clear_outcome:
  assumes "keys_distinct (table w)" and "proxy_clear env w = (r, w')"
  shows "(let answer = clear_answer env (st_mode (run w))
     in r = answer (if \<not> is_transient (answer 0) then 0 else if \<not> is_transient (answer 1) then 1 else 2))
    \<and> (is_ok r \<longrightarrow> table w' = table w) \<and> (\<forall>e. r = Inl e \<and> from_chain e \<noteq> None \<longrightarrow> is_reportable e (table w'))"
proof -
  let ?a = "clear_answer env (st_mode (run w))"
  obtain w1 where c: "clear_with_retry env w = (r, w1)"
    and w': "w' = w1\<lparr>table := settle_table (clear_table_effect (asking env) r) (table w1)\<rparr>"
    using assms(2) by (auto simp: proxy_clear_def Let_def split: prod.splits)
  have t: "table w1 = table w"
    using c clear_loop_frame(1) by (metis clear_with_retry_def snd_conv)
  have "[0..<0 + 2] = [0 :: nat, 1]" by (simp add: upt_conv_Cons)
  then have "r = ?a (if \<not> is_transient (?a 0) then 0 else if \<not> is_transient (?a 1) then 1 else 2)"
    using clear_loop_answer [of env 0 2 w] c
    by (auto simp: clear_with_retry_def clear_attempts_def numeral_2_eq_2)
  moreover have "is_ok r \<longrightarrow> table w' = table w"
    using w' t by (cases r) (simp_all add: clear_table_effect_def settle_table_def)
  moreover have "\<forall>e. r = Inl e \<and> from_chain e \<noteq> None \<longrightarrow> is_reportable e (table w')"
    using w' t reported_is_pending [OF assms(1)] by (auto simp: clear_table_effect_def settle_table_def)
  ultimately show ?thesis by (simp add: Let_def)
qed

text \<open>An environment and a world for the witnesses.\<close>

definition sample_env :: "platform \<Rightarrow> (nat \<Rightarrow> unit outcome) \<Rightarrow> proxy_env" where
  "sample_env plat resets = \<lparr>plat_of = plat, settings = iverge_default,
     contract_of = \<lparr>service_version = [], client_epoch = 1, min_revision = 1, supports_client = (\<lambda>_. True)\<rparr>,
     local_apply = Inr (), local_reset = resets, probe_reply = None, service_answer = (\<lambda>_. Inr Applied),
     embedded_port = Inr 1, desired_port = 7897, asking = None, local_guard = False, session_of = Inl (bail [])\<rparr>"

definition sample_world :: proxy_world where
  "sample_world = \<lparr>run = store_new False, table = table_default, guard_generation = 0, service_writes = [], guards_stopped = 0\<rparr>"

theorem proxy_clear_outcome_witness:
  "is_ok (fst (proxy_clear (sample_env Windows (\<lambda>k. if k < 2 then Inl [Sys (SystemCall ''rpc'')] else Inr ())) sample_world))"
proof -
  let ?env = "sample_env Windows (\<lambda>k. if k < 2 then Inl [Sys (SystemCall ''rpc'')] else Inr ())"
  obtain r w' where p: "proxy_clear ?env sample_world = (r, w')" by (rule prod.exhaust)
  have d: "keys_distinct (table sample_world)" by (simp add: sample_world_def keys_distinct_def table_default_def)
  have "clear_answer ?env (st_mode (run sample_world)) 0 = Inl [Proxy SystemCallFailed, Sys (SystemCall ''rpc'')]"
    "clear_answer ?env (st_mode (run sample_world)) 1 = Inl [Proxy SystemCallFailed, Sys (SystemCall ''rpc'')]"
    "clear_answer ?env (st_mode (run sample_world)) 2 = Inr ()"
    by (simp_all add: clear_answer_def sample_env_def backend_route_def classify_local_failure_def
        classify_refused_locally_def was_a_failed_system_call_def add_context_def)
  with proxy_clear_outcome [OF d p] p show ?thesis by (simp add: Let_def is_transient_def)
qed

text \<open>A guard that keeps failing is still trying after two failures and stops at the third.\<close>

definition failing_tick :: "u64 \<Rightarrow> session_proof \<Rightarrow> guard_tick \<Rightarrow> bool" where
  "failing_tick g proof t \<longleftrightarrow> (\<forall>w. guard_generation (before_tick t w) = g) \<and> in_service_mode t
     \<and> tick_proof t = Inr proof \<and> \<not> is_ok (tick_answer t)"

lemma guard_counts_failures:
  assumes "list_all (failing_tick g proof) ts" and "unat n + length ts < 3"
  shows "fst (guard_loop g proof cfg n ts w) = StillGuarding (n + of_nat (length ts))"
  using assms
proof (induction ts arbitrary: n w)
  case Nil
  then show ?case by simp
next
  case (Cons t ts)
  then obtain e where e: "tick_answer t = Inl e" "in_service_mode t" "tick_proof t = Inr proof"
    and g: "guard_generation (before_tick t w) = g"
    by (cases "tick_answer t") (auto simp: failing_tick_def)
  have n: "unat (n + 1) = Suc (unat n)"
    using Cons.prems(2) by (simp add: unat_word_ariths)
  then have "\<not> guard_failures_before_stopping \<le> n + 1"
    using Cons.prems(2) by (simp add: guard_failures_before_stopping_def word_le_nat_alt)
  with e g Cons.IH [of "n + 1"] Cons.prems n show ?case
    by (simp add: run_guard_request_def send_service_def add.assoc)
qed

lemma guard_gives_up_at_three:
  assumes "failing_tick g proof t"
  shows "fst (guard_loop g proof cfg 2 (t # ts) w) = GaveUp"
proof -
  obtain e where "tick_answer t = Inl e" "in_service_mode t" "tick_proof t = Inr proof"
    "guard_generation (before_tick t w) = g"
    using assms by (cases "tick_answer t") (auto simp: failing_tick_def)
  then show ?thesis
    by (simp add: run_guard_request_def send_service_def guard_failures_before_stopping_def)
qed

subsection \<open>A replaced guard never writes\<close>

text \<open>
  \<open>ServiceProxyOperations\<close> one atomic step at a time: the generation is bumped without the lock;
  a guard request checks it under the lock and may write until it gives the lock up; stopping a guard
  waits for the lock.  A step that would have to wait is \<open>None\<close>.
\<close>

record guard_lock =
  gl_generation :: u64
  gl_holder :: "u64 option"
  gl_writes :: "u64 list"

datatype lock_event = LInvalidate | LEnter u64 | LWrite | LLeave | LDrain

fun lock_step :: "lock_event \<Rightarrow> guard_lock \<Rightarrow> guard_lock option" where
  "lock_step LInvalidate s = Some (s\<lparr>gl_generation := gl_generation s + 1\<rparr>)"
| "lock_step (LEnter g) s =
     (if gl_holder s \<noteq> None then None
      else Some (if gl_generation s = g then s\<lparr>gl_holder := Some g\<rparr> else s))"
| "lock_step LWrite s =
     (case gl_holder s of None \<Rightarrow> None | Some g \<Rightarrow> Some (s\<lparr>gl_writes := gl_writes s @ [g]\<rparr>))"
| "lock_step LLeave s = (case gl_holder s of None \<Rightarrow> None | Some g \<Rightarrow> Some (s\<lparr>gl_holder := None\<rparr>))"
| "lock_step LDrain s = (if gl_holder s \<noteq> None then None else Some s)"

fun lock_run :: "lock_event list \<Rightarrow> guard_lock \<Rightarrow> guard_lock option" where
  "lock_run [] s = Some s"
| "lock_run (x # xs) s = (case lock_step x s of None \<Rightarrow> None | Some s' \<Rightarrow> lock_run xs s')"

definition invalidations :: "lock_event list \<Rightarrow> nat" where
  "invalidations xs = length (filter (\<lambda>x. x = LInvalidate) xs)"

lemma lock_run_append:
  "lock_run (xs @ ys) s = (case lock_run xs s of None \<Rightarrow> None | Some s' \<Rightarrow> lock_run ys s')"
  by (induction xs arbitrary: s) (auto split: option.splits)

lemma lock_run_generation: "lock_run xs s = Some s' \<Longrightarrow> gl_generation s' = gl_generation s + of_nat (invalidations xs)"
proof (induction xs arbitrary: s)
  case Nil
  then show ?case by (simp add: invalidations_def)
next
  case (Cons x xs)
  then obtain s1 where "lock_step x s = Some s1" "lock_run xs s1 = Some s'" by (auto split: option.splits)
  with Cons.IH [of s1] show ?case
    by (cases x) (auto simp: invalidations_def algebra_simps split: if_splits option.splits)
qed

lemma offset_not_same: "0 < n \<Longrightarrow> n < 2 ^ 64 \<Longrightarrow> (g :: u64) + of_nat n \<noteq> g"
proof
  assume n: "0 < n" "n < 2 ^ 64" and "g + of_nat n = g"
  then have "(of_nat n :: u64) = 0" by simp
  then have "2 ^ 64 dvd n" by (simp add: word_of_nat_eq_0_iff)
  with n show False by (meson nat_dvd_not_less)
qed

lemma stale_writes_stop:
  assumes "lock_run ys s = Some s'" and "gl_holder s \<noteq> Some g"
    and "gl_generation s = g + of_nat m" and "0 < m" and "m + invalidations ys < 2 ^ 64"
  shows "count_list (gl_writes s') g = count_list (gl_writes s) g"
  using assms
proof (induction ys arbitrary: s m)
  case Nil
  then show ?case by simp
next
  case (Cons y ys)
  then obtain s1 where s1: "lock_step y s = Some s1" "lock_run ys s1 = Some s'" by (auto split: option.splits)
  have ne: "gl_generation s \<noteq> g" using offset_not_same [of m g] Cons.prems(3-5) by simp
  define m1 where "m1 = m + (if y = LInvalidate then 1 else 0)"
  have "gl_holder s1 \<noteq> Some g" "gl_generation s1 = g + of_nat m1" "count_list (gl_writes s1) g = count_list (gl_writes s) g"
    using s1(1) Cons.prems(2,3) ne by (cases y; auto simp: m1_def split: if_splits option.splits)+
  moreover have "0 < m1" "m1 + invalidations ys < 2 ^ 64"
    using Cons.prems(4,5) by (auto simp: m1_def invalidations_def split: if_splits)
  ultimately show ?case using Cons.IH [OF s1(2)] by simp
qed

text \<open>
  Once stopping the guard has returned (its generation bumped and the operation lock taken once),
  the guard that was running never writes again, whatever other guards, writers and stops do; fewer
  than \<open>2^64\<close> of them are assumed, since the generation wraps.
\<close>

theorem stopped_guard_never_writes:
  assumes "lock_run (LInvalidate # xs @ [LDrain]) s = Some s1" and "lock_run ys s1 = Some s2"
    and "Suc (invalidations xs + invalidations ys) < 2 ^ 64"
  shows "count_list (gl_writes s2) (gl_generation s) = count_list (gl_writes s1) (gl_generation s)"
proof -
  have inv: "invalidations (LInvalidate # xs @ [LDrain]) = Suc (invalidations xs)"
    by (simp add: invalidations_def)
  have h: "gl_holder s1 = None"
    using assms(1) by (auto simp: lock_run_append split: option.splits if_splits)
  have g: "gl_generation s1 = gl_generation s + of_nat (Suc (invalidations xs))"
    using lock_run_generation [OF assms(1)] inv by simp
  show ?thesis
    by (rule stale_writes_stop [OF assms(2) _ g]) (use h assms(3) in auto)
qed

theorem stopped_guard_never_writes_witness:
  "let s = \<lparr>gl_generation = 4, gl_holder = Some 4, gl_writes = []\<rparr>
   in (case lock_run [LInvalidate, LWrite, LLeave, LDrain, LEnter 4, LEnter 5, LWrite, LLeave] s of
         None \<Rightarrow> False | Some s2 \<Rightarrow> count_list (gl_writes s2) 4 = 1)"
proof -
  let ?s = "\<lparr>gl_generation = 4, gl_holder = Some 4, gl_writes = []\<rparr>"
  have 1: "lock_run (LInvalidate # [LWrite, LLeave] @ [LDrain]) ?s = Some \<lparr>gl_generation = 5, gl_holder = None, gl_writes = [4]\<rparr>"
    by simp
  have 2: "lock_run [LEnter 4, LEnter 5, LWrite, LLeave] \<lparr>gl_generation = 5, gl_holder = None, gl_writes = [4]\<rparr>
      = Some \<lparr>gl_generation = 5, gl_holder = None, gl_writes = [4, 5]\<rparr>"
    by simp
  from stopped_guard_never_writes [OF 1 2] show ?thesis by (simp add: invalidations_def)
qed

end
