(* ===== verification/Readiness.thy ===== *)
theory Readiness
  imports Prelude
begin

unbundle bit_operations_syntax

section \<open>Core readiness generations\<close>

text \<open>
  Models the readiness word of \<open>CoreManager\<close> (\<open>src-tauri/src/core/manager/mod.rs\<close>): bit 0
  says whether a core is ready, the other 63 bits count the changes, so that a captured generation
  never matches a later core.
\<close>

definition readiness_active_bit :: u64 where
  "readiness_active_bit = 1"

definition readiness_generation_step :: u64 where
  "readiness_generation_step = push_bit 1 1"

definition next_active_core_readiness_state :: "u64 \<Rightarrow> u64" where
  "next_active_core_readiness_state st =
     ((st + readiness_generation_step) AND NOT readiness_active_bit) OR readiness_active_bit"

definition inactive_core_readiness_state :: "u64 \<Rightarrow> u64" where
  "inactive_core_readiness_state st = (st + readiness_generation_step) AND NOT readiness_active_bit"

definition active_core_readiness_generation :: "u64 \<Rightarrow> u64 option" where
  "active_core_readiness_generation st = (if st AND readiness_active_bit \<noteq> 0 then Some st else None)"

definition claim_core_readiness_generation :: "u64 \<Rightarrow> u64 \<Rightarrow> bool \<times> u64" where
  "claim_core_readiness_generation captured st =
     (if st = captured then (True, inactive_core_readiness_state captured) else (False, st))"

definition mark_core_ready :: "u64 \<Rightarrow> u64" where
  "mark_core_ready st = next_active_core_readiness_state st"

definition invalidate_core_readiness :: "u64 \<Rightarrow> u64" where
  "invalidate_core_readiness st =
     (case active_core_readiness_generation st of Some g \<Rightarrow> inactive_core_readiness_state g | None \<Rightarrow> st)"

lemmas readiness_defs = readiness_active_bit_def readiness_generation_step_def
  next_active_core_readiness_state_def inactive_core_readiness_state_def

subsection \<open>The word as a counter and a flag\<close>

definition change_count :: "u64 \<Rightarrow> nat" where
  "change_count st = unat st div 2"

lemma even_word_iff: "(st :: u64) AND 1 = 0 \<longleftrightarrow> even (unat st)"
proof -
  have "unat (st AND 1) = unat st AND 1" by (simp only: unsigned_and_eq unsigned_1)
  also have "\<dots> = unat st mod 2" by (simp add: and_one_eq)
  finally have "unat (st AND 1) = unat st mod 2" .
  then show ?thesis by (metis even_iff_mod_2_eq_zero unat_eq_zero)
qed

lemma unat_take64: "take_bit 64 (unat (x :: u64)) = unat x"
  using unsigned_less [of x, where 'a = nat] by (simp add: take_bit_nat_eq_self)

lemma clear_low_bit: "unat (x AND NOT (1 :: u64)) = 2 * (unat x div 2)"
proof -
  have "x AND NOT 1 = push_bit 1 (drop_bit 1 x)"
    by (rule bit_word_eqI) (auto simp: bit_simps simp del: push_bit_Suc drop_bit_Suc One_nat_def)
  then have "unat (x AND NOT 1) = take_bit 64 (push_bit 1 (drop_bit 1 (unat x)))"
    by (simp add: unsigned_push_bit_eq unsigned_drop_bit_eq unat_take64 del: push_bit_Suc drop_bit_Suc One_nat_def)
  also have "push_bit 1 (drop_bit 1 (unat x)) = 2 * (unat x div 2)"
    by (simp add: push_bit_eq_mult drop_bit_eq_div)
  finally show ?thesis
    using unsigned_less [of x, where 'a = nat] by (simp add: take_bit_nat_eq_self)
qed

lemma set_low_bit: "even (unat x) \<Longrightarrow> unat (x OR (1 :: u64)) = unat x + 1"
proof -
  assume e: "even (unat x)"
  have "unat (x OR 1) = unat x OR 1" by (simp only: unsigned_or_eq unsigned_1)
  also have "\<dots> = unat x + 1" using e by (simp only: or_one_eq) simp
  finally show ?thesis .
qed

lemma active_iff: "active_core_readiness_generation st = (if odd (unat st) then Some st else None)"
  by (simp add: active_core_readiness_generation_def readiness_active_bit_def even_word_iff)

lemma step_half: "((u :: nat) + 2) mod 2 ^ 64 div 2 = (u div 2 + 1) mod 2 ^ 63"
proof -
  have "(u + 2) mod (2 * 2 ^ 63) div 2 = ((u + 2) div 2) mod 2 ^ 63"
    by (simp only: mod_mult2_eq)
  then show ?thesis by simp
qed

lemma unat_inactive: "unat (inactive_core_readiness_state st) = 2 * ((change_count st + 1) mod 2 ^ 63)"
proof -
  have "unat (st + 2) = (unat st + 2) mod 2 ^ 64" by (simp add: unat_word_ariths)
  then have "unat (st + 2) div 2 = (change_count st + 1) mod 2 ^ 63"
    unfolding change_count_def using step_half [of "unat st"] by simp
  moreover have "inactive_core_readiness_state st = (st + 2) AND NOT 1"
    by (simp add: readiness_defs)
  ultimately show ?thesis by (simp only: clear_low_bit)
qed

lemma unat_next_active: "unat (next_active_core_readiness_state st) = 2 * ((change_count st + 1) mod 2 ^ 63) + 1"
proof -
  have "next_active_core_readiness_state st = inactive_core_readiness_state st OR 1"
    by (simp add: readiness_defs)
  then show ?thesis using set_low_bit [of "inactive_core_readiness_state st"] unat_inactive by simp
qed

lemma change_count_ops [simp]:
  "change_count (inactive_core_readiness_state st) = (change_count st + 1) mod 2 ^ 63"
  "change_count (next_active_core_readiness_state st) = (change_count st + 1) mod 2 ^ 63"
  unfolding change_count_def unat_inactive unat_next_active by (simp_all add: change_count_def)

lemma change_count_bound: "change_count st < 2 ^ 63"
proof -
  have "unat st < 2 ^ LENGTH(64)" by (rule unsigned_less)
  then show ?thesis by (simp add: change_count_def)
qed

lemma mark_active [simp]: "active_core_readiness_generation (mark_core_ready st) = Some (mark_core_ready st)"
  by (simp add: active_iff mark_core_ready_def unat_next_active)

lemma invalidate_inactive [simp]: "active_core_readiness_generation (invalidate_core_readiness st) = None"
  by (simp add: invalidate_core_readiness_def active_iff unat_inactive)

subsection \<open>A captured generation never matches a later core\<close>

datatype readiness_op = Mark | Invalidate | Claim u64

fun readiness_step :: "readiness_op \<Rightarrow> u64 \<Rightarrow> u64" where
  "readiness_step Mark st = mark_core_ready st"
| "readiness_step Invalidate st = invalidate_core_readiness st"
| "readiness_step (Claim g) st = snd (claim_core_readiness_generation g st)"

fun readiness_run :: "readiness_op list \<Rightarrow> u64 \<Rightarrow> u64" where
  "readiness_run [] st = st"
| "readiness_run (x # xs) st = readiness_run xs (readiness_step x st)"

fun effective_changes :: "readiness_op list \<Rightarrow> u64 \<Rightarrow> nat" where
  "effective_changes [] st = 0"
| "effective_changes (x # xs) st =
     (if readiness_step x st \<noteq> st then 1 else 0) + effective_changes xs (readiness_step x st)"

lemma readiness_step_count:
  "readiness_step x st \<noteq> st \<Longrightarrow> change_count (readiness_step x st) = (change_count st + 1) mod 2 ^ 63"
  by (cases x)
    (auto simp: mark_core_ready_def invalidate_core_readiness_def claim_core_readiness_generation_def active_iff
      split: if_splits)

lemma readiness_run_count:
  "change_count (readiness_run xs st) = (change_count st + effective_changes xs st) mod 2 ^ 63"
proof (induction xs arbitrary: st)
  case Nil
  then show ?case using change_count_bound [of st] by simp
next
  case (Cons x xs)
  show ?case
  proof (cases "readiness_step x st = st")
    case True
    then show ?thesis using Cons by simp
  next
    case False
    then show ?thesis using Cons readiness_step_count [OF False] by (simp add: mod_add_left_eq)
  qed
qed

lemma unchanged_run: "effective_changes xs st = 0 \<Longrightarrow> readiness_run xs st = st"
  by (induction xs arbitrary: st) (auto split: if_splits)

lemma effective_le: "effective_changes xs st \<le> length xs"
  by (induction xs arbitrary: st) (auto intro: le_SucI)

text \<open>
  C34: a core's generation can be claimed exactly while nothing has changed the readiness word since
  it was handed out; after any later start, stop or claim it is neither current nor claimable.
\<close>

theorem readiness_generation_not_reused:
  assumes "g = mark_core_ready st" and "length xs < 2 ^ 63"
  shows "(fst (claim_core_readiness_generation g (readiness_run xs g)) \<longleftrightarrow> effective_changes xs g = 0)
    \<and> (effective_changes xs g > 0 \<longrightarrow> active_core_readiness_generation (readiness_run xs g) \<noteq> Some g)"
proof -
  let ?n = "effective_changes xs g"
  have n: "?n < 2 ^ 63" using effective_le [of xs g] assms(2) by linarith
  have "readiness_run xs g = g \<longleftrightarrow> ?n = 0"
  proof
    assume "readiness_run xs g = g"
    then have "(change_count g + ?n) mod 2 ^ 63 = change_count g"
      using readiness_run_count [of xs g] by simp
    then show "?n = 0"
      using n change_count_bound [of g]
      by (cases "change_count g + ?n < 2 ^ 63") (auto simp: le_mod_geq)
  qed (rule unchanged_run)
  then show ?thesis
    by (auto simp: claim_core_readiness_generation_def active_iff)
qed

theorem readiness_generation_not_reused_witness:
  "let g = mark_core_ready 0 in \<not> fst (claim_core_readiness_generation g (readiness_run [Invalidate, Mark] g))"
proof -
  let ?g = "mark_core_ready 0"
  have "readiness_step Invalidate ?g \<noteq> ?g"
    by (metis invalidate_inactive mark_active option.distinct(1) readiness_step.simps(2))
  then have "effective_changes [Invalidate, Mark] ?g \<noteq> 0" by simp
  with readiness_generation_not_reused [OF refl, of "[Invalidate, Mark]" 0] show ?thesis by (simp add: Let_def)
qed

end
