(* ===== verification/CoreProcess.thy ===== *)
theory CoreProcess
  imports Failures ServiceStatus Readiness
begin

section \<open>The supervised core: sidecar process and service session\<close>

text \<open>
  Models \<open>src-tauri/src/core/manager/state.rs\<close>, the state of \<open>CoreManager\<close> in
  \<open>core/manager/mod.rs\<close>, and from \<open>core/service.rs\<close> the start and stop of the core through the
  privileged service and the recovery after its loss.

  The world is one record.  Every await of an outside operation is one tick of its clock: the answer
  of the outside world comes from \<open>core_env\<close>, and \<open>others\<close> says what the tasks that do not hold the
  lifecycle lock do meanwhile (run-state operations, the end of a monitored process, the loss of the
  service owner).  Each operation is logged with its success.  Message texts that are not ASCII in
  the code are given in English.
\<close>

datatype core_failure = StartFailed string | ServiceCoreStopped string

datatype call =
    WaitExit | ReserveSidecar | SetSocket bool | MakeConfig bool | BuildCommand | Spawn | AssignJob | Kill u32
  | ProbeApi | RestoreNodes | CheckIdle | Credentials | CollectBundle | SessionToken | StartClash | ProbeCapabilities | StopClash
  | GuardStop | ProxyClear | ProxyApply | GuardRefresh | SaveVerge | GenerateRuntime | SettleRunState
  | RefreshProbe | ServiceAction | SpawnWatcher | ProviderSync | Notice string

record core_world =
  cstore :: run_store
  ready_word :: u64
  startup_error :: "core_failure option"
  child_sidecar :: "u32 option"
  sidecar_exit :: "u32 option"
  job_handle :: bool
  config_updating :: bool
  handoff_watching :: bool
  owner_gen :: u64
  session :: "active_session option"
  tun_enabled :: bool
  umask_narrowed :: bool
  clock :: nat
  calls :: "(call \<times> bool) list"

datatype interference = StoreOp store_op | ProcessEnded u64 | OwnerLost u64 | Provider

record start_reply =
  sr_code :: u16
  sr_message :: string
  sr_core_path :: string
  sr_generation :: "u64 option"
  sr_staging :: bool
  sr_file_read :: bool

record stop_reply =
  st_code :: u16
  st_message :: string

record core_env =
  plat :: platform
  internal_test :: bool
  svc_contract :: service_contract
  code_not_active :: u16
  code_stale_session :: u16
  code_invalid_asset :: u16
  code_invalid_location :: u16
  code_root_not_owned :: u16
  answer :: "call \<Rightarrow> nat \<Rightarrow> unit outcome"
  others :: "nat \<Rightarrow> interference list"
  exiting :: "nat \<Rightarrow> bool"
  app_elevated :: "nat \<Rightarrow> bool"
  child_shared :: "nat \<Rightarrow> bool"
  new_pid :: "nat \<Rightarrow> u32"
  token_at :: "nat \<Rightarrow> string"
  version_answer :: "nat \<Rightarrow> string + version_reply"
  wait_budget :: "nat \<Rightarrow> nat"
  start_answer :: "nat \<Rightarrow> start_reply outcome"
  stop_answer :: "nat \<Rightarrow> stop_reply outcome"
  action_answer :: "nat \<Rightarrow> action_env"
  action_ops :: "nat \<Rightarrow> store_op list"
  port_fallback :: "nat \<Rightarrow> bool outcome"
  waits_for_network :: "nat \<Rightarrow> bool"

abbreviation running :: "core_world \<Rightarrow> running_mode" where
  "running w \<equiv> st_mode (cstore w)"

abbreviation readiness :: "core_world \<Rightarrow> u64 option" where
  "readiness w \<equiv> active_core_readiness_generation (ready_word w)"

subsection \<open>What other tasks may do during an await\<close>

text \<open>
  The mode changes only under the lifecycle lock, so the four mode operations are not among the
  others' store operations.
\<close>

fun is_mode_op :: "store_op \<Rightarrow> bool" where
  "is_mode_op (OCoreStarted m) = True"
| "is_mode_op OCoreStopped = True"
| "is_mode_op OCoreStarting = True"
| "is_mode_op OCoreStartSettled = True"
| "is_mode_op _ = False"

fun interfere1 :: "interference \<Rightarrow> core_world \<Rightarrow> core_world" where
  "interfere1 (StoreOp op) w = (if is_mode_op op then w else w\<lparr>cstore := store_step op (cstore w)\<rparr>)"
| "interfere1 (ProcessEnded g) w = w\<lparr>ready_word := snd (claim_core_readiness_generation g (ready_word w))\<rparr>"
| "interfere1 (OwnerLost g) w =
     (if running w \<noteq> ModeService then w
      else case claim_owner_recovery_generation g (owner_gen w) of
        (None, _) \<Rightarrow> w
      | (Some _, g') \<Rightarrow> w\<lparr>owner_gen := g', ready_word := invalidate_core_readiness (ready_word w)\<rparr>)"
| "interfere1 Provider w = w"

definition interfere :: "interference list \<Rightarrow> core_world \<Rightarrow> core_world" where
  "interfere xs w = fold interfere1 xs w"

definition log_call :: "call \<Rightarrow> bool \<Rightarrow> core_world \<Rightarrow> core_world" where
  "log_call c ok w = w\<lparr>calls := calls w @ [(c, ok)]\<rparr>"

definition tick :: "core_env \<Rightarrow> call \<Rightarrow> bool \<Rightarrow> core_world \<Rightarrow> core_world" where
  "tick env c ok w = interfere (others env (clock w)) (log_call c ok (w\<lparr>clock := clock w + 1\<rparr>))"

definition call_ext :: "core_env \<Rightarrow> call \<Rightarrow> core_world \<Rightarrow> unit outcome \<times> core_world" where
  "call_ext env c w = (answer env c (clock w), tick env c (is_ok (answer env c (clock w))) w)"

subsection \<open>The state of the manager\<close>

definition record_startup_error :: "core_failure \<Rightarrow> core_world \<Rightarrow> core_world" where
  "record_startup_error f w = (if running w = NotRunning then w\<lparr>startup_error := Some f\<rparr> else w)"

definition take_child_sidecar :: "core_env \<Rightarrow> core_world \<Rightarrow> u32 option \<times> core_world" where
  "take_child_sidecar env w =
     (if child_shared env (clock w) then None else child_sidecar w, w\<lparr>child_sidecar := None\<rparr>)"

definition manager_core_started :: "running_mode \<Rightarrow> core_world \<Rightarrow> core_world" where
  "manager_core_started m w = w\<lparr>cstore := core_started m (cstore w), startup_error := None\<rparr>"

definition manager_core_stopped :: "core_world \<Rightarrow> core_world" where
  "manager_core_stopped w =
     w\<lparr>ready_word := invalidate_core_readiness (ready_word w), cstore := core_stopped (cstore w)\<rparr>"

definition manager_core_starting :: "core_world \<Rightarrow> core_world" where
  "manager_core_starting w = w\<lparr>cstore := core_starting (cstore w)\<rparr>"

definition mark_ready :: "core_world \<Rightarrow> core_world" where
  "mark_ready w = w\<lparr>ready_word := mark_core_ready (ready_word w)\<rparr>"

definition try_start_config_update :: "core_world \<Rightarrow> bool \<times> core_world" where
  "try_start_config_update w = (\<not> config_updating w, w\<lparr>config_updating := True\<rparr>)"

definition finish_config_update :: "core_world \<Rightarrow> core_world" where
  "finish_config_update w = w\<lparr>config_updating := False\<rparr>"

subsection \<open>The sidecar\<close>

definition sidecar_readiness_attempts :: nat where
  "sidecar_readiness_attempts = 30"

fun poll_loop :: "core_env \<Rightarrow> nat \<Rightarrow> error option \<Rightarrow> core_world \<Rightarrow> unit outcome \<times> core_world" where
  "poll_loop env 0 last_error w =
     (Inl (add_context (Text ''Mihomo API did not become ready'')
        (unwrap_or (bail ''sidecar readiness was configured with no attempts'') last_error)), w)"
| "poll_loop env (Suc n) last_error w =
     (case call_ext env ProbeApi w of
        (Inr _, w') \<Rightarrow> (Inr (), w')
      | (Inl e, w') \<Rightarrow> poll_loop env n (Some e) w')"

definition poll_sidecar_readiness :: "core_env \<Rightarrow> nat \<Rightarrow> core_world \<Rightarrow> unit outcome \<times> core_world" where
  "poll_sidecar_readiness env attempts w = poll_loop env attempts None w"

definition wait_for_sidecar_exit :: "core_env \<Rightarrow> core_world \<Rightarrow> unit outcome \<times> core_world" where
  "wait_for_sidecar_exit env w =
     (case sidecar_exit w of
        None \<Rightarrow> (Inr (), w)
      | Some _ \<Rightarrow> try_then (call_ext env WaitExit w) (\<lambda>_ w. (Inr (), w\<lparr>sidecar_exit := None\<rparr>)))"

fun residual_of :: "error \<Rightarrow> string option" where
  "residual_of [] = None"
| "residual_of (Residual r # es) = Some r"
| "residual_of (_ # es) = residual_of es"

definition record_residual_service :: "error \<Rightarrow> core_world \<Rightarrow> core_world" where
  "record_residual_service e w =
     (case residual_of e of None \<Rightarrow> w | Some r \<Rightarrow> w\<lparr>cstore := observe (Unavailable r) (cstore w)\<rparr>)"

definition sidecar_killed :: "core_env \<Rightarrow> u32 \<Rightarrow> error \<Rightarrow> (error \<Rightarrow> error) \<Rightarrow> core_world \<Rightarrow> unit outcome \<times> core_world" where
  "sidecar_killed env pid e both w =
     (case call_ext env (Kill pid) w of (Inr _, w') \<Rightarrow> (Inl e, w') | (Inl k, w') \<Rightarrow> (Inl (both k), w'))"

definition restore_umask :: "core_env \<Rightarrow> core_world \<Rightarrow> core_world" where
  "restore_umask env w = (if plat env \<noteq> Windows then w\<lparr>umask_narrowed := False\<rparr> else w)"

definition narrow_umask :: "core_env \<Rightarrow> core_world \<Rightarrow> core_world" where
  "narrow_umask env w = (if plat env \<noteq> Windows then w\<lparr>umask_narrowed := True\<rparr> else w)"

text \<open>After the process exists: the job object, the readiness poll, and the bookkeeping.\<close>

definition sidecar_spawned :: "core_env \<Rightarrow> u32 \<Rightarrow> core_world \<Rightarrow> unit outcome \<times> core_world" where
  "sidecar_spawned env pid w =
     (let (readiness, w1) = poll_sidecar_readiness env sidecar_readiness_attempts (mark_ready (restore_umask env w))
      in case readiness of
           Inl e \<Rightarrow>
             sidecar_killed env pid e
               (\<lambda>k. bail (show_chain e @ ''; failed to terminate unready sidecar PID '' @ show_nat (unat pid) @ '': '' @ show_chain k))
               (manager_core_stopped (snd (call_ext env GuardStop w1)))
         | Inr _ \<Rightarrow>
             (let w2 = (if plat env = Windows then w1\<lparr>job_handle := True\<rparr> else w1);
                  w3 = manager_core_started ModeSidecar (w2\<lparr>child_sidecar := Some pid\<rparr>)
              in (Inr (), snd (call_ext env RestoreNodes w3))))"

definition start_core_by_sidecar :: "core_env \<Rightarrow> core_world \<Rightarrow> unit outcome \<times> core_world" where
  "start_core_by_sidecar env w0 =
     try_then (wait_for_sidecar_exit env w0) (\<lambda>_ w1.
     (case call_ext env ReserveSidecar w1 of
        (Inl e, w2) \<Rightarrow> (Inl e, record_residual_service e w2)
      | (Inr _, w2) \<Rightarrow>
     try_then (call_ext env (SetSocket False) (manager_core_stopped w2)) (\<lambda>_ w3.
     try_then (call_ext env (MakeConfig (plat env = Windows \<and> \<not> elevated (cstore w3))) w3) (\<lambda>_ w4.
     try_then (call_ext env BuildCommand (narrow_umask env w4)) (\<lambda>_ w5.
     try_then (call_ext env Spawn w5) (\<lambda>_ w6.
       (let pid = new_pid env (clock w5); w7 = w6\<lparr>sidecar_exit := Some pid\<rparr>
        in if plat env = Windows
           then (case call_ext env AssignJob w7 of
               (Inl e, w8) \<Rightarrow> sidecar_killed env pid e
                 (\<lambda>k. bail (''failed to configure Job Object for sidecar PID '' @ show_nat (unat pid) @ '': '' @ show_chain e
                    @ ''; failed to terminate child: '' @ show_chain k)) w8
             | (Inr _, w8) \<Rightarrow> sidecar_spawned env pid w8)
           else sidecar_spawned env pid w7)))))))"

definition stop_core_by_sidecar_unprepared :: "core_env \<Rightarrow> core_world \<Rightarrow> unit outcome \<times> core_world" where
  "stop_core_by_sidecar_unprepared env w =
     (let (child, w1) = take_child_sidecar env w;
          w2 = (case child of
                  None \<Rightarrow> w1
                | Some pid \<Rightarrow> snd (call_ext env (Kill pid) (if plat env = Windows then w1\<lparr>job_handle := False\<rparr> else w1)));
          (r, w3) = wait_for_sidecar_exit env w2
      in (r, manager_core_stopped w3))"

definition should_clear_terminated_sidecar :: "running_mode \<Rightarrow> u32 option \<Rightarrow> u32 \<Rightarrow> bool" where
  "should_clear_terminated_sidecar m current_pid terminated_pid \<longleftrightarrow> m = ModeSidecar \<and> current_pid = Some terminated_pid"

definition clear_terminated_sidecar :: "core_env \<Rightarrow> u32 \<Rightarrow> core_world \<Rightarrow> core_world" where
  "clear_terminated_sidecar env pid w =
     (if \<not> should_clear_terminated_sidecar (running w) (child_sidecar w) pid then w
      else let w1 = snd (take_child_sidecar env w);
               w2 = (if plat env = Windows then w1\<lparr>job_handle := False\<rparr> else w1)
           in manager_core_stopped (snd (call_ext env GuardStop w2)))"

subsection \<open>The service\<close>

definition start_owner_monitor :: "core_world \<Rightarrow> core_world" where
  "start_owner_monitor w = w\<lparr>owner_gen := owner_gen w + 1\<rparr>"

definition cancel_owner_monitors :: "core_world \<Rightarrow> core_world" where
  "cancel_owner_monitors w = w\<lparr>owner_gen := owner_gen w + 1\<rparr>"

definition record_service_start_refusal :: "start_reply \<Rightarrow> core_world \<Rightarrow> error \<times> core_world" where
  "record_service_start_refusal reply w =
     ([StartRefusal (sr_code reply) (sr_core_path reply) (sr_message reply)],
      if running w = NotRunning
      then w\<lparr>cstore := observe (Unavailable (show_start_refusal (sr_code reply) (sr_core_path reply) (sr_message reply))) (cstore w)\<rparr>
      else w)"

definition refusal_notices :: "core_env \<Rightarrow> u16 \<Rightarrow> core_world \<Rightarrow> core_world" where
  "refusal_notices env code w =
     (let w1 = (if plat env = Windows \<and> code = code_invalid_location env
                then log_call (Notice ''service_core::repair_required'') True w else w)
      in if code = code_root_not_owned env then log_call (Notice ''service_core::app_data_not_owned'') True w1 else w1)"

definition start_with_existing_service :: "core_env \<Rightarrow> core_world \<Rightarrow> unit outcome \<times> core_world" where
  "start_with_existing_service env w0 =
     (let w = w0\<lparr>session := None\<rparr>
      in try_then (call_ext env Credentials w) (\<lambda>_ w1.
         try_then (call_ext env CollectBundle w1) (\<lambda>_ w2.
         try_then (call_ext env SessionToken w2) (\<lambda>_ w3.
           (let token = token_at env (clock w2);
                w4 = tick env StartClash (case start_answer env (clock w3) of Inl _ \<Rightarrow> False | Inr r \<Rightarrow> sr_code r = 0) w3
            in case start_answer env (clock w3) of
                 Inl e \<Rightarrow> (Inl (add_context (Text ''cannot connect to Clash Verge Service'') e), start_owner_monitor w4)
               | Inr reply \<Rightarrow>
                   (if sr_code reply > 0
                    then let (e, w5) = record_service_start_refusal reply
                               (start_owner_monitor (refusal_notices env (sr_code reply) w4))
                         in (Inl e, w5)
                    else (case sr_generation reply of
                        None \<Rightarrow> (Inl (bail ''Clash Verge Service returned no session''), w4)
                      | Some g \<Rightarrow>
                          (Inr (), start_owner_monitor ((tick env ProbeCapabilities True w4)\<lparr>session := Some
                             \<lparr>session_proof_of = \<lparr>proof_generation = g, proof_token = token\<rparr>,
                              supports_runtime_staging = sr_staging reply,
                              supports_runtime_file_read = sr_file_read reply\<rparr>\<rparr>)))))))))"

text \<open>\<open>SERVICE_MANAGER.current\<close> waits for the operation in flight, so it is a step of its own.\<close>

definition current_status :: "core_env \<Rightarrow> core_world \<Rightarrow> service_status \<times> core_world" where
  "current_status env w =
     (let w' = tick env SettleRunState True w in (from_run_state (snapshot (cstore w')), w'))"

definition refresh_service :: "core_env \<Rightarrow> core_world \<Rightarrow> (run_error + unit) \<times> core_world" where
  "refresh_service env w =
     (let w1 = tick env RefreshProbe (is_ok (version_answer env (clock w))) w;
          (r, s) = refresh (svc_contract env) (version_answer env (clock w)) (cstore w1)
      in (r, w1\<lparr>cstore := s\<rparr>))"

definition run_core_by_service :: "core_env \<Rightarrow> core_world \<Rightarrow> unit outcome \<times> core_world" where
  "run_core_by_service env w =
     (case refresh_service env w of
        (Inl e, w1) \<Rightarrow> (Inl (bail (error_text e)), w1)
      | (Inr _, w1) \<Rightarrow>
          (let (st, w2) = current_status env w1
           in if st \<noteq> StReady then (Inl (bail ''service is not ready after refresh''), w2)
              else start_with_existing_service env w2))"

definition service_start_retries :: nat where
  "service_start_retries = 5"

definition refused_for_the_bundle :: "core_env \<Rightarrow> error \<Rightarrow> bool" where
  "refused_for_the_bundle env e =
     (case refusal_of e of None \<Rightarrow> False
      | Some (code, _, _) \<Rightarrow> is_about_the_bundle (code_invalid_asset env) (code_invalid_location env) code)"

fun retry_service_start :: "core_env \<Rightarrow> nat \<Rightarrow> error option \<Rightarrow> core_world \<Rightarrow> unit outcome \<times> core_world" where
  "retry_service_start env 0 last_error w = (Inl (unwrap_or (bail ''service start failed'') last_error), w)"
| "retry_service_start env (Suc n) last_error w =
     (case run_core_by_service env w of
        (Inr _, w') \<Rightarrow> (Inr (), w')
      | (Inl e, w') \<Rightarrow>
          (if refused_for_the_bundle env e then (Inl e, w') else retry_service_start env n (Some e) w'))"

definition start_core_by_service_with_config :: "core_env \<Rightarrow> core_world \<Rightarrow> unit outcome \<times> core_world" where
  "start_core_by_service_with_config env w =
     try_then (if plat env = Windows then retry_service_start env service_start_retries None w
               else run_core_by_service env w)
       (\<lambda>_ w1. (Inr (), log_call ProviderSync True
                  (snd (call_ext env RestoreNodes (manager_core_started ModeService (mark_ready w1))))))"

definition start_core_by_service :: "core_env \<Rightarrow> core_world \<Rightarrow> unit outcome \<times> core_world" where
  "start_core_by_service env w =
     try_then (call_ext env (MakeConfig False) (manager_core_starting w)) (\<lambda>_ w1.
     try_then (call_ext env (SetSocket True) w1) (\<lambda>_ w2. start_core_by_service_with_config env w2))"

fun clear_proxy_after_owner_loss :: "core_env \<Rightarrow> nat \<Rightarrow> core_world \<Rightarrow> core_world" where
  "clear_proxy_after_owner_loss env 0 w = w"
| "clear_proxy_after_owner_loss env (Suc n) w =
     (case call_ext env ProxyClear w of
        (Inr _, w') \<Rightarrow> w'
      | (Inl _, w') \<Rightarrow> clear_proxy_after_owner_loss env n w')"

definition recover_after_owner_loss_while_locked :: "core_env \<Rightarrow> owner_recovery_reason \<Rightarrow> core_world \<Rightarrow> core_world" where
  "recover_after_owner_loss_while_locked env reason w =
     (let w1 = w\<lparr>cstore := mark_service_unavailable_after_owner_loss reason (cstore w)\<rparr>;
          w2 = snd (call_ext env GuardStop w1);
          w3 = (if owner_recovery_resets_proxy reason (plat env = MacOS) then clear_proxy_after_owner_loss env 3 w2 else w2)
      in manager_core_stopped (w3\<lparr>session := None\<rparr>))"

text \<open>The first half (the claim) runs without the lock; \<open>during\<close> is what happens until it is taken.\<close>

definition recover_after_owner_loss :: "core_env \<Rightarrow> u64 \<Rightarrow> owner_recovery_reason \<Rightarrow> string option
    \<Rightarrow> (core_world \<Rightarrow> core_world) \<Rightarrow> core_world \<Rightarrow> core_world" where
  "recover_after_owner_loss env gen reason stopped_detail during w =
     (if running w \<noteq> ModeService then w
      else case claim_owner_recovery_generation gen (owner_gen w) of
        (None, _) \<Rightarrow> w
      | (Some recovery, g') \<Rightarrow>
          (let w1 = during (w\<lparr>owner_gen := g', ready_word := invalidate_core_readiness (ready_word w)\<rparr>)
           in if owner_gen w1 \<noteq> recovery \<or> running w1 \<noteq> ModeService then w1
              else let w2 = recover_after_owner_loss_while_locked env reason w1
                   in (case (reason, stopped_detail) of
                         (SameOwnerFailure, Some detail) \<Rightarrow>
                           log_call (Notice ''core_start::error'') True (record_startup_error (ServiceCoreStopped detail) w2)
                       | _ \<Rightarrow> w2)))"

definition service_stop :: "core_env \<Rightarrow> core_world \<Rightarrow> unit outcome \<times> core_world" where
  "service_stop env w0 =
     (case call_ext env Credentials (cancel_owner_monitors w0) of
        (Inl e, w1) \<Rightarrow> (Inl e, start_owner_monitor w1)
      | (Inr _, w1) \<Rightarrow>
          (case session w1 of
             None \<Rightarrow> (Inl (bail ''no active service session''), start_owner_monitor w1)
           | Some _ \<Rightarrow>
               (let w2 = tick env StopClash (case stop_answer env (clock w1) of Inl _ \<Rightarrow> False | Inr r \<Rightarrow> st_code r = 0) w1
                in case stop_answer env (clock w1) of
                     Inl e \<Rightarrow> (Inl (add_context (Text ''cannot connect to Clash Verge Service'') e), start_owner_monitor w2)
                   | Inr reply \<Rightarrow>
                       (if st_code reply > 0
                        then (Inl (bail (st_message reply)),
                              if st_code reply = code_not_active env \<or> st_code reply = code_stale_session env
                              then recover_after_owner_loss_while_locked env Displaced w2
                              else start_owner_monitor w2)
                        else (Inr (), w2\<lparr>session := None\<rparr>)))))"

definition stop_core_by_service :: "core_env \<Rightarrow> core_world \<Rightarrow> unit outcome \<times> core_world" where
  "stop_core_by_service env w = try_then (service_stop env w) (\<lambda>_ w1. (Inr (), manager_core_stopped w1))"

subsection \<open>What an operation leaves alone\<close>

lemma store_step_mode: "\<not> is_mode_op op \<Longrightarrow> st_mode (store_step op s) = st_mode s"
  by (cases op) (auto simp: store_defs)

lemma claim_inactive:
  "active_core_readiness_generation st = None \<Longrightarrow>
     active_core_readiness_generation (snd (claim_core_readiness_generation g st)) = None"
  by (auto simp: claim_core_readiness_generation_def active_iff unat_inactive split: if_split_asm)

lemma interfere1_frame [frame_simps]:
  "running (interfere1 x w) = running w" "child_sidecar (interfere1 x w) = child_sidecar w"
  "sidecar_exit (interfere1 x w) = sidecar_exit w" "job_handle (interfere1 x w) = job_handle w"
  "config_updating (interfere1 x w) = config_updating w" "handoff_watching (interfere1 x w) = handoff_watching w"
  "session (interfere1 x w) = session w" "tun_enabled (interfere1 x w) = tun_enabled w"
  "umask_narrowed (interfere1 x w) = umask_narrowed w" "clock (interfere1 x w) = clock w"
  "calls (interfere1 x w) = calls w" "startup_error (interfere1 x w) = startup_error w"
  by (cases x; auto simp: store_step_mode claim_owner_recovery_generation_def split: option.splits)+

lemma interfere1_inactive: "readiness w = None \<Longrightarrow> readiness (interfere1 x w) = None"
  by (cases x) (auto simp: claim_inactive claim_owner_recovery_generation_def split: option.splits)

lemma interfere_frame [frame_simps]:
  "running (interfere xs w) = running w" "child_sidecar (interfere xs w) = child_sidecar w"
  "sidecar_exit (interfere xs w) = sidecar_exit w" "job_handle (interfere xs w) = job_handle w"
  "config_updating (interfere xs w) = config_updating w" "handoff_watching (interfere xs w) = handoff_watching w"
  "session (interfere xs w) = session w" "tun_enabled (interfere xs w) = tun_enabled w"
  "umask_narrowed (interfere xs w) = umask_narrowed w" "clock (interfere xs w) = clock w"
  "calls (interfere xs w) = calls w" "startup_error (interfere xs w) = startup_error w"
  unfolding interfere_def by (induction xs arbitrary: w; simp add: frame_simps)+

lemma interfere_inactive: "readiness w = None \<Longrightarrow> readiness (interfere xs w) = None"
  unfolding interfere_def by (induction xs arbitrary: w) (simp_all add: interfere1_inactive)

lemma tick_frame [simp]:
  "running (tick env c ok w) = running w" "child_sidecar (tick env c ok w) = child_sidecar w"
  "sidecar_exit (tick env c ok w) = sidecar_exit w" "job_handle (tick env c ok w) = job_handle w"
  "config_updating (tick env c ok w) = config_updating w" "handoff_watching (tick env c ok w) = handoff_watching w"
  "session (tick env c ok w) = session w" "tun_enabled (tick env c ok w) = tun_enabled w"
  "umask_narrowed (tick env c ok w) = umask_narrowed w" "clock (tick env c ok w) = clock w + 1"
  "calls (tick env c ok w) = calls w @ [(c, ok)]" "startup_error (tick env c ok w) = startup_error w"
  by (simp_all add: tick_def log_call_def frame_simps)

lemma tick_inactive [simp]: "readiness w = None \<Longrightarrow> readiness (tick env c ok w) = None"
  unfolding tick_def by (rule interfere_inactive) (simp add: log_call_def)

lemma manager_frame [simp]:
  "running (manager_core_stopped w) = NotRunning" "readiness (manager_core_stopped w) = None"
  "child_sidecar (manager_core_stopped w) = child_sidecar w" "sidecar_exit (manager_core_stopped w) = sidecar_exit w"
  "config_updating (manager_core_stopped w) = config_updating w" "session (manager_core_stopped w) = session w"
  "umask_narrowed (manager_core_stopped w) = umask_narrowed w" "calls (manager_core_stopped w) = calls w"
  "tun_enabled (manager_core_stopped w) = tun_enabled w" "clock (manager_core_stopped w) = clock w"
  "job_handle (manager_core_stopped w) = job_handle w" "handoff_watching (manager_core_stopped w) = handoff_watching w"
  "running (manager_core_started m w) = m" "ready_word (manager_core_started m w) = ready_word w"
  "child_sidecar (manager_core_started m w) = child_sidecar w" "startup_error (manager_core_started m w) = None"
  "sidecar_exit (manager_core_started m w) = sidecar_exit w" "calls (manager_core_started m w) = calls w"
  "config_updating (manager_core_started m w) = config_updating w" "session (manager_core_started m w) = session w"
  "umask_narrowed (manager_core_started m w) = umask_narrowed w" "tun_enabled (manager_core_started m w) = tun_enabled w"
  "clock (manager_core_started m w) = clock w" "job_handle (manager_core_started m w) = job_handle w"
  "handoff_watching (manager_core_started m w) = handoff_watching w"
  "running (manager_core_starting w) = running w" "ready_word (manager_core_starting w) = ready_word w"
  "child_sidecar (manager_core_starting w) = child_sidecar w" "config_updating (manager_core_starting w) = config_updating w"
  "calls (manager_core_starting w) = calls w" "umask_narrowed (manager_core_starting w) = umask_narrowed w"
  "session (manager_core_starting w) = session w" "clock (manager_core_starting w) = clock w"
  "tun_enabled (manager_core_starting w) = tun_enabled w"
  by (simp_all add: manager_core_stopped_def manager_core_started_def manager_core_starting_def store_defs)

lemma small_frames [simp]:
  "running (start_owner_monitor w) = running w" "child_sidecar (start_owner_monitor w) = child_sidecar w"
  "ready_word (start_owner_monitor w) = ready_word w" "config_updating (start_owner_monitor w) = config_updating w"
  "calls (start_owner_monitor w) = calls w" "session (start_owner_monitor w) = session w"
  "running (log_call c ok w) = running w" "child_sidecar (log_call c ok w) = child_sidecar w"
  "ready_word (log_call c ok w) = ready_word w" "config_updating (log_call c ok w) = config_updating w"
  "session (log_call c ok w) = session w" "clock (log_call c ok w) = clock w"
  "running (mark_ready w) = running w" "child_sidecar (mark_ready w) = child_sidecar w"
  "config_updating (mark_ready w) = config_updating w" "calls (mark_ready w) = calls w"
  "running (narrow_umask env w) = running w" "child_sidecar (narrow_umask env w) = child_sidecar w"
  "ready_word (narrow_umask env w) = ready_word w" "config_updating (narrow_umask env w) = config_updating w"
  "running (restore_umask env w) = running w" "child_sidecar (restore_umask env w) = child_sidecar w"
  "ready_word (restore_umask env w) = ready_word w" "config_updating (restore_umask env w) = config_updating w"
  "running (record_residual_service e w) = running w" "child_sidecar (record_residual_service e w) = child_sidecar w"
  "ready_word (record_residual_service e w) = ready_word w"
  "config_updating (record_residual_service e w) = config_updating w"
  by (simp_all add: start_owner_monitor_def log_call_def mark_ready_def narrow_umask_def restore_umask_def
      record_residual_service_def store_defs split: option.splits)

lemma call_ext_world: "call_ext env c w = (r, w') \<Longrightarrow> w' = tick env c (is_ok r) w \<and> r = answer env c (clock w)"
  by (auto simp: call_ext_def)

lemma snd_call_ext [simp]: "snd (call_ext env c w) = tick env c (is_ok (answer env c (clock w))) w"
  by (simp add: call_ext_def)

subsection \<open>Starting and stopping\<close>

text \<open>At rest: no core runs, no child is held, and nothing is ready.\<close>

definition at_rest :: "core_world \<Rightarrow> bool" where
  "at_rest w \<longleftrightarrow> running w = NotRunning \<and> child_sidecar w = None \<and> readiness w = None"

definition consistent :: "core_world \<Rightarrow> bool" where
  "consistent w \<longleftrightarrow> (running w = ModeSidecar \<longleftrightarrow> child_sidecar w \<noteq> None)
     \<and> (running w = NotRunning \<longrightarrow> readiness w = None)"

lemma at_rest_iff: "at_rest w \<longleftrightarrow> consistent w \<and> running w = NotRunning"
  by (auto simp: at_rest_def consistent_def)

lemma at_rest_tick [simp]: "at_rest w \<Longrightarrow> at_rest (tick env c ok w)"
  by (simp add: at_rest_def)

lemma consistent_tick [simp]: "consistent w \<Longrightarrow> consistent (tick env c ok w)"
  by (auto simp: consistent_def)

lemma at_rest_stopped [simp]: "at_rest (manager_core_stopped w) \<longleftrightarrow> child_sidecar w = None"
  by (auto simp: at_rest_def)

text \<open>Ends as it should: running in the mode, or at rest after an error; the update flag is kept.\<close>

definition start_outcome :: "running_mode \<Rightarrow> core_world \<Rightarrow> unit outcome \<times> core_world \<Rightarrow> bool" where
  "start_outcome m w0 x \<longleftrightarrow>
     (if is_ok (fst x) then running (snd x) = m \<and> consistent (snd x) else at_rest (snd x))
     \<and> config_updating (snd x) = config_updating w0"

lemma poll_loop_frame:
  "running (snd (poll_loop env n le w)) = running w" "child_sidecar (snd (poll_loop env n le w)) = child_sidecar w"
  "config_updating (snd (poll_loop env n le w)) = config_updating w"
  by (induction env n le w rule: poll_loop.induct) (auto simp: call_ext_def split: sum.splits)

lemma wait_for_sidecar_exit_frame:
  assumes "wait_for_sidecar_exit env w = (r, w')"
  shows "running w' = running w \<and> child_sidecar w' = child_sidecar w \<and> config_updating w' = config_updating w
    \<and> (readiness w = None \<longrightarrow> readiness w' = None) \<and> (is_ok r \<longrightarrow> sidecar_exit w' = None)"
  using assms
  by (cases "answer env WaitExit (clock w)")
    (auto simp: wait_for_sidecar_exit_def try_then_def call_ext_def is_ok_def split: option.splits sum.splits)

lemma sidecar_spawned_outcome:
  assumes "running w = NotRunning" "child_sidecar w = None"
  shows "start_outcome ModeSidecar w (sidecar_spawned env pid w)"
proof -
  obtain r w1 where p: "poll_sidecar_readiness env sidecar_readiness_attempts (mark_ready (restore_umask env w)) = (r, w1)"
    by (rule prod.exhaust)
  then have f: "running w1 = NotRunning" "child_sidecar w1 = None" "config_updating w1 = config_updating w"
    using poll_loop_frame [of env sidecar_readiness_attempts None "mark_ready (restore_umask env w)"] assms
    by (simp_all add: poll_sidecar_readiness_def)
  show ?thesis
  proof (cases r)
    case (Inl e)
    with p f show ?thesis
      by (auto simp: sidecar_spawned_def sidecar_killed_def start_outcome_def call_ext_def split: sum.splits)
  next
    case (Inr u)
    with p f show ?thesis
      by (simp add: sidecar_spawned_def start_outcome_def consistent_def)
  qed
qed

lemma start_outcome_cong: "config_updating w1 = config_updating w0 \<Longrightarrow> start_outcome m w1 x = start_outcome m w0 x"
  by (simp add: start_outcome_def)

lemma start_outcome_try:
  assumes "try_then (call_ext env c w) k = x"
    and "at_rest w" "config_updating w = config_updating w0"
    and "\<And>w1. at_rest w1 \<Longrightarrow> config_updating w1 = config_updating w0 \<Longrightarrow> start_outcome m w0 (k () w1)"
  shows "start_outcome m w0 x"
proof (cases "answer env c (clock w)")
  case (Inl e)
  with assms(1-3) show ?thesis by (auto simp: try_then_def call_ext_def start_outcome_def)
next
  case (Inr u)
  with assms(1-3) assms(4) [of "tick env c True w"] show ?thesis
    by (auto simp: try_then_def call_ext_def)
qed

lemma at_rest_umask [simp]: "at_rest (narrow_umask env w) = at_rest w" "at_rest (restore_umask env w) = at_rest w"
  by (simp_all add: at_rest_def)

lemma start_core_by_sidecar_outcome:
  assumes "at_rest w0"
  shows "start_outcome ModeSidecar w0 (start_core_by_sidecar env w0)"
proof -
  have rest: "start_outcome ModeSidecar w0
      (let pid = new_pid env n; w7 = w6\<lparr>sidecar_exit := Some pid\<rparr>
        in if plat env = Windows
           then (case call_ext env AssignJob w7 of
               (Inl e, w8) \<Rightarrow> sidecar_killed env pid e (both pid e) w8
             | (Inr _, w8) \<Rightarrow> sidecar_spawned env pid w8)
           else sidecar_spawned env pid w7)"
    if w6: "at_rest w6" "config_updating w6 = config_updating w0" for n w6 both
  proof -
    let ?w7 = "w6\<lparr>sidecar_exit := Some (new_pid env n)\<rparr>"
    have w7: "at_rest ?w7" "config_updating ?w7 = config_updating w0" using w6 by (simp_all add: at_rest_def)
    have sp: "start_outcome ModeSidecar w0 (sidecar_spawned env (new_pid env n) v)"
      if "at_rest v" "config_updating v = config_updating w0" for v
      using sidecar_spawned_outcome [of v env "new_pid env n"] start_outcome_cong [OF that(2)] that(1)
      by (simp add: at_rest_def)
    have kl: "start_outcome ModeSidecar w0 (sidecar_killed env (new_pid env n) e (both (new_pid env n) e) v)"
      if "at_rest v" "config_updating v = config_updating w0" for v e
      using that by (auto simp: sidecar_killed_def call_ext_def start_outcome_def split: sum.splits)
    have t: "at_rest (tick env AssignJob b ?w7)" "config_updating (tick env AssignJob b ?w7) = config_updating w0" for b
      using w7 by simp_all
    show ?thesis
      using sp [OF w7] sp [OF t] kl [OF t]
      by (cases "plat env = Windows"; cases "answer env AssignJob (clock ?w7)")
        (simp_all add: Let_def call_ext_def)
  qed
  obtain r w1 where w: "wait_for_sidecar_exit env w0 = (r, w1)" by (rule prod.exhaust)
  then have w1: "at_rest w1" "config_updating w1 = config_updating w0"
    using wait_for_sidecar_exit_frame [OF w] assms by (simp_all add: at_rest_def)
  show ?thesis
  proof (cases r)
    case (Inl e)
    with w w1 show ?thesis by (simp add: start_core_by_sidecar_def try_then_def start_outcome_def)
  next
    case (Inr u)
    show ?thesis
    proof (cases "answer env ReserveSidecar (clock w1)")
      case (Inl e)
      with Inr w w1 show ?thesis
        by (simp add: start_core_by_sidecar_def try_then_def call_ext_def start_outcome_def at_rest_def)
    next
      case (Inr v)
      let ?w2 = "manager_core_stopped (tick env ReserveSidecar True w1)"
      have w2: "at_rest ?w2" "config_updating ?w2 = config_updating w0" using w1 by (simp_all add: at_rest_def)
      have e: "start_core_by_sidecar env w0 = try_then (call_ext env (SetSocket False) ?w2) (\<lambda>_ w3.
          try_then (call_ext env (MakeConfig (plat env = Windows \<and> \<not> elevated (cstore w3))) w3) (\<lambda>_ w4.
          try_then (call_ext env BuildCommand (narrow_umask env w4)) (\<lambda>_ w5.
          try_then (call_ext env Spawn w5) (\<lambda>_ w6.
          (let pid = new_pid env (clock w5); w7 = w6\<lparr>sidecar_exit := Some pid\<rparr>
           in if plat env = Windows
              then (case call_ext env AssignJob w7 of
               (Inl e, w8) \<Rightarrow> sidecar_killed env pid e
                 (\<lambda>k. bail (''failed to configure Job Object for sidecar PID '' @ show_nat (unat pid) @ '': '' @ show_chain e
                    @ ''; failed to terminate child: '' @ show_chain k)) w8
                | (Inr _, w8) \<Rightarrow> sidecar_spawned env pid w8)
              else sidecar_spawned env pid w7)))))"
        using Inr \<open>r = Inr u\<close> w by (simp add: start_core_by_sidecar_def try_then_def call_ext_def)
      have n: "config_updating (narrow_umask env v) = config_updating w0 \<longleftrightarrow> config_updating v = config_updating w0" for v
        by simp
      show ?thesis
        unfolding e
        by (intro start_outcome_try [OF refl] rest; (assumption | simp only: at_rest_umask n | rule w2)?)
    qed
  qed
qed

lemma observe_mode [simp]: "st_mode (observe h s) = st_mode s"
  using store_step_mode [of "OObserve h" s] by simp

lemma run_operation_mode:
  assumes "\<And>t. st_mode (snd (op t)) = st_mode t" and "\<And>t. st_mode (snd (post t)) = st_mode t"
  shows "st_mode (snd (run_operation_and_then op post s)) = st_mode s"
proof (cases "operation_running s")
  case True
  then show ?thesis by (simp add: run_operation_and_then_def begin_operation_cases)
next
  case False
  let ?s1 = "announce (bump (s\<lparr>operation_running := True\<rparr>))"
  obtain r s2 where o: "op ?s1 = (r, s2)" by (rule prod.exhaust)
  have "st_mode s2 = st_mode s" using assms(1) [of ?s1] o by (simp add: store_defs)
  then show ?thesis
    using False o assms(2)
    by (cases r) (simp_all add: run_operation_and_then_def begin_operation_cases frame_simps)
qed

lemma refresh_mode: "st_mode (snd (refresh c reply s)) = st_mode s"
proof -
  have "st_mode (snd (probe c reply t)) = st_mode t" for t
    by (simp add: probe_def record_reply_def Let_def split: sum.splits version_check.splits)
  then show ?thesis
    unfolding refresh_def by (intro run_operation_mode) (simp_all add: confirm_ready_def split_beta)
qed

definition rest_kept :: "core_world \<Rightarrow> 'a outcome \<times> core_world \<Rightarrow> bool" where
  "rest_kept w0 x \<longleftrightarrow> at_rest (snd x) \<and> config_updating (snd x) = config_updating w0"

lemma at_rest_small [simp]:
  "at_rest (start_owner_monitor w) = at_rest w" "at_rest (log_call c ok w) = at_rest w"
  "at_rest (w\<lparr>session := v\<rparr>) = at_rest w" "at_rest (manager_core_starting w) = at_rest w"
  by (simp_all add: at_rest_def)

lemma refusal_notices_frame [simp]:
  "at_rest (refusal_notices env code w) = at_rest w" "config_updating (refusal_notices env code w) = config_updating w"
  by (simp_all add: refusal_notices_def Let_def)

lemma record_refusal_frame:
  "record_service_start_refusal reply w = (e, w') \<Longrightarrow>
     at_rest w' = at_rest w \<and> config_updating w' = config_updating w"
  by (cases "running w = NotRunning") (auto simp: record_service_start_refusal_def at_rest_def)

lemma rest_kept_try:
  assumes "at_rest w" "config_updating w = config_updating w0"
    and "\<And>w1. at_rest w1 \<Longrightarrow> config_updating w1 = config_updating w0 \<Longrightarrow> rest_kept w0 (k () w1)"
  shows "rest_kept w0 (try_then (call_ext env c w) k)"
proof (cases "answer env c (clock w)")
  case (Inl e)
  with assms(1,2) show ?thesis by (auto simp: try_then_def call_ext_def rest_kept_def)
next
  case (Inr u)
  with assms(1,2) assms(3) [of "tick env c True w"] show ?thesis by (auto simp: try_then_def call_ext_def)
qed

lemma start_with_existing_service_rest:
  assumes "at_rest w0"
  shows "rest_kept w0 (start_with_existing_service env w0)"
  unfolding start_with_existing_service_def Let_def
proof (intro rest_kept_try)
  fix w1 w2 w3
  assume w3: "at_rest w3" "config_updating w3 = config_updating w0"
  then have t: "at_rest (tick env StartClash b w3)" "config_updating (tick env StartClash b w3) = config_updating w0" for b
    by simp_all
  show "rest_kept w0 (case start_answer env (clock w3) of
        Inl e \<Rightarrow> (Inl (add_context (Text ''cannot connect to Clash Verge Service'') e),
          start_owner_monitor (tick env StartClash (case start_answer env (clock w3) of Inl _ \<Rightarrow> False | Inr r \<Rightarrow> sr_code r = 0) w3))
      | Inr reply \<Rightarrow>
          if sr_code reply > 0
          then case record_service_start_refusal reply (start_owner_monitor (refusal_notices env (sr_code reply)
                 (tick env StartClash (case start_answer env (clock w3) of Inl _ \<Rightarrow> False | Inr r \<Rightarrow> sr_code r = 0) w3)))
               of (e, x) \<Rightarrow> (Inl e, x)
          else case sr_generation reply of
            None \<Rightarrow> (Inl (bail ''Clash Verge Service returned no session''),
              tick env StartClash (case start_answer env (clock w3) of Inl _ \<Rightarrow> False | Inr r \<Rightarrow> sr_code r = 0) w3)
          | Some g \<Rightarrow> (Inr (), start_owner_monitor (tick env ProbeCapabilities True
              (tick env StartClash (case start_answer env (clock w3) of Inl _ \<Rightarrow> False | Inr r \<Rightarrow> sr_code r = 0) w3)
              \<lparr>session := Some \<lparr>session_proof_of = \<lparr>proof_generation = g, proof_token = token_at env (clock w2)\<rparr>,
                 supports_runtime_staging = sr_staging reply, supports_runtime_file_read = sr_file_read reply\<rparr>\<rparr>)))"
    using t record_refusal_frame
    by (auto simp: rest_kept_def split: sum.splits option.splits prod.splits)
qed (use assms in simp_all)

lemma run_core_by_service_rest:
  assumes "at_rest w0"
  shows "rest_kept w0 (run_core_by_service env w0)"
proof -
  obtain r w1 where r: "refresh_service env w0 = (r, w1)" by (rule prod.exhaust)
  then have w1: "at_rest w1" "config_updating w1 = config_updating w0"
    using assms refresh_mode by (auto simp: refresh_service_def at_rest_def Let_def split: prod.splits) (metis snd_conv tick_frame(1))
  obtain st w2 where c: "current_status env w1 = (st, w2)" by (rule prod.exhaust)
  then have w2: "at_rest w2" "config_updating w2 = config_updating w0"
    using w1 by (auto simp: current_status_def Let_def)
  show ?thesis
    using r c w1 w2 start_with_existing_service_rest [OF w2(1), of env]
    by (auto simp: run_core_by_service_def rest_kept_def split: sum.splits)
qed

lemma retry_service_start_rest:
  "at_rest w0 \<Longrightarrow> rest_kept w0 (retry_service_start env n le w0)"
proof (induction n arbitrary: le w0)
  case 0
  then show ?case by (simp add: rest_kept_def)
next
  case (Suc n)
  obtain r w1 where r: "run_core_by_service env w0 = (r, w1)" by (rule prod.exhaust)
  with run_core_by_service_rest [OF Suc.prems, of env] have w1: "at_rest w1" "config_updating w1 = config_updating w0"
    by (simp_all add: rest_kept_def)
  show ?case
    using r w1 Suc.IH [OF w1(1)] by (cases r) (simp_all add: rest_kept_def)
qed

lemma start_core_by_service_with_config_outcome:
  assumes "at_rest w0"
  shows "start_outcome ModeService w0 (start_core_by_service_with_config env w0)"
proof -
  let ?x = "if plat env = Windows then retry_service_start env service_start_retries None w0 else run_core_by_service env w0"
  have x: "rest_kept w0 ?x"
    using retry_service_start_rest [OF assms] run_core_by_service_rest [OF assms] by simp
  obtain r w1 where r: "?x = (r, w1)" by (rule prod.exhaust)
  with x have "at_rest w1" "config_updating w1 = config_updating w0" by (simp_all add: rest_kept_def)
  then show ?thesis
    unfolding start_core_by_service_with_config_def r try_then_def
    by (auto simp: start_outcome_def consistent_def at_rest_def split: sum.splits)
qed

lemma start_core_by_service_outcome:
  assumes "at_rest w0"
  shows "start_outcome ModeService w0 (start_core_by_service env w0)"
  unfolding start_core_by_service_def
proof (intro start_outcome_try [OF refl])
  fix w1 w2
  assume "at_rest w2" "config_updating w2 = config_updating w0"
  then show "start_outcome ModeService w0 (start_core_by_service_with_config env w2)"
    using start_core_by_service_with_config_outcome [of w2 env] start_outcome_cong by blast
qed (use assms in simp_all)

text \<open>Stopping: afterwards the world is consistent, and at rest if it succeeded.\<close>

definition stop_outcome :: "core_world \<Rightarrow> unit outcome \<times> core_world \<Rightarrow> bool" where
  "stop_outcome w0 x \<longleftrightarrow> consistent (snd x) \<and> (is_ok (fst x) \<longrightarrow> at_rest (snd x))
     \<and> config_updating (snd x) = config_updating w0"

lemma stop_sidecar_at_rest:
  "at_rest (snd (stop_core_by_sidecar_unprepared env w))
   \<and> config_updating (snd (stop_core_by_sidecar_unprepared env w)) = config_updating w"
proof -
  define w1 where "w1 = w\<lparr>child_sidecar := None\<rparr>"
  define w2 where "w2 = (case if child_shared env (clock w) then None else child_sidecar w of None \<Rightarrow> w1
      | Some pid \<Rightarrow> snd (call_ext env (Kill pid) (if plat env = Windows then w1\<lparr>job_handle := False\<rparr> else w1)))"
  obtain r w3 where w3: "wait_for_sidecar_exit env w2 = (r, w3)" by (rule prod.exhaust)
  have "child_sidecar w2 = None" "config_updating w2 = config_updating w"
    by (simp_all add: w2_def w1_def split: option.splits)
  then have f: "child_sidecar w3 = None" "config_updating w3 = config_updating w"
    using wait_for_sidecar_exit_frame [OF w3] by simp_all
  have "stop_core_by_sidecar_unprepared env w = (let (r, w3) = wait_for_sidecar_exit env w2 in (r, manager_core_stopped w3))"
    unfolding stop_core_by_sidecar_unprepared_def take_child_sidecar_def Let_def prod.case w1_def w2_def ..
  then have "stop_core_by_sidecar_unprepared env w = (r, manager_core_stopped w3)" using w3 by simp
  with f show ?thesis by simp
qed

lemma clear_after_loss_frame:
  "child_sidecar (clear_proxy_after_owner_loss env n w) = child_sidecar w"
  "config_updating (clear_proxy_after_owner_loss env n w) = config_updating w"
  "running (clear_proxy_after_owner_loss env n w) = running w"
  by (induction env n w rule: clear_proxy_after_owner_loss.induct) (auto simp: call_ext_def split: sum.splits)

lemma recover_locked_frame:
  "child_sidecar (recover_after_owner_loss_while_locked env reason w) = child_sidecar w"
  "config_updating (recover_after_owner_loss_while_locked env reason w) = config_updating w"
  "running (recover_after_owner_loss_while_locked env reason w) = NotRunning"
  "readiness (recover_after_owner_loss_while_locked env reason w) = None"
  by (simp_all add: recover_after_owner_loss_while_locked_def Let_def clear_after_loss_frame)

lemma service_stop_outcome:
  assumes "service_stop env w = (r, w')" and "running w = ModeService" and "child_sidecar w = None"
  shows "child_sidecar w' = None \<and> config_updating w' = config_updating w
    \<and> (running w' = ModeService \<or> (running w' = NotRunning \<and> readiness w' = None))"
  using assms
  by (auto simp: service_stop_def cancel_owner_monitors_def call_ext_def Let_def recover_locked_frame
      split: sum.splits option.splits if_splits)

lemma stop_core_by_service_outcome:
  assumes "consistent w" and "running w = ModeService"
  shows "stop_outcome w (stop_core_by_service env w)"
proof -
  from assms have c: "child_sidecar w = None" by (simp add: consistent_def)
  obtain r w1 where r: "service_stop env w = (r, w1)" by (rule prod.exhaust)
  from service_stop_outcome [OF r assms(2) c] r show ?thesis
    by (cases r) (auto simp: stop_core_by_service_def try_then_def stop_outcome_def consistent_def)
qed

lemma clear_terminated_sidecar_consistent:
  "consistent w \<Longrightarrow> consistent (clear_terminated_sidecar env pid w)"
  by (auto simp: clear_terminated_sidecar_def take_child_sidecar_def consistent_def Let_def)

lemma interfere_consistent: "consistent w \<Longrightarrow> consistent (interfere xs w)"
  by (auto simp: consistent_def frame_simps interfere_inactive)

lemma recover_after_owner_loss_consistent:
  assumes "consistent w"
  shows "consistent (recover_after_owner_loss env gen reason detail (interfere xs) w)"
proof (cases "running w = ModeService \<and> fst (claim_owner_recovery_generation gen (owner_gen w)) \<noteq> None")
  case False
  with assms show ?thesis
    by (auto simp: recover_after_owner_loss_def split: prod.splits option.splits)
next
  case True
  then obtain rec g' where c: "claim_owner_recovery_generation gen (owner_gen w) = (Some rec, g')"
    by (cases "claim_owner_recovery_generation gen (owner_gen w)") auto
  define w1 where "w1 = interfere xs (w\<lparr>owner_gen := g', ready_word := invalidate_core_readiness (ready_word w)\<rparr>)"
  have w1: "consistent w1" "running w1 = ModeService" "child_sidecar w1 = None"
    using assms True by (auto simp: w1_def consistent_def frame_simps interfere_inactive)
  let ?w2 = "recover_after_owner_loss_while_locked env reason w1"
  have w2: "consistent ?w2" "consistent (record_startup_error f ?w2)" "consistent (log_call c ok (record_startup_error f ?w2))" for f c ok
    using w1 by (simp_all add: consistent_def recover_locked_frame record_startup_error_def)
  show ?thesis
    using True c w1 w2 by (auto simp: recover_after_owner_loss_def w1_def [symmetric] Let_def
        split: owner_recovery_reason.splits option.splits)
qed

end
