(* ===== verification/Lifecycle.thy ===== *)
theory Lifecycle
  imports CoreProcess
begin

section \<open>The core lifecycle: start, stop, restart, sidecar hand-over\<close>

text \<open>
  Models \<open>src-tauri/src/core/manager/lifecycle.rs\<close> and \<open>CoreManager::init\<close> of
  \<open>core/manager/mod.rs\<close> over the world of \<open>CoreProcess\<close>.  The generic transition functions take
  their steps as arguments, as in the code.  An operation runs under the lifecycle lock, so the
  operations of a run follow one another; what other tasks do meanwhile is in the environment.
\<close>

subsection \<open>Decisions\<close>

datatype startup_decision = DecideService | DecideSidecar | DecideWait

datatype proxy_stop_intent = ClearProxy | HandOverToService

definition should_wait_for_service :: "bool \<Rightarrow> bool \<Rightarrow> bool \<Rightarrow> bool" where
  "should_wait_for_service tun service_ready_now is_admin_now \<longleftrightarrow> tun \<and> \<not> service_ready_now \<and> \<not> is_admin_now"

definition proxy_stop_intent_for :: "bool \<Rightarrow> running_mode \<Rightarrow> startup_decision \<Rightarrow> proxy_stop_intent" where
  "proxy_stop_intent_for is_macos m d =
     (if is_macos \<and> m = ModeSidecar \<and> d = DecideService then HandOverToService else ClearProxy)"

definition decide_startup :: "service_status \<Rightarrow> bool \<Rightarrow> startup_decision" where
  "decide_startup st service_required =
     (case st of
        StReady \<Rightarrow> DecideService
      | StNotInstalled \<Rightarrow> (if \<not> service_required then DecideSidecar else DecideWait)
      | SidecarAllowed \<Rightarrow> DecideSidecar
      | _ \<Rightarrow> DecideWait)"

definition can_allow_sidecar_for_session :: "running_mode \<Rightarrow> service_status \<Rightarrow> bool" where
  "can_allow_sidecar_for_session m st =
     (case m of
        NotRunning \<Rightarrow> (case st of StNotInstalled \<Rightarrow> True | ServiceStatus.NeedsReinstall \<Rightarrow> True | InstallRequired \<Rightarrow> True
                       | StUnavailable _ \<Rightarrow> True | SidecarAllowed \<Rightarrow> True | _ \<Rightarrow> False)
      | ModeSidecar \<Rightarrow> (case st of InstallRequired \<Rightarrow> True | StUnavailable _ \<Rightarrow> True | SidecarAllowed \<Rightarrow> True | _ \<Rightarrow> False)
      | ModeService \<Rightarrow> False)"

record proxy_restore_expectation =
  ex_mode :: running_mode
  ex_readiness :: u64
  ex_owner :: "u64 option"

definition capture :: "running_mode \<Rightarrow> u64 option \<Rightarrow> u64 \<Rightarrow> proxy_restore_expectation option" where
  "capture m readiness_gen owner =
     (case readiness_gen of None \<Rightarrow> None
      | Some g \<Rightarrow> (case m of
          ModeService \<Rightarrow> Some \<lparr>ex_mode = m, ex_readiness = g, ex_owner = Some owner\<rparr>
        | ModeSidecar \<Rightarrow> Some \<lparr>ex_mode = m, ex_readiness = g, ex_owner = None\<rparr>
        | NotRunning \<Rightarrow> None))"

definition is_valid :: "proxy_restore_expectation \<Rightarrow> running_mode \<Rightarrow> u64 option \<Rightarrow> u64 \<Rightarrow> bool" where
  "is_valid ex m readiness_gen owner \<longleftrightarrow>
     ex_mode ex = m \<and> readiness_gen = Some (ex_readiness ex)
     \<and> (case ex_owner ex of None \<Rightarrow> True | Some expected \<Rightarrow> expected = owner)"

abbreviation still_valid :: "proxy_restore_expectation \<Rightarrow> core_world \<Rightarrow> bool" where
  "still_valid ex w \<equiv> is_valid ex (running w) (readiness w) (owner_gen w)"

subsection \<open>Transitions\<close>

type_synonym step = "core_world \<Rightarrow> unit outcome \<times> core_world"

definition run_controlled_stop_transition :: "core_env \<Rightarrow> running_mode \<Rightarrow> proxy_stop_intent \<Rightarrow> step \<Rightarrow> step" where
  "run_controlled_stop_transition env m intent stop_core w =
     (if m = NotRunning then stop_core w
      else if m = ModeSidecar \<and> intent = HandOverToService \<or> m = ModeService \<and> plat env = MacOS
      then stop_core (snd (call_ext env GuardStop w))
      else try_then (call_ext env ProxyClear w) (\<lambda>_ w1. stop_core w1))"

definition run_core_start_transition :: "step \<Rightarrow> (core_world \<Rightarrow> bool) \<Rightarrow> step \<Rightarrow> step" where
  "run_core_start_transition start_core core_is_ready apply_proxy w =
     try_then (start_core w) (\<lambda>_ w1. if core_is_ready w1 then apply_proxy w1 else (Inr (), w1))"

definition run_ready_core_start_transition :: "step \<Rightarrow> (core_world \<Rightarrow> bool) \<Rightarrow> step \<Rightarrow> step" where
  "run_ready_core_start_transition start_core core_is_ready apply_proxy w =
     try_then (start_core w) (\<lambda>_ w1.
       if core_is_ready w1 then apply_proxy w1 else (Inl (bail ''core did not become ready after start''), w1))"

definition run_service_start_with_sidecar_fallback :: "core_env \<Rightarrow> step \<Rightarrow> step \<Rightarrow> (error \<Rightarrow> step)
    \<Rightarrow> (string \<Rightarrow> core_world \<Rightarrow> core_world) \<Rightarrow> step" where
  "run_service_start_with_sidecar_fallback env start_service confirm_idle start_sidecar record_unavailable w =
     (case start_service w of
        (Inr _, w1) \<Rightarrow> (Inr (), w1)
      | (Inl e, w1) \<Rightarrow>
          (if (case refusal_of e of None \<Rightarrow> False | Some (code, _, _) \<Rightarrow> code \<noteq> code_invalid_location env) then (Inl e, w1)
           else case confirm_idle w1 of
               (Inl probe_error, w2) \<Rightarrow>
                 (let e' = add_context (Text (''Sidecar fallback was not safe: '' @ show_chain probe_error)) e
                  in (Inl e', record_unavailable (show_chain e') w2))
             | (Inr _, w2) \<Rightarrow>
                 (let (r, w3) = start_sidecar e w2
                  in (map_sum (add_context (Text (''Sidecar fallback failed after Service failure: '' @ show_chain e))) id r, w3))))"

definition run_sidecar_termination_transition :: "step \<Rightarrow> step \<Rightarrow> step" where
  "run_sidecar_termination_transition clear_proxy terminate_sidecar w =
     try_then (clear_proxy w) (\<lambda>_ w1. terminate_sidecar w1)"

definition run_service_config_replacement_transition :: "core_env \<Rightarrow> step \<Rightarrow> step \<Rightarrow> (core_world \<Rightarrow> bool) \<Rightarrow> step \<Rightarrow> step" where
  "run_service_config_replacement_transition env stop_core start_core core_is_ready restore_proxy w =
     try_then (run_controlled_stop_transition env ModeService ClearProxy stop_core w)
       (\<lambda>_ w1. run_ready_core_start_transition start_core core_is_ready restore_proxy w1)"

definition run_core_replacement_transition :: "step \<Rightarrow> step \<Rightarrow> step \<Rightarrow> step" where
  "run_core_replacement_transition stop_core start_core restore_proxy w =
     try_then (stop_core w) (\<lambda>_ w1. try_then (start_core w1) (\<lambda>_ w2. restore_proxy w2))"

definition run_uninstall_transition :: "step \<Rightarrow> step \<Rightarrow> step \<Rightarrow> step" where
  "run_uninstall_transition uninstall prepare_sidecar start_sidecar w =
     try_then (uninstall w) (\<lambda>_ w1. try_then (prepare_sidecar w1) (\<lambda>_ w2. start_sidecar w2))"

subsection \<open>Starting\<close>

definition rollback_failed_start :: "core_env \<Rightarrow> core_world \<Rightarrow> core_world" where
  "rollback_failed_start env w = manager_core_stopped (snd (call_ext env GuardStop w))"

definition withdraw_allowance :: "core_world \<Rightarrow> core_world" where
  "withdraw_allowance w = w\<lparr>cstore := snd (withdraw_sidecar_allowance (cstore w))\<rparr>"

text \<open>\<open>await_ready\<close> is cut off by the overall timeout after \<open>wait_budget\<close> answers.\<close>

definition service_wait_attempts :: nat where
  "service_wait_attempts = 30000 div 200"

definition wait_for_service_if_needed :: "core_env \<Rightarrow> core_world \<Rightarrow> core_world" where
  "wait_for_service_if_needed env w =
     (let (st, w1) = current_status env w
      in if \<not> should_wait_for_service (tun_enabled w) (st = StReady) (app_elevated env (clock w1)) then w1
         else if service_usable (snapshot (cstore w1)) then w1
         else let w2 = tick env RefreshProbe True w1
              in w2\<lparr>cstore := snd (await_ready (svc_contract env) (\<lambda>k. version_answer env (clock w1 + k))
                      (min service_wait_attempts (wait_budget env (clock w1))) (cstore w2))\<rparr>)"

definition prepare_startup :: "core_env \<Rightarrow> core_world \<Rightarrow> startup_decision \<times> core_world" where
  "prepare_startup env w =
     (if internal_test env then (DecideSidecar, w)
      else let w1 = (if plat env = Windows then wait_for_service_if_needed env w else w);
               required = tun_enabled w1;
               (st, w2) = (if required then current_status env w1 else (Checking, w1));
               (refused, w3) = (if required \<and> st = StNotInstalled
                 then let (r, s) = require_install_for_session (cstore w2) in (\<not> is_ok r, w2\<lparr>cstore := s\<rparr>)
                 else (False, w2))
           in if refused then (DecideWait, w3)
              else let (st', w4) = current_status env w3 in (decide_startup st' required, w4))"

definition start_sidecar_after_service_failure :: "core_env \<Rightarrow> error \<Rightarrow> core_world \<Rightarrow> unit outcome \<times> core_world" where
  "start_sidecar_after_service_failure env e w =
     (if exiting env (clock w) then (Inl (add_context (Text ''application exited before Sidecar fallback'') e), w)
      else case allow_sidecar_after_service_refusal (show_chain e) (cstore w) of
          (Inl refused, s) \<Rightarrow> (Inl (bail (error_text refused)), w\<lparr>cstore := s\<rparr>)
        | (Inr _, s) \<Rightarrow>
            (case start_core_by_sidecar env (w\<lparr>cstore := s\<rparr>) of
               (Inr _, w1) \<Rightarrow> (Inr (), log_call (Notice ''service_core::sidecar_fallback'') True w1)
             | (Inl err, w1) \<Rightarrow>
                 (Inl (add_context (Text (''Service failure before Sidecar startup: '' @ show_chain e)) err),
                  rollback_failed_start env (withdraw_allowance w1))))"

definition try_sidecar_after_service_unavailable :: "core_env \<Rightarrow> core_world \<Rightarrow> unit outcome \<times> core_world" where
  "try_sidecar_after_service_unavailable env w =
     (let s = snapshot (cstore w)
      in if pending s \<noteq> None \<or> op_in_flight s \<or> exiting env (clock w) then (Inr (), w)
         else (case (case health s of Unavailable reason \<Rightarrow> Some reason
                     | VersionMismatch \<Rightarrow> Some ''registered service is unavailable or incompatible'' | _ \<Rightarrow> None) of
             None \<Rightarrow> (Inr (), w)
           | Some reason \<Rightarrow>
               (case call_ext env CheckIdle w of
                  (Inl _, w1) \<Rightarrow> (Inr (), w1)
                | (Inr _, w1) \<Rightarrow> start_sidecar_after_service_failure env (bail reason) w1)))"

definition spawn_service_handoff_watcher :: "core_env \<Rightarrow> core_world \<Rightarrow> core_world" where
  "spawn_service_handoff_watcher env w =
     (if \<not> (tun_enabled w \<and> \<not> sidecar_allowed (snapshot (cstore w))) then w
      else if handoff_watching w then w
      else log_call SpawnWatcher True (w\<lparr>handoff_watching := True\<rparr>))"

definition observe_unavailable :: "string \<Rightarrow> core_world \<Rightarrow> core_world" where
  "observe_unavailable reason w = w\<lparr>cstore := observe (Unavailable reason) (cstore w)\<rparr>"

definition start_core_inner :: "core_env \<Rightarrow> core_world \<Rightarrow> unit outcome \<times> core_world" where
  "start_core_inner env w =
     (if exiting env (clock w) then (Inr (), w)
      else if running w \<noteq> NotRunning then (Inr (), w)
      else let (decision, w1) = prepare_startup env w
      in if decision = DecideWait
         then let w2 = rollback_failed_start env w1
              in if plat env = Windows then try_sidecar_after_service_unavailable env w2 else (Inr (), w2)
      else if exiting env (clock w1) then (Inr (), manager_core_stopped w1)
      else let (r, w2) =
          (if decision = DecideService
           then if plat env = Windows
                then run_service_start_with_sidecar_fallback env (start_core_by_service env) (call_ext env CheckIdle)
                       (start_sidecar_after_service_failure env) observe_unavailable w1
                else start_core_by_service env w1
           else start_core_by_sidecar env w1)
      in if \<not> is_ok r then (r, rollback_failed_start env w2)
         else (r, if plat env = Windows \<and> running w2 = ModeSidecar then spawn_service_handoff_watcher env w2 else w2))"

definition clear_after_change :: "core_env \<Rightarrow> string \<Rightarrow> core_world \<Rightarrow> unit outcome \<times> core_world" where
  "clear_after_change env msg w =
     (let (cleared, w1) = call_ext env ProxyClear w; w2 = snd (call_ext env GuardStop w1)
      in case cleared of Inl e \<Rightarrow> (Inl e, w2) | Inr _ \<Rightarrow> (Inl (add_context (Proxy CoreNotReady) (bail msg)), w2))"

definition apply_proxy_after_start :: "core_env \<Rightarrow> core_world \<Rightarrow> unit outcome \<times> core_world" where
  "apply_proxy_after_start env w =
     (case capture (running w) (readiness w) (owner_gen w) of
        None \<Rightarrow> (Inl (add_context (Proxy CoreNotReady) (bail ''cannot apply system proxy before core readiness'')), w)
      | Some expectation \<Rightarrow>
          (if plat env = MacOS \<and> waits_for_network env (clock w) then (Inr (), w)
           else try_then (call_ext env ProxyApply w) (\<lambda>_ w1.
             if \<not> still_valid expectation w1
             then clear_after_change env ''core readiness changed while applying system proxy'' w1
             else try_then (call_ext env GuardRefresh w1) (\<lambda>_ w2.
               if \<not> still_valid expectation w2
               then clear_after_change env ''core readiness changed while refreshing the system proxy guard'' w2
               else (Inr (), log_call (Notice ''refresh-verge'') True w2)))))"

definition with_config_update :: "(core_world \<Rightarrow> 'a outcome \<times> core_world) \<Rightarrow> core_world \<Rightarrow> 'a outcome \<times> core_world" where
  "with_config_update body w =
     (let (free, w1) = try_start_config_update w
      in if \<not> free then (Inl (bail ''configuration update is already running''), w1)
         else let (r, w2) = body w1 in (r, finish_config_update w2))"

definition core_is_ready :: "core_world \<Rightarrow> bool" where
  "core_is_ready w \<longleftrightarrow> running w \<noteq> NotRunning \<and> readiness w \<noteq> None"

definition start_core_during_config_update :: "core_env \<Rightarrow> core_world \<Rightarrow> unit outcome \<times> core_world" where
  "start_core_during_config_update env w =
     run_core_start_transition (start_core_inner env) core_is_ready (apply_proxy_after_start env) w"

definition start_core :: "core_env \<Rightarrow> core_world \<Rightarrow> unit outcome \<times> core_world" where
  "start_core env w = with_config_update (start_core_during_config_update env) w"

subsection \<open>Stopping and restarting\<close>

definition stop_core_unprepared_inner :: "core_env \<Rightarrow> core_world \<Rightarrow> unit outcome \<times> core_world" where
  "stop_core_unprepared_inner env w =
     (case running w of
        ModeService \<Rightarrow> stop_core_by_service env w
      | ModeSidecar \<Rightarrow> stop_core_by_sidecar_unprepared env w
      | NotRunning \<Rightarrow> (Inr (), w))"

definition controlled_stop_core_with_intent :: "core_env \<Rightarrow> proxy_stop_intent \<Rightarrow> core_world \<Rightarrow> unit outcome \<times> core_world" where
  "controlled_stop_core_with_intent env intent w =
     run_controlled_stop_transition env (running w) intent (stop_core_unprepared_inner env) w"

definition stop_core :: "core_env \<Rightarrow> core_world \<Rightarrow> unit outcome \<times> core_world" where
  "stop_core env w = controlled_stop_core_with_intent env ClearProxy w"

definition stop_sidecar_after_proxy_clear :: "core_env \<Rightarrow> core_world \<Rightarrow> unit outcome \<times> core_world" where
  "stop_sidecar_after_proxy_clear env w =
     run_sidecar_termination_transition (call_ext env ProxyClear) (stop_core_by_sidecar_unprepared env) w"

definition rollback_failed_sidecar_transition :: "core_env \<Rightarrow> core_world \<Rightarrow> unit outcome \<times> core_world" where
  "rollback_failed_sidecar_transition env w =
     try_then (if running w = ModeSidecar then stop_sidecar_after_proxy_clear env w else (Inr (), w))
       (\<lambda>_ w1. (Inr (), rollback_failed_start env w1))"

definition service_core_ready :: "core_world \<Rightarrow> bool" where
  "service_core_ready w \<longleftrightarrow> running w = ModeService \<and> readiness w \<noteq> None"

definition replace_service_core_with_config :: "core_env \<Rightarrow> core_world \<Rightarrow> unit outcome \<times> core_world" where
  "replace_service_core_with_config env w =
     run_service_config_replacement_transition env (stop_core_unprepared_inner env)
       (start_core_by_service_with_config env) service_core_ready
       (apply_proxy_after_start env) w"

definition stop_intent_now :: "core_env \<Rightarrow> core_world \<Rightarrow> proxy_stop_intent \<times> core_world" where
  "stop_intent_now env w =
     (if plat env \<noteq> MacOS \<or> running w \<noteq> ModeSidecar then (ClearProxy, w)
      else let (d, w1) = prepare_startup env w in (proxy_stop_intent_for True (running w) d, w1))"

definition restart_core_during_config_update :: "core_env \<Rightarrow> core_world \<Rightarrow> unit outcome \<times> core_world" where
  "restart_core_during_config_update env w =
     (let (intent, w1) = stop_intent_now env w
      in run_core_replacement_transition (controlled_stop_core_with_intent env intent)
           (\<lambda>w. try_then (start_core_inner env w) (\<lambda>_ w'.
              if core_is_ready w' then (Inr (), w') else (Inl (bail ''core did not become ready after restart''), w')))
           (apply_proxy_after_start env) w1)"

definition restart_core :: "core_env \<Rightarrow> core_world \<Rightarrow> unit outcome \<times> core_world" where
  "restart_core env w = with_config_update (restart_core_during_config_update env) w"

subsection \<open>Falling back to the sidecar\<close>

definition disable_tun_and_persist :: "core_env \<Rightarrow> core_world \<Rightarrow> unit outcome \<times> core_world" where
  "disable_tun_and_persist env w = call_ext env SaveVerge (w\<lparr>tun_enabled := False\<rparr>)"

definition prepare_sidecar_config :: "core_env \<Rightarrow> core_world \<Rightarrow> unit outcome \<times> core_world" where
  "prepare_sidecar_config env w =
     try_then (if tun_should_be_disabled (snapshot (cstore w)) (tun_enabled w)
               then disable_tun_and_persist env w else (Inr (), w))
       (\<lambda>_ w1. call_ext env GenerateRuntime w1)"

definition sidecar_ready :: "core_world \<Rightarrow> bool" where
  "sidecar_ready w \<longleftrightarrow> running w = ModeSidecar \<and> readiness w \<noteq> None"

definition start_ready_sidecar :: "core_env \<Rightarrow> string \<Rightarrow> core_world \<Rightarrow> unit outcome \<times> core_world" where
  "start_ready_sidecar env msg w =
     try_then (start_core_inner env w) (\<lambda>_ w1.
       if \<not> sidecar_ready w1 then (Inl (bail msg), w1) else apply_proxy_after_start env w1)"

definition rolled_back :: "core_env \<Rightarrow> error \<Rightarrow> core_world \<Rightarrow> unit outcome \<times> core_world" where
  "rolled_back env e w =
     (case rollback_failed_sidecar_transition env w of
        (Inl cleanup_error, w1) \<Rightarrow>
          (Inl (add_context (Text ''failed to clear the proxy before rolling back'') (rollback_failure e cleanup_error)), w1)
      | (Inr _, w1) \<Rightarrow> (Inl e, w1))"

definition allow_sidecar_now :: "service_status \<Rightarrow> core_world \<Rightarrow> unit outcome \<times> core_world" where
  "allow_sidecar_now st w =
     (if st = SidecarAllowed then (Inr (), w)
      else let (r, s) = allow_sidecar_for_session (cstore w)
           in (map_sum (\<lambda>e. bail (error_text e)) id r, w\<lparr>cstore := s\<rparr>))"

definition continue_body :: "core_env \<Rightarrow> core_world \<Rightarrow> unit outcome \<times> core_world" where
  "continue_body env w =
     (let (st, w1) = current_status env w
      in if \<not> can_allow_sidecar_for_session (running w1) st
         then (Inl (bail ''Sidecar continuation is not allowed''), w1)
         else try_then (if plat env = Windows \<and> running w1 = NotRunning then call_ext env CheckIdle w1 else (Inr (), w1)) (\<lambda>_ w2.
              try_then (allow_sidecar_now st w2) (\<lambda>_ w3.
                (case prepare_sidecar_config env w3 of
                   (Inl e, w4) \<Rightarrow> (Inl e, withdraw_allowance w4)
                 | (Inr _, w4) \<Rightarrow>
                     (case start_ready_sidecar env ''Sidecar did not become ready'' (snd (call_ext env GuardStop w4)) of
                        (Inr _, w5) \<Rightarrow> (Inr (), w5)
                      | (Inl e, w5) \<Rightarrow> rolled_back env e (withdraw_allowance w5))))))"

definition continue_with_sidecar :: "core_env \<Rightarrow> core_world \<Rightarrow> unit outcome \<times> core_world" where
  "continue_with_sidecar env w = with_config_update (continue_body env) w"

definition uninstall_service :: "core_env \<Rightarrow> core_world \<Rightarrow> unit outcome \<times> core_world" where
  "uninstall_service env w =
     (let a = (action_answer env (clock w))\<lparr>during_probe :=
                (\<lambda>s. fold store_step (filter (\<lambda>op. \<not> is_mode_op op) (action_ops env (clock w))) s)\<rparr>;
          w1 = tick env ServiceAction True w;
          (r, s) = handle_service_status a UninstallRequired (cstore w1)
      in (map_sum (\<lambda>e. bail (error_text e)) id r, w1\<lparr>cstore := s\<rparr>))"

definition uninstall_body :: "core_env \<Rightarrow> core_world \<Rightarrow> unit outcome \<times> core_world" where
  "uninstall_body env w =
     try_then (controlled_stop_core_with_intent env ClearProxy w) (\<lambda>_ w1.
       (case run_uninstall_transition (uninstall_service env) (prepare_sidecar_config env)
               (start_ready_sidecar env ''Sidecar did not become ready after service uninstall'') w1 of
          (Inr _, w2) \<Rightarrow> (Inr (), w2)
        | (Inl e, w2) \<Rightarrow> rolled_back env e w2))"

definition uninstall_service_and_start_sidecar :: "core_env \<Rightarrow> core_world \<Rightarrow> unit outcome \<times> core_world" where
  "uninstall_service_and_start_sidecar env w = with_config_update (uninstall_body env) w"

subsection \<open>Handing the sidecar over to the service\<close>

datatype handoff_outcome = HandoffNotReady | HandoffDone | HandoffFailed

definition refresh_service_readiness_for_handoff :: "core_env \<Rightarrow> core_world \<Rightarrow> bool \<times> core_world" where
  "refresh_service_readiness_for_handoff env w =
     (let w1 = tick env RefreshProbe (is_ok (version_answer env (clock w))) w;
          (r, s) = confirm_ready (svc_contract env) (version_answer env (clock w)) (cstore w1)
      in (is_ok r \<and> service_usable (snapshot s), w1\<lparr>cstore := s\<rparr>))"

definition handoff_locked :: "core_env \<Rightarrow> core_world \<Rightarrow> handoff_outcome \<times> core_world" where
  "handoff_locked env w =
     (if running w \<noteq> ModeSidecar \<or> \<not> tun_enabled w \<or> sidecar_allowed (snapshot (cstore w)) then (HandoffDone, w)
      else case stop_sidecar_after_proxy_clear env w of
          (Inl _, w1) \<Rightarrow> (HandoffFailed, w1)
        | (Inr _, w1) \<Rightarrow>
            (case run_ready_core_start_transition (start_core_by_service env)
                    service_core_ready (apply_proxy_after_start env) w1 of
               (Inr _, w2) \<Rightarrow> (HandoffDone, w2)
             | (Inl _, w2) \<Rightarrow>
                 (case controlled_stop_core_with_intent env ClearProxy w2 of
                    (Inl _, w3) \<Rightarrow> (HandoffFailed, w3)
                  | (Inr _, w3) \<Rightarrow>
                      (case run_ready_core_start_transition (start_core_by_sidecar env) sidecar_ready
                              (apply_proxy_after_start env) w3 of
                         (Inr _, w4) \<Rightarrow> (HandoffFailed, w4)
                       | (Inl _, w4) \<Rightarrow> (HandoffFailed, snd (rollback_failed_sidecar_transition env w4))))))"

text \<open>\<open>before_lock\<close>: what happens between the probe and the moment the lifecycle lock is taken.\<close>

definition try_handoff_sidecar_to_service :: "core_env \<Rightarrow> (core_world \<Rightarrow> core_world) \<Rightarrow> core_world \<Rightarrow> handoff_outcome \<times> core_world" where
  "try_handoff_sidecar_to_service env before_lock w =
     (if sidecar_allowed (snapshot (cstore w)) then (HandoffDone, w)
      else let (usable, w1) = refresh_service_readiness_for_handoff env w
      in if \<not> usable then (HandoffNotReady, w1)
         else let (free, w2) = try_start_config_update w1
         in if \<not> free then (HandoffNotReady, w2)
            else let (out, w3) = handoff_locked env (before_lock w2) in (out, finish_config_update w3))"

text \<open>
  The watcher tries again every two seconds for two minutes.  A round brings its environment and what
  happened while the watcher slept and waited for the lock; running out of rounds is the end of the
  window.
\<close>

definition handoff_rounds :: nat where
  "handoff_rounds = 120 div 2"

fun handoff_watcher_loop :: "nat \<Rightarrow> (core_env \<times> (core_world \<Rightarrow> core_world) \<times> (core_world \<Rightarrow> core_world)) list
    \<Rightarrow> core_world \<Rightarrow> core_world" where
  "handoff_watcher_loop (Suc n) ((env, slept, before_lock) # rounds) w =
     (let w1 = slept w
      in if running w1 \<noteq> ModeSidecar then w1\<lparr>handoff_watching := False\<rparr>
         else (case try_handoff_sidecar_to_service env before_lock w1 of
             (HandoffNotReady, w2) \<Rightarrow> handoff_watcher_loop n rounds w2
           | (_, w2) \<Rightarrow> w2\<lparr>handoff_watching := False\<rparr>))"
| "handoff_watcher_loop _ _ w = w\<lparr>handoff_watching := False\<rparr>"

lemma handoff_watcher_ends: "\<not> handoff_watching (handoff_watcher_loop n rounds w)"
  by (induction n rounds w rule: handoff_watcher_loop.induct)
    (auto simp: Let_def split: prod.splits handoff_outcome.splits)

subsection \<open>Initialisation\<close>

definition max_port_fallback_retries :: nat where
  "max_port_fallback_retries = 3"

definition notify_port_fallback :: "core_world \<Rightarrow> core_world" where
  "notify_port_fallback w = log_call (Notice ''mixed-port-fallback'') True w"

fun init_loop :: "core_env \<Rightarrow> nat \<Rightarrow> core_world \<Rightarrow> bool outcome \<times> core_world" where
  "init_loop env 0 w =
     (case start_core env w of
        (Inr _, w1) \<Rightarrow> (Inr (running w1 \<noteq> NotRunning), notify_port_fallback w1)
      | (Inl e, w1) \<Rightarrow> (Inl e, notify_port_fallback w1))"
| "init_loop env (Suc retries_left) w =
     (case start_core env w of
        (Inr _, w1) \<Rightarrow> (Inr (running w1 \<noteq> NotRunning), notify_port_fallback w1)
      | (Inl e, w1) \<Rightarrow>
          (if running w1 \<noteq> NotRunning then (Inl e, notify_port_fallback w1)
           else case port_fallback env (clock w1) of
               Inr True \<Rightarrow> init_loop env retries_left w1
             | Inr False \<Rightarrow> (Inl e, notify_port_fallback w1)
             | Inl fallback_error \<Rightarrow>
                 (Inl (add_context (Text (''the mixed proxy port fallback did not rescue core startup: '' @ show_chain fallback_error)) e),
                  log_call (Notice ''block-startup-core'') True w1)))"

definition init :: "core_env \<Rightarrow> string option \<Rightarrow> core_world \<Rightarrow> bool outcome \<times> core_world" where
  "init env blocked w =
     (case blocked of
        Some reason \<Rightarrow> (Inl (bail (''core startup blocked after mixed proxy port fallback failure: '' @ reason)), w)
      | None \<Rightarrow> init_loop env max_port_fallback_retries w)"

subsection \<open>Steps that leave the running core alone\<close>

definition same_core :: "core_world \<Rightarrow> core_world \<Rightarrow> bool" where
  "same_core w w' \<longleftrightarrow> running w' = running w \<and> child_sidecar w' = child_sidecar w
     \<and> config_updating w' = config_updating w \<and> (readiness w = None \<longrightarrow> readiness w' = None)"

lemma same_core_refl [simp]: "same_core w w"
  by (simp add: same_core_def)

lemma same_core_trans [trans]: "same_core a b \<Longrightarrow> same_core b c \<Longrightarrow> same_core a c"
  by (auto simp: same_core_def)

lemma same_core_consistent: "same_core w w' \<Longrightarrow> consistent w \<Longrightarrow> consistent w'"
  by (auto simp: same_core_def consistent_def)

lemma same_core_at_rest: "same_core w w' \<Longrightarrow> at_rest w \<Longrightarrow> at_rest w'"
  by (auto simp: same_core_def at_rest_def)

lemma same_core_tick [simp]: "same_core w (tick env c ok w)"
  by (simp add: same_core_def)

lemma same_core_store [simp]: "st_mode s = running w \<Longrightarrow> same_core w (w\<lparr>cstore := s\<rparr>)"
  by (simp add: same_core_def)

lemma same_core_log [simp]: "same_core w (log_call c ok w)"
  by (simp add: same_core_def)

lemma store_mode_kept [simp]:
  "st_mode (snd (withdraw_sidecar_allowance s)) = st_mode s"
  "st_mode (snd (allow_sidecar_for_session s)) = st_mode s"
  "st_mode (snd (allow_sidecar_after_service_refusal r s)) = st_mode s"
  "st_mode (snd (require_install_for_session s)) = st_mode s"
  using store_step_mode [of OWithdraw s] store_step_mode [of OAllowSession s]
    store_step_mode [of "OAfterRefusal r" s] store_step_mode [of ORequireInstall s]
  by simp_all

lemma record_reply_mode [simp]: "st_mode (snd (record_reply c r s)) = st_mode s"
  by (simp add: record_reply_def Let_def split: version_check.splits)

lemma await_loop_mode [simp]: "st_mode (snd (await_loop c f a n le s)) = st_mode s"
  by (induction c f a n le s rule: await_loop.induct) (auto split: sum.splits)

lemma await_ready_mode [simp]: "st_mode (snd (await_ready c f n s)) = st_mode s"
  by (simp add: await_ready_def)

lemma same_core_current [simp]: "same_core w (snd (current_status env w))"
  by (simp add: current_status_def Let_def)

lemma same_core_withdraw [simp]: "same_core w (withdraw_allowance w)"
  by (simp add: withdraw_allowance_def)

lemma same_core_unavailable [simp]: "same_core w (observe_unavailable r w)"
  by (simp add: observe_unavailable_def)

lemma same_core_watcher [simp]: "same_core w (spawn_service_handoff_watcher env w)"
  by (simp add: spawn_service_handoff_watcher_def same_core_def)

lemma same_core_wait: "same_core w (wait_for_service_if_needed env w)"
proof -
  obtain st w1 where c: "current_status env w = (st, w1)" by (rule prod.exhaust)
  with same_core_current [of w env] have 1: "same_core w w1" by simp
  have "same_core w1 (tick env RefreshProbe True w1\<lparr>cstore := snd (await_ready (svc_contract env) f n (cstore (tick env RefreshProbe True w1)))\<rparr>)" for f n
    by (rule same_core_trans [OF same_core_tick [of w1 env RefreshProbe True]]) simp
  from same_core_trans [OF 1 this] 1 c show ?thesis
    by (simp add: wait_for_service_if_needed_def Let_def)
qed

lemma same_core_prepare: "same_core w (snd (prepare_startup env w))"
proof -
  define w1 where "w1 = (if plat env = Windows then wait_for_service_if_needed env w else w)"
  have 1: "same_core w w1" by (simp add: w1_def same_core_wait)
  obtain st w2 where 2: "(if tun_enabled w1 then current_status env w1 else (Checking, w1)) = (st, w2)" by (rule prod.exhaust)
  have "w2 = w1 \<or> w2 = snd (current_status env w1)" using 2 by (metis prod.sel(2))
  then have s2: "same_core w1 w2" by auto
  obtain refused w3 where 3: "(if tun_enabled w1 \<and> st = StNotInstalled
      then let (r, s) = require_install_for_session (cstore w2) in (\<not> is_ok r, w2\<lparr>cstore := s\<rparr>) else (False, w2)) = (refused, w3)"
    by (rule prod.exhaust)
  obtain rq sq where q: "require_install_for_session (cstore w2) = (rq, sq)" by (rule prod.exhaust)
  then have "st_mode sq = running w2" using store_mode_kept(4) [of "cstore w2"] by simp
  then have s3: "same_core w2 w3" using 3 q by (auto split: if_splits)
  have "same_core w w3" using 1 s2 s3 same_core_trans by blast
  moreover have "same_core w3 (snd (current_status env w3))" by simp
  ultimately have "same_core w w3" "same_core w (snd (current_status env w3))" using same_core_trans by blast+
  moreover have "snd (prepare_startup env w) \<in> {w, w3, snd (current_status env w3)}"
    unfolding prepare_startup_def Let_def w1_def [symmetric] 2 prod.case
    using 3 [unfolded Let_def] by (auto split: prod.splits)
  ultimately show ?thesis by auto
qed

lemma same_core_clear_after_change: "same_core w (snd (clear_after_change env msg w))"
proof -
  have "same_core w (tick env GuardStop b (tick env ProxyClear a w))" for a b
    by (rule same_core_trans [OF same_core_tick same_core_tick])
  then show ?thesis by (simp add: clear_after_change_def call_ext_def Let_def split: sum.splits)
qed

lemma same_core_apply: "same_core w (snd (apply_proxy_after_start env w))"
proof (cases "capture (running w) (readiness w) (owner_gen w)")
  case None
  then show ?thesis by (simp add: apply_proxy_after_start_def)
next
  case (Some ex)
  let ?w1 = "tick env ProxyApply True w" and ?w2 = "tick env GuardRefresh True (tick env ProxyApply True w)"
  have 2: "same_core w ?w2" "same_core w (tick env GuardRefresh False ?w1)"
    by (rule same_core_trans [OF same_core_tick same_core_tick])+
  have l: "same_core w (log_call (Notice ''refresh-verge'') True ?w2)"
    by (rule same_core_trans [OF 2(1) same_core_log])
  have c: "same_core w (snd (clear_after_change env m ?w1))" "same_core w (snd (clear_after_change env m ?w2))" for m
    by (rule same_core_trans [OF _ same_core_clear_after_change]; simp add: 2)+
  from Some 2 l c show ?thesis
    by (simp add: apply_proxy_after_start_def try_then_def call_ext_def split: sum.splits)
qed

subsection \<open>Every operation keeps the world consistent\<close>

definition good :: "core_world \<Rightarrow> 'a outcome \<times> core_world \<Rightarrow> bool" where
  "good w0 x \<longleftrightarrow> consistent (snd x) \<and> config_updating (snd x) = config_updating w0"

definition good_start :: "core_world \<Rightarrow> unit outcome \<times> core_world \<Rightarrow> bool" where
  "good_start w0 x \<longleftrightarrow> good w0 x \<and> (\<not> is_ok (fst x) \<longrightarrow> at_rest (snd x))"

lemma start_outcome_good: "start_outcome m w x \<Longrightarrow> good_start w x"
  by (auto simp: start_outcome_def good_start_def good_def at_rest_iff split: if_splits)

lemma good_same: "good w0 x \<Longrightarrow> same_core (snd x) w' \<Longrightarrow> good w0 (r, w')"
  by (auto simp: good_def same_core_def consistent_def)

lemma same_core_good: "consistent w \<Longrightarrow> same_core w (snd x) \<Longrightarrow> good w x"
  by (auto simp: good_def same_core_def consistent_def)

lemma good_trans: "good w (r, w1) \<Longrightarrow> good w1 x \<Longrightarrow> good w x"
  by (simp add: good_def)

lemma rollback_failed_start_rest:
  "child_sidecar w = None \<Longrightarrow> at_rest (rollback_failed_start env w) \<and> config_updating (rollback_failed_start env w) = config_updating w"
  by (simp add: rollback_failed_start_def)

lemma start_sidecar_after_failure_good:
  assumes "at_rest w"
  shows "good_start w (start_sidecar_after_service_failure env e w)"
proof -
  obtain r s where a: "allow_sidecar_after_service_refusal (show_chain e) (cstore w) = (r, s)" by (rule prod.exhaust)
  then have s: "st_mode s = running w" using store_mode_kept(3) [of "show_chain e" "cstore w"] by simp
  then have w': "at_rest (w\<lparr>cstore := s\<rparr>)" using assms by (simp add: at_rest_def)
  obtain r1 w1 where b: "start_core_by_sidecar env (w\<lparr>cstore := s\<rparr>) = (r1, w1)" by (rule prod.exhaust)
  with start_core_by_sidecar_outcome [OF w', of env] have o: "start_outcome ModeSidecar w (r1, w1)"
    by (auto simp: start_outcome_def split: if_splits)
  have "child_sidecar (withdraw_allowance w1) = child_sidecar w1" "config_updating (withdraw_allowance w1) = config_updating w1"
    using same_core_withdraw [of w1] by (simp_all add: same_core_def)
  then have rb: "child_sidecar w1 = None \<Longrightarrow> at_rest (rollback_failed_start env (withdraw_allowance w1))"
    "child_sidecar w1 = None \<Longrightarrow> config_updating (rollback_failed_start env (withdraw_allowance w1)) = config_updating w1"
    using rollback_failed_start_rest by simp_all
  show ?thesis
  proof (cases "exiting env (clock w)")
    case True
    then show ?thesis using assms by (simp add: start_sidecar_after_service_failure_def good_start_def good_def at_rest_iff)
  next
    case False
    show ?thesis
    proof (cases r)
      case (Inl x)
      with False a w' show ?thesis
        by (simp add: start_sidecar_after_service_failure_def good_start_def good_def at_rest_iff)
    next
      case (Inr u)
      show ?thesis
      proof (cases r1)
        case (Inl x)
        with o have "at_rest w1" and cu: "config_updating w1 = config_updating w" by (simp_all add: start_outcome_def)
        then have c: "child_sidecar w1 = None" by (simp add: at_rest_def)
        from False a b Inr Inl rb(1) [OF c] rb(2) [OF c] cu show ?thesis
          by (simp add: start_sidecar_after_service_failure_def good_start_def good_def at_rest_iff)
      next
        case (Inr u')
        with o have "consistent w1" "config_updating w1 = config_updating w" by (simp_all add: start_outcome_def)
        with False a b \<open>r = Inr u\<close> Inr same_core_consistent [OF same_core_log] show ?thesis
          by (simp add: start_sidecar_after_service_failure_def good_start_def good_def)
      qed
    qed
  qed
qed

lemma good_start_base: "good_start w1 x \<Longrightarrow> config_updating w1 = config_updating w \<Longrightarrow> good_start w x"
  by (simp add: good_start_def good_def)

lemma try_sidecar_after_unavailable_good:
  assumes "at_rest w"
  shows "good_start w (try_sidecar_after_service_unavailable env w)"
proof -
  have g: "good_start w (Inr (), w)" "good_start w (Inr (), tick env CheckIdle b w)" for b
    using assms at_rest_tick [OF assms] by (simp_all add: good_start_def good_def at_rest_iff)
  have s: "good_start w (start_sidecar_after_service_failure env e (tick env CheckIdle True w))" for e
    by (rule good_start_base [OF start_sidecar_after_failure_good]) (simp_all add: assms)
  show ?thesis
    using g s by (auto simp: try_sidecar_after_service_unavailable_def call_ext_def Let_def split: option.splits sum.splits)
qed

lemma fallback_good:
  assumes "at_rest w"
  shows "good_start w (run_service_start_with_sidecar_fallback env (start_core_by_service env) (call_ext env CheckIdle)
     (start_sidecar_after_service_failure env) observe_unavailable w)"
proof -
  obtain r w1 where a: "start_core_by_service env w = (r, w1)" by (rule prod.exhaust)
  with start_core_by_service_outcome [OF assms, of env] have o: "start_outcome ModeService w (r, w1)" by simp
  show ?thesis
  proof (cases r)
    case (Inr u)
    with a start_outcome_good [OF o] show ?thesis by (simp add: run_service_start_with_sidecar_fallback_def)
  next
    case (Inl e)
    with o have w1: "at_rest w1" "config_updating w1 = config_updating w" by (simp_all add: start_outcome_def)
    have u: "at_rest (observe_unavailable t (tick env CheckIdle b w1))" "config_updating (observe_unavailable t (tick env CheckIdle b w1)) = config_updating w" for t b
      using w1 by (simp_all add: observe_unavailable_def at_rest_def)
    have s: "good_start w (start_sidecar_after_service_failure env e (tick env CheckIdle True w1))"
      by (rule good_start_base [OF start_sidecar_after_failure_good]) (simp_all add: w1)
    from w1(1) u(1) have c: "consistent w1" "\<And>t b. consistent (observe_unavailable t (tick env CheckIdle b w1))"
      by (simp_all add: at_rest_iff)
    have m: "good_start w (map_sum f id r', w') = good_start w (r', w')" for f and r' :: "unit outcome" and w'
      by (cases r') (simp_all add: good_start_def good_def)
    from Inl a w1 u s c show ?thesis
      by (auto simp: run_service_start_with_sidecar_fallback_def call_ext_def Let_def m good_start_def good_def
          split: sum.splits prod.splits option.splits)
  qed
qed

lemma start_core_inner_good:
  assumes "consistent w"
  shows "good w (start_core_inner env w)"
    "running w = NotRunning \<Longrightarrow> good_start w (start_core_inner env w)"
    "is_ok (fst (start_core_inner env w)) \<or> running w = NotRunning"
proof -
  have main: "good_start w (start_core_inner env w)" if n: "running w = NotRunning" "\<not> exiting env (clock w)"
  proof -
    obtain d w1 where p: "prepare_startup env w = (d, w1)" by (rule prod.exhaust)
    with same_core_prepare [of w env] have sc: "same_core w w1" by simp
    have w1: "at_rest w1" "config_updating w1 = config_updating w"
      using same_core_at_rest [OF sc] sc assms n(1) by (simp_all add: at_rest_iff same_core_def)
    have rb: "at_rest (rollback_failed_start env v)" "config_updating (rollback_failed_start env v) = config_updating v"
      if "at_rest v" for v using rollback_failed_start_rest [of v env] that by (simp_all add: at_rest_def)
    have wait: "good_start w (Inr (), rollback_failed_start env w1)"
      "good_start w (try_sidecar_after_service_unavailable env (rollback_failed_start env w1))"
      using rb [OF w1(1)] w1(2) good_start_base [OF try_sidecar_after_unavailable_good [OF rb(1) [OF w1(1)]]]
      by (simp_all add: good_start_def good_def at_rest_iff)
    have ex: "good_start w (Inr (), manager_core_stopped w1)"
      using w1 by (simp add: good_start_def good_def consistent_def at_rest_def)
    define x where "x = (if d = DecideService
           then if plat env = Windows
                then run_service_start_with_sidecar_fallback env (start_core_by_service env) (call_ext env CheckIdle)
                       (start_sidecar_after_service_failure env) observe_unavailable w1
                else start_core_by_service env w1
           else start_core_by_sidecar env w1)"
    have x: "good_start w x"
      unfolding x_def
      using good_start_base [OF fallback_good [OF w1(1)] w1(2)]
        good_start_base [OF start_outcome_good [OF start_core_by_service_outcome [OF w1(1)]] w1(2)]
        good_start_base [OF start_outcome_good [OF start_core_by_sidecar_outcome [OF w1(1)]] w1(2)]
      by (simp split: if_split)
    obtain r w2 where xr: "x = (r, w2)" by (rule prod.exhaust)
    have fin: "good_start w (if \<not> is_ok r then (r, rollback_failed_start env w2)
         else (r, if plat env = Windows \<and> running w2 = ModeSidecar then spawn_service_handoff_watcher env w2 else w2))"
    proof (cases "is_ok r")
      case False
      with x xr rb [of w2] show ?thesis by (auto simp: good_start_def good_def at_rest_iff)
    next
      case True
      with x xr good_same [of w x "spawn_service_handoff_watcher env w2" r] show ?thesis
        by (auto simp: good_start_def)
    qed
    have "start_core_inner env w = (if d = DecideWait
         then if plat env = Windows then try_sidecar_after_service_unavailable env (rollback_failed_start env w1)
              else (Inr (), rollback_failed_start env w1)
      else if exiting env (clock w1) then (Inr (), manager_core_stopped w1)
      else (if \<not> is_ok r then (r, rollback_failed_start env w2)
         else (r, if plat env = Windows \<and> running w2 = ModeSidecar then spawn_service_handoff_watcher env w2 else w2)))"
      unfolding start_core_inner_def p Let_def prod.case x_def [symmetric] xr using n by simp
    with wait ex fin show ?thesis by simp
  qed
  show "is_ok (fst (start_core_inner env w)) \<or> running w = NotRunning"
    by (simp add: start_core_inner_def)
  show gs: "good_start w (start_core_inner env w)" if "running w = NotRunning"
    using main [OF that] assms that
    by (cases "exiting env (clock w)") (simp_all add: start_core_inner_def good_start_def good_def)
  show "good w (start_core_inner env w)"
  proof (cases "running w = NotRunning")
    case True
    with gs show ?thesis by (simp add: good_start_def)
  next
    case False
    then show ?thesis using assms by (simp add: start_core_inner_def good_def)
  qed
qed

lemma good_try:
  assumes "good w0 x"
    and "\<And>v w1. consistent w1 \<Longrightarrow> config_updating w1 = config_updating w0 \<Longrightarrow> good w0 (k v w1)"
  shows "good w0 (try_then x k)"
  using assms by (cases x; cases "fst x") (auto simp: try_then_def good_def)

lemma good_result: "consistent w \<Longrightarrow> config_updating w = config_updating w0 \<Longrightarrow> good w0 (r, w)"
  by (simp add: good_def)

lemma good_call:
  assumes "consistent w" "config_updating w = config_updating w0"
  shows "good w0 (call_ext env c w)"
  using assms consistent_tick by (simp add: good_def call_ext_def)

lemma good_weaken: "good w1 x \<Longrightarrow> config_updating w1 = config_updating w0 \<Longrightarrow> good w0 x"
  by (simp add: good_def)

lemma good_parts: "good w0 (r, w) \<Longrightarrow> consistent w" "good w0 (r, w) \<Longrightarrow> config_updating w = config_updating w0"
  by (simp_all add: good_def)

lemma good_tick [simp]: "good w0 (r, tick env c ok w) \<longleftrightarrow> consistent (tick env c ok w) \<and> config_updating w = config_updating w0"
  by (simp add: good_def)

lemma good_apply: "consistent w \<Longrightarrow> config_updating w = config_updating w0 \<Longrightarrow> good w0 (apply_proxy_after_start env w)"
  by (rule good_weaken [OF same_core_good [OF _ same_core_apply]])

lemma stop_unprepared_outcome:
  assumes "consistent w"
  shows "stop_outcome w (stop_core_unprepared_inner env w)"
proof (cases "running w")
  case ModeService
  with stop_core_by_service_outcome [OF assms] show ?thesis by (simp add: stop_core_unprepared_inner_def)
next
  case ModeSidecar
  with stop_sidecar_at_rest [of env w] show ?thesis
    by (simp add: stop_core_unprepared_inner_def stop_outcome_def at_rest_iff)
next
  case NotRunning
  with assms show ?thesis by (simp add: stop_core_unprepared_inner_def stop_outcome_def at_rest_iff)
qed

lemma stop_outcome_base: "stop_outcome w1 x \<Longrightarrow> config_updating w1 = config_updating w \<Longrightarrow> stop_outcome w x"
  by (simp add: stop_outcome_def)

lemma controlled_stop_outcome:
  assumes "consistent w"
  shows "stop_outcome w (controlled_stop_core_with_intent env intent w)"
proof -
  have u: "stop_outcome w (stop_core_unprepared_inner env (tick env c b w))" for c b
    by (rule stop_outcome_base [OF stop_unprepared_outcome]) (simp_all add: assms)
  have c: "stop_outcome w (Inl e, tick env c b w)" for c b e
    using assms by (simp add: stop_outcome_def)
  show ?thesis
    using u c stop_unprepared_outcome [OF assms]
    by (simp add: controlled_stop_core_with_intent_def run_controlled_stop_transition_def try_then_def call_ext_def
        split: sum.splits)
qed

lemma stop_outcome_good: "stop_outcome w x \<Longrightarrow> good w x"
  by (simp add: stop_outcome_def good_def)

lemma stop_sidecar_after_clear:
  assumes "consistent w"
  shows "good w (stop_sidecar_after_proxy_clear env w)"
    "is_ok (fst (stop_sidecar_after_proxy_clear env w)) \<Longrightarrow> at_rest (snd (stop_sidecar_after_proxy_clear env w))"
  using stop_sidecar_at_rest [of env "tick env ProxyClear True w"] assms
  by (auto simp: stop_sidecar_after_proxy_clear_def run_sidecar_termination_transition_def try_then_def call_ext_def
      good_def at_rest_iff split: sum.splits)

lemma rollback_transition_good:
  assumes "consistent w"
  shows "good w (rollback_failed_sidecar_transition env w)"
    "is_ok (fst (rollback_failed_sidecar_transition env w)) \<Longrightarrow> at_rest (snd (rollback_failed_sidecar_transition env w))"
proof -
  let ?x = "if running w = ModeSidecar then stop_sidecar_after_proxy_clear env w else (Inr (), w)"
  obtain r w1 where x: "?x = (r, w1)" by (rule prod.exhaust)
  have g: "consistent w1" "config_updating w1 = config_updating w"
    using stop_sidecar_after_clear(1) [OF assms, of env] assms x by (auto simp: good_def split: if_splits)
  have c: "is_ok r \<Longrightarrow> child_sidecar w1 = None"
    using stop_sidecar_after_clear(2) [OF assms, of env] assms x by (auto simp: at_rest_def consistent_def split: if_splits)
  have e: "rollback_failed_sidecar_transition env w = try_then (r, w1) (\<lambda>_ w1. (Inr (), rollback_failed_start env w1))"
    unfolding rollback_failed_sidecar_transition_def x ..
  show "good w (rollback_failed_sidecar_transition env w)"
    "is_ok (fst (rollback_failed_sidecar_transition env w)) \<Longrightarrow> at_rest (snd (rollback_failed_sidecar_transition env w))"
    unfolding e using g c rollback_failed_start_rest [of w1 env]
    by (cases r; simp add: try_then_def good_def at_rest_iff)+
qed

lemma rolled_back_good: "consistent w \<Longrightarrow> config_updating w = config_updating w0 \<Longrightarrow> good w0 (rolled_back env e w)"
  using rollback_transition_good(1) [of w env] by (auto simp: rolled_back_def good_def split: sum.splits prod.splits)

lemma start_inner_good': "consistent w \<Longrightarrow> config_updating w = config_updating w0 \<Longrightarrow> good w0 (start_core_inner env w)"
  using start_core_inner_good(1) good_weaken by blast

lemma start_ready_sidecar_good:
  "consistent w \<Longrightarrow> config_updating w = config_updating w0 \<Longrightarrow> good w0 (start_ready_sidecar env msg w)"
  unfolding start_ready_sidecar_def
  by (intro good_try start_inner_good') (auto intro: good_apply good_result)

lemma start_during_update_good:
  "consistent w \<Longrightarrow> config_updating w = config_updating w0 \<Longrightarrow> good w0 (start_core_during_config_update env w)"
  unfolding start_core_during_config_update_def run_core_start_transition_def
  by (intro good_try start_inner_good') (auto intro: good_apply good_result)

lemma prepare_sidecar_config_good:
  assumes "consistent w" "config_updating w = config_updating w0"
  shows "good w0 (prepare_sidecar_config env w)"
proof -
  have c: "consistent (w\<lparr>tun_enabled := b\<rparr>)" for b using assms(1) by (simp add: consistent_def)
  show ?thesis
    unfolding prepare_sidecar_config_def disable_tun_and_persist_def
    using assms c by (intro good_try) (auto intro!: good_call simp: good_def call_ext_def split: if_splits)
qed

lemma withdraw_good: "good w0 (r, w) \<Longrightarrow> good w0 (r', withdraw_allowance w)"
  using good_same [of w0 "(r, w)" "withdraw_allowance w" r'] by simp

lemma controlled_stop_good:
  "consistent w \<Longrightarrow> config_updating w = config_updating w0 \<Longrightarrow> good w0 (controlled_stop_core_with_intent env intent w)"
  by (rule good_weaken [OF stop_outcome_good [OF controlled_stop_outcome]])

lemma restart_during_update_good:
  assumes "consistent w" "config_updating w = config_updating w0"
  shows "good w0 (restart_core_during_config_update env w)"
proof -
  obtain intent w1 where i: "stop_intent_now env w = (intent, w1)" by (rule prod.exhaust)
  have "same_core w w1"
    using i same_core_prepare [of w env] by (auto simp: stop_intent_now_def Let_def split: if_splits prod.splits)
  then have w1: "consistent w1" "config_updating w1 = config_updating w0"
    using assms by (auto simp: same_core_def consistent_def)
  show ?thesis
    unfolding restart_core_during_config_update_def i Let_def prod.case run_core_replacement_transition_def
    by (intro good_try controlled_stop_good start_inner_good' good_apply) (auto intro: good_result simp: w1)
qed

lemma service_ready_start_good:
  assumes "at_rest w" "config_updating w = config_updating w0"
    and "\<And>w1. consistent w1 \<Longrightarrow> config_updating w1 = config_updating w0 \<Longrightarrow> good w0 (apply w1)"
    and "start_outcome m w (start w)"
  shows "good w0 (run_ready_core_start_transition start ready apply w)"
proof -
  have "good w0 (start w)"
    by (rule good_weaken [OF _ assms(2)]) (use start_outcome_good [OF assms(4)] in \<open>simp add: good_start_def\<close>)
  then show ?thesis
    unfolding run_ready_core_start_transition_def
    by (rule good_try) (auto intro: good_result assms(3))
qed

lemma stopped_is_at_rest:
  assumes "consistent w" "config_updating w = config_updating w0"
    and "controlled_stop_core_with_intent env intent w = (Inr v, w1)"
  shows "at_rest w1" "config_updating w1 = config_updating w0"
  using controlled_stop_outcome [OF assms(1), of env intent] assms(2,3) by (simp_all add: stop_outcome_def)

lemma replace_service_core_good:
  assumes "consistent w" "running w = ModeService"
  shows "good w (replace_service_core_with_config env w)"
proof -
  have e: "run_controlled_stop_transition env ModeService ClearProxy (stop_core_unprepared_inner env) w
      = controlled_stop_core_with_intent env ClearProxy w"
    by (simp add: controlled_stop_core_with_intent_def assms(2))
  obtain r w1 where s: "controlled_stop_core_with_intent env ClearProxy w = (r, w1)" by (rule prod.exhaust)
  show ?thesis
  proof (cases r)
    case (Inl x)
    with s controlled_stop_good [OF assms(1) refl, of env ClearProxy] e show ?thesis
      by (simp add: replace_service_core_with_config_def run_service_config_replacement_transition_def try_then_def good_def)
  next
    case (Inr v)
    with stopped_is_at_rest [OF assms(1) refl, of env ClearProxy v w1] s have w1: "at_rest w1" "config_updating w1 = config_updating w"
      by simp_all
    have "good w (run_ready_core_start_transition (start_core_by_service_with_config env)
        service_core_ready (apply_proxy_after_start env) w1)"
      using start_core_by_service_with_config_outcome [OF w1(1), of env]
      by (intro service_ready_start_good [OF w1, where m = ModeService] good_apply)
    with s e Inr show ?thesis
      by (simp add: replace_service_core_with_config_def run_service_config_replacement_transition_def try_then_def)
  qed
qed

lemma allow_sidecar_now_good:
  assumes "consistent w" "config_updating w = config_updating w0"
  shows "good w0 (allow_sidecar_now st w)"
proof -
  obtain r s where a: "allow_sidecar_for_session (cstore w) = (r, s)" by (rule prod.exhaust)
  then have "st_mode s = running w" using store_mode_kept(2) [of "cstore w"] by simp
  then have "same_core w (w\<lparr>cstore := s\<rparr>)" by simp
  with assms a show ?thesis
    by (auto simp: allow_sidecar_now_def good_def same_core_def consistent_def)
qed

lemma continue_body_good:
  assumes "consistent w" "config_updating w = config_updating w0"
  shows "good w0 (continue_body env w)"
proof -
  obtain st w1 where c: "current_status env w = (st, w1)" by (rule prod.exhaust)
  with same_core_current [of w env] have "same_core w w1" by simp
  with assms have w1: "consistent w1" "config_updating w1 = config_updating w0"
    by (auto simp: same_core_def consistent_def)
  have tail: "good w0 (case prepare_sidecar_config env w3 of
        (Inl e, w4) \<Rightarrow> (Inl e, withdraw_allowance w4)
      | (Inr _, w4) \<Rightarrow>
          (case start_ready_sidecar env ''Sidecar did not become ready'' (snd (call_ext env GuardStop w4)) of
             (Inr _, w5) \<Rightarrow> (Inr (), w5)
           | (Inl e, w5) \<Rightarrow> rolled_back env e (withdraw_allowance w5)))"
    if w3: "consistent w3" "config_updating w3 = config_updating w0" for w3
  proof -
    obtain r w4 where p: "prepare_sidecar_config env w3 = (r, w4)" by (rule prod.exhaust)
    with prepare_sidecar_config_good [OF w3, of env] have g4: "good w0 (r, w4)" by simp
    let ?w4 = "snd (call_ext env GuardStop w4)"
    have w4: "consistent ?w4" "config_updating ?w4 = config_updating w0" using g4 by (simp_all add: good_def)
    obtain r' w5 where q: "start_ready_sidecar env ''Sidecar did not become ready'' ?w4 = (r', w5)" by (rule prod.exhaust)
    with start_ready_sidecar_good [OF w4, of env "''Sidecar did not become ready''"] have g5: "good w0 (r', w5)" by simp
    from withdraw_good [OF g5, of r'] have w5: "consistent (withdraw_allowance w5)" "config_updating (withdraw_allowance w5) = config_updating w0"
      by (simp_all add: good_def)
    show ?thesis
      using p q withdraw_good [OF g4] rolled_back_good [OF w5] g5
      by (cases r; cases r') (simp_all add: good_def)
  qed
  show ?thesis
    unfolding continue_body_def c Let_def prod.case
    using good_try [OF _ good_try [OF allow_sidecar_now_good tail]] w1
    by (auto intro!: good_try [OF _ good_try [OF allow_sidecar_now_good tail]] good_call good_result split: if_split)
qed

lemma fold_store_mode: "\<forall>op\<in>set ops. \<not> is_mode_op op \<Longrightarrow> st_mode (fold store_step ops s) = st_mode s"
  by (induction ops arbitrary: s) (simp_all add: store_step_mode)

lemma during_probe_mode:
  assumes "\<And>s. st_mode (during_probe a s) = st_mode s"
  shows "st_mode (snd (handle_service_status a st s)) = st_mode s"
proof -
  have req: "st_mode (snd (request_action x t)) = st_mode t" and rst: "st_mode (snd (restore_sidecar_allowance t)) = st_mode t"
    and acc: "st_mode (accept_sidecar t) = st_mode t" for x t
    using store_step_mode [of "ORequest x" t] store_step_mode [of ORestore t] store_step_mode [of OAcceptSidecar t] by simp_all
  have com: "st_mode (snd (commit_reserved_observation h r t)) = st_mode t" for h r t
    using store_step_mode [of "OCommit h r" t] by simp
  have perf: "st_mode (snd (perform c x oc ev rp (during_probe a) t)) = st_mode t" for c x oc ev rp t
    by (cases oc) (auto simp: perform_def observe_current_health_def reserve_health_observation_def com assms
        next_observation_def split: unit.split)
  have wait: "st_mode (snd (wait_for_service_ipc c f t)) = st_mode t" for c f t
  proof -
    obtain r t' where "await_ready c f ready_attempts t = (r, t')" by (rule prod.exhaust)
    with await_ready_mode [of c f ready_attempts t] show ?thesis
      by (cases r) (simp_all add: wait_for_service_ipc_def split: run_error.splits)
  qed
  have pw: "st_mode (snd (perform_and_wait a x t)) = st_mode t" for x t
  proof -
    obtain r t' where "perform (contract a) x (privileged_outcome a) (evidence a) (reprobe a) (during_probe a) t = (r, t')"
      by (rule prod.exhaust)
    with perf [of "contract a" x "privileged_outcome a" "evidence a" "reprobe a" t] wait [of "contract a" "wait_replies a" t']
    show ?thesis by (cases r) (simp_all add: perform_and_wait_def)
  qed
  have "st_mode (snd (apply_service_status a st t)) = st_mode t" for t
  proof (cases "requested_action st")
    case None
    have "st_mode (record_status st t) = st_mode t"
      by (cases st) (simp_all add: record_status_def requested_action_def req acc)
    with None show ?thesis by (simp add: apply_service_status_def)
  next
    case (Some x)
    obtain b t1 where r: "request_action x t = (b, t1)" by (rule prod.exhaust)
    obtain o' t2 where p: "perform_and_wait a x t1 = (o', t2)" by (rule prod.exhaust)
    have "st_mode t2 = st_mode t" using r p req [of x t] pw [of x t1] by simp
    with Some r p rst [of t2] show ?thesis
      by (simp add: apply_service_status_def run_action_restoring_sidecar_def)
  qed
  then show ?thesis unfolding handle_service_status_def by (intro run_operation_mode) simp_all
qed

lemma uninstall_service_same_core: "same_core w (snd (uninstall_service env w))"
proof -
  let ?a = "(action_answer env (clock w))\<lparr>during_probe :=
      (\<lambda>s. fold store_step (filter (\<lambda>op. \<not> is_mode_op op) (action_ops env (clock w))) s)\<rparr>"
  obtain r s where h: "handle_service_status ?a UninstallRequired (cstore (tick env ServiceAction True w)) = (r, s)"
    by (rule prod.exhaust)
  have "st_mode (during_probe ?a t) = st_mode t" for t by (simp add: fold_store_mode)
  from during_probe_mode [OF this, of UninstallRequired "cstore (tick env ServiceAction True w)"] h
  have "st_mode s = running w" by simp
  then have "same_core w (tick env ServiceAction True w\<lparr>cstore := s\<rparr>)" by (simp add: same_core_def)
  with h show ?thesis by (simp add: uninstall_service_def Let_def)
qed

lemma uninstall_body_good:
  assumes "consistent w" "config_updating w = config_updating w0"
  shows "good w0 (uninstall_body env w)"
  unfolding uninstall_body_def
proof (intro good_try controlled_stop_good assms)
  fix w1
  assume w1: "consistent w1" "config_updating w1 = config_updating w0"
  obtain r w2 where u: "run_uninstall_transition (uninstall_service env) (prepare_sidecar_config env)
      (start_ready_sidecar env ''Sidecar did not become ready after service uninstall'') w1 = (r, w2)" by (rule prod.exhaust)
  have "good w0 (r, w2)"
    unfolding u [symmetric] run_uninstall_transition_def
    by (intro good_try good_weaken [OF same_core_good [OF w1(1) uninstall_service_same_core] w1(2)]
        prepare_sidecar_config_good start_ready_sidecar_good)
  then have w2: "consistent w2" "config_updating w2 = config_updating w0" by (simp_all add: good_def)
  then show "good w0 (case run_uninstall_transition (uninstall_service env) (prepare_sidecar_config env)
      (start_ready_sidecar env ''Sidecar did not become ready after service uninstall'') w1 of
        (Inl e, w2) \<Rightarrow> rolled_back env e w2 | (Inr _, w2) \<Rightarrow> (Inr (), w2))"
    unfolding u using rolled_back_good [OF w2] by (cases r) (simp_all add: good_def)
qed

lemma handoff_locked_good:
  assumes "consistent w"
  shows "consistent (snd (handoff_locked env w))"
proof -
  obtain r w1 where a: "stop_sidecar_after_proxy_clear env w = (r, w1)" by (rule prod.exhaust)
  obtain r2 w2 where b: "run_ready_core_start_transition (start_core_by_service env) service_core_ready (apply_proxy_after_start env) w1 = (r2, w2)"
    by (rule prod.exhaust)
  obtain r3 w3 where c: "controlled_stop_core_with_intent env ClearProxy w2 = (r3, w3)" by (rule prod.exhaust)
  obtain r4 w4 where d: "run_ready_core_start_transition (start_core_by_sidecar env) sidecar_ready (apply_proxy_after_start env) w3 = (r4, w4)"
    by (rule prod.exhaust)
  have w1: "consistent w1" "is_ok r \<Longrightarrow> at_rest w1"
    using stop_sidecar_after_clear [OF assms, of env] a by (simp_all add: good_def)
  have w2: "consistent w2" if "is_ok r"
  proof -
    have "good w1 (r2, w2)" unfolding b [symmetric]
      using start_core_by_service_outcome [OF w1(2) [OF that], of env]
      by (intro service_ready_start_good [OF w1(2) [OF that] refl, where m = ModeService] good_apply)
    then show ?thesis by (simp add: good_def)
  qed
  have w3: "consistent w3" "is_ok r3 \<Longrightarrow> at_rest w3" if "is_ok r"
    using controlled_stop_outcome [OF w2 [OF that], of env ClearProxy] c by (simp_all add: stop_outcome_def)
  have w4: "consistent w4" if "is_ok r" "is_ok r3"
  proof -
    have "good w3 (r4, w4)" unfolding d [symmetric]
      using start_core_by_sidecar_outcome [OF w3(2) [OF that], of env]
      by (intro service_ready_start_good [OF w3(2) [OF that] refl, where m = ModeSidecar] good_apply)
    then show ?thesis by (simp add: good_def)
  qed
  have w5: "consistent (snd (rollback_failed_sidecar_transition env w4))" if "is_ok r" "is_ok r3"
    using rollback_transition_good(1) [OF w4 [OF that], of env] by (simp add: good_def)
  show ?thesis
    using assms w1 w2 w3 w4 w5
    by (cases r; cases r2; cases r3; cases r4) (simp_all add: handoff_locked_def a b c d)
qed

lemma with_config_update_consistent:
  assumes "\<And>v. consistent v \<Longrightarrow> consistent (snd (body v))" and "consistent w"
  shows "consistent (snd (with_config_update body w))"
proof -
  have t: "consistent (w\<lparr>config_updating := True\<rparr>)" using assms(2) by (simp add: consistent_def)
  obtain r w2 where b: "body (w\<lparr>config_updating := True\<rparr>) = (r, w2)" by (rule prod.exhaust)
  with assms(1) [OF t] have "consistent w2" by simp
  then have "consistent (finish_config_update w2)" by (simp add: consistent_def finish_config_update_def)
  with t b show ?thesis by (simp add: with_config_update_def try_start_config_update_def)
qed

lemma with_config_update_flag:
  "config_updating w = False \<Longrightarrow> \<not> config_updating (snd (with_config_update body w))"
  "config_updating w \<Longrightarrow> with_config_update body w = (Inl (bail ''configuration update is already running''), w)"
  by (simp_all add: with_config_update_def try_start_config_update_def finish_config_update_def split: prod.splits)

lemma good_consistent: "good w0 x \<Longrightarrow> consistent (snd x)"
  by (simp add: good_def)

lemma flagged_consistent:
  assumes "consistent w"
  shows "consistent (snd (start_core env w))" "consistent (snd (restart_core env w))"
    "consistent (snd (continue_with_sidecar env w))" "consistent (snd (uninstall_service_and_start_sidecar env w))"
  unfolding start_core_def restart_core_def continue_with_sidecar_def uninstall_service_and_start_sidecar_def
  by (intro with_config_update_consistent assms;
      rule good_consistent [OF start_during_update_good] good_consistent [OF restart_during_update_good]
        good_consistent [OF continue_body_good] good_consistent [OF uninstall_body_good]; (assumption | rule refl))+

lemma log_consistent [simp]: "consistent (log_call c ok w) = consistent w" "consistent (notify_port_fallback w) = consistent w"
  by (simp_all add: consistent_def notify_port_fallback_def)

lemma init_loop_consistent: "consistent w \<Longrightarrow> consistent (snd (init_loop env n w))"
proof (induction n arbitrary: w)
  case 0
  with flagged_consistent(1) [of w env] show ?case by (auto split: prod.splits sum.splits)
next
  case (Suc n)
  obtain r w1 where s: "start_core env w = (r, w1)" by (rule prod.exhaust)
  with flagged_consistent(1) [OF Suc.prems, of env] have "consistent w1" by simp
  with s Suc.IH [of w1] show ?case by (auto split: sum.splits bool.splits)
qed

subsection \<open>Runs\<close>

datatype lifecycle_op =
    LInit "string option" | LStart | LStop | LRestart | LContinueWithSidecar | LUninstall | LReplaceServiceCore
  | LHandoff "interference list" | LSidecarTerminated u32
  | LOwnerLoss u64 owner_recovery_reason "string option" "interference list" | LOthers "interference list"

text \<open>The core is replaced in place only while the service runs it.\<close>

fun lifecycle_step :: "core_env \<Rightarrow> lifecycle_op \<Rightarrow> core_world \<Rightarrow> core_world" where
  "lifecycle_step env (LInit blocked) w = snd (init env blocked w)"
| "lifecycle_step env LStart w = snd (start_core env w)"
| "lifecycle_step env LStop w = snd (stop_core env w)"
| "lifecycle_step env LRestart w = snd (restart_core env w)"
| "lifecycle_step env LContinueWithSidecar w = snd (continue_with_sidecar env w)"
| "lifecycle_step env LUninstall w = snd (uninstall_service_and_start_sidecar env w)"
| "lifecycle_step env LReplaceServiceCore w =
     (if running w = ModeService then snd (replace_service_core_with_config env w) else w)"
| "lifecycle_step env (LHandoff xs) w = snd (try_handoff_sidecar_to_service env (interfere xs) w)"
| "lifecycle_step env (LSidecarTerminated pid) w = clear_terminated_sidecar env pid w"
| "lifecycle_step env (LOwnerLoss gen reason detail xs) w = recover_after_owner_loss env gen reason detail (interfere xs) w"
| "lifecycle_step env (LOthers xs) w = interfere xs w"

fun lifecycle_run :: "(core_env \<times> lifecycle_op) list \<Rightarrow> core_world \<Rightarrow> core_world" where
  "lifecycle_run [] w = w"
| "lifecycle_run ((env, op) # ops) w = lifecycle_run ops (lifecycle_step env op w)"

definition world_new :: "bool \<Rightarrow> bool \<Rightarrow> core_world" where
  "world_new admin tun = \<lparr>cstore = store_new admin, ready_word = 0, startup_error = None, child_sidecar = None,
     sidecar_exit = None, job_handle = False, config_updating = False, handoff_watching = False, owner_gen = 0,
     session = None, tun_enabled = tun, umask_narrowed = False, clock = 0, calls = []\<rparr>"

lemma try_handoff_consistent:
  assumes "consistent w"
  shows "consistent (snd (try_handoff_sidecar_to_service env (interfere xs) w))"
proof -
  obtain u w1 where r: "refresh_service_readiness_for_handoff env w = (u, w1)" by (rule prod.exhaust)
  let ?t = "tick env RefreshProbe (is_ok (version_answer env (clock w))) w"
  obtain x s where x: "confirm_ready (svc_contract env) (version_answer env (clock w)) (cstore ?t) = (x, s)"
    by (rule prod.exhaust)
  have "st_mode (snd (confirm_ready c rp t)) = st_mode t" for c rp t
    by (cases rp) (simp_all add: confirm_ready_def probe_def split_beta)
  from this [of "svc_contract env" "version_answer env (clock w)" "cstore ?t"] x have "st_mode s = running w" by simp
  then have "same_core w w1"
    using r x by (simp add: refresh_service_readiness_for_handoff_def same_core_def) auto
  with assms have "consistent w1" using same_core_consistent by blast
  then have w2: "consistent (w1\<lparr>config_updating := True\<rparr>)" by (simp add: consistent_def)
  obtain out w3 where o: "handoff_locked env (interfere xs (w1\<lparr>config_updating := True\<rparr>)) = (out, w3)"
    by (rule prod.exhaust)
  have "consistent w3"
    using handoff_locked_good [OF interfere_consistent [OF w2, of xs], of env] unfolding o by simp
  then have h: "consistent (finish_config_update w3)"
    by (simp add: consistent_def finish_config_update_def)
  show ?thesis
    using r assms \<open>consistent w1\<close> w2 h o
    by (simp add: try_handoff_sidecar_to_service_def try_start_config_update_def)
qed

lemma lifecycle_step_consistent: "consistent w \<Longrightarrow> consistent (lifecycle_step env op w)"
proof (cases op)
  case (LInit blocked)
  assume "consistent w"
  with LInit init_loop_consistent show ?thesis by (simp add: init_def split: option.splits)
next
  case LStop
  assume "consistent w"
  with LStop stop_outcome_good [OF controlled_stop_outcome, of w env ClearProxy] show ?thesis by (simp add: stop_core_def good_def)
next
  case LReplaceServiceCore
  assume "consistent w"
  with LReplaceServiceCore replace_service_core_good [of w env] show ?thesis by (simp add: good_def)
qed (simp_all add: flagged_consistent try_handoff_consistent clear_terminated_sidecar_consistent
    recover_after_owner_loss_consistent interfere_consistent)

lemma with_config_update_free: "\<not> config_updating w \<Longrightarrow> \<not> config_updating (snd (with_config_update body w))"
  using with_config_update_flag(1) [of w body] by simp

lemma init_loop_free: "\<not> config_updating w \<Longrightarrow> \<not> config_updating (snd (init_loop env n w))"
proof (induction n arbitrary: w)
  case 0
  obtain r w1 where s: "start_core env w = (r, w1)" by (rule prod.exhaust)
  with with_config_update_free [OF 0, of "start_core_during_config_update env"] have "\<not> config_updating w1"
    by (simp add: start_core_def)
  with s show ?case by (cases r) (simp_all add: notify_port_fallback_def)
next
  case (Suc n)
  obtain r w1 where s: "start_core env w = (r, w1)" by (rule prod.exhaust)
  with with_config_update_free [OF Suc.prems, of "start_core_during_config_update env"] have "\<not> config_updating w1"
    by (simp add: start_core_def)
  with s Suc.IH [of w1] show ?case by (cases r) (auto simp: notify_port_fallback_def split: sum.splits bool.splits)
qed

lemma try_handoff_free:
  assumes "\<not> config_updating w"
  shows "\<not> config_updating (snd (try_handoff_sidecar_to_service env before w))"
proof -
  obtain u w1 where r: "refresh_service_readiness_for_handoff env w = (u, w1)" by (rule prod.exhaust)
  then have "config_updating w1 = config_updating w"
    by (auto simp: refresh_service_readiness_for_handoff_def Let_def split: prod.splits)
  with r assms show ?thesis
    by (simp add: try_handoff_sidecar_to_service_def try_start_config_update_def finish_config_update_def split: prod.splits)
qed

lemma recover_free:
  assumes "\<And>v. config_updating (during v) = config_updating v"
  shows "config_updating (recover_after_owner_loss env gen reason detail during w) = config_updating w"
  by (simp add: recover_after_owner_loss_def recover_locked_frame assms Let_def record_startup_error_def
      split: option.splits owner_recovery_reason.splits prod.splits)

lemma lifecycle_step_free:
  assumes "consistent w" "\<not> config_updating w"
  shows "\<not> config_updating (lifecycle_step env op w)"
proof (cases op)
  case LStop
  with assms stop_outcome_good [OF controlled_stop_outcome, of w env ClearProxy] show ?thesis by (simp add: stop_core_def good_def)
next
  case LReplaceServiceCore
  with assms replace_service_core_good [of w env] show ?thesis by (simp add: good_def)
qed (use assms in \<open>simp_all add: init_def init_loop_free start_core_def restart_core_def continue_with_sidecar_def
    uninstall_service_and_start_sidecar_def with_config_update_free try_handoff_free clear_terminated_sidecar_def
    take_child_sidecar_def recover_free frame_simps Let_def split: option.split\<close>)

text \<open>
  C1: after any sequence of lifecycle operations, whatever the outside world answers and the other
  tasks do in between, the app believes a sidecar runs exactly when it holds its process, a core that
  is not running is not ready, and no operation has left the configuration-update flag taken.
\<close>

theorem lifecycle_mode_matches_process:
  "let w = lifecycle_run ops (world_new admin tun)
   in (running w = ModeSidecar \<longleftrightarrow> child_sidecar w \<noteq> None) \<and> \<not> (running w = NotRunning \<and> readiness w \<noteq> None)
      \<and> \<not> config_updating w"
proof -
  have run: "consistent w \<Longrightarrow> \<not> config_updating w \<Longrightarrow> consistent (lifecycle_run ops w) \<and> \<not> config_updating (lifecycle_run ops w)" for w
  proof (induction ops arbitrary: w)
    case (Cons x ops)
    then show ?case by (cases x) (simp add: lifecycle_step_consistent lifecycle_step_free)
  qed simp
  have "active_core_readiness_generation 0 = None"
    by (simp add: active_core_readiness_generation_def)
  then have "consistent (world_new admin tun)" "\<not> config_updating (world_new admin tun)"
    by (simp_all add: consistent_def world_new_def store_new_def)
  from run [OF this] show ?thesis by (auto simp: consistent_def Let_def)
qed

end
