(* ===== verification/LifecycleProps.thy ===== *)
theory LifecycleProps
  imports Lifecycle
begin

section \<open>What the lifecycle promises about starts, stops and the system proxy\<close>

text \<open>
  Properties of \<open>core/manager/lifecycle.rs\<close> over the operations of \<open>Lifecycle\<close>: failed starts,
  stops that must wait for the proxy, the proxy applied only for the core it was meant for, and when
  the sidecar may stand in for the service.
\<close>

text \<open>An environment in which everything succeeds and nobody interferes, for the witnesses.\<close>

definition quiet_env :: "platform \<Rightarrow> (call \<Rightarrow> nat \<Rightarrow> unit outcome) \<Rightarrow> core_env" where
  "quiet_env p ans = \<lparr>plat = p, internal_test = True,
     svc_contract = \<lparr>service_version = [], client_epoch = 1, min_revision = 1, supports_client = (\<lambda>_. True)\<rparr>,
     code_not_active = 1, code_stale_session = 2, code_invalid_asset = 3, code_invalid_location = 4,
     code_root_not_owned = 5, answer = ans, others = (\<lambda>_. []), exiting = (\<lambda>_. False), app_elevated = (\<lambda>_. False),
     child_shared = (\<lambda>_. False), new_pid = (\<lambda>_. 42), token_at = (\<lambda>_. []), version_answer = (\<lambda>_. Inl []),
     wait_budget = (\<lambda>_. 0), start_answer = (\<lambda>_. Inl []), stop_answer = (\<lambda>_. Inl []),
     action_answer = (\<lambda>_. \<lparr>contract = \<lparr>service_version = [], client_epoch = 1, min_revision = 1, supports_client = (\<lambda>_. True)\<rparr>,
        privileged_outcome = Inr (), evidence = Inr False, reprobe = Inl [], wait_replies = (\<lambda>_. Inl []), during_probe = id\<rparr>),
     action_ops = (\<lambda>_. []), port_fallback = (\<lambda>_. Inr False), waits_for_network = (\<lambda>_. False)\<rparr>"

lemma interfere_none [simp]: "interfere [] w = w"
  by (simp add: interfere_def)

lemma consistent_new: "consistent (world_new admin tun)" "running (world_new admin tun) = NotRunning"
  by (simp_all add: consistent_def world_new_def store_new_def active_core_readiness_generation_def)

text \<open>
  C2: a start that fails, on any path, leaves nothing running, holds no process and shows no core as
  ready.
\<close>

theorem failed_start_leaves_nothing_running:
  assumes "consistent w" and "start_core_inner env w = (Inl e, w')"
  shows "running w' = NotRunning \<and> child_sidecar w' = None \<and> readiness w' = None"
proof -
  have "running w = NotRunning" using start_core_inner_good(3) [OF assms(1), of env] assms(2) by simp
  from start_core_inner_good(2) [OF assms(1) this, of env] assms(2) show ?thesis
    by (simp add: good_start_def at_rest_def)
qed

theorem failed_start_leaves_nothing_running_witness:
  "let (r, w) = start_core_inner (quiet_env Linux (\<lambda>c t. if c = Spawn then Inl [Text ''no such file''] else Inr ())) (world_new False False)
   in \<not> is_ok r \<and> running w = NotRunning"
proof -
  let ?env = "quiet_env Linux (\<lambda>c t. if c = Spawn then Inl [Text ''no such file''] else Inr ())"
  obtain r w where s: "start_core_inner ?env (world_new False False) = (r, w)" by (rule prod.exhaust)
  moreover have "fst (start_core_inner ?env (world_new False False)) = Inl [Text ''no such file'']"
    by (simp add: start_core_inner_def quiet_env_def consistent_new prepare_startup_def start_core_by_sidecar_def
        wait_for_sidecar_exit_def world_new_def store_new_def try_then_def call_ext_def Let_def narrow_umask_def)
  ultimately show ?thesis using failed_start_leaves_nothing_running [OF consistent_new(1), of ?env _ _ "[Text ''no such file'']" w] by simp
qed


definition running_world :: core_world where
  "running_world = manager_core_started ModeSidecar (mark_ready (world_new False False)\<lparr>child_sidecar := Some 42\<rparr>)"

lemma running_world_sidecar: "running running_world = ModeSidecar" "readiness running_world = Some (ready_word running_world)"
  by (simp_all add: running_world_def mark_ready_def)


text \<open>
  C4: applying the proxy after a start succeeds only for the very core it was asked for: that core
  still runs in the same mode with the same readiness generation, and in service mode under the same
  owner; otherwise, unless macOS still waits for a network, the result is an error, and a proxy
  already written for a core that changed is cleared again.
\<close>

theorem proxy_applied_for_same_core:
  assumes "apply_proxy_after_start env w = (r, w')"
  shows "(is_ok r \<longrightarrow> running w \<noteq> NotRunning \<and> running w' = running w \<and> readiness w' = readiness w
        \<and> readiness w \<noteq> None \<and> (running w = ModeService \<longrightarrow> owner_gen w' = owner_gen w))
    \<and> (answer env ProxyApply (clock w) = Inr () \<and> readiness (tick env ProxyApply True w) \<noteq> readiness w
         \<and> \<not> (plat env = MacOS \<and> waits_for_network env (clock w)) \<and> running w \<noteq> NotRunning \<and> readiness w \<noteq> None \<longrightarrow>
       \<not> is_ok r \<and> ProxyClear \<in> fst ` set (drop (length (calls w)) (calls w')))"
proof (cases "capture (running w) (readiness w) (owner_gen w)")
  case None
  then have "running w = NotRunning \<or> readiness w = None"
    by (auto simp: capture_def split: option.splits running_mode.splits)
  moreover from None assms have "\<not> is_ok r" by (auto simp: apply_proxy_after_start_def)
  ultimately show ?thesis by auto
next
  case (Some ex)
  have ex: "ex_mode ex = running w" "readiness w = Some (ex_readiness ex)" "running w \<noteq> NotRunning"
    "ex_owner ex = (if running w = ModeService then Some (owner_gen w) else None)"
    using Some by (auto simp: capture_def split: option.splits running_mode.splits)
  let ?w1 = "tick env ProxyApply True w" and ?w2 = "tick env GuardRefresh True (tick env ProxyApply True w)"
  have cl: "\<not> is_ok (fst (clear_after_change env m v))"
    "ProxyClear \<in> fst ` set (drop (length (calls v)) (calls (snd (clear_after_change env m v))))" for m v
    by (auto simp: clear_after_change_def call_ext_def Let_def split: sum.splits)
  have valid: "still_valid ex v \<longleftrightarrow> running v = running w \<and> readiness v = readiness w
      \<and> (running w = ModeService \<longrightarrow> owner_gen v = owner_gen w)" for v
    using ex by (auto simp: is_valid_def)
  show ?thesis
  proof (cases "plat env = MacOS \<and> waits_for_network env (clock w)")
    case True
    with Some assms ex show ?thesis by (simp add: apply_proxy_after_start_def)
  next
    case False
    then have e: "apply_proxy_after_start env w = try_then (call_ext env ProxyApply w) (\<lambda>_ w1.
             if \<not> still_valid ex w1
             then clear_after_change env ''core readiness changed while applying system proxy'' w1
             else try_then (call_ext env GuardRefresh w1) (\<lambda>_ w2.
               if \<not> still_valid ex w2
               then clear_after_change env ''core readiness changed while refreshing the system proxy guard'' w2
               else (Inr (), log_call (Notice ''refresh-verge'') True w2)))"
      by (simp only: apply_proxy_after_start_def Some option.case False if_False)
    have fin: "owner_gen (log_call c ok v) = owner_gen v" for c ok v by (simp add: log_call_def)
    show ?thesis
    proof (cases "answer env ProxyApply (clock w)")
      case (Inl x)
      with e assms show ?thesis by (auto simp: try_then_def call_ext_def)
    next
      case (Inr u)
      show ?thesis
      proof (cases "still_valid ex ?w1")
        case False
        with e assms Inr have s: "(r, w') = clear_after_change env ''core readiness changed while applying system proxy'' ?w1"
          by (simp add: try_then_def call_ext_def)
        then have "ProxyClear \<in> fst ` set (drop (length (calls ?w1)) (calls w'))" "\<not> is_ok r"
          using cl [where m = "''core readiness changed while applying system proxy''" and v = ?w1] by (simp_all add: s [symmetric])
        moreover have "set (drop (Suc n) xs) \<subseteq> set (drop n xs)" for n and xs :: "(call \<times> bool) list"
          by (rule set_drop_subset_set_drop) simp
        ultimately show ?thesis by auto
      next
        case True
        then have same: "readiness ?w1 = readiness w" using valid by blast
        show ?thesis
        proof (cases "answer env GuardRefresh (clock ?w1)")
          case (Inl x)
          with e assms Inr True same show ?thesis by (auto simp: try_then_def call_ext_def)
        next
          case (Inr u')
          with e assms \<open>answer env ProxyApply (clock w) = Inr u\<close> True
          have s: "(r, w') = (if \<not> still_valid ex ?w2
               then clear_after_change env ''core readiness changed while refreshing the system proxy guard'' ?w2
               else (Inr (), log_call (Notice ''refresh-verge'') True ?w2))"
            by (simp add: try_then_def call_ext_def)
          show ?thesis
          proof (cases "still_valid ex ?w2")
            case True
            with s valid [of ?w2] ex same fin show ?thesis by (auto simp del: tick_frame)
          next
            case False
            with s cl(1) [where m = "''core readiness changed while refreshing the system proxy guard''" and v = ?w2] same
            show ?thesis by (metis fst_conv)
          qed
        qed
      qed
    qed
  qed
qed

theorem proxy_applied_for_same_core_witness:
  "let env = quiet_env Linux (\<lambda>c t. Inr ())\<lparr>others := (\<lambda>t. [ProcessEnded (ready_word running_world)])\<rparr>;
       (r, w) = apply_proxy_after_start env running_world
   in \<not> is_ok r \<and> ProxyClear \<in> fst ` set (calls w)"
proof -
  let ?env = "quiet_env Linux (\<lambda>c t. Inr ())\<lparr>others := (\<lambda>t. [ProcessEnded (ready_word running_world)])\<rparr>"
  obtain r w where a: "apply_proxy_after_start ?env running_world = (r, w)" by (rule prod.exhaust)
  have "readiness (tick ?env ProxyApply True running_world) = None"
    by (simp add: tick_def interfere_def log_call_def claim_core_readiness_generation_def active_iff unat_inactive)
  then have n: "readiness (tick ?env ProxyApply True running_world) \<noteq> readiness running_world"
    using running_world_sidecar by simp
  have "answer ?env ProxyApply (clock running_world) = Inr ()" "plat ?env \<noteq> MacOS" by (simp_all add: quiet_env_def)
  with proxy_applied_for_same_core [OF a] n running_world_sidecar
  have "\<not> is_ok r" "ProxyClear \<in> fst ` set (drop (length (calls running_world)) (calls w))" by simp_all
  moreover have "set (drop (length (calls running_world)) (calls w)) \<subseteq> set (calls w)" by (rule set_drop_subset)
  ultimately show ?thesis using a by (auto simp: Let_def)
qed

text \<open>
  The sidecar stands in for a failed service start only after the check that no core is running
  succeeded, and never when the service itself refused for a reason other than its install location:
  in all other cases the fallback is not even called, whatever it is.
\<close>

theorem sidecar_fallback_is_guarded:
  assumes "start_service w = (Inl e, w1)"
    and "(case refusal_of e of Some (code, _) \<Rightarrow> code \<noteq> code_invalid_location env | None \<Rightarrow> \<not> is_ok (fst (confirm_idle w1)))"
  shows "run_service_start_with_sidecar_fallback env start_service confirm_idle fallback noted w
       = run_service_start_with_sidecar_fallback env start_service confirm_idle fallback' noted w
     \<and> \<not> is_ok (fst (run_service_start_with_sidecar_fallback env start_service confirm_idle fallback noted w))"
  using assms
  by (cases "confirm_idle w1"; cases "fst (confirm_idle w1)")
    (auto simp: run_service_start_with_sidecar_fallback_def Let_def split: option.splits prod.splits)

theorem sidecar_fallback_is_guarded_witness:
  "\<not> is_ok (fst (run_service_start_with_sidecar_fallback (quiet_env Windows (\<lambda>c t. Inr ()))
      (\<lambda>w. (Inl [StartRefusal 7 ''core'' ''denied''], w)) (\<lambda>w. (Inr (), w)) (\<lambda>e w. (Inr (), w)) (\<lambda>r w. w) running_world))"
proof -
  have "(case refusal_of [StartRefusal 7 ''core'' ''denied''] of
      Some (code, _) \<Rightarrow> code \<noteq> code_invalid_location (quiet_env Windows (\<lambda>c t. Inr ())) | None \<Rightarrow> False)"
    by (simp add: quiet_env_def)
  then show ?thesis
    using sidecar_fallback_is_guarded [where start_service = "\<lambda>w. (Inl [StartRefusal 7 ''core'' ''denied''], w)"
        and w = running_world and e = "[StartRefusal 7 ''core'' ''denied'']" and ?w1.0 = running_world
        and env = "quiet_env Windows (\<lambda>c t. Inr ())" and confirm_idle = "\<lambda>w. (Inr (), w)"
        and fallback = "\<lambda>e w. (Inr (), w)" and noted = "\<lambda>r w. w"]
    by simp
qed

text \<open>
  On Unix a sidecar whose process cannot be spawned leaves the file mode mask of the whole
  application narrowed: the early return skips the call that restores it.
\<close>

theorem failed_spawn_leaves_umask:
  assumes "plat env \<noteq> Windows" and "at_rest w0" and "sidecar_exit w0 = None"
    and "\<And>t. answer env ReserveSidecar t = Inr ()" and "\<And>t. answer env (SetSocket False) t = Inr ()"
    and "\<And>t. answer env (MakeConfig False) t = Inr ()" and "\<And>t. answer env BuildCommand t = Inr ()"
    and "\<And>t. answer env Spawn t = Inl e"
  shows "fst (start_core_by_sidecar env w0) = Inl e \<and> umask_narrowed (snd (start_core_by_sidecar env w0))"
  using assms
  by (simp add: start_core_by_sidecar_def wait_for_sidecar_exit_def try_then_def call_ext_def narrow_umask_def Let_def)

theorem failed_spawn_leaves_umask_witness:
  "umask_narrowed (snd (start_core_by_sidecar (quiet_env Linux (\<lambda>c t. if c = Spawn then Inl [Text ''x''] else Inr ())) (world_new False False)))"
proof -
  have "at_rest (world_new False False)" "sidecar_exit (world_new False False) = None"
    using consistent_new by (simp_all add: at_rest_iff) (simp add: world_new_def)
  then show ?thesis
    using failed_spawn_leaves_umask [of "quiet_env Linux (\<lambda>c t. if c = Spawn then Inl [Text ''x''] else Inr ())" "world_new False False" "[Text ''x'']"]
    by (simp add: quiet_env_def)
qed

subsection \<open>The retry of a service start\<close>

text \<open>A refusal about the bundle ends the retry at once, whatever budget is left.\<close>

lemma bundle_refusal_not_retried:
  assumes "run_core_by_service env w = (Inl e, w1)" and "refused_for_the_bundle env e"
  shows "retry_service_start env (Suc n) le w = (Inl e, w1)"
  using assms by simp

end
