(* ===== verification/Limiter.thy ===== *)
theory Limiter
  imports Prelude
begin

section \<open>The limiter crate: at most one run per period\<close>

text \<open>
  Models \<open>crates/clash-verge-limiter/src/lib.rs\<close>.  \<open>check\<close> reads the clock, loads the last
  admitted time and, outside the period, tries to replace it by compare-and-exchange.  The clock
  is not part of the crate's state: its reading is an argument.  Additions wrap, as they do in the
  release profile of the workspace.  For the concurrent callers the three atomic actions are
  separate steps.
\<close>

record limiter =
  last_run_ms :: u64
  period_ms :: u64

definition limiter_new :: "nat \<Rightarrow> limiter" where
  "limiter_new period_millis = \<lparr>last_run_ms = 0, period_ms = of_nat period_millis\<rparr>"

definition within_period :: "u64 \<Rightarrow> u64 \<Rightarrow> u64 \<Rightarrow> bool" where
  "within_period now prev period \<longleftrightarrow> now < prev + period \<and> now \<ge> prev"

definition compare_exchange :: "u64 \<Rightarrow> u64 \<Rightarrow> limiter \<Rightarrow> bool \<times> limiter" where
  "compare_exchange expected new l =
     (if last_run_ms l = expected then (True, l\<lparr>last_run_ms := new\<rparr>) else (False, l))"

definition check_from :: "u64 \<Rightarrow> u64 \<Rightarrow> limiter \<Rightarrow> bool \<times> limiter" where
  "check_from now prev l = (if within_period now prev (period_ms l) then (False, l) else compare_exchange prev now l)"

definition check :: "u64 \<Rightarrow> limiter \<Rightarrow> bool \<times> limiter" where
  "check now l = check_from now (last_run_ms l) l"

subsection \<open>One caller at a time\<close>

fun admitted :: "u64 list \<Rightarrow> limiter \<Rightarrow> u64 list" where
  "admitted [] l = []"
| "admitted (t # ts) l = (let (ok, l') = check t l in if ok then t # admitted ts l' else admitted ts l')"

lemma check_cases:
  "check now l = (if within_period now (last_run_ms l) (period_ms l) then (False, l)
     else (True, l\<lparr>last_run_ms := now\<rparr>))"
  by (simp add: check_def check_from_def compare_exchange_def)

fun spaced :: "nat \<Rightarrow> nat list \<Rightarrow> bool" where
  "spaced p (a # b # xs) = (a + p \<le> b \<and> spaced p (b # xs))"
| "spaced p xs = True"

lemma admitted_spaced_from:
  "sorted (map unat ts) \<Longrightarrow> \<forall>t\<in>set ts. unat (last_run_ms l) \<le> unat t \<Longrightarrow>
   \<forall>t\<in>insert (last_run_ms l) (set ts). unat t + unat (period_ms l) < 2 ^ 64 \<Longrightarrow>
     spaced (unat (period_ms l)) (unat (last_run_ms l) # map unat (admitted ts l))"
proof (induction ts arbitrary: l)
  case Nil
  then show ?case by simp
next
  case (Cons t ts)
  from Cons.prems have le: "last_run_ms l \<le> t" by (simp add: word_le_nat_alt)
  from Cons.prems have no: "unat (last_run_ms l + period_ms l) = unat (last_run_ms l) + unat (period_ms l)"
    by (simp add: unat_word_ariths)
  show ?case
  proof (cases "within_period t (last_run_ms l) (period_ms l)")
    case True
    with Cons show ?thesis by (simp add: check_cases)
  next
    case False
    with le no have "unat (last_run_ms l) + unat (period_ms l) \<le> unat t"
      by (simp add: within_period_def word_less_nat_alt)
    moreover from Cons.prems have "spaced (unat (period_ms l)) (unat t # map unat (admitted ts (l\<lparr>last_run_ms := t\<rparr>)))"
      using Cons.IH [of "l\<lparr>last_run_ms := t\<rparr>"] by simp
    ultimately show ?thesis using False by (simp add: check_cases)
  qed
qed

text \<open>
  For callers one after another on a clock that does not go back, two admitted runs are always
  at least one period apart (as long as the clock plus the period stays below 2^64 milliseconds).
\<close>

theorem limiter_period_respected:
  assumes "sorted (map unat ts)" and "\<forall>t\<in>set ts. unat t + unat (period_ms l) < 2 ^ 64"
    and "\<forall>t\<in>set ts. unat (last_run_ms l) + unat (period_ms l) \<le> unat t"
  shows "spaced (unat (period_ms l)) (map unat (admitted ts l))"
proof (cases ts)
  case Nil
  then show ?thesis by simp
next
  case (Cons t ts')
  with assms have "unat (last_run_ms l) + unat (period_ms l) < 2 ^ 64" by auto
  with assms have "spaced (unat (period_ms l)) (unat (last_run_ms l) # map unat (admitted ts l))"
    by (intro admitted_spaced_from) auto
  then show ?thesis by (cases "admitted ts l") auto
qed

theorem limiter_period_respected_witness:
  "spaced 100 (map unat (admitted [1000, 1099, 1100, 1150, 1200] (limiter_new 100)))
   \<and> admitted [1000, 1099, 1100, 1150, 1200] (limiter_new 100) = [1000, 1100, 1200]"
  using limiter_period_respected [of "[1000, 1099, 1100, 1150, 1200]" "limiter_new 100"]
  by (simp add: limiter_new_def check_cases within_period_def)

lemma check_after_clock_went_back:
  "now < last_run_ms l \<Longrightarrow> fst (check now l)"
  by (auto simp: check_cases within_period_def)

subsection \<open>Concurrent callers\<close>

text \<open>
  Caller \<open>i\<close> reads the clock, then loads \<open>last_run_ms\<close>, then either gives up or exchanges.
  A schedule is a list of these steps; the log keeps who was admitted, and at which reading.
\<close>

datatype caller = Idle | ClockRead u64 | LastLoaded u64 u64 | Done bool

datatype limiter_event = ReadClock nat u64 | LoadLast nat | Exchange nat

record limiter_sys =
  lim :: limiter
  callers :: "nat \<Rightarrow> caller"
  log :: "(nat \<times> u64) list"

fun limiter_step :: "limiter_event \<Rightarrow> limiter_sys \<Rightarrow> limiter_sys" where
  "limiter_step (ReadClock i now) s =
     (case callers s i of Idle \<Rightarrow> s\<lparr>callers := (callers s)(i := ClockRead now)\<rparr> | _ \<Rightarrow> s)"
| "limiter_step (LoadLast i) s =
     (case callers s i of ClockRead now \<Rightarrow> s\<lparr>callers := (callers s)(i := LastLoaded now (last_run_ms (lim s)))\<rparr> | _ \<Rightarrow> s)"
| "limiter_step (Exchange i) s =
     (case callers s i of
        LastLoaded now prev \<Rightarrow>
          (let (ok, l') = check_from now prev (lim s)
           in s\<lparr>lim := l', callers := (callers s)(i := Done ok),
                log := (if ok then log s @ [(i, now)] else log s)\<rparr>)
      | _ \<Rightarrow> s)"

definition limiter_run :: "limiter_event list \<Rightarrow> limiter_sys \<Rightarrow> limiter_sys" where
  "limiter_run es s = fold limiter_step es s"

definition limiter_start :: "limiter \<Rightarrow> limiter_sys" where
  "limiter_start l = \<lparr>lim = l, callers = (\<lambda>_. Idle), log = []\<rparr>"

text \<open>
  Callers that all read the same clock value: once one of them has been admitted, the limiter
  holds that value, and no other can be admitted.
\<close>

definition same_clock_inv :: "u64 \<Rightarrow> u64 \<Rightarrow> limiter_sys \<Rightarrow> bool" where
  "same_clock_inv now p s \<longleftrightarrow> period_ms (lim s) = p
     \<and> (\<forall>i. case callers s i of ClockRead t \<Rightarrow> t = now | LastLoaded t _ \<Rightarrow> t = now | _ \<Rightarrow> True)
     \<and> (log s = [] \<or> (length (log s) = 1 \<and> last_run_ms (lim s) = now))"

fun reads_clock_at :: "u64 \<Rightarrow> limiter_event \<Rightarrow> bool" where
  "reads_clock_at now (ReadClock i t) = (t = now)"
| "reads_clock_at now _ = True"

lemma same_clock_step:
  assumes "same_clock_inv now p s" "reads_clock_at now e" "now < now + p"
  shows "same_clock_inv now p (limiter_step e s)"
proof (cases e)
  case (ReadClock i t)
  with assms show ?thesis by (auto simp: same_clock_inv_def split: caller.splits)
next
  case (LoadLast i)
  with assms show ?thesis by (auto simp: same_clock_inv_def split: caller.splits)
next
  case (Exchange i)
  show ?thesis
  proof (cases "callers s i")
    case (LastLoaded t v)
    with assms(1) have t: "t = now" and p: "period_ms (lim s) = p"
      by (auto simp: same_clock_inv_def dest: spec [of _ i])
    show ?thesis
    proof (cases "\<not> within_period now v p \<and> last_run_ms (lim s) = v")
      case False
      then have "check_from now v (lim s) = (False, lim s)"
        by (auto simp: check_from_def compare_exchange_def p)
      with assms(1) Exchange LastLoaded t show ?thesis by (auto simp: same_clock_inv_def)
    next
      case True
      with assms(3) have "last_run_ms (lim s) \<noteq> now" by (auto simp: within_period_def)
      with assms(1) have "log s = []" by (auto simp: same_clock_inv_def)
      with True assms(1) Exchange LastLoaded t show ?thesis
        by (auto simp: same_clock_inv_def check_from_def compare_exchange_def p)
    qed
  qed (use assms(1) Exchange in \<open>simp_all\<close>)
qed

lemma same_clock_run:
  "same_clock_inv now p s \<Longrightarrow> list_all (reads_clock_at now) es \<Longrightarrow> now < now + p \<Longrightarrow>
     same_clock_inv now p (limiter_run es s)"
  unfolding limiter_run_def
  by (induction es arbitrary: s) (simp_all add: same_clock_step)

text \<open>
  Of any number of callers that read the same clock value, in any interleaving, at most one
  is admitted (for a non-zero period that does not wrap).
\<close>

theorem concurrent_checks_admit_one:
  assumes "list_all (reads_clock_at now) es" and "now < now + period_ms l"
  shows "length (log (limiter_run es (limiter_start l))) \<le> 1"
proof -
  have "same_clock_inv now (period_ms l) (limiter_start l)"
    by (simp add: same_clock_inv_def limiter_start_def)
  from same_clock_run [OF this assms] show ?thesis by (auto simp: same_clock_inv_def)
qed

theorem concurrent_checks_admit_one_witness:
  "length (log (limiter_run [ReadClock 0 1100, ReadClock 1 1100, LoadLast 0, LoadLast 1, Exchange 1, Exchange 0]
     (limiter_start \<lparr>last_run_ms = 1000, period_ms = 100\<rparr>))) \<le> 1"
  by (rule concurrent_checks_admit_one [of 1100]) simp_all

text \<open>
  The guarantee does not extend to callers whose clock readings differ.  A caller that read the
  clock first and loads \<open>last_run_ms\<close> after another one was admitted at a later reading sees
  \<open>now < last\<close>, which the code takes for a clock that went back: it is admitted as well, although
  the two readings are one millisecond apart and in order.
\<close>

theorem limiter_race_admits_two:
  "log (limiter_run
      [ReadClock 0 1100, ReadClock 1 1101, LoadLast 1, Exchange 1, LoadLast 0, Exchange 0]
      (limiter_start \<lparr>last_run_ms = 1000, period_ms = 100\<rparr>)) = [(1, 1101), (0, 1100)]"
  by (simp add: limiter_run_def limiter_start_def check_from_def within_period_def compare_exchange_def)

end
