(* ===== verification/I18n.thy ===== *)
theory I18n
  imports Prelude
begin

section \<open>The i18n crate: resolving a language tag to a supported locale\<close>

text \<open>
  Models \<open>crates/clash-verge-i18n/src/lib.rs\<close>.  The list of locales compiled into the binary
  comes from the \<open>rust_i18n\<close> macros and the system locale from \<open>sys_locale\<close>; both are
  parameters.  Tags are ASCII.
\<close>

definition default_language :: string where
  "default_language = ''zh''"

definition locale_alias :: "string \<Rightarrow> string option" where
  "locale_alias l =
     (if l \<in> {''ja'', ''ja-jp'', ''jp''} then Some ''jp''
      else if l \<in> {''zh'', ''zh-cn'', ''zh-hans'', ''zh-sg'', ''zh-my'', ''zh-chs''} then Some ''zh''
      else if l \<in> {''zh-tw'', ''zh-hk'', ''zh-hant'', ''zh-mo'', ''zh-cht''} then Some ''zhtw''
      else None)"

definition find_locale :: "string list \<Rightarrow> string \<Rightarrow> string option" where
  "find_locale supported l = find (\<lambda>s. eq_ignore_case s l) supported"

definition normalize_tag :: "string \<Rightarrow> string" where
  "normalize_tag l = map (\<lambda>c. if c = CHR ''_'' then CHR ''-'' else c) (to_lower l)"

definition resolve_prefix :: "string list \<Rightarrow> string \<Rightarrow> string option" where
  "resolve_prefix supported prefix =
     (case (case locale_alias prefix of Some a \<Rightarrow> find_locale supported a | None \<Rightarrow> None) of
        Some found \<Rightarrow> Some found
      | None \<Rightarrow> find_locale supported prefix)"

text \<open>The loop over the prefixes, longest first; \<open>i\<close> is the number of segments kept.\<close>

fun resolve_loop :: "string list \<Rightarrow> string list \<Rightarrow> nat \<Rightarrow> string option" where
  "resolve_loop supported segments 0 = None"
| "resolve_loop supported segments (Suc i) =
     (case resolve_prefix supported (join_with CHR ''-'' (take (Suc i) segments)) of
        Some found \<Rightarrow> Some found
      | None \<Rightarrow> resolve_loop supported segments i)"

definition resolve_supported_language :: "string list \<Rightarrow> string \<Rightarrow> string option" where
  "resolve_supported_language supported language =
     (if language = [] then None
      else let segments = split_on CHR ''-'' (normalize_tag language)
           in resolve_loop supported segments (length segments))"

definition system_language :: "string list \<Rightarrow> string option \<Rightarrow> string" where
  "system_language supported system =
     unwrap_or default_language (Option.bind system (resolve_supported_language supported))"

definition current_language :: "string list \<Rightarrow> string option \<Rightarrow> string option \<Rightarrow> string" where
  "current_language supported system language =
     (case (case language of Some l \<Rightarrow> (if l = [] then None else resolve_supported_language supported l) | None \<Rightarrow> None) of
        Some found \<Rightarrow> found
      | None \<Rightarrow> system_language supported system)"

definition set_locale :: "string list \<Rightarrow> string \<Rightarrow> string" where
  "set_locale supported language = unwrap_or default_language (resolve_supported_language supported language)"

lemma find_locale_mem: "find_locale supported l = Some f \<Longrightarrow> f \<in> set supported \<and> eq_ignore_case f l"
  by (auto simp: find_locale_def find_Some_iff)

lemma resolve_prefix_mem: "resolve_prefix supported p = Some f \<Longrightarrow> f \<in> set supported"
  by (auto simp: resolve_prefix_def dest: find_locale_mem split: option.splits)

lemma resolve_loop_mem: "resolve_loop supported segs n = Some f \<Longrightarrow> f \<in> set supported"
  by (induction n) (auto dest: resolve_prefix_mem split: option.splits)

lemma resolve_mem: "resolve_supported_language supported l = Some f \<Longrightarrow> f \<in> set supported"
  by (auto simp: resolve_supported_language_def Let_def dest: resolve_loop_mem split: if_splits)

text \<open>The longest prefix that resolves wins: no longer prefix of the tag resolves.\<close>

lemma resolve_loop_longest:
  "resolve_loop supported segs n = Some f \<Longrightarrow>
     \<exists>i. 0 < i \<and> i \<le> n \<and> resolve_prefix supported (join_with CHR ''-'' (take i segs)) = Some f
       \<and> (\<forall>j. i < j \<and> j \<le> n \<longrightarrow> resolve_prefix supported (join_with CHR ''-'' (take j segs)) = None)"
proof (induction n)
  case 0
  then show ?case by simp
next
  case (Suc n)
  show ?case
  proof (cases "resolve_prefix supported (join_with CHR ''-'' (take (Suc n) segs))")
    case (Some g)
    with Suc.prems show ?thesis by (intro exI [of _ "Suc n"]) auto
  next
    case None
    with Suc obtain i where "0 < i" "i \<le> n"
      "resolve_prefix supported (join_with CHR ''-'' (take i segs)) = Some f"
      "\<forall>j. i < j \<and> j \<le> n \<longrightarrow> resolve_prefix supported (join_with CHR ''-'' (take j segs)) = None"
      by auto
    with None show ?thesis by (intro exI [of _ i]) (auto simp: le_Suc_eq)
  qed
qed

lemma resolve_loop_None:
  "resolve_loop supported segs n = None \<longleftrightarrow>
     (\<forall>j. 0 < j \<and> j \<le> n \<longrightarrow> resolve_prefix supported (join_with CHR ''-'' (take j segs)) = None)"
  by (induction n) (auto simp: le_Suc_eq split: option.splits)

text \<open>
  whatever the configured and the system language, the current language is one of the locales
  compiled in (the default one being among them).
\<close>

theorem current_language_supported:
  assumes "default_language \<in> set supported"
  shows "current_language supported system language \<in> set supported \<and> set_locale supported l \<in> set supported"
  using assms
  by (auto simp: current_language_def system_language_def set_locale_def bind_eq_Some_conv dest: resolve_mem
      split: option.splits intro: resolve_mem)
    (metis bind.bind_lunit bind.bind_lzero not_None_eq resolve_mem unwrap_or_simps)+

theorem current_language_supported_witness:
  "default_language \<in> set [''en'', ''zh'', ''zhtw'', ''jp'']
   \<and> current_language [''en'', ''zh'', ''zhtw'', ''jp''] (Some ''en_US'') (Some ''zh_Hant_TW'') \<in> {''en'', ''zh'', ''zhtw'', ''jp''}
   \<and> current_language [''en'', ''zh'', ''zhtw'', ''jp''] (Some ''en_US'') (Some ''zh_Hant_TW'') = ''zhtw''"
proof -
  have h: "default_language \<in> set [''en'', ''zh'', ''zhtw'', ''jp'']" by (simp add: default_language_def)
  have "current_language [''en'', ''zh'', ''zhtw'', ''jp''] (Some ''en_US'') (Some ''zh_Hant_TW'') = ''zhtw''"
    by code_simp
  with h current_language_supported [OF h, of "Some ''en_US''" "Some ''zh_Hant_TW''"] show ?thesis by simp
qed

end
