(* ===== verification/Yaml.thy ===== *)
theory Yaml
  imports Prelude "HOL-Library.AList"
begin

section \<open>YAML values and their ordered mappings\<close>

text \<open>
  The configuration of the proxy core is a YAML mapping.  The crate \<open>serde_yaml_ng\<close> is not part of
  the repository; this theory states the documented interface of its data types that the code uses.
  A \<open>Value\<close> is one of seven cases, a \<open>Number\<close> an unsigned, a negative or a floating-point number
  (kept as its 64 bits), and a \<open>Mapping\<close> is a map that remembers the order of insertion: \<open>insert\<close>
  replaces a value in place or adds the entry at the end, and \<open>remove\<close> is the documented
  \<open>swap_remove\<close>, which moves the last entry to the hole.  Two mappings are equal when they hold equal
  entries, in whatever order (\<open>yaml_eq\<close>).  The code looks up string keys only, which are compared
  structurally.

  The locale \<open>keyed_map\<close> holds what the clients rely on: the laws of lookup, insertion and removal,
  with the facts about folds of insertions and removals proved from the laws alone.
\<close>

datatype number = PosInt u64 | NegInt u64 | Float u64

datatype yaml =
    Null
  | Bool bool
  | Number number
  | Str string
  | Sequence "yaml list"
  | Mapping "(yaml \<times> yaml) list"
  | Tagged string yaml

type_synonym mapping = "(yaml \<times> yaml) list"

subsection \<open>Reading a value\<close>

fun as_str :: "yaml \<Rightarrow> string option" where
  "as_str (Str s) = Some s"
| "as_str (Tagged t v) = as_str v"
| "as_str v = None"

fun as_bool :: "yaml \<Rightarrow> bool option" where
  "as_bool (Bool b) = Some b"
| "as_bool (Tagged t v) = as_bool v"
| "as_bool v = None"

fun as_mapping :: "yaml \<Rightarrow> mapping option" where
  "as_mapping (Mapping m) = Some m"
| "as_mapping (Tagged t v) = as_mapping v"
| "as_mapping v = None"

fun as_sequence :: "yaml \<Rightarrow> yaml list option" where
  "as_sequence (Sequence xs) = Some xs"
| "as_sequence (Tagged t v) = as_sequence v"
| "as_sequence v = None"

fun as_u64 :: "number \<Rightarrow> u64 option" where
  "as_u64 (PosInt n) = Some n"
| "as_u64 n = None"

text \<open>Mutable access to the mapping inside a value; a value without one is left alone.\<close>

fun map_mapping :: "(mapping \<Rightarrow> mapping) \<Rightarrow> yaml \<Rightarrow> yaml" where
  "map_mapping f (Mapping m) = Mapping (f m)"
| "map_mapping f (Tagged t v) = Tagged t (map_mapping f v)"
| "map_mapping f v = v"

subsection \<open>Mappings\<close>

definition get :: "mapping \<Rightarrow> string \<Rightarrow> yaml option" where
  "get m k = map_of m (Str k)"

definition contains_key :: "mapping \<Rightarrow> string \<Rightarrow> bool" where
  "contains_key m k = (get m k \<noteq> None)"

definition put :: "string \<Rightarrow> yaml \<Rightarrow> mapping \<Rightarrow> mapping" where
  "put k v m = AList.update (Str k) v m"

definition extend_with :: "mapping \<Rightarrow> mapping \<Rightarrow> mapping" where
  "extend_with m other = fold (\<lambda>(k, v). AList.update k v) other m"

fun swap_remove :: "yaml \<Rightarrow> mapping \<Rightarrow> mapping" where
  "swap_remove k [] = []"
| "swap_remove k ((k', v) # m) =
     (if k' = k then (if m = [] then [] else last m # butlast m) else (k', v) # swap_remove k m)"

definition remove_key :: "string \<Rightarrow> mapping \<Rightarrow> mapping" where
  "remove_key k m = swap_remove (Str k) m"

definition map_keys :: "mapping \<Rightarrow> yaml list" where
  "map_keys m = map fst m"

text \<open>Equality of values: that of the entries, whatever the order of a mapping.\<close>

fun yaml_eq :: "yaml \<Rightarrow> yaml \<Rightarrow> bool" where
  "yaml_eq (Sequence xs) (Sequence ys) = list_all2 yaml_eq xs ys"
| "yaml_eq (Mapping m) (Mapping n) = (length m = length n
     \<and> (\<forall>(k, v) \<in> set m. case map_of n k of None \<Rightarrow> False | Some w \<Rightarrow> yaml_eq v w))"
| "yaml_eq (Tagged t v) (Tagged u w) = (t = u \<and> yaml_eq v w)"
| "yaml_eq a b = (a = b)"

fun opt_yaml_eq :: "yaml option \<Rightarrow> yaml option \<Rightarrow> bool" where
  "opt_yaml_eq (Some a) (Some b) = yaml_eq a b"
| "opt_yaml_eq None None = True"
| "opt_yaml_eq a b = False"

text \<open>What the type \<open>Mapping\<close> guarantees: one entry per key, at every level.\<close>

fun yaml_ok :: "yaml \<Rightarrow> bool" where
  "yaml_ok (Sequence xs) = (\<forall>x \<in> set xs. yaml_ok x)"
| "yaml_ok (Mapping m) = (distinct (map fst m) \<and> (\<forall>(k, v) \<in> set m. yaml_ok v))"
| "yaml_ok (Tagged t v) = yaml_ok v"
| "yaml_ok v = True"

definition mapping_ok :: "mapping \<Rightarrow> bool" where
  "mapping_ok m = distinct (map fst m)"

subsection \<open>The interface of a keyed map\<close>

locale keyed_map =
  fixes lookup :: "'m \<Rightarrow> 'k \<Rightarrow> 'v option"
    and ins :: "'k \<Rightarrow> 'v \<Rightarrow> 'm \<Rightarrow> 'm"
    and del :: "'k \<Rightarrow> 'm \<Rightarrow> 'm"
    and invar :: "'m \<Rightarrow> bool"
  assumes lookup_ins: "lookup (ins k v m) = (lookup m)(k \<mapsto> v)"
    and lookup_del: "invar m \<Longrightarrow> lookup (del k m) = (lookup m)(k := None)"
    and invar_ins: "invar m \<Longrightarrow> invar (ins k v m)"
    and invar_del: "invar m \<Longrightarrow> invar (del k m)"
    and ins_same: "lookup m k = Some v \<Longrightarrow> ins k v m = m"
begin

lemma invar_ins_all: "invar m \<Longrightarrow> invar (fold (\<lambda>(k, v). ins k v) kvs m)"
  by (induction kvs arbitrary: m) (auto simp: invar_ins)

lemma invar_del_all: "invar m \<Longrightarrow> invar (fold (\<lambda>k. if P k then del k else id) ks m)"
  by (induction ks arbitrary: m) (auto simp: invar_del)

lemma lookup_ins_all:
  "distinct (map fst kvs) \<Longrightarrow> lookup (fold (\<lambda>(k, v). ins k v) kvs m) = lookup m ++ map_of kvs"
proof (induction kvs arbitrary: m)
  case (Cons p kvs)
  obtain k v where p: "p = (k, v)" by (rule prod.exhaust)
  with Cons have "k \<notin> dom (map_of kvs)" by (simp add: dom_map_of_conv_image_fst)
  with Cons p show ?case by (simp add: lookup_ins fun_eq_iff map_add_def split: option.splits) force
qed simp

lemma ins_all_again:
  assumes "distinct (map fst kvs)"
  shows "fold (\<lambda>(k, v). ins k v) kvs (fold (\<lambda>(k, v). ins k v) kvs m) = fold (\<lambda>(k, v). ins k v) kvs m"
proof -
  have "fold (\<lambda>(k, v). ins k v) xs m' = m'"
    if "\<And>k v. (k, v) \<in> set xs \<Longrightarrow> lookup m' k = Some v" for xs m'
    using that by (induction xs) (auto simp: ins_same)
  moreover have "lookup (fold (\<lambda>(k, v). ins k v) kvs m) k = Some v" if "(k, v) \<in> set kvs" for k v
    using that assms by (simp add: lookup_ins_all map_add_def)
  ultimately show ?thesis by blast
qed

lemma lookup_del_all:
  "invar m \<Longrightarrow> lookup (fold (\<lambda>k. if P k then del k else id) ks m) x
    = (if x \<in> set ks \<and> P x then None else lookup m x)"
  by (induction ks arbitrary: m) (auto simp: lookup_del invar_del)

text \<open>Drop the listed keys a snapshot does not have, then write the snapshot back.\<close>

lemma lookup_restore:
  assumes "invar m" and "distinct (map fst snap)" and "fst ` set snap \<subseteq> set ks"
  shows "lookup (fold (\<lambda>(k, v). ins k v) snap
      (fold (\<lambda>k. if map_of snap k = None then del k else id) ks m)) x
    = (if x \<in> set ks then map_of snap x else lookup m x)"
proof (cases "x \<in> set ks")
  case False
  with assms(3) have "map_of snap x = None" by (auto simp: map_of_eq_None_iff)
  with False assms show ?thesis by (simp add: lookup_ins_all map_add_def lookup_del_all)
qed (use assms in \<open>simp add: lookup_ins_all map_add_def lookup_del_all split: option.splits\<close>)

end

lemma set_swap_remove: "distinct (map fst m) \<Longrightarrow> set (swap_remove k m) = {p \<in> set m. fst p \<noteq> k}"
proof (induction m)
  case (Cons p m)
  obtain k' v' where p: "p = (k', v')" by (rule prod.exhaust)
  have "set (last m # butlast m) = set m" if "m \<noteq> []"
    using that by (metis Un_insert_right append_Nil2 append_butlast_last_id list.simps(15) set_append)
  with Cons p show ?case by (auto simp: image_iff)
qed simp

lemma distinct_swap_remove: "distinct (map fst m) \<Longrightarrow> distinct (map fst (swap_remove k m))"
proof (induction m)
  case (Cons p m)
  obtain k' v' where p: "p = (k', v')" by (rule prod.exhaust)
  have "distinct (map fst (last m # butlast m))" if "m \<noteq> []" "distinct (map fst m)"
  proof -
    have "distinct (map fst (butlast m @ [last m]))" using that by simp
    then show ?thesis by simp
  qed
  moreover have "k' \<notin> fst ` set (swap_remove k m)" if "k' \<notin> fst ` set m" "distinct (map fst m)"
    using that by (auto simp: set_swap_remove)
  ultimately show ?case using Cons p by simp
qed simp

lemma map_of_swap_remove:
  assumes "distinct (map fst m)"
  shows "map_of (swap_remove k m) = (map_of m)(k := None)"
proof
  fix x
  have "map_of (swap_remove k m) x = Some v \<longleftrightarrow> ((map_of m)(k := None)) x = Some v" for v
    using assms by (auto simp: distinct_swap_remove set_swap_remove)
  then show "map_of (swap_remove k m) x = ((map_of m)(k := None)) x"
    by (metis not_Some_eq)
qed

interpretation yaml_map: keyed_map map_of AList.update swap_remove mapping_ok
  by unfold_locales
    (auto simp: AList.update_conv' mapping_ok_def map_of_swap_remove distinct_swap_remove
      AList.update_triv intro: AList.distinct_update)

lemma as_mapping_map: "as_mapping (map_mapping f v) = map_option f (as_mapping v)"
  by (induction v) auto

lemmas mapping_defs = get_def contains_key_def put_def remove_key_def extend_with_def

lemma get_put: "get (put k v m) k' = (if k' = k then Some v else get m k')"
  by (simp add: mapping_defs yaml_map.lookup_ins)

lemma get_remove: "mapping_ok m \<Longrightarrow> get (remove_key k m) k' = (if k' = k then None else get m k')"
  by (simp add: mapping_defs yaml_map.lookup_del)

lemma get_extend:
  "mapping_ok n \<Longrightarrow> get (extend_with m n) k = (case get n k of Some v \<Rightarrow> Some v | None \<Rightarrow> get m k)"
  by (simp add: mapping_defs yaml_map.lookup_ins_all mapping_ok_def map_add_def split: option.splits)

lemma ok_mapping_ops [simp]:
  "mapping_ok []"
  "mapping_ok m \<Longrightarrow> mapping_ok (put k v m)"
  "mapping_ok m \<Longrightarrow> mapping_ok (remove_key k m)"
  "mapping_ok m \<Longrightarrow> mapping_ok (extend_with m n)"
  unfolding put_def remove_key_def extend_with_def
  using yaml_map.invar_ins yaml_map.invar_del yaml_map.invar_ins_all
  by (simp add: mapping_ok_def, blast+)

lemma yaml_eq_refl [simp]: "yaml_ok v \<Longrightarrow> yaml_eq v v"
proof (induction v rule: yaml_ok.induct)
  case (1 xs)
  then show ?case by (simp add: list_all2_same)
next
  case (2 m)
  have "case map_of m k of None \<Rightarrow> False | Some w \<Rightarrow> yaml_eq v w" if "(k, v) \<in> set m" for k v
  proof -
    from 2 that have "map_of m k = Some v" "yaml_ok v" by auto
    with 2 that show ?thesis by simp
  qed
  then show ?case by auto
qed simp_all

end
