(* ===== verification/ConfigMerge.thy ===== *)
theory ConfigMerge
  imports Yaml
begin

section \<open>Merging, editing and sorting the core configuration\<close>

text \<open>
  Models \<open>merge.rs\<close>, \<open>field.rs\<close>, \<open>tun.rs\<close> and \<open>seq.rs\<close> of \<open>src-tauri/src/enhance\<close>: the overlay of
  a merge profile, the lower-casing and sorting of the top-level keys, the TUN switch with the fake-ip
  DNS it needs, and the lists prepended to, appended to and deleted from rules, proxies and groups.
  Every function takes the configuration and returns the new one, as in the code.
\<close>

subsection \<open>Keys: \<open>field.rs\<close>\<close>

definition HANDLE_FIELDS :: "string list" where
  "HANDLE_FIELDS = [''mode'', ''redir-port'', ''tproxy-port'', ''mixed-port'', ''socks-port'', ''port'',
     ''allow-lan'', ''log-level'', ''ipv6'', ''external-controller'', ''secret'', ''unified-delay'']"

definition DEFAULT_FIELDS :: "string list" where
  "DEFAULT_FIELDS = [''proxies'', ''proxy-providers'', ''proxy-groups'', ''rule-providers'', ''rules'']"

definition lowercase_key :: "string \<Rightarrow> yaml" where
  "lowercase_key key = Str (to_lower key)"

definition use_lowercase :: "mapping \<Rightarrow> mapping" where
  "use_lowercase config = fold (\<lambda>(key, value) lowercased.
     case as_str key of Some s \<Rightarrow> AList.update (lowercase_key s) value lowercased | None \<Rightarrow> lowercased) config []"

definition use_lowercase_owned :: "mapping \<Rightarrow> mapping" where
  "use_lowercase_owned config = fold (\<lambda>(key, value) lowercased.
     case as_str key of Some s \<Rightarrow> AList.update (lowercase_key s) value lowercased | None \<Rightarrow> lowercased) config []"

text \<open>Move the listed keys, in the order of the list, from one mapping to the end of another.\<close>

definition move_fields :: "string list \<Rightarrow> mapping \<times> mapping \<Rightarrow> mapping \<times> mapping" where
  "move_fields keys st = fold (\<lambda>key (config, sorted).
     case get config key of None \<Rightarrow> (config, sorted)
     | Some value \<Rightarrow> (remove_key key config, put key value sorted)) keys st"

definition sort_rest :: "mapping \<Rightarrow> mapping \<times> mapping \<Rightarrow> mapping \<times> mapping" where
  "sort_rest config st = fold (\<lambda>(key, value) (sorted, default_field_values).
     case as_str key of
       None \<Rightarrow> (sorted, default_field_values)
     | Some key_str \<Rightarrow>
         if key_str \<in> set DEFAULT_FIELDS then (sorted, AList.update key value default_field_values)
         else if key_str \<notin> set HANDLE_FIELDS then (AList.update key value sorted, default_field_values)
         else (sorted, default_field_values)) config st"

definition use_sort :: "mapping \<Rightarrow> mapping" where
  "use_sort config =
     (let (rest, sorted) = move_fields HANDLE_FIELDS (config, []);
          (sorted, default_field_values) = sort_rest rest (sorted, [])
      in snd (move_fields DEFAULT_FIELDS (default_field_values, sorted)))"

definition use_keys :: "mapping \<Rightarrow> string list" where
  "use_keys config = map to_lower (List.map_filter (\<lambda>(key, _). as_str key) config)"

subsection \<open>Overlays: \<open>merge.rs\<close>\<close>

fun deep_merge :: "yaml \<Rightarrow> yaml \<Rightarrow> yaml" and merge_entries :: "mapping \<Rightarrow> mapping \<Rightarrow> mapping" where
  "deep_merge (Mapping a_map) (Mapping b_map) = Mapping (merge_entries a_map b_map)"
| "deep_merge a b = b"
| "merge_entries a_map [] = a_map"
| "merge_entries a_map ((key, value) # b_map) =
     (case map_of a_map key of
        Some existing \<Rightarrow> merge_entries (AList.update key (deep_merge existing value) a_map) b_map
      | None \<Rightarrow> merge_entries (AList.update key value a_map) b_map)"

definition merge_value :: "yaml \<Rightarrow> yaml option \<Rightarrow> yaml \<Rightarrow> yaml" where
  "merge_value key old value =
     (case (old, value) of
        (Some (Mapping existing), Mapping overlay) \<Rightarrow>
          if as_str key = Some ''dns'' then Mapping (extend_with existing overlay)
          else if as_str key \<noteq> Some ''hosts'' then deep_merge (Mapping existing) value
          else value
      | (Some existing, _) \<Rightarrow> if as_str key \<noteq> Some ''hosts'' then deep_merge existing value else value
      | (None, _) \<Rightarrow> value)"

definition use_merge :: "mapping \<Rightarrow> mapping \<Rightarrow> mapping" where
  "use_merge merge config = fold (\<lambda>(key, value) config.
     AList.update key (merge_value key (map_of config key) value) config) (use_lowercase merge) config"

subsection \<open>The TUN switch: \<open>tun.rs\<close>\<close>

datatype dns_server_effect = RestorePublicDns | SetPublicDns string

definition mapping_at :: "mapping \<Rightarrow> string \<Rightarrow> mapping" where
  "mapping_at config k = (case get config k of None \<Rightarrow> []
     | Some v \<Rightarrow> (case as_mapping v of Some m \<Rightarrow> m | None \<Rightarrow> []))"

definition tun_fake_ip_dns :: "bool \<Rightarrow> mapping \<Rightarrow> mapping" where
  "tun_fake_ip_dns ipv6 dns =
     (let dns = put ''enable'' (Bool True) dns;
          dns = put ''ipv6'' (Bool ipv6) dns;
          dns = (if \<not> contains_key dns ''enhanced-mode'' then put ''enhanced-mode'' (Str ''fake-ip'') dns else dns);
          dns = (if \<not> contains_key dns ''fake-ip-range''
                 then put ''fake-ip-range'' (Str ''198.18.0.1/16'') dns else dns)
      in if ipv6 \<and> \<not> contains_key dns ''fake-ip-range6''
         then put ''fake-ip-range6'' (Str ''2001:2::0/64'') dns else dns)"

definition use_tun :: "platform \<Rightarrow> mapping \<Rightarrow> bool \<Rightarrow> mapping \<times> dns_server_effect list" where
  "use_tun plat config enable =
     (let tun_val = mapping_at config ''tun'';
          (config, es) = (if enable then
             let dns_val = mapping_at config ''dns'';
                 ipv6 = unwrap_or False (Option.bind (get config ''ipv6'') as_bool);
                 current_mode = unwrap_or ''fake-ip'' (Option.bind (get dns_val ''enhanced-mode'') as_str);
                 ours = (current_mode = ''fake-ip'' \<or> \<not> contains_key dns_val ''enhanced-mode'')
             in (put ''dns'' (Mapping (if ours then tun_fake_ip_dns ipv6 dns_val else dns_val)) config,
                 if ours \<and> plat = MacOS then [RestorePublicDns, SetPublicDns ''114.114.114.114''] else [])
           else (config, if plat = MacOS then [RestorePublicDns] else []))
      in (put ''tun'' (Mapping (put ''enable'' (Bool enable) tun_val)) config, es))"

subsection \<open>Lists of rules, proxies and groups: \<open>seq.rs\<close>\<close>

record seq_map =
  prepend :: "yaml list"
  append_items :: "yaml list"
  delete_names :: "string list"

definition seq_map_default :: seq_map where
  "seq_map_default = \<lparr>prepend = [], append_items = [], delete_names = []\<rparr>"

text \<open>The name of a list item: a string is its own name, a mapping has a \<open>name\<close> entry.\<close>

fun item_name :: "yaml \<Rightarrow> string option" where
  "item_name (Mapping m) = Option.bind (get m ''name'') as_str"
| "item_name (Str name) = Some name"
| "item_name v = None"

definition collect_proxy_names :: "yaml list \<Rightarrow> string list" where
  "collect_proxy_names items = List.map_filter item_name items"

definition is_selector_group :: "mapping \<Rightarrow> bool" where
  "is_selector_group group_map = (case Option.bind (get group_map ''type'') as_str of
     None \<Rightarrow> False | Some v \<Rightarrow> to_lower v = ''select'' \<or> to_lower v = ''selector'')"

text \<open>The first occurrence of every element, as a filter over a growing hash set keeps it.\<close>

fun keep_first :: "'a list \<Rightarrow> 'a list \<Rightarrow> 'a list" where
  "keep_first seen [] = []"
| "keep_first seen (x # xs) = (if x \<in> set seen then keep_first seen xs else x # keep_first (x # seen) xs)"

fun kept_item :: "string list \<Rightarrow> yaml \<Rightarrow> bool" where
  "kept_item delete (Str s) = (s \<notin> set delete)"
| "kept_item delete (Mapping m) = (case get m ''name'' of Some (Str name) \<Rightarrow> name \<notin> set delete | _ \<Rightarrow> True)"
| "kept_item delete v = True"

fun kept_reference :: "string list \<Rightarrow> yaml \<Rightarrow> bool" where
  "kept_reference delete (Str name) = (name \<notin> set delete)"
| "kept_reference delete v = True"

fun merge_base :: "string list \<Rightarrow> yaml list \<Rightarrow> yaml list" where
  "merge_base seen [] = []"
| "merge_base seen (Str name # vs) =
     (if name \<in> set seen then merge_base seen vs else Str name # merge_base (name # seen) vs)"
| "merge_base seen (v # vs) = v # merge_base seen vs"

definition merged_proxies :: "string list \<Rightarrow> yaml list \<Rightarrow> yaml list" where
  "merged_proxies added base = (let first = keep_first [] added in map Str first @ merge_base first base)"

definition take_proxies :: "string list \<Rightarrow> mapping \<Rightarrow> mapping \<times> yaml list option" where
  "take_proxies delete group_map = (case get group_map ''proxies'' of
     None \<Rightarrow> (group_map, None)
   | Some (Sequence proxies) \<Rightarrow>
       (remove_key ''proxies'' group_map, Some (filter (kept_reference delete) proxies))
   | Some value \<Rightarrow> (put ''proxies'' value (remove_key ''proxies'' group_map), None))"

definition update_group :: "string list \<Rightarrow> string list \<Rightarrow> bool \<Rightarrow> mapping \<Rightarrow> mapping \<times> bool" where
  "update_group delete added appended group_map =
     (let (group_map, group_proxies) = take_proxies delete group_map;
          take = (\<not> appended \<and> added \<noteq> [] \<and> is_selector_group group_map);
          group_proxies = (if take then Some (merged_proxies added (unwrap_or [] group_proxies)) else group_proxies)
      in (case group_proxies of None \<Rightarrow> group_map | Some ps \<Rightarrow> put ''proxies'' (Sequence ps) group_map,
          appended \<or> take))"

fun update_groups :: "string list \<Rightarrow> string list \<Rightarrow> bool \<Rightarrow> yaml list \<Rightarrow> yaml list" where
  "update_groups delete added appended [] = []"
| "update_groups delete added appended (Mapping group_map # gs) =
     (let (group_map, appended) = update_group delete added appended group_map
      in Mapping group_map # update_groups delete added appended gs)"
| "update_groups delete added appended (g # gs) = g # update_groups delete added appended gs"

definition seq_items :: "seq_map \<Rightarrow> mapping \<Rightarrow> string \<Rightarrow> mapping" where
  "seq_items seq config field =
     (let kept = (case get config field of
            Some (Sequence existing) \<Rightarrow> filter (kept_item (delete_names seq)) existing | _ \<Rightarrow> [])
      in put field (Sequence (prepend seq @ kept @ append_items seq)) (remove_key field config))"

definition use_seq :: "seq_map \<Rightarrow> mapping \<Rightarrow> string \<Rightarrow> mapping" where
  "use_seq seq config field =
     (let added = (if field = ''proxies''
            then keep_first [] (collect_proxy_names (prepend seq) @ collect_proxy_names (append_items seq)) else []);
          config = seq_items seq config field
      in if field \<noteq> ''proxies'' then config
         else (case get config ''proxy-groups'' of
            None \<Rightarrow> config
          | Some (Sequence groups) \<Rightarrow>
              put ''proxy-groups'' (Sequence (update_groups (delete_names seq) added False groups))
                (remove_key ''proxy-groups'' config)
          | Some value \<Rightarrow> put ''proxy-groups'' value (remove_key ''proxy-groups'' config)))"

subsection \<open>Sorting keeps every string key\<close>

lemma keys_update_new: "map_of m k = None \<Longrightarrow> map fst (AList.update k v m) = map fst m @ [k]"
  by (simp add: AList.update_keys map_of_eq_None_iff)

lemma move_fields_spec:
  assumes "mapping_ok config" and "\<forall>k \<in> set keys. get acc k = None" and "distinct keys"
    and "move_fields keys (config, acc) = (config', out)"
  shows "mapping_ok config' \<and> map_of config' = (map_of config) |` (- Str ` set keys)
    \<and> map_of out = map_of acc ++ map_of config |` (Str ` set keys)
    \<and> map fst out = map fst acc @ map Str (filter (contains_key config) keys)"
  using assms
proof (induction keys arbitrary: config acc)
  case Nil
  then show ?case by (auto simp: move_fields_def)
next
  case (Cons k ks)
  show ?case
  proof (cases "get config k")
    case None
    with Cons.prems have m: "move_fields ks (config, acc) = (config', out)"
      by (simp add: move_fields_def)
    have e: "map_of config |` (- Str ` set (k # ks)) = map_of config |` (- Str ` set ks)"
      "map_of config |` (Str ` set (k # ks)) = map_of config |` (Str ` set ks)"
      using None by (auto simp: get_def restrict_map_def fun_eq_iff)
    from Cons.IH [OF Cons.prems(1) _ _ m] Cons.prems None show ?thesis
      unfolding e by (simp add: contains_key_def)
  next
    case (Some v)
    with Cons.prems have m: "move_fields ks (remove_key k config, put k v acc) = (config', out)"
      by (simp add: move_fields_def)
    have c: "map_of (remove_key k config) = (map_of config)(Str k := None)"
      using Cons.prems(1) by (simp add: remove_key_def yaml_map.lookup_del)
    have p: "map_of (put k v acc) = (map_of acc)(Str k \<mapsto> v)"
      "map fst (put k v acc) = map fst acc @ [Str k]"
      using Cons.prems(2) by (simp_all add: put_def get_def yaml_map.lookup_ins keys_update_new)
    have f: "filter (contains_key (remove_key k config)) ks = filter (contains_key config) ks"
      using Cons.prems(3) Cons.prems(1) by (intro filter_cong) (auto simp: contains_key_def get_remove)
    have "Str k \<notin> Str ` set ks" using Cons.prems(3) by auto
    then have e: "(map_of config)(Str k := None) |` (- Str ` set ks) = map_of config |` (- Str ` set (k # ks))"
      "(map_of acc)(Str k \<mapsto> v) ++ (map_of config)(Str k := None) |` (Str ` set ks)
        = map_of acc ++ map_of config |` (Str ` set (k # ks))"
      using Some Cons.prems(2) by (auto simp: get_def restrict_map_def map_add_def fun_eq_iff split: option.splits)
    have g: "\<forall>k' \<in> set ks. get (put k v acc) k' = None"
      using Cons.prems(2,3) by (auto simp: get_put)
    have k: "contains_key config k" using Some by (simp add: contains_key_def)
    from Cons.IH [OF _ g _ m] Cons.prems(1,3) k show ?thesis
      unfolding c p f e by simp
  qed
qed

definition is_mid_key :: "yaml \<Rightarrow> bool" where
  "is_mid_key k = (case as_str k of None \<Rightarrow> False | Some s \<Rightarrow> s \<notin> set DEFAULT_FIELDS \<and> s \<notin> set HANDLE_FIELDS)"

definition is_default_key :: "yaml \<Rightarrow> bool" where
  "is_default_key k = (case as_str k of None \<Rightarrow> False | Some s \<Rightarrow> s \<in> set DEFAULT_FIELDS)"

lemma sort_rest_spec:
  assumes "distinct (map fst config)"
    and "\<forall>k \<in> fst ` set config. is_mid_key k \<longrightarrow> map_of acc k = None"
  shows "sort_rest config (acc, df)
    = (acc @ filter (\<lambda>(k, _). is_mid_key k) config, fold (\<lambda>(k, v). AList.update k v) (filter (\<lambda>(k, _). is_default_key k) config) df)"
  using assms
proof (induction config arbitrary: acc df)
  case (Cons p config)
  obtain k v where p: "p = (k, v)" by (rule prod.exhaust)
  have upd: "AList.update k v acc = acc @ [(k, v)]" if "map_of acc k = None"
    using that by (induction acc) (auto split: if_splits)
  have IH: "sort_rest config (out, df') = (out @ filter (\<lambda>(k, _). is_mid_key k) config,
      fold (\<lambda>(k, v). AList.update k v) (filter (\<lambda>(k, _). is_default_key k) config) df')"
    if "\<forall>k' \<in> fst ` set config. is_mid_key k' \<longrightarrow> map_of out k' = None" for out df'
    using Cons.IH [OF _ that] Cons.prems(1) by simp
  have step: "sort_rest (p # config) (acc, df) = sort_rest config
      (if is_default_key k then (acc, AList.update k v df)
       else if is_mid_key k then (AList.update k v acc, df) else (acc, df))"
    by (simp add: sort_rest_def p is_default_key_def is_mid_key_def split: option.splits)
  have d: "\<not> (is_default_key k \<and> is_mid_key k)"
    by (auto simp: is_default_key_def is_mid_key_def split: option.splits)
  have n: "\<forall>k' \<in> fst ` set config. is_mid_key k' \<longrightarrow> map_of acc k' = None"
    and n': "is_mid_key k \<Longrightarrow> \<forall>k' \<in> fst ` set config. is_mid_key k' \<longrightarrow> map_of (AList.update k v acc) k' = None"
    using Cons.prems p by (auto simp: yaml_map.lookup_ins image_iff)
  show ?case unfolding step
    using d IH [OF n] IH [OF n'] upd Cons.prems(2) p by auto
qed (simp add: sort_rest_def)

lemma map_of_filter_key: "map_of (filter (\<lambda>(k, _). P k) m) k = (if P k then map_of m k else None)"
  by (induction m) auto

lemma fold_update_fresh:
  "distinct (map fst m) \<Longrightarrow> fold (\<lambda>(k, v). AList.update k v) m [] = m"
proof -
  have "distinct (map fst (acc @ m)) \<Longrightarrow> fold (\<lambda>(k, v). AList.update k v) m acc = acc @ m" for acc
  proof (induction m arbitrary: acc)
    case (Cons p m)
    obtain k v where p: "p = (k, v)" by (rule prod.exhaust)
    have "AList.update k v acc = acc @ [(k, v)]" if "k \<notin> fst ` set acc"
      using that by (induction acc) auto
    with Cons p show ?case by (auto simp: image_iff)
  qed simp
  from this [of "[]"] show "distinct (map fst m) \<Longrightarrow> ?thesis" by simp
qed

lemma default_not_handle: "set DEFAULT_FIELDS \<inter> set HANDLE_FIELDS = {}" "distinct DEFAULT_FIELDS" "distinct HANDLE_FIELDS"
  by (simp_all add: DEFAULT_FIELDS_def HANDLE_FIELDS_def)

lemma use_sort_spec:
  assumes "mapping_ok config"
  shows "get (use_sort config) k = get config k"
    and "\<exists>mid. map fst (use_sort config) = map Str (filter (contains_key config) HANDLE_FIELDS) @ mid
        @ map Str (filter (contains_key config) DEFAULT_FIELDS) \<and> set mid \<subseteq> {k \<in> fst ` set config. is_mid_key k}"
    and "mapping_ok (use_sort config)"
proof -
  obtain rest hs where m1: "move_fields HANDLE_FIELDS (config, []) = (rest, hs)" by (rule prod.exhaust)
  note s1 = move_fields_spec [OF assms _ default_not_handle(3) m1]
  have rest: "distinct (map fst rest)" "map_of rest = (map_of config) |` (- Str ` set HANDLE_FIELDS)"
    and hs: "map_of hs = map_of config |` (Str ` set HANDLE_FIELDS)"
      "map fst hs = map Str (filter (contains_key config) HANDLE_FIELDS)"
    using s1 by (simp_all add: get_def mapping_ok_def)
  define mid where "mid = filter (\<lambda>(k, _). is_mid_key k) rest"
  define dfs where "dfs = filter (\<lambda>(k, _). is_default_key k) rest"
  have fresh: "\<forall>k \<in> fst ` set rest. is_mid_key k \<longrightarrow> map_of hs k = None"
    unfolding hs by (auto simp: is_mid_key_def restrict_map_def)
  have d: "distinct (map fst dfs)"
    using rest(1) unfolding dfs_def by (rule distinct_map_filter)
  have m2: "sort_rest rest (hs, []) = (hs @ mid, dfs)"
    using sort_rest_spec [OF rest(1) fresh] fold_update_fresh [OF d] by (simp add: mid_def dfs_def)
  obtain gone out where m3: "move_fields DEFAULT_FIELDS (dfs, hs @ mid) = (gone, out)" by (rule prod.exhaust)
  have us: "use_sort config = out" by (simp add: use_sort_def m1 m2 m3)
  have mid_of: "map_of mid k = (if is_mid_key k then map_of rest k else None)"
    and dfs_of: "map_of dfs k = (if is_default_key k then map_of rest k else None)" for k
    by (simp_all only: mid_def dfs_def map_of_filter_key)
  have f3: "\<forall>k \<in> set DEFAULT_FIELDS. get (hs @ mid) k = None"
    using default_not_handle(1)
    by (auto simp: get_def map_add_def mid_of hs restrict_map_def is_mid_key_def split: option.splits)
  note s3 = move_fields_spec [OF d [folded mapping_ok_def] f3 default_not_handle(2) m3]
  have same: "get dfs j = get config j" if "j \<in> set DEFAULT_FIELDS" for j
    using that default_not_handle(1)
    by (auto simp: get_def dfs_of is_default_key_def rest restrict_map_def)
  then have filt: "filter (contains_key dfs) DEFAULT_FIELDS = filter (contains_key config) DEFAULT_FIELDS"
    by (intro filter_cong) (simp_all add: contains_key_def)
  show "get (use_sort config) k = get config k"
    unfolding us using s3 same default_not_handle(1)
    by (auto simp: get_def map_add_def mid_of hs rest restrict_map_def is_mid_key_def dfs_of is_default_key_def
        split: option.splits)
  have mids: "set (map fst mid) \<subseteq> {k \<in> fst ` set config. is_mid_key k}"
  proof -
    have "k \<in> fst ` set config" if "k \<in> fst ` set rest" for k
    proof -
      from that rest(1) have "map_of rest k \<noteq> None" by (simp add: map_of_eq_None_iff)
      with rest(2) have "map_of config k \<noteq> None" by (auto simp: restrict_map_def split: if_splits)
      then show ?thesis by (simp add: map_of_eq_None_iff)
    qed
    then show ?thesis by (force simp: mid_def)
  qed
  with s3 hs filt show "\<exists>mid. map fst (use_sort config) = map Str (filter (contains_key config) HANDLE_FIELDS) @ mid
        @ map Str (filter (contains_key config) DEFAULT_FIELDS) \<and> set mid \<subseteq> {k \<in> fst ` set config. is_mid_key k}"
    unfolding us by auto
  have "distinct (map fst mid)"
    using rest(1) unfolding mid_def by (rule distinct_map_filter)
  moreover have "is_mid_key k \<Longrightarrow> k \<notin> Str ` set HANDLE_FIELDS \<union> Str ` set DEFAULT_FIELDS" for k
    by (auto simp: is_mid_key_def)
  ultimately show "mapping_ok (use_sort config)"
    unfolding us mapping_ok_def using s3 hs mids filt default_not_handle
    by (auto simp: distinct_map inj_on_def) 
qed

subsection \<open>Merging the same overlay twice\<close>

lemma yaml_ok_entry: "yaml_ok (Mapping m) \<Longrightarrow> (k, v) \<in> set m \<Longrightarrow> yaml_ok v"
  by auto

lemma merge_entries_lookup:
  "distinct (map fst b) \<Longrightarrow> map_of (merge_entries a b) k =
    (case map_of b k of None \<Rightarrow> map_of a k
     | Some v \<Rightarrow> Some (case map_of a k of None \<Rightarrow> v | Some e \<Rightarrow> deep_merge e v))"
proof (induction b arbitrary: a)
  case (Cons p b)
  obtain j v where p: "p = (j, v)" by (rule prod.exhaust)
  have j: "map_of b j = None" using Cons.prems p by (simp add: map_of_eq_None_iff)
  show ?case
  proof (cases "map_of a j")
    case None
    with Cons p j show ?thesis by (auto simp: yaml_map.lookup_ins split: option.splits)
  next
    case (Some e)
    with Cons p j show ?thesis by (auto simp: yaml_map.lookup_ins split: option.splits)
  qed
qed simp

lemma merge_entries_same:
  "(\<And>k v. (k, v) \<in> set b \<Longrightarrow> \<exists>e. map_of m k = Some e \<and> deep_merge e v = e) \<Longrightarrow> merge_entries m b = m"
proof (induction b)
  case (Cons p b)
  obtain k v where p: "p = (k, v)" by (rule prod.exhaust)
  from Cons.prems [of k v] p obtain e where "map_of m k = Some e" "deep_merge e v = e" by auto
  with Cons p show ?case by (simp add: AList.update_triv)
qed simp

lemma deep_merge_self: "yaml_ok v \<Longrightarrow> deep_merge v v = v"
proof (induction v rule: yaml_ok.induct)
  case (2 m)
  have "\<exists>e. map_of m k = Some e \<and> deep_merge e v = e" if "(k, v) \<in> set m" for k v
    using 2 that by auto
  then show ?case by (simp add: merge_entries_same)
qed simp_all

lemma merge_entries_self: "distinct (map fst m) \<Longrightarrow> \<forall>(k, v) \<in> set m. yaml_ok v \<Longrightarrow> merge_entries m m = m"
  using deep_merge_self [of "Mapping m"] by simp

lemma deep_merge_again: "yaml_ok b \<Longrightarrow> deep_merge (deep_merge a b) b = deep_merge a b"
proof (induction b arbitrary: a rule: yaml_ok.induct)
  case (2 b)
  show ?case
  proof (cases a)
    case (Mapping m)
    have d: "distinct (map fst b)" using 2 by simp
    have "\<exists>e. map_of (merge_entries m b) k = Some e \<and> deep_merge e v = e" if "(k, v) \<in> set b" for k v
    proof -
      from 2 that have v: "map_of b k = Some v" "yaml_ok v" by auto
      with 2 that show ?thesis
        by (auto simp: merge_entries_lookup d deep_merge_self split: option.splits)
    qed
    with Mapping show ?thesis by (simp add: merge_entries_same)
  qed (use 2 merge_entries_self in auto)
qed (auto simp: deep_merge_self)

lemma extend_again: "mapping_ok n \<Longrightarrow> extend_with (extend_with m n) n = extend_with m n"
  unfolding extend_with_def by (rule yaml_map.ins_all_again) (simp add: mapping_ok_def)

lemma extend_self: "mapping_ok n \<Longrightarrow> extend_with n n = n"
proof -
  assume a: "mapping_ok n"
  then have "extend_with [] n = n" unfolding extend_with_def mapping_ok_def by (rule fold_update_fresh)
  with extend_again [OF a, of "[]"] show ?thesis by simp
qed

lemma merge_value_again:
  assumes "yaml_ok v"
  shows "merge_value k (Some (merge_value k old v)) v = merge_value k old v"
proof (cases old)
  case None
  with assms show ?thesis
    by (cases v) (auto simp: merge_value_def merge_entries_self extend_self mapping_ok_def)
next
  case (Some e)
  show ?thesis
  proof (cases e)
    case (Mapping m)
    show ?thesis
    proof (cases v)
      case (Mapping n)
      then have n: "mapping_ok n" using assms by (simp add: mapping_ok_def)
      have dm: "deep_merge e v = Mapping (merge_entries m n)" using Mapping \<open>e = yaml.Mapping m\<close> by simp
      show ?thesis using Some \<open>e = yaml.Mapping m\<close> Mapping extend_again [OF n] deep_merge_again [OF assms, of e] dm
          extend_self [OF n] deep_merge_self [OF assms]
        by (simp add: merge_value_def)
    qed (use Some Mapping in \<open>auto simp: merge_value_def\<close>)
  qed (use Some deep_merge_self [OF assms] assms in \<open>auto simp: merge_value_def merge_entries_self extend_self mapping_ok_def split: yaml.splits\<close>)
qed

lemma use_lowercase_ok:
  assumes "yaml_ok (Mapping m)"
  shows "mapping_ok (use_lowercase m)" and "(k, v) \<in> set (use_lowercase m) \<Longrightarrow> yaml_ok v"
    and "(k, v) \<in> set (use_lowercase m) \<Longrightarrow> \<exists>s. k = Str s"
proof -
  have "mapping_ok acc \<Longrightarrow> (\<forall>(k, v) \<in> set acc. yaml_ok v \<and> (\<exists>s. k = Str s)) \<Longrightarrow> (\<forall>(k, v) \<in> set m. yaml_ok v) \<Longrightarrow>
    (let r = fold (\<lambda>(key, value) lowercased. case as_str key of
        Some s \<Rightarrow> AList.update (lowercase_key s) value lowercased | None \<Rightarrow> lowercased) m acc
     in mapping_ok r \<and> (\<forall>(k, v) \<in> set r. yaml_ok v \<and> (\<exists>s. k = Str s)))" for acc
  proof (induction m arbitrary: acc)
    case (Cons p m)
    obtain k v where p: "p = (k, v)" by (rule prod.exhaust)
    have u: "\<forall>(k, w) \<in> set (AList.update (lowercase_key s) v acc). yaml_ok w \<and> (\<exists>s. k = Str s)" for s
      using Cons.prems p by (induction acc) (auto simp: lowercase_key_def mapping_ok_def)
    show ?case
    proof (cases "as_str k")
      case None
      with Cons p show ?thesis by simp
    next
      case (Some s)
      have "mapping_ok (AList.update (lowercase_key s) v acc)" using Cons.prems(1) by (rule yaml_map.invar_ins)
      with Some u Cons.IH [of "AList.update (lowercase_key s) v acc"] Cons.prems p show ?thesis by simp
    qed
  qed simp
  from this [of "[]"] assms have "mapping_ok (use_lowercase m) \<and> (\<forall>(k, v) \<in> set (use_lowercase m). yaml_ok v \<and> (\<exists>s. k = Str s))"
    by (auto simp: use_lowercase_def Let_def)
  then show "mapping_ok (use_lowercase m)" "(k, v) \<in> set (use_lowercase m) \<Longrightarrow> yaml_ok v"
    "(k, v) \<in> set (use_lowercase m) \<Longrightarrow> \<exists>s. k = Str s" by auto
qed

lemma merge_fold_lookup:
  "distinct (map fst es) \<Longrightarrow>
   map_of (fold (\<lambda>(key, value) c. AList.update key (merge_value key (map_of c key) value) c) es config) k
    = (case map_of es k of None \<Rightarrow> map_of config k | Some v \<Rightarrow> Some (merge_value k (map_of config k) v))"
proof (induction es arbitrary: config)
  case (Cons p es)
  obtain j v where p: "p = (j, v)" by (rule prod.exhaust)
  then have "map_of es j = None" using Cons.prems by (simp add: map_of_eq_None_iff)
  with Cons p show ?case by (auto simp: yaml_map.lookup_ins split: option.splits)
qed simp

lemma get_use_merge:
  assumes "yaml_ok (Mapping m)"
  shows "get (use_merge m config) k = (case get (use_lowercase m) k of None \<Rightarrow> get config k
    | Some v \<Rightarrow> Some (merge_value (Str k) (get config k) v))"
  using merge_fold_lookup use_lowercase_ok(1) [OF assms]
  by (simp add: use_merge_def get_def mapping_ok_def split: option.splits)

lemma use_merge_ok: "mapping_ok config \<Longrightarrow> mapping_ok (use_merge m config)"
proof -
  have "mapping_ok config \<Longrightarrow>
    mapping_ok (fold (\<lambda>(key, value) c. AList.update key (merge_value key (map_of c key) value) c) es config)" for es
    by (induction es arbitrary: config) (auto simp: yaml_map.invar_ins)
  then show "mapping_ok config \<Longrightarrow> ?thesis" by (simp add: use_merge_def)
qed

text \<open>
  Applying a merge profile to a configuration that already contains it changes nothing, at any
  nesting depth and in the order of the keys too.
\<close>

theorem use_merge_idempotent:
  assumes "yaml_ok (Mapping m)"
  shows "use_merge m (use_merge m config) = use_merge m config"
proof -
  let ?es = "use_lowercase m"
  have same: "fold (\<lambda>(key, value) c. AList.update key (merge_value key (map_of c key) value) c) es c = c"
    if "\<And>k v. (k, v) \<in> set es \<Longrightarrow> \<exists>e. map_of c k = Some e \<and> merge_value k (Some e) v = e" for es c
    using that
  proof (induction es)
    case (Cons p es)
    obtain k v where p: "p = (k, v)" by (rule prod.exhaust)
    from Cons.prems [of k v] p obtain e where "map_of c k = Some e" "merge_value k (Some e) v = e" by auto
    with Cons p show ?case by (simp add: AList.update_triv)
  qed simp
  have d: "distinct (map fst ?es)" using use_lowercase_ok(1) [OF assms] by (simp add: mapping_ok_def)
  have "\<exists>e. map_of (use_merge m config) k = Some e \<and> merge_value k (Some e) v = e" if "(k, v) \<in> set ?es" for k v
    using that d use_lowercase_ok(2) [OF assms that]
    by (simp add: use_merge_def merge_fold_lookup merge_value_again)
  from same [OF this] show ?thesis by (simp add: use_merge_def [of m "use_merge m config"])
qed

theorem use_merge_idempotent_witness:
  "let m = [(Str ''TUN'', Mapping [(Str ''enable'', Bool True)]), (Str ''hosts'', Mapping [])];
       c = [(Str ''tun'', Mapping [(Str ''mtu'', Number (PosInt 1500))]), (Str ''hosts'', Str ''old'')]
   in use_merge m (use_merge m c) = use_merge m c \<and> get (use_merge m c) ''hosts'' = Some (Mapping [])"
proof -
  let ?m = "[(Str ''TUN'', Mapping [(Str ''enable'', Bool True)]), (Str ''hosts'', Mapping [])]"
  have "yaml_ok (Mapping ?m)" by simp
  from use_merge_idempotent [OF this] show ?thesis
    by (simp add: use_merge_def use_lowercase_def lowercase_key_def to_lower_def ascii_lower_def
        merge_value_def get_def)
qed

subsection \<open>Deleted and added proxies\<close>

lemma keep_first_set: "set (keep_first seen xs) = set xs - set seen"
  by (induction xs arbitrary: seen) auto

lemma keep_first_distinct: "distinct (keep_first seen xs)"
  by (induction xs arbitrary: seen) (auto simp: keep_first_set)

lemma keep_first_id: "distinct xs \<Longrightarrow> set xs \<inter> set seen = {} \<Longrightarrow> keep_first seen xs = xs"
  by (induction xs arbitrary: seen) auto

lemma merge_base_subset: "set (merge_base seen vs) \<subseteq> set vs"
  by (induction seen vs rule: merge_base.induct) auto

lemma take_proxies_cases:
  obtains (kept) qs where "take_proxies delete gm = (remove_key ''proxies'' gm, Some (filter (kept_reference delete) qs))"
  | (none) "take_proxies delete gm = (gm, None)" "get gm ''proxies'' = None"
  | (other) v where "take_proxies delete gm = (put ''proxies'' v (remove_key ''proxies'' gm), None)" "\<forall>qs. v \<noteq> Sequence qs"
proof (cases "get gm ''proxies''")
  case (Some v)
  then show ?thesis using that by (cases v) (auto simp: take_proxies_def)
qed (simp add: take_proxies_def that)

lemma update_group_proxies:
  assumes "update_group delete added appended gm = (gm', appended')"
    and "get gm' ''proxies'' = Some (Sequence ps)" and "Str n \<in> set ps" and "n \<in> set delete"
  shows "n \<in> set added"
proof -
  obtain m opt where t: "take_proxies delete gm = (m, opt)" by (rule prod.exhaust)
  have o: "opt = None \<and> (\<forall>qs. get m ''proxies'' \<noteq> Some (Sequence qs))
      \<or> (\<exists>qs. opt = Some (filter (kept_reference delete) qs))"
    using t by (cases rule: take_proxies_cases [of delete gm]) (auto simp: get_put)
  let ?b = "unwrap_or [] opt"
  have "Str n \<notin> set ?b" using o assms(4) by auto
  moreover have "n \<in> set added" if "Str n \<in> set (merged_proxies added ?b)" "Str n \<notin> set ?b"
    using that merge_base_subset [of "keep_first [] added" ?b]
    by (auto simp: merged_proxies_def Let_def keep_first_set)
  ultimately show ?thesis
    using assms(1-3) o by (auto simp: update_group_def t Let_def get_put split: if_splits)
qed

lemma update_groups_proxies:
  assumes "Mapping gm' \<in> set (update_groups delete added appended gs)"
    and "get gm' ''proxies'' = Some (Sequence ps)" and "Str n \<in> set ps" and "n \<in> set delete"
  shows "n \<in> set added"
  using assms
proof (induction delete added appended gs rule: update_groups.induct)
  case (2 delete added appended gm gs)
  obtain gm1 app where u: "update_group delete added appended gm = (gm1, app)" by (rule prod.exhaust)
  with 2 update_group_proxies [OF u] show ?case by auto
qed auto

lemma update_group_selector:
  assumes "mapping_ok gm" and "update_group delete added appended gm = (gm', appended')"
  shows "is_selector_group gm' = is_selector_group gm"
    and "appended' = (appended \<or> added \<noteq> [] \<and> is_selector_group gm)"
    and "\<not> appended \<Longrightarrow> appended' \<Longrightarrow> distinct added \<Longrightarrow>
      \<exists>rest. get gm' ''proxies'' = Some (Sequence (map Str added @ rest))"
proof -
  obtain m opt where t: "take_proxies delete gm = (m, opt)" by (rule prod.exhaust)
  have type: "get m ''type'' = get gm ''type''"
    using t assms(1) by (cases rule: take_proxies_cases [of delete gm]) (auto simp: get_put get_remove)
  then have sel: "is_selector_group m = is_selector_group gm" by (simp add: is_selector_group_def)
  show "is_selector_group gm' = is_selector_group gm"
    using assms(2) type unfolding sel [symmetric]
    by (auto simp: update_group_def t Let_def is_selector_group_def get_put split: option.splits if_splits)
  show "appended' = (appended \<or> added \<noteq> [] \<and> is_selector_group gm)"
    using assms(2) sel by (auto simp: update_group_def t Let_def)
  show "\<not> appended \<Longrightarrow> appended' \<Longrightarrow> distinct added \<Longrightarrow>
      \<exists>rest. get gm' ''proxies'' = Some (Sequence (map Str added @ rest))"
    using assms(2) by (auto simp: update_group_def t Let_def get_put merged_proxies_def keep_first_id split: if_splits)
qed

lemma update_groups_selector:
  assumes "\<forall>gm. Mapping gm \<in> set gs \<longrightarrow> mapping_ok gm" and "added \<noteq> []" and "distinct added"
    and "find (\<lambda>g. case g of Mapping gm \<Rightarrow> is_selector_group gm | _ \<Rightarrow> False)
        (update_groups delete added False gs) = Some g"
  shows "\<exists>gm rest. g = Mapping gm \<and> get gm ''proxies'' = Some (Sequence (map Str added @ rest))"
  using assms(1,4)
proof (induction gs)
  case (Cons h gs)
  show ?case
  proof (cases h)
    case (Mapping gm)
    obtain gm' app where u: "update_group delete added False gm = (gm', app)" by (rule prod.exhaust)
    have "mapping_ok gm" using Cons.prems(1) Mapping by simp
    note s = update_group_selector [OF this u]
    show ?thesis
    proof (cases "is_selector_group gm")
      case True
      with s assms(2,3) Cons.prems(2) Mapping u show ?thesis by auto
    next
      case False
      with s Cons Mapping u show ?thesis by auto
    qed
  qed (use Cons in auto)
qed simp

lemma length_update_groups: "length (update_groups delete added appended gs) = length gs"
  by (induction delete added appended gs rule: update_groups.induct) (auto split: prod.splits)

definition added_names :: "seq_map \<Rightarrow> string list" where
  "added_names seq = keep_first [] (collect_proxy_names (prepend seq) @ collect_proxy_names (append_items seq))"

text \<open>
  Editing the proxies of a profile keeps the order of the items that are not deleted between the
  prepended and the appended ones; in every group a deleted proxy is gone unless it is added again, and
  the first selector group offers the added proxies first.
\<close>

theorem use_seq_edits_groups:
  assumes "mapping_ok config" and "get config ''proxy-groups'' = Some (Sequence groups)"
    and "\<forall>gm. Mapping gm \<in> set groups \<longrightarrow> mapping_ok gm"
    and "get config ''proxies'' = Some (Sequence existing)"
  shows "get (use_seq seq config ''proxies'') ''proxies''
      = Some (Sequence (prepend seq @ filter (kept_item (delete_names seq)) existing @ append_items seq))
    \<and> (\<exists>groups'. get (use_seq seq config ''proxies'') ''proxy-groups'' = Some (Sequence groups')
        \<and> length groups' = length groups
        \<and> (\<forall>gm ps n. Mapping gm \<in> set groups' \<and> get gm ''proxies'' = Some (Sequence ps) \<and> Str n \<in> set ps
              \<and> n \<in> set (delete_names seq) \<longrightarrow> n \<in> set (added_names seq))
        \<and> (\<forall>g. added_names seq \<noteq> [] \<and> find (\<lambda>g. case g of Mapping gm \<Rightarrow> is_selector_group gm | _ \<Rightarrow> False) groups' = Some g
              \<longrightarrow> (\<exists>gm rest. g = Mapping gm \<and> get gm ''proxies'' = Some (Sequence (map Str (added_names seq) @ rest)))))"
proof -
  let ?c = "seq_items seq config ''proxies''"
  let ?gs = "update_groups (delete_names seq) (added_names seq) False groups"
  have g: "get ?c ''proxy-groups'' = Some (Sequence groups)"
    using assms(1,2) by (simp add: seq_items_def Let_def get_put get_remove)
  have "mapping_ok ?c" using assms(1) by (simp add: seq_items_def Let_def)
  then have e: "use_seq seq config ''proxies'' = put ''proxy-groups'' (Sequence ?gs) (remove_key ''proxy-groups'' ?c)"
    and r: "get (remove_key ''proxy-groups'' ?c) ''proxies'' = get ?c ''proxies''"
    using g by (simp_all add: use_seq_def added_names_def get_remove)
  have "distinct (added_names seq)" by (simp add: added_names_def keep_first_distinct)
  then show ?thesis
    using assms(3,4) r update_groups_proxies update_groups_selector
    unfolding e by (auto simp: get_put length_update_groups seq_items_def Let_def)
qed

theorem use_seq_edits_groups_witness:
  "let config = [(Str ''proxies'', Sequence [Str ''a'']),
         (Str ''proxy-groups'', Sequence [Mapping [(Str ''type'', Str ''select''), (Str ''proxies'', Sequence [Str ''a''])]])];
       seq = \<lparr>prepend = [Str ''b''], append_items = [], delete_names = [''a'']\<rparr>
   in get (use_seq seq config ''proxies'') ''proxies'' = Some (Sequence [Str ''b''])"
proof -
  let ?config = "[(Str ''proxies'', Sequence [Str ''a'']),
         (Str ''proxy-groups'', Sequence [Mapping [(Str ''type'', Str ''select''), (Str ''proxies'', Sequence [Str ''a''])]])]"
  let ?seq = "\<lparr>prepend = [Str ''b''], append_items = [], delete_names = [''a'']\<rparr>"
  from use_seq_edits_groups [where config = ?config and seq = ?seq
      and groups = "[Mapping [(Str ''type'', Str ''select''), (Str ''proxies'', Sequence [Str ''a''])]]"
      and existing = "[Str ''a'']"]
  show ?thesis by (simp add: mapping_ok_def get_def)
qed

end
