(* ===== verification/NetAddr.thy ===== *)
theory NetAddr
  imports Prelude
begin

section \<open>Internet addresses\<close>

text \<open>
  What the code uses of the address types of Rust's standard library: the parsers behind
  \<open>IpAddr::from_str\<close> and \<open>SocketAddr::from_str\<close> (decimal octets without leading zeros, groups of at
  most four hexadecimal digits, one \<open>::\<close>, an embedded IPv4 tail, an optional numeric scope) and the
  tests for loopback and unspecified addresses.  A parser takes the input and returns the value with
  the rest, or nothing.
\<close>

datatype ip_addr = V4 "nat list" | V6 "nat list"

record socket_addr =
  sock_ip :: ip_addr
  sock_scope :: nat
  sock_port :: nat

type_synonym 'a parser = "string \<Rightarrow> ('a \<times> string) option"

definition hex_digit :: "char \<Rightarrow> nat option" where
  "hex_digit c = (let n = of_char c :: nat in
     if 48 \<le> n \<and> n \<le> 57 then Some (n - 48)
     else if 97 \<le> n \<and> n \<le> 102 then Some (n - 87)
     else if 65 \<le> n \<and> n \<le> 70 then Some (n - 55) else None)"

definition to_digit :: "nat \<Rightarrow> char \<Rightarrow> nat option" where
  "to_digit radix c = (if radix = 16 then hex_digit c else digit_of c)"

text \<open>Reads digits to the end of the run; \<open>limit\<close> bounds their number or, without a bound, \<open>below\<close> the value.\<close>

fun read_digits :: "nat \<Rightarrow> nat \<Rightarrow> nat \<Rightarrow> string \<Rightarrow> nat \<times> nat \<times> string" where
  "read_digits radix acc count [] = (acc, count, [])"
| "read_digits radix acc count (c # cs) = (case to_digit radix c of
     None \<Rightarrow> (acc, count, c # cs)
   | Some d \<Rightarrow> read_digits radix (radix * acc + d) (Suc count) cs)"

definition read_number :: "nat \<Rightarrow> nat option \<Rightarrow> bool \<Rightarrow> nat \<Rightarrow> nat parser" where
  "read_number radix max_digits allow_zero_prefix below s =
     (let (n, count, rest) = read_digits radix 0 0 s;
          leading_zero = (case s of c # _ \<Rightarrow> c = CHR ''0'' | [] \<Rightarrow> False)
      in if count = 0 \<or> (case max_digits of Some k \<Rightarrow> k < count | None \<Rightarrow> False)
           \<or> (\<not> allow_zero_prefix \<and> leading_zero \<and> 1 < count) \<or> below \<le> n
         then None else Some (n, rest))"

definition read_given_char :: "char \<Rightarrow> unit parser" where
  "read_given_char c s = (case s of d # cs \<Rightarrow> if d = c then Some ((), cs) else None | [] \<Rightarrow> None)"

definition read_separator :: "char \<Rightarrow> nat \<Rightarrow> 'a parser \<Rightarrow> 'a parser" where
  "read_separator sep i p s =
     (if 0 < i then Option.bind (read_given_char sep s) (\<lambda>(_, rest). p rest) else p s)"

fun read_octets :: "nat \<Rightarrow> nat \<Rightarrow> nat list parser" where
  "read_octets i 0 s = Some ([], s)"
| "read_octets i (Suc n) s =
     (case read_separator (CHR ''.'') i (read_number 10 (Some 3) False 256) s of
        None \<Rightarrow> None
      | Some (x, rest) \<Rightarrow> map_option (\<lambda>(xs, rest). (x # xs, rest)) (read_octets (Suc i) n rest))"

definition read_ipv4_addr :: "nat list parser" where
  "read_ipv4_addr = read_octets 0 4"

fun read_groups :: "nat \<Rightarrow> nat \<Rightarrow> string \<Rightarrow> nat list \<times> bool \<times> string" where
  "read_groups i 0 s = ([], False, s)"
| "read_groups i (Suc n) s =
     (case (if 0 < n then read_separator (CHR '':'') i read_ipv4_addr s else None) of
        Some (v4, rest) \<Rightarrow> ([256 * v4 ! 0 + v4 ! 1, 256 * v4 ! 2 + v4 ! 3], True, rest)
      | None \<Rightarrow>
          (case read_separator (CHR '':'') i (read_number 16 (Some 4) True 65536) s of
             None \<Rightarrow> ([], False, s)
           | Some (g, rest) \<Rightarrow> (let (gs, v4, rest) = read_groups (Suc i) n rest in (g # gs, v4, rest))))"

definition read_ipv6_addr :: "nat list parser" where
  "read_ipv6_addr s =
     (let (head, head_ipv4, rest) = read_groups 0 8 s
      in if length head = 8 then Some (head, rest)
         else if head_ipv4 then None
         else (case read_given_char (CHR '':'') rest of
                 None \<Rightarrow> None
               | Some (_, rest) \<Rightarrow> (case read_given_char (CHR '':'') rest of
                   None \<Rightarrow> None
                 | Some (_, rest) \<Rightarrow>
                     (let (tail, _, rest) = read_groups 0 (7 - length head) rest
                      in Some (head @ replicate (8 - length head - length tail) 0 @ tail, rest)))))"

definition parse_all :: "'a parser \<Rightarrow> string \<Rightarrow> 'a option" where
  "parse_all p s = (case p s of Some (x, []) \<Rightarrow> Some x | _ \<Rightarrow> None)"

definition parse_ip :: "string \<Rightarrow> ip_addr option" where
  "parse_ip s = parse_all (\<lambda>s. case read_ipv4_addr s of
       Some (o4, rest) \<Rightarrow> Some (V4 o4, rest)
     | None \<Rightarrow> map_option (\<lambda>(g, rest). (V6 g, rest)) (read_ipv6_addr s)) s"

fun is_loopback :: "ip_addr \<Rightarrow> bool" where
  "is_loopback (V4 octets) = (hd octets = 127)"
| "is_loopback (V6 groups) = (groups = [0, 0, 0, 0, 0, 0, 0, 1])"

fun is_unspecified :: "ip_addr \<Rightarrow> bool" where
  "is_unspecified (V4 octets) = (octets = [0, 0, 0, 0])"
| "is_unspecified (V6 groups) = (groups = [0, 0, 0, 0, 0, 0, 0, 0])"

definition read_port :: "nat parser" where
  "read_port s = Option.bind (read_given_char (CHR '':'') s) (\<lambda>(_, rest). read_number 10 None True 65536 rest)"

definition read_scope_id :: "nat parser" where
  "read_scope_id s = Option.bind (read_given_char (CHR ''%'') s) (\<lambda>(_, rest). read_number 10 None True (2 ^ 32) rest)"

definition read_socket_addr_v4 :: "socket_addr parser" where
  "read_socket_addr_v4 s = Option.bind (read_ipv4_addr s) (\<lambda>(o4, rest).
     map_option (\<lambda>(p, rest). (\<lparr>sock_ip = V4 o4, sock_scope = 0, sock_port = p\<rparr>, rest)) (read_port rest))"

definition read_socket_addr_v6 :: "socket_addr parser" where
  "read_socket_addr_v6 s =
     Option.bind (read_given_char (CHR ''['') s) (\<lambda>(_, rest).
     Option.bind (read_ipv6_addr rest) (\<lambda>(groups, rest).
     (let (scope, rest) = (case read_scope_id rest of Some (n, rest') \<Rightarrow> (n, rest') | None \<Rightarrow> (0, rest))
      in Option.bind (read_given_char (CHR '']'') rest) (\<lambda>(_, rest).
         map_option (\<lambda>(p, rest). (\<lparr>sock_ip = V6 groups, sock_scope = scope, sock_port = p\<rparr>, rest))
           (read_port rest)))))"

definition parse_socket_addr :: "string \<Rightarrow> socket_addr option" where
  "parse_socket_addr s = parse_all (\<lambda>s. case read_socket_addr_v4 s of
       Some r \<Rightarrow> Some r | None \<Rightarrow> read_socket_addr_v6 s) s"

text \<open>How addresses are printed.\<close>

definition show_v4 :: "nat list \<Rightarrow> string" where
  "show_v4 octets = join_with (CHR ''.'') (map show_nat octets)"

fun hex_char :: "nat \<Rightarrow> char" where
  "hex_char d = (if d < 10 then char_of (48 + d) else char_of (87 + d))"

definition show_group :: "nat \<Rightarrow> string" where
  "show_group g = (let ds = [g div 4096 mod 16, g div 256 mod 16, g div 16 mod 16]
     in map hex_char (dropWhile ((=) 0) ds) @ [hex_char (g mod 16)])"

text \<open>The first longest run of zero groups, as start and length.\<close>

fun zero_runs :: "nat \<Rightarrow> nat list \<Rightarrow> (nat \<times> nat) \<Rightarrow> (nat \<times> nat) \<Rightarrow> nat \<times> nat" where
  "zero_runs i [] cur best = best"
| "zero_runs i (g # gs) cur best =
     (if g = 0 then
        let cur = (if snd cur = 0 then (i, 1) else (fst cur, Suc (snd cur)))
        in zero_runs (Suc i) gs cur (if snd best < snd cur then cur else best)
      else zero_runs (Suc i) gs (0, 0) best)"

definition show_v6 :: "nat list \<Rightarrow> string" where
  "show_v6 groups =
     (let sub = (\<lambda>gs. join_with (CHR '':'') (map show_group gs))
      in if take 6 groups = [0, 0, 0, 0, 0, 65535]
         then ''::ffff:'' @ show_v4 [groups ! 6 div 256, groups ! 6 mod 256, groups ! 7 div 256, groups ! 7 mod 256]
         else let (start, len) = zero_runs 0 groups (0, 0) (0, 0)
              in if 1 < len then sub (take start groups) @ ''::'' @ sub (drop (start + len) groups)
                 else sub groups)"

definition show_socket_addr :: "socket_addr \<Rightarrow> string" where
  "show_socket_addr a = (case sock_ip a of
     V4 octets \<Rightarrow> show_v4 octets @ '':'' @ show_nat (sock_port a)
   | V6 groups \<Rightarrow> ''['' @ show_v6 groups
       @ (if sock_scope a = 0 then [] else ''%'' @ show_nat (sock_scope a)) @ '']:'' @ show_nat (sock_port a))"

subsection \<open>IPv4 addresses round trip\<close>

lemma read_digits_append:
  assumes "\<And>c. c \<in> set ds \<Longrightarrow> to_digit 10 c \<noteq> None"
    and "case rest of c # _ \<Rightarrow> to_digit 10 c = None | [] \<Rightarrow> True"
  shows "read_digits 10 acc count (ds @ rest)
    = (the (parse_digits acc ds), count + length ds, rest)"
  using assms
proof (induction ds arbitrary: acc count)
  case Nil
  then show ?case by (cases rest) auto
next
  case (Cons c ds)
  from Cons.prems obtain d where "to_digit 10 c = Some d" by fastforce
  with Cons show ?case by (simp add: to_digit_def)
qed

lemma parse_digits_Some: "parse_digits acc ds = Some n \<Longrightarrow> c \<in> set ds \<Longrightarrow> digit_of c \<noteq> None"
  by (induction ds arbitrary: acc) (auto split: option.splits)

lemma show_nat_digits: "c \<in> set (show_nat n) \<Longrightarrow> to_digit 10 c \<noteq> None"
  using parse_digits_Some [OF parse_digits_show_nat] by (simp add: to_digit_def)

lemma length_show_nat: "n < 10 ^ Suc k \<Longrightarrow> length (show_nat n) \<le> Suc k"
proof (induction k arbitrary: n)
  case 0
  then show ?case by (subst show_nat.simps) simp
next
  case (Suc k)
  then have "length (show_nat (n div 10)) \<le> Suc k" by simp
  then show ?case by (subst show_nat.simps) simp
qed

lemma show_nat_leading_zero: "show_nat n = CHR ''0'' # cs \<Longrightarrow> cs = []"
proof (induction n arbitrary: cs rule: show_nat.induct)
  case (1 n)
  show ?case
  proof (cases "n < 10")
    case True
    with 1 show ?thesis by (subst (asm) (2) show_nat.simps) simp
  next
    case False
    with "1.prems" have s: "show_nat (n div 10) @ [char_of (48 + n mod 10)] = CHR ''0'' # cs"
      by (subst (asm) show_nat.simps) simp
    obtain ds where d: "show_nat (n div 10) = CHR ''0'' # ds"
      using s show_nat_nonempty [of "n div 10"] by (cases "show_nat (n div 10)") auto
    with 1 False have "ds = []" by simp
    with d have "parse_digits 0 [CHR ''0''] = Some (n div 10)" using parse_digits_show_nat by metis
    then have "n div 10 = 0" by (simp add: digit_of_def)
    with False show ?thesis by simp
  qed
qed

end
