(* ===== verification/Authoritative.thy ===== *)
theory Authoritative
  imports ConfigMerge NetAddr
begin

section \<open>Fields the application owns in the core configuration\<close>

text \<open>
  Models the pure steps of \<open>src-tauri/src/enhance/mod.rs\<close>: the application's own clash settings laid
  over a profile, the built-in fixes, the DNS page, the fields the application owns (captured before
  the user's overlays and scripts run and enforced afterwards), the note on discarded writes, the LAN
  bind address and the clean-up of dangling proxy references.
\<close>

subsection \<open>Owned keys\<close>

definition CONTROL_PLANE_KEYS :: "platform \<Rightarrow> string list" where
  "CONTROL_PLANE_KEYS plat =
     [''external-controller'']
     @ (if plat \<noteq> Windows then [''external-controller-unix''] else [''external-controller-pipe''])
     @ [''external-controller-cors'', ''secret'', ''mixed-port'', ''socks-port'', ''port'']
     @ (if plat \<noteq> Windows then [''redir-port''] else [])
     @ (if plat = Linux then [''tproxy-port''] else [])
     @ [''mode'', ''allow-lan'', ''log-level'', ''ipv6'', ''unified-delay'']"

definition GUI_KEYS :: "platform \<Rightarrow> string list" where
  "GUI_KEYS plat = [''stack'', ''device'', ''auto-route'', ''route-exclude-address'']
     @ (if plat = Linux then [''auto-redirect''] else [])
     @ [''auto-detect-interface'', ''dns-hijack'', ''strict-route'', ''mtu'']"

definition snapshot_control_plane :: "platform \<Rightarrow> mapping \<Rightarrow> mapping" where
  "snapshot_control_plane plat config = fold (\<lambda>key snapshot.
     case get config key of Some value \<Rightarrow> put key value snapshot | None \<Rightarrow> snapshot) (CONTROL_PLANE_KEYS plat) []"

definition enforce_control_plane :: "platform \<Rightarrow> mapping \<Rightarrow> mapping \<Rightarrow> mapping" where
  "enforce_control_plane plat config snapshot =
     extend_with (fold (\<lambda>key. if \<not> contains_key snapshot key then remove_key key else id)
       (CONTROL_PLANE_KEYS plat) config) snapshot"

definition gui_tun_keys :: "platform \<Rightarrow> mapping \<Rightarrow> yaml list" where
  "gui_tun_keys plat clash_config = Str ''enable'' #
     (case get clash_config ''tun'' of
        Some (Mapping tun) \<Rightarrow> map Str (filter (contains_key tun) (GUI_KEYS plat)) | _ \<Rightarrow> [])"

definition snapshot_tun :: "mapping \<Rightarrow> yaml list \<Rightarrow> mapping" where
  "snapshot_tun config gui_keys = (case get config ''tun'' of
     Some (Mapping tun) \<Rightarrow> fold (\<lambda>key snapshot.
       case map_of tun key of Some value \<Rightarrow> AList.update key value snapshot | None \<Rightarrow> snapshot) gui_keys []
   | _ \<Rightarrow> [])"

definition enforce_tun :: "mapping \<Rightarrow> mapping \<Rightarrow> mapping" where
  "enforce_tun config snapshot =
     (if snapshot = [] then config
      else put ''tun'' (Mapping (extend_with (mapping_at config ''tun'') snapshot)) config)"

text \<open>\<open>std::mem::take\<close> of a mapping inside the configuration: it is left empty in its place.\<close>

definition take_mapping :: "mapping \<Rightarrow> string \<Rightarrow> mapping \<times> mapping" where
  "take_mapping config key = (case get config key of
     None \<Rightarrow> ([], config)
   | Some v \<Rightarrow> (case as_mapping v of
       None \<Rightarrow> ([], config)
     | Some m \<Rightarrow> (m, put key (map_mapping (\<lambda>_. []) v) config)))"

record authoritative_fields =
  control_plane :: mapping
  own_tun :: mapping
  own_dns :: mapping
  own_hosts :: "yaml option"

definition capture_fields :: "platform \<Rightarrow> mapping \<Rightarrow> yaml list \<Rightarrow> mapping \<Rightarrow> authoritative_fields" where
  "capture_fields plat config gui_keys dns_settings =
     (let (dns_part, dns_settings) = take_mapping dns_settings ''dns''
      in \<lparr>control_plane = snapshot_control_plane plat config, own_tun = snapshot_tun config gui_keys,
          own_dns = dns_part, own_hosts = get dns_settings ''hosts''\<rparr>)"

definition enforce :: "platform \<Rightarrow> authoritative_fields \<Rightarrow> mapping \<Rightarrow> mapping" where
  "enforce plat a config =
     (let config = enforce_control_plane plat config (control_plane a);
          config = enforce_tun config (own_tun a);
          config = (if own_dns a \<noteq> [] then
              let (d, config) = take_mapping config ''dns''
              in put ''dns'' (Mapping (extend_with d (own_dns a))) config
            else config)
      in (case own_hosts a of Some h \<Rightarrow> put ''hosts'' h config | None \<Rightarrow> config))"

definition current_fields :: "platform \<Rightarrow> authoritative_fields \<Rightarrow> mapping \<Rightarrow> authoritative_fields" where
  "current_fields plat a config =
     (let d = Option.bind (get config ''dns'') as_mapping
      in \<lparr>control_plane = snapshot_control_plane plat config,
          own_tun = snapshot_tun config (map fst (own_tun a)),
          own_dns = fold (\<lambda>(k, v). AList.update k v) (List.map_filter (\<lambda>(key, _).
            case d of None \<Rightarrow> None | Some m \<Rightarrow> map_option (Pair key) (map_of m key)) (own_dns a)) [],
          own_hosts = (case own_hosts a of None \<Rightarrow> None | Some _ \<Rightarrow> get config ''hosts'')\<rparr>)"

definition moved_off :: "yaml option \<Rightarrow> yaml option \<Rightarrow> yaml option \<Rightarrow> bool" where
  "moved_off before after owned \<longleftrightarrow> \<not> opt_yaml_eq before after \<and> \<not> opt_yaml_eq after owned"

definition overridden :: "platform \<Rightarrow> authoritative_fields \<Rightarrow> authoritative_fields \<Rightarrow> authoritative_fields
    \<Rightarrow> string list" where
  "overridden plat own before after =
     filter (\<lambda>key. moved_off (get (control_plane before) key) (get (control_plane after) key)
       (get (control_plane own) key)) (CONTROL_PLANE_KEYS plat)
     @ map (\<lambda>key. ''tun.'' @ unwrap_or [] (as_str key)) (filter (\<lambda>key. moved_off (map_of (own_tun before) key)
         (map_of (own_tun after) key) (map_of (own_tun own) key)) (map_keys (own_tun own)))
     @ map (\<lambda>key. ''dns.'' @ unwrap_or [] (as_str key)) (filter (\<lambda>key. moved_off (map_of (own_dns before) key)
         (map_of (own_dns after) key) (map_of (own_dns own) key)) (map_keys (own_dns own)))
     @ (if own_hosts own \<noteq> None \<and> moved_off (own_hosts before) (own_hosts after) (own_hosts own) then [''hosts''] else [])"

type_synonym result_log = "(string \<times> string) list"

definition discarded_note :: "string \<Rightarrow> string \<times> string" where
  "discarded_note key =
     (''warn'', ''`'' @ key @ ''` is managed by Settings; the value written here was discarded'')"

record discarded_keys_notice =
  pending_notice :: "string option"
  last_notice :: "string list"

definition join_keys :: "string list \<Rightarrow> string" where
  "join_keys keys = (case keys of [] \<Rightarrow> [] | k # ks \<Rightarrow> foldl (\<lambda>acc s. acc @ '', '' @ s) k ks)"

text \<open>The second component says whether the notice is shown.\<close>

definition notify_discarded_keys :: "string list \<Rightarrow> discarded_keys_notice \<Rightarrow> discarded_keys_notice \<times> bool" where
  "notify_discarded_keys keys notice =
     (if last_notice notice = keys then (notice, False)
      else (\<lparr>pending_notice = (if keys \<noteq> [] then Some (join_keys keys) else pending_notice notice),
             last_notice = keys\<rparr>, keys \<noteq> []))"

definition take_discarded_keys_notice :: "discarded_keys_notice \<Rightarrow> string option \<times> discarded_keys_notice" where
  "take_discarded_keys_notice notice = (pending_notice notice, notice\<lparr>pending_notice := None\<rparr>)"

subsection \<open>The application's settings over the profile\<close>

record listener_switches =
  sw_socks :: bool
  sw_http :: bool
  sw_external_controller :: bool
  sw_redir :: bool
  sw_tproxy :: bool

definition merge_default_entry :: "platform \<Rightarrow> listener_switches \<Rightarrow> yaml \<Rightarrow> yaml \<Rightarrow> mapping \<Rightarrow> mapping" where
  "merge_default_entry plat sw key value config =
     (if as_str key = Some ''tun'' then
        put ''tun'' (Mapping (extend_with (mapping_at config ''tun'')
          (case as_mapping value of Some m \<Rightarrow> m | None \<Rightarrow> []))) config
      else if as_str key = Some ''socks-port'' \<and> \<not> sw_socks sw then remove_key ''socks-port'' config
      else if as_str key = Some ''port'' \<and> \<not> sw_http sw then remove_key ''port'' config
      else if as_str key = Some ''redir-port'' \<and> plat = Windows then config
      else if as_str key = Some ''redir-port'' \<and> \<not> sw_redir sw then remove_key ''redir-port'' config
      else if as_str key = Some ''tproxy-port'' \<and> (plat \<noteq> Linux \<or> \<not> sw_tproxy sw)
      then remove_key ''tproxy-port'' config
      else if as_str key = Some ''external-controller'' then
        AList.update key (if sw_external_controller sw then value else Str []) config
      else AList.update key value config)"

definition merge_default_config :: "platform \<Rightarrow> listener_switches \<Rightarrow> mapping \<Rightarrow> mapping \<Rightarrow> mapping" where
  "merge_default_config plat sw config clash_config =
     fold (\<lambda>(key, value). merge_default_entry plat sw key value) clash_config config"

subsection \<open>Built-in fixes\<close>

datatype chain_support = ClashMeta | ClashMetaAlpha

definition is_support :: "chain_support \<Rightarrow> string option \<Rightarrow> bool" where
  "is_support s core = (case core of
     Some c \<Rightarrow> (s = ClashMeta \<and> c = ''verge-mihomo'') \<or> (s = ClashMetaAlpha \<and> c = ''verge-mihomo-alpha'')
   | None \<Rightarrow> True)"

text \<open>The built-in scripts by their identifiers; the code runs native versions of them.\<close>

definition builtin_items :: "(chain_support \<times> string) list" where
  "builtin_items = [(ClashMeta, ''verge_hy_alpn''), (ClashMeta, ''verge_meta_guard''),
     (ClashMetaAlpha, ''verge_hy_alpn''), (ClashMetaAlpha, ''verge_meta_guard'')]"

definition hy_alpn_proxy :: "mapping \<Rightarrow> mapping" where
  "hy_alpn_proxy proxy =
     (if Option.bind (get proxy ''type'') as_str = Some ''hysteria'' then
        (case get proxy ''alpn'' of Some (Str alpn) \<Rightarrow> put ''alpn'' (Sequence [Str alpn]) proxy | _ \<Rightarrow> proxy)
      else proxy)"

definition builtin_hy_alpn :: "mapping \<Rightarrow> mapping" where
  "builtin_hy_alpn config = (case get config ''proxies'' of
     Some (Sequence proxies) \<Rightarrow> put ''proxies'' (Sequence (map (map_mapping hy_alpn_proxy) proxies)) config
   | _ \<Rightarrow> config)"

definition builtin_meta_guard :: "mapping \<Rightarrow> mapping" where
  "builtin_meta_guard config =
     (if Option.bind (get config ''mode'') as_str = Some ''script'' then put ''mode'' (Str ''rule'') config else config)"

definition run_builtin :: "string \<Rightarrow> mapping \<Rightarrow> mapping" where
  "run_builtin uid config =
     (if uid = ''verge_hy_alpn'' then builtin_hy_alpn config
      else if uid = ''verge_meta_guard'' then builtin_meta_guard config else config)"

definition apply_builtin_scripts :: "mapping \<Rightarrow> string option \<Rightarrow> bool \<Rightarrow> mapping" where
  "apply_builtin_scripts config clash_core enable_builtin =
     (let items = map snd (filter (\<lambda>(s, _). is_support s clash_core) builtin_items)
      in if enable_builtin \<and> items \<noteq> [] then fold run_builtin items (use_lowercase_owned config) else config)"

subsection \<open>The LAN bind address\<close>

definition is_ipv4_shorthand_loopback :: "string \<Rightarrow> bool" where
  "is_ipv4_shorthand_loopback addr =
     (let parts = map parse_nat (split_on (CHR ''.'') addr)
      in list_all (\<lambda>p. case p of Some n \<Rightarrow> n < 2 ^ 32 | None \<Rightarrow> False) parts \<and>
         (case map the parts of
            [a, rest] \<Rightarrow> a = 127 \<and> rest \<le> 0xffffff
          | [a, b, rest] \<Rightarrow> a = 127 \<and> b \<le> 0xff \<and> rest \<le> 0xffff
          | [a, b, c, d] \<Rightarrow> a = 127 \<and> b \<le> 0xff \<and> c \<le> 0xff \<and> d \<le> 0xff
          | _ \<Rightarrow> False))"

definition strip_brackets :: "string \<Rightarrow> string" where
  "strip_brackets addr = (if starts_with ''['' addr \<and> ends_with '']'' (tl addr) then butlast (tl addr) else addr)"

definition is_loopback_bind_address :: "string \<Rightarrow> bool" where
  "is_loopback_bind_address addr =
     (let a = strip_brackets (trim addr)
      in eq_ignore_case a ''localhost'' \<or> (case parse_ip a of Some ip \<Rightarrow> is_loopback ip | None \<Rightarrow> False)
         \<or> is_ipv4_shorthand_loopback a)"

definition ensure_lan_bind_address :: "mapping \<Rightarrow> mapping" where
  "ensure_lan_bind_address config =
     (let allow_lan = unwrap_or False (Option.bind (get config ''allow-lan'') as_bool)
      in if allow_lan \<and> (case Option.bind (get config ''bind-address'') as_str of
             Some a \<Rightarrow> is_loopback_bind_address a | None \<Rightarrow> False)
         then put ''bind-address'' (Str ''*'') config else config)"

subsection \<open>References to proxies that do not exist\<close>

definition BUILTIN_POLICIES :: "string list" where
  "BUILTIN_POLICIES = [''DIRECT'', ''REJECT'', ''REJECT-DROP'', ''PASS'', ''PASS-RULE'']"

definition sequence_at :: "mapping \<Rightarrow> string \<Rightarrow> yaml list" where
  "sequence_at config key = unwrap_or [] (Option.bind (get config key) as_sequence)"

definition proxy_names :: "mapping \<Rightarrow> string list" where
  "proxy_names config = List.map_filter item_name (sequence_at config ''proxies'')"

definition group_names :: "mapping \<Rightarrow> string list" where
  "group_names config = List.map_filter (\<lambda>item.
     Option.bind (Option.bind (as_mapping item) (\<lambda>m. get m ''name'')) as_str) (sequence_at config ''proxy-groups'')"

definition provider_names :: "mapping \<Rightarrow> string list" where
  "provider_names config = List.map_filter as_str (map_keys
     (unwrap_or [] (Option.bind (get config ''proxy-providers'') as_mapping)))"

definition allowed_names :: "mapping \<Rightarrow> string list" where
  "allowed_names config = proxy_names config @ group_names config @ provider_names config @ BUILTIN_POLICIES"

fun is_provider :: "string list \<Rightarrow> yaml \<Rightarrow> bool" where
  "is_provider providers (Str name) = (name \<in> set providers)"
| "is_provider providers v = False"

fun kept_proxy :: "string list \<Rightarrow> bool \<Rightarrow> yaml \<Rightarrow> bool" where
  "kept_proxy allowed has_valid_provider (Str name) = (name \<in> set allowed \<or> has_valid_provider)"
| "kept_proxy allowed has_valid_provider v = True"

definition cleanup_group :: "string list \<Rightarrow> string list \<Rightarrow> mapping \<Rightarrow> mapping" where
  "cleanup_group providers allowed group_map =
     (let (group_map, has_valid_provider) =
            (case get group_map ''use'' of
               Some (Sequence uses) \<Rightarrow>
                 (put ''use'' (Sequence (filter (is_provider providers) uses)) group_map,
                  list_ex (is_provider providers) uses)
             | _ \<Rightarrow> (group_map, False))
      in (case get group_map ''proxies'' of
            Some (Sequence proxies) \<Rightarrow>
              put ''proxies'' (Sequence (filter (kept_proxy allowed has_valid_provider) proxies)) group_map
          | _ \<Rightarrow> group_map))"

definition cleanup_proxy_groups :: "mapping \<Rightarrow> mapping" where
  "cleanup_proxy_groups config =
     (case get config ''proxy-groups'' of
        Some (Sequence groups) \<Rightarrow>
          put ''proxy-groups'' (Sequence (map (map_mapping
            (cleanup_group (provider_names config) (allowed_names config))) groups)) config
      | _ \<Rightarrow> config)"

subsection \<open>The DNS page\<close>

definition ensure_fake_ip_range6 :: "mapping \<Rightarrow> mapping" where
  "ensure_fake_ip_range6 d =
     (let ipv6_enabled = unwrap_or False (Option.bind (get d ''ipv6'') as_bool);
          is_fake_ip = (case Option.bind (get d ''enhanced-mode'') as_str of Some m \<Rightarrow> m = ''fake-ip'' | None \<Rightarrow> True);
          range6_missing = (case Option.bind (get d ''fake-ip-range6'') as_str of Some s \<Rightarrow> trim s = [] | None \<Rightarrow> True)
      in if ipv6_enabled \<and> is_fake_ip \<and> range6_missing
         then put ''fake-ip-range6'' (Str ''2001:2::0/64'') d else d)"

fun is_set :: "yaml \<Rightarrow> bool" where
  "is_set Null = False"
| "is_set (Bool on) = on"
| "is_set (Str text) = (trim text \<noteq> [])"
| "is_set (Sequence items) = (items \<noteq> [])"
| "is_set (Mapping m) = (m \<noteq> [])"
| "is_set (Number n) = True"
| "is_set (Tagged t v) = True"

definition merge_dns_config :: "mapping \<Rightarrow> mapping \<Rightarrow> mapping \<times> mapping" where
  "merge_dns_config config dns_config =
     (let (config, applied) = (case get dns_config ''hosts'' of
            Some (Mapping h) \<Rightarrow>
              if h \<noteq> [] then (put ''hosts'' (Mapping h) config, put ''hosts'' (Mapping h) []) else (config, [])
          | _ \<Rightarrow> (config, []));
          dns_config = remove_key ''hosts'' dns_config;
          dns_override = (case get dns_config ''dns'' of
            Some (Mapping d) \<Rightarrow> Some d
          | Some _ \<Rightarrow> None
          | None \<Rightarrow> Some dns_config)
      in case dns_override of
           None \<Rightarrow> (config, applied)
         | Some d \<Rightarrow>
             (let d = filter (\<lambda>(_, value). is_set value) d;
                  applied = (if d \<noteq> [] then put ''dns'' (Mapping d) applied else applied);
                  (own, config) = take_mapping config ''dns''
              in (put ''dns'' (Mapping (ensure_fake_ip_range6 (extend_with own d))) config, applied)))"

text \<open>
  \<open>dns_file\<close> is the text of the DNS file, if the application directory is known and the file exists and
  is readable; \<open>parse\<close> is the YAML parser.
\<close>

definition apply_dns_settings :: "(string \<Rightarrow> mapping option) \<Rightarrow> string option \<Rightarrow> mapping \<Rightarrow> bool \<Rightarrow> mapping \<times> mapping" where
  "apply_dns_settings parse dns_file config enable_dns_settings =
     (if enable_dns_settings then
        (case Option.bind dns_file parse of
           Some dns_config \<Rightarrow> merge_dns_config config dns_config
         | None \<Rightarrow> (config, []))
      else (config, []))"

subsection \<open>What a snapshot holds\<close>

lemma map_of_collect:
  "map_of (fold (\<lambda>key s. case f key of Some v \<Rightarrow> AList.update key v s | None \<Rightarrow> s) ks acc) x
    = (if x \<in> set ks then (case f x of Some v \<Rightarrow> Some v | None \<Rightarrow> map_of acc x) else map_of acc x)"
  by (induction ks arbitrary: acc) (auto simp: AList.update_conv' split: option.splits)

lemma ok_collect:
  "mapping_ok acc \<Longrightarrow> mapping_ok (fold (\<lambda>key s. case f key of Some v \<Rightarrow> AList.update key v s | None \<Rightarrow> s) ks acc)"
  by (induction ks arbitrary: acc) (auto simp: yaml_map.invar_ins split: option.splits)

lemma snapshot_control_plane_collect:
  "snapshot_control_plane plat config = fold (\<lambda>key s. case map_of config key of
     Some v \<Rightarrow> AList.update key v s | None \<Rightarrow> s) (map Str (CONTROL_PLANE_KEYS plat)) []"
  unfolding snapshot_control_plane_def get_def put_def by (simp add: fold_map comp_def)

lemma get_snapshot_control_plane:
  "get (snapshot_control_plane plat config) k = (if k \<in> set (CONTROL_PLANE_KEYS plat) then get config k else None)"
  by (auto simp: snapshot_control_plane_collect get_def map_of_collect split: option.splits)

lemma snapshot_control_plane_ok [simp]: "mapping_ok (snapshot_control_plane plat config)"
  by (simp add: snapshot_control_plane_collect ok_collect)

lemma snapshot_keys:
  "fst ` set (snapshot_control_plane plat config) \<subseteq> Str ` set (CONTROL_PLANE_KEYS plat)"
proof
  fix k assume "k \<in> fst ` set (snapshot_control_plane plat config)"
  then have "map_of (snapshot_control_plane plat config) k \<noteq> None" by (simp add: map_of_eq_None_iff)
  then show "k \<in> Str ` set (CONTROL_PLANE_KEYS plat)"
    by (auto simp: snapshot_control_plane_collect map_of_collect split: if_splits)
qed

lemma get_enforce_control_plane:
  assumes "mapping_ok config" and "mapping_ok snap"
    and "fst ` set snap \<subseteq> Str ` set (CONTROL_PLANE_KEYS plat)"
  shows "get (enforce_control_plane plat config snap) k
    = (if k \<in> set (CONTROL_PLANE_KEYS plat) then get snap k else get config k)"
proof -
  have e: "enforce_control_plane plat config snap = fold (\<lambda>(k, v). AList.update k v) snap
    (fold (\<lambda>k. if map_of snap k = None then swap_remove k else id) (map Str (CONTROL_PLANE_KEYS plat)) config)"
    unfolding enforce_control_plane_def extend_with_def contains_key_def get_def remove_key_def [abs_def]
    by (simp add: fold_map comp_def)
  have "map_of (enforce_control_plane plat config snap) (Str k)
    = (if Str k \<in> set (map Str (CONTROL_PLANE_KEYS plat)) then map_of snap (Str k) else map_of config (Str k))"
    unfolding e by (rule yaml_map.lookup_restore) (use assms in \<open>auto simp: mapping_ok_def\<close>)
  then show ?thesis by (simp add: get_def image_iff)
qed

lemma enforce_control_plane_ok: "mapping_ok config \<Longrightarrow> mapping_ok (enforce_control_plane plat config snap)"
proof -
  assume a: "mapping_ok config"
  have "mapping_ok (fold (\<lambda>key. if \<not> contains_key snap key then remove_key key else id) ks config)" for ks
    using a by (induction ks arbitrary: config) simp_all
  then show ?thesis by (simp add: enforce_control_plane_def)
qed

lemma get_take_mapping: "k \<noteq> key \<Longrightarrow> get (snd (take_mapping config key)) k = get config k"
  by (auto simp: take_mapping_def get_put split: option.splits)

lemma take_mapping_ok: "mapping_ok config \<Longrightarrow> mapping_ok (snd (take_mapping config key))"
  by (auto simp: take_mapping_def split: option.splits)

lemma not_control_plane:
  "''tun'' \<notin> set (CONTROL_PLANE_KEYS plat)" "''dns'' \<notin> set (CONTROL_PLANE_KEYS plat)"
  "''hosts'' \<notin> set (CONTROL_PLANE_KEYS plat)" "''bind-address'' \<notin> set (CONTROL_PLANE_KEYS plat)"
  "''proxy-groups'' \<notin> set (CONTROL_PLANE_KEYS plat)"
  by (simp_all add: CONTROL_PLANE_KEYS_def)

subsection \<open>Owned fields survive every overlay\<close>

lemma enforce_lookup:
  assumes "mapping_ok config" and "control_plane a = snapshot_control_plane plat derived"
    and "mapping_ok (own_tun a)" and "mapping_ok (own_dns a)"
  shows "k \<in> set (CONTROL_PLANE_KEYS plat) \<Longrightarrow> get (enforce plat a config) k = get derived k"
    and "k \<notin> set (CONTROL_PLANE_KEYS plat) \<union> {''tun'', ''dns'', ''hosts''} \<Longrightarrow>
      get (enforce plat a config) k = get config k"
    and "map_of (own_tun a) tk = Some tv \<Longrightarrow>
      \<exists>m. get (enforce plat a config) ''tun'' = Some (Mapping m) \<and> map_of m tk = Some tv"
    and "map_of (own_dns a) dk = Some dv \<Longrightarrow>
      \<exists>m. get (enforce plat a config) ''dns'' = Some (Mapping m) \<and> map_of m dk = Some dv"
    and "own_hosts a = Some h \<Longrightarrow> get (enforce plat a config) ''hosts'' = Some h"
    and "mapping_ok (enforce plat a config)"
proof -
  let ?c1 = "enforce_control_plane plat config (control_plane a)"
  let ?c2 = "enforce_tun ?c1 (own_tun a)"
  let ?c3 = "if own_dns a \<noteq> [] then put ''dns'' (Mapping (extend_with (fst (take_mapping ?c2 ''dns'')) (own_dns a)))
    (snd (take_mapping ?c2 ''dns'')) else ?c2"
  have e: "enforce plat a config = (case own_hosts a of Some h \<Rightarrow> put ''hosts'' h ?c3 | None \<Rightarrow> ?c3)"
    unfolding enforce_def Let_def split_beta by simp
  have g1: "get ?c1 j = (if j \<in> set (CONTROL_PLANE_KEYS plat) then get derived j else get config j)" for j
    using get_enforce_control_plane [OF assms(1)] snapshot_keys
    by (simp add: assms(2) get_snapshot_control_plane)
  have g2: "get ?c2 j = get ?c1 j" if "j \<noteq> ''tun''" for j
    using that by (simp add: enforce_tun_def get_put)
  have g3: "get ?c3 j = get ?c2 j" if "j \<noteq> ''dns''" for j
    using that by (simp add: get_put get_take_mapping)
  have g4: "get (enforce plat a config) j = get ?c3 j" if "j \<noteq> ''hosts''" for j
    using that by (simp add: e get_put split: option.splits)
  show "k \<in> set (CONTROL_PLANE_KEYS plat) \<Longrightarrow> get (enforce plat a config) k = get derived k"
    using not_control_plane g1 g2 g3 g4 by metis
  show "k \<notin> set (CONTROL_PLANE_KEYS plat) \<union> {''tun'', ''dns'', ''hosts''} \<Longrightarrow>
      get (enforce plat a config) k = get config k"
    using g1 g2 g3 g4 by simp
  have lk: "map_of (extend_with m n) x = Some v" if "mapping_ok n" "map_of n x = Some v" for m n x v
    using that by (simp add: extend_with_def mapping_ok_def yaml_map.lookup_ins_all map_add_def)
  show "map_of (own_tun a) tk = Some tv \<Longrightarrow>
      \<exists>m. get (enforce plat a config) ''tun'' = Some (Mapping m) \<and> map_of m tk = Some tv"
  proof -
    assume t: "map_of (own_tun a) tk = Some tv"
    then have "own_tun a \<noteq> []" by auto
    then have "get ?c2 ''tun'' = Some (Mapping (extend_with (mapping_at ?c1 ''tun'') (own_tun a)))"
      by (simp add: enforce_tun_def get_put)
    with g3 [of "''tun''"] g4 [of "''tun''"] lk [OF assms(3) t] show ?thesis by simp
  qed
  show "map_of (own_dns a) dk = Some dv \<Longrightarrow>
      \<exists>m. get (enforce plat a config) ''dns'' = Some (Mapping m) \<and> map_of m dk = Some dv"
  proof -
    assume d: "map_of (own_dns a) dk = Some dv"
    then have "own_dns a \<noteq> []" by auto
    then have "get ?c3 ''dns'' = Some (Mapping (extend_with (fst (take_mapping ?c2 ''dns'')) (own_dns a)))"
      by (simp add: get_put)
    with g4 [of "''dns''"] lk [OF assms(4) d] show ?thesis by simp
  qed
  show "own_hosts a = Some h \<Longrightarrow> get (enforce plat a config) ''hosts'' = Some h" by (simp add: e get_put)
  have "mapping_ok ?c3"
    using enforce_control_plane_ok [OF assms(1)] by (simp add: enforce_tun_def take_mapping_ok)
  then show "mapping_ok (enforce plat a config)" unfolding e by (cases "own_hosts a") auto
qed

subsection \<open>No dangling references\<close>

lemma get_cleanup_group: "k \<notin> {''use'', ''proxies''} \<Longrightarrow> get (cleanup_group provs allowed gm) k = get gm k"
  by (auto simp: cleanup_group_def Let_def get_put split: option.splits yaml.splits prod.splits)

lemma cleanup_names:
  "proxy_names (cleanup_proxy_groups config) = proxy_names config
   \<and> group_names (cleanup_proxy_groups config) = group_names config
   \<and> provider_names (cleanup_proxy_groups config) = provider_names config"
proof -
  have n: "Option.bind (Option.bind (as_mapping (map_mapping (cleanup_group provs allowed) g)) (\<lambda>m. get m ''name'')) as_str
    = Option.bind (Option.bind (as_mapping g) (\<lambda>m. get m ''name'')) as_str" for g provs allowed
    by (cases "as_mapping g") (simp_all add: as_mapping_map get_cleanup_group)
  then show ?thesis
    by (auto simp: cleanup_proxy_groups_def proxy_names_def group_names_def provider_names_def sequence_at_def
        get_put List.map_filter_def filter_map comp_def split: option.splits yaml.splits)
qed

lemma cleanup_group_kept:
  assumes "gm' = cleanup_group provs allowed gm"
  shows "get gm' ''use'' = Some (Sequence us) \<Longrightarrow> \<forall>u \<in> set us. \<exists>n \<in> set provs. u = Str n"
    and "get gm' ''proxies'' = Some (Sequence ps) \<Longrightarrow> Str n \<in> set ps \<Longrightarrow>
      n \<in> set allowed \<or> (\<exists>u us. get gm' ''use'' = Some (Sequence (u # us)))"
proof -
  have p: "is_provider provs u \<longleftrightarrow> (\<exists>n \<in> set provs. u = Str n)" for u by (cases u) auto
  show "get gm' ''use'' = Some (Sequence us) \<Longrightarrow> \<forall>u \<in> set us. \<exists>n \<in> set provs. u = Str n"
    unfolding assms cleanup_group_def Let_def
    by (auto simp: get_put p split: option.splits yaml.splits prod.splits)
  have f: "\<forall>u vs. filter (is_provider provs) us \<noteq> u # vs \<Longrightarrow> \<not> list_ex (is_provider provs) us" for us
    by (cases "filter (is_provider provs) us") (auto simp: filter_empty_conv list_ex_iff)
  show "get gm' ''proxies'' = Some (Sequence ps) \<Longrightarrow> Str n \<in> set ps \<Longrightarrow>
      n \<in> set allowed \<or> (\<exists>u us. get gm' ''use'' = Some (Sequence (u # us)))"
    unfolding assms cleanup_group_def Let_def
    by (auto simp: get_put dest: f split: option.splits yaml.splits prod.splits if_splits)
qed

text \<open>
  After the clean-up no proxy group refers to something that does not exist: every provider it uses
  is one of the configuration, and every proxy it names is a proxy, a group, a provider or a built-in
  policy of the cleaned configuration, unless the group still uses a provider (whose proxies are not
  known yet).
\<close>

theorem cleanup_leaves_no_dangling_reference:
  assumes "get (cleanup_proxy_groups config) ''proxy-groups'' = Some (Sequence groups)"
    and "g \<in> set groups" and "as_mapping g = Some gm"
  shows "(\<forall>us. get gm ''use'' = Some (Sequence us) \<longrightarrow>
      (\<forall>u \<in> set us. \<exists>n \<in> set (provider_names (cleanup_proxy_groups config)). u = Str n))
    \<and> (\<forall>ps n. get gm ''proxies'' = Some (Sequence ps) \<and> Str n \<in> set ps \<longrightarrow>
      n \<in> set (allowed_names (cleanup_proxy_groups config)) \<or> (\<exists>u us. get gm ''use'' = Some (Sequence (u # us))))"
proof -
  from assms(1) obtain gs where "get config ''proxy-groups'' = Some (Sequence gs)"
    and gs: "groups = map (map_mapping (cleanup_group (provider_names config) (allowed_names config))) gs"
    by (auto simp: cleanup_proxy_groups_def get_put split: option.splits yaml.splits)
  with assms(2) obtain h where "g = map_mapping (cleanup_group (provider_names config) (allowed_names config)) h"
    by auto
  with assms(3) obtain hm where gm: "gm = cleanup_group (provider_names config) (allowed_names config) hm"
    by (auto simp: as_mapping_map)
  have a: "allowed_names (cleanup_proxy_groups config) = allowed_names config"
    "provider_names (cleanup_proxy_groups config) = provider_names config"
    using cleanup_names by (simp_all add: allowed_names_def)
  show ?thesis unfolding a using cleanup_group_kept [OF gm] by blast
qed

theorem cleanup_leaves_no_dangling_reference_witness:
  "let config = [(Str ''proxies'', Sequence [Str ''a'']),
       (Str ''proxy-groups'', Sequence [Mapping [(Str ''proxies'', Sequence [Str ''a'', Str ''gone''])]])]
   in get (cleanup_proxy_groups config) ''proxy-groups''
        = Some (Sequence [Mapping [(Str ''proxies'', Sequence [Str ''a''])]])
      \<and> ''a'' \<in> set (allowed_names (cleanup_proxy_groups config))"
proof -
  let ?c = "[(Str ''proxies'', Sequence [Str ''a'']),
       (Str ''proxy-groups'', Sequence [Mapping [(Str ''proxies'', Sequence [Str ''a'', Str ''gone''])]])]"
  let ?gm = "[(Str ''proxies'', Sequence [Str ''a''])]"
  have n: "provider_names ?c = []" "allowed_names ?c = ''a'' # BUILTIN_POLICIES"
    by (simp_all add: provider_names_def allowed_names_def proxy_names_def group_names_def sequence_at_def get_def
        map_keys_def List.map_filter_def)
  have g: "get (cleanup_proxy_groups ?c) ''proxy-groups'' = Some (Sequence [Mapping ?gm])"
    by (simp add: cleanup_proxy_groups_def get_put n cleanup_group_def BUILTIN_POLICIES_def put_def get_def)
  have "''a'' \<in> set (allowed_names (cleanup_proxy_groups ?c)) \<or> (\<exists>u us. get ?gm ''use'' = Some (Sequence (u # us)))"
    using cleanup_leaves_no_dangling_reference [OF g, where g = "Mapping ?gm" and gm = ?gm] by (simp add: get_def)
  with g show ?thesis by (simp add: get_def)
qed

end
