(* ===== verification/Script.thy ===== *)
theory Script
  imports Authoritative
begin

section \<open>User scripts\<close>

text \<open>
  Models \<open>src-tauri/src/enhance/script.rs\<close> and the script items of \<open>chain.rs\<close> and \<open>tmpl.rs\<close>.  The
  JavaScript engine and the JSON library are arguments; what surrounds them is the code's: the shortcut
  for the template script, the size limits, the limits on console output, the timeout, the escaping of
  the profile name, and the rule that a failing script leaves the configuration as it was.
\<close>

definition newline :: string where
  "newline = [CHR 0x0A]"

definition ITEM_SCRIPT :: string where
  "ITEM_SCRIPT = ''// Define main function (script entry)'' @ newline @ newline
     @ ''function main(config, profileName) {'' @ newline @ ''  return config;'' @ newline @ ''}'' @ newline"

definition MAX_OUTPUTS :: nat where "MAX_OUTPUTS = 1000"
definition MAX_OUTPUT_SIZE :: nat where "MAX_OUTPUT_SIZE = 1048576"
definition MAX_JSON_SIZE :: nat where "MAX_JSON_SIZE = 10485760"

subsection \<open>Console output\<close>

text \<open>The state of the native console callback: the outputs and their total size.\<close>

definition verge_log :: "string \<times> string \<Rightarrow> result_log \<times> nat \<Rightarrow> bool \<times> result_log \<times> nat" where
  "verge_log entry st =
     (let (outputs, size) = st; new_size = size + length (fst entry) + length (snd entry)
      in if MAX_OUTPUTS \<le> length outputs \<or> MAX_OUTPUT_SIZE < new_size then (False, outputs, size)
         else (True, outputs @ [entry], new_size))"

definition console_outputs :: "(string \<times> string) list \<Rightarrow> result_log" where
  "console_outputs calls = fst (fold (\<lambda>e st. snd (verge_log e st)) calls ([], 0))"

subsection \<open>Evaluating a script\<close>

definition replace_char :: "char \<Rightarrow> string \<Rightarrow> string \<Rightarrow> string" where
  "replace_char c rep s = concat (map (\<lambda>d. if d = c then rep else [d]) s)"

text \<open>\<open>None\<close> is the panic of a slice that would cut a character.\<close>

definition escape_js_string_for_single_quote :: "string \<Rightarrow> string option" where
  "escape_js_string_for_single_quote s =
     (let quote = replace_char (CHR 0x27) [CHR 0x5C, CHR 0x27] \<circ> replace_char (CHR 0x5C) [CHR 0x5C, CHR 0x5C]
      in if 10240 < length s then
           (if is_char_boundary s 10240 then Some (quote (take 10240 s)) else None)
         else Some (replace_char (CHR 0x0D) [CHR 0x5C, CHR ''r''] (replace_char (CHR 0x0A) [CHR 0x5C, CHR ''n''] (quote s))))"

definition strip_outer_quotes :: "string \<Rightarrow> string" where
  "strip_outer_quotes s0 =
     (let s = trim s0
      in if length s < 2 then s
         else if (hd s = CHR 0x22 \<and> last s = CHR 0x22) \<or> (hd s = CHR 0x27 \<and> last s = CHR 0x27)
         then butlast (tl s) else s)"

text \<open>What evaluating the wrapped program yields.\<close>

datatype js_value = JsString string | JsBadString string | JsNotUtf8 | JsOther

record js_run =
  js_bind :: "string + unit"
  js_calls :: "(string \<times> string) list"
  js_value :: js_value

record script_env =
  to_json :: "mapping \<Rightarrow> string + string"
  from_json :: "string \<Rightarrow> mapping option"
  run_js :: "string \<Rightarrow> string \<Rightarrow> js_run"
  script_timeout :: bool
  panic_message :: string

definition parse_json_safely :: "script_env \<Rightarrow> string \<Rightarrow> mapping option" where
  "parse_json_safely env json_str =
     (if MAX_JSON_SIZE < length json_str then None else from_json env (strip_outer_quotes json_str))"

definition script_code :: "string \<Rightarrow> string \<Rightarrow> string" where
  "script_code script safe_name =
     ''try{'' @ newline @ ''        '' @ script @ '';'' @ newline
     @ ''        JSON.stringify(main(JSON.parse(globalThis.__verge_config__),'' @ [CHR 0x27] @ safe_name
     @ [CHR 0x27] @ '')||'' @ [CHR 0x27, CHR 0x27] @ '')'' @ newline
     @ ''      } catch(err) {'' @ newline
     @ ''        `__error_flag__ ${err.toString()}`'' @ newline @ ''      }''"

definition eval_script :: "script_env \<Rightarrow> string \<Rightarrow> string \<Rightarrow> string \<Rightarrow> ((string + mapping) \<times> result_log) option" where
  "eval_script env script config_json name =
     (case escape_js_string_for_single_quote name of
        None \<Rightarrow>
          (case js_bind (run_js env (script_code script []) config_json) of
             Inl err \<Rightarrow> Some (Inl (''failed to bind config for script: '' @ err), [])
           | Inr _ \<Rightarrow> None)
      | Some safe_name \<Rightarrow>
          (let run = run_js env (script_code script safe_name) config_json; outputs = console_outputs (js_calls run)
           in case js_bind run of
                Inl err \<Rightarrow> Some (Inl (''failed to bind config for script: '' @ err), [])
              | Inr _ \<Rightarrow>
                  if 1024 < length safe_name then Some (Inl ''Name parameter too long'', [])
                  else (case js_value run of
                      JsOther \<Rightarrow> Some (Inl ''main function should return object'', outputs)
                    | JsBadString e \<Rightarrow> Some (Inl (''Failed to convert JS result to string: '' @ e), outputs)
                    | JsNotUtf8 \<Rightarrow> Some (Inl ''Failed to convert JS string to std string'', outputs)
                    | JsString result \<Rightarrow>
                        if MAX_JSON_SIZE < length result
                        then Some (Inl ''Script result exceeds maximum allowed size'', outputs)
                        else (case parse_json_safely env result of
                            Some config \<Rightarrow> Some (Inr (use_lowercase_owned config), outputs)
                          | None \<Rightarrow> Some (Inl ''Script execution failed'', outputs)))))"

definition script_changed_keys :: "mapping \<Rightarrow> mapping \<Rightarrow> string list" where
  "script_changed_keys config result = map to_lower (List.map_filter (\<lambda>(key, _). as_str key)
     (filter (\<lambda>(key, value). \<not> opt_yaml_eq (map_of config key) (Some value)) result))"

definition use_script :: "script_env \<Rightarrow> string \<Rightarrow> mapping \<Rightarrow> string \<Rightarrow> mapping \<times> string list \<times> result_log" where
  "use_script env script config name =
     (if script = ITEM_SCRIPT then (use_lowercase_owned config, [], [])
      else (case to_json env (use_lowercase config) of
          Inl err \<Rightarrow> (config, [], [(''exception'', err)])
        | Inr json \<Rightarrow>
            if MAX_JSON_SIZE < length json
            then (config, [], [(''exception'', ''Configuration size exceeds maximum allowed size'')])
            else
              (let (outcome, logs) =
                 (if script_timeout env then (Inl ''script execution timed out after 5s'', [])
                  else (case eval_script env script json name of
                      Some r \<Rightarrow> r
                    | None \<Rightarrow> (Inl (''script task panicked: '' @ panic_message env), [])))
               in case outcome of
                    Inr result \<Rightarrow> (result, script_changed_keys config result, logs)
                  | Inl reason \<Rightarrow> (config, [], logs @ [(''exception'', reason)]))))"

subsection \<open>Limits and failures\<close>

lemma console_outputs_bounded:
  "length (console_outputs calls) \<le> MAX_OUTPUTS
   \<and> sum_list (map (\<lambda>e. length (fst e) + length (snd e)) (console_outputs calls)) \<le> MAX_OUTPUT_SIZE"
proof -
  let ?ok = "\<lambda>st. length (fst st) \<le> MAX_OUTPUTS \<and> snd st \<le> MAX_OUTPUT_SIZE
    \<and> sum_list (map (\<lambda>e. length (fst e) + length (snd e)) (fst st)) = snd st"
  have "?ok st \<Longrightarrow> ?ok (fold (\<lambda>e st. snd (verge_log e st)) calls st)" for st
    by (induction calls arbitrary: st) (simp_all add: verge_log_def Let_def split_beta)
  from this [of "([], 0)"] show ?thesis by (simp add: console_outputs_def)
qed

lemma use_lowercase_owned_same: "use_lowercase_owned = use_lowercase"
  by (simp add: use_lowercase_owned_def [abs_def] use_lowercase_def [abs_def])

lemma use_lowercase_distinct: "mapping_ok (use_lowercase m)"
proof -
  have "mapping_ok acc \<Longrightarrow> mapping_ok (fold (\<lambda>(key, value) lowercased. case as_str key of
      Some s \<Rightarrow> AList.update (lowercase_key s) value lowercased | None \<Rightarrow> lowercased) m acc)" for acc
    by (induction m arbitrary: acc) (auto simp: yaml_map.invar_ins split: option.splits)
  then show ?thesis by (simp add: use_lowercase_def)
qed

lemma eval_script_ok: "eval_script env script json name = Some (Inr r, logs) \<Longrightarrow> mapping_ok r"
  by (auto simp: eval_script_def Let_def use_lowercase_owned_same use_lowercase_distinct
      split: option.splits sum.splits if_splits js_value.splits)

lemma use_script_ok:
  assumes "mapping_ok config"
  shows "mapping_ok (fst (use_script env script config name))"
  using assms eval_script_ok
  by (auto simp: use_script_def use_lowercase_owned_same use_lowercase_distinct Let_def
      split: option.splits sum.splits)

end
