(* ===== verification/Profiles.thy ===== *)
theory Profiles
  imports Patching Draft Yaml
begin

section \<open>Subscription profiles\<close>

text \<open>
  Models \<open>src-tauri/src/config/profiles.rs\<close> and \<open>prfitem.rs\<close>: the profile list with its current entry,
  the records of profile items and their options, the operations of the list, the deletion plan, and
  the reconciliation of the nodes a profile has recorded with the groups the running core reports.
  Writing files, saving the list and drawing identifiers are arguments; what is written is recorded as
  effects.
\<close>

record selected_node =
  sel_name :: "string option"
  sel_now :: "string option"

record item_extra =
  upload :: u64
  download :: u64
  total :: u64
  expire :: u64

record item_option =
  user_agent :: "string option"
  with_proxy :: "bool option"
  self_proxy :: "bool option"
  update_interval :: "u64 option"
  timeout_seconds :: "u64 option"
  danger_accept_invalid_certs :: "bool option"
  allow_auto_update :: "bool option"
  opt_merge :: "string option"
  opt_script :: "string option"
  opt_rules :: "string option"
  opt_proxies :: "string option"
  opt_groups :: "string option"

definition item_option_default :: item_option where
  "item_option_default = \<lparr>user_agent = None, with_proxy = None, self_proxy = None, update_interval = None,
     timeout_seconds = None, danger_accept_invalid_certs = None, allow_auto_update = None, opt_merge = None,
     opt_script = None, opt_rules = None, opt_proxies = None, opt_groups = None\<rparr>"

record prf_item =
  prf_uid :: "string option"
  prf_itype :: "string option"
  prf_name :: "string option"
  prf_file :: "string option"
  prf_desc :: "string option"
  prf_url :: "string option"
  prf_selected :: "selected_node list option"
  prf_extra :: "item_extra option"
  prf_updated :: "u64 option"
  prf_option :: "item_option option"
  prf_home :: "string option"
  prf_file_data :: "string option"

definition prf_item_default :: prf_item where
  "prf_item_default = \<lparr>prf_uid = None, prf_itype = None, prf_name = None, prf_file = None, prf_desc = None,
     prf_url = None, prf_selected = None, prf_extra = None, prf_updated = None, prf_option = None,
     prf_home = None, prf_file_data = None\<rparr>"

record iprofiles =
  current :: "string option"
  items :: "prf_item list option"

definition iprofiles_default :: iprofiles where
  "iprofiles_default = \<lparr>current = None, items = None\<rparr>"

subsection \<open>Options\<close>

definition overlay_option :: "item_option \<Rightarrow> item_option \<Rightarrow> item_option" where
  "overlay_option b a = \<lparr>
     user_agent = patched (user_agent b) (user_agent a),
     with_proxy = patched (with_proxy b) (with_proxy a),
     self_proxy = patched (self_proxy b) (self_proxy a),
     update_interval = patched (update_interval b) (update_interval a),
     timeout_seconds = patched (timeout_seconds b) (timeout_seconds a),
     danger_accept_invalid_certs = patched (danger_accept_invalid_certs b) (danger_accept_invalid_certs a),
     allow_auto_update = patched (allow_auto_update b) (allow_auto_update a),
     opt_merge = patched (opt_merge b) (opt_merge a),
     opt_script = patched (opt_script b) (opt_script a),
     opt_rules = patched (opt_rules b) (opt_rules a),
     opt_proxies = patched (opt_proxies b) (opt_proxies a),
     opt_groups = patched (opt_groups b) (opt_groups a)\<rparr>"

definition item_option_merge :: "item_option option \<Rightarrow> item_option option \<Rightarrow> item_option option" where
  "item_option_merge one other =
     (case (one, other) of
        (Some a, Some b) \<Rightarrow> Some (overlay_option b a)
      | (Some a, None) \<Rightarrow> Some a
      | (None, Some b) \<Rightarrow> Some b
      | (None, None) \<Rightarrow> None)"

definition allow_auto_update_enabled :: "item_option option \<Rightarrow> bool" where
  "allow_auto_update_enabled opt = unwrap_or True (Option.bind opt allow_auto_update)"

interpretation option_patch: patching overlay_option item_option_default
  by unfold_locales (simp_all add: overlay_option_def item_option_default_def patched_assoc [symmetric])

interpretation merge_patch: patching "\<lambda>other one. item_option_merge one other" None
proof
  fix r q p s :: "item_option option"
  show "item_option_merge (item_option_merge s q) r = item_option_merge s (item_option_merge q r)"
    by (cases s; cases q; cases r) (simp_all add: item_option_merge_def option_patch.patch_assoc)
  show "item_option_merge s None = s" by (cases s) (simp_all add: item_option_merge_def)
  show "item_option_merge (item_option_merge s p) p = item_option_merge s p"
    by (cases s; cases p)
      (simp_all add: item_option_merge_def option_patch.patch_again overlay_option_def)
qed

subsection \<open>The list\<close>

definition item_list :: "iprofiles \<Rightarrow> prf_item list" where
  "item_list p = unwrap_or [] (items p)"

definition get_item :: "iprofiles \<Rightarrow> string \<Rightarrow> prf_item res" where
  "get_item p uid = (case find (\<lambda>each. prf_uid each = Some uid) (item_list p) of
     Some each \<Rightarrow> Inr each
   | None \<Rightarrow> Inl (''failed to get the profile item \"uid:'' @ uid @ ''\"''))"

text \<open>Loading: \<open>norm_url\<close> is the URL check of a home page, \<open>fresh\<close> the supply of identifiers.\<close>

definition load_item :: "(string \<Rightarrow> string option) \<Rightarrow> string \<Rightarrow> prf_item \<Rightarrow> prf_item" where
  "load_item norm_url fresh item =
     (let item = (if prf_uid item = None then item\<lparr>prf_uid := Some fresh\<rparr> else item);
          item = (if prf_itype item = Some ''remote'' then
              let opt = unwrap_or item_option_default (prf_option item)
              in item\<lparr>prf_option := Some (opt\<lparr>allow_auto_update := Some (unwrap_or True (allow_auto_update opt))\<rparr>)\<rparr>
            else item)
      in if (case prf_home item of Some home \<Rightarrow> norm_url home = None | None \<Rightarrow> False)
         then item\<lparr>prf_home := None\<rparr> else item)"

definition home_dropped :: "(string \<Rightarrow> string option) \<Rightarrow> prf_item \<Rightarrow> bool" where
  "home_dropped norm_url item = (case prf_home item of Some home \<Rightarrow> norm_url home = None | None \<Rightarrow> False)"

datatype profile_effect =
    WriteFile string string
  | SaveProfiles iprofiles

definition profiles_new :: "(string \<Rightarrow> string option) \<Rightarrow> (nat \<Rightarrow> string) \<Rightarrow> (string + unit) \<Rightarrow> (string + iprofiles)
    \<Rightarrow> iprofiles \<times> profile_effect list" where
  "profiles_new norm_url fresh path file_read =
     (case path of
        Inl e \<Rightarrow> (iprofiles_default, [])
      | Inr _ \<Rightarrow>
          (case file_read of
             Inl e \<Rightarrow> (iprofiles_default, [])
           | Inr p \<Rightarrow>
               (let p' = p\<lparr>items := Some (map (\<lambda>(i, item). load_item norm_url (fresh i) item)
                      (zip [0..<length (item_list p)] (item_list p)))\<rparr>
                in (p', if list_ex (home_dropped norm_url) (item_list p) then [SaveProfiles p'] else []))))"

definition profiles_patch_config :: "iprofiles \<Rightarrow> iprofiles \<Rightarrow> iprofiles" where
  "profiles_patch_config patch p =
     (let p = (if items p = None then p\<lparr>items := Some []\<rparr> else p)
      in case current patch of
           None \<Rightarrow> p
         | Some c \<Rightarrow> if list_ex (\<lambda>e. prf_uid e = Some c) (item_list p) then p\<lparr>current := Some c\<rparr> else p)"

definition selectable_type :: "string option \<Rightarrow> bool" where
  "selectable_type t \<longleftrightarrow> t = Some ''remote'' \<or> t = Some ''local''"

definition append_listed :: "iprofiles \<Rightarrow> prf_item \<Rightarrow> iprofiles" where
  "append_listed p item =
     (let p = (if current p = None \<and> selectable_type (prf_itype item) then p\<lparr>current := prf_uid item\<rparr> else p)
      in p\<lparr>items := Some (item_list p @ [item])\<rparr>)"

text \<open>\<open>dir\<close> is the lookup of the profile directory, \<open>write\<close> the outcome of writing a file.\<close>

definition append_item :: "(string + unit) \<Rightarrow> (string \<Rightarrow> string \<Rightarrow> string + unit) \<Rightarrow> prf_item \<Rightarrow> iprofiles
    \<Rightarrow> (string + unit) \<times> iprofiles \<times> prf_item \<times> profile_effect list" where
  "append_item dir write item p =
     (if prf_uid item = None then (Inl ''the uid should not be null'', p, item, [])
      else (case prf_file_data item of
        None \<Rightarrow> (Inr (), append_listed p item, item, [])
      | Some data \<Rightarrow>
          (let item = item\<lparr>prf_file_data := None\<rparr>
           in case prf_file item of
                None \<Rightarrow> (Inl ''the file should not be null'', p, item, [])
              | Some file \<Rightarrow>
                  (case dir of
                     Inl e \<Rightarrow> (Inl e, p, item, [])
                   | Inr _ \<Rightarrow>
                       (case write file data of
                          Inl e \<Rightarrow> (Inl (''failed to write to file \"'' @ file @ ''\"''), p, item, [])
                        | Inr _ \<Rightarrow> (Inr (), append_listed p item, item, [WriteFile file data]))))))"

fun rposition :: "('a \<Rightarrow> bool) \<Rightarrow> 'a list \<Rightarrow> nat option" where
  "rposition P [] = None"
| "rposition P (x # xs) = (case rposition P xs of Some i \<Rightarrow> Some (Suc i) | None \<Rightarrow> if P x then Some 0 else None)"

definition remove_at :: "nat \<Rightarrow> 'a list \<Rightarrow> 'a list" where
  "remove_at i xs = take i xs @ drop (Suc i) xs"

definition insert_at :: "nat \<Rightarrow> 'a \<Rightarrow> 'a list \<Rightarrow> 'a list" where
  "insert_at i x xs = take i xs @ x # drop i xs"

text \<open>The flag says whether the list was saved; saving may fail (\<open>save\<close>).\<close>

definition reorder :: "(iprofiles \<Rightarrow> string + unit) \<Rightarrow> string \<Rightarrow> string \<Rightarrow> iprofiles
    \<Rightarrow> (string + unit) \<times> iprofiles \<times> profile_effect list" where
  "reorder save active_id over_id p =
     (case items p of
        None \<Rightarrow> (Inr (), p, [])
      | Some its \<Rightarrow>
          (case (rposition (\<lambda>i. prf_uid i = Some active_id) its, rposition (\<lambda>i. prf_uid i = Some over_id) its) of
             (Some old_idx, Some new_idx) \<Rightarrow>
               (let p' = p\<lparr>items := Some (insert_at new_idx (its ! old_idx) (remove_at old_idx its))\<rparr>
                in (save p', p', [SaveProfiles p']))
           | _ \<Rightarrow> (Inr (), p, [])))"

text \<open>A profile file is one normal path component.\<close>

definition has_drive_prefix :: "string \<Rightarrow> bool" where
  "has_drive_prefix file = (case file of
     c # d # _ \<Rightarrow> d = CHR '':'' \<and> (let n = of_char (ascii_lower c) :: nat in 97 \<le> n \<and> n \<le> 122) | _ \<Rightarrow> False)"

definition valid_profile_file :: "platform \<Rightarrow> string \<Rightarrow> bool" where
  "valid_profile_file plat file \<longleftrightarrow> file \<noteq> [] \<and> CHR ''/'' \<notin> set file \<and> CHR 0x5C \<notin> set file
     \<and> file \<noteq> ''.'' \<and> file \<noteq> ''..''
     \<and> \<not> (plat = Windows \<and> has_drive_prefix file)"

definition patch_fields :: "prf_item \<Rightarrow> prf_item \<Rightarrow> prf_item" where
  "patch_fields item each = each\<lparr>
     prf_itype := patched (prf_itype item) (prf_itype each),
     prf_name := patched (prf_name item) (prf_name each),
     prf_desc := patched (prf_desc item) (prf_desc each),
     prf_file := patched (prf_file item) (prf_file each),
     prf_url := patched (prf_url item) (prf_url each),
     prf_selected := patched (prf_selected item) (prf_selected each),
     prf_extra := patched (prf_extra item) (prf_extra each),
     prf_updated := patched (prf_updated item) (prf_updated each),
     prf_option := patched (prf_option item) (prf_option each)\<rparr>"

fun update_first :: "('a \<Rightarrow> bool) \<Rightarrow> ('a \<Rightarrow> 'a) \<Rightarrow> 'a list \<Rightarrow> 'a list" where
  "update_first P f [] = []"
| "update_first P f (x # xs) = (if P x then f x # xs else x # update_first P f xs)"

definition patch_item :: "platform \<Rightarrow> (iprofiles \<Rightarrow> string + unit) \<Rightarrow> string \<Rightarrow> prf_item \<Rightarrow> iprofiles
    \<Rightarrow> (string + unit) \<times> iprofiles \<times> profile_effect list" where
  "patch_item plat save uid item p =
     (if (case prf_file item of Some f \<Rightarrow> \<not> valid_profile_file plat f | None \<Rightarrow> False)
      then (Inl ''profile file must be a single filename'', p, [])
      else if list_ex (\<lambda>each. prf_uid each = Some uid) (item_list p) then
        (let p' = p\<lparr>items := Some (update_first (\<lambda>each. prf_uid each = Some uid) (patch_fields item) (item_list p))\<rparr>
         in (save p', p', [SaveProfiles p']))
      else (Inl (''failed to find the profile item \"uid:'' @ uid @ ''\"''),
            p\<lparr>items := Some (item_list p)\<rparr>, []))"

text \<open>A refresh of a remote profile: it replaces what the server told, keeps the rest, and rewrites the file.\<close>

definition refreshed_item :: "prf_item \<Rightarrow> prf_item \<Rightarrow> prf_item" where
  "refreshed_item item each = each\<lparr>
     prf_extra := prf_extra item, prf_updated := prf_updated item, prf_home := prf_home item,
     prf_option := item_option_merge (prf_option each) (prf_option item)\<rparr>"

definition refreshed_file :: "string \<Rightarrow> prf_item \<Rightarrow> prf_item \<Rightarrow> string" where
  "refreshed_file uid item each = (case prf_file each of Some f \<Rightarrow> f
     | None \<Rightarrow> (case prf_file item of Some f \<Rightarrow> f | None \<Rightarrow> uid @ ''.yaml''))"

definition update_item :: "(string + unit) \<Rightarrow> (string \<Rightarrow> string \<Rightarrow> string + unit) \<Rightarrow> (iprofiles \<Rightarrow> string + unit)
    \<Rightarrow> string \<Rightarrow> prf_item \<Rightarrow> iprofiles \<Rightarrow> (string + unit) \<times> iprofiles \<times> profile_effect list" where
  "update_item dir write save uid item p =
     (let p = p\<lparr>items := Some (item_list p)\<rparr>
      in case get_item p uid of
           Inl e \<Rightarrow> (Inl e, p, [])
         | Inr each \<Rightarrow>
             (case prf_file_data item of
                None \<Rightarrow>
                  (let p' = p\<lparr>items := Some (update_first (\<lambda>e. prf_uid e = Some uid) (refreshed_item item) (item_list p))\<rparr>
                   in (save p', p', [SaveProfiles p']))
              | Some data \<Rightarrow>
                  (let file = refreshed_file uid item each;
                       p' = p\<lparr>items := Some (update_first (\<lambda>e. prf_uid e = Some uid)
                              (\<lambda>e. (refreshed_item item e)\<lparr>prf_file := Some file\<rparr>) (item_list p))\<rparr>
                   in case dir of
                        Inl e \<Rightarrow> (Inl e, p', [])
                      | Inr _ \<Rightarrow>
                          (case write file data of
                             Inl e \<Rightarrow> (Inl (''failed to write to file \"'' @ file @ ''\"''), p', [])
                           | Inr _ \<Rightarrow> (save p', p', [WriteFile file data, SaveProfiles p'])))))"

text \<open>The floor on automatic update intervals; \<open>None\<close> and 0 mean never.\<close>

definition min_update_interval :: u64 where
  "min_update_interval = 1440"

definition short_interval :: "u64 \<Rightarrow> prf_item \<Rightarrow> bool" where
  "short_interval min_minutes item = (case Option.bind (prf_option item) update_interval of
     Some interval \<Rightarrow> 1 \<le> interval \<and> interval < min_minutes | None \<Rightarrow> False)"

definition raise_interval :: "u64 \<Rightarrow> prf_item \<Rightarrow> prf_item" where
  "raise_interval min_minutes item =
     (if short_interval min_minutes item
      then item\<lparr>prf_option := map_option (\<lambda>opt. opt\<lparr>update_interval := Some min_minutes\<rparr>) (prf_option item)\<rparr> else item)"

definition raise_short_update_intervals :: "u64 \<Rightarrow> iprofiles \<Rightarrow> nat \<times> iprofiles" where
  "raise_short_update_intervals min_minutes p =
     (length (filter (short_interval min_minutes) (item_list p)),
      p\<lparr>items := map_option (map (raise_interval min_minutes)) (items p)\<rparr>)"

subsection \<open>Deleting a profile\<close>

fun take_item_file_by_uid :: "string option \<Rightarrow> prf_item list \<Rightarrow> string option \<times> prf_item list" where
  "take_item_file_by_uid target [] = (None, [])"
| "take_item_file_by_uid target (item # its) =
     (if prf_uid item = target then (prf_file item, its)
      else (let (f, rest) = take_item_file_by_uid target its in (f, item # rest)))"

definition linked_uids :: "prf_item \<Rightarrow> string option list" where
  "linked_uids item = (case prf_option item of None \<Rightarrow> []
     | Some opt \<Rightarrow> [opt_merge opt, opt_script opt, opt_rules opt, opt_proxies opt, opt_groups opt])"

fun take_files :: "string option list \<Rightarrow> prf_item list \<Rightarrow> string list \<times> prf_item list" where
  "take_files [] its = ([], its)"
| "take_files (t # ts) its =
     (let (f, its) = take_item_file_by_uid t its; (fs, its) = take_files ts its
      in (case f of Some x \<Rightarrow> x # fs | None \<Rightarrow> fs, its))"

definition plan_delete_item :: "string \<Rightarrow> iprofiles \<Rightarrow> (string + bool \<times> string list) \<times> iprofiles" where
  "plan_delete_item uid p =
     (let deleting_current = (case current p of None \<Rightarrow> True | Some c \<Rightarrow> c = uid)
      in case get_item p uid of
           Inl e \<Rightarrow> (Inl e, p)
         | Inr item \<Rightarrow>
             (let (files, its) = take_files (Some uid # linked_uids item) (item_list p);
                  p = (if deleting_current
                       then p\<lparr>current := (case find (\<lambda>i. selectable_type (prf_itype i)) its of
                              Some i \<Rightarrow> prf_uid i | None \<Rightarrow> None)\<rparr>
                       else p)
              in (Inr (deleting_current, files), p\<lparr>items := Some its\<rparr>)))"

text \<open>Removing the files of a deletion plan; a file that cannot be removed is only logged.\<close>

definition cleanup_plan :: "(string + unit) \<Rightarrow> string list \<Rightarrow> string list" where
  "cleanup_plan dir files = (case dir of Inl _ \<Rightarrow> [] | Inr _ \<Rightarrow> files)"

definition current_mapping :: "(string + unit) \<Rightarrow> (string \<Rightarrow> string + mapping) \<Rightarrow> iprofiles \<Rightarrow> string + mapping" where
  "current_mapping dir read_mapping p =
     (case (current p, items p) of
        (Some c, Some its) \<Rightarrow>
          (case find (\<lambda>e. prf_uid e = Some c) its of
             None \<Rightarrow> Inl (''failed to find the current profile \"uid:'' @ c @ ''\"'')
           | Some item \<Rightarrow>
               (case prf_file item of
                  None \<Rightarrow> Inl ''failed to get the file field''
                | Some file \<Rightarrow> and_then dir (\<lambda>_. read_mapping file)))
      | _ \<Rightarrow> Inr [])"

definition profiles_preview :: "iprofiles \<Rightarrow> (string \<times> string \<times> bool) list option" where
  "profiles_preview p = map_option (List.map_filter (\<lambda>e. case (prf_uid e, prf_name e) of
     (Some uid, Some name) \<Rightarrow> Some (uid, name, current p = Some uid) | _ \<Rightarrow> None)) (items p)"

subsection \<open>Deleting removes the profile and its attachments only\<close>

definition uids_ok :: "iprofiles \<Rightarrow> bool" where
  "uids_ok p \<longleftrightarrow> distinct (map prf_uid (item_list p)) \<and> None \<notin> set (map prf_uid (item_list p))"

lemma take_item_file_filter:
  "distinct (map prf_uid its) \<Longrightarrow>
   snd (take_item_file_by_uid t its) = filter (\<lambda>i. prf_uid i \<noteq> t) its
   \<and> set_option (fst (take_item_file_by_uid t its)) = {f. \<exists>i \<in> set its. prf_uid i = t \<and> prf_file i = Some f}"
proof (induction its)
  case (Cons i its)
  show ?case
  proof (cases "prf_uid i = t")
    case True
    with Cons.prems have "filter (\<lambda>i. prf_uid i \<noteq> t) its = its" "\<forall>j \<in> set its. prf_uid j \<noteq> t"
      by (auto simp: image_iff intro!: filter_True)
    with True show ?thesis by auto
  next
    case False
    with Cons show ?thesis by (auto simp: split_beta)
  qed
qed simp

lemma take_files_filter:
  "distinct (map prf_uid its) \<Longrightarrow>
   snd (take_files ts its) = filter (\<lambda>i. prf_uid i \<notin> set ts) its
   \<and> set (fst (take_files ts its)) = {f. \<exists>i \<in> set its. prf_uid i \<in> set ts \<and> prf_file i = Some f}"
proof (induction ts arbitrary: its)
  case (Cons t ts)
  obtain f its1 where t: "take_item_file_by_uid t its = (f, its1)" by (rule prod.exhaust)
  obtain fs its2 where ts: "take_files ts its1 = (fs, its2)" by (rule prod.exhaust)
  have 1: "its1 = filter (\<lambda>i. prf_uid i \<noteq> t) its" "set_option f = {f. \<exists>i \<in> set its. prf_uid i = t \<and> prf_file i = Some f}"
    using take_item_file_filter [OF Cons.prems, of t] t by simp_all
  have "distinct (map prf_uid its1)" unfolding 1 by (rule distinct_map_filter [OF Cons.prems])
  from Cons.IH [OF this] ts have 2: "its2 = filter (\<lambda>i. prf_uid i \<notin> set ts) its1"
    "set fs = {f. \<exists>i \<in> set its1. prf_uid i \<in> set ts \<and> prf_file i = Some f}" by simp_all
  have r: "take_files (t # ts) its = (case f of Some x \<Rightarrow> x # fs | None \<Rightarrow> fs, its2)"
    by (simp add: t ts)
  have "set (case f of Some x \<Rightarrow> x # fs | None \<Rightarrow> fs) = set_option f \<union> set fs" by (cases f) auto
  with 1 2 show ?case unfolding r by (auto intro: filter_cong)
qed simp

lemma find_item: "get_item p uid = Inr item \<Longrightarrow> item \<in> set (item_list p) \<and> prf_uid item = Some uid"
  by (auto simp: get_item_def find_Some_iff split: option.splits)


definition demo_item :: "string \<Rightarrow> string \<Rightarrow> prf_item" where
  "demo_item uid type = prf_item_default\<lparr>prf_uid := Some uid, prf_itype := Some type, prf_file := Some (uid @ ''.yaml'')\<rparr>"


subsection \<open>The floor on update intervals\<close>

lemma raised_not_short: "0 < m \<Longrightarrow> \<not> short_interval m (raise_interval m item)"
  by (auto simp: raise_interval_def short_interval_def split: option.splits Option.bind_splits)

text \<open>After raising no interval is short, nothing else changed, and a second pass reports no change.\<close>

lemma raise_short_update_intervals_done:
  assumes "raise_short_update_intervals m p = (n, p')" and "0 < m"
  shows "\<forall>i \<in> set (item_list p'). \<not> short_interval m i"
    and "raise_short_update_intervals m p' = (0, p')"
    and "n = 0 \<longleftrightarrow> p' = p" 
proof -
  have l: "item_list p' = map (raise_interval m) (item_list p)"
    using assms(1) by (cases "items p") (auto simp: raise_short_update_intervals_def item_list_def)
  show s: "\<forall>i \<in> set (item_list p'). \<not> short_interval m i"
    unfolding l using raised_not_short [OF assms(2)] by auto
  have "raise_interval m i = i" if "\<not> short_interval m i" for i using that by (simp add: raise_interval_def)
  then have id: "map_option (map (raise_interval m)) (items q) = items q" if "\<forall>i \<in> set (item_list q). \<not> short_interval m i" for q
    using that by (cases "items q") (auto simp: item_list_def intro: map_idI)
  show "raise_short_update_intervals m p' = (0, p')"
    using s id [of p'] by (auto simp: raise_short_update_intervals_def filter_empty_conv)
  show "n = 0 \<longleftrightarrow> p' = p"
  proof
    assume "n = 0"
    with assms(1) id [of p] show "p' = p" by (auto simp: raise_short_update_intervals_def filter_empty_conv)
  next
    assume "p' = p"
    with s assms(1) show "n = 0" by (auto simp: raise_short_update_intervals_def filter_empty_conv)
  qed
qed

end
