(* ===== verification/Enhance.thy ===== *)
theory Enhance
  imports Script Profiles
begin

section \<open>Building the configuration of the core from a profile\<close>

text \<open>
  Models \<open>chain.rs\<close> and the pipeline of \<open>src-tauri/src/enhance/mod.rs\<close>: the items attached to the
  current profile are read, the lists are edited, the application's settings are laid over the
  profile, the built-in fixes, TUN and the DNS page follow, and what the application owns is captured.
  Then the global and the profile's merge and script run, and the captured fields are enforced.  The
  properties say that no overlay or script changes what the application owns.
\<close>

subsection \<open>Chain items\<close>

datatype chain_type =
    ChainMerge mapping
  | ChainScript string
  | ChainRules seq_map
  | ChainProxies seq_map
  | ChainGroups seq_map

record chain_item =
  chain_uid :: string
  chain_data :: chain_type

record file_env =
  profiles_dir :: "string + unit"
  file_exists :: "string \<Rightarrow> bool"
  read_text :: "string \<Rightarrow> string + string"
  read_map :: "string \<Rightarrow> string + mapping"
  read_seq :: "string \<Rightarrow> string + seq_map"

definition ok_option :: "'e + 'a \<Rightarrow> 'a option" where
  "ok_option r = (case r of Inr x \<Rightarrow> Some x | Inl _ \<Rightarrow> None)"

definition chain_from_item :: "file_env \<Rightarrow> prf_item \<Rightarrow> chain_item option" where
  "chain_from_item env item =
     (case (prf_itype item, prf_file item, profiles_dir env) of
        (Some itype, Some file, Inr _) \<Rightarrow>
          (let made = map_option (\<lambda>data. \<lparr>chain_uid = unwrap_or [] (prf_uid item), chain_data = data\<rparr>)
           in if \<not> file_exists env file then None
              else if itype = ''script'' then made (map_option ChainScript (ok_option (read_text env file)))
              else if itype = ''merge'' then made (map_option ChainMerge (ok_option (read_map env file)))
              else if itype = ''rules'' then made (map_option ChainRules (ok_option (read_seq env file)))
              else if itype = ''proxies'' then made (map_option ChainProxies (ok_option (read_seq env file)))
              else if itype = ''groups'' then made (map_option ChainGroups (ok_option (read_seq env file)))
              else None)
      | _ \<Rightarrow> None)"

definition chain_item_or_default :: "file_env \<Rightarrow> prf_item option \<Rightarrow> chain_item \<Rightarrow> chain_item" where
  "chain_item_or_default env item default_item = (case Option.bind item (chain_from_item env) of
     Some c \<Rightarrow> c | None \<Rightarrow> default_item)"

record profile_items =
  pi_config :: mapping
  merge_item :: chain_item
  script_item :: chain_item
  rules_item :: chain_item
  proxies_item :: chain_item
  groups_item :: chain_item
  global_merge :: chain_item
  global_script :: chain_item
  profile_name :: string

definition empty_merge :: "string \<Rightarrow> chain_item" where
  "empty_merge uid = \<lparr>chain_uid = uid, chain_data = ChainMerge []\<rparr>"

definition template_script :: "string \<Rightarrow> chain_item" where
  "template_script uid = \<lparr>chain_uid = uid, chain_data = ChainScript ITEM_SCRIPT\<rparr>"

definition profile_items_default :: profile_items where
  "profile_items_default = \<lparr>pi_config = [], merge_item = empty_merge [], script_item = template_script [],
     rules_item = \<lparr>chain_uid = [], chain_data = ChainRules seq_map_default\<rparr>,
     proxies_item = \<lparr>chain_uid = [], chain_data = ChainProxies seq_map_default\<rparr>,
     groups_item = \<lparr>chain_uid = [], chain_data = ChainGroups seq_map_default\<rparr>,
     global_merge = empty_merge ''Merge'', global_script = template_script ''Script'', profile_name = []\<rparr>"

definition collect_profile_items :: "file_env \<Rightarrow> iprofiles \<Rightarrow> string + profile_items" where
  "collect_profile_items env p =
     (case current p of
        None \<Rightarrow> Inr profile_items_default
      | Some uid \<Rightarrow>
          (case current_mapping (profiles_dir env) (read_map env) p of
             Inl e \<Rightarrow> Inl (''failed to read current profile \"'' @ uid @ ''\"'')
           | Inr config \<Rightarrow>
               (case get_item p uid of
                  Inl e \<Rightarrow> Inl (''failed to get current profile \"'' @ uid @ ''\"'')
                | Inr item \<Rightarrow>
                    (let link = (\<lambda>sel fallback. unwrap_or fallback (Option.bind (prf_option item) sel));
                         load = (\<lambda>u. chain_item_or_default env (ok_option (get_item p u)))
                     in Inr \<lparr>pi_config = config,
                          merge_item = load (link opt_merge ''Merge'') (empty_merge []),
                          script_item = load (link opt_script ''Script'') (template_script []),
                          rules_item = load (link opt_rules ''Rules'') \<lparr>chain_uid = [], chain_data = ChainRules seq_map_default\<rparr>,
                          proxies_item = load (link opt_proxies ''Proxies'') \<lparr>chain_uid = [], chain_data = ChainProxies seq_map_default\<rparr>,
                          groups_item = load (link opt_groups ''Groups'') \<lparr>chain_uid = [], chain_data = ChainGroups seq_map_default\<rparr>,
                          global_merge = load ''Merge'' (empty_merge ''Merge''),
                          global_script = load ''Script'' (template_script ''Script''),
                          profile_name = unwrap_or [] (prf_name item)\<rparr>))))"

subsection \<open>Overlays and scripts\<close>

definition process_seq_items :: "mapping \<Rightarrow> chain_item \<Rightarrow> chain_item \<Rightarrow> chain_item \<Rightarrow> mapping" where
  "process_seq_items config rules proxies groups =
     (let config = (case chain_data rules of ChainRules seq \<Rightarrow> use_seq seq config ''rules'' | _ \<Rightarrow> config);
          config = (case chain_data proxies of ChainProxies seq \<Rightarrow> use_seq seq config ''proxies'' | _ \<Rightarrow> config)
      in (case chain_data groups of ChainGroups seq \<Rightarrow> use_seq seq config ''proxy-groups'' | _ \<Rightarrow> config))"

type_synonym logs_map = "string \<Rightarrow> result_log option"

type_synonym pipeline = "mapping \<times> string list \<times> logs_map"

definition discarded_notes :: "platform \<Rightarrow> authoritative_fields \<Rightarrow> mapping \<Rightarrow> mapping \<Rightarrow> result_log" where
  "discarded_notes plat a before after =
     map discarded_note (overridden plat a (current_fields plat a before) (current_fields plat a after))"

definition run_merge :: "platform \<Rightarrow> authoritative_fields \<Rightarrow> chain_item \<Rightarrow> pipeline \<Rightarrow> pipeline" where
  "run_merge plat a item st = (case chain_data item of
     ChainMerge merge \<Rightarrow>
       (let (config, exists_keys, result_map) = st;
            config' = use_merge merge config;
            notes = discarded_notes plat a config config'
        in (config', exists_keys @ use_keys merge,
            if notes \<noteq> [] then result_map(chain_uid item \<mapsto> unwrap_or [] (result_map (chain_uid item)) @ notes)
            else result_map))
   | _ \<Rightarrow> st)"

definition run_script :: "script_env \<Rightarrow> platform \<Rightarrow> authoritative_fields \<Rightarrow> chain_item \<Rightarrow> string \<Rightarrow> pipeline \<Rightarrow> pipeline" where
  "run_script env plat a item name st = (case chain_data item of
     ChainScript script \<Rightarrow>
       (let (config, exists_keys, result_map) = st;
            (config', changed_keys, logs) = use_script env script config name
        in (config', exists_keys @ changed_keys,
            result_map(chain_uid item \<mapsto> logs @ discarded_notes plat a config config')))
   | _ \<Rightarrow> st)"

definition process_global_items :: "script_env \<Rightarrow> platform \<Rightarrow> authoritative_fields \<Rightarrow> profile_items \<Rightarrow> pipeline \<Rightarrow> pipeline" where
  "process_global_items env plat a its st =
     run_script env plat a (global_script its) (profile_name its) (run_merge plat a (global_merge its) st)"

definition process_profile_items :: "script_env \<Rightarrow> platform \<Rightarrow> authoritative_fields \<Rightarrow> profile_items \<Rightarrow> pipeline \<Rightarrow> pipeline" where
  "process_profile_items env plat a its st =
     run_script env plat a (script_item its) (profile_name its) (run_merge plat a (merge_item its) st)"

subsection \<open>The pipeline\<close>

record config_values =
  cv_clash_config :: mapping
  cv_clash_core :: "string option"
  cv_enable_tun :: bool
  cv_enable_builtin :: bool
  cv_switches :: listener_switches
  cv_enable_dns_settings :: bool
  cv_dns_override_confirmation :: "string option"

record enhance_env =
  platform_of :: platform
  files_of :: file_env
  scripts_of :: script_env
  dns_file :: "string option"
  parse_yaml :: "string \<Rightarrow> mapping option"

text \<open>The configuration as the application derives it, before the user's overlays.\<close>

definition derived_config :: "enhance_env \<Rightarrow> config_values \<Rightarrow> bool \<Rightarrow> profile_items
    \<Rightarrow> mapping \<times> mapping \<times> string list \<times> dns_server_effect list" where
  "derived_config env cv dns_on its =
     (let config = process_seq_items (pi_config its) (rules_item its) (proxies_item its) (groups_item its);
          exists_keys = use_keys config;
          config = merge_default_config (platform_of env) (cv_switches cv) config (cv_clash_config cv);
          config = apply_builtin_scripts config (cv_clash_core cv) (cv_enable_builtin cv);
          (config, es) = use_tun (platform_of env) config (cv_enable_tun cv);
          (config, dns_settings) = apply_dns_settings (parse_yaml env) (dns_file env) config dns_on
      in (config, dns_settings, exists_keys, es))"

definition captured :: "enhance_env \<Rightarrow> config_values \<Rightarrow> bool \<Rightarrow> profile_items \<Rightarrow> authoritative_fields" where
  "captured env cv dns_on its =
     (let (config, dns_settings, _) = derived_config env cv dns_on its
      in capture_fields (platform_of env) config (gui_tun_keys (platform_of env) (cv_clash_config cv)) dns_settings)"

definition overlaid :: "enhance_env \<Rightarrow> config_values \<Rightarrow> bool \<Rightarrow> profile_items \<Rightarrow> pipeline" where
  "overlaid env cv dns_on its =
     (let (config, dns_settings, exists_keys, es) = derived_config env cv dns_on its; a = captured env cv dns_on its
      in process_profile_items (scripts_of env) (platform_of env) a its
           (process_global_items (scripts_of env) (platform_of env) a its (config, exists_keys, \<lambda>_. None)))"

definition finished :: "enhance_env \<Rightarrow> authoritative_fields \<Rightarrow> mapping \<Rightarrow> mapping" where
  "finished env a config =
     use_sort (cleanup_proxy_groups (ensure_lan_bind_address (enforce (platform_of env) a config)))"

record enhanced =
  en_config :: mapping
  en_exists_keys :: "string set"
  en_logs :: logs_map
  en_notice :: discarded_keys_notice
  en_notice_shown :: bool
  en_dns_servers :: "dns_server_effect list"

definition enhance_profile :: "enhance_env \<Rightarrow> config_values \<Rightarrow> bool \<Rightarrow> profile_items \<Rightarrow> discarded_keys_notice \<Rightarrow> enhanced" where
  "enhance_profile env cv dns_on its notice =
     (let (config, exists_keys, result_map) = overlaid env cv dns_on its;
          a = captured env cv dns_on its;
          (notice', shown) = notify_discarded_keys (overridden (platform_of env) a a (current_fields (platform_of env) a config)) notice
      in \<lparr>en_config = finished env a config, en_exists_keys = set exists_keys, en_logs = result_map,
          en_notice = notice', en_notice_shown = shown,
          en_dns_servers = snd (snd (snd (derived_config env cv dns_on its)))\<rparr>)"

subsection \<open>Every step yields a mapping\<close>

lemma ok_update [simp]: "mapping_ok m \<Longrightarrow> mapping_ok (AList.update k v m)"
  by (rule yaml_map.invar_ins)

lemma ok_use_seq: "mapping_ok config \<Longrightarrow> mapping_ok (use_seq seq config field)"
  by (auto simp: use_seq_def seq_items_def Let_def split: option.splits yaml.splits)

lemma ok_process_seq: "mapping_ok config \<Longrightarrow> mapping_ok (process_seq_items config r p g)"
  unfolding process_seq_items_def Let_def
  by (cases "chain_data r"; cases "chain_data p"; cases "chain_data g") (simp_all add: ok_use_seq)

lemma ok_merge_default: "mapping_ok config \<Longrightarrow> mapping_ok (merge_default_config plat sw config clash_config)"
proof (unfold merge_default_config_def, induction clash_config arbitrary: config)
  case (Cons p ps)
  have "mapping_ok (merge_default_entry plat sw k v config)" for k v
    using Cons.prems by (simp add: merge_default_entry_def)
  with Cons show ?case by (cases p) simp
qed simp

lemma ok_builtin: "mapping_ok config \<Longrightarrow> mapping_ok (apply_builtin_scripts config core b)"
proof -
  have r: "mapping_ok (run_builtin uid c)" if "mapping_ok c" for uid c
    using that by (auto simp: run_builtin_def builtin_hy_alpn_def builtin_meta_guard_def split: option.splits yaml.splits)
  have f: "mapping_ok c \<Longrightarrow> mapping_ok (fold run_builtin its c)" for its c
    by (induction its arbitrary: c) (simp_all add: r)
  show "mapping_ok config \<Longrightarrow> ?thesis"
    by (simp add: apply_builtin_scripts_def Let_def f use_lowercase_owned_same use_lowercase_distinct)
qed

lemma ok_use_tun: "mapping_ok config \<Longrightarrow> mapping_ok (fst (use_tun plat config enable))"
  by (simp add: use_tun_def Let_def)

lemma ok_merge_dns: "mapping_ok config \<Longrightarrow> mapping_ok (fst (merge_dns_config config dns_config))"
  unfolding merge_dns_config_def Let_def
  by (auto simp: split_beta take_mapping_ok split: option.splits yaml.splits)

lemma ok_apply_dns: "mapping_ok config \<Longrightarrow> mapping_ok (fst (apply_dns_settings parse f config on))"
  by (auto simp: apply_dns_settings_def ok_merge_dns split: option.splits)

lemma ok_derived: "mapping_ok (pi_config its) \<Longrightarrow> mapping_ok (fst (derived_config env cv dns_on its))"
  unfolding derived_config_def Let_def
  by (simp add: split_beta ok_apply_dns ok_use_tun ok_builtin ok_merge_default ok_process_seq)

lemma ok_run_merge: "mapping_ok (fst st) \<Longrightarrow> mapping_ok (fst (run_merge plat a item st))"
  by (cases st) (auto simp: run_merge_def Let_def use_merge_ok split: chain_type.splits)

lemma ok_run_script: "mapping_ok (fst st) \<Longrightarrow> mapping_ok (fst (run_script env plat a item name st))"
  using use_script_ok by (cases st) (auto simp: run_script_def Let_def split_beta split: chain_type.splits)

lemma ok_overlaid: "mapping_ok (pi_config its) \<Longrightarrow> mapping_ok (fst (overlaid env cv dns_on its))"
  using ok_derived unfolding overlaid_def process_profile_items_def process_global_items_def
  by (simp add: Let_def split_beta ok_run_merge ok_run_script)

text \<open>The part the DNS page owns comes from its file.\<close>

lemma yaml_ok_remove: "yaml_ok (Mapping m) \<Longrightarrow> yaml_ok (Mapping (remove_key k m))"
  by (auto simp: remove_key_def set_swap_remove distinct_swap_remove)

lemma dns_part_ok:
  assumes "\<And>s m. parse s = Some m \<Longrightarrow> yaml_ok (Mapping m)"
    and "get (snd (apply_dns_settings parse f config on)) ''dns'' = Some v"
  shows "\<exists>d. v = Mapping d \<and> mapping_ok d"
proof -
  from assms(2) obtain m where m: "Option.bind f parse = Some m" and g: "get (snd (merge_dns_config config m)) ''dns'' = Some v"
    by (auto simp: apply_dns_settings_def get_def split: option.splits if_splits)
  from m assms(1) have "yaml_ok (Mapping m)" by (cases f) auto
  then have ok: "yaml_ok (Mapping (remove_key ''hosts'' m))" by (rule yaml_ok_remove)
  define ov where "ov = (case get (remove_key ''hosts'' m) ''dns'' of
      Some (Mapping d) \<Rightarrow> Some d | Some _ \<Rightarrow> None | None \<Rightarrow> Some (remove_key ''hosts'' m))"
  define ap where "ap = (case get m ''hosts'' of
      Some (Mapping h) \<Rightarrow> if h \<noteq> [] then put ''hosts'' (Mapping h) [] else [] | _ \<Rightarrow> [])"
  have apd: "get ap ''dns'' = None"
    by (auto simp: ap_def get_put get_def [of "[]"] split: option.splits yaml.splits)
  have s: "snd (merge_dns_config config m) = (case ov of None \<Rightarrow> ap
      | Some d \<Rightarrow> if filter (\<lambda>(_, v). is_set v) d \<noteq> [] then put ''dns'' (Mapping (filter (\<lambda>(_, v). is_set v) d)) ap else ap)"
    unfolding merge_dns_config_def Let_def ov_def ap_def
    by (auto simp: split_beta split: option.splits yaml.splits)
  from g apd obtain d where d: "ov = Some d" "v = Mapping (filter (\<lambda>(_, v). is_set v) d)"
    unfolding s by (auto simp: get_put split: option.splits if_splits)
  have "distinct (map fst d)"
  proof (cases "get (remove_key ''hosts'' m) ''dns''")
    case None
    with d ok show ?thesis by (simp add: ov_def)
  next
    case (Some w)
    with d obtain d' where w: "w = Mapping d'" "d' = d" by (auto simp: ov_def split: yaml.splits)
    from Some have "(Str ''dns'', w) \<in> set (remove_key ''hosts'' m)" by (auto simp: get_def dest: map_of_SomeD)
    with yaml_ok_entry [OF ok] w show ?thesis by fastforce
  qed
  with d show ?thesis by (auto simp: mapping_ok_def intro: distinct_map_filter)
qed

subsection \<open>The last steps leave the owned keys alone\<close>

lemma get_ensure_lan: "k \<noteq> ''bind-address'' \<Longrightarrow> get (ensure_lan_bind_address config) k = get config k"
  by (simp add: ensure_lan_bind_address_def Let_def get_put)

lemma ok_ensure_lan: "mapping_ok config \<Longrightarrow> mapping_ok (ensure_lan_bind_address config)"
  by (simp add: ensure_lan_bind_address_def Let_def)

lemma get_cleanup: "k \<noteq> ''proxy-groups'' \<Longrightarrow> get (cleanup_proxy_groups config) k = get config k"
  by (auto simp: cleanup_proxy_groups_def get_put split: option.splits yaml.splits)

lemma ok_cleanup: "mapping_ok config \<Longrightarrow> mapping_ok (cleanup_proxy_groups config)"
  by (auto simp: cleanup_proxy_groups_def split: option.splits yaml.splits)

lemma get_finished:
  assumes "mapping_ok (enforce (platform_of env) a config)" and "k \<notin> {''bind-address'', ''proxy-groups''}"
  shows "get (finished env a config) k = get (enforce (platform_of env) a config) k"
proof -
  have "mapping_ok (cleanup_proxy_groups (ensure_lan_bind_address (enforce (platform_of env) a config)))"
    by (rule ok_cleanup [OF ok_ensure_lan [OF assms(1)]])
  then show ?thesis using assms(2) by (simp add: finished_def use_sort_spec(1) get_cleanup get_ensure_lan)
qed

lemma get_apply_dns:
  "k \<notin> {''dns'', ''hosts''} \<Longrightarrow> get (fst (apply_dns_settings parse f config on)) k = get config k"
proof -
  assume k: "k \<notin> {''dns'', ''hosts''}"
  have "get (fst (merge_dns_config config m)) k = get config k" for m
    using k unfolding merge_dns_config_def Let_def
    by (auto simp: split_beta get_put get_take_mapping split: option.splits yaml.splits)
  then show ?thesis by (auto simp: apply_dns_settings_def split: option.splits)
qed

lemma get_use_tun: "get (fst (use_tun plat config enable)) ''tun''
    = Some (Mapping (put ''enable'' (Bool enable) (mapping_at config ''tun'')))"
  by (simp add: use_tun_def Let_def get_put)

lemma derived_tun: "\<exists>m. get (fst (derived_config env cv dns_on its)) ''tun'' = Some (Mapping m)
    \<and> get m ''enable'' = Some (Bool (cv_enable_tun cv))"
  unfolding derived_config_def Let_def
  by (simp add: split_beta get_apply_dns get_use_tun get_put)

lemma enhance_profile_config:
  "en_config (enhance_profile env cv dns_on its notice)
    = finished env (captured env cv dns_on its) (fst (overlaid env cv dns_on its))"
  by (simp add: enhance_profile_def Let_def split_beta)

lemma captured_fields:
  assumes "derived_config env cv dns_on its = (derived, dns_settings, ks, es)"
  shows "control_plane (captured env cv dns_on its) = snapshot_control_plane (platform_of env) derived"
    and "own_tun (captured env cv dns_on its) = snapshot_tun derived (gui_tun_keys (platform_of env) (cv_clash_config cv))"
    and "own_dns (captured env cv dns_on its) = fst (take_mapping dns_settings ''dns'')"
    and "own_hosts (captured env cv dns_on its) = get dns_settings ''hosts''"
  by (simp_all add: captured_def capture_fields_def assms split_beta Let_def get_take_mapping)

lemma map_of_snapshot_tun:
  "get config ''tun'' = Some (Mapping m) \<Longrightarrow> map_of (snapshot_tun config ks) k = (if k \<in> set ks then map_of m k else None)"
  by (auto simp: snapshot_tun_def map_of_collect split: option.splits)

lemma ok_snapshot_tun: "mapping_ok (snapshot_tun config ks)"
  by (auto simp: snapshot_tun_def ok_collect split: option.splits yaml.splits)

lemma enhanced_fields:
  assumes "mapping_ok (pi_config its)"
    and "\<And>s m. parse_yaml env s = Some m \<Longrightarrow> yaml_ok (Mapping m)"
    and "derived_config env cv dns_on its = (derived, dns_settings, ks, es)"
    and "config = en_config (enhance_profile env cv dns_on its notice)"
  shows "(\<forall>k \<in> set (CONTROL_PLANE_KEYS (platform_of env)). get config k = get derived k)
    \<and> (\<exists>m m0. get config ''tun'' = Some (Mapping m) \<and> get derived ''tun'' = Some (Mapping m0)
        \<and> get m ''enable'' = Some (Bool (cv_enable_tun cv))
        \<and> (\<forall>k v. k \<in> set (gui_tun_keys (platform_of env) (cv_clash_config cv)) \<and> map_of m0 k = Some v
              \<longrightarrow> map_of m k = Some v))
    \<and> (\<forall>d k v. get dns_settings ''dns'' = Some (Mapping d) \<and> map_of d k = Some v
          \<longrightarrow> (\<exists>m. get config ''dns'' = Some (Mapping m) \<and> map_of m k = Some v))
    \<and> (get dns_settings ''hosts'' \<noteq> None \<longrightarrow> get config ''hosts'' = get dns_settings ''hosts'')"
proof -
  let ?a = "captured env cv dns_on its" and ?gui = "gui_tun_keys (platform_of env) (cv_clash_config cv)"
  let ?c = "fst (overlaid env cv dns_on its)"
  note cap = captured_fields [OF assms(3)]
  have ds: "get dns_settings ''dns'' = Some v \<Longrightarrow> \<exists>d. v = Mapping d \<and> mapping_ok d" for v
    using dns_part_ok [OF assms(2)] assms(3) unfolding derived_config_def Let_def
    by (fastforce simp: split_beta)
  have own_dns: "mapping_ok (own_dns ?a)"
    using ds by (auto simp: cap take_mapping_def split: option.splits)
  have okc: "mapping_ok ?c" by (rule ok_overlaid [OF assms(1)])
  note enf = enforce_lookup [where plat = "platform_of env" and a = ?a, OF okc cap(1) _ own_dns]
  have own_tun: "mapping_ok (own_tun ?a)" by (simp add: cap ok_snapshot_tun)
  note fin = get_finished [OF enf(6) [OF own_tun]]
  have cfg: "config = finished env ?a ?c" by (simp add: assms(4) enhance_profile_config)
  obtain m0 where m0: "get derived ''tun'' = Some (Mapping m0)" "get m0 ''enable'' = Some (Bool (cv_enable_tun cv))"
    using derived_tun [of env cv dns_on its] assms(3) by auto
  have tun_of: "map_of (own_tun ?a) k = (if k \<in> set ?gui then map_of m0 k else None)" for k
    by (simp add: cap map_of_snapshot_tun [OF m0(1)])
  have e: "map_of (own_tun ?a) (Str ''enable'') = Some (Bool (cv_enable_tun cv))"
    using m0(2) by (simp add: tun_of gui_tun_keys_def get_def)
  from enf(3) [OF own_tun e] fin [of "''tun''"] obtain m where m: "get config ''tun'' = Some (Mapping m)"
    "map_of m (Str ''enable'') = Some (Bool (cv_enable_tun cv))" by (auto simp: cfg)
  have "map_of m k = Some v" if "k \<in> set ?gui" "map_of m0 k = Some v" for k v
    using enf(3) [OF own_tun, of k v] that fin [of "''tun''"] m(1) by (auto simp: tun_of cfg)
  then have "\<exists>m m0. get config ''tun'' = Some (Mapping m) \<and> get derived ''tun'' = Some (Mapping m0)
        \<and> get m ''enable'' = Some (Bool (cv_enable_tun cv))
        \<and> (\<forall>k v. k \<in> set ?gui \<and> map_of m0 k = Some v \<longrightarrow> map_of m k = Some v)"
    using m m0(1) by (auto simp: get_def)
  moreover have "get config k = get derived k" if "k \<in> set (CONTROL_PLANE_KEYS (platform_of env))" for k
  proof -
    from that not_control_plane have "k \<notin> {''bind-address'', ''proxy-groups''}" by auto
    with enf(1) [OF own_tun that] fin [of k] show ?thesis by (simp add: cfg)
  qed
  moreover have "\<exists>m. get config ''dns'' = Some (Mapping m) \<and> map_of m k = Some v"
    if "get dns_settings ''dns'' = Some (Mapping d)" "map_of d k = Some v" for d k v
    using enf(4) [OF own_tun, of k v] that fin [of "''dns''"] by (auto simp: cfg cap take_mapping_def)
  moreover have "get config ''hosts'' = get dns_settings ''hosts''" if "get dns_settings ''hosts'' \<noteq> None"
    using enf(5) [OF own_tun] that fin [of "''hosts''"] by (auto simp: cfg cap)
  ultimately show ?thesis by simp
qed

text \<open>
  C8: whatever the global and the profile's merge files and scripts do, the generated configuration
  holds for every control-plane key exactly what the application derived (present or absent), for every
  TUN field of the settings dialog and every field of the DNS page the application's value, the hosts of
  the DNS page, and the TUN switch as it is set.
\<close>

theorem enhance_keeps_owned_fields:
  assumes "mapping_ok (pi_config its)"
    and "\<And>s m. parse_yaml env s = Some m \<Longrightarrow> yaml_ok (Mapping m)"
    and "derived_config env cv dns_on its = (derived, dns_settings, ks, es)"
    and "config = en_config (enhance_profile env cv dns_on its notice)"
  shows "(\<forall>k \<in> set (CONTROL_PLANE_KEYS (platform_of env)). get config k = get derived k)
    \<and> (\<exists>m m0. get config ''tun'' = Some (Mapping m) \<and> get derived ''tun'' = Some (Mapping m0)
        \<and> get m ''enable'' = Some (Bool (cv_enable_tun cv))
        \<and> (\<forall>k v. k \<in> set (gui_tun_keys (platform_of env) (cv_clash_config cv)) \<and> map_of m0 k = Some v
              \<longrightarrow> map_of m k = Some v))
    \<and> (\<forall>d k v. get dns_settings ''dns'' = Some (Mapping d) \<and> map_of d k = Some v
          \<longrightarrow> (\<exists>m. get config ''dns'' = Some (Mapping m) \<and> map_of m k = Some v))
    \<and> (get dns_settings ''hosts'' \<noteq> None \<longrightarrow> get config ''hosts'' = get dns_settings ''hosts'')"
  by (rule enhanced_fields [OF assms])

text \<open>A concrete environment: no files, an engine that always answers one configuration.\<close>

definition demo_env :: enhance_env where
  "demo_env = \<lparr>platform_of = Linux,
     files_of = \<lparr>profiles_dir = Inr (), file_exists = (\<lambda>_. False), read_text = (\<lambda>_. Inl []),
       read_map = (\<lambda>_. Inl []), read_seq = (\<lambda>_. Inl [])\<rparr>,
     scripts_of = \<lparr>to_json = (\<lambda>_. Inr []), from_json = (\<lambda>_. Some [(Str ''secret'', Str ''theirs'')]),
       run_js = (\<lambda>_ _. \<lparr>js_bind = Inr (), js_calls = [], js_value = JsString []\<rparr>),
       script_timeout = False, panic_message = []\<rparr>,
     dns_file = None, parse_yaml = (\<lambda>_. None)\<rparr>"

definition demo_values :: config_values where
  "demo_values = \<lparr>cv_clash_config = [(Str ''secret'', Str ''ours''), (Str ''port'', Number (PosInt 7899))],
     cv_clash_core = Some ''verge-mihomo'', cv_enable_tun = False, cv_enable_builtin = True,
     cv_switches = \<lparr>sw_socks = False, sw_http = False, sw_external_controller = False, sw_redir = False,
       sw_tproxy = False\<rparr>,
     cv_enable_dns_settings = False, cv_dns_override_confirmation = None\<rparr>"

definition quiet_notice :: discarded_keys_notice where
  "quiet_notice = \<lparr>pending_notice = None, last_notice = []\<rparr>"

definition demo_items :: "mapping \<Rightarrow> mapping \<Rightarrow> profile_items" where
  "demo_items config merge = profile_items_default\<lparr>pi_config := config,
     global_merge := \<lparr>chain_uid = ''Merge'', chain_data = ChainMerge merge\<rparr>\<rparr>"

lemmas demo_defs = demo_env_def demo_values_def demo_items_def profile_items_default_def empty_merge_def
  template_script_def

lemma demo_derived:
  "fst (derived_config demo_env demo_values False (demo_items [] merge))
    = [(Str ''rules'', Sequence []), (Str ''proxies'', Sequence []), (Str ''proxy-groups'', Sequence []),
       (Str ''secret'', Str ''ours''), (Str ''tun'', Mapping [(Str ''enable'', Bool False)])]"
  by (simp add: derived_config_def demo_defs process_seq_items_def use_seq_def seq_items_def
      seq_map_default_def mapping_defs collect_proxy_names_def map_filter_def merge_default_config_def
      merge_default_entry_def apply_builtin_scripts_def builtin_items_def is_support_def run_builtin_def
      builtin_hy_alpn_def builtin_meta_guard_def use_lowercase_owned_def lowercase_key_def to_lower_def
      ascii_lower_def use_tun_def mapping_at_def apply_dns_settings_def Let_def)

theorem enhance_keeps_owned_fields_witness:
  "let r = enhance_profile demo_env demo_values False
             (demo_items [] [(Str ''Secret'', Str ''theirs''), (Str ''port'', Number (PosInt 1))]) quiet_notice
   in get (en_config r) ''secret'' = Some (Str ''ours'') \<and> get (en_config r) ''port'' = None"
proof -
  let ?its = "demo_items [] [(Str ''Secret'', Str ''theirs''), (Str ''port'', Number (PosInt 1))]"
  have ok: "mapping_ok (pi_config ?its)" by (simp add: demo_defs)
  have parse: "\<And>s m. parse_yaml demo_env s = Some m \<Longrightarrow> yaml_ok (Mapping m)" by (simp add: demo_defs)
  obtain ds ks es where d: "derived_config demo_env demo_values False ?its
      = (fst (derived_config demo_env demo_values False ?its), ds, ks, es)" by (metis prod.collapse)
  have "''secret'' \<in> set (CONTROL_PLANE_KEYS (platform_of demo_env))"
    "''port'' \<in> set (CONTROL_PLANE_KEYS (platform_of demo_env))"
    by (simp_all add: CONTROL_PLANE_KEYS_def)
  with enhance_keeps_owned_fields [OF ok parse d refl, where notice = quiet_notice] show ?thesis
    unfolding demo_derived Let_def by (simp add: get_def)
qed

subsection \<open>Listeners that are switched off\<close>

text \<open>What the pipeline must leave under a key whose switch is off: nothing, or an empty controller address.\<close>

definition off_value :: "platform \<Rightarrow> listener_switches \<Rightarrow> string \<Rightarrow> yaml option option" where
  "off_value plat sw k =
     (if (k = ''socks-port'' \<and> \<not> sw_socks sw) \<or> (k = ''port'' \<and> \<not> sw_http sw)
         \<or> (k = ''redir-port'' \<and> plat \<noteq> Windows \<and> \<not> sw_redir sw)
         \<or> (k = ''tproxy-port'' \<and> plat = Linux \<and> \<not> sw_tproxy sw) then Some None
      else if k = ''external-controller'' \<and> \<not> sw_external_controller sw then Some (Some (Str []))
      else None)"

definition only_spelled :: "string \<Rightarrow> mapping \<Rightarrow> bool" where
  "only_spelled k m \<longleftrightarrow> (\<forall>key \<in> fst ` set m. \<forall>s. as_str key = Some s \<and> to_lower s = k \<longrightarrow> key = Str k)"

lemma off_value_keys:
  "off_value plat sw k = Some r \<Longrightarrow> k \<in> set (CONTROL_PLANE_KEYS plat) \<and> to_lower k = k
     \<and> k \<notin> {''tun'', ''dns'', ''hosts'', ''proxies'', ''mode'', ''rules'', ''proxy-groups''}"
  by (auto simp: off_value_def CONTROL_PLANE_KEYS_def to_lower_def ascii_lower_def split: if_splits)

lemma get_merge_default_entry:
  assumes "mapping_ok config"
  shows "s \<noteq> k \<Longrightarrow> get (merge_default_entry plat sw (Str s) v config) k = get config k"
    and "off_value plat sw k = Some r \<Longrightarrow> get (merge_default_entry plat sw (Str k) v config) k = r"
  using assms
  by (auto simp: merge_default_entry_def off_value_def get_put get_remove put_def [symmetric] split: if_splits)

lemma get_merge_default:
  assumes "off_value plat sw k = Some r" and "\<forall>key \<in> fst ` set clash. \<exists>s. key = Str s"
  shows "mapping_ok config \<Longrightarrow> distinct (map fst clash) \<Longrightarrow>
    get (merge_default_config plat sw config clash) k = (if contains_key clash k then r else get config k)"
  using assms(2)
proof (unfold merge_default_config_def, induction clash arbitrary: config)
  case Nil
  then show ?case by (simp add: mapping_defs)
next
  case (Cons p clash)
  obtain s v where p: "p = (Str s, v)" using Cons.prems(3) by (cases p) auto
  let ?c = "merge_default_entry plat sw (Str s) v config"
  have ok: "mapping_ok ?c" using Cons.prems(1) by (simp add: merge_default_entry_def)
  have IH: "get (fold (\<lambda>(key, value). merge_default_entry plat sw key value) clash ?c) k
      = (if contains_key clash k then r else get ?c k)"
    using Cons.IH [OF ok] Cons.prems(2,3) by simp
  show ?case
  proof (cases "s = k")
    case True
    then have "\<not> contains_key clash k" using Cons.prems(2) p by (force simp: mapping_defs dest: map_of_SomeD)
    with True IH p get_merge_default_entry(2) [OF Cons.prems(1) assms(1)] show ?thesis
      by (simp add: mapping_defs)
  next
    case False
    with IH p get_merge_default_entry(1) [OF Cons.prems(1) False] show ?thesis by (simp add: mapping_defs)
  qed
qed

lemma keys_update: "fst ` set (AList.update k v m) = insert k (fst ` set m)"
  by (simp add: AList.dom_update)

lemma keys_swap_remove: "fst ` set (swap_remove k m) \<subseteq> fst ` set m"
proof (induction m)
  case (Cons p m)
  have "set (butlast m) \<subseteq> set m" "m \<noteq> [] \<Longrightarrow> last m \<in> set m" by (auto dest: in_set_butlastD)
  with Cons show ?case by (cases p) auto
qed simp

lemma keys_put: "fst ` set (put k v c) = insert (Str k) (fst ` set c)"
  by (simp add: put_def keys_update)

lemma keys_move: "fst ` set (put g v (remove_key g c)) \<subseteq> insert (Str g) (fst ` set c)"
  unfolding keys_put remove_key_def using keys_swap_remove by blast

lemma keys_use_seq: "fst ` set (use_seq seq config field) \<subseteq> fst ` set config \<union> {Str field, Str ''proxy-groups''}"
proof -
  let ?c = "seq_items seq config field"
  have i: "fst ` set ?c \<subseteq> insert (Str field) (fst ` set config)"
    unfolding seq_items_def Let_def by (rule keys_move)
  have "use_seq seq config field = ?c \<or> (\<exists>v. use_seq seq config field = put ''proxy-groups'' v (remove_key ''proxy-groups'' ?c))"
    by (auto simp: use_seq_def Let_def split: option.splits yaml.splits)
  then show ?thesis
  proof
    assume "use_seq seq config field = ?c"
    with i show ?thesis by auto
  next
    assume "\<exists>v. use_seq seq config field = put ''proxy-groups'' v (remove_key ''proxy-groups'' ?c)"
    then obtain v where v: "use_seq seq config field = put ''proxy-groups'' v (remove_key ''proxy-groups'' ?c)" ..
    from i keys_move [of "''proxy-groups''" v ?c] show ?thesis unfolding v by blast
  qed
qed

lemma process_seq_keys:
  "fst ` set (process_seq_items config r p g)
    \<subseteq> fst ` set config \<union> {Str ''rules'', Str ''proxies'', Str ''proxy-groups''}"
proof -
  let ?X = "{Str ''rules'', Str ''proxies'', Str ''proxy-groups''}"
  have k: "fst ` set c \<subseteq> fst ` set config \<union> ?X \<Longrightarrow> f \<in> {''rules'', ''proxies'', ''proxy-groups''} \<Longrightarrow>
      fst ` set (use_seq seq c f) \<subseteq> fst ` set config \<union> ?X" for c f seq
    using keys_use_seq [of seq c f] by blast
  define c1 where "c1 = (case chain_data r of ChainRules seq \<Rightarrow> use_seq seq config ''rules'' | _ \<Rightarrow> config)"
  define c2 where "c2 = (case chain_data p of ChainProxies seq \<Rightarrow> use_seq seq c1 ''proxies'' | _ \<Rightarrow> c1)"
  have 1: "fst ` set c1 \<subseteq> fst ` set config \<union> ?X"
    unfolding c1_def by (cases "chain_data r") (simp_all only: chain_type.case k simp_thms insert_iff Un_upper1)
  then have 2: "fst ` set c2 \<subseteq> fst ` set config \<union> ?X"
    unfolding c2_def by (cases "chain_data p") (simp_all only: chain_type.case k simp_thms insert_iff)
  then show ?thesis unfolding process_seq_items_def Let_def c1_def [symmetric] c2_def [symmetric]
    by (cases "chain_data g") (simp_all only: chain_type.case k simp_thms insert_iff)
qed

lemma keys_merge_default:
  "fst ` set (merge_default_config plat sw config clash) \<subseteq> fst ` set config \<union> fst ` set clash \<union> {Str ''tun''}"
proof (unfold merge_default_config_def, induction clash arbitrary: config)
  case (Cons p clash)
  obtain key v where p: "p = (key, v)" by (rule prod.exhaust)
  have "fst ` set (merge_default_entry plat sw key v config) \<subseteq> fst ` set config \<union> {key, Str ''tun''}"
    using keys_swap_remove by (auto simp: merge_default_entry_def put_def remove_key_def keys_update)
  with Cons.IH [of "merge_default_entry plat sw key v config"] p show ?case by auto
qed auto

lemma get_use_lowercase:
  assumes "\<And>key v s. (key, v) \<in> set m \<Longrightarrow> as_str key = Some s \<Longrightarrow> to_lower s = k \<Longrightarrow> key = Str k"
    and "mapping_ok m" and "to_lower k = k"
  shows "get (use_lowercase m) k = get m k"
proof -
  have "(\<And>key v s. (key, v) \<in> set m' \<Longrightarrow> as_str key = Some s \<Longrightarrow> to_lower s = k \<Longrightarrow> key = Str k) \<Longrightarrow>
    distinct (map fst m') \<Longrightarrow>
    get (fold (\<lambda>(key, value) lowercased. case as_str key of
      Some s \<Rightarrow> AList.update (lowercase_key s) value lowercased | None \<Rightarrow> lowercased) m' acc) k
      = (case get m' k of Some v \<Rightarrow> Some v | None \<Rightarrow> get acc k)" for m' acc
  proof (induction m' arbitrary: acc)
    case (Cons p m')
    obtain key v where p: "p = (key, v)" by (rule prod.exhaust)
    have IH: "get (fold (\<lambda>(key, value) lowercased. case as_str key of
      Some s \<Rightarrow> AList.update (lowercase_key s) value lowercased | None \<Rightarrow> lowercased) m' acc) k
      = (case get m' k of Some v \<Rightarrow> Some v | None \<Rightarrow> get acc k)" for acc
      using Cons by (auto intro: Cons.IH)
    show ?case
    proof (cases "key = Str k")
      case True
      then have "get m' k = None" using Cons.prems(2) p by (auto simp: get_def map_of_eq_None_iff)
      with True p IH assms(3) show ?thesis
        by (simp add: lowercase_key_def get_put put_def [symmetric]) (simp add: get_def)
    next
      case False
      then have "to_lower s \<noteq> k" if "as_str key = Some s" for s
        using Cons.prems(1) [of key v s] that p by auto
      then have "get (case as_str key of Some s \<Rightarrow> AList.update (lowercase_key s) v acc | None \<Rightarrow> acc) k = get acc k"
        by (auto simp: lowercase_key_def get_put put_def [symmetric] split: option.splits)
      moreover have "get (p # m') k = get m' k" using False p by (simp add: get_def)
      ultimately show ?thesis using p IH by (simp split: option.splits)
    qed
  qed (simp add: get_def)
  from this [of m "[]"] assms show ?thesis
    by (simp add: use_lowercase_def mapping_ok_def get_def [of "[]"] split: option.splits)
qed

lemma get_run_builtins: "k \<notin> {''proxies'', ''mode''} \<Longrightarrow> get (fold run_builtin uids config) k = get config k"
proof (induction uids arbitrary: config)
  case (Cons u uids)
  have "get (run_builtin u config) k = get config k"
    using Cons.prems by (auto simp: run_builtin_def builtin_hy_alpn_def builtin_meta_guard_def get_put
        split: option.splits yaml.splits)
  with Cons show ?case by simp
qed simp

lemma get_builtins:
  assumes "mapping_ok config" and "only_spelled k config" and "to_lower k = k" and "k \<notin> {''proxies'', ''mode''}"
  shows "get (apply_builtin_scripts config core b) k = get config k"
proof -
  have "get (use_lowercase config) k = get config k"
    using assms(1,2,3) by (intro get_use_lowercase) (auto simp: only_spelled_def image_iff)
  then show ?thesis using assms(4) by (simp add: apply_builtin_scripts_def Let_def get_run_builtins use_lowercase_owned_same)
qed

lemma get_use_tun_other: "k \<notin> {''tun'', ''dns''} \<Longrightarrow> get (fst (use_tun plat config enable)) k = get config k"
  by (simp add: use_tun_def Let_def get_put)

lemma derived_off_value:
  assumes ok: "mapping_ok (pi_config its)" and off: "off_value (platform_of env) (cv_switches cv) k = Some r"
    and clash: "\<forall>key \<in> fst ` set (cv_clash_config cv). \<exists>s. key = Str s \<and> to_lower s = s"
    and d: "distinct (map fst (cv_clash_config cv))" and has: "contains_key (cv_clash_config cv) k"
    and spelled: "only_spelled k (pi_config its)"
  shows "get (fst (derived_config env cv dns_on its)) k = r"
proof -
  let ?c0 = "process_seq_items (pi_config its) (rules_item its) (proxies_item its) (groups_item its)"
  let ?c1 = "merge_default_config (platform_of env) (cv_switches cv) ?c0 (cv_clash_config cv)"
  note k = off_value_keys [OF off]
  have ok0: "mapping_ok ?c0" by (rule ok_process_seq [OF ok])
  have g1: "get ?c1 k = r"
    using get_merge_default [OF off _ ok0 d] clash has by auto
  have "key = Str k" if "key \<in> fst ` set ?c1" "as_str key = Some s" "to_lower s = k" for key s
  proof -
    from that(1) have "key \<in> fst ` set (pi_config its) \<or> key \<in> fst ` set (cv_clash_config cv)
        \<or> key \<in> {Str ''tun'', Str ''rules'', Str ''proxies'', Str ''proxy-groups''}"
      using keys_merge_default [of "platform_of env" "cv_switches cv" ?c0 "cv_clash_config cv"]
        process_seq_keys [of "pi_config its" "rules_item its" "proxies_item its" "groups_item its"] by blast
    then show ?thesis
    proof (elim disjE)
      assume "key \<in> fst ` set (pi_config its)"
      with that spelled show ?thesis by (auto simp: only_spelled_def)
    next
      assume "key \<in> fst ` set (cv_clash_config cv)"
      with that clash show ?thesis by fastforce
    next
      assume "key \<in> {Str ''tun'', Str ''rules'', Str ''proxies'', Str ''proxy-groups''}"
      with that k show ?thesis by (auto simp: to_lower_def ascii_lower_def)
    qed
  qed
  then have sp: "only_spelled k ?c1" by (auto simp: only_spelled_def)
  have "get (apply_builtin_scripts ?c1 (cv_clash_core cv) (cv_enable_builtin cv)) k = r"
    using get_builtins [OF ok_merge_default [OF ok0] sp] k g1 by auto
  with k show ?thesis unfolding derived_config_def Let_def
    by (simp add: split_beta get_apply_dns get_use_tun_other)
qed

text \<open>
  C9: a listener whose switch is off stays closed: whatever the profile, the overlays and the scripts
  contain, the generated configuration has no port for it, and a controller that is switched off has
  an empty address.  The profile may name the key, but only in the spelling of the application.
\<close>

theorem disabled_listener_stays_closed:
  assumes "mapping_ok (pi_config its)"
    and "\<And>s m. parse_yaml env s = Some m \<Longrightarrow> yaml_ok (Mapping m)"
    and "\<forall>key \<in> fst ` set (cv_clash_config cv). \<exists>s. key = Str s \<and> to_lower s = s"
    and "distinct (map fst (cv_clash_config cv))" and "contains_key (cv_clash_config cv) k"
    and "off_value (platform_of env) (cv_switches cv) k = Some r" and "only_spelled k (pi_config its)"
  shows "get (en_config (enhance_profile env cv dns_on its notice)) k = r"
proof -
  obtain ds ks es where d: "derived_config env cv dns_on its = (fst (derived_config env cv dns_on its), ds, ks, es)"
    by (metis prod.collapse)
  have "k \<in> set (CONTROL_PLANE_KEYS (platform_of env))" using off_value_keys [OF assms(6)] by simp
  then show ?thesis
    using enhanced_fields [OF assms(1,2) d refl] derived_off_value [OF assms(1,6,3,4,5,7)] by simp
qed

theorem disabled_listener_stays_closed_witness:
  "get (en_config (enhance_profile demo_env demo_values False
     (demo_items [(Str ''port'', Number (PosInt 8080))] [(Str ''PORT'', Number (PosInt 1))]) quiet_notice)) ''port'' = None"
proof (rule disabled_listener_stays_closed)
  show "off_value (platform_of demo_env) (cv_switches demo_values) ''port'' = Some None"
    by (simp add: off_value_def demo_defs)
qed (simp_all add: demo_defs contains_key_def get_def only_spelled_def to_lower_def ascii_lower_def mapping_ok_def)

text \<open>
  The spelling matters.  A profile that writes the key with a capital letter opens a listener the
  user switched off: the application removes only its own spelling, the built-in step then lower-cases
  the keys, and the captured value is the profile's.
\<close>

theorem case_variant_reopens_listener:
  "\<not> sw_http (cv_switches demo_values) \<and> contains_key (cv_clash_config demo_values) ''port''
   \<and> get (en_config (enhance_profile demo_env demo_values False
        (demo_items [(Str ''Port'', Number (PosInt 8080))] []) quiet_notice)) ''port'' = Some (Number (PosInt 8080))"
proof -
  let ?its = "demo_items [(Str ''Port'', Number (PosInt 8080))] []"
  have ok: "mapping_ok (pi_config ?its)" by (simp add: demo_defs mapping_ok_def)
  have parse: "\<And>s m. parse_yaml demo_env s = Some m \<Longrightarrow> yaml_ok (Mapping m)" by (simp add: demo_defs)
  obtain ds ks es where d: "derived_config demo_env demo_values False ?its
      = (fst (derived_config demo_env demo_values False ?its), ds, ks, es)" by (metis prod.collapse)
  have p: "char_of (112::nat) = CHR ''p''" by (simp add: char_of_eq_iff)
  have "get (fst (derived_config demo_env demo_values False ?its)) ''port'' = Some (Number (PosInt 8080))"
    by (simp add: derived_config_def demo_defs process_seq_items_def use_seq_def seq_items_def
      seq_map_default_def mapping_defs collect_proxy_names_def map_filter_def merge_default_config_def
      merge_default_entry_def apply_builtin_scripts_def builtin_items_def is_support_def run_builtin_def
      builtin_hy_alpn_def builtin_meta_guard_def use_lowercase_owned_def lowercase_key_def to_lower_def
      ascii_lower_def p use_tun_def mapping_at_def apply_dns_settings_def Let_def)
  moreover have "''port'' \<in> set (CONTROL_PLANE_KEYS (platform_of demo_env))" by (simp add: CONTROL_PLANE_KEYS_def)
  ultimately show ?thesis
    using enhanced_fields [OF ok parse d refl, where notice = quiet_notice]
    by (simp add: demo_values_def mapping_defs)
qed

end
