(* ===== verification/EnhanceConfig.thy ===== *)
theory EnhanceConfig
  imports Enhance DnsOverride
begin

section \<open>The pipeline on the stored settings\<close>

text \<open>
  Models the outer part of \<open>enhance\<close> in \<open>src-tauri/src/enhance/mod.rs\<close>: the values it takes from the
  application settings and the clash configuration, the digest of the DNS fields a provider sets
  (\<open>dns_override_source\<close> of \<open>config/dns.rs\<close>, with SHA-256 over JSON as an argument), the verdict on the
  requested override, and the run of the pipeline on the current profile.
\<close>

definition get_config_values :: "platform \<Rightarrow> string \<Rightarrow> mapping \<Rightarrow> iverge \<Rightarrow> config_values" where
  "get_config_values plat uid clash_config s =
     (let dns_settings = dns_settings_for uid s
      in \<lparr>cv_clash_config = clash_config,
          cv_clash_core = Some (get_valid_clash_core s),
          cv_enable_tun = unwrap_or False (enable_tun_mode s),
          cv_enable_builtin = unwrap_or True (enable_builtin_enhanced s),
          cv_switches = \<lparr>sw_socks = unwrap_or False (verge_socks_enabled s),
            sw_http = unwrap_or False (verge_http_enabled s),
            sw_external_controller = unwrap_or False (enable_external_controller s),
            sw_redir = (plat \<noteq> Windows \<and> unwrap_or False (verge_redir_enabled s)),
            sw_tproxy = (plat = Linux \<and> unwrap_or False (verge_tproxy_enabled s))\<rparr>,
          cv_enable_dns_settings = dns_enabled dns_settings,
          cv_dns_override_confirmation = dns_confirmation dns_settings\<rparr>)"

definition PROVIDER_DNS_FIELDS :: "string list" where
  "PROVIDER_DNS_FIELDS = [''proxy-server-nameserver'', ''proxy-server-nameserver-policy'', ''nameserver-policy'']"

fun nonempty_field :: "yaml \<Rightarrow> bool" where
  "nonempty_field (Sequence values) = (values \<noteq> [])"
| "nonempty_field (Mapping values) = (values \<noteq> [])"
| "nonempty_field (Str v) = (trim v \<noteq> [])"
| "nonempty_field v = False"

text \<open>\<open>digest\<close> is the hash of the profile's identifier and the canonical JSON of the fields.\<close>

definition dns_override_source :: "(string \<Rightarrow> mapping \<Rightarrow> string + string) \<Rightarrow> string \<Rightarrow> mapping \<Rightarrow> string + string option" where
  "dns_override_source digest uid config =
     (case Option.bind (get config ''dns'') as_mapping of
        None \<Rightarrow> Inr None
      | Some d \<Rightarrow>
          (let fields = List.map_filter (\<lambda>key. case get d key of
                 Some v \<Rightarrow> if nonempty_field v then Some (Str key, v) else None | None \<Rightarrow> None) PROVIDER_DNS_FIELDS
           in if fields = [] then Inr None else map_sum id Some (digest uid fields)))"

definition enhance :: "enhance_env \<Rightarrow> (string \<Rightarrow> mapping \<Rightarrow> string + string) \<Rightarrow> mapping \<Rightarrow> iverge \<Rightarrow> iprofiles
    \<Rightarrow> discarded_keys_notice \<Rightarrow> string + (enhanced \<times> dns_override_state)" where
  "enhance env digest clash_config s profiles notice =
     (let uid = unwrap_or [] (current profiles);
          cv = get_config_values (platform_of env) uid clash_config s
      in and_then (collect_profile_items (files_of env) profiles) (\<lambda>its.
         and_then (dns_override_source digest uid (pi_config its)) (\<lambda>src.
           let st = dns_override_new uid src (cv_enable_dns_settings cv) (cv_dns_override_confirmation cv)
           in Inr (enhance_profile env cv (ovr_enabled st) its notice, st))))"

text \<open>
  A provider that sets its own DNS fields turns the DNS page off until the user confirms exactly those
  fields; without such fields the setting alone decides.
\<close>

lemma enhance_dns_override:
  assumes "enhance env digest clash_config s profiles notice = Inr (e, st)"
    and "ovr_source st = Some fields_digest" and "ovr_enabled st"
  shows "dns_confirmation (dns_settings_for (unwrap_or [] (current profiles)) s) = Some fields_digest"
  using assms
  by (auto simp: enhance_def Let_def and_then_Inr_conv dns_override_new_def get_config_values_def)

end
