(* ===== verification/NodeSelection.thy ===== *)
theory NodeSelection
  imports Profiles
begin

section \<open>Recorded node selections and the groups of the running core\<close>

text \<open>
  Models the second half of \<open>src-tauri/src/config/profiles.rs\<close>: a profile records which node each
  proxy group should use; after a core start or a profile switch the records are put back.  The
  groups reported by the core (a type of the mihomo plug-in) are records with the fields the code
  reads.  A selection that cannot be found is dropped only after two reports agree; activation tasks
  are superseded by a generation counter.
\<close>

datatype proxy_type = Selector | URLTest | Fallback | LoadBalance | OtherProxyType

record proxy_group =
  group_type :: proxy_type
  group_now :: "string option"
  group_all :: "string list option"

type_synonym proxies_report = "string \<Rightarrow> proxy_group option"

record selected_nodes_plan =
  plan_selected :: "selected_node list"
  activations :: "(string \<times> string) list"
  repaired_count :: nat

definition node_is_available :: "string list \<Rightarrow> string \<Rightarrow> bool" where
  "node_is_available available_nodes node = (node \<in> set available_nodes)"

definition nonempty_nodes :: "proxy_group \<Rightarrow> string list option" where
  "nonempty_nodes g = (case group_all g of Some (x # xs) \<Rightarrow> Some (x # xs) | _ \<Rightarrow> None)"

definition needs_confirmation :: "selected_node list \<Rightarrow> proxies_report \<Rightarrow> bool" where
  "needs_confirmation sel report = list_ex (\<lambda>item.
     case (sel_name item, sel_now item) of
       (Some g, Some node) \<Rightarrow>
         (case report g of
            None \<Rightarrow> True
          | Some grp \<Rightarrow> (case nonempty_nodes grp of None \<Rightarrow> True | Some nodes \<Rightarrow> \<not> node_is_available nodes node))
     | _ \<Rightarrow> False) sel"

text \<open>The last record of every group, in the order of the list; records without a group go.\<close>

fun unique_from_end :: "string list \<Rightarrow> selected_node list \<Rightarrow> selected_node list" where
  "unique_from_end seen [] = []"
| "unique_from_end seen (item # its) = (case sel_name item of
     None \<Rightarrow> unique_from_end seen its
   | Some g \<Rightarrow> if g \<in> set seen then unique_from_end seen its else item # unique_from_end (g # seen) its)"

definition unique_selected :: "selected_node list \<Rightarrow> selected_node list" where
  "unique_selected sel = rev (unique_from_end [] (rev sel))"

definition is_selectable_group :: "proxy_group \<Rightarrow> bool" where
  "is_selectable_group g \<longleftrightarrow> group_type g \<in> {Selector, URLTest, Fallback, LoadBalance}"

definition missing_was_confirmed :: "proxies_report option \<Rightarrow> string \<Rightarrow> string \<Rightarrow> bool" where
  "missing_was_confirmed previous g node =
     (case Option.bind (Option.bind previous (\<lambda>report. report g)) nonempty_nodes of
        None \<Rightarrow> False | Some nodes \<Rightarrow> \<not> node_is_available nodes node)"

definition add_repair :: "selected_nodes_plan \<Rightarrow> selected_nodes_plan" where
  "add_repair plan = plan\<lparr>repaired_count := Suc (repaired_count plan)\<rparr>"

definition add_selected :: "selected_node \<Rightarrow> selected_nodes_plan \<Rightarrow> selected_nodes_plan" where
  "add_selected item plan = plan\<lparr>plan_selected := plan_selected plan @ [item]\<rparr>"

definition current_if_available :: "proxy_group \<Rightarrow> string list \<Rightarrow> string option" where
  "current_if_available grp nodes = (case group_now grp of
     Some c \<Rightarrow> if node_is_available nodes c then Some c else None | None \<Rightarrow> None)"

definition reconcile_item :: "proxies_report option \<Rightarrow> proxies_report \<Rightarrow> selected_node \<Rightarrow> selected_nodes_plan
    \<Rightarrow> selected_nodes_plan" where
  "reconcile_item previous report item plan =
     (case (sel_name item, sel_now item) of
        (Some g, Some node) \<Rightarrow>
          (case report g of
             None \<Rightarrow>
               if (case previous of Some r \<Rightarrow> r g = None | None \<Rightarrow> False) then add_repair plan else add_selected item plan
           | Some grp \<Rightarrow>
               (case nonempty_nodes grp of
                  None \<Rightarrow> add_selected item plan
                | Some nodes \<Rightarrow>
                    if \<not> is_selectable_group grp then
                      (case (case current_if_available grp nodes of Some c \<Rightarrow> Some c
                             | None \<Rightarrow> if node_is_available nodes node then Some node else None) of
                         Some preferred \<Rightarrow>
                           add_selected \<lparr>sel_name = Some g, sel_now = Some preferred\<rparr>
                             (if preferred \<noteq> node then add_repair plan else plan)
                       | None \<Rightarrow> add_repair plan)
                    else if node_is_available nodes node then
                      (let plan = add_selected item plan
                       in if group_now grp \<noteq> Some node then plan\<lparr>activations := activations plan @ [(g, node)]\<rparr> else plan)
                    else if \<not> missing_was_confirmed previous g node then add_selected item plan
                    else (case current_if_available grp nodes of
                            Some c \<Rightarrow> add_selected \<lparr>sel_name = Some g, sel_now = Some c\<rparr> (add_repair plan)
                          | None \<Rightarrow> add_repair plan)))
      | _ \<Rightarrow> add_repair plan)"

definition reconcile_selected_nodes :: "selected_node list \<Rightarrow> proxies_report option \<Rightarrow> proxies_report \<Rightarrow> selected_nodes_plan" where
  "reconcile_selected_nodes sel previous report =
     (let unique = unique_selected sel
      in fold (reconcile_item previous report) unique
           \<lparr>plan_selected = [], activations = [], repaired_count = length sel - length unique\<rparr>)"

text \<open>Records whose groups have not reached the requested node.\<close>

definition unsettled_selections :: "selected_node list \<Rightarrow> proxies_report \<Rightarrow> string list" where
  "unsettled_selections sel report = List.map_filter (\<lambda>item.
     case (sel_name item, sel_now item) of
       (Some g, Some node) \<Rightarrow>
         (case report g of Some grp \<Rightarrow> if group_now grp = Some node then None else Some g | None \<Rightarrow> Some g)
     | _ \<Rightarrow> None) sel"

definition remaining_activations :: "(string \<times> string) list \<Rightarrow> (string \<Rightarrow> string option) \<Rightarrow> (string \<times> string) list" where
  "remaining_activations acts completed = filter (\<lambda>(g, node). completed g \<noteq> Some node) acts"

subsection \<open>Recording and forgetting a selection\<close>

definition put_selected :: "string \<Rightarrow> string \<Rightarrow> selected_node list \<Rightarrow> selected_node list option" where
  "put_selected g node sel =
     (case find (\<lambda>e. sel_name e = Some g) sel of
        Some e \<Rightarrow> if sel_now e = Some node then None
                  else Some (update_first (\<lambda>e. sel_name e = Some g) (\<lambda>e. e\<lparr>sel_now := Some node\<rparr>) sel)
      | None \<Rightarrow> Some (sel @ [\<lparr>sel_name = Some g, sel_now = Some node\<rparr>]))"

definition set_current_selected :: "(selected_node list \<Rightarrow> selected_node list option option) \<Rightarrow> iprofiles
    \<Rightarrow> iprofiles option" where
  "set_current_selected f p =
     (case current p of
        None \<Rightarrow> None
      | Some c \<Rightarrow>
          (case find (\<lambda>i. prf_uid i = Some c) (item_list p) of
             None \<Rightarrow> None
           | Some item \<Rightarrow> map_option (\<lambda>sel. p\<lparr>items := Some (update_first (\<lambda>i. prf_uid i = Some c)
                 (\<lambda>i. i\<lparr>prf_selected := sel\<rparr>) (item_list p))\<rparr>) (f (unwrap_or [] (prf_selected item)))))"

text \<open>The edit run inside \<open>with_data_modify\<close>: the new list, and whether something was recorded.\<close>

definition record_selected_edit :: "(iprofiles \<Rightarrow> string + unit) \<Rightarrow> string \<Rightarrow> string \<Rightarrow> iprofiles \<Rightarrow> (iprofiles \<times> bool) res" where
  "record_selected_edit save g node p =
     (case set_current_selected (\<lambda>sel. map_option Some (put_selected g node sel)) p of
        None \<Rightarrow> Inr (p, False)
      | Some p' \<Rightarrow> and_then (save p') (\<lambda>_. Inr (p', True)))"

definition remove_selected_node :: "selected_node list \<Rightarrow> string \<Rightarrow> bool \<times> selected_node list" where
  "remove_selected_node sel g =
     (let sel' = filter (\<lambda>e. sel_name e \<noteq> Some g) sel in (length sel' \<noteq> length sel, sel'))"

definition forget_selected_edit :: "(iprofiles \<Rightarrow> string + unit) \<Rightarrow> string \<Rightarrow> iprofiles \<Rightarrow> (iprofiles \<times> bool) res" where
  "forget_selected_edit save g p =
     (case set_current_selected (\<lambda>sel. case remove_selected_node sel g of
         (True, sel') \<Rightarrow> Some (if sel' = [] then None else Some sel') | (False, _) \<Rightarrow> None) p of
        None \<Rightarrow> Inr (p, False)
      | Some p' \<Rightarrow> and_then (save p') (\<lambda>_. Inr (p', True)))"

text \<open>Writing a pruned plan back, only if the profile and its records are still those it was made for.\<close>

definition persist_edit :: "(iprofiles \<Rightarrow> string + unit) \<Rightarrow> bool \<Rightarrow> string \<Rightarrow> selected_node list \<Rightarrow> selected_node list
    \<Rightarrow> iprofiles \<Rightarrow> (iprofiles \<times> bool) res" where
  "persist_edit save is_current uid original sel p =
     (if \<not> is_current \<or> current p \<noteq> Some uid then Inr (p, False)
      else (case find (\<lambda>i. prf_uid i = Some uid) (item_list p) of
        None \<Rightarrow> Inl (''failed to find the profile item \"uid:'' @ uid @ ''\"'')
      | Some item \<Rightarrow>
          if unwrap_or [] (prf_selected item) \<noteq> original then Inr (p, False)
          else (let p' = p\<lparr>items := Some (update_first (\<lambda>i. prf_uid i = Some uid)
                   (\<lambda>i. i\<lparr>prf_selected := (if sel = [] then None else Some sel)\<rparr>) (item_list p))\<rparr>
                in and_then (save p') (\<lambda>_. Inr (p', True)))))"

subsection \<open>What a reconciliation drops\<close>

lemma unique_from_end_subset: "set (unique_from_end seen xs) \<subseteq> set xs"
  by (induction seen xs rule: unique_from_end.induct) (auto split: option.splits)

lemma length_unique_from_end: "length (unique_from_end seen xs) \<le> length xs"
  by (induction seen xs rule: unique_from_end.induct) (auto split: option.splits)

lemma unique_from_end_full: "length (unique_from_end seen xs) = length xs \<Longrightarrow> unique_from_end seen xs = xs"
proof (induction seen xs rule: unique_from_end.induct)
  case (2 seen item its)
  then show ?case
    using length_unique_from_end [of seen its] by (auto split: option.splits if_splits)
qed simp

lemma find_unique_from_end:
  "g \<notin> set seen \<Longrightarrow> find (\<lambda>e. sel_name e = Some g) (unique_from_end seen xs) = find (\<lambda>e. sel_name e = Some g) xs"
  by (induction seen xs rule: unique_from_end.induct) (auto split: option.splits)

lemma unique_selected_full: "length (unique_selected sel) = length sel \<Longrightarrow> unique_selected sel = sel"
  using unique_from_end_full [of "[]" "rev sel"] by (simp add: unique_selected_def)

text \<open>One record: what it adds to the plan.\<close>

definition step_of :: "proxies_report option \<Rightarrow> proxies_report \<Rightarrow> selected_node \<Rightarrow> selected_nodes_plan" where
  "step_of previous report item = reconcile_item previous report item \<lparr>plan_selected = [], activations = [], repaired_count = 0\<rparr>"

lemma reconcile_item_split:
  "reconcile_item previous report item plan =
    \<lparr>plan_selected = plan_selected plan @ plan_selected (step_of previous report item),
     activations = activations plan @ activations (step_of previous report item),
     repaired_count = repaired_count plan + repaired_count (step_of previous report item)\<rparr>"
  by (auto simp: step_of_def reconcile_item_def add_repair_def add_selected_def Let_def
      split: option.splits)

lemma fold_reconcile:
  "fold (reconcile_item previous report) xs plan =
    \<lparr>plan_selected = plan_selected plan @ concat (map (\<lambda>i. plan_selected (step_of previous report i)) xs),
     activations = activations plan @ concat (map (\<lambda>i. activations (step_of previous report i)) xs),
     repaired_count = repaired_count plan + sum_list (map (\<lambda>i. repaired_count (step_of previous report i)) xs)\<rparr>"
  by (induction xs arbitrary: plan) (simp_all add: reconcile_item_split [of previous report _ plan for plan])

lemma current_is_available: "current_if_available grp nodes = Some c \<Longrightarrow> node_is_available nodes c"
  by (auto simp: current_if_available_def split: option.splits if_splits)

lemma step_repair: "repaired_count (step_of previous report item) = 0 \<longleftrightarrow> plan_selected (step_of previous report item) = [item]"
  by (cases item) (auto simp: step_of_def reconcile_item_def add_repair_def add_selected_def Let_def
      dest!: current_is_available split: option.splits)

lemma step_length: "length (plan_selected (step_of previous report item)) \<le> 1"
  by (auto simp: step_of_def reconcile_item_def add_repair_def add_selected_def Let_def split: option.splits)

lemma step_activation:
  "(g, node) \<in> set (activations (step_of previous report item)) \<Longrightarrow>
    item = \<lparr>sel_name = Some g, sel_now = Some node\<rparr> \<and> plan_selected (step_of previous report item) = [item]
    \<and> (\<exists>grp nodes. report g = Some grp \<and> nonempty_nodes grp = Some nodes \<and> is_selectable_group grp
          \<and> node \<in> set nodes \<and> group_now grp \<noteq> Some node)"
  by (cases item) (auto simp: step_of_def reconcile_item_def add_repair_def add_selected_def Let_def
      node_is_available_def split: option.splits if_splits)

lemma reconcile_as_steps:
  "reconcile_selected_nodes sel previous report = (let u = unique_selected sel in
    \<lparr>plan_selected = concat (map (\<lambda>i. plan_selected (step_of previous report i)) u),
     activations = concat (map (\<lambda>i. activations (step_of previous report i)) u),
     repaired_count = length sel - length u + sum_list (map (\<lambda>i. repaired_count (step_of previous report i)) u)\<rparr>)"
  by (simp add: reconcile_selected_nodes_def fold_reconcile Let_def)

text \<open>
  A plan counts a repair exactly when it changes the records, so the list is written back when it
  has to be and only then; a node is selected only for a record that is kept, in a selectable group that
  offers the node and uses another one.
\<close>

theorem reconcile_repairs_exactly:
  "(repaired_count (reconcile_selected_nodes sel previous report) = 0
      \<longleftrightarrow> plan_selected (reconcile_selected_nodes sel previous report) = sel)
   \<and> (\<forall>g node. (g, node) \<in> set (activations (reconcile_selected_nodes sel previous report)) \<longrightarrow>
        \<lparr>sel_name = Some g, sel_now = Some node\<rparr> \<in> set sel \<inter> set (plan_selected (reconcile_selected_nodes sel previous report))
        \<and> (\<exists>grp nodes. report g = Some grp \<and> group_all grp = Some nodes \<and> is_selectable_group grp
              \<and> node \<in> set nodes \<and> group_now grp \<noteq> Some node))"
proof -
  let ?u = "unique_selected sel" and ?r = "reconcile_selected_nodes sel previous report"
  let ?ps = "\<lambda>i. plan_selected (step_of previous report i)"
  have le: "length ?u \<le> length sel"
    using length_unique_from_end [of "[]" "rev sel"] by (simp add: unique_selected_def)
  have sub: "set ?u \<subseteq> set sel" using unique_from_end_subset [of "[]" "rev sel"] by (simp add: unique_selected_def)
  have len: "length (concat (map ?ps xs)) \<le> length xs" for xs
    using step_length by (induction xs) (auto simp: add_le_mono [of _ 1, simplified])
  have exact: "concat (map ?ps xs) = xs \<longleftrightarrow> (\<forall>i \<in> set xs. ?ps i = [i])" for xs
  proof (induction xs)
    case (Cons x xs)
    show ?case
    proof (cases "?ps x")
      case Nil
      with len [of xs] show ?thesis by (auto dest: arg_cong [of _ _ length])
    next
      case (Cons y ys)
      with step_length [of previous report x] have "?ps x = [y]" by simp
      with Cons.IH show ?thesis by auto
    qed
  qed simp
  have "repaired_count ?r = 0 \<longleftrightarrow> length ?u = length sel \<and> (\<forall>i \<in> set ?u. ?ps i = [i])"
  proof -
    have "repaired_count ?r = length sel - length ?u + sum_list (map (\<lambda>i. repaired_count (step_of previous report i)) ?u)"
      by (simp add: reconcile_as_steps Let_def)
    then have "repaired_count ?r = 0 \<longleftrightarrow> length ?u = length sel
        \<and> sum_list (map (\<lambda>i. repaired_count (step_of previous report i)) ?u) = 0"
      using le by linarith
    then show ?thesis by (simp add: sum_list_eq_0_iff step_repair)
  qed
  also have "\<dots> \<longleftrightarrow> plan_selected ?r = sel"
  proof
    assume a: "length ?u = length sel \<and> (\<forall>i \<in> set ?u. ?ps i = [i])"
    then have "?u = sel" by (simp add: unique_selected_full)
    with a exact [of ?u] show "plan_selected ?r = sel" by (simp add: reconcile_as_steps Let_def)
  next
    assume a: "plan_selected ?r = sel"
    then have "concat (map ?ps ?u) = sel" by (simp add: reconcile_as_steps Let_def)
    with len [of ?u] le have u: "length ?u = length sel" by simp
    with \<open>concat (map ?ps ?u) = sel\<close> exact [of ?u] show "length ?u = length sel \<and> (\<forall>i \<in> set ?u. ?ps i = [i])"
      by (simp add: unique_selected_full)
  qed
  moreover have "\<lparr>sel_name = Some g, sel_now = Some node\<rparr> \<in> set sel \<inter> set (plan_selected ?r)
        \<and> (\<exists>grp nodes. report g = Some grp \<and> group_all grp = Some nodes \<and> is_selectable_group grp
              \<and> node \<in> set nodes \<and> group_now grp \<noteq> Some node)"
    if "(g, node) \<in> set (activations ?r)" for g node
  proof -
    from that obtain i where i: "i \<in> set ?u" "(g, node) \<in> set (activations (step_of previous report i))"
      by (auto simp: reconcile_as_steps Let_def)
    note st = step_activation [OF i(2)]
    have "i \<in> set (plan_selected ?r)" using i(1) st by (force simp: reconcile_as_steps Let_def)
    moreover have "nonempty_nodes grp = Some nodes \<Longrightarrow> group_all grp = Some nodes" for grp nodes
      by (auto simp: nonempty_nodes_def split: option.splits list.splits)
    ultimately show ?thesis using st i(1) sub by blast
  qed
  ultimately show ?thesis by blast
qed

definition demo_group :: proxy_group where
  "demo_group = \<lparr>group_type = Selector, group_now = Some ''a'', group_all = Some [''a'', ''n'']\<rparr>"

theorem reconcile_repairs_exactly_witness:
  "let sel = [\<lparr>sel_name = Some ''G'', sel_now = Some ''n''\<rparr>]; r = reconcile_selected_nodes sel None [''G'' \<mapsto> demo_group]
   in activations r = [(''G'', ''n'')] \<and> plan_selected r = sel"
proof -
  let ?sel = "[\<lparr>sel_name = Some ''G'', sel_now = Some ''n''\<rparr>]"
  let ?r = "reconcile_selected_nodes ?sel None [''G'' \<mapsto> demo_group]"
  have a: "activations ?r = [(''G'', ''n'')]" "repaired_count ?r = 0"
    by (simp_all add: reconcile_selected_nodes_def unique_selected_def reconcile_item_def nonempty_nodes_def
        demo_group_def is_selectable_group_def node_is_available_def add_selected_def)
  with reconcile_repairs_exactly [of ?sel None "[''G'' \<mapsto> demo_group]"] show ?thesis by simp
qed

lemma step_pruned:
  assumes "plan_selected (step_of previous report item) \<noteq> [item]"
    and "sel_name item = Some g" and "sel_now item = Some node"
  shows "(report g = None \<and> (\<exists>r. previous = Some r \<and> r g = None))
    \<or> (\<exists>grp nodes. report g = Some grp \<and> nonempty_nodes grp = Some nodes \<and>
        (if is_selectable_group grp
         then node \<notin> set nodes \<and> (\<exists>r grp' nodes'. previous = Some r \<and> r g = Some grp'
                \<and> nonempty_nodes grp' = Some nodes' \<and> node \<notin> set nodes')
         else node \<notin> set nodes \<or> (\<exists>c. group_now grp = Some c \<and> c \<noteq> node \<and> c \<in> set nodes)))"
  using assms
  by (cases item) (auto simp: step_of_def reconcile_item_def add_repair_def add_selected_def Let_def
      missing_was_confirmed_def current_if_available_def node_is_available_def
      split: option.splits if_splits Option.bind_splits)

text \<open>
  A record of a group is given up only on evidence: the group is missing from two reports in a row,
  or the node is missing from two complete reports in a row, or the group cannot be selected by the user
  and reports another node.  On the evidence of a single report no record of a missing or selectable
  group is dropped, so a provider that is still loading loses nothing.
\<close>

theorem reconcile_prunes_only_confirmed:
  assumes "item \<in> set (unique_selected sel)" and "sel_name item = Some g" and "sel_now item = Some node"
    and "item \<notin> set (plan_selected (reconcile_selected_nodes sel previous report))"
  shows "(report g = None \<and> (\<exists>r. previous = Some r \<and> r g = None))
    \<or> (\<exists>grp nodes. report g = Some grp \<and> nonempty_nodes grp = Some nodes \<and>
        (if is_selectable_group grp
         then node \<notin> set nodes \<and> (\<exists>r grp' nodes'. previous = Some r \<and> r g = Some grp'
                \<and> nonempty_nodes grp' = Some nodes' \<and> node \<notin> set nodes')
         else node \<notin> set nodes \<or> (\<exists>c. group_now grp = Some c \<and> c \<noteq> node \<and> c \<in> set nodes)))"
proof (rule step_pruned [OF _ assms(2,3)])
  show "plan_selected (step_of previous report item) \<noteq> [item]"
    using assms(1,4) by (force simp: reconcile_as_steps Let_def)
qed

theorem reconcile_prunes_only_confirmed_witness:
  "let gone = \<lparr>sel_name = Some ''G'', sel_now = Some ''x''\<rparr>; report = [''G'' \<mapsto> demo_group]
   in gone \<in> set (plan_selected (reconcile_selected_nodes [gone] None report))
      \<and> gone \<notin> set (plan_selected (reconcile_selected_nodes [gone] (Some report) report))
      \<and> (\<exists>nodes. nonempty_nodes demo_group = Some nodes \<and> ''x'' \<notin> set nodes)"
proof -
  let ?gone = "\<lparr>sel_name = Some ''G'', sel_now = Some ''x''\<rparr>" and ?report = "[''G'' \<mapsto> demo_group]"
  note defs = reconcile_selected_nodes_def unique_selected_def reconcile_item_def nonempty_nodes_def
    demo_group_def is_selectable_group_def node_is_available_def add_selected_def missing_was_confirmed_def
    current_if_available_def add_repair_def
  have k: "?gone \<in> set (plan_selected (reconcile_selected_nodes [?gone] None ?report))"
    and u: "?gone \<in> set (unique_selected [?gone])"
    and d: "?gone \<notin> set (plan_selected (reconcile_selected_nodes [?gone] (Some ?report) ?report))"
    by (simp_all add: defs)
  have "is_selectable_group demo_group" by (simp add: defs)
  with reconcile_prunes_only_confirmed [OF u _ _ d, of "''G''" "''x''"] k d show ?thesis
    by (auto simp: Let_def)
qed

text \<open>The last record of every group is the one that counts.\<close>

lemma last_record_counts:
  "find (\<lambda>e. sel_name e = Some g) (rev (unique_selected sel)) = find (\<lambda>e. sel_name e = Some g) (rev sel)"
  using find_unique_from_end [of g "[]" "rev sel"] by (simp add: unique_selected_def)

end
