(* ===== verification/ClashConfig.thy ===== *)
theory ClashConfig
  imports ConfigMerge NetAddr
begin

section \<open>The settings of the proxy core: \<open>config/clash.rs\<close> and \<open>config/runtime.rs\<close>\<close>

text \<open>
  Models \<open>IClashTemp\<close>, the mapping kept in \<open>config.yaml\<close>: its template, how a file is completed and
  guarded when it is loaded, how it is patched, and what the user interface reads from it.  Then the two
  edits of the generated configuration that do not regenerate it (\<open>IRuntime\<close>).  The platform is an
  argument; so are the IPC path of the core, where it is known (\<open>ipc\<close>), and what reading the file
  gives.  The branches of the feature \<open>verge-dev\<close> are left out.
\<close>

subsection \<open>The template\<close>

definition DEFAULT_EXTERNAL_CONTROLLER :: string where
  "DEFAULT_EXTERNAL_CONTROLLER = ''127.0.0.1:9097''"

definition DEFAULT_REDIR :: u16 where "DEFAULT_REDIR = 7895"
definition DEFAULT_TPROXY :: u16 where "DEFAULT_TPROXY = 7896"
definition DEFAULT_MIXED :: u16 where "DEFAULT_MIXED = 7897"
definition DEFAULT_SOCKS :: u16 where "DEFAULT_SOCKS = 7898"
definition DEFAULT_HTTP :: u16 where "DEFAULT_HTTP = 7899"

definition DEFAULT_STACK :: string where "DEFAULT_STACK = ''gvisor''"
definition DNS_HIJACK :: "string list" where "DNS_HIJACK = [''any:53'']"

definition port_value :: "u16 \<Rightarrow> yaml" where
  "port_value p = Number (PosInt (ucast p))"

definition guard_external_controller_ipc :: "string option \<Rightarrow> string" where
  "guard_external_controller_ipc ipc = unwrap_or DEFAULT_EXTERNAL_CONTROLLER ipc"

definition ipc_key :: "platform \<Rightarrow> string" where
  "ipc_key plat = (if plat = Windows then ''external-controller-pipe'' else ''external-controller-unix'')"

definition tun_template :: mapping where
  "tun_template = put ''dns-hijack'' (Sequence (map Str DNS_HIJACK))
     (put ''auto-detect-interface'' (Bool True)
     (put ''strict-route'' (Bool False)
     (put ''auto-route'' (Bool True)
     (put ''stack'' (Str DEFAULT_STACK)
     (put ''enable'' (Bool False) [])))))"

definition cors_template :: mapping where
  "cors_template = put ''allow-origins''
       (Sequence (map Str [''tauri://localhost'', ''http://tauri.localhost'', ''https://yacd.metacubex.one'',
         ''https://metacubex.github.io'', ''https://board.zash.run.place'']))
     (put ''allow-private-network'' (Bool True) [])"

definition iclash_template :: "platform \<Rightarrow> string option \<Rightarrow> mapping" where
  "iclash_template plat ipc =
     (let m = [];
          m = (if plat \<noteq> Windows then put ''redir-port'' (port_value DEFAULT_REDIR) m else m);
          m = (if plat = Linux then put ''tproxy-port'' (port_value DEFAULT_TPROXY) m else m);
          m = put ''mixed-port'' (port_value DEFAULT_MIXED) m;
          m = put ''socks-port'' (port_value DEFAULT_SOCKS) m;
          m = put ''port'' (port_value DEFAULT_HTTP) m;
          m = put ''log-level'' (Str ''info'') m;
          m = put ''allow-lan'' (Bool False) m;
          m = put ''ipv6'' (Bool True) m;
          m = put ''mode'' (Str ''rule'') m;
          m = put ''external-controller'' (Str DEFAULT_EXTERNAL_CONTROLLER) m;
          m = put (ipc_key plat) (Str (guard_external_controller_ipc ipc)) m;
          m = put ''tun'' (Mapping tun_template) m;
          m = put ''secret'' (Str ''set-your-secret'') m;
          m = put ''external-controller-cors'' (Mapping cors_template) m
      in put ''unified-delay'' (Bool True) m)"

subsection \<open>Ports and addresses\<close>

definition parse_u16 :: "string \<Rightarrow> u16 option" where
  "parse_u16 s = Option.bind (parse_nat s) (\<lambda>n. if n < 65536 then Some (word_of_nat n) else None)"

text \<open>A number is cast to 16 bits, so \<open>65537\<close> is port 1.\<close>

fun read_port_value :: "yaml \<Rightarrow> u16 option" where
  "read_port_value (Str val_str) = parse_u16 val_str"
| "read_port_value (Number val_num) = map_option ucast (as_u64 val_num)"
| "read_port_value v = None"

definition guarded_port :: "string \<Rightarrow> u16 \<Rightarrow> mapping \<Rightarrow> u16" where
  "guarded_port key dflt config =
     (let port = unwrap_or dflt (Option.bind (get config key) read_port_value)
      in if port = 0 then dflt else port)"

definition guard_redir_port :: "mapping \<Rightarrow> u16" where
  "guard_redir_port config = guarded_port ''redir-port'' 7895 config"

definition guard_tproxy_port :: "mapping \<Rightarrow> u16" where
  "guard_tproxy_port config = guarded_port ''tproxy-port'' DEFAULT_TPROXY config"

definition guard_mixed_port :: "mapping \<Rightarrow> u16" where
  "guard_mixed_port config = guarded_port ''mixed-port'' DEFAULT_MIXED config"

definition guard_socks_port :: "mapping \<Rightarrow> u16" where
  "guard_socks_port config = guarded_port ''socks-port'' 7898 config"

definition guard_port :: "mapping \<Rightarrow> u16" where
  "guard_port config = guarded_port ''port'' 7899 config"

definition controller_address :: "string \<Rightarrow> string" where
  "controller_address val_str =
     (let val_str = trim val_str
      in if starts_with '':'' val_str then ''127.0.0.1'' @ val_str else val_str)"

definition guard_server_ctrl :: "mapping \<Rightarrow> string" where
  "guard_server_ctrl config = unwrap_or ''127.0.0.1:9097''
     (Option.bind (get config ''external-controller'') (\<lambda>value.
        case as_str value of
          Some val_str \<Rightarrow> map_option show_socket_addr (parse_socket_addr (controller_address val_str))
        | None \<Rightarrow> None))"

definition guard_client_ctrl :: "mapping \<Rightarrow> string" where
  "guard_client_ctrl config =
     (case parse_socket_addr (guard_server_ctrl config) of
        Some socket \<Rightarrow> show_socket_addr
          (if is_unspecified (sock_ip socket) then socket\<lparr>sock_ip := V4 [127, 0, 0, 1], sock_scope := 0\<rparr> else socket)
      | None \<Rightarrow> ''127.0.0.1:9097'')"

subsection \<open>Loading, guarding and patching\<close>

definition iclash_guard :: "platform \<Rightarrow> string option \<Rightarrow> mapping \<Rightarrow> mapping" where
  "iclash_guard plat ipc config =
     (let redir_port = guard_redir_port config;
          tproxy_port = guard_tproxy_port config;
          mixed_port = guard_mixed_port config;
          socks_port = guard_socks_port config;
          port = guard_port config;
          ctrl = guard_server_ctrl config;
          config = (if plat \<noteq> Windows then put ''redir-port'' (port_value redir_port) config else config);
          config = (if plat = Linux then put ''tproxy-port'' (port_value tproxy_port) config else config);
          config = put ''mixed-port'' (port_value mixed_port) config;
          config = put ''socks-port'' (port_value socks_port) config;
          config = put ''port'' (port_value port) config;
          config = put ''external-controller'' (Str ctrl) config
      in put (ipc_key plat) (Str (guard_external_controller_ipc ipc)) config)"

definition add_missing :: "mapping \<Rightarrow> mapping \<Rightarrow> mapping" where
  "add_missing template_map m =
     fold (\<lambda>(key, value) m. if map_of m key = None then AList.update key value m else m) template_map m"

definition fill_secret :: "mapping \<Rightarrow> mapping" where
  "fill_secret m = (if get m ''secret'' = Some (Str []) then put ''secret'' (Str ''set-your-secret'') m else m)"

definition iclash_new :: "platform \<Rightarrow> string option \<Rightarrow> 'p res \<Rightarrow> ('p \<Rightarrow> mapping res) \<Rightarrow> mapping" where
  "iclash_new plat ipc clash_path read_mapping =
     (case (case clash_path of Inr path \<Rightarrow> read_mapping path | Inl _ \<Rightarrow> Inl ''Failed to get clash path'') of
        Inr m \<Rightarrow> iclash_guard plat ipc (fill_secret (add_missing (iclash_template plat ipc) m))
      | Inl _ \<Rightarrow> iclash_template plat ipc)"

definition iclash_patch_config :: "mapping \<Rightarrow> mapping \<Rightarrow> mapping" where
  "iclash_patch_config config patch = fold (\<lambda>(key, value). AList.update key value) patch config"

definition get_mixed_port :: "mapping \<Rightarrow> u16" where
  "get_mixed_port config = guard_mixed_port config"

record clash_info =
  info_mixed_port :: u16
  info_socks_port :: u16
  info_port :: u16
  info_server :: string
  info_secret :: "string option"

text \<open>\<open>show_number\<close> prints a YAML number.\<close>

definition get_client_info :: "(number \<Rightarrow> string) \<Rightarrow> mapping \<Rightarrow> clash_info" where
  "get_client_info show_number config =
     \<lparr>info_mixed_port = guard_mixed_port config,
      info_socks_port = guard_socks_port config,
      info_port = guard_port config,
      info_server = guard_client_ctrl config,
      info_secret = Option.bind (get config ''secret'') (\<lambda>value. case value of
          Str val_str \<Rightarrow> Some val_str
        | Bool val_bool \<Rightarrow> Some (if val_bool then ''true'' else ''false'')
        | Number val_num \<Rightarrow> Some (show_number val_num)
        | _ \<Rightarrow> None)\<rparr>"

definition get_mode :: "mapping \<Rightarrow> string option" where
  "get_mode config = (case get config ''mode'' of Some (Str val_str) \<Rightarrow> Some val_str | _ \<Rightarrow> None)"

subsection \<open>Edits of the generated configuration\<close>

definition PATCH_CONFIG_INNER :: "string list" where
  "PATCH_CONFIG_INNER = [''allow-lan'', ''ipv6'', ''log-level'', ''unified-delay'', ''tunnels'']"

definition patch_inner :: "mapping \<Rightarrow> mapping \<Rightarrow> mapping" where
  "patch_inner patch config = fold (\<lambda>key config.
     case get patch key of Some value \<Rightarrow> put key value config | None \<Rightarrow> config) PATCH_CONFIG_INNER config"

definition patch_tun_keys :: "mapping \<Rightarrow> mapping \<Rightarrow> mapping" where
  "patch_tun_keys patch_tun tun = fold (\<lambda>key tun.
     case get patch_tun key of Some value \<Rightarrow> put key value tun | None \<Rightarrow> tun) (use_keys patch_tun) tun"

definition runtime_patch :: "mapping \<Rightarrow> mapping \<Rightarrow> mapping" where
  "runtime_patch patch config =
     (let config = patch_inner patch config
      in (case get patch ''tun'' of
            None \<Rightarrow> config
          | Some patch_tun \<Rightarrow>
              (let config = (case get config ''tun'' of Some (Mapping _) \<Rightarrow> config | _ \<Rightarrow> put ''tun'' (Mapping []) config)
               in (case (as_mapping patch_tun, get config ''tun'') of
                     (Some patch_tun_mapping, Some (Mapping tun)) \<Rightarrow>
                       put ''tun'' (Mapping (patch_tun_keys patch_tun_mapping tun)) config
                   | _ \<Rightarrow> config))))"

text \<open>\<open>Value::get\<close> looks through tags; values are equal up to the order of mappings.\<close>

definition proxy_is :: "yaml \<Rightarrow> yaml \<Rightarrow> bool" where
  "proxy_is dialer_proxy proxy = opt_yaml_eq (Option.bind (as_mapping proxy) (\<lambda>m. get m ''name'')) (Some dialer_proxy)"

definition drop_dialer :: "mapping \<Rightarrow> mapping" where
  "drop_dialer proxy = (if get proxy ''dialer-proxy'' \<noteq> None then remove_key ''dialer-proxy'' proxy else proxy)"

text \<open>The first proxy of that name gets the link, when it is a plain mapping.\<close>

fun link_first :: "yaml \<Rightarrow> yaml \<Rightarrow> yaml list \<Rightarrow> yaml list" where
  "link_first dialer_proxy previous [] = []"
| "link_first dialer_proxy previous (p # ps) =
     (if proxy_is dialer_proxy p
      then (case p of Mapping proxy \<Rightarrow> Mapping (put ''dialer-proxy'' previous proxy) | _ \<Rightarrow> p) # ps
      else p # link_first dialer_proxy previous ps)"

fun link_chain :: "yaml option \<Rightarrow> yaml list \<Rightarrow> yaml list \<Rightarrow> yaml list" where
  "link_chain previous [] proxies = proxies"
| "link_chain previous (d # ds) proxies =
     link_chain (Some d) ds (case previous of None \<Rightarrow> proxies | Some before \<Rightarrow> link_first d before proxies)"

definition update_proxy_chain :: "yaml option \<Rightarrow> mapping \<Rightarrow> mapping" where
  "update_proxy_chain proxy_chain_config config =
     (let config = (case get config ''proxies'' of
            Some (Sequence proxies) \<Rightarrow> put ''proxies'' (Sequence (map (map_mapping drop_dialer) proxies)) config
          | _ \<Rightarrow> config)
      in (case (proxy_chain_config, get config ''proxies'') of
            (Some (Sequence dialer_proxies), Some (Sequence proxies)) \<Rightarrow>
              put ''proxies'' (Sequence (link_chain None dialer_proxies proxies)) config
          | _ \<Rightarrow> config))"

subsection \<open>What loading guarantees\<close>

definition port_keys :: "platform \<Rightarrow> string list" where
  "port_keys plat = [''mixed-port'', ''socks-port'', ''port''] @ (if plat = Windows then [] else [''redir-port''])
     @ (if plat = Linux then [''tproxy-port''] else [])"

lemma guarded_port_nonzero: "dflt \<noteq> 0 \<Longrightarrow> guarded_port key dflt config \<noteq> 0"
  by (simp add: guarded_port_def Let_def)

lemma template_ports:
  "get (iclash_template plat ipc) ''mixed-port'' = Some (port_value 7897)"
  "get (iclash_template plat ipc) ''socks-port'' = Some (port_value 7898)"
  "get (iclash_template plat ipc) ''port'' = Some (port_value 7899)"
  "plat \<noteq> Windows \<Longrightarrow> get (iclash_template plat ipc) ''redir-port'' = Some (port_value 7895)"
  "plat = Linux \<Longrightarrow> get (iclash_template plat ipc) ''tproxy-port'' = Some (port_value 7896)"
  by (simp_all add: iclash_template_def Let_def get_put ipc_key_def DEFAULT_REDIR_def DEFAULT_TPROXY_def
      DEFAULT_MIXED_def DEFAULT_SOCKS_def DEFAULT_HTTP_def)

lemma port_keys_cases:
  "k \<in> set (port_keys plat) \<longleftrightarrow> k = ''mixed-port'' \<or> k = ''socks-port'' \<or> k = ''port''
     \<or> (k = ''redir-port'' \<and> plat \<noteq> Windows) \<or> (k = ''tproxy-port'' \<and> plat = Linux)"
  by (simp add: port_keys_def)

lemma template_port:
  assumes "k \<in> set (port_keys plat)"
  shows "\<exists>p. get (iclash_template plat ipc) k = Some (port_value p) \<and> p \<noteq> 0"
  using assms [unfolded port_keys_cases] template_ports [of plat ipc]
  by (elim disjE conjE) (simp_all, (rule exI, rule conjI, rule refl, simp)+)

lemma guard_get:
  "get (iclash_guard plat ipc config) k =
     (if k = ipc_key plat then Some (Str (guard_external_controller_ipc ipc))
      else if k = ''external-controller'' then Some (Str (guard_server_ctrl config))
      else if k = ''port'' then Some (port_value (guard_port config))
      else if k = ''socks-port'' then Some (port_value (guard_socks_port config))
      else if k = ''mixed-port'' then Some (port_value (guard_mixed_port config))
      else if k = ''tproxy-port'' \<and> plat = Linux then Some (port_value (guard_tproxy_port config))
      else if k = ''redir-port'' \<and> plat \<noteq> Windows then Some (port_value (guard_redir_port config))
      else get config k)"
  by (auto simp: iclash_guard_def Let_def get_put ipc_key_def)

lemma guard_port_typed:
  assumes "k \<in> set (port_keys plat)"
  shows "\<exists>p. get (iclash_guard plat ipc config) k = Some (port_value p) \<and> p \<noteq> 0"
proof -
  have "guard_port config \<noteq> 0" "guard_socks_port config \<noteq> 0" "guard_mixed_port config \<noteq> 0"
    "guard_tproxy_port config \<noteq> 0" "guard_redir_port config \<noteq> 0"
    by (simp_all add: guard_port_def guard_socks_port_def guard_mixed_port_def guard_tproxy_port_def
        guard_redir_port_def DEFAULT_MIXED_def DEFAULT_TPROXY_def guarded_port_nonzero)
  with assms [unfolded port_keys_cases] show ?thesis
    unfolding guard_get by (elim disjE conjE) (simp_all add: ipc_key_def, blast+)
qed

lemma default_controller: "''127.0.0.1:9097'' = show_socket_addr \<lparr>sock_ip = V4 [127, 0, 0, 1], sock_scope = 0, sock_port = 9097\<rparr>"
proof -
  have c: "char_of (48::nat) = CHR ''0''" "char_of (49::nat) = CHR ''1''" "char_of (50::nat) = CHR ''2''"
    "char_of (55::nat) = CHR ''7''" "char_of (57::nat) = CHR ''9''"
    by (simp_all add: char_of_eq_iff)
  show ?thesis by (simp add: show_socket_addr_def show_v4_def show_nat.simps c)
qed

lemma guard_server_ctrl_address: "\<exists>a. guard_server_ctrl config = show_socket_addr a"
  unfolding guard_server_ctrl_def default_controller
  by (auto simp: unwrap_or_def bind_eq_Some_conv split: option.splits)

lemma dom_add_missing: "dom (map_of (add_missing template_map m)) = dom (map_of m) \<union> fst ` set template_map"
  unfolding add_missing_def
  by (induction template_map arbitrary: m) (auto simp: AList.update_conv' dom_def split: if_splits)

lemma dom_fill_secret: "dom (map_of (fill_secret m)) = dom (map_of m)"
  by (auto simp: fill_secret_def put_def get_def AList.update_conv')

lemma dom_guard: "dom (map_of m) \<subseteq> dom (map_of (iclash_guard plat ipc m))"
  by (auto simp: iclash_guard_def Let_def put_def AList.update_conv')

lemma fill_secret_set: "get (fill_secret m) ''secret'' \<noteq> Some (Str [])"
  by (auto simp: fill_secret_def get_put)


text \<open>A second pass over guarded ports keeps them, and a number that fits is kept the first time.\<close>

lemma port_value_read: "read_port_value (port_value p) = Some p"
  by (simp add: port_value_def ucast_up_ucast_id is_up)

lemma port_kept: "get m key = Some (port_value p) \<Longrightarrow> p \<noteq> 0 \<Longrightarrow> guarded_port key dflt m = p"
  by (simp add: guarded_port_def port_value_read)

lemma port_number_kept:
  "get m key = Some (Number (PosInt n)) \<Longrightarrow> n \<noteq> 0 \<Longrightarrow> n < 65536 \<Longrightarrow> ucast (guarded_port key dflt m) = n"
proof -
  assume g: "get m key = Some (Number (PosInt n))" and n: "n \<noteq> 0" "n < 65536"
  have "unat (ucast n :: u16) = unat n"
    using n(2) by (simp add: unsigned_ucast_eq word_less_nat_alt take_bit_nat_eq_self)
  then have "ucast (ucast n :: u16) = n" "(ucast n :: u16) \<noteq> 0"
    using n by (auto simp: word_unat_eq_iff unsigned_ucast_eq unsigned_take_bit_eq take_bit_nat_eq_self word_less_nat_alt)
  with g show ?thesis by (simp add: guarded_port_def Let_def)
qed

lemma port_above_wraps: "get m ''mixed-port'' = Some (Number (PosInt 65537)) \<Longrightarrow> guard_mixed_port m = 1"
  by (simp add: guard_mixed_port_def guarded_port_def)

text \<open>A client is never pointed at an unspecified address.\<close>

lemma client_server_reachable:
  "\<exists>a. guard_client_ctrl config = show_socket_addr a \<and> \<not> is_unspecified (sock_ip a)"
proof -
  have "\<not> is_unspecified (V4 [127, 0, 0, 1])" by simp
  then show ?thesis
    unfolding guard_client_ctrl_def default_controller
    by (cases "parse_socket_addr (guard_server_ctrl config)") (force split: if_splits)+
qed

subsection \<open>Proxy chains\<close>

definition dialer :: "yaml \<Rightarrow> yaml option" where
  "dialer p = Option.bind (as_mapping p) (\<lambda>m. get m ''dialer-proxy'')"

definition first_of :: "yaml list \<Rightarrow> nat \<Rightarrow> string \<Rightarrow> bool" where
  "first_of ps i n = (proxy_is (Str n) (ps ! i) \<and> (\<forall>j < i. \<not> proxy_is (Str n) (ps ! j)))"

lemma length_link_first [simp]: "length (link_first d b ps) = length ps"
  by (induction ps) auto

lemma proxy_is_put: "proxy_is d (Mapping (put ''dialer-proxy'' b m)) = proxy_is d (Mapping m)"
  by (simp add: proxy_is_def get_put)

lemma link_first_nth:
  assumes "i < length ps"
  shows "link_first (Str n) b ps ! i =
    (case ps ! i of Mapping m \<Rightarrow> if first_of ps i n then Mapping (put ''dialer-proxy'' b m) else Mapping m | p \<Rightarrow> p)"
  using assms
proof (induction ps arbitrary: i)
  case (Cons p ps)
  show ?case
  proof (cases i)
    case 0
    then show ?thesis by (auto simp: first_of_def split: yaml.splits)
  next
    case (Suc j)
    have "first_of (p # ps) (Suc j) n = (\<not> proxy_is (Str n) p \<and> first_of ps j n)"
      by (auto simp: first_of_def less_Suc_eq_0_disj)
    with Cons Suc show ?thesis by (auto split: yaml.splits)
  qed
qed simp

definition plain_proxies :: "yaml list \<Rightarrow> bool" where
  "plain_proxies ps = list_all (\<lambda>p. \<exists>m. p = Mapping m \<and> mapping_ok m) ps"

lemma plain_nth: "plain_proxies ps \<Longrightarrow> i < length ps \<Longrightarrow> \<exists>m. ps ! i = Mapping m \<and> mapping_ok m"
  by (auto simp: plain_proxies_def list_all_length)

lemma ok_put: "mapping_ok m \<Longrightarrow> mapping_ok (put k v m)"
  by (simp add: mapping_ok_def put_def distinct_update)

text \<open>What linking one proxy does to every position.\<close>

lemma link_first_at:
  assumes "plain_proxies ps" and "i < length ps" and "ps ! i = Mapping m"
  shows "link_first (Str n) b ps ! i = Mapping (if first_of ps i n then put ''dialer-proxy'' b m else m)"
  using assms by (simp add: link_first_nth)

lemma link_first_kept:
  assumes "plain_proxies ps"
  shows "plain_proxies (link_first (Str n) b ps)"
    and "i < length ps \<Longrightarrow> first_of (link_first (Str n) b ps) i k = first_of ps i k"
proof -
  have at: "\<exists>m m'. ps ! j = Mapping m \<and> link_first (Str n) b ps ! j = Mapping m' \<and> mapping_ok m'
      \<and> proxy_is d (Mapping m') = proxy_is d (Mapping m)" if "j < length ps" for j d
    using plain_nth [OF assms that] link_first_at [OF assms that]
    by (auto simp: proxy_is_put ok_put)
  show "plain_proxies (link_first (Str n) b ps)"
    unfolding plain_proxies_def list_all_length using at by (metis length_link_first)
  have same: "proxy_is d (link_first (Str n) b ps ! j) = proxy_is d (ps ! j)" if "j < length ps" for j d
    using at [OF that] by metis
  show "first_of (link_first (Str n) b ps) i k = first_of ps i k" if "i < length ps"
    using that same unfolding first_of_def by (metis order.strict_trans)
qed

text \<open>The predecessor of a name in a chain.\<close>

definition chain_before :: "string option \<Rightarrow> string list \<Rightarrow> string \<Rightarrow> string option" where
  "chain_before previous names n = (case previous of
     None \<Rightarrow> map_of (zip (tl names) names) n | Some p \<Rightarrow> map_of (zip names (p # names)) n)"

lemma chain_before_Cons:
  "chain_before None (x # xs) n = chain_before (Some x) xs n"
  "chain_before (Some p) (x # xs) n = (if n = x then Some p else chain_before (Some x) xs n)"
  by (simp_all add: chain_before_def)

lemma chain_before_mem: "chain_before (Some p) names n = Some q \<Longrightarrow> n \<in> set names"
  by (auto simp: chain_before_def dest!: map_of_SomeD set_zip_leftD)

definition linked :: "string option \<Rightarrow> string list \<Rightarrow> yaml list \<Rightarrow> nat \<Rightarrow> mapping \<Rightarrow> mapping \<Rightarrow> bool" where
  "linked previous names ps i m m' \<longleftrightarrow>
     (\<forall>k. k \<noteq> ''dialer-proxy'' \<longrightarrow> get m' k = get m k)
     \<and> (\<forall>n q. first_of ps i n \<and> chain_before previous names n = Some q \<longrightarrow> get m' ''dialer-proxy'' = Some (Str q))
     \<and> ((\<nexists>n q. first_of ps i n \<and> chain_before previous names n = Some q) \<longrightarrow> get m' ''dialer-proxy'' = get m ''dialer-proxy'')"

lemma first_of_name: "first_of ps i n \<Longrightarrow> ps ! i = Mapping m \<Longrightarrow> get m ''name'' = Some (Str n)"
  by (cases "get m ''name''"; cases "the (get m ''name'')") (auto simp: first_of_def proxy_is_def)

lemma link_chain_spec:
  assumes "plain_proxies ps" and "distinct names" and "previous = None \<or> the previous \<notin> set names"
  shows "length (link_chain (map_option Str previous) (map Str names) ps) = length ps"
    and "i < length ps \<Longrightarrow> ps ! i = Mapping m \<Longrightarrow>
      \<exists>m'. link_chain (map_option Str previous) (map Str names) ps ! i = Mapping m' \<and> linked previous names ps i m m'"
  using assms
proof (induction names arbitrary: previous ps m)
  case Nil
  {
    case 1
    then show ?case by simp
  next
    case 2
    then show ?case by (auto simp: linked_def chain_before_def split: option.splits)
  }
next
  case (Cons x names)
  {
    case 1
    let ?ps = "case previous of None \<Rightarrow> ps | Some p \<Rightarrow> link_first (Str x) (Str p) ps"
    from 1 have "plain_proxies ?ps" using link_first_kept(1) by (auto split: option.splits)
    with 1 Cons.IH(1) [where previous = "Some x" and ps = ?ps] show ?case
      by (cases previous) auto
  next
    case 2
    let ?ps = "case previous of None \<Rightarrow> ps | Some p \<Rightarrow> link_first (Str x) (Str p) ps"
    have len: "length ?ps = length ps" by (simp split: option.splits)
    from 2 have plain: "plain_proxies ?ps" using link_first_kept(1) by (auto split: option.splits)
    from 2 plain len obtain m1 where m1: "?ps ! i = Mapping m1" by (metis plain_nth)
    have first: "first_of ?ps i k = first_of ps i k" for k
      using link_first_kept(2) [OF 2(3,1)] by (auto split: option.splits)
    from Cons.IH(2) [where previous = "Some x" and ps = ?ps and m = m1] 2 plain len m1
    obtain m' where m': "link_chain (Some (Str x)) (map Str names) ?ps ! i = Mapping m'" "linked (Some x) names ?ps i m1 m'"
      by auto
    have e: "link_chain (map_option Str previous) (map Str (x # names)) ps = link_chain (Some (Str x)) (map Str names) ?ps"
      by (cases previous) simp_all
    have "linked previous (x # names) ps i m m'"
    proof (cases previous)
      case None
      with m1 2 m'(2) show ?thesis by (auto simp: linked_def chain_before_Cons)
    next
      case (Some p)
      then have m1': "m1 = (if first_of ps i x then put ''dialer-proxy'' (Str p) m else m)"
        using m1 link_first_at [OF 2(3,1,2)] by simp
      have f: "first_of (link_first (Str x) (Str p) ps) i k = first_of ps i k" for k using first [of k] Some by simp
      have x: "chain_before (Some x) names x = None" using 2(4) chain_before_mem by (metis distinct.simps(2) not_Some_eq)
      have unique: "n = n'" if "first_of ps i n" "first_of ps i n'" for n n'
        using first_of_name [OF that(1) 2(2)] first_of_name [OF that(2) 2(2)] by simp
      show ?thesis
      proof (cases "first_of ps i x")
        case True
        then have "\<nexists>n q. first_of ps i n \<and> chain_before (Some x) names n = Some q" using unique x by force
        with True m'(2) m1' Some unique show ?thesis by (auto simp: linked_def f chain_before_Cons get_put)
      next
        case False
        with m'(2) m1' Some show ?thesis by (auto simp: linked_def f chain_before_Cons)
      qed
    qed
    with m' e show ?case by auto
  }
qed

lemma get_drop_dialer: "mapping_ok m \<Longrightarrow> get (drop_dialer m) k = (if k = ''dialer-proxy'' then None else get m k)"
  by (auto simp: drop_dialer_def get_remove)

lemma plain_drop: "plain_proxies ps \<Longrightarrow> plain_proxies (map (map_mapping drop_dialer) ps)"
  by (auto simp: plain_proxies_def list_all_iff drop_dialer_def mapping_ok_def ok_mapping_ops remove_key_def distinct_swap_remove)

lemma first_of_drop:
  assumes "plain_proxies ps" and "i < length ps"
  shows "first_of (map (map_mapping drop_dialer) ps) i n = first_of ps i n"
proof -
  have "proxy_is (Str n) (map_mapping drop_dialer (ps ! j)) = proxy_is (Str n) (ps ! j)" if "j < length ps" for j
    using plain_nth [OF assms(1) that] by (auto simp: proxy_is_def get_drop_dialer)
  with assms(2) show ?thesis by (auto simp: first_of_def)
qed

text \<open>
  Applying a proxy chain links every proxy of the chain to its predecessor and no other proxy: the
  first proxy that carries a name gets the name before it in the chain as its dialer, links of an
  earlier chain are gone, and all other fields and the order of the proxies are kept.
\<close>

theorem proxy_chain_links_exactly:
  assumes "mapping_ok config" and "get config ''proxies'' = Some (Sequence ps)" and "plain_proxies ps"
    and "distinct names"
  shows "\<exists>ps'. get (update_proxy_chain (Some (Sequence (map Str names))) config) ''proxies'' = Some (Sequence ps')
    \<and> length ps' = length ps
    \<and> (\<forall>i < length ps. \<exists>m m'. ps ! i = Mapping m \<and> ps' ! i = Mapping m'
        \<and> (\<forall>k. k \<noteq> ''dialer-proxy'' \<longrightarrow> get m' k = get m k)
        \<and> (\<forall>q. get m' ''dialer-proxy'' = Some q \<longleftrightarrow>
              (\<exists>n b. first_of ps i n \<and> map_of (zip (tl names) names) n = Some b \<and> q = Str b)))"
proof -
  let ?ps = "map (map_mapping drop_dialer) ps"
  note spec = link_chain_spec [OF plain_drop [OF assms(3)] assms(4), where previous = None, simplified]
  have "\<exists>m m'. ps ! i = Mapping m \<and> link_chain None (map Str names) ?ps ! i = Mapping m'
        \<and> (\<forall>k. k \<noteq> ''dialer-proxy'' \<longrightarrow> get m' k = get m k)
        \<and> (\<forall>q. get m' ''dialer-proxy'' = Some q \<longleftrightarrow>
              (\<exists>n b. first_of ps i n \<and> map_of (zip (tl names) names) n = Some b \<and> q = Str b))"
    if i: "i < length ps" for i
  proof -
    obtain m where m: "ps ! i = Mapping m" "mapping_ok m" using plain_nth [OF assms(3) i] by blast
    with i have "map_mapping drop_dialer (ps ! i) = Mapping (drop_dialer m)" by simp
    with spec(2) i obtain m' where m': "link_chain None (map Str names) ?ps ! i = Mapping m'"
      "linked None names ?ps i (drop_dialer m) m'" by auto
    have unique: "n = n'" if "first_of ps i n" "first_of ps i n'" for n n'
      using first_of_name [OF that(1) m(1)] first_of_name [OF that(2) m(1)] by simp
    have keep: "get m' k = get m k" if "k \<noteq> ''dialer-proxy''" for k
      using m'(2) that m(2) by (auto simp: linked_def get_drop_dialer)
    have link: "get m' ''dialer-proxy'' = Some q \<longleftrightarrow>
        (\<exists>n b. first_of ps i n \<and> map_of (zip (tl names) names) n = Some b \<and> q = Str b)" for q
    proof (cases "\<exists>n b. first_of ps i n \<and> map_of (zip (tl names) names) n = Some b")
      case True
      then obtain n b where nb: "first_of ps i n" "map_of (zip (tl names) names) n = Some b" by blast
      then have "get m' ''dialer-proxy'' = Some (Str b)"
        using m'(2) unfolding linked_def first_of_drop [OF assms(3) i] chain_before_def by simp
      moreover have "n' = n" if "first_of ps i n'" for n' using unique [OF that nb(1)] .
      ultimately show ?thesis using nb by (metis option.inject)
    next
      case False
      then have "get m' ''dialer-proxy'' = get (drop_dialer m) ''dialer-proxy''"
        using m'(2) unfolding linked_def first_of_drop [OF assms(3) i] chain_before_def option.case by blast
      with False show ?thesis by (simp add: get_drop_dialer [OF m(2)])
    qed
    show ?thesis
      by (rule exI [of _ m], rule exI [of _ m'], intro conjI allI impI) (rule m(1) m'(1) keep link, assumption?)+
  qed
  moreover have "get (update_proxy_chain (Some (Sequence (map Str names))) config) ''proxies''
      = Some (Sequence (link_chain None (map Str names) ?ps))"
    using assms(2) by (simp add: update_proxy_chain_def get_put Let_def)
  ultimately show ?thesis using spec(1) by simp
qed

theorem proxy_chain_links_exactly_witness:
  "let p = (\<lambda>n. Mapping [(Str ''name'', Str n)]); config = [(Str ''proxies'', Sequence [p ''a'', p ''b''])]
   in get (update_proxy_chain (Some (Sequence [Str ''a'', Str ''b''])) config) ''proxies''
      = Some (Sequence [p ''a'', Mapping [(Str ''name'', Str ''b''), (Str ''dialer-proxy'', Str ''a'')]])
    \<and> (\<exists>ps'. get (update_proxy_chain (Some (Sequence (map Str [''a'', ''b'']))) config) ''proxies'' = Some (Sequence ps')
        \<and> length ps' = 2)"
proof -
  let ?p = "\<lambda>n. Mapping [(Str ''name'', Str n)]"
  let ?c = "[(Str ''proxies'', Sequence [?p ''a'', ?p ''b''])]"
  have "mapping_ok ?c" "get ?c ''proxies'' = Some (Sequence [?p ''a'', ?p ''b''])"
    "plain_proxies [?p ''a'', ?p ''b'']" "distinct [''a'', ''b'']"
    by (simp_all add: mapping_ok_def get_def plain_proxies_def)
  from proxy_chain_links_exactly [OF this]
  have "\<exists>ps'. get (update_proxy_chain (Some (Sequence (map Str [''a'', ''b'']))) ?c) ''proxies'' = Some (Sequence ps')
        \<and> length ps' = 2" by auto
  then show ?thesis
    by (simp add: Let_def update_proxy_chain_def get_def put_def drop_dialer_def proxy_is_def)
qed

end
