(* ===== verification/Files.thy ===== *)
theory Files
  imports Prelude
begin

section \<open>Files: \<open>utils/help.rs\<close> and \<open>config/snapshot.rs\<close>\<close>

text \<open>
  How configuration files are replaced (\<open>save_yaml_str\<close>: a fresh temporary file, then a rename), how the
  configuration files are captured before a change and restored after a failed one, and how secrets in
  URLs are masked for the log.  The file system is a map from paths to contents; every operation of it
  may fail, as \<open>io\<close> says for the tick at which it is asked, and a failed write may leave anything.
\<close>

subsection \<open>Paths\<close>

text \<open>\<open>Path::extension\<close> of the last component.\<close>

definition path_extension :: "string \<Rightarrow> string option" where
  "path_extension path =
     (let name = last (split_on (CHR ''/'') path); ps = split_on (CHR ''.'') name
      in if length ps < 2 \<or> join_with (CHR ''.'') (butlast ps) = [] \<or> name = ''..'' then None else Some (last ps))"

definition with_extension :: "string \<Rightarrow> string \<Rightarrow> string" where
  "with_extension path ext =
     (let ps = split_on (CHR ''/'') path; name = last ps; es = split_on (CHR ''.'') name;
          stem = (if path_extension name = None then name else join_with (CHR ''.'') (butlast es))
      in if name = [] \<or> name = ''.'' \<or> name = ''..'' then path
         else join_with (CHR ''/'') (butlast ps @ [stem @ ''.'' @ ext]))"

definition join_path :: "string \<Rightarrow> string \<Rightarrow> string" where
  "join_path dir name = dir @ ''/'' @ name"

subsection \<open>The file system\<close>

record fs_env =
  io :: "nat \<Rightarrow> string option"
  torn :: "nat \<Rightarrow> string option"
  nanoid :: "nat \<Rightarrow> string"
  process_id :: string
  is_regular :: "string \<Rightarrow> bool"

record fs_world =
  files :: "string \<Rightarrow> string option"
  fs_tick :: nat

definition fs_step :: "fs_world \<Rightarrow> fs_world" where
  "fs_step w = w\<lparr>fs_tick := Suc (fs_tick w)\<rparr>"

text \<open>An operation that fails with the message of \<open>io\<close>, or has an effect on the files.\<close>

definition fs_try :: "fs_env \<Rightarrow> ((string \<Rightarrow> string option) \<Rightarrow> (string \<Rightarrow> string option))
    \<Rightarrow> ((string \<Rightarrow> string option) \<Rightarrow> (string \<Rightarrow> string option)) \<Rightarrow> fs_world \<Rightarrow> (string + unit) \<times> fs_world" where
  "fs_try env done failed w =
     (case io env (fs_tick w) of
        None \<Rightarrow> (Inr (), fs_step (w\<lparr>files := done (files w)\<rparr>))
      | Some e \<Rightarrow> (Inl e, fs_step (w\<lparr>files := failed (files w)\<rparr>)))"

definition fs_write :: "fs_env \<Rightarrow> string \<Rightarrow> string \<Rightarrow> fs_world \<Rightarrow> (string + unit) \<times> fs_world" where
  "fs_write env path content w =
     fs_try env (\<lambda>fs. fs(path \<mapsto> content)) (\<lambda>fs. fs(path := torn env (fs_tick w))) w"

subsection \<open>Replacing a file\<close>

definition temporary_name :: "fs_env \<Rightarrow> string \<Rightarrow> nat \<Rightarrow> string" where
  "temporary_name env path n = with_extension path (''tmp-'' @ process_id env @ ''-'' @ nanoid env n)"

partial_function (option) create_temporary ::
  "fs_env \<Rightarrow> string \<Rightarrow> fs_world \<Rightarrow> ((string + string) \<times> fs_world) option" where
  "create_temporary env path w =
     (let temporary = temporary_name env path (fs_tick w)
      in if files w temporary \<noteq> None then create_temporary env path (fs_step w)
         else (case fs_try env (\<lambda>fs. fs(temporary \<mapsto> [])) id w of
                 (Inr _, w) \<Rightarrow> Some (Inr temporary, w)
               | (Inl e, w) \<Rightarrow> Some (Inl (''failed to create temporary file: '' @ e), w)))"

text \<open>The guard of the temporary file: removal on every early return; a failed removal is ignored.\<close>

definition remove_temporary :: "fs_env \<Rightarrow> string \<Rightarrow> (string + unit) \<times> fs_world \<Rightarrow> (string + unit) \<times> fs_world" where
  "remove_temporary env temporary r =
     (case r of (Inr _, w) \<Rightarrow> r
      | (Inl e, w) \<Rightarrow> (Inl e, snd (fs_try env (\<lambda>fs. fs(temporary := None)) id w)))"

definition keep_permissions :: "fs_env \<Rightarrow> string \<Rightarrow> fs_world \<Rightarrow> (string + unit) \<times> fs_world" where
  "keep_permissions env path w =
     try_then (fs_try env id id w) (\<lambda>_ w.
       if files w path \<noteq> None \<and> is_regular env path then fs_try env id id w else (Inr (), w))"

definition write_and_rename :: "fs_env \<Rightarrow> string \<Rightarrow> string \<Rightarrow> string \<Rightarrow> fs_world \<Rightarrow> (string + unit) \<times> fs_world" where
  "write_and_rename env path temporary yaml_str w =
     try_then (fs_write env temporary yaml_str w) (\<lambda>_ w.
     try_then (fs_try env id id w) (\<lambda>_ w.
     try_then (keep_permissions env path w) (\<lambda>_ w.
     fs_try env (\<lambda>fs. (fs(path := fs temporary))(temporary := None)) id w)))"

definition save_yaml_str :: "fs_env \<Rightarrow> string \<Rightarrow> string \<Rightarrow> fs_world \<Rightarrow> ((string + unit) \<times> fs_world) option" where
  "save_yaml_str env path yaml_str w =
     (case create_temporary env path w of
        None \<Rightarrow> None
      | Some (Inl e, w) \<Rightarrow> Some (Inl e, w)
      | Some (Inr temporary, w) \<Rightarrow>
          Some (remove_temporary env temporary (write_and_rename env path temporary yaml_str w)))"

subsection \<open>Snapshots\<close>

record file_snapshot =
  snap_path :: string
  snap_content :: "string option"

fun capture_files :: "fs_env \<Rightarrow> string list \<Rightarrow> fs_world \<Rightarrow> (string + file_snapshot list) \<times> fs_world" where
  "capture_files env [] w = (Inr [], w)"
| "capture_files env (path # paths) w =
     try_then (fs_try env id id w) (\<lambda>_ w1.
     try_then (capture_files env paths w1) (\<lambda>snapshots w2.
       (Inr (\<lparr>snap_path = path, snap_content = files w path\<rparr> # snapshots), w2)))"

definition restore_file :: "fs_env \<Rightarrow> file_snapshot \<Rightarrow> fs_world \<Rightarrow> (string + unit) \<times> fs_world" where
  "restore_file env snapshot w =
     (case snap_content snapshot of
        Some content \<Rightarrow> fs_write env (snap_path snapshot) content w
      | None \<Rightarrow> if files w (snap_path snapshot) = None then (Inr (), fs_step w)
          else fs_try env (\<lambda>fs. fs(snap_path snapshot := None)) id w)"

fun restore_loop :: "fs_env \<Rightarrow> file_snapshot list \<Rightarrow> fs_world \<Rightarrow> string list \<times> fs_world" where
  "restore_loop env [] w = ([], w)"
| "restore_loop env (snapshot # snapshots) w =
     (let (result, w) = restore_file env snapshot w; (errors, w) = restore_loop env snapshots w
      in (case result of Inl error \<Rightarrow> (snap_path snapshot @ '': '' @ error) # errors | Inr _ \<Rightarrow> errors, w))"

fun join_str :: "string \<Rightarrow> string list \<Rightarrow> string" where
  "join_str sep [] = []"
| "join_str sep [x] = x"
| "join_str sep (x # xs) = x @ sep @ join_str sep xs"

definition restore_files :: "fs_env \<Rightarrow> file_snapshot list \<Rightarrow> fs_world \<Rightarrow> (string + unit) \<times> fs_world" where
  "restore_files env snapshots w =
     (let (errors, w) = restore_loop env snapshots w
      in (if errors = [] then Inr () else Inl (join_str ''; '' errors), w))"

text \<open>The three files of a configuration change, as \<open>dirs\<close> names them.\<close>

definition capture_config_files :: "fs_env \<Rightarrow> string res \<Rightarrow> string res \<Rightarrow> string res \<Rightarrow> fs_world
    \<Rightarrow> (string + file_snapshot list) \<times> fs_world" where
  "capture_config_files env app_home clash_path verge_path w =
     (case and_then app_home (\<lambda>home. and_then clash_path (\<lambda>c. and_then verge_path (\<lambda>v.
        Inr [c, v, join_path home ''clash-verge.yaml'']))) of
        Inl e \<Rightarrow> (Inl e, w)
      | Inr paths \<Rightarrow> capture_files env paths w)"

subsection \<open>Masking URLs\<close>

fun find_str :: "string \<Rightarrow> string \<Rightarrow> nat option" where
  "find_str pat [] = (if pat = [] then Some 0 else None)"
| "find_str pat (c # cs) = (if starts_with pat (c # cs) then Some 0 else map_option Suc (find_str pat cs))"

fun find_char :: "(char \<Rightarrow> bool) \<Rightarrow> string \<Rightarrow> nat option" where
  "find_char P [] = None"
| "find_char P (c # cs) = (if P c then Some 0 else map_option Suc (find_char P cs))"

definition mask_segments :: "string \<Rightarrow> string" where
  "mask_segments path = join_with (CHR ''/'') (map (\<lambda>seg. if 16 < length seg then ''***'' else seg)
     (split_on (CHR ''/'') path))"

definition mask_param :: "string \<Rightarrow> string" where
  "mask_param param = (case find_str ''='' param of Some eq \<Rightarrow> take eq param @ ''=***'' | None \<Rightarrow> param)"

definition mask_query :: "string \<Rightarrow> string" where
  "mask_query query = join_with (CHR ''&'') (map mask_param (split_on (CHR ''&'') query))"

definition host_end_of :: "string \<Rightarrow> nat" where
  "host_end_of path_part = unwrap_or (length path_part)
     (Option.bind (find_str ''://'' path_part) (\<lambda>scheme_end.
        map_option (\<lambda>slash. scheme_end + 3 + slash) (find_str ''/'' (drop (scheme_end + 3) path_part))))"

definition mask_url :: "string \<Rightarrow> string" where
  "mask_url url =
     (let (path_part, query_part) = (case find_str ''?'' url of
            Some pos \<Rightarrow> (take pos url, Some (drop (Suc pos) url)) | None \<Rightarrow> (url, None));
          host_end = host_end_of path_part; path = drop host_end path_part
      in take host_end path_part
         @ (if path = [] then [] else mask_segments path)
         @ (case query_part of Some query \<Rightarrow> ''?'' @ mask_query query | None \<Rightarrow> []))"

definition url_start :: "string \<Rightarrow> nat option" where
  "url_start s = (case (find_str ''http://'' s, find_str ''https://'' s) of
     (None, None) \<Rightarrow> None | (Some a, None) \<Rightarrow> Some a | (None, Some b) \<Rightarrow> Some b | (Some a, Some b) \<Rightarrow> Some (min a b))"

definition url_stop :: "string \<Rightarrow> nat" where
  "url_stop s = unwrap_or (length s) (find_char (\<lambda>c. is_ws c \<or> c \<in> set [CHR '')'', CHR '']'', CHR 0x22, CHR 0x27]) s)"

lemma find_str_starts: "find_str pat s = Some n \<Longrightarrow> starts_with pat (drop n s)"
  by (induction s arbitrary: n) (auto simp: starts_with_iff split: if_splits)

lemma url_start_http: "url_start s = Some n \<Longrightarrow> \<exists>cs. drop n s = CHR ''h'' # cs"
proof -
  assume "url_start s = Some n"
  then have "find_str ''http://'' s = Some n \<or> find_str ''https://'' s = Some n"
    by (auto simp: url_start_def min_def split: option.splits if_splits)
  then have "starts_with ''http://'' (drop n s) \<or> starts_with ''https://'' (drop n s)"
    using find_str_starts by blast
  then show ?thesis by (auto simp: starts_with_iff)
qed

lemma url_stop_pos: "0 < url_stop (CHR ''h'' # cs)"
  by (auto simp: url_stop_def is_ws_def unwrap_or_def split: option.splits)

text \<open>The loop ends because a URL that starts with \<open>http\<close> is never empty.\<close>

function mask_err :: "string \<Rightarrow> string" where
  "mask_err remaining =
     (case url_start remaining of
        None \<Rightarrow> remaining
      | Some start \<Rightarrow>
          (let rest = drop start remaining; url_end = url_stop rest
           in take start remaining @ mask_url (take url_end rest) @ mask_err (drop url_end rest)))"
  by pat_completeness auto
termination
proof (relation "measure length")
  fix remaining start rest url_end
  assume "url_start remaining = Some start" and r: "rest = drop start remaining" and u: "url_end = url_stop rest"
  with url_start_http obtain cs where cs: "rest = CHR ''h'' # cs" by blast
  with url_stop_pos u have "0 < url_end" by simp
  with cs have "length (drop url_end rest) < length rest" by simp
  then show "(drop url_end rest, remaining) \<in> measure length" using r by simp
qed simp

declare mask_err.simps [simp del]

text \<open>\<open>parse_str\<close> with the parser of the wanted type.\<close>

definition key_value :: "string \<Rightarrow> (string \<times> string) option" where
  "key_value s = map_option (\<lambda>i. (take i s, drop (Suc i) s)) (find_str ''='' s)"

definition parse_str :: "(string \<Rightarrow> 'a option) \<Rightarrow> string \<Rightarrow> string \<Rightarrow> 'a option" where
  "parse_str parse target key =
     (case List.map_filter (\<lambda>s. case key_value (trim s) of
          Some (k, v) \<Rightarrow> if k = key then parse v else None | None \<Rightarrow> None) (split_on (CHR '';'') target) of
        [] \<Rightarrow> None | x # _ \<Rightarrow> Some x)"

subsection \<open>Replacing a file is atomic and ends\<close>

lemma fs_step_files [simp]: "files (fs_step w) = files w"
  by (simp add: fs_step_def)

lemma fs_try_cases:
  "fs_try env done failed w = (r, w') \<Longrightarrow>
     (r = Inr () \<and> files w' = done (files w)) \<or> (\<exists>e. r = Inl e \<and> files w' = failed (files w))"
  by (auto simp: fs_try_def split: option.splits)

lemma try_then_split:
  "try_then r k = (x, w') \<Longrightarrow> (\<exists>e w1. r = (Inl e, w1) \<and> x = Inl e \<and> w' = w1) \<or> (\<exists>y w1. r = (Inr y, w1) \<and> k y w1 = (x, w'))"
  by (cases r; cases "fst r") (auto simp: try_then_def)

lemma create_temporary_result:
  assumes "create_temporary env path w = Some r"
  shows "(\<exists>t n. fst r = Inr t \<and> t = temporary_name env path n \<and> files w t = None \<and> files (snd r) = (files w)(t \<mapsto> []))
    \<or> (\<exists>e. fst r = Inl e \<and> files (snd r) = files w)"
  using assms
proof (induction env path w r rule: create_temporary.raw_induct [rotated, consumes 1, case_names step])
  case (step create env path w r)
  show ?case
  proof (cases "files w (temporary_name env path (fs_tick w)) = None")
    case False
    with step(2) have "create env path (fs_step w) = Some r" by simp
    from step(1) [OF this] show ?thesis by simp
  next
    case True
    let ?t = "temporary_name env path (fs_tick w)"
    obtain x w' where x: "fs_try env (\<lambda>fs. fs(?t \<mapsto> [])) id w = (x, w')" by (rule prod.exhaust)
    from fs_try_cases [OF x] show ?thesis
    proof (elim disjE exE conjE)
      assume a: "x = Inr ()" "files w' = (files w)(?t \<mapsto> [])"
      with True step(2) x have "r = (Inr ?t, w')" by (simp add: Let_def)
      with a True show ?thesis by (intro disjI1 exI [of _ ?t] exI [of _ "fs_tick w"]) simp
    next
      fix e assume "x = Inl e" "files w' = id (files w)"
      with True step(2) x show ?thesis by (auto simp: Let_def)
    qed
  qed
qed

lemma create_temporary_ends:
  assumes "files w (temporary_name env path n) = None" and "fs_tick w \<le> n"
  shows "\<exists>r. create_temporary env path w = Some r"
  using assms
proof (induction "n - fs_tick w" arbitrary: w)
  case 0
  then have "fs_tick w = n" by simp
  with 0 show ?case by (subst create_temporary.simps) (auto simp: Let_def split: prod.splits sum.splits)
next
  case (Suc d)
  show ?case
  proof (cases "files w (temporary_name env path (fs_tick w)) = None")
    case True
    then show ?thesis by (subst create_temporary.simps) (auto simp: Let_def split: prod.splits sum.splits)
  next
    case False
    have "d = n - fs_tick (fs_step w)" using Suc(2) by (simp add: fs_step_def)
    with Suc have "\<exists>r. create_temporary env path (fs_step w) = Some r" by (simp add: fs_step_def)
    with False show ?thesis by (subst create_temporary.simps) simp
  qed
qed

lemma write_and_rename_result:
  assumes "write_and_rename env path t s w = (r, w')" and "t \<noteq> path"
  shows "(r = Inr () \<and> files w' = (files w)(path \<mapsto> s, t := None))
    \<or> (\<exists>e. r = Inl e \<and> (\<forall>p. p \<noteq> t \<longrightarrow> files w' p = files w p))"
proof -
  have written: "(x = Inr () \<and> files v = (files w)(t \<mapsto> s)) \<or> (\<exists>e. x = Inl e \<and> (\<forall>p. p \<noteq> t \<longrightarrow> files v p = files w p))"
    if "fs_write env t s w = (x, v)" for x v
    using fs_try_cases [OF that [unfolded fs_write_def]] by auto
  have keep: "files v' = files v \<and> (x = Inr () \<or> (\<exists>e. x = Inl e))" if "keep_permissions env path v = (x, v')" for x v v'
    using that by (auto simp: keep_permissions_def try_then_def fs_try_def split: prod.splits sum.splits option.splits if_splits)
  have flush: "files v' = files v \<and> (x = Inr () \<or> (\<exists>e. x = Inl e))" if "fs_try env id id v = (x, v')" for x v v'
    using fs_try_cases [OF that] by auto
  note steps = assms(1) [unfolded write_and_rename_def]
  from try_then_split [OF steps] show ?thesis
  proof (elim disjE exE conjE)
    fix e w1 assume "fs_write env t s w = (Inl e, w1)" "r = Inl e" "w' = w1"
    with written show ?thesis by auto
  next
    fix y w1 assume w1: "fs_write env t s w = (Inr y, w1)"
      and k: "try_then (fs_try env id id w1) (\<lambda>_ w. try_then (keep_permissions env path w)
        (\<lambda>_ w. fs_try env (\<lambda>fs. (fs(path := fs t))(t := None)) id w)) = (r, w')"
    from w1 written have f1: "files w1 = (files w)(t \<mapsto> s)" by auto
    from try_then_split [OF k] show ?thesis
    proof (elim disjE exE conjE)
      fix e w2 assume "fs_try env id id w1 = (Inl e, w2)" "r = Inl e" "w' = w2"
      with flush f1 show ?thesis by fastforce
    next
      fix y w2 assume w2: "fs_try env id id w1 = (Inr y, w2)"
        and k: "try_then (keep_permissions env path w2) (\<lambda>_ w. fs_try env (\<lambda>fs. (fs(path := fs t))(t := None)) id w) = (r, w')"
      from w2 flush f1 have f2: "files w2 = (files w)(t \<mapsto> s)" by fastforce
      from try_then_split [OF k] show ?thesis
      proof (elim disjE exE conjE)
        fix e w3 assume "keep_permissions env path w2 = (Inl e, w3)" "r = Inl e" "w' = w3"
        with keep f2 show ?thesis by fastforce
      next
        fix y w3 assume w3: "keep_permissions env path w2 = (Inr y, w3)"
          and last: "fs_try env (\<lambda>fs. (fs(path := fs t))(t := None)) id w3 = (r, w')"
        from w3 keep f2 have "files w3 = (files w)(t \<mapsto> s)" by fastforce
        with fs_try_cases [OF last] assms(2) show ?thesis by (auto simp: fun_upd_twist)
      qed
    qed
  qed
qed

text \<open>
  C36: saving ends, whatever the file system answers, as soon as names of temporary files differ; the file
  then holds the whole new content when saving succeeded and its old content when it failed at any step,
  and no other existing file is touched.
\<close>

theorem save_replaces_atomically:
  assumes "inj (temporary_name env path)" and "finite (dom (files w))" and "\<forall>n. temporary_name env path n \<noteq> path"
  shows "\<exists>r w'. save_yaml_str env path yaml_str w = Some (r, w')
    \<and> files w' path = (case r of Inr _ \<Rightarrow> Some yaml_str | Inl _ \<Rightarrow> files w path)
    \<and> (\<forall>p. p \<noteq> path \<and> files w p \<noteq> None \<longrightarrow> files w' p = files w p)"
proof -
  have "infinite (temporary_name env path ` {fs_tick w..})"
    using assms(1) by (metis finite_imageD infinite_Ici inj_on_subset subset_UNIV)
  then obtain n where n: "fs_tick w \<le> n" "files w (temporary_name env path n) = None"
    using assms(2) by (metis (no_types, lifting) atLeast_iff domIff finite_subset image_subsetI)
  from create_temporary_ends [OF n(2,1)] obtain c where c: "create_temporary env path w = Some c" by blast
  obtain r1 w1 where rw: "c = (r1, w1)" by (rule prod.exhaust)
  from create_temporary_result [OF c] rw show ?thesis
  proof (elim disjE exE conjE)
    fix e assume "fst c = Inl e" "files (snd c) = files w"
    with c rw show ?thesis by (simp add: save_yaml_str_def)
  next
    fix t k assume t: "fst c = Inr t" "t = temporary_name env path k" "files w t = None" "files (snd c) = (files w)(t \<mapsto> [])"
    obtain r2 w2 where r2: "write_and_rename env path t yaml_str w1 = (r2, w2)" by (rule prod.exhaust)
    have s: "save_yaml_str env path yaml_str w = Some (remove_temporary env t (r2, w2))"
      using c rw t(1) r2 by (simp add: save_yaml_str_def)
    have tp: "t \<noteq> path" using t(2) assms(3) by simp
    have old: "files w p = None" if "p = t" for p using that t(3) by simp
    from write_and_rename_result [OF r2 tp] show ?thesis
    proof (elim disjE exE conjE)
      assume "r2 = Inr ()" "files w2 = (files w1)(path \<mapsto> yaml_str, t := None)"
      with s t(4) rw tp old show ?thesis by (auto simp: remove_temporary_def)
    next
      fix e assume r: "r2 = Inl e" and f: "\<forall>p. p \<noteq> t \<longrightarrow> files w2 p = files w1 p"
      obtain x w3 where x: "fs_try env (\<lambda>fs. fs(t := None)) id w2 = (x, w3)" by (rule prod.exhaust)
      from fs_try_cases [OF x] have "files w3 p = files w2 p" if "p \<noteq> t" for p using that by auto
      with f t(4) rw have same: "files w3 p = files w p" if "p \<noteq> t" for p using that by simp
      have "files w3 p = files w p" if "files w p \<noteq> None" for p
        using that t(3) same [of p] by (cases "p = t") auto
      with s r x same [of path] tp show ?thesis by (simp add: remove_temporary_def)
    qed
  qed
qed

definition demo_fs :: "(nat \<Rightarrow> string option) \<Rightarrow> fs_env" where
  "demo_fs fails = \<lparr>io = fails, torn = (\<lambda>_. Some ''torn''), nanoid = (\<lambda>n. replicate n (CHR ''x'')), process_id = ''1'',
     is_regular = (\<lambda>_. True)\<rparr>"

lemma demo_temporary: "temporary_name (demo_fs fails) ''c.yaml'' n = ''c.tmp-1-'' @ replicate n (CHR ''x'')"
  by (simp add: temporary_name_def demo_fs_def with_extension_def path_extension_def)

theorem save_replaces_atomically_witness:
  "\<exists>r w'. save_yaml_str (demo_fs (\<lambda>n. if n = 3 then Some ''disk full'' else None)) ''c.yaml'' ''new''
      \<lparr>files = [''c.yaml'' \<mapsto> ''old''], fs_tick = 0\<rparr> = Some (r, w')
    \<and> files w' ''c.yaml'' = (case r of Inr _ \<Rightarrow> Some ''new'' | Inl _ \<Rightarrow> Some ''old'')"
proof -
  let ?env = "demo_fs (\<lambda>n. if n = 3 then Some ''disk full'' else None)"
  let ?w = "\<lparr>files = [''c.yaml'' \<mapsto> ''old''], fs_tick = 0\<rparr>"
  have "inj (temporary_name ?env ''c.yaml'')"
    by (rule injI) (metis demo_temporary append_same_eq same_append_eq length_replicate)
  moreover have "\<forall>n. temporary_name ?env ''c.yaml'' n \<noteq> ''c.yaml''" by (simp add: demo_temporary)
  moreover have "finite (dom (files ?w))" by simp
  ultimately obtain r w' where "save_yaml_str ?env ''c.yaml'' ''new'' ?w = Some (r, w')"
    "files w' ''c.yaml'' = (case r of Inr _ \<Rightarrow> Some ''new'' | Inl _ \<Rightarrow> files ?w ''c.yaml'')"
    using save_replaces_atomically [of ?env "''c.yaml''" ?w "''new''"] by blast
  then show ?thesis by (intro exI [of _ r] exI [of _ w']) (simp split: sum.splits)
qed

subsection \<open>Restoring a snapshot\<close>

lemma capture_files_spec:
  assumes "capture_files env paths w = (r, w')"
  shows "files w' = files w" and "r = Inr snapshots \<Longrightarrow>
    snapshots = map (\<lambda>p. \<lparr>snap_path = p, snap_content = files w p\<rparr>) paths"
proof -
  have "files w' = files w \<and> (r = Inr snapshots \<longrightarrow>
      snapshots = map (\<lambda>p. \<lparr>snap_path = p, snap_content = files w p\<rparr>) paths)"
    using assms
  proof (induction paths arbitrary: w r w' snapshots)
    case (Cons path paths)
    from try_then_split [OF Cons.prems [unfolded capture_files.simps]] show ?case
    proof (elim disjE exE conjE)
      fix e w1 assume "fs_try env id id w = (Inl e, w1)" "r = Inl e" "w' = w1"
      with fs_try_cases show ?thesis by fastforce
    next
      fix y w1 assume t: "fs_try env id id w = (Inr y, w1)"
        and k: "try_then (capture_files env paths w1) (\<lambda>snapshots w2.
          (Inr (\<lparr>snap_path = path, snap_content = files w path\<rparr> # snapshots), w2)) = (r, w')"
      from fs_try_cases [OF t] have "files w1 = files w" by auto
      with try_then_split [OF k] Cons.IH show ?thesis by fastforce
    qed
  qed auto
  then show "files w' = files w" and "r = Inr snapshots \<Longrightarrow>
    snapshots = map (\<lambda>p. \<lparr>snap_path = p, snap_content = files w p\<rparr>) paths" by auto
qed

lemma restore_file_ok:
  "restore_file env s w = (Inr x, w') \<Longrightarrow> files w' = (files w)(snap_path s := snap_content s)"
  by (auto simp: restore_file_def fs_write_def fs_try_def split: option.splits if_splits)

lemma restore_loop_ok:
  assumes "restore_loop env (map (\<lambda>p. \<lparr>snap_path = p, snap_content = fs p\<rparr>) paths) w = ([], w')"
  shows "files w' p = (if p \<in> set paths then fs p else files w p)"
  using assms
proof (induction paths arbitrary: w)
  case (Cons q paths)
  obtain r w1 where r: "restore_file env \<lparr>snap_path = q, snap_content = fs q\<rparr> w = (r, w1)" by (rule prod.exhaust)
  obtain errors w2 where l: "restore_loop env (map (\<lambda>p. \<lparr>snap_path = p, snap_content = fs p\<rparr>) paths) w1 = (errors, w2)"
    by (rule prod.exhaust)
  from Cons.prems r l have e: "errors = []" "w2 = w'" "\<exists>x. r = Inr x" by (auto split: sum.splits)
  then obtain x where "r = Inr x" by blast
  with restore_file_ok r have "files w1 = (files w)(q := fs q)" by fastforce
  with Cons.IH [of w1] l e show ?case by auto
qed simp

text \<open>
  C37: restoring what was captured before a failed change brings every captured file back, also one that did
  not exist before or was removed meanwhile, whatever happened to the files in between, and touches no
  other file.
\<close>

theorem snapshot_restores_files:
  assumes "capture_files env paths w = (Inr snapshots, w1)" and "restore_files env' snapshots w2 = (Inr (), w3)"
  shows "files w3 p = (if p \<in> set paths then files w p else files w2 p)"
proof -
  have s: "snapshots = map (\<lambda>p. \<lparr>snap_path = p, snap_content = files w p\<rparr>) paths"
    using capture_files_spec(2) [OF assms(1)] by simp
  have "restore_loop env' snapshots w2 = ([], w3)"
    using assms(2) by (auto simp: restore_files_def split: prod.splits if_splits)
  from restore_loop_ok [OF this [unfolded s]] show ?thesis .
qed

theorem snapshot_restores_files_witness:
  "let env = demo_fs (\<lambda>_. None); (r, w1) = capture_files env [''a'', ''b''] \<lparr>files = [''a'' \<mapsto> ''1''], fs_tick = 0\<rparr>;
       w3 = snd (restore_files env (case r of Inr s \<Rightarrow> s | Inl _ \<Rightarrow> []) \<lparr>files = [''b'' \<mapsto> ''2'', ''c'' \<mapsto> ''3''], fs_tick = 9\<rparr>)
   in files w3 ''a'' = Some ''1'' \<and> files w3 ''b'' = None \<and> files w3 ''c'' = Some ''3''"
proof -
  let ?env = "demo_fs (\<lambda>_. None)" and ?w = "\<lparr>files = [''a'' \<mapsto> ''1''], fs_tick = 0\<rparr>"
    and ?w2 = "\<lparr>files = [''b'' \<mapsto> ''2'', ''c'' \<mapsto> ''3''], fs_tick = 9\<rparr>"
    and ?s = "[\<lparr>snap_path = ''a'', snap_content = Some ''1''\<rparr>, \<lparr>snap_path = ''b'', snap_content = None\<rparr>]"
  obtain w1 where c: "capture_files ?env [''a'', ''b''] ?w = (Inr ?s, w1)"
    by (simp add: try_then_def fs_try_def demo_fs_def fs_step_def)
  obtain w3 where r: "restore_files ?env ?s ?w2 = (Inr (), w3)"
    by (simp add: restore_files_def restore_file_def fs_write_def fs_try_def demo_fs_def fs_step_def)
  have "files w3 ''a'' = Some ''1''" "files w3 ''b'' = None" "files w3 ''c'' = Some ''3''"
    using snapshot_restores_files [OF c r] by simp_all
  then show ?thesis by (simp only: Let_def c r split sum.case snd_conv)
qed

subsection \<open>Masked URLs\<close>

lemma find_str_char: "c \<notin> set xs \<Longrightarrow> find_str [c] (xs @ c # ys) = Some (length xs)"
  by (induction xs) auto

lemma find_str_none: "c \<notin> set xs \<Longrightarrow> find_str [c] xs = None"
  by (induction xs) auto

lemma split_on_plain: "d \<notin> set w \<Longrightarrow> split_on d w = [w]"
  by (induction w) auto

lemma split_on_append: "d \<notin> set w \<Longrightarrow> split_on d (w @ d # s) = w # split_on d s"
  by (induction w) auto

lemma split_join: "ws \<noteq> [] \<Longrightarrow> \<forall>w \<in> set ws. d \<notin> set w \<Longrightarrow> split_on d (join_with d ws) = ws"
proof (induction ws)
  case (Cons w ws)
  then show ?case by (cases ws) (simp_all add: split_on_plain split_on_append)
qed simp

lemma mask_param_pair: "CHR ''='' \<notin> set k \<Longrightarrow> mask_param (k @ ''='' @ v) = k @ ''=***''"
  using find_str_char [of "CHR ''=''" k v] by (simp add: mask_param_def)

text \<open>
  The log never shows the value of a query parameter: a masked URL depends on the names of the
  parameters only.
\<close>

theorem masked_url_hides_values:
  assumes "CHR ''?'' \<notin> set base" and "params \<noteq> []"
    and "\<forall>(k, v) \<in> set params. CHR ''='' \<notin> set k \<and> CHR ''&'' \<notin> set k \<and> CHR ''&'' \<notin> set v"
  shows "mask_url (base @ ''?'' @ join_with (CHR ''&'') (map (\<lambda>(k, v). k @ ''='' @ v) params))
    = mask_url base @ ''?'' @ join_with (CHR ''&'') (map (\<lambda>(k, _). k @ ''=***'') params)"
proof -
  let ?ws = "map (\<lambda>(k, v). k @ ''='' @ v) params"
  have "split_on (CHR ''&'') (join_with (CHR ''&'') ?ws) = ?ws" using assms(2,3) by (intro split_join) auto
  moreover have "map mask_param ?ws = map (\<lambda>(k, _). k @ ''=***'') params"
    using assms(3) mask_param_pair by auto
  ultimately have "mask_query (join_with (CHR ''&'') ?ws) = join_with (CHR ''&'') (map (\<lambda>(k, _). k @ ''=***'') params)"
    unfolding mask_query_def by (simp only:)
  moreover have "find_str ''?'' (base @ ''?'' @ join_with (CHR ''&'') ?ws) = Some (length base)"
    using find_str_char [OF assms(1)] by simp
  ultimately show ?thesis by (simp add: mask_url_def find_str_none [OF assms(1)] Let_def)
qed

theorem masked_url_hides_values_witness:
  "mask_url (''http://h/s'' @ ''?'' @ ''token=secret&b=1'') = mask_url ''http://h/s'' @ ''?token=***&b=***''"
  using masked_url_hides_values [of "''http://h/s''" "[(''token'', ''secret''), (''b'', ''1'')]"] by simp

end
