(* ===== verification/Validation.thy ===== *)
theory Validation
  imports Files
begin

section \<open>Validation of configurations: \<open>core/validate.rs\<close>\<close>

text \<open>
  A profile, a script or a generated configuration is validated before it is used.  This theory models
  the kinds of outcome, how an error message is classified, how the type of a file is guessed, the
  checks of YAML and script files, the test run of the core, and the validator of generated
  configurations: one check at a time, and none for bytes that the same core build accepted last.

  Reading files, the YAML parser, the script engine and the core process are arguments (\<open>file_checks\<close>,
  \<open>core_run\<close>); so is the fingerprint of bytes, core and core files.  Strings are lists of bytes, so the
  Chinese messages of the code are written as the bytes of their UTF-8 encoding.
\<close>

datatype validation_error_kind =
    FileMissing | FileRead | YamlSyntax | YamlMapping | ScriptSyntax | ScriptMissingMain
  | CoreRejected | ProcessTerminated | ValidationTimeout

datatype validation_skip_reason = Exiting | Debounced

datatype validation_outcome =
    Valid
  | Invalid validation_error_kind string
  | Skipped validation_skip_reason
  | Busy

definition is_valid_outcome :: "validation_outcome \<Rightarrow> bool" where
  "is_valid_outcome outcome = (outcome = Valid)"

definition bytes :: "nat list \<Rightarrow> string" where
  "bytes bs = map char_of bs"

definition cannot_read :: string where
  "cannot_read = bytes [230, 151, 160, 230, 179, 149, 232, 175, 187, 229, 143, 150]"

definition timed_out_word :: string where
  "timed_out_word = bytes [232, 182, 133, 230, 151, 182]"

definition was_terminated :: string where
  "was_terminated = bytes [232, 162, 171, 231, 187, 136, 230, 173, 162]"

definition exit_code_message :: string where
  "exit_code_message = bytes [233, 170, 140, 232, 175, 129, 232, 191, 155, 231, 168, 139, 229, 188, 130, 229,
     184, 184, 233, 128, 128, 229, 135, 186, 239, 188, 140, 233, 128, 128, 229, 135, 186, 231, 160, 129] @ '': ''"

definition terminated_message :: string where
  "terminated_message = bytes [233, 170, 140, 232, 175, 129, 232, 191, 155, 231, 168, 139] @ was_terminated
     @ bytes [239, 188, 140, 232, 175, 183, 230, 163, 128, 230, 159, 165, 230, 152, 175, 229, 144, 166, 230, 156,
     137, 229, 174, 137, 229, 133, 168, 232, 189, 175, 228, 187, 182, 233, 152, 187, 230, 173, 162, 228, 186,
     134, 229, 134, 133, 230, 160, 184, 232, 191, 144, 232, 161, 140, 239, 188, 140, 230, 136, 150, 231, 148,
     181, 232, 132, 145] @ '' CPU/'' @ bytes [232, 191, 144, 232, 161, 140, 231, 142, 175, 229, 162, 131, 230,
     152, 175, 229, 144, 166, 230, 148, 175, 230, 140, 129, 232, 175, 165, 229, 134, 133, 230, 160, 184, 231,
     168, 139, 229, 186, 143, 227, 128, 130]"

definition error_kind_from_message :: "string \<Rightarrow> validation_error_kind" where
  "error_kind_from_message message =
     (let lower = to_lower message
      in if contains_str ''file not found'' lower then FileMissing
         else if contains_str ''failed to read'' lower \<or> contains_str cannot_read lower then FileRead
         else if contains_str ''script must contain a main function'' lower then ScriptMissingMain
         else if contains_str ''script syntax error'' lower then ScriptSyntax
         else if contains_str ''mapping values are not allowed'' lower
           \<or> contains_str ''failed to transform to yaml mapping'' lower
           \<or> contains_str ''failed to apply merge'' lower then YamlMapping
         else if contains_str ''yaml syntax error'' lower \<or> contains_str ''did not find expected key'' lower
         then YamlSyntax
         else if contains_str ''timeout'' lower \<or> contains_str timed_out_word lower then ValidationTimeout
         else if contains_str ''terminated'' lower \<or> contains_str was_terminated lower then ProcessTerminated
         else CoreRejected)"

definition invalid_from_message :: "string \<Rightarrow> validation_outcome" where
  "invalid_from_message message = Invalid (error_kind_from_message message) message"

fun show_skip_reason :: "validation_skip_reason \<Rightarrow> string" where
  "show_skip_reason Exiting = ''application is exiting''"
| "show_skip_reason Debounced = ''debounced''"

fun show_outcome :: "validation_outcome \<Rightarrow> string" where
  "show_outcome Valid = ''configuration is valid''"
| "show_outcome (Invalid kind message) = message"
| "show_outcome (Skipped reason) = ''Configuration validation skipped: '' @ show_skip_reason reason"
| "show_outcome Busy = ''Configuration validation is already running''"

subsection \<open>The type of a file\<close>

definition str_lines :: "string \<Rightarrow> string list" where
  "str_lines s = (let ps = split_on (CHR 0x0A) s; strip = (\<lambda>l. if ends_with [CHR 0x0D] l then butlast l else l)
     in map strip (butlast ps) @ (if last ps = [] then [] else [last ps]))"

definition has_ext :: "string \<Rightarrow> string \<Rightarrow> bool" where
  "has_ext path ext = (case path_extension path of Some s \<Rightarrow> eq_ignore_case s ext | None \<Rightarrow> False)"

definition has_yaml_features :: "string \<Rightarrow> bool" where
  "has_yaml_features content = (contains_str '': '' content \<or> contains_str ''#'' content \<or> contains_str ''---'' content
     \<or> list_ex (\<lambda>line. starts_with ''- '' (trim line)) (str_lines content))"

definition has_js_features :: "string \<Rightarrow> bool" where
  "has_js_features content = list_ex (\<lambda>word. contains_str word content)
     [''function '', ''const '', ''let '', ''var '', ''//'', ''/*'', ''*/'', ''export '', ''import '']"

definition is_script_file :: "(string \<Rightarrow> string res) \<Rightarrow> string \<Rightarrow> bool res" where
  "is_script_file read_to_string path =
     (if has_ext path ''yaml'' \<or> has_ext path ''yml'' then Inr False
      else if has_ext path ''js'' then Inr True
      else (case read_to_string path of
              Inl err \<Rightarrow> Inl (''Failed to read file to detect type: '' @ err)
            | Inr content \<Rightarrow>
                (let y = has_yaml_features content; j = has_js_features content
                 in if y \<and> \<not> j then Inr False
                    else if j \<and> \<not> y then Inr True
                    else if y \<and> j \<and> (contains_str ''function main'' content \<or> contains_str ''module.exports'' content
                        \<or> contains_str ''export default'' content) then Inr True
                    else Inr False)))"

subsection \<open>Checks of single files\<close>

datatype script_check = Evaluated "string + unit" | JoinFailed string | CheckTimedOut

record file_checks =
  path_exists :: "string \<Rightarrow> bool"
  read_file :: "string \<Rightarrow> string res"
  parse_value :: "string \<Rightarrow> string + unit"
  eval_js :: "string \<Rightarrow> script_check"

definition validate_file_syntax_outcome :: "file_checks \<Rightarrow> string \<Rightarrow> validation_outcome res" where
  "validate_file_syntax_outcome fc config_path =
     (case read_file fc config_path of
        Inl err \<Rightarrow> Inr (invalid_from_message (''Failed to read file: '' @ err))
      | Inr content \<Rightarrow> (case parse_value fc content of
            Inr _ \<Rightarrow> Inr Valid
          | Inl err \<Rightarrow> Inr (invalid_from_message (''YAML syntax error: '' @ err))))"

definition has_main :: "string \<Rightarrow> bool" where
  "has_main content = (contains_str ''function main'' content \<or> contains_str ''const main'' content
     \<or> contains_str ''let main'' content)"

definition validate_script_file_outcome :: "file_checks \<Rightarrow> string \<Rightarrow> validation_outcome res" where
  "validate_script_file_outcome fc path =
     (case read_file fc path of
        Inl err \<Rightarrow> Inr (invalid_from_message (''Failed to read script file: '' @ err))
      | Inr content \<Rightarrow>
          (let result = (case eval_js fc content of
                 Evaluated evaluated \<Rightarrow> evaluated
               | JoinFailed join_err \<Rightarrow> Inl (''syntax check task failed: '' @ join_err)
               | CheckTimedOut \<Rightarrow> Inl ''syntax check timed out'')
           in (case result of
                 Inr _ \<Rightarrow> if \<not> has_main content
                   then Inr (invalid_from_message ''Script must contain a main function'') else Inr Valid
               | Inl err \<Rightarrow> Inr (invalid_from_message (''Script syntax error: '' @ err)))))"

subsection \<open>The test run of the core\<close>

text \<open>The search for a keyword, with the index of the loop.\<close>

function find_keyword :: "string \<Rightarrow> string \<Rightarrow> nat \<Rightarrow> bool" where
  "find_keyword buf needle i =
     (if i + length needle \<le> length buf then
        (if take (length needle) (drop i buf) = needle then True else find_keyword buf needle (Suc i))
      else False)"
  by pat_completeness auto
termination by (relation "measure (\<lambda>(buf, needle, i). Suc (length buf) - i)") auto

declare find_keyword.simps [simp del]

fun contains_any_keyword :: "string \<Rightarrow> string list \<Rightarrow> bool" where
  "contains_any_keyword buf [] = False"
| "contains_any_keyword buf (kw # kws) =
     (if kw = [] then contains_any_keyword buf kws
      else if find_keyword buf kw 0 then True else contains_any_keyword buf kws)"

text \<open>\<open>str::from_utf8\<close> succeeds on well-formed UTF-8.\<close>

fun valid_utf8 :: "nat list \<Rightarrow> bool" where
  "valid_utf8 [] = True"
| "valid_utf8 (b # bs) =
     (if b < 128 then valid_utf8 bs
      else if 194 \<le> b \<and> b \<le> 223 then (case bs of c # r \<Rightarrow> c div 64 = 2 \<and> valid_utf8 r | [] \<Rightarrow> False)
      else if 224 \<le> b \<and> b \<le> 239 then (case bs of
          c # d # r \<Rightarrow> c div 64 = 2 \<and> (b = 224 \<longrightarrow> 160 \<le> c) \<and> (b = 237 \<longrightarrow> c < 160) \<and> d div 64 = 2 \<and> valid_utf8 r
        | _ \<Rightarrow> False)
      else if 240 \<le> b \<and> b \<le> 244 then (case bs of
          c # d # e # r \<Rightarrow> c div 64 = 2 \<and> (b = 240 \<longrightarrow> 144 \<le> c) \<and> (b = 244 \<longrightarrow> c < 144) \<and> d div 64 = 2
            \<and> e div 64 = 2 \<and> valid_utf8 r
        | _ \<Rightarrow> False)
      else False)"

definition utf8_or_default :: "string \<Rightarrow> string" where
  "utf8_or_default bs = (if valid_utf8 (map of_char bs) then bs else [])"

record command_output =
  exit_success :: bool
  exit_status_code :: "int option"
  out_stderr :: string
  out_stdout :: string

definition show_int :: "int \<Rightarrow> string" where
  "show_int n = (if n < 0 then CHR ''-'' # show_nat (nat (- n)) else show_nat (nat n))"

definition error_keywords :: "string list" where
  "error_keywords = [''FATA'', ''fatal'', ''Parse config error'', ''level=fatal'']"

definition core_verdict :: "command_output \<Rightarrow> validation_outcome" where
  "core_verdict out =
     (let has_error = (\<not> exit_success out \<or> contains_any_keyword (out_stderr out) error_keywords)
      in if has_error then
           (let error_msg =
                  (if out_stdout out \<noteq> [] then utf8_or_default (out_stdout out)
                   else if out_stderr out \<noteq> [] then utf8_or_default (out_stderr out)
                   else (case exit_status_code out of
                           Some code \<Rightarrow> exit_code_message @ show_int code
                         | None \<Rightarrow> terminated_message))
            in if exit_status_code out = None then Invalid ProcessTerminated error_msg
               else invalid_from_message error_msg)
         else Valid)"

text \<open>
  \<open>app_home_dir\<close> with its printed form, the command of the core and its output for a file; whether the
  application is exiting is asked at every check.
\<close>

record core_run =
  is_exiting :: "nat \<Rightarrow> bool"
  home_dir :: "string res"
  path_to_str :: "string \<Rightarrow> string res"
  sidecar_command :: "string \<Rightarrow> string + unit"
  command_run :: "string \<Rightarrow> string list \<Rightarrow> string + command_output"

definition validate_config_internal_outcome :: "core_run \<Rightarrow> nat \<Rightarrow> string \<Rightarrow> string \<Rightarrow> validation_outcome res" where
  "validate_config_internal_outcome cr n clash_core config_path =
     (if is_exiting cr n then Inr (Skipped Exiting)
      else and_then (home_dir cr) (\<lambda>app_dir.
           and_then (path_to_str cr app_dir) (\<lambda>app_dir_str.
           and_then (map_sum (\<lambda>e. ''failed to build validation command for core '' @ clash_core @ '': '' @ e) id
             (sidecar_command cr clash_core)) (\<lambda>_.
           and_then (map_sum (\<lambda>e. ''failed to run validation core '' @ clash_core @ '' for config '' @ config_path
               @ '' in data directory '' @ app_dir @ '': '' @ e) id
             (command_run cr clash_core [''-t'', ''-d'', app_dir_str, ''-f'', config_path])) (\<lambda>out.
           Inr (core_verdict out))))))"

definition validate_config_file_outcome ::
  "file_checks \<Rightarrow> core_run \<Rightarrow> string \<Rightarrow> string \<Rightarrow> bool option \<Rightarrow> validation_outcome res" where
  "validate_config_file_outcome fc cr clash_core config_path is_merge_file =
     (if is_exiting cr 0 then Inr (Skipped Exiting)
      else if \<not> path_exists fc config_path then Inr (invalid_from_message (''File not found: '' @ config_path))
      else if unwrap_or False is_merge_file then validate_file_syntax_outcome fc config_path
      else (case is_script_file (read_file fc) config_path of
              Inl _ \<Rightarrow> validate_config_internal_outcome cr 1 clash_core config_path
            | Inr is_script \<Rightarrow>
                if is_script then validate_script_file_outcome fc config_path
                else validate_config_internal_outcome cr 1 clash_core config_path))"

subsection \<open>The validator of generated configurations\<close>

record validator =
  is_processing :: bool
  last_validated :: "u64 option"

definition validator_new :: validator where
  "validator_new = \<lparr>is_processing = False, last_validated = None\<rparr>"

definition try_start :: "validator \<Rightarrow> bool \<times> validator" where
  "try_start v = (\<not> is_processing v, v\<lparr>is_processing := True\<rparr>)"

definition finish_validation :: "validator \<Rightarrow> validator" where
  "finish_validation v = v\<lparr>is_processing := False\<rparr>"

definition CHECK_CONFIG :: string where
  "CHECK_CONFIG = ''clash-verge-check.yaml''"

text \<open>What one call meets: the core in use, the fingerprint of bytes under it, and the write of the check file.\<close>

record validation_call =
  call_core :: string
  call_fingerprint :: "string \<Rightarrow> u64"
  call_run :: core_run
  save_check :: "string \<Rightarrow> string \<Rightarrow> string + unit"

definition check_with_core :: "validation_call \<Rightarrow> string \<Rightarrow> validation_outcome res" where
  "check_with_core c yaml =
     and_then (home_dir (call_run c)) (\<lambda>dir.
     let check_path = join_path dir CHECK_CONFIG
     in and_then (save_check c check_path yaml) (\<lambda>_.
        and_then (path_to_str (call_run c) check_path) (\<lambda>p.
        validate_config_internal_outcome (call_run c) 0 (call_core c) p)))"

definition validate_config_outcome_with :: "validation_call \<Rightarrow> string \<Rightarrow> validator \<Rightarrow> validation_outcome res \<times> validator" where
  "validate_config_outcome_with c yaml v =
     (let (started, v) = try_start v
      in if \<not> started then (Inr Busy, v)
         else let fingerprint = call_fingerprint c yaml
              in if last_validated v = Some fingerprint then (Inr Valid, finish_validation v)
                 else (case check_with_core c yaml of
                         Inl e \<Rightarrow> (Inl e, finish_validation v)
                       | Inr outcome \<Rightarrow> (Inr outcome, finish_validation
                           (if is_valid_outcome outcome then v\<lparr>last_validated := Some fingerprint\<rparr> else v))))"

fun validate_all :: "(validation_call \<times> string) list \<Rightarrow> validator \<Rightarrow> validation_outcome res list \<times> validator" where
  "validate_all [] v = ([], v)"
| "validate_all ((c, yaml) # calls) v =
     (let (r, v) = validate_config_outcome_with c yaml v; (rs, v) = validate_all calls v in (r # rs, v))"

subsection \<open>The keyword search is a substring search\<close>

lemma find_keyword_iff:
  "find_keyword buf needle i \<longleftrightarrow> (\<exists>j \<ge> i. j + length needle \<le> length buf \<and> take (length needle) (drop j buf) = needle)"
proof (induction buf needle i rule: find_keyword.induct)
  case (1 buf needle i)
  have split: "(\<exists>j \<ge> i. P j) \<longleftrightarrow> P i \<or> (\<exists>j \<ge> Suc i. P j)" for P
    by (metis Suc_leD Suc_leI le_neq_implies_less order_refl)
  show ?case
  proof (cases "i + length needle \<le> length buf")
    case True
    then show ?thesis
      using 1 by (subst find_keyword.simps, subst split) auto
  next
    case False
    then show ?thesis by (subst find_keyword.simps) auto
  qed
qed

lemma substring_at:
  "(\<exists>j. j + length needle \<le> length buf \<and> take (length needle) (drop j buf) = needle)
     \<longleftrightarrow> (\<exists>pre post. buf = pre @ needle @ post)"
proof
  assume "\<exists>j. j + length needle \<le> length buf \<and> take (length needle) (drop j buf) = needle"
  then obtain j where "take (length needle) (drop j buf) = needle" by blast
  then have "buf = take j buf @ needle @ drop (length needle) (drop j buf)"
    by (metis append_take_drop_id)
  then show "\<exists>pre post. buf = pre @ needle @ post" by blast
next
  assume "\<exists>pre post. buf = pre @ needle @ post"
  then obtain pre post where "buf = pre @ needle @ post" by blast
  then have "length pre + length needle \<le> length buf \<and> take (length needle) (drop (length pre) buf) = needle" by simp
  then show "\<exists>j. j + length needle \<le> length buf \<and> take (length needle) (drop j buf) = needle" by blast
qed

text \<open>
  The hand-written byte search of the core's output ends and finds exactly what a substring search
  finds: some non-empty keyword occurs somewhere, also at the very end, in a buffer shorter than a
  keyword, or not at all.
\<close>

theorem keyword_search_is_substring_search:
  "contains_any_keyword buf kws
     \<longleftrightarrow> (\<exists>kw pre post. kw \<in> set kws \<and> kw \<noteq> [] \<and> buf = pre @ kw @ post)"
  by (induction kws) (auto simp: find_keyword_iff substring_at)

subsection \<open>What an accepted configuration means\<close>

lemma validate_step:
  assumes "validate_config_outcome_with c yaml v = (r, v')"
  shows "is_processing v' \<longleftrightarrow> is_processing v"
    and "r = Inr Valid \<Longrightarrow> check_with_core c yaml = Inr Valid \<or> last_validated v = Some (call_fingerprint c yaml)"
    and "last_validated v' = last_validated v
      \<or> (check_with_core c yaml = Inr Valid \<and> last_validated v' = Some (call_fingerprint c yaml))"
  using assms
  by (auto simp: validate_config_outcome_with_def try_start_def finish_validation_def is_valid_outcome_def Let_def
      split: if_splits sum.splits)

lemma validate_all_valid:
  assumes "validate_all calls v = (rs, v')" and "i < length calls" and "rs ! i = Inr Valid"
    and "calls ! i = (c, yaml)"
  shows "(\<exists>k \<le> i. \<exists>c' yaml'. calls ! k = (c', yaml') \<and> check_with_core c' yaml' = Inr Valid
      \<and> call_fingerprint c' yaml' = call_fingerprint c yaml) \<or> last_validated v = Some (call_fingerprint c yaml)"
  using assms
proof (induction calls arbitrary: v v' rs i)
  case (Cons p calls)
  obtain c0 y0 where p: "p = (c0, y0)" by (rule prod.exhaust)
  obtain r1 v1 where s: "validate_config_outcome_with c0 y0 v = (r1, v1)" by (rule prod.exhaust)
  obtain rs1 v2 where rest: "validate_all calls v1 = (rs1, v2)" by (rule prod.exhaust)
  from Cons.prems(1) p s rest have rs: "rs = r1 # rs1" by simp
  show ?case
  proof (cases i)
    case 0
    with Cons.prems p s rs validate_step(2) [OF s] show ?thesis by auto
  next
    case (Suc j)
    with Cons.prems rs Cons.IH [OF rest, of j]
    consider k where "k \<le> j" "\<exists>c' yaml'. calls ! k = (c', yaml') \<and> check_with_core c' yaml' = Inr Valid
        \<and> call_fingerprint c' yaml' = call_fingerprint c yaml" | "last_validated v1 = Some (call_fingerprint c yaml)"
      by auto
    then show ?thesis
    proof cases
      case 1
      then have "\<exists>k' \<le> i. \<exists>c' yaml'. (p # calls) ! k' = (c', yaml') \<and> check_with_core c' yaml' = Inr Valid
        \<and> call_fingerprint c' yaml' = call_fingerprint c yaml" using Suc by (intro exI [of _ "Suc k"]) auto
      then show ?thesis by simp
    next
      case 2
      with validate_step(3) [OF s] p show ?thesis by (auto intro!: exI [of _ 0])
    qed
  qed
qed simp

text \<open>
  C35: a generated configuration passes only if the core accepted it, or accepted an earlier one with the
  same fingerprint of bytes, core and core files; a refused or interrupted check is never remembered, and
  the validator is free again after every call.
\<close>

theorem valid_means_core_accepted:
  assumes "validate_all calls validator_new = (rs, v)" and "i < length calls" and "rs ! i = Inr Valid"
    and "calls ! i = (c, yaml)"
  shows "\<exists>k \<le> i. \<exists>c' yaml'. calls ! k = (c', yaml') \<and> check_with_core c' yaml' = Inr Valid
      \<and> call_fingerprint c' yaml' = call_fingerprint c yaml"
  using validate_all_valid [OF assms] by (simp add: validator_new_def)

definition demo_call :: "bool \<Rightarrow> validation_call" where
  "demo_call success = \<lparr>call_core = ''verge-mihomo'', call_fingerprint = (\<lambda>yaml. of_nat (length yaml)),
     call_run = \<lparr>is_exiting = (\<lambda>_. False), home_dir = Inr ''home'', path_to_str = Inr,
       sidecar_command = (\<lambda>_. Inr ()),
       command_run = (\<lambda>_ _. Inr \<lparr>exit_success = success, exit_status_code = Some 1, out_stderr = [], out_stdout = []\<rparr>)\<rparr>,
     save_check = (\<lambda>_ _. Inr ())\<rparr>"

theorem valid_means_core_accepted_witness:
  "let calls = [(demo_call False, ''a''), (demo_call True, ''bc''), (demo_call False, ''bc'')]
   in fst (validate_all calls validator_new) ! 2 = Inr Valid
      \<and> (\<exists>k \<le> 2. \<exists>c' yaml'. calls ! k = (c', yaml') \<and> check_with_core c' yaml' = Inr Valid
          \<and> call_fingerprint c' yaml' = 2)"
proof -
  let ?calls = "[(demo_call False, ''a''), (demo_call True, ''bc''), (demo_call False, ''bc'')]"
  obtain rs v where r: "validate_all ?calls validator_new = (rs, v)" by (rule prod.exhaust)
  have fp: "call_fingerprint (demo_call s) y = of_nat (length y)" for s y by (simp add: demo_call_def)
  have none: "\<not> contains_any_keyword [] error_keywords"
    by (simp add: error_keywords_def find_keyword.simps)
  have acc: "check_with_core (demo_call True) y = Inr Valid" for y
    by (simp add: check_with_core_def demo_call_def validate_config_internal_outcome_def core_verdict_def none)
  have ref: "check_with_core (demo_call False) y = Inr (invalid_from_message (exit_code_message @ show_int 1))" for y
    by (simp add: check_with_core_def demo_call_def validate_config_internal_outcome_def core_verdict_def Let_def)
  have last: "rs ! 2 = Inr Valid"
    using r by (auto simp: validate_config_outcome_with_def try_start_def finish_validation_def acc ref fp
        is_valid_outcome_def invalid_from_message_def validator_new_def Let_def)
  from valid_means_core_accepted [OF r _ last, of "demo_call False" "''bc''"]
  have "\<exists>k \<le> 2. \<exists>c' yaml'. ?calls ! k = (c', yaml') \<and> check_with_core c' yaml' = Inr Valid
      \<and> call_fingerprint c' yaml' = 2" by (simp add: fp)
  with last show ?thesis unfolding Let_def r by simp
qed

lemma validator_released: "is_processing (snd (validate_all calls validator_new)) = False"
proof -
  have step: "is_processing (snd (validate_config_outcome_with c y v)) \<longleftrightarrow> is_processing v" for c y v
    by (rule validate_step(1) [OF prod.collapse [symmetric]])
  have "is_processing (snd (validate_all calls v)) \<longleftrightarrow> is_processing v" for v
  proof (induction calls arbitrary: v)
    case (Cons p calls)
    obtain c y where p: "p = (c, y)" by (rule prod.exhaust)
    have "snd (validate_all (p # calls) v) = snd (validate_all calls (snd (validate_config_outcome_with c y v)))"
      unfolding p validate_all.simps Let_def by (simp only: split_beta fst_conv snd_conv)
    with Cons.IH step show ?case by metis
  qed simp
  then show ?thesis by (simp add: validator_new_def)
qed

end
