(* ===== verification/AppProxyRules.thy ===== *)
theory AppProxyRules
  imports ClashConfig "HOL-Library.List_Lexorder" "HOL-Library.Char_ord"
begin

section \<open>Application proxy rules: \<open>core/app_proxy.rs\<close>, data\<close>

text \<open>
  The application proxy sends the connections of chosen programs through a helper process, which hands
  each to a listener of the proxy core, one listener per strategy group.  This theory models its data:
  the rules and how they are checked and bound to groups (\<open>compile_rules\<close>), the managed listeners in the
  core configuration, what the helper must report before rules count as applied, and the epoch by which
  a status report notices that the configuration changed under it.
\<close>

record app_rule =
  rule_id :: string
  rule_name :: string
  rule_enabled :: bool
  rule_process_name :: string
  cmdline_pattern :: string
  hack_tree :: bool
  proxy_group_id :: u32
  strategy_group :: string
  rule_protocol :: string

record listener_spec =
  spec_name :: string
  spec_port :: u16
  spec_group :: "string option"

text \<open>A \<open>BTreeMap\<close> keyed by strings: entries in the order of their keys.\<close>

type_synonym listener_map = "(string \<times> listener_spec) list"

fun btree_insert :: "string \<Rightarrow> 'v \<Rightarrow> (string \<times> 'v) list \<Rightarrow> (string \<times> 'v) list" where
  "btree_insert k v [] = [(k, v)]"
| "btree_insert k v ((k', v') # m) =
     (if k = k' then (k, v) # m else if k < k' then (k, v) # (k', v') # m else (k', v') # btree_insert k v m)"

definition btree_set :: "string list \<Rightarrow> string list" where
  "btree_set xs = sort (remdups xs)"

subsection \<open>Checking and compiling rules\<close>

definition trim_matches :: "char \<Rightarrow> string \<Rightarrow> string" where
  "trim_matches c s = rev (dropWhile ((=) c) (rev (dropWhile ((=) c) s)))"

definition trim_end :: "string \<Rightarrow> string" where
  "trim_end s = rev (dropWhile is_ws (rev s))"

definition infrastructure :: "string list" where
  "infrastructure = ['''', ''node.exe'', ''python.exe'', ''pythonw.exe'', ''clew.exe'', ''verge-mihomo.exe'',
     ''clash-verge.exe'', ''clash-verge-clew-internal.exe'']"

definition interpreters :: "string list" where
  "interpreters = [''node.exe'', ''python.exe'', ''pythonw.exe'']"

definition check_rule :: "string list \<Rightarrow> app_rule \<Rightarrow> string option" where
  "check_rule names rule =
     (let broad_match = to_lower (trim_matches (CHR ''*'') (trim (cmdline_pattern rule)));
          executable_only = trim_end (trim_matches (CHR 0x22) broad_match)
      in if trim (rule_id rule) = [] \<or> rule_id rule \<in> set names
         then Some ''application rule ids must be unique and nonempty''
         else if trim (cmdline_pattern rule) = [] then Some ''application rule match must not be empty''
         else if broad_match \<in> set infrastructure
         then Some (''rule match is too broad or targets proxy infrastructure: '' @ cmdline_pattern rule)
         else if list_ex (\<lambda>name. ends_with name executable_only) interpreters
         then Some ''script interpreter rules require a specific script command line''
         else if rule_protocol rule \<noteq> ''tcp'' then Some ''application proxy currently supports TCP rules only''
         else None)"

fun collect_destinations :: "string list \<Rightarrow> string list \<Rightarrow> app_rule list \<Rightarrow> string list res" where
  "collect_destinations names destinations [] = Inr destinations"
| "collect_destinations names destinations (rule # rules) =
     (case check_rule names rule of
        Some e \<Rightarrow> Inl e
      | None \<Rightarrow> collect_destinations (rule_id rule # names)
          (if rule_enabled rule \<and> strategy_group rule \<notin> set destinations
           then destinations @ [strategy_group rule] else destinations) rules)"

fun position :: "'a \<Rightarrow> 'a list \<Rightarrow> nat option" where
  "position x [] = None"
| "position x (y # ys) = (if y = x then Some 0 else map_option Suc (position x ys))"

definition sort_tail :: "string list \<Rightarrow> string list" where
  "sort_tail xs = (case xs of [] \<Rightarrow> [] | x # rest \<Rightarrow> x # sort rest)"

fun compile_all :: "string list \<Rightarrow> app_rule list \<Rightarrow> app_rule list res" where
  "compile_all destinations [] = Inr []"
| "compile_all destinations (rule # rules) =
     and_then (if rule_enabled rule
       then (case position (strategy_group rule) destinations of
               Some i \<Rightarrow> Inr (rule\<lparr>proxy_group_id := word_of_nat i\<rparr>)
             | None \<Rightarrow> Inl ''missing application strategy binding'')
       else Inr rule) (\<lambda>compiled. map_sum (\<lambda>e. e) ((#) compiled) (compile_all destinations rules))"

record group_entry =
  group_id :: nat
  group_name :: string
  group_host :: string
  group_port :: u16

fun group_entries :: "listener_map \<Rightarrow> nat \<Rightarrow> string list \<Rightarrow> group_entry list res" where
  "group_entries listeners i [] = Inr []"
| "group_entries listeners i (name # names) =
     (case map_of listeners name of
        None \<Rightarrow> Inl (''missing managed listener for '' @ name)
      | Some spec \<Rightarrow> map_sum (\<lambda>e. e) ((#) \<lparr>group_id = i, group_name = name, group_host = ''127.0.0.1'',
            group_port = spec_port spec\<rparr>) (group_entries listeners (Suc i) names))"

definition compile_rules :: "app_rule list \<Rightarrow> string \<Rightarrow> listener_map \<Rightarrow> (app_rule list \<times> group_entry list) res" where
  "compile_rules rules primary_group listeners =
     and_then (collect_destinations [] [primary_group] rules) (\<lambda>destinations.
     let destinations = sort_tail destinations
     in and_then (compile_all destinations rules) (\<lambda>compiled.
        and_then (group_entries listeners 0 destinations) (\<lambda>groups. Inr (compiled, groups))))"

definition required_groups :: "app_rule list \<Rightarrow> string \<Rightarrow> string list" where
  "required_groups rules primary_group =
     btree_set (primary_group # map strategy_group (filter rule_enabled rules))"

subsection \<open>Managed listeners in the core configuration\<close>

fun map_sequence :: "(yaml list \<Rightarrow> yaml list) \<Rightarrow> yaml \<Rightarrow> yaml" where
  "map_sequence f (Sequence xs) = Sequence (f xs)"
| "map_sequence f (Tagged t v) = Tagged t (map_sequence f v)"
| "map_sequence f v = v"

definition value_get :: "yaml \<Rightarrow> string \<Rightarrow> yaml option" where
  "value_get v k = Option.bind (as_mapping v) (\<lambda>m. get m k)"

fun value_u64 :: "yaml \<Rightarrow> u64 option" where
  "value_u64 (Number n) = as_u64 n"
| "value_u64 (Tagged t v) = value_u64 v"
| "value_u64 v = None"

definition listener_named :: "string \<Rightarrow> yaml \<Rightarrow> bool" where
  "listener_named name item = (Option.bind (value_get item ''name'') as_str = Some name)"

definition listener_item :: "listener_spec \<Rightarrow> yaml" where
  "listener_item spec = Mapping
     (let item = put ''port'' (port_value (spec_port spec)) (put ''listen'' (Str ''127.0.0.1'')
            (put ''type'' (Str ''mixed'') (put ''name'' (Str (spec_name spec)) [])))
      in (case spec_group spec of Some g \<Rightarrow> put ''proxy'' (Str g) item | None \<Rightarrow> item))"

definition upsert_listener :: "listener_spec \<Rightarrow> yaml list \<Rightarrow> yaml list" where
  "upsert_listener spec items = filter (\<lambda>item. \<not> listener_named (spec_name spec) item) items @ [listener_item spec]"

definition with_listeners :: "(yaml list \<Rightarrow> yaml list) \<Rightarrow> mapping \<Rightarrow> mapping" where
  "with_listeners f config =
     (case get config ''listeners'' of
        None \<Rightarrow> put ''listeners'' (Sequence (f [])) config
      | Some listeners \<Rightarrow> put ''listeners'' (map_sequence f listeners) config)"

definition merge_managed_listener :: "listener_spec list option \<Rightarrow> mapping \<Rightarrow> mapping" where
  "merge_managed_listener desired config =
     (case desired of None \<Rightarrow> config | Some specs \<Rightarrow> with_listeners (fold upsert_listener specs) config)"

definition configure_edit :: "listener_spec \<Rightarrow> mapping option \<Rightarrow> mapping option" where
  "configure_edit spec config = map_option (with_listeners (upsert_listener spec)) config"

definition remove_edit :: "string \<Rightarrow> mapping option \<Rightarrow> mapping option" where
  "remove_edit name config = map_option (\<lambda>config.
     case get config ''listeners'' of
       Some listeners \<Rightarrow> put ''listeners'' (map_sequence (filter (\<lambda>item. \<not> listener_named name item)) listeners) config
     | None \<Rightarrow> config) config"

definition loaded_listeners :: "mapping option \<Rightarrow> yaml list" where
  "loaded_listeners config = unwrap_or [] (Option.bind (Option.bind config (\<lambda>m. get m ''listeners'')) as_sequence)"

definition managed_listener_loaded :: "mapping option \<Rightarrow> string \<Rightarrow> u16 \<Rightarrow> string option \<Rightarrow> bool" where
  "managed_listener_loaded config name port grp = list_ex (\<lambda>listener.
     as_mapping listener \<noteq> None
     \<and> listener_named name listener
     \<and> Option.bind (value_get listener ''port'') value_u64 = Some (ucast port)
     \<and> Option.bind (value_get listener ''proxy'') as_str = grp) (loaded_listeners config)"

definition clear_desired :: "string \<Rightarrow> listener_spec list \<Rightarrow> listener_spec list" where
  "clear_desired name desired = filter (\<lambda>spec. spec_name spec \<noteq> name) desired"

subsection \<open>What the helper reports\<close>

text \<open>JSON values of \<open>serde_json\<close>.\<close>

datatype json = JNull | JBool bool | JNum number | JStr string | JArr "json list" | JObj "(string \<times> json) list"

fun jget :: "json \<Rightarrow> string \<Rightarrow> json option" where
  "jget (JObj m) k = map_of m k"
| "jget v k = None"

fun j_u64 :: "json \<Rightarrow> u64 option" where
  "j_u64 (JNum n) = as_u64 n" | "j_u64 v = None"

fun j_bool :: "json \<Rightarrow> bool option" where
  "j_bool (JBool b) = Some b" | "j_bool v = None"

fun j_str :: "json \<Rightarrow> string option" where
  "j_str (JStr s) = Some s" | "j_str v = None"

fun j_array :: "json \<Rightarrow> json list option" where
  "j_array (JArr xs) = Some xs" | "j_array v = None"

definition group_json :: "group_entry \<Rightarrow> json" where
  "group_json g = JObj [(''id'', JNum (PosInt (word_of_nat (group_id g)))), (''name'', JStr (group_name g)),
     (''host'', JStr (group_host g)), (''port'', JNum (PosInt (ucast (group_port g))))]"

definition same_group :: "json \<Rightarrow> json \<Rightarrow> bool" where
  "same_group expected grp = (jget grp ''id'' = jget expected ''id'' \<and> jget grp ''port'' = jget expected ''port''
     \<and> jget grp ''host'' = jget expected ''host'')"

definition groups_exposed :: "json list \<Rightarrow> json \<Rightarrow> bool" where
  "groups_exposed expected_groups config =
     (case Option.bind (jget config ''proxy_groups'') j_array of
        None \<Rightarrow> False
      | Some groups \<Rightarrow> length groups = length expected_groups
          \<and> list_all (\<lambda>expected. list_ex (same_group expected) groups) expected_groups)"

definition same_rule :: "app_rule \<Rightarrow> json \<Rightarrow> bool" where
  "same_rule expected_rule rule =
     (Option.bind (jget rule ''id'') j_str = Some (rule_id expected_rule)
      \<and> Option.bind (jget rule ''cmdline_pattern'') j_str = Some (cmdline_pattern expected_rule)
      \<and> Option.bind (jget rule ''proxy_group_id'') j_u64 = Some (ucast (proxy_group_id expected_rule))
      \<and> Option.bind (jget rule ''enabled'') j_bool = Some (rule_enabled expected_rule)
      \<and> Option.bind (jget rule ''protocol'') j_str = Some (rule_protocol expected_rule)
      \<and> Option.bind (jget rule ''hack_tree'') j_bool = Some (hack_tree expected_rule))"

definition rules_exposed :: "app_rule list option \<Rightarrow> json \<Rightarrow> bool" where
  "rules_exposed expected_rules config =
     (case Option.bind (jget config ''auto_rules'') j_array of
        None \<Rightarrow> False
      | Some rules \<Rightarrow> (case expected_rules of
            Some expected \<Rightarrow> length rules = length expected
              \<and> list_all (\<lambda>expected_rule. list_ex (same_rule expected_rule) rules) expected
          | None \<Rightarrow> True))"

subsection \<open>The epoch of configuration updates\<close>

record update_epoch =
  up_depth :: u64
  up_epoch :: u64

text \<open>The two atomic steps at either end of an update; the first returns the depth before it.\<close>

definition deepen :: "update_epoch \<Rightarrow> u64 \<times> update_epoch" where
  "deepen u = (up_depth u, u\<lparr>up_depth := up_depth u + 1\<rparr>)"

definition shallow :: "update_epoch \<Rightarrow> u64 \<times> update_epoch" where
  "shallow u = (up_depth u, u\<lparr>up_depth := up_depth u - 1\<rparr>)"

definition advance_epoch :: "update_epoch \<Rightarrow> update_epoch" where
  "advance_epoch u = u\<lparr>up_epoch := up_epoch u + 1\<rparr>"

definition begin_config_update :: "update_epoch \<Rightarrow> update_epoch" where
  "begin_config_update u = (let (before, u) = deepen u in if before = 0 then advance_epoch u else u)"

definition finish_config_update :: "update_epoch \<Rightarrow> update_epoch" where
  "finish_config_update u = (let (before, u) = shallow u in if before = 1 then advance_epoch u else u)"

definition config_update_snapshot :: "update_epoch \<Rightarrow> u64" where
  "config_update_snapshot u = up_epoch u"

text \<open>The depth is read first, then the epoch; another task may run in between.\<close>

definition config_update_is_current :: "u64 \<Rightarrow> update_epoch \<Rightarrow> update_epoch \<Rightarrow> bool" where
  "config_update_is_current epoch at_depth at_epoch =
     (even (uint epoch) \<and> up_depth at_depth = 0 \<and> up_epoch at_epoch = epoch)"

subsection \<open>Compiled rules\<close>

lemma collect_destinations_ok:
  assumes "collect_destinations names dests rules = Inr ds" and "distinct dests" and "dests \<noteq> []"
  shows "distinct (map rule_id rules)" and "set names \<inter> set (map rule_id rules) = {}"
    and "\<forall>r \<in> set rules. check_rule [] r = None"
    and "\<exists>more. ds = dests @ more" and "distinct ds"
    and "set ds = set dests \<union> strategy_group ` {r \<in> set rules. rule_enabled r}"
proof -
  have "distinct (map rule_id rules) \<and> set names \<inter> set (map rule_id rules) = {}
    \<and> (\<forall>r \<in> set rules. check_rule [] r = None) \<and> (\<exists>more. ds = dests @ more) \<and> distinct ds
    \<and> set ds = set dests \<union> strategy_group ` {r \<in> set rules. rule_enabled r}"
    using assms
  proof (induction names dests rules rule: collect_destinations.induct)
    case (2 names dests rule rules)
    then have none: "check_rule names rule = None" by (auto split: option.splits)
    then have fresh: "rule_id rule \<notin> set names" "check_rule [] rule = None"
      by (auto simp: check_rule_def Let_def split: if_splits)
    let ?d = "if rule_enabled rule \<and> strategy_group rule \<notin> set dests then dests @ [strategy_group rule] else dests"
    have "collect_destinations (rule_id rule # names) ?d rules = Inr ds" "distinct ?d" "?d \<noteq> []"
      using 2 none by auto
    from "2.IH" [OF none this] fresh show ?case by auto
  qed auto
  then show "distinct (map rule_id rules)" and "set names \<inter> set (map rule_id rules) = {}"
    and "\<forall>r \<in> set rules. check_rule [] r = None"
    and "\<exists>more. ds = dests @ more" and "distinct ds"
    and "set ds = set dests \<union> strategy_group ` {r \<in> set rules. rule_enabled r}" by auto
qed

lemma position_nth: "position x ys = Some i \<Longrightarrow> i < length ys \<and> ys ! i = x"
  by (induction ys arbitrary: i) (auto split: if_splits)

lemma compile_all_ok:
  assumes "compile_all ds rules = Inr compiled"
  shows "length compiled = length rules"
    and "i < length rules \<Longrightarrow> (if rule_enabled (rules ! i)
      then \<exists>j < length ds. ds ! j = strategy_group (rules ! i) \<and> compiled ! i = (rules ! i)\<lparr>proxy_group_id := word_of_nat j\<rparr>
      else compiled ! i = rules ! i)"
proof -
  have "length compiled = length rules \<and> (\<forall>i < length rules. if rule_enabled (rules ! i)
      then \<exists>j < length ds. ds ! j = strategy_group (rules ! i) \<and> compiled ! i = (rules ! i)\<lparr>proxy_group_id := word_of_nat j\<rparr>
      else compiled ! i = rules ! i)"
    using assms
  proof (induction ds rules arbitrary: compiled rule: compile_all.induct)
    case (2 ds rule rules)
    from "2.prems" obtain c rest where c: "compiled = c # rest" "compile_all ds rules = Inr rest"
      and head: "(if rule_enabled rule then (case position (strategy_group rule) ds of
               Some i \<Rightarrow> Inr (rule\<lparr>proxy_group_id := word_of_nat i\<rparr>)
             | None \<Rightarrow> Inl ''missing application strategy binding'')
       else Inr rule) = Inr c"
      by (auto simp: and_then_Inr_conv map_sum_def split: sum.splits)
    from head position_nth [of "strategy_group rule" ds]
    have h: "if rule_enabled rule then \<exists>j < length ds. ds ! j = strategy_group rule \<and> c = rule\<lparr>proxy_group_id := word_of_nat j\<rparr>
      else c = rule" by (auto split: option.splits if_splits)
    show ?case unfolding c(1) using "2.IH" [OF c(2)] head h by (auto simp: nth_Cons less_Suc_eq_0_disj split: nat.splits)
  qed simp
  then show "length compiled = length rules"
    and "i < length rules \<Longrightarrow> (if rule_enabled (rules ! i)
      then \<exists>j < length ds. ds ! j = strategy_group (rules ! i) \<and> compiled ! i = (rules ! i)\<lparr>proxy_group_id := word_of_nat j\<rparr>
      else compiled ! i = rules ! i)" by auto
qed

lemma group_entries_ok:
  assumes "group_entries listeners i names = Inr groups"
  shows "map group_name groups = names"
    and "j < length names \<Longrightarrow> group_id (groups ! j) = i + j \<and> group_host (groups ! j) = ''127.0.0.1''
      \<and> (\<exists>spec. map_of listeners (names ! j) = Some spec \<and> group_port (groups ! j) = spec_port spec)"
proof -
  have "map group_name groups = names \<and> (\<forall>j < length names. group_id (groups ! j) = i + j \<and> group_host (groups ! j) = ''127.0.0.1''
      \<and> (\<exists>spec. map_of listeners (names ! j) = Some spec \<and> group_port (groups ! j) = spec_port spec))"
    using assms
  proof (induction listeners i names arbitrary: groups rule: group_entries.induct)
    case (2 listeners i name names)
    from "2.prems" obtain spec rest where spec: "map_of listeners name = Some spec"
      and rest: "group_entries listeners (Suc i) names = Inr rest"
      "groups = \<lparr>group_id = i, group_name = name, group_host = ''127.0.0.1'', group_port = spec_port spec\<rparr> # rest"
      by (auto simp: map_sum_def split: option.splits sum.splits)
    with "2.IH" [OF spec rest(1)] show ?case by (auto simp: nth_Cons less_Suc_eq_0_disj split: nat.splits)
  qed simp
  then show "map group_name groups = names"
    and "j < length names \<Longrightarrow> group_id (groups ! j) = i + j \<and> group_host (groups ! j) = ''127.0.0.1''
      \<and> (\<exists>spec. map_of listeners (names ! j) = Some spec \<and> group_port (groups ! j) = spec_port spec)" by auto
qed

lemma compile_rules_parts:
  assumes "compile_rules rules primary listeners = Inr (compiled, groups)"
  obtains ds where "collect_destinations [] [primary] rules = Inr ds"
    and "compile_all (sort_tail ds) rules = Inr compiled" and "group_entries listeners 0 (sort_tail ds) = Inr groups"
    and "hd (sort_tail ds) = primary" and "sort_tail ds \<noteq> []" and "distinct (sort_tail ds)"
    and "set (sort_tail ds) = insert primary (strategy_group ` {r \<in> set rules. rule_enabled r})"
proof -
  from assms obtain ds where d: "collect_destinations [] [primary] rules = Inr ds"
    and "compile_all (sort_tail ds) rules = Inr compiled" "group_entries listeners 0 (sort_tail ds) = Inr groups"
    by (auto simp: compile_rules_def and_then_Inr_conv Let_def)
  moreover obtain more where "ds = primary # more" using collect_destinations_ok(4) [OF d] by auto
  then have s: "sort_tail ds = primary # sort more" "ds = primary # more" by (simp_all add: sort_tail_def)
  moreover have "distinct ds" "set ds = insert primary (strategy_group ` {r \<in> set rules. rule_enabled r})"
    using collect_destinations_ok(5,6) [OF d] by simp_all
  ultimately show ?thesis using that by simp
qed

text \<open>
  Rules are accepted only when their identifiers differ and every match is specific; each enabled
  rule is then bound to the entry of its own strategy group and nothing else about it changes, entries
  are numbered in order, the primary group first, each group once, and each points to the port of its
  listener.
\<close>

theorem compiled_rules_reach_their_group:
  assumes "compile_rules rules primary listeners = Inr (compiled, groups)"
  shows "distinct (map rule_id rules) \<and> (\<forall>r \<in> set rules. check_rule [] r = None)
    \<and> length compiled = length rules
    \<and> (\<forall>i < length rules. if rule_enabled (rules ! i)
        then \<exists>j < length groups. group_name (groups ! j) = strategy_group (rules ! i)
          \<and> compiled ! i = (rules ! i)\<lparr>proxy_group_id := word_of_nat j\<rparr>
        else compiled ! i = rules ! i)
    \<and> groups \<noteq> [] \<and> group_name (hd groups) = primary \<and> distinct (map group_name groups)
    \<and> set (map group_name groups) = set (required_groups rules primary)
    \<and> (\<forall>j < length groups. group_id (groups ! j) = j
        \<and> (\<exists>spec. map_of listeners (group_name (groups ! j)) = Some spec \<and> group_port (groups ! j) = spec_port spec))"
proof -
  obtain ds where d: "collect_destinations [] [primary] rules = Inr ds"
    and c: "compile_all (sort_tail ds) rules = Inr compiled" and g: "group_entries listeners 0 (sort_tail ds) = Inr groups"
    and s: "hd (sort_tail ds) = primary" "sort_tail ds \<noteq> []" "distinct (sort_tail ds)"
      "set (sort_tail ds) = insert primary (strategy_group ` {r \<in> set rules. rule_enabled r})"
    using assms by (rule compile_rules_parts)
  have names: "map group_name groups = sort_tail ds" by (rule group_entries_ok(1) [OF g])
  then have len: "length groups = length (sort_tail ds)" by (metis length_map)
  have nth: "sort_tail ds ! j = group_name (groups ! j)" if "j < length groups" for j
    using that names by (metis nth_map)
  have "groups \<noteq> []" "group_name (hd groups) = primary" using names s(1,2) by (metis list.map_disc_iff, metis list.map_disc_iff list.map_sel(1))
  moreover have "set (map group_name groups) = set (required_groups rules primary)"
    unfolding names s(4) required_groups_def btree_set_def by auto
  moreover have "distinct (map group_name groups)" using names s(3) by simp
  moreover have "\<forall>j < length groups. group_id (groups ! j) = j
        \<and> (\<exists>spec. map_of listeners (group_name (groups ! j)) = Some spec \<and> group_port (groups ! j) = spec_port spec)"
    using group_entries_ok(2) [OF g] len nth by (metis add_0)
  moreover have "if rule_enabled (rules ! i)
        then \<exists>j < length groups. group_name (groups ! j) = strategy_group (rules ! i)
          \<and> compiled ! i = (rules ! i)\<lparr>proxy_group_id := word_of_nat j\<rparr>
        else compiled ! i = rules ! i" if "i < length rules" for i
    using compile_all_ok(2) [OF c that] len nth by metis
  ultimately show ?thesis
    using collect_destinations_ok(1,3) [OF d] compile_all_ok(1) [OF c] by simp
qed

definition demo_rule :: "string \<Rightarrow> string \<Rightarrow> app_rule" where
  "demo_rule i g = \<lparr>rule_id = i, rule_name = i, rule_enabled = True, rule_process_name = ''*'',
     cmdline_pattern = i @ ''.exe'', hack_tree = False, proxy_group_id = 0, strategy_group = g, rule_protocol = ''tcp''\<rparr>"

theorem compiled_rules_reach_their_group_witness:
  "\<exists>compiled groups. compile_rules [demo_rule ''one'' ''regular'', demo_rule ''two'' ''B''] ''regular''
      [(''B'', \<lparr>spec_name = ''b'', spec_port = 12002, spec_group = Some ''B''\<rparr>),
       (''regular'', \<lparr>spec_name = ''r'', spec_port = 12001, spec_group = None\<rparr>)] = Inr (compiled, groups)
    \<and> compiled ! 1 = (demo_rule ''two'' ''B'')\<lparr>proxy_group_id := 1\<rparr> \<and> group_name (hd groups) = ''regular''"
proof -
  let ?rules = "[demo_rule ''one'' ''regular'', demo_rule ''two'' ''B'']"
  let ?ls = "[(''B'', \<lparr>spec_name = ''b'', spec_port = 12002, spec_group = Some ''B''\<rparr>),
       (''regular'', \<lparr>spec_name = ''r'', spec_port = 12001, spec_group = None\<rparr>)]"
  have check: "check_rule [] (demo_rule ''one'' ''regular'') = None" "check_rule [''one''] (demo_rule ''two'' ''B'') = None"
    by code_simp+
  have f: "rule_id (demo_rule i g) = i" "rule_enabled (demo_rule i g)" "strategy_group (demo_rule i g) = g" for i g
    by (simp_all add: demo_rule_def)
  have "collect_destinations [] [''regular''] ?rules = Inr [''regular'', ''B'']"
    by (simp add: check f)
  then obtain compiled groups where c: "compile_rules ?rules ''regular'' ?ls = Inr (compiled, groups)"
    and e: "compiled ! 1 = (demo_rule ''two'' ''B'')\<lparr>proxy_group_id := 1\<rparr>"
    by (simp add: compile_rules_def sort_tail_def f)
  from compiled_rules_reach_their_group [OF c] c e show ?thesis by blast
qed

subsection \<open>Listeners\<close>

lemma listener_item_named: "listener_named name (listener_item spec) \<longleftrightarrow> name = spec_name spec"
  by (auto simp: listener_named_def listener_item_def value_get_def get_put Let_def split: option.splits)

lemma listener_item_loaded:
  "as_mapping (listener_item spec) \<noteq> None"
  "Option.bind (value_get (listener_item spec) ''port'') value_u64 = Some (ucast (spec_port spec))"
  "Option.bind (value_get (listener_item spec) ''proxy'') as_str = spec_group spec"
  by (auto simp: listener_item_def value_get_def get_put port_value_def Let_def get_def put_def split: option.splits)

lemma as_sequence_map: "as_sequence (map_sequence f v) = map_option f (as_sequence v)"
  by (induction v) auto

lemma upsert_listener_loaded:
  assumes "config = Some m" and "get m ''listeners'' = None \<or> (\<exists>xs. Option.bind (get m ''listeners'') as_sequence = Some xs)"
  shows "managed_listener_loaded (configure_edit spec config) (spec_name spec) (spec_port spec) (spec_group spec)"
proof -
  have "\<exists>items. loaded_listeners (configure_edit spec config) = upsert_listener spec items"
    using assms by (auto simp: loaded_listeners_def configure_edit_def with_listeners_def get_put as_sequence_map
        bind_eq_Some_conv)
  then show ?thesis
    using listener_item_loaded [of spec] by (auto simp: managed_listener_loaded_def upsert_listener_def listener_item_named)
qed

lemma removed_listener_gone: "\<not> list_ex (listener_named name) (loaded_listeners (remove_edit name config))"
proof (cases config)
  case (Some m)
  show ?thesis
  proof (cases "get m ''listeners''")
    case (Some v)
    with \<open>config = Some m\<close> show ?thesis
      by (cases "as_sequence v") (auto simp: loaded_listeners_def remove_edit_def get_put as_sequence_map list_ex_iff)
  qed (simp add: \<open>config = Some m\<close> loaded_listeners_def remove_edit_def)
qed (simp add: loaded_listeners_def remove_edit_def)

lemma remove_keeps_others:
  "filter (\<lambda>item. \<not> listener_named name item) (loaded_listeners config) = loaded_listeners (remove_edit name config)"
  by (cases config) (auto simp: loaded_listeners_def remove_edit_def get_put as_sequence_map unwrap_or_def
      split: option.splits)

subsection \<open>A stable epoch means no update\<close>

text \<open>
  Only the holder of the configuration-update flag begins and finishes an update, so updates follow one
  another; other tasks may run between any two of its atomic steps.
\<close>

datatype update_phase = NoUpdate | FlagTaken | Deepened u64 | InUpdate | Shallowed u64 | Finished

fun update_step :: "update_phase \<times> update_epoch \<Rightarrow> update_phase \<times> update_epoch" where
  "update_step (NoUpdate, u) = (FlagTaken, u)"
| "update_step (FlagTaken, u) = (let (before, u) = deepen u in (Deepened before, u))"
| "update_step (Deepened before, u) = (InUpdate, if before = 0 then advance_epoch u else u)"
| "update_step (InUpdate, u) = (let (before, u) = shallow u in (Shallowed before, u))"
| "update_step (Shallowed before, u) = (Finished, if before = 1 then advance_epoch u else u)"
| "update_step (Finished, u) = (NoUpdate, u)"

definition updates_after :: "nat \<Rightarrow> update_phase \<times> update_epoch" where
  "updates_after n = (update_step ^^ n) (NoUpdate, \<lparr>up_depth = 0, up_epoch = 0\<rparr>)"

lemma updates_after_Suc: "updates_after (Suc n) = update_step (updates_after n)"
  by (simp add: updates_after_def)

text \<open>The steps are the two operations of the code, taken apart.\<close>

lemma update_steps_are_operations:
  "snd (update_step (update_step (FlagTaken, u))) = begin_config_update u"
  "snd (update_step (update_step (InUpdate, u))) = finish_config_update u"
  by (simp_all add: begin_config_update_def finish_config_update_def deepen_def shallow_def)

definition epoch_count :: "nat \<Rightarrow> nat" where
  "epoch_count n = 2 * (n div 6) + (if 3 \<le> n mod 6 then 1 else 0) + (if n mod 6 = 5 then 1 else 0)"

definition phase_at :: "nat \<Rightarrow> update_phase" where
  "phase_at n = [NoUpdate, FlagTaken, Deepened 0, InUpdate, Shallowed 1, Finished] ! (n mod 6)"

lemma mod6_cases: obtains "n mod 6 = 0" | "n mod 6 = 1" | "n mod 6 = 2" | "n mod 6 = 3" | "n mod 6 = 4" | "n mod 6 = (5::nat)"
  using mod_less_divisor [of 6 n] by fastforce

lemma updates_after_state:
  "fst (updates_after n) = phase_at n \<and> up_epoch (snd (updates_after n)) = of_nat (epoch_count n)
    \<and> up_depth (snd (updates_after n)) = (if n mod 6 = 2 \<or> n mod 6 = 3 then 1 else 0)"
proof (induction n)
  case 0
  then show ?case by (simp add: updates_after_def phase_at_def epoch_count_def)
next
  case (Suc n)
  obtain ph u where s: "updates_after n = (ph, u)" by (rule prod.exhaust)
  show ?case
    by (rule mod6_cases [of n])
      (use Suc s in \<open>simp_all add: updates_after_Suc phase_at_def epoch_count_def deepen_def shallow_def advance_epoch_def
        mod_Suc div_Suc\<close>)
qed

lemma epoch_count_mono: "m \<le> n \<Longrightarrow> epoch_count m \<le> epoch_count n"
proof (induction n)
  case (Suc n)
  have "epoch_count n \<le> epoch_count (Suc n)"
    by (rule mod6_cases [of n]) (simp_all add: epoch_count_def mod_Suc div_Suc)
  with Suc show ?case by (cases "m = Suc n") auto
qed simp

lemma epoch_count_step: "epoch_count (Suc n) \<le> Suc (epoch_count n)"
  by (rule mod6_cases [of n]) (simp_all add: epoch_count_def mod_Suc div_Suc)

lemma epoch_count_growth: "epoch_count (m + d) \<le> epoch_count m + d"
  by (induction d) (use epoch_count_step in \<open>auto intro: order_trans\<close>)

lemma of_nat_u64_eq: "m \<le> n \<Longrightarrow> n - m < 2 ^ 64 \<Longrightarrow> (of_nat m :: u64) = of_nat n \<Longrightarrow> m = n"
proof -
  assume le: "m \<le> n" and d: "n - m < 2 ^ 64" and e: "(of_nat m :: u64) = of_nat n"
  have "(of_nat (n - m) :: u64) = 0" using le e by (simp add: of_nat_diff)
  then have "unat (of_nat (n - m) :: u64) = 0" by simp
  then have "n - m = 0" using d by (simp add: unsigned_of_nat take_bit_nat_eq_self)
  with le show "m = n" by simp
qed

text \<open>
  When a status report finds the epoch current, no configuration update was being made at any moment
  between the two readings, wherever the updating task stood at either and at the reading of the depth.
\<close>

theorem stable_epoch_means_no_update:
  assumes "n1 \<le> n2" and "n2 \<le> n3" and "n3 - n1 < 2 ^ 64" and "n1 \<le> n" and "n \<le> n3"
    and "config_update_is_current (config_update_snapshot (snd (updates_after n1))) (snd (updates_after n2)) (snd (updates_after n3))"
  shows "fst (updates_after n) \<noteq> InUpdate"
proof -
  let ?e = "of_nat (epoch_count n1) :: u64"
  have e: "up_epoch (snd (updates_after k)) = of_nat (epoch_count k)" for k using updates_after_state by blast
  have cur: "even (uint ?e)" "of_nat (epoch_count n3) = ?e"
    using assms(6) unfolding config_update_is_current_def config_update_snapshot_def e by auto
  have le: "epoch_count n1 \<le> epoch_count n" "epoch_count n \<le> epoch_count n3"
    using assms(4,5) by (simp_all add: epoch_count_mono)
  have "epoch_count n3 \<le> epoch_count n1 + (n3 - n1)"
    using epoch_count_growth [of n1 "n3 - n1"] assms(1,2) by simp
  then have "epoch_count n3 - epoch_count n1 < 2 ^ 64" using assms(3) by linarith
  with le cur(2) of_nat_u64_eq have "epoch_count n1 = epoch_count n3" by (metis order_trans)
  with le have same: "epoch_count n = epoch_count n1" by simp
  have "even (epoch_count n1)" using cur(1) by (simp add: unsigned_of_nat even_take_bit_eq)
  then have "even (epoch_count n)" using same by simp
  then have "n mod 6 \<noteq> 3" by (auto simp: epoch_count_def)
  moreover have "fst (updates_after n) = phase_at n" using updates_after_state by blast
  ultimately show ?thesis by (rule_tac mod6_cases [of n]) (simp_all add: phase_at_def)
qed

theorem stable_epoch_means_no_update_witness:
  "config_update_is_current (config_update_snapshot (snd (updates_after 5))) (snd (updates_after 6)) (snd (updates_after 8))
    \<and> fst (updates_after 7) \<noteq> InUpdate"
proof -
  have "config_update_is_current (config_update_snapshot (snd (updates_after 5))) (snd (updates_after 6)) (snd (updates_after 8))"
    by (simp add: config_update_is_current_def config_update_snapshot_def updates_after_state epoch_count_def)
  with stable_epoch_means_no_update [of 5 6 8 7] show ?thesis by simp
qed

end
