(* ===== verification/AppProxy.thy ===== *)
theory AppProxy
  imports AppProxyRules Validation
begin

section \<open>The application proxy manager: \<open>core/app_proxy.rs\<close>\<close>

text \<open>
  Models \<open>AppProxyManager\<close>: starting and stopping the helper process, changing the rules of a running
  helper, and the status report.  The world holds the manager's fields, the flag \<open>APP_PROXY_RUNNING\<close>, the
  runtime configuration with its managed listeners, what is on disk (rules, restart preference,
  credential files) and the helper processes not known to have ended.  Ports, HTTP replies, process exit
  codes and file errors are answers of the outside, read by a tick that every question advances; at any
  of them other tasks may change the runtime configuration (\<open>meddle\<close>).

  The operations hold \<open>rules_update_lock\<close> from start to end, so they follow one another; a status report
  of another task can interfere only while no helper is installed, where it changes nothing, or
  right after one is installed, where it does what the report at the end of \<open>start\<close> does.  Locks are not
  poisoned.  Killing a process and waiting for it ends it.  Polls end by a deadline of 15 or 3 seconds
  with a sleep of 100 or 50 milliseconds between two rounds, so at most 151 or 61 rounds happen.
\<close>

datatype strategy_type = SelectorGroup | URLTestGroup | FallbackGroup | LoadBalanceGroup | NotAGroup

datatype reply = NoReply string | Reply nat "string + json"

datatype token_write = TokenWritten string string | TokenFailed "string option" string

record rules_request =
  expected_version :: u64
  request_rules :: "app_rule list"
  request_groups :: "group_entry list"

record app_env =
  own_pid :: string
  fresh_id :: "nat \<Rightarrow> string"
  runtime_id :: "string option"
  meddle :: "nat \<Rightarrow> mapping option \<Rightarrow> mapping option"
  q_proxies :: "nat \<Rightarrow> string + (string \<Rightarrow> strategy_type option)"
  q_bind_port :: "nat \<Rightarrow> string + u16"
  q_update_flag :: "nat \<Rightarrow> bool"
  q_transaction :: "nat \<Rightarrow> string + unit"
  q_serialize :: "nat \<Rightarrow> string + unit"
  q_validate :: "nat \<Rightarrow> string + validation_outcome"
  q_write_run :: "nat \<Rightarrow> string + unit"
  q_apply :: "nat \<Rightarrow> string + unit"
  q_connect :: "nat \<Rightarrow> bool"
  q_api_free :: "nat \<Rightarrow> bool"
  q_client :: "nat \<Rightarrow> string + unit"
  q_put_rules :: "nat \<Rightarrow> rules_request \<Rightarrow> reply"
  q_get_status :: "nat \<Rightarrow> reply"
  q_get_config :: "nat \<Rightarrow> reply"
  q_exit_code :: "nat \<Rightarrow> string + u32 option"
  q_deadline :: "nat \<Rightarrow> bool"
  q_helper_path :: "nat \<Rightarrow> string + unit"
  q_write_config :: "nat \<Rightarrow> json \<Rightarrow> string + unit"
  q_write_token :: "nat \<Rightarrow> token_write"
  q_remove_token :: "nat \<Rightarrow> string + unit"
  q_spawn :: "nat \<Rightarrow> string + u32"
  q_save_rules :: "nat \<Rightarrow> string + unit"
  q_save_resume :: "nat \<Rightarrow> string + unit"
  q_epoch :: "nat \<Rightarrow> update_epoch"

record managed_helper =
  h_process :: u32
  h_token_path :: string
  h_token :: string
  h_rules :: "app_rule list"
  h_listener :: string
  h_listener_name :: string
  h_extra :: listener_map
  h_group :: string
  h_version :: u64
  h_failed :: bool

record app_world =
  aw_helper :: "managed_helper option"
  aw_desired :: "listener_spec list"
  aw_error :: "string option"
  aw_rules :: "app_rule list"
  aw_running :: bool
  aw_runtime :: "mapping option"
  aw_disk_rules :: "app_rule list"
  aw_resume :: bool
  aw_tokens :: "string list"
  aw_live :: "u32 list"
  aw_tick :: nat

definition ask :: "app_env \<Rightarrow> (nat \<Rightarrow> 'a) \<Rightarrow> app_world \<Rightarrow> 'a \<times> app_world" where
  "ask env q w = (q (aw_tick w), w\<lparr>aw_tick := Suc (aw_tick w), aw_runtime := meddle env (aw_tick w) (aw_runtime w)\<rparr>)"

subsection \<open>Listeners of the running core\<close>

text \<open>
  \<open>CoreManager::update_runtime_config\<close>: the edit is committed only when the configuration could be
  serialised, was found valid, was written and was applied; otherwise the transaction drops it.
\<close>

definition update_runtime_config ::
  "app_env \<Rightarrow> (mapping option \<Rightarrow> mapping option) \<Rightarrow> app_world \<Rightarrow> (string + validation_outcome) \<times> app_world" where
  "update_runtime_config env f w =
     (let (free, w) = ask env (q_update_flag env) w
      in if \<not> free then (Inr Busy, w)
         else try_then (ask env (q_transaction env) w) (\<lambda>_ w.
              try_then (ask env (q_serialize env) w) (\<lambda>_ w.
              try_then (ask env (q_validate env) w) (\<lambda>outcome w.
              if \<not> is_valid_outcome outcome then (Inr outcome, w)
              else try_then (ask env (q_write_run env) w) (\<lambda>_ w.
                   try_then (ask env (q_apply env) w) (\<lambda>_ w.
                   (Inr Valid, w\<lparr>aw_runtime := f (aw_runtime w)\<rparr>)))))))"

definition configure_listener :: "app_env \<Rightarrow> listener_spec \<Rightarrow> app_world \<Rightarrow> (string + unit) \<times> app_world" where
  "configure_listener env spec w =
     try_then (update_runtime_config env (configure_edit spec) w) (\<lambda>outcome w.
       (if is_valid_outcome outcome then Inr ()
        else Inl (''Mihomo rejected managed app proxy listener configuration: '' @ show_outcome outcome), w))"

definition remove_listener :: "app_env \<Rightarrow> string \<Rightarrow> app_world \<Rightarrow> (string + unit) \<times> app_world" where
  "remove_listener env name w =
     try_then (update_runtime_config env (remove_edit name) w) (\<lambda>outcome w.
       (if is_valid_outcome outcome then Inr ()
        else Inl (''failed to remove managed Mihomo app proxy listener: '' @ show_outcome outcome), w))"

definition loaded :: "app_world \<Rightarrow> listener_spec \<Rightarrow> bool" where
  "loaded w spec = managed_listener_loaded (aw_runtime w) (spec_name spec) (spec_port spec) (spec_group spec)"

definition is_strategy :: "strategy_type \<Rightarrow> bool" where
  "is_strategy t = (t = SelectorGroup \<or> t = URLTestGroup \<or> t = FallbackGroup \<or> t = LoadBalanceGroup)"

definition strategy_binding :: "app_env \<Rightarrow> string \<Rightarrow> app_world \<Rightarrow> (string + string option) \<times> app_world" where
  "strategy_binding env name w =
     (if name = ''regular'' then (Inr None, w)
      else let (r, w) = ask env (q_proxies env) w
           in (case r of
                 Inl e \<Rightarrow> (Inl (''read active Mihomo strategy groups: '' @ e), w)
               | Inr proxies \<Rightarrow> (case proxies name of
                     None \<Rightarrow> (Inl (''Mihomo strategy group does not exist: '' @ name), w)
                   | Some t \<Rightarrow> if is_strategy t then (Inr (Some name), w)
                       else (Inl (''Mihomo entry is not a strategy group: '' @ name), w))))"

fun bind_groups :: "app_env \<Rightarrow> string list \<Rightarrow> app_world \<Rightarrow> (string + unit) \<times> app_world" where
  "bind_groups env [] w = (Inr (), w)"
| "bind_groups env (g # gs) w = try_then (strategy_binding env g w) (\<lambda>_ w. bind_groups env gs w)"

definition allocate_listener_port :: "app_env \<Rightarrow> app_world \<Rightarrow> (string + u16) \<times> app_world" where
  "allocate_listener_port env w = ask env (q_bind_port env) w"

fun allocate_loop :: "app_env \<Rightarrow> nat \<Rightarrow> listener_map \<Rightarrow> app_world \<Rightarrow> (string + u16) \<times> app_world" where
  "allocate_loop env 0 listeners w = (Inl ''could not allocate a distinct managed listener port'', w)"
| "allocate_loop env (Suc n) listeners w =
     try_then (allocate_listener_port env w) (\<lambda>port w.
       if list_all (\<lambda>(_, l). spec_port l \<noteq> port) listeners then (Inr port, w)
       else allocate_loop env n listeners w)"

definition allocate_unused_listener_port :: "app_env \<Rightarrow> listener_map \<Rightarrow> app_world \<Rightarrow> (string + u16) \<times> app_world" where
  "allocate_unused_listener_port env listeners w = allocate_loop env 32 listeners w"

text \<open>The names of managed listeners carry the process id and, beside the first, a fresh identifier.\<close>

definition primary_name :: "app_env \<Rightarrow> string" where
  "primary_name env = ''clash-verge-app-proxy-'' @ own_pid env"

definition extra_name :: "app_env \<Rightarrow> app_world \<Rightarrow> string" where
  "extra_name env w = primary_name env @ ''-'' @ fresh_id env (aw_tick w)"

definition drop_listener :: "app_env \<Rightarrow> listener_spec \<Rightarrow> app_world \<Rightarrow> app_world" where
  "drop_listener env spec w =
     snd (remove_listener env (spec_name spec) (w\<lparr>aw_desired := clear_desired (spec_name spec) (aw_desired w)\<rparr>))"

definition drop_listeners :: "app_env \<Rightarrow> listener_spec list \<Rightarrow> app_world \<Rightarrow> app_world" where
  "drop_listeners env specs w = fold (drop_listener env) specs w"

definition restore_staged_listeners ::
  "app_env \<Rightarrow> listener_map \<Rightarrow> listener_spec list \<Rightarrow> app_world \<Rightarrow> (string + unit) \<times> app_world" where
  "restore_staged_listeners env old staged w =
     (let w = w\<lparr>aw_desired := map snd old\<rparr>
      in fold (\<lambda>spec r. try_then r (\<lambda>_ w. remove_listener env (spec_name spec) w)) staged (Inr (), w))"

subsection \<open>The helper process\<close>

definition is_success :: "nat \<Rightarrow> bool" where
  "is_success code = (200 \<le> code \<and> code < 300)"

definition success_body :: "reply \<Rightarrow> json option" where
  "success_body r = (case r of Reply code (Inr body) \<Rightarrow> if is_success code then Some body else None | _ \<Rightarrow> None)"

definition end_process :: "u32 \<Rightarrow> app_world \<Rightarrow> app_world" where
  "end_process pid w = w\<lparr>aw_live := removeAll pid (aw_live w)\<rparr>"

text \<open>A process whose exit code cannot be read does not count as alive.\<close>

definition process_alive :: "app_env \<Rightarrow> u32 \<Rightarrow> app_world \<Rightarrow> bool \<times> app_world" where
  "process_alive env pid w =
     (let (r, w) = ask env (q_exit_code env) w
      in (r = Inr None, case r of Inr (Some code) \<Rightarrow> end_process pid w | _ \<Rightarrow> w))"

definition remove_token :: "app_env \<Rightarrow> string \<Rightarrow> app_world \<Rightarrow> (string + unit) \<times> app_world" where
  "remove_token env path w = try_then (ask env (q_remove_token env) w) (\<lambda>_ w.
     (Inr (), w\<lparr>aw_tokens := removeAll path (aw_tokens w)\<rparr>))"

fun wait_ready :: "app_env \<Rightarrow> nat \<Rightarrow> app_world \<Rightarrow> (string + unit) \<times> app_world" where
  "wait_ready env 0 w = (Inl ''helper readiness timeout'', w)"
| "wait_ready env (Suc n) w =
     (let (exit, w) = ask env (q_exit_code env) w
      in (case exit of
            Inr (Some code) \<Rightarrow> (Inl ''helper exited before readiness'', w)
          | _ \<Rightarrow>
              (let (late, w) = ask env (q_deadline env) w
               in if late then (Inl ''helper readiness timeout'', w)
                  else let (_, w) = ask env (\<lambda>_. ()) w; (r, w) = ask env (q_get_status env) w
                       in if Option.bind (success_body r) (\<lambda>body. Option.bind (jget body ''helper_ready'') j_bool) = Some True
                          then (Inr (), w) else wait_ready env n w)))"

definition observed_rules_revision :: "app_env \<Rightarrow> app_world \<Rightarrow> u64 option \<times> app_world" where
  "observed_rules_revision env w =
     (let (r, w) = ask env (q_get_status env) w
      in (case r of Reply _ (Inr body) \<Rightarrow> Option.bind (jget body ''rules_revision'') j_u64 | _ \<Rightarrow> None, w))"

fun wait_rules_applied :: "app_env \<Rightarrow> nat \<Rightarrow> app_rule list option \<Rightarrow> group_entry list \<Rightarrow> u64 \<Rightarrow> app_world
    \<Rightarrow> (string + unit) \<times> app_world" where
  "wait_rules_applied env 0 expected_rules expected_groups version w =
     (Inl ''helper accepted rules but did not expose the requested runtime rule before the publication deadline'', w)"
| "wait_rules_applied env (Suc n) expected_rules expected_groups version w =
     (let (exit, w) = ask env (q_exit_code env) w
      in (case exit of
            Inr (Some code) \<Rightarrow> (Inl ''helper exited while applying rules'', w)
          | Inl e \<Rightarrow> (Inl (''query helper process while applying rules: '' @ e), w)
          | Inr None \<Rightarrow>
              (let (late, w) = ask env (q_deadline env) w
               in if late then (Inl ''helper accepted rules but did not expose the requested runtime rule before the publication deadline'', w)
                  else let (r, w) = ask env (q_get_config env) w
                       in (case success_body r of
                             None \<Rightarrow> wait_rules_applied env n expected_rules expected_groups version w
                           | Some config \<Rightarrow>
                               (let (revision, w) = observed_rules_revision env w
                                in if groups_exposed (map group_json expected_groups) config
                                     \<and> rules_exposed expected_rules config \<and> revision = Some version
                                   then (Inr (), w)
                                   else wait_rules_applied env n expected_rules expected_groups version w)))))"

definition save_rules_to_disk :: "app_env \<Rightarrow> app_rule list \<Rightarrow> app_world \<Rightarrow> (string + unit) \<times> app_world" where
  "save_rules_to_disk env rules w = try_then (ask env (q_save_rules env) w) (\<lambda>_ w. (Inr (), w\<lparr>aw_disk_rules := rules\<rparr>))"

definition save_resume_intent :: "app_env \<Rightarrow> bool \<Rightarrow> app_world \<Rightarrow> (string + unit) \<times> app_world" where
  "save_resume_intent env enabled w = try_then (ask env (q_save_resume env) w) (\<lambda>_ w. (Inr (), w\<lparr>aw_resume := enabled\<rparr>))"

definition cleanup_failed :: "app_env \<Rightarrow> u32 \<Rightarrow> string \<Rightarrow> listener_spec list \<Rightarrow> app_world \<Rightarrow> app_world" where
  "cleanup_failed env pid token_path listeners w =
     (let w = snd (ask env (q_exit_code env) w);
          w = end_process pid w;
          w = snd (ask env (q_exit_code env) w);
          w = snd (remove_token env token_path w)
      in drop_listeners env listeners w)"

subsection \<open>Status and stop\<close>

record app_status =
  st_state :: string
  st_helper_ready :: bool
  st_proxy_ready :: bool
  st_version :: "u64 option"
  st_pid :: "u32 option"
  st_group :: "string option"
  st_runtime_id :: "string option"
  st_error :: "string option"

definition down_status :: "app_env \<Rightarrow> string \<Rightarrow> string option \<Rightarrow> app_status" where
  "down_status env state error = \<lparr>st_state = state, st_helper_ready = False, st_proxy_ready = False,
     st_version = None, st_pid = None, st_group = None, st_runtime_id = runtime_id env, st_error = error\<rparr>"

definition helper_listeners :: "managed_helper \<Rightarrow> string list" where
  "helper_listeners h = h_listener_name h # map (spec_name \<circ> snd) (h_extra h)"

definition show_pid :: "u32 \<Rightarrow> string" where
  "show_pid pid = show_nat (unat pid)"

text \<open>The helper ended by itself: its listeners, credential and registration go.\<close>

definition retire_dead_helper :: "app_env \<Rightarrow> managed_helper \<Rightarrow> app_world \<Rightarrow> app_status \<times> app_world" where
  "retire_dead_helper env h w =
     (let (cleanup, w) = remove_token env (h_token_path h) w;
          w = w\<lparr>aw_desired := [], aw_running := False\<rparr>;
          w = fold (\<lambda>name w. snd (remove_listener env name w)) (helper_listeners h) w;
          (exit, w) = ask env (q_exit_code env) w;
          crash_err = ''helper process terminated unexpectedly (pid='' @ show_pid (h_process h) @ '')''
            @ (case cleanup of Inl error \<Rightarrow> ''; credential cleanup failed: '' @ error | Inr _ \<Rightarrow> []);
          w = w\<lparr>aw_error := Some crash_err, aw_helper := None\<rparr>
      in (down_status env ''failed'' (Some crash_err), w))"

definition listener_port :: "string \<Rightarrow> u16 option" where
  "listener_port listener = parse_u16 (last (split_on (CHR '':'') listener))"

fun extra_loaded :: "app_env \<Rightarrow> listener_map \<Rightarrow> bool \<Rightarrow> app_world \<Rightarrow> bool \<times> app_world" where
  "extra_loaded env [] ok w = (ok, w)"
| "extra_loaded env ((g, spec) # extra) ok w =
     (let (binding, w) = strategy_binding env g w
      in if \<not> is_ok binding \<or> \<not> loaded w spec then extra_loaded env extra False w
         else let (ready, w) = ask env (q_connect env) w in extra_loaded env extra (ok \<and> ready) w)"

definition helper_report :: "app_env \<Rightarrow> app_world \<Rightarrow> (bool \<times> u64 option) \<times> app_world" where
  "helper_report env w =
     (let (client, w) = ask env (q_client env) w
      in (case client of
            Inl _ \<Rightarrow> ((False, None), w)
          | Inr _ \<Rightarrow>
              (let (r, w) = ask env (q_get_status env) w
               in (case success_body r of
                     None \<Rightarrow> (False, None)
                   | Some body \<Rightarrow> (unwrap_or False (Option.bind (jget body ''helper_ready'') j_bool),
                       Option.bind (jget body ''rules_revision'') j_u64), w))))"

definition displayed_group :: "app_rule list \<Rightarrow> string \<Rightarrow> string" where
  "displayed_group rules strategy =
     (let active = btree_set (map strategy_group (filter rule_enabled rules))
      in if 1 < length active then ''multiple'' else (case active of g # _ \<Rightarrow> g | [] \<Rightarrow> strategy))"

definition live_status :: "app_env \<Rightarrow> managed_helper \<Rightarrow> string option \<Rightarrow> app_world \<Rightarrow> app_status \<times> app_world" where
  "live_status env h error w =
     (let (at_snapshot, w) = ask env (q_epoch env) w;
          update_epoch = config_update_snapshot at_snapshot;
          ((helper_ready, observed_revision), w) = helper_report env w;
          (primary_binding, w) = strategy_binding env (h_group h) w;
          strategy_available = is_ok primary_binding;
          strategy_proxy_group = (case primary_binding of Inr g \<Rightarrow> g | Inl _ \<Rightarrow> None);
          listener_loaded = (case listener_port (h_listener h) of
             Some port \<Rightarrow> managed_listener_loaded (aw_runtime w) (h_listener_name h) port strategy_proxy_group
           | None \<Rightarrow> False);
          (all_listeners_loaded, w) = extra_loaded env (h_extra h) listener_loaded w;
          (at_depth, w) = ask env (q_epoch env) w;
          (at_epoch, w) = ask env (q_epoch env) w;
          update_stable = config_update_is_current update_epoch at_depth at_epoch;
          (listening, w) = ask env (q_connect env) w;
          ready = (\<not> h_failed h \<and> strategy_available \<and> update_stable \<and> helper_ready \<and> all_listeners_loaded
            \<and> listening \<and> observed_revision = Some (h_version h) \<and> 0 < h_version h)
      in (\<lparr>st_state = (if ready then ''running'' else ''degraded''), st_helper_ready = helper_ready,
           st_proxy_ready = ready, st_version = Some (h_version h), st_pid = Some (h_process h),
           st_group = Some (displayed_group (aw_rules w) (h_group h)), st_runtime_id = runtime_id env,
           st_error = error\<rparr>, w))"

definition app_status_of :: "app_env \<Rightarrow> app_world \<Rightarrow> app_status \<times> app_world" where
  "app_status_of env w =
     (case aw_helper w of
        None \<Rightarrow> (down_status env ''stopped'' (aw_error w), w)
      | Some h \<Rightarrow>
          (let error = aw_error w; (alive, w) = process_alive env (h_process h) w
           in if \<not> alive then retire_dead_helper env h w
              else live_status env h error w))"

fun remove_names :: "app_env \<Rightarrow> string list \<Rightarrow> string option \<Rightarrow> app_world \<Rightarrow> string option \<times> app_world" where
  "remove_names env [] cleanup_error w = (cleanup_error, w)"
| "remove_names env (name # names) cleanup_error w =
     (let (r, w) = remove_listener env name w
      in remove_names env names (case r of Inl e \<Rightarrow> Some e | Inr _ \<Rightarrow> cleanup_error) w)"

text \<open>The helper is asked to stop, waited for, and killed when it is still there.\<close>

definition stop_helper :: "app_env \<Rightarrow> managed_helper \<Rightarrow> app_world \<Rightarrow> app_world" where
  "stop_helper env h w =
     (let (client, w) = ask env (q_client env) w;
          w = (if is_ok client then snd (ask env (\<lambda>_. ()) w) else w);
          w = snd (ask env (q_exit_code env) w);
          w = snd (ask env (q_exit_code env) w);
          (alive, w) = process_alive env (h_process h) w
      in if alive then snd (ask env (q_exit_code env) (end_process (h_process h) w)) else w)"

definition stop_inner :: "app_env \<Rightarrow> bool \<Rightarrow> app_world \<Rightarrow> (string + app_status) \<times> app_world" where
  "stop_inner env remove_managed_listener w =
     (case aw_helper w of
        None \<Rightarrow> (let (s, w) = app_status_of env (w\<lparr>aw_running := False\<rparr>) in (Inr s, w))
      | Some h \<Rightarrow>
          (let w = stop_helper env h (w\<lparr>aw_helper := None, aw_desired := []\<rparr>);
               (token_cleanup, w) = remove_token env (h_token_path h) w;
               (cleanup_error, w) = (if remove_managed_listener
                 then remove_names env (helper_listeners h) None w else (None, w));
               w = w\<lparr>aw_running := False\<rparr>
           in (case cleanup_error of
                 Some error \<Rightarrow> (Inl error, w)
               | None \<Rightarrow> (case token_cleanup of
                     Inl e \<Rightarrow> (Inl e, w)
                   | Inr _ \<Rightarrow> (Inr ((down_status env ''stopped'' (aw_error w))
                       \<lparr>st_version := Some (h_version h), st_group := Some (h_group h)\<rparr>), w)))))"

definition app_stop :: "app_env \<Rightarrow> app_world \<Rightarrow> (string + app_status) \<times> app_world" where
  "app_stop env w =
     (let (preference, w) = save_resume_intent env False w; (result, w) = stop_inner env True w
      in (case preference of Inl e \<Rightarrow> Inl e | Inr _ \<Rightarrow> result, w))"

definition app_shutdown :: "app_env \<Rightarrow> app_world \<Rightarrow> app_world" where
  "app_shutdown env w = snd (stop_inner env False w)"

subsection \<open>Start\<close>

record start_request =
  req_cmdline :: string
  req_group :: string
  req_rules :: "app_rule list option"

definition selected_rule :: "start_request \<Rightarrow> app_rule" where
  "selected_rule request = \<lparr>rule_id = ''verge-app-proxy'', rule_name = ''Verge selected application'',
     rule_enabled = True, rule_process_name = ''*'', cmdline_pattern = req_cmdline request, hack_tree = False,
     proxy_group_id = 0, strategy_group = req_group request, rule_protocol = ''tcp''\<rparr>"

definition effective_rules :: "start_request \<Rightarrow> app_rule list \<Rightarrow> app_rule list" where
  "effective_rules request stored =
     (case req_rules request of
        Some rules \<Rightarrow> if rules \<noteq> [] then rules else stored
      | None \<Rightarrow> if trim (req_cmdline request) \<noteq> [] then [selected_rule request] else stored)"

text \<open>One listener for every group that has none yet.\<close>

fun stage_groups :: "app_env \<Rightarrow> string list \<Rightarrow> listener_map \<Rightarrow> app_world \<Rightarrow> (string + listener_map) \<times> app_world" where
  "stage_groups env [] listeners w = (Inr listeners, w)"
| "stage_groups env (g # gs) listeners w =
     (if map_of listeners g \<noteq> None then stage_groups env gs listeners w
      else try_then (allocate_unused_listener_port env listeners w) (\<lambda>port w.
           let spec = \<lparr>spec_name = extra_name env w, spec_port = port, spec_group = Some g\<rparr>
           in stage_groups env gs (btree_insert g spec listeners) (snd (ask env (\<lambda>_. ()) w))))"

fun configure_all :: "app_env \<Rightarrow> listener_spec list \<Rightarrow> listener_spec list \<Rightarrow> app_world \<Rightarrow> (string + unit) \<times> app_world" where
  "configure_all env all [] w = (Inr (), w)"
| "configure_all env all (spec # specs) w =
     (let (r, w) = configure_listener env spec w;
          (ready, w) = (if is_ok r \<and> loaded w spec then ask env (q_connect env) w else (False, w))
      in if ready then configure_all env all specs w
         else (Inl (case r of Inl e \<Rightarrow> e | Inr _ \<Rightarrow> ''managed Mihomo listener is not ready''), drop_listeners env all w))"

definition j_nat :: "nat \<Rightarrow> json" where
  "j_nat n = JNum (PosInt (of_nat n))"

definition helper_config :: "group_entry list \<Rightarrow> json" where
  "helper_config groups = JObj [
     (''version'', j_nat 2),
     (''default_proxy'', JObj [(''host'', JStr ''127.0.0.1''),
        (''port'', case groups of g # _ \<Rightarrow> JNum (PosInt (ucast (group_port g))) | [] \<Rightarrow> JNull)]),
     (''proxy_groups'', JArr (map group_json groups)),
     (''next_group_id'', j_nat (length groups)),
     (''auto_rules'', JArr []),
     (''default_exclude_cidrs'', JArr (map JStr [''127.0.0.0/8'', ''10.0.0.0/8'', ''172.16.0.0/12'', ''192.168.0.0/16''])),
     (''io_threads'', j_nat 2), (''log_level'', JStr ''info''), (''dns'', JObj [(''enabled'', JBool False)]),
     (''tcp_syn_parking'', JObj [(''enabled'', JBool True), (''watchdog_ms'', j_nat 20), (''pool_size'', j_nat 256)])]"

text \<open>Path of the helper, its configuration file, and a fresh credential.\<close>

definition prepare_helper :: "app_env \<Rightarrow> group_entry list \<Rightarrow> app_world \<Rightarrow> (string + string \<times> string) \<times> app_world" where
  "prepare_helper env groups w =
     try_then (ask env (q_helper_path env) w) (\<lambda>_ w.
     try_then (ask env (\<lambda>t. q_write_config env t (helper_config groups)) w) (\<lambda>_ w.
     let (t, w) = ask env (q_write_token env) w
     in (case t of
           TokenWritten path token \<Rightarrow> (Inr (path, token), w\<lparr>aw_tokens := path # aw_tokens w\<rparr>)
         | TokenFailed left e \<Rightarrow> (Inl e, case left of Some path \<Rightarrow> w\<lparr>aw_tokens := path # aw_tokens w\<rparr> | None \<Rightarrow> w))))"

definition spawn_helper :: "app_env \<Rightarrow> string \<Rightarrow> listener_spec list \<Rightarrow> app_world \<Rightarrow> (string + u32) \<times> app_world" where
  "spawn_helper env token_path all w =
     (let (r, w) = ask env (q_spawn env) w
      in (case r of
            Inr pid \<Rightarrow> (Inr pid, w\<lparr>aw_live := pid # aw_live w\<rparr>)
          | Inl e \<Rightarrow> (Inl e, drop_listeners env all (snd (remove_token env token_path w)))))"

text \<open>From the started process to confirmed rules; a failure does not clean up yet.\<close>

definition publish_first :: "app_env \<Rightarrow> app_rule list \<Rightarrow> group_entry list \<Rightarrow> app_world \<Rightarrow> (string + u64) \<times> app_world" where
  "publish_first env compiled groups w =
     try_then (ask env (q_client env) w) (\<lambda>_ w.
     try_then (wait_ready env 151 w) (\<lambda>_ w.
     let (r, w) = ask env (\<lambda>t. q_put_rules env t \<lparr>expected_version = 0, request_rules = compiled,
            request_groups = groups\<rparr>) w
     in (case r of
           NoReply e \<Rightarrow> (Inl e, w)
         | Reply code body \<Rightarrow>
             if \<not> is_success code then (Inl (''helper rejected rules: '' @ show_nat code), w)
             else (case body of
                     Inl e \<Rightarrow> (Inl (''decode rule version: '' @ e), w)
                   | Inr result \<Rightarrow> (case Option.bind (jget result ''effective_version'') j_u64 of
                         None \<Rightarrow> (Inl ''helper did not publish an effective rule version'', w)
                       | Some version \<Rightarrow>
                           try_then (wait_rules_applied env 61 (Some compiled) groups version w) (\<lambda>_ w.
                             (Inr version, w)))))))"

definition activate_helper :: "app_env \<Rightarrow> app_rule list \<Rightarrow> app_rule list \<Rightarrow> group_entry list \<Rightarrow> u32 \<Rightarrow> string
    \<Rightarrow> listener_spec list \<Rightarrow> app_world \<Rightarrow> (string + u64) \<times> app_world" where
  "activate_helper env rules compiled groups pid token_path all w =
     (case try_then (publish_first env compiled groups w) (\<lambda>version w.
             try_then (case save_rules_to_disk env rules w of
                 (Inl e, w) \<Rightarrow> (Inl (''persist application rules after helper activation: '' @ e), w)
               | (Inr _, w) \<Rightarrow> (Inr (), w)) (\<lambda>_ w. (Inr version, w\<lparr>aw_rules := rules\<rparr>))) of
        (Inl e, w) \<Rightarrow> (Inl e, cleanup_failed env pid token_path all w)
      | (Inr version, w) \<Rightarrow> (Inr version, w))"

definition show_port :: "u16 \<Rightarrow> string" where
  "show_port port = show_nat (unat port)"

definition launch_helper :: "app_env \<Rightarrow> app_rule list \<Rightarrow> app_rule list \<Rightarrow> group_entry list \<Rightarrow> listener_map
    \<Rightarrow> listener_spec \<Rightarrow> app_world \<Rightarrow> (string + managed_helper) \<times> app_world" where
  "launch_helper env rules compiled groups listeners primary w =
     (let all = map snd listeners
      in (case prepare_helper env groups w of
            (Inl e, w) \<Rightarrow> (Inl e, drop_listeners env all w)
          | (Inr (token_path, token), w) \<Rightarrow>
              try_then (spawn_helper env token_path all w) (\<lambda>pid w.
              try_then (activate_helper env rules compiled groups pid token_path all w) (\<lambda>version w.
                (Inr \<lparr>h_process = pid, h_token_path = token_path, h_token = token, h_rules = compiled,
                   h_listener = ''127.0.0.1:'' @ show_port (spec_port primary), h_listener_name = spec_name primary,
                   h_extra = filter (\<lambda>(g, _). g \<noteq> ''regular'') listeners, h_group = ''regular'',
                   h_version = version, h_failed = False\<rparr>, w)))))"

definition stage_start :: "app_env \<Rightarrow> app_rule list \<Rightarrow> app_world
    \<Rightarrow> (string + listener_spec \<times> listener_map \<times> app_rule list \<times> group_entry list) \<times> app_world" where
  "stage_start env rules w =
     try_then (strategy_binding env ''regular'' w) (\<lambda>binding w.
     try_then (bind_groups env (required_groups rules ''regular'') w) (\<lambda>_ w.
     try_then (allocate_listener_port env w) (\<lambda>port w.
     let primary = \<lparr>spec_name = primary_name env, spec_port = port, spec_group = binding\<rparr>
     in try_then (stage_groups env (required_groups rules ''regular'') [(''regular'', primary)] w) (\<lambda>listeners w.
        (map_sum (\<lambda>e. e) (\<lambda>(compiled, groups). (primary, listeners, compiled, groups))
           (compile_rules rules ''regular'' listeners), w)))))"

text \<open>The helper is installed: the start counts only when the status report says so.\<close>

definition confirm_start :: "app_env \<Rightarrow> managed_helper \<Rightarrow> app_world \<Rightarrow> (string + app_status) \<times> app_world" where
  "confirm_start env h w =
     (let w = w\<lparr>aw_helper := Some h, aw_running := True\<rparr>;
          (status, w) = app_status_of env w
      in if \<not> st_proxy_ready status
         then (Inl ''application proxy did not reach full readiness after rule activation'', snd (stop_inner env True w))
         else (case save_resume_intent env True w of
                 (Inl e, w) \<Rightarrow> (Inl e, snd (stop_inner env True w))
               | (Inr _, w) \<Rightarrow> (Inr status, w)))"

definition start_staged :: "app_env \<Rightarrow> app_rule list
    \<Rightarrow> listener_spec \<times> listener_map \<times> app_rule list \<times> group_entry list \<Rightarrow> app_world \<Rightarrow> (string + app_status) \<times> app_world" where
  "start_staged env rules = (\<lambda>(primary, listeners, compiled, groups) w.
     let all = map snd listeners; w = w\<lparr>aw_desired := all\<rparr>
     in try_then (configure_all env all all w) (\<lambda>_ w.
        let (ready, w) = ask env (q_connect env) w
        in if \<not> ready
           then (Inl (''managed Mihomo listener is not ready: 127.0.0.1:'' @ show_port (spec_port primary)),
                 drop_listeners env all w)
           else try_then (launch_helper env rules compiled groups listeners primary w) (confirm_start env)))"

definition start_inner :: "app_env \<Rightarrow> start_request \<Rightarrow> app_world \<Rightarrow> (string + app_status) \<times> app_world" where
  "start_inner env request w =
     (if aw_helper w \<noteq> None then (Inl ''app proxy helper is already running'', w)
      else let rules = effective_rules request (aw_rules w)
           in if \<not> list_ex rule_enabled rules then (Inl ''no enabled process proxy rules configured'', w)
              else let (api_free, w) = ask env (q_api_free env) w
                   in if \<not> api_free then (Inl ''Clew helper API port 18080 is already occupied'', w)
                      else try_then (stage_start env rules w) (start_staged env rules))"

definition clear_startup_error :: "app_world \<Rightarrow> app_world" where
  "clear_startup_error w = w\<lparr>aw_error := None\<rparr>"

definition app_start :: "app_env \<Rightarrow> start_request \<Rightarrow> app_world \<Rightarrow> (string + app_status) \<times> app_world" where
  "app_start env request w =
     (case start_inner env request (clear_startup_error w) of
        (Inl e, w) \<Rightarrow> (Inl e, w\<lparr>aw_error := Some e\<rparr>)
      | (Inr s, w) \<Rightarrow> (Inr s, w))"

definition resume_after_startup :: "app_env \<Rightarrow> app_world \<Rightarrow> app_world" where
  "resume_after_startup env w =
     (if \<not> aw_resume w then w
      else snd (app_start env \<lparr>req_cmdline = [], req_group = ''regular'', req_rules = None\<rparr> w))"

subsection \<open>Changing rules\<close>

datatype publish_error = Rejected string | Uncertain string

definition apply_rules_to_helper :: "app_env \<Rightarrow> app_rule list \<Rightarrow> group_entry list \<Rightarrow> u64 \<Rightarrow> app_world
    \<Rightarrow> (publish_error + u64) \<times> app_world" where
  "apply_rules_to_helper env rules groups version w =
     (let (r, w) = ask env (\<lambda>t. q_put_rules env t \<lparr>expected_version = version, request_rules = rules,
            request_groups = groups\<rparr>) w
      in (case r of
            NoReply e \<Rightarrow> Inl (Uncertain (''send rules update to helper: '' @ e))
          | Reply code body \<Rightarrow>
              if \<not> is_success code then
                let error = ''helper rejected rules update (status '' @ show_nat code @ '')''
                in Inl (if code = 400 then Rejected error else Uncertain error)
              else (case body of
                      Inl e \<Rightarrow> Inl (Uncertain (''decode rules response: '' @ e))
                    | Inr result \<Rightarrow> (case Option.bind (jget result ''effective_version'') j_u64 of
                          None \<Rightarrow> Inl (Uncertain ''helper response missing effective_version'')
                        | Some effective \<Rightarrow> Inr effective)), w))"

definition mark_failed :: "app_world \<Rightarrow> app_world" where
  "mark_failed w = w\<lparr>aw_helper := map_option (\<lambda>h. h\<lparr>h_failed := True\<rparr>) (aw_helper w)\<rparr>"

text \<open>Undo the staged listeners after \<open>error\<close>; when that fails the helper counts as failed.\<close>

definition unstage_or_fail :: "app_env \<Rightarrow> listener_map \<Rightarrow> listener_spec list \<Rightarrow> string \<Rightarrow> string \<Rightarrow> app_world
    \<Rightarrow> (string + 'a) \<times> app_world" where
  "unstage_or_fail env old staged ctx error w =
     (case restore_staged_listeners env old staged w of
        (Inl cleanup_error, w) \<Rightarrow> (Inl (ctx @ '': '' @ cleanup_error), mark_failed w)
      | (Inr _, w) \<Rightarrow> (Inl error, w))"

fun stage_new_groups :: "app_env \<Rightarrow> string list \<Rightarrow> listener_map \<Rightarrow> listener_spec list \<Rightarrow> app_world
    \<Rightarrow> (string + listener_map \<times> listener_spec list) \<times> app_world" where
  "stage_new_groups env [] listeners staged w = (Inr (listeners, staged), w)"
| "stage_new_groups env (g # gs) listeners staged w =
     (if map_of listeners g \<noteq> None then stage_new_groups env gs listeners staged w
      else try_then (strategy_binding env g w) (\<lambda>binding w.
           let name = extra_name env w; (_, w) = ask env (\<lambda>_. ()) w
           in try_then (allocate_unused_listener_port env listeners w) (\<lambda>port w.
              let spec = \<lparr>spec_name = name, spec_port = port, spec_group = binding\<rparr>
              in stage_new_groups env gs (btree_insert g spec listeners) (staged @ [spec]) w)))"

fun configure_staged :: "app_env \<Rightarrow> listener_map \<Rightarrow> listener_spec list \<Rightarrow> listener_spec list \<Rightarrow> app_world
    \<Rightarrow> (string + unit) \<times> app_world" where
  "configure_staged env old staged [] w = (Inr (), w)"
| "configure_staged env old staged (spec # specs) w =
     (let (r, w) = configure_listener env spec w;
          (ready, w) = (if is_ok r \<and> loaded w spec then ask env (q_connect env) w else (False, w))
      in if ready then configure_staged env old staged specs w
         else unstage_or_fail env old staged ''restore previous listeners after staging failure''
                (case r of Inl e \<Rightarrow> e | Inr _ \<Rightarrow> ''managed listener did not become ready'') w)"

definition old_listeners_of :: "managed_helper \<Rightarrow> u16 \<Rightarrow> string option \<Rightarrow> listener_map" where
  "old_listeners_of h port binding =
     fold (\<lambda>(g, spec). btree_insert g spec) (h_extra h)
       [(h_group h, \<lparr>spec_name = h_listener_name h, spec_port = port, spec_group = binding\<rparr>)]"

definition publish_update :: "app_env \<Rightarrow> managed_helper \<Rightarrow> app_rule list \<Rightarrow> group_entry list \<Rightarrow> listener_map
    \<Rightarrow> listener_spec list \<Rightarrow> app_world \<Rightarrow> (string + u64) \<times> app_world" where
  "publish_update env h compiled groups old staged w =
     (case ask env (q_client env) w of
        (Inl error, w) \<Rightarrow> unstage_or_fail env old staged ''restore previous listeners after HTTP client failure'' error w
      | (Inr _, w) \<Rightarrow>
          (case apply_rules_to_helper env compiled groups (h_version h) w of
             (Inr version, w) \<Rightarrow> (Inr version, w)
           | (Inl (Rejected error), w) \<Rightarrow>
               (let (observed, w) = observed_rules_revision env w
                in if observed = Some (h_version h)
                   then unstage_or_fail env old staged ''restore previous listeners after rejected rules'' error w
                   else (Inl error, mark_failed w))
           | (Inl (Uncertain error), w) \<Rightarrow>
               (let (observed, w) = observed_rules_revision env w in (Inl error, mark_failed w))))"

text \<open>The new rules could not be saved: the helper gets the old ones back, or counts as failed.\<close>

definition roll_back_rules :: "app_env \<Rightarrow> managed_helper \<Rightarrow> group_entry list \<Rightarrow> u64 \<Rightarrow> listener_map
    \<Rightarrow> listener_spec list \<Rightarrow> string \<Rightarrow> app_world \<Rightarrow> (string + unit) \<times> app_world" where
  "roll_back_rules env h old_groups version old staged error w =
     (case apply_rules_to_helper env (h_rules h) old_groups version w of
        (Inr old_version, w) \<Rightarrow>
          (case wait_rules_applied env 61 (Some (h_rules h)) old_groups old_version w of
             (Inr _, w) \<Rightarrow>
               (case restore_staged_listeners env old staged w of
                  (Inl cleanup_error, w) \<Rightarrow>
                    (Inl (''restore previous listeners after persistence failure: '' @ cleanup_error), mark_failed w)
                | (Inr _, w) \<Rightarrow> (Inl (''persist application rules: '' @ error),
                    w\<lparr>aw_helper := map_option (\<lambda>h. h\<lparr>h_version := old_version\<rparr>) (aw_helper w)\<rparr>))
           | (Inl _, w) \<Rightarrow> (Inl (''persist application rules: '' @ error), mark_failed w))
      | (Inl _, w) \<Rightarrow> (Inl (''persist application rules: '' @ error), mark_failed w))"

fun retire_obsolete :: "app_env \<Rightarrow> string list \<Rightarrow> app_world \<Rightarrow> (string + unit) \<times> app_world" where
  "retire_obsolete env [] w = (Inr (), w)"
| "retire_obsolete env (name # names) w =
     (case remove_listener env name w of
        (Inl error, w) \<Rightarrow> (Inl (''retire obsolete managed listener: '' @ error), mark_failed w)
      | (Inr _, w) \<Rightarrow> retire_obsolete env names w)"

definition commit_rules :: "app_env \<Rightarrow> managed_helper \<Rightarrow> app_rule list \<Rightarrow> app_rule list \<Rightarrow> u64 \<Rightarrow> listener_map
    \<Rightarrow> listener_map \<Rightarrow> app_world \<Rightarrow> (string + unit) \<times> app_world" where
  "commit_rules env h new_rules compiled version old listeners w =
     (let extra = filter (\<lambda>(g, _). g \<noteq> h_group h \<and> g \<in> set (required_groups new_rules (h_group h))) listeners;
          w = w\<lparr>aw_rules := new_rules,
                aw_helper := Some (h\<lparr>h_version := version, h_rules := compiled, h_extra := extra\<rparr>)\<rparr>
      in (case map_of old (h_group h) of
            None \<Rightarrow> (Inl ''missing primary listener'', w)
          | Some primary_spec \<Rightarrow>
              let w = w\<lparr>aw_desired := primary_spec # map snd extra\<rparr>
              in retire_obsolete env (map (spec_name \<circ> snd)
                   (filter (\<lambda>(g, _). g \<noteq> h_group h \<and> map_of extra g = None) old)) w))"

definition update_running_rules :: "app_env \<Rightarrow> managed_helper \<Rightarrow> app_rule list \<Rightarrow> app_world \<Rightarrow> (string + unit) \<times> app_world" where
  "update_running_rules env h new_rules w =
     (let primary = h_group h; required = required_groups new_rules primary
      in try_then (bind_groups env required w) (\<lambda>_ w.
         case listener_port (h_listener h) of
           None \<Rightarrow> (Inl ''invalid primary listener'', w)
         | Some port \<Rightarrow>
             try_then (strategy_binding env primary w) (\<lambda>binding w.
             let old = old_listeners_of h port binding
             in try_then (stage_new_groups env required old [] w) (\<lambda>(listeners, staged) w.
                try_then (compile_rules new_rules primary listeners, w) (\<lambda>(compiled, groups) w.
                try_then (compile_rules (h_rules h) primary old, w) (\<lambda>(_, old_groups) w.
                try_then (configure_staged env old staged staged (w\<lparr>aw_desired := map snd listeners\<rparr>)) (\<lambda>_ w.
                try_then (publish_update env h compiled groups old staged w) (\<lambda>version w.
                case wait_rules_applied env 61 (Some compiled) groups version w of
                  (Inl error, w) \<Rightarrow> (Inl (''confirm new application rules: '' @ error), mark_failed w)
                | (Inr _, w) \<Rightarrow>
                    (case save_rules_to_disk env new_rules w of
                       (Inl error, w) \<Rightarrow> roll_back_rules env h old_groups version old staged error w
                     | (Inr _, w) \<Rightarrow> commit_rules env h new_rules compiled version old listeners w)))))))))"

definition set_rules_locked :: "app_env \<Rightarrow> app_rule list \<Rightarrow> app_world \<Rightarrow> (string + app_status) \<times> app_world" where
  "set_rules_locked env new_rules w =
     (let (r, w) = (case aw_helper w of
            Some h \<Rightarrow>
              (if h_failed h then (Inl ''application proxy is not ready for rule updates'', w)
               else let (alive, w) = process_alive env (h_process h) w
                    in if \<not> alive then (Inl ''application proxy is not ready for rule updates'', w)
                       else update_running_rules env h new_rules w)
          | None \<Rightarrow>
              (let validation = map (\<lambda>g. (g, \<lparr>spec_name = g, spec_port = 0, spec_group = None\<rparr>))
                     (required_groups new_rules ''regular'')
               in try_then (compile_rules new_rules ''regular'' validation, w) (\<lambda>_ w.
                  try_then (save_rules_to_disk env new_rules w) (\<lambda>_ w. (Inr (), w\<lparr>aw_rules := new_rules\<rparr>)))))
      in (case r of
            Inl e \<Rightarrow> (Inl e, w)
          | Inr _ \<Rightarrow> (let (s, w) = app_status_of env w in (Inr s, w))))"

definition settle_rule_update :: "app_env \<Rightarrow> (string + app_status) \<times> app_world \<Rightarrow> (string + app_status) \<times> app_world" where
  "settle_rule_update env r =
     (case r of
        (Inr s, w) \<Rightarrow> (Inr s, w)
      | (Inl error, w) \<Rightarrow>
          if (case aw_helper w of Some h \<Rightarrow> h_failed h | None \<Rightarrow> False)
          then let w = w\<lparr>aw_error := Some (''rule update stopped after an uncertain helper state: '' @ error)\<rparr>
               in (case stop_inner env True w of
                     (Inl e, w) \<Rightarrow> (Inl (''stop faulted application proxy: '' @ e), w)
                   | (Inr _, w) \<Rightarrow> (Inl error, w))
          else (Inl error, w))"

definition set_rules :: "app_env \<Rightarrow> app_rule list \<Rightarrow> app_world \<Rightarrow> (string + app_status) \<times> app_world" where
  "set_rules env new_rules w = settle_rule_update env (set_rules_locked env new_rules w)"

fun replace_rule :: "app_rule \<Rightarrow> app_rule list \<Rightarrow> app_rule list" where
  "replace_rule rule [] = [rule]"
| "replace_rule rule (r # rs) = (if rule_id r = rule_id rule then rule # rs else r # replace_rule rule rs)"

definition add_or_update_rule :: "app_env \<Rightarrow> app_rule \<Rightarrow> app_world \<Rightarrow> (string + app_status) \<times> app_world" where
  "add_or_update_rule env rule w = set_rules env (replace_rule rule (aw_rules w)) w"

definition remove_rule :: "app_env \<Rightarrow> string \<Rightarrow> app_world \<Rightarrow> (string + app_status) \<times> app_world" where
  "remove_rule env i w = set_rules env (filter (\<lambda>r. rule_id r \<noteq> i) (aw_rules w)) w"

fun enable_first :: "string \<Rightarrow> bool \<Rightarrow> app_rule list \<Rightarrow> app_rule list" where
  "enable_first i enabled [] = []"
| "enable_first i enabled (r # rs) =
     (if rule_id r = i then r\<lparr>rule_enabled := enabled\<rparr> # rs else r # enable_first i enabled rs)"

definition toggle_rule :: "app_env \<Rightarrow> string \<Rightarrow> bool \<Rightarrow> app_world \<Rightarrow> (string + app_status) \<times> app_world" where
  "toggle_rule env i enabled w = set_rules env (enable_first i enabled (aw_rules w)) w"

definition set_app_proxy_strategy :: "app_env \<Rightarrow> string \<Rightarrow> app_world \<Rightarrow> (string + app_status) \<times> app_world" where
  "set_app_proxy_strategy env g w = set_rules env (map (\<lambda>r. r\<lparr>strategy_group := g\<rparr>) (aw_rules w)) w"

end
