(* ===== verification/AppProxyProps.thy ===== *)
theory AppProxyProps
  imports AppProxy
begin

section \<open>Properties of the application proxy\<close>

text \<open>
  What the operations of the application proxy guarantee.  Most steps only ask the outside and edit the
  runtime configuration; \<open>core_of\<close> is the world without these, and \<open>quiet\<close> says that a step leaves it alone.
\<close>

definition core_of :: "app_world \<Rightarrow> app_world" where
  "core_of w = w\<lparr>aw_runtime := None, aw_tick := 0\<rparr>"

definition quiet :: "'r \<times> app_world \<Rightarrow> app_world \<Rightarrow> bool" where
  "quiet r w = (core_of (snd r) = core_of w)"

lemma core_of_sel:
  "aw_helper (core_of w) = aw_helper w" "aw_desired (core_of w) = aw_desired w" "aw_error (core_of w) = aw_error w"
  "aw_rules (core_of w) = aw_rules w" "aw_running (core_of w) = aw_running w" "aw_disk_rules (core_of w) = aw_disk_rules w"
  "aw_resume (core_of w) = aw_resume w" "aw_tokens (core_of w) = aw_tokens w" "aw_live (core_of w) = aw_live w"
  by (simp_all add: core_of_def)

lemma core_of_fields:
  assumes "core_of w' = core_of w"
  shows "aw_helper w' = aw_helper w" and "aw_desired w' = aw_desired w" and "aw_error w' = aw_error w"
     and "aw_rules w' = aw_rules w" and "aw_running w' = aw_running w" and "aw_disk_rules w' = aw_disk_rules w"
     and "aw_resume w' = aw_resume w" and "aw_tokens w' = aw_tokens w" and "aw_live w' = aw_live w"
  using core_of_sel [of w] core_of_sel [of w'] unfolding assms by simp_all

lemma core_of_update:
  "core_of (w\<lparr>aw_runtime := m\<rparr>) = core_of w" "core_of (w\<lparr>aw_desired := d\<rparr>) = (core_of w)\<lparr>aw_desired := d\<rparr>"
  "core_of (w\<lparr>aw_helper := h\<rparr>) = (core_of w)\<lparr>aw_helper := h\<rparr>"
  by (simp_all add: core_of_def)

named_theorems quiet_steps \<open>steps that leave the core of the world alone\<close>

lemma quiet_ret: "core_of w' = core_of w \<Longrightarrow> quiet (x, w') w"
  by (simp add: quiet_def)

lemma quiet_pair: "quiet (x, w') w \<longleftrightarrow> core_of w' = core_of w"
  by (simp add: quiet_def)

lemma quiet_ask [quiet_steps]: "core_of w' = core_of w \<Longrightarrow> quiet (ask env q w') w"
  by (simp add: quiet_def ask_def core_of_def)

lemma quiet_try: "quiet r w \<Longrightarrow> (\<And>v w'. core_of w' = core_of w \<Longrightarrow> quiet (k v w') w) \<Longrightarrow> quiet (try_then r k) w"
  by (cases r; cases "fst r") (auto simp: try_then_def quiet_def)

lemma quiet_let: "quiet r w \<Longrightarrow> (\<And>v w'. core_of w' = core_of w \<Longrightarrow> quiet (k v w') w) \<Longrightarrow> quiet (case r of (v, w') \<Rightarrow> k v w') w"
  by (cases r) (simp add: quiet_def)

lemma quiet_cases:
  "(P \<Longrightarrow> quiet a w) \<Longrightarrow> (\<not> P \<Longrightarrow> quiet b w) \<Longrightarrow> quiet (if P then a else b) w"
  "(\<And>e. x = Inl e \<Longrightarrow> quiet (f e) w) \<Longrightarrow> (\<And>v. x = Inr v \<Longrightarrow> quiet (g v) w) \<Longrightarrow> quiet (case x of Inl e \<Rightarrow> f e | Inr v \<Rightarrow> g v) w"
  "(y = None \<Longrightarrow> quiet c w) \<Longrightarrow> (\<And>v. y = Some v \<Longrightarrow> quiet (h v) w) \<Longrightarrow> quiet (case y of None \<Rightarrow> c | Some v \<Rightarrow> h v) w"
  "(\<And>a b. z = (a, b) \<Longrightarrow> quiet (l a b v') w) \<Longrightarrow> quiet ((case z of (a, b) \<Rightarrow> l a b) v') w"
proof -
  show "(P \<Longrightarrow> quiet a w) \<Longrightarrow> (\<not> P \<Longrightarrow> quiet b w) \<Longrightarrow> quiet (if P then a else b) w" by simp
  show "(\<And>e. x = Inl e \<Longrightarrow> quiet (f e) w) \<Longrightarrow> (\<And>v. x = Inr v \<Longrightarrow> quiet (g v) w)
    \<Longrightarrow> quiet (case x of Inl e \<Rightarrow> f e | Inr v \<Rightarrow> g v) w" by (cases x) simp_all
  show "(y = None \<Longrightarrow> quiet c w) \<Longrightarrow> (\<And>v. y = Some v \<Longrightarrow> quiet (h v) w)
    \<Longrightarrow> quiet (case y of None \<Rightarrow> c | Some v \<Rightarrow> h v) w" by (cases y) simp_all
  show "(\<And>a b. z = (a, b) \<Longrightarrow> quiet (l a b v') w) \<Longrightarrow> quiet ((case z of (a, b) \<Rightarrow> l a b) v') w" by (cases z) simp
qed

lemmas quiet_intros = quiet_try quiet_let quiet_cases quiet_ret quiet_steps

lemma quiet_update_runtime [quiet_steps]: "core_of w' = core_of w \<Longrightarrow> quiet (update_runtime_config env f w') w"
  unfolding update_runtime_config_def Let_def
  by (intro quiet_intros) (simp_all add: core_of_update)

lemma quiet_configure_listener [quiet_steps]: "core_of w' = core_of w \<Longrightarrow> quiet (configure_listener env spec w') w"
  unfolding configure_listener_def by (intro quiet_intros quiet_update_runtime)

lemma quiet_remove_listener [quiet_steps]: "core_of w' = core_of w \<Longrightarrow> quiet (remove_listener env name w') w"
  unfolding remove_listener_def by (intro quiet_intros quiet_update_runtime)

lemma quiet_strategy_binding [quiet_steps]: "core_of w' = core_of w \<Longrightarrow> quiet (strategy_binding env name w') w"
  unfolding strategy_binding_def Let_def by (intro quiet_intros)

lemma quiet_bind_groups [quiet_steps]: "core_of w' = core_of w \<Longrightarrow> quiet (bind_groups env gs w') w"
  by (induction gs arbitrary: w') (simp_all add: quiet_pair, intro quiet_intros quiet_strategy_binding)

lemma quiet_allocate [quiet_steps]: "core_of w' = core_of w \<Longrightarrow> quiet (allocate_loop env n listeners w') w"
  by (induction n arbitrary: w') (simp_all add: quiet_pair allocate_listener_port_def, intro quiet_intros)

lemma quiet_allocate_unused [quiet_steps]:
  "core_of w' = core_of w \<Longrightarrow> quiet (allocate_unused_listener_port env listeners w') w"
  unfolding allocate_unused_listener_port_def by (rule quiet_allocate)

lemma quiet_wait_ready [quiet_steps]: "core_of w' = core_of w \<Longrightarrow> quiet (wait_ready env n w') w"
proof (induction n arbitrary: w')
  case (Suc n)
  then show ?case unfolding wait_ready.simps Let_def by (intro quiet_intros Suc.IH)
qed (simp add: quiet_pair)

lemma quiet_revision [quiet_steps]: "core_of w' = core_of w \<Longrightarrow> quiet (observed_rules_revision env w') w"
  unfolding observed_rules_revision_def Let_def by (intro quiet_intros)

lemma quiet_wait_rules [quiet_steps]: "core_of w' = core_of w \<Longrightarrow> quiet (wait_rules_applied env n rs gs v w') w"
proof (induction n arbitrary: w')
  case (Suc n)
  then show ?case unfolding wait_rules_applied.simps Let_def by (intro quiet_intros quiet_revision Suc.IH)
qed (simp add: quiet_pair)

lemma quiet_apply_rules [quiet_steps]: "core_of w' = core_of w \<Longrightarrow> quiet (apply_rules_to_helper env rules groups v w') w"
  unfolding apply_rules_to_helper_def Let_def by (intro quiet_intros)

lemma quiet_publish_first [quiet_steps]: "core_of w' = core_of w \<Longrightarrow> quiet (publish_first env compiled groups w') w"
  unfolding publish_first_def Let_def
  by (intro quiet_intros quiet_wait_ready quiet_wait_rules) (auto split: reply.splits intro!: quiet_intros quiet_wait_rules)

lemma quiet_stage_groups [quiet_steps]: "core_of w' = core_of w \<Longrightarrow> quiet (stage_groups env gs listeners w') w"
proof (induction gs arbitrary: listeners w')
  case (Cons g gs)
  have "core_of (snd (ask env (\<lambda>_. ()) v)) = core_of w" if "core_of v = core_of w" for v
    using quiet_ask [OF that] by (simp add: quiet_def)
  with Cons show ?case unfolding stage_groups.simps Let_def by (intro quiet_intros quiet_allocate_unused Cons.IH)
qed (simp add: quiet_pair)

lemma quiet_stage_new [quiet_steps]: "core_of w' = core_of w \<Longrightarrow> quiet (stage_new_groups env gs listeners staged w') w"
proof (induction gs arbitrary: listeners staged w')
  case (Cons g gs)
  then show ?case
    unfolding stage_new_groups.simps Let_def by (intro quiet_intros quiet_strategy_binding quiet_allocate_unused Cons.IH)
qed (simp add: quiet_pair)

lemma quiet_stage_start [quiet_steps]: "core_of w' = core_of w \<Longrightarrow> quiet (stage_start env rules w') w"
  unfolding stage_start_def Let_def allocate_listener_port_def
  by (intro quiet_intros quiet_strategy_binding quiet_bind_groups quiet_stage_groups)

lemma quiet_remove_names [quiet_steps]: "core_of w' = core_of w \<Longrightarrow> quiet (remove_names env names e w') w"
proof (induction names arbitrary: e w')
  case (Cons n names)
  then show ?case unfolding remove_names.simps Let_def by (intro quiet_intros quiet_remove_listener Cons.IH)
qed (simp add: quiet_pair)

lemma quiet_helper_report [quiet_steps]: "core_of w' = core_of w \<Longrightarrow> quiet (helper_report env w') w"
  unfolding helper_report_def Let_def by (intro quiet_intros)

lemma quiet_extra_loaded [quiet_steps]: "core_of w' = core_of w \<Longrightarrow> quiet (extra_loaded env extra ok w') w"
proof (induction extra arbitrary: ok w')
  case (Cons p extra)
  obtain g spec where p: "p = (g, spec)" by (rule prod.exhaust)
  from Cons show ?case
    unfolding p extra_loaded.simps Let_def by (intro quiet_intros quiet_strategy_binding Cons.IH)
qed (simp add: quiet_pair)

lemma quiet_live_status [quiet_steps]: "core_of w' = core_of w \<Longrightarrow> quiet (live_status env h e w') w"
  unfolding live_status_def Let_def
  by (intro quiet_intros quiet_helper_report quiet_strategy_binding quiet_extra_loaded)

subsection \<open>What the other steps change\<close>

lemma core_of_remove: "core_of (snd (remove_listener env name w)) = core_of w"
  using quiet_remove_listener [OF refl] by (simp add: quiet_def)

lemma core_of_fold_remove: "core_of (fold (\<lambda>name w. snd (remove_listener env name w)) names w) = core_of w"
  by (induction names arbitrary: w) (simp_all add: core_of_remove)

lemma core_of_desired: "core_of (w\<lparr>aw_desired := d\<rparr>) = (core_of w)\<lparr>aw_desired := d\<rparr>"
  by (simp add: core_of_def)

lemma drop_listeners_core:
  "core_of (drop_listeners env specs w) = (core_of w)\<lparr>aw_desired := filter (\<lambda>s. spec_name s \<notin> spec_name ` set specs) (aw_desired w)\<rparr>"
proof (induction specs arbitrary: w)
  case (Cons spec specs)
  let ?w = "drop_listener env spec w"
  have c: "core_of ?w = (core_of w)\<lparr>aw_desired := clear_desired (spec_name spec) (aw_desired w)\<rparr>"
    by (simp add: drop_listener_def core_of_remove core_of_desired)
  then have d: "aw_desired ?w = clear_desired (spec_name spec) (aw_desired w)"
    using core_of_sel(2) [of ?w] by simp
  have f: "filter (\<lambda>s. spec_name s \<notin> spec_name ` set specs) (clear_desired (spec_name spec) (aw_desired w))
      = filter (\<lambda>s. spec_name s \<notin> spec_name ` set (spec # specs)) (aw_desired w)"
    by (auto simp: clear_desired_def intro: filter_cong)
  show ?case using Cons [of ?w] unfolding c d f by (simp add: drop_listeners_def)
qed (simp add: drop_listeners_def core_of_def)

lemma configure_all_core:
  assumes "configure_all env all specs w = (r, w')"
  shows "core_of w' = (if is_ok r then core_of w
    else (core_of w)\<lparr>aw_desired := filter (\<lambda>s. spec_name s \<notin> spec_name ` set all) (aw_desired w)\<rparr>)"
  using assms
proof (induction specs arbitrary: w)
  case (Cons spec specs)
  obtain r1 w1 where c: "configure_listener env spec w = (r1, w1)" by (rule prod.exhaust)
  then have k1: "core_of w1 = core_of w" using quiet_configure_listener [OF refl, of env spec w] by (simp add: quiet_def)
  obtain ready w2 where a: "(if is_ok r1 \<and> loaded w1 spec then ask env (q_connect env) w1 else (False, w1)) = (ready, w2)"
    by (rule prod.exhaust)
  have k2: "core_of w2 = core_of w"
    using quiet_ask [OF k1, of env "q_connect env"] a k1 by (auto simp: quiet_def split: if_splits)
  show ?case
  proof (cases ready)
    case True
    with Cons.prems c a have "configure_all env all specs w2 = (r, w')" by simp
    with Cons.IH k2 core_of_fields(2) [OF k2] show ?thesis by simp
  next
    case False
    with Cons.prems c a have "r = Inl (case r1 of Inl e \<Rightarrow> e | Inr _ \<Rightarrow> ''managed Mihomo listener is not ready'')"
      "w' = drop_listeners env all w2" by auto
    with drop_listeners_core [of env all w2] k2 core_of_fields(2) [OF k2] show ?thesis by simp
  qed
qed auto

lemma core_of_ask: "core_of (snd (ask env q w)) = core_of w"
  by (simp add: ask_def core_of_def)

lemma core_of_other_updates:
  "core_of (w\<lparr>aw_tokens := t\<rparr>) = (core_of w)\<lparr>aw_tokens := t\<rparr>" "core_of (w\<lparr>aw_live := l\<rparr>) = (core_of w)\<lparr>aw_live := l\<rparr>"
  "core_of (w\<lparr>aw_rules := rs\<rparr>) = (core_of w)\<lparr>aw_rules := rs\<rparr>" "core_of (w\<lparr>aw_disk_rules := rs\<rparr>) = (core_of w)\<lparr>aw_disk_rules := rs\<rparr>"
  "core_of (w\<lparr>aw_running := b\<rparr>) = (core_of w)\<lparr>aw_running := b\<rparr>" "core_of (w\<lparr>aw_error := e\<rparr>) = (core_of w)\<lparr>aw_error := e\<rparr>"
  "core_of (w\<lparr>aw_resume := b\<rparr>) = (core_of w)\<lparr>aw_resume := b\<rparr>"
  by (simp_all add: core_of_def)

lemma remove_token_core:
  "core_of (snd (remove_token env p w)) = (core_of w)\<lparr>aw_tokens :=
     (if is_ok (fst (remove_token env p w)) then removeAll p (aw_tokens w) else aw_tokens w)\<rparr>"
  by (cases "q_remove_token env (aw_tick w)")
    (simp_all add: remove_token_def ask_def try_then_def core_of_def)

text \<open>An outside that answers: exit codes can be read, credentials removed, and half-written ones leave nothing.\<close>

definition tidy :: "app_env \<Rightarrow> bool" where
  "tidy env = (\<forall>t. (\<forall>e. q_exit_code env t \<noteq> Inl e) \<and> is_ok (q_remove_token env t)
     \<and> (\<forall>left e. q_write_token env t = TokenFailed left e \<longrightarrow> left = None))"

lemma tidy_remove: "tidy env \<Longrightarrow> is_ok (fst (remove_token env p w))"
proof -
  assume "tidy env"
  then have "is_ok (q_remove_token env (aw_tick w))" unfolding tidy_def by blast
  then show ?thesis by (cases "q_remove_token env (aw_tick w)") (simp_all add: remove_token_def ask_def try_then_def)
qed

text \<open>What a failed attempt may leave behind, against the world it started from.\<close>

definition given_up :: "app_env \<Rightarrow> listener_spec list \<Rightarrow> app_world \<Rightarrow> app_world \<Rightarrow> bool" where
  "given_up env all w w' \<longleftrightarrow> aw_helper w' = aw_helper w \<and> aw_running w' = aw_running w \<and> aw_rules w' = aw_rules w
     \<and> aw_disk_rules w' = aw_disk_rules w \<and> aw_resume w' = aw_resume w \<and> aw_error w' = aw_error w
     \<and> aw_desired w' = filter (\<lambda>s. spec_name s \<notin> spec_name ` set all) (aw_desired w)
     \<and> set (aw_live w') \<subseteq> set (aw_live w) \<and> (tidy env \<longrightarrow> set (aw_tokens w') \<subseteq> set (aw_tokens w))"

lemma given_upI:
  assumes "core_of w' = (core_of w)\<lparr>aw_live := l, aw_tokens := t,
    aw_desired := filter (\<lambda>s. spec_name s \<notin> spec_name ` set all) (aw_desired w)\<rparr>"
    and "set l \<subseteq> set (aw_live w)" and "tidy env \<Longrightarrow> set t \<subseteq> set (aw_tokens w)"
  shows "given_up env all w w'"
  unfolding given_up_def using core_of_sel [of w'] core_of_sel [of w] assms(2,3) unfolding assms(1) by simp

lemma prepare_core:
  assumes "prepare_helper env groups w = (r, w')"
  shows "(\<exists>path token. r = Inr (path, token) \<and> core_of w' = (core_of w)\<lparr>aw_tokens := path # aw_tokens w\<rparr>)
    \<or> (\<exists>e t. r = Inl e \<and> core_of w' = (core_of w)\<lparr>aw_tokens := t\<rparr> \<and> (tidy env \<longrightarrow> t = aw_tokens w))"
proof -
  have same: "core_of v = (core_of w)\<lparr>aw_tokens := aw_tokens w\<rparr>" if "core_of v = core_of w" for v
    unfolding that by (cases w) (simp add: core_of_def)
  have fin: ?thesis if "core_of w' = core_of w" "r = Inl e" for e
    using same [OF that(1)] that(2) by (intro disjI2 exI [of _ e] exI [of _ "aw_tokens w"]) simp
  have asked: "core_of v = core_of w" if "ask env q u = (x, v)" "core_of u = core_of w" for q x u v
    using core_of_ask [of env q u] that by simp
  from try_then_split [OF assms [unfolded prepare_helper_def]] show ?thesis
  proof (elim disjE exE conjE)
    fix e w1 assume "ask env (q_helper_path env) w = (Inl e, w1)" "r = Inl e" "w' = w1"
    with fin asked [of "q_helper_path env" w "Inl e" w1] show ?thesis by simp
  next
    fix y w1 assume w1: "ask env (q_helper_path env) w = (Inr y, w1)"
      and k: "try_then (ask env (\<lambda>t. q_write_config env t (helper_config groups)) w1) (\<lambda>_ w.
        let (t, w) = ask env (q_write_token env) w
        in (case t of
           TokenWritten path token \<Rightarrow> (Inr (path, token), w\<lparr>aw_tokens := path # aw_tokens w\<rparr>)
         | TokenFailed left e \<Rightarrow> (Inl e, case left of Some path \<Rightarrow> w\<lparr>aw_tokens := path # aw_tokens w\<rparr> | None \<Rightarrow> w))) = (r, w')"
    from w1 have k1: "core_of w1 = core_of w" by (rule asked) simp
    from try_then_split [OF k] show ?thesis
    proof (elim disjE exE conjE)
      fix e w2 assume "ask env (\<lambda>t. q_write_config env t (helper_config groups)) w1 = (Inl e, w2)" "r = Inl e" "w' = w2"
      with fin asked [OF _ k1] show ?thesis by metis
    next
      fix y w2 assume w2: "ask env (\<lambda>t. q_write_config env t (helper_config groups)) w1 = (Inr y, w2)"
        and l: "(let (t, w) = ask env (q_write_token env) w2
        in (case t of
           TokenWritten path token \<Rightarrow> (Inr (path, token), w\<lparr>aw_tokens := path # aw_tokens w\<rparr>)
         | TokenFailed left e \<Rightarrow> (Inl e, case left of Some path \<Rightarrow> w\<lparr>aw_tokens := path # aw_tokens w\<rparr> | None \<Rightarrow> w))) = (r, w')"
      obtain t w3 where t: "ask env (q_write_token env) w2 = (t, w3)" by (rule prod.exhaust)
      have k3: "core_of w3 = core_of w" by (rule asked [OF t asked [OF w2 k1]])
      have q: "t = q_write_token env (aw_tick w2)" using t by (simp add: ask_def)
      show ?thesis
      proof (cases t)
        case (TokenWritten path token)
        with l t k3 core_of_fields(8) [OF k3] show ?thesis by (simp add: core_of_other_updates) (metis core_of_other_updates(1))
      next
        case (TokenFailed left e)
        then have n: "left = None" if "tidy env" using that q unfolding tidy_def by metis
        show ?thesis
        proof (cases left)
          case None
          with l t TokenFailed have "r = Inl e" "w' = w3" by simp_all
          with fin k3 show ?thesis by simp
        next
          case (Some path)
          with l t TokenFailed have "r = Inl e" "w' = w3\<lparr>aw_tokens := path # aw_tokens w3\<rparr>" by simp_all
          moreover have "\<not> tidy env" using n Some by auto
          ultimately show ?thesis using k3 by (auto simp: core_of_other_updates)
        qed
      qed
    qed
  qed
qed

lemma spawn_core:
  assumes "spawn_helper env p all w = (r, w')"
  shows "(\<exists>pid. r = Inr pid \<and> core_of w' = (core_of w)\<lparr>aw_live := pid # aw_live w\<rparr>)
    \<or> (\<exists>e t. r = Inl e \<and> core_of w' = (core_of w)\<lparr>aw_tokens := t,
          aw_desired := filter (\<lambda>s. spec_name s \<notin> spec_name ` set all) (aw_desired w)\<rparr>
        \<and> (tidy env \<longrightarrow> t = removeAll p (aw_tokens w)))"
proof -
  obtain x w1 where a: "ask env (q_spawn env) w = (x, w1)" by (rule prod.exhaust)
  then have k: "core_of w1 = core_of w" using core_of_ask [of env "q_spawn env" w] by simp
  note f = core_of_fields [OF k]
  show ?thesis
  proof (cases x)
    case (Inr pid)
    with assms a k f show ?thesis by (auto simp: spawn_helper_def core_of_other_updates)
  next
    case (Inl e)
    with assms a have r: "r = Inl e" "w' = drop_listeners env all (snd (remove_token env p w1))"
      by (simp_all add: spawn_helper_def)
    have "aw_desired (snd (remove_token env p w1)) = aw_desired w"
      using core_of_sel(2) [of "snd (remove_token env p w1)"] f(2) unfolding remove_token_core k
      by (simp add: core_of_sel)
    then show ?thesis
      unfolding r drop_listeners_core remove_token_core k using tidy_remove [of env p w1] f(8) by auto
  qed
qed

lemma cleanup_core:
  "\<exists>t. core_of (cleanup_failed env pid p all w) = (core_of w)\<lparr>aw_live := removeAll pid (aw_live w), aw_tokens := t,
      aw_desired := filter (\<lambda>s. spec_name s \<notin> spec_name ` set all) (aw_desired w)\<rparr>
    \<and> (tidy env \<longrightarrow> t = removeAll p (aw_tokens w))"
proof -
  define w1 where "w1 = snd (ask env (q_exit_code env) w)"
  define w2 where "w2 = snd (ask env (q_exit_code env) (end_process pid w1))"
  have k1: "core_of w1 = core_of w" unfolding w1_def by (rule core_of_ask)
  have k2: "core_of w2 = (core_of w)\<lparr>aw_live := removeAll pid (aw_live w)\<rparr>"
    unfolding w2_def core_of_ask end_process_def core_of_other_updates k1 core_of_fields(9) [OF k1] ..
  have c: "cleanup_failed env pid p all w = drop_listeners env all (snd (remove_token env p w2))"
    by (simp add: cleanup_failed_def w1_def w2_def Let_def)
  have t2: "aw_tokens w2 = aw_tokens w" "aw_desired w2 = aw_desired w"
    using core_of_sel [of w2] core_of_sel [of w] unfolding k2 by simp_all
  have "aw_desired (snd (remove_token env p w2)) = aw_desired w"
    using core_of_sel(2) [of "snd (remove_token env p w2)"] t2(2) unfolding remove_token_core k2
    by (simp add: core_of_sel)
  then show ?thesis
    unfolding c drop_listeners_core remove_token_core k2 using tidy_remove [of env p w2] t2 by auto
qed

lemma activate_core:
  assumes "activate_helper env rules compiled groups pid p all w = (r, w')"
  shows "(\<exists>v. r = Inr v \<and> core_of w' = (core_of w)\<lparr>aw_rules := rules, aw_disk_rules := rules\<rparr>)
    \<or> (\<exists>e t. r = Inl e \<and> core_of w' = (core_of w)\<lparr>aw_live := removeAll pid (aw_live w), aw_tokens := t,
          aw_desired := filter (\<lambda>s. spec_name s \<notin> spec_name ` set all) (aw_desired w)\<rparr>
        \<and> (tidy env \<longrightarrow> t = removeAll p (aw_tokens w)))"
proof -
  obtain x w1 where a: "publish_first env compiled groups w = (x, w1)" by (rule prod.exhaust)
  then have k: "core_of w1 = core_of w" using quiet_publish_first [OF refl, of env compiled groups w] by (simp add: quiet_def)
  have cl: "\<exists>t. core_of (cleanup_failed env pid p all v) = (core_of w)\<lparr>aw_live := removeAll pid (aw_live w), aw_tokens := t,
      aw_desired := filter (\<lambda>s. spec_name s \<notin> spec_name ` set all) (aw_desired w)\<rparr>
    \<and> (tidy env \<longrightarrow> t = removeAll p (aw_tokens w))" if "core_of v = core_of w" for v
    using cleanup_core [of env pid p all v] unfolding that core_of_fields [OF that] .
  show ?thesis
  proof (cases x)
    case (Inl e)
    with assms a cl [OF k] show ?thesis by (auto simp: activate_helper_def try_then_def)
  next
    case (Inr v)
    obtain y w2 where q: "ask env (q_save_rules env) w1 = (y, w2)" by (rule prod.exhaust)
    then have k2: "core_of w2 = core_of w" using core_of_ask [of env "q_save_rules env" w1] k by simp
    show ?thesis
    proof (cases y)
      case (Inl e)
      with assms a Inr q cl [OF k2] show ?thesis
        by (auto simp: activate_helper_def try_then_def save_rules_to_disk_def)
    next
      case (Inr u)
      with assms a \<open>x = Inr v\<close> q k2 show ?thesis
        by (auto simp: activate_helper_def try_then_def save_rules_to_disk_def core_of_other_updates)
    qed
  qed
qed

lemma given_up_step:
  assumes "core_of w' = (core_of w)\<lparr>aw_tokens := t, aw_desired := filter (\<lambda>s. spec_name s \<notin> spec_name ` set all) (aw_desired w)\<rparr>"
    and "tidy env \<Longrightarrow> set t \<subseteq> set (aw_tokens w)"
  shows "given_up env all w w'"
  unfolding given_up_def using core_of_sel [of w'] core_of_sel [of w] assms(2) unfolding assms(1) by simp

lemma launch_helper_result:
  assumes "launch_helper env rules compiled groups listeners primary w = (r, w')"
  shows "(\<exists>e. r = Inl e \<and> given_up env (map snd listeners) w w')
    \<or> (\<exists>h. r = Inr h \<and> \<not> h_failed h \<and> core_of w' = (core_of w)\<lparr>aw_tokens := h_token_path h # aw_tokens w,
          aw_live := h_process h # aw_live w, aw_rules := rules, aw_disk_rules := rules\<rparr>)"
proof -
  let ?all = "map snd listeners"
  obtain x w1 where p: "prepare_helper env groups w = (x, w1)" by (rule prod.exhaust)
  from prepare_core [OF p] show ?thesis
  proof (elim disjE exE conjE)
    fix e t assume x: "x = Inl e" and k: "core_of w1 = (core_of w)\<lparr>aw_tokens := t\<rparr>" and t: "tidy env \<longrightarrow> t = aw_tokens w"
    have d: "aw_desired w1 = aw_desired w" using core_of_sel(2) [of w1] unfolding k by (simp add: core_of_sel)
    have "r = Inl e" "w' = drop_listeners env ?all w1" using assms p x by (simp_all add: launch_helper_def)
    moreover have "given_up env ?all w (drop_listeners env ?all w1)"
      by (rule given_up_step [where t = t]) (use drop_listeners_core [of env ?all w1] k d t in auto)
    ultimately show ?thesis by blast
  next
    fix path token assume x: "x = Inr (path, token)" and k: "core_of w1 = (core_of w)\<lparr>aw_tokens := path # aw_tokens w\<rparr>"
    have d: "aw_desired w1 = aw_desired w" "aw_tokens w1 = path # aw_tokens w" "aw_live w1 = aw_live w"
      using core_of_sel [of w1] unfolding k by (simp_all add: core_of_sel)
    obtain y w2 where s: "spawn_helper env path ?all w1 = (y, w2)" by (rule prod.exhaust)
    have a: "try_then (y, w2) (\<lambda>pid w. try_then (activate_helper env rules compiled groups pid path ?all w) (\<lambda>version w.
        (Inr \<lparr>h_process = pid, h_token_path = path, h_token = token, h_rules = compiled,
                   h_listener = ''127.0.0.1:'' @ show_port (spec_port primary), h_listener_name = spec_name primary,
                   h_extra = filter (\<lambda>(g, _). g \<noteq> ''regular'') listeners, h_group = ''regular'',
                   h_version = version, h_failed = False\<rparr>, w))) = (r, w')"
      using assms p x s by (simp add: launch_helper_def Let_def)
    from spawn_core [OF s] show ?thesis
    proof (elim disjE exE conjE)
      fix e t assume y: "y = Inl e" and k2: "core_of w2 = (core_of w1)\<lparr>aw_tokens := t,
          aw_desired := filter (\<lambda>s. spec_name s \<notin> spec_name ` set ?all) (aw_desired w1)\<rparr>"
        and t: "tidy env \<longrightarrow> t = removeAll path (aw_tokens w1)"
      have "r = Inl e" "w' = w2" using a y by (simp_all add: try_then_def)
      moreover have "given_up env ?all w w2"
        by (rule given_up_step [where t = t]) (use k2 k d t in auto)
      ultimately show ?thesis by blast
    next
      fix pid assume y: "y = Inr pid" and k2: "core_of w2 = (core_of w1)\<lparr>aw_live := pid # aw_live w1\<rparr>"
      have d2: "aw_desired w2 = aw_desired w" "aw_tokens w2 = path # aw_tokens w" "aw_live w2 = pid # aw_live w"
        using core_of_sel [of w2] core_of_sel [of w1] unfolding k2 k by (simp_all add: core_of_sel d)
      obtain z w3 where z: "activate_helper env rules compiled groups pid path ?all w2 = (z, w3)" by (rule prod.exhaust)
      from activate_core [OF z] show ?thesis
      proof (elim disjE exE conjE)
        fix v assume "z = Inr v" and k3: "core_of w3 = (core_of w2)\<lparr>aw_rules := rules, aw_disk_rules := rules\<rparr>"
        with a y z obtain h where "r = Inr h" "w' = w3" "h_process h = pid" "h_token_path h = path" "\<not> h_failed h"
          by (auto simp: try_then_def)
        with k3 show ?thesis unfolding k2 k d by (intro disjI2 exI [of _ h]) simp
      next
        fix e t assume z': "z = Inl e" and k3: "core_of w3 = (core_of w2)\<lparr>aw_live := removeAll pid (aw_live w2), aw_tokens := t,
            aw_desired := filter (\<lambda>s. spec_name s \<notin> spec_name ` set ?all) (aw_desired w2)\<rparr>"
          and t: "tidy env \<longrightarrow> t = removeAll path (aw_tokens w2)"
        have "r = Inl e" "w' = w3" using a y z z' by (simp_all add: try_then_def)
        moreover have "given_up env ?all w w3"
          by (rule given_upI [where t = t and l = "removeAll pid (aw_live w)"]) (use k3 k2 k d d2 t in auto)
        ultimately show ?thesis by blast
      qed
    qed
  qed
qed

text \<open>Rule updates end with the helper, if any, in the state they found it, renewed, or in doubt.\<close>

lemma remove_token_frame:
  "aw_helper (snd (remove_token env p w)) = aw_helper w" "aw_running (snd (remove_token env p w)) = aw_running w"
  "aw_rules (snd (remove_token env p w)) = aw_rules w" "aw_disk_rules (snd (remove_token env p w)) = aw_disk_rules w"
  "aw_live (snd (remove_token env p w)) = aw_live w" "aw_desired (snd (remove_token env p w)) = aw_desired w"
  "set (aw_tokens (snd (remove_token env p w))) \<subseteq> set (aw_tokens w)"
  "tidy env \<Longrightarrow> aw_tokens (snd (remove_token env p w)) = removeAll p (aw_tokens w)"
proof -
  show "tidy env \<Longrightarrow> aw_tokens (snd (remove_token env p w)) = removeAll p (aw_tokens w)"
    using core_of_sel(8) [of "snd (remove_token env p w)"] tidy_remove [of env p w]
    unfolding remove_token_core by simp
qed (cases "q_remove_token env (aw_tick w)"; auto simp: remove_token_def ask_def try_then_def)+

subsection \<open>The invariant of the manager\<close>

definition app_inv :: "app_env \<Rightarrow> app_world \<Rightarrow> bool" where
  "app_inv env w \<longleftrightarrow> (aw_running w \<longleftrightarrow> aw_helper w \<noteq> None) \<and> aw_disk_rules w = aw_rules w
     \<and> (aw_helper w = None \<longrightarrow> aw_desired w = [])
     \<and> (tidy env \<longrightarrow> set (aw_live w) \<subseteq> set_option (map_option h_process (aw_helper w))
          \<and> set (aw_tokens w) \<subseteq> set_option (map_option h_token_path (aw_helper w)))"

definition doubtless :: "app_world \<Rightarrow> bool" where
  "doubtless w = (case aw_helper w of Some h \<Rightarrow> \<not> h_failed h | None \<Rightarrow> True)"

lemma app_inv_core: "core_of w' = core_of w \<Longrightarrow> app_inv env w' = app_inv env w"
  using core_of_fields [of w' w] by (simp add: app_inv_def)

lemma doubtless_core: "core_of w' = core_of w \<Longrightarrow> doubtless w' = doubtless w"
  using core_of_fields [of w' w] by (simp add: doubtless_def)

text \<open>At rest: no helper, and nothing of one is left.\<close>

lemma app_inv_stopped:
  "aw_helper w = None \<Longrightarrow> app_inv env w \<longleftrightarrow> \<not> aw_running w \<and> aw_disk_rules w = aw_rules w \<and> aw_desired w = []
     \<and> (tidy env \<longrightarrow> aw_live w = [] \<and> aw_tokens w = [])"
  by (auto simp: app_inv_def)

lemma process_alive_core:
  assumes "process_alive env pid w = (alive, w')"
  shows "core_of w' = (if alive \<or> (\<exists>e t. q_exit_code env t = Inl e) \<and> core_of w' = core_of w then core_of w
    else (core_of w)\<lparr>aw_live := removeAll pid (aw_live w)\<rparr>)"
proof -
  obtain r w1 where a: "ask env (q_exit_code env) w = (r, w1)" by (rule prod.exhaust)
  then have k: "core_of w1 = core_of w" and q: "r = q_exit_code env (aw_tick w)"
    using core_of_ask [of env "q_exit_code env" w] by (simp_all add: ask_def)
  show ?thesis
    using assms a k q core_of_fields(9) [OF k]
    by (auto simp: process_alive_def end_process_def core_of_other_updates split: sum.splits option.splits)
qed

lemma process_alive_tidy:
  assumes "process_alive env pid w = (alive, w')" and "tidy env" and "\<not> alive"
  shows "core_of w' = (core_of w)\<lparr>aw_live := removeAll pid (aw_live w)\<rparr>"
proof -
  have "\<nexists>e t. q_exit_code env t = Inl e" using assms(2) by (auto simp: tidy_def)
  with process_alive_core [OF assms(1)] assms(3) show ?thesis by simp
qed

lemma process_alive_frame:
  assumes "process_alive env pid w = (alive, w')"
  shows "aw_helper w' = aw_helper w" and "aw_desired w' = aw_desired w" and "aw_rules w' = aw_rules w"
    and "aw_running w' = aw_running w" and "aw_disk_rules w' = aw_disk_rules w" and "aw_tokens w' = aw_tokens w"
    and "set (aw_live w') \<subseteq> set (aw_live w)" and "tidy env \<Longrightarrow> \<not> alive \<Longrightarrow> pid \<notin> set (aw_live w')"
proof -
  have "core_of w' = core_of w \<or> core_of w' = (core_of w)\<lparr>aw_live := removeAll pid (aw_live w)\<rparr>"
    using process_alive_core [OF assms] by presburger
  then obtain l where k: "core_of w' = (core_of w)\<lparr>aw_live := l\<rparr>" and l: "set l \<subseteq> set (aw_live w)"
  proof
    assume "core_of w' = core_of w"
    moreover have "core_of w = (core_of w)\<lparr>aw_live := aw_live w\<rparr>" by (cases w) (simp add: core_of_def)
    ultimately show ?thesis using that [of "aw_live w"] by simp
  next
    assume "core_of w' = (core_of w)\<lparr>aw_live := removeAll pid (aw_live w)\<rparr>"
    then show ?thesis by (rule that) auto
  qed
  show "aw_helper w' = aw_helper w" and "aw_desired w' = aw_desired w" and "aw_rules w' = aw_rules w"
    and "aw_running w' = aw_running w" and "aw_disk_rules w' = aw_disk_rules w" and "aw_tokens w' = aw_tokens w"
    and "set (aw_live w') \<subseteq> set (aw_live w)"
    using core_of_sel [of w'] core_of_sel [of w] l unfolding k by simp_all
  assume "tidy env" "\<not> alive"
  from process_alive_tidy [OF assms this] have "aw_live w' = removeAll pid (aw_live w)"
    using core_of_sel(9) [of w'] by simp
  then show "pid \<notin> set (aw_live w')" by simp
qed

subsection \<open>Status, stop and start keep the invariant\<close>

lemma none_left: "set xs \<subseteq> {a} \<Longrightarrow> a \<notin> set xs \<Longrightarrow> xs = []"
  by (cases xs) auto

lemma app_inv_released:
  assumes "app_inv env w" and "aw_helper w = Some h"
    and "aw_helper w' = None" "\<not> aw_running w'" "aw_desired w' = []" "aw_rules w' = aw_rules w" "aw_disk_rules w' = aw_disk_rules w"
    and "set (aw_live w') \<subseteq> set (aw_live w)" and "set (aw_tokens w') \<subseteq> set (aw_tokens w)"
    and "tidy env \<Longrightarrow> h_process h \<notin> set (aw_live w')" and "tidy env \<Longrightarrow> h_token_path h \<notin> set (aw_tokens w')"
  shows "app_inv env w'"
proof -
  have "aw_live w' = [] \<and> aw_tokens w' = []" if t: "tidy env"
  proof -
    have "set (aw_live w') \<subseteq> {h_process h}" "set (aw_tokens w') \<subseteq> {h_token_path h}"
      using assms(1,2,8,9) t by (auto simp: app_inv_def)
    then show ?thesis using assms(10,11) [OF t] none_left by metis
  qed
  then show ?thesis using assms(1,3-7) by (simp add: app_inv_def)
qed

lemma retire_dead_helper_inv:
  assumes "retire_dead_helper env h w = (s, w')" and "app_inv env w" and "aw_helper w = Some h"
    and "tidy env \<Longrightarrow> h_process h \<notin> set (aw_live w)"
  shows "app_inv env w'" and "aw_helper w' = None" and "aw_rules w' = aw_rules w" and "\<not> st_proxy_ready s"
proof -
  define w1 where "w1 = snd (remove_token env (h_token_path h) w)"
  define w2 where "w2 = fold (\<lambda>name w. snd (remove_listener env name w)) (helper_listeners h) (w1\<lparr>aw_desired := [], aw_running := False\<rparr>)"
  define w3 where "w3 = snd (ask env (q_exit_code env) w2)"
  obtain e where w': "w' = w3\<lparr>aw_error := Some e, aw_helper := None\<rparr>" and s: "s = down_status env ''failed'' (Some e)"
    using assms(1) unfolding retire_dead_helper_def Let_def w1_def w2_def w3_def by (auto simp: split_beta)
  have k: "core_of w3 = core_of (w1\<lparr>aw_desired := [], aw_running := False\<rparr>)"
    unfolding w3_def w2_def core_of_ask core_of_fold_remove ..
  note f = core_of_fields [OF k]
  note t = remove_token_frame [of env "h_token_path h" w, folded w1_def]
  show "aw_helper w' = None" "\<not> st_proxy_ready s" unfolding w' s by (simp_all add: down_status_def)
  show "aw_rules w' = aw_rules w" unfolding w' using f(4) t(3) by simp
  show "app_inv env w'"
    by (rule app_inv_released [OF assms(2,3)]) (use f t assms(4) in \<open>simp_all add: w'\<close>)
qed

lemma app_status_inv:
  assumes "app_status_of env w = (s, w')" and "app_inv env w"
  shows "app_inv env w'" and "aw_helper w' = aw_helper w \<or> (aw_helper w' = None \<and> \<not> st_proxy_ready s)"
    and "aw_rules w' = aw_rules w" and "aw_helper w = None \<Longrightarrow> core_of w' = core_of w"
proof -
  have "app_inv env w' \<and> (aw_helper w' = aw_helper w \<or> (aw_helper w' = None \<and> \<not> st_proxy_ready s)) \<and> aw_rules w' = aw_rules w
    \<and> (aw_helper w = None \<longrightarrow> core_of w' = core_of w)"
  proof (cases "aw_helper w")
    case None
    with assms have "w' = w" by (simp add: app_status_of_def)
    with assms show ?thesis by simp
  next
    case (Some h)
    obtain alive w1 where p: "process_alive env (h_process h) w = (alive, w1)" by (rule prod.exhaust)
    note f = process_alive_frame [OF p]
    have i1: "app_inv env w1" using assms(2) f(1-6) order_trans [OF f(7)] by (simp add: app_inv_def)
    show ?thesis
    proof (cases alive)
      case True
      with assms(1) Some p have "live_status env h (aw_error w) w1 = (s, w')" by (simp add: app_status_of_def)
      then have "core_of w' = core_of w1" using quiet_live_status [OF refl, of env h "aw_error w" w1] by (simp add: quiet_def)
      with i1 f(1,3) core_of_fields(1,4) [of w' w1] app_inv_core [of w' w1] Some show ?thesis by simp
    next
      case False
      with assms(1) Some p have "retire_dead_helper env h w1 = (s, w')" by (simp add: app_status_of_def)
      from retire_dead_helper_inv [OF this i1] f(1,3,8) Some False show ?thesis by simp
    qed
  qed
  then show "app_inv env w'" and "aw_helper w' = aw_helper w \<or> (aw_helper w' = None \<and> \<not> st_proxy_ready s)"
    and "aw_rules w' = aw_rules w" and "aw_helper w = None \<Longrightarrow> core_of w' = core_of w" by auto
qed

lemma stop_helper_frame:
  fixes env h w
  defines "w' \<equiv> stop_helper env h w"
  shows "aw_helper w' = aw_helper w" and "aw_desired w' = aw_desired w" and "aw_rules w' = aw_rules w"
    and "aw_disk_rules w' = aw_disk_rules w" and "aw_tokens w' = aw_tokens w" and "set (aw_live w') \<subseteq> set (aw_live w)"
    and "tidy env \<Longrightarrow> h_process h \<notin> set (aw_live w')"
proof -
  obtain client w1 where a1: "ask env (q_client env) w = (client, w1)" by (rule prod.exhaust)
  define w3 where "w3 = snd (ask env (q_exit_code env) (snd (ask env (q_exit_code env)
    (if is_ok client then snd (ask env (\<lambda>_. ()) w1) else w1))))"
  obtain alive w4 where p: "process_alive env (h_process h) w3 = (alive, w4)" by (rule prod.exhaust)
  have e: "w' = (if alive then snd (ask env (q_exit_code env) (end_process (h_process h) w4)) else w4)"
    unfolding w'_def stop_helper_def Let_def a1 using p by (simp add: w3_def)
  have k: "core_of w3 = core_of w" using core_of_ask [of env "q_client env" w] a1 by (simp add: w3_def core_of_ask)
  note f3 = core_of_fields [OF k] and f4 = process_alive_frame [OF p]
  note f5 = core_of_fields [OF core_of_ask [of env "q_exit_code env" "end_process (h_process h) w4"]]
  have "set (removeAll (h_process h) (aw_live w4)) \<subseteq> set (aw_live w)" using f4(7) f3(9) by auto
  then show "aw_helper w' = aw_helper w" and "aw_desired w' = aw_desired w" and "aw_rules w' = aw_rules w"
    and "aw_disk_rules w' = aw_disk_rules w" and "aw_tokens w' = aw_tokens w" and "set (aw_live w') \<subseteq> set (aw_live w)"
    and "tidy env \<Longrightarrow> h_process h \<notin> set (aw_live w')"
    using f3 f4 f5 unfolding e by (simp_all add: end_process_def)
qed

lemma stop_inner_result:
  assumes "stop_inner env remove w = (r, w')" and "aw_helper w = Some h"
  shows "aw_helper w' = None" and "\<not> aw_running w'" and "aw_desired w' = []" and "aw_rules w' = aw_rules w"
    and "aw_disk_rules w' = aw_disk_rules w" and "set (aw_live w') \<subseteq> set (aw_live w)" and "set (aw_tokens w') \<subseteq> set (aw_tokens w)"
    and "tidy env \<Longrightarrow> h_process h \<notin> set (aw_live w')" and "tidy env \<Longrightarrow> h_token_path h \<notin> set (aw_tokens w')"
proof -
  define w1 where "w1 = stop_helper env h (w\<lparr>aw_helper := None, aw_desired := []\<rparr>)"
  obtain t w2 where t: "remove_token env (h_token_path h) w1 = (t, w2)" by (rule prod.exhaust)
  obtain c w3 where c: "(if remove then remove_names env (helper_listeners h) None w2 else (None, w2)) = (c, w3)" by (rule prod.exhaust)
  have w': "w' = w3\<lparr>aw_running := False\<rparr>"
    using assms t c unfolding stop_inner_def w1_def Let_def by (cases c; cases t) auto
  note f1 = stop_helper_frame [of env h "w\<lparr>aw_helper := None, aw_desired := []\<rparr>", folded w1_def]
  note f2 = remove_token_frame [of env "h_token_path h" w1, unfolded t snd_conv]
  have "core_of w3 = core_of w2"
    using quiet_remove_names [OF refl, of env "helper_listeners h" None w2] c by (cases remove) (auto simp: quiet_def)
  note f3 = core_of_fields [OF this]
  show "aw_helper w' = None" and "\<not> aw_running w'" and "aw_desired w' = []" and "aw_rules w' = aw_rules w"
    and "aw_disk_rules w' = aw_disk_rules w" and "set (aw_live w') \<subseteq> set (aw_live w)" and "set (aw_tokens w') \<subseteq> set (aw_tokens w)"
    and "tidy env \<Longrightarrow> h_process h \<notin> set (aw_live w')" and "tidy env \<Longrightarrow> h_token_path h \<notin> set (aw_tokens w')"
    using f1 f2 f3 unfolding w' by simp_all
qed

lemma stop_inner_inv:
  assumes "stop_inner env remove w = (r, w')" and "app_inv env w"
  shows "app_inv env w'" and "aw_helper w' = None" and "aw_rules w' = aw_rules w"
proof -
  have "app_inv env w' \<and> aw_helper w' = None \<and> aw_rules w' = aw_rules w"
  proof (cases "aw_helper w")
    case None
    with assms(1) have "w' = w\<lparr>aw_running := False\<rparr>" by (simp add: stop_inner_def app_status_of_def)
    with None assms(2) show ?thesis by (simp add: app_inv_def)
  next
    case (Some h)
    note f = stop_inner_result [OF assms(1) Some]
    then show ?thesis using app_inv_released [OF assms(2) Some f] by simp
  qed
  then show "app_inv env w'" and "aw_helper w' = None" and "aw_rules w' = aw_rules w" by auto
qed

lemma given_up_inv:
  assumes "given_up env all (w\<lparr>aw_desired := all\<rparr>) w'" and "app_inv env w" and "aw_helper w = None"
  shows "app_inv env w'" and "aw_helper w' = None" and "aw_rules w' = aw_rules w"
proof -
  have "filter (\<lambda>s. spec_name s \<notin> spec_name ` set all) all = []" by (simp add: filter_empty_conv)
  with assms show "app_inv env w'" and "aw_helper w' = None" and "aw_rules w' = aw_rules w"
    by (auto simp: given_up_def app_inv_def)
qed

lemma given_up_core: "core_of w1 = core_of w \<Longrightarrow> given_up env all w1 w' = given_up env all w w'"
  using core_of_fields [of w1 w] by (simp add: given_up_def)

lemma save_resume_core:
  assumes "save_resume_intent env b w = (r, w')"
  shows "core_of w' = (if is_ok r then (core_of w)\<lparr>aw_resume := b\<rparr> else core_of w)"
  using assms by (cases "q_save_resume env (aw_tick w)"; cases r)
    (simp_all add: save_resume_intent_def ask_def try_then_def core_of_def, auto)

text \<open>The end of a start, once the helper confirmed its rules.\<close>

lemma confirm_start_result:
  assumes "confirm_start env h w = (r, w')" and "app_inv env (w\<lparr>aw_helper := Some h, aw_running := True\<rparr>)"
  shows "app_inv env w' \<and> aw_rules w' = aw_rules w
    \<and> ((\<exists>e. r = Inl e \<and> aw_helper w' = None) \<or> (\<exists>s. r = Inr s \<and> st_proxy_ready s \<and> aw_helper w' = Some h \<and> aw_resume w'))"
proof -
  obtain status w1 where s: "app_status_of env (w\<lparr>aw_helper := Some h, aw_running := True\<rparr>) = (status, w1)"
    by (rule prod.exhaust)
  note i1 = app_status_inv [OF s assms(2)]
  have stopped: "app_inv env v' \<and> aw_helper v' = None \<and> aw_rules v' = aw_rules v"
    if "app_inv env v" "v' = snd (stop_inner env True v)" for v v'
    using stop_inner_inv [of env True v "fst (stop_inner env True v)" "snd (stop_inner env True v)"] that by simp
  show ?thesis
  proof (cases "st_proxy_ready status")
    case False
    with assms(1) s have "\<exists>e. r = Inl e" "w' = snd (stop_inner env True w1)" by (auto simp: confirm_start_def)
    with stopped [OF i1(1)] i1(3) show ?thesis by auto
  next
    case True
    obtain x w2 where x: "save_resume_intent env True w1 = (x, w2)" by (rule prod.exhaust)
    have k: "core_of w2 = (core_of w1)\<lparr>aw_resume := (if is_ok x then True else aw_resume w1)\<rparr>"
      using save_resume_core [OF x] by (cases w1) (simp add: core_of_def)
    have f: "aw_helper w2 = Some h" "app_inv env w2 = app_inv env w1" "aw_rules w2 = aw_rules w" "is_ok x \<Longrightarrow> aw_resume w2"
      using core_of_sel [of w2] core_of_sel [of w1] i1(2,3) True unfolding k by (simp_all add: app_inv_def)
    show ?thesis
    proof (cases x)
      case (Inl e)
      with True assms(1) s x have "r = Inl e" "w' = snd (stop_inner env True w2)" by (simp_all add: confirm_start_def)
      with stopped [of w2] f i1(1) show ?thesis by auto
    next
      case (Inr u)
      with True assms(1) s x have "r = Inr status" "w' = w2" by (simp_all add: confirm_start_def)
      with f True Inr i1(1) show ?thesis by simp
    qed
  qed
qed

definition start_outcome :: "app_env \<Rightarrow> app_rule list \<Rightarrow> (string + app_status) \<Rightarrow> app_world \<Rightarrow> bool" where
  "start_outcome env rules r w' \<longleftrightarrow> app_inv env w' \<and> (case r of
      Inl e \<Rightarrow> aw_helper w' = None
    | Inr s \<Rightarrow> st_proxy_ready s \<and> aw_resume w' \<and> aw_rules w' = rules \<and> (\<exists>h. aw_helper w' = Some h \<and> \<not> h_failed h))"

lemma start_outcome_failed: "app_inv env w' \<Longrightarrow> aw_helper w' = None \<Longrightarrow> start_outcome env rules (Inl e) w'"
  by (simp add: start_outcome_def)

lemma given_up_outcome:
  assumes "given_up env all w1 w'" and "core_of w1 = core_of (w\<lparr>aw_desired := all\<rparr>)" and "app_inv env w" and "aw_helper w = None"
  shows "start_outcome env rules (Inl e) w'"
  using given_up_inv [of env all w w'] assms given_up_core [OF assms(2)] by (blast intro: start_outcome_failed)

lemma launched_outcome:
  assumes "try_then (launch_helper env rules compiled groups listeners primary w1) (confirm_start env) = (r, w')"
    and k: "core_of w1 = core_of (w\<lparr>aw_desired := map snd listeners\<rparr>)" and i: "app_inv env w" "aw_helper w = None"
  shows "start_outcome env rules r w'"
proof -
  obtain z w2 where z: "launch_helper env rules compiled groups listeners primary w1 = (z, w2)" by (rule prod.exhaust)
  from launch_helper_result [OF z] show ?thesis
  proof (elim disjE exE conjE)
    fix e assume "z = Inl e" and g: "given_up env (map snd listeners) w1 w2"
    with assms(1) z have "r = Inl e" "w' = w2" by (simp_all add: try_then_def)
    with given_up_outcome [OF g k i] show ?thesis by simp
  next
    fix h assume h: "z = Inr h" "\<not> h_failed h" and k2: "core_of w2 = (core_of w1)\<lparr>aw_tokens := h_token_path h # aw_tokens w1,
      aw_live := h_process h # aw_live w1, aw_rules := rules, aw_disk_rules := rules\<rparr>"
    have f: "aw_rules w2 = rules" "aw_disk_rules w2 = rules" "aw_tokens w2 = h_token_path h # aw_tokens w"
      "aw_live w2 = h_process h # aw_live w"
      using core_of_sel [of w2] core_of_fields [OF k] unfolding k2 by simp_all
    have "app_inv env (w2\<lparr>aw_helper := Some h, aw_running := True\<rparr>)"
      using i f by (simp add: app_inv_def)
    moreover have "confirm_start env h w2 = (r, w')" using assms(1) z h(1) by (simp add: try_then_def)
    ultimately show ?thesis
      using confirm_start_result [of env h w2 r w'] f(1) h(2) by (auto simp: start_outcome_def)
  qed
qed

lemma start_staged_outcome:
  assumes "start_staged env rules v w1 = (r, w')" and k: "core_of w1 = core_of w" and i: "app_inv env w" "aw_helper w = None"
  shows "start_outcome env rules r w'"
proof -
  obtain primary listeners compiled groups where v: "v = (primary, listeners, compiled, groups)" by (metis prod.exhaust)
  let ?all = "map snd listeners" and ?w = "w\<lparr>aw_desired := map snd listeners\<rparr>"
  have k1: "core_of (w1\<lparr>aw_desired := ?all\<rparr>) = core_of ?w" unfolding core_of_update k ..
  obtain y w2 where y: "configure_all env ?all ?all (w1\<lparr>aw_desired := ?all\<rparr>) = (y, w2)" by (rule prod.exhaust)
  show ?thesis
  proof (cases y)
    case (Inl e)
    with assms(1) v y have "r = Inl e" "w' = w2" by (simp_all add: start_staged_def try_then_def)
    moreover have "given_up env ?all (w1\<lparr>aw_desired := ?all\<rparr>) w2"
      by (rule given_upI [where l = "aw_live w1" and t = "aw_tokens w1"])
        (use configure_all_core [OF y] Inl in \<open>simp_all add: core_of_def\<close>)
    ultimately show ?thesis using given_up_outcome [OF _ k1 i] by simp
  next
    case (Inr u)
    have k2: "core_of w2 = core_of ?w" using configure_all_core [OF y] Inr k1 by simp
    obtain ready w3 where b: "ask env (q_connect env) w2 = (ready, w3)" by (rule prod.exhaust)
    have k3: "core_of w3 = core_of ?w" using core_of_ask [of env "q_connect env" w2] b k2 by simp
    show ?thesis
    proof (cases ready)
      case False
      with assms(1) v y Inr b have "\<exists>e. r = Inl e" "w' = drop_listeners env ?all w3"
        by (auto simp: start_staged_def try_then_def)
      moreover have "given_up env ?all w3 (drop_listeners env ?all w3)"
        by (rule given_upI [where l = "aw_live w3" and t = "aw_tokens w3"])
          (simp_all add: drop_listeners_core, simp add: core_of_def)
      ultimately show ?thesis using given_up_outcome [OF _ k3 i] by blast
    next
      case True
      with assms(1) v y Inr b
      have "try_then (launch_helper env rules compiled groups listeners primary w3) (confirm_start env) = (r, w')"
        by (simp add: start_staged_def try_then_def)
      with launched_outcome k3 i show ?thesis by blast
    qed
  qed
qed

lemma start_inner_result:
  assumes "start_inner env request w = (r, w')" and "app_inv env w"
  shows "if aw_helper w \<noteq> None then w' = w \<and> \<not> is_ok r
    else start_outcome env (effective_rules request (aw_rules w)) r w'"
proof (cases "aw_helper w")
  case (Some h)
  with assms show ?thesis by (auto simp: start_inner_def)
next
  case None
  define rules where "rules = effective_rules request (aw_rules w)"
  have failed: "start_outcome env rules (Inl e) v" if "core_of v = core_of w" for e v
    using app_inv_core [OF that] core_of_fields(1) [OF that] assms(2) None by (simp add: start_outcome_def)
  obtain free w0 where a: "ask env (q_api_free env) w = (free, w0)" by (rule prod.exhaust)
  have k0: "core_of w0 = core_of w" using core_of_ask [of env "q_api_free env" w] a by simp
  obtain x w1 where x: "stage_start env rules w0 = (x, w1)" by (rule prod.exhaust)
  have k1: "core_of w1 = core_of w" using quiet_stage_start [OF k0, of env rules] x by (simp add: quiet_def)
  have run: "(r, w') = (if \<not> list_ex rule_enabled rules then (Inl ''no enabled process proxy rules configured'', w)
     else if \<not> free then (Inl ''Clew helper API port 18080 is already occupied'', w0)
     else try_then (x, w1) (start_staged env rules))"
    using assms(1) None a x unfolding start_inner_def Let_def rules_def [symmetric]
    by (auto split: if_splits)
  have "start_outcome env rules r w'"
  proof (cases x)
    case (Inl e)
    with run show ?thesis using failed [of w] failed [OF k0] failed [OF k1] by (simp add: try_then_def split: if_splits)
  next
    case (Inr v)
    with run show ?thesis
      using failed [of w] failed [OF k0] start_staged_outcome [of env rules v w1 r w', OF _ k1 assms(2) None]
      by (simp add: try_then_def split: if_splits)
  qed
  with None show ?thesis by (simp add: rules_def)
qed

subsection \<open>Changing the rules of a running helper\<close>

text \<open>The world up to the listeners asked for, which a rule update stages and unstages.\<close>

definition frame_of :: "app_world \<Rightarrow> app_world" where
  "frame_of w = (core_of w)\<lparr>aw_desired := []\<rparr>"

lemma frame_of_sel:
  "aw_helper (frame_of w) = aw_helper w" "aw_error (frame_of w) = aw_error w" "aw_rules (frame_of w) = aw_rules w"
  "aw_running (frame_of w) = aw_running w" "aw_disk_rules (frame_of w) = aw_disk_rules w"
  "aw_resume (frame_of w) = aw_resume w" "aw_tokens (frame_of w) = aw_tokens w" "aw_live (frame_of w) = aw_live w"
  by (simp_all add: frame_of_def core_of_sel)

lemma frame_of_desired: "frame_of (w\<lparr>aw_desired := d\<rparr>) = frame_of w"
  by (simp add: frame_of_def core_of_def)

lemma frame_of_updates:
  "frame_of (w\<lparr>aw_helper := h\<rparr>) = (frame_of w)\<lparr>aw_helper := h\<rparr>" "frame_of (w\<lparr>aw_rules := rs\<rparr>) = (frame_of w)\<lparr>aw_rules := rs\<rparr>"
  "frame_of (w\<lparr>aw_disk_rules := rs\<rparr>) = (frame_of w)\<lparr>aw_disk_rules := rs\<rparr>"
  by (simp_all add: frame_of_def core_of_def)

lemma frame_of_core: "core_of w' = core_of w \<Longrightarrow> frame_of w' = frame_of w"
  by (simp add: frame_of_def)

lemma frame_quiet: "quiet (x, w') w \<Longrightarrow> frame_of w' = frame_of w"
  by (rule frame_of_core) (simp add: quiet_def)

text \<open>The helper is the one it was, with another version or counted as failed; nothing else changed.\<close>

definition kept :: "app_world \<Rightarrow> app_world \<Rightarrow> bool" where
  "kept w w' \<longleftrightarrow> (\<exists>h v f. aw_helper w = Some h \<and> frame_of w' = (frame_of w)\<lparr>aw_helper := Some (h\<lparr>h_version := v, h_failed := f\<rparr>)\<rparr>)"

lemma kept_frame: "frame_of w' = frame_of w \<Longrightarrow> aw_helper w \<noteq> None \<Longrightarrow> kept w w'"
proof -
  assume f: "frame_of w' = frame_of w" and "aw_helper w \<noteq> None"
  then obtain h where h: "aw_helper w = Some h" by blast
  have "h = h\<lparr>h_version := h_version h, h_failed := h_failed h\<rparr>" by (cases h) simp
  moreover have "frame_of w = (frame_of w)\<lparr>aw_helper := Some h\<rparr>"
    using h frame_of_sel(1) [of w] by (cases "frame_of w") simp
  ultimately show "kept w w'" unfolding kept_def f using h by metis
qed

lemma kept_mark_failed: "frame_of w' = frame_of w \<Longrightarrow> aw_helper w \<noteq> None \<Longrightarrow> kept w (mark_failed w')"
proof -
  assume f: "frame_of w' = frame_of w" and "aw_helper w \<noteq> None"
  then obtain h where h: "aw_helper w = Some h" by blast
  then have h': "aw_helper w' = Some h" using frame_of_sel(1) [of w'] frame_of_sel(1) [of w] f by simp
  have "h\<lparr>h_failed := True\<rparr> = h\<lparr>h_version := h_version h, h_failed := True\<rparr>" by (cases h) simp
  then have "frame_of (mark_failed w') = (frame_of w)\<lparr>aw_helper := Some (h\<lparr>h_version := h_version h, h_failed := True\<rparr>)\<rparr>"
    by (simp add: mark_failed_def frame_of_updates f h')
  then show "kept w (mark_failed w')" unfolding kept_def using h by blast
qed

text \<open>A step of the update: it goes on with an unchanged frame, or ends with the helper kept.\<close>

definition stepping :: "app_world \<Rightarrow> (string + 'a) \<times> app_world \<Rightarrow> bool" where
  "stepping w r \<longleftrightarrow> (if is_ok (fst r) then frame_of (snd r) = frame_of w else kept w (snd r))"

lemma stepping_quiet: "quiet r w1 \<Longrightarrow> frame_of w1 = frame_of w \<Longrightarrow> aw_helper w \<noteq> None \<Longrightarrow> stepping w r"
  unfolding stepping_def using frame_of_core [of "snd r" w1] kept_frame [of "snd r" w] by (simp add: quiet_def)

lemma restore_staged_frame: "frame_of (snd (restore_staged_listeners env old staged w)) = frame_of w"
proof -
  have "quiet (fold (\<lambda>spec r. try_then r (\<lambda>_ w. remove_listener env (spec_name spec) w)) staged r) v" if "quiet r v" for r v
    using that
  proof (induction staged arbitrary: r)
    case (Cons spec staged)
    show ?case
      using Cons.IH [OF quiet_try [OF Cons.prems quiet_remove_listener]] by simp
  qed simp
  from this [of "(Inr (), w\<lparr>aw_desired := map snd old\<rparr>)" "w\<lparr>aw_desired := map snd old\<rparr>"]
  have "quiet (restore_staged_listeners env old staged w) (w\<lparr>aw_desired := map snd old\<rparr>)"
    unfolding restore_staged_listeners_def Let_def quiet_pair by simp
  then show ?thesis
    using frame_of_core [of "snd (restore_staged_listeners env old staged w)" "w\<lparr>aw_desired := map snd old\<rparr>"]
    by (simp add: quiet_def frame_of_desired)
qed

lemma unstage_kept:
  "frame_of w1 = frame_of w \<Longrightarrow> aw_helper w \<noteq> None \<Longrightarrow> stepping w (unstage_or_fail env old staged ctx error w1)
    \<and> \<not> is_ok (fst (unstage_or_fail env old staged ctx error w1))"
  using restore_staged_frame [of env old staged w1]
  by (cases "restore_staged_listeners env old staged w1"; cases "fst (restore_staged_listeners env old staged w1)")
    (simp_all add: unstage_or_fail_def stepping_def kept_frame kept_mark_failed)

lemma configure_staged_stepping:
  assumes "frame_of w1 = frame_of w" and "aw_helper w \<noteq> None"
  shows "stepping w (configure_staged env old staged specs w1)"
  using assms(1)
proof (induction specs arbitrary: w1)
  case Nil
  then show ?case by (simp add: stepping_def)
next
  case (Cons spec specs)
  obtain r1 w2 where c: "configure_listener env spec w1 = (r1, w2)" by (rule prod.exhaust)
  then have k2: "frame_of w2 = frame_of w"
    using frame_quiet [of r1 w2 w1] quiet_configure_listener [OF refl, of env spec w1] Cons.prems by simp
  obtain ready w3 where a: "(if is_ok r1 \<and> loaded w2 spec then ask env (q_connect env) w2 else (False, w2)) = (ready, w3)"
    by (rule prod.exhaust)
  have k3: "frame_of w3 = frame_of w"
    using frame_of_core [OF core_of_ask [of env "q_connect env" w2]] a k2 by (auto split: if_splits)
  show ?case
  proof (cases ready)
    case True
    with Cons.IH [OF k3] c a show ?thesis by simp
  next
    case False
    with c a show ?thesis by (simp add: unstage_kept [OF k3 assms(2)])
  qed
qed

lemma publish_update_stepping:
  assumes "frame_of w1 = frame_of w" and "aw_helper w \<noteq> None"
  shows "stepping w (publish_update env h compiled groups old staged w1)"
proof -
  obtain x w2 where x: "ask env (q_client env) w1 = (x, w2)" by (rule prod.exhaust)
  have k2: "frame_of w2 = frame_of w" using frame_of_core [OF core_of_ask [of env "q_client env" w1]] x assms(1) by simp
  obtain y w3 where y: "apply_rules_to_helper env compiled groups (h_version h) w2 = (y, w3)" by (rule prod.exhaust)
  have k3: "frame_of w3 = frame_of w"
    using frame_quiet [of y w3 w2] quiet_apply_rules [OF refl, of env compiled groups "h_version h" w2] y k2 by simp
  obtain z w4 where z: "observed_rules_revision env w3 = (z, w4)" by (rule prod.exhaust)
  have k4: "frame_of w4 = frame_of w"
    using frame_quiet [of z w4 w3] quiet_revision [OF refl, of env w3] z k3 by simp
  show ?thesis
  proof (cases x)
    case (Inl e)
    with x show ?thesis by (simp add: publish_update_def unstage_kept [OF k2 assms(2)])
  next
    case (Inr c)
    show ?thesis
    proof (cases y)
      case (Inr v)
      with x y k3 \<open>x = Inr c\<close> show ?thesis by (simp add: publish_update_def stepping_def)
    next
      case (Inl p)
      with x y z \<open>x = Inr c\<close> kept_mark_failed [OF k4 assms(2)] show ?thesis
        by (cases p) (simp_all add: publish_update_def unstage_kept [OF k4 assms(2)], simp_all add: stepping_def)
    qed
  qed
qed

text \<open>How a rule update ends: the helper kept, or the new rules in force in memory and on disk.\<close>

definition committed :: "app_world \<Rightarrow> app_rule list \<Rightarrow> (string + unit) \<times> app_world \<Rightarrow> bool" where
  "committed w new r \<longleftrightarrow> (\<exists>h h'. aw_helper w = Some h \<and> h_process h' = h_process h \<and> h_token_path h' = h_token_path h
     \<and> frame_of (snd r) = (frame_of w)\<lparr>aw_helper := Some h', aw_rules := new, aw_disk_rules := new\<rparr>
     \<and> (is_ok (fst r) \<longrightarrow> \<not> h_failed h') \<and> (\<not> is_ok (fst r) \<longrightarrow> h_failed h'))"

definition settled :: "app_world \<Rightarrow> app_rule list \<Rightarrow> (string + unit) \<times> app_world \<Rightarrow> bool" where
  "settled w new r \<longleftrightarrow> committed w new r \<or> (\<not> is_ok (fst r) \<and> kept w (snd r))"

lemma settled_try:
  assumes "stepping w x" and "\<And>v w1. x = (Inr v, w1) \<Longrightarrow> frame_of w1 = frame_of w \<Longrightarrow> settled w new (k v w1)"
  shows "settled w new (try_then x k)"
proof (cases x)
  case (Pair r w1)
  with assms show ?thesis by (cases r) (auto simp: try_then_def stepping_def settled_def)
qed

lemma map_of_btree_insert_dom: "map_of (btree_insert k v m) k' = None \<longleftrightarrow> k' \<noteq> k \<and> map_of m k' = None"
  by (induction k v m rule: btree_insert.induct) auto

lemma old_listeners_primary: "map_of (old_listeners_of h port binding) (h_group h) \<noteq> None"
proof -
  have "map_of m g \<noteq> None \<Longrightarrow> map_of (fold (\<lambda>(g, spec). btree_insert g spec) xs m) g \<noteq> None" for m xs g
  proof (induction xs arbitrary: m)
    case (Cons x xs)
    obtain k v where x: "x = (k, v)" by (rule prod.exhaust)
    have "map_of (btree_insert k v m) g \<noteq> None" using Cons.prems by (simp add: map_of_btree_insert_dom del: not_None_eq)
    from Cons.IH [OF this] show ?case by (simp add: x)
  qed simp
  note keeps = this
  show ?thesis unfolding old_listeners_of_def by (rule keeps) simp
qed

lemma retire_obsolete_committed:
  assumes "committed w new (Inr (), w1)"
  shows "committed w new (retire_obsolete env names w1)"
  using assms
proof (induction names arbitrary: w1)
  case (Cons name names)
  obtain x w2 where x: "remove_listener env name w1 = (x, w2)" by (rule prod.exhaust)
  have k: "frame_of w2 = frame_of w1" using frame_quiet [of x w2 w1] quiet_remove_listener [OF refl, of env name w1] x by simp
  show ?case
  proof (cases x)
    case (Inr u)
    have "committed w new (Inr (), w2)" using Cons.prems k by (simp add: committed_def)
    with Cons.IH Inr x show ?thesis by simp
  next
    case (Inl e)
    from Cons.prems obtain h h' where h: "aw_helper w = Some h" "h_process h' = h_process h" "h_token_path h' = h_token_path h"
      "frame_of w2 = (frame_of w)\<lparr>aw_helper := Some h', aw_rules := new, aw_disk_rules := new\<rparr>"
      unfolding k committed_def by auto
    then have "aw_helper w2 = Some h'" using frame_of_sel(1) [of w2] by simp
    with h have "frame_of (mark_failed w2) = (frame_of w)\<lparr>aw_helper := Some (h'\<lparr>h_failed := True\<rparr>), aw_rules := new, aw_disk_rules := new\<rparr>"
      by (simp add: mark_failed_def frame_of_updates)
    with h x Inl show ?thesis unfolding committed_def by (intro exI [of _ h] exI [of _ "h'\<lparr>h_failed := True\<rparr>"]) simp
  qed
qed simp

lemma commit_rules_committed:
  assumes "aw_helper w = Some h" and "\<not> h_failed h" and "frame_of w1 = (frame_of w)\<lparr>aw_disk_rules := new\<rparr>"
  shows "committed w new (commit_rules env h new compiled version (old_listeners_of h port binding) listeners w1)"
proof -
  let ?extra = "filter (\<lambda>(g, _). g \<noteq> h_group h \<and> g \<in> set (required_groups new (h_group h))) listeners"
  let ?h = "h\<lparr>h_version := version, h_rules := compiled, h_extra := ?extra\<rparr>"
  obtain p where p: "map_of (old_listeners_of h port binding) (h_group h) = Some p" using old_listeners_primary by blast
  have "frame_of (w1\<lparr>aw_rules := new, aw_helper := Some ?h, aw_desired := d\<rparr>)
      = (frame_of w)\<lparr>aw_helper := Some ?h, aw_rules := new, aw_disk_rules := new\<rparr>" for d
    by (simp add: frame_of_updates frame_of_desired assms(3))
  then have "committed w new (Inr (), w1\<lparr>aw_rules := new, aw_helper := Some ?h, aw_desired := d\<rparr>)" for d
    unfolding committed_def using assms(1,2) by (intro exI [of _ h] exI [of _ ?h]) simp
  from retire_obsolete_committed [OF this] p show ?thesis by (simp add: commit_rules_def Let_def)
qed

lemma roll_back_settled:
  assumes "frame_of w1 = frame_of w" and "aw_helper w \<noteq> None"
  shows "settled w new (roll_back_rules env h old_groups version old staged error w1)"
proof -
  obtain x w2 where x: "apply_rules_to_helper env (h_rules h) old_groups version w1 = (x, w2)" by (rule prod.exhaust)
  have k2: "frame_of w2 = frame_of w"
    using frame_quiet [of x w2 w1] quiet_apply_rules [OF refl, of env "h_rules h" old_groups version w1] x assms(1) by simp
  show ?thesis
  proof (cases x)
    case (Inl e)
    with x kept_mark_failed [OF k2 assms(2)] show ?thesis by (simp add: roll_back_rules_def settled_def)
  next
    case (Inr old_version)
    obtain y w3 where y: "wait_rules_applied env 61 (Some (h_rules h)) old_groups old_version w2 = (y, w3)" by (rule prod.exhaust)
    have k3: "frame_of w3 = frame_of w"
      using frame_quiet [of y w3 w2] quiet_wait_rules [OF refl, of env 61 "Some (h_rules h)" old_groups old_version w2] y k2 by simp
    obtain z w4 where z: "restore_staged_listeners env old staged w3 = (z, w4)" by (rule prod.exhaust)
    have k4: "frame_of w4 = frame_of w" using restore_staged_frame [of env old staged w3] z k3 by simp
    obtain h0 where h0: "aw_helper w = Some h0" using assms(2) by blast
    then have h4: "aw_helper w4 = Some h0" using frame_of_sel(1) [of w4] frame_of_sel(1) [of w] k4 by simp
    have "h0\<lparr>h_version := old_version\<rparr> = h0\<lparr>h_version := old_version, h_failed := h_failed h0\<rparr>" by (cases h0) simp
    then have v: "kept w (w4\<lparr>aw_helper := Some (h0\<lparr>h_version := old_version\<rparr>)\<rparr>)"
      unfolding kept_def frame_of_updates k4 using h0 by metis
    show ?thesis
      using x Inr y z v h4 kept_mark_failed [OF k3 assms(2)] kept_mark_failed [OF k4 assms(2)]
      by (cases y; cases z) (simp_all add: roll_back_rules_def settled_def)
  qed
qed

lemma update_running_settled:
  assumes "aw_helper w = Some h" and "\<not> h_failed h"
  shows "settled w new (update_running_rules env h new w)"
proof -
  have some: "aw_helper w \<noteq> None" using assms(1) by simp
  note quietly = stepping_quiet [OF _ _ some]
  have pure: "stepping w (x, w1)" if "frame_of w1 = frame_of w" for x :: "string + 'b" and w1
    using that kept_frame [OF that some] by (simp add: stepping_def)
  have save: "settled w new (case save_rules_to_disk env new w1 of
      (Inl error, w) \<Rightarrow> roll_back_rules env h old_groups version old staged error w
    | (Inr _, w) \<Rightarrow> commit_rules env h new compiled version old listeners w)"
    if "frame_of w1 = frame_of w" "old = old_listeners_of h port binding"
    for w1 old_groups version old staged compiled listeners port binding
  proof (cases "q_save_rules env (aw_tick w1)")
    case (Inl e)
    then have "save_rules_to_disk env new w1 = (Inl e, snd (ask env (q_save_rules env) w1))"
      by (simp add: save_rules_to_disk_def ask_def try_then_def)
    moreover have "frame_of (snd (ask env (q_save_rules env) w1)) = frame_of w"
      using that(1) by (simp add: frame_of_core [OF core_of_ask])
    ultimately show ?thesis using roll_back_settled some by simp
  next
    case (Inr u)
    then have "save_rules_to_disk env new w1 = (Inr (), (snd (ask env (q_save_rules env) w1))\<lparr>aw_disk_rules := new\<rparr>)"
      by (simp add: save_rules_to_disk_def ask_def try_then_def)
    moreover have "frame_of ((snd (ask env (q_save_rules env) w1))\<lparr>aw_disk_rules := new\<rparr>) = (frame_of w)\<lparr>aw_disk_rules := new\<rparr>"
      using that(1) by (simp add: frame_of_updates frame_of_core [OF core_of_ask])
    ultimately show ?thesis using commit_rules_committed [OF assms] that(2) by (simp add: settled_def)
  qed
  have confirm: "settled w new (case wait_rules_applied env 61 (Some compiled) groups version w1 of
      (Inl error, w) \<Rightarrow> (Inl (''confirm new application rules: '' @ error), mark_failed w)
    | (Inr _, w) \<Rightarrow>
        (case save_rules_to_disk env new w of
           (Inl error, w) \<Rightarrow> roll_back_rules env h old_groups version (old_listeners_of h port binding) staged error w
         | (Inr _, w) \<Rightarrow> commit_rules env h new compiled version (old_listeners_of h port binding) listeners w))"
    if "frame_of w1 = frame_of w" for w1 compiled groups version old_groups port binding staged listeners
  proof -
    obtain y w2 where y: "wait_rules_applied env 61 (Some compiled) groups version w1 = (y, w2)" by (rule prod.exhaust)
    have k2: "frame_of w2 = frame_of w"
      using frame_quiet [of y w2 w1] quiet_wait_rules [OF refl, of env 61 "Some compiled" groups version w1] y that by simp
    show ?thesis using y kept_mark_failed [OF k2 some] save [OF k2 refl] by (cases y) (simp_all add: settled_def)
  qed
  show ?thesis
    unfolding update_running_rules_def Let_def
    apply (rule settled_try [OF quietly [OF quiet_bind_groups [OF refl] refl]])
    subgoal for v w1
      apply (cases "listener_port (h_listener h)")
       apply (simp add: settled_def kept_frame some)
      apply simp
      apply (rule settled_try [OF quietly [OF quiet_strategy_binding [OF refl]]], assumption)
      apply (rule settled_try [OF quietly [OF quiet_stage_new [OF refl]]], assumption)
      subgoal for port binding w2 x w3
        apply (cases x)
        apply simp
        apply (rule settled_try [OF pure], assumption)
        subgoal for listeners staged y w4
          apply (cases y)
          apply simp
          apply (rule settled_try [OF pure], assumption)
          subgoal for compiled groups z w5
            apply (cases z)
            apply simp
            apply (rule settled_try [OF configure_staged_stepping [OF _ some]], simp add: frame_of_desired)
            apply (rule settled_try [OF publish_update_stepping [OF _ some]], assumption)
            by (rule confirm)
          done
        done
      done
    done
qed

lemma kept_inv:
  assumes "kept w w'" and "app_inv env w"
  shows "app_inv env w'" and "aw_rules w' = aw_rules w"
proof -
  obtain h v f where h: "aw_helper w = Some h"
    and k: "frame_of w' = (frame_of w)\<lparr>aw_helper := Some (h\<lparr>h_version := v, h_failed := f\<rparr>)\<rparr>"
    using assms(1) unfolding kept_def by blast
  note s = frame_of_sel [of w', unfolded k, simplified, unfolded frame_of_sel]
  show "app_inv env w'" using assms(2) h unfolding app_inv_def s [symmetric] by simp
  show "aw_rules w' = aw_rules w" using s(3) by simp
qed

lemma committed_inv:
  assumes "committed w new r" and "app_inv env w"
  shows "app_inv env (snd r)" and "aw_rules (snd r) = new"
    and "\<exists>h. aw_helper (snd r) = Some h \<and> (h_failed h \<longleftrightarrow> \<not> is_ok (fst r))"
proof -
  obtain h h' where h: "aw_helper w = Some h" "h_process h' = h_process h" "h_token_path h' = h_token_path h"
    "h_failed h' \<longleftrightarrow> \<not> is_ok (fst r)"
    and k: "frame_of (snd r) = (frame_of w)\<lparr>aw_helper := Some h', aw_rules := new, aw_disk_rules := new\<rparr>"
    using assms(1) unfolding committed_def by blast
  note s = frame_of_sel [of "snd r", unfolded k, simplified, unfolded frame_of_sel]
  show "app_inv env (snd r)" using assms(2) h unfolding app_inv_def s [symmetric] by simp
  show "aw_rules (snd r) = new" using s(3) by simp
  show "\<exists>h. aw_helper (snd r) = Some h \<and> (h_failed h \<longleftrightarrow> \<not> is_ok (fst r))" 
    by (rule exI [of _ h']) (use s(1) h(4) in simp)
qed

text \<open>Before settling: a success has the new rules; a failure kept them, or left the helper in doubt.\<close>

lemma set_rules_locked_outcome:
  assumes "set_rules_locked env new w = (r, w')" and "app_inv env w" and "doubtless w"
  shows "app_inv env w' \<and> (case r of Inr _ \<Rightarrow> aw_rules w' = new \<and> doubtless w'
    | Inl _ \<Rightarrow> aw_rules w' = aw_rules w \<or> \<not> doubtless w' \<and> aw_rules w' = new)"
proof -
  define body where "body = (case aw_helper w of
      Some h \<Rightarrow>
        (if h_failed h then (Inl ''application proxy is not ready for rule updates'', w)
         else let (alive, w) = process_alive env (h_process h) w
              in if \<not> alive then (Inl ''application proxy is not ready for rule updates'', w)
                 else update_running_rules env h new w)
    | None \<Rightarrow>
        (let validation = map (\<lambda>g. (g, \<lparr>spec_name = g, spec_port = 0, spec_group = None\<rparr>)) (required_groups new ''regular'')
         in try_then (compile_rules new ''regular'' validation, w) (\<lambda>_ w.
            try_then (save_rules_to_disk env new w) (\<lambda>_ w. (Inr (), w\<lparr>aw_rules := new\<rparr>)))))"
  obtain x w1 where b: "body = (x, w1)" by (rule prod.exhaust)
  have i1: "app_inv env w1 \<and> (case x of Inr _ \<Rightarrow> aw_rules w1 = new \<and> doubtless w1
    | Inl _ \<Rightarrow> aw_rules w1 = aw_rules w \<or> \<not> doubtless w1 \<and> aw_rules w1 = new)"
  proof (cases "aw_helper w")
    case None
    define c where "c = compile_rules new ''regular'' (map (\<lambda>g. (g, \<lparr>spec_name = g, spec_port = 0, spec_group = None\<rparr>))
      (required_groups new ''regular''))"
    have x: "(x, w1) = try_then (c, w) (\<lambda>_ w. try_then (save_rules_to_disk env new w) (\<lambda>_ w. (Inr (), w\<lparr>aw_rules := new\<rparr>)))"
      using b None unfolding body_def c_def by simp
    have save: "save_rules_to_disk env new w = (q_save_rules env (aw_tick w), (case q_save_rules env (aw_tick w) of
        Inl _ \<Rightarrow> snd (ask env (\<lambda>_. ()) w) | Inr _ \<Rightarrow> (snd (ask env (\<lambda>_. ()) w))\<lparr>aw_disk_rules := new\<rparr>))"
      by (cases "q_save_rules env (aw_tick w)") (simp_all add: save_rules_to_disk_def ask_def try_then_def)
    show ?thesis
      using x None assms(2,3)
      by (cases c; cases "q_save_rules env (aw_tick w)")
        (simp_all add: save try_then_def ask_def app_inv_def doubtless_def)
  next
    case (Some h)
    then have f: "\<not> h_failed h" using assms(3) by (simp add: doubtless_def)
    obtain alive w0 where p: "process_alive env (h_process h) w = (alive, w0)" by (rule prod.exhaust)
    note g = process_alive_frame [OF p]
    have i0: "app_inv env w0" using assms(2) g(1-6) order_trans [OF g(7)] by (simp add: app_inv_def)
    show ?thesis
    proof (cases alive)
      case False
      with b Some f p have "x = Inl ''application proxy is not ready for rule updates''" "w1 = w0"
        by (simp_all add: body_def)
      with i0 g show ?thesis by simp
    next
      case True
      with b Some f p have u: "update_running_rules env h new w0 = (x, w1)" by (simp add: body_def)
      have "settled w0 new (x, w1)" using update_running_settled [of w0 h new env] g(1) Some f u by simp
      then show ?thesis
        using kept_inv [of w0 w1, OF _ i0] committed_inv [of w0 new "(x, w1)", OF _ i0] g(3)
        by (cases x) (auto simp: settled_def doubtless_def)
    qed
  qed
  have run: "(r, w') = (case x of Inl e \<Rightarrow> (Inl e, w1) | Inr _ \<Rightarrow> (let (s, w) = app_status_of env w1 in (Inr s, w)))"
    using assms(1) b unfolding set_rules_locked_def body_def [symmetric] by simp
  show ?thesis
  proof (cases x)
    case (Inl e)
    with run i1 show ?thesis by simp
  next
    case (Inr u)
    obtain s w2 where s: "app_status_of env w1 = (s, w2)" by (rule prod.exhaust)
    with run Inr have "r = Inr s" "w' = w2" by simp_all
    with app_status_inv [OF s] i1 Inr show ?thesis by (auto simp: doubtless_def)
  qed
qed

text \<open>The whole operation, with the helper of an uncertain update stopped.\<close>

lemma set_rules_outcome:
  assumes "set_rules env new w = (r, w')" and "app_inv env w" and "doubtless w"
  shows "app_inv env w' \<and> doubtless w' \<and> (case r of Inr _ \<Rightarrow> aw_rules w' = new
    | Inl _ \<Rightarrow> aw_rules w' = aw_rules w \<or> aw_helper w' = None \<and> aw_rules w' = new)"
proof -
  obtain r1 w1 where l: "set_rules_locked env new w = (r1, w1)" by (rule prod.exhaust)
  note o1 = set_rules_locked_outcome [OF l assms(2,3)]
  show ?thesis
  proof (cases r1)
    case (Inr s)
    with assms(1) l have "r = Inr s" "w' = w1" by (simp_all add: set_rules_def settle_rule_update_def)
    with o1 Inr show ?thesis by simp
  next
    case (Inl e)
    show ?thesis
    proof (cases "doubtless w1")
      case True
      with assms(1) l Inl have "r = Inl e" "w' = w1"
        by (auto simp: set_rules_def settle_rule_update_def doubtless_def split: option.splits)
      with o1 Inl True show ?thesis by simp
    next
      case False
      let ?w1 = "w1\<lparr>aw_error := Some (''rule update stopped after an uncertain helper state: '' @ e)\<rparr>"
      obtain y w2 where y: "stop_inner env True ?w1 = (y, w2)" by (rule prod.exhaust)
      have "\<exists>e. r = Inl e" "w' = w2"
        using assms(1) l Inl False y
        by (cases y; auto simp: set_rules_def settle_rule_update_def doubtless_def split: option.splits)+
      moreover have "app_inv env ?w1" using o1 by (simp add: app_inv_def)
      ultimately show ?thesis
        using stop_inner_inv [OF y] o1 Inl by (auto simp: doubtless_def)
    qed
  qed
qed

subsection \<open>Any sequence of operations\<close>

datatype app_op =
    AppStart start_request | AppResume | AppStop | AppShutdown | AppStatus | AppClearError
  | AppSetRules "app_rule list" | AppPutRule app_rule | AppRemoveRule string | AppToggleRule string bool | AppStrategy string

fun app_step :: "app_env \<Rightarrow> app_op \<Rightarrow> app_world \<Rightarrow> app_world" where
  "app_step env (AppStart request) w = snd (app_start env request w)"
| "app_step env AppResume w = resume_after_startup env w"
| "app_step env AppStop w = snd (app_stop env w)"
| "app_step env AppShutdown w = app_shutdown env w"
| "app_step env AppStatus w = snd (app_status_of env w)"
| "app_step env AppClearError w = clear_startup_error w"
| "app_step env (AppSetRules rules) w = snd (set_rules env rules w)"
| "app_step env (AppPutRule rule) w = snd (add_or_update_rule env rule w)"
| "app_step env (AppRemoveRule i) w = snd (remove_rule env i w)"
| "app_step env (AppToggleRule i enabled) w = snd (toggle_rule env i enabled w)"
| "app_step env (AppStrategy g) w = snd (set_app_proxy_strategy env g w)"

definition app_run :: "app_env \<Rightarrow> app_op list \<Rightarrow> app_world \<Rightarrow> app_world" where
  "app_run env ops w = fold (app_step env) ops w"

text \<open>The manager at the start of the program, with the rules and the preference found on disk.\<close>

definition fresh_app :: "app_rule list \<Rightarrow> bool \<Rightarrow> mapping option \<Rightarrow> app_world" where
  "fresh_app rules resume runtime = \<lparr>aw_helper = None, aw_desired = [], aw_error = None, aw_rules = rules,
     aw_running = False, aw_runtime = runtime, aw_disk_rules = rules, aw_resume = resume, aw_tokens = [],
     aw_live = [], aw_tick = 0\<rparr>"

lemma app_inv_error: "app_inv env (w\<lparr>aw_error := e\<rparr>) = app_inv env w" "doubtless (w\<lparr>aw_error := e\<rparr>) = doubtless w"
  by (simp_all add: app_inv_def doubtless_def)

lemma app_start_outcome:
  assumes "app_start env request w = (r, w')" and "app_inv env w" and "doubtless w"
  shows "app_inv env w' \<and> doubtless w' \<and> (case r of
      Inl e \<Rightarrow> aw_error w' = Some e \<and> (if aw_helper w = None then aw_helper w' = None else aw_helper w' = aw_helper w)
    | Inr s \<Rightarrow> aw_helper w = None \<and> aw_running w' \<and> aw_resume w' \<and> st_proxy_ready s
        \<and> aw_rules w' = effective_rules request (aw_rules w))"
proof -
  obtain x w1 where x: "start_inner env request (clear_startup_error w) = (x, w1)" by (rule prod.exhaust)
  have o1: "if aw_helper w \<noteq> None then w1 = clear_startup_error w \<and> \<not> is_ok x
    else start_outcome env (effective_rules request (aw_rules w)) x w1"
    using start_inner_result [OF x] assms(2) by (cases "aw_helper w") (simp_all add: clear_startup_error_def app_inv_error)
  show ?thesis
  proof (cases x)
    case (Inl e)
    with assms(1) x have "r = Inl e" "w' = w1\<lparr>aw_error := Some e\<rparr>" by (simp_all add: app_start_def)
    with o1 Inl assms(2,3) show ?thesis
      by (auto simp: app_inv_error clear_startup_error_def start_outcome_def doubtless_def split: if_splits)
  next
    case (Inr s)
    with assms(1) x have "r = Inr s" "w' = w1" by (simp_all add: app_start_def)
    with o1 Inr show ?thesis by (auto simp: start_outcome_def doubtless_def app_inv_def split: if_splits)
  qed
qed

lemma app_inv_stop: "app_inv env w \<Longrightarrow> app_inv env (snd (stop_inner env b w)) \<and> doubtless (snd (stop_inner env b w))
    \<and> aw_helper (snd (stop_inner env b w)) = None"
  using stop_inner_inv [of env b w "fst (stop_inner env b w)" "snd (stop_inner env b w)"] by (simp add: doubtless_def)

lemma app_stop_outcome:
  assumes "app_inv env w"
  shows "app_inv env (snd (app_stop env w)) \<and> doubtless (snd (app_stop env w)) \<and> aw_helper (snd (app_stop env w)) = None"
proof -
  obtain p w1 where p: "save_resume_intent env False w = (p, w1)" by (rule prod.exhaust)
  have k: "core_of w1 = (core_of w)\<lparr>aw_resume := (if is_ok p then False else aw_resume w)\<rparr>"
    using save_resume_core [OF p] by (cases w) (simp add: core_of_def)
  have "app_inv env w1" using core_of_sel [of w1] core_of_sel [of w] assms unfolding k by (simp add: app_inv_def)
  from app_inv_stop [OF this, of True] show ?thesis by (simp add: app_stop_def p split_beta)
qed

lemma app_step_inv: "app_inv env w \<and> doubtless w \<Longrightarrow> app_inv env (app_step env op w) \<and> doubtless (app_step env op w)"
proof -
  assume i: "app_inv env w \<and> doubtless w"
  have start: "app_inv env (snd (app_start env request w)) \<and> doubtless (snd (app_start env request w))" for request
    using app_start_outcome [OF surjective_pairing] i by blast
  have rules: "app_inv env (snd (set_rules env new w)) \<and> doubtless (snd (set_rules env new w))" for new
    using set_rules_outcome [OF surjective_pairing] i by blast
  have status: "app_inv env (snd (app_status_of env w)) \<and> doubtless (snd (app_status_of env w))"
    using app_status_inv [of env w "fst (app_status_of env w)" "snd (app_status_of env w)"] i by (auto simp: doubtless_def)
  show ?thesis
    using i start rules status app_inv_stop [of env w False] app_stop_outcome [of env w]
    by (cases op) (simp_all add: resume_after_startup_def app_shutdown_def clear_startup_error_def app_inv_error
      add_or_update_rule_def remove_rule_def toggle_rule_def set_app_proxy_strategy_def)
qed

lemma app_run_inv: "app_inv env (app_run env ops (fresh_app rules resume runtime)) \<and> doubtless (app_run env ops (fresh_app rules resume runtime))"
proof -
  have "app_inv env w \<and> doubtless w \<Longrightarrow> app_inv env (fold (app_step env) ops w) \<and> doubtless (fold (app_step env) ops w)" for w
    by (induction ops arbitrary: w) (use app_step_inv in auto)
  moreover have "app_inv env (fresh_app rules resume runtime) \<and> doubtless (fresh_app rules resume runtime)"
    by (simp add: fresh_app_def app_inv_def doubtless_def)
  ultimately show ?thesis by (simp add: app_run_def)
qed

text \<open>
  C10: after any sequence of starts, stops, status reports and rule changes, whatever the helper, the core,
  the file system and the other tasks did, the flag read by the tray agrees with the helper held, the
  rules in memory are the rules on disk, no listener is asked for without a helper, and no helper whose
  rules are uncertain is kept.
\<close>

theorem app_proxy_consistent:
  "case app_run env ops (fresh_app rules resume runtime) of w \<Rightarrow>
     aw_running w = (aw_helper w \<noteq> None) \<and> aw_disk_rules w = aw_rules w
     \<and> (case aw_helper w of Some h \<Rightarrow> h_failed h = False | None \<Rightarrow> aw_desired w = [])"
  using app_run_inv [of env ops rules resume runtime]
  by (auto simp: app_inv_def doubtless_def split: option.splits)


text \<open>
  C12: a rule change on a manager in any reachable state either succeeds, and then memory and disk hold the
  new rules; or it fails, and then the old rules still hold, unless the helper was stopped.
\<close>

theorem rule_update_all_or_nothing:
  "case app_run env ops (fresh_app rules resume runtime) of w \<Rightarrow>
     (case set_rules env new w of
        (Inr s, w') \<Rightarrow> aw_rules w' = new \<and> aw_disk_rules w' = new
      | (Inl e, w') \<Rightarrow> aw_disk_rules w' = aw_rules w' \<and>
          (aw_rules w' = aw_rules w \<or> (aw_rules w' = new \<and> aw_helper w' = None \<and> \<not> aw_running w')))"
proof -
  let ?w = "app_run env ops (fresh_app rules resume runtime)"
  obtain r w' where r: "set_rules env new ?w = (r, w')" by (rule prod.exhaust)
  have "app_inv env ?w" "doubtless ?w" using app_run_inv by blast+
  from set_rules_outcome [OF r this] r show ?thesis
    by (cases r) (auto simp: app_inv_def)
qed

text \<open>
  Starting the application proxy in any reachable state either reports full readiness, with the flag
  set, the requested rules in force and the preference to resume saved; or reports an error, with the helper
  as it was before: none, or the one already running.
\<close>

theorem start_is_ready_or_undone:
  "case app_run env ops (fresh_app rules resume runtime) of w \<Rightarrow>
     (case app_start env request w of
        (Inr s, w') \<Rightarrow> aw_helper w = None \<and> aw_running w' \<and> aw_resume w' \<and> st_proxy_ready s
          \<and> aw_rules w' = effective_rules request (aw_rules w)
      | (Inl e, w') \<Rightarrow> aw_error w' = Some e \<and> aw_running w' = aw_running w
          \<and> (if aw_helper w = None then aw_helper w' = None \<and> aw_desired w' = [] else aw_helper w' = aw_helper w))"
proof -
  let ?w = "app_run env ops (fresh_app rules resume runtime)"
  obtain r w' where r: "app_start env request ?w = (r, w')" by (rule prod.exhaust)
  have i: "app_inv env ?w" "doubtless ?w" using app_run_inv by blast+
  from app_start_outcome [OF r i] r i show ?thesis
    by (cases r) (auto simp: app_inv_def split: if_splits)
qed

text \<open>A helper that starts and takes its rules but never shows them.\<close>

definition calm_env :: app_env where
  "calm_env = \<lparr>own_pid = ''7'', fresh_id = show_nat, runtime_id = None, meddle = (\<lambda>_ m. m),
     q_proxies = (\<lambda>_. Inr (\<lambda>_. Some SelectorGroup)), q_bind_port = (\<lambda>t. Inr (of_nat (t + 2000))),
     q_update_flag = (\<lambda>_. True), q_transaction = (\<lambda>_. Inr ()), q_serialize = (\<lambda>_. Inr ()), q_validate = (\<lambda>_. Inr Valid),
     q_write_run = (\<lambda>_. Inr ()), q_apply = (\<lambda>_. Inr ()), q_connect = (\<lambda>_. True), q_api_free = (\<lambda>_. True),
     q_client = (\<lambda>_. Inr ()), q_put_rules = (\<lambda>_ r. Reply 200 (Inr (JObj [(''effective_version'', j_nat 1)]))),
     q_get_status = (\<lambda>_. Reply 200 (Inr (JObj [(''helper_ready'', JBool True), (''rules_revision'', j_nat 1)]))),
     q_get_config = (\<lambda>_. NoReply ''down''), q_exit_code = (\<lambda>_. Inr None), q_deadline = (\<lambda>_. False),
     q_helper_path = (\<lambda>_. Inr ()), q_write_config = (\<lambda>_ _. Inr ()), q_write_token = (\<lambda>_. TokenWritten ''/t/1'' ''secret''),
     q_remove_token = (\<lambda>_. Inr ()), q_spawn = (\<lambda>_. Inr 42), q_save_rules = (\<lambda>_. Inr ()), q_save_resume = (\<lambda>_. Inr ()),
     q_epoch = (\<lambda>_. \<lparr>up_depth = 0, up_epoch = 0\<rparr>)\<rparr>"


end
