(* ===== verification/Ports.thy ===== *)
theory Ports
  imports ClashConfig Verge
begin

section \<open>Choosing a port: \<open>utils/port.rs\<close>, \<open>config/mixed_port.rs\<close>, \<open>config/port.rs\<close>\<close>

text \<open>
  When another program holds the port of the mixed listener at start-up, the application moves this
  session to the next free port.  This theory models the search for it, the ports it must keep clear of,
  and which of the session's, the user's and the merged port counts.  Whether a port is free is asked
  of the system each time, so the question is an argument that threads the state of the system.
\<close>

subsection \<open>The search\<close>

definition MIN_FALLBACK_PORT :: u16 where "MIN_FALLBACK_PORT = 1025"

definition next_candidate :: "u16 \<Rightarrow> u16" where
  "next_candidate port = (if port < MIN_FALLBACK_PORT \<or> port = 65535 then MIN_FALLBACK_PORT else port + 1)"

fun find_loop :: "nat \<Rightarrow> u16 \<Rightarrow> u16 set \<Rightarrow> (u16 \<Rightarrow> 's \<Rightarrow> bool \<times> 's) \<Rightarrow> u16 \<Rightarrow> 's \<Rightarrow> u16 option \<times> 's" where
  "find_loop 0 current reserved is_available candidate s = (None, s)"
| "find_loop (Suc n) current reserved is_available candidate s =
     (if candidate \<noteq> current \<and> candidate \<notin> reserved then
        let (free, s) = is_available candidate s
        in if free then (Some candidate, s) else find_loop n current reserved is_available (next_candidate candidate) s
      else find_loop n current reserved is_available (next_candidate candidate) s)"

text \<open>One round for every port from 1025 to 65535.\<close>

definition find_next_available_port :: "u16 \<Rightarrow> u16 set \<Rightarrow> (u16 \<Rightarrow> 's \<Rightarrow> bool \<times> 's) \<Rightarrow> 's \<Rightarrow> u16 option \<times> 's" where
  "find_next_available_port current reserved is_available s =
     find_loop (Suc (unat (65535 :: u16)) - unat MIN_FALLBACK_PORT) current reserved is_available (next_candidate current) s"

subsection \<open>Ports that are spoken for\<close>

definition MIXED_PORT_KEY :: string where "MIXED_PORT_KEY = ''mixed-port''"

definition proxy_listener_keys :: "string list" where
  "proxy_listener_keys = [MIXED_PORT_KEY, ''socks-port'', ''port'', ''redir-port'', ''tproxy-port'']"

text \<open>Other than \<open>read_port_value\<close>, a number that does not fit is no port.\<close>

fun exact_port_value :: "yaml \<Rightarrow> u16 option" where
  "exact_port_value (Str port) = parse_u16 port"
| "exact_port_value (Number port) = Option.bind (as_u64 port) (\<lambda>p. if p < 65536 then Some (ucast p) else None)"
| "exact_port_value v = None"

definition configured_port :: "mapping \<Rightarrow> string \<Rightarrow> u16 option" where
  "configured_port m key = Option.bind (get m key) exact_port_value"

definition configured_listener_ports :: "platform \<Rightarrow> mapping \<Rightarrow> iverge \<Rightarrow> u16 set" where
  "configured_listener_ports plat clash verge =
     set (List.map_filter (configured_port clash) (filter (\<lambda>key. key \<noteq> MIXED_PORT_KEY) proxy_listener_keys))
     \<union> (case parse_socket_addr (guard_server_ctrl clash) of Some a \<Rightarrow> {word_of_nat (sock_port a)} | None \<Rightarrow> {})
     \<union> set_option (verge_socks_port verge) \<union> set_option (verge_port verge)
     \<union> (if plat \<noteq> Windows then set_option (verge_redir_port verge) else {})
     \<union> (if plat = Linux then set_option (verge_tproxy_port verge) else {})"

subsection \<open>The port of this session\<close>

text \<open>\<open>SESSION_FALLBACK\<close> holds 0 for none.\<close>

definition session_fallback :: "u16 \<Rightarrow> u16 option" where
  "session_fallback cell = (if cell = 0 then None else Some cell)"

definition set_session_fallback :: "u16 \<Rightarrow> u16" where
  "set_session_fallback port = port"

definition clear_session_fallback :: u16 where
  "clear_session_fallback = 0"

fun resolve_desired :: "u16 option \<Rightarrow> u16 option \<Rightarrow> u16 \<Rightarrow> u16" where
  "resolve_desired (Some port) selected merged = port"
| "resolve_desired None (Some port) merged = port"
| "resolve_desired None None merged = merged"

definition desired_port :: "u16 \<Rightarrow> iverge \<Rightarrow> mapping \<Rightarrow> u16" where
  "desired_port cell verge clash = resolve_desired (session_fallback cell) (verge_mixed_port verge) (get_mixed_port clash)"

definition resolve_effective :: "string + u16 \<Rightarrow> u16 \<Rightarrow> u16" where
  "resolve_effective live desired = (case live of Inr port \<Rightarrow> if port \<noteq> 0 then port else desired | Inl _ \<Rightarrow> desired)"

definition effective_port :: "string + u16 \<Rightarrow> u16 \<Rightarrow> iverge \<Rightarrow> mapping \<Rightarrow> u16" where
  "effective_port live cell verge clash = resolve_effective live (desired_port cell verge clash)"

subsection \<open>The search visits every port\<close>

lemma unat_bound: "unat (c :: u16) < 65536"
proof -
  have "unat c < 2 ^ LENGTH(16)" by (rule unsigned_less)
  then show ?thesis by simp
qed

lemma unat_next_candidate:
  "unat (next_candidate c) = (if unat c < 1025 \<or> unat c = 65535 then 1025 else unat c + 1)"
proof -
  have m: "c = 65535 \<longleftrightarrow> unat c = 65535" by (simp add: word_unat_eq_iff)
  have "unat (c + 1) = unat c + 1" if "unat c \<noteq> 65535"
    using that unat_bound [of c] by (simp add: unat_word_ariths)
  then show ?thesis by (auto simp: next_candidate_def MIN_FALLBACK_PORT_def word_less_nat_alt m)
qed

lemma unat_candidates:
  "unat ((next_candidate ^^ n) (next_candidate c)) = 1025 + (unat (next_candidate c) - 1025 + n) mod 64511"
proof (induction n)
  case 0
  have "1025 \<le> unat (next_candidate c)" "unat (next_candidate c) < 65536"
    using unat_bound [of "next_candidate c"] by (auto simp: unat_next_candidate)
  then show ?case by simp
next
  case (Suc n)
  let ?k = "unat (next_candidate c) - 1025 + n"
  have b: "?k mod 64511 < 64511" by simp
  have "unat ((next_candidate ^^ Suc n) (next_candidate c)) = (if ?k mod 64511 = 64510 then 1025 else 1025 + ?k mod 64511 + 1)"
    using Suc b by (simp add: unat_next_candidate)
  also have "\<dots> = 1025 + Suc ?k mod 64511" using b by (simp add: mod_Suc)
  finally show ?case by simp
qed

lemma candidate_reached:
  assumes "1025 \<le> unat p"
  shows "\<exists>i < 64511. (next_candidate ^^ i) (next_candidate c) = p"
proof -
  let ?s = "unat (next_candidate c) - 1025" and ?t = "unat p - 1025"
  have s: "?s < 64511" using unat_bound [of "next_candidate c"] by (simp add: unat_next_candidate)
  have t: "?t < 64511" using unat_bound [of p] assms by simp
  let ?i = "(?t + (64511 - ?s)) mod 64511"
  have "(?s + ?i) mod 64511 = (?s + (?t + (64511 - ?s))) mod 64511" by (simp add: mod_add_right_eq)
  also have "\<dots> = ?t" using s t by simp
  finally have "unat ((next_candidate ^^ ?i) (next_candidate c)) = unat p" using unat_candidates assms by simp
  then have "(next_candidate ^^ ?i) (next_candidate c) = p" by (simp add: word_unat_eq_iff)
  then show ?thesis by (intro exI [of _ ?i]) simp
qed

lemma find_loop_Some:
  "fst (find_loop n current reserved av c s) = Some p \<Longrightarrow>
     p \<noteq> current \<and> p \<notin> reserved \<and> (\<exists>s. fst (av p s)) \<and> (\<exists>i < n. p = (next_candidate ^^ i) c)"
proof (induction n arbitrary: c s)
  case (Suc n)
  have "p = (next_candidate ^^ i) (next_candidate c) \<Longrightarrow> p = (next_candidate ^^ Suc i) c" for i
    by (simp add: funpow_swap1)
  moreover obtain free s1 where "av c s = (free, s1)" by (rule prod.exhaust)
  moreover have "fst (av c s) \<Longrightarrow> \<exists>s. fst (av c s)" by blast
  ultimately show ?case using Suc by (fastforce split: if_splits)
qed simp

lemma find_loop_None:
  "fst (find_loop n current reserved av c s) = None \<Longrightarrow> i < n \<Longrightarrow> p = (next_candidate ^^ i) c
     \<Longrightarrow> p \<noteq> current \<Longrightarrow> p \<notin> reserved \<Longrightarrow> \<exists>s. \<not> fst (av p s)"
proof (induction n arbitrary: c s i)
  case (Suc n)
  obtain free s1 where a: "av c s = (free, s1)" by (rule prod.exhaust)
  show ?case
  proof (cases i)
    case 0
    with Suc.prems a have "\<not> fst (av p s)" by (auto split: if_splits)
    then show ?thesis by blast
  next
    case (Suc j)
    then have "p = (next_candidate ^^ j) (next_candidate c)" using Suc.prems(3) by (simp add: funpow_swap1)
    with Suc.IH [of "next_candidate c" _ j] Suc.prems Suc a show ?thesis by (auto split: if_splits)
  qed
qed simp

lemma rounds: "Suc (unat (65535 :: u16)) - unat MIN_FALLBACK_PORT = 64511"
  by (simp add: MIN_FALLBACK_PORT_def)

text \<open>
  C30: the search finds a port whenever one can be found: if some port from 1025 on, other than the
  current and the reserved ones, is free whenever it is asked about, a port is returned.
\<close>

theorem free_port_is_found:
  assumes "1025 \<le> unat p" and "p \<noteq> current" and "p \<notin> reserved" and "\<And>s. fst (is_available p s)"
  shows "\<exists>q. fst (find_next_available_port current reserved is_available s) = Some q"
proof (cases "fst (find_next_available_port current reserved is_available s)")
  case None
  obtain i where "i < 64511" "p = (next_candidate ^^ i) (next_candidate current)"
    using candidate_reached [OF assms(1)] by metis
  with find_loop_None None assms show ?thesis unfolding find_next_available_port_def rounds by metis
qed simp

theorem free_port_is_found_witness:
  "\<exists>q. fst (find_next_available_port 7897 {7898, 7899} (\<lambda>p n. (p = 7900, Suc n)) 0) = Some q"
  by (rule free_port_is_found [of 7900]) simp_all

lemma found_port_facts:
  assumes "fst (find_next_available_port current reserved is_available s) = Some q"
  shows "q \<noteq> current \<and> q \<notin> reserved \<and> (\<exists>s. fst (is_available q s)) \<and> 1025 \<le> unat q"
  using find_loop_Some [OF assms [unfolded find_next_available_port_def]] unat_candidates [of _ current] by fastforce

text \<open>
  A port the search returns is not the current one, not reserved, was free when it was asked about, and
  needs no privileges to bind.
\<close>

theorem found_port_is_eligible:
  assumes "fst (find_next_available_port current reserved is_available s) = Some q"
  shows "q \<noteq> current \<and> q \<notin> reserved \<and> (\<exists>s. fst (is_available q s)) \<and> 1025 \<le> unat q"
  using found_port_facts [OF assms] .

definition demo_available :: "u16 \<Rightarrow> nat \<Rightarrow> bool \<times> nat" where
  "demo_available p n = (p = 7900, Suc n)"

lemma demo_search: "fst (find_next_available_port 7897 {7898, 7899} demo_available 0) = Some 7900"
proof -
  have n: "(64511 :: nat) = Suc (Suc (Suc 64508))" by simp
  show ?thesis unfolding find_next_available_port_def rounds n
    by (simp only: find_loop.simps) (simp add: next_candidate_def MIN_FALLBACK_PORT_def demo_available_def)
qed

theorem found_port_is_eligible_witness:
  "(7900 :: u16) \<noteq> 7897 \<and> (7900 :: u16) \<notin> {7898, 7899} \<and> (\<exists>s. fst (demo_available 7900 s)) \<and> 1025 \<le> unat (7900 :: u16)"
  by (rule found_port_is_eligible [OF demo_search])

end
