(* ===== verification/Listeners.thy ===== *)
theory Listeners
  imports Ports NetAddr "HOL-Library.List_Lexorder"
begin

section \<open>Probing listeners: \<open>core/listener.rs\<close>\<close>

text \<open>
  Before the application moves the proxy ports it asks whether the core could listen there: every
  listener claims a port on every address it binds, a candidate configuration must not claim anything
  twice, and what the running core does not hold already is bound for a moment.  The replies of the
  system (binding, listening, connecting, the interfaces, the table of listeners on Windows) are
  arguments, read by a tick that every question advances.
\<close>

datatype transport = Tcp | Udp

datatype probe_outcome =
    Available
  | Conflict u16 transport
  | InvalidProbe string
  | Indeterminate string

definition PROXY_LISTENERS :: "(string \<times> string \<times> transport list) list" where
  "PROXY_LISTENERS = [
     (MIXED_PORT_KEY, ''mixed'', [Tcp, Udp]),
     (''socks-port'', ''socks'', [Tcp, Udp]),
     (''port'', ''http'', [Tcp]),
     (''redir-port'', ''redir'', [Tcp]),
     (''tproxy-port'', ''tproxy'', [Tcp, Udp])]"

record bind_claim =
  claim_name :: string
  claim_address :: ip_addr
  claim_port :: u16
  claim_transport :: transport

definition claim_socket_addr :: "bind_claim \<Rightarrow> socket_addr" where
  "claim_socket_addr c = \<lparr>sock_ip = claim_address c, sock_scope = 0, sock_port = unat (claim_port c)\<rparr>"

subsection \<open>Settings of the port dialog\<close>

record toggleable_port =
  port_enabled :: bool
  port_number :: u16

record proxy_port_settings =
  set_mixed_port :: u16
  set_socks :: toggleable_port
  set_http :: toggleable_port
  set_redir :: toggleable_port
  set_tproxy :: toggleable_port

definition validate_ports :: "proxy_port_settings \<Rightarrow> unit res" where
  "validate_ports s =
     (if set_mixed_port s = 0 then Inl ''mixed proxy port must be between 1 and 65535''
      else (case filter (\<lambda>(name, listener). port_number listener = 0)
              [(''SOCKS'', set_socks s), (''HTTP'', set_http s), (''redir'', set_redir s), (''TProxy'', set_tproxy s)] of
              (name, _) # _ \<Rightarrow> Inl (name @ '' proxy port must be between 1 and 65535'')
            | [] \<Rightarrow> Inr ()))"

subsection \<open>What a configuration claims\<close>

definition V4_LOCALHOST :: ip_addr where "V4_LOCALHOST = V4 [127, 0, 0, 1]"
definition V4_UNSPECIFIED :: ip_addr where "V4_UNSPECIFIED = V4 [0, 0, 0, 0]"
definition V6_LOCALHOST :: ip_addr where "V6_LOCALHOST = V6 [0, 0, 0, 0, 0, 0, 0, 1]"
definition V6_UNSPECIFIED :: ip_addr where "V6_UNSPECIFIED = V6 [0, 0, 0, 0, 0, 0, 0, 0]"

fun is_ipv4 :: "ip_addr \<Rightarrow> bool" where
  "is_ipv4 (V4 octets) = True"
| "is_ipv4 (V6 groups) = False"

text \<open>\<open>strip_prefix('[')\<close> then \<open>strip_suffix(']')\<close>, or the whole string.\<close>

definition unbracketed :: "string \<Rightarrow> string" where
  "unbracketed s = (case s of c # r \<Rightarrow> if c = CHR ''['' \<and> ends_with '']'' r then butlast r else s | [] \<Rightarrow> s)"

definition proxy_bind_addresses :: "mapping \<Rightarrow> ip_addr list res" where
  "proxy_bind_addresses config =
     (let ipv6 = unwrap_or True (Option.bind (get config ''ipv6'') as_bool);
          allow_lan = unwrap_or False (Option.bind (get config ''allow-lan'') as_bool)
      in if \<not> allow_lan then Inr [V4_LOCALHOST]
         else let bind_address = (case map_option trim (Option.bind (get config ''bind-address'') as_str) of
                     Some address \<Rightarrow> if address \<noteq> [] then address else ''*'' | None \<Rightarrow> ''*'')
              in if bind_address = ''*'' then Inr (V4_UNSPECIFIED # (if ipv6 then [V6_UNSPECIFIED] else []))
                 else if eq_ignore_case bind_address ''localhost'' then Inr [V4_LOCALHOST]
                 else (case parse_ip (unbracketed bind_address) of
                         Some ip \<Rightarrow> Inr [ip]
                       | None \<Rightarrow> Inl (''invalid bind-address '' @ bind_address)))"

definition mapping_port :: "mapping \<Rightarrow> string \<Rightarrow> u16 option res" where
  "mapping_port config key =
     (case get config key of
        None \<Rightarrow> Inr None
      | Some value \<Rightarrow> (case exact_port_value value of
            None \<Rightarrow> Inl (key @ '' must be an integer between 1 and 65535'')
          | Some port \<Rightarrow> if port = 0 then Inl (key @ '' must be an integer between 1 and 65535'') else Inr (Some port)))"

definition listener_claims :: "ip_addr list \<Rightarrow> string \<Rightarrow> u16 \<Rightarrow> transport list \<Rightarrow> bind_claim list" where
  "listener_claims addresses name port transports =
     concat (map (\<lambda>address. map (\<lambda>t. \<lparr>claim_name = name, claim_address = address, claim_port = port,
       claim_transport = t\<rparr>) transports) addresses)"

fun claims_loop :: "platform \<Rightarrow> mapping \<Rightarrow> ip_addr list \<Rightarrow> (string \<times> string \<times> transport list) list \<Rightarrow> bind_claim list res" where
  "claims_loop plat config addresses [] = Inr []"
| "claims_loop plat config addresses ((key, name, transports) # listeners) =
     (if plat = Windows \<and> (key = ''redir-port'' \<or> key = ''tproxy-port'') then claims_loop plat config addresses listeners
      else and_then (mapping_port config key) (\<lambda>port.
           and_then (claims_loop plat config addresses listeners) (\<lambda>claims.
           Inr ((case port of Some p \<Rightarrow> listener_claims addresses name p transports | None \<Rightarrow> []) @ claims))))"

definition proxy_claims :: "platform \<Rightarrow> mapping \<Rightarrow> bind_claim list res" where
  "proxy_claims plat config =
     and_then (proxy_bind_addresses config) (\<lambda>addresses. claims_loop plat config addresses PROXY_LISTENERS)"

definition claims_overlap :: "bind_claim \<Rightarrow> bind_claim \<Rightarrow> bool" where
  "claims_overlap left right =
     (claim_port left = claim_port right \<and> claim_transport left = claim_transport right
      \<and> is_ipv4 (claim_address left) = is_ipv4 (claim_address right)
      \<and> (claim_address left = claim_address right \<or> is_unspecified (claim_address left)
          \<or> is_unspecified (claim_address right)))"

definition conflict_outcome :: "bind_claim \<Rightarrow> probe_outcome" where
  "conflict_outcome c = Conflict (claim_port c) (claim_transport c)"

fun conflict_loop :: "bind_claim list \<Rightarrow> bind_claim list \<Rightarrow> probe_outcome option" where
  "conflict_loop before [] = None"
| "conflict_loop before (c # cs) =
     (if list_ex (\<lambda>existing. claims_overlap existing c) before then Some (conflict_outcome c)
      else conflict_loop (before @ [c]) cs)"

definition internal_conflict :: "bind_claim list \<Rightarrow> probe_outcome option" where
  "internal_conflict claims = conflict_loop [] claims"

subsection \<open>Asking the system\<close>

datatype io_kind = AddrInUse | AddrNotAvailable | InvalidInput | Unsupported | OtherIo

text \<open>An I/O error, with whether its Windows code is \<open>WSAEACCES\<close>.\<close>

record io_error =
  io_kind :: io_kind
  io_access_denied :: bool
  io_text :: string

record probe_env =
  p_platform :: platform
  p_interfaces :: "nat \<Rightarrow> string + ip_addr list"
  p_bind :: "nat \<Rightarrow> bind_claim \<Rightarrow> io_error + unit"
  p_listen :: "nat \<Rightarrow> bind_claim \<Rightarrow> io_error + unit"
  p_refused :: "nat \<Rightarrow> bind_claim \<Rightarrow> bool"
  p_wildcard :: "nat \<Rightarrow> ip_addr \<Rightarrow> u16 \<Rightarrow> io_error + bool"

definition is_bind_conflict :: "platform \<Rightarrow> io_error \<Rightarrow> bool" where
  "is_bind_conflict plat e = (io_kind e = AddrInUse \<or> (plat = Windows \<and> io_access_denied e))"

definition nothing_is_serving :: "probe_env \<Rightarrow> bind_claim \<Rightarrow> nat \<Rightarrow> bool \<times> nat" where
  "nothing_is_serving env c t =
     (if claim_transport c \<noteq> Tcp \<or> is_unspecified (claim_address c) then (False, t) else (p_refused env t c, Suc t))"

definition bind_socket :: "probe_env \<Rightarrow> bind_claim \<Rightarrow> nat \<Rightarrow> (io_error + unit) \<times> nat" where
  "bind_socket env c t = (p_bind env t c, Suc t)"

fun is_link_local :: "ip_addr \<Rightarrow> bool" where
  "is_link_local (V4 octets) = (octets ! 0 = 169 \<and> octets ! 1 = 254)"
| "is_link_local (V6 groups) = (groups ! 0 div 64 = 1018)"

text \<open>
  On macOS a wildcard and a specific listener may share a port, so the addresses that overlap a claim
  are bound as well, in their order and without repetition.
\<close>

fun address_key :: "ip_addr \<Rightarrow> nat list" where
  "address_key (V4 octets) = octets"
| "address_key (V6 groups) = groups"

definition guard_addresses :: "bind_claim \<Rightarrow> ip_addr list \<Rightarrow> ip_addr list" where
  "guard_addresses c interfaces =
     (let v4 = is_ipv4 (claim_address c);
          found = (if is_unspecified (claim_address c)
            then filter (\<lambda>a. is_ipv4 a = v4 \<and> \<not> is_unspecified a \<and> \<not> is_link_local a) interfaces
              @ [if v4 then V4_LOCALHOST else V6_LOCALHOST]
            else [if v4 then V4_UNSPECIFIED else V6_UNSPECIFIED])
      in map (if v4 then V4 else V6) (sort (remdups (map address_key found))))"

fun guard_loop :: "probe_env \<Rightarrow> bind_claim \<Rightarrow> ip_addr list \<Rightarrow> bool \<Rightarrow> nat \<Rightarrow> (io_error + bool) \<times> nat" where
  "guard_loop env c [] stale_guard t = (Inr stale_guard, t)"
| "guard_loop env c (a # addresses) stale_guard t =
     (let guard_claim = c\<lparr>claim_address := a\<rparr>; (r, t) = bind_socket env guard_claim t
      in (case r of
            Inl e \<Rightarrow>
              if is_bind_conflict (p_platform env) e then
                let (quiet, t) = nothing_is_serving env guard_claim t
                in if quiet then guard_loop env c addresses True t else (Inl e, t)
              else guard_loop env c addresses stale_guard t
          | Inr _ \<Rightarrow> guard_loop env c addresses stale_guard t))"

definition plain_bind :: "probe_env \<Rightarrow> bind_claim \<Rightarrow> nat \<Rightarrow> (io_error + unit) \<times> nat" where
  "plain_bind env c t =
     try_then (bind_socket env c t) (\<lambda>_ t.
     try_then (if claim_transport c = Tcp then (p_listen env t c, Suc t) else (Inr (), t)) (\<lambda>_ t.
     if p_platform env = Windows \<and> claim_transport c = Tcp \<and> \<not> is_unspecified (claim_address c)
     then try_then (p_wildcard env t (claim_address c) (claim_port c), Suc t) (\<lambda>found t.
            (if found then Inl \<lparr>io_kind = AddrInUse, io_access_denied = False, io_text = ''address in use''\<rparr> else Inr (), t))
     else (Inr (), t)))"

definition bind_claim_held :: "probe_env \<Rightarrow> bind_claim \<Rightarrow> nat \<Rightarrow> (io_error + unit) \<times> nat" where
  "bind_claim_held env c t =
     (if p_platform env = MacOS \<and> claim_transport c = Tcp then
        let (interfaces, t) = (if is_unspecified (claim_address c) then (p_interfaces env t, Suc t) else (Inr [], t));
            addresses = guard_addresses c (case interfaces of Inr is \<Rightarrow> is | Inl _ \<Rightarrow> [])
        in try_then (guard_loop env c addresses False t) (\<lambda>stale_guard t.
             if stale_guard then (Inr (), t) else plain_bind env c t)
      else plain_bind env c t)"

definition transport_name :: "transport \<Rightarrow> string" where
  "transport_name t = (case t of Tcp \<Rightarrow> ''TCP'' | Udp \<Rightarrow> ''UDP'')"

definition claim_text :: "bind_claim \<Rightarrow> string" where
  "claim_text c = show_socket_addr (claim_socket_addr c) @ '' over '' @ transport_name (claim_transport c)"

fun probe_claims :: "probe_env \<Rightarrow> bind_claim list \<Rightarrow> nat \<Rightarrow> probe_outcome \<times> nat" where
  "probe_claims env [] t = (Available, t)"
| "probe_claims env (c # claims) t =
     (let (bound, t) = bind_claim_held env c t
      in (case bound of
            Inr _ \<Rightarrow> probe_claims env claims t
          | Inl error \<Rightarrow>
              if is_bind_conflict (p_platform env) error then
                let (quiet, t) = nothing_is_serving env c t
                in if quiet then probe_claims env claims t else (conflict_outcome c, t)
              else if io_kind error = AddrNotAvailable \<or> io_kind error = InvalidInput \<or> io_kind error = Unsupported
              then (InvalidProbe (claim_name c @ '' cannot listen on '' @ claim_text c @ '': '' @ io_text error), t)
              else (Indeterminate (''unable to verify '' @ claim_name c @ '' on '' @ claim_text c @ '': '' @ io_text error), t)))"

subsection \<open>Probes\<close>

definition probe_mixed_port :: "probe_env \<Rightarrow> ip_addr list \<Rightarrow> u16 \<Rightarrow> nat \<Rightarrow> probe_outcome \<times> nat" where
  "probe_mixed_port env addresses port t = probe_claims env (listener_claims addresses ''mixed'' port [Tcp, Udp]) t"

definition mixed_port_is_available :: "probe_env \<Rightarrow> ip_addr list \<Rightarrow> u16 \<Rightarrow> nat \<Rightarrow> bool \<times> nat" where
  "mixed_port_is_available env addresses port t =
     (let (outcome, t) = probe_mixed_port env addresses port t in (outcome = Available, t))"

fun rsplit_colon :: "string \<Rightarrow> (string \<times> string) option" where
  "rsplit_colon [] = None"
| "rsplit_colon (c # s) = (case rsplit_colon s of
     Some (host, port) \<Rightarrow> Some (c # host, port)
   | None \<Rightarrow> if c = CHR '':'' then Some ([], s) else None)"

definition parse_listener_address :: "string \<Rightarrow> (ip_addr list \<times> u16) res" where
  "parse_listener_address address0 =
     (let address = trim address0
      in (case parse_socket_addr address of
            Some socket \<Rightarrow> if sock_port socket = 0 then Inl ''listener port must be between 1 and 65535''
              else Inr ([sock_ip socket], word_of_nat (sock_port socket))
          | None \<Rightarrow> (case rsplit_colon address of
                None \<Rightarrow> Inl ''listener address must include a port''
              | Some (host, port_text) \<Rightarrow> (case parse_u16 port_text of
                    None \<Rightarrow> Inl (''invalid listener port '' @ port_text)
                  | Some port \<Rightarrow>
                      if port = 0 then Inl ''listener port must be between 1 and 65535''
                      else let host = unbracketed (trim host)
                           in if eq_ignore_case host ''localhost'' then Inr ([V4_LOCALHOST], port)
                              else (case parse_ip host of
                                      Some ip \<Rightarrow> Inr ([ip], port)
                                    | None \<Rightarrow> Inl (''invalid listener host '' @ host))))))"

definition probe_listener :: "probe_env \<Rightarrow> string \<Rightarrow> transport list \<Rightarrow> nat \<Rightarrow> probe_outcome \<times> nat" where
  "probe_listener env address requested t =
     (case parse_listener_address address of
        Inl error \<Rightarrow> (InvalidProbe error, t)
      | Inr (addresses, port) \<Rightarrow>
          (let transports = fold (\<lambda>x xs. if x \<in> set xs then xs else xs @ [x]) requested []
           in if transports = [] then (InvalidProbe ''listener transport list cannot be empty'', t)
              else probe_claims env (listener_claims addresses ''listener'' port transports) t))"

text \<open>What the running core holds already is not bound: it gives its sockets back when it restarts.\<close>

definition new_claims :: "bind_claim list \<Rightarrow> bind_claim list \<Rightarrow> bind_claim list" where
  "new_claims current candidate = filter (\<lambda>c. \<not> list_ex (\<lambda>held. claims_overlap held c) current) candidate"

definition probe_proxy_port_change :: "probe_env \<Rightarrow> mapping \<Rightarrow> mapping \<Rightarrow> bool \<Rightarrow> nat \<Rightarrow> probe_outcome \<times> nat" where
  "probe_proxy_port_change env current candidate current_core_is_running t =
     (case (if current_core_is_running then proxy_claims (p_platform env) current else Inr []) of
        Inl error \<Rightarrow> (InvalidProbe (''current proxy listener configuration is invalid: '' @ error), t)
      | Inr current_claims \<Rightarrow> (case proxy_claims (p_platform env) candidate of
            Inl error \<Rightarrow> (InvalidProbe (''candidate proxy listener configuration is invalid: '' @ error), t)
          | Inr candidate_claims \<Rightarrow> (case internal_conflict candidate_claims of
                Some conflict \<Rightarrow> (conflict, t)
              | None \<Rightarrow> probe_claims env (new_claims current_claims candidate_claims) t)))"

subsection \<open>Claims\<close>

lemma claims_overlap_refl: "claims_overlap c c"
  by (simp add: claims_overlap_def)

lemma conflict_loop_None:
  "conflict_loop before cs = None \<longleftrightarrow> (\<forall>b \<in> set before. \<forall>c \<in> set cs. \<not> claims_overlap b c)
     \<and> sorted_wrt (\<lambda>b c. \<not> claims_overlap b c) cs"
  by (induction before cs rule: conflict_loop.induct) (auto simp: list_ex_iff)

lemma internal_conflict_None: "internal_conflict cs = None \<longleftrightarrow> sorted_wrt (\<lambda>b c. \<not> claims_overlap b c) cs"
  by (simp add: internal_conflict_def conflict_loop_None)

lemma conflict_loop_Some:
  "conflict_loop before cs = Some out \<Longrightarrow>
     \<exists>pre c post. cs = pre @ c # post \<and> out = conflict_outcome c \<and> list_ex (\<lambda>b. claims_overlap b c) (before @ pre)"
proof (induction before cs rule: conflict_loop.induct)
  case (2 before c cs)
  show ?case
  proof (cases "list_ex (\<lambda>existing. claims_overlap existing c) before")
    case True
    with 2(2) show ?thesis by (intro exI [of _ "[]"] exI [of _ c] exI [of _ cs]) auto
  next
    case False
    with 2 obtain pre d post where "cs = pre @ d # post" "out = conflict_outcome d"
      "list_ex (\<lambda>b. claims_overlap b d) ((before @ [c]) @ pre)" by auto
    then show ?thesis by (intro exI [of _ "c # pre"] exI [of _ d] exI [of _ post]) auto
  qed
qed simp

lemma bind_addresses_nonempty: "proxy_bind_addresses config = Inr addresses \<Longrightarrow> addresses \<noteq> []"
  by (auto simp: proxy_bind_addresses_def Let_def split: if_splits option.splits)

text \<open>The listeners of a platform; all of them use TCP, the ports of transparent proxies not on Windows.\<close>

definition platform_listeners :: "platform \<Rightarrow> string list" where
  "platform_listeners plat = (if plat = Windows then [MIXED_PORT_KEY, ''socks-port'', ''port''] else proxy_listener_keys)"

definition has_claim :: "bind_claim list \<Rightarrow> ip_addr \<Rightarrow> u16 \<Rightarrow> bool" where
  "has_claim cs a p \<longleftrightarrow> (\<exists>c \<in> set cs. claim_address c = a \<and> claim_port c = p \<and> claim_transport c = Tcp)"

lemma claims_loop_split:
  "claims_loop plat config addresses (xs @ ys) = Inr cs \<Longrightarrow>
     \<exists>cs1 cs2. claims_loop plat config addresses xs = Inr cs1 \<and> claims_loop plat config addresses ys = Inr cs2 \<and> cs = cs1 @ cs2"
proof (induction xs arbitrary: cs)
  case (Cons x xs)
  obtain key name ts where x: "x = (key, name, ts)" by (metis prod.exhaust)
  from Cons show ?case unfolding x by (fastforce simp: and_then_Inr_conv split: if_splits)
qed simp

lemma claims_loop_claim:
  assumes "claims_loop plat config addresses listeners = Inr cs" and "(key, name, ts) \<in> set listeners" and "Tcp \<in> set ts"
    and "\<not> (plat = Windows \<and> (key = ''redir-port'' \<or> key = ''tproxy-port''))"
    and "mapping_port config key = Inr (Some p)" and "a \<in> set addresses"
  shows "has_claim cs a p"
  using assms(1,2)
proof (induction listeners arbitrary: cs)
  case (Cons x listeners)
  obtain key' name' ts' where x: "x = (key', name', ts')" by (metis prod.exhaust)
  show ?case
  proof (cases "(key, name, ts) = x")
    case True
    then obtain rest where "cs = listener_claims addresses name p ts @ rest"
      using Cons.prems(1) x assms(4,5) by (auto simp: and_then_Inr_conv split: if_splits)
    then show ?thesis using assms(3,6)
      by (auto simp: has_claim_def listener_claims_def intro!: bexI [where x = "\<lparr>claim_name = name, claim_address = a,
        claim_port = p, claim_transport = Tcp\<rparr>"])
  next
    case False
    with Cons.prems x obtain cs1 rest where "claims_loop plat config addresses listeners = Inr rest" "cs = cs1 @ rest"
      by (auto simp: and_then_Inr_conv split: if_splits)
    with Cons.IH [of rest] Cons.prems(2) False show ?thesis by (auto simp: has_claim_def)
  qed
qed simp

lemma overlapping_claims_conflict:
  assumes "has_claim xs a p" and "has_claim ys a p" and "zs = xs @ ys"
  shows "internal_conflict zs \<noteq> None"
proof -
  obtain c d where "c \<in> set xs" "d \<in> set ys" and f: "claim_address c = a" "claim_port c = p" "claim_transport c = Tcp"
    "claim_address d = a" "claim_port d = p" "claim_transport d = Tcp"
    using assms unfolding has_claim_def by blast
  moreover have "claims_overlap c d" using f by (simp add: claims_overlap_def)
  ultimately show ?thesis by (auto simp: internal_conflict_None assms(3) sorted_wrt_append)
qed

subsection \<open>What the answers of a probe mean\<close>

text \<open>The claim could be bound, or nobody answered there although it could not.\<close>

definition verified :: "probe_env \<Rightarrow> bind_claim \<Rightarrow> bool" where
  "verified env c \<longleftrightarrow> (\<exists>t. is_ok (fst (bind_claim_held env c t)) \<or> fst (nothing_is_serving env c t))"

text \<open>The claim was refused as taken, and it was not shown that nobody serves it.\<close>

definition taken :: "probe_env \<Rightarrow> bind_claim \<Rightarrow> bool" where
  "taken env c \<longleftrightarrow> (\<exists>t e t'. bind_claim_held env c t = (Inl e, t') \<and> is_bind_conflict (p_platform env) e
     \<and> \<not> fst (nothing_is_serving env c t'))"

lemma probe_claims_available: "probe_claims env cs t = (Available, t') \<Longrightarrow> c \<in> set cs \<Longrightarrow> verified env c"
proof (induction cs arbitrary: t)
  case (Cons d cs)
  obtain r t1 where b: "bind_claim_held env d t = (r, t1)" by (rule prod.exhaust)
  obtain quiet t2 where q: "nothing_is_serving env d t1 = (quiet, t2)" by (rule prod.exhaust)
  have "verified env d" and "\<exists>t3. probe_claims env cs t3 = (Available, t')"
    using Cons.prems(1) b q fst_conv [of r t1] fst_conv [of quiet t2]
    by (auto simp: verified_def conflict_outcome_def split: sum.splits if_splits) (metis fst_conv is_ok_simps(1))+
  with Cons show ?case by auto
qed simp

lemma probe_claims_conflict:
  "probe_claims env cs t = (Conflict p tr, t') \<Longrightarrow>
     \<exists>c \<in> set cs. claim_port c = p \<and> claim_transport c = tr \<and> taken env c"
proof (induction cs arbitrary: t)
  case (Cons d cs)
  obtain r t1 where b: "bind_claim_held env d t = (r, t1)" by (rule prod.exhaust)
  obtain quiet t2 where q: "nothing_is_serving env d t1 = (quiet, t2)" by (rule prod.exhaust)
  show ?case
  proof (cases "\<exists>e. r = Inl e \<and> is_bind_conflict (p_platform env) e \<and> \<not> quiet")
    case True
    then obtain e where "r = Inl e" "is_bind_conflict (p_platform env) e" "\<not> quiet" by blast
    moreover from this have "taken env d" unfolding taken_def using b q by (metis fst_conv)
    ultimately show ?thesis using Cons.prems b q by (auto simp: conflict_outcome_def)
  next
    case False
    then have "\<exists>t3. probe_claims env cs t3 = (Conflict p tr, t')"
      using Cons.prems b q by (auto split: sum.splits if_splits)
    with Cons.IH show ?thesis by auto
  qed
qed simp

definition port_of :: "mapping \<Rightarrow> string \<Rightarrow> u16 option" where
  "port_of config key = (case mapping_port config key of Inr p \<Rightarrow> p | Inl _ \<Rightarrow> None)"

definition distinct_ports :: "platform \<Rightarrow> mapping \<Rightarrow> bool" where
  "distinct_ports plat config = distinct (List.map_filter (port_of config) (platform_listeners plat))"

definition open_claims :: "platform \<Rightarrow> mapping \<Rightarrow> mapping \<Rightarrow> bool \<Rightarrow> bind_claim list res" where
  "open_claims plat current candidate running =
     and_then (if running then proxy_claims plat current else Inr []) (\<lambda>held.
     and_then (proxy_claims plat candidate) (\<lambda>claims. Inr (new_claims held claims)))"

lemma split_between:
  "x \<in> set zs \<Longrightarrow> y \<in> set zs \<Longrightarrow> x \<noteq> y \<Longrightarrow>
     \<exists>us vs. zs = us @ vs \<and> (x \<in> set us \<and> y \<in> set vs \<or> y \<in> set us \<and> x \<in> set vs)"
proof (induction zs)
  case (Cons z zs)
  show ?case
  proof (cases "z = x \<or> z = y")
    case True
    with Cons.prems show ?thesis by (intro exI [of _ "[z]"] exI [of _ zs]) auto
  next
    case False
    with Cons obtain us vs where "zs = us @ vs" "x \<in> set us \<and> y \<in> set vs \<or> y \<in> set us \<and> x \<in> set vs" by auto
    then show ?thesis by (intro exI [of _ "z # us"] exI [of _ vs]) auto
  qed
qed simp

lemma distinct_map_filter:
  "distinct ks \<Longrightarrow> (\<And>k l p. k \<in> set ks \<Longrightarrow> l \<in> set ks \<Longrightarrow> f k = Some p \<Longrightarrow> f l = Some p \<Longrightarrow> k = l)
     \<Longrightarrow> distinct (List.map_filter f ks)"
proof (induction ks)
  case (Cons k ks)
  have "distinct (List.map_filter f ks)" by (rule Cons.IH) (use Cons.prems in auto)
  moreover have "p \<notin> set (List.map_filter f ks)" if p: "f k = Some p" for p
  proof
    assume "p \<in> set (List.map_filter f ks)"
    then obtain l where "l \<in> set ks" "f l = Some p" by (auto simp: List.map_filter_def)
    with Cons.prems p show False by auto
  qed
  ultimately show ?case by (auto simp: List.map_filter_simps split: option.splits)
qed (simp add: List.map_filter_simps)

lemma platform_listener_entry:
  assumes "k \<in> set (platform_listeners plat)"
  shows "\<exists>name ts. (k, name, ts) \<in> set PROXY_LISTENERS \<and> Tcp \<in> set ts
    \<and> \<not> (plat = Windows \<and> (k = ''redir-port'' \<or> k = ''tproxy-port''))"
proof -
  have "list_all (\<lambda>k. list_ex (\<lambda>(l, name, ts). l = k \<and> Tcp \<in> set ts
      \<and> \<not> (plat = Windows \<and> (k = ''redir-port'' \<or> k = ''tproxy-port''))) PROXY_LISTENERS) (platform_listeners plat)"
    by (cases plat) (simp_all add: platform_listeners_def PROXY_LISTENERS_def proxy_listener_keys_def MIXED_PORT_KEY_def)
  then obtain x where "x \<in> set PROXY_LISTENERS" "case x of (l, name, ts) \<Rightarrow> l = k \<and> Tcp \<in> set ts
      \<and> \<not> (plat = Windows \<and> (k = ''redir-port'' \<or> k = ''tproxy-port''))"
    using assms unfolding list_all_iff list_ex_iff by blast
  then show ?thesis by (cases x rule: prod_cases3) blast
qed

lemma same_port_conflicts:
  assumes claims: "proxy_claims plat config = Inr cs" and kl: "k \<in> set (platform_listeners plat)" "l \<in> set (platform_listeners plat)" "k \<noteq> l"
    and p: "port_of config k = Some p" "port_of config l = Some p"
  shows "internal_conflict cs \<noteq> None"
proof -
  obtain addresses where as: "proxy_bind_addresses config = Inr addresses" "claims_loop plat config addresses PROXY_LISTENERS = Inr cs"
    using claims by (auto simp: proxy_claims_def and_then_Inr_conv)
  obtain a where a: "a \<in> set addresses" using bind_addresses_nonempty [OF as(1)] by (cases addresses) auto
  obtain n1 t1 n2 t2 where e: "(k, n1, t1) \<in> set PROXY_LISTENERS" "Tcp \<in> set t1" "(l, n2, t2) \<in> set PROXY_LISTENERS" "Tcp \<in> set t2"
    and w: "\<not> (plat = Windows \<and> (k = ''redir-port'' \<or> k = ''tproxy-port''))" "\<not> (plat = Windows \<and> (l = ''redir-port'' \<or> l = ''tproxy-port''))"
    using platform_listener_entry [OF kl(1)] platform_listener_entry [OF kl(2)] by (elim exE conjE) (rule that)
  have m: "mapping_port config k = Inr (Some p)" "mapping_port config l = Inr (Some p)"
    using p by (auto simp: port_of_def split: sum.splits)
  obtain us vs where uv: "PROXY_LISTENERS = us @ vs"
    and in_uv: "(k, n1, t1) \<in> set us \<and> (l, n2, t2) \<in> set vs \<or> (l, n2, t2) \<in> set us \<and> (k, n1, t1) \<in> set vs"
    using split_between [OF e(1,3)] kl(3) by auto
  obtain xs ys where l: "claims_loop plat config addresses us = Inr xs" "claims_loop plat config addresses vs = Inr ys" "cs = xs @ ys"
    using claims_loop_split [OF as(2) [unfolded uv]] by blast
  from in_uv have "has_claim xs a p \<and> has_claim ys a p"
    using claims_loop_claim [OF l(1) _ e(2) w(1) m(1) a] claims_loop_claim [OF l(2) _ e(4) w(2) m(2) a]
      claims_loop_claim [OF l(1) _ e(4) w(2) m(2) a] claims_loop_claim [OF l(2) _ e(2) w(1) m(1) a] by blast
  with overlapping_claims_conflict l(3) show ?thesis by blast
qed

text \<open>
  C29: a change of the proxy ports is found available only when the candidate configuration gives every
  listener of the platform a port of its own, and every claim the running core does not hold already
  could be bound, or was refused on an address where nobody answers.
\<close>

theorem available_ports_are_distinct_and_free:
  assumes "fst (probe_proxy_port_change env current candidate running t) = Available"
  shows "distinct_ports (p_platform env) candidate
    \<and> (\<exists>claims. open_claims (p_platform env) current candidate running = Inr claims \<and> list_all (verified env) claims)"
proof -
  obtain held cs where h: "(if running then proxy_claims (p_platform env) current else Inr []) = Inr held"
    and c: "proxy_claims (p_platform env) candidate = Inr cs" and i: "internal_conflict cs = None"
    and pr: "fst (probe_claims env (new_claims held cs) t) = Available"
    using assms by (auto simp: probe_proxy_port_change_def conflict_outcome_def internal_conflict_def dest: conflict_loop_Some
      split: sum.splits option.splits)
  have "distinct_ports (p_platform env) candidate"
    unfolding distinct_ports_def
  proof (rule distinct_map_filter)
    show "distinct (platform_listeners (p_platform env))"
      by (simp add: platform_listeners_def proxy_listener_keys_def MIXED_PORT_KEY_def)
  qed (use same_port_conflicts [OF c] i in blast)
  moreover have "list_all (verified env) (new_claims held cs)"
    using probe_claims_available [of env "new_claims held cs" t "snd (probe_claims env (new_claims held cs) t)"] pr
    by (auto simp: list_all_iff prod_eq_iff)
  ultimately show ?thesis using h c by (auto simp: open_claims_def)
qed

definition demo_probe :: probe_env where
  "demo_probe = \<lparr>p_platform = Linux, p_interfaces = (\<lambda>_. Inr []), p_bind = (\<lambda>_ _. Inr ()), p_listen = (\<lambda>_ _. Inr ()),
     p_refused = (\<lambda>_ _. True), p_wildcard = (\<lambda>_ _ _. Inr False)\<rparr>"

theorem available_ports_are_distinct_and_free_witness:
  "distinct_ports (p_platform demo_probe) [(Str ''mixed-port'', port_value 7897), (Str ''port'', port_value 7899)]
    \<and> (\<exists>claims. open_claims (p_platform demo_probe) [(Str ''mixed-port'', port_value 7897)]
         [(Str ''mixed-port'', port_value 7897), (Str ''port'', port_value 7899)] True = Inr claims
       \<and> list_all (verified demo_probe) claims)"
proof (rule available_ports_are_distinct_and_free)
  show "fst (probe_proxy_port_change demo_probe [(Str ''mixed-port'', port_value 7897)]
      [(Str ''mixed-port'', port_value 7897), (Str ''port'', port_value 7899)] True 0) = Available"
    by (simp add: probe_proxy_port_change_def demo_probe_def proxy_claims_def proxy_bind_addresses_def get_def
      PROXY_LISTENERS_def MIXED_PORT_KEY_def mapping_port_def port_value_def listener_claims_def internal_conflict_def
      claims_overlap_def new_claims_def bind_claim_held_def plain_bind_def bind_socket_def try_then_def Let_def)
qed

text \<open>
  A conflict is reported only with a reason: either two claims of the candidate overlap on that port
  and transport, or a claim the running core does not hold was refused as taken, and it was not shown that nobody serves it.
\<close>

theorem reported_conflict_has_a_reason:
  assumes "fst (probe_proxy_port_change env current candidate running t) = Conflict p tr"
  shows "(case proxy_claims (p_platform env) candidate of
      Inr claims \<Rightarrow> (\<exists>pre c post. claims = pre @ c # post \<and> claim_port c = p \<and> claim_transport c = tr
        \<and> list_ex (\<lambda>b. claims_overlap b c) pre)
      | Inl _ \<Rightarrow> False)
    \<or> (case open_claims (p_platform env) current candidate running of
      Inr claims \<Rightarrow> (\<exists>c \<in> set claims. claim_port c = p \<and> claim_transport c = tr \<and> taken env c)
      | Inl _ \<Rightarrow> False)"
proof -
  obtain held cs where h: "(if running then proxy_claims (p_platform env) current else Inr []) = Inr held"
    and c: "proxy_claims (p_platform env) candidate = Inr cs"
    and r: "internal_conflict cs = Some (Conflict p tr)
      \<or> internal_conflict cs = None \<and> fst (probe_claims env (new_claims held cs) t) = Conflict p tr"
    using assms by (auto simp: probe_proxy_port_change_def split: sum.splits option.splits)
  from r show ?thesis
  proof
    assume "internal_conflict cs = Some (Conflict p tr)"
    from conflict_loop_Some [OF this [unfolded internal_conflict_def]] c show ?thesis
      by (auto simp: conflict_outcome_def)
  next
    assume "internal_conflict cs = None \<and> fst (probe_claims env (new_claims held cs) t) = Conflict p tr"
    with probe_claims_conflict [of env "new_claims held cs" t p tr "snd (probe_claims env (new_claims held cs) t)"] h c
    show ?thesis by (auto simp: open_claims_def prod_eq_iff)
  qed
qed

end
