(* ===== verification/RuntimeBundle.thy ===== *)
theory RuntimeBundle
  imports AppProxyRules "HOL-Library.Multiset"
begin

section \<open>The files a configuration needs\<close>

text \<open>
  Models \<open>src-tauri/src/core/runtime_bundle.rs\<close>: where the providers of a configuration keep their files,
  how two remote sources that name the same file are given different ones, and the bundle of files handed to
  the privileged service.  A path is the list of its components in the syntax of Unix
  (\<open>std::path::Path::components\<close>: repeated separators and inner \<open>.\<close> do not count), so two spellings of a
  path are one path, also for the file system, whose answers are arguments.  The prefixes of Windows paths,
  and the quoting of paths in messages, are left out.
\<close>

datatype path_component = RootDir | CurDir | ParentDir | Normal string

type_synonym path = "path_component list"

definition piece_component :: "string \<Rightarrow> path" where
  "piece_component p = (if p = ''..'' then [ParentDir] else if p = [] \<or> p = ''.'' then [] else [Normal p])"

definition path_components :: "string \<Rightarrow> path" where
  "path_components s =
     (let pieces = split_on CHR ''/'' s; body = concat (map piece_component pieces)
      in if starts_with ''/'' s then RootDir # body else if hd pieces = ''.'' then CurDir # body else body)"

fun component_text :: "path_component \<Rightarrow> string" where
  "component_text (Normal p) = p"
| "component_text CurDir = ''.''"
| "component_text ParentDir = ''..''"
| "component_text RootDir = []"

definition path_text :: "path \<Rightarrow> string" where
  "path_text p = (if p = [RootDir] then ''/'' else join_with CHR ''/'' (map component_text p))"

definition is_absolute :: "path \<Rightarrow> bool" where
  "is_absolute p = (case p of RootDir # _ \<Rightarrow> True | _ \<Rightarrow> False)"

definition path_join :: "path \<Rightarrow> path \<Rightarrow> path" where
  "path_join root p = (if is_absolute p then p else root @ filter (\<lambda>c. c \<noteq> CurDir) p)"

definition strip_prefix :: "path \<Rightarrow> path \<Rightarrow> path option" where
  "strip_prefix base p = (if take (length base) p = base then Some (drop (length base) p) else None)"

text \<open>\<open>with_file_name\<close> replaces the last component when it is a name, and is pushed otherwise.\<close>

definition with_file_name :: "path \<Rightarrow> string \<Rightarrow> path" where
  "with_file_name p name =
     (case rev p of Normal _ # r \<Rightarrow> rev r @ [Normal name] | _ \<Rightarrow> p @ [Normal name])"

definition file_extension :: "path \<Rightarrow> string option" where
  "file_extension p =
     (case rev p of
        Normal name # _ \<Rightarrow>
          (let after = takeWhile (\<lambda>c. c \<noteq> CHR ''.'') (rev name)
           in if length after = length name \<or> Suc (length after) = length name then None else Some (rev after))
      | _ \<Rightarrow> None)"

definition slashes :: "string \<Rightarrow> string" where
  "slashes s = map (\<lambda>c. if c = CHR 0x5C then CHR ''/'' else c) s"

record bundle_fs =
  fs_canonical :: "path \<Rightarrow> path res"
  fs_exists :: "path \<Rightarrow> bool"
  fs_is_file :: "path \<Rightarrow> bool"

subsection \<open>Where a provider keeps its file\<close>

fun normal_names :: "path \<Rightarrow> string list res" where
  "normal_names [] = Inr []"
| "normal_names (Normal c # p) = map_sum id (\<lambda>cs. c # cs) (normal_names p)"
| "normal_names (CurDir # p) = normal_names p"
| "normal_names (ParentDir # p) = Inl ''local runtime provider destination traverses outside the runtime''"
| "normal_names (RootDir # p) = Inl ''local runtime provider destination traverses outside the runtime''"

definition normalized_destination :: "path \<Rightarrow> string res" where
  "normalized_destination relative =
     and_then (normal_names relative) (\<lambda>names.
       if names = [] then Inl ''local runtime provider destination is empty''
       else Inr (slashes (join_with CHR ''/'' names)))"

definition destination_below_root :: "path \<Rightarrow> path \<Rightarrow> string res" where
  "destination_below_root config_root p =
     (case strip_prefix config_root p of
        None \<Rightarrow> Inl (''runtime provider path is outside the config root: '' @ path_text p)
      | Some relative \<Rightarrow> normalized_destination relative)"

text \<open>The deepest existing ancestor is resolved and the missing names are put back; \<open>r\<close> is the path reversed.\<close>

fun ancestor_loop :: "bundle_fs \<Rightarrow> path \<Rightarrow> path \<Rightarrow> string list \<Rightarrow> path res" where
  "ancestor_loop fs p [] tail =
     (if fs_exists fs [] then map_sum id (\<lambda>q. q @ map Normal tail) (fs_canonical fs [])
      else Inl (''runtime provider path has no existing ancestor: '' @ path_text p))"
| "ancestor_loop fs p (c # r) tail =
     (if fs_exists fs (rev (c # r)) then map_sum id (\<lambda>q. q @ map Normal tail) (fs_canonical fs (rev (c # r)))
      else (case c of
              Normal name \<Rightarrow> ancestor_loop fs p r (name # tail)
            | _ \<Rightarrow> Inl (''runtime provider path has no existing ancestor: '' @ path_text p)))"

definition canonicalize_with_missing_tail :: "bundle_fs \<Rightarrow> path \<Rightarrow> path res" where
  "canonicalize_with_missing_tail fs p = ancestor_loop fs p (rev p) []"

definition provider_destination :: "bundle_fs \<Rightarrow> path \<Rightarrow> string \<Rightarrow> string res" where
  "provider_destination fs config_root raw_path =
     (let p = path_components raw_path
      in if ParentDir \<in> set p then Inl ''runtime provider destination traverses outside the runtime''
         else if is_absolute p then and_then (canonicalize_with_missing_tail fs p) (destination_below_root config_root)
         else normalized_destination p)"

definition local_provider_source :: "bundle_fs \<Rightarrow> path \<Rightarrow> string \<Rightarrow> path res" where
  "local_provider_source fs config_root raw_path =
     (let source = path_join config_root (path_components raw_path)
      in and_then (map_sum (\<lambda>_. ''local runtime provider is unavailable: '' @ path_text source) id (fs_canonical fs source))
         (\<lambda>canonical_source. case strip_prefix config_root canonical_source of
            None \<Rightarrow> Inl (''local runtime provider is outside the config root: '' @ path_text canonical_source)
          | Some _ \<Rightarrow> Inr canonical_source))"

definition is_remote :: "yaml \<Rightarrow> bool" where
  "is_remote provider = (Option.bind (value_get provider ''type'') as_str = Some ''http'')"

definition provider_url :: "yaml \<Rightarrow> string option" where
  "provider_url provider = Option.bind (value_get provider ''url'') as_str"

subsection \<open>Two sources for one file\<close>

definition GEO_ASSETS :: "string list" where
  "GEO_ASSETS = [''Country.mmdb'', ''ASN.mmdb'', ''geoip.dat'', ''geosite.dat'', ''geoip.metadb'', ''GeoSite.dat'']"

record path_owners =
  own_remote :: "(string \<times> (string \<times> yaml) list) list"
  own_local :: bool

text \<open>\<open>entry(k).or_default()\<close> of an ordered map, changed by \<open>f\<close>.\<close>

definition btree_entry :: "string \<Rightarrow> 'v \<Rightarrow> ('v \<Rightarrow> 'v) \<Rightarrow> (string \<times> 'v) list \<Rightarrow> (string \<times> 'v) list" where
  "btree_entry k d f m = btree_insert k (f (unwrap_or d (map_of m k))) m"

definition add_owner :: "string \<Rightarrow> yaml \<Rightarrow> string option \<Rightarrow> path_owners \<Rightarrow> path_owners" where
  "add_owner section name source owners =
     (case source of
        Some url \<Rightarrow> owners\<lparr>own_remote := btree_entry url [] (\<lambda>ps. ps @ [(section, name)]) (own_remote owners)\<rparr>
      | None \<Rightarrow> owners\<lparr>own_local := True\<rparr>)"

text \<open>The file of one provider, and the remote source it is filled from when it has one.\<close>

definition provider_claim :: "bundle_fs \<Rightarrow> path \<Rightarrow> yaml \<Rightarrow> (string \<times> string option) option" where
  "provider_claim fs config_root provider =
     (case Option.bind (value_get provider ''path'') as_str of
        None \<Rightarrow> None
      | Some raw_path \<Rightarrow>
          (case (if is_remote provider then provider_destination fs config_root raw_path
                 else (case and_then (local_provider_source fs config_root raw_path) (destination_below_root config_root) of
                         Inr d \<Rightarrow> Inr d
                       | Inl _ \<Rightarrow> provider_destination fs config_root raw_path)) of
             Inl _ \<Rightarrow> None
           | Inr destination \<Rightarrow> Some (destination, if is_remote provider then provider_url provider else None)))"

definition section_providers :: "mapping \<Rightarrow> string \<Rightarrow> mapping" where
  "section_providers config section = unwrap_or [] (Option.bind (get config section) as_mapping)"

fun scan_providers :: "bundle_fs \<Rightarrow> path \<Rightarrow> string \<Rightarrow> mapping
    \<Rightarrow> (string \<times> path_owners) list \<times> string list \<Rightarrow> (string \<times> path_owners) list \<times> string list" where
  "scan_providers fs config_root section [] acc = acc"
| "scan_providers fs config_root section ((name, provider) # providers) (paths, reserved) =
     (case provider_claim fs config_root provider of
        None \<Rightarrow> scan_providers fs config_root section providers (paths, reserved)
      | Some (destination, source) \<Rightarrow>
          scan_providers fs config_root section providers
            (btree_entry destination \<lparr>own_remote = [], own_local = False\<rparr> (add_owner section name source) paths,
             List.insert destination reserved))"

definition PROVIDER_SECTIONS :: "string list" where
  "PROVIDER_SECTIONS = [''proxy-providers'', ''rule-providers'']"

definition candidate_destination :: "string \<Rightarrow> string \<Rightarrow> nat \<Rightarrow> string" where
  "candidate_destination destination digest sequence =
     (let p = path_components destination;
          suffix = (if sequence = 0 then [] else ''-'' @ show_nat sequence);
          ext = (case file_extension p of Some e \<Rightarrow> ''.'' @ e | None \<Rightarrow> [])
      in slashes (path_text (with_file_name p (''cvr-'' @ digest @ suffix @ ext))))"

lemma show_nat_digit: "c \<in> set (show_nat n) \<Longrightarrow> \<exists>d < 10. c = char_of (48 + d :: nat)"
proof (induction n rule: show_nat.induct)
  case (1 n)
  have "\<exists>d < 10. char_of (48 + n mod 10) = (char_of (48 + d :: nat) :: char)"
    by (rule exI [of _ "n mod 10"]) simp
  with 1 show ?case
    by (auto simp: show_nat.simps [of n] split: if_splits)
qed

lemma show_nat_chars:
  assumes "c \<in> set (show_nat n)"
  shows "c \<noteq> CHR 0x5C" and "c \<noteq> CHR ''/''"
proof -
  from show_nat_digit [OF assms] obtain d :: nat where "d < 10" "c = char_of (48 + d)" by blast
  then show "c \<noteq> CHR 0x5C" "c \<noteq> CHR ''/''"
    by (auto simp: char_of_eq_iff take_bit_nat_def)
qed

lemma slashes_show_nat: "slashes (show_nat n) = show_nat n"
  by (auto simp: slashes_def dest: show_nat_chars intro!: map_idI)

lemma show_nat_inj: "show_nat m = show_nat n \<Longrightarrow> m = n"
  by (metis parse_nat_show_nat option.inject)


lemma join_with_snoc: "join_with d (ws @ [w]) = (if ws = [] then w else join_with d ws @ d # w)"
  by (induction d ws rule: join_with.induct) auto

lemma slashes_Cons: "slashes (c # s) = (if c = CHR 0x5C then CHR ''/'' else c) # slashes s"
  by (simp add: slashes_def)

lemma slashes_append: "slashes (s @ t) = slashes s @ slashes t"
  by (simp add: slashes_def)

lemma with_file_name_base: "\<exists>base. \<forall>name. with_file_name p name = base @ [Normal name]"
  by (auto simp: with_file_name_def split: list.splits path_component.splits)

lemma path_text_snoc: "path_text (p @ [Normal n]) = (if p = [] then [] else join_with CHR ''/'' (map component_text p) @ ''/'') @ n"
  by (simp add: path_text_def join_with_snoc)

lemma candidate_destination_inj:
  assumes "candidate_destination destination digest m = candidate_destination destination digest n"
  shows "m = n"
proof -
  obtain base where b: "\<And>name. with_file_name (path_components destination) name = base @ [Normal name]"
    using with_file_name_base by blast
  have suffix: "slashes (if k = 0 then [] else ''-'' @ show_nat k) = (if k = 0 then [] else ''-'' @ show_nat k)" for k
    by (simp add: slashes_show_nat slashes_Cons) (simp add: slashes_def)
  from assms show ?thesis
    unfolding candidate_destination_def Let_def b path_text_snoc slashes_append suffix
    by (auto split: if_splits dest: show_nat_inj)
qed

text \<open>
  A name that is taken gets a number.  The loop of the code is unbounded; it ends because the numbered
  names differ and only finitely many are reserved.
\<close>

function allocate_loop :: "string \<Rightarrow> string \<Rightarrow> string list \<Rightarrow> nat \<Rightarrow> string \<times> string list" where
  "allocate_loop destination digest reserved sequence =
     (let candidate = candidate_destination destination digest sequence
      in if candidate \<notin> set reserved then (candidate, candidate # reserved)
         else allocate_loop destination digest reserved (Suc sequence))"
  by pat_completeness auto

definition taken_names :: "string \<Rightarrow> string \<Rightarrow> string list \<Rightarrow> nat \<Rightarrow> nat set" where
  "taken_names destination digest reserved n = {k. n \<le> k \<and> candidate_destination destination digest k \<in> set reserved}"

lemma finite_taken_names: "finite (taken_names destination digest reserved n)"
proof -
  have "finite (candidate_destination destination digest -` set reserved)"
    by (rule finite_vimageI) (auto simp: inj_on_def dest: candidate_destination_inj)
  then show ?thesis
    by (rule rev_finite_subset) (auto simp: taken_names_def)
qed

termination allocate_loop
proof (relation "measure (\<lambda>(destination, digest, reserved, n). card (taken_names destination digest reserved n))")
  fix destination digest :: string and reserved n candidate
  assume "candidate = candidate_destination destination digest n" and "\<not> candidate \<notin> set reserved"
  then have "taken_names destination digest reserved (Suc n) \<subset> taken_names destination digest reserved n"
    unfolding taken_names_def by (metis (mono_tags, lifting) Collect_mono Suc_leD Suc_n_not_le_n mem_Collect_eq order_refl psubsetI)
  then show "((destination, digest, reserved, Suc n), destination, digest, reserved, n)
      \<in> measure (\<lambda>(destination, digest, reserved, n). card (taken_names destination digest reserved n))"
    by (simp add: psubset_card_mono finite_taken_names)
qed simp

declare allocate_loop.simps [simp del]

text \<open>\<open>sha256\<close> is the hexadecimal digest.\<close>

definition allocate_provider_destination :: "(string \<Rightarrow> string) \<Rightarrow> string \<Rightarrow> string \<Rightarrow> string list \<Rightarrow> string \<times> string list" where
  "allocate_provider_destination sha256 destination url reserved =
     allocate_loop destination (sha256 (destination @ CHR 0x00 # url)) reserved 0"

definition set_provider_path :: "string \<Rightarrow> string \<times> yaml \<Rightarrow> mapping \<Rightarrow> mapping" where
  "set_provider_path replacement sn config =
     (case get config (fst sn) of
        None \<Rightarrow> config
      | Some v \<Rightarrow> put (fst sn) (map_mapping (\<lambda>providers. case map_of providers (snd sn) of
            None \<Rightarrow> providers
          | Some p \<Rightarrow> AList.update (snd sn) (map_mapping (put ''path'' (Str replacement)) p) providers) v) config)"

fun assign_sources :: "(string \<Rightarrow> string) \<Rightarrow> string \<Rightarrow> (string \<times> (string \<times> yaml) list) list
    \<Rightarrow> mapping \<times> string list \<Rightarrow> mapping \<times> string list" where
  "assign_sources sha256 destination [] st = st"
| "assign_sources sha256 destination ((url, providers) # sources) (config, reserved) =
     (let (replacement, reserved) = allocate_provider_destination sha256 destination url reserved
      in assign_sources sha256 destination sources (fold (set_provider_path replacement) providers config, reserved))"

fun assign_paths :: "(string \<Rightarrow> string) \<Rightarrow> (string \<times> path_owners) list \<Rightarrow> mapping \<times> string list \<Rightarrow> mapping \<times> string list" where
  "assign_paths sha256 [] st = st"
| "assign_paths sha256 ((destination, owners) # paths) st =
     (if own_local owners \<or> length (own_remote owners) < 2 then assign_paths sha256 paths st
      else assign_paths sha256 paths (assign_sources sha256 destination (own_remote owners) st))"

definition scan_config :: "bundle_fs \<Rightarrow> path \<Rightarrow> mapping \<Rightarrow> (string \<times> path_owners) list \<times> string list" where
  "scan_config fs config_root config =
     fold (\<lambda>section acc. scan_providers fs config_root section (section_providers config section) acc)
       PROVIDER_SECTIONS ([], GEO_ASSETS)"

definition resolve_provider_path_conflicts :: "bundle_fs \<Rightarrow> (string \<Rightarrow> string) \<Rightarrow> path \<Rightarrow> mapping \<Rightarrow> mapping res" where
  "resolve_provider_path_conflicts fs sha256 config_root0 config =
     and_then (fs_canonical fs config_root0) (\<lambda>config_root.
     let (paths, reserved) = scan_config fs config_root config
     in Inr (fst (assign_paths sha256 paths (config, reserved))))"

subsection \<open>The bundle for the service\<close>

record runtime_asset =
  asset_source :: string
  asset_destination :: string

record remote_provider =
  rp_destination :: string
  rp_url :: string

record remote_provider_ref =
  rf_section :: string
  rf_name :: string
  rf_provider :: remote_provider

record bundle_state =
  bs_destinations :: "string list"
  bs_assets :: "runtime_asset list"
  bs_remote :: "remote_provider_ref list"

definition declare_remote :: "string \<Rightarrow> yaml \<Rightarrow> string \<Rightarrow> string \<Rightarrow> bundle_state \<Rightarrow> bundle_state res" where
  "declare_remote section name destination url st =
     (case find (\<lambda>declared. rp_destination (rf_provider declared) = destination) (bs_remote st) of
        Some declared \<Rightarrow>
          if rp_url (rf_provider declared) = url then Inr st
          else Inl (''runtime provider destination '' @ destination @ '' is declared for two different sources'')
      | None \<Rightarrow>
          if destination \<in> set (bs_destinations st)
          then Inl (''runtime provider destination '' @ destination @ '' is claimed more than once'')
          else Inr (st\<lparr>bs_destinations := destination # bs_destinations st,
                       bs_remote := bs_remote st @ [\<lparr>rf_section = section, rf_name = unwrap_or [] (as_str name),
                         rf_provider = \<lparr>rp_destination = destination, rp_url = url\<rparr>\<rparr>]\<rparr>))"

definition add_asset :: "string \<Rightarrow> string \<Rightarrow> bundle_state \<Rightarrow> bundle_state" where
  "add_asset source destination st =
     (if destination \<in> set (bs_destinations st) then st
      else st\<lparr>bs_destinations := destination # bs_destinations st,
              bs_assets := bs_assets st @ [\<lparr>asset_source = source, asset_destination = destination\<rparr>]\<rparr>)"

text \<open>One provider: \<open>None\<close> leaves its path to the core, \<open>Some d\<close> rewrites it.\<close>

definition collect_provider :: "bundle_fs \<Rightarrow> path \<Rightarrow> string \<Rightarrow> yaml \<Rightarrow> yaml \<Rightarrow> bundle_state
    \<Rightarrow> (string option \<times> bundle_state) res" where
  "collect_provider fs config_root section name provider st =
     (case Option.bind (value_get provider ''path'') as_str of
        None \<Rightarrow> Inr (None, st)
      | Some raw_path \<Rightarrow>
          if is_remote provider then
            (case provider_url provider of
               None \<Rightarrow> Inr (None, st)
             | Some url \<Rightarrow>
                 and_then (provider_destination fs config_root raw_path) (\<lambda>destination.
                 and_then (declare_remote section name destination url st) (\<lambda>st.
                 Inr (Some destination, st))))
          else
            (case local_provider_source fs config_root raw_path of
               Inl _ \<Rightarrow> Inr (None, st)
             | Inr source \<Rightarrow>
                 and_then (destination_below_root config_root source) (\<lambda>destination.
                 Inr (Some destination, add_asset (path_text source) destination st))))"

fun collect_providers :: "bundle_fs \<Rightarrow> path \<Rightarrow> string \<Rightarrow> mapping \<Rightarrow> bundle_state \<Rightarrow> (mapping \<times> bundle_state) res" where
  "collect_providers fs config_root section [] st = Inr ([], st)"
| "collect_providers fs config_root section ((name, provider) # providers) st =
     and_then (collect_provider fs config_root section name provider st) (\<lambda>(destination, st).
     and_then (collect_providers fs config_root section providers st) (\<lambda>(providers, st).
     Inr ((name, case destination of None \<Rightarrow> provider | Some d \<Rightarrow> map_mapping (put ''path'' (Str d)) provider) # providers, st)))"

definition collect_provider_assets :: "bundle_fs \<Rightarrow> path \<Rightarrow> string \<Rightarrow> yaml \<times> bundle_state \<Rightarrow> (yaml \<times> bundle_state) res" where
  "collect_provider_assets fs config_root section cs =
     (case Option.bind (value_get (fst cs) section) as_mapping of
        None \<Rightarrow> Inr cs
      | Some providers \<Rightarrow>
          and_then (collect_providers fs config_root section providers (snd cs)) (\<lambda>(providers, st).
          Inr (map_mapping (\<lambda>m. case get m section of None \<Rightarrow> m
                 | Some v \<Rightarrow> put section (map_mapping (\<lambda>_. providers) v) m) (fst cs), st)))"

fun collect_geo :: "bundle_fs \<Rightarrow> path \<Rightarrow> string list \<Rightarrow> bundle_state \<Rightarrow> bundle_state res" where
  "collect_geo fs config_root [] st = Inr st"
| "collect_geo fs config_root (filename # filenames) st =
     (let source = config_root @ [Normal filename]
      in if fs_is_file fs source \<and> filename \<notin> set (bs_destinations st) then
           and_then (fs_canonical fs source) (\<lambda>canonical.
           collect_geo fs config_root filenames (add_asset (path_text canonical) filename st))
         else collect_geo fs config_root filenames st)"

definition collect_runtime_parts :: "bundle_fs \<Rightarrow> yaml \<Rightarrow> path \<Rightarrow> (yaml \<times> bundle_state) res" where
  "collect_runtime_parts fs config config_root0 =
     and_then (fs_canonical fs config_root0) (\<lambda>config_root.
     and_then (collect_provider_assets fs config_root ''proxy-providers''
       (config, \<lparr>bs_destinations = [], bs_assets = [], bs_remote = []\<rparr>)) (\<lambda>cs.
     and_then (collect_provider_assets fs config_root ''rule-providers'' cs) (\<lambda>(config, st).
     and_then (collect_geo fs config_root GEO_ASSETS st) (\<lambda>st.
     Inr (config, st)))))"

definition remote_providers_of :: "bundle_fs \<Rightarrow> mapping \<Rightarrow> path \<Rightarrow> remote_provider_ref list res" where
  "remote_providers_of fs config config_root =
     map_sum id (\<lambda>(_, st). bs_remote st) (collect_runtime_parts fs (Mapping config) config_root)"

record runtime_bundle =
  rb_yaml :: string
  rb_assets :: "runtime_asset list"
  rb_remote_providers :: "remote_provider list"
  rb_core_path :: string

definition collect_runtime_bundle :: "bundle_fs \<Rightarrow> string res \<Rightarrow> (string \<Rightarrow> yaml res) \<Rightarrow> (yaml \<Rightarrow> string res) \<Rightarrow> path
    \<Rightarrow> string \<Rightarrow> runtime_bundle res" where
  "collect_runtime_bundle fs contents parse print config_file core_path =
     and_then (map_sum (\<lambda>e. ''failed to read runtime config '' @ path_text config_file) id contents) (\<lambda>yaml.
     and_then (map_sum (\<lambda>e. ''failed to parse runtime config '' @ path_text config_file) id (parse yaml)) (\<lambda>config.
     and_then (case rev config_file of
         [] \<Rightarrow> Inl ''runtime config has no parent directory''
       | c # r \<Rightarrow> if c = RootDir then Inl ''runtime config has no parent directory'' else Inr (rev r)) (\<lambda>config_root.
     and_then (collect_runtime_parts fs config config_root) (\<lambda>(config, st).
     and_then (map_sum (\<lambda>e. ''failed to serialize service runtime config'') id (print config)) (\<lambda>text.
     Inr \<lparr>rb_yaml = text, rb_assets = bs_assets st, rb_remote_providers = map rf_provider (bs_remote st),
          rb_core_path = core_path\<rparr>)))))"

subsection \<open>What a bundle promises\<close>

definition bundle_ok :: "bundle_state \<Rightarrow> bool" where
  "bundle_ok st \<longleftrightarrow> distinct (bs_destinations st)
     \<and> mset (bs_destinations st) = mset (map asset_destination (bs_assets st) @ map (rp_destination \<circ> rf_provider) (bs_remote st))"

lemma bundle_ok_declare:
  assumes "declare_remote section name destination url st = Inr st'" and "bundle_ok st"
  shows "bundle_ok st'"
  using assms by (auto simp: declare_remote_def bundle_ok_def split: option.splits if_splits)

lemma bundle_ok_add: "bundle_ok st \<Longrightarrow> bundle_ok (add_asset source destination st)"
  by (simp add: add_asset_def bundle_ok_def)

lemma bundle_ok_provider:
  "collect_provider fs root section name provider st = Inr (d, st') \<Longrightarrow> bundle_ok st \<Longrightarrow> bundle_ok st'"
  by (auto simp: collect_provider_def and_then_Inr_conv bundle_ok_add bundle_ok_declare
      split: option.splits if_splits sum.splits)

lemma bundle_ok_providers:
  "collect_providers fs root sec providers st = Inr (providers', st') \<Longrightarrow> bundle_ok st \<Longrightarrow> bundle_ok st'"
proof (induction fs root sec providers st arbitrary: providers' rule: collect_providers.induct)
  case (2 fs root sec name provider providers st)
  then show ?case by (auto simp: and_then_Inr_conv dest: bundle_ok_provider)
qed simp

lemma bundle_ok_section:
  "collect_provider_assets fs root section cs = Inr cs' \<Longrightarrow> bundle_ok (snd cs) \<Longrightarrow> bundle_ok (snd cs')"
  by (auto simp: collect_provider_assets_def and_then_Inr_conv split: option.splits dest: bundle_ok_providers)

lemma bundle_ok_geo: "collect_geo fs root names st = Inr st' \<Longrightarrow> bundle_ok st \<Longrightarrow> bundle_ok st'"
  by (induction fs root names st rule: collect_geo.induct)
    (auto simp: Let_def and_then_Inr_conv bundle_ok_add split: if_splits)

lemma bundle_ok_parts:
  assumes "collect_runtime_parts fs config root = Inr (config', st)"
  shows "bundle_ok st"
proof -
  have "bundle_ok \<lparr>bs_destinations = [], bs_assets = [], bs_remote = []\<rparr>" by (simp add: bundle_ok_def)
  with assms show ?thesis
    by (force simp: collect_runtime_parts_def and_then_Inr_conv dest: bundle_ok_section bundle_ok_geo)
qed

text \<open>
  No two files of a bundle, copied or downloaded by the core, go to the same place.
\<close>

theorem bundle_destinations_distinct:
  assumes "collect_runtime_bundle fs contents parse print config_file core_path = Inr b"
  shows "distinct (map asset_destination (rb_assets b) @ map rp_destination (rb_remote_providers b))"
proof -
  from assms obtain config root config' st where p: "collect_runtime_parts fs config root = Inr (config', st)"
    and b: "rb_assets b = bs_assets st" "rb_remote_providers b = map rf_provider (bs_remote st)"
    by (auto simp: collect_runtime_bundle_def and_then_Inr_conv)
  from bundle_ok_parts [OF p] have "distinct (map asset_destination (bs_assets st) @ map (rp_destination \<circ> rf_provider) (bs_remote st))"
    unfolding bundle_ok_def by (metis mset_eq_imp_distinct_iff)
  with b show ?thesis by simp
qed

end
