(* ===== verification/RuntimeConfig.thy ===== *)
theory RuntimeConfig
  imports RuntimeBundle EnhanceConfig Draft Ports Files
begin

section \<open>The runtime configuration\<close>

text \<open>
  Models \<open>IRuntime\<close> of \<open>src-tauri/src/config/runtime.rs\<close> and, from \<open>config/config.rs\<close>, what the
  pipeline's result goes through before it becomes the draft of the runtime configuration: provider paths
  are resolved, tunnels through proxies that do not exist lose them, the port of the session replaces the
  chosen one, and the listeners of the application proxy are put back; and how it becomes bytes.
\<close>

record iruntime =
  rt_config :: "mapping option"
  rt_dns_override :: "dns_override_state option"
  rt_exists_keys :: "string set"
  rt_chain_logs :: logs_map

definition iruntime_default :: iruntime where
  "iruntime_default = \<lparr>rt_config = None, rt_dns_override = None, rt_exists_keys = {}, rt_chain_logs = (\<lambda>_. None)\<rparr>"

subsection \<open>Tunnels\<close>

definition tunnel_proxy :: "mapping \<Rightarrow> string option" where
  "tunnel_proxy tunnel = Option.bind (get tunnel ''proxy'') as_str"

definition is_builtin_proxy :: "string \<Rightarrow> bool" where
  "is_builtin_proxy name = (name = ''DIRECT'' \<or> name = ''REJECT'')"

definition tunnels_need_validation :: "yaml list \<Rightarrow> bool" where
  "tunnels_need_validation tunnels =
     list_ex (\<lambda>item. case Option.bind (as_mapping item) tunnel_proxy of
        Some name \<Rightarrow> \<not> is_builtin_proxy name | None \<Rightarrow> False) tunnels"

text \<open>The names of a list of proxies or groups; both the entry and its name must be plain values.\<close>

fun item_name :: "yaml \<Rightarrow> string option" where
  "item_name (Mapping m) = (case get m ''name'' of Some (Str n) \<Rightarrow> (if n \<noteq> [] then Some n else None) | _ \<Rightarrow> None)"
| "item_name _ = None"

definition collect_names :: "mapping \<Rightarrow> string \<Rightarrow> string list \<Rightarrow> string list" where
  "collect_names config list_key out =
     (case get config list_key of Some (Sequence seq) \<Rightarrow> fold List.insert (List.map_filter item_name seq) out | _ \<Rightarrow> out)"

definition sanitize_tunnel :: "string list \<Rightarrow> mapping \<Rightarrow> mapping" where
  "sanitize_tunnel valid tunnel =
     (case tunnel_proxy tunnel of
        None \<Rightarrow> tunnel
      | Some name \<Rightarrow> if is_builtin_proxy name \<or> name \<in> set valid then tunnel else remove_key ''proxy'' tunnel)"

definition sanitize_tunnels_proxy :: "mapping \<Rightarrow> mapping" where
  "sanitize_tunnels_proxy config =
     (case Option.bind (get config ''tunnels'') as_sequence of
        None \<Rightarrow> config
      | Some tunnels \<Rightarrow>
          if \<not> tunnels_need_validation tunnels then config
          else let valid = [''DIRECT'', ''REJECT''] @ collect_names config ''proxy-groups'' (collect_names config ''proxies'' [])
               in put ''tunnels'' (map_sequence (map (map_mapping (sanitize_tunnel valid)))
                    (unwrap_or Null (get config ''tunnels''))) config)"

subsection \<open>Generation\<close>

definition with_session_port :: "u16 option \<Rightarrow> mapping \<Rightarrow> mapping" where
  "with_session_port fallback config =
     (case fallback of Some port \<Rightarrow> put MIXED_PORT_KEY (port_value port) config | None \<Rightarrow> config)"

text \<open>
  What one run of the generation meets: the pipeline's files and engine, the digest of DNS fields, the
  file system below the application's directory, the hash that names contested files, and the listeners
  the application proxy wants.
\<close>

record generate_env =
  ge_enhance :: enhance_env
  ge_digest :: "string \<Rightarrow> mapping \<Rightarrow> string + string"
  ge_home :: "path res"
  ge_fs :: bundle_fs
  ge_sha256 :: "string \<Rightarrow> string"
  ge_listeners :: "listener_spec list option"

text \<open>The notice about discarded keys is kept by the pipeline even when a later step fails.\<close>

definition build_runtime :: "generate_env \<Rightarrow> u16 option \<Rightarrow> mapping \<Rightarrow> iverge \<Rightarrow> iprofiles \<Rightarrow> discarded_keys_notice
    \<Rightarrow> iruntime res \<times> discarded_keys_notice" where
  "build_runtime ge fallback clash_config s profiles notice =
     (case enhance (ge_enhance ge) (ge_digest ge) clash_config s profiles notice of
        Inl e \<Rightarrow> (Inl e, notice)
      | Inr (en, dns_override) \<Rightarrow>
          (and_then (ge_home ge) (\<lambda>home.
           and_then (resolve_provider_path_conflicts (ge_fs ge) (ge_sha256 ge) home (en_config en)) (\<lambda>config.
           Inr \<lparr>rt_config = Some (merge_managed_listener (ge_listeners ge) (with_session_port fallback (sanitize_tunnels_proxy config))),
                rt_dns_override = Some dns_override,
                rt_exists_keys = en_exists_keys en,
                rt_chain_logs = en_logs en\<rparr>)),
           en_notice en))"

definition runtime_header :: string where
  "runtime_header = ''# Generated by Clash Verge'' @ [CHR 0x0A, CHR 0x0A]"

text \<open>\<open>print\<close> is the serializer; \<open>v\<close> the cell of the runtime configuration.\<close>

definition runtime_config_yaml :: "(mapping \<Rightarrow> string res) \<Rightarrow> iruntime draft_view \<Rightarrow> string res" where
  "runtime_config_yaml print v =
     (case (case rt_config (view_latest v) of Some c \<Rightarrow> Some c | None \<Rightarrow> rt_config (fst v)) of
        None \<Rightarrow> Inl ''failed to generate runtime config, might need to restart application''
      | Some config \<Rightarrow> map_sum id (\<lambda>text. runtime_header @ text) (print config))"

subsection \<open>No tunnel refers to a proxy that does not exist\<close>

definition known_names :: "mapping \<Rightarrow> string set" where
  "known_names config = {''DIRECT'', ''REJECT''}
     \<union> set (collect_names config ''proxy-groups'' (collect_names config ''proxies'' []))"

definition tunnel_ok :: "string set \<Rightarrow> yaml \<Rightarrow> bool" where
  "tunnel_ok names item = (case Option.bind (as_mapping item) tunnel_proxy of Some name \<Rightarrow> name \<in> names | None \<Rightarrow> True)"

lemma tunnel_proxy_remove: "mapping_ok t \<Longrightarrow> tunnel_proxy (remove_key ''proxy'' t) = None"
  by (simp add: tunnel_proxy_def get_remove)

lemma sanitize_tunnel_ok:
  assumes "mapping_ok t"
  shows "case tunnel_proxy (sanitize_tunnel valid t) of Some name \<Rightarrow> name \<in> {''DIRECT'', ''REJECT''} \<union> set valid | None \<Rightarrow> True"
  using assms by (auto simp: sanitize_tunnel_def tunnel_proxy_remove is_builtin_proxy_def split: option.splits)

lemma collect_names_put: "k \<noteq> list_key \<Longrightarrow> collect_names (put k v config) list_key out = collect_names config list_key out"
  by (simp add: collect_names_def get_put)

text \<open>
  After sanitising, every tunnel that names a proxy names one that is built in or defined.
\<close>

theorem sanitized_tunnels_resolve:
  assumes "yaml_ok (Mapping config)"
  shows "list_all (tunnel_ok (known_names (sanitize_tunnels_proxy config)))
    (unwrap_or [] (Option.bind (get (sanitize_tunnels_proxy config) ''tunnels'') as_sequence))"
proof (cases "Option.bind (get config ''tunnels'') as_sequence")
  case None
  then show ?thesis by (simp add: sanitize_tunnels_proxy_def)
next
  case (Some tunnels)
  then obtain v where v: "get config ''tunnels'' = Some v" "as_sequence v = Some tunnels"
    by (auto simp: bind_eq_Some_conv)
  show ?thesis
  proof (cases "tunnels_need_validation tunnels")
    case False
    then have "tunnel_ok (known_names config) t" if "t \<in> set tunnels" for t
      using that by (auto simp: tunnels_need_validation_def list_ex_iff tunnel_ok_def known_names_def is_builtin_proxy_def
          split: option.splits)
    with False Some show ?thesis by (simp add: sanitize_tunnels_proxy_def list_all_iff)
  next
    case True
    define valid where "valid = [''DIRECT'', ''REJECT''] @ collect_names config ''proxy-groups'' (collect_names config ''proxies'' [])"
    have s: "sanitize_tunnels_proxy config = put ''tunnels'' (map_sequence (map (map_mapping (sanitize_tunnel valid))) v) config"
      using True Some v by (simp add: sanitize_tunnels_proxy_def valid_def)
    have k: "known_names (sanitize_tunnels_proxy config) = {''DIRECT'', ''REJECT''} \<union> set valid"
      by (simp add: s known_names_def collect_names_put valid_def insert_commute)
    have "yaml_ok v" using assms v(1) by (auto simp: get_def dest: map_of_SomeD)
    then have ok: "yaml_ok t" if "t \<in> set tunnels" for t
      using v(2) that by (induction v rule: as_sequence.induct) auto
    have "tunnel_ok ({''DIRECT'', ''REJECT''} \<union> set valid) (map_mapping (sanitize_tunnel valid) t)" if t: "t \<in> set tunnels" for t
    proof (cases "as_mapping t")
      case (Some m)
      have "mapping_ok m" using ok [OF t] Some by (induction t rule: as_mapping.induct) (auto simp: mapping_ok_def)
      with Some show ?thesis
        using sanitize_tunnel_ok [of m valid]
        by (cases "tunnel_proxy (sanitize_tunnel valid m)") (simp_all add: tunnel_ok_def as_mapping_map)
    qed (simp add: tunnel_ok_def as_mapping_map)
    then show ?thesis
      unfolding k unfolding s by (simp add: get_put as_sequence_map v(2) list_all_iff)
  qed
qed

definition demo_tunnels :: mapping where
  "demo_tunnels =
     [(Str ''proxies'', Sequence [Mapping [(Str ''name'', Str ''hk'')]]),
      (Str ''tunnels'', Sequence [Mapping [(Str ''proxy'', Str ''hk'')], Mapping [(Str ''proxy'', Str ''gone'')]])]"

theorem sanitized_tunnels_resolve_witness:
  "list_all (tunnel_ok (known_names (sanitize_tunnels_proxy demo_tunnels)))
    (unwrap_or [] (Option.bind (get (sanitize_tunnels_proxy demo_tunnels) ''tunnels'') as_sequence))"
  by (rule sanitized_tunnels_resolve) (simp add: demo_tunnels_def)

end
