(* ===== verification/ConfigUpdate.thy ===== *)
theory ConfigUpdate
  imports RuntimeConfig Validation Lifecycle Listeners
begin

section \<open>Changing the configuration of the running core\<close>

text \<open>
  Models \<open>src-tauri/src/core/manager/config.rs\<close> and the parts of \<open>config/config.rs\<close> it calls.  The world
  holds the four configuration cells of \<open>Config\<close> as pairs of a committed value and a draft (which is what
  a cell promises, see \<open>Draft\<close>), their claims, the files, the validator and the world of the core lifecycle.
  Every await asks the environment at a tick of the clock; meanwhile the tasks of \<open>CoreProcess\<close> that need no
  lock may run on the core.  What the core is told to take is logged: the bytes of the run file then.
\<close>

datatype config_layer = ClashLayer | VergeLayer | RuntimeLayer

datatype config_file = ClashFile | VergeFile | RunFile

datatype config_event =
    SupersedeActivation | RestoreNodes | Reload string bool | AskedToStage | ProviderSyncRequested | NoticeShown string string

record config_world =
  cw_tick :: nat
  cw_core :: core_world
  cw_epoch :: update_epoch
  cw_clash :: "mapping draft_view"
  cw_verge :: "iverge draft_view"
  cw_profiles :: "iprofiles draft_view"
  cw_runtime :: "iruntime draft_view"
  cw_claims :: "config_layer list"
  cw_session :: u16
  cw_notice :: discarded_keys_notice
  cw_validator :: validator
  cw_last_update :: "nat option"
  cw_clash_file :: "string option"
  cw_verge_file :: "string option"
  cw_run_file :: "string option"
  cw_profiles_file :: "iprofiles option"
  cw_fallback_notice :: "(u16 \<times> u16) option"
  cw_core_block :: "string option"
  cw_loads :: "string option list"
  cw_events :: "config_event list"

datatype stage_rejection = CoreNotRunning | CorePathChanged | RuntimeUnwritable string | CoreRestarted

datatype stage_outcome = Staged string | RestartRequired stage_rejection

datatype stage_request = StageRefused u16 string | StageAnswered stage_outcome

record stage_reply =
  sg_code :: u16
  sg_message :: string
  sg_data :: "stage_outcome option"

record owner_reply =
  os_code :: u16
  os_data :: "(bool \<times> u32 option) option"

text \<open>
  \<open>ce_stage\<close> is one request to stage, from the credentials to the reply; \<open>ce_confirmed\<close> says whether the
  second one answers before its deadline; \<open>ce_lock\<close> what ran on the core while its lock was awaited.
\<close>

record config_env =
  ce_core :: core_env
  ce_others :: "nat \<Rightarrow> interference list"
  ce_generate :: "nat \<Rightarrow> generate_env"
  ce_print :: "mapping \<Rightarrow> string res"
  ce_validate :: "nat \<Rightarrow> validation_call"
  ce_home_dir :: "nat \<Rightarrow> string res"
  ce_write :: "nat \<Rightarrow> string \<Rightarrow> string + unit"
  ce_write_profiles :: "nat \<Rightarrow> string + unit"
  ce_exiting :: "nat \<Rightarrow> bool"
  ce_now :: "nat \<Rightarrow> nat"
  ce_lock :: "nat \<Rightarrow> core_world \<Rightarrow> core_world"
  ce_stage :: "nat \<Rightarrow> stage_reply outcome"
  ce_confirmed :: "nat \<Rightarrow> bool"
  ce_reload :: "nat \<Rightarrow> string \<Rightarrow> string + unit"
  ce_probe :: "nat \<Rightarrow> probe_env"
  ce_capture :: "nat \<Rightarrow> string + unit"
  ce_restore :: "nat \<Rightarrow> config_file \<Rightarrow> string + unit"
  ce_torn :: "nat \<Rightarrow> string option"
  ce_save :: "nat \<Rightarrow> config_file \<Rightarrow> string + unit"
  ce_print_verge :: "iverge \<Rightarrow> string res"
  ce_owner_status :: "nat \<Rightarrow> string + owner_reply"
  ce_live_port :: "nat \<Rightarrow> string + u16"

definition ctick :: "config_env \<Rightarrow> config_world \<Rightarrow> config_world" where
  "ctick env w = w\<lparr>cw_tick := Suc (cw_tick w), cw_core := interfere (ce_others env (cw_tick w)) (cw_core w)\<rparr>"

definition note_event :: "config_event \<Rightarrow> config_world \<Rightarrow> config_world" where
  "note_event e w = w\<lparr>cw_events := cw_events w @ [e]\<rparr>"

text \<open>An operation of the core lifecycle, and one after which the core has been told to take the run file.\<close>

definition on_core :: "(core_world \<Rightarrow> 'r \<times> core_world) \<Rightarrow> config_world \<Rightarrow> 'r \<times> config_world" where
  "on_core f w = (let (r, c) = f (cw_core w) in (r, w\<lparr>cw_core := c\<rparr>))"

definition note_load :: "config_world \<Rightarrow> config_world" where
  "note_load w = w\<lparr>cw_loads := cw_loads w @ [cw_run_file w]\<rparr>"

subsection \<open>The cells as layers of a transaction\<close>

definition layer_text :: "config_layer \<Rightarrow> string" where
  "layer_text l = (case l of ClashLayer \<Rightarrow> ''IClashTemp'' | VergeLayer \<Rightarrow> ''IVerge'' | RuntimeLayer \<Rightarrow> ''IRuntime'')"

definition config_layer_of :: "config_layer \<Rightarrow> config_world draft_layer" where
  "config_layer_of l =
     \<lparr>try_claim = (\<lambda>w. if l \<in> set (cw_claims w) then (False, w) else (True, w\<lparr>cw_claims := l # cw_claims w\<rparr>)),
      release = (\<lambda>w. w\<lparr>cw_claims := removeAll l (cw_claims w)\<rparr>),
      layer_apply = (\<lambda>w. case l of
          ClashLayer \<Rightarrow> w\<lparr>cw_clash := view_apply (cw_clash w)\<rparr>
        | VergeLayer \<Rightarrow> w\<lparr>cw_verge := view_apply (cw_verge w)\<rparr>
        | RuntimeLayer \<Rightarrow> w\<lparr>cw_runtime := view_apply (cw_runtime w)\<rparr>),
      layer_discard = (\<lambda>w. case l of
          ClashLayer \<Rightarrow> w\<lparr>cw_clash := view_discard (cw_clash w)\<rparr>
        | VergeLayer \<Rightarrow> w\<lparr>cw_verge := view_discard (cw_verge w)\<rparr>
        | RuntimeLayer \<Rightarrow> w\<lparr>cw_runtime := view_discard (cw_runtime w)\<rparr>),
      layer_name = layer_text l\<rparr>"

text \<open>\<open>DraftTransaction::begin(...)?\<close>.\<close>

definition begin_transaction :: "config_layer list \<Rightarrow> config_world \<Rightarrow> config_world draft_transaction outcome \<times> config_world" where
  "begin_transaction ls w =
     (let (r, w) = transaction_begin (map config_layer_of ls) w
      in (map_sum (\<lambda>name. bail (''configuration layer '' @ name @ '' is being changed elsewhere'')) id r, w))"

subsection \<open>From the cells to the run file\<close>

definition edit_runtime :: "(iruntime \<Rightarrow> iruntime) \<Rightarrow> config_world \<Rightarrow> config_world" where
  "edit_runtime f w = w\<lparr>cw_runtime := snd (view_edit (\<lambda>d. ((), f d)) (cw_runtime w))\<rparr>"

definition generate_with_profiles :: "config_env \<Rightarrow> iprofiles \<Rightarrow> config_world \<Rightarrow> unit outcome \<times> config_world" where
  "generate_with_profiles env profiles w =
     (let (r, notice) = build_runtime (ce_generate env (cw_tick w)) (session_fallback (cw_session w))
            (view_latest (cw_clash w)) (view_latest (cw_verge w)) profiles (cw_notice w);
          w = ctick env (w\<lparr>cw_notice := notice\<rparr>)
      in (case r of Inl e \<Rightarrow> (Inl (bail e), w) | Inr rt \<Rightarrow> (Inr (), edit_runtime (\<lambda>_. rt) w)))"

definition generate :: "config_env \<Rightarrow> config_world \<Rightarrow> unit outcome \<times> config_world" where
  "generate env w = generate_with_profiles env (view_latest (cw_profiles w)) w"

definition runtime_yaml :: "config_env \<Rightarrow> config_world \<Rightarrow> string outcome \<times> config_world" where
  "runtime_yaml env w = (map_sum bail id (runtime_config_yaml (ce_print env) (cw_runtime w)), ctick env w)"

definition RUNTIME_CONFIG :: string where
  "RUNTIME_CONFIG = ''clash-verge.yaml''"

definition write_runtime_file :: "config_env \<Rightarrow> string \<Rightarrow> config_world \<Rightarrow> string outcome \<times> config_world" where
  "write_runtime_file env yaml w =
     (case ce_home_dir env (cw_tick w) of
        Inl e \<Rightarrow> (Inl (bail e), w)
      | Inr dir \<Rightarrow>
          (let path = join_path dir RUNTIME_CONFIG
           in case ce_write env (cw_tick w) yaml of
                Inl e \<Rightarrow> (Inl (bail e), ctick env w)
              | Inr _ \<Rightarrow> (Inr path, ctick env (w\<lparr>cw_run_file := Some yaml\<rparr>))))"

definition generate_run_file :: "config_env \<Rightarrow> config_world \<Rightarrow> string outcome \<times> config_world" where
  "generate_run_file env w = try_then (runtime_yaml env w) (\<lambda>yaml w. write_runtime_file env yaml w)"

definition validate_yaml :: "config_env \<Rightarrow> string \<Rightarrow> config_world \<Rightarrow> validation_outcome outcome \<times> config_world" where
  "validate_yaml env yaml w =
     (let (r, v) = validate_config_outcome_with (ce_validate env (cw_tick w)) yaml (cw_validator w)
      in (map_sum bail id r, ctick env (w\<lparr>cw_validator := v\<rparr>)))"

subsection \<open>Telling the core\<close>

definition reload_config :: "config_env \<Rightarrow> string \<Rightarrow> config_world \<Rightarrow> (string + unit) \<times> config_world" where
  "reload_config env path w =
     (let r = ce_reload env (cw_tick w) path
      in (r, ctick env (note_event (Reload path (is_ok r)) (note_load w))))"

datatype stage_attempt =
    StagingUnsupported | RefusedTheBundle string | RefusedForAnotherReason string | Unanswered string | Answered stage_outcome

datatype config_application = ReloadFrom string | ReplaceCore | FailWith string

fun plan_config_application :: "stage_attempt \<Rightarrow> config_application" where
  "plan_config_application (Answered (Staged config_path)) = ReloadFrom config_path"
| "plan_config_application (Answered (RestartRequired reason)) = ReplaceCore"
| "plan_config_application (RefusedTheBundle message) = FailWith message"
| "plan_config_application (RefusedForAnotherReason message) = ReplaceCore"
| "plan_config_application (Unanswered error) = ReplaceCore"
| "plan_config_application StagingUnsupported = ReplaceCore"

definition stage_runtime_by_service :: "config_env \<Rightarrow> config_world \<Rightarrow> stage_request outcome \<times> config_world" where
  "stage_runtime_by_service env w0 =
     (let w = note_event AskedToStage w0
      in case session (cw_core w) of
        None \<Rightarrow> (Inl (bail ''no active service session''), w)
      | Some _ \<Rightarrow>
          ((case ce_stage env (cw_tick w) of
              Inl e \<Rightarrow> Inl e
            | Inr reply \<Rightarrow>
                if sg_code reply > 0 then Inr (StageRefused (sg_code reply) (sg_message reply))
                else (case sg_data reply of
                        Some outcome \<Rightarrow> Inr (StageAnswered outcome)
                      | None \<Rightarrow> Inl (bail ''Clash Verge Service returned no staging result''))),
           ctick env w))"

definition ask_to_stage :: "config_env \<Rightarrow> config_world \<Rightarrow> stage_attempt \<times> config_world" where
  "ask_to_stage env w =
     (let (r, w) = stage_runtime_by_service env w
      in ((case r of
             Inr (StageAnswered outcome) \<Rightarrow> Answered outcome
           | Inr (StageRefused code message) \<Rightarrow>
               if is_about_the_bundle (code_invalid_asset (ce_core env)) (code_invalid_location (ce_core env)) code
               then RefusedTheBundle message else RefusedForAnotherReason message
           | Inl e \<Rightarrow> Unanswered (show_chain e)), w))"

text \<open>A second request that is cut off by its deadline has still been made.\<close>

definition stage_with_confirmation :: "(config_world \<Rightarrow> bool) \<Rightarrow> (config_world \<Rightarrow> stage_attempt \<times> config_world)
    \<Rightarrow> config_world \<Rightarrow> stage_attempt \<times> config_world" where
  "stage_with_confirmation in_time ask w =
     (case ask w of
        (Unanswered first, w1) \<Rightarrow>
          (let (again, w2) = ask w1
           in ((if \<not> in_time w1 then Unanswered (first @ ''; the second ask did not answer either'')
                else (case again of
                        Unanswered second \<Rightarrow> Unanswered (first @ ''; asked again: '' @ second)
                      | answered \<Rightarrow> answered)), w2))
      | (answered, w1) \<Rightarrow> (answered, w1))"

definition attempt_staging :: "config_env \<Rightarrow> config_world \<Rightarrow> stage_attempt \<times> config_world" where
  "attempt_staging env w =
     (if (case session (cw_core w) of Some s \<Rightarrow> supports_runtime_staging s | None \<Rightarrow> False)
      then stage_with_confirmation (\<lambda>w. ce_confirmed env (cw_tick w)) (ask_to_stage env) w
      else (StagingUnsupported, w))"

definition replace_core :: "config_env \<Rightarrow> config_world \<Rightarrow> unit outcome \<times> config_world" where
  "replace_core env w = on_core (replace_service_core_with_config (ce_core env)) (note_load w)"

definition apply_config_by_service :: "config_env \<Rightarrow> config_world \<Rightarrow> unit outcome \<times> config_world" where
  "apply_config_by_service env w =
     (let (attempt, w) = attempt_staging env w
      in case plan_config_application attempt of
           FailWith message \<Rightarrow> (Inl (bail message), w)
         | ReloadFrom staged_path \<Rightarrow>
             (case reload_config env staged_path w of
                (Inr _, w) \<Rightarrow> (Inr (), note_event ProviderSyncRequested w)
              | (Inl _, w) \<Rightarrow> replace_core env w)
         | ReplaceCore \<Rightarrow> replace_core env w)"

definition restart_with_run_file :: "config_env \<Rightarrow> config_world \<Rightarrow> unit outcome \<times> config_world" where
  "restart_with_run_file env w = on_core (restart_core_during_config_update (ce_core env)) (note_load w)"

definition reload_or_restart :: "config_env \<Rightarrow> string \<Rightarrow> config_world \<Rightarrow> unit outcome \<times> config_world" where
  "reload_or_restart env path w =
     (case reload_config env path w of
        (Inr _, w) \<Rightarrow> (Inr (), w)
      | (Inl _, w) \<Rightarrow>
          (case restart_with_run_file env w of
             (Inr _, w) \<Rightarrow> (Inr (), w)
           | (Inl e, w) \<Rightarrow> (Inl (add_context (Text ''failed to apply the configuration'') e), w)))"

definition apply_config :: "config_env \<Rightarrow> string \<Rightarrow> config_world \<Rightarrow> unit outcome \<times> config_world" where
  "apply_config env path w =
     (if running (cw_core w) = ModeService then
        let w = ctick env (w\<lparr>cw_core := ce_lock env (cw_tick w) (cw_core w)\<rparr>)
        in if running (cw_core w) \<noteq> ModeService
           then (Inl (bail ''core mode changed while applying service configuration''), w)
           else apply_config_by_service env w
      else reload_or_restart env path w)"

subsection \<open>One update\<close>

text \<open>
  A transaction that is not committed is dropped on every way out, which discards its drafts.
\<close>

definition validate_and_apply :: "config_env \<Rightarrow> config_world draft_transaction \<Rightarrow> config_world
    \<Rightarrow> validation_outcome outcome \<times> config_world" where
  "validate_and_apply env transaction w =
     (case runtime_yaml env w of
        (Inl e, w) \<Rightarrow> (Inl e, transaction_drop transaction w)
      | (Inr yaml, w) \<Rightarrow>
          (case validate_yaml env yaml w of
             (Inl e, w) \<Rightarrow> (Inl e, transaction_drop transaction w)
           | (Inr outcome, w) \<Rightarrow>
               if \<not> is_valid_outcome outcome then (Inr outcome, transaction_drop transaction w)
               else (case write_runtime_file env yaml w of
                       (Inl e, w) \<Rightarrow> (Inl e, transaction_drop transaction w)
                     | (Inr run_path, w) \<Rightarrow>
                         (case apply_config env run_path w of
                            (Inl e, w) \<Rightarrow> (Inl e, transaction_drop transaction w)
                          | (Inr _, w) \<Rightarrow> (Inr Valid, transaction_commit transaction w)))))"

definition perform_config_update :: "config_env \<Rightarrow> iprofiles option \<Rightarrow> config_world \<Rightarrow> validation_outcome outcome \<times> config_world" where
  "perform_config_update env profiles w =
     try_then (begin_transaction [RuntimeLayer] w) (\<lambda>transaction w.
     (case (case profiles of Some p \<Rightarrow> generate_with_profiles env p w | None \<Rightarrow> generate env w) of
        (Inl e, w) \<Rightarrow> (Inr (invalid_from_message (show_cause (hd e))), transaction_drop transaction w)
      | (Inr _, w) \<Rightarrow> validate_and_apply env transaction w))"

text \<open>The flag of a running update, with the epoch the application proxy watches.\<close>

definition start_update :: "config_world \<Rightarrow> bool \<times> config_world" where
  "start_update w =
     (let (free, c) = try_start_config_update (cw_core w)
      in (free, if free then w\<lparr>cw_core := c, cw_epoch := begin_config_update (cw_epoch w)\<rparr> else w\<lparr>cw_core := c\<rparr>))"

definition end_update :: "config_world \<Rightarrow> config_world" where
  "end_update w = w\<lparr>cw_epoch := AppProxyRules.finish_config_update (cw_epoch w),
     cw_core := CoreProcess.finish_config_update (cw_core w)\<rparr>"

definition CONFIG_UPDATE_DEBOUNCE :: nat where
  "CONFIG_UPDATE_DEBOUNCE = 300"

text \<open>Instants are milliseconds of a monotonic clock; an earlier instant is no time ago.\<close>

definition should_update_config :: "config_env \<Rightarrow> config_world \<Rightarrow> bool \<times> config_world" where
  "should_update_config env w =
     (let now = ce_now env (cw_tick w)
      in if (case cw_last_update w of Some last_time \<Rightarrow> now - last_time < CONFIG_UPDATE_DEBOUNCE | None \<Rightarrow> False)
         then (False, w) else (True, w\<lparr>cw_last_update := Some now\<rparr>))"

definition update_config_with_force :: "config_env \<Rightarrow> bool \<Rightarrow> config_world \<Rightarrow> validation_outcome outcome \<times> config_world" where
  "update_config_with_force env force w =
     (if ce_exiting env (cw_tick w) then (Inr (Skipped Exiting), w)
      else let (free, w) = start_update w
      in if \<not> free then (Inr Busy, w)
      else let (due, w) = (if force then (True, w\<lparr>cw_last_update := Some (ce_now env (cw_tick w))\<rparr>) else should_update_config env w);
               (r, w) = (if due then perform_config_update env None w else (Inr (Skipped Debounced), w))
      in (r, end_update w))"

definition update_config_forced :: "config_env \<Rightarrow> config_world \<Rightarrow> validation_outcome outcome \<times> config_world" where
  "update_config_forced env w = update_config_with_force env True w"

definition update_config_checked :: "config_env \<Rightarrow> config_world \<Rightarrow> unit outcome \<times> config_world" where
  "update_config_checked env w =
     try_then (update_config_forced env w) (\<lambda>outcome w.
       if is_valid_outcome outcome then (Inr (), w) else (Inl (bail (show_outcome outcome)), w))"

definition update_runtime_config :: "config_env \<Rightarrow> (iruntime \<Rightarrow> iruntime) \<Rightarrow> config_world \<Rightarrow> validation_outcome outcome \<times> config_world" where
  "update_runtime_config env f w =
     (let (free, w) = start_update w
      in if \<not> free then (Inr Busy, w)
         else let (r, w) = try_then (begin_transaction [RuntimeLayer] w)
                    (\<lambda>transaction w. validate_and_apply env transaction (edit_runtime f w))
              in (r, end_update w))"

subsection \<open>An update for a change of profiles\<close>

definition restore_profile_config :: "config_env \<Rightarrow> iprofiles \<Rightarrow> config_world \<Rightarrow> unit outcome \<times> config_world" where
  "restore_profile_config env profiles w =
     try_then (perform_config_update env (Some profiles) w) (\<lambda>outcome w.
       if is_valid_outcome outcome then (Inr (), ctick env (note_event RestoreNodes w))
       else (Inl (bail (''failed to restore previous Core configuration: '' @ show_outcome outcome)), w))"

definition save_profiles_file :: "config_env \<Rightarrow> iprofiles \<Rightarrow> config_world \<Rightarrow> unit outcome \<times> config_world" where
  "save_profiles_file env profiles w =
     (case ce_write_profiles env (cw_tick w) of
        Inl e \<Rightarrow> (Inl (bail e), ctick env w)
      | Inr _ \<Rightarrow> (Inr (), ctick env (w\<lparr>cw_profiles_file := Some profiles\<rparr>)))"

text \<open>\<open>True\<close> stands for the guard that keeps the update running until the caller drops it.\<close>

definition roll_back_to :: "config_env \<Rightarrow> iprofiles \<Rightarrow> error \<Rightarrow> config_world \<Rightarrow> (validation_outcome + bool) outcome \<times> config_world" where
  "roll_back_to env rollback e w =
     (let (r, w) = restore_profile_config env rollback w
      in ((case r of Inl e' \<Rightarrow> Inl e' | Inr _ \<Rightarrow> Inl e), end_update w))"

definition update_config_forced_with_profiles :: "config_env \<Rightarrow> iprofiles \<Rightarrow> iprofiles \<Rightarrow> config_world
    \<Rightarrow> (validation_outcome + bool) outcome \<times> config_world" where
  "update_config_forced_with_profiles env candidate rollback w =
     (if ce_exiting env (cw_tick w) then (Inr (Inl (Skipped Exiting)), w)
      else let (free, w) = start_update w
      in if \<not> free then (Inr (Inl Busy), w)
      else let w = note_event SupersedeActivation (w\<lparr>cw_last_update := Some (ce_now env (cw_tick w))\<rparr>)
      in case perform_config_update env (Some candidate) w of
           (Inl e, w) \<Rightarrow> roll_back_to env rollback e w
         | (Inr outcome, w) \<Rightarrow>
             if \<not> is_valid_outcome outcome
             then (Inr (Inl outcome), end_update (ctick env (note_event RestoreNodes w)))
             else (case save_profiles_file env candidate w of
                     (Inr _, w) \<Rightarrow> (Inr (Inr True), w)
                   | (Inl e, w) \<Rightarrow> roll_back_to env rollback e w))"

subsection \<open>The first configuration of a launch\<close>

text \<open>\<open>save_yaml\<close> prints with its own heading.\<close>

definition use_default_config :: "config_env \<Rightarrow> string \<Rightarrow> string \<Rightarrow> config_world \<Rightarrow> unit outcome \<times> config_world" where
  "use_default_config env error_key error_msg w =
     (case ce_home_dir env (cw_tick w) of
        Inl e \<Rightarrow> (Inl (bail e), w)
      | Inr _ \<Rightarrow>
          (let clash_config = view_latest (cw_clash w);
               w = edit_runtime (\<lambda>_. \<lparr>rt_config = Some clash_config, rt_dns_override = None, rt_exists_keys = {},
                     rt_chain_logs = (\<lambda>_. None)\<rparr>) w
           in case and_then (ce_print env clash_config) (\<lambda>text.
                  let yaml = ''# Clash Verge Runtime'' @ [CHR 0x0A, CHR 0x0A] @ text
                  in map_sum id (\<lambda>_. yaml) (ce_write env (cw_tick w) yaml)) of
                Inl e \<Rightarrow> (Inl (bail e), ctick env w)
              | Inr yaml \<Rightarrow> (Inr (), ctick env (note_event (NoticeShown error_key error_msg) (w\<lparr>cw_run_file := Some yaml\<rparr>)))))"

definition fall_back_to_default :: "config_env \<Rightarrow> string \<Rightarrow> string \<Rightarrow> config_world \<Rightarrow> (string \<times> string) option outcome \<times> config_world" where
  "fall_back_to_default env key msg w =
     try_then (use_default_config env key msg w) (\<lambda>_ w. (Inr (Some (key, msg)), w))"

definition generate_and_validate :: "config_env \<Rightarrow> config_world \<Rightarrow> (string \<times> string) option outcome \<times> config_world" where
  "generate_and_validate env w =
     (case generate env w of
        (Inl e, w) \<Rightarrow> fall_back_to_default env ''config_validate::boot_error'' (show_cause (hd e)) w
      | (Inr _, w) \<Rightarrow>
          (case try_then (runtime_yaml env w) (\<lambda>yaml w. try_then (write_runtime_file env yaml w) (\<lambda>_ w. (Inr yaml, w))) of
             (Inl e, w) \<Rightarrow> fall_back_to_default env ''config_validate::error'' [] w
           | (Inr yaml, w) \<Rightarrow>
               (case validate_yaml env yaml w of
                  (Inr outcome, w) \<Rightarrow>
                    if is_valid_outcome outcome then (Inr None, w)
                    else fall_back_to_default env ''config_validate::boot_error'' (show_outcome outcome) w
                | (Inl e, w) \<Rightarrow> fall_back_to_default env ''config_validate::process_terminated'' [] w)))"

end
