(* ===== verification/BundleProps.thy ===== *)
theory BundleProps
  imports RuntimeBundle Files
begin

section \<open>Resolved provider paths\<close>

text \<open>
  After \<open>resolve_provider_path_conflicts\<close> (\<open>core/runtime_bundle.rs\<close>) two remote sources never fill the
  same file, unless a local provider owns it.  The proof follows the code: the scan groups the claims of the
  configuration by file and source, the allocation gives every source of a contested file a name that nobody
  has, and the new path is again the claim of its provider.
\<close>

subsection \<open>Ordered maps\<close>

lemma map_of_btree_insert: "map_of (btree_insert k v m) = (map_of m)(k \<mapsto> v)"
  by (induction k v m rule: btree_insert.induct) (auto simp: fun_eq_iff)

lemma set_btree_insert: "fst ` set (btree_insert k v m) = insert k (fst ` set m)"
  by (induction k v m rule: btree_insert.induct) auto

lemma sorted_btree_insert: "sorted_wrt (<) (map fst m) \<Longrightarrow> sorted_wrt (<) (map fst (btree_insert k v m))"
proof (induction k v m rule: btree_insert.induct)
  case (2 k v k' v' m)
  show ?case
  proof (cases k k' rule: linorder_cases)
    case less
    with 2(2) show ?thesis by auto
  next
    case equal
    with 2(2) show ?thesis by simp
  next
    case greater
    with 2 set_btree_insert [of k v m] show ?thesis by auto
  qed
qed simp

lemma btree_entry_laws:
  assumes "sorted_wrt (<) (map fst m)"
  shows "map_of (btree_entry k d f m) = (map_of m)(k \<mapsto> f (unwrap_or d (map_of m k)))"
    and "sorted_wrt (<) (map fst (btree_entry k d f m))"
  using assms by (simp_all add: btree_entry_def map_of_btree_insert sorted_btree_insert)

lemma sorted_keys_distinct: "sorted_wrt (<) (ks :: string list) \<Longrightarrow> distinct ks"
  by (simp add: strict_sorted_iff)

subsection \<open>Plain destinations\<close>

definition good_name :: "string \<Rightarrow> bool" where
  "good_name n = (n \<noteq> [] \<and> CHR ''/'' \<notin> set n \<and> n \<noteq> ''.'' \<and> n \<noteq> ''..'')"

lemma starts_with_slash_join:
  assumes "ws \<noteq> []" and "\<forall>w \<in> set ws. good_name w"
  shows "\<not> starts_with ''/'' (join_with CHR ''/'' ws)"
proof -
  obtain w rest where "ws = w # rest" using assms(1) by (cases ws) auto
  with assms(2) obtain c r where "w = c # r" "c \<noteq> CHR ''/''" by (cases w) (auto simp: good_name_def)
  with \<open>ws = w # rest\<close> show ?thesis by (cases rest) auto
qed

lemma components_of_join:
  assumes "ws \<noteq> []" and "\<forall>w \<in> set ws. good_name w"
  shows "path_components (join_with CHR ''/'' ws) = map Normal ws"
proof -
  have s: "split_on CHR ''/'' (join_with CHR ''/'' ws) = ws"
    using assms by (intro split_join) (auto simp: good_name_def)
  have "concat (map piece_component ws) = map Normal ws"
    using assms(2) by (induction ws) (auto simp: piece_component_def good_name_def)
  moreover have "hd ws \<noteq> ''.''" using assms by (cases ws) (auto simp: good_name_def)
  ultimately show ?thesis
    using starts_with_slash_join [OF assms] by (simp add: path_components_def s)
qed

lemma component_names_good: "Normal n \<in> set (path_components s) \<Longrightarrow> good_name n"
  by (auto simp: path_components_def Let_def piece_component_def good_name_def
      split: if_splits dest: split_on_pieces)

lemma text_of_names: "map component_text (map Normal ws) = ws"
  by (induction ws) simp_all

lemma path_text_names: "path_text (map Normal ws) = join_with CHR ''/'' ws"
  unfolding path_text_def text_of_names by (cases ws) simp_all

text \<open>A destination is plain when it is a relative path of names without back slashes.\<close>

definition plain :: "string \<Rightarrow> bool" where
  "plain d = (let p = path_components d
     in p \<noteq> [] \<and> list_all (\<lambda>c. c \<noteq> RootDir \<and> c \<noteq> CurDir \<and> c \<noteq> ParentDir) p \<and> path_text p = d \<and> CHR 0x5C \<notin> set d)"

lemma plainE:
  assumes "plain d"
  obtains ws where "ws \<noteq> []" "\<forall>w \<in> set ws. good_name w" "d = join_with CHR ''/'' ws" "CHR 0x5C \<notin> set d"
    "path_components d = map Normal ws"
proof -
  let ?p = "path_components d"
  from assms have p: "?p \<noteq> []" "\<forall>c \<in> set ?p. c \<noteq> RootDir \<and> c \<noteq> CurDir \<and> c \<noteq> ParentDir"
    "path_text ?p = d" "CHR 0x5C \<notin> set d"
    by (simp_all add: plain_def Let_def list_all_iff)
  have "\<forall>c \<in> set ?p. \<exists>n. c = Normal n"
    using p(2) by (metis path_component.exhaust)
  then obtain ws where ws: "?p = map Normal ws" by (auto simp: ex_map_conv [symmetric])
  moreover have "\<forall>w \<in> set ws. good_name w"
    using component_names_good [of _ d] ws by auto
  moreover have "d = join_with CHR ''/'' ws"
    using p(3) unfolding ws path_text_names by (rule sym)
  ultimately show ?thesis using that p(1,4) by auto
qed

lemma slashes_id: "CHR 0x5C \<notin> set s \<Longrightarrow> slashes s = s"
  by (auto simp: slashes_def intro!: map_idI)

lemma normal_names_map: "normal_names (map Normal ws) = Inr ws"
  by (induction ws) auto

lemma plain_destination:
  assumes "plain d"
  shows "provider_destination fs root d = Inr d"
proof -
  from assms obtain ws where ws: "ws \<noteq> []" "d = join_with CHR ''/'' ws" "CHR 0x5C \<notin> set d"
    "path_components d = map Normal ws" by (rule plainE)
  moreover have "\<not> is_absolute (map Normal ws)" by (cases ws) (simp_all add: is_absolute_def)
  moreover have "ParentDir \<notin> set (map Normal ws)" by auto
  ultimately show ?thesis
    by (simp add: provider_destination_def Let_def normalized_destination_def normal_names_map slashes_id)
qed

text \<open>Every name given to a source of a plain destination is plain again.\<close>

definition hex_digits :: "string \<Rightarrow> bool" where
  "hex_digits s = list_all (\<lambda>c. c \<in> set ''0123456789abcdef'') s"

lemma hex_chars:
  assumes "hex_digits s"
  shows "CHR 0x5C \<notin> set s" and "CHR ''/'' \<notin> set s"
proof -
  have "CHR 0x5C \<notin> set ''0123456789abcdef''" "CHR ''/'' \<notin> set ''0123456789abcdef''" by simp_all
  with assms show "CHR 0x5C \<notin> set s" "CHR ''/'' \<notin> set s"
    unfolding hex_digits_def list_all_iff by blast+
qed

lemma set_join: "set (join_with d ws) \<subseteq> \<Union> (set ` set ws) \<union> {d}"
  by (induction d ws rule: join_with.induct) auto

lemma join_sub: "w \<in> set ws \<Longrightarrow> set w \<subseteq> set (join_with d ws)"
  by (induction d ws rule: join_with.induct) auto

lemma extension_chars:
  assumes "file_extension (p @ [Normal n]) = Some e"
  shows "set e \<subseteq> set n"
proof -
  from assms have "e = rev (takeWhile (\<lambda>c. c \<noteq> CHR ''.'') (rev n))"
    by (simp add: file_extension_def Let_def split: if_splits)
  then show ?thesis using set_takeWhileD [of _ "\<lambda>c. c \<noteq> CHR ''.''" "rev n"] by auto
qed

lemma candidate_plain:
  assumes "plain d" and "hex_digits digest"
  shows "plain (candidate_destination d digest k)"
proof -
  from assms(1) obtain ws where ws: "ws \<noteq> []" "\<forall>w \<in> set ws. good_name w" "d = join_with CHR ''/'' ws"
    "CHR 0x5C \<notin> set d" "path_components d = map Normal ws" by (rule plainE)
  define us u where "us = butlast ws" and "u = last ws"
  with ws(1) have u: "ws = us @ [u]" by simp
  have sub: "set w \<subseteq> set d" if "w \<in> set ws" for w
    unfolding ws(3) by (rule join_sub [OF that])
  define ext where "ext = (case file_extension (path_components d) of Some e \<Rightarrow> ''.'' @ e | None \<Rightarrow> [])"
  have ext: "set ext \<subseteq> set u \<union> {CHR ''.''}"
  proof (cases "file_extension (path_components d)")
    case (Some e)
    then have "file_extension (map Normal us @ [Normal u]) = Some e" by (simp add: ws(5) u)
    from extension_chars [OF this] Some show ?thesis by (auto simp: ext_def)
  qed (simp add: ext_def)
  define suffix where "suffix = (if k = 0 then [] else ''-'' @ show_nat k)"
  define name where "name = ''cvr-'' @ digest @ suffix @ ext"
  have suffix: "CHR 0x5C \<notin> set suffix" "CHR ''/'' \<notin> set suffix"
    using show_nat_chars by (auto simp: suffix_def)
  have u_in: "u \<in> set ws" by (simp add: u)
  have u_chars: "CHR 0x5C \<notin> set u" "CHR ''/'' \<notin> set u"
    using sub [OF u_in] ws(4) bspec [OF ws(2) u_in] by (auto simp: good_name_def)
  have ext_chars: "CHR 0x5C \<notin> set ext" "CHR ''/'' \<notin> set ext"
    using ext u_chars by auto
  have name: "CHR 0x5C \<notin> set name" "CHR ''/'' \<notin> set name"
    using suffix hex_chars [OF assms(2)] ext_chars by (simp_all add: name_def)
  have "good_name name" using name(2) by (simp add: good_name_def name_def)
  moreover have "\<forall>w \<in> set us. good_name w" using ws(2) by (simp add: u)
  ultimately have good: "\<forall>w \<in> set (us @ [name]). good_name w" by simp
  have "with_file_name (path_components d) name = map Normal (us @ [name])"
    by (simp add: with_file_name_def ws(5) u rev_map [symmetric])
  moreover have no: "CHR 0x5C \<notin> set (join_with CHR ''/'' (us @ [name]))"
  proof -
    have "CHR 0x5C \<notin> set w" if "w \<in> set (us @ [name])" for w
      using that name(1) sub [of w] ws(4) by (auto simp: u)
    then show ?thesis using set_join [of "CHR ''/''" "us @ [name]"] by auto
  qed
  moreover have "candidate_destination d digest k = slashes (path_text (with_file_name (path_components d) name))"
    by (simp only: candidate_destination_def Let_def ext_def suffix_def name_def)
  ultimately have c: "candidate_destination d digest k = join_with CHR ''/'' (us @ [name])"
    by (metis path_text_names slashes_id)
  have "path_components (join_with CHR ''/'' (us @ [name])) = map Normal (us @ [name])"
    by (rule components_of_join) (use good in auto)
  then show ?thesis
    using no by (auto simp: plain_def c Let_def list_all_iff path_text_names simp del: map_append)
qed

subsection \<open>The scan\<close>

text \<open>What the providers of a configuration claim: who, which file, and the remote source if there is one.\<close>

type_synonym claims = "((string \<times> yaml) \<times> string \<times> string option) list"

definition section_claims :: "bundle_fs \<Rightarrow> path \<Rightarrow> string \<Rightarrow> mapping \<Rightarrow> claims" where
  "section_claims fs root sec providers =
     List.map_filter (\<lambda>(name, provider). map_option (\<lambda>c. ((sec, name), c)) (provider_claim fs root provider)) providers"

definition declared :: "bundle_fs \<Rightarrow> path \<Rightarrow> mapping \<Rightarrow> claims" where
  "declared fs root config = concat (map (\<lambda>sec. section_claims fs root sec (section_providers config sec)) PROVIDER_SECTIONS)"

definition record_claim :: "(string \<times> yaml) \<times> string \<times> string option
    \<Rightarrow> (string \<times> path_owners) list \<times> string list \<Rightarrow> (string \<times> path_owners) list \<times> string list" where
  "record_claim c acc = (case c of ((sec, name), destination, source) \<Rightarrow>
     (btree_entry destination \<lparr>own_remote = [], own_local = False\<rparr> (add_owner sec name source) (fst acc),
      List.insert destination (snd acc)))"

lemma scan_providers_fold: "scan_providers fs root sec providers acc = fold record_claim (section_claims fs root sec providers) acc"
proof (induction fs root sec providers acc rule: scan_providers.induct)
  case (2 fs root sec name provider providers paths reserved)
  then show ?case
    by (auto simp: section_claims_def map_filter_simps record_claim_def split: option.splits)
qed (simp add: section_claims_def map_filter_simps)

lemma scan_config_fold: "scan_config fs root config = fold record_claim (declared fs root config) ([], GEO_ASSETS)"
  by (simp add: scan_config_def declared_def PROVIDER_SECTIONS_def scan_providers_fold)

definition no_owners :: path_owners where
  "no_owners = \<lparr>own_remote = [], own_local = False\<rparr>"

definition owners_ok :: "claims \<Rightarrow> string \<Rightarrow> path_owners \<Rightarrow> bool" where
  "owners_ok D d ow \<longleftrightarrow> own_local ow = (\<exists>sn. (sn, d, None) \<in> set D)
     \<and> sorted_wrt (<) (map fst (own_remote ow))
     \<and> (\<forall>u. set (unwrap_or [] (map_of (own_remote ow) u)) = {sn. (sn, d, Some u) \<in> set D})
     \<and> (\<forall>us \<in> set (own_remote ow). snd us \<noteq> [])"

definition paths_ok :: "claims \<Rightarrow> (string \<times> path_owners) list \<Rightarrow> bool" where
  "paths_ok D paths \<longleftrightarrow> sorted_wrt (<) (map fst paths) \<and> (\<forall>d. owners_ok D d (unwrap_or no_owners (map_of paths d)))"

lemma in_btree_entry: "x \<in> set (btree_entry k d f m) \<Longrightarrow> x = (k, f (unwrap_or d (map_of m k))) \<or> x \<in> set m"
proof -
  have "x \<in> set (btree_insert k v m) \<Longrightarrow> x = (k, v) \<or> x \<in> set m" for v
    by (induction k v m rule: btree_insert.induct) (auto split: if_splits)
  then show "x \<in> set (btree_entry k d f m) \<Longrightarrow> x = (k, f (unwrap_or d (map_of m k))) \<or> x \<in> set m"
    by (simp add: btree_entry_def)
qed

lemma owners_ok_add:
  assumes "owners_ok D d ow"
  shows "owners_ok (D @ [((sec, name), d, src)]) d (add_owner sec name src ow)"
proof (cases src)
  case None
  with assms show ?thesis by (auto simp: owners_ok_def add_owner_def)
next
  case (Some url)
  let ?rem = "btree_entry url [] (\<lambda>ps. ps @ [(sec, name)]) (own_remote ow)"
  from assms have s: "sorted_wrt (<) (map fst (own_remote ow))"
    and m: "\<And>u. set (unwrap_or [] (map_of (own_remote ow) u)) = {sn. (sn, d, Some u) \<in> set D}"
    and n: "\<And>us. us \<in> set (own_remote ow) \<Longrightarrow> snd us \<noteq> []"
    and l: "own_local ow = (\<exists>sn. (sn, d, None) \<in> set D)"
    by (auto simp: owners_ok_def)
  have "set (unwrap_or [] (map_of ?rem u)) = {sn. (sn, d, Some u) \<in> set (D @ [((sec, name), d, src)])}" for u
    using m [of u] Some by (auto simp: btree_entry_laws [OF s])
  moreover have "snd us \<noteq> []" if "us \<in> set ?rem" for us
    using in_btree_entry [OF that] n [of us] by auto
  ultimately show ?thesis
    using Some l by (auto simp: owners_ok_def add_owner_def btree_entry_laws [OF s])
qed

lemma owners_ok_other: "d' \<noteq> d \<Longrightarrow> owners_ok (D @ [(sn, d', src)]) d ow = owners_ok D d ow"
  by (simp add: owners_ok_def)

lemma paths_ok_record:
  assumes "paths_ok D (fst acc)"
  shows "paths_ok (D @ [c]) (fst (record_claim c acc))"
proof -
  obtain sec name d src where c: "c = ((sec, name), d, src)" by (metis prod.exhaust)
  from assms have s: "sorted_wrt (<) (map fst (fst acc))"
    and o: "\<And>d. owners_ok D d (unwrap_or no_owners (map_of (fst acc) d))"
    by (auto simp: paths_ok_def)
  have "owners_ok (D @ [c]) d' (unwrap_or no_owners (map_of (fst (record_claim c acc)) d'))" for d'
    using o [of d'] by (cases "d' = d")
      (auto simp: c record_claim_def btree_entry_laws [OF s] owners_ok_other no_owners_def intro: owners_ok_add)
  then show ?thesis
    by (simp add: paths_ok_def) (simp add: c record_claim_def btree_entry_laws [OF s])
qed

lemma snd_record_claim: "snd (record_claim c acc) = List.insert (fst (snd c)) (snd acc)"
  by (simp add: record_claim_def split: prod.splits)

lemma scan_config_ok:
  assumes "scan_config fs root config = (paths, reserved)"
  shows "paths_ok (declared fs root config) paths"
    and "(sn, d, src) \<in> set (declared fs root config) \<Longrightarrow> d \<in> set reserved"
proof -
  have "paths_ok D (fst (fold record_claim D ([], GEO_ASSETS)))
      \<and> (\<forall>c \<in> set D. fst (snd c) \<in> set (snd (fold record_claim D ([], GEO_ASSETS))))" for D
  proof (induction D rule: rev_induct)
    case Nil
    then show ?case by (simp add: paths_ok_def owners_ok_def no_owners_def)
  next
    case (snoc c D)
    then show ?case using paths_ok_record [of D "fold record_claim D ([], GEO_ASSETS)" c]
      by (auto simp: snd_record_claim)
  qed
  from this [of "declared fs root config"] assms show "paths_ok (declared fs root config) paths"
    and "(sn, d, src) \<in> set (declared fs root config) \<Longrightarrow> d \<in> set reserved"
    by (auto simp: scan_config_fold)
qed

subsection \<open>The allocation\<close>

lemma allocate_loop_fresh:
  "allocate_loop d digest reserved k = (c, reserved') \<Longrightarrow>
     c \<notin> set reserved \<and> reserved' = c # reserved \<and> (\<exists>j. c = candidate_destination d digest j)"
proof (induction d digest reserved k rule: allocate_loop.induct)
  case (1 d digest reserved k)
  then show ?case
    by (subst (asm) (2) allocate_loop.simps) (auto simp: Let_def split: if_splits)
qed

text \<open>A grant: the file and source it is for, the providers it moves, and the new file.\<close>

type_synonym grant = "(string \<times> string \<times> (string \<times> yaml) list) \<times> string"

definition moves :: "grant list \<Rightarrow> ((string \<times> yaml) \<times> string) list" where
  "moves G = concat (map (\<lambda>((d, u, sns), r). map (\<lambda>sn. (sn, r)) sns) G)"

definition apply_moves :: "((string \<times> yaml) \<times> string) list \<Rightarrow> mapping \<Rightarrow> mapping" where
  "apply_moves ms config = fold (\<lambda>(sn, r). set_provider_path r sn) ms config"

definition grants_ok :: "(string \<Rightarrow> string) \<Rightarrow> string list \<Rightarrow> grant list \<Rightarrow> bool" where
  "grants_ok sha256 reserved G \<longleftrightarrow> distinct (map snd G) \<and> set (map snd G) \<inter> set reserved = {}
     \<and> (\<forall>g \<in> set G. \<exists>text j. snd g = candidate_destination (fst (fst g)) (sha256 text) j)"

lemma apply_moves_append: "apply_moves (a @ b) config = apply_moves b (apply_moves a config)"
  by (simp add: apply_moves_def)

lemma moves_append: "moves (a @ b) = moves a @ moves b"
  by (simp add: moves_def)

lemma grants_ok_append:
  "grants_ok sha256 reserved a \<Longrightarrow> grants_ok sha256 (map snd (rev a) @ reserved) b \<Longrightarrow> grants_ok sha256 reserved (a @ b)"
  by (auto simp: grants_ok_def)

lemma fold_set_path: "fold (set_provider_path r) sns config = apply_moves (map (\<lambda>sn. (sn, r)) sns) config"
  by (induction sns arbitrary: config) (simp_all add: apply_moves_def)

lemma assign_sources_grants:
  "\<exists>G. assign_sources sha256 d sources (config, reserved) = (apply_moves (moves G) config, map snd (rev G) @ reserved)
     \<and> map fst G = map (\<lambda>(u, sns). (d, u, sns)) sources \<and> grants_ok sha256 reserved G"
proof (induction sources arbitrary: config reserved)
  case Nil
  show ?case by (rule exI [of _ "[]"]) (simp add: moves_def apply_moves_def grants_ok_def)
next
  case (Cons us sources)
  obtain u sns where us: "us = (u, sns)" by fastforce
  obtain r reserved' where a: "allocate_provider_destination sha256 d u reserved = (r, reserved')" by fastforce
  then have r: "r \<notin> set reserved" "reserved' = r # reserved" "\<exists>text j. r = candidate_destination d (sha256 text) j"
    by (auto simp: allocate_provider_destination_def dest!: allocate_loop_fresh)
  obtain G where G: "assign_sources sha256 d sources (fold (set_provider_path r) sns config, reserved')
      = (apply_moves (moves G) (fold (set_provider_path r) sns config), map snd (rev G) @ reserved')"
    "map fst G = map (\<lambda>(u, sns). (d, u, sns)) sources" "grants_ok sha256 reserved' G"
    using Cons.IH by blast
  let ?g = "((d, u, sns), r)"
  have "grants_ok sha256 reserved [?g]" using r by (auto simp: grants_ok_def)
  with G(3) r(2) have "grants_ok sha256 reserved (?g # G)"
    using grants_ok_append [of sha256 reserved "[?g]" G] by simp
  moreover have "apply_moves (moves (?g # G)) config = apply_moves (moves G) (fold (set_provider_path r) sns config)"
    by (simp add: moves_def apply_moves_append fold_set_path)
  ultimately show ?case
    by (intro exI [of _ "?g # G"]) (use G r in \<open>simp add: us a\<close>)
qed

definition contested :: "path_owners \<Rightarrow> bool" where
  "contested ow = (\<not> own_local ow \<and> 2 \<le> length (own_remote ow))"

definition contests :: "(string \<times> path_owners) list \<Rightarrow> (string \<times> string \<times> (string \<times> yaml) list) list" where
  "contests paths = concat (map (\<lambda>(d, ow). if contested ow then map (\<lambda>(u, sns). (d, u, sns)) (own_remote ow) else []) paths)"

lemma assign_paths_grants:
  "\<exists>G. assign_paths sha256 paths (config, reserved) = (apply_moves (moves G) config, map snd (rev G) @ reserved)
     \<and> map fst G = contests paths \<and> grants_ok sha256 reserved G"
proof (induction paths arbitrary: config reserved)
  case Nil
  show ?case by (rule exI [of _ "[]"]) (simp add: moves_def apply_moves_def grants_ok_def contests_def)
next
  case (Cons p paths)
  obtain d ow where p: "p = (d, ow)" by fastforce
  show ?case
  proof (cases "contested ow")
    case False
    with Cons.IH [of config reserved] show ?thesis by (auto simp: p contested_def contests_def)
  next
    case True
    obtain A where A: "assign_sources sha256 d (own_remote ow) (config, reserved) = (apply_moves (moves A) config, map snd (rev A) @ reserved)"
      "map fst A = map (\<lambda>(u, sns). (d, u, sns)) (own_remote ow)" "grants_ok sha256 reserved A"
      using assign_sources_grants by blast
    obtain B where B: "assign_paths sha256 paths (apply_moves (moves A) config, map snd (rev A) @ reserved)
        = (apply_moves (moves B) (apply_moves (moves A) config), map snd (rev B) @ map snd (rev A) @ reserved)"
      "map fst B = contests paths" "grants_ok sha256 (map snd (rev A) @ reserved) B"
      using Cons.IH by blast
    from True have e: "\<not> (own_local ow \<or> length (own_remote ow) < 2)" by (simp add: contested_def)
    show ?thesis
      by (rule exI [of _ "A @ B"])
        (use A B e True in \<open>simp add: p contests_def moves_append apply_moves_append grants_ok_append\<close>)
  qed
qed

subsection \<open>The moved configuration\<close>

definition provider_at :: "mapping \<Rightarrow> string \<times> yaml \<Rightarrow> yaml option" where
  "provider_at config sn = map_of (section_providers config (fst sn)) (snd sn)"

definition move :: "string \<Rightarrow> yaml \<Rightarrow> yaml" where
  "move r p = map_mapping (put ''path'' (Str r)) p"

lemma section_providers_set:
  "section_providers (set_provider_path r (sec, name) config) sec' =
     (if sec' = sec then (case map_of (section_providers config sec) name of
        None \<Rightarrow> section_providers config sec
      | Some p \<Rightarrow> AList.update name (move r p) (section_providers config sec))
      else section_providers config sec')"
proof (cases "get config sec")
  case None
  then show ?thesis by (simp add: section_providers_def set_provider_path_def)
next
  case (Some v)
  then show ?thesis
    by (cases "as_mapping v") (auto simp: section_providers_def set_provider_path_def get_put as_mapping_map move_def
        split: option.splits)
qed

lemma put_put: "put k v (put k w m) = put k v m"
  by (simp add: put_def update_last)

lemma move_move: "move r (move r' p) = move r p"
  unfolding move_def by (induction p rule: as_mapping.induct) (simp_all add: put_put)

lemma keys_set_path:
  "map fst (section_providers (set_provider_path r sn config) sec) = map fst (section_providers config sec)"
proof (cases sn)
  case (Pair s n)
  then show ?thesis
    by (auto simp: section_providers_set update_keys split: option.splits dest!: map_of_SomeD intro: rev_image_eqI)
qed

lemma provider_at_set:
  "provider_at (set_provider_path r sn config) sn' =
     (if sn' = sn then map_option (move r) (provider_at config sn) else provider_at config sn')"
  by (cases sn; cases sn')
    (auto simp: provider_at_def section_providers_set update_conv' split: option.splits)

lemma apply_moves_keys:
  "map fst (section_providers (apply_moves ms config) sec) = map fst (section_providers config sec)"
  by (induction ms arbitrary: config) (auto simp: apply_moves_def keys_set_path)

lemma apply_moves_at:
  "provider_at (apply_moves ms config) sn =
     (case map_of (rev ms) sn of None \<Rightarrow> provider_at config sn | Some r \<Rightarrow> map_option (move r) (provider_at config sn))"
proof (induction ms arbitrary: config)
  case Nil
  then show ?case by (simp add: apply_moves_def)
next
  case (Cons m ms)
  obtain sn' r where m: "m = (sn', r)" by fastforce
  have "apply_moves (m # ms) config = apply_moves ms (set_provider_path r sn' config)"
    by (simp add: apply_moves_def m)
  with Cons.IH [of "set_provider_path r sn' config"] show ?case
    by (auto simp: m provider_at_set map_of_append map_add_def option.map_comp o_def move_move split: option.splits)
qed

text \<open>In order: the providers of a section are the old ones, those that were granted a name moved to it.\<close>

lemma section_providers_moved:
  assumes "distinct (map fst (section_providers config sec))"
  shows "section_providers (apply_moves ms config) sec = map (\<lambda>(name, p). (name,
     case map_of (rev ms) (sec, name) of None \<Rightarrow> p | Some r \<Rightarrow> move r p)) (section_providers config sec)"
    (is "?new = map ?f ?old")
proof (rule nth_equalityI)
  have keys: "map fst ?new = map fst ?old" by (rule apply_moves_keys)
  then show len: "length ?new = length (map ?f ?old)" by (metis length_map)
  fix i assume i: "i < length ?new"
  with len have i': "i < length ?old" by simp
  obtain n p where np: "?old ! i = (n, p)" by fastforce
  have n: "fst (?new ! i) = n" using keys i i' np by (metis fst_conv nth_map)
  have "map_of ?old n = Some p"
    using assms i' np by (metis map_of_eq_Some_iff nth_mem)
  then have "provider_at (apply_moves ms config) (sec, n) = Some (snd (?f (n, p)))"
    using apply_moves_at [of ms config "(sec, n)"] by (simp add: provider_at_def split: option.splits)
  moreover have "map_of ?new n = Some (snd (?new ! i))"
    using assms i n keys by (metis map_of_eq_Some_iff nth_mem prod.collapse)
  ultimately have "snd (?new ! i) = snd (?f (n, p))" by (simp add: provider_at_def)
  with n np i' show "?new ! i = map ?f ?old ! i"
    by (auto intro: prod_eqI)
qed

lemma value_get_move: "value_get (move r p) k = (if k = ''path'' \<and> as_mapping p \<noteq> None then Some (Str r) else value_get p k)"
  by (cases "as_mapping p") (auto simp: value_get_def move_def as_mapping_map get_put)

text \<open>A remote source that is moved to a plain file claims exactly that file.\<close>

lemma claim_of_moved:
  assumes "provider_claim fs root p = Some (d, Some u)" and "plain r"
  shows "provider_claim fs root (move r p) = Some (r, Some u)"
proof -
  from assms(1) have p: "is_remote p" "provider_url p = Some u" "as_mapping p \<noteq> None"
    by (cases "as_mapping p"; auto simp: provider_claim_def value_get_def split: option.splits sum.splits if_splits)+
  then have "is_remote (move r p)" "provider_url (move r p) = Some u"
    by (simp_all add: is_remote_def provider_url_def value_get_move)
  with p(3) show ?thesis
    by (simp add: provider_claim_def value_get_move plain_destination [OF assms(2)])
qed

subsection \<open>No file is filled from two sources\<close>

definition config_ok :: "mapping \<Rightarrow> bool" where
  "config_ok config = list_all (\<lambda>sec. distinct (map fst (section_providers config sec))) PROVIDER_SECTIONS"

definition all_plain :: "bundle_fs \<Rightarrow> path \<Rightarrow> mapping \<Rightarrow> bool" where
  "all_plain fs root config = list_all (\<lambda>(sn, d, src). plain d) (declared fs root config)"

lemma declared_iff:
  assumes "config_ok config"
  shows "((sec, n), d, src) \<in> set (declared fs root config) \<longleftrightarrow>
     sec \<in> set PROVIDER_SECTIONS \<and> (\<exists>p. (n, p) \<in> set (section_providers config sec) \<and> provider_claim fs root p = Some (d, src))"
  by (auto simp: declared_def section_claims_def List.map_filter_def image_iff)
    (metis option.map_sel option.sel option.simps(3))

lemma declared_unique:
  assumes "config_ok config" and "(sn, d, src) \<in> set (declared fs root config)" and "(sn, d', src') \<in> set (declared fs root config)"
  shows "d = d' \<and> src = src'"
proof -
  obtain sec n where sn: "sn = (sec, n)" by fastforce
  from assms(2,3) obtain p p' where p: "sec \<in> set PROVIDER_SECTIONS" "(n, p) \<in> set (section_providers config sec)"
    "provider_claim fs root p = Some (d, src)" "(n, p') \<in> set (section_providers config sec)"
    "provider_claim fs root p' = Some (d', src')"
    unfolding sn declared_iff [OF assms(1)] by blast
  moreover have "distinct (map fst (section_providers config sec))"
    using assms(1) p(1) by (auto simp: config_ok_def list_all_iff)
  ultimately have "p = p'" by (metis map_of_is_SomeI option.inject)
  with p show ?thesis by simp
qed

lemma in_contests:
  assumes "paths_ok D paths" and "(d, u, sns) \<in> set (contests paths)" and "sn \<in> set sns"
  shows "(sn, d, Some u) \<in> set D"
proof -
  from assms(2) obtain ow where ow: "(d, ow) \<in> set paths" "(u, sns) \<in> set (own_remote ow)"
    by (auto simp: contests_def split: if_splits)
  have "map_of paths d = Some ow"
    using assms(1) ow(1) by (auto simp: paths_ok_def intro!: map_of_is_SomeI sorted_keys_distinct)
  with assms(1) have o: "owners_ok D d ow" by (metis paths_ok_def unwrap_or_simps(2))
  then have "map_of (own_remote ow) u = Some sns"
    using ow(2) by (auto simp: owners_ok_def intro!: map_of_is_SomeI sorted_keys_distinct)
  with o assms(3) show ?thesis by (auto simp: owners_ok_def dest!: spec [of _ u])
qed

lemma two_sources_contest:
  assumes "paths_ok D paths" and "(sn1, d, Some u1) \<in> set D" and "(sn2, d, Some u2) \<in> set D" and "u1 \<noteq> u2"
    and "\<forall>sn. (sn, d, None) \<notin> set D"
  shows "\<exists>sns. (d, u1, sns) \<in> set (contests paths) \<and> sn1 \<in> set sns"
proof -
  define ow where "ow = unwrap_or no_owners (map_of paths d)"
  from assms(1) have o: "owners_ok D d ow" by (simp add: paths_ok_def ow_def)
  have in1: "sn1 \<in> set (unwrap_or [] (map_of (own_remote ow) u1))"
    and in2: "sn2 \<in> set (unwrap_or [] (map_of (own_remote ow) u2))"
    using o assms(2,3) by (simp_all add: owners_ok_def)
  then obtain sns1 sns2 where s: "map_of (own_remote ow) u1 = Some sns1" "map_of (own_remote ow) u2 = Some sns2" "sn1 \<in> set sns1"
    by (cases "map_of (own_remote ow) u1"; cases "map_of (own_remote ow) u2") auto
  have "{(u1, sns1), (u2, sns2)} \<subseteq> set (own_remote ow)" using s by (auto dest: map_of_SomeD)
  then have "card {(u1, sns1), (u2, sns2)} \<le> length (own_remote ow)"
    by (meson List.finite_set card_length card_mono order_trans)
  with assms(4) have two: "2 \<le> length (own_remote ow)" by simp
  moreover have "\<not> own_local ow" using o assms(5) by (simp add: owners_ok_def)
  ultimately have c: "contested ow" by (simp add: contested_def)
  from two have "map_of paths d = Some ow"
    by (cases "map_of paths d") (auto simp: ow_def no_owners_def)
  then have "(d, ow) \<in> set paths" by (rule map_of_SomeD)
  with c map_of_SomeD [OF s(1)] have "(d, u1, sns1) \<in> set (contests paths)"
    by (force simp: contests_def)
  with s(3) show ?thesis by blast
qed

lemma in_moves: "(sn, r) \<in> set (moves G) \<longleftrightarrow> (\<exists>d u sns. ((d, u, sns), r) \<in> set G \<and> sn \<in> set sns)"
  by (fastforce simp: moves_def)

lemma moved_name: "map_of (rev (moves G)) sn = Some r \<Longrightarrow> \<exists>d u sns. ((d, u, sns), r) \<in> set G \<and> sn \<in> set sns"
  using map_of_SomeD [of "rev (moves G)" sn r] by (simp add: in_moves)

lemma unmoved_name: "map_of (rev (moves G)) sn = None \<Longrightarrow> ((d, u, sns), r) \<in> set G \<Longrightarrow> sn \<notin> set sns"
proof
  assume "map_of (rev (moves G)) sn = None" "((d, u, sns), r) \<in> set G" "sn \<in> set sns"
  then have "(sn, r) \<in> set (moves G)" by (auto simp: in_moves)
  then have "sn \<in> fst ` set (rev (moves G))" by force
  with \<open>map_of (rev (moves G)) sn = None\<close> show False by (simp add: map_of_eq_None_iff)
qed

text \<open>What the resolution did, in terms of grants.\<close>

definition resolved_by :: "bundle_fs \<Rightarrow> (string \<Rightarrow> string) \<Rightarrow> path \<Rightarrow> mapping \<Rightarrow> grant list \<Rightarrow> bool" where
  "resolved_by fs sha256 root config G \<longleftrightarrow>
     (\<exists>paths reserved. scan_config fs root config = (paths, reserved) \<and> map fst G = contests paths \<and> grants_ok sha256 reserved G)"

lemma resolve_grants:
  assumes "resolve_provider_path_conflicts fs sha256 root0 config = Inr config'" and "fs_canonical fs root0 = Inr root"
  shows "\<exists>G. config' = apply_moves (moves G) config \<and> resolved_by fs sha256 root config G"
proof -
  obtain paths reserved where s: "scan_config fs root config = (paths, reserved)" by fastforce
  with assms have c: "config' = fst (assign_paths sha256 paths (config, reserved))"
    by (simp add: resolve_provider_path_conflicts_def)
  from assign_paths_grants [of sha256 paths config reserved] c s show ?thesis
    unfolding resolved_by_def by fastforce
qed

lemma grant_facts:
  assumes "resolved_by fs sha256 root config G" and "config_ok config" and "all_plain fs root config"
    and "\<And>s. hex_digits (sha256 s)" and "((d, u, sns), r) \<in> set G"
  shows "sn \<in> set sns \<Longrightarrow> (sn, d, Some u) \<in> set (declared fs root config)"
    and "(sn, r, src) \<notin> set (declared fs root config)" and "sn \<in> set sns \<Longrightarrow> plain r"
proof -
  obtain paths reserved where s: "scan_config fs root config = (paths, reserved)" and G: "map fst G = contests paths"
    and ok: "grants_ok sha256 reserved G" using assms(1) unfolding resolved_by_def by blast
  have c: "(d, u, sns) \<in> set (contests paths)" unfolding G [symmetric] using assms(5) by force
  show d: "(sn, d, Some u) \<in> set (declared fs root config)" if "sn \<in> set sns"
    by (rule in_contests [OF scan_config_ok(1) [OF s] c that])
  have "r \<notin> set reserved" using ok assms(5) by (force simp: grants_ok_def)
  then show "(sn, r, src) \<notin> set (declared fs root config)"
    using scan_config_ok(2) [OF s] by blast
  from ok assms(5) obtain inp j where "r = candidate_destination d (sha256 inp) j"
    by (fastforce simp: grants_ok_def)
  moreover have "plain d" if "sn \<in> set sns"
    using d [OF that] assms(3) by (auto simp: all_plain_def list_all_iff)
  ultimately show "plain r" if "sn \<in> set sns"
    using that candidate_plain assms(4) by blast
qed

lemma config_ok_moves: "config_ok config \<Longrightarrow> config_ok (apply_moves ms config)"
  by (simp add: config_ok_def apply_moves_keys)

lemma in_map_snd: "(n, q) \<in> set (map (\<lambda>(k, p). (k, f k p)) xs) \<longleftrightarrow> (\<exists>p. (n, p) \<in> set xs \<and> q = f n p)"
  by force

lemma declared_moved:
  assumes "resolved_by fs sha256 root config G" and "config_ok config" and "all_plain fs root config"
    and "\<And>s. hex_digits (sha256 s)"
  shows "(sn, d', src) \<in> set (declared fs root (apply_moves (moves G) config)) \<longleftrightarrow>
     (case map_of (rev (moves G)) sn of
        None \<Rightarrow> (sn, d', src) \<in> set (declared fs root config)
      | Some r \<Rightarrow> d' = r \<and> (\<exists>d u. src = Some u \<and> (sn, d, Some u) \<in> set (declared fs root config)))"
proof -
  obtain sec n where sn: "sn = (sec, n)" by fastforce
  let ?new = "apply_moves (moves G) config"
  show ?thesis
  proof (cases "sec \<in> set PROVIDER_SECTIONS")
    case False
    then have "(sn, x, y) \<notin> set (declared fs root config)" "(sn, x, y) \<notin> set (declared fs root ?new)" for x y
      unfolding sn declared_iff [OF assms(2)] declared_iff [OF config_ok_moves [OF assms(2)]] by simp_all
    then show ?thesis by (simp split: option.split)
  next
    case True
    then have dist: "distinct (map fst (section_providers config sec))"
      using assms(2) by (simp add: config_ok_def list_all_iff)
    have new: "(n, p') \<in> set (section_providers ?new sec) \<longleftrightarrow> (\<exists>p. (n, p) \<in> set (section_providers config sec)
        \<and> p' = (case map_of (rev (moves G)) sn of None \<Rightarrow> p | Some r \<Rightarrow> move r p))" for p'
      unfolding section_providers_moved [OF dist] sn in_map_snd by simp
    show ?thesis
    proof (cases "map_of (rev (moves G)) sn")
      case None
      then have "(n, p') \<in> set (section_providers ?new sec) \<longleftrightarrow> (n, p') \<in> set (section_providers config sec)" for p'
        unfolding new by simp
      then have "(sn, d', src) \<in> set (declared fs root ?new) \<longleftrightarrow> (sn, d', src) \<in> set (declared fs root config)"
        unfolding sn declared_iff [OF assms(2)] declared_iff [OF config_ok_moves [OF assms(2)]] by simp
      then show ?thesis using None by simp
    next
      case (Some r)
      then obtain d u sns where g: "((d, u, sns), r) \<in> set G" "sn \<in> set sns" using moved_name by blast
      have old: "(sn, d, Some u) \<in> set (declared fs root config)" and pl: "plain r"
        using grant_facts [OF assms g(1)] g(2) by blast+
      then obtain p where p: "(n, p) \<in> set (section_providers config sec)" "provider_claim fs root p = Some (d, Some u)"
        unfolding sn declared_iff [OF assms(2)] by blast
      have only: "q = p" if "(n, q) \<in> set (section_providers config sec)" for q
        using that p(1) dist by (metis map_of_is_SomeI option.inject)
      have "(sn, d', src) \<in> set (declared fs root ?new)
          \<longleftrightarrow> (\<exists>p'. (n, p') \<in> set (section_providers ?new sec) \<and> provider_claim fs root p' = Some (d', src))"
        unfolding sn declared_iff [OF config_ok_moves [OF assms(2)]] using True by simp
      also have "\<dots> \<longleftrightarrow> provider_claim fs root (move r p) = Some (d', src)"
      proof
        assume "\<exists>p'. (n, p') \<in> set (section_providers ?new sec) \<and> provider_claim fs root p' = Some (d', src)"
        then obtain q where "(n, q) \<in> set (section_providers config sec)" "provider_claim fs root (move r q) = Some (d', src)"
          unfolding new Some by auto
        with only show "provider_claim fs root (move r p) = Some (d', src)" by blast
      next
        assume "provider_claim fs root (move r p) = Some (d', src)"
        with p(1) show "\<exists>p'. (n, p') \<in> set (section_providers ?new sec) \<and> provider_claim fs root p' = Some (d', src)"
          unfolding new Some by auto
      qed
      also have "\<dots> \<longleftrightarrow> d' = r \<and> src = Some u"
        using claim_of_moved [OF p(2) pl] by auto
      also have "\<dots> \<longleftrightarrow> d' = r \<and> (\<exists>d u. src = Some u \<and> (sn, d, Some u) \<in> set (declared fs root config))"
        using old declared_unique [OF assms(2) old] by blast
      finally show ?thesis using Some by simp
    qed
  qed
qed

lemma resolved_sources:
  assumes res: "resolve_provider_path_conflicts fs sha256 root0 config = Inr config'" and root: "fs_canonical fs root0 = Inr root"
    and ok: "config_ok config" and pl: "all_plain fs root config" and hex: "\<And>s. hex_digits (sha256 s)"
    and one: "(sn1, d, Some u1) \<in> set (declared fs root config')" and two: "(sn2, d, Some u2) \<in> set (declared fs root config')"
  shows "u1 = u2 \<or> (\<exists>sn. (sn, d, None) \<in> set (declared fs root config'))"
proof (cases "u1 = u2")
  case differ: False
  obtain G where c: "config' = apply_moves (moves G) config" and G: "resolved_by fs sha256 root config G"
    using resolve_grants [OF res root] by blast
  note moved = declared_moved [OF G ok pl hex]
  obtain paths reserved where s: "scan_config fs root config = (paths, reserved)" and Gc: "map fst G = contests paths"
    and gok: "grants_ok sha256 reserved G" using G unfolding resolved_by_def by blast
  have granted: "\<exists>d0 sns. ((d0, u, sns), d) \<in> set G"
    if h: "map_of (rev (moves G)) sn = Some r" "(sn, d, Some u) \<in> set (declared fs root config')" for sn u r
  proof -
    obtain d0 u0 sns where g: "((d0, u0, sns), r) \<in> set G" "sn \<in> set sns" using moved_name [OF h(1)] by blast
    from h have "d = r" "\<exists>d. (sn, d, Some u) \<in> set (declared fs root config)" by (auto simp: c moved)
    moreover have "(sn, d0, Some u0) \<in> set (declared fs root config)" by (rule grant_facts(1) [OF G ok pl hex g])
    ultimately show ?thesis using declared_unique [OF ok] g(1) by blast
  qed
  have fresh: "(sn, d, src) \<notin> set (declared fs root config)" if "((d0, u, sns), d) \<in> set G" for d0 u sns sn src
    by (rule grant_facts(2) [OF G ok pl hex that])
  show ?thesis
  proof (cases "map_of (rev (moves G)) sn1")
    case (Some r)
    then obtain d1 sns1 where g1: "((d1, u1, sns1), d) \<in> set G" using granted one by blast
    show ?thesis
    proof (cases "map_of (rev (moves G)) sn2")
      case (Some r2)
      then obtain d2 sns2 where g2: "((d2, u2, sns2), d) \<in> set G" using granted two by blast
      have "distinct (map snd G)" using gok by (simp add: grants_ok_def)
      from eq_key_imp_eq_value [of "map prod.swap G" d "(d1, u1, sns1)" "(d2, u2, sns2)"] this g1 g2 differ
      show ?thesis by (force simp: o_def)
    next
      case None
      then have "(sn2, d, Some u2) \<in> set (declared fs root config)" using two by (simp add: c moved)
      with fresh [OF g1] show ?thesis by blast
    qed
  next
    case None
    then have o1: "(sn1, d, Some u1) \<in> set (declared fs root config)" using one by (simp add: c moved)
    have "map_of (rev (moves G)) sn2 = None"
      using granted two fresh o1 by (cases "map_of (rev (moves G)) sn2") blast+
    then have o2: "(sn2, d, Some u2) \<in> set (declared fs root config)" using two by (simp add: c moved)
    have "\<exists>sn. (sn, d, None) \<in> set (declared fs root config)"
    proof (rule ccontr)
      assume "\<nexists>sn. (sn, d, None) \<in> set (declared fs root config)"
      then obtain sns where "(d, u1, sns) \<in> set (contests paths)" "sn1 \<in> set sns"
        using two_sources_contest [OF scan_config_ok(1) [OF s] o1 o2 differ] by blast
      then have "(d, u1, sns) \<in> set (map fst G)" by (simp add: Gc)
      then obtain r where "((d, u1, sns), r) \<in> set G" by auto
      with unmoved_name [OF None] \<open>sn1 \<in> set sns\<close> show False by blast
    qed
    then obtain sn where l: "(sn, d, None) \<in> set (declared fs root config)" by blast
    have "map_of (rev (moves G)) sn = None"
    proof (cases "map_of (rev (moves G)) sn")
      case (Some r)
      then obtain d0 u0 sns where g: "((d0, u0, sns), r) \<in> set G" "sn \<in> set sns" using moved_name by blast
      from declared_unique [OF ok l grant_facts(1) [OF G ok pl hex g]] show ?thesis by simp
    qed simp
    with l have "(sn, d, None) \<in> set (declared fs root config')" by (simp add: c moved)
    then show ?thesis by blast
  qed
qed simp

text \<open>
  In a resolved configuration two remote sources never fill the same file, unless a local provider
  owns it.
\<close>

theorem resolved_sources_do_not_share:
  assumes "resolve_provider_path_conflicts fs sha256 root0 config = Inr config'" and "fs_canonical fs root0 = Inr root"
    and "config_ok config" and "all_plain fs root config" and "\<And>s. hex_digits (sha256 s)"
    and "(sn1, d, Some u1) \<in> set (declared fs root config')" and "(sn2, d, Some u2) \<in> set (declared fs root config')"
  shows "u1 = u2 \<or> (\<exists>sn. (sn, d, None) \<in> set (declared fs root config'))"
  using assms by (rule resolved_sources)

definition bundle_demo_fs :: bundle_fs where
  "bundle_demo_fs = \<lparr>fs_canonical = Inr, fs_exists = (\<lambda>_. True), fs_is_file = (\<lambda>_. False)\<rparr>"

definition demo_provider :: "string \<Rightarrow> string \<Rightarrow> yaml" where
  "demo_provider url path = Mapping [(Str ''type'', Str ''http''), (Str ''url'', Str url), (Str ''path'', Str path)]"

definition demo_shared :: mapping where
  "demo_shared = [(Str ''proxy-providers'', Mapping [(Str ''a'', demo_provider ''https://one'' ''./providers/shared.yaml'')]),
     (Str ''rule-providers'', Mapping [(Str ''b'', demo_provider ''https://two'' ''providers/shared.yaml'')])]"

lemma demo_declared:
  "declared bundle_demo_fs [RootDir, Normal ''home''] demo_shared =
     [((''proxy-providers'', Str ''a''), ''providers/shared.yaml'', Some ''https://one''),
      ((''rule-providers'', Str ''b''), ''providers/shared.yaml'', Some ''https://two'')]"
  by code_simp

theorem resolved_sources_do_not_share_witness:
  "\<exists>config'. resolve_provider_path_conflicts bundle_demo_fs (\<lambda>_. ''00ff'') [RootDir, Normal ''home''] demo_shared = Inr config'
     \<and> \<not> (\<exists>d. ((''proxy-providers'', Str ''a''), d, Some ''https://one'') \<in> set (declared bundle_demo_fs [RootDir, Normal ''home''] config')
        \<and> ((''rule-providers'', Str ''b''), d, Some ''https://two'') \<in> set (declared bundle_demo_fs [RootDir, Normal ''home''] config'))"
proof -
  let ?root = "[RootDir, Normal ''home'']" and ?sha = "\<lambda>_ :: string. ''00ff''"
  have root: "fs_canonical bundle_demo_fs ?root = Inr ?root" by (simp add: bundle_demo_fs_def)
  then obtain config' where res: "resolve_provider_path_conflicts bundle_demo_fs ?sha ?root demo_shared = Inr config'"
    by (simp add: resolve_provider_path_conflicts_def case_prod_beta)
  have ok: "config_ok demo_shared" by code_simp
  have pl: "all_plain bundle_demo_fs ?root demo_shared" unfolding all_plain_def demo_declared by code_simp
  have hex: "hex_digits (?sha s)" for s by (simp add: hex_digits_def)
  obtain G where c: "config' = apply_moves (moves G) demo_shared" and G: "resolved_by bundle_demo_fs ?sha ?root demo_shared G"
    using resolve_grants [OF res root] by blast
  have "(sn, d, None) \<notin> set (declared bundle_demo_fs ?root config')" for sn d
    unfolding c declared_moved [OF G ok pl hex] demo_declared by (simp split: option.split)
  with resolved_sources_do_not_share [OF res root ok pl hex] res show ?thesis by fastforce
qed

subsection \<open>Resolving again changes nothing\<close>

lemma assign_paths_quiet: "\<forall>p \<in> set paths. \<not> contested (snd p) \<Longrightarrow> assign_paths sha256 paths st = st"
  by (induction sha256 paths st rule: assign_paths.induct) (auto simp: contested_def)

text \<open>
  Resolving the paths of a configuration that has been resolved changes nothing.
\<close>

theorem resolution_is_idempotent:
  assumes res: "resolve_provider_path_conflicts fs sha256 root0 config = Inr config'" and root: "fs_canonical fs root0 = Inr root"
    and ok: "config_ok config" and pl: "all_plain fs root config" and hex: "\<And>s. hex_digits (sha256 s)"
  shows "resolve_provider_path_conflicts fs sha256 root0 config' = Inr config'"
proof -
  obtain paths reserved where s: "scan_config fs root config' = (paths, reserved)" by fastforce
  let ?D = "declared fs root config'"
  have po: "paths_ok ?D paths" by (rule scan_config_ok(1) [OF s])
  have "\<not> contested ow" if p: "(d, ow) \<in> set paths" for d ow
  proof
    assume c: "contested ow"
    have "map_of paths d = Some ow"
      using po p by (auto simp: paths_ok_def intro!: map_of_is_SomeI sorted_keys_distinct)
    with po have o: "owners_ok ?D d ow" by (metis paths_ok_def unwrap_or_simps(2))
    from c obtain us1 us2 rest where r: "own_remote ow = us1 # us2 # rest"
      by (cases "own_remote ow"; cases "tl (own_remote ow)") (auto simp: contested_def)
    obtain u1 l1 u2 l2 where u: "us1 = (u1, l1)" "us2 = (u2, l2)" by (metis prod.exhaust)
    have differ: "u1 \<noteq> u2" using o r u by (auto simp: owners_ok_def)
    have "l1 \<noteq> []" "l2 \<noteq> []" using o r u by (auto simp: owners_ok_def)
    then obtain sn1 sn2 where in12: "sn1 \<in> set l1" "sn2 \<in> set l2" by (meson ex_in_conv set_empty)
    have m: "map_of (own_remote ow) u1 = Some l1" "map_of (own_remote ow) u2 = Some l2"
      using r u differ by auto
    then have "(sn1, d, Some u1) \<in> set ?D" "(sn2, d, Some u2) \<in> set ?D"
      using o in12 unfolding owners_ok_def by (metis (mono_tags, lifting) mem_Collect_eq unwrap_or_simps(2))+
    with resolved_sources [OF res root ok pl hex] differ obtain sn where "(sn, d, None) \<in> set ?D" by blast
    with o c show False unfolding owners_ok_def contested_def by blast
  qed
  then have "assign_paths sha256 paths (config', reserved) = (config', reserved)"
    by (intro assign_paths_quiet) auto
  with s root show ?thesis by (simp add: resolve_provider_path_conflicts_def)
qed

text \<open>
  On Unix a back slash is an ordinary character of a name, so the check for parent components does not see
  it; the destination is then written with slashes, and the parents are there.
\<close>

lemma backslash_traverses:
  "provider_destination fs root (''..'' @ [CHR 0x5C] @ ''..'' @ [CHR 0x5C] @ ''x.yaml'') = Inr ''../../x.yaml''"
  by (simp add: provider_destination_def path_components_def piece_component_def is_absolute_def normalized_destination_def slashes_def)

end
