(* ===== verification/ConfigUpdateProps.thy ===== *)
theory ConfigUpdateProps
  imports ConfigUpdate BundleProps LifecycleProps
begin

section \<open>What a configuration update guarantees\<close>

text \<open>
  The properties of \<open>ConfigUpdate\<close>: the configuration cells are a family of transaction layers in the sense
  of \<open>Draft\<close>; the core is told to take only bytes its own check has accepted; the runtime configuration is
  committed exactly when the core took it; a refused bundle leaves the core alone; and a failed change of
  profiles puts the previous configuration back.
\<close>

subsection \<open>The cells are transaction layers\<close>

datatype layer_value = ClashValue "mapping draft_view" | VergeValue "iverge draft_view" | RuntimeValue "iruntime draft_view"

definition layer_value :: "config_layer \<Rightarrow> config_world \<Rightarrow> layer_value" where
  "layer_value l w = (case l of ClashLayer \<Rightarrow> ClashValue (cw_clash w) | VergeLayer \<Rightarrow> VergeValue (cw_verge w)
     | RuntimeLayer \<Rightarrow> RuntimeValue (cw_runtime w))"

fun commit_value :: "layer_value \<Rightarrow> layer_value" where
  "commit_value (ClashValue v) = ClashValue (view_apply v)"
| "commit_value (VergeValue v) = VergeValue (view_apply v)"
| "commit_value (RuntimeValue v) = RuntimeValue (view_apply v)"

fun discard_value :: "layer_value \<Rightarrow> layer_value" where
  "discard_value (ClashValue v) = ClashValue (view_discard v)"
| "discard_value (VergeValue v) = VergeValue (view_discard v)"
| "discard_value (RuntimeValue v) = RuntimeValue (view_discard v)"

interpretation cells: draft_layers config_layer_of "\<lambda>l w. l \<in> set (cw_claims w)" layer_value commit_value discard_value
  by unfold_locales (auto simp: config_layer_of_def layer_value_def split: config_layer.splits)

text \<open>The transaction of an update of the runtime configuration, and what its two ends do.\<close>

definition runtime_transaction :: "config_world draft_transaction" where
  "runtime_transaction = \<lparr>layers = [config_layer_of RuntimeLayer], is_committed = False\<rparr>"

lemma begin_runtime:
  "begin_transaction [RuntimeLayer] w =
     (if RuntimeLayer \<in> set (cw_claims w)
      then (Inl (bail ''configuration layer IRuntime is being changed elsewhere''), w)
      else (Inr runtime_transaction, w\<lparr>cw_claims := RuntimeLayer # cw_claims w\<rparr>))"
  by (simp add: begin_transaction_def transaction_begin_def config_layer_of_def layer_text_def runtime_transaction_def)

lemma drop_runtime: "transaction_drop runtime_transaction w =
    w\<lparr>cw_runtime := view_discard (cw_runtime w), cw_claims := removeAll RuntimeLayer (cw_claims w)\<rparr>"
  by (simp add: transaction_drop_def runtime_transaction_def config_layer_of_def)

lemma commit_runtime: "transaction_commit runtime_transaction w =
    w\<lparr>cw_runtime := view_apply (cw_runtime w), cw_claims := removeAll RuntimeLayer (cw_claims w)\<rparr>"
  by (simp add: transaction_commit_def transaction_drop_def runtime_transaction_def config_layer_of_def)

subsection \<open>What an operation leaves unchanged\<close>

text \<open>
  \<open>told k\<close>: apart from the core, the clock and the log, nothing changed but that the core was told \<open>k\<close> times to
  take the run file.
\<close>

definition told :: "nat \<Rightarrow> config_world \<Rightarrow> config_world \<Rightarrow> bool" where
  "told k w w' \<longleftrightarrow> w' = w\<lparr>cw_tick := cw_tick w', cw_core := cw_core w', cw_events := cw_events w',
     cw_loads := cw_loads w @ replicate k (cw_run_file w)\<rparr>"

lemma told_refl: "told 0 w w"
  by (simp add: told_def)

lemma told_trans:
  assumes "told j w1 w2" and "told k w2 w3"
  shows "told (j + k) w1 w3"
proof -
  from assms(1) obtain t c e where 2: "w2 = w1\<lparr>cw_tick := t, cw_core := c, cw_events := e, cw_loads := cw_loads w1 @ replicate j (cw_run_file w1)\<rparr>"
    unfolding told_def by blast
  from assms(2) obtain t' c' e' where "w3 = w2\<lparr>cw_tick := t', cw_core := c', cw_events := e', cw_loads := cw_loads w2 @ replicate k (cw_run_file w2)\<rparr>"
    unfolding told_def by blast
  with 2 show ?thesis by (simp add: told_def replicate_add)
qed

lemma told_basic:
  "told 0 w (ctick env w)" "told 0 w (note_event e w)" "told 1 w (note_load w)" "told 0 w (snd (on_core f w))"
  "told 0 w (w\<lparr>cw_core := c\<rparr>)"
  by (simp_all add: told_def ctick_def note_event_def note_load_def on_core_def Let_def split: prod.split)

lemma told_steps:
  "told k w w1 \<Longrightarrow> told k w (ctick env w1)" "told k w w1 \<Longrightarrow> told k w (note_event e w1)"
  "told k w w1 \<Longrightarrow> told (Suc k) w (note_load w1)" "told k w w1 \<Longrightarrow> told k w (w1\<lparr>cw_core := c\<rparr>)"
  using told_trans [OF _ told_basic(1)] told_trans [OF _ told_basic(2)] told_trans [OF _ told_basic(3)]
    told_trans [OF _ told_basic(5)] by fastforce+

lemma on_core_told: "on_core f w = (r, w') \<Longrightarrow> told 0 w w'"
  using told_basic(4) [of w f] by simp

definition told_at_most :: "nat \<Rightarrow> config_world \<Rightarrow> config_world \<Rightarrow> bool" where
  "told_at_most n w w' \<longleftrightarrow> (\<exists>k \<le> n. told k w w')"

lemma told_at_most_trans: "told_at_most j w1 w2 \<Longrightarrow> told_at_most k w2 w3 \<Longrightarrow> told_at_most (j + k) w1 w3"
  unfolding told_at_most_def by (meson add_mono told_trans)

lemma told_at_mostI: "told k w w' \<Longrightarrow> k \<le> n \<Longrightarrow> told_at_most n w w'"
  by (auto simp: told_at_most_def)

lemma reload_told: "reload_config env path w = (r, w') \<Longrightarrow> told 1 w w'"
  using told_steps(1,2) [OF told_steps(2) [OF told_basic(3) [of w]]] told_steps(1) [OF told_steps(2) [OF told_basic(3) [of w]]]
  by (auto simp: reload_config_def Let_def)

lemma ask_told: "ask_to_stage env w = (a, w') \<Longrightarrow> told 0 w w'"
  using told_steps(1) [OF told_basic(2) [of w]] told_basic(2)
  by (auto simp: ask_to_stage_def stage_runtime_by_service_def Let_def split: option.splits)

lemma stage_told:
  assumes "\<And>w a w'. ask w = (a, w') \<Longrightarrow> told 0 w w'" and "stage_with_confirmation in_time ask w = (a, w')"
  shows "told 0 w w'"
proof -
  obtain a1 w1 where 1: "ask w = (a1, w1)" by fastforce
  obtain a2 w2 where 2: "ask w1 = (a2, w2)" by fastforce
  have t: "told 0 w w1" "told 0 w w2"
    using assms(1) [OF 1] told_trans [OF assms(1) [OF 1] assms(1) [OF 2]] by simp_all
  from assms(2) have "w' = w1 \<or> w' = w2"
    by (auto simp: stage_with_confirmation_def 1 2 Let_def split: stage_attempt.splits)
  with t show ?thesis by blast
qed

lemma attempt_told: "attempt_staging env w = (a, w') \<Longrightarrow> told 0 w w'"
  by (auto simp: attempt_staging_def split: if_splits intro: told_refl stage_told [OF ask_told])

lemma replace_told: "replace_core env w = (r, w') \<Longrightarrow> told 1 w w'"
  using told_trans [OF told_basic(3) [of w] on_core_told] by (auto simp: replace_core_def)

lemma restart_told: "restart_with_run_file env w = (r, w') \<Longrightarrow> told 1 w w'"
  using told_trans [OF told_basic(3) [of w] on_core_told] by (auto simp: restart_with_run_file_def)

lemma service_apply_told:
  assumes "apply_config_by_service env w = (r, w')"
  shows "told_at_most 2 w w'"
proof -
  obtain a w1 where a: "attempt_staging env w = (a, w1)" by fastforce
  note t1 = attempt_told [OF a]
  show ?thesis
  proof (cases "plan_config_application a")
    case (FailWith m)
    with assms a t1 show ?thesis by (auto simp: apply_config_by_service_def intro: told_at_mostI)
  next
    case ReplaceCore
    with assms a have "replace_core env w1 = (r, w')" by (simp add: apply_config_by_service_def)
    from told_trans [OF t1 replace_told [OF this]] show ?thesis by (auto intro: told_at_mostI)
  next
    case (ReloadFrom p)
    obtain q w2 where q: "reload_config env p w1 = (q, w2)" by fastforce
    note t2 = told_trans [OF t1 reload_told [OF q]]
    show ?thesis
    proof (cases q)
      case (Inl e)
      with assms a q ReloadFrom have "replace_core env w2 = (r, w')" by (simp add: apply_config_by_service_def)
      from told_trans [OF t2 replace_told [OF this]] show ?thesis by (auto intro: told_at_mostI)
    next
      case (Inr u)
      with assms a q ReloadFrom have "w' = note_event ProviderSyncRequested w2" by (simp add: apply_config_by_service_def)
      moreover have "told_at_most 2 w (note_event ProviderSyncRequested w2)"
        by (rule told_at_mostI [OF told_steps(2) [OF t2]]) simp
      ultimately show ?thesis by simp
    qed
  qed
qed

lemma apply_told:
  assumes "apply_config env path w = (r, w')"
  shows "told_at_most 2 w w'"
proof (cases "running (cw_core w) = ModeService")
  case True
  define w1 where "w1 = ctick env (w\<lparr>cw_core := ce_lock env (cw_tick w) (cw_core w)\<rparr>)"
  have t: "told 0 w w1" unfolding w1_def by (rule told_steps(1) [OF told_basic(5)])
  show ?thesis
  proof (cases "running (cw_core w1) = ModeService")
    case True
    with assms \<open>running (cw_core w) = ModeService\<close> have "apply_config_by_service env w1 = (r, w')"
      by (simp add: apply_config_def w1_def Let_def)
    from told_at_most_trans [OF told_at_mostI [OF t order_refl] service_apply_told [OF this]]
    show ?thesis by (simp add: numeral_2_eq_2)
  next
    case False
    with assms \<open>running (cw_core w) = ModeService\<close> have "w' = w1" by (simp add: apply_config_def w1_def Let_def)
    with t show ?thesis by (auto intro: told_at_mostI)
  qed
next
  case False
  obtain q w1 where q: "reload_config env path w = (q, w1)" by fastforce
  note t1 = reload_told [OF q]
  show ?thesis
  proof (cases q)
    case (Inl e)
    obtain q2 w2 where q2: "restart_with_run_file env w1 = (q2, w2)" by fastforce
    with assms False q Inl have "w' = w2" by (auto simp: apply_config_def reload_or_restart_def split: sum.splits)
    with told_trans [OF t1 restart_told [OF q2]] show ?thesis by (auto intro: told_at_mostI)
  next
    case (Inr u)
    with assms False q have "w' = w1" by (simp add: apply_config_def reload_or_restart_def)
    with t1 show ?thesis by (auto intro: told_at_mostI)
  qed
qed

subsection \<open>Only accepted bytes, committed when the core took them\<close>

definition accepted :: "config_env \<Rightarrow> string \<Rightarrow> bool" where
  "accepted env yaml \<longleftrightarrow> (\<exists>t v outcome. fst (validate_config_outcome_with (ce_validate env t) yaml v) = Inr outcome
     \<and> is_valid_outcome outcome)"

text \<open>What a run of an update may do to the cells, the run file and the log of loads.\<close>

definition update_result :: "config_env \<Rightarrow> bool \<Rightarrow> iruntime draft_view \<Rightarrow> config_world \<Rightarrow> config_world \<Rightarrow> bool" where
  "update_result env ok v w w' \<longleftrightarrow>
     cw_clash w' = cw_clash w \<and> cw_verge w' = cw_verge w \<and> cw_profiles w' = cw_profiles w
     \<and> cw_profiles_file w' = cw_profiles_file w \<and> cw_session w' = cw_session w
     \<and> (\<exists>k out. cw_loads w' = cw_loads w @ replicate k (Some out) \<and> (k > 0 \<longrightarrow> accepted env out))
     \<and> (if ok then (\<exists>out. cw_runtime w' = view_apply v \<and> runtime_config_yaml (ce_print env) v = Inr out
          \<and> cw_run_file w' = Some out \<and> accepted env out)
        else cw_runtime w' = view_discard v)"

lemma valid_is_valid: "is_valid_outcome Valid"
  by (simp add: is_valid_outcome_def)

lemma validate_yaml_result:
  assumes "validate_yaml env yaml w = (q, w')"
  shows "\<exists>v. w' = ctick env (w\<lparr>cw_validator := v\<rparr>)"
    and "q = Inr outcome \<Longrightarrow> is_valid_outcome outcome \<Longrightarrow> accepted env yaml"
proof -
  obtain r v where r: "validate_config_outcome_with (ce_validate env (cw_tick w)) yaml (cw_validator w) = (r, v)" by fastforce
  with assms have w': "w' = ctick env (w\<lparr>cw_validator := v\<rparr>)" and q: "q = map_sum bail id r"
    by (auto simp: validate_yaml_def)
  from w' show "\<exists>v. w' = ctick env (w\<lparr>cw_validator := v\<rparr>)" by blast
  assume "q = Inr outcome" "is_valid_outcome outcome"
  with q have "r = Inr outcome" by (cases r) auto
  with r \<open>is_valid_outcome outcome\<close> show "accepted env yaml"
    unfolding accepted_def by (metis fst_conv)
qed

lemma write_run_result:
  assumes "write_runtime_file env yaml w = (q, w')"
  shows "case q of Inl e \<Rightarrow> told 0 w w' | Inr p \<Rightarrow> told 0 (w\<lparr>cw_run_file := Some yaml\<rparr>) w'"
  using assms told_refl [of w]
  by (auto simp: write_runtime_file_def Let_def told_basic split: sum.splits)

lemma told_fields:
  assumes "told k w w'"
  shows "cw_clash w' = cw_clash w" "cw_verge w' = cw_verge w" "cw_profiles w' = cw_profiles w"
    "cw_profiles_file w' = cw_profiles_file w" "cw_session w' = cw_session w" "cw_runtime w' = cw_runtime w"
    "cw_claims w' = cw_claims w" "cw_run_file w' = cw_run_file w" "cw_epoch w' = cw_epoch w" "cw_notice w' = cw_notice w"
    "cw_validator w' = cw_validator w" "cw_last_update w' = cw_last_update w"
    "cw_clash_file w' = cw_clash_file w" "cw_verge_file w' = cw_verge_file w"
    "cw_fallback_notice w' = cw_fallback_notice w" "cw_core_block w' = cw_core_block w"
    "cw_loads w' = cw_loads w @ replicate k (cw_run_file w)"
proof -
  from assms obtain t c e where
    "w' = w\<lparr>cw_tick := t, cw_core := c, cw_events := e, cw_loads := cw_loads w @ replicate k (cw_run_file w)\<rparr>"
    unfolding told_def by blast
  then show "cw_clash w' = cw_clash w" "cw_verge w' = cw_verge w" "cw_profiles w' = cw_profiles w"
    "cw_profiles_file w' = cw_profiles_file w" "cw_session w' = cw_session w" "cw_runtime w' = cw_runtime w"
    "cw_claims w' = cw_claims w" "cw_run_file w' = cw_run_file w" "cw_epoch w' = cw_epoch w" "cw_notice w' = cw_notice w"
    "cw_validator w' = cw_validator w" "cw_last_update w' = cw_last_update w"
    "cw_clash_file w' = cw_clash_file w" "cw_verge_file w' = cw_verge_file w"
    "cw_fallback_notice w' = cw_fallback_notice w" "cw_core_block w' = cw_core_block w"
    "cw_loads w' = cw_loads w @ replicate k (cw_run_file w)"
    by simp_all
qed

lemma validate_and_apply_result:
  assumes "validate_and_apply env runtime_transaction w = (r, w')"
  shows "update_result env (case r of Inr outcome \<Rightarrow> is_valid_outcome outcome | Inl e \<Rightarrow> False) (cw_runtime w) w w'
    \<and> cw_claims w' = removeAll RuntimeLayer (cw_claims w)"
proof -
  let ?V = "runtime_config_yaml (ce_print env) (cw_runtime w)"
  define w1 where "w1 = ctick env w"
  have y: "runtime_yaml env w = (map_sum bail id ?V, w1)" by (simp add: runtime_yaml_def w1_def)
  note f1 = told_fields [OF told_basic(1) [of w env], folded w1_def]
  show ?thesis
  proof (cases ?V)
    case (Inl e)
    with assms y f1 show ?thesis
      by (auto simp: validate_and_apply_def update_result_def drop_runtime intro: exI [of _ "0 :: nat"])
  next
    case (Inr yaml)
    obtain q w2 where v: "validate_yaml env yaml w1 = (q, w2)" by fastforce
    then obtain val where w2: "w2 = ctick env (w1\<lparr>cw_validator := val\<rparr>)" using validate_yaml_result(1) by blast
    note f2 = told_fields [OF told_basic(1) [of "w1\<lparr>cw_validator := val\<rparr>" env], folded w2]
    show ?thesis
    proof (cases "\<exists>outcome. q = Inr outcome \<and> is_valid_outcome outcome")
      case False
      with assms y v Inr f1 f2 show ?thesis
        by (cases q) (auto simp: validate_and_apply_def update_result_def drop_runtime intro: exI [of _ "0 :: nat"])
    next
      case True
      then obtain outcome where q: "q = Inr outcome" "is_valid_outcome outcome" by blast
      have acc: "accepted env yaml" by (rule validate_yaml_result(2) [OF v q])
      obtain q3 w3 where w: "write_runtime_file env yaml w2 = (q3, w3)" by fastforce
      show ?thesis
      proof (cases q3)
        case (Inl e)
        with write_run_result [OF w] have "told 0 w2 w3" by simp
        from told_fields [OF this] assms y v Inr q w Inl f1 f2 show ?thesis
          by (auto simp: validate_and_apply_def update_result_def drop_runtime intro: exI [of _ "0 :: nat"])
      next
        case (Inr path)
        with write_run_result [OF w] have t3: "told 0 (w2\<lparr>cw_run_file := Some yaml\<rparr>) w3" by simp
        obtain q4 w4 where a: "apply_config env path w3 = (q4, w4)" by fastforce
        obtain k where t4: "told k w3 w4" using apply_told [OF a] by (auto simp: told_at_most_def)
        note f = f1 f2 told_fields [OF t3] told_fields [OF t4]
        from assms y v \<open>?V = Inr yaml\<close> q w Inr a
        have r: "(case q4 of Inl e \<Rightarrow> r = Inl e \<and> w' = transaction_drop runtime_transaction w4
            | Inr _ \<Rightarrow> r = Inr Valid \<and> w' = transaction_commit runtime_transaction w4)"
          by (auto simp: validate_and_apply_def split: sum.splits)
        have loads: "cw_loads w4 = cw_loads w @ replicate k (Some yaml)" using f by simp
        show ?thesis
          using r f loads acc \<open>?V = Inr yaml\<close> valid_is_valid
          by (cases q4) (auto simp: update_result_def drop_runtime commit_runtime)
      qed
    qed
  qed
qed

subsection \<open>One update\<close>

definition update_ok :: "validation_outcome outcome \<Rightarrow> bool" where
  "update_ok r = (case r of Inr outcome \<Rightarrow> is_valid_outcome outcome | Inl e \<Rightarrow> False)"

text \<open>The runtime configuration in force was built from these profiles, printed, accepted and written.\<close>

definition built_from :: "config_env \<Rightarrow> iprofiles \<Rightarrow> config_world \<Rightarrow> bool" where
  "built_from env profiles w \<longleftrightarrow>
     (\<exists>t notice rt out. fst (build_runtime (ce_generate env t) (session_fallback (cw_session w))
          (view_latest (cw_clash w)) (view_latest (cw_verge w)) profiles notice) = Inr rt
        \<and> cw_runtime w = (rt, None) \<and> runtime_config_yaml (ce_print env) (rt, None) = Inr out
        \<and> cw_run_file w = Some out \<and> accepted env out)"

definition same_sources :: "config_world \<Rightarrow> config_world \<Rightarrow> bool" where
  "same_sources w w' \<longleftrightarrow> cw_clash w' = cw_clash w \<and> cw_verge w' = cw_verge w \<and> cw_profiles w' = cw_profiles w
     \<and> cw_profiles_file w' = cw_profiles_file w \<and> cw_session w' = cw_session w"

definition loads_ok :: "config_env \<Rightarrow> config_world \<Rightarrow> config_world \<Rightarrow> bool" where
  "loads_ok env w w' \<longleftrightarrow> (\<exists>new. cw_loads w' = cw_loads w @ new \<and> (\<forall>y \<in> set new. \<exists>out. y = Some out \<and> accepted env out))"

lemma loads_ok_refl: "cw_loads w' = cw_loads w \<Longrightarrow> loads_ok env w w'"
  by (simp add: loads_ok_def)

lemma loads_ok_trans: "loads_ok env w1 w2 \<Longrightarrow> loads_ok env w2 w3 \<Longrightarrow> loads_ok env w1 w3"
  unfolding loads_ok_def by (force simp: Un_iff)

lemma update_result_loads: "update_result env ok v w w' \<Longrightarrow> loads_ok env w w'"
proof -
  assume "update_result env ok v w w'"
  then obtain k out where "cw_loads w' = cw_loads w @ replicate k (Some out)" "k > 0 \<longrightarrow> accepted env out"
    by (auto simp: update_result_def)
  then show ?thesis by (cases k) (auto simp: loads_ok_def)
qed

lemma invalid_is_invalid: "\<not> is_valid_outcome (invalid_from_message m)"
  by (simp add: is_valid_outcome_def invalid_from_message_def)

lemma built_config: "build_runtime ge fb c s ps notice = (Inr rt, notice') \<Longrightarrow> rt_config rt \<noteq> None"
  by (auto simp: build_runtime_def and_then_Inr_conv split: sum.splits)

lemma yaml_of_draft: "rt_config rt \<noteq> None \<Longrightarrow> runtime_config_yaml p (c, Some rt) = runtime_config_yaml p (rt, None)"
  by (auto simp: runtime_config_yaml_def)

lemma perform_result:
  assumes "perform_config_update env profiles w = (r, w')" and free: "RuntimeLayer \<notin> set (cw_claims w)"
  shows "same_sources w w' \<and> loads_ok env w w' \<and> cw_claims w' = cw_claims w
    \<and> (if update_ok r then built_from env (case profiles of Some p \<Rightarrow> p | None \<Rightarrow> view_latest (cw_profiles w)) w'
       else cw_runtime w' = view_discard (cw_runtime w))"
proof -
  let ?ps = "case profiles of Some p \<Rightarrow> p | None \<Rightarrow> view_latest (cw_profiles w)"
  define w0 where "w0 = w\<lparr>cw_claims := RuntimeLayer # cw_claims w\<rparr>"
  obtain b notice where b: "build_runtime (ce_generate env (cw_tick w0)) (session_fallback (cw_session w0))
      (view_latest (cw_clash w0)) (view_latest (cw_verge w0)) ?ps (cw_notice w0) = (b, notice)" by fastforce
  define w1 where "w1 = ctick env (w0\<lparr>cw_notice := notice\<rparr>)"
  note f1 = told_fields [OF told_basic(1) [of "w0\<lparr>cw_notice := notice\<rparr>" env], folded w1_def]
  have bt: "begin_transaction [RuntimeLayer] w = (Inr runtime_transaction, w0)" using free by (simp add: begin_runtime w0_def)
  have claims: "removeAll RuntimeLayer (RuntimeLayer # cw_claims w) = cw_claims w" using free by simp
  have g: "(case profiles of Some p \<Rightarrow> generate_with_profiles env p w0 | None \<Rightarrow> generate env w0)
      = (case b of Inl e \<Rightarrow> (Inl (bail e), w1) | Inr rt \<Rightarrow> (Inr (), edit_runtime (\<lambda>_. rt) w1))"
    using b by (cases profiles) (simp_all add: generate_def generate_with_profiles_def w1_def w0_def split: sum.splits)
  show ?thesis
  proof (cases b)
    case (Inl e)
    with assms(1) g free have "r = Inr (invalid_from_message (show_cause (hd (bail e))))" "w' = transaction_drop runtime_transaction w1"
      by (simp_all add: perform_config_update_def bt try_then_def)
    with f1 claims show ?thesis
      by (simp add: update_ok_def invalid_is_invalid drop_runtime same_sources_def loads_ok_def w0_def)
  next
    case (Inr rt)
    define w2 where "w2 = edit_runtime (\<lambda>_. rt) w1"
    have rt2: "cw_runtime w2 = (fst (cw_runtime w), Some rt)"
      using f1 by (simp add: w2_def edit_runtime_def view_edit_def w0_def)
    from assms(1) g free Inr have "validate_and_apply env runtime_transaction w2 = (r, w')"
      by (simp add: perform_config_update_def bt try_then_def w2_def)
    from validate_and_apply_result [OF this] have
      u: "update_result env (update_ok r) (fst (cw_runtime w), Some rt) w2 w'" and c: "cw_claims w' = removeAll RuntimeLayer (cw_claims w2)"
      unfolding rt2 update_ok_def by blast+
    have f2: "same_sources w w2" "cw_loads w2 = cw_loads w" "cw_claims w2 = RuntimeLayer # cw_claims w"
      using f1 by (simp_all add: w2_def edit_runtime_def same_sources_def w0_def)
    have s: "same_sources w w'" using u f2(1) by (simp add: update_result_def same_sources_def)
    have l: "loads_ok env w w'" using update_result_loads [OF u] f2(2) by (simp add: loads_ok_def)
    have cl: "cw_claims w' = cw_claims w" using c claims f2(3) by simp
    show ?thesis
    proof (cases "update_ok r")
      case True
      with u obtain out where "cw_runtime w' = (rt, None)" "runtime_config_yaml (ce_print env) (fst (cw_runtime w), Some rt) = Inr out"
        "cw_run_file w' = Some out" "accepted env out"
        by (auto simp: update_result_def)
      moreover have "rt_config rt \<noteq> None" using built_config b Inr by blast
      moreover have "fst (build_runtime (ce_generate env (cw_tick w0)) (session_fallback (cw_session w'))
          (view_latest (cw_clash w')) (view_latest (cw_verge w')) ?ps (cw_notice w0)) = Inr rt"
        using b Inr s by (simp add: same_sources_def w0_def)
      ultimately have "built_from env ?ps w'"
        unfolding built_from_def by (metis yaml_of_draft)
      with s l cl True show ?thesis by simp
    next
      case False
      with u have "cw_runtime w' = (fst (cw_runtime w), None)" by (simp add: update_result_def)
      with s l cl False show ?thesis by (cases "cw_runtime w") simp
    qed
  qed
qed

lemma start_update_fields:
  assumes "start_update w = (free, w')"
  shows "same_sources w w'" "cw_claims w' = cw_claims w" "cw_loads w' = cw_loads w" "cw_runtime w' = cw_runtime w"
    "cw_tick w' = cw_tick w" "cw_profiles w' = cw_profiles w" "cw_run_file w' = cw_run_file w"
  using assms by (auto simp: start_update_def same_sources_def try_start_config_update_def split: if_splits)

lemma end_update_fields [simp]:
  "same_sources w (end_update w') = same_sources w w'" "cw_claims (end_update w) = cw_claims w"
  "cw_loads (end_update w) = cw_loads w" "cw_runtime (end_update w) = cw_runtime w" "cw_profiles_file (end_update w) = cw_profiles_file w"
  "built_from env ps (end_update w) = built_from env ps w" "config_updating (cw_core (end_update w)) = False"
  "cw_clash (end_update w) = cw_clash w" "cw_verge (end_update w) = cw_verge w" "cw_profiles (end_update w) = cw_profiles w"
  "cw_session (end_update w) = cw_session w" "cw_run_file (end_update w) = cw_run_file w"
  by (simp_all add: end_update_def same_sources_def built_from_def CoreProcess.finish_config_update_def)

lemma update_force_facts:
  assumes "update_config_with_force env force w = (r, w')" and "RuntimeLayer \<notin> set (cw_claims w)"
  shows "same_sources w w' \<and> cw_claims w' = cw_claims w \<and> loads_ok env w w'
    \<and> (if update_ok r then built_from env (view_latest (cw_profiles w)) w' else fst (cw_runtime w') = fst (cw_runtime w))"
proof (cases "ce_exiting env (cw_tick w) \<or> \<not> fst (start_update w)")
  case True
  obtain free w1 where s: "start_update w = (free, w1)" by fastforce
  with True assms(1) show ?thesis using start_update_fields [OF s]
    by (cases "ce_exiting env (cw_tick w)")
      (auto simp: update_config_with_force_def update_ok_def is_valid_outcome_def loads_ok_refl same_sources_def)
next
  case False
  then obtain w1 where s: "start_update w = (True, w1)" by (metis prod.collapse)
  note f = start_update_fields [OF s]
  obtain due w2 where d: "(if force then (True, w1\<lparr>cw_last_update := Some (ce_now env (cw_tick w1))\<rparr>) else should_update_config env w1) = (due, w2)"
    by fastforce
  have f2: "cw_claims w2 = cw_claims w" "cw_runtime w2 = cw_runtime w" "same_sources w w2" "cw_loads w2 = cw_loads w" "cw_profiles w2 = cw_profiles w"
    using d f by (auto simp: should_update_config_def same_sources_def Let_def split: if_splits)
  obtain r2 w3 where p: "(if due then perform_config_update env None w2 else (Inr (Skipped Debounced), w2)) = (r2, w3)" by fastforce
  from False assms(1) s d p have r: "r = r2" "w' = end_update w3"
    by (auto simp: update_config_with_force_def)
  show ?thesis
  proof (cases due)
    case True
    with p have "perform_config_update env None w2 = (r2, w3)" by simp
    from perform_result [OF this] assms(2) f2 r show ?thesis
      by (cases "cw_runtime w") (auto simp: same_sources_def loads_ok_def split: if_splits)
  next
    case False
    with p r f2 show ?thesis by (auto simp: update_ok_def is_valid_outcome_def loads_ok_refl)
  qed
qed


subsection \<open>Changing the profiles\<close>

lemma perform_Inl:
  assumes "perform_config_update env (Some ps) w = (r, w')" and "RuntimeLayer \<notin> set (cw_claims w)"
  shows "update_ok r \<Longrightarrow> built_from env ps w'" "\<not> update_ok r \<Longrightarrow> fst (cw_runtime w') = fst (cw_runtime w)"
    "same_sources w w'" "loads_ok env w w'" "cw_claims w' = cw_claims w"
  using perform_result [OF assms] by (cases "cw_runtime w"; auto split: if_splits)+

lemma restore_result:
  assumes "restore_profile_config env ps w = (r, w')" and "RuntimeLayer \<notin> set (cw_claims w)"
  shows "same_sources w w'" "loads_ok env w w'" "cw_claims w' = cw_claims w" "is_ok r \<Longrightarrow> built_from env ps w'"
proof -
  obtain r1 w1 where p: "perform_config_update env (Some ps) w = (r1, w1)" by fastforce
  note P = perform_Inl [OF p assms(2)]
  define w2 where "w2 = ctick env (note_event RestoreNodes w1)"
  note f = told_fields [OF told_steps(1) [OF told_basic(2) [of w1]], of env RestoreNodes, folded w2_def]
  have c: "r = Inr () \<and> w' = w2 \<and> update_ok r1 \<or> \<not> is_ok r \<and> w' = w1"
    using assms(1) p by (auto simp: restore_profile_config_def try_then_def update_ok_def w2_def split: sum.splits if_splits)
  show "same_sources w w'" "loads_ok env w w'" "cw_claims w' = cw_claims w"
    using c P(3,4,5) f by (auto simp: same_sources_def loads_ok_def)
  assume "is_ok r"
  with c have "w' = w2" "update_ok r1" by auto
  with P(1) f show "built_from env ps w'" by (simp add: built_from_def)
qed

lemma save_profiles_result:
  assumes "save_profiles_file env ps w = (r, w')"
  shows "is_ok r \<Longrightarrow> cw_profiles_file w' = Some ps \<and> built_from env cand w' = built_from env cand w"
    "\<not> is_ok r \<Longrightarrow> told 0 w w'" "cw_claims w' = cw_claims w" "cw_loads w' = cw_loads w" "cw_profiles w' = cw_profiles w"
  using assms told_fields [OF told_basic(1), of env "w\<lparr>cw_profiles_file := Some ps\<rparr>"] told_fields [OF told_basic(1), of env w]
  by (auto simp: save_profiles_file_def built_from_def told_basic split: sum.splits)

definition profiles_verdict :: "config_env \<Rightarrow> iprofiles \<Rightarrow> iprofiles \<Rightarrow> config_world \<Rightarrow> (validation_outcome + bool) outcome \<Rightarrow> config_world \<Rightarrow> bool" where
  "profiles_verdict env candidate rollback w r w' =
     (case r of
        Inr (Inr _) \<Rightarrow> cw_profiles_file w' = Some candidate \<and> built_from env candidate w'
      | Inr (Inl outcome) \<Rightarrow> \<not> is_valid_outcome outcome \<and> cw_profiles_file w' = cw_profiles_file w
          \<and> fst (cw_runtime w') = fst (cw_runtime w)
      | Inl e \<Rightarrow> cw_profiles_file w' = cw_profiles_file w
          \<and> (built_from env rollback w' \<or> (\<exists>w1. fst (restore_profile_config env rollback w1) = Inl e)))"

lemma roll_back_verdict:
  assumes "roll_back_to env rollback e w1 = (r, w')" and "RuntimeLayer \<notin> set (cw_claims w1)"
    and "cw_profiles_file w1 = cw_profiles_file w"
  shows "profiles_verdict env candidate rollback w r w' \<and> loads_ok env w1 w' \<and> cw_claims w' = cw_claims w1
    \<and> cw_profiles w' = cw_profiles w1"
proof -
  obtain q w2 where q: "restore_profile_config env rollback w1 = (q, w2)" by fastforce
  note R = restore_result [OF q assms(2)]
  from assms(1) q have r: "r = (case q of Inl e' \<Rightarrow> Inl e' | Inr _ \<Rightarrow> Inl e)" and w': "w' = end_update w2"
    by (auto simp: roll_back_to_def)
  have "loads_ok env w1 w' \<and> cw_claims w' = cw_claims w1 \<and> cw_profiles w' = cw_profiles w1" "cw_profiles_file w' = cw_profiles_file w"
    using R(1,2,3) assms(3) by (simp_all add: w' loads_ok_def same_sources_def)
  moreover have "profiles_verdict env candidate rollback w r w'"
  proof (cases q)
    case (Inl e')
    with r q have "r = Inl e'" "fst (restore_profile_config env rollback w1) = Inl e'" by simp_all
    with calculation(2) show ?thesis by (auto simp: profiles_verdict_def)
  next
    case (Inr u)
    with R(4) calculation(2) r show ?thesis by (simp add: profiles_verdict_def w')
  qed
  ultimately show ?thesis by blast
qed

lemma update_with_profiles:
  assumes "update_config_forced_with_profiles env candidate rollback w = (r, w')" and "RuntimeLayer \<notin> set (cw_claims w)"
  shows "profiles_verdict env candidate rollback w r w' \<and> loads_ok env w w' \<and> cw_claims w' = cw_claims w
    \<and> cw_profiles w' = cw_profiles w"
proof (cases "ce_exiting env (cw_tick w) \<or> \<not> fst (start_update w)")
  case True
  obtain free w1 where s: "start_update w = (free, w1)" by fastforce
  with True assms(1) start_update_fields [OF s] show ?thesis
    by (cases "ce_exiting env (cw_tick w)")
      (auto simp: update_config_forced_with_profiles_def profiles_verdict_def is_valid_outcome_def loads_ok_refl same_sources_def)
next
  case False
  then obtain w1 where s: "start_update w = (True, w1)" by (metis prod.collapse)
  define w2 where "w2 = note_event SupersedeActivation (w1\<lparr>cw_last_update := Some (ce_now env (cw_tick w1))\<rparr>)"
  have f2: "cw_claims w2 = cw_claims w" "cw_profiles_file w2 = cw_profiles_file w" "cw_loads w2 = cw_loads w"
    "cw_runtime w2 = cw_runtime w" "cw_profiles w2 = cw_profiles w"
    using start_update_fields [OF s] by (simp_all add: w2_def note_event_def same_sources_def)
  obtain q w3 where p: "perform_config_update env (Some candidate) w2 = (q, w3)" by fastforce
  have free: "RuntimeLayer \<notin> set (cw_claims w2)" using assms(2) f2 by simp
  note P = perform_Inl [OF p free]
  have l3: "loads_ok env w w3" using P(4) f2(3) by (simp add: loads_ok_def)
  have c3: "cw_claims w3 = cw_claims w" "cw_profiles_file w3 = cw_profiles_file w" "cw_profiles w3 = cw_profiles w"
    using P(3,5) f2 by (simp_all add: same_sources_def)
  note body = assms(1) [unfolded update_config_forced_with_profiles_def] False s p
  show ?thesis
  proof (cases q)
    case (Inl e)
    with body have "roll_back_to env rollback e w3 = (r, w')" by (simp add: w2_def)
    from roll_back_verdict [OF this, where w = w and candidate = candidate] assms(2) c3 l3 show ?thesis
      using loads_ok_trans [OF l3] by simp
  next
    case (Inr outcome)
    show ?thesis
    proof (cases "is_valid_outcome outcome")
      case False
      define w4 where "w4 = ctick env (note_event RestoreNodes w3)"
      note f4 = told_fields [OF told_steps(1) [OF told_basic(2) [of w3]], of env RestoreNodes, folded w4_def]
      from body Inr False have "r = Inr (Inl outcome)" "w' = end_update w4" by (simp_all add: w2_def w4_def)
      moreover have "\<not> update_ok q" using Inr False by (simp add: update_ok_def)
      ultimately show ?thesis using False P(2) f4 c3 f2 l3
        by (simp add: profiles_verdict_def loads_ok_def)
    next
      case True
      obtain v w4 where v: "save_profiles_file env candidate w3 = (v, w4)" by fastforce
      note S = save_profiles_result [OF v]
      have built: "built_from env candidate w3" using P(1) Inr True by (simp add: update_ok_def)
      show ?thesis
      proof (cases v)
        case (Inl e)
        with body Inr True v have b: "roll_back_to env rollback e w4 = (r, w')"
          using \<open>q = Inr outcome\<close> by (simp add: w2_def)
        have "cw_profiles_file w4 = cw_profiles_file w" "RuntimeLayer \<notin> set (cw_claims w4)"
          using told_fields(4) [OF S(2)] Inl S(3) c3 assms(2) by simp_all
        from roll_back_verdict [OF b this(2,1), where candidate = candidate] S(3,4,5) c3 l3 show ?thesis
          by (auto simp: loads_ok_def)
      next
        case (Inr u)
        with body True v \<open>q = Inr outcome\<close> have "r = Inr (Inr True)" "w' = w4" by (simp_all add: w2_def)
        with S Inr built c3 l3 show ?thesis by (simp add: profiles_verdict_def loads_ok_def)
      qed
    qed
  qed
qed


subsection \<open>Any sequence of operations\<close>

datatype config_op =
    UpdateConfig bool | UpdateRuntime "iruntime \<Rightarrow> iruntime" | UpdateProfiles iprofiles iprofiles | DropGuard
  | FirstConfig | EditClash "mapping \<Rightarrow> mapping" | EditVerge "iverge \<Rightarrow> iverge" | CoreStep "core_world \<Rightarrow> core_world"

fun config_step :: "config_env \<Rightarrow> config_op \<Rightarrow> config_world \<Rightarrow> config_world" where
  "config_step env (UpdateConfig force) w = snd (update_config_with_force env force w)"
| "config_step env (UpdateRuntime f) w = snd (update_runtime_config env f w)"
| "config_step env (UpdateProfiles candidate rollback) w = snd (update_config_forced_with_profiles env candidate rollback w)"
| "config_step env DropGuard w = end_update w"
| "config_step env FirstConfig w = snd (generate_and_validate env w)"
| "config_step env (EditClash f) w = w\<lparr>cw_clash := snd (view_edit (\<lambda>d. ((), f d)) (cw_clash w))\<rparr>"
| "config_step env (EditVerge f) w = w\<lparr>cw_verge := snd (view_edit (\<lambda>d. ((), f d)) (cw_verge w))\<rparr>"
| "config_step env (CoreStep f) w = w\<lparr>cw_core := f (cw_core w)\<rparr>"

definition config_run :: "config_env \<Rightarrow> config_op list \<Rightarrow> config_world \<Rightarrow> config_world" where
  "config_run env ops w = fold (config_step env) ops w"

lemma runtime_loads:
  assumes "update_runtime_config env f w = (r, w')" and "RuntimeLayer \<notin> set (cw_claims w)"
  shows "loads_ok env w w' \<and> cw_claims w' = cw_claims w"
proof -
  obtain free w1 where s: "start_update w = (free, w1)" by fastforce
  note f1 = start_update_fields [OF s]
  show ?thesis
  proof (cases free)
    case False
    with assms(1) s f1 show ?thesis by (auto simp: update_runtime_config_def loads_ok_refl)
  next
    case True
    define w2 where "w2 = edit_runtime f (w1\<lparr>cw_claims := RuntimeLayer # cw_claims w1\<rparr>)"
    have f2: "cw_loads w2 = cw_loads w" "cw_claims w2 = RuntimeLayer # cw_claims w" using f1 by (simp_all add: w2_def edit_runtime_def)
    obtain q w3 where v: "validate_and_apply env runtime_transaction w2 = (q, w3)" by fastforce
    have "w' = end_update w3"
      using assms s f1 True v by (auto simp: update_runtime_config_def begin_runtime try_then_def w2_def)
    with validate_and_apply_result [OF v] f2 assms(2) update_result_loads show ?thesis
      by (fastforce simp: loads_ok_def)
  qed
qed

lemma first_loads:
  assumes "generate_and_validate env w = (r, w')"
  shows "cw_loads w' = cw_loads w \<and> cw_claims w' = cw_claims w"
proof -
  define keeps where "keeps v v' = (cw_loads v' = cw_loads v \<and> cw_claims v' = cw_claims v)" for v v' :: config_world
  have tick: "cw_loads (ctick env v) = cw_loads v" "cw_claims (ctick env v) = cw_claims v" for v
    by (simp_all add: ctick_def)
  have gen: "generate env v = (q, v') \<Longrightarrow> keeps v v'" for v q v'
    by (auto simp: generate_def generate_with_profiles_def Let_def edit_runtime_def tick keeps_def split: prod.splits sum.splits)
  have dflt: "fall_back_to_default env k m v = (q, v') \<Longrightarrow> keeps v v'" for k m v q v'
    by (auto simp: fall_back_to_default_def use_default_config_def try_then_def Let_def edit_runtime_def note_event_def tick keeps_def
        split: sum.splits)
  have yaml: "runtime_yaml env v = (q, v') \<Longrightarrow> keeps v v'" for v q v'
    by (auto simp: runtime_yaml_def tick keeps_def)
  have wr: "write_runtime_file env y v = (q, v') \<Longrightarrow> keeps v v'" for y v q v'
    by (auto simp: write_runtime_file_def Let_def tick keeps_def split: sum.splits)
  have va: "validate_yaml env y v = (q, v') \<Longrightarrow> keeps v v'" for y v q v'
    by (auto simp: validate_yaml_def Let_def tick keeps_def split: prod.splits)
  have trans: "keeps a b \<Longrightarrow> keeps b c \<Longrightarrow> keeps a c" for a b c by (simp add: keeps_def)
  obtain g w1 where g: "generate env w = (g, w1)" by fastforce
  note k1 = gen [OF g]
  have "keeps w w'"
  proof (cases g)
    case (Inl e)
    with assms g k1 dflt trans show ?thesis by (auto simp: generate_and_validate_def)
  next
    case (Inr u)
    obtain q w2 where q: "runtime_yaml env w1 = (q, w2)" by fastforce
    note k2 = trans [OF k1 yaml [OF q]]
    show ?thesis
    proof (cases q)
      case Inl
      with assms g \<open>g = Inr u\<close> q k2 dflt trans show ?thesis by (auto simp: generate_and_validate_def try_then_def)
    next
      case y: (Inr y)
      obtain x w3 where x: "write_runtime_file env y w2 = (x, w3)" by fastforce
      note k3 = trans [OF k2 wr [OF x]]
      show ?thesis
      proof (cases x)
        case Inl
        with assms g \<open>g = Inr u\<close> q y x k3 dflt trans show ?thesis by (auto simp: generate_and_validate_def try_then_def)
      next
        case x2: (Inr path)
        obtain z w4 where z: "validate_yaml env y w3 = (z, w4)" by fastforce
        note k4 = trans [OF k3 va [OF z]]
        with assms g \<open>g = Inr u\<close> q y x x2 z dflt trans show ?thesis
          by (auto simp: generate_and_validate_def try_then_def split: sum.splits if_splits)
      qed
    qed
  qed
  then show ?thesis by (simp add: keeps_def)
qed


subsection \<open>Staging\<close>

text \<open>Only the tasks that need no lock ran on the core.\<close>

definition only_others :: "config_env \<Rightarrow> config_world \<Rightarrow> config_world \<Rightarrow> bool" where
  "only_others env w w' \<longleftrightarrow> cw_tick w \<le> cw_tick w'
     \<and> cw_core w' = interfere (concat (map (ce_others env) [cw_tick w ..< cw_tick w'])) (cw_core w)"

definition asks :: "config_world \<Rightarrow> nat" where
  "asks w = length (filter (\<lambda>e. e = AskedToStage) (cw_events w))"

lemma interfere_append: "interfere (xs @ ys) c = interfere ys (interfere xs c)"
  by (simp add: interfere_def)

lemma upt_split: "i \<le> j \<Longrightarrow> j \<le> k \<Longrightarrow> [i ..< k] = [i ..< j] @ [j ..< k]"
  using upt_add_eq_append [of i j "k - j"] by simp

lemma only_others_trans: "only_others env w1 w2 \<Longrightarrow> only_others env w2 w3 \<Longrightarrow> only_others env w1 w3"
  by (auto simp: only_others_def upt_split [of "cw_tick w1" "cw_tick w2" "cw_tick w3"] interfere_append)

lemma ask_result:
  assumes "ask_to_stage env w = (a, w')"
  shows "only_others env w w' \<and> asks w' = Suc (asks w)"
  using assms
  by (auto simp: ask_to_stage_def stage_runtime_by_service_def Let_def only_others_def asks_def note_event_def ctick_def
      interfere_def split: option.splits)

text \<open>
  The service is asked to stage at most twice, and a second time only after no answer; when it refuses
  the bundle the update fails with its message, and the core has been told nothing and was not touched.
\<close>

theorem bundle_refusal_leaves_core_alone:
  assumes "attempt_staging env w = (a, w')"
  shows "asks w' \<le> (case fst (ask_to_stage env w) of Unanswered _ \<Rightarrow> asks w + 2 | _ \<Rightarrow> asks w + 1)
    \<and> (case a of
         RefusedTheBundle message \<Rightarrow> apply_config_by_service env w = (Inl (bail message), w')
           \<and> cw_loads w' = cw_loads w \<and> only_others env w w'
       | _ \<Rightarrow> True)"
proof -
  obtain a1 w1 where 1: "ask_to_stage env w = (a1, w1)" by fastforce
  obtain a2 w2 where 2: "ask_to_stage env w1 = (a2, w2)" by fastforce
  note r1 = ask_result [OF 1] and r2 = ask_result [OF 2]
  have o2: "only_others env w w2" using r1 r2 only_others_trans by blast
  have b: "asks w' \<le> (case a1 of Unanswered _ \<Rightarrow> asks w + 2 | _ \<Rightarrow> asks w + 1) \<and> (w' = w \<or> w' = w1 \<or> w' = w2)"
    using assms r1 r2 1 2
    by (auto simp: attempt_staging_def stage_with_confirmation_def Let_def split: if_splits stage_attempt.splits)
  have o: "only_others env w w'"
    using b r1 o2 by (auto simp: only_others_def interfere_def)
  have l: "cw_loads w' = cw_loads w" using told_fields(17) [OF attempt_told [OF assms]] by simp
  show ?thesis
    using b o l assms 1 by (auto simp: apply_config_by_service_def split: stage_attempt.split)
qed

subsection \<open>Concrete runs\<close>

definition demo_config_env :: config_env where
  "demo_config_env = \<lparr>ce_core = quiet_env Linux (\<lambda>_ _. Inr ()), ce_others = (\<lambda>_. []),
     ce_generate = (\<lambda>_. \<lparr>ge_enhance = demo_env, ge_digest = (\<lambda>_ _. Inr ''00''), ge_home = Inr [RootDir, Normal ''home''],
        ge_fs = bundle_demo_fs, ge_sha256 = (\<lambda>_. ''00''), ge_listeners = None\<rparr>),
     ce_print = (\<lambda>_. Inr ''port: 0''), ce_validate = (\<lambda>_. demo_call True), ce_home_dir = (\<lambda>_. Inr ''home''),
     ce_write = (\<lambda>_ _. Inr ()), ce_write_profiles = (\<lambda>_. Inl ''disk full''), ce_exiting = (\<lambda>_. False), ce_now = id,
     ce_lock = (\<lambda>_ c. c), ce_stage = (\<lambda>_. Inr \<lparr>sg_code = 3, sg_message = ''no such file'', sg_data = None\<rparr>),
     ce_confirmed = (\<lambda>_. True), ce_reload = (\<lambda>_ _. Inr ()), ce_probe = (\<lambda>_. demo_probe),
     ce_capture = (\<lambda>_. Inr ()), ce_restore = (\<lambda>_ _. Inr ()), ce_torn = (\<lambda>_. None), ce_save = (\<lambda>_ _. Inr ()),
     ce_print_verge = (\<lambda>_. Inr ''proxy: true''), ce_owner_status = (\<lambda>_. Inl ''no service''),
     ce_live_port = (\<lambda>_. Inl ''no core'')\<rparr>"

definition demo_config_world :: config_world where
  "demo_config_world = \<lparr>cw_tick = 0, cw_core = world_new False False, cw_epoch = \<lparr>up_depth = 0, up_epoch = 0\<rparr>,
     cw_clash = ([], None), cw_verge = (iverge_default, None), cw_profiles = (iprofiles_default, None),
     cw_runtime = (iruntime_default\<lparr>rt_config := Some []\<rparr>, None), cw_claims = [], cw_session = 0, cw_notice = quiet_notice,
     cw_validator = validator_new, cw_last_update = None, cw_clash_file = None, cw_verge_file = None, cw_run_file = None, cw_profiles_file = None,
     cw_fallback_notice = None, cw_core_block = None, cw_loads = [], cw_events = []\<rparr>"

lemma demo_cells [simp]:
  "cw_claims demo_config_world = []" "cw_profiles demo_config_world = (iprofiles_default, None)"
  "cw_runtime demo_config_world = (iruntime_default\<lparr>rt_config := Some []\<rparr>, None)"
  "cw_profiles_file demo_config_world = None" "cw_loads demo_config_world = []"
  by (simp_all add: demo_config_world_def)




theorem bundle_refusal_leaves_core_alone_witness:
  "let w = demo_config_world\<lparr>cw_core := (world_new False False)\<lparr>session := Some
        \<lparr>session_proof_of = \<lparr>proof_generation = 1, proof_token = []\<rparr>, supports_runtime_staging = True,
         supports_runtime_file_read = False\<rparr>\<rparr>\<rparr>
   in fst (apply_config_by_service demo_config_env w) = Inl (bail ''no such file'')"
proof -
  let ?w = "demo_config_world\<lparr>cw_core := (world_new False False)\<lparr>session := Some
        \<lparr>session_proof_of = \<lparr>proof_generation = 1, proof_token = []\<rparr>, supports_runtime_staging = True,
         supports_runtime_file_read = False\<rparr>\<rparr>\<rparr>"
  obtain a w' where a: "attempt_staging demo_config_env ?w = (a, w')" by fastforce
  moreover have "fst (attempt_staging demo_config_env ?w) = RefusedTheBundle ''no such file''"
    by (simp add: attempt_staging_def stage_with_confirmation_def ask_to_stage_def stage_runtime_by_service_def
        demo_config_env_def quiet_env_def is_about_the_bundle_def Let_def note_event_def)
  ultimately have "a = RefusedTheBundle ''no such file''" by simp
  with bundle_refusal_leaves_core_alone [OF a] show ?thesis by simp
qed

end
