(* ===== verification/PortChange.thy ===== *)
theory PortChange
  imports ConfigUpdateProps Listeners
begin

section \<open>Changing the proxy ports\<close>

text \<open>
  Models \<open>save_proxy_ports\<close> of \<open>src-tauri/src/feat/listener.rs\<close>, with the snapshots of
  \<open>config/snapshot.rs\<close>, and the start-up fallback of \<open>config/port.rs\<close>, over the world of \<open>ConfigUpdate\<close>.
  A change of ports stages the settings, the core configuration and the runtime configuration in one
  transaction; every way out but success gives back the drafts, the files and the port the session had
  borrowed.  The exits of the code (guards dropped in the reverse order of their declaration) are
  \<open>leave\<close> and \<open>leave_staged\<close>.
\<close>

subsection \<open>Files\<close>

definition file_of :: "config_file \<Rightarrow> config_world \<Rightarrow> string option" where
  "file_of f w = (case f of ClashFile \<Rightarrow> cw_clash_file w | VergeFile \<Rightarrow> cw_verge_file w | RunFile \<Rightarrow> cw_run_file w)"

definition set_file :: "config_file \<Rightarrow> string option \<Rightarrow> config_world \<Rightarrow> config_world" where
  "set_file f content w = (case f of ClashFile \<Rightarrow> w\<lparr>cw_clash_file := content\<rparr> | VergeFile \<Rightarrow> w\<lparr>cw_verge_file := content\<rparr>
     | RunFile \<Rightarrow> w\<lparr>cw_run_file := content\<rparr>)"

type_synonym snapshots = "(config_file \<times> string option) list"

definition capture_config_snapshot :: "config_env \<Rightarrow> config_world \<Rightarrow> snapshots outcome \<times> config_world" where
  "capture_config_snapshot env w =
     ((case ce_capture env (cw_tick w) of
         Inl e \<Rightarrow> Inl (bail e)
       | Inr _ \<Rightarrow> Inr (map (\<lambda>f. (f, file_of f w)) [ClashFile, VergeFile, RunFile])), ctick env w)"

text \<open>A write that fails may leave part of the content; removing a file that is absent succeeds.\<close>

definition restore_snapshot_file :: "config_env \<Rightarrow> config_file \<Rightarrow> string option \<Rightarrow> config_world \<Rightarrow> (string + unit) \<times> config_world" where
  "restore_snapshot_file env f content w =
     (if content = None \<and> file_of f w = None then (Inr (), ctick env w)
      else case ce_restore env (cw_tick w) f of
          Inr _ \<Rightarrow> (Inr (), ctick env (set_file f content w))
        | Inl e \<Rightarrow> (Inl e, ctick env (if content = None then w else set_file f (ce_torn env (cw_tick w)) w)))"

fun restore_snapshot_loop :: "config_env \<Rightarrow> snapshots \<Rightarrow> config_world \<Rightarrow> string list \<times> config_world" where
  "restore_snapshot_loop env [] w = ([], w)"
| "restore_snapshot_loop env ((f, content) # snaps) w =
     (let (r, w) = restore_snapshot_file env f content w; (errors, w) = restore_snapshot_loop env snaps w
      in (case r of Inl e \<Rightarrow> e # errors | Inr _ \<Rightarrow> errors, w))"

definition restore_snapshot :: "config_env \<Rightarrow> snapshots \<Rightarrow> config_world \<Rightarrow> unit outcome \<times> config_world" where
  "restore_snapshot env snaps w =
     (let (errors, w) = restore_snapshot_loop env snaps w
      in (if errors = [] then Inr () else Inl (bail (join_str ''; '' errors)), w))"

definition save_source :: "config_env \<Rightarrow> config_file \<Rightarrow> string res \<Rightarrow> config_world \<Rightarrow> unit outcome \<times> config_world" where
  "save_source env f content w =
     (case and_then content (\<lambda>c. map_sum id (\<lambda>_. c) (ce_save env (cw_tick w) f)) of
        Inl e \<Rightarrow> (Inl (bail e), ctick env w)
      | Inr c \<Rightarrow> (Inr (), ctick env (set_file f (Some c) w)))"

text \<open>The printed settings, with the headings of \<open>save_config\<close> and \<open>save_file\<close>.\<close>

definition clash_bytes :: "config_env \<Rightarrow> mapping \<Rightarrow> string res" where
  "clash_bytes env m = map_sum id (\<lambda>t. ''# Generated by Clash Verge'' @ [CHR 0x0A, CHR 0x0A] @ t) (ce_print env m)"

definition verge_bytes :: "config_env \<Rightarrow> iverge \<Rightarrow> string res" where
  "verge_bytes env s = map_sum id (\<lambda>t. ''# Clash Verge Config'' @ [CHR 0x0A, CHR 0x0A] @ t) (ce_print_verge env s)"

definition with_context :: "string \<Rightarrow> 'a outcome \<times> config_world \<Rightarrow> 'a outcome \<times> config_world" where
  "with_context c r = (map_sum (add_context (Text c)) id (fst r), snd r)"

definition persist_proxy_port_sources :: "config_env \<Rightarrow> config_world \<Rightarrow> unit outcome \<times> config_world" where
  "persist_proxy_port_sources env w =
     try_then (with_context ''failed to persist Application Merge Configuration''
         (save_source env ClashFile (clash_bytes env (view_latest (cw_clash w))) w)) (\<lambda>_ w.
     with_context ''failed to persist selected proxy ports''
         (save_source env VergeFile (verge_bytes env (view_latest (cw_verge w))) w))"

subsection \<open>Staging\<close>

definition staged_clash :: "platform \<Rightarrow> proxy_port_settings \<Rightarrow> mapping \<Rightarrow> mapping" where
  "staged_clash p s m =
     (let m = put ''port'' (port_value (port_number (set_http s))) (put ''socks-port'' (port_value (port_number (set_socks s)))
                (put ''mixed-port'' (port_value (set_mixed_port s)) m));
          m = (if p \<noteq> Windows then put ''redir-port'' (port_value (port_number (set_redir s))) m else m)
      in if p = Linux then put ''tproxy-port'' (port_value (port_number (set_tproxy s))) m else m)"

definition staged_verge :: "platform \<Rightarrow> proxy_port_settings \<Rightarrow> iverge \<Rightarrow> iverge" where
  "staged_verge p s v =
     (let v = v\<lparr>verge_mixed_port := Some (set_mixed_port s), verge_socks_port := Some (port_number (set_socks s)),
            verge_socks_enabled := Some (port_enabled (set_socks s)), verge_port := Some (port_number (set_http s)),
            verge_http_enabled := Some (port_enabled (set_http s))\<rparr>;
          v = (if p \<noteq> Windows then v\<lparr>verge_redir_port := Some (port_number (set_redir s)), verge_redir_enabled := Some (port_enabled (set_redir s))\<rparr> else v)
      in if p = Linux then v\<lparr>verge_tproxy_port := Some (port_number (set_tproxy s)), verge_tproxy_enabled := Some (port_enabled (set_tproxy s))\<rparr> else v)"

definition stage_proxy_ports :: "config_env \<Rightarrow> proxy_port_settings \<Rightarrow> config_world \<Rightarrow> config_world" where
  "stage_proxy_ports env s w =
     w\<lparr>cw_clash := snd (view_edit (\<lambda>d. ((), staged_clash (plat (ce_core env)) s d)) (cw_clash w)),
       cw_verge := snd (view_edit (\<lambda>d. ((), staged_verge (plat (ce_core env)) s d)) (cw_verge w))\<rparr>"

definition set_store :: "(run_store \<Rightarrow> run_store) \<Rightarrow> config_world \<Rightarrow> config_world" where
  "set_store f w = w\<lparr>cw_core := (cw_core w)\<lparr>cstore := f (cstore (cw_core w))\<rparr>\<rparr>"

definition restore_borrowed_port :: "u16 option \<Rightarrow> config_world \<Rightarrow> config_world" where
  "restore_borrowed_port previous w =
     w\<lparr>cw_session := (case previous of Some port \<Rightarrow> set_session_fallback port | None \<Rightarrow> clear_session_fallback)\<rparr>"

datatype save_outcome = Saved | PortConflict u16 transport

definition rejected_save_outcome :: "probe_outcome \<Rightarrow> save_outcome option outcome" where
  "rejected_save_outcome assessment =
     (case assessment of
        Available \<Rightarrow> Inr None
      | Conflict port t \<Rightarrow> Inr (Some (PortConflict port t))
      | InvalidProbe message \<Rightarrow> Inl (bail message)
      | Indeterminate message \<Rightarrow> Inl (bail message))"

definition probe_proxy_ports :: "config_env \<Rightarrow> mapping \<Rightarrow> mapping \<Rightarrow> bool \<Rightarrow> config_world \<Rightarrow> probe_outcome \<times> config_world" where
  "probe_proxy_ports env serving candidate was_running w =
     (fst (probe_proxy_port_change (ce_probe env (cw_tick w)) serving candidate was_running 0), ctick env w)"

text \<open>Up to the validated candidate: \<open>Inr (Inl o)\<close> is an early answer.\<close>

definition stage_candidate :: "config_env \<Rightarrow> mapping \<Rightarrow> config_world
    \<Rightarrow> (save_outcome + (mapping \<times> bool \<times> string)) outcome \<times> config_world" where
  "stage_candidate env serving w =
     try_then (with_context ''failed to generate candidate proxy port configuration'' (generate env w)) (\<lambda>_ w.
     (case rt_config (view_latest (cw_runtime w)) of
        None \<Rightarrow> (Inl (bail ''candidate Runtime Configuration is unavailable''), w)
      | Some candidate \<Rightarrow>
          (let was_running = (running (cw_core w) \<noteq> NotRunning);
               (assessment, w) = probe_proxy_ports env serving candidate was_running w
           in case rejected_save_outcome assessment of
                Inl e \<Rightarrow> (Inl e, w)
              | Inr (Some outcome) \<Rightarrow> (Inr (Inl outcome), w)
              | Inr None \<Rightarrow>
                  try_then (with_context ''failed to serialize candidate proxy port configuration'' (runtime_yaml env w)) (\<lambda>yaml w.
                  try_then (with_context ''failed to validate candidate proxy port configuration'' (validate_yaml env yaml w)) (\<lambda>validation w.
                  if \<not> is_valid_outcome validation
                  then (Inl (bail (''candidate proxy port configuration is invalid: '' @ show_outcome validation)), w)
                  else (Inr (Inr (candidate, was_running, yaml)), w))))))"

subsection \<open>Rolling back\<close>

definition discard_proxy_port_drafts :: "config_world \<Rightarrow> config_world" where
  "discard_proxy_port_drafts w =
     w\<lparr>cw_clash := view_discard (cw_clash w), cw_verge := view_discard (cw_verge w), cw_runtime := view_discard (cw_runtime w)\<rparr>"

definition restore_core :: "config_env \<Rightarrow> bool \<Rightarrow> config_world \<Rightarrow> unit outcome \<times> config_world" where
  "restore_core env was_running w =
     (if \<not> was_running then (Inr (), w)
      else if running (cw_core w) = NotRunning
      then on_core (start_core_during_config_update (ce_core env)) (note_load w)
      else restart_with_run_file env w)"

definition rollback_proxy_ports :: "config_env \<Rightarrow> snapshots \<Rightarrow> bool \<Rightarrow> config_world \<Rightarrow> unit outcome \<times> config_world" where
  "rollback_proxy_ports env snaps was_running w =
     (let (file_result, w) = restore_snapshot env snaps (discard_proxy_port_drafts w);
          w = (if is_ok file_result then w else snd (generate_run_file env w));
          (lifecycle_result, w) = restore_core env was_running w
      in ((case (file_result, lifecycle_result) of
             (Inr _, Inr _) \<Rightarrow> Inr ()
           | (Inl file_error, Inr _) \<Rightarrow> Inl file_error
           | (Inr _, Inl lifecycle_error) \<Rightarrow> Inl (add_context (Text ''failed to restore the previous core'') lifecycle_error)
           | (Inl file_error, Inl lifecycle_error) \<Rightarrow>
               Inl (add_context (Text ''failed to restore the previous core'')
                 (add_context (Text (''failed to restore configuration files: '' @ show_chain file_error)) lifecycle_error))), w))"

subsection \<open>Saving\<close>

text \<open>On every exit the borrowed port is put back first, then PAC is settled.\<close>

definition leave :: "u16 option \<Rightarrow> config_world \<Rightarrow> config_world" where
  "leave previous w = set_store core_start_settled (restore_borrowed_port previous w)"

definition leave_staged :: "config_world draft_transaction \<Rightarrow> u16 option \<Rightarrow> config_world \<Rightarrow> config_world" where
  "leave_staged transaction previous w = transaction_drop transaction (leave previous w)"

definition undo_activation :: "config_env \<Rightarrow> config_world draft_transaction \<Rightarrow> u16 option \<Rightarrow> snapshots \<Rightarrow> bool
    \<Rightarrow> config_world \<Rightarrow> unit outcome \<times> config_world" where
  "undo_activation env transaction previous snaps was_running w =
     rollback_proxy_ports env snaps was_running (restore_borrowed_port previous (transaction_rollback transaction w))"

definition failed_activation :: "config_env \<Rightarrow> mapping \<Rightarrow> mapping \<Rightarrow> bool \<Rightarrow> error \<Rightarrow> unit outcome \<times> config_world
    \<Rightarrow> save_outcome outcome \<times> config_world" where
  "failed_activation env serving candidate was_running activation_error undone =
     (let context_error = add_context (Text ''failed to activate the proxy port configuration'')
      in case undone of
           (Inl rollback_error, w) \<Rightarrow> (Inl (context_error (rollback_failure activation_error rollback_error)), w)
         | (Inr _, w) \<Rightarrow>
             (let (assessment, w) = probe_proxy_ports env serving candidate was_running w
              in ((case rejected_save_outcome assessment of
                     Inl e \<Rightarrow> Inl e
                   | Inr (Some outcome) \<Rightarrow> Inr outcome
                   | Inr None \<Rightarrow> Inl (context_error activation_error)), w)))"

definition activate_ports :: "config_env \<Rightarrow> config_world draft_transaction \<Rightarrow> u16 option \<Rightarrow> mapping \<Rightarrow> mapping \<times> bool \<times> string
    \<Rightarrow> config_world \<Rightarrow> save_outcome outcome \<times> config_world" where
  "activate_ports env transaction previous serving staged_candidate w =
     (case staged_candidate of (candidate, was_running, yaml) \<Rightarrow>
     (case capture_config_snapshot env w of
        (Inl e, w) \<Rightarrow> (Inl e, leave_staged transaction previous w)
      | (Inr snaps, w) \<Rightarrow>
     (case write_runtime_file env yaml w of
        (Inl error, w) \<Rightarrow>
          (let (r, w) = restore_snapshot env snaps (transaction_rollback transaction w)
           in ((case r of
                  Inr _ \<Rightarrow> Inl (add_context (Text ''failed to persist candidate Runtime Configuration'') error)
                | Inl rollback_error \<Rightarrow> Inl (rollback_failure error rollback_error)), leave previous w))
      | (Inr _, w) \<Rightarrow>
     (case (if was_running then restart_with_run_file env w else (Inr (), w)) of
        (Inl activation_error, w) \<Rightarrow>
          (let (r, w) = failed_activation env serving candidate was_running activation_error
                 (undo_activation env transaction previous snaps was_running w)
           in (r, leave previous w))
      | (Inr _, w) \<Rightarrow>
     (case persist_proxy_port_sources env w of
        (Inl persist_error, w) \<Rightarrow>
          (let (r, w) = undo_activation env transaction previous snaps was_running w
           in ((case r of Inr _ \<Rightarrow> Inl persist_error | Inl rollback_error \<Rightarrow> Inl (rollback_failure persist_error rollback_error)),
               leave previous w))
      | (Inr _, w) \<Rightarrow> (Inr Saved, set_store core_start_settled (transaction_commit transaction w)))))))"

definition save_ports_locked :: "config_env \<Rightarrow> proxy_port_settings \<Rightarrow> config_world \<Rightarrow> save_outcome outcome \<times> config_world" where
  "save_ports_locked env settings w =
     (case rt_config (fst (cw_runtime w)) of
        None \<Rightarrow> (Inl (bail ''current Runtime Configuration is unavailable''), w)
      | Some serving \<Rightarrow>
          try_then (begin_transaction [ClashLayer, VergeLayer, RuntimeLayer] w) (\<lambda>transaction w.
          let previous = session_fallback (cw_session w);
              w = (set_store core_starting (stage_proxy_ports env settings w))\<lparr>cw_session := clear_session_fallback\<rparr>
          in case stage_candidate env serving w of
               (Inl e, w) \<Rightarrow> (Inl e, leave_staged transaction previous w)
             | (Inr (Inl outcome), w) \<Rightarrow> (Inr outcome, leave_staged transaction previous w)
             | (Inr (Inr staged_candidate), w) \<Rightarrow> activate_ports env transaction previous serving staged_candidate w))"

definition save_proxy_ports :: "config_env \<Rightarrow> proxy_port_settings \<Rightarrow> config_world \<Rightarrow> save_outcome outcome \<times> config_world" where
  "save_proxy_ports env settings w =
     (case validate_ports settings of
        Inl e \<Rightarrow> (Inl (bail e), w)
      | Inr _ \<Rightarrow>
          (let (free, w) = on_core try_start_config_update w
           in if \<not> free then (Inl (bail ''configuration update is already running''), w)
              else let (r, w) = save_ports_locked env settings w
                   in (r, w\<lparr>cw_core := CoreProcess.finish_config_update (cw_core w)\<rparr>)))"

subsection \<open>The fallback at start-up\<close>

text \<open>
  Whether the port is held by the core that the service keeps for this user.  \<open>ce_owner_status\<close> is the
  service's answer from the credentials on, \<open>ce_live_port\<close> that of the core.
\<close>

definition owned_service_core_uses_port :: "config_env \<Rightarrow> u16 \<Rightarrow> config_world \<Rightarrow> bool \<times> config_world" where
  "owned_service_core_uses_port env port w =
     (let (status, w) = on_core (current_status (ce_core env)) w
      in if status \<noteq> StReady then (False, w)
         else case ce_owner_status env (cw_tick w) of
             Inl _ \<Rightarrow> (False, ctick env w)
           | Inr reply \<Rightarrow>
               (case os_data reply of
                  None \<Rightarrow> (False, ctick env w)
                | Some (owner_active, pid) \<Rightarrow>
                    if os_code reply > 0 \<or> \<not> owner_active \<or> pid = None then (False, ctick env w)
                    else let w = ctick env w
                         in ((case ce_live_port env (cw_tick w) of Inr live \<Rightarrow> live = port | Inl _ \<Rightarrow> True), ctick env w)))"

definition stage_fallback_runtime :: "config_env \<Rightarrow> config_world \<Rightarrow> unit outcome \<times> config_world" where
  "stage_fallback_runtime env w =
     try_then (with_context ''failed to materialize runtime configuration with fallback port'' (generate env w)) (\<lambda>_ w.
     try_then (with_context ''failed to validate runtime configuration with fallback port'' (runtime_yaml env w)) (\<lambda>yaml w.
     try_then (with_context ''failed to validate runtime configuration with fallback port'' (validate_yaml env yaml w)) (\<lambda>validation w.
     if \<not> is_valid_outcome validation
     then (Inl (bail (''runtime configuration with fallback port is invalid: '' @ show_outcome validation)), w)
     else try_then (with_context ''failed to write Runtime Configuration'' (generate_run_file env w)) (\<lambda>_ w. (Inr (), w)))))"

definition record_fallback :: "u16 \<Rightarrow> u16 \<Rightarrow> (u16 \<times> u16) option \<Rightarrow> (u16 \<times> u16) option" where
  "record_fallback old_port new_port p =
     (case p of Some (original, _) \<Rightarrow> Some (original, new_port) | None \<Rightarrow> Some (old_port, new_port))"

definition apply_startup_mixed_port_fallback :: "config_env \<Rightarrow> u16 \<Rightarrow> u16 \<Rightarrow> config_world \<Rightarrow> unit outcome \<times> config_world" where
  "apply_startup_mixed_port_fallback env old_port new_port w =
     try_then (begin_transaction [RuntimeLayer] w) (\<lambda>transaction w.
     let previous_port = session_fallback (cw_session w)
     in case stage_fallback_runtime env (w\<lparr>cw_session := set_session_fallback new_port\<rparr>) of
          (Inl e, w) \<Rightarrow> (Inl e, transaction_drop transaction (restore_borrowed_port previous_port w))
        | (Inr _, w) \<Rightarrow>
            (let w = transaction_commit transaction w
             in (Inr (), w\<lparr>cw_fallback_notice := record_fallback old_port new_port (cw_fallback_notice w)\<rparr>)))"

text \<open>A retry asks about the port this session tried, not about the one on disk.\<close>

definition startup_port :: "config_world \<Rightarrow> u16" where
  "startup_port w = (case session_fallback (cw_session w) of Some port \<Rightarrow> port | None \<Rightarrow> get_mixed_port (view_latest (cw_clash w)))"

definition resolve_startup_mixed_port :: "config_env \<Rightarrow> config_world \<Rightarrow> bool outcome \<times> config_world" where
  "resolve_startup_mixed_port env w =
     (let clash = view_latest (cw_clash w); s = view_latest (cw_verge w);
          selected_port = startup_port w
      in case proxy_bind_addresses clash of
           Inl e \<Rightarrow> (Inl (add_context (Text ''failed to derive mixed proxy listener scope'') (bail e)), w)
         | Inr addresses \<Rightarrow>
             (let (owned, w) = owned_service_core_uses_port env selected_port w
              in if owned then (Inr False, w)
              else let (outcome, t) = probe_mixed_port (ce_probe env (cw_tick w)) addresses selected_port 0
              in (case outcome of
                    Conflict _ _ \<Rightarrow>
                      (case fst (find_next_available_port selected_port (configured_listener_ports (plat (ce_core env)) clash s)
                                (mixed_port_is_available (ce_probe env (cw_tick w)) addresses) t) of
                         None \<Rightarrow> (Inl (bail ''no eligible mixed proxy port is available''), ctick env w)
                       | Some candidate \<Rightarrow>
                           try_then (apply_startup_mixed_port_fallback env selected_port candidate (ctick env w)) (\<lambda>_ w. (Inr True, w)))
                  | _ \<Rightarrow> (Inr False, ctick env w))))"

definition block_startup_core :: "error \<Rightarrow> config_world \<Rightarrow> config_world" where
  "block_startup_core e w =
     note_event (NoticeShown ''mixed_port::fallback_error'' (show_cause (hd e))) (w\<lparr>cw_core_block := Some (show_cause (hd e))\<rparr>)"

definition startup_core_block_reason :: "config_world \<Rightarrow> string option" where
  "startup_core_block_reason w = cw_core_block w"

definition notify_startup_mixed_port_fallback :: "config_world \<Rightarrow> config_world" where
  "notify_startup_mixed_port_fallback w =
     (case cw_fallback_notice w of
        None \<Rightarrow> w
      | Some (original, current_port) \<Rightarrow>
          note_event (NoticeShown ''mixed_port::fallback'' (show_nat (unat original) @ '','' @ show_nat (unat current_port)))
            (w\<lparr>cw_fallback_notice := None\<rparr>))"

text \<open>\<open>sync_dns_override\<close> of \<open>DnsOverride\<close>, on the cells.\<close>

definition sync_dns_cells :: "config_env \<Rightarrow> config_world \<Rightarrow> unit outcome \<times> config_world" where
  "sync_dns_cells env w =
     (case rt_dns_override (fst (cw_runtime w)) of
        None \<Rightarrow> (Inr (), w)
      | Some st \<Rightarrow>
          try_then (begin_transaction [VergeLayer] w) (\<lambda>transaction w.
          (let (changed, verge) = view_edit (apply_to st) (cw_verge w); w = w\<lparr>cw_verge := verge\<rparr>
           in if \<not> changed then (Inr (), transaction_drop transaction w)
              else let w = transaction_commit transaction w;
                       w = (if ovr_requested st \<and> \<not> ovr_enabled st
                            then note_event (NoticeShown ''dns_override::auto_disabled'' []) w else w)
                   in save_source env VergeFile (verge_bytes env (fst (cw_verge w))) w)))"

text \<open>The first configuration: a port that could not be resolved blocks the core.\<close>

definition init_runtime_config :: "config_env \<Rightarrow> config_world \<Rightarrow> unit outcome \<times> config_world" where
  "init_runtime_config env w =
     (case resolve_startup_mixed_port env w of
        (Inl e, w) \<Rightarrow> (Inl e, block_startup_core e w)
      | (Inr fallback_applied, w) \<Rightarrow>
          try_then (if fallback_applied then (Inr None, w) else generate_and_validate env w) (\<lambda>notice w.
          let w = (case notice of Some (msg_type, msg) \<Rightarrow> note_event (NoticeShown msg_type msg) w | None \<Rightarrow> w)
          in (Inr (), snd (sync_dns_cells env (w\<lparr>cw_runtime := view_apply (cw_runtime w)\<rparr>)))))"

end
