(* ===== verification/PortChangeProps.thy ===== *)
theory PortChangeProps
  imports PortChange
begin

section \<open>What a change of ports guarantees\<close>

text \<open>
  The properties of \<open>PortChange\<close>: saving the proxy ports is all or nothing over the three cells and the three
  files, and the start-up fallback moves the session alone, to a port that is free and spoken for by nobody.
\<close>

subsection \<open>What an operation leaves unchanged\<close>

definition cells_of :: "config_world \<Rightarrow> mapping draft_view \<times> iverge draft_view \<times> iruntime draft_view \<times> iprofiles draft_view
    \<times> iprofiles option \<times> config_layer list" where
  "cells_of w = (cw_clash w, cw_verge w, cw_runtime w, cw_profiles w, cw_profiles_file w, cw_claims w)"

definition files_in :: "config_world \<Rightarrow> string option \<times> string option \<times> string option" where
  "files_in w = (cw_clash_file w, cw_verge_file w, cw_run_file w)"

text \<open>\<open>quiet\<close>: the cells, their claims and the port of the session are as before; \<open>silent\<close>: the files too.\<close>

definition quiet :: "config_world \<Rightarrow> config_world \<Rightarrow> bool" where
  "quiet w w' \<longleftrightarrow> cells_of w' = cells_of w \<and> cw_session w' = cw_session w"

definition silent :: "config_world \<Rightarrow> config_world \<Rightarrow> bool" where
  "silent w w' \<longleftrightarrow> quiet w w' \<and> files_in w' = files_in w"

lemma quiet_refl [simp]: "quiet w w" and silent_refl [simp]: "silent w w"
  by (simp_all add: quiet_def silent_def)

lemma quiet_trans [trans]: "quiet a b \<Longrightarrow> quiet b c \<Longrightarrow> quiet a c"
  by (simp add: quiet_def)

lemma silent_trans [trans]: "silent a b \<Longrightarrow> silent b c \<Longrightarrow> silent a c"
  by (simp add: silent_def quiet_def)

lemma silent_quiet: "silent w w' \<Longrightarrow> quiet w w'"
  by (simp add: silent_def)

lemma quiet_fields:
  assumes "quiet w w'"
  shows "cw_clash w' = cw_clash w" "cw_verge w' = cw_verge w" "cw_runtime w' = cw_runtime w" "cw_profiles w' = cw_profiles w"
    "cw_profiles_file w' = cw_profiles_file w" "cw_claims w' = cw_claims w" "cw_session w' = cw_session w"
  using assms by (simp_all add: quiet_def cells_of_def)

lemma silent_files:
  assumes "silent w w'"
  shows "cw_clash_file w' = cw_clash_file w" "cw_verge_file w' = cw_verge_file w" "cw_run_file w' = cw_run_file w"
  using assms by (simp_all add: silent_def files_in_def)

lemma told_silent: "told k w w' \<Longrightarrow> silent w w'"
  by (simp add: silent_def quiet_def cells_of_def files_in_def told_fields)

lemma ctick_silent [simp]: "silent w (ctick env w)"
  by (rule told_silent [OF told_basic(1)])

lemma set_file_quiet [simp]: "quiet w (set_file f content w)"
  by (cases f) (simp_all add: set_file_def quiet_def cells_of_def)

lemma file_of_set_file: "file_of g (set_file f content w) = (if g = f then content else file_of g w)"
  by (cases f; cases g) (simp_all add: set_file_def file_of_def)

lemma files_in_eq: "files_in w' = files_in w \<longleftrightarrow> (\<forall>f. file_of f w' = file_of f w)"
  by (auto simp: files_in_def file_of_def split: config_file.split dest: spec [of _ ClashFile] spec [of _ VergeFile] spec [of _ RunFile])

lemma silent_file_of: "silent w w' \<Longrightarrow> file_of f w' = file_of f w"
  by (auto simp: silent_def files_in_eq)

lemma quiet_tick: "quiet w (ctick env w') \<longleftrightarrow> quiet w w'"
  using ctick_silent [of w' env] by (auto simp: silent_def quiet_def)

lemma set_store_silent [simp]: "silent w (set_store f w)"
  by (simp add: silent_def quiet_def cells_of_def files_in_def set_store_def)

lemma probe_silent: "probe_proxy_ports env serving candidate was_running w = (r, w') \<Longrightarrow> silent w w'"
  by (auto simp: probe_proxy_ports_def)

lemma capture_result:
  assumes "capture_config_snapshot env w = (r, w')"
  shows "silent w w'" and "r = Inr snaps \<Longrightarrow> snaps = map (\<lambda>f. (f, file_of f w)) [ClashFile, VergeFile, RunFile]"
  using assms by (auto simp: capture_config_snapshot_def split: sum.splits)

lemma yaml_silent: "runtime_yaml env w = (r, w') \<Longrightarrow> silent w w'"
  by (auto simp: runtime_yaml_def)

lemma validate_silent: "validate_yaml env yaml w = (r, w') \<Longrightarrow> silent w w'"
proof -
  assume "validate_yaml env yaml w = (r, w')"
  then obtain v where "w' = ctick env (w\<lparr>cw_validator := v\<rparr>)" using validate_yaml_result(1) by blast
  moreover have "silent w (w\<lparr>cw_validator := v\<rparr>)" by (simp add: silent_def quiet_def cells_of_def files_in_def)
  ultimately show ?thesis using silent_trans [OF _ ctick_silent] by blast
qed

lemma write_run_quiet:
  assumes "write_runtime_file env yaml w = (r, w')"
  shows "quiet w w'" and "\<forall>f. f \<noteq> RunFile \<longrightarrow> file_of f w' = file_of f w"
    and "r = Inr p \<Longrightarrow> cw_run_file w' = Some yaml" and "r = Inl e \<Longrightarrow> silent w w'"
proof -
  have start: "quiet w (w\<lparr>cw_run_file := Some yaml\<rparr>)" by (simp add: quiet_def cells_of_def)
  have r: "case r of Inl e \<Rightarrow> silent w w' | Inr p \<Rightarrow> silent (w\<lparr>cw_run_file := Some yaml\<rparr>) w'"
    using write_run_result [OF assms] told_silent by (auto split: sum.splits)
  show "quiet w w'" using r quiet_trans [OF start silent_quiet] silent_quiet by (auto split: sum.splits)
  show "\<forall>f. f \<noteq> RunFile \<longrightarrow> file_of f w' = file_of f w" "r = Inr p \<Longrightarrow> cw_run_file w' = Some yaml"
    "r = Inl e \<Longrightarrow> silent w w'"
    using r by (cases r; simp add: silent_def files_in_def file_of_def split: config_file.split)+
qed

lemma run_file_quiet: "generate_run_file env w = (r, w') \<Longrightarrow> quiet w w'"
  by (auto simp: generate_run_file_def try_then_def split: prod.splits sum.splits
      dest!: yaml_silent write_run_quiet(1) intro: quiet_trans silent_quiet)

lemma restart_silent: "restart_with_run_file env w = (r, w') \<Longrightarrow> silent w w'"
  by (rule told_silent [OF restart_told])

lemma restore_core_silent: "restore_core env was_running w = (r, w') \<Longrightarrow> silent w w'"
  using told_silent [OF told_trans [OF told_basic(3) [of w] on_core_told]] restart_silent
  by (auto simp: restore_core_def split: if_splits)

subsection \<open>Putting the files back\<close>

lemma restore_file_quiet:
  assumes "restore_snapshot_file env f content w = (r, w')"
  shows "quiet w w'" and "g \<noteq> f \<Longrightarrow> file_of g w' = file_of g w" and "r = Inr () \<Longrightarrow> file_of f w' = content"
  using assms by (auto simp: restore_snapshot_file_def quiet_tick silent_file_of [OF ctick_silent] file_of_set_file
      split: if_splits sum.splits)

lemma restore_loop_quiet:
  "restore_snapshot_loop env snaps w = (errors, w') \<Longrightarrow> quiet w w' \<and> (\<forall>g. g \<notin> fst ` set snaps \<longrightarrow> file_of g w' = file_of g w)
     \<and> (errors = [] \<longrightarrow> distinct (map fst snaps) \<longrightarrow> (\<forall>(f, content) \<in> set snaps. file_of f w' = content))"
proof (induction snaps arbitrary: w w' errors)
  case (Cons snap snaps)
  obtain f content where s: "snap = (f, content)" by fastforce
  obtain r w1 where 1: "restore_snapshot_file env f content w = (r, w1)" by fastforce
  obtain es w2 where 2: "restore_snapshot_loop env snaps w1 = (es, w2)" by fastforce
  from Cons.prems s 1 2 have e: "w' = w2" "errors = (case r of Inl e \<Rightarrow> e # es | Inr _ \<Rightarrow> es)" by auto
  note q = restore_file_quiet [OF 1] and ih = Cons.IH [OF 2]
  have "quiet w w'" using q(1) ih e quiet_trans by blast
  moreover have "\<forall>g. g \<notin> fst ` set (snap # snaps) \<longrightarrow> file_of g w' = file_of g w" using q(2) ih e s by auto
  moreover have "\<forall>(f, content) \<in> set (snap # snaps). file_of f w' = content"
    if none: "errors = []" and d: "distinct (map fst (snap # snaps))"
  proof -
    from none e have r: "r = Inr ()" "es = []" by (auto split: sum.splits)
    have "file_of f w1 = content" using q(3) r by simp
    moreover have "f \<notin> fst ` set snaps" "distinct (map fst snaps)" using d s by auto
    ultimately show ?thesis using ih r e s by auto
  qed
  ultimately show ?case by blast
qed simp

lemma restore_snapshot_result:
  assumes "restore_snapshot env (map (\<lambda>f. (f, file_of f w0)) [ClashFile, VergeFile, RunFile]) w = (r, w')"
  shows "quiet w w'" and "is_ok r \<Longrightarrow> files_in w' = files_in w0"
proof -
  obtain es w1 where l: "restore_snapshot_loop env (map (\<lambda>f. (f, file_of f w0)) [ClashFile, VergeFile, RunFile]) w = (es, w1)"
    by fastforce
  note q = restore_loop_quiet [OF l]
  have e: "w' = w1" "is_ok r \<Longrightarrow> es = []"
    using assms l by (auto simp: restore_snapshot_def simp del: restore_snapshot_loop.simps list.map split: if_splits)
  show "quiet w w'" using q e by simp
  show "files_in w' = files_in w0" if "is_ok r"
  proof -
    have "\<forall>f \<in> {ClashFile, VergeFile, RunFile}. file_of f w' = file_of f w0" using q e that by auto
    then show ?thesis by (auto simp: files_in_eq) (metis config_file.exhaust insertCI)
  qed
qed

subsection \<open>The transaction\<close>

definition ports_transaction :: "config_world draft_transaction" where
  "ports_transaction = \<lparr>layers = map config_layer_of [ClashLayer, VergeLayer, RuntimeLayer], is_committed = False\<rparr>"

lemma begin_ports:
  assumes "cw_claims w = []"
  shows "begin_transaction [ClashLayer, VergeLayer, RuntimeLayer] w =
    (Inr ports_transaction, w\<lparr>cw_claims := [RuntimeLayer, VergeLayer, ClashLayer]\<rparr>)"
  using assms by (simp add: begin_transaction_def transaction_begin_def config_layer_of_def ports_transaction_def)

lemma drop_ports: "transaction_drop ports_transaction w =
    w\<lparr>cw_clash := view_discard (cw_clash w), cw_verge := view_discard (cw_verge w), cw_runtime := view_discard (cw_runtime w),
      cw_claims := removeAll RuntimeLayer (removeAll VergeLayer (removeAll ClashLayer (cw_claims w)))\<rparr>"
  by (simp add: transaction_drop_def ports_transaction_def config_layer_of_def)

lemma commit_ports: "transaction_commit ports_transaction w =
    w\<lparr>cw_clash := view_apply (cw_clash w), cw_verge := view_apply (cw_verge w), cw_runtime := view_apply (cw_runtime w),
      cw_claims := removeAll RuntimeLayer (removeAll VergeLayer (removeAll ClashLayer (cw_claims w)))\<rparr>"
  by (simp add: transaction_commit_def transaction_drop_def ports_transaction_def config_layer_of_def)

text \<open>
  \<open>begun w v\<close>: the transaction holds its claims and what was committed in \<open>w\<close> is still committed;
  \<open>undone w v\<close>: the transaction is over and its drafts are gone.
\<close>

definition begun :: "config_world \<Rightarrow> config_world \<Rightarrow> bool" where
  "begun w v \<longleftrightarrow> view_discard (cw_clash v) = view_discard (cw_clash w) \<and> view_discard (cw_verge v) = view_discard (cw_verge w)
     \<and> view_discard (cw_runtime v) = view_discard (cw_runtime w) \<and> cw_profiles v = cw_profiles w
     \<and> cw_profiles_file v = cw_profiles_file w \<and> cw_claims v = [RuntimeLayer, VergeLayer, ClashLayer]"

definition undone :: "config_world \<Rightarrow> config_world \<Rightarrow> bool" where
  "undone w v \<longleftrightarrow> cells_of v = (view_discard (cw_clash w), view_discard (cw_verge w), view_discard (cw_runtime w),
     cw_profiles w, cw_profiles_file w, [])"

lemma begun_quiet: "begun w v \<Longrightarrow> quiet v v' \<Longrightarrow> begun w v'"
  by (simp add: begun_def quiet_fields)

lemma undone_quiet: "undone w v \<Longrightarrow> quiet v v' \<Longrightarrow> undone w v'"
  by (simp add: undone_def quiet_def)

lemma begun_drop: "begun w v \<Longrightarrow> undone w (transaction_drop ports_transaction v)"
  by (simp add: begun_def undone_def drop_ports cells_of_def)

lemma borrowed_fields:
  "cells_of (restore_borrowed_port previous w) = cells_of w" "files_in (restore_borrowed_port previous w) = files_in w"
  "undone v (restore_borrowed_port previous w) = undone v w" "begun v (restore_borrowed_port previous w) = begun v w"
  by (simp_all add: restore_borrowed_port_def cells_of_def files_in_def undone_def begun_def)

lemma borrowed_back: "cw_session (restore_borrowed_port (session_fallback cell) w) = cell"
  by (simp add: restore_borrowed_port_def session_fallback_def set_session_fallback_def clear_session_fallback_def)

lemma leave_fields:
  "cells_of (leave previous w) = cells_of w" "files_in (leave previous w) = files_in w"
  "undone v (leave previous w) = undone v w" "begun v (leave previous w) = begun v w"
  "cw_session (leave (session_fallback cell) w) = cell"
  by (simp_all add: leave_def set_store_def restore_borrowed_port_def session_fallback_def set_session_fallback_def clear_session_fallback_def
      cells_of_def files_in_def undone_def begun_def)

lemma leave_staged_result:
  assumes "begun w v"
  shows "undone w (leave_staged ports_transaction (session_fallback cell) v)"
    and "files_in (leave_staged ports_transaction (session_fallback cell) v) = files_in v"
    and "cw_session (leave_staged ports_transaction (session_fallback cell) v) = cell"
proof -
  let ?v = "leave (session_fallback cell) v"
  show "undone w (leave_staged ports_transaction (session_fallback cell) v)"
    unfolding leave_staged_def by (rule begun_drop) (simp add: leave_fields assms)
  show "files_in (leave_staged ports_transaction (session_fallback cell) v) = files_in v"
    "cw_session (leave_staged ports_transaction (session_fallback cell) v) = cell"
    using leave_fields(2,5) by (simp_all add: leave_staged_def drop_ports files_in_def)
qed

subsection \<open>The candidate\<close>

lemma generate_result:
  assumes "generate env w = (r, w')"
  shows "\<exists>rt notice. silent (w\<lparr>cw_runtime := (if is_ok r then (fst (cw_runtime w), Some rt) else cw_runtime w)\<rparr>) w'
    \<and> (is_ok r \<longrightarrow> fst (build_runtime (ce_generate env (cw_tick w)) (session_fallback (cw_session w)) (view_latest (cw_clash w))
          (view_latest (cw_verge w)) (view_latest (cw_profiles w)) notice) = Inr rt)"
proof -
  obtain b notice where b: "build_runtime (ce_generate env (cw_tick w)) (session_fallback (cw_session w))
      (view_latest (cw_clash w)) (view_latest (cw_verge w)) (view_latest (cw_profiles w)) (cw_notice w) = (b, notice)" by fastforce
  let ?w = "ctick env (w\<lparr>cw_notice := notice\<rparr>)"
  have s: "silent w ?w" by (rule silent_trans [OF _ ctick_silent]) (simp add: silent_def quiet_def cells_of_def files_in_def)
  show ?thesis
  proof (cases b)
    case (Inl e)
    with assms b have "r = Inl (bail e)" "w' = ?w" by (simp_all add: generate_def generate_with_profiles_def)
    with s show ?thesis by (simp add: silent_def quiet_def cells_of_def files_in_def)
  next
    case (Inr rt)
    with assms b have "r = Inr ()" "w' = edit_runtime (\<lambda>_. rt) ?w" by (simp_all add: generate_def generate_with_profiles_def)
    with s b Inr show ?thesis
      by (intro exI [of _ rt] exI [of _ "cw_notice w"])
        (simp add: silent_def quiet_def cells_of_def files_in_def edit_runtime_def view_edit_def)
  qed
qed

text \<open>What a candidate that may be activated is.\<close>

definition candidate_ok :: "config_env \<Rightarrow> config_world \<Rightarrow> string \<Rightarrow> bool" where
  "candidate_ok env w yaml \<longleftrightarrow> accepted env yaml
     \<and> (\<exists>t notice rt committed_rt. fst (build_runtime (ce_generate env t) (session_fallback (cw_session w)) (view_latest (cw_clash w))
          (view_latest (cw_verge w)) (view_latest (cw_profiles w)) notice) = Inr rt
        \<and> cw_runtime w = (committed_rt, Some rt) \<and> runtime_config_yaml (ce_print env) (rt, None) = Inr yaml)"

lemma candidate_ok_quiet: "candidate_ok env v yaml \<Longrightarrow> quiet v v' \<Longrightarrow> candidate_ok env v' yaml"
  by (simp add: candidate_ok_def quiet_fields)

definition same_settings :: "config_world \<Rightarrow> config_world \<Rightarrow> bool" where
  "same_settings w w' \<longleftrightarrow> cw_clash w' = cw_clash w \<and> cw_verge w' = cw_verge w \<and> cw_session w' = cw_session w
     \<and> cw_profiles w' = cw_profiles w \<and> cw_profiles_file w' = cw_profiles_file w \<and> cw_claims w' = cw_claims w
     \<and> view_discard (cw_runtime w') = view_discard (cw_runtime w)"

lemma same_settings_quiet: "same_settings w v \<Longrightarrow> quiet v v' \<Longrightarrow> same_settings w v'"
  by (simp add: same_settings_def quiet_fields)

lemma same_settings_begun: "same_settings v v' \<Longrightarrow> begun w v \<Longrightarrow> begun w v'"
  by (simp add: same_settings_def begun_def)

lemma with_context_result: "with_context c x = (r, w') \<longleftrightarrow> (\<exists>q. x = (q, w') \<and> r = map_sum (add_context (Text c)) id q)"
  by (cases x) (auto simp: with_context_def)

lemma generate_settings:
  assumes "generate env w = (r, w')"
  shows "same_settings w w'" "files_in w' = files_in w"
proof -
  from generate_result [OF assms] obtain rt where
    s: "silent (w\<lparr>cw_runtime := (if is_ok r then (fst (cw_runtime w), Some rt) else cw_runtime w)\<rparr>) w'" by blast
  then show "files_in w' = files_in w" by (auto simp: silent_def files_in_def)
  have "same_settings w (w\<lparr>cw_runtime := (if is_ok r then (fst (cw_runtime w), Some rt) else cw_runtime w)\<rparr>)"
    by (cases "cw_runtime w") (simp add: same_settings_def)
  with s show "same_settings w w'" using same_settings_quiet silent_quiet by blast
qed

text \<open>The pieces of the end of \<open>stage_candidate\<close>: print, then validate.\<close>

lemma printed_and_validated:
  assumes "runtime_yaml env w = (q, w1)" and "q = Inr yaml" and "validate_yaml env yaml w1 = (q2, w2)"
    and "q2 = Inr validation" and "is_valid_outcome validation" and "cw_runtime w = (c, Some rt)" and "rt_config rt \<noteq> None"
  shows "accepted env yaml \<and> runtime_config_yaml (ce_print env) (rt, None) = Inr yaml"
proof -
  have "runtime_config_yaml (ce_print env) (cw_runtime w) = Inr yaml"
    using assms(1,2) by (cases "runtime_config_yaml (ce_print env) (cw_runtime w)") (auto simp: runtime_yaml_def)
  with assms(6,7) have "runtime_config_yaml (ce_print env) (rt, None) = Inr yaml" by (simp add: yaml_of_draft)
  moreover have "accepted env yaml" by (rule validate_yaml_result(2) [OF assms(3-5)])
  ultimately show ?thesis by blast
qed

lemma generate_candidate:
  assumes "generate env w = (Inr u, w1)" and "silent w1 w2"
    and "runtime_yaml env w2 = (Inr yaml, w3)" and "validate_yaml env yaml w3 = (Inr validation, w4)"
    and "is_valid_outcome validation"
  shows "candidate_ok env w4 yaml"
proof -
  from generate_result [OF assms(1)] obtain rt notice where
    s1: "silent (w\<lparr>cw_runtime := (fst (cw_runtime w), Some rt)\<rparr>) w1"
    and b: "fst (build_runtime (ce_generate env (cw_tick w)) (session_fallback (cw_session w)) (view_latest (cw_clash w))
          (view_latest (cw_verge w)) (view_latest (cw_profiles w)) notice) = Inr rt"
    by auto
  have s2: "silent (w\<lparr>cw_runtime := (fst (cw_runtime w), Some rt)\<rparr>) w2" by (rule silent_trans [OF s1 assms(2)])
  have s4: "silent (w\<lparr>cw_runtime := (fst (cw_runtime w), Some rt)\<rparr>) w4"
    by (rule silent_trans [OF silent_trans [OF s2 yaml_silent [OF assms(3)]] validate_silent [OF assms(4)]])
  have "rt_config rt \<noteq> None" using b built_config by (metis prod.collapse)
  then have "accepted env yaml \<and> runtime_config_yaml (ce_print env) (rt, None) = Inr yaml"
    using printed_and_validated [OF assms(3) refl assms(4) refl assms(5)] quiet_fields(3) [OF silent_quiet [OF s2]] by simp
  with b quiet_fields [OF silent_quiet [OF s4]] show ?thesis by (auto simp: candidate_ok_def)
qed

lemma stage_candidate_result:
  assumes "stage_candidate env serving w = (r, w')"
  shows "same_settings w w'" and "files_in w' = files_in w"
    and "r = Inr (Inr (candidate, was_running, yaml)) \<Longrightarrow> candidate_ok env w' yaml"
    and "r = Inr (Inl early) \<Longrightarrow> early \<noteq> Saved"
proof -
  obtain g w1 where g: "generate env w = (g, w1)" by fastforce
  note s1 = generate_settings [OF g]
  have "same_settings w w' \<and> files_in w' = files_in w
    \<and> (\<forall>candidate was_running yaml. r = Inr (Inr (candidate, was_running, yaml)) \<longrightarrow> candidate_ok env w' yaml)
    \<and> (\<forall>early. r = Inr (Inl early) \<longrightarrow> early \<noteq> Saved)"
  proof (cases "\<exists>u candidate. g = Inr u \<and> rt_config (view_latest (cw_runtime w1)) = Some candidate")
    case False
    with assms g s1 show ?thesis
      by (cases g) (auto simp: stage_candidate_def with_context_def try_then_def)
  next
    case True
    then obtain u candidate where t: "g = Inr u" "rt_config (view_latest (cw_runtime w1)) = Some candidate" by blast
    let ?run = "running (cw_core w1) \<noteq> NotRunning"
    obtain a w2 where p: "probe_proxy_ports env serving candidate ?run w1 = (a, w2)" by fastforce
    note s2 = probe_silent [OF p]
    obtain q w3 where y: "runtime_yaml env w2 = (q, w3)" by fastforce
    note s3 = silent_trans [OF s2 yaml_silent [OF y]]
    have keep: "silent w1 v \<Longrightarrow> same_settings w v \<and> files_in v = files_in w" for v
      using s1 same_settings_quiet silent_quiet by (auto simp: silent_def)
    show ?thesis
    proof (cases "rejected_save_outcome a = Inr None \<and> is_ok q")
      case False
      with assms g t p y keep [OF s2] keep [OF s3] show ?thesis
        by (auto simp: stage_candidate_def with_context_def try_then_def is_ok_def rejected_save_outcome_def
            split: sum.splits option.splits probe_outcome.splits)
    next
      case True
      then obtain yaml where t2: "rejected_save_outcome a = Inr None" "q = Inr yaml" by (auto simp: is_ok_def split: sum.splits)
      obtain q2 w4 where v: "validate_yaml env yaml w3 = (q2, w4)" by fastforce
      note s4 = silent_trans [OF s3 validate_silent [OF v]]
      have r: "w' = w4" "case r of Inr (Inr (c, b, y)) \<Rightarrow> y = yaml \<and> (\<exists>o1. q2 = Inr o1 \<and> is_valid_outcome o1)
          | Inr (Inl early) \<Rightarrow> False | Inl e \<Rightarrow> True"
        using assms g t p y t2 v
        by (cases q2; auto simp: stage_candidate_def with_context_def try_then_def split: sum.splits if_splits)+
      have "candidate_ok env w4 yaml" if "q2 = Inr o1" "is_valid_outcome o1" for o1
        using generate_candidate [OF g [unfolded t(1)] s2 y [unfolded t2(2)] v [unfolded that(1)] that(2)] .
      with r keep [OF s4] show ?thesis by (auto split: sum.splits)
    qed
  qed
  then show "same_settings w w'" and "files_in w' = files_in w"
    and "r = Inr (Inr (candidate, was_running, yaml)) \<Longrightarrow> candidate_ok env w' yaml"
    and "r = Inr (Inl early) \<Longrightarrow> early \<noteq> Saved" by blast+
qed

subsection \<open>Undoing\<close>

lemma discard_undone: "undone w v \<Longrightarrow> cells_of (discard_proxy_port_drafts v) = cells_of v
    \<and> cw_session (discard_proxy_port_drafts v) = cw_session v"
  by (cases "cw_clash w"; cases "cw_verge w"; cases "cw_runtime w") (auto simp: undone_def cells_of_def discard_proxy_port_drafts_def)

lemma rollback_result:
  assumes "rollback_proxy_ports env (map (\<lambda>f. (f, file_of f w0)) [ClashFile, VergeFile, RunFile]) was_running v = (r, v')"
    and u: "undone w v"
  shows "quiet v v'" and "is_ok r \<Longrightarrow> files_in v' = files_in w0"
proof -
  let ?snaps = "map (\<lambda>f. (f, file_of f w0)) [ClashFile, VergeFile, RunFile]"
  have q0: "quiet v (discard_proxy_port_drafts v)" using discard_undone [OF u] by (simp add: quiet_def)
  obtain fr v1 where 1: "restore_snapshot env ?snaps (discard_proxy_port_drafts v) = (fr, v1)" by fastforce
  define v2 where "v2 = (if is_ok fr then v1 else snd (generate_run_file env v1))"
  have q2: "quiet v1 v2" using run_file_quiet [of env v1, OF prod.collapse [symmetric]] by (simp add: v2_def)
  obtain lr v3 where 3: "restore_core env was_running v2 = (lr, v3)" by fastforce
  have r: "v' = v3" "is_ok r \<Longrightarrow> is_ok fr"
    using assms(1) 1 3 by (auto simp: rollback_proxy_ports_def v2_def simp del: list.map split: sum.splits)
  note 4 = restore_core_silent [OF 3]
  show "quiet v v'"
    using quiet_trans [OF quiet_trans [OF q0 restore_snapshot_result(1) [OF 1]] quiet_trans [OF q2 silent_quiet [OF 4]]] r(1) by simp
  show "files_in v' = files_in w0" if "is_ok r"
    using restore_snapshot_result(2) [OF 1] r that 4 by (simp add: silent_def v2_def)
qed

lemma undo_result:
  assumes "undo_activation env ports_transaction previous (map (\<lambda>f. (f, file_of f w0)) [ClashFile, VergeFile, RunFile]) was_running v = (r, v')"
    and "begun w v"
  shows "undone w v'" and "is_ok r \<Longrightarrow> files_in v' = files_in w0"
proof -
  let ?v = "restore_borrowed_port previous (transaction_rollback ports_transaction v)"
  have u: "undone w ?v" by (simp add: borrowed_fields transaction_rollback_def begun_drop [OF assms(2)])
  note r = rollback_result [OF assms(1) [unfolded undo_activation_def] u]
  show "undone w v'" by (rule undone_quiet [OF u r(1)])
  show "is_ok r \<Longrightarrow> files_in v' = files_in w0" by (rule r(2))
qed

lemma failed_activation_result:
  assumes "failed_activation env serving candidate was_running e (q, v) = (r, v')"
  shows "silent v v'" and "r \<noteq> Inr Saved" and "is_ok r \<Longrightarrow> is_ok q"
proof -
  obtain a v1 where p: "probe_proxy_ports env serving candidate was_running v = (a, v1)" by fastforce
  show "silent v v'" "r \<noteq> Inr Saved" "is_ok r \<Longrightarrow> is_ok q"
    using assms probe_silent [OF p] p
    by (cases q; cases a; auto simp: failed_activation_def rejected_save_outcome_def Let_def)+
qed

lemma save_source_result:
  assumes "save_source env f content w = (r, w')"
  shows "quiet w w'" and "r = Inr () \<Longrightarrow> \<exists>c. content = Inr c \<and> file_of f w' = Some c"
    and "g \<noteq> f \<Longrightarrow> file_of g w' = file_of g w"
proof -
  have c: "(\<exists>c. r = Inr () \<and> content = Inr c \<and> w' = ctick env (set_file f (Some c) w)) \<or> (r \<noteq> Inr () \<and> w' = ctick env w)"
    using assms by (cases content; cases "ce_save env (cw_tick w) f") (auto simp: save_source_def and_then_def)
  then show "quiet w w'" and "g \<noteq> f \<Longrightarrow> file_of g w' = file_of g w"
    by (auto simp: quiet_tick silent_file_of [OF ctick_silent] file_of_set_file)
  show "\<exists>c. content = Inr c \<and> file_of f w' = Some c" if "r = Inr ()"
    using c that by (auto simp: silent_file_of [OF ctick_silent] file_of_set_file)
qed

text \<open>The files of the settings hold the printed settings.\<close>

definition sources_saved :: "config_env \<Rightarrow> mapping \<Rightarrow> iverge \<Rightarrow> config_world \<Rightarrow> bool" where
  "sources_saved env m s w \<longleftrightarrow> (\<exists>c v. clash_bytes env m = Inr c \<and> cw_clash_file w = Some c
     \<and> verge_bytes env s = Inr v \<and> cw_verge_file w = Some v)"

lemma persist_result:
  assumes "persist_proxy_port_sources env w = (r, w')"
  shows "quiet w w'" and "r = Inr () \<Longrightarrow> sources_saved env (view_latest (cw_clash w)) (view_latest (cw_verge w)) w'"
    and "cw_run_file w' = cw_run_file w"
proof -
  obtain q w1 where 1: "save_source env ClashFile (clash_bytes env (view_latest (cw_clash w))) w = (q, w1)" by fastforce
  obtain q2 w2 where 2: "save_source env VergeFile (verge_bytes env (view_latest (cw_verge w1))) w1 = (q2, w2)" by fastforce
  note s1 = save_source_result [OF 1] and s2 = save_source_result [OF 2]
  have v: "cw_verge w1 = cw_verge w" using quiet_fields(2) [OF s1(1)] .
  have w': "w' = w1 \<or> w' = w2" "r = Inr () \<Longrightarrow> w' = w2 \<and> q = Inr () \<and> q2 = Inr ()"
    using assms 1 2 v by (cases q; cases q2; auto simp: persist_proxy_port_sources_def with_context_def try_then_def)+
  show "quiet w w'" using w'(1) s1(1) quiet_trans [OF s1(1) s2(1)] by blast
  show "cw_run_file w' = cw_run_file w" using w'(1) s1(3) [of RunFile] s2(3) [of RunFile] by (auto simp: file_of_def)
  assume "r = Inr ()"
  note w = w'(2) [OF this]
  obtain c where "clash_bytes env (view_latest (cw_clash w)) = Inr c" "file_of ClashFile w1 = Some c" using s1(2) w by blast
  moreover obtain d where "verge_bytes env (view_latest (cw_verge w)) = Inr d" "file_of VergeFile w2 = Some d" using s2(2) w v by auto
  moreover have "file_of ClashFile w2 = file_of ClashFile w1" by (rule s2(3)) simp
  ultimately show "sources_saved env (view_latest (cw_clash w)) (view_latest (cw_verge w)) w'"
    using w by (simp add: sources_saved_def file_of_def)
qed

subsection \<open>Saving\<close>

text \<open>How a save may end: everything landed, or everything is as before.\<close>

definition landed :: "config_env \<Rightarrow> string \<Rightarrow> config_world \<Rightarrow> config_world \<Rightarrow> bool" where
  "landed env yaml v v' \<longleftrightarrow> cells_of v' = (view_apply (cw_clash v), view_apply (cw_verge v), view_apply (cw_runtime v),
      cw_profiles v, cw_profiles_file v, [])
    \<and> cw_session v' = cw_session v \<and> cw_run_file v' = Some yaml
    \<and> sources_saved env (view_latest (cw_clash v)) (view_latest (cw_verge v)) v'"

definition fell_back :: "save_outcome outcome \<Rightarrow> config_world \<Rightarrow> config_world \<Rightarrow> bool" where
  "fell_back r w v' \<longleftrightarrow> r \<noteq> Inr Saved \<and> undone w v' \<and> cw_session v' = cw_session w \<and> (is_ok r \<longrightarrow> files_in v' = files_in w)"

lemma fell_back_leave:
  assumes "undone w v" and "is_ok r \<Longrightarrow> files_in v = files_in w" and "r \<noteq> Inr Saved"
  shows "fell_back r w (leave (session_fallback (cw_session w)) v)"
  using assms by (auto simp: fell_back_def leave_fields)

lemma fell_back_error:
  assumes "undone w v" and "\<not> is_ok r"
  shows "fell_back r w (leave (session_fallback (cw_session w)) v)"
  using assms by (cases r) (auto simp: fell_back_def leave_fields)

lemma activate_result:
  assumes act: "activate_ports env ports_transaction (session_fallback (cw_session w)) serving (candidate, was_running, yaml) v = (r, v')"
    and b: "begun w v" and f: "files_in v = files_in w"
  shows "(r = Inr Saved \<and> landed env yaml v v') \<or> fell_back r w v'"
proof -
  let ?prev = "session_fallback (cw_session w)" and ?tx = ports_transaction
  obtain c v1 where 1: "capture_config_snapshot env v = (c, v1)" by fastforce
  note s1 = capture_result [OF 1]
  have b1: "begun w v1" by (rule begun_quiet [OF b silent_quiet [OF s1(1)]])
  have f1: "files_in v1 = files_in w" using s1(1) f by (simp add: silent_def)
  show ?thesis
  proof (cases c)
    case (Inl e)
    with act 1 have "r = Inl e" "v' = leave_staged ?tx ?prev v1" by (simp_all add: activate_ports_def)
    with leave_staged_result [OF b1, of "cw_session w"] f1 show ?thesis by (simp add: fell_back_def)
  next
    case c: (Inr snaps)
    have snaps: "snaps = map (\<lambda>f. (f, file_of f v)) [ClashFile, VergeFile, RunFile]" by (rule s1(2) [OF c])
    obtain q2 v2 where 2: "write_runtime_file env yaml v1 = (q2, v2)" by fastforce
    note s2 = write_run_quiet [OF 2]
    have b2: "begun w v2" by (rule begun_quiet [OF b1 s2(1)])
    show ?thesis
    proof (cases q2)
      case (Inl error)
      let ?v = "transaction_rollback ?tx v2"
      obtain q3 v3 where 3: "restore_snapshot env snaps ?v = (q3, v3)" by fastforce
      from act 1 c 2 Inl 3 have r: "\<not> is_ok r" "v' = leave ?prev v3"
        by (auto simp: activate_ports_def split: sum.splits)
      have "undone w ?v" by (simp add: transaction_rollback_def begun_drop [OF b2])
      then have "undone w v3" using undone_quiet restore_snapshot_result(1) [OF 3 [unfolded snaps]] by blast
      with fell_back_error r show ?thesis by blast
    next
      case (Inr path)
      have run2: "cw_run_file v2 = Some yaml" by (rule s2(3) [OF Inr])
      obtain q3 v3 where 3: "(if was_running then restart_with_run_file env v2 else (Inr (), v2)) = (q3, v3)" by fastforce
      have s3: "silent v2 v3" using 3 restart_silent by (auto split: if_splits)
      have b3: "begun w v3" by (rule begun_quiet [OF b2 silent_quiet [OF s3]])
      show ?thesis
      proof (cases q3)
        case (Inl activation_error)
        obtain q4 v4 where 4: "undo_activation env ?tx ?prev snaps was_running v3 = (q4, v4)" by fastforce
        note u4 = undo_result [OF 4 [unfolded snaps] b3]
        obtain q5 v5 where 5: "failed_activation env serving candidate was_running activation_error (q4, v4) = (q5, v5)" by fastforce
        note s5 = failed_activation_result [OF 5]
        from act 1 c 2 \<open>q2 = Inr path\<close> 3 Inl 4 5 have r: "r = q5" "v' = leave ?prev v5"
          by (simp_all add: activate_ports_def)
        have "undone w v5" by (rule undone_quiet [OF u4(1) silent_quiet [OF s5(1)]])
        moreover have "is_ok r \<Longrightarrow> files_in v5 = files_in w" using u4(2) s5(1,3) r(1) f by (simp add: silent_def)
        ultimately show ?thesis using fell_back_leave s5(2) r by blast
      next
        case q3: (Inr u)
        obtain q4 v4 where 4: "persist_proxy_port_sources env v3 = (q4, v4)" by fastforce
        note s4 = persist_result [OF 4]
        have b4: "begun w v4" by (rule begun_quiet [OF b3 s4(1)])
        show ?thesis
        proof (cases q4)
          case (Inl persist_error)
          obtain q5 v5 where 5: "undo_activation env ?tx ?prev snaps was_running v4 = (q5, v5)" by fastforce
          note u5 = undo_result [OF 5 [unfolded snaps] b4]
          from act 1 c 2 \<open>q2 = Inr path\<close> 3 q3 4 Inl 5 have r: "\<not> is_ok r" "v' = leave ?prev v5"
            by (auto simp: activate_ports_def split: sum.splits)
          with fell_back_error u5(1) show ?thesis by blast
        next
          case (Inr u')
          from act 1 c 2 \<open>q2 = Inr path\<close> 3 q3 4 Inr have r: "r = Inr Saved" "v' = set_store core_start_settled (transaction_commit ?tx v4)"
            by (simp_all add: activate_ports_def)
          have q: "quiet v v4"
            using quiet_trans [OF quiet_trans [OF silent_quiet [OF s1(1)] s2(1)] quiet_trans [OF silent_quiet [OF s3] s4(1)]] .
          have q3: "quiet v v3"
            using quiet_trans [OF quiet_trans [OF silent_quiet [OF s1(1)] s2(1)] silent_quiet [OF s3]] .
          have run: "cw_run_file v4 = Some yaml" using s4(3) silent_files(3) [OF s3] run2 by simp
          have saved: "sources_saved env (view_latest (cw_clash v)) (view_latest (cw_verge v)) v4"
            using s4(2) Inr quiet_fields(1,2) [OF q3] by simp
          from b4 have "cw_claims v4 = [RuntimeLayer, VergeLayer, ClashLayer]" by (simp add: begun_def)
          with run saved have "landed env yaml v v'"
            by (simp add: landed_def r commit_ports cells_of_def set_store_def quiet_fields [OF q] sources_saved_def)
          with r show ?thesis by blast
        qed
      qed
    qed
  qed
qed

text \<open>The committed settings are the old ones with the new ports, saved, built, accepted and written.\<close>

definition ports_saved :: "config_env \<Rightarrow> proxy_port_settings \<Rightarrow> config_world \<Rightarrow> config_world \<Rightarrow> bool" where
  "ports_saved env settings w w' \<longleftrightarrow>
     cw_clash w' = (staged_clash (plat (ce_core env)) settings (view_latest (cw_clash w)), None)
     \<and> cw_verge w' = (staged_verge (plat (ce_core env)) settings (view_latest (cw_verge w)), None)
     \<and> session_fallback (cw_session w') = None \<and> built_from env (view_latest (cw_profiles w)) w'
     \<and> sources_saved env (fst (cw_clash w')) (fst (cw_verge w')) w'"

text \<open>What was committed still is, nothing is claimed, and the session serves the port it served.\<close>

definition same_committed :: "config_world \<Rightarrow> config_world \<Rightarrow> bool" where
  "same_committed w w' \<longleftrightarrow> fst (cw_clash w') = fst (cw_clash w) \<and> fst (cw_verge w') = fst (cw_verge w)
     \<and> fst (cw_runtime w') = fst (cw_runtime w) \<and> cw_profiles w' = cw_profiles w \<and> cw_profiles_file w' = cw_profiles_file w
     \<and> cw_claims w' = cw_claims w \<and> cw_session w' = cw_session w"

lemma undone_committed: "undone w w' \<Longrightarrow> cw_session w' = cw_session w \<Longrightarrow> cw_claims w = [] \<Longrightarrow> same_committed w w'"
  by (cases "cw_clash w"; cases "cw_verge w"; cases "cw_runtime w") (auto simp: undone_def cells_of_def same_committed_def)

definition staged_world :: "config_env \<Rightarrow> proxy_port_settings \<Rightarrow> config_world \<Rightarrow> config_world" where
  "staged_world env settings w = (set_store core_starting (stage_proxy_ports env settings
     (w\<lparr>cw_claims := [RuntimeLayer, VergeLayer, ClashLayer]\<rparr>)))\<lparr>cw_session := clear_session_fallback\<rparr>"

lemma staged_world_fields:
  "cw_clash (staged_world env s w) = (fst (cw_clash w), Some (staged_clash (plat (ce_core env)) s (view_latest (cw_clash w))))"
  "cw_verge (staged_world env s w) = (fst (cw_verge w), Some (staged_verge (plat (ce_core env)) s (view_latest (cw_verge w))))"
  "cw_session (staged_world env s w) = clear_session_fallback" "cw_runtime (staged_world env s w) = cw_runtime w"
  "cw_profiles (staged_world env s w) = cw_profiles w" "cw_profiles_file (staged_world env s w) = cw_profiles_file w"
  "files_in (staged_world env s w) = files_in w" "cw_claims (staged_world env s w) = [RuntimeLayer, VergeLayer, ClashLayer]"
  by (simp_all add: staged_world_def set_store_def stage_proxy_ports_def view_edit_def files_in_def)

lemma staged_world_begun: "begun w (staged_world env s w)"
  by (cases "cw_clash w"; cases "cw_verge w") (simp add: begun_def staged_world_fields)

lemma candidate_lands:
  assumes "same_settings (staged_world env s w) v" and "candidate_ok env v yaml" and "landed env yaml v v'"
  shows "ports_saved env s w v'"
proof -
  from assms(2) obtain t notice rt committed_rt where c: "accepted env yaml"
    "fst (build_runtime (ce_generate env t) (session_fallback (cw_session v)) (view_latest (cw_clash v))
          (view_latest (cw_verge v)) (view_latest (cw_profiles v)) notice) = Inr rt"
    "cw_runtime v = (committed_rt, Some rt)" "runtime_config_yaml (ce_print env) (rt, None) = Inr yaml"
    by (auto simp: candidate_ok_def)
  from assms(1) have v: "cw_clash v = (fst (cw_clash w), Some (staged_clash (plat (ce_core env)) s (view_latest (cw_clash w))))"
    "cw_verge v = (fst (cw_verge w), Some (staged_verge (plat (ce_core env)) s (view_latest (cw_verge w))))"
    "cw_session v = clear_session_fallback" "cw_profiles v = cw_profiles w"
    by (simp_all add: same_settings_def staged_world_fields)
  from assms(3) v c(3) have l:
    "cw_clash v' = (staged_clash (plat (ce_core env)) s (view_latest (cw_clash w)), None)"
    "cw_verge v' = (staged_verge (plat (ce_core env)) s (view_latest (cw_verge w)), None)"
    "cw_runtime v' = (rt, None)" "cw_session v' = clear_session_fallback" "cw_run_file v' = Some yaml"
    "sources_saved env (fst (cw_clash v')) (fst (cw_verge v')) v'"
    by (simp_all add: landed_def cells_of_def)
  from c(1,2,4) l v have "built_from env (view_latest (cw_profiles w)) v'"
    unfolding built_from_def by (intro exI [of _ t] exI [of _ notice] exI [of _ rt] exI [of _ yaml]) simp
  with l show ?thesis by (simp add: ports_saved_def session_fallback_def clear_session_fallback_def)
qed

lemma save_locked_result:
  assumes "save_ports_locked env settings w = (r, w')" and free: "cw_claims w = []"
  shows "case r of Inr Saved \<Rightarrow> ports_saved env settings w w' \<and> cw_claims w' = []
    | Inr (PortConflict port t) \<Rightarrow> same_committed w w' \<and> files_in w' = files_in w
    | Inl e \<Rightarrow> same_committed w w'"
proof (cases "rt_config (fst (cw_runtime w))")
  case None
  with assms show ?thesis by (auto simp: save_ports_locked_def same_committed_def)
next
  case (Some serving)
  let ?prev = "session_fallback (cw_session w)" and ?w = "staged_world env settings w"
  obtain q v where s: "stage_candidate env serving ?w = (q, v)" by fastforce
  note r = stage_candidate_result [OF s]
  have b: "begun w v" by (rule same_settings_begun [OF r(1) staged_world_begun])
  have f: "files_in v = files_in w" using r(2) staged_world_fields(7) by simp
  have run: "save_ports_locked env settings w = (case (q, v) of
               (Inl e, w) \<Rightarrow> (Inl e, leave_staged ports_transaction ?prev w)
             | (Inr (Inl early), w) \<Rightarrow> (Inr early, leave_staged ports_transaction ?prev w)
             | (Inr (Inr staged_candidate), w) \<Rightarrow> activate_ports env ports_transaction ?prev serving staged_candidate w)"
    using Some s by (simp add: save_ports_locked_def begin_ports [OF free] try_then_def flip: staged_world_def) (simp add: Let_def)
  have out: ?thesis if "fell_back r w w'"
    using that undone_committed [OF _ _ free] by (auto simp: fell_back_def split: sum.splits save_outcome.splits)
  show ?thesis
  proof (cases "\<exists>candidate was_running yaml. q = Inr (Inr (candidate, was_running, yaml))")
    case False
    then have "w' = leave_staged ports_transaction ?prev v" "r \<noteq> Inr Saved"
      using assms(1) run r(4) by (auto split: sum.splits)
    with leave_staged_result [OF b] f have "fell_back r w w'" by (simp add: fell_back_def)
    then show ?thesis by (rule out)
  next
    case True
    then obtain candidate was_running yaml where q: "q = Inr (Inr (candidate, was_running, yaml))" by blast
    from assms(1) run q have act: "activate_ports env ports_transaction ?prev serving (candidate, was_running, yaml) v = (r, w')" by simp
    have c: "candidate_ok env v yaml" by (rule r(3) [OF q])
    from activate_result [OF act b f] show ?thesis
    proof (elim disjE conjE)
      assume "r = Inr Saved" and l: "landed env yaml v w'"
      with candidate_lands [OF r(1) c l] show ?thesis by (simp add: landed_def cells_of_def)
    qed (rule out)
  qed
qed


subsection \<open>The fallback at start-up\<close>

lemma owned_silent:
  assumes "owned_service_core_uses_port env port w = (r, w')"
  shows "silent w w'"
proof -
  obtain status w1 where 1: "on_core (current_status (ce_core env)) w = (status, w1)" by fastforce
  have s1: "silent w w1" by (rule told_silent [OF on_core_told [OF 1]])
  from assms 1 have "w' = w1 \<or> w' = ctick env w1 \<or> w' = ctick env (ctick env w1)"
    by (auto simp: owned_service_core_uses_port_def Let_def split: if_splits sum.splits option.splits prod.splits)
  with s1 silent_trans [OF s1 ctick_silent] silent_trans [OF silent_trans [OF s1 ctick_silent] ctick_silent] show ?thesis by blast
qed

lemma written_again:
  assumes "candidate_ok env w yaml" and "generate_run_file env w = (Inr path, w')"
  shows "cw_run_file w' = Some yaml"
proof -
  from assms(1) obtain rt committed_rt where c: "cw_runtime w = (committed_rt, Some rt)"
    "runtime_config_yaml (ce_print env) (rt, None) = Inr yaml" "\<exists>ge fb m s ps n. fst (build_runtime ge fb m s ps n) = Inr rt"
    unfolding candidate_ok_def by blast
  moreover from this have "rt_config rt \<noteq> None" using built_config by (metis prod.collapse)
  ultimately have "runtime_yaml env w = (Inr yaml, ctick env w)" by (simp add: runtime_yaml_def yaml_of_draft)
  with assms(2) have "write_runtime_file env yaml (ctick env w) = (Inr path, w')" by (simp add: generate_run_file_def try_then_def)
  from write_run_quiet(3) [OF this refl] show ?thesis .
qed

lemma run_file_others: "generate_run_file env w = (r, w') \<Longrightarrow> g \<noteq> RunFile \<Longrightarrow> file_of g w' = file_of g w"
  by (auto simp: generate_run_file_def try_then_def split: prod.splits sum.splits
      dest!: yaml_silent write_run_quiet(2) dest: silent_file_of)

text \<open>The clash and settings files are as before.\<close>

definition sources_untouched :: "config_world \<Rightarrow> config_world \<Rightarrow> bool" where
  "sources_untouched w w' \<longleftrightarrow> cw_clash_file w' = cw_clash_file w \<and> cw_verge_file w' = cw_verge_file w"

lemma silent_untouched: "silent w w' \<Longrightarrow> sources_untouched w w'"
  by (simp add: sources_untouched_def silent_files)

lemma untouched_trans: "sources_untouched a b \<Longrightarrow> sources_untouched b c \<Longrightarrow> sources_untouched a c"
  by (simp add: sources_untouched_def)

lemma stage_fallback_result:
  assumes "stage_fallback_runtime env w = (r, w')"
  shows "same_settings w w'" and "sources_untouched w w'"
    and "r = Inr () \<Longrightarrow> \<exists>yaml. candidate_ok env w' yaml \<and> cw_run_file w' = Some yaml"
proof -
  obtain g w1 where 1: "generate env w = (g, w1)" by fastforce
  note s1 = generate_settings [OF 1]
  have k: "silent w1 v \<Longrightarrow> same_settings w v \<and> sources_untouched w v" for v
    using s1 same_settings_quiet silent_quiet by (auto simp: silent_def files_in_def sources_untouched_def)
  obtain q w2 where 2: "runtime_yaml env w1 = (q, w2)" by fastforce
  note s2 = yaml_silent [OF 2]
  have "same_settings w w' \<and> sources_untouched w w' \<and> (r = Inr () \<longrightarrow> (\<exists>yaml. candidate_ok env w' yaml \<and> cw_run_file w' = Some yaml))"
  proof (cases "is_ok g \<and> is_ok q")
    case False
    with assms 1 2 k [OF silent_refl] k [OF s2] show ?thesis
      by (cases g; cases q) (auto simp: stage_fallback_runtime_def with_context_def try_then_def)
  next
    case True
    then obtain u yaml where g: "g = Inr u" and q: "q = Inr yaml" by (cases g; cases q) auto
    obtain q3 w3 where 3: "validate_yaml env yaml w2 = (q3, w3)" by fastforce
    note s3 = silent_trans [OF s2 validate_silent [OF 3]]
    show ?thesis
    proof (cases "\<exists>validation. q3 = Inr validation \<and> is_valid_outcome validation")
      case False
      with assms 1 2 g q 3 k [OF s3] show ?thesis
        by (cases q3) (auto simp: stage_fallback_runtime_def with_context_def try_then_def)
    next
      case True
      then obtain validation where q3: "q3 = Inr validation" "is_valid_outcome validation" by blast
      obtain q4 w4 where 4: "generate_run_file env w3 = (q4, w4)" by fastforce
      have c3: "candidate_ok env w3 yaml"
        by (rule generate_candidate [OF 1 [unfolded g] silent_refl 2 [unfolded q] 3 [unfolded q3(1)] q3(2)])
      note s4 = run_file_quiet [OF 4]
      have w': "w' = w4" "r = Inr () \<longrightarrow> is_ok q4"
        using assms 1 2 g q 3 q3 4 by (cases q4; auto simp: stage_fallback_runtime_def with_context_def try_then_def)+
      have "same_settings w w4" using k [OF s3] same_settings_quiet [OF _ s4] by blast
      moreover have "sources_untouched w w4"
        using k [OF s3] run_file_others [OF 4, of ClashFile] run_file_others [OF 4, of VergeFile]
        by (auto simp: sources_untouched_def file_of_def)
      moreover have "candidate_ok env w4 yaml" by (rule candidate_ok_quiet [OF c3 s4])
      moreover have "r = Inr () \<longrightarrow> cw_run_file w4 = Some yaml"
        using w'(2) 4 written_again [OF c3] by (cases q4) auto
      ultimately show ?thesis using w'(1) by blast
    qed
  qed
  then show "same_settings w w'" and "sources_untouched w w'"
    and "r = Inr () \<Longrightarrow> \<exists>yaml. candidate_ok env w' yaml \<and> cw_run_file w' = Some yaml" by blast+
qed

text \<open>The settings and their files, which the fallback at start-up must not touch.\<close>

definition settings_kept :: "config_world \<Rightarrow> config_world \<Rightarrow> bool" where
  "settings_kept w w' \<longleftrightarrow> cw_clash w' = cw_clash w \<and> cw_verge w' = cw_verge w \<and> cw_profiles w' = cw_profiles w
     \<and> cw_profiles_file w' = cw_profiles_file w \<and> cw_claims w' = cw_claims w \<and> sources_untouched w w'"

lemma settings_kept_trans: "settings_kept a b \<Longrightarrow> settings_kept b c \<Longrightarrow> settings_kept a c"
  by (simp add: settings_kept_def sources_untouched_def)

lemma silent_kept: "silent w w' \<Longrightarrow> settings_kept w w'"
  by (simp add: settings_kept_def quiet_fields [OF silent_quiet] silent_untouched)

lemma fallback_result:
  assumes "apply_startup_mixed_port_fallback env old_port new_port w = (r, w')" and free: "RuntimeLayer \<notin> set (cw_claims w)"
  shows "settings_kept w w' \<and> (if r = Inr () then cw_session w' = new_port \<and> built_from env (view_latest (cw_profiles w)) w'
     else cw_session w' = cw_session w \<and> fst (cw_runtime w') = fst (cw_runtime w))"
proof -
  let ?w = "w\<lparr>cw_claims := RuntimeLayer # cw_claims w, cw_session := set_session_fallback new_port\<rparr>"
  obtain q v where s: "stage_fallback_runtime env ?w = (q, v)" by fastforce
  note r = stage_fallback_result [OF s]
  have v: "cw_clash v = cw_clash w" "cw_verge v = cw_verge w" "cw_profiles v = cw_profiles w" "cw_session v = new_port"
    "cw_profiles_file v = cw_profiles_file w" "removeAll RuntimeLayer (cw_claims v) = cw_claims w" "sources_untouched w v"
    "fst (cw_runtime v) = fst (cw_runtime w)"
    using r(1,2) free by (cases "cw_runtime v"; cases "cw_runtime w";
      auto simp: same_settings_def sources_untouched_def set_session_fallback_def)+
  show ?thesis
  proof (cases q)
    case (Inl e)
    with assms s have "r = Inl e" "w' = transaction_drop runtime_transaction (restore_borrowed_port (session_fallback (cw_session w)) v)"
      by (simp_all add: apply_startup_mixed_port_fallback_def begin_runtime try_then_def)
    with v show ?thesis
      by (cases "cw_runtime v") (simp add: settings_kept_def drop_runtime restore_borrowed_port_def sources_untouched_def
          session_fallback_def set_session_fallback_def clear_session_fallback_def)
  next
    case (Inr u)
    with assms s have w': "r = Inr ()"
      "w' = (transaction_commit runtime_transaction v)\<lparr>cw_fallback_notice := record_fallback old_port new_port (cw_fallback_notice v)\<rparr>"
      by (simp_all add: apply_startup_mixed_port_fallback_def begin_runtime try_then_def commit_runtime)
    from r(3) Inr obtain yaml where c: "candidate_ok env v yaml" "cw_run_file v = Some yaml" by auto
    then obtain t notice rt committed_rt where b: "accepted env yaml"
      "fst (build_runtime (ce_generate env t) (session_fallback (cw_session v)) (view_latest (cw_clash v))
          (view_latest (cw_verge v)) (view_latest (cw_profiles v)) notice) = Inr rt"
      "cw_runtime v = (committed_rt, Some rt)" "runtime_config_yaml (ce_print env) (rt, None) = Inr yaml"
      by (auto simp: candidate_ok_def)
    have "built_from env (view_latest (cw_profiles w)) w'"
      using b c(2) v(3) unfolding built_from_def
      by (intro exI [of _ t] exI [of _ notice] exI [of _ rt] exI [of _ yaml]) (simp add: w'(2) commit_runtime)
    with w' v show ?thesis by (simp add: settings_kept_def commit_runtime sources_untouched_def)
  qed
qed

text \<open>A port the session may move to.\<close>

definition eligible_port :: "config_env \<Rightarrow> config_world \<Rightarrow> u16 \<Rightarrow> bool" where
  "eligible_port env w q \<longleftrightarrow> q \<noteq> startup_port w \<and> 1025 \<le> unat q
     \<and> q \<notin> configured_listener_ports (plat (ce_core env)) (view_latest (cw_clash w)) (view_latest (cw_verge w))
     \<and> (\<exists>t s addresses. proxy_bind_addresses (view_latest (cw_clash w)) = Inr addresses
          \<and> fst (mixed_port_is_available (ce_probe env t) addresses q s))"

text \<open>
  The start-up fallback never touches the settings, their drafts or their files.  When it moves the session,
  the new port differs from the one that was taken, is spoken for by no other listener and was found free, and
  the committed runtime configuration is built with it, accepted and written; otherwise the session's port and
  the committed runtime configuration are as before.
\<close>

theorem startup_fallback_moves_session_only:
  assumes "resolve_startup_mixed_port env w = (r, w')" and "RuntimeLayer \<notin> set (cw_claims w)"
  shows "settings_kept w w'
    \<and> (if r = Inr True then eligible_port env w (cw_session w') \<and> built_from env (view_latest (cw_profiles w)) w'
       else cw_session w' = cw_session w \<and> fst (cw_runtime w') = fst (cw_runtime w))"
proof -
  have keep: ?thesis if "silent w w'" "r \<noteq> Inr True"
    using that silent_kept quiet_fields(3,7) [OF silent_quiet [OF that(1)]] by simp
  let ?clash = "view_latest (cw_clash w)" and ?s = "view_latest (cw_verge w)"
  show ?thesis
  proof (cases "proxy_bind_addresses ?clash")
    case (Inl e)
    with assms(1) keep [of] show ?thesis by (auto simp: resolve_startup_mixed_port_def Let_def)
  next
    case a: (Inr addresses)
    obtain owned w1 where 1: "owned_service_core_uses_port env (startup_port w) w = (owned, w1)" by fastforce
    note s1 = owned_silent [OF 1]
    note s2 = silent_trans [OF s1 ctick_silent [of w1 env]]
    obtain outcome t where p: "probe_mixed_port (ce_probe env (cw_tick w1)) addresses (startup_port w) 0 = (outcome, t)" by fastforce
    let ?found = "fst (find_next_available_port (startup_port w) (configured_listener_ports (plat (ce_core env)) ?clash ?s)
        (mixed_port_is_available (ce_probe env (cw_tick w1)) addresses) t)"
    have run: "(r, w') = (if owned then (Inr False, w1) else case outcome of
          Conflict _ _ \<Rightarrow> (case ?found of None \<Rightarrow> (Inl (bail ''no eligible mixed proxy port is available''), ctick env w1)
            | Some candidate \<Rightarrow> try_then (apply_startup_mixed_port_fallback env (startup_port w) candidate (ctick env w1)) (\<lambda>_ w. (Inr True, w)))
        | _ \<Rightarrow> (Inr False, ctick env w1))"
      using assms(1) a 1 p by (cases owned) (simp_all add: resolve_startup_mixed_port_def Let_def)
    show ?thesis
    proof (cases "\<not> owned \<and> (\<exists>port tr. outcome = Conflict port tr) \<and> ?found \<noteq> None")
      case False
      with run s1 s2 have "silent w w' \<and> r \<noteq> Inr True"
        by (auto split: if_splits probe_outcome.splits option.splits)
      then show ?thesis using keep by blast
    next
      case True
      then obtain q where q: "?found = Some q" by blast
      obtain x v where f: "apply_startup_mixed_port_fallback env (startup_port w) q (ctick env w1) = (x, v)" by fastforce
      have w': "w' = v" "r = Inr True \<longleftrightarrow> x = Inr ()"
        using run True q f by (cases x; auto simp: try_then_def)+
      have free: "RuntimeLayer \<notin> set (cw_claims (ctick env w1))" using assms(2) quiet_fields(6) [OF silent_quiet [OF s2]] by simp
      note k = fallback_result [OF f free]
      have kept: "settings_kept w v" using settings_kept_trans [OF silent_kept [OF s2]] k by blast
      have e: "eligible_port env w q"
      proof -
        note el = found_port_facts [OF q]
        from el obtain s where "fst (mixed_port_is_available (ce_probe env (cw_tick w1)) addresses q s)" by blast
        with el a show ?thesis unfolding eligible_port_def by blast
      qed
      from k kept e w' quiet_fields(3,4,7) [OF silent_quiet [OF s2]] show ?thesis by (auto split: if_splits)
    qed
  qed
qed

subsection \<open>Concrete runs\<close>

definition demo_settings :: proxy_port_settings where
  "demo_settings = \<lparr>set_mixed_port = 7890, set_socks = \<lparr>port_enabled = True, port_number = 7891\<rparr>,
     set_http = \<lparr>port_enabled = False, port_number = 7892\<rparr>, set_redir = \<lparr>port_enabled = False, port_number = 7893\<rparr>,
     set_tproxy = \<lparr>port_enabled = False, port_number = 7894\<rparr>\<rparr>"


theorem startup_fallback_moves_session_only_witness:
  "case resolve_startup_mixed_port demo_config_env demo_config_world of
     (r, w') \<Rightarrow> (if r = Inr True then 1025 \<le> unat (cw_session w') else cw_session w' = 0) \<and> cw_claims w' = []"
proof -
  obtain r w' where s: "resolve_startup_mixed_port demo_config_env demo_config_world = (r, w')" by fastforce
  have "cw_session demo_config_world = 0" by (simp add: demo_config_world_def)
  then show ?thesis
    using startup_fallback_moves_session_only [OF s] s by (auto simp: settings_kept_def eligible_port_def)
qed

end
