(* ===== verification/Timer.thy ===== *)
theory Timer
  imports Profiles
begin

section \<open>Updating profiles on a timer: \<open>core/timer.rs\<close>\<close>

text \<open>
  Every profile with an update interval has an entry in a delay queue; a scheduler task takes commands from a
  channel and expired entries from the queue, and starts updates that report back through the channel.  The
  delay queue of \<open>tokio_util\<close> is a record of operations, constrained by \<open>delay_queue_laws\<close>; durations are whole
  seconds.  The order in which a hash map is iterated is that of an association list.
\<close>

subsection \<open>When a task is due\<close>

text \<open>\<open>i64::saturating_sub\<close> and \<open>u64::saturating_mul\<close>.\<close>

definition signed_saturating_sub :: "u64 \<Rightarrow> u64 \<Rightarrow> u64" where
  "signed_saturating_sub a b = word_of_int (max (- (2 ^ 63)) (min (2 ^ 63 - 1) (sint a - sint b)))"

definition saturating_mul :: "u64 \<Rightarrow> u64 \<Rightarrow> u64" where
  "saturating_mul a b = word_of_nat (min (2 ^ 64 - 1) (unat a * unat b))"

definition interval_duration :: "u64 \<Rightarrow> u64" where
  "interval_duration interval_minutes = saturating_mul interval_minutes 60"

record task_schedule =
  sch_interval :: u64
  sch_delay :: u64

definition task_schedule_new :: "u64 \<Rightarrow> u64 option \<Rightarrow> u64 \<Rightarrow> task_schedule" where
  "task_schedule_new interval_minutes updated now =
     (let full = interval_duration interval_minutes;
          elapsed = (case updated of
              Some u \<Rightarrow> if u > 0 then (let d = signed_saturating_sub now u in if sint d > 0 then d else 0) else 0
            | None \<Rightarrow> 0)
      in \<lparr>sch_interval = interval_minutes, sch_delay = saturating_sub full elapsed\<rparr>)"

subsection \<open>The tasks\<close>

record 'k task_state =
  task_key :: "'k option"
  task_interval :: u64
  task_running :: bool
  task_retired :: bool

definition task_state_new :: "'k \<Rightarrow> u64 \<Rightarrow> 'k task_state" where
  "task_state_new key interval_minutes =
     \<lparr>task_key = Some key, task_interval = interval_minutes, task_running = False, task_retired = False\<rparr>"

record ('q, 'k) delay_queue_ops =
  dq_insert :: "string \<Rightarrow> u64 \<Rightarrow> 'q \<Rightarrow> 'k \<times> 'q"
  dq_remove :: "'k \<Rightarrow> 'q \<Rightarrow> 'q"
  dq_reset :: "'k \<Rightarrow> u64 \<Rightarrow> 'q \<Rightarrow> 'q"

type_synonym 'k tasks = "(string \<times> 'k task_state) list"

definition put_task :: "string \<Rightarrow> 'k task_state \<Rightarrow> 'k tasks \<Rightarrow> 'k tasks" where
  "put_task uid s ts = AList.update uid s ts"

definition insert_task :: "('q, 'k) delay_queue_ops \<Rightarrow> string \<Rightarrow> task_schedule \<Rightarrow> 'q \<times> 'k tasks \<Rightarrow> 'q \<times> 'k tasks" where
  "insert_task ops uid schedule qt =
     (let (key, q) = dq_insert ops uid (sch_delay schedule) (fst qt)
      in (q, put_task uid (task_state_new key (sch_interval schedule)) (snd qt)))"

definition update_task_interval :: "('q, 'k) delay_queue_ops \<Rightarrow> string \<Rightarrow> 'k task_state \<Rightarrow> task_schedule \<Rightarrow> 'q
    \<Rightarrow> 'k task_state \<times> 'q" where
  "update_task_interval ops uid state schedule q =
     (let state = state\<lparr>task_interval := sch_interval schedule\<rparr>
      in case task_key state of
           Some key \<Rightarrow> (state, dq_reset ops key (sch_delay schedule) q)
         | None \<Rightarrow>
             if \<not> task_running state then
               let (key, q) = dq_insert ops uid (sch_delay schedule) q in (state\<lparr>task_key := Some key\<rparr>, q)
             else (state, q))"

text \<open>\<open>tasks.retain\<close>: a task whose update is in flight stays until the update reports back.\<close>

fun retain_tasks :: "('q, 'k) delay_queue_ops \<Rightarrow> string set \<Rightarrow> 'q \<Rightarrow> 'k tasks \<Rightarrow> 'q \<times> 'k tasks" where
  "retain_tasks ops wanted q [] = (q, [])"
| "retain_tasks ops wanted q ((uid, state) # ts) =
     (if uid \<in> wanted then (let (q, ts) = retain_tasks ops wanted q ts in (q, (uid, state) # ts))
      else let q = (case task_key state of Some key \<Rightarrow> dq_remove ops key q | None \<Rightarrow> q);
               state = state\<lparr>task_key := None\<rparr>
           in if task_running state
              then (let (q, ts) = retain_tasks ops wanted q ts in (q, (uid, state\<lparr>task_retired := True\<rparr>) # ts))
              else retain_tasks ops wanted q ts)"

definition schedule_one :: "('q, 'k) delay_queue_ops \<Rightarrow> string \<times> task_schedule \<Rightarrow> 'q \<times> 'k tasks \<Rightarrow> 'q \<times> 'k tasks" where
  "schedule_one ops e qt =
     (case e of (uid, schedule) \<Rightarrow>
     (case map_of (snd qt) uid of
        None \<Rightarrow> insert_task ops uid schedule qt
      | Some state \<Rightarrow>
          (let state = state\<lparr>task_retired := False\<rparr>
           in if task_interval state = sch_interval schedule then (fst qt, put_task uid state (snd qt))
              else let (state, q) = update_task_interval ops uid state schedule (fst qt)
                   in (q, put_task uid state (snd qt)))))"

definition apply_timer_map :: "('q, 'k) delay_queue_ops \<Rightarrow> (string \<times> task_schedule) list \<Rightarrow> 'q \<times> 'k tasks \<Rightarrow> 'q \<times> 'k tasks" where
  "apply_timer_map ops new_map qt =
     fold (schedule_one ops) new_map (retain_tasks ops (fst ` set new_map) (fst qt) (snd qt))"

definition mark_task_running :: "'k task_state \<Rightarrow> bool \<times> 'k task_state" where
  "mark_task_running state = (if \<not> task_running state then (True, state\<lparr>task_running := True\<rparr>) else (False, state))"

text \<open>\<open>True\<close> says that an update is started.\<close>

definition run_expired_task :: "string \<Rightarrow> 'k tasks \<Rightarrow> bool \<times> 'k tasks" where
  "run_expired_task uid ts =
     (case map_of ts uid of
        None \<Rightarrow> (False, ts)
      | Some state \<Rightarrow>
          (let (started, state) = mark_task_running (state\<lparr>task_key := None\<rparr>) in (started, put_task uid state ts)))"

definition run_task_now :: "('q, 'k) delay_queue_ops \<Rightarrow> string \<Rightarrow> 'q \<times> 'k tasks \<Rightarrow> bool \<times> 'q \<times> 'k tasks" where
  "run_task_now ops uid qt =
     (case map_of (snd qt) uid of
        None \<Rightarrow> (False, qt)
      | Some state \<Rightarrow>
          (let (started, state) = mark_task_running state
           in if \<not> started then (False, fst qt, put_task uid state (snd qt))
              else (True, (case task_key state of Some key \<Rightarrow> dq_remove ops key (fst qt) | None \<Rightarrow> fst qt),
                    put_task uid (state\<lparr>task_key := None\<rparr>) (snd qt))))"

definition finish_task :: "('q, 'k) delay_queue_ops \<Rightarrow> string \<Rightarrow> 'q \<times> 'k tasks \<Rightarrow> 'q \<times> 'k tasks" where
  "finish_task ops uid qt =
     (case map_of (snd qt) uid of
        None \<Rightarrow> qt
      | Some state \<Rightarrow>
          if task_retired state then (fst qt, AList.delete uid (snd qt))
          else let (key, q) = dq_insert ops uid (interval_duration (task_interval state)) (fst qt)
               in (q, put_task uid (state\<lparr>task_running := False, task_key := Some key\<rparr>) (snd qt)))"

subsection \<open>From the profiles to the schedule\<close>

definition schedule_of_item :: "u64 \<Rightarrow> prf_item \<Rightarrow> (string \<times> task_schedule) option" where
  "schedule_of_item now item =
     (case (prf_option item, prf_uid item) of
        (Some opt, Some uid) \<Rightarrow>
          (case update_interval opt of
             Some interval \<Rightarrow>
               if unwrap_or True (allow_auto_update opt) \<and> interval > 0
               then Some (uid, task_schedule_new interval (prf_updated item) now) else None
           | None \<Rightarrow> None)
      | _ \<Rightarrow> None)"

definition gen_map_from_items :: "u64 \<Rightarrow> prf_item list \<Rightarrow> (string \<times> task_schedule) list" where
  "gen_map_from_items now profile_items =
     fold (\<lambda>item m. case schedule_of_item now item of Some (uid, s) \<Rightarrow> AList.update uid s m | None \<Rightarrow> m) profile_items []"

definition gen_map :: "u64 \<Rightarrow> iprofiles \<Rightarrow> (string \<times> task_schedule) list" where
  "gen_map now profiles = (case items profiles of Some is \<Rightarrow> gen_map_from_items now is | None \<Rightarrow> [])"

subsection \<open>The scheduler and its channel\<close>

datatype timer_command = Apply "(string \<times> task_schedule) list" | RunNow string | TaskFinished string

datatype update_event = UpdateStarted string | UpdateCompleted string

text \<open>
  \<open>tm_updates\<close> holds the updates in flight, with whether they have told the interface that they started.
\<close>

record ('q, 'k) timer =
  tm_queue :: 'q
  tm_tasks :: "'k tasks"
  tm_commands :: "timer_command list"
  tm_cache :: "string \<rightharpoonup> u64"
  tm_initialized :: bool
  tm_listening :: bool
  tm_updates :: "(string \<times> bool) list"
  tm_events :: "update_event list"

definition timer_new :: "'q \<Rightarrow> ('q, 'k) timer" where
  "timer_new fresh_queue = \<lparr>tm_queue = fresh_queue, tm_tasks = [], tm_commands = [], tm_cache = (\<lambda>_. None),
     tm_initialized = False, tm_listening = False, tm_updates = [], tm_events = []\<rparr>"

definition send_command :: "timer_command \<Rightarrow> ('q, 'k) timer \<Rightarrow> ('q, 'k) timer" where
  "send_command c t = t\<lparr>tm_commands := tm_commands t @ [c]\<rparr>"

definition refresh :: "u64 \<Rightarrow> iprofiles \<Rightarrow> ('q, 'k) timer \<Rightarrow> ('q, 'k) timer" where
  "refresh now profiles t =
     (let new_schedule = gen_map now profiles; new_map = map_of (map (\<lambda>(uid, s). (uid, sch_interval s)) new_schedule)
      in if tm_cache t = new_map then t else send_command (Apply new_schedule) (t\<lparr>tm_cache := new_map\<rparr>))"

text \<open>A profile whose update is overdue at start; the products are those of \<open>i64\<close>.\<close>

definition overdue_uid :: "u64 \<Rightarrow> prf_item \<Rightarrow> string option" where
  "overdue_uid now item =
     (case (prf_option item, prf_uid item, prf_updated item) of
        (Some opt, Some uid, Some updated) \<Rightarrow>
          (case update_interval opt of
             Some interval \<Rightarrow>
               if unwrap_or True (allow_auto_update opt) \<and> interval > 0 \<and> sint (interval * 60) \<le> sint (now - updated)
               then Some uid else None
           | None \<Rightarrow> None)
      | _ \<Rightarrow> None)"

definition timer_init :: "u64 \<Rightarrow> u64 \<Rightarrow> iprofiles \<Rightarrow> iprofiles \<Rightarrow> ('q, 'k) timer \<Rightarrow> ('q, 'k) timer" where
  "timer_init now later profiles profiles_later t =
     (if tm_initialized t then t
      else let t = refresh now profiles (t\<lparr>tm_initialized := True, tm_listening := True\<rparr>)
           in fold (\<lambda>uid. send_command (RunNow uid))
                (List.map_filter (overdue_uid later) (unwrap_or [] (items profiles_later))) t)"

definition spawn_update_task :: "bool \<Rightarrow> string \<Rightarrow> ('q, 'k) timer \<Rightarrow> ('q, 'k) timer" where
  "spawn_update_task started uid t = (if started then t\<lparr>tm_updates := tm_updates t @ [(uid, False)]\<rparr> else t)"

text \<open>One round of the scheduler: an expired entry, taken out of the queue, or the first command.\<close>

definition take_expired :: "string \<Rightarrow> 'q \<Rightarrow> ('q, 'k) timer \<Rightarrow> ('q, 'k) timer" where
  "take_expired uid q t =
     (let (started, ts) = run_expired_task uid (tm_tasks t) in spawn_update_task started uid (t\<lparr>tm_queue := q, tm_tasks := ts\<rparr>))"

definition take_command :: "('q, 'k) delay_queue_ops \<Rightarrow> ('q, 'k) timer \<Rightarrow> ('q, 'k) timer" where
  "take_command ops t =
     (case tm_commands t of
        [] \<Rightarrow> t
      | c # cs \<Rightarrow>
          (let t = t\<lparr>tm_commands := cs\<rparr>; qt = (tm_queue t, tm_tasks t)
           in case c of
                Apply new_map \<Rightarrow> (let (q, ts) = apply_timer_map ops new_map qt in t\<lparr>tm_queue := q, tm_tasks := ts\<rparr>)
              | RunNow uid \<Rightarrow>
                  (let (started, q, ts) = run_task_now ops uid qt
                   in spawn_update_task started uid (t\<lparr>tm_queue := q, tm_tasks := ts\<rparr>))
              | TaskFinished uid \<Rightarrow> (let (q, ts) = finish_task ops uid qt in t\<lparr>tm_queue := q, tm_tasks := ts\<rparr>)))"

text \<open>An update in flight tells the interface that it starts, and later that it is over.\<close>

definition emit_update_event :: "string \<Rightarrow> bool \<Rightarrow> ('q, 'k) timer \<Rightarrow> ('q, 'k) timer" where
  "emit_update_event uid is_start t =
     t\<lparr>tm_events := tm_events t @ [if is_start then UpdateStarted uid else UpdateCompleted uid]\<rparr>"

definition begin_update :: "string \<Rightarrow> ('q, 'k) timer \<Rightarrow> ('q, 'k) timer" where
  "begin_update uid t = emit_update_event uid True (t\<lparr>tm_updates := remove1 (uid, False) (tm_updates t) @ [(uid, True)]\<rparr>)"

definition end_update_task :: "string \<Rightarrow> ('q, 'k) timer \<Rightarrow> ('q, 'k) timer" where
  "end_update_task uid t =
     send_command (TaskFinished uid) (emit_update_event uid False (t\<lparr>tm_updates := remove1 (uid, True) (tm_updates t)\<rparr>))"

subsection \<open>What the interface shows\<close>

text \<open>The product and sum of \<open>i64\<close> wrap.\<close>

definition get_next_update_time :: "string \<Rightarrow> iprofiles \<Rightarrow> ('q, 'k) timer \<Rightarrow> u64 option" where
  "get_next_update_time uid profiles t =
     (case (tm_cache t uid, items profiles) of
        (Some interval, Some is) \<Rightarrow>
          (case find (\<lambda>item. prf_uid item = Some uid) is of
             Some profile \<Rightarrow>
               (let updated = unwrap_or 0 (prf_updated profile)
                in if sint updated > 0 then Some (updated + interval * 60) else None)
           | None \<Rightarrow> None)
      | _ \<Rightarrow> None)"

end
