(* ===== verification/TimerProps.thy ===== *)
theory TimerProps
  imports Timer "HOL-Library.Multiset"
begin

section \<open>What the timer guarantees\<close>

text \<open>
  The invariant of the scheduler over all interleavings of its commands, expiries and updates, and when a
  task is due.  The delay queue is abstracted to the entries it holds.
\<close>

subsection \<open>The delay queue\<close>

text \<open>
  What \<open>DelayQueue\<close> documents: an insertion returns a key that is not in use, removing or resetting needs a key
  that is in the queue (it panics otherwise), and an expired entry leaves the queue.
\<close>

definition delay_queue_laws :: "('q, 'k) delay_queue_ops \<Rightarrow> ('q \<Rightarrow> 'k \<rightharpoonup> string) \<Rightarrow> bool" where
  "delay_queue_laws ops entries \<longleftrightarrow>
     (\<forall>uid d q. case dq_insert ops uid d q of (k, q') \<Rightarrow> entries q k = None \<and> entries q' = (entries q)(k \<mapsto> uid))
     \<and> (\<forall>k q. entries q k \<noteq> None \<longrightarrow> entries (dq_remove ops k q) = (entries q)(k := None))
     \<and> (\<forall>k d q. entries q k \<noteq> None \<longrightarrow> entries (dq_reset ops k d q) = entries q)"

definition expires :: "('q \<Rightarrow> 'k \<rightharpoonup> string) \<Rightarrow> 'q \<Rightarrow> string \<Rightarrow> 'q \<Rightarrow> bool" where
  "expires entries q uid q' \<longleftrightarrow> (\<exists>k. entries q k = Some uid \<and> entries q' = (entries q)(k := None))"

lemma law_insert:
  assumes "delay_queue_laws ops entries" and "dq_insert ops uid d q = (k, q')"
  shows "entries q k = None" "entries q' = (entries q)(k \<mapsto> uid)"
proof -
  from assms(1) have "\<forall>uid d q. case dq_insert ops uid d q of (k, q') \<Rightarrow> entries q k = None \<and> entries q' = (entries q)(k \<mapsto> uid)"
    by (simp add: delay_queue_laws_def)
  from this [rule_format, of q uid d] assms(2) show "entries q k = None" "entries q' = (entries q)(k \<mapsto> uid)" by simp_all
qed

lemma law_remove: "delay_queue_laws ops entries \<Longrightarrow> entries q k = Some uid \<Longrightarrow> entries (dq_remove ops k q) = (entries q)(k := None)"
  by (simp add: delay_queue_laws_def)

lemma law_reset: "delay_queue_laws ops entries \<Longrightarrow> entries q k = Some uid \<Longrightarrow> entries (dq_reset ops k d q) = entries q"
  by (simp add: delay_queue_laws_def)

subsection \<open>Tasks and entries\<close>

text \<open>
  A task is either in the queue or running, never both; only a running task is retired; and every entry of the
  queue belongs to the task of its profile.
\<close>

definition task_ok :: "('k \<rightharpoonup> string) \<Rightarrow> string \<Rightarrow> 'k task_state \<Rightarrow> bool" where
  "task_ok es uid s \<longleftrightarrow> (case task_key s of
       None \<Rightarrow> task_running s
     | Some k \<Rightarrow> \<not> task_running s \<and> \<not> task_retired s \<and> es k = Some uid)"

definition tasks_ok :: "('k \<rightharpoonup> string) \<Rightarrow> 'k tasks \<Rightarrow> bool" where
  "tasks_ok es ts \<longleftrightarrow> distinct (map fst ts) \<and> (\<forall>uid s. map_of ts uid = Some s \<longrightarrow> task_ok es uid s)
     \<and> (\<forall>k uid. es k = Some uid \<longrightarrow> (\<exists>s. map_of ts uid = Some s \<and> task_key s = Some k))"

definition running_uids :: "'k tasks \<Rightarrow> string set" where
  "running_uids ts = {uid. \<exists>s. map_of ts uid = Some s \<and> task_running s}"

definition active_intervals :: "'k tasks \<Rightarrow> string \<rightharpoonup> u64" where
  "active_intervals ts uid = (case map_of ts uid of Some s \<Rightarrow> if task_retired s then None else Some (task_interval s) | None \<Rightarrow> None)"

lemma map_of_put [simp]: "map_of (put_task uid s ts) = (map_of ts)(uid \<mapsto> s)"
  by (simp add: put_task_def update_conv')

lemma distinct_put [simp]: "distinct (map fst ts) \<Longrightarrow> distinct (map fst (put_task uid s ts))"
  by (simp add: put_task_def distinct_update)

lemma active_put: "active_intervals (put_task uid s ts)
    = (active_intervals ts)(uid := if task_retired s then None else Some (task_interval s))"
  by (auto simp: active_intervals_def)

lemma running_put: "running_uids (put_task uid s ts)
    = (if task_running s then insert uid (running_uids ts) else running_uids ts - {uid})"
  by (auto simp: running_uids_def split: if_splits)

text \<open>Replacing one task and the entries of its profile.\<close>

lemma tasks_ok_put:
  assumes ok: "tasks_ok es ts" and s: "task_ok es' uid s"
    and other: "\<And>k v. v \<noteq> uid \<Longrightarrow> es' k = Some v \<longleftrightarrow> es k = Some v" and own: "\<And>k. es' k = Some uid \<Longrightarrow> task_key s = Some k"
  shows "tasks_ok es' (put_task uid s ts)"
proof -
  have "task_ok es' v s'" if "map_of ts v = Some s'" "v \<noteq> uid" for v s'
  proof -
    have "task_ok es v s'" using ok that by (simp add: tasks_ok_def)
    then show ?thesis using other [OF that(2)] by (simp add: task_ok_def split: option.splits)
  qed
  moreover have "\<exists>s'. map_of ts v = Some s' \<and> task_key s' = Some k" if "es' k = Some v" "v \<noteq> uid" for k v
    using ok other [OF that(2)] that(1) unfolding tasks_ok_def by blast
  ultimately show ?thesis using ok s own by (auto simp: tasks_ok_def)
qed

lemma tasks_ok_entry: "tasks_ok es ts \<Longrightarrow> es k = Some uid \<Longrightarrow> map_of ts uid = Some s \<Longrightarrow> task_key s = Some k"
  unfolding tasks_ok_def by (metis option.inject)

lemma tasks_okD: "tasks_ok es ts \<Longrightarrow> map_of ts uid = Some s \<Longrightarrow> task_ok es uid s"
  by (simp add: tasks_ok_def)

subsection \<open>The operations\<close>

lemma schedule_ok:
  assumes laws: "delay_queue_laws ops entries" and ok: "tasks_ok (entries q) ts"
    and absent: "case map_of ts uid of None \<Rightarrow> True | Some s \<Rightarrow> task_key s = None" and i: "dq_insert ops uid d q = (k, q')"
  shows "tasks_ok (entries q') (put_task uid (task_state_new k n) ts)"
    and "map_of ts uid = Some s \<Longrightarrow> tasks_ok (entries q') (put_task uid (s\<lparr>task_key := Some k, task_running := False, task_retired := False\<rparr>) ts)"
proof -
  note l = law_insert [OF laws i]
  have none: "entries q k' \<noteq> Some uid" for k'
  proof
    assume "entries q k' = Some uid"
    moreover from this obtain s where "map_of ts uid = Some s" using ok unfolding tasks_ok_def by blast
    ultimately show False using tasks_ok_entry [OF ok] absent by fastforce
  qed
  show "tasks_ok (entries q') (put_task uid (task_state_new k n) ts)"
    by (rule tasks_ok_put [OF ok]) (use l none in \<open>auto simp: task_ok_def task_state_new_def split: if_splits\<close>)
  show "tasks_ok (entries q') (put_task uid (s\<lparr>task_key := Some k, task_running := False, task_retired := False\<rparr>) ts)"
    by (rule tasks_ok_put [OF ok]) (use l none in \<open>auto simp: task_ok_def split: if_splits\<close>)
qed

definition good :: "('q \<Rightarrow> 'k \<rightharpoonup> string) \<Rightarrow> 'q \<times> 'k tasks \<Rightarrow> bool" where
  "good entries qt \<longleftrightarrow> tasks_ok (entries (fst qt)) (snd qt)"

lemma schedule_one_ok:
  assumes laws: "delay_queue_laws ops entries" and ok: "good entries qt" and r: "schedule_one ops (uid, sch) qt = qt'"
  shows "good entries qt'" and "running_uids (snd qt') = running_uids (snd qt)"
    and "active_intervals (snd qt') = (active_intervals (snd qt))(uid \<mapsto> sch_interval sch)"
proof -
  obtain q ts where qt: "qt = (q, ts)" by fastforce
  note ok' = ok [unfolded good_def qt fst_conv snd_conv]
  have "good entries qt' \<and> running_uids (snd qt') = running_uids (snd qt)
    \<and> active_intervals (snd qt') = (active_intervals (snd qt))(uid \<mapsto> sch_interval sch)"
  proof (cases "map_of ts uid")
    case None
    obtain k q' where i: "dq_insert ops uid (sch_delay sch) q = (k, q')" by fastforce
    with r None qt have "qt' = (q', put_task uid (task_state_new k (sch_interval sch)) ts)"
      by (simp add: schedule_one_def insert_task_def)
    moreover have "uid \<notin> running_uids ts" using None by (simp add: running_uids_def)
    ultimately show ?thesis using schedule_ok(1) [OF laws ok' _ i] None
      by (simp add: good_def running_put active_put task_state_new_def qt)
  next
    case (Some s)
    let ?s = "s\<lparr>task_retired := False\<rparr>"
    note sok = tasks_okD [OF ok' Some]
    have same: "tasks_ok (entries q) (put_task uid (?s\<lparr>task_interval := i\<rparr>) ts)" for i
      by (rule tasks_ok_put [OF ok']) (use sok tasks_ok_entry [OF ok' _ Some] in \<open>auto simp: task_ok_def split: option.splits\<close>)
    have run: "task_running s' = task_running s \<Longrightarrow> running_uids (put_task uid s' ts) = running_uids ts" for s'
      using Some by (auto simp: running_put running_uids_def)
    show ?thesis
    proof (cases "task_interval s = sch_interval sch")
      case True
      with r Some qt have "qt' = (q, put_task uid ?s ts)" by (simp add: schedule_one_def)
      moreover have eq: "?s\<lparr>task_interval := task_interval s\<rparr> = ?s" by simp
      ultimately show ?thesis using same [of "task_interval s", unfolded eq] run [of ?s] True by (simp add: good_def active_put qt)
    next
      case differ: False
      show ?thesis
      proof (cases "task_key s")
        case None
        with sok have "task_running s" by (simp add: task_ok_def)
        with r Some qt differ None have "qt' = (q, put_task uid (?s\<lparr>task_interval := sch_interval sch\<rparr>) ts)"
          by (simp add: schedule_one_def update_task_interval_def)
        with same run [of "?s\<lparr>task_interval := sch_interval sch\<rparr>"] show ?thesis by (simp add: good_def active_put qt)
      next
        case k: (Some k)
        with r Some qt differ have "qt' = (dq_reset ops k (sch_delay sch) q, put_task uid (?s\<lparr>task_interval := sch_interval sch\<rparr>) ts)"
          by (simp add: schedule_one_def update_task_interval_def)
        moreover from sok k have "entries q k = Some uid" by (simp add: task_ok_def)
        ultimately show ?thesis using same run [of "?s\<lparr>task_interval := sch_interval sch\<rparr>"] law_reset [OF laws]
          by (simp add: good_def active_put qt)
      qed
    qed
  qed
  then show "good entries qt'" and "running_uids (snd qt') = running_uids (snd qt)"
    and "active_intervals (snd qt') = (active_intervals (snd qt))(uid \<mapsto> sch_interval sch)" by blast+
qed

text \<open>What \<open>retain_tasks\<close> keeps of one task.\<close>

definition kept_task :: "string set \<Rightarrow> string \<Rightarrow> 'k task_state \<Rightarrow> 'k task_state option" where
  "kept_task wanted uid s = (if uid \<in> wanted then Some s
     else if task_running s then Some (s\<lparr>task_key := None, task_retired := True\<rparr>) else None)"

definition dropped_keys :: "string set \<Rightarrow> 'k tasks \<Rightarrow> 'k set" where
  "dropped_keys wanted ts = {k. \<exists>uid s. (uid, s) \<in> set ts \<and> uid \<notin> wanted \<and> task_key s = Some k}"

lemma retain_result:
  assumes laws: "delay_queue_laws ops entries"
  shows "retain_tasks ops wanted q ts = (q', ts') \<Longrightarrow> distinct (map fst ts) \<Longrightarrow>
     (\<And>uid s k. (uid, s) \<in> set ts \<Longrightarrow> task_key s = Some k \<Longrightarrow> entries q k = Some uid) \<Longrightarrow>
     entries q' = (\<lambda>k. if k \<in> dropped_keys wanted ts then None else entries q k)
     \<and> distinct (map fst ts') \<and> fst ` set ts' \<subseteq> fst ` set ts
     \<and> (\<forall>uid. map_of ts' uid = Option.bind (map_of ts uid) (kept_task wanted uid))"
proof (induction ts arbitrary: q q' ts')
  case Nil
  then show ?case by (simp add: dropped_keys_def)
next
  case (Cons e ts)
  obtain uid s where e: "e = (uid, s)" by fastforce
  have new: "uid \<notin> fst ` set ts" and dist: "distinct (map fst ts)" using Cons.prems(2) e by auto
  have held: "entries q k = Some v" if "(v, s') \<in> set ts" "task_key s' = Some k" for v s' k
    using Cons.prems(3) that by auto
  show ?case
  proof (cases "uid \<in> wanted")
    case True
    obtain q1 ts1 where r: "retain_tasks ops wanted q ts = (q1, ts1)" by fastforce
    with Cons.prems(1) e True have qt: "q' = q1" "ts' = (uid, s) # ts1" by simp_all
    have "dropped_keys wanted (e # ts) = dropped_keys wanted ts" using e True by (auto simp: dropped_keys_def)
    moreover have ih: "entries q1 = (\<lambda>k. if k \<in> dropped_keys wanted ts then None else entries q k) \<and> distinct (map fst ts1)
        \<and> fst ` set ts1 \<subseteq> fst ` set ts \<and> (\<forall>uid. map_of ts1 uid = Option.bind (map_of ts uid) (kept_task wanted uid))"
      by (rule Cons.IH [OF r dist]) (rule held)
    moreover have "uid \<notin> fst ` set ts1" using ih Cons.prems(2,3) e new by auto
    moreover have "kept_task wanted uid s = Some s" using True by (simp add: kept_task_def)
    ultimately show ?thesis using Cons.prems(2,3) qt e by auto
  next
    case False
    let ?q = "case task_key s of Some key \<Rightarrow> dq_remove ops key q | None \<Rightarrow> q"
    have q: "entries ?q = (\<lambda>k. if task_key s = Some k then None else entries q k)"
      using law_remove [OF laws] Cons.prems(3) [of uid s] e by (auto split: option.split)
    have keys: "entries ?q k = Some v" if "(v, s') \<in> set ts" "task_key s' = Some k" for v s' k
    proof -
      have k: "entries q k = Some v" using Cons.prems(3) that by auto
      have "v \<noteq> uid" using new that(1) by force
      then have "task_key s \<noteq> Some k" using Cons.prems(3) [of uid s k] e k by auto
      with q k show ?thesis by simp
    qed
    have d: "dropped_keys wanted (e # ts) = (case task_key s of Some k \<Rightarrow> {k} | None \<Rightarrow> {}) \<union> dropped_keys wanted ts"
      using e False by (auto simp: dropped_keys_def split: option.split)
    obtain q1 ts1 where r: "retain_tasks ops wanted ?q ts = (q1, ts1)" by fastforce
    from Cons.prems(1) e False r have qt: "q' = q1"
      "ts' = (if task_running s then (uid, s\<lparr>task_key := None, task_retired := True\<rparr>) # ts1 else ts1)"
      by (auto simp: Let_def split: if_splits)
    have ih: "entries q1 = (\<lambda>k. if k \<in> dropped_keys wanted ts then None else entries ?q k) \<and> distinct (map fst ts1)
        \<and> fst ` set ts1 \<subseteq> fst ` set ts \<and> (\<forall>uid. map_of ts1 uid = Option.bind (map_of ts uid) (kept_task wanted uid))"
      by (rule Cons.IH [OF r dist]) (rule keys)
    have new1: "uid \<notin> fst ` set ts1"
      using ih Cons.prems(2) e new by auto
    have "map_of ts uid = None" using new by (simp add: map_of_eq_None_iff)
    moreover have "kept_task wanted uid s = (if task_running s then Some (s\<lparr>task_key := None, task_retired := True\<rparr>) else None)"
      using False by (simp add: kept_task_def)
    moreover have "map_of ts1 uid = None" using new1 by (simp add: map_of_eq_None_iff)
    ultimately show ?thesis using ih Cons.prems(2) qt e new new1 q d
      by (auto simp: fun_eq_iff split: option.splits)
  qed
qed

lemma retain_ok:
  assumes laws: "delay_queue_laws ops entries" and ok: "good entries (q, ts)" and r: "retain_tasks ops wanted q ts = (q', ts')"
  shows "good entries (q', ts')" and "running_uids ts' = running_uids ts"
    and "active_intervals ts' uid = (if uid \<in> wanted then active_intervals ts uid else None)"
proof -
  from ok have t: "tasks_ok (entries q) ts" by (simp add: good_def)
  then have dist: "distinct (map fst ts)" by (simp add: tasks_ok_def)
  have keys: "entries q k = Some v" if "(v, s) \<in> set ts" "task_key s = Some k" for v s k
    using tasks_okD [OF t map_of_is_SomeI [OF dist that(1)]] that(2) by (simp add: task_ok_def)
  have res: "entries q' = (\<lambda>k. if k \<in> dropped_keys wanted ts then None else entries q k) \<and> distinct (map fst ts')
      \<and> fst ` set ts' \<subseteq> fst ` set ts \<and> (\<forall>uid. map_of ts' uid = Option.bind (map_of ts uid) (kept_task wanted uid))"
    by (rule retain_result [OF laws r dist]) (rule keys)
  then have m: "map_of ts' v = Option.bind (map_of ts v) (kept_task wanted v)" for v by blast
  have held: "k \<notin> dropped_keys wanted ts" if "entries q k = Some v" "v \<in> wanted" for k v
    using keys that by (fastforce simp: dropped_keys_def)
  show "good entries (q', ts')"
    unfolding good_def tasks_ok_def fst_conv snd_conv
  proof (intro conjI allI impI)
    show "distinct (map fst ts')" using res by blast
  next
    fix v s' assume a: "map_of ts' v = Some s'"
    then obtain s where s: "map_of ts v = Some s" "kept_task wanted v s = Some s'" using m by (auto simp: bind_eq_Some_conv)
    note tasks_okD [OF t s(1)]
    with s(2) held res show "task_ok (entries q') v s'"
      by (auto simp: kept_task_def task_ok_def split: if_splits option.splits)
  next
    fix k v assume a: "entries q' k = Some v"
    with res have k: "entries q k = Some v" "k \<notin> dropped_keys wanted ts" by (auto split: if_splits)
    then obtain s where s: "map_of ts v = Some s" "task_key s = Some k" using t unfolding tasks_ok_def by blast
    moreover have "v \<in> wanted" using k(2) map_of_SomeD [OF s(1)] s(2) by (auto simp: dropped_keys_def)
    ultimately show "\<exists>s. map_of ts' v = Some s \<and> task_key s = Some k" using m by (simp add: kept_task_def)
  qed
  show "running_uids ts' = running_uids ts"
  proof -
    have "(\<exists>s'. map_of ts' v = Some s' \<and> task_running s') \<longleftrightarrow> (\<exists>s. map_of ts v = Some s \<and> task_running s)" for v
      using m [of v] by (cases "map_of ts v") (auto simp: kept_task_def)
    then show ?thesis unfolding running_uids_def by blast
  qed
  show "active_intervals ts' uid = (if uid \<in> wanted then active_intervals ts uid else None)"
    using m [of uid] by (cases "map_of ts uid") (auto simp: active_intervals_def kept_task_def)
qed

definition intervals :: "(string \<times> task_schedule) list \<Rightarrow> string \<rightharpoonup> u64" where
  "intervals m = map_of (map (\<lambda>(uid, s). (uid, sch_interval s)) m)"

lemma intervals_None: "intervals m uid = None \<longleftrightarrow> uid \<notin> fst ` set m"
  by (induction m) (auto simp: intervals_def)

lemma schedule_all_ok:
  assumes laws: "delay_queue_laws ops entries"
  shows "good entries qt \<Longrightarrow> distinct (map fst m) \<Longrightarrow> good entries (fold (schedule_one ops) m qt)
    \<and> running_uids (snd (fold (schedule_one ops) m qt)) = running_uids (snd qt)
    \<and> active_intervals (snd (fold (schedule_one ops) m qt)) = active_intervals (snd qt) ++ intervals m"
proof (induction m arbitrary: qt)
  case Nil
  then show ?case by (simp add: intervals_def)
next
  case (Cons e m)
  obtain uid sch where e: "e = (uid, sch)" by fastforce
  note s = schedule_one_ok [OF laws Cons.prems(1), of uid sch, OF refl]
  have "intervals m uid = None" using Cons.prems(2) e by (simp add: intervals_None)
  then have "(active_intervals (snd qt))(uid \<mapsto> sch_interval sch) ++ intervals m = active_intervals (snd qt) ++ intervals (e # m)"
    by (auto simp: intervals_def e map_add_def fun_eq_iff split: option.split)
  with Cons.IH [OF s(1)] s(2,3) Cons.prems(2) e show ?case by (simp add: fun_upd_def)
qed

lemma apply_ok:
  assumes laws: "delay_queue_laws ops entries" and ok: "good entries qt" and d: "distinct (map fst m)"
  shows "good entries (apply_timer_map ops m qt)" and "running_uids (snd (apply_timer_map ops m qt)) = running_uids (snd qt)"
    and "active_intervals (snd (apply_timer_map ops m qt)) = intervals m"
proof -
  obtain q ts where qt: "qt = (q, ts)" by fastforce
  obtain q1 ts1 where r: "retain_tasks ops (fst ` set m) q ts = (q1, ts1)" by fastforce
  note k = retain_ok [OF laws ok [unfolded qt] r]
  note f = schedule_all_ok [OF laws k(1) d]
  have a: "apply_timer_map ops m qt = fold (schedule_one ops) m (q1, ts1)" using r qt by (simp add: apply_timer_map_def)
  show "good entries (apply_timer_map ops m qt)" and "running_uids (snd (apply_timer_map ops m qt)) = running_uids (snd qt)"
    using f a k(2) qt by simp_all
  have "active_intervals ts1 ++ intervals m = intervals m"
  proof
    fix uid
    show "(active_intervals ts1 ++ intervals m) uid = intervals m uid"
    proof (cases "uid \<in> fst ` set m")
      case True
      then have "intervals m uid \<noteq> None" by (simp add: intervals_None)
      then show ?thesis by (auto simp: map_add_def)
    next
      case False
      with k(3) [of uid] show ?thesis by (simp add: map_add_def split: option.split)
    qed
  qed
  with f a show "active_intervals (snd (apply_timer_map ops m qt)) = intervals m" by simp
qed

lemma expired_ok:
  assumes ok: "tasks_ok (entries q) ts" and e: "expires entries q uid q'" and r: "run_expired_task uid ts = (started, ts')"
  shows "tasks_ok (entries q') ts'" and "started" and "uid \<notin> running_uids ts" and "running_uids ts' = insert uid (running_uids ts)"
    and "active_intervals ts' = active_intervals ts"
proof -
  from e obtain k where k: "entries q k = Some uid" "entries q' = (entries q)(k := None)" by (auto simp: expires_def)
  then obtain s where s: "map_of ts uid = Some s" "task_key s = Some k" using ok unfolding tasks_ok_def by blast
  with tasks_okD [OF ok s(1)] have n: "\<not> task_running s" "\<not> task_retired s" by (simp_all add: task_ok_def)
  let ?s = "s\<lparr>task_key := None, task_running := True\<rparr>"
  have ts': "ts' = put_task uid ?s ts" and "started" using r s n by (simp_all add: run_expired_task_def mark_task_running_def)
  then show "started" by blast
  have own: "k' = k" if "entries q k' = Some uid" for k'
    using tasks_ok_entry [OF ok that s(1)] s(2) by simp
  show "tasks_ok (entries q') ts'"
    unfolding ts'
  proof (rule tasks_ok_put [OF ok])
    show "task_ok (entries q') uid ?s" by (simp add: task_ok_def)
    show "task_key ?s = Some k'" if "entries q' k' = Some uid" for k'
      using own [of k'] that k(2) by (simp split: if_splits)
  qed (simp add: k)
  show "uid \<notin> running_uids ts" and "running_uids ts' = insert uid (running_uids ts)"
    using s n by (auto simp: ts' running_put running_uids_def)
  show "active_intervals ts' = active_intervals ts" using s(1) n by (auto simp: ts' active_put active_intervals_def)
qed

lemma run_now_ok:
  assumes laws: "delay_queue_laws ops entries" and ok: "good entries qt" and r: "run_task_now ops uid qt = (started, qt')"
  shows "good entries qt'" and "started \<Longrightarrow> uid \<notin> running_uids (snd qt)"
    and "running_uids (snd qt') = (if started then insert uid (running_uids (snd qt)) else running_uids (snd qt))"
    and "active_intervals (snd qt') = active_intervals (snd qt)"
proof -
  obtain q ts where qt: "qt = (q, ts)" by fastforce
  note t = ok [unfolded good_def qt fst_conv snd_conv]
  have "good entries qt' \<and> (started \<longrightarrow> uid \<notin> running_uids (snd qt))
    \<and> running_uids (snd qt') = (if started then insert uid (running_uids (snd qt)) else running_uids (snd qt))
    \<and> active_intervals (snd qt') = active_intervals (snd qt)"
  proof (cases "map_of ts uid")
    case None
    with r qt ok show ?thesis by (simp add: run_task_now_def)
  next
    case (Some s)
    note sok = tasks_okD [OF t Some]
    show ?thesis
    proof (cases "task_running s")
      case True
      have "tasks_ok (entries q) (put_task uid s ts)"
        by (rule tasks_ok_put [OF t]) (use sok tasks_ok_entry [OF t _ Some] in auto)
      moreover from True r Some qt have "\<not> started" "qt' = (q, put_task uid s ts)"
        by (auto simp: run_task_now_def mark_task_running_def)
      ultimately show ?thesis using True Some
        by (auto simp: good_def qt running_put active_put running_uids_def active_intervals_def fun_eq_iff)
    next
      case False
      with sok obtain k where k: "task_key s = Some k" "entries q k = Some uid" "\<not> task_retired s"
        by (auto simp: task_ok_def split: option.splits)
      let ?s = "s\<lparr>task_running := True, task_key := None\<rparr>"
      from False r Some qt k have r': "started" "qt' = (dq_remove ops k q, put_task uid ?s ts)"
        by (auto simp: run_task_now_def mark_task_running_def)
      have own: "k' = k" if "entries q k' = Some uid" for k'
        using tasks_ok_entry [OF t that Some] k(1) by simp
      have "tasks_ok (entries (dq_remove ops k q)) (put_task uid ?s ts)"
        unfolding law_remove [OF laws k(2)]
      proof (rule tasks_ok_put [OF t])
        show "task_ok ((entries q)(k := None)) uid ?s" by (simp add: task_ok_def)
        show "task_key ?s = Some k'" if "((entries q)(k := None)) k' = Some uid" for k'
          using own [of k'] that by (simp split: if_splits)
      qed (simp add: k)
      with r' False Some k show ?thesis
        by (auto simp: good_def qt running_put active_put running_uids_def active_intervals_def fun_eq_iff)
    qed
  qed
  then show "good entries qt'" and "started \<Longrightarrow> uid \<notin> running_uids (snd qt)"
    and "running_uids (snd qt') = (if started then insert uid (running_uids (snd qt)) else running_uids (snd qt))"
    and "active_intervals (snd qt') = active_intervals (snd qt)" by blast+
qed

lemma finish_ok:
  assumes laws: "delay_queue_laws ops entries" and ok: "good entries qt" and r: "finish_task ops uid qt = qt'"
    and u: "uid \<in> running_uids (snd qt)"
  shows "good entries qt'" and "running_uids (snd qt') = running_uids (snd qt) - {uid}"
    and "active_intervals (snd qt') = active_intervals (snd qt)"
proof -
  obtain q ts where qt: "qt = (q, ts)" by fastforce
  note t = ok [unfolded good_def qt fst_conv snd_conv]
  from u qt obtain s where s: "map_of ts uid = Some s" "task_running s" by (auto simp: running_uids_def)
  with tasks_okD [OF t s(1)] have k: "task_key s = None" by (auto simp: task_ok_def split: option.splits)
  have "good entries qt' \<and> running_uids (snd qt') = running_uids (snd qt) - {uid}
    \<and> active_intervals (snd qt') = active_intervals (snd qt)"
  proof (cases "task_retired s")
    case True
    with r s qt have qt': "qt' = (q, AList.delete uid ts)" by (simp add: finish_task_def)
    have none: "entries q k' \<noteq> Some uid" for k' using tasks_ok_entry [OF t _ s(1)] k by fastforce
    have "tasks_ok (entries q) (AList.delete uid ts)"
      using t none unfolding tasks_ok_def by (auto simp: delete_conv' distinct_delete simp del: map_of_eq_Some_iff)
    with qt' s True qt show ?thesis
      by (auto simp: good_def running_uids_def active_intervals_def delete_conv' fun_eq_iff split: if_splits)
  next
    case False
    obtain k' q' where i: "dq_insert ops uid (interval_duration (task_interval s)) q = (k', q')" by fastforce
    have e: "s\<lparr>task_key := Some k', task_running := False, task_retired := False\<rparr> = s\<lparr>task_running := False, task_key := Some k'\<rparr>"
      using False by simp
    from r s qt False i have qt': "qt' = (q', put_task uid (s\<lparr>task_running := False, task_key := Some k'\<rparr>) ts)"
      by (simp add: finish_task_def)
    have "good entries qt'"
      using schedule_ok(2) [OF laws t _ i s(1)] s(1) k by (simp add: good_def qt' e)
    with qt' s False qt show ?thesis
      by (auto simp: running_put active_put active_intervals_def fun_eq_iff)
  qed
  then show "good entries qt'" and "running_uids (snd qt') = running_uids (snd qt) - {uid}"
    and "active_intervals (snd qt') = active_intervals (snd qt)" by blast+
qed

subsection \<open>The scheduler\<close>

text \<open>
  One step: a refresh or the initialisation by the application, an expired entry or the first command taken by
  the scheduler (a map is iterated in any order), or the progress of an update in flight.
\<close>

fun same_command :: "timer_command \<Rightarrow> timer_command \<Rightarrow> bool" where
  "same_command (Apply m) (Apply m') = (mset m' = mset m)"
| "same_command c c' = (c' = c)"

inductive timer_step :: "('q, 'k) delay_queue_ops \<Rightarrow> ('q \<Rightarrow> 'k \<rightharpoonup> string) \<Rightarrow> ('q, 'k) timer \<Rightarrow> ('q, 'k) timer \<Rightarrow> bool"
  for ops entries where
  refreshed: "timer_step ops entries t (refresh now profiles t)"
| initialised: "timer_step ops entries t (timer_init now later profiles profiles_later t)"
| expired: "tm_listening t \<Longrightarrow> expires entries (tm_queue t) uid q \<Longrightarrow> timer_step ops entries t (take_expired uid q t)"
| commanded: "tm_listening t \<Longrightarrow> tm_commands t = c # cs \<Longrightarrow> same_command c c'
    \<Longrightarrow> timer_step ops entries t (take_command ops (t\<lparr>tm_commands := c' # cs\<rparr>))"
| update_begins: "(uid, False) \<in> set (tm_updates t) \<Longrightarrow> timer_step ops entries t (begin_update uid t)"
| update_ends: "(uid, True) \<in> set (tm_updates t) \<Longrightarrow> timer_step ops entries t (end_update_task uid t)"

definition timer_reachable :: "('q, 'k) delay_queue_ops \<Rightarrow> ('q \<Rightarrow> 'k \<rightharpoonup> string) \<Rightarrow> 'q \<Rightarrow> ('q, 'k) timer \<Rightarrow> bool" where
  "timer_reachable ops entries fresh_queue t \<longleftrightarrow> rtranclp (timer_step ops entries) (timer_new fresh_queue) t"

text \<open>The profiles whose update runs: in flight, or about to report back.\<close>

fun finished_in :: "timer_command list \<Rightarrow> string list" where
  "finished_in [] = []"
| "finished_in (TaskFinished uid # cs) = uid # finished_in cs"
| "finished_in (c # cs) = finished_in cs"

definition busy :: "('q, 'k) timer \<Rightarrow> string list" where
  "busy t = map fst (tm_updates t) @ finished_in (tm_commands t)"

text \<open>The intervals in force once every pending command has been taken.\<close>

fun planned :: "timer_command list \<Rightarrow> (string \<rightharpoonup> u64) \<Rightarrow> string \<rightharpoonup> u64" where
  "planned [] m = m"
| "planned (Apply new_map # cs) m = planned cs (intervals new_map)"
| "planned (c # cs) m = planned cs m"

definition maps_distinct :: "timer_command list \<Rightarrow> bool" where
  "maps_distinct cs \<longleftrightarrow> (\<forall>m. Apply m \<in> set cs \<longrightarrow> distinct (map fst m))"

definition events_paired :: "('q, 'k) timer \<Rightarrow> bool" where
  "events_paired t \<longleftrightarrow> (\<forall>uid. count_list (tm_events t) (UpdateStarted uid)
     = count_list (tm_events t) (UpdateCompleted uid) + count_list (tm_updates t) (uid, True))"

definition timer_inv :: "('q \<Rightarrow> 'k \<rightharpoonup> string) \<Rightarrow> ('q, 'k) timer \<Rightarrow> bool" where
  "timer_inv entries t \<longleftrightarrow> tasks_ok (entries (tm_queue t)) (tm_tasks t)
     \<and> distinct (busy t) \<and> set (busy t) = running_uids (tm_tasks t)
     \<and> maps_distinct (tm_commands t) \<and> planned (tm_commands t) (active_intervals (tm_tasks t)) = tm_cache t
     \<and> events_paired t"

lemma finished_append [simp]: "finished_in (xs @ ys) = finished_in xs @ finished_in ys"
  by (induction xs rule: finished_in.induct) simp_all

lemma planned_append [simp]: "planned (xs @ ys) m = planned ys (planned xs m)"
  by (induction xs m rule: planned.induct) simp_all

lemma intervals_perm: "distinct (map fst m) \<Longrightarrow> mset m' = mset m \<Longrightarrow> distinct (map fst m') \<and> intervals m' = intervals m"
proof -
  assume d: "distinct (map fst m)" and e: "mset m' = mset m"
  then have d': "distinct (map fst m')" by (metis mset_eq_imp_distinct_iff mset_map)
  have "map_of (map (\<lambda>(uid, s). (uid, sch_interval s)) m') = map_of (map (\<lambda>(uid, s). (uid, sch_interval s)) m)"
  proof (rule map_of_eqI)
    let ?f = "\<lambda>(uid, s). (uid, sch_interval s)"
    have f: "map fst (map ?f xs) = map fst xs" for xs :: "(string \<times> task_schedule) list" by (simp add: split_beta comp_def)
    have s: "set (map ?f m') = set (map ?f m)" using arg_cong [OF e, of set_mset] by simp
    show "set (map fst (map ?f m')) = set (map fst (map ?f m))" unfolding f using arg_cong [OF e, of set_mset] by simp
    show "\<forall>k \<in> set (map fst (map ?f m')). map_of (map ?f m') k = map_of (map ?f m) k"
      using map_of_inject_set [of "map ?f m'" "map ?f m"] d d' s unfolding f by simp
  qed
  with d' show ?thesis by (simp add: intervals_def)
qed

lemma gen_map_distinct: "distinct (map fst (gen_map now profiles))"
proof -
  have "distinct (map fst (fold (\<lambda>item m. case schedule_of_item now item of Some (uid, s) \<Rightarrow> AList.update uid s m | None \<Rightarrow> m) xs m))"
    if "distinct (map fst m)" for xs and m :: "(string \<times> task_schedule) list"
    using that by (induction xs arbitrary: m) (auto simp: distinct_update split: option.split)
  from this [of "[]"] show ?thesis by (auto simp: gen_map_def gen_map_from_items_def split: option.split)
qed

lemma inv_new: "entries fresh_queue = (\<lambda>_. None) \<Longrightarrow> timer_inv entries (timer_new fresh_queue)"
  by (simp add: timer_inv_def timer_new_def tasks_ok_def busy_def running_uids_def maps_distinct_def active_intervals_def
      events_paired_def fun_eq_iff)

lemma inv_refresh: "timer_inv entries t \<Longrightarrow> timer_inv entries (refresh now profiles t)"
  using gen_map_distinct [of now profiles]
  by (auto simp: refresh_def timer_inv_def send_command_def busy_def maps_distinct_def intervals_def events_paired_def Let_def)

lemma inv_run_now: "timer_inv entries t \<Longrightarrow> timer_inv entries (send_command (RunNow uid) t)"
  by (auto simp: timer_inv_def send_command_def busy_def maps_distinct_def events_paired_def)

lemma inv_init:
  assumes "timer_inv entries t"
  shows "timer_inv entries (timer_init now later profiles profiles_later t)"
proof -
  have "timer_inv entries (fold (\<lambda>uid. send_command (RunNow uid)) xs t')" if "timer_inv entries t'" for xs t'
    using that by (induction xs arbitrary: t') (auto intro: inv_run_now)
  moreover have "timer_inv entries (t\<lparr>tm_initialized := True, tm_listening := True\<rparr>)"
    using assms by (simp add: timer_inv_def busy_def events_paired_def)
  ultimately show ?thesis
    using assms inv_refresh [of entries "t\<lparr>tm_initialized := True, tm_listening := True\<rparr>" now profiles]
    by (simp add: timer_init_def Let_def)
qed

lemma inv_expired:
  assumes "timer_inv entries t" and "expires entries (tm_queue t) uid q"
  shows "timer_inv entries (take_expired uid q t)"
proof -
  obtain started ts where r: "run_expired_task uid (tm_tasks t) = (started, ts)" by fastforce
  have ok: "tasks_ok (entries (tm_queue t)) (tm_tasks t)" using assms(1) by (simp add: timer_inv_def)
  note e = expired_ok [OF ok assms(2) r]
  have "uid \<notin> set (busy t)" using assms(1) e(3) by (simp add: timer_inv_def)
  with assms(1) e show ?thesis
    by (auto simp: timer_inv_def take_expired_def r spawn_update_task_def busy_def events_paired_def)
qed

lemma inv_command:
  assumes laws: "delay_queue_laws ops entries" and inv: "timer_inv entries t" and c: "tm_commands t = c # cs" "same_command c c'"
  shows "timer_inv entries (take_command ops (t\<lparr>tm_commands := c' # cs\<rparr>))"
proof -
  have ok: "good entries (tm_queue t, tm_tasks t)" using inv by (simp add: timer_inv_def good_def)
  show ?thesis
  proof (cases c)
    case (Apply m)
    with c(2) obtain m' where m': "c' = Apply m'" "mset m' = mset m" by (cases c') auto
    have d: "distinct (map fst m)" using inv Apply c(1) by (auto simp: timer_inv_def maps_distinct_def)
    note p = intervals_perm [OF d m'(2)]
    obtain q ts where a: "apply_timer_map ops m' (tm_queue t, tm_tasks t) = (q, ts)" by fastforce
    note r = apply_ok [OF laws ok conjunct1 [OF p]]
    from inv r p Apply m' a c(1) show ?thesis
      by (auto simp: timer_inv_def take_command_def good_def busy_def maps_distinct_def events_paired_def)
  next
    case (RunNow uid)
    with c(2) have c': "c' = RunNow uid" by (cases c') auto
    obtain started q ts where a: "run_task_now ops uid (tm_queue t, tm_tasks t) = (started, q, ts)" by (metis prod.exhaust)
    note r = run_now_ok [OF laws ok a]
    have "uid \<notin> set (busy t)" if started using inv r(2) that by (simp add: timer_inv_def)
    with inv r RunNow c' a c(1) show ?thesis
      by (cases started; auto simp: timer_inv_def take_command_def good_def busy_def maps_distinct_def events_paired_def
          spawn_update_task_def Let_def)
  next
    case (TaskFinished uid)
    with c(2) have c': "c' = TaskFinished uid" by (cases c') auto
    obtain q ts where a: "finish_task ops uid (tm_queue t, tm_tasks t) = (q, ts)" by fastforce
    have "uid \<in> running_uids (tm_tasks t)" using inv TaskFinished c(1) by (auto simp: timer_inv_def busy_def)
    then have u: "uid \<in> running_uids (snd (tm_queue t, tm_tasks t))" by simp
    note r = finish_ok [OF laws ok a u]
    from inv r TaskFinished c' a c(1) show ?thesis
      by (auto simp: timer_inv_def take_command_def good_def busy_def maps_distinct_def events_paired_def)
  qed
qed

lemma updates_fst: "distinct (map fst us) \<Longrightarrow> (uid, b) \<in> set us \<Longrightarrow> count_list us (uid, c) = (if c = b then 1 else 0)"
  by (induction us) (auto simp: count_list_0_iff image_iff)

lemma remove1_split: "(uid, b) \<in> set us \<Longrightarrow> \<exists>xs ys. us = xs @ (uid, b) # ys \<and> remove1 (uid, b) us = xs @ ys"
  by (metis remove1_split)

lemma inv_begin:
  assumes inv: "timer_inv entries t" and u: "(uid, False) \<in> set (tm_updates t)"
  shows "timer_inv entries (begin_update uid t)"
proof -
  obtain xs ys where s: "tm_updates t = xs @ (uid, False) # ys" "remove1 (uid, False) (tm_updates t) = xs @ ys"
    using remove1_split [OF u] by blast
  with inv show ?thesis
    by (auto simp: timer_inv_def begin_update_def emit_update_event_def busy_def events_paired_def)
qed

lemma inv_end:
  assumes inv: "timer_inv entries t" and u: "(uid, True) \<in> set (tm_updates t)"
  shows "timer_inv entries (end_update_task uid t)"
proof -
  obtain xs ys where s: "tm_updates t = xs @ (uid, True) # ys" "remove1 (uid, True) (tm_updates t) = xs @ ys"
    using remove1_split [OF u] by blast
  with inv show ?thesis
    by (auto simp: timer_inv_def end_update_task_def send_command_def emit_update_event_def busy_def events_paired_def maps_distinct_def)
qed

lemma timer_reachable_inv:
  assumes laws: "delay_queue_laws ops entries" and "entries fresh_queue = (\<lambda>_. None)" and "timer_reachable ops entries fresh_queue t"
  shows "timer_inv entries t"
  using assms(3) unfolding timer_reachable_def
proof (induction rule: rtranclp_induct)
  case base
  show ?case using inv_new [of entries] assms(2) by blast
next
  case (step t t')
  from step.hyps(2) step.IH show ?case
    by cases (blast intro: inv_refresh inv_init inv_expired inv_command [OF laws] inv_begin inv_end)+
qed

subsection \<open>The properties\<close>

text \<open>
  At most one update per profile, told to the interface in pairs; a task is in the queue or running, under a key
  the queue knows; and the queue holds nothing else.
\<close>

definition runs_once :: "('q \<Rightarrow> 'k \<rightharpoonup> string) \<Rightarrow> ('q, 'k) timer \<Rightarrow> bool" where
  "runs_once entries t \<longleftrightarrow> distinct (map fst (tm_updates t))
     \<and> list_all (\<lambda>(uid, s). case task_key s of
          Some k \<Rightarrow> entries (tm_queue t) k = Some uid \<and> \<not> task_running s
        | None \<Rightarrow> task_running s \<and> uid \<in> set (busy t)) (tm_tasks t)
     \<and> {uid. \<exists>k. entries (tm_queue t) k = Some uid} = {uid. \<exists>s k. (uid, s) \<in> set (tm_tasks t) \<and> task_key s = Some k}
     \<and> (\<forall>uid. count_list (tm_events t) (UpdateStarted uid) - count_list (tm_events t) (UpdateCompleted uid) \<le> 1)"


text \<open>
  Once the commands that are pending after a refresh have been taken, the tasks in force are those of the
  profiles at the refresh: the enabled ones with a positive interval, each with its interval.
\<close>

theorem timer_follows_profiles:
  assumes "delay_queue_laws ops entries" and "entries fresh_queue = (\<lambda>_. None)" and "timer_reachable ops entries fresh_queue t"
  shows "planned (tm_commands (refresh now profiles t)) (active_intervals (tm_tasks (refresh now profiles t)))
    = intervals (gen_map now profiles)"
  using inv_refresh [OF timer_reachable_inv [OF assms], of now profiles]
  by (auto simp: timer_inv_def refresh_def send_command_def Let_def intervals_def)

lemma uint_small: "unat (w :: u64) < 2 ^ 63 \<Longrightarrow> uint w < 2 ^ 63"
  using of_nat_less_iff [of "unat w" "2 ^ 63", where 'a = int] by simp

lemma sint_small:
  fixes w :: u64
  assumes "unat w < 2 ^ 63"
  shows "sint w = uint w"
proof -
  have "- (2 ^ 63) \<le> uint w" by (rule order_trans [OF _ uint_ge_0]) simp
  with uint_small [OF assms] show ?thesis unfolding sint_uint by (intro signed_take_bit_int_eq_self) simp_all
qed

lemma sint_nonneg:
  fixes w :: u64
  assumes "0 \<le> sint w"
  shows "uint w = sint w" and "unat w < 2 ^ 63"
proof -
  have l: "sint w < 2 ^ 63" using sint_lt [of w] by simp
  with assms show u: "uint w = sint w" unfolding uint_sint [of w] by (intro take_bit_int_eq_self) simp_all
  with l have "int (unat w) < int (2 ^ 63)" by simp
  then show "unat w < 2 ^ 63" by (simp only: of_nat_less_iff)
qed

lemma elapsed_since:
  assumes "0 < sint u" and "sint u \<le> sint now"
  shows "signed_saturating_sub now u = now - u" and "unat (now - u) = unat now - unat u" and "unat u \<le> unat now"
    and "unat now < 2 ^ 63"
proof -
  have s: "uint u = sint u" "uint now = sint now"
    using sint_nonneg(1) [of u] sint_nonneg(1) [of now] assms by simp_all
  show "unat u \<le> unat now" using assms s by (simp add: unat_eq_nat_uint nat_le_eq_zle)
  then show "unat (now - u) = unat now - unat u" by (simp add: unat_sub_if')
  show "unat now < 2 ^ 63" using sint_nonneg(2) [of now] assms by simp
  have "max (- (2 ^ 63)) (min (2 ^ 63 - 1) (sint now - sint u)) = sint now - sint u"
    using assms sint_lt [of now] by simp
  then show "signed_saturating_sub now u = now - u"
    unfolding signed_saturating_sub_def by (simp add: wi_hom_sub)
qed

text \<open>
  An enabled profile that has been updated before is first due exactly when the interface says, or at once when
  that moment has passed (the clock is not before the last update and the sum does not leave \<open>i64\<close>).
\<close>

theorem first_fire_is_when_shown:
  assumes "schedule_of_item now item = Some (uid, s)" and "prf_updated item = Some u"
    and "items profiles = Some is" and "find (\<lambda>i. prf_uid i = Some uid) is = Some item" and "tm_cache t uid = Some (sch_interval s)"
    and "0 < sint u" and "sint u \<le> sint now" and "unat u + unat (sch_interval s) * 60 < 2 ^ 63"
  shows "\<exists>n. get_next_update_time uid profiles t = Some n \<and> unat now + unat (sch_delay s) = max (unat now) (unat n)"
proof -
  let ?i = "sch_interval s"
  note e = elapsed_since [OF assms(6,7)]
  have s: "s = task_schedule_new ?i (Some u) now"
    using assms(1,2) by (auto simp: schedule_of_item_def task_schedule_new_def Let_def split: option.splits if_splits)
  have nz: "u > 0" using assms(6) by (metis sint_0 word_gt_0 less_irrefl)
  have prod: "unat (?i * 60) = unat ?i * 60"
    using assms(8) by (simp add: unat_word_ariths)
  have full: "interval_duration ?i = ?i * 60"
  proof -
    have "interval_duration ?i = word_of_nat (unat ?i * 60)"
      using assms(8) by (simp add: interval_duration_def saturating_mul_def min_def)
    then show ?thesis by (simp flip: prod)
  qed
  have sum: "unat (u + ?i * 60) = unat u + unat ?i * 60"
    using assms(8) prod by (simp add: unat_plus_if')
  have pos: "sint (now - u) > 0 \<longleftrightarrow> now \<noteq> u"
  proof -
    have "sint (now - u) = uint (now - u)"
      using e(2,4) by (intro sint_small) simp
    then show ?thesis by (simp add: uint_0_iff less_le)
  qed
  have "sch_delay s = saturating_sub (?i * 60) (if sint (now - u) > 0 then now - u else 0)"
    using arg_cong [OF s, of sch_delay] e(1) nz full by (simp add: task_schedule_new_def Let_def)
  then have "sch_delay s = saturating_sub (?i * 60) (now - u)" using pos by (simp split: if_splits)
  then have "unat (sch_delay s) = unat ?i * 60 - (unat now - unat u)"
    using e(2,3) prod by (auto simp: saturating_sub_def unat_sub_if' word_less_nat_alt)
  then show ?thesis
    using assms(3-6) sum e(3) assms(2)
    by (intro exI [of _ "u + ?i * 60"]) (auto simp: get_next_update_time_def)
qed

subsection \<open>Concrete runs\<close>

definition demo_queue_ops :: "((nat \<times> string) list, nat) delay_queue_ops" where
  "demo_queue_ops = \<lparr>dq_insert = (\<lambda>uid d q. let k = Suc (sum_list (map fst q)) in (k, (k, uid) # q)),
     dq_remove = (\<lambda>k q. AList.delete k q), dq_reset = (\<lambda>k d q. q)\<rparr>"

lemma demo_queue_laws: "delay_queue_laws demo_queue_ops map_of"
proof -
  have "map_of q (Suc (sum_list (map fst q))) = None" for q :: "(nat \<times> string) list"
  proof -
    have "fst e \<le> sum_list (map fst q)" if "e \<in> set q" for e
      using that by (intro member_le_sum_list) auto
    then show ?thesis by (fastforce simp: map_of_eq_None_iff)
  qed
  then show ?thesis by (simp add: delay_queue_laws_def demo_queue_ops_def Let_def delete_conv')
qed

definition demo_timer_item :: prf_item where
  "demo_timer_item = prf_item_default\<lparr>prf_uid := Some ''p'', prf_updated := Some 100,
     prf_option := Some (item_option_default\<lparr>update_interval := Some 30\<rparr>)\<rparr>"

definition demo_timer_profiles :: iprofiles where
  "demo_timer_profiles = \<lparr>current = None, items = Some [demo_timer_item]\<rparr>"

definition demo_timer :: "((nat \<times> string) list, nat) timer" where
  "demo_timer = timer_init 1000 1000 demo_timer_profiles demo_timer_profiles (timer_new [])"

lemma demo_schedule: "schedule_of_item 1000 demo_timer_item = Some (''p'', \<lparr>sch_interval = 30, sch_delay = 900\<rparr>)"
  by (simp add: schedule_of_item_def demo_timer_item_def prf_item_default_def item_option_default_def task_schedule_new_def
      interval_duration_def saturating_mul_def signed_saturating_sub_def saturating_sub_def)

lemma demo_timer_state: "tm_commands demo_timer = [Apply [(''p'', \<lparr>sch_interval = 30, sch_delay = 900\<rparr>)]]"
  "tm_listening demo_timer" "tm_cache demo_timer = [''p'' \<mapsto> 30]" "tm_tasks demo_timer = []"
  using demo_schedule
  by (simp_all add: demo_timer_def timer_init_def refresh_def gen_map_def gen_map_from_items_def demo_timer_profiles_def
      send_command_def timer_new_def overdue_uid_def demo_timer_item_def prf_item_default_def item_option_default_def
      List.map_filter_def fun_eq_iff)

lemma demo_timer_reachable: "timer_reachable demo_queue_ops map_of [] demo_timer"
  "timer_reachable demo_queue_ops map_of [] (take_command demo_queue_ops demo_timer)"
proof -
  show r: "timer_reachable demo_queue_ops map_of [] demo_timer"
    unfolding timer_reachable_def demo_timer_def by (rule r_into_rtranclp) (rule initialised)
  have "timer_step demo_queue_ops map_of demo_timer (take_command demo_queue_ops (demo_timer\<lparr>tm_commands := tm_commands demo_timer\<rparr>))"
    using commanded [of demo_timer, OF demo_timer_state(2) demo_timer_state(1)] demo_timer_state(1) by simp
  with r show "timer_reachable demo_queue_ops map_of [] (take_command demo_queue_ops demo_timer)"
    unfolding timer_reachable_def by simp
qed


theorem timer_follows_profiles_witness:
  "planned (tm_commands (refresh 2000 demo_timer_profiles demo_timer)) (active_intervals (tm_tasks (refresh 2000 demo_timer_profiles demo_timer)))
    = intervals (gen_map 2000 demo_timer_profiles)"
  by (rule timer_follows_profiles [OF demo_queue_laws _ demo_timer_reachable(1)]) auto

theorem first_fire_is_when_shown_witness:
  "\<exists>n. get_next_update_time ''p'' demo_timer_profiles demo_timer = Some n \<and> unat (1000 :: u64) + unat (900 :: u64) = max (unat (1000 :: u64)) (unat n)"
  using first_fire_is_when_shown [OF demo_schedule _ _ _ _, of 100 demo_timer_profiles "[demo_timer_item]" demo_timer]
  by (simp add: demo_timer_profiles_def demo_timer_state) (simp add: demo_timer_item_def)

end
