(* ===== verification/ProxyView.thy ===== *)
theory ProxyView
  imports NetAddr "HOL-Library.List_Lexorder" "HOL-Library.Char_ord"
begin

section \<open>What the interface shows of the proxies: \<open>core/proxy_view.rs\<close>\<close>

text \<open>
  The core reports its proxies and providers as hash maps and refers to members by name; the view gives every
  node a record of its own and resolves every member to a group, a record or a reason why not.  A hash map is
  an association list with distinct keys in any order, a \<open>BTreeMap\<close> one sorted by its keys; the histories and the
  types of proxies are opaque.
\<close>

subsection \<open>Sorted maps\<close>

fun bt_insert :: "string \<Rightarrow> 'a \<Rightarrow> (string \<times> 'a) list \<Rightarrow> (string \<times> 'a) list" where
  "bt_insert k v [] = [(k, v)]"
| "bt_insert k v ((k', v') # m) =
     (if k < k' then (k, v) # (k', v') # m else if k = k' then (k, v) # m else (k', v') # bt_insert k v m)"

definition bt_of :: "(string \<times> 'a) list \<Rightarrow> (string \<times> 'a) list" where
  "bt_of kvs = fold (\<lambda>(k, v). bt_insert k v) kvs []"

definition bt_remove :: "string \<Rightarrow> (string \<times> 'a) list \<Rightarrow> (string \<times> 'a) list" where
  "bt_remove k m = filter (\<lambda>e. fst e \<noteq> k) m"

subsection \<open>What the core reports\<close>

record capabilities =
  cap_udp :: bool
  cap_xudp :: bool
  cap_tfo :: bool
  cap_mptcp :: bool
  cap_smux :: bool

record ('t, 'h) core_proxy =
  px_name :: string
  px_type :: 't
  px_alive :: bool
  px_history :: "'h list"
  px_all :: "string list option"
  px_now :: "string option"
  px_fixed :: "string option"
  px_hidden :: "bool option"
  px_icon :: "string option"
  px_test_url :: "string option"
  px_id :: "string option"
  px_caps :: capabilities

datatype vehicle_type = VHttp | VFile | VInline | VOther

record subscription_info =
  sub_upload :: "64 word"
  sub_download :: "64 word"
  sub_total :: "64 word"
  sub_expire :: "64 word"

record ('t, 'h) core_provider =
  pv_vehicle :: vehicle_type
  pv_proxies :: "('t, 'h) core_proxy list"
  pv_updated_at :: "string option"
  pv_subscription :: "subscription_info option"

record ('t, 'h) proxy_view_input =
  in_group_order :: "string list"
  in_proxies :: "(string \<times> ('t, 'h) core_proxy) list"
  in_providers :: "(string \<times> ('t, 'h) core_provider) list option"

subsection \<open>The view\<close>

datatype unresolved_reason = Missing | Ambiguous | ProviderUnavailable

datatype member_ref = GroupRef string | NodeRef string string | UnresolvedRef string unresolved_reason

datatype node_source = CoreNode string | ProviderNode string string

datatype order_source = RuntimeOrder | FallbackOrder

datatype provider_state = ProvidersReady | ProvidersUnavailable

datatype provider_vehicle = HttpVehicle | FileVehicle | InlineVehicle

record ('t, 'h) group_view =
  gv_name :: string
  gv_type :: 't
  gv_alive :: bool
  gv_now :: "string option"
  gv_fixed :: "string option"
  gv_hidden :: "bool option"
  gv_icon :: "string option"
  gv_test_url :: "string option"
  gv_history :: "'h list"
  gv_caps :: capabilities
  gv_members :: "member_ref list"

record ('t, 'h) node_view =
  nv_record_id :: string
  nv_name :: string
  nv_type :: 't
  nv_alive :: bool
  nv_history :: "'h list"
  nv_id :: "string option"
  nv_hidden :: "bool option"
  nv_icon :: "string option"
  nv_test_url :: "string option"
  nv_caps :: capabilities
  nv_source :: node_source

record provider_view =
  pvv_name :: string
  pvv_vehicle :: provider_vehicle
  pvv_updated_at :: "string option"
  pvv_subscription :: "subscription_info option"
  pvv_record_ids :: "string list"

record ('t, 'h) proxy_view =
  vw_schema :: nat
  vw_order_source :: order_source
  vw_provider_state :: provider_state
  vw_global :: "('t, 'h) group_view option"
  vw_direct :: "string option"
  vw_groups :: "('t, 'h) group_view list"
  vw_records :: "(string \<times> ('t, 'h) node_view) list"
  vw_standalone :: "string list"
  vw_providers :: "provider_view list"

subsection \<open>Members\<close>

record member_resolver =
  res_groups :: "string set"
  res_core_ids :: "string \<rightharpoonup> string"
  res_candidates :: "string \<rightharpoonup> string list"
  res_available :: bool

definition resolve :: "member_resolver \<Rightarrow> string \<Rightarrow> member_ref" where
  "resolve r name =
     (if name \<in> res_groups r then GroupRef name
      else case res_core_ids r name of
          Some record_id \<Rightarrow> NodeRef name record_id
        | None \<Rightarrow>
            if \<not> res_available r then UnresolvedRef name ProviderUnavailable
            else (case res_candidates r name of
                    Some [record_id] \<Rightarrow> NodeRef name record_id
                  | None \<Rightarrow> UnresolvedRef name Missing
                  | Some _ \<Rightarrow> UnresolvedRef name Ambiguous))"

subsection \<open>Building\<close>

definition partition_core :: "(string \<times> ('t, 'h) core_proxy) list
    \<Rightarrow> (string \<times> ('t, 'h) core_proxy) list \<times> (string \<times> ('t, 'h) core_proxy) list" where
  "partition_core proxies =
     (bt_of (filter (\<lambda>(_, p). px_all p \<noteq> None) proxies), bt_of (filter (\<lambda>(_, p). px_all p = None) proxies))"

definition build_node :: "string \<Rightarrow> string \<Rightarrow> ('t, 'h) core_proxy \<Rightarrow> node_source \<Rightarrow> ('t, 'h) node_view" where
  "build_node record_id name p source =
     \<lparr>nv_record_id = record_id, nv_name = name, nv_type = px_type p, nv_alive = px_alive p, nv_history = px_history p,
      nv_id = px_id p, nv_hidden = px_hidden p, nv_icon = px_icon p, nv_test_url = px_test_url p, nv_caps = px_caps p,
      nv_source = source\<rparr>"

definition build_group :: "string \<Rightarrow> ('t, 'h) core_proxy \<Rightarrow> member_resolver \<Rightarrow> ('t, 'h) group_view" where
  "build_group name p r =
     \<lparr>gv_name = name, gv_type = px_type p, gv_alive = px_alive p, gv_now = px_now p, gv_fixed = px_fixed p,
      gv_hidden = px_hidden p, gv_icon = px_icon p, gv_test_url = px_test_url p, gv_history = px_history p,
      gv_caps = px_caps p, gv_members = map (resolve r) (unwrap_or [] (px_all p))\<rparr>"

definition core_record_id :: "nat \<Rightarrow> string" where
  "core_record_id index = ''c:'' @ show_nat index"

definition provider_record_id :: "nat \<Rightarrow> nat \<Rightarrow> string" where
  "provider_record_id provider_index member_index = ''p:'' @ show_nat provider_index @ '':'' @ show_nat member_index"

fun core_records_loop :: "nat \<Rightarrow> (string \<times> ('t, 'h) core_proxy) list \<Rightarrow> (string \<times> ('t, 'h) node_view) list \<times> (string \<times> string) list
    \<Rightarrow> (string \<times> ('t, 'h) node_view) list \<times> (string \<times> string) list" where
  "core_records_loop index [] acc = acc"
| "core_records_loop index ((name, p) # nodes) (records, ids) =
     (let record_id = core_record_id index
      in core_records_loop (Suc index) nodes
           (bt_insert record_id (build_node record_id name p (CoreNode name)) records, bt_insert name record_id ids))"

definition build_core_records :: "(string \<times> ('t, 'h) core_proxy) list
    \<Rightarrow> (string \<times> ('t, 'h) node_view) list \<times> (string \<times> string) list" where
  "build_core_records core_nodes = core_records_loop 0 core_nodes ([], [])"

type_synonym candidates = "string \<rightharpoonup> string list"

definition add_candidate :: "string \<Rightarrow> string \<Rightarrow> candidates \<Rightarrow> candidates" where
  "add_candidate name record_id c = c(name \<mapsto> unwrap_or [] (c name) @ [record_id])"

fun provider_members_loop :: "string \<Rightarrow> nat \<Rightarrow> nat \<Rightarrow> ('t, 'h) core_proxy list
    \<Rightarrow> (string \<times> ('t, 'h) node_view) list \<times> candidates \<times> string list
    \<Rightarrow> (string \<times> ('t, 'h) node_view) list \<times> candidates \<times> string list" where
  "provider_members_loop provider_name provider_index member_index [] acc = acc"
| "provider_members_loop provider_name provider_index member_index (p # ps) (records, candidates, ids) =
     (let record_id = provider_record_id provider_index member_index
      in provider_members_loop provider_name provider_index (Suc member_index) ps
           (bt_insert record_id (build_node record_id (px_name p) p (ProviderNode provider_name (px_name p))) records,
            add_candidate (px_name p) record_id candidates, ids @ [record_id]))"

definition known_vehicle :: "vehicle_type \<Rightarrow> provider_vehicle option" where
  "known_vehicle v = (case v of VHttp \<Rightarrow> Some HttpVehicle | VFile \<Rightarrow> Some FileVehicle | VInline \<Rightarrow> Some InlineVehicle | VOther \<Rightarrow> None)"

fun provider_records_loop :: "(string \<times> ('t, 'h) core_provider) list
    \<Rightarrow> (string \<times> ('t, 'h) node_view) list \<times> candidates \<times> provider_view list
    \<Rightarrow> (string \<times> ('t, 'h) node_view) list \<times> candidates \<times> provider_view list" where
  "provider_records_loop [] acc = acc"
| "provider_records_loop ((provider_name, provider) # providers) (records, candidates, views) =
     (case known_vehicle (pv_vehicle provider) of
        None \<Rightarrow> provider_records_loop providers (records, candidates, views)
      | Some vehicle \<Rightarrow>
          (let (records, candidates, ids) = provider_members_loop provider_name (length views) 0 (pv_proxies provider) (records, candidates, [])
           in provider_records_loop providers (records, candidates, views @ [\<lparr>pvv_name = provider_name, pvv_vehicle = vehicle,
                pvv_updated_at = pv_updated_at provider, pvv_subscription = pv_subscription provider, pvv_record_ids = ids\<rparr>])))"

definition build_provider_records :: "(string \<times> ('t, 'h) core_provider) list option \<Rightarrow> (string \<times> ('t, 'h) node_view) list
    \<Rightarrow> (string \<times> ('t, 'h) node_view) list \<times> candidates \<times> provider_view list" where
  "build_provider_records providers records =
     provider_records_loop (bt_of (unwrap_or [] providers)) (records, (\<lambda>_. None), [])"

fun ordered_loop :: "member_resolver \<Rightarrow> string list \<Rightarrow> (string \<times> ('t, 'h) core_proxy) list
    \<Rightarrow> ('t, 'h) group_view list \<times> (string \<times> ('t, 'h) core_proxy) list" where
  "ordered_loop r [] groups = ([], groups)"
| "ordered_loop r (name # names) groups =
     (case map_of groups name of
        None \<Rightarrow> ordered_loop r names groups
      | Some p \<Rightarrow> (let (views, rest) = ordered_loop r names (bt_remove name groups) in (build_group name p r # views, rest)))"

definition build_ordered_groups :: "(string \<times> ('t, 'h) core_proxy) list \<Rightarrow> string list \<Rightarrow> member_resolver
    \<Rightarrow> ('t, 'h) group_view list \<times> order_source" where
  "build_ordered_groups core_groups runtime_group_order r =
     (let (views, rest) = ordered_loop r runtime_group_order core_groups
      in (views @ map (\<lambda>(name, p). build_group name p r) rest, if views = [] then FallbackOrder else RuntimeOrder))"

definition build_standalone :: "(string \<times> string) list \<Rightarrow> string list" where
  "build_standalone core_ids =
     List.map_filter (map_of core_ids) [''DIRECT'', ''REJECT'']
     @ map snd (filter (\<lambda>(name, _). name \<noteq> ''DIRECT'' \<and> name \<noteq> ''REJECT'') core_ids)"

definition build_view :: "('t, 'h) proxy_view_input \<Rightarrow> ('t, 'h) proxy_view" where
  "build_view i =
     (let provider_state = (if in_providers i \<noteq> None then ProvidersReady else ProvidersUnavailable);
          (core_groups, core_nodes) = partition_core (in_proxies i);
          (records, core_ids) = build_core_records core_nodes;
          (records, candidates, providers) = build_provider_records (in_providers i) records;
          r = \<lparr>res_groups = fst ` set core_groups, res_core_ids = map_of core_ids, res_candidates = candidates,
               res_available = (provider_state = ProvidersReady)\<rparr>;
          global = map_option (\<lambda>p. build_group ''GLOBAL'' p r) (map_of core_groups ''GLOBAL'');
          (groups, order_source) = build_ordered_groups (bt_remove ''GLOBAL'' core_groups) (in_group_order i) r
      in \<lparr>vw_schema = 1, vw_order_source = order_source, vw_provider_state = provider_state, vw_global = global,
          vw_direct = map_of core_ids ''DIRECT'', vw_groups = groups, vw_records = records,
          vw_standalone = build_standalone core_ids, vw_providers = providers\<rparr>)"

subsection \<open>Sorted maps and record identifiers\<close>

lemma map_of_bt_insert [simp]: "map_of (bt_insert k v m) = (map_of m)(k \<mapsto> v)"
  by (induction k v m rule: bt_insert.induct) (auto simp: fun_eq_iff)

lemma keys_bt_insert [simp]: "fst ` set (bt_insert k v m) = insert k (fst ` set m)"
  by (induction k v m rule: bt_insert.induct) auto

lemma sorted_bt_insert: "sorted_wrt (<) (map fst m) \<Longrightarrow> sorted_wrt (<) (map fst (bt_insert k v m))"
proof (induction k v m rule: bt_insert.induct)
  case (2 k v k' v' m)
  have "x \<in> fst ` set (bt_insert k v m) \<Longrightarrow> x = k \<or> x \<in> fst ` set m" for x by simp
  with 2 show ?case by (auto simp: not_less less_le image_iff)
qed simp

lemma bt_of_facts: "map_of (bt_of kvs) = (\<lambda>k. map_of (rev kvs) k)" "sorted_wrt (<) (map fst (bt_of kvs))"
proof -
  have "map_of (fold (\<lambda>(k, v). bt_insert k v) kvs m) = (\<lambda>k. case map_of (rev kvs) k of Some v \<Rightarrow> Some v | None \<Rightarrow> map_of m k)
      \<and> (sorted_wrt (<) (map fst m) \<longrightarrow> sorted_wrt (<) (map fst (fold (\<lambda>(k, v). bt_insert k v) kvs m)))" for m :: "(string \<times> 'a) list"
    by (induction kvs arbitrary: m) (auto simp: fun_eq_iff map_add_def sorted_bt_insert split: option.split)
  from this [of "[]"] show "map_of (bt_of kvs) = (\<lambda>k. map_of (rev kvs) k)" "sorted_wrt (<) (map fst (bt_of kvs))"
    by (simp_all add: bt_of_def fun_eq_iff split: option.splits)
qed

lemma sorted_distinct: "sorted_wrt (<) (xs :: string list) \<Longrightarrow> distinct xs"
  by (induction xs) auto

lemma show_nat_no_colon: "CHR '':'' \<notin> set (show_nat n)"
  using show_nat_digits [of "CHR '':''" n] by (auto simp: to_digit_def digit_of_def)

lemma show_nat_injective: "show_nat m = show_nat n \<longleftrightarrow> m = n"
  by (metis parse_nat_show_nat option.inject)

lemma core_record_id_inj [simp]: "core_record_id i = core_record_id j \<longleftrightarrow> i = j"
  by (simp add: core_record_id_def show_nat_injective)

lemma append_colon_inj: "CHR '':'' \<notin> set a \<Longrightarrow> CHR '':'' \<notin> set b \<Longrightarrow> a @ '':'' @ c = b @ '':'' @ d \<longleftrightarrow> a = b \<and> c = d"
  by (induction a arbitrary: b; case_tac b) auto

lemma provider_record_id_inj [simp]: "provider_record_id i j = provider_record_id i' j' \<longleftrightarrow> i = i' \<and> j = j'"
  unfolding provider_record_id_def using append_colon_inj [OF show_nat_no_colon [of i] show_nat_no_colon [of i'], of "show_nat j" "show_nat j'"]
  by (auto simp: show_nat_injective)

lemma record_ids_differ [simp]: "core_record_id i \<noteq> provider_record_id j k" "provider_record_id j k \<noteq> core_record_id i"
  by (simp_all add: core_record_id_def provider_record_id_def)

subsection \<open>Records\<close>

text \<open>
  \<open>linked\<close>: every identifier that is handed out names a record of its own, with the name and source it was handed
  out for, and every record is reachable by its identifier.
\<close>

definition record_of :: "(string \<times> ('t, 'h) node_view) list \<Rightarrow> string \<Rightarrow> string \<Rightarrow> node_source \<Rightarrow> bool" where
  "record_of records record_id name source \<longleftrightarrow>
     (\<exists>nv. map_of records record_id = Some nv \<and> nv_record_id nv = record_id \<and> nv_name nv = name \<and> nv_source nv = source)"

definition linked :: "(string \<times> ('t, 'h) node_view) list \<Rightarrow> (string \<rightharpoonup> string) \<Rightarrow> candidates \<Rightarrow> bool" where
  "linked records ids cands \<longleftrightarrow>
     (\<forall>name record_id. ids name = Some record_id \<longrightarrow> record_of records record_id name (CoreNode name))
     \<and> (\<forall>name record_ids record_id. cands name = Some record_ids \<and> record_id \<in> set record_ids \<longrightarrow>
          (\<exists>provider_name. record_of records record_id name (ProviderNode provider_name name)))
     \<and> (\<forall>record_id nv. map_of records record_id = Some nv \<longrightarrow> (case nv_source nv of
            CoreNode name \<Rightarrow> ids name = Some record_id
          | ProviderNode provider_name name \<Rightarrow> (\<exists>record_ids. cands name = Some record_ids \<and> record_id \<in> set record_ids)))"

lemma linkedD:
  assumes "linked records ids cands"
  shows "ids name = Some record_id \<Longrightarrow> record_of records record_id name (CoreNode name)"
    and "cands name = Some record_ids \<Longrightarrow> record_id \<in> set record_ids
      \<Longrightarrow> \<exists>provider_name. record_of records record_id name (ProviderNode provider_name name)"
    and "map_of records record_id = Some nv \<Longrightarrow> (case nv_source nv of
            CoreNode name \<Rightarrow> ids name = Some record_id
          | ProviderNode provider_name name \<Rightarrow> (\<exists>record_ids. cands name = Some record_ids \<and> record_id \<in> set record_ids))"
  using assms unfolding linked_def by blast+

lemma record_of_insert: "record_of (bt_insert k v records) r name source \<longleftrightarrow>
    (if r = k then nv_record_id v = k \<and> nv_name v = name \<and> nv_source v = source else record_of records r name source)"
  by (auto simp: record_of_def)

lemma linked_core:
  assumes l: "linked records ids cands" and f: "map_of records k = None" and n: "ids name = None"
  shows "linked (bt_insert k (build_node k name p (CoreNode name)) records) (ids(name \<mapsto> k)) cands"
proof -
  have used: "record_of records r m s \<Longrightarrow> r \<noteq> k" for r m s using f by (auto simp: record_of_def)
  have free: "ids m \<noteq> Some k" for m using linkedD(1) [OF l] used by blast
  show ?thesis
    unfolding linked_def
  proof (intro conjI allI impI)
    fix m r assume "(ids(name \<mapsto> k)) m = Some r"
    then show "record_of (bt_insert k (build_node k name p (CoreNode name)) records) r m (CoreNode m)"
      using linkedD(1) [OF l] free by (auto simp: record_of_insert build_node_def split: if_splits)
  next
    fix m rs r assume "cands m = Some rs \<and> r \<in> set rs"
    then obtain pn where "record_of records r m (ProviderNode pn m)" using linkedD(2) [OF l] by blast
    moreover from used [OF this] have "r \<noteq> k" .
    ultimately show "\<exists>pn. record_of (bt_insert k (build_node k name p (CoreNode name)) records) r m (ProviderNode pn m)"
      by (auto simp: record_of_insert)
  next
    fix r nv assume "map_of (bt_insert k (build_node k name p (CoreNode name)) records) r = Some nv"
    then show "case nv_source nv of CoreNode m \<Rightarrow> (ids(name \<mapsto> k)) m = Some r
        | ProviderNode pn m \<Rightarrow> \<exists>rs. cands m = Some rs \<and> r \<in> set rs"
      using linkedD(3) [OF l, of r nv] n by (auto simp: build_node_def split: if_splits node_source.splits)
  qed
qed

lemma linked_provider:
  assumes l: "linked records ids cands" and f: "map_of records k = None"
  shows "linked (bt_insert k (build_node k name p (ProviderNode provider_name name)) records) ids (add_candidate name k cands)"
proof -
  have used: "record_of records r m s \<Longrightarrow> r \<noteq> k" for r m s using f by (auto simp: record_of_def)
  have free: "ids m \<noteq> Some k" for m using linkedD(1) [OF l] used by blast
  have cand: "(m = name \<and> r = k) \<or> (\<exists>rs'. cands m = Some rs' \<and> r \<in> set rs')"
    if "add_candidate name k cands m = Some rs" "r \<in> set rs" for m rs r
    using that by (cases "cands name") (auto simp: add_candidate_def split: if_splits)
  show ?thesis
    unfolding linked_def
  proof (intro conjI allI impI)
    fix m r assume "ids m = Some r"
    then show "record_of (bt_insert k (build_node k name p (ProviderNode provider_name name)) records) r m (CoreNode m)"
      using linkedD(1) [OF l] free by (auto simp: record_of_insert)
  next
    fix m rs r assume "add_candidate name k cands m = Some rs \<and> r \<in> set rs"
    then consider "m = name" "r = k" | rs' where "cands m = Some rs'" "r \<in> set rs'" using cand by blast
    then show "\<exists>pn. record_of (bt_insert k (build_node k name p (ProviderNode provider_name name)) records) r m (ProviderNode pn m)"
    proof cases
      case 1
      then show ?thesis by (simp add: record_of_insert build_node_def)
    next
      case 2
      then obtain pn where "record_of records r m (ProviderNode pn m)" using linkedD(2) [OF l] by blast
      moreover from used [OF this] have "r \<noteq> k" .
      ultimately show ?thesis by (auto simp: record_of_insert)
    qed
  next
    fix r nv assume a: "map_of (bt_insert k (build_node k name p (ProviderNode provider_name name)) records) r = Some nv"
    show "case nv_source nv of CoreNode m \<Rightarrow> ids m = Some r
        | ProviderNode pn m \<Rightarrow> \<exists>rs. add_candidate name k cands m = Some rs \<and> r \<in> set rs"
    proof (cases "r = k")
      case True
      with a have "nv = build_node k name p (ProviderNode provider_name name)" by simp
      with True show ?thesis by (simp add: build_node_def add_candidate_def)
    next
      case False
      with a have "map_of records r = Some nv" by simp
      from linkedD(3) [OF l this] show ?thesis by (auto simp: add_candidate_def split: node_source.splits)
    qed
  qed
qed

text \<open>The identifiers in use after \<open>index\<close> core nodes, \<open>views\<close> providers and \<open>member\<close> members of the next one.\<close>

definition ids_below :: "nat \<Rightarrow> nat \<Rightarrow> nat \<Rightarrow> string set" where
  "ids_below index views member = {core_record_id j |j. j < index}
     \<union> {provider_record_id a b |a b. a < views \<or> (a = views \<and> b < member)}"

lemma core_fresh: "core_record_id index \<notin> ids_below index views member"
  by (auto simp: ids_below_def)

lemma provider_fresh: "provider_record_id views member \<notin> ids_below index views member"
  by (auto simp: ids_below_def)

lemma ids_below_mono: "index \<le> index' \<Longrightarrow> views < views' \<or> (views = views' \<and> member \<le> member')
    \<Longrightarrow> ids_below index views member \<subseteq> ids_below index' views' member'"
  unfolding ids_below_def by fastforce

definition keys_below :: "(string \<times> 'a) list \<Rightarrow> nat \<Rightarrow> nat \<Rightarrow> nat \<Rightarrow> bool" where
  "keys_below records index views member \<longleftrightarrow> fst ` set records \<subseteq> ids_below index views member"

lemma core_loop:
  "core_records_loop index nodes (records, ids) = (records', ids') \<Longrightarrow> linked records (map_of ids) (\<lambda>_. None)
     \<Longrightarrow> keys_below records index 0 0 \<Longrightarrow> distinct (map fst nodes) \<Longrightarrow> fst ` set nodes \<inter> fst ` set ids = {}
     \<Longrightarrow> linked records' (map_of ids') (\<lambda>_. None) \<and> keys_below records' (index + length nodes) 0 0
       \<and> fst ` set ids' = fst ` set ids \<union> fst ` set nodes \<and> (sorted_wrt (<) (map fst ids) \<longrightarrow> sorted_wrt (<) (map fst ids'))"
proof (induction nodes arbitrary: index records ids)
  case (Cons e nodes)
  obtain name p where e: "e = (name, p)" by fastforce
  let ?k = "core_record_id index"
  let ?records = "bt_insert ?k (build_node ?k name p (CoreNode name)) records" and ?ids = "bt_insert name ?k ids"
  have f: "map_of records ?k = None" using Cons.prems(3) core_fresh by (fastforce simp: map_of_eq_None_iff keys_below_def)
  have n: "map_of ids name = None" using Cons.prems(5) e by (auto simp: map_of_eq_None_iff)
  have l: "linked ?records (map_of ?ids) (\<lambda>_. None)" using linked_core [OF Cons.prems(2) f n] by simp
  have k: "keys_below ?records (Suc index) 0 0"
    using Cons.prems(3) ids_below_mono [of index "Suc index" 0 0 0 0] by (auto simp: keys_below_def ids_below_def)
  have run: "core_records_loop (Suc index) nodes (?records, ?ids) = (records', ids')" using Cons.prems(1) e by (simp add: Let_def)
  from Cons.IH [OF run l k] Cons.prems(4,5) e show ?case
    by (auto simp: sorted_bt_insert)
qed auto

lemma members_loop:
  "provider_members_loop provider_name views member ps (records, cands, record_ids) = (records', cands', record_ids')
     \<Longrightarrow> linked records ids cands \<Longrightarrow> keys_below records index views member
     \<Longrightarrow> linked records' ids cands' \<and> keys_below records' index views (member + length ps)"
proof (induction ps arbitrary: member records cands record_ids)
  case (Cons p ps)
  let ?k = "provider_record_id views member"
  let ?records = "bt_insert ?k (build_node ?k (px_name p) p (ProviderNode provider_name (px_name p))) records"
  have f: "map_of records ?k = None" using Cons.prems(3) provider_fresh by (fastforce simp: map_of_eq_None_iff keys_below_def)
  have l: "linked ?records ids (add_candidate (px_name p) ?k cands)" by (rule linked_provider [OF Cons.prems(2) f])
  have k: "keys_below ?records index views (Suc member)"
    using Cons.prems(3) ids_below_mono [of index index views views member "Suc member"] by (auto simp: keys_below_def ids_below_def)
  have run: "provider_members_loop provider_name views (Suc member) ps (?records, add_candidate (px_name p) ?k cands, record_ids @ [?k])
      = (records', cands', record_ids')" using Cons.prems(1) by (simp add: Let_def)
  from Cons.IH [OF run l k] show ?case by simp
qed simp

lemma providers_loop:
  "provider_records_loop providers (records, cands, views) = (records', cands', views') \<Longrightarrow> linked records ids cands
     \<Longrightarrow> keys_below records index (length views) 0 \<Longrightarrow> linked records' ids cands'"
proof (induction providers arbitrary: records cands views)
  case (Cons e providers)
  obtain name provider where e: "e = (name, provider)" by fastforce
  show ?case
  proof (cases "known_vehicle (pv_vehicle provider)")
    case None
    with Cons e show ?thesis by simp
  next
    case (Some vehicle)
    obtain records1 cands1 record_ids where m: "provider_members_loop name (length views) 0 (pv_proxies provider) (records, cands, [])
        = (records1, cands1, record_ids)" by (metis prod.exhaust)
    note l = members_loop [OF m Cons.prems(2,3)]
    let ?views = "views @ [\<lparr>pvv_name = name, pvv_vehicle = vehicle, pvv_updated_at = pv_updated_at provider,
        pvv_subscription = pv_subscription provider, pvv_record_ids = record_ids\<rparr>]"
    have "keys_below records1 index (length ?views) 0"
      using l ids_below_mono [of index index "length views" "length ?views" "length (pv_proxies provider)" 0]
      by (auto simp: keys_below_def)
    moreover have "provider_records_loop providers (records1, cands1, ?views) = (records', cands', views')"
      using Cons.prems(1) e Some m by simp
    ultimately show ?thesis using Cons.IH l by blast
  qed
qed simp

end
