(* ===== verification/ProxyViewProps.thy ===== *)
theory ProxyViewProps
  imports ProxyView
begin

section \<open>What the view of the proxies guarantees\<close>

text \<open>
  Every reference of the view resolves, every group is shown once and in the order of the running configuration,
  and every node of the core has one record.  The sorted maps of the view satisfy the map interface \<open>name_map\<close>.
\<close>

subsection \<open>Maps by name\<close>

locale name_map =
  fixes ins :: "string \<Rightarrow> 'a \<Rightarrow> 'm \<Rightarrow> 'm" and rem :: "string \<Rightarrow> 'm \<Rightarrow> 'm" and look :: "'m \<Rightarrow> string \<rightharpoonup> 'a"
    and keys :: "'m \<Rightarrow> string list"
  assumes look_ins: "look (ins k v m) = (look m)(k \<mapsto> v)"
    and look_rem: "look (rem k m) = (look m)(k := None)"
    and keys_look: "set (keys m) = dom (look m)"
    and ins_sorted: "sorted_wrt (<) (keys m) \<Longrightarrow> sorted_wrt (<) (keys (ins k v m))"
    and rem_sorted: "sorted_wrt (<) (keys m) \<Longrightarrow> sorted_wrt (<) (keys (rem k m))"
begin

definition ins_all :: "(string \<times> 'a) list \<Rightarrow> 'm \<Rightarrow> 'm" where
  "ins_all kvs m = fold (\<lambda>(k, v). ins k v) kvs m"

lemma look_ins_all: "look (ins_all kvs m) = look m ++ map_of (rev kvs)"
proof (induction kvs arbitrary: m)
  case (Cons e kvs)
  obtain k v where "e = (k, v)" by fastforce
  with Cons show ?case by (auto simp: ins_all_def look_ins map_add_def fun_eq_iff split: option.split)
qed (simp add: ins_all_def)

lemma ins_all_sorted: "sorted_wrt (<) (keys m) \<Longrightarrow> sorted_wrt (<) (keys (ins_all kvs m))"
  by (induction kvs arbitrary: m) (auto simp: ins_all_def ins_sorted)

lemma keys_determined:
  assumes "sorted_wrt (<) (keys m)"
  shows "keys m = sorted_list_of_set (dom (look m))"
proof -
  have "sorted (keys m)" "distinct (keys m)" using assms by (simp_all add: strict_sorted_iff)
  then show ?thesis using sorted_list_of_set.idem_if_sorted_distinct [of "keys m"] by (simp add: keys_look)
qed

end

lemma sorted_bt_remove: "sorted_wrt (<) (map fst m) \<Longrightarrow> sorted_wrt (<) (map fst (bt_remove k m))"
  by (induction m) (auto simp: bt_remove_def)

lemma map_of_bt_remove: "map_of (bt_remove k m) = (map_of m)(k := None)"
  by (induction m) (auto simp: bt_remove_def fun_eq_iff)

interpretation bt: name_map bt_insert bt_remove map_of "map fst"
  by unfold_locales (simp_all add: sorted_bt_insert sorted_bt_remove map_of_bt_remove dom_map_of_conv_image_fst)

lemma bt_of_ins_all: "bt_of kvs = bt.ins_all kvs []"
  by (simp add: bt_of_def bt.ins_all_def)

lemma map_of_rev_distinct: "distinct (map fst kvs) \<Longrightarrow> map_of (rev kvs) = map_of kvs"
  by (simp add: map_of_inject_set flip: rev_map)

lemma bt_of_distinct:
  assumes "distinct (map fst kvs)"
  shows "map_of (bt_of kvs) = map_of kvs" and "sorted_wrt (<) (map fst (bt_of kvs))" and "distinct (map fst (bt_of kvs))"
proof -
  show "map_of (bt_of kvs) = map_of kvs"
    using bt.look_ins_all [of kvs "[]"] map_of_rev_distinct [OF assms] by (simp add: bt_of_ins_all)
  show "sorted_wrt (<) (map fst (bt_of kvs))" using bt.ins_all_sorted [of "[]" kvs] by (simp add: bt_of_ins_all)
  then show "distinct (map fst (bt_of kvs))" by (rule sorted_distinct)
qed

subsection \<open>Groups in order\<close>

text \<open>The first occurrences of the names of a set.\<close>

fun first_of :: "string list \<Rightarrow> string set \<Rightarrow> string list" where
  "first_of [] S = []"
| "first_of (n # ns) S = (if n \<in> S then n # first_of ns (S - {n}) else first_of ns S)"

lemma set_first_of: "set (first_of ns S) = set ns \<inter> S"
  by (induction ns S rule: first_of.induct) auto

lemma distinct_first_of: "distinct (first_of ns S)"
  by (induction ns S rule: first_of.induct) (auto simp: set_first_of)

lemma ordered_loop_result:
  "ordered_loop r names groups = (views, rest) \<Longrightarrow> sorted_wrt (<) (map fst groups) \<Longrightarrow>
     map gv_name views = first_of names (dom (map_of groups))
     \<and> (\<forall>g \<in> set views. \<exists>n p. map_of groups n = Some p \<and> g = build_group n p r)
     \<and> sorted_wrt (<) (map fst rest) \<and> map_of rest = (map_of groups) |` (- set names)"
proof (induction names arbitrary: groups views)
  case Nil
  then show ?case by simp
next
  case (Cons n names)
  show ?case
  proof (cases "map_of groups n")
    case None
    with Cons.prems have "ordered_loop r names groups = (views, rest)" by simp
    with Cons.IH [OF this] Cons.prems(2) None show ?thesis
      by (auto simp: restrict_map_def fun_eq_iff)
  next
    case (Some p)
    obtain vs where l: "ordered_loop r names (bt_remove n groups) = (vs, rest)" and v: "views = build_group n p r # vs"
      using Cons.prems(1) Some by (auto split: prod.splits)
    note ih = Cons.IH [OF l sorted_bt_remove [OF Cons.prems(2)]]
    have d: "dom ((map_of groups)(n := None)) = dom (map_of groups) - {n}" by auto
    have first: "map gv_name views = first_of (n # names) (dom (map_of groups))"
      using ih v Some unfolding map_of_bt_remove d by (auto simp: build_group_def)
    have each: "\<forall>g \<in> set views. \<exists>n p. map_of groups n = Some p \<and> g = build_group n p r"
    proof
      fix g assume "g \<in> set views"
      then consider "g = build_group n p r" | "g \<in> set vs" using v by auto
      then show "\<exists>n p. map_of groups n = Some p \<and> g = build_group n p r"
      proof cases
        case 2
        with ih obtain n' p' where "map_of (bt_remove n groups) n' = Some p'" "g = build_group n' p' r" by blast
        then show ?thesis by (auto simp: map_of_bt_remove split: if_splits)
      qed (use Some in blast)
    qed
    have "((map_of groups)(n := None)) |` (- set names) = (map_of groups) |` (- set (n # names))"
      by (auto simp: restrict_map_def fun_eq_iff)
    with ih first each show ?thesis unfolding map_of_bt_remove by metis
  qed
qed

subsection \<open>The parts of a view\<close>

text \<open>The names of the groups and of the nodes that the core reports.\<close>

definition core_groups_of :: "('t, 'h) proxy_view_input \<Rightarrow> string \<rightharpoonup> ('t, 'h) core_proxy" where
  "core_groups_of i name = (case map_of (in_proxies i) name of Some p \<Rightarrow> if px_all p = None then None else Some p | None \<Rightarrow> None)"

definition core_nodes_of :: "('t, 'h) proxy_view_input \<Rightarrow> string \<rightharpoonup> ('t, 'h) core_proxy" where
  "core_nodes_of i name = (case map_of (in_proxies i) name of Some p \<Rightarrow> if px_all p = None then Some p else None | None \<Rightarrow> None)"

lemma map_of_filter_snd: "distinct (map fst kvs) \<Longrightarrow>
    map_of (filter (\<lambda>(_, p). P p) kvs) k = (case map_of kvs k of Some p \<Rightarrow> if P p then Some p else None | None \<Rightarrow> None)"
  by (induction kvs) (auto simp: map_of_eq_None_iff image_iff split: option.split)

lemma distinct_fst_filter: "distinct (map fst kvs) \<Longrightarrow> distinct (map fst (filter P kvs))"
  by (induction kvs) auto

lemma partition_result:
  assumes "distinct (map fst (in_proxies i))" and "partition_core (in_proxies i) = (groups, nodes)"
  shows "map_of groups = core_groups_of i" and "map_of nodes = core_nodes_of i"
    and "sorted_wrt (<) (map fst groups)" and "sorted_wrt (<) (map fst nodes)"
proof -
  from assms(2) have g: "groups = bt_of (filter (\<lambda>(_, p). px_all p \<noteq> None) (in_proxies i))"
    and n: "nodes = bt_of (filter (\<lambda>(_, p). px_all p = None) (in_proxies i))" by (simp_all add: partition_core_def)
  note dg = bt_of_distinct [OF distinct_fst_filter [OF assms(1)]]
  show "map_of groups = core_groups_of i" "map_of nodes = core_nodes_of i"
    unfolding g n dg(1) by (auto simp: fun_eq_iff map_of_filter_snd [OF assms(1)] core_groups_of_def core_nodes_of_def split: option.split)
  show "sorted_wrt (<) (map fst groups)" "sorted_wrt (<) (map fst nodes)" unfolding g n by (rule dg(2))+
qed

text \<open>
  What every view is made of: the records, the identifiers of the core's nodes and of the providers' members are
  linked, and every group is built with one resolver over them.
\<close>

lemma build_view_parts:
  assumes d: "distinct (map fst (in_proxies i))"
  obtains ids cands r where
    "linked (vw_records (build_view i)) (map_of ids) cands" and "dom (map_of ids) = dom (core_nodes_of i)"
    and "sorted_wrt (<) (map fst ids)"
    and "r = \<lparr>res_groups = dom (core_groups_of i), res_core_ids = map_of ids, res_candidates = cands, res_available = (in_providers i \<noteq> None)\<rparr>"
    and "vw_global (build_view i) = map_option (\<lambda>p. build_group ''GLOBAL'' p r) (core_groups_of i ''GLOBAL'')"
    and "map gv_name (vw_groups (build_view i))
      = first_of (in_group_order i) (dom (core_groups_of i) - {''GLOBAL''})
        @ sorted_list_of_set (dom (core_groups_of i) - {''GLOBAL''} - set (in_group_order i))"
    and "\<forall>g \<in> set (vw_groups (build_view i)). \<exists>n p. core_groups_of i n = Some p \<and> g = build_group n p r"
    and "vw_direct (build_view i) = map_of ids ''DIRECT''" and "vw_standalone (build_view i) = build_standalone ids"
proof -
  obtain groups nodes where p: "partition_core (in_proxies i) = (groups, nodes)" by fastforce
  note pr = partition_result [OF d p]
  obtain records ids where c: "build_core_records nodes = (records, ids)" by fastforce
  obtain records' cands views where v: "build_provider_records (in_providers i) records = (records', cands, views)"
    by (metis prod.exhaust)
  let ?r = "\<lparr>res_groups = fst ` set groups, res_core_ids = map_of ids, res_candidates = cands, res_available = (in_providers i \<noteq> None)\<rparr>"
  obtain gs rest where o: "ordered_loop ?r (in_group_order i) (bt_remove ''GLOBAL'' groups) = (gs, rest)" by fastforce
  have cl: "linked records (map_of ids) (\<lambda>_. None)" "keys_below records (length nodes) 0 0"
    "fst ` set ids = fst ` set nodes" "sorted_wrt (<) (map fst ids)"
    using core_loop [OF c [unfolded build_core_records_def]] sorted_distinct [OF pr(4)]
    by (simp_all add: linked_def keys_below_def)
  have l: "linked records' (map_of ids) cands"
    by (rule providers_loop [OF v [unfolded build_provider_records_def], of _ "length nodes"]) (use cl in simp_all)
  have groups: "fst ` set groups = dom (core_groups_of i)" using pr(1) by (metis dom_map_of_conv_image_fst)
  have dids: "dom (map_of ids) = dom (core_nodes_of i)" using cl pr(2) by (metis Un_empty_left dom_map_of_conv_image_fst image_empty list.set(1))
  have avail: "((if in_providers i \<noteq> None then ProvidersReady else ProvidersUnavailable) = ProvidersReady) = (in_providers i \<noteq> None)"
    by simp
  have view: "vw_records (build_view i) = records'" "vw_global (build_view i) = map_option (\<lambda>p. build_group ''GLOBAL'' p ?r) (map_of groups ''GLOBAL'')"
    "vw_groups (build_view i) = gs @ map (\<lambda>(name, p). build_group name p ?r) rest"
    "vw_direct (build_view i) = map_of ids ''DIRECT''" "vw_standalone (build_view i) = build_standalone ids"
    by (simp_all only: build_view_def Let_def p c v avail o build_ordered_groups_def prod.case proxy_view.simps)
  note ol = ordered_loop_result [OF o sorted_bt_remove [OF pr(3)]]
  have dom: "dom (map_of (bt_remove ''GLOBAL'' groups)) = dom (core_groups_of i) - {''GLOBAL''}"
    unfolding map_of_bt_remove pr(1) by auto
  have rest_dom: "dom (map_of rest) = dom (core_groups_of i) - {''GLOBAL''} - set (in_group_order i)"
    using ol dom by auto
  have rest_names: "map fst rest = sorted_list_of_set (dom (core_groups_of i) - {''GLOBAL''} - set (in_group_order i))"
    using bt.keys_determined [of rest] ol unfolding rest_dom by blast
  have names: "map gv_name (vw_groups (build_view i))
      = first_of (in_group_order i) (dom (core_groups_of i) - {''GLOBAL''})
        @ sorted_list_of_set (dom (core_groups_of i) - {''GLOBAL''} - set (in_group_order i))"
  proof -
    have "map gv_name (map (\<lambda>(name, p). build_group name p ?r) rest) = map fst rest"
      by (simp add: build_group_def split_beta)
    with ol dom rest_names show ?thesis by (simp add: view(3))
  qed
  have each: "\<forall>g \<in> set (vw_groups (build_view i)). \<exists>n p. core_groups_of i n = Some p \<and> g = build_group n p ?r"
  proof
    fix g assume "g \<in> set (vw_groups (build_view i))"
    then consider "g \<in> set gs" | n p where "(n, p) \<in> set rest" "g = build_group n p ?r" unfolding view(3) by auto
    then show "\<exists>n p. core_groups_of i n = Some p \<and> g = build_group n p ?r"
    proof cases
      case 1
      with ol obtain n p where "map_of (bt_remove ''GLOBAL'' groups) n = Some p" "g = build_group n p ?r" by blast
      then show ?thesis using pr(1) by (auto simp: map_of_bt_remove split: if_splits)
    next
      case 2
      have "distinct (map fst rest)" using ol sorted_distinct by blast
      from map_of_is_SomeI [OF this 2(1)] ol have "map_of (bt_remove ''GLOBAL'' groups) n = Some p"
        by (simp add: restrict_map_def split: if_splits)
      with 2 show ?thesis using pr(1) by (auto simp: map_of_bt_remove split: if_splits)
    qed
  qed
  show ?thesis
    by (rule that [of ids cands ?r]) (use l dids cl groups view names each pr(1) in simp_all)
qed

subsection \<open>The properties\<close>

text \<open>The groups of a view, with the global one.\<close>

definition shown_groups :: "('t, 'h) proxy_view \<Rightarrow> ('t, 'h) group_view list" where
  "shown_groups v = (case vw_global v of Some g \<Rightarrow> g # vw_groups v | None \<Rightarrow> vw_groups v)"

lemma view_shows_every_group_once_facts:
  assumes "distinct (map fst (in_proxies i))"
  shows "map gv_name (vw_groups (build_view i))
      = first_of (in_group_order i) (dom (core_groups_of i) - {''GLOBAL''})
        @ sorted_list_of_set (dom (core_groups_of i) - {''GLOBAL''} - set (in_group_order i))
    \<and> distinct (map gv_name (shown_groups (build_view i)))
    \<and> set (map gv_name (shown_groups (build_view i))) = dom (core_groups_of i)"
proof -
  obtain ids cands r where
    g: "vw_global (build_view i) = map_option (\<lambda>p. build_group ''GLOBAL'' p r) (core_groups_of i ''GLOBAL'')" and
    n: "map gv_name (vw_groups (build_view i))
      = first_of (in_group_order i) (dom (core_groups_of i) - {''GLOBAL''})
        @ sorted_list_of_set (dom (core_groups_of i) - {''GLOBAL''} - set (in_group_order i))"
    by (rule build_view_parts [OF assms])
  have fin: "finite (dom (core_groups_of i))"
    by (rule finite_subset [OF _ finite_dom_map_of [of "in_proxies i"]]) (auto simp: core_groups_of_def split: option.splits if_splits)
  have d: "distinct (map gv_name (vw_groups (build_view i)))"
    unfolding n using fin by (auto simp: distinct_first_of set_first_of)
  have s: "set (map gv_name (vw_groups (build_view i))) = dom (core_groups_of i) - {''GLOBAL''}"
    unfolding n using fin by (auto simp: set_first_of)
  show ?thesis
  proof (cases "core_groups_of i ''GLOBAL''")
    case None
    with g have "shown_groups (build_view i) = vw_groups (build_view i)" by (simp add: shown_groups_def)
    moreover have "dom (core_groups_of i) - {''GLOBAL''} = dom (core_groups_of i)" using None by auto
    ultimately show ?thesis using n d s by metis
  next
    case (Some p)
    with g have v: "shown_groups (build_view i) = build_group ''GLOBAL'' p r # vw_groups (build_view i)" by (simp add: shown_groups_def)
    have name: "gv_name (build_group ''GLOBAL'' p r) = ''GLOBAL''" by (simp add: build_group_def)
    have "insert ''GLOBAL'' (dom (core_groups_of i) - {''GLOBAL''}) = dom (core_groups_of i)" using Some by auto
    with n d s show ?thesis unfolding v by (simp add: name)
  qed
qed

text \<open>A node, a group of it and of a provider's node, and no order of the running configuration.\<close>

definition example_proxy :: "string \<Rightarrow> string list option \<Rightarrow> (nat, nat) core_proxy" where
  "example_proxy name members = \<lparr>px_name = name, px_type = 0, px_alive = True, px_history = [], px_all = members,
     px_now = None, px_fixed = None, px_hidden = None, px_icon = None, px_test_url = None, px_id = None,
     px_caps = \<lparr>cap_udp = True, cap_xudp = False, cap_tfo = False, cap_mptcp = False, cap_smux = False\<rparr>\<rparr>"

definition example_input :: "(nat, nat) proxy_view_input" where
  "example_input = \<lparr>in_group_order = [],
     in_proxies = [(''A'', example_proxy ''A'' (Some [''DIRECT'', ''b''])), (''DIRECT'', example_proxy ''DIRECT'' None)],
     in_providers = Some [(''p'', \<lparr>pv_vehicle = VHttp, pv_proxies = [example_proxy ''b'' None], pv_updated_at = None,
       pv_subscription = None\<rparr>)]\<rparr>"

lemma example_input_distinct: "distinct (map fst (in_proxies example_input))"
  by (simp add: example_input_def)

text \<open>
  Every group the core reports is shown exactly once: the global one apart, the others in the order of the
  running configuration, and those it does not name after them in the order of their names.
\<close>

theorem view_shows_every_group_once:
  assumes "distinct (map fst (in_proxies i))"
  shows "map gv_name (vw_groups (build_view i))
      = first_of (in_group_order i) (dom (core_groups_of i) - {''GLOBAL''})
        @ sorted_list_of_set (dom (core_groups_of i) - {''GLOBAL''} - set (in_group_order i))
    \<and> distinct (map gv_name (shown_groups (build_view i)))
    \<and> set (map gv_name (shown_groups (build_view i))) = dom (core_groups_of i)"
  by (rule view_shows_every_group_once_facts [OF assms])

theorem view_shows_every_group_once_witness:
  "map gv_name (vw_groups (build_view example_input))
     = first_of (in_group_order example_input) (dom (core_groups_of example_input) - {''GLOBAL''})
       @ sorted_list_of_set (dom (core_groups_of example_input) - {''GLOBAL''} - set (in_group_order example_input))
   \<and> set (map gv_name (shown_groups (build_view example_input))) = dom (core_groups_of example_input)"
  using view_shows_every_group_once [OF example_input_distinct] by blast

text \<open>What a member of a group refers to.\<close>

definition member_resolves :: "('t, 'h) proxy_view_input \<Rightarrow> ('t, 'h) proxy_view \<Rightarrow> member_ref \<Rightarrow> bool" where
  "member_resolves i v m = (case m of
       GroupRef n \<Rightarrow> n \<in> gv_name ` set (shown_groups v)
     | NodeRef n record_id \<Rightarrow> (\<exists>source. record_of (vw_records v) record_id n source)
     | UnresolvedRef n reason \<Rightarrow> map_of (in_proxies i) n = None \<and> (reason = ProviderUnavailable) = (in_providers i = None))"



text \<open>
  Every node of the core has exactly one record, which carries its name, and the standalone list names
  exactly these records, each once, with the direct one first.
\<close>

theorem view_has_one_record_per_node:
  assumes d: "distinct (map fst (in_proxies i))"
  shows "(\<forall>n. core_nodes_of i n \<noteq> None \<longleftrightarrow> (\<exists>!record_id. record_of (vw_records (build_view i)) record_id n (CoreNode n)))
    \<and> distinct (vw_standalone (build_view i))
    \<and> set (vw_standalone (build_view i)) = {record_id. \<exists>n. record_of (vw_records (build_view i)) record_id n (CoreNode n)}
    \<and> (case vw_direct (build_view i) of Some record_id \<Rightarrow> vw_standalone (build_view i) ! 0 = record_id | None \<Rightarrow> core_nodes_of i ''DIRECT'' = None)"
proof -
  let ?v = "build_view i"
  obtain ids cands r where
    l: "linked (vw_records ?v) (map_of ids) cands" and di: "dom (map_of ids) = dom (core_nodes_of i)" and
    s: "sorted_wrt (<) (map fst ids)" and dir: "vw_direct ?v = map_of ids ''DIRECT''" and st: "vw_standalone ?v = build_standalone ids"
    by (rule build_view_parts [OF d])
  have rec: "record_of (vw_records ?v) rid n (CoreNode n) \<longleftrightarrow> map_of ids n = Some rid" for rid n
    using linkedD(1,3) [OF l] by (fastforce simp: record_of_def)
  have inj: "map_of ids n = Some rid \<Longrightarrow> map_of ids m = Some rid \<Longrightarrow> m = n" for m n rid
    using linkedD(1) [OF l, of n rid] linkedD(1) [OF l, of m rid] by (auto simp: record_of_def)
  have dk: "distinct (map fst ids)" by (rule sorted_distinct [OF s])
  let ?others = "filter (\<lambda>(name, _). name \<noteq> ''DIRECT'' \<and> name \<noteq> ''REJECT'') ids"
  have others: "rid \<in> snd ` set ?others \<longleftrightarrow> (\<exists>n. map_of ids n = Some rid \<and> n \<noteq> ''DIRECT'' \<and> n \<noteq> ''REJECT'')" for rid
    using dk by (force simp: image_iff)
  have do: "distinct (map snd ?others)"
  proof -
    have "inj_on snd (set ids)" using inj dk by (auto simp: inj_on_def)
    moreover have "distinct ids" using dk by (simp add: distinct_map)
    ultimately show ?thesis by (simp add: distinct_map inj_on_subset)
  qed
  let ?one = "\<lambda>n. case map_of ids n of Some r \<Rightarrow> [r] | None \<Rightarrow> []"
  have bs: "build_standalone ids = ?one ''DIRECT'' @ ?one ''REJECT'' @ map snd ?others"
    by (simp add: build_standalone_def List.map_filter_def split: option.split)
  have one: "set (?one n) = {rid. map_of ids n = Some rid}" "distinct (?one n)" for n by (auto split: option.split)
  have so: "set (map snd ?others) = {rid. \<exists>n. map_of ids n = Some rid \<and> n \<noteq> ''DIRECT'' \<and> n \<noteq> ''REJECT''}"
    using others by auto
  have std1: "set (build_standalone ids) = {rid. \<exists>n. map_of ids n = Some rid}"
    unfolding bs set_append one(1) so by blast
  have "set (?one ''DIRECT'') \<inter> set (?one ''REJECT'') = {}"
    unfolding one(1) using inj [of "''DIRECT''" _ "''REJECT''"] by auto
  moreover have "set (?one n) \<inter> set (map snd ?others) = {}" if "n = ''DIRECT'' \<or> n = ''REJECT''" for n
    unfolding one(1) so using inj that by blast
  ultimately have std2: "distinct (build_standalone ids)"
    unfolding bs distinct_append set_append using one(2) do by blast
  have std3: "map_of ids ''DIRECT'' = Some rid \<Longrightarrow> build_standalone ids ! 0 = rid" for rid by (simp add: bs)
  have nodes: "core_nodes_of i n \<noteq> None \<longleftrightarrow> (\<exists>!rid. map_of ids n = Some rid)" for n
    using di by (cases "map_of ids n") (auto simp: domIff)
  have none: "map_of ids ''DIRECT'' = None \<Longrightarrow> core_nodes_of i ''DIRECT'' = None" using di by (auto simp: domIff)
  show ?thesis
    unfolding dir st rec
    using nodes std1 std2 std3 none by (simp split: option.split)
qed

theorem view_has_one_record_per_node_witness:
  "(\<exists>!record_id. record_of (vw_records (build_view example_input)) record_id ''DIRECT'' (CoreNode ''DIRECT''))
   \<and> distinct (vw_standalone (build_view example_input))"
proof -
  have "core_nodes_of example_input ''DIRECT'' \<noteq> None"
    by (simp add: core_nodes_of_def example_input_def example_proxy_def)
  with view_has_one_record_per_node [OF example_input_distinct] show ?thesis by blast
qed

end
