(* ===== verification/Sysopt.thy ===== *)
theory Sysopt
  imports ProxyControl
begin

section \<open>The local writer of the system proxy: \<open>core/sysopt.rs\<close>\<close>

text \<open>
  The writer compares the proxy of the system with its own record of ownership, stops the guard of the
  \<open>sysproxy\<close> crate, writes both kinds of proxy in an order that never enables two, confirms the result, and
  undoes a partial write.  The crate answers through arguments over an opaque outside \<open>'o\<close>: the system, the
  guard and, between two calls, whatever other tasks and processes do.  The world logs every call of the crate;
  the fields of the writer are only touched under \<open>update_lock\<close>, so one operation is one function.
\<close>

subsection \<open>Proxies, guards and calls\<close>

record sysproxy =
  sp_enable :: bool
  sp_host :: string
  sp_port :: u16
  sp_bypass :: string

record autoproxy =
  ap_enable :: bool
  ap_url :: string

type_synonym proxies = "sysproxy \<times> autoproxy"

datatype guard_type = GuardNone | GuardSys sysproxy | GuardAuto autoproxy

datatype proxy_call =
    CallGetSystem "sysproxy_error + sysproxy"
  | CallGetAuto "sysproxy_error + autoproxy"
  | CallSnapshot bool sysproxy autoproxy
  | CallSetSystem sysproxy "sysproxy_error + unit"
  | CallSetAuto autoproxy "sysproxy_error + unit"
  | CallGuardShutdown
  | CallGuardDrained bool
  | CallGuardStart bool
  | CallGuardInterval u64
  | CallGuardType guard_type

record ('o, 'n) writer_env =
  we_plat :: platform
  we_verge :: iverge
  we_bypass_verge :: iverge
  we_port :: u16
  we_pac_port :: "u16 option"
  we_get_system :: "'o \<Rightarrow> (sysproxy_error + sysproxy) \<times> 'o"
  we_get_auto :: "'o \<Rightarrow> (sysproxy_error + autoproxy) \<times> 'o"
  we_set_system :: "sysproxy \<Rightarrow> 'o \<Rightarrow> (sysproxy_error + unit) \<times> 'o"
  we_set_auto :: "autoproxy \<Rightarrow> 'o \<Rightarrow> (sysproxy_error + unit) \<times> 'o"
  we_snapshot :: "'o \<Rightarrow> (sysproxy_error + 'n) \<times> 'o"
  we_matches_pac :: "'n \<Rightarrow> autoproxy \<Rightarrow> bool"
  we_matches_global :: "'n \<Rightarrow> sysproxy \<Rightarrow> bool"
  we_bypass_matches :: "'n \<Rightarrow> string \<Rightarrow> bool"
  we_all_disabled :: "'n \<Rightarrow> bool"
  we_partly_written :: "sysproxy_error \<Rightarrow> bool"
  we_join :: "'o \<Rightarrow> string option \<times> 'o"
  we_guard_shutdown :: "'o \<Rightarrow> 'o"
  we_guard_drained :: "'o \<Rightarrow> bool \<times> 'o"
  we_guard_start :: "'o \<Rightarrow> bool \<times> 'o"
  we_guard_pending :: "'o \<Rightarrow> bool \<times> 'o"
  we_guard_stopped :: "'o \<Rightarrow> bool \<times> 'o"
  we_guard_interval :: "u64 \<Rightarrow> 'o \<Rightarrow> 'o"
  we_guard_type :: "guard_type \<Rightarrow> 'o \<Rightarrow> 'o"

record 'o writer =
  wr_reset :: bool
  wr_inner :: proxies
  wr_owned :: "proxies option"
  wr_writes_disabled :: bool
  wr_out :: 'o
  wr_calls :: "proxy_call list"

definition observe :: "('o \<Rightarrow> 'a \<times> 'o) \<Rightarrow> ('a \<Rightarrow> proxy_call list) \<Rightarrow> 'o writer \<Rightarrow> 'a \<times> 'o writer" where
  "observe f logged w = (let (x, out) = f (wr_out w) in (x, w\<lparr>wr_out := out, wr_calls := wr_calls w @ logged x\<rparr>))"

subsection \<open>Settings and comparisons\<close>

datatype proxy_apply_step = StepSysproxy | StepAutoproxy

definition proxy_apply_steps :: "bool \<Rightarrow> bool \<Rightarrow> proxy_apply_step list" where
  "proxy_apply_steps sys_enabled auto_enabled =
     (if sys_enabled \<and> \<not> auto_enabled then [StepAutoproxy, StepSysproxy] else [StepSysproxy, StepAutoproxy])"

definition system_proxy_writes_disabled_for :: "string option \<Rightarrow> bool" where
  "system_proxy_writes_disabled_for value \<longleftrightarrow>
     value \<in> {Some ''1'', Some ''true'', Some ''TRUE'', Some ''yes'', Some ''YES''}"

definition writer_new :: "string option \<Rightarrow> 'o \<Rightarrow> 'o writer" where
  "writer_new env_value out = \<lparr>wr_reset = False,
     wr_inner = (\<lparr>sp_enable = False, sp_host = [], sp_port = 0, sp_bypass = []\<rparr>, \<lparr>ap_enable = False, ap_url = []\<rparr>),
     wr_owned = None, wr_writes_disabled = system_proxy_writes_disabled_for env_value, wr_out = out, wr_calls = []\<rparr>"

definition proxy_state_matches :: "proxies \<Rightarrow> proxies \<Rightarrow> bool" where
  "proxy_state_matches current target \<longleftrightarrow> current = target"

definition enabled_proxy_target_matches :: "proxies \<Rightarrow> proxies \<Rightarrow> bool" where
  "enabled_proxy_target_matches current target \<longleftrightarrow>
     (if sp_enable (fst target) then fst current = fst target
      else \<not> sp_enable (fst current) \<and> snd current = snd target)"

datatype authoritative_state = Unchanged | Unknown

fun downcast_sys :: "error \<Rightarrow> sysproxy_error option" where
  "downcast_sys [] = None"
| "downcast_sys (Sys e # cs) = Some e"
| "downcast_sys (_ # cs) = downcast_sys cs"

definition authoritative_state_from :: "('o, 'n) writer_env \<Rightarrow> bool \<Rightarrow> error \<Rightarrow> bool \<Rightarrow> authoritative_state" where
  "authoritative_state_from env write_evidence_is_reliable e earlier_step_completed =
     (if \<not> write_evidence_is_reliable then Unchanged
      else if earlier_step_completed then Unknown
      else (case downcast_sys e of Some s \<Rightarrow> if we_partly_written env s then Unknown else Unchanged | None \<Rightarrow> Unchanged))"

definition authoritative_state :: "('o, 'n) writer_env \<Rightarrow> error \<Rightarrow> bool \<Rightarrow> authoritative_state" where
  "authoritative_state env e earlier_step_completed =
     authoritative_state_from env (we_plat env \<noteq> Linux) e earlier_step_completed"

datatype os_proxy_state = AlreadyApplied | DifferentOrUnknown

definition target_is_already_in_place :: "('o, 'n) writer_env \<Rightarrow> 'n \<Rightarrow> sysproxy \<Rightarrow> autoproxy \<Rightarrow> bool" where
  "target_is_already_in_place env snap sys auto =
     (if ap_enable auto then we_matches_pac env snap auto \<and> we_bypass_matches env snap (sp_bypass sys)
      else if sp_enable sys then we_matches_global env snap sys
      else we_all_disabled env snap)"

definition classify_os_proxy_state :: "error + bool \<Rightarrow> os_proxy_state" where
  "classify_os_proxy_state answer_of = (if answer_of = Inr True then AlreadyApplied else DifferentOrUnknown)"

definition read_os_proxy_state :: "('o, 'n) writer_env \<Rightarrow> sysproxy \<Rightarrow> autoproxy \<Rightarrow> 'o writer \<Rightarrow> os_proxy_state \<times> 'o writer" where
  "read_os_proxy_state env sys auto w =
     (if we_plat env = MacOS
      then let (x, w) = observe (we_snapshot env) (\<lambda>x. [CallSnapshot (case x of Inr n \<Rightarrow> target_is_already_in_place env n sys auto | Inl _ \<Rightarrow> False) sys auto]) w
           in (classify_os_proxy_state (map_sum (\<lambda>e. [Sys e]) (\<lambda>n. target_is_already_in_place env n sys auto) x), w)
      else (classify_os_proxy_state (Inl (bail ''per-protocol proxy snapshots are macOS only'')), w))"

definition current_os_proxy_state :: "('o, 'n) writer_env \<Rightarrow> sysproxy \<Rightarrow> autoproxy \<Rightarrow> 'o writer \<Rightarrow> os_proxy_state \<times> 'o writer" where
  "current_os_proxy_state env sys auto w =
     (let (state, w) = read_os_proxy_state env sys auto w; (join_error, w) = observe (we_join env) (\<lambda>_. []) w
      in (case join_error of None \<Rightarrow> state | Some _ \<Rightarrow> DifferentOrUnknown, w))"

text \<open>The bypass list of each platform; \<open>angle\<close> is the last word of two of them.\<close>

definition default_bypass :: "platform \<Rightarrow> string" where
  "default_bypass plat = (case plat of
       Windows \<Rightarrow> ''localhost;127.*;192.168.*;10.*;172.16.*;172.17.*;172.18.*;172.19.*;172.20.*;172.21.*;172.22.*;172.23.*;172.24.*;172.25.*;172.26.*;172.27.*;172.28.*;172.29.*;172.30.*;172.31.*;<local>''
     | Linux \<Rightarrow> ''localhost,127.0.0.1,192.168.0.0/16,10.0.0.0/8,172.16.0.0/12,::1''
     | MacOS \<Rightarrow> ''127.0.0.1,192.168.0.0/16,10.0.0.0/8,172.16.0.0/12,localhost,*.local,*.crashlytics.com,<local>'')"

definition bypass_separator :: "platform \<Rightarrow> string" where
  "bypass_separator plat = (if plat = Windows then '';'' else '','')"

definition format_bypass :: "platform \<Rightarrow> bool \<Rightarrow> string \<Rightarrow> string" where
  "format_bypass plat use_default custom_bypass =
     (if custom_bypass = [] then default_bypass plat
      else if use_default then default_bypass plat @ bypass_separator plat @ custom_bypass
      else custom_bypass)"

definition get_bypass :: "('o, 'n) writer_env \<Rightarrow> string" where
  "get_bypass env = format_bypass (we_plat env) (unwrap_or True (use_default_bypass (we_bypass_verge env)))
     (unwrap_or [] (system_proxy_bypass (we_bypass_verge env)))"

subsection \<open>Writes\<close>

definition set_system_proxy :: "('o, 'n) writer_env \<Rightarrow> sysproxy \<Rightarrow> 'o writer \<Rightarrow> (sysproxy_error + unit) \<times> 'o writer" where
  "set_system_proxy env sys = observe (we_set_system env sys) (\<lambda>r. [CallSetSystem sys r])"

definition set_auto_proxy :: "('o, 'n) writer_env \<Rightarrow> autoproxy \<Rightarrow> 'o writer \<Rightarrow> (sysproxy_error + unit) \<times> 'o writer" where
  "set_auto_proxy env auto = observe (we_set_auto env auto) (\<lambda>r. [CallSetAuto auto r])"

definition skip_without_network_service :: "platform \<Rightarrow> bool \<Rightarrow> sysproxy_error + unit \<Rightarrow> bool outcome" where
  "skip_without_network_service plat enabling outcome =
     (case outcome of
        Inl e \<Rightarrow> if \<not> enabling \<and> is_missing_network_service plat e then Inr False else Inl [Sys e]
      | Inr _ \<Rightarrow> Inr True)"

text \<open>Results in order; what failed is only logged by the code, apart from the first failure.\<close>

fun first_failure :: "unit outcome list \<Rightarrow> unit outcome" where
  "first_failure [] = Inr ()"
| "first_failure (Inl e # attempts) = Inl e"
| "first_failure (Inr _ # attempts) = first_failure attempts"

definition disable_both :: "('w \<Rightarrow> unit outcome \<times> 'w) \<Rightarrow> ('w \<Rightarrow> unit outcome \<times> 'w) \<Rightarrow> 'w \<Rightarrow> unit outcome \<times> 'w" where
  "disable_both disable_global disable_pac w =
     (let (global, w) = disable_global w; (pac, w) = disable_pac w in (first_failure [global, pac], w))"

definition joined :: "('o, 'n) writer_env \<Rightarrow> 'a outcome \<times> 'o writer \<Rightarrow> 'a outcome \<times> 'o writer" where
  "joined env r = (let (x, w) = r; (join_error, w) = observe (we_join env) (\<lambda>_. []) w
     in (case join_error of None \<Rightarrow> x | Some e \<Rightarrow> Inl [Text e], w))"

definition disable_all_proxies :: "('o, 'n) writer_env \<Rightarrow> sysproxy \<Rightarrow> autoproxy \<Rightarrow> 'o writer \<Rightarrow> unit outcome \<times> 'o writer" where
  "disable_all_proxies env sys auto w =
     joined env (disable_both
       (\<lambda>w. map_prod (\<lambda>r. map_sum id (\<lambda>_. ()) (skip_without_network_service (we_plat env) (sp_enable sys) r)) id (set_system_proxy env sys w))
       (\<lambda>w. map_prod (\<lambda>r. map_sum id (\<lambda>_. ()) (skip_without_network_service (we_plat env) (ap_enable auto) r)) id (set_auto_proxy env auto w)) w)"

definition disable_until_the_last_write_is_ours ::
    "bool \<Rightarrow> ('w \<Rightarrow> unit outcome \<times> 'w) \<Rightarrow> ('w \<Rightarrow> bool \<times> 'w) \<Rightarrow> 'w \<Rightarrow> unit outcome \<times> 'w" where
  "disable_until_the_last_write_is_ours drained disable drain_again w =
     try_then (disable w) (\<lambda>_ w. if drained then (Inr (), w) else disable (snd (drain_again w)))"

definition read_both :: "('o, 'n) writer_env \<Rightarrow> 'o writer \<Rightarrow> proxies outcome \<times> 'o writer" where
  "read_both env w =
     joined env
       (try_then (map_prod (map_sum (\<lambda>e. [Sys e]) id) id (observe (we_get_system env) (\<lambda>r. [CallGetSystem r]) w)) (\<lambda>sys w.
        try_then (map_prod (map_sum (\<lambda>e. [Sys e]) id) id (observe (we_get_auto env) (\<lambda>r. [CallGetAuto r]) w)) (\<lambda>auto w.
        (Inr (sys, auto), w))))"

subsection \<open>The guard\<close>

definition set_guard_type :: "('o, 'n) writer_env \<Rightarrow> guard_type \<Rightarrow> 'o writer \<Rightarrow> 'o writer" where
  "set_guard_type env t w = snd (observe (\<lambda>out. ((), we_guard_type env t out)) (\<lambda>_. [CallGuardType t]) w)"

definition start_guard :: "('o, 'n) writer_env \<Rightarrow> 'o writer \<Rightarrow> bool \<times> 'o writer" where
  "start_guard env = observe (we_guard_start env) (\<lambda>r. [CallGuardStart r])"

definition stop_proxy_guard_locked :: "('o, 'n) writer_env \<Rightarrow> 'o writer \<Rightarrow> bool \<times> 'o writer" where
  "stop_proxy_guard_locked env w =
     (let w = snd (observe (\<lambda>out. ((), we_guard_shutdown env out)) (\<lambda>_. [CallGuardShutdown]) w)
      in observe (we_guard_drained env) (\<lambda>d. [CallGuardDrained d]) w)"

definition stop_proxy_guard :: "('o, 'n) writer_env \<Rightarrow> 'o writer \<Rightarrow> bool \<times> 'o writer" where
  "stop_proxy_guard env w = stop_proxy_guard_locked env w"

text \<open>The loop polls until the guard is no longer pending; \<open>None\<close> means that it polls for ever.\<close>

partial_function (option) wait_while_pending :: "('o, 'n) writer_env \<Rightarrow> 'o writer \<Rightarrow> 'o writer option" where
  "wait_while_pending env w =
     (let (pending, w) = observe (we_guard_pending env) (\<lambda>_. []) w in if pending then wait_while_pending env w else Some w)"

definition refresh_local_guard :: "('o, 'n) writer_env \<Rightarrow> 'o writer \<Rightarrow> (bool \<times> 'o writer) option" where
  "refresh_local_guard env w =
     (if wr_writes_disabled w then Some (True, snd (stop_proxy_guard_locked env w))
      else if \<not> unwrap_or False (enable_system_proxy (we_verge env)) then Some (True, snd (stop_proxy_guard_locked env w))
      else if \<not> unwrap_or False (enable_proxy_guard (we_verge env)) then Some (True, snd (stop_proxy_guard_locked env w))
      else (let seconds = unwrap_or 30 (proxy_guard_duration (we_verge env));
                w = snd (observe (\<lambda>out. ((), we_guard_interval env seconds out)) (\<lambda>_. [CallGuardInterval seconds]) w);
                w = snd (start_guard env w)
            in case wait_while_pending env w of
                 None \<Rightarrow> None
               | Some w \<Rightarrow> (let (stopped, w) = observe (we_guard_stopped env) (\<lambda>_. []) w in Some (\<not> stopped, w))))"

definition recover_guard_after_failure :: "('o, 'n) writer_env \<Rightarrow> authoritative_state \<Rightarrow> bool \<Rightarrow> 'o writer \<Rightarrow> 'o writer" where
  "recover_guard_after_failure env state was_running w =
     (case state of
        Unchanged \<Rightarrow> if was_running then snd (start_guard env w) else w
      | Unknown \<Rightarrow> set_guard_type env GuardNone w)"

definition recover_from_failed_write :: "('o, 'n) writer_env \<Rightarrow> error \<Rightarrow> bool \<Rightarrow> (authoritative_state \<Rightarrow> 'w \<Rightarrow> 'w)
    \<Rightarrow> ('w \<Rightarrow> unit outcome \<times> 'w) \<Rightarrow> 'w \<Rightarrow> error \<times> 'w" where
  "recover_from_failed_write env e earlier_step_completed recover_guard compensate w =
     (let state = authoritative_state env e earlier_step_completed; w = recover_guard state w
      in case state of
           Unchanged \<Rightarrow> (e, w)
         | Unknown \<Rightarrow> (let (_, w) = compensate w in (add_context StateUnknown e, w)))"

definition writer_recover :: "('o, 'n) writer_env \<Rightarrow> error \<Rightarrow> bool \<Rightarrow> bool \<Rightarrow> proxies \<Rightarrow> 'o writer \<Rightarrow> error \<times> 'o writer" where
  "writer_recover env e earlier_step_completed guard_was_running off =
     recover_from_failed_write env e earlier_step_completed
       (\<lambda>state. recover_guard_after_failure env state guard_was_running)
       (disable_all_proxies env (fst off) (snd off))"

subsection \<open>Applying the settings\<close>

definition configure_target :: "('o, 'n) writer_env \<Rightarrow> u16 \<Rightarrow> proxies \<times> guard_type" where
  "configure_target env pac_port =
     (let v = we_verge env;
          host = unwrap_or ''127.0.0.1'' (proxy_host v);
          guarded = unwrap_or False (enable_proxy_guard v);
          sys = \<lparr>sp_enable = False, sp_host = host, sp_port = we_port env, sp_bypass = get_bypass env\<rparr>;
          auto = \<lparr>ap_enable = False, ap_url = ''http://'' @ host @ '':'' @ show_nat (unat pac_port) @ ''/commands/pac''\<rparr>
      in if \<not> unwrap_or False (enable_system_proxy v) then ((sys, auto), GuardNone)
         else if unwrap_or False (proxy_auto_config v)
         then (let auto = auto\<lparr>ap_enable := True\<rparr> in ((sys, auto), if guarded then GuardAuto auto else GuardNone))
         else (let sys = sys\<lparr>sp_enable := True\<rparr> in ((sys, auto), if guarded then GuardSys sys else GuardNone)))"

definition apply_step :: "('o, 'n) writer_env \<Rightarrow> proxies \<Rightarrow> proxy_apply_step \<Rightarrow> 'o writer \<Rightarrow> bool outcome \<times> 'o writer" where
  "apply_step env target step w =
     (case step of
        StepAutoproxy \<Rightarrow> map_prod (skip_without_network_service (we_plat env) (ap_enable (snd target))) id (set_auto_proxy env (snd target) w)
      | StepSysproxy \<Rightarrow> map_prod (skip_without_network_service (we_plat env) (sp_enable (fst target))) id (set_system_proxy env (fst target) w))"

fun apply_loop :: "('o, 'n) writer_env \<Rightarrow> proxies \<Rightarrow> bool \<Rightarrow> proxy_apply_step list \<Rightarrow> 'o writer
    \<Rightarrow> (bool \<times> error + unit) \<times> 'o writer" where
  "apply_loop env target earlier_step_reached_os [] w = (Inr (), w)"
| "apply_loop env target earlier_step_reached_os (step # steps) w =
     (case apply_step env target step w of
        (Inr reached_os, w) \<Rightarrow> apply_loop env target (earlier_step_reached_os \<or> reached_os) steps w
      | (Inl e, w) \<Rightarrow> (Inl (earlier_step_reached_os, e), w))"

definition apply_target :: "('o, 'n) writer_env \<Rightarrow> proxies \<Rightarrow> 'o writer \<Rightarrow> (bool \<times> error + unit) \<times> 'o writer" where
  "apply_target env target w =
     (let (applied, w) = apply_loop env target False (proxy_apply_steps (sp_enable (fst target)) (ap_enable (snd target))) w;
          (join_error, w) = observe (we_join env) (\<lambda>_. []) w
      in (case join_error of
            None \<Rightarrow> applied
          | Some e \<Rightarrow> Inl (False, add_context (Text ''the system proxy write task did not finish'') [Text e]), w))"

definition off_of :: "proxies \<Rightarrow> proxies" where
  "off_of target = ((fst target)\<lparr>sp_enable := False\<rparr>, (snd target)\<lparr>ap_enable := False\<rparr>)"

definition enabled :: "proxies \<Rightarrow> bool" where
  "enabled target \<longleftrightarrow> sp_enable (fst target) \<or> ap_enable (snd target)"

definition confirm_target :: "('o, 'n) writer_env \<Rightarrow> proxies \<Rightarrow> proxies option \<Rightarrow> proxies \<Rightarrow> 'o writer \<Rightarrow> unit outcome \<times> 'o writer" where
  "confirm_target env target owned_before observed_before w =
     (if enabled target then
        try_then (read_both env w) (\<lambda>observed_after w.
        if \<not> enabled_proxy_target_matches observed_after target
        then (Inl (bail ''System proxy changed before its applied state could be confirmed.''), w)
        else if owned_before \<noteq> None \<or> \<not> proxy_state_matches observed_before target
        then (Inr (), w\<lparr>wr_owned := Some observed_after\<rparr>)
        else (Inr (), w))
      else (Inr (), w\<lparr>wr_owned := None\<rparr>))"

definition write_target :: "('o, 'n) writer_env \<Rightarrow> proxies \<Rightarrow> guard_type \<Rightarrow> proxies option \<Rightarrow> proxies \<Rightarrow> 'o writer
    \<Rightarrow> unit outcome \<times> 'o writer" where
  "write_target env target guard_type owned_before observed_before w =
     (let (stopped, w) = observe (we_guard_stopped env) (\<lambda>_. []) w;
          (drained, w) = stop_proxy_guard_locked env w;
          (state, w) = (if we_plat env = MacOS \<and> drained then current_os_proxy_state env (fst target) (snd target) w
                        else (DifferentOrUnknown, w))
      in if state = AlreadyApplied then (Inr (), set_guard_type env guard_type w)
         else case apply_target env target w of
             (Inl (earlier_step_completed, e), w) \<Rightarrow>
               (let (e, w) = writer_recover env e earlier_step_completed (\<not> stopped) (off_of target) w in (Inl e, w))
           | (Inr _, w) \<Rightarrow>
               try_then (confirm_target env target owned_before observed_before w) (\<lambda>_ w. (Inr (), set_guard_type env guard_type w)))"

definition changed_by_another :: "proxies option \<Rightarrow> proxies \<Rightarrow> bool" where
  "changed_by_another owned_before observed = (case owned_before of Some owned \<Rightarrow> \<not> proxy_state_matches observed owned | None \<Rightarrow> False)"

definition update_sysproxy :: "('o, 'n) writer_env \<Rightarrow> 'o writer \<Rightarrow> unit outcome \<times> 'o writer" where
  "update_sysproxy env w =
     (if wr_writes_disabled w then (Inr (), snd (stop_proxy_guard_locked env w))
      else case we_pac_port env of
        None \<Rightarrow> (Inl (bail ''embedded server port is not initialized''), w)
      | Some pac_port \<Rightarrow>
          (let (target, guard_type) = configure_target env pac_port; w = w\<lparr>wr_inner := target\<rparr>; owned_before = wr_owned w
           in if \<not> enabled target \<and> owned_before = None then (Inr (), snd (stop_proxy_guard_locked env w))
              else try_then (read_both env w) (\<lambda>observed_before w.
                if \<not> enabled target \<and> changed_by_another owned_before observed_before
                then (Inr (), snd (stop_proxy_guard_locked env (w\<lparr>wr_owned := None\<rparr>)))
                else write_target env target guard_type owned_before observed_before w)))"

subsection \<open>Clearing the proxy\<close>

definition reset_owned :: "('o, 'n) writer_env \<Rightarrow> 'o writer \<Rightarrow> unit outcome \<times> 'o writer" where
  "reset_owned env w =
     (let (drained, w) = stop_proxy_guard_locked env w;
          off = off_of (wr_inner w); w = w\<lparr>wr_inner := off\<rparr>;
          (state, w) = (if we_plat env = MacOS \<and> drained then current_os_proxy_state env (fst off) (snd off) w
                        else (DifferentOrUnknown, w))
      in if state = AlreadyApplied then (Inr (), w)
         else (case disable_until_the_last_write_is_ours drained (disable_all_proxies env (fst off) (snd off)) (stop_proxy_guard_locked env) w of
             (Inr _, w) \<Rightarrow> (Inr (), w\<lparr>wr_owned := None\<rparr>)
           | (Inl e, w) \<Rightarrow> (Inl e, w)))"

definition reset_locked :: "('o, 'n) writer_env \<Rightarrow> 'o writer \<Rightarrow> unit outcome \<times> 'o writer" where
  "reset_locked env w =
     (case wr_owned w of
        None \<Rightarrow> (Inr (), w)
      | Some owned \<Rightarrow>
          try_then (read_both env w) (\<lambda>observed w.
          if \<not> proxy_state_matches observed owned then (Inr (), w\<lparr>wr_owned := None\<rparr>) else reset_owned env w))"

definition reset_sysproxy :: "('o, 'n) writer_env \<Rightarrow> 'o writer \<Rightarrow> unit outcome \<times> 'o writer" where
  "reset_sysproxy env w =
     (if wr_writes_disabled w then (Inr (), snd (stop_proxy_guard_locked env w))
      else if wr_reset w then (Inr (), w)
      else (let (r, w) = reset_locked env (w\<lparr>wr_reset := True\<rparr>) in (r, w\<lparr>wr_reset := False\<rparr>)))"

end
