(* ===== verification/SysoptProps.thy ===== *)
theory SysoptProps
  imports Sysopt
begin

section \<open>What the local writer guarantees\<close>

text \<open>
  Every operation extends the log of calls; the lemmas say by which calls, and the properties read them off.
\<close>

subsection \<open>Logs\<close>

definition logs :: "'o writer \<Rightarrow> proxy_call list \<Rightarrow> 'o writer \<Rightarrow> bool" where
  "logs w cs w' \<longleftrightarrow> wr_calls w' = wr_calls w @ cs \<and> wr_owned w' = wr_owned w \<and> wr_inner w' = wr_inner w
     \<and> wr_reset w' = wr_reset w \<and> wr_writes_disabled w' = wr_writes_disabled w"

lemma logs_trans: "logs w cs v \<Longrightarrow> logs v ds u \<Longrightarrow> logs w (cs @ ds) u"
  by (simp add: logs_def)

lemma logs_refl: "logs w [] w"
  by (simp add: logs_def)

lemma observe_logs: "observe f logged w = (x, w') \<Longrightarrow> logs w (logged x) w'"
  by (auto simp: observe_def logs_def split: prod.splits)

definition is_write :: "proxy_call \<Rightarrow> bool" where
  "is_write c = (case c of CallSetSystem _ _ \<Rightarrow> True | CallSetAuto _ _ \<Rightarrow> True | _ \<Rightarrow> False)"

text \<open>Calls that neither write nor direct the guard.\<close>

definition quiet :: "proxy_call \<Rightarrow> bool" where
  "quiet c = (case c of CallSetSystem _ _ \<Rightarrow> False | CallSetAuto _ _ \<Rightarrow> False | CallGuardType _ \<Rightarrow> False | CallGuardStart _ \<Rightarrow> False
     | CallGuardInterval _ \<Rightarrow> False | _ \<Rightarrow> True)"

lemma quiet_simps [simp]: "quiet (CallGetSystem r)" "quiet (CallGetAuto a)" "quiet (CallSnapshot b s p)" "quiet CallGuardShutdown"
  "quiet (CallGuardDrained b)" "\<not> quiet (CallSetSystem s q)" "\<not> quiet (CallSetAuto p q)" "\<not> quiet (CallGuardType t)"
  "\<not> quiet (CallGuardStart b)" "\<not> quiet (CallGuardInterval i)"
  by (simp_all add: quiet_def)

lemma is_write_simps [simp]: "\<not> is_write (CallGetSystem r)" "\<not> is_write (CallGetAuto a)" "\<not> is_write (CallSnapshot b s p)"
  "\<not> is_write CallGuardShutdown" "\<not> is_write (CallGuardDrained b)" "is_write (CallSetSystem s q)" "is_write (CallSetAuto p q)"
  "\<not> is_write (CallGuardType t)" "\<not> is_write (CallGuardStart b)" "\<not> is_write (CallGuardInterval i)"
  by (simp_all add: is_write_def)

lemma joined_result:
  assumes "joined env r = (x, w')"
  obtains w where "r = (x, w)" "logs w [] w'" | y w e where "r = (y, w)" "x = Inl [Text e]" "logs w [] w'"
  using assms unfolding joined_def by (auto split: prod.splits option.splits dest: observe_logs)

lemma stop_logs: "stop_proxy_guard_locked env w = (d, w') \<Longrightarrow> logs w [CallGuardShutdown, CallGuardDrained d] w'"
  unfolding stop_proxy_guard_locked_def
  by (auto simp: observe_def logs_def Let_def split: prod.splits)

lemma set_guard_type_logs: "logs w [CallGuardType t] (set_guard_type env t w)"
  by (simp add: set_guard_type_def observe_def logs_def)

lemma read_both_logs:
  assumes "read_both env w = (r, w')"
  obtains (ok) s a where "r = Inr (s, a)" "logs w [CallGetSystem (Inr s), CallGetAuto (Inr a)] w'"
  | (bad) e cs where "r = Inl e" "logs w cs w'" "list_all quiet cs" "\<not> state_unknown_in e"
proof -
  obtain rs w1 where s: "observe (we_get_system env) (\<lambda>r. [CallGetSystem r]) w = (rs, w1)" by fastforce
  obtain ra w2 where a: "observe (we_get_auto env) (\<lambda>r. [CallGetAuto r]) w1 = (ra, w2)" by fastforce
  note ls = observe_logs [OF s] and la = observe_logs [OF a]
  let ?body = "try_then (map_prod (map_sum (\<lambda>e. [Sys e]) id) id (rs, w1)) (\<lambda>sys w.
        try_then (map_prod (map_sum (\<lambda>e. [Sys e]) id) id (observe (we_get_auto env) (\<lambda>r. [CallGetAuto r]) w)) (\<lambda>auto w.
        (Inr (sys, auto), w)))"
  have "joined env ?body = (r, w')" using assms unfolding read_both_def s .
  then show thesis
  proof (cases rule: joined_result)
    case (1 w3)
    show thesis
    proof (cases rs)
      case (Inl e)
      with 1 have "r = Inl [Sys e]" "w3 = w1" by (auto simp: try_then_def)
      moreover have "logs w [CallGetSystem rs] w'" using logs_trans [OF ls 1(2) [unfolded \<open>w3 = w1\<close>]] by simp
      ultimately show thesis using bad by (simp add: state_unknown_in_def)
    next
      case (Inr s')
      note rs = this
      show thesis
      proof (cases ra)
        case (Inl e)
        with 1 rs a have "r = Inl [Sys e]" "w3 = w2" by (auto simp: try_then_def)
        moreover have "logs w [CallGetSystem rs, CallGetAuto ra] w'" using logs_trans [OF logs_trans [OF ls la] 1(2) [unfolded \<open>w3 = w2\<close>]] by simp
        ultimately show thesis using bad by (simp add: state_unknown_in_def)
      next
        case (Inr a')
        with 1 rs a have "r = Inr (s', a')" "w3 = w2" by (auto simp: try_then_def)
        moreover have "logs w [CallGetSystem rs, CallGetAuto ra] w'" using logs_trans [OF logs_trans [OF ls la] 1(2) [unfolded \<open>w3 = w2\<close>]] by simp
        ultimately show thesis using ok Inr rs by simp
      qed
    qed
  next
    case (2 y w3 e)
    have "w3 = (case rs of Inl _ \<Rightarrow> w1 | Inr _ \<Rightarrow> w2)" using 2(1) a by (auto simp: try_then_def split: sum.splits prod.splits)
    then consider "w3 = w1" | "w3 = w2" by (auto split: sum.splits)
    then show thesis
    proof cases
      case 1
      show thesis by (rule bad [OF 2(2) logs_trans [OF ls 2(3) [unfolded 1]]]) (simp_all add: state_unknown_in_def)
    next
      case b: 2
      show thesis by (rule bad [OF 2(2) logs_trans [OF logs_trans [OF ls la] 2(3) [unfolded b]]]) (simp_all add: state_unknown_in_def)
    qed
  qed
qed

lemma disable_all_logs:
  assumes "disable_all_proxies env sys auto w = (r, w')"
  obtains rs ra where "logs w [CallSetSystem sys rs, CallSetAuto auto ra] w'"
    and "is_ok r \<Longrightarrow> is_ok (skip_without_network_service (we_plat env) (sp_enable sys) rs)
      \<and> is_ok (skip_without_network_service (we_plat env) (ap_enable auto) ra)"
proof -
  obtain rs w1 where s: "set_system_proxy env sys w = (rs, w1)" by fastforce
  obtain ra w2 where a: "set_auto_proxy env auto w1 = (ra, w2)" by fastforce
  have l: "logs w [CallSetSystem sys rs, CallSetAuto auto ra] w2"
    using logs_trans [OF observe_logs [OF s [unfolded set_system_proxy_def]] observe_logs [OF a [unfolded set_auto_proxy_def]]] by simp
  let ?f = "\<lambda>b. map_sum id (\<lambda>_. ()) \<circ> skip_without_network_service (we_plat env) b"
  have j: "joined env (first_failure [?f (sp_enable sys) rs, ?f (ap_enable auto) ra], w2) = (r, w')"
    using assms by (simp add: disable_all_proxies_def disable_both_def s a)
  then have "logs w2 [] w'" "r = first_failure [?f (sp_enable sys) rs, ?f (ap_enable auto) ra] \<or> (\<exists>e. r = Inl [Text e])"
    by (auto elim!: joined_result)
  with logs_trans [OF l, of "[]" w'] that show thesis
    by (cases "skip_without_network_service (we_plat env) (sp_enable sys) rs";
        cases "skip_without_network_service (we_plat env) (ap_enable auto) ra") auto
qed

subsection \<open>Applying a target\<close>

definition step_call :: "proxies \<Rightarrow> proxy_apply_step \<Rightarrow> sysproxy_error + unit \<Rightarrow> proxy_call" where
  "step_call target step r = (case step of StepSysproxy \<Rightarrow> CallSetSystem (fst target) r | StepAutoproxy \<Rightarrow> CallSetAuto (snd target) r)"

definition step_on :: "proxies \<Rightarrow> proxy_apply_step \<Rightarrow> bool" where
  "step_on target step = (case step of StepSysproxy \<Rightarrow> sp_enable (fst target) | StepAutoproxy \<Rightarrow> ap_enable (snd target))"

definition went_through :: "platform \<Rightarrow> proxies \<Rightarrow> proxy_apply_step \<Rightarrow> sysproxy_error + unit \<Rightarrow> bool" where
  "went_through plat target step r = is_ok (skip_without_network_service plat (step_on target step) r)"

lemma apply_step_logs:
  assumes "apply_step env target step w = (r, w')"
  obtains x where "logs w [step_call target step x] w'" "r = skip_without_network_service (we_plat env) (step_on target step) x"
proof (cases step)
  case StepSysproxy
  obtain x w1 where s: "set_system_proxy env (fst target) w = (x, w1)" by fastforce
  show thesis
    by (rule that [of x]) (use assms StepSysproxy s observe_logs [OF s [unfolded set_system_proxy_def]] in
      \<open>simp_all add: apply_step_def step_call_def step_on_def\<close>)
next
  case StepAutoproxy
  obtain x w1 where s: "set_auto_proxy env (snd target) w = (x, w1)" by fastforce
  show thesis
    by (rule that [of x]) (use assms StepAutoproxy s observe_logs [OF s [unfolded set_auto_proxy_def]] in
      \<open>simp_all add: apply_step_def step_call_def step_on_def\<close>)
qed

text \<open>The steps of a target: the kind that stays off comes first.\<close>

definition first_step :: "proxies \<Rightarrow> proxy_apply_step" where
  "first_step target = (if sp_enable (fst target) \<and> \<not> ap_enable (snd target) then StepAutoproxy else StepSysproxy)"

definition second_step :: "proxies \<Rightarrow> proxy_apply_step" where
  "second_step target = (if sp_enable (fst target) \<and> \<not> ap_enable (snd target) then StepSysproxy else StepAutoproxy)"

lemma steps_of: "proxy_apply_steps (sp_enable (fst target)) (ap_enable (snd target)) = [first_step target, second_step target]"
  by (simp add: proxy_apply_steps_def first_step_def second_step_def)

lemma apply_target_logs:
  assumes "apply_target env target w = (r, w')"
  obtains (ok) x y where "r = Inr ()" "logs w [step_call target (first_step target) x, step_call target (second_step target) y] w'"
      "went_through (we_plat env) target (first_step target) x" "went_through (we_plat env) target (second_step target) y"
  | (bad) b e x ys where "r = Inl (b, e)" "logs w (step_call target (first_step target) x # map (step_call target (second_step target)) ys) w'"
      "length ys \<le> 1" "ys \<noteq> [] \<longrightarrow> went_through (we_plat env) target (first_step target) x" "\<not> state_unknown_in e"
proof -
  let ?f = "first_step target" and ?s = "second_step target"
  obtain r1 w1 where s1: "apply_step env target ?f w = (r1, w1)" by fastforce
  from s1 obtain x where l1: "logs w [step_call target ?f x] w1" and
    r1: "r1 = skip_without_network_service (we_plat env) (step_on target ?f) x" by (rule apply_step_logs)
  have lost: "\<not> state_unknown_in (add_context (Text t) [Text u])" for t u by (simp add: add_context_def state_unknown_in_def)
  have sys: "\<not> state_unknown_in e" if "skip_without_network_service p b z = Inl e" for p b z e
    using that by (auto simp: skip_without_network_service_def state_unknown_in_def split: sum.splits if_splits)
  show thesis
  proof (cases r1)
    case (Inl e)
    obtain j w2 where j: "observe (we_join env) (\<lambda>_. []) w1 = (j, w2)" by fastforce
    note l = logs_trans [OF l1 observe_logs [OF j], simplified]
    from assms steps_of [of target] s1 Inl j have r: "w' = w2" "r = (case j of None \<Rightarrow> Inl (False, e) | Some t \<Rightarrow>
        Inl (False, add_context (Text ''the system proxy write task did not finish'') [Text t]))"
      by (simp_all add: apply_target_def split: option.splits)
    show thesis
    proof (cases j)
      case None
      show thesis by (rule bad [of False e x "[]"]) (use r None l sys Inl r1 in auto)
    next
      case (Some t)
      show thesis by (rule bad [of False "add_context (Text ''the system proxy write task did not finish'') [Text t]" x "[]"])
        (use r Some l lost in auto)
    qed
  next
    case (Inr b)
    obtain r2 w2 where s2: "apply_step env target ?s w1 = (r2, w2)" by fastforce
    from s2 obtain y where l2: "logs w1 [step_call target ?s y] w2" and
      r2: "r2 = skip_without_network_service (we_plat env) (step_on target ?s) y" by (rule apply_step_logs)
    obtain j w3 where j: "observe (we_join env) (\<lambda>_. []) w2 = (j, w3)" by fastforce
    note l = logs_trans [OF logs_trans [OF l1 l2] observe_logs [OF j], simplified]
    have t1: "went_through (we_plat env) target ?f x" using Inr r1 by (simp add: went_through_def is_ok_def)
    from assms steps_of [of target] s1 Inr s2 j have r: "w' = w3" "r = (case j of None \<Rightarrow> (case r2 of Inr _ \<Rightarrow> Inr () | Inl e \<Rightarrow> Inl (b, e)) | Some t \<Rightarrow>
        Inl (False, add_context (Text ''the system proxy write task did not finish'') [Text t]))"
      by (simp_all add: apply_target_def split: option.splits sum.splits)
    show thesis
    proof (cases j)
      case None
      note j = this
      show thesis
      proof (cases r2)
        case (Inl e)
        show thesis by (rule bad [of b e x "[y]"]) (use r j l sys Inl r2 t1 in auto)
      next
        case (Inr _)
        show thesis by (rule ok [of x y]) (use r j l Inr r2 t1 in \<open>auto simp: went_through_def is_ok_def\<close>)
      qed
    next
      case (Some t)
      show thesis by (rule bad [of False "add_context (Text ''the system proxy write task did not finish'') [Text t]" x "[y]"])
        (use r Some l lost t1 in auto)
    qed
  qed
qed

text \<open>After a failed write.\<close>

lemma recover_logs:
  assumes "writer_recover env e b running off w = (e', w')"
  obtains (unchanged) cs where "e' = e" "logs w cs w'" "\<forall>c \<in> set cs. \<exists>x. c = CallGuardStart x"
  | (unknown) rs ra where "e' = add_context StateUnknown e" "logs w [CallGuardType GuardNone, CallSetSystem (fst off) rs, CallSetAuto (snd off) ra] w'"
proof (cases "authoritative_state env e b")
  case Unchanged
  show thesis
  proof (cases running)
    case True
    obtain x w1 where g: "start_guard env w = (x, w1)" by fastforce
    show thesis
      by (rule unchanged [of "[CallGuardStart x]"]) (use assms Unchanged True g observe_logs [OF g [unfolded start_guard_def]] in
        \<open>simp_all add: writer_recover_def recover_from_failed_write_def recover_guard_after_failure_def\<close>)
  next
    case False
    show thesis
      by (rule unchanged [of "[]"]) (use assms Unchanged False logs_refl in
        \<open>simp_all add: writer_recover_def recover_from_failed_write_def recover_guard_after_failure_def\<close>)
  qed
next
  case Unknown
  obtain r w1 where d: "disable_all_proxies env (fst off) (snd off) (set_guard_type env GuardNone w) = (r, w1)" by fastforce
  obtain rs ra where l: "logs (set_guard_type env GuardNone w) [CallSetSystem (fst off) rs, CallSetAuto (snd off) ra] w1"
    by (rule disable_all_logs [OF d])
  show thesis
    by (rule unknown [of rs ra]) (use assms Unknown d logs_trans [OF set_guard_type_logs [of w GuardNone env] l] in
      \<open>simp_all add: writer_recover_def recover_from_failed_write_def recover_guard_after_failure_def\<close>)
qed

text \<open>Before the write: the guard is stopped and, on macOS, the system asked whether a write is needed at all.\<close>

lemma os_state_logs:
  assumes "current_os_proxy_state env sys auto w = (state, w')"
  obtains b where "logs w (if we_plat env = MacOS then [CallSnapshot b sys auto] else []) w'"
    "state = AlreadyApplied \<Longrightarrow> b \<and> we_plat env = MacOS"
proof (cases "we_plat env = MacOS")
  case True
  let ?b = "\<lambda>x. (case x of Inr n \<Rightarrow> target_is_already_in_place env n sys auto | Inl _ \<Rightarrow> False)"
  obtain x w1 where s: "observe (we_snapshot env) (\<lambda>x. [CallSnapshot (?b x) sys auto]) w = (x, w1)" by fastforce
  obtain j w2 where j: "observe (we_join env) (\<lambda>_. []) w1 = (j, w2)" by fastforce
  note l = logs_trans [OF observe_logs [OF s] observe_logs [OF j], simplified]
  show thesis
    by (rule that [of "?b x"]) (use assms s j l True in
      \<open>auto simp: current_os_proxy_state_def read_os_proxy_state_def classify_os_proxy_state_def split: option.splits sum.splits if_splits\<close>)
next
  case False
  obtain j w2 where j: "observe (we_join env) (\<lambda>_. []) w = (j, w2)" by fastforce
  show thesis
    by (rule that [of False]) (use assms j observe_logs [OF j] False in
      \<open>auto simp: current_os_proxy_state_def read_os_proxy_state_def classify_os_proxy_state_def split: option.splits if_splits\<close>)
qed

definition before_write :: "('o, 'n) writer_env \<Rightarrow> proxies \<Rightarrow> bool \<Rightarrow> 'o writer \<Rightarrow> os_proxy_state \<times> 'o writer" where
  "before_write env target drained w =
     (if we_plat env = MacOS \<and> drained then current_os_proxy_state env (fst target) (snd target) w else (DifferentOrUnknown, w))"

lemma before_write_logs:
  assumes "before_write env target drained w = (state, w')"
  obtains (in_place) "state = AlreadyApplied" "logs w [CallSnapshot True (fst target) (snd target)] w'"
  | (needed) cs where "state \<noteq> AlreadyApplied" "logs w cs w'" "list_all quiet cs"
proof (cases "we_plat env = MacOS \<and> drained")
  case True
  with assms have "current_os_proxy_state env (fst target) (snd target) w = (state, w')" by (simp add: before_write_def)
  then obtain b where l: "logs w (if we_plat env = MacOS then [CallSnapshot b (fst target) (snd target)] else []) w'"
    and b: "state = AlreadyApplied \<Longrightarrow> b \<and> we_plat env = MacOS" by (rule os_state_logs) blast
  show thesis
  proof (cases "state = AlreadyApplied")
    case True
    with b l in_place show thesis by auto
  next
    case False
    show thesis by (rule needed [OF False l]) simp
  qed
next
  case False
  with assms needed logs_refl [of w] show thesis by (auto simp: before_write_def)
qed

lemma write_target_unfold: "write_target env target guard_type owned_before observed_before w =
     (let (stopped, w) = observe (we_guard_stopped env) (\<lambda>_. []) w; (drained, w) = stop_proxy_guard_locked env w;
          (state, w) = before_write env target drained w
      in if state = AlreadyApplied then (Inr (), set_guard_type env guard_type w)
         else case apply_target env target w of
             (Inl (earlier_step_completed, e), w) \<Rightarrow>
               (let (e, w) = writer_recover env e earlier_step_completed (\<not> stopped) (off_of target) w in (Inl e, w))
           | (Inr _, w) \<Rightarrow>
               try_then (confirm_target env target owned_before observed_before w) (\<lambda>_ w. (Inr (), set_guard_type env guard_type w)))"
  unfolding write_target_def before_write_def ..

definition owns :: "'o writer \<Rightarrow> proxy_call list \<Rightarrow> proxies option \<Rightarrow> 'o writer \<Rightarrow> bool" where
  "owns w cs owned w' \<longleftrightarrow> wr_calls w' = wr_calls w @ cs \<and> wr_owned w' = owned \<and> wr_inner w' = wr_inner w
     \<and> wr_reset w' = wr_reset w \<and> wr_writes_disabled w' = wr_writes_disabled w"

lemma logs_owns: "logs w cs w' \<longleftrightarrow> owns w cs (wr_owned w) w'"
  by (simp add: logs_def owns_def)

lemma owns_after: "logs w cs v \<Longrightarrow> owns v ds owned u \<Longrightarrow> owns w (cs @ ds) owned u"
  and owns_before: "owns w cs owned v \<Longrightarrow> logs v ds u \<Longrightarrow> owns w (cs @ ds) owned u"
  by (simp_all add: logs_def owns_def)

lemma confirm_logs:
  assumes "confirm_target env target owned_before observed_before w = (r, w')"
  obtains (off) "\<not> enabled target" "r = Inr ()" "owns w [] None w'"
  | (lost) e cs where "enabled target" "r = Inl e" "logs w cs w'" "list_all quiet cs" "\<not> state_unknown_in e"
  | (confirmed) s a where "enabled target" "r = Inr ()" "enabled_proxy_target_matches (s, a) target"
      "owns w [CallGetSystem (Inr s), CallGetAuto (Inr a)]
         (if owned_before \<noteq> None \<or> observed_before \<noteq> target then Some (s, a) else wr_owned w) w'"
proof (cases "enabled target")
  case False
  with assms off show thesis by (auto simp: confirm_target_def owns_def)
next
  case True
  obtain p w1 where rb: "read_both env w = (p, w1)" by fastforce
  note c = assms [unfolded confirm_target_def rb]
  from rb show thesis
  proof (cases rule: read_both_logs)
    case (ok s a)
    show thesis
    proof (cases "enabled_proxy_target_matches (s, a) target")
      case False
      show thesis
        by (rule lost [of "bail ''System proxy changed before its applied state could be confirmed.''"
            "[CallGetSystem (Inr s), CallGetAuto (Inr a)]"])
          (use c True ok False in \<open>auto simp: try_then_def bail_def state_unknown_in_def\<close>)
    next
      case match: True
      from c True ok(1) match have r: "r = Inr ()"
        "w' = (if owned_before \<noteq> None \<or> observed_before \<noteq> target then w1\<lparr>wr_owned := Some (s, a)\<rparr> else w1)"
        by (auto simp: try_then_def proxy_state_matches_def split: if_splits)
      show thesis by (rule confirmed [OF True r(1) match]) (use ok(2) r(2) in \<open>simp add: logs_def owns_def\<close>)
    qed
  next
    case (bad e cs)
    show thesis by (rule lost [of e cs]) (use c True bad in \<open>auto simp: try_then_def\<close>)
  qed
qed

lemma write_target_logs:
  assumes "write_target env target gt owned_before observed_before w = (r, w')"
  obtains (in_place) d where "r = Inr ()"
      "logs w [CallGuardShutdown, CallGuardDrained d, CallSnapshot True (fst target) (snd target), CallGuardType gt] w'"
  | (refused) e pre x ys rec where "r = Inl e" "list_all quiet pre" "length ys \<le> 1"
      "ys \<noteq> [] \<longrightarrow> went_through (we_plat env) target (first_step target) x"
      "logs w (pre @ step_call target (first_step target) x # map (step_call target (second_step target)) ys @ rec) w'"
      "if state_unknown_in e then \<exists>rs ra. rec = [CallGuardType GuardNone, CallSetSystem (fst (off_of target)) rs, CallSetAuto (snd (off_of target)) ra]
       else \<forall>c \<in> set rec. \<exists>z. c = CallGuardStart z"
  | (lost) e pre x y rd where "r = Inl e" "list_all quiet pre" "list_all quiet rd" "enabled target" "\<not> state_unknown_in e"
      "went_through (we_plat env) target (first_step target) x" "went_through (we_plat env) target (second_step target) y"
      "logs w (pre @ [step_call target (first_step target) x, step_call target (second_step target) y] @ rd) w'"
  | (confirmed) pre x y s a where "r = Inr ()" "list_all quiet pre" "enabled target" "enabled_proxy_target_matches (s, a) target"
      "went_through (we_plat env) target (first_step target) x" "went_through (we_plat env) target (second_step target) y"
      "owns w (pre @ [step_call target (first_step target) x, step_call target (second_step target) y,
           CallGetSystem (Inr s), CallGetAuto (Inr a), CallGuardType gt])
         (if owned_before \<noteq> None \<or> observed_before \<noteq> target then Some (s, a) else wr_owned w) w'"
  | (cleared) pre x y where "r = Inr ()" "list_all quiet pre" "\<not> enabled target"
      "went_through (we_plat env) target (first_step target) x" "went_through (we_plat env) target (second_step target) y"
      "owns w (pre @ [step_call target (first_step target) x, step_call target (second_step target) y, CallGuardType gt]) None w'"
proof -
  obtain stopped w1 where g: "observe (we_guard_stopped env) (\<lambda>_. []) w = (stopped, w1)" by fastforce
  obtain drained w2 where st: "stop_proxy_guard_locked env w1 = (drained, w2)" by fastforce
  obtain state w3 where b: "before_write env target drained w2 = (state, w3)" by fastforce
  note l2 = logs_trans [OF observe_logs [OF g] stop_logs [OF st], simplified]
  note run = assms [unfolded write_target_unfold g st b Let_def prod.case]
  from b show thesis
  proof (cases rule: before_write_logs)
    case in_place_now: in_place
    show thesis
      by (rule in_place [of drained]) (use run in_place_now logs_trans [OF logs_trans [OF l2 in_place_now(2)] set_guard_type_logs [of w3 gt env]] in auto)
  next
    case (needed cs)
    let ?pre = "[CallGuardShutdown, CallGuardDrained drained] @ cs"
    have pre: "list_all quiet ?pre" using needed by simp
    note l3 = logs_trans [OF l2 needed(2)]
    obtain applied w4 where a: "apply_target env target w3 = (applied, w4)" by fastforce
    from a show thesis
    proof (cases rule: apply_target_logs)
      case (bad early e x ys)
      note l4 = logs_trans [OF l3 bad(2)]
      obtain e' w5 where rec: "writer_recover env e early (\<not> stopped) (off_of target) w4 = (e', w5)" by fastforce
      from run needed(1) a bad(1) rec have r: "r = Inl e'" "w' = w5" by simp_all
      from rec show thesis
      proof (cases rule: recover_logs)
        case (unchanged rs)
        show thesis
          by (rule refused [OF r(1) pre bad(3,4), of rs]) (use logs_trans [OF l4 unchanged(2)] r unchanged bad in auto)
      next
        case (unknown rs ra)
        show thesis
          by (rule refused [OF r(1) pre bad(3,4), of "[CallGuardType GuardNone, CallSetSystem (fst (off_of target)) rs, CallSetAuto (snd (off_of target)) ra]"])
            (use logs_trans [OF l4 unknown(2)] r unknown in \<open>auto simp: add_context_def\<close>)
      qed
    next
      case (ok x y)
      note l4 = logs_trans [OF l3 ok(2)]
      obtain c w5 where cf: "confirm_target env target owned_before observed_before w4 = (c, w5)" by fastforce
      from run needed(1) a ok(1) cf have r: "(r, w') = try_then (c, w5) (\<lambda>_ w. (Inr (), set_guard_type env gt w))" by simp
      have same: "wr_owned w4 = wr_owned w" using l4 by (simp add: logs_def)
      from cf show thesis
      proof (cases rule: confirm_logs)
        case off
        show thesis
          by (rule cleared [OF _ pre off(1) ok(3,4)]) (use r off(2) owns_before [OF owns_after [OF l4 off(3)] set_guard_type_logs [of w5 gt env]] in
            \<open>simp_all add: try_then_def\<close>)
      next
        case (lost e rd)
        show thesis
          by (rule that(3) [OF _ pre lost(4,1,5) ok(3,4)]) (use r lost(2) logs_trans [OF l4 lost(3)] in \<open>simp_all add: try_then_def\<close>)
      next
        case (confirmed s a)
        show thesis
          by (rule that(4) [OF _ pre confirmed(1,3) ok(3,4)])
            (use r confirmed(2) owns_before [OF owns_after [OF l4 confirmed(4) [unfolded same]] set_guard_type_logs [of w5 gt env]] in
              \<open>simp_all add: try_then_def\<close>)
      qed
    qed
  qed
qed

subsection \<open>Whole operations\<close>

definition grows :: "'o writer \<Rightarrow> proxy_call list \<Rightarrow> proxies option \<Rightarrow> 'o writer \<Rightarrow> bool" where
  "grows w cs owned w' \<longleftrightarrow> wr_calls w' = wr_calls w @ cs \<and> wr_owned w' = owned
     \<and> wr_reset w' = wr_reset w \<and> wr_writes_disabled w' = wr_writes_disabled w"

lemma grows_owns: "owns w cs owned w' \<Longrightarrow> grows w cs owned w'"
  and grows_logs: "logs w cs w' \<Longrightarrow> grows w cs (wr_owned w) w'"
  and grows_then: "grows w cs owned v \<Longrightarrow> owns v ds owned' u \<Longrightarrow> grows w (cs @ ds) owned' u"
  by (simp_all add: owns_def grows_def logs_def)

lemma update_cases:
  assumes "update_sysproxy env w = (r, w')"
  obtains (quietly) cs owned where "list_all quiet cs" "grows w cs owned w'" "owned = wr_owned w \<or> owned = None"
      "\<forall>e. r = Inl e \<longrightarrow> owned = wr_owned w \<and> \<not> state_unknown_in e"
  | (written) pac_port target gt s a w1 where "\<not> wr_writes_disabled w" "we_pac_port env = Some pac_port"
      "configure_target env pac_port = (target, gt)" "enabled target \<or> wr_owned w = Some (s, a)"
      "grows w [CallGetSystem (Inr s), CallGetAuto (Inr a)] (wr_owned w) w1" "wr_inner w1 = target"
      "write_target env target gt (wr_owned w) (s, a) w1 = (r, w')"
proof (cases "wr_writes_disabled w \<or> we_pac_port env = None")
  case True
  obtain d w1 where st: "stop_proxy_guard_locked env w = (d, w1)" by fastforce
  show thesis
  proof (cases "wr_writes_disabled w")
    case disabled: True
    show thesis
      by (rule quietly [of "[CallGuardShutdown, CallGuardDrained d]" "wr_owned w"])
        (use assms disabled st grows_logs [OF stop_logs [OF st]] in \<open>auto simp: update_sysproxy_def\<close>)
  next
    case False
    show thesis
      by (rule quietly [of "[]" "wr_owned w"])
        (use assms False True grows_logs [OF logs_refl [of w]] in \<open>auto simp: update_sysproxy_def bail_def state_unknown_in_def\<close>)
  qed
next
  case False
  then obtain pac_port where pp: "we_pac_port env = Some pac_port" by blast
  obtain target gt where ct: "configure_target env pac_port = (target, gt)" by fastforce
  let ?w = "w\<lparr>wr_inner := target\<rparr>"
  have w: "grows w [] (wr_owned w) ?w" by (simp add: grows_def)
  show thesis
  proof (cases "\<not> enabled target \<and> wr_owned w = None")
    case skip: True
    obtain d w1 where st: "stop_proxy_guard_locked env ?w = (d, w1)" by fastforce
    show thesis
      by (rule quietly [of "[CallGuardShutdown, CallGuardDrained d]" "wr_owned w"])
        (use assms False pp ct skip st grows_then [OF w stop_logs [OF st, unfolded logs_owns]] in \<open>auto simp: update_sysproxy_def Let_def\<close>)
  next
    case go: False
    obtain p w1 where rb: "read_both env ?w = (p, w1)" by fastforce
    note run = assms [unfolded update_sysproxy_def pp ct Let_def prod.case option.case]
    from rb show thesis
    proof (cases rule: read_both_logs)
      case (bad e cs)
      show thesis
        by (rule quietly [of cs "wr_owned w"]) (use run False go rb bad grows_then [OF w bad(2) [unfolded logs_owns]] in
          \<open>auto simp: try_then_def\<close>)
    next
      case (ok s a)
      have g: "grows w [CallGetSystem (Inr s), CallGetAuto (Inr a)] (wr_owned w) w1"
        using grows_then [OF w ok(2) [unfolded logs_owns]] by simp
      show thesis
      proof (cases "\<not> enabled target \<and> changed_by_another (wr_owned w) (s, a)")
        case other: True
        obtain d w2 where st: "stop_proxy_guard_locked env (w1\<lparr>wr_owned := None\<rparr>) = (d, w2)" by fastforce
        have gr: "grows w ([CallGetSystem (Inr s), CallGetAuto (Inr a)] @ [CallGuardShutdown, CallGuardDrained d]) None w2"
          using g stop_logs [OF st] by (simp add: grows_def logs_def)
        have eq: "r = Inr ()" "w' = w2" using run False go rb ok other st by (auto simp: try_then_def)
        show thesis
          by (rule quietly [OF _ gr [folded eq(2)]]) (simp_all add: eq(1))
      next
        case mine: False
        have own: "enabled target \<or> wr_owned w = Some (s, a)"
          using go mine by (auto simp: changed_by_another_def proxy_state_matches_def split: option.splits)
        have inner: "wr_inner w1 = target" using ok(2) by (simp add: logs_def)
        have "write_target env target gt (wr_owned w) (s, a) w1 = (r, w')"
          using run False go rb ok mine by (auto simp: try_then_def)
        then show thesis using written False pp ct own g inner by blast
      qed
    qed
  qed
qed

lemma disable_until_logs:
  assumes "disable_until_the_last_write_is_ours drained (disable_all_proxies env (fst off) (snd off)) (stop_proxy_guard_locked env) w = (r, w')"
    and off: "\<not> enabled off"
  obtains cs rs ra where "logs w (cs @ [CallSetSystem (fst off) rs, CallSetAuto (snd off) ra]) w'"
    "is_ok r \<Longrightarrow> went_through (we_plat env) off StepSysproxy rs \<and> went_through (we_plat env) off StepAutoproxy ra"
    "is_ok r \<Longrightarrow> \<not> drained \<Longrightarrow> CallGuardShutdown \<in> set cs"
    "\<forall>c \<in> set cs. quiet c \<or> (\<exists>x. c = CallSetSystem (fst off) x) \<or> (\<exists>x. c = CallSetAuto (snd off) x)"
proof -
  obtain r1 w1 where d1: "disable_all_proxies env (fst off) (snd off) w = (r1, w1)" by fastforce
  obtain rs ra where l1: "logs w [CallSetSystem (fst off) rs, CallSetAuto (snd off) ra] w1"
    and ok1: "is_ok r1 \<Longrightarrow> is_ok (skip_without_network_service (we_plat env) (sp_enable (fst off)) rs)
      \<and> is_ok (skip_without_network_service (we_plat env) (ap_enable (snd off)) ra)" by (rule disable_all_logs [OF d1]) blast
  note through = went_through_def step_on_def
  show thesis
  proof (cases "is_ok r1 \<and> \<not> drained")
    case False
    show thesis
      by (rule that [of "[]" rs ra]) (use assms(1) d1 False l1 ok1 in
        \<open>auto simp: disable_until_the_last_write_is_ours_def try_then_def through is_ok_def split: sum.splits\<close>)
  next
    case True
    obtain d w2 where st: "stop_proxy_guard_locked env w1 = (d, w2)" by fastforce
    obtain r3 w3 where d3: "disable_all_proxies env (fst off) (snd off) w2 = (r3, w3)" by fastforce
    obtain rs' ra' where l3: "logs w2 [CallSetSystem (fst off) rs', CallSetAuto (snd off) ra'] w3"
      and ok3: "is_ok r3 \<Longrightarrow> is_ok (skip_without_network_service (we_plat env) (sp_enable (fst off)) rs')
        \<and> is_ok (skip_without_network_service (we_plat env) (ap_enable (snd off)) ra')" by (rule disable_all_logs [OF d3]) blast
    note l = logs_trans [OF logs_trans [OF l1 stop_logs [OF st]] l3]
    have r: "r = r3" "w' = w3" using assms(1) d1 True st d3
      by (auto simp: disable_until_the_last_write_is_ours_def try_then_def is_ok_def split: sum.splits)
    show thesis
      by (rule that [of "[CallSetSystem (fst off) rs, CallSetAuto (snd off) ra, CallGuardShutdown, CallGuardDrained d]" rs' ra'])
        (use l ok3 r in \<open>auto simp: through is_ok_def split: sum.splits\<close>)
  qed
qed

lemma off_of_off [simp]: "\<not> enabled (off_of target)"
  by (simp add: enabled_def off_of_def)

lemma reset_cases:
  assumes "reset_sysproxy env w = (r, w')"
  obtains (skipped) cs where "wr_writes_disabled w \<or> wr_reset w \<or> wr_owned w = None" "r = Inr ()" "list_all quiet cs"
      "wr_calls w' = wr_calls w @ cs" "wr_owned w' = wr_owned w"
  | (unread) e cs where "r = Inl e" "list_all quiet cs" "wr_calls w' = wr_calls w @ cs" "wr_owned w' = wr_owned w"
  | (other) s a where "r = Inr ()" "\<not> wr_writes_disabled w" "wr_owned w \<noteq> Some (s, a)"
      "wr_calls w' = wr_calls w @ [CallGetSystem (Inr s), CallGetAuto (Inr a)]" "wr_owned w' = None"
  | (in_place) s a d where "r = Inr ()" "\<not> wr_writes_disabled w" "wr_owned w = Some (s, a)" "wr_owned w' = wr_owned w"
      "wr_calls w' = wr_calls w @ [CallGetSystem (Inr s), CallGetAuto (Inr a), CallGuardShutdown, CallGuardDrained d,
         CallSnapshot True (fst (off_of (wr_inner w))) (snd (off_of (wr_inner w)))]"
  | (cleared) s a d pre cs rs ra where "\<not> wr_writes_disabled w" "wr_owned w = Some (s, a)"
      "wr_owned w' = (if is_ok r then None else wr_owned w)" "list_all quiet pre"
      "wr_calls w' = wr_calls w @ [CallGetSystem (Inr s), CallGetAuto (Inr a), CallGuardShutdown, CallGuardDrained d] @ pre @ cs
         @ [CallSetSystem (fst (off_of (wr_inner w))) rs, CallSetAuto (snd (off_of (wr_inner w))) ra]"
      "is_ok r \<Longrightarrow> went_through (we_plat env) (off_of (wr_inner w)) StepSysproxy rs \<and> went_through (we_plat env) (off_of (wr_inner w)) StepAutoproxy ra"
      "is_ok r \<Longrightarrow> \<not> d \<Longrightarrow> CallGuardShutdown \<in> set cs"
      "\<forall>c \<in> set cs. quiet c \<or> (\<exists>x. c = CallSetSystem (fst (off_of (wr_inner w))) x) \<or> (\<exists>x. c = CallSetAuto (snd (off_of (wr_inner w))) x)"
proof -
  consider (disabled) "wr_writes_disabled w" | (flagged) "\<not> wr_writes_disabled w" "wr_reset w"
    | (go) "\<not> wr_writes_disabled w" "\<not> wr_reset w" by blast
  then show thesis
  proof cases
    case disabled
    obtain d w1 where st: "stop_proxy_guard_locked env w = (d, w1)" by fastforce
    show thesis by (rule skipped [of "[CallGuardShutdown, CallGuardDrained d]"])
      (use assms disabled st stop_logs [OF st] in \<open>auto simp: reset_sysproxy_def logs_def\<close>)
  next
    case flagged
    show thesis by (rule skipped [of "[]"]) (use assms flagged in \<open>auto simp: reset_sysproxy_def\<close>)
  next
    case go
    let ?w = "w\<lparr>wr_reset := True\<rparr>"
    obtain w1 where rl: "reset_locked env ?w = (r, w1)" and w': "w' = w1\<lparr>wr_reset := False\<rparr>"
      using assms go by (auto simp: reset_sysproxy_def split: prod.splits)
    show thesis
    proof (cases "wr_owned w")
      case None
      show thesis by (rule skipped [of "[]"]) (use rl w' None in \<open>auto simp: reset_locked_def\<close>)
    next
      case (Some owned)
      obtain p w2 where rb: "read_both env ?w = (p, w2)" by fastforce
      note run = rl [unfolded reset_locked_def]
      from rb show thesis
      proof (cases rule: read_both_logs)
        case (bad e cs)
        show thesis by (rule unread [of e cs]) (use run Some rb bad w' in \<open>auto simp: try_then_def logs_def\<close>)
      next
        case (ok s a)
        note l2 = ok(2)
        show thesis
        proof (cases "owned = (s, a)")
          case False
          show thesis by (rule other [of s a]) (use run Some rb ok False w' go in
              \<open>auto simp: try_then_def proxy_state_matches_def logs_def\<close>)
        next
          case True
          from run Some rb ok True have ro: "reset_owned env w2 = (r, w1)"
            by (simp add: try_then_def proxy_state_matches_def)
          obtain d w3 where st: "stop_proxy_guard_locked env w2 = (d, w3)" by fastforce
          note l3 = logs_trans [OF l2 stop_logs [OF st]]
          let ?off = "off_of (wr_inner w)"
          have inner: "wr_inner w3 = wr_inner w" using l3 by (simp add: logs_def)
          obtain state w4 where b: "before_write env ?off d (w3\<lparr>wr_inner := ?off\<rparr>) = (state, w4)" by fastforce
          have ro': "(if state = AlreadyApplied then (Inr (), w4)
             else (case disable_until_the_last_write_is_ours d (disable_all_proxies env (fst ?off) (snd ?off)) (stop_proxy_guard_locked env) w4 of
               (Inr _, w) \<Rightarrow> (Inr (), w\<lparr>wr_owned := None\<rparr>) | (Inl e, w) \<Rightarrow> (Inl e, w))) = (r, w1)"
            using ro [unfolded reset_owned_def st Let_def prod.case inner] b by (simp add: before_write_def)
          from b show thesis
          proof (cases rule: before_write_logs)
            case in_place_now: in_place
            show thesis by (rule in_place [of s a d]) (use ro' in_place_now l3 w' Some True go in \<open>auto simp: logs_def\<close>)
          next
            case (needed pre)
            obtain r5 w5 where du: "disable_until_the_last_write_is_ours d (disable_all_proxies env (fst ?off) (snd ?off)) (stop_proxy_guard_locked env) w4
                = (r5, w5)" by fastforce
            obtain cs rs ra where l5: "logs w4 (cs @ [CallSetSystem (fst ?off) rs, CallSetAuto (snd ?off) ra]) w5"
              and ok5: "is_ok r5 \<Longrightarrow> went_through (we_plat env) ?off StepSysproxy rs \<and> went_through (we_plat env) ?off StepAutoproxy ra"
                "is_ok r5 \<Longrightarrow> \<not> d \<Longrightarrow> CallGuardShutdown \<in> set cs"
                "\<forall>c \<in> set cs. quiet c \<or> (\<exists>x. c = CallSetSystem (fst ?off) x) \<or> (\<exists>x. c = CallSetAuto (snd ?off) x)"
              using off_of_off disable_until_logs [OF du] by blast
            have r: "is_ok r = is_ok r5" "w1 = (if is_ok r5 then w5\<lparr>wr_owned := None\<rparr> else w5)"
              using ro' needed(1) du by (auto simp: is_ok_def split: sum.splits)
            show thesis
              by (rule cleared [of s a pre d cs rs ra]) (use r needed l3 l5 ok5 w' Some True go in \<open>auto simp: logs_def\<close>)
          qed
        qed
      qed
    qed
  qed
qed

subsection \<open>The properties\<close>

text \<open>What one operation added to the log.\<close>

definition new_calls :: "'o writer \<Rightarrow> 'o writer \<Rightarrow> proxy_call list" where
  "new_calls w w' = drop (length (wr_calls w)) (wr_calls w')"

lemma new_calls [simp]: "wr_calls w' = wr_calls w @ cs \<Longrightarrow> new_calls w w' = cs"
  by (simp add: new_calls_def)

definition turns_on :: "proxy_call \<Rightarrow> bool" where
  "turns_on c = (case c of CallSetSystem s _ \<Rightarrow> sp_enable s | CallSetAuto a _ \<Rightarrow> ap_enable a | _ \<Rightarrow> False)"

lemma quiet_no_write: "quiet c \<Longrightarrow> \<not> is_write c" "quiet c \<Longrightarrow> \<not> turns_on c"
  by (auto simp: quiet_def is_write_def turns_on_def split: proxy_call.splits)

lemma turns_on_simps [simp]: "turns_on (CallSetSystem s r) = sp_enable s" "turns_on (CallSetAuto a r) = ap_enable a"
  "\<not> turns_on (CallGuardType t)" "\<not> turns_on (CallGuardStart b)"
  by (simp_all add: turns_on_def)

lemma configured:
  assumes "configure_target env pac_port = (target, gt)"
  shows "enabled target = unwrap_or False (enable_system_proxy (we_verge env))"
    and "\<not> (sp_enable (fst target) \<and> ap_enable (snd target))"
    and "gt = GuardNone \<or> (gt = GuardSys (fst target) \<and> sp_enable (fst target)) \<or> (gt = GuardAuto (snd target) \<and> ap_enable (snd target))"
  using assms by (auto simp: configure_target_def enabled_def Let_def split: if_splits)

lemma step_call_off: "\<not> enabled target \<Longrightarrow> \<not> turns_on (step_call target step r)"
  by (cases step) (auto simp: step_call_def enabled_def)

lemma off_of_fields [simp]: "\<not> sp_enable (fst (off_of target))" "\<not> ap_enable (snd (off_of target))"
  by (simp_all add: off_of_def)

lemma written_log:
  assumes "grows w cs owned w1" and "write_target env target gt owned_before observed w1 = (r, w')"
  obtains ds where "wr_calls w' = wr_calls w @ cs @ ds" "\<not> enabled target \<Longrightarrow> list_all (\<lambda>c. \<not> turns_on c) ds"
proof -
  have q: "list_all quiet pre \<Longrightarrow> list_all (\<lambda>c. \<not> turns_on c) pre" for pre
    by (simp add: list_all_iff quiet_no_write)
  from assms(2) show thesis
  proof (cases rule: write_target_logs)
    case in_place
    then show thesis using assms(1) that [of "_ # _"] by (auto simp: grows_def logs_def turns_on_def)
  next
    case (refused e pre x ys rec)
    have "list_all (\<lambda>c. \<not> turns_on c) rec" using refused(6) by (auto simp: list_all_iff split: if_splits)
    then show thesis
      by (intro that [of "pre @ step_call target (first_step target) x # map (step_call target (second_step target)) ys @ rec"])
        (use refused assms(1) q step_call_off [of target] in \<open>auto simp: grows_def logs_def list_all_iff\<close>)
  next
    case (lost e pre x y rd)
    then show thesis using assms(1) by (intro that) (auto simp: grows_def logs_def)
  next
    case (confirmed pre x y s a)
    then show thesis using assms(1) by (intro that) (auto simp: grows_def owns_def)
  next
    case (cleared pre x y)
    then show thesis
      by (intro that [of "pre @ [step_call target (first_step target) x, step_call target (second_step target) y, CallGuardType gt]"])
        (use assms(1) q step_call_off [of target] in \<open>auto simp: grows_def owns_def list_all_iff\<close>)
  qed
qed


text \<open>
  \<open>guard_ok\<close>: a guard is only ever given a proxy that was written and read back since, or that the system was
  just seen to hold; \<open>seen\<close> are the calls so far, the latest first.
\<close>

definition justified :: "proxy_call list \<Rightarrow> guard_type \<Rightarrow> bool" where
  "justified seen t = (case t of
       GuardNone \<Rightarrow> True
     | GuardSys s \<Rightarrow> CallSetSystem s (Inr ()) \<in> set seen \<and> CallGetSystem (Inr s) \<in> set (takeWhile (\<lambda>c. \<not> is_write c) seen)
         \<or> list_ex (\<lambda>c. case c of CallSnapshot b s' _ \<Rightarrow> b \<and> s' = s | _ \<Rightarrow> False) seen
     | GuardAuto a \<Rightarrow> CallSetAuto a (Inr ()) \<in> set seen \<and> CallGetAuto (Inr a) \<in> set (takeWhile (\<lambda>c. \<not> is_write c) seen)
         \<or> list_ex (\<lambda>c. case c of CallSnapshot b _ a' \<Rightarrow> b \<and> a' = a | _ \<Rightarrow> False) seen)"

fun guard_ok :: "proxy_call list \<Rightarrow> proxy_call list \<Rightarrow> bool" where
  "guard_ok seen [] = True"
| "guard_ok seen (c # cs) = ((case c of CallGuardType t \<Rightarrow> justified seen t | _ \<Rightarrow> True) \<and> guard_ok (c # seen) cs)"

lemma guard_ok_append: "guard_ok seen (xs @ ys) \<longleftrightarrow> guard_ok seen xs \<and> guard_ok (rev xs @ seen) ys"
  by (induction xs arbitrary: seen) auto

lemma guard_ok_untyped: "\<forall>c \<in> set cs. \<not> (\<exists>t. c = CallGuardType t) \<Longrightarrow> guard_ok seen cs"
  by (induction cs arbitrary: seen) (auto split: proxy_call.splits)

lemma guard_ok_quiet: "list_all quiet cs \<Longrightarrow> guard_ok seen cs"
  by (rule guard_ok_untyped) (auto simp: list_all_iff)

lemma guard_ok_last: "guard_ok seen (cs @ [CallGuardType t]) \<longleftrightarrow> guard_ok seen cs \<and> justified (rev cs @ seen) t"
  by (simp add: guard_ok_append)

lemma step_call_untyped: "step_call target step r \<noteq> CallGuardType t" "CallGuardType t \<noteq> step_call target step r" "is_write (step_call target step r)"
  by (cases step; simp add: step_call_def)+

lemma went_on: "went_through plat target step r \<Longrightarrow> step_on target step \<Longrightarrow> r = Inr ()"
  by (auto simp: went_through_def skip_without_network_service_def is_ok_def split: sum.splits)

lemma write_target_guard_ok:
  assumes run: "write_target env target gt owned_before observed w = (r, w')" and gt: "configure_target env pac_port = (target, gt)"
  shows "guard_ok seen (new_calls w w')"
proof -
  note gts = configured(2,3) [OF gt]
  from run show ?thesis
  proof (cases rule: write_target_logs)
    case (in_place d)
    then show ?thesis using gts by (auto simp: logs_def justified_def)
  next
    case (refused e pre x ys rec)
    let ?cs = "pre @ step_call target (first_step target) x # map (step_call target (second_step target)) ys"
    have g: "guard_ok seen ?cs"
      by (rule guard_ok_untyped) (use refused(2) in \<open>auto simp: list_all_iff step_call_untyped\<close>)
    have "guard_ok s rec" for s
    proof (cases "state_unknown_in e")
      case True
      with refused(6) show ?thesis by (auto simp: justified_def)
    next
      case False
      with refused(6) show ?thesis by (auto intro!: guard_ok_untyped)
    qed
    with g refused(5) show ?thesis by (simp add: logs_def guard_ok_append)
  next
    case (lost e pre x y rd)
    let ?cs = "pre @ [step_call target (first_step target) x, step_call target (second_step target) y] @ rd"
    have "guard_ok seen ?cs"
      by (rule guard_ok_untyped) (use lost(2,3) in \<open>auto simp: list_all_iff step_call_untyped\<close>)
    with lost(8) show ?thesis by (simp add: logs_def)
  next
    case (confirmed pre x y s a)
    let ?cs = "pre @ [step_call target (first_step target) x, step_call target (second_step target) y, CallGetSystem (Inr s), CallGetAuto (Inr a)]"
    have g: "guard_ok seen ?cs"
      by (rule guard_ok_untyped) (use confirmed(2) in \<open>auto simp: list_all_iff step_call_untyped\<close>)
    have "justified (rev ?cs @ seen) gt"
      using gts(2)
    proof (elim disjE conjE)
      assume t: "gt = GuardSys (fst target)" "sp_enable (fst target)"
      with gts(1) have st: "second_step target = StepSysproxy" by (simp add: second_step_def)
      with t confirmed(6) have "y = Inr ()" by (auto intro: went_on simp: step_on_def)
      moreover have "s = fst target" using confirmed(4) t(2) by (simp add: enabled_proxy_target_matches_def)
      ultimately show ?thesis using st t(1) by (simp add: justified_def step_call_def)
    next
      assume t: "gt = GuardAuto (snd target)" "ap_enable (snd target)"
      with gts(1) have st: "second_step target = StepAutoproxy" by (simp add: second_step_def)
      with t confirmed(6) have "y = Inr ()" by (auto intro: went_on simp: step_on_def)
      moreover have "a = snd target" using confirmed(4) t(2) gts(1) by (simp add: enabled_proxy_target_matches_def)
      ultimately show ?thesis using st t(1) by (simp add: justified_def step_call_def)
    qed (simp add: justified_def)
    with g have "guard_ok seen (?cs @ [CallGuardType gt])" unfolding guard_ok_last by simp
    with confirmed(7) show ?thesis by (simp add: owns_def)
  next
    case (cleared pre x y)
    let ?cs = "pre @ [step_call target (first_step target) x, step_call target (second_step target) y]"
    have g: "guard_ok seen ?cs"
      by (rule guard_ok_untyped) (use cleared(2) in \<open>auto simp: list_all_iff step_call_untyped\<close>)
    have "gt = GuardNone" using gts(2) cleared(3) by (auto simp: enabled_def)
    with g have "guard_ok seen (?cs @ [CallGuardType gt])" unfolding guard_ok_last by (simp add: justified_def)
    with cleared(6) show ?thesis by (simp add: owns_def)
  qed
qed

text \<open>
  Whatever an update does, the guard is only ever directed at a proxy that this update wrote successfully and read
  back since, or that a snapshot showed to be in place already; and an update that succeeds on a system it writes to
  leaves the guard as the settings want it.
\<close>

theorem guard_enforces_only_what_was_written:
  assumes run: "update_sysproxy env w = (r, w')"
  shows "guard_ok [] (new_calls w w')
    \<and> (is_ok r \<and> list_ex is_write (new_calls w w') \<longrightarrow>
        (\<exists>pac_port. we_pac_port env = Some pac_port \<and> last (new_calls w w') = CallGuardType (snd (configure_target env pac_port))))"
  using run
proof (cases rule: update_cases)
  case (quietly cs owned)
  have "\<not> list_ex is_write cs" using quietly(1) by (auto simp: list_all_iff list_ex_iff quiet_no_write)
  with quietly(1,2) show ?thesis by (simp add: grows_def guard_ok_quiet)
next
  case (written pac_port target gt s a w1)
  let ?ds = "new_calls w1 w'"
  obtain ds where ds: "wr_calls w' = wr_calls w @ [CallGetSystem (Inr s), CallGetAuto (Inr a)] @ ds"
    using written_log [OF written(5,7)] by metis
  then have d: "wr_calls w' = wr_calls w1 @ ds" using written(5) by (simp add: grows_def)
  have "guard_ok [] (new_calls w w')"
    using write_target_guard_ok [OF written(7,3)] ds d by simp
  moreover have "last (new_calls w w') = CallGuardType gt" if "is_ok r"
    using written(7)
  proof (cases rule: write_target_logs)
    case in_place
    with d have "last ds = CallGuardType gt" "ds \<noteq> []" by (auto simp: logs_def)
    with ds show ?thesis by simp
  next
    case (confirmed pre x y s' a')
    with d have "last ds = CallGuardType gt" "ds \<noteq> []" by (auto simp: owns_def)
    with ds show ?thesis by simp
  next
    case (cleared pre x y)
    with d have "last ds = CallGuardType gt" "ds \<noteq> []" by (auto simp: owns_def)
    with ds show ?thesis by simp
  qed (use that in simp_all)
  ultimately show ?thesis using written(2,3) by auto
qed

lemma write_target_keeps_flags: "write_target env target gt owned_before observed w = (r, w')
    \<Longrightarrow> wr_reset w' = wr_reset w \<and> wr_writes_disabled w' = wr_writes_disabled w"
  by (erule write_target_logs) (simp_all add: logs_def owns_def)

lemma update_keeps_flags:
  assumes "update_sysproxy env w = (r, w')"
  shows "wr_reset w' = wr_reset w \<and> wr_writes_disabled w' = wr_writes_disabled w"
  using assms
proof (cases rule: update_cases)
  case (written pac_port target gt s a w1)
  from write_target_keeps_flags [OF written(7)] written(5) show ?thesis by (simp add: grows_def)
qed (simp add: grows_def)

lemma failed_update_keeps_owned:
  assumes "update_sysproxy env w = (Inl e, w')"
  shows "wr_owned w' = wr_owned w"
  using assms
proof (cases rule: update_cases)
  case (written pac_port target gt s a w1)
  from written(7) have "wr_owned w' = wr_owned w1" by (cases rule: write_target_logs) (simp_all add: logs_def)
  with written(5) show ?thesis by (simp add: grows_def)
qed (simp add: grows_def)

text \<open>
  A failed update never changes what the process owns.  If it says that the state of the proxy is unknown, it ended
  by switching the guard off for good and asking the system to turn both kinds of proxy off; otherwise it left
  the type of the guard alone.
\<close>

theorem failed_update_is_undone:
  assumes run: "update_sysproxy env w = (Inl e, w')"
  shows "wr_owned w' = wr_owned w
    \<and> (if state_unknown_in e
       then \<exists>pac_port pre rs ra. we_pac_port env = Some pac_port
         \<and> (let off = off_of (fst (configure_target env pac_port))
            in new_calls w w' = pre @ [CallGuardType GuardNone, CallSetSystem (fst off) rs, CallSetAuto (snd off) ra])
       else \<forall>t. CallGuardType t \<notin> set (new_calls w w'))"
  using run
proof (cases rule: update_cases)
  case (quietly cs owned)
  have "CallGuardType t \<notin> set cs" for t using quietly(1) by (auto simp: list_all_iff)
  with quietly show ?thesis by (auto simp: grows_def)
next
  case (written pac_port target gt s a w1)
  let ?rd = "[CallGetSystem (Inr s), CallGetAuto (Inr a)]"
  have c: "wr_calls w1 = wr_calls w @ ?rd" "wr_owned w1 = wr_owned w" using written(5) by (simp_all add: grows_def)
  from written(7) show ?thesis
  proof (cases rule: write_target_logs)
    case (refused e' pre x ys rec)
    let ?pre = "?rd @ pre @ step_call target (first_step target) x # map (step_call target (second_step target)) ys"
    have calls: "new_calls w w' = ?pre @ rec" and own: "wr_owned w' = wr_owned w"
      using refused(5) c by (simp_all add: logs_def)
    have e: "e' = e" using refused(1) by simp
    show ?thesis
    proof (cases "state_unknown_in e")
      case True
      with refused(6) e obtain rs ra where
        "rec = [CallGuardType GuardNone, CallSetSystem (fst (off_of target)) rs, CallSetAuto (snd (off_of target)) ra]" by auto
      with calls own True written(2,3) show ?thesis unfolding Let_def by (auto intro!: exI [of _ ?pre])
    next
      case False
      with refused(6) e have "CallGuardType t \<notin> set rec" for t by auto
      moreover have "CallGuardType t \<notin> set pre" for t using refused(2) by (auto simp: list_all_iff)
      ultimately show ?thesis using calls own False by (auto simp: step_call_untyped)
    qed
  next
    case (lost e' pre x y rd)
    have "CallGuardType t \<notin> set pre \<union> set rd" for t using lost(2,3) by (auto simp: list_all_iff)
    with lost c show ?thesis by (auto simp: logs_def step_call_untyped)
  qed simp_all
qed

text \<open>
  C7: a failed update of a process that owned no proxy leaves it owning none, even when the proxy was switched on and
  only reading it back failed: every later reset then reports success without touching the system, and so does
  every update that is to turn the proxy off, which only stops the guard.
\<close>

theorem unconfirmed_proxy_is_never_cleared:
  assumes run: "update_sysproxy env w = (Inl e, w')" and "wr_owned w = None" "\<not> wr_reset w" "\<not> wr_writes_disabled w"
  shows "reset_sysproxy env' w' = (Inr (), w')
    \<and> (\<not> unwrap_or False (enable_system_proxy (we_verge env')) \<and> we_pac_port env' \<noteq> None \<longrightarrow>
        (let (r, w'') = update_sysproxy env' w' in r = Inr () \<and> \<not> list_ex is_write (new_calls w' w'')))"
proof -
  have same: "wr_owned w' = None" "\<not> wr_reset w'" "\<not> wr_writes_disabled w'"
  proof -
    from run show "wr_owned w' = None" using failed_update_keeps_owned assms(2) by metis
    show "\<not> wr_reset w'" "\<not> wr_writes_disabled w'" using update_keeps_flags [OF run] assms(3,4) by simp_all
  qed
  have reset: "reset_sysproxy env' w' = (Inr (), w')"
    using same by (simp add: reset_sysproxy_def reset_locked_def)
  have "r = Inr () \<and> \<not> list_ex is_write (new_calls w' w'')"
    if off: "\<not> unwrap_or False (enable_system_proxy (we_verge env'))" "we_pac_port env' \<noteq> None"
      and u: "update_sysproxy env' w' = (r, w'')" for r w''
  proof -
    obtain pac_port where pp: "we_pac_port env' = Some pac_port" using off by blast
    obtain target gt where ct: "configure_target env' pac_port = (target, gt)" by fastforce
    have dis: "\<not> enabled target" using configured(1) [OF ct] off by simp
    obtain d w1 where st: "stop_proxy_guard_locked env' (w'\<lparr>wr_inner := target\<rparr>) = (d, w1)" by fastforce
    from u same pp ct dis st have "r = Inr ()" "w'' = w1" by (auto simp: update_sysproxy_def Let_def)
    moreover have "wr_calls w1 = wr_calls w' @ [CallGuardShutdown, CallGuardDrained d]" using stop_logs [OF st] by (simp add: logs_def)
    ultimately show ?thesis by simp
  qed
  with reset show ?thesis by (cases "update_sysproxy env' w'") auto
qed

subsection \<open>Over the life of the process\<close>

lemma wait_logs:
  assumes "wait_while_pending env w = Some w'"
  shows "logs w [] w'"
proof (rule wait_while_pending.raw_induct [OF _ assms, where P = "\<lambda>_ w w'. logs w [] w'"])
  fix f :: "('c, 'd) writer_env \<Rightarrow> 'c writer \<Rightarrow> 'c writer option" and env :: "('c, 'd) writer_env" and w w' :: "'c writer"
  assume ih: "\<And>env w w'. f env w = Some w' \<Longrightarrow> logs w [] w'"
    and run: "(let (pending, w) = observe (we_guard_pending env) (\<lambda>_. []) w in if pending then f env w else Some w) = Some w'"
  obtain b w1 where o: "observe (we_guard_pending env) (\<lambda>_. []) w = (b, w1)" by fastforce
  note l = observe_logs [OF o]
  show "logs w [] w'"
  proof (cases b)
    case True
    with run o ih have "logs w1 [] w'" by simp
    with logs_trans [OF l] show ?thesis by fastforce
  next
    case False
    with run o l show ?thesis by simp
  qed
qed

lemma refresh_logs:
  assumes "refresh_local_guard env w = Some (b, w')"
  obtains cs where "logs w cs w'" "\<not> list_ex is_write cs"
proof (cases "wr_writes_disabled w \<or> \<not> unwrap_or False (enable_system_proxy (we_verge env)) \<or> \<not> unwrap_or False (enable_proxy_guard (we_verge env))")
  case True
  obtain d w1 where st: "stop_proxy_guard_locked env w = (d, w1)" by fastforce
  show thesis
    by (rule that [of "[CallGuardShutdown, CallGuardDrained d]"])
      (use assms True st stop_logs [OF st] in \<open>auto simp: refresh_local_guard_def split: if_splits\<close>)
next
  case False
  let ?t = "unwrap_or 30 (proxy_guard_duration (we_verge env))"
  obtain u w1 where i: "observe (\<lambda>out. ((), we_guard_interval env ?t out)) (\<lambda>_. [CallGuardInterval ?t]) w = (u, w1)" by (metis prod.exhaust)
  obtain x w2 where g: "start_guard env w1 = (x, w2)" by fastforce
  obtain w3 where p: "wait_while_pending env w2 = Some w3"
    using assms False i g by (auto simp: refresh_local_guard_def split: option.splits)
  obtain y w4 where o: "observe (we_guard_stopped env) (\<lambda>_. []) w3 = (y, w4)" by fastforce
  have l: "logs w ([CallGuardInterval ?t] @ [CallGuardStart x] @ [] @ []) w4"
    by (rule logs_trans [OF observe_logs [OF i] logs_trans [OF observe_logs [OF g [unfolded start_guard_def]] logs_trans [OF wait_logs [OF p] observe_logs [OF o]]]])
  show thesis
    by (rule that [of "[CallGuardInterval ?t, CallGuardStart x]"]) (use assms False i g p o l in \<open>auto simp: refresh_local_guard_def\<close>)
qed

text \<open>The polling of the guard ends as soon as one answer is that it is not pending.\<close>

fun polled :: "('o, 'n) writer_env \<Rightarrow> nat \<Rightarrow> 'o writer \<Rightarrow> 'o writer" where
  "polled env 0 w = w"
| "polled env (Suc n) w = snd (observe (we_guard_pending env) (\<lambda>_. []) (polled env n w))"

lemma polled_shift: "polled env n (snd (observe (we_guard_pending env) (\<lambda>_. []) w)) = polled env (Suc n) w"
  by (induction n) simp_all

lemma waiting_ends: "\<not> fst (we_guard_pending env (wr_out (polled env n w))) \<Longrightarrow> wait_while_pending env w \<noteq> None"
proof (induction n arbitrary: w)
  case 0
  then show ?case by (subst wait_while_pending.simps) (auto simp: observe_def split: prod.splits)
next
  case (Suc n)
  obtain b w1 where o: "observe (we_guard_pending env) (\<lambda>_. []) w = (b, w1)" by fastforce
  then have "polled env n w1 = polled env (Suc n) w" using polled_shift [of env n w] by simp
  with Suc have "wait_while_pending env w1 \<noteq> None" by metis
  then show ?case by (subst wait_while_pending.simps) (simp add: o)
qed

datatype ('o, 'n) writer_op =
  OpUpdate "('o, 'n) writer_env" | OpReset "('o, 'n) writer_env" | OpStop "('o, 'n) writer_env" | OpRefresh "('o, 'n) writer_env"

fun run_op :: "('o, 'n) writer_op \<Rightarrow> 'o writer \<Rightarrow> 'o writer option" where
  "run_op (OpUpdate env) w = Some (snd (update_sysproxy env w))"
| "run_op (OpReset env) w = Some (snd (reset_sysproxy env w))"
| "run_op (OpStop env) w = Some (snd (stop_proxy_guard env w))"
| "run_op (OpRefresh env) w = map_option snd (refresh_local_guard env w)"

fun run_ops :: "('o, 'n) writer_op list \<Rightarrow> 'o writer \<Rightarrow> 'o writer option" where
  "run_ops [] w = Some w"
| "run_ops (op # ops) w = Option.bind (run_op op w) (run_ops ops)"

definition written_by_us :: "proxies \<Rightarrow> proxy_call list \<Rightarrow> bool" where
  "written_by_us p calls \<longleftrightarrow> (if sp_enable (fst p) then CallSetSystem (fst p) (Inr ()) \<in> set calls
     else ap_enable (snd p) \<and> CallSetAuto (snd p) (Inr ()) \<in> set calls)"

definition writer_ok :: "'o writer \<Rightarrow> bool" where
  "writer_ok w \<longleftrightarrow> (\<forall>p. wr_owned w = Some p \<longrightarrow> written_by_us p (wr_calls w))
     \<and> (wr_writes_disabled w \<longrightarrow> wr_owned w = None \<and> \<not> list_ex is_write (wr_calls w))"

lemma writer_ok_grows:
  assumes "writer_ok w" and "grows w cs owned w'"
    and "owned = wr_owned w \<or> owned = None \<or> (\<exists>p. owned = Some p \<and> written_by_us p cs)"
    and "wr_writes_disabled w \<Longrightarrow> \<not> list_ex is_write cs \<and> owned = wr_owned w"
  shows "writer_ok w'"
  using assms by (auto simp: writer_ok_def grows_def written_by_us_def split: if_splits)

lemma quiet_no_writes: "list_all quiet cs \<Longrightarrow> \<not> list_ex is_write cs"
  by (auto simp: list_all_iff list_ex_iff quiet_no_write)

lemma update_ok:
  assumes "update_sysproxy env w = (r, w')" and ok: "writer_ok w"
  shows "writer_ok w'"
  using assms(1)
proof (cases rule: update_cases)
  case (quietly cs owned)
  show ?thesis
    by (rule writer_ok_grows [OF ok quietly(2)]) (use quietly ok quiet_no_writes in \<open>auto simp: writer_ok_def\<close>)
next
  case (written pac_port target gt s a w1)
  obtain ds where ds: "wr_calls w' = wr_calls w @ [CallGetSystem (Inr s), CallGetAuto (Inr a)] @ ds"
    using written_log [OF written(5,7)] by metis
  have flags: "wr_reset w' = wr_reset w" "wr_writes_disabled w' = wr_writes_disabled w"
    using update_keeps_flags [OF assms(1)] by simp_all
  let ?cs = "[CallGetSystem (Inr s), CallGetAuto (Inr a)] @ ds"
  have g: "grows w ?cs (wr_owned w') w'" using ds flags by (simp add: grows_def)
  have own: "wr_owned w1 = wr_owned w" and c1: "wr_calls w1 = wr_calls w @ [CallGetSystem (Inr s), CallGetAuto (Inr a)]"
    using written(5) by (simp_all add: grows_def)
  have "wr_owned w' = wr_owned w \<or> wr_owned w' = None \<or> (\<exists>p. wr_owned w' = Some p \<and> written_by_us p ?cs)"
    using written(7)
  proof (cases rule: write_target_logs)
    case (confirmed pre x y s' a')
    have d: "ds = pre @ [step_call target (first_step target) x, step_call target (second_step target) y,
        CallGetSystem (Inr s'), CallGetAuto (Inr a'), CallGuardType gt]"
      using confirmed(7) ds c1 by (simp add: owns_def)
    have "written_by_us (s', a') ?cs"
    proof (cases "sp_enable (fst target)")
      case True
      with configured(2) [OF written(3)] have st: "second_step target = StepSysproxy" by (simp add: second_step_def)
      with True confirmed(6) have "y = Inr ()" by (auto intro: went_on simp: step_on_def)
      with True st confirmed(4) d show ?thesis by (simp add: written_by_us_def enabled_proxy_target_matches_def step_call_def)
    next
      case False
      with confirmed(3) have st: "second_step target = StepAutoproxy" "ap_enable (snd target)"
        by (simp_all add: second_step_def enabled_def)
      with confirmed(6) have "y = Inr ()" by (auto intro: went_on simp: step_on_def)
      with False st confirmed(4) d show ?thesis by (simp add: written_by_us_def enabled_proxy_target_matches_def step_call_def)
    qed
    with confirmed(7) own show ?thesis by (auto simp: owns_def split: if_splits)
  qed (use own in \<open>simp_all add: logs_def owns_def\<close>)
  with writer_ok_grows [OF ok g] written(1) show ?thesis by blast
qed

lemma reset_keeps_flags: "reset_sysproxy env w = (r, w') \<Longrightarrow> wr_writes_disabled w' = wr_writes_disabled w"
proof -
  have st: "wr_writes_disabled (snd (stop_proxy_guard_locked env v)) = wr_writes_disabled v" for v
    using stop_logs [of env v] by (cases "stop_proxy_guard_locked env v") (auto simp: logs_def)
  have rb: "read_both env v = (p, v') \<Longrightarrow> wr_writes_disabled v' = wr_writes_disabled v" for v v' p
    by (erule read_both_logs) (simp_all add: logs_def)
  have bw: "before_write env t d v = (p, v') \<Longrightarrow> wr_writes_disabled v' = wr_writes_disabled v" for v v' p t d
    by (erule before_write_logs) (simp_all add: logs_def)
  have du: "disable_until_the_last_write_is_ours d (disable_all_proxies env (fst (off_of t)) (snd (off_of t))) (stop_proxy_guard_locked env) v = (p, v')
      \<Longrightarrow> wr_writes_disabled v' = wr_writes_disabled v" for d t v v' p
    by (erule disable_until_logs) (simp_all add: logs_def)
  have owned: "wr_writes_disabled (snd (reset_owned env v)) = wr_writes_disabled v" for v
  proof -
    obtain d v1 where s1: "stop_proxy_guard_locked env v = (d, v1)" by fastforce
    let ?off = "off_of (wr_inner v1)"
    obtain state v2 where b: "before_write env ?off d (v1\<lparr>wr_inner := ?off\<rparr>) = (state, v2)" by fastforce
    obtain q v3 where u: "disable_until_the_last_write_is_ours d (disable_all_proxies env (fst ?off) (snd ?off)) (stop_proxy_guard_locked env) v2 = (q, v3)"
      by fastforce
    have "snd (reset_owned env v) = (if state = AlreadyApplied then v2 else case q of Inr _ \<Rightarrow> v3\<lparr>wr_owned := None\<rparr> | Inl _ \<Rightarrow> v3)"
      using b u by (simp add: reset_owned_def s1 before_write_def Let_def split: sum.splits)
    with st [of v] s1 bw [OF b] du [OF u] show ?thesis by (auto split: sum.splits)
  qed
  assume "reset_sysproxy env w = (r, w')"
  then show ?thesis
    using st owned rb
    by (fastforce simp: reset_sysproxy_def reset_locked_def try_then_def split: if_splits option.splits prod.splits sum.splits)
qed

lemma reset_ok:
  assumes run: "reset_sysproxy env w = (r, w')" and ok: "writer_ok w"
  shows "writer_ok w'"
proof -
  note flag = reset_keeps_flags [OF run]
  from run show ?thesis
  proof (cases rule: reset_cases)
    case (skipped cs)
    with ok flag quiet_no_writes [of cs] show ?thesis by (auto simp: writer_ok_def written_by_us_def split: if_splits)
  next
    case (unread e cs)
    with ok flag quiet_no_writes [of cs] show ?thesis by (auto simp: writer_ok_def written_by_us_def split: if_splits)
  qed (use ok flag in \<open>auto simp: writer_ok_def written_by_us_def split: if_splits\<close>)
qed

lemma logs_ok: "writer_ok w \<Longrightarrow> logs w cs w' \<Longrightarrow> \<not> list_ex is_write cs \<Longrightarrow> writer_ok w'"
  by (auto simp: writer_ok_def logs_def written_by_us_def split: if_splits)

lemma run_op_ok:
  assumes "run_op op w = Some w'" and "writer_ok w"
  shows "writer_ok w' \<and> wr_writes_disabled w' = wr_writes_disabled w"
proof (cases op)
  case (OpUpdate env)
  then obtain r where u: "update_sysproxy env w = (r, w')" using assms(1) by (cases "update_sysproxy env w") simp
  with update_ok update_keeps_flags assms(2) show ?thesis by blast
next
  case (OpReset env)
  then obtain r where u: "reset_sysproxy env w = (r, w')" using assms(1) by (cases "reset_sysproxy env w") simp
  with reset_ok reset_keeps_flags assms(2) show ?thesis by blast
next
  case (OpStop env)
  then obtain r where "stop_proxy_guard_locked env w = (r, w')"
    using assms(1) by (cases "stop_proxy_guard_locked env w") (simp add: stop_proxy_guard_def)
  from stop_logs [OF this] assms(2) logs_ok show ?thesis by (fastforce simp: logs_def)
next
  case (OpRefresh env)
  then obtain b where "refresh_local_guard env w = Some (b, w')" using assms(1) by auto
  then obtain cs where "logs w cs w'" "\<not> list_ex is_write cs" by (rule refresh_logs)
  with logs_ok assms(2) show ?thesis by (auto simp: logs_def)
qed

lemma run_ops_ok: "run_ops ops w = Some w' \<Longrightarrow> writer_ok w \<Longrightarrow> writer_ok w' \<and> wr_writes_disabled w' = wr_writes_disabled w"
proof (induction ops arbitrary: w)
  case (Cons op ops)
  from Cons.prems(1) obtain w1 where w1: "run_op op w = Some w1" "run_ops ops w1 = Some w'" by (auto simp: bind_eq_Some_conv)
  from Cons.IH [OF w1(2)] run_op_ok [OF w1(1) Cons.prems(2)] show ?case by simp
qed simp

text \<open>
  C6: whatever operations a process runs, and whatever the system and other processes do meanwhile, what it takes for its
  own is an enabled proxy it wrote successfully itself; and a process started with writes
  disabled never writes and never owns anything.
\<close>

theorem owned_proxy_was_written:
  assumes "run_ops ops (writer_new env_value out) = Some w"
  shows "(\<forall>p. wr_owned w = Some p \<longrightarrow> written_by_us p (wr_calls w))
    \<and> (system_proxy_writes_disabled_for env_value \<longrightarrow> wr_owned w = None \<and> \<not> list_ex is_write (wr_calls w))"
proof -
  have "writer_ok (writer_new env_value out)" by (simp add: writer_ok_def writer_new_def)
  from run_ops_ok [OF assms this] show ?thesis by (auto simp: writer_ok_def writer_new_def)
qed

subsection \<open>An example\<close>

text \<open>
  A system that accepts every write; its reads fail from the one numbered \<open>broken\<close> on.
\<close>

definition sample_writer_env :: "nat \<Rightarrow> bool \<Rightarrow> (proxies \<times> nat, unit) writer_env" where
  "sample_writer_env broken wanted = \<lparr>we_plat = Linux, we_verge = iverge_default\<lparr>enable_system_proxy := Some wanted\<rparr>,
     we_bypass_verge = iverge_default, we_port = 7897, we_pac_port = Some 33331,
     we_get_system = (\<lambda>(p, n). (if n < broken then Inr (fst p) else Inl (OtherSysproxy ''no answer''), (p, Suc n))),
     we_get_auto = (\<lambda>(p, n). (Inr (snd p), (p, n))),
     we_set_system = (\<lambda>s (p, n). (Inr (), ((s, snd p), n))),
     we_set_auto = (\<lambda>a (p, n). (Inr (), ((fst p, a), n))),
     we_snapshot = (\<lambda>out. (Inr (), out)), we_matches_pac = (\<lambda>_ _. False), we_matches_global = (\<lambda>_ _. False),
     we_bypass_matches = (\<lambda>_ _. False), we_all_disabled = (\<lambda>_. False), we_partly_written = (\<lambda>_. False),
     we_join = (\<lambda>out. (None, out)), we_guard_shutdown = id, we_guard_drained = (\<lambda>out. (True, out)),
     we_guard_start = (\<lambda>out. (True, out)), we_guard_pending = (\<lambda>out. (False, out)), we_guard_stopped = (\<lambda>out. (True, out)),
     we_guard_interval = (\<lambda>_ out. out), we_guard_type = (\<lambda>_ out. out)\<rparr>"

definition sample_out :: "proxies \<times> nat" where
  "sample_out = ((\<lparr>sp_enable = False, sp_host = [], sp_port = 0, sp_bypass = []\<rparr>, \<lparr>ap_enable = False, ap_url = []\<rparr>), 0)"

lemmas run_defs = read_both_def joined_def observe_def try_then_def enabled_def
  write_target_def stop_proxy_guard_locked_def apply_target_def proxy_apply_steps_def apply_step_def set_auto_proxy_def
  set_system_proxy_def skip_without_network_service_def confirm_target_def enabled_proxy_target_matches_def set_guard_type_def
  proxy_state_matches_def changed_by_another_def sample_out_def writer_new_def system_proxy_writes_disabled_for_def Let_def

lemma sample_settings [simp]:
  "enable_system_proxy (we_verge (sample_writer_env broken wanted)) = Some wanted"
  "proxy_auto_config (we_verge (sample_writer_env broken wanted)) = None"
  "enable_proxy_guard (we_verge (sample_writer_env broken wanted)) = None"
  by (simp_all add: sample_writer_env_def iverge_default_def)

lemma sample_outside [simp]:
  "we_plat (sample_writer_env broken wanted) = Linux" "we_pac_port (sample_writer_env broken wanted) = Some 33331"
  "we_get_system (sample_writer_env broken wanted) = (\<lambda>(p, n). (if n < broken then Inr (fst p) else Inl (OtherSysproxy ''no answer''), (p, Suc n)))"
  "we_get_auto (sample_writer_env broken wanted) = (\<lambda>(p, n). (Inr (snd p), (p, n)))"
  "we_set_system (sample_writer_env broken wanted) = (\<lambda>s (p, n). (Inr (), ((s, snd p), n)))"
  "we_set_auto (sample_writer_env broken wanted) = (\<lambda>a (p, n). (Inr (), ((fst p, a), n)))"
  "we_join (sample_writer_env broken wanted) = (\<lambda>out. (None, out))" "we_guard_shutdown (sample_writer_env broken wanted) = id"
  "we_guard_drained (sample_writer_env broken wanted) = (\<lambda>out. (True, out))"
  "we_guard_stopped (sample_writer_env broken wanted) = (\<lambda>out. (True, out))"
  "we_guard_type (sample_writer_env broken wanted) = (\<lambda>_ out. out)"
  by (simp_all add: sample_writer_env_def)

lemma sample_target:
  obtains s a where "configure_target (sample_writer_env broken wanted) 33331 = ((s, a), GuardNone)" "sp_enable s = wanted" "\<not> ap_enable a"
    "sp_port s = we_port (sample_writer_env broken wanted)"
  by (cases wanted) (auto simp: configure_target_def Let_def)

lemma sample_update:
  shows "\<exists>w. update_sysproxy (sample_writer_env 2 True) (writer_new None sample_out) = (Inr (), w) \<and> wr_owned w \<noteq> None
      \<and> sp_enable (fst (fst (wr_out w))) \<and> list_ex is_write (new_calls (writer_new None sample_out) w)"
    and "\<exists>e w. update_sysproxy (sample_writer_env 1 True) (writer_new None sample_out) = (Inl e, w) \<and> sp_enable (fst (fst (wr_out w)))"
proof -
  obtain s a where t: "configure_target (sample_writer_env 2 True) 33331 = ((s, a), GuardNone)" "sp_enable s" "\<not> ap_enable a"
    using sample_target [of 2 True] by metis
  obtain s' a' where t': "configure_target (sample_writer_env 1 True) 33331 = ((s', a'), GuardNone)" "sp_enable s'" "\<not> ap_enable a'"
    using sample_target [of 1 True] by metis
  show "\<exists>w. update_sysproxy (sample_writer_env 2 True) (writer_new None sample_out) = (Inr (), w) \<and> wr_owned w \<noteq> None
      \<and> sp_enable (fst (fst (wr_out w))) \<and> list_ex is_write (new_calls (writer_new None sample_out) w)"
    using t by (auto simp: update_sysproxy_def run_defs new_calls_def)
  show "\<exists>e w. update_sysproxy (sample_writer_env 1 True) (writer_new None sample_out) = (Inl e, w) \<and> sp_enable (fst (fst (wr_out w)))"
    using t' by (auto simp: update_sysproxy_def run_defs)
qed

text \<open>A process that owns the proxy of the sample system, which is to be turned off.\<close>

definition sample_owner :: "(proxies \<times> nat) writer" where
  "sample_owner = (writer_new None sample_out)\<lparr>wr_owned := Some (fst sample_out)\<rparr>"

lemma sample_clear:
  "\<exists>w. update_sysproxy (sample_writer_env 2 False) sample_owner = (Inr (), w) \<and> list_ex is_write (new_calls sample_owner w)"
proof -
  obtain s a where t: "configure_target (sample_writer_env 2 False) 33331 = ((s, a), GuardNone)" "\<not> sp_enable s" "\<not> ap_enable a"
    using sample_target [of 2 False] by metis
  then show ?thesis by (auto simp: update_sysproxy_def run_defs new_calls_def sample_owner_def)
qed


theorem guard_enforces_only_what_was_written_witness:
  "\<exists>w. guard_ok [] (new_calls (writer_new None sample_out) w)
     \<and> last (new_calls (writer_new None sample_out) w) = CallGuardType (snd (configure_target (sample_writer_env 2 True) 33331))"
proof -
  obtain w where "update_sysproxy (sample_writer_env 2 True) (writer_new None sample_out) = (Inr (), w)"
    "list_ex is_write (new_calls (writer_new None sample_out) w)" using sample_update(1) by blast
  with guard_enforces_only_what_was_written [of "sample_writer_env 2 True" "writer_new None sample_out" "Inr ()" w]
  show ?thesis by auto
qed

theorem failed_update_is_undone_witness:
  "\<exists>e w. update_sysproxy (sample_writer_env 1 True) (writer_new None sample_out) = (Inl e, w) \<and> wr_owned w = None"
proof -
  obtain e w where u: "update_sysproxy (sample_writer_env 1 True) (writer_new None sample_out) = (Inl e, w)"
    using sample_update(2) by blast
  from failed_update_is_undone [OF u] u show ?thesis by (auto simp: writer_new_def)
qed

theorem unconfirmed_proxy_is_never_cleared_witness:
  "\<exists>e w. update_sysproxy (sample_writer_env 1 True) (writer_new None sample_out) = (Inl e, w)
     \<and> sp_enable (fst (fst (wr_out w))) \<and> reset_sysproxy (sample_writer_env 9 True) w = (Inr (), w)"
proof -
  obtain e w where u: "update_sysproxy (sample_writer_env 1 True) (writer_new None sample_out) = (Inl e, w)"
    "sp_enable (fst (fst (wr_out w)))" using sample_update(2) by blast
  have "wr_owned (writer_new None sample_out) = None" "\<not> wr_reset (writer_new None sample_out)"
    "\<not> wr_writes_disabled (writer_new None sample_out)" by (simp_all add: writer_new_def system_proxy_writes_disabled_for_def)
  from unconfirmed_proxy_is_never_cleared [OF u(1) this, of "sample_writer_env 9 True"] u show ?thesis by blast
qed

theorem owned_proxy_was_written_witness:
  "\<exists>w p. run_ops [OpUpdate (sample_writer_env 2 True)] (writer_new None sample_out) = Some w
     \<and> wr_owned w = Some p \<and> written_by_us p (wr_calls w)"
proof -
  obtain w where u: "update_sysproxy (sample_writer_env 2 True) (writer_new None sample_out) = (Inr (), w)" "wr_owned w \<noteq> None"
    using sample_update(1) by blast
  then have r: "run_ops [OpUpdate (sample_writer_env 2 True)] (writer_new None sample_out) = Some w" by simp
  from owned_proxy_was_written [OF r] u(2) r show ?thesis by blast
qed

end
