(* ===== verification/ProfileFetch.thy ===== *)
theory ProfileFetch
  imports ConfigUpdate NodeSelection
begin

section \<open>Making profiles: \<open>config/prfitem.rs\<close> and the edits of the saved profiles\<close>

text \<open>
  The committed profiles are edited by \<open>with_data_modify\<close>: the task waits for the permit, while others commit what
  \<open>pv_others\<close> says, edits a copy, and fails when somebody applied a draft meanwhile (\<open>pv_applied\<close>).  A profile is
  made from a file or from the answer of a server; each of the five attachments it lacks is appended to the
  saved profiles first.  The network, the YAML parser, the \<open>url\<close> crate, the file system, the clock and the supply of
  identifiers answer through arguments at the tick of the question.
\<close>

subsection \<open>The world\<close>

datatype fetch_proxy = ThroughNone | ThroughCore | ThroughSystem

record header_value =
  hv_text :: "string option"
  hv_debug :: string

text \<open>Names of headers are in lower case, as the \<open>http\<close> crate keeps them.\<close>

record url_reply =
  rp_success :: bool
  rp_status :: string
  rp_headers :: "(string \<times> header_value) list"
  rp_text :: string

record 'u url_ops =
  url_parse :: "string \<Rightarrow> string + 'u"
  url_scheme :: "'u \<Rightarrow> string"
  url_host :: "'u \<Rightarrow> string option"
  url_path :: "'u \<Rightarrow> string"
  url_query :: "'u \<Rightarrow> string option"
  url_set_path :: "string \<Rightarrow> 'u \<Rightarrow> 'u"
  url_extend_query :: "string \<Rightarrow> 'u \<Rightarrow> 'u"
  url_text :: "'u \<Rightarrow> string"

datatype profiles_event =
    Fetched string fetch_proxy | ActivateNodes | SupersedeNodes | NotifyProfile string | NotifyTimer string
  | NoticeMessage string string | ValidationNotice validation_outcome | RefreshedClash | RefreshedVerge | RefreshedProfiles
  | RefreshedProxies | RefreshTimer | TooltipUpdated | MenuUpdated | SpawnSave | AskedNode string string

record 'u profiles_env =
  pv_config :: config_env
  pv_others :: "nat \<Rightarrow> iprofiles \<Rightarrow> iprofiles"
  pv_applied :: "nat \<Rightarrow> iprofiles option"
  pv_dir :: "nat \<Rightarrow> string + unit"
  pv_write :: "nat \<Rightarrow> string \<Rightarrow> string \<Rightarrow> string + unit"
  pv_nanoid :: "nat \<Rightarrow> string"
  pv_stamp :: "nat \<Rightarrow> u64"
  pv_fetch :: "nat \<Rightarrow> string \<Rightarrow> fetch_proxy \<Rightarrow> u64 \<Rightarrow> string option \<Rightarrow> bool \<Rightarrow> string + url_reply"
  pv_url :: "'u url_ops"
  pv_percent :: "string \<Rightarrow> string option"
  pv_percent_lossy :: "string \<Rightarrow> string"
  pv_yaml :: "string \<Rightarrow> string + mapping"
  pv_select :: "nat \<Rightarrow> string \<Rightarrow> string \<Rightarrow> bool"
  pv_window :: "nat \<Rightarrow> bool"
  pv_remove :: "nat \<Rightarrow> string \<Rightarrow> bool"

record profiles_world =
  pw_config :: config_world
  pw_files :: "string \<Rightarrow> string option"
  pw_switching :: bool
  pw_app_running :: bool
  pw_tick :: nat
  pw_events :: "profiles_event list"

type_synonym 'r profiles_result = "'r outcome \<times> profiles_world"

definition pass :: "profiles_world \<Rightarrow> profiles_world" where
  "pass w = w\<lparr>pw_tick := Suc (pw_tick w)\<rparr>"

definition note_profiles :: "profiles_event \<Rightarrow> profiles_world \<Rightarrow> profiles_world" where
  "note_profiles e w = w\<lparr>pw_events := pw_events w @ [e]\<rparr>"

definition profiles_cell :: "profiles_world \<Rightarrow> iprofiles draft_view" where
  "profiles_cell w = cw_profiles (pw_config w)"

definition set_cell :: "iprofiles draft_view \<Rightarrow> profiles_world \<Rightarrow> profiles_world" where
  "set_cell v w = w\<lparr>pw_config := (pw_config w)\<lparr>cw_profiles := v\<rparr>\<rparr>"

text \<open>What the others commit while this task waits.\<close>

definition others_commit :: "'u profiles_env \<Rightarrow> profiles_world \<Rightarrow> profiles_world" where
  "others_commit env w =
     (let (c, d) = profiles_cell w in pass (set_cell (pv_others env (pw_tick w) c, d) w))"

subsection \<open>Edits of the committed profiles\<close>

text \<open>\<open>dropped\<close> is what the drop of a result does that is given up.\<close>

definition with_profiles_modify_dropping :: "'u profiles_env \<Rightarrow> ('r \<Rightarrow> profiles_world \<Rightarrow> profiles_world)
    \<Rightarrow> (iprofiles \<Rightarrow> profiles_world \<Rightarrow> (iprofiles \<times> 'r) profiles_result) \<Rightarrow> profiles_world \<Rightarrow> 'r profiles_result" where
  "with_profiles_modify_dropping env dropped f w =
     (let w = others_commit env w; (r, w) = f (fst (profiles_cell w)) w;
          applied = pv_applied env (pw_tick w);
          w = pass (case applied of Some p \<Rightarrow> set_cell (p, None) w | None \<Rightarrow> w)
      in case r of
           Inl e \<Rightarrow> (Inl e, w)
         | Inr (new, x) \<Rightarrow> if applied \<noteq> None then (Inl (bail optimistic_lock_failed), dropped x w)
             else (Inr x, set_cell (new, snd (profiles_cell w)) w))"

definition with_profiles_modify :: "'u profiles_env \<Rightarrow> (iprofiles \<Rightarrow> profiles_world \<Rightarrow> (iprofiles \<times> 'r) profiles_result)
    \<Rightarrow> profiles_world \<Rightarrow> 'r profiles_result" where
  "with_profiles_modify env f w = with_profiles_modify_dropping env (\<lambda>_ w. w) f w"

text \<open>The effects an edit of the list reports: files are written, the list is saved when the edit succeeds.\<close>

fun file_effect :: "bool \<Rightarrow> profile_effect \<Rightarrow> profiles_world \<Rightarrow> profiles_world" where
  "file_effect ok (WriteFile file data) w = w\<lparr>pw_files := (pw_files w)(file \<mapsto> data)\<rparr>"
| "file_effect ok (SaveProfiles p) w =
     (if ok then w\<lparr>pw_config := (pw_config w)\<lparr>cw_profiles_file := Some p\<rparr>\<rparr> else w)"

definition run_edit :: "(string + unit) \<times> iprofiles \<times> profile_effect list \<Rightarrow> profiles_world \<Rightarrow> (iprofiles \<times> unit) profiles_result" where
  "run_edit result w =
     (case result of (r, p, written) \<Rightarrow>
        (map_sum bail (\<lambda>_. (p, ())) r, pass (fold (file_effect (is_ok r)) written w)))"

definition save_answer :: "'u profiles_env \<Rightarrow> profiles_world \<Rightarrow> iprofiles \<Rightarrow> string + unit" where
  "save_answer env w p = ce_write_profiles (pv_config env) (pw_tick w)"

definition profiles_append_item_to_safe :: "'u profiles_env \<Rightarrow> prf_item \<Rightarrow> profiles_world \<Rightarrow> unit profiles_result" where
  "profiles_append_item_to_safe env item = with_profiles_modify env (\<lambda>profiles w.
     run_edit (case append_item (pv_dir env (pw_tick w)) (pv_write env (pw_tick w)) item profiles of
       (r, p, _, written) \<Rightarrow> (r, p, written)) w)"

definition profiles_append_item_safe :: "'u profiles_env \<Rightarrow> prf_item \<Rightarrow> profiles_world \<Rightarrow> unit profiles_result" where
  "profiles_append_item_safe env item w = profiles_append_item_to_safe env item w"

definition profiles_patch_item_safe :: "'u profiles_env \<Rightarrow> string \<Rightarrow> prf_item \<Rightarrow> profiles_world \<Rightarrow> unit profiles_result" where
  "profiles_patch_item_safe env index item = with_profiles_modify env (\<lambda>profiles w.
     run_edit (patch_item (plat (ce_core (pv_config env))) (save_answer env w) index item profiles) w)"

definition profiles_reorder_safe :: "'u profiles_env \<Rightarrow> string \<Rightarrow> string \<Rightarrow> profiles_world \<Rightarrow> unit profiles_result" where
  "profiles_reorder_safe env active_id over_id = with_profiles_modify env (\<lambda>profiles w.
     run_edit (reorder (save_answer env w) active_id over_id profiles) w)"

definition profiles_save_file_safe :: "'u profiles_env \<Rightarrow> profiles_world \<Rightarrow> unit profiles_result" where
  "profiles_save_file_safe env = with_profiles_modify env (\<lambda>profiles w.
     run_edit (save_answer env w profiles, profiles, [SaveProfiles profiles]) w)"

definition profiles_update_item_safe :: "'u profiles_env \<Rightarrow> string \<Rightarrow> prf_item \<Rightarrow> profiles_world \<Rightarrow> unit profiles_result" where
  "profiles_update_item_safe env index item = with_profiles_modify env (\<lambda>profiles w.
     run_edit (update_item (pv_dir env (pw_tick w)) (pv_write env (pw_tick w)) (save_answer env w) index item profiles) w)"

definition record_selected_node :: "'u profiles_env \<Rightarrow> string \<Rightarrow> string \<Rightarrow> profiles_world \<Rightarrow> unit profiles_result" where
  "record_selected_node env g node w =
     try_then (with_profiles_modify env (\<lambda>profiles w.
       case record_selected_edit (save_answer env w) g node profiles of
         Inl e \<Rightarrow> (Inl (bail e), pass w)
       | Inr (p, recorded) \<Rightarrow> (Inr (p, recorded), pass (if recorded then file_effect True (SaveProfiles p) w else w))) w)
     (\<lambda>recorded w. (Inr (), if recorded then note_profiles RefreshedProfiles (note_profiles SupersedeNodes w) else w))"

subsection \<open>Templates and attachments\<close>

definition str_lf :: "string list \<Rightarrow> string" where
  "str_lf ls = concat (map (\<lambda>l. l @ [CHR 0x0A]) ls)"

definition ITEM_LOCAL :: string where
  "ITEM_LOCAL = str_lf [''# Profile Template for Clash Verge'', [], ''proxies: []'', [], ''proxy-groups: []'', [], ''rules: []'']"

definition ITEM_MERGE :: string where
  "ITEM_MERGE = str_lf [''# Profile Enhancement Merge Template for Clash Verge'', [], ''profile:'', ''  store-selected: true'']"

definition ITEM_MERGE_EMPTY :: string where
  "ITEM_MERGE_EMPTY = str_lf [''# Profile Enhancement Merge Template for Clash Verge'', []]"

definition edit_template :: "string \<Rightarrow> string" where
  "edit_template kind = str_lf [''# Profile Enhancement '' @ kind @ '' Template for Clash Verge'', [],
     ''prepend: []'', [], ''append: []'', [], ''delete: []'']"

definition ITEM_RULES :: string where
  "ITEM_RULES = edit_template ''Rules''"

definition ITEM_PROXIES :: string where
  "ITEM_PROXIES = edit_template ''Proxies''"

definition ITEM_GROUPS :: string where
  "ITEM_GROUPS = edit_template ''Groups''"

definition get_uid :: "'u profiles_env \<Rightarrow> string \<Rightarrow> profiles_world \<Rightarrow> string \<times> profiles_world" where
  "get_uid env prefix w = (prefix @ pv_nanoid env (pw_tick w), pass w)"

definition attachment :: "string \<Rightarrow> string \<Rightarrow> string \<Rightarrow> u64 \<Rightarrow> string \<Rightarrow> prf_item" where
  "attachment kind uid ext stamp template = prf_item_default\<lparr>prf_uid := Some uid, prf_itype := Some kind,
     prf_file := Some (uid @ ext), prf_updated := Some stamp, prf_file_data := Some template\<rparr>"

definition from_merge :: "'u profiles_env \<Rightarrow> string option \<Rightarrow> profiles_world \<Rightarrow> prf_item \<times> profiles_world" where
  "from_merge env given w =
     (let ((uid, template), w) = (case given of Some u \<Rightarrow> ((u, ITEM_MERGE), w)
            | None \<Rightarrow> (let (u, w) = get_uid env ''m'' w in ((u, ITEM_MERGE_EMPTY), w)))
      in (attachment ''merge'' uid ''.yaml'' (pv_stamp env (pw_tick w)) template, w))"

definition from_script :: "'u profiles_env \<Rightarrow> string option \<Rightarrow> profiles_world \<Rightarrow> prf_item \<times> profiles_world" where
  "from_script env given w =
     (let (uid, w) = (case given of Some u \<Rightarrow> (u, w) | None \<Rightarrow> get_uid env ''s'' w)
      in (attachment ''script'' uid ''.js'' (pv_stamp env (pw_tick w)) ITEM_SCRIPT, w))"

definition from_rules :: "'u profiles_env \<Rightarrow> profiles_world \<Rightarrow> prf_item \<times> profiles_world" where
  "from_rules env w =
     (let (uid, w) = get_uid env ''r'' w in (attachment ''rules'' uid ''.yaml'' (pv_stamp env (pw_tick w)) ITEM_RULES, w))"

definition from_proxies :: "'u profiles_env \<Rightarrow> profiles_world \<Rightarrow> prf_item \<times> profiles_world" where
  "from_proxies env w =
     (let (uid, w) = get_uid env ''p'' w in (attachment ''proxies'' uid ''.yaml'' (pv_stamp env (pw_tick w)) ITEM_PROXIES, w))"

definition from_groups :: "'u profiles_env \<Rightarrow> profiles_world \<Rightarrow> prf_item \<times> profiles_world" where
  "from_groups env w =
     (let (uid, w) = get_uid env ''g'' w in (attachment ''groups'' uid ''.yaml'' (pv_stamp env (pw_tick w)) ITEM_GROUPS, w))"

text \<open>One attachment: the one the options name, or a new one that is appended to the saved profiles.\<close>

definition attach :: "'u profiles_env \<Rightarrow> (profiles_world \<Rightarrow> prf_item \<times> profiles_world) \<Rightarrow> string option \<Rightarrow> profiles_world
    \<Rightarrow> string option profiles_result" where
  "attach env build given w =
     (if given \<noteq> None then (Inr given, w)
      else let (item, w) = build w
           in try_then (profiles_append_item_safe env item w) (\<lambda>_ w. (Inr (prf_uid item), w)))"

text \<open>All five, put into the options.\<close>

definition attach_all :: "'u profiles_env \<Rightarrow> item_option option \<Rightarrow> item_option \<Rightarrow> profiles_world \<Rightarrow> item_option profiles_result" where
  "attach_all env given opts w =
     try_then (attach env (\<lambda>w. from_merge env None w) (Option.bind given opt_merge) w) (\<lambda>merge.
     \<lambda>w. try_then (attach env (\<lambda>w. from_script env None w) (Option.bind given opt_script) w) (\<lambda>script.
     \<lambda>w. try_then (attach env (from_rules env) (Option.bind given opt_rules) w) (\<lambda>rules.
     \<lambda>w. try_then (attach env (from_proxies env) (Option.bind given opt_proxies) w) (\<lambda>proxies.
     \<lambda>w. try_then (attach env (from_groups env) (Option.bind given opt_groups) w) (\<lambda>groups.
     \<lambda>w. (Inr (opts\<lparr>opt_merge := merge, opt_script := script, opt_rules := rules, opt_proxies := proxies, opt_groups := groups\<rparr>), w))))))"

subsection \<open>A profile from a file\<close>

definition from_local :: "'u profiles_env \<Rightarrow> string \<Rightarrow> string \<Rightarrow> string option \<Rightarrow> item_option option \<Rightarrow> profiles_world
    \<Rightarrow> prf_item profiles_result" where
  "from_local env name desc file_data option w =
     (let (uid, w) = get_uid env ''L'' w
      in try_then (attach_all env option (item_option_default\<lparr>update_interval := Option.bind option update_interval\<rparr>) w) (\<lambda>opts w.
           (Inr \<lparr>prf_uid = Some uid, prf_itype = Some ''local'', prf_name = Some name, prf_file = Some (uid @ ''.yaml''),
              prf_desc = Some desc, prf_url = None, prf_selected = None, prf_extra = None,
              prf_updated = Some (pv_stamp env (pw_tick w)), prf_option = Some opts, prf_home = None,
              prf_file_data = Some (unwrap_or ITEM_LOCAL file_data)\<rparr>, w)))"

subsection \<open>The answer of a server\<close>

definition parse_u64 :: "string \<Rightarrow> u64 option" where
  "parse_u64 s = Option.bind (parse_nat s) (\<lambda>n. if n < 2 ^ 64 then Some (word_of_nat n) else None)"

text \<open>\<open>key=value\<close> among parts separated by semicolons: the first whose value can be read.\<close>

definition part_value :: "(string \<Rightarrow> 'a option) \<Rightarrow> string \<Rightarrow> string \<Rightarrow> 'a option" where
  "part_value parse key part =
     (if CHR ''='' \<notin> set part then None
      else let k = takeWhile (\<lambda>c. c \<noteq> CHR ''='') part in if k = key then parse (drop (Suc (length k)) part) else None)"

definition parse_str :: "(string \<Rightarrow> 'a option) \<Rightarrow> string \<Rightarrow> string \<Rightarrow> 'a option" where
  "parse_str parse target key =
     (case List.map_filter (part_value parse key) (map trim (split_on (CHR '';'') target)) of [] \<Rightarrow> None | v # _ \<Rightarrow> Some v)"

definition header_get :: "string \<Rightarrow> (string \<times> header_value) list \<Rightarrow> header_value option" where
  "header_get name headers = map_of headers (to_lower name)"

definition is_userinfo_header :: "string \<Rightarrow> bool" where
  "is_userinfo_header name =
     (let key = to_lower name; suffix = ''subscription-userinfo''
      in ends_with suffix key \<and> (let prefix = take (length key - length suffix) key in prefix = [] \<or> ends_with ''-'' prefix))"

definition subscription_extra :: "(string \<times> header_value) list \<Rightarrow> item_extra option" where
  "subscription_extra headers =
     map_option (\<lambda>(_, v). let info = unwrap_or [] (hv_text v); num = (\<lambda>key. unwrap_or 0 (parse_str parse_u64 info key))
       in \<lparr>upload = num ''upload'', download = num ''download'', total = num ''total'', expire = num ''expire''\<rparr>)
     (find (\<lambda>(k, _). is_userinfo_header k) headers)"

definition trim_quotes :: "string \<Rightarrow> string" where
  "trim_quotes s = rev (dropWhile (\<lambda>c. c = CHR 0x22) (rev (dropWhile (\<lambda>c. c = CHR 0x22) s)))"

text \<open>The last piece between two adjacent apostrophes.\<close>

fun after_last_quotes :: "string \<Rightarrow> string \<Rightarrow> string" where
  "after_last_quotes acc [] = acc"
| "after_last_quotes acc [c] = acc @ [c]"
| "after_last_quotes acc (c # d # s) =
     (if c = CHR 0x27 \<and> d = CHR 0x27 then after_last_quotes [] s else after_last_quotes (acc @ [c]) (d # s))"

definition get_last_part_and_decode :: "'u profiles_env \<Rightarrow> string \<Rightarrow> string option" where
  "get_last_part_and_decode env url =
     Some (pv_percent_lossy env (last (split_on (CHR ''/'') (hd (split_on (CHR ''?'') url)))))"

definition remote_filename :: "'u profiles_env \<Rightarrow> string \<Rightarrow> (string \<times> header_value) list \<Rightarrow> string option" where
  "remote_filename env url headers =
     (case header_get ''Content-Disposition'' headers of
        Some v \<Rightarrow> (let filename = trim_quotes (hv_debug v)
           in case parse_str Some filename ''filename*'' of
                Some f \<Rightarrow> Some (after_last_quotes [] (unwrap_or [] (pv_percent env f)))
              | None \<Rightarrow> map_option trim_quotes (parse_str Some filename ''filename''))
      | None \<Rightarrow> Some (unwrap_or ''Remote File'' (get_last_part_and_decode env url)))"

text \<open>Hours become minutes; the build has overflow checks off, so the product wraps.\<close>

definition remote_interval :: "u64 option \<Rightarrow> (string \<times> header_value) list \<Rightarrow> u64 option" where
  "remote_interval given headers =
     (case given of Some val \<Rightarrow> Some val
      | None \<Rightarrow> Option.bind (header_get ''profile-update-interval'' headers) (\<lambda>v.
          map_option (\<lambda>val. val * 60) (parse_u64 (unwrap_or [] (hv_text v)))))"

definition normalize_profile_home_url :: "'u url_ops \<Rightarrow> string \<Rightarrow> string option" where
  "normalize_profile_home_url ops raw =
     (case url_parse ops (trim raw) of Inl _ \<Rightarrow> None
      | Inr url \<Rightarrow> if url_scheme ops url \<noteq> ''http'' \<and> url_scheme ops url \<noteq> ''https'' then None
          else map_option (\<lambda>_. url_text ops url) (url_host ops url))"

fun drop_boms :: "string \<Rightarrow> string" where
  "drop_boms (a # b # c # s) = (if [a, b, c] = [CHR 0xEF, CHR 0xBB, CHR 0xBF] then drop_boms s else a # b # c # s)"
| "drop_boms s = s"

definition fix_dirty_url :: "'u url_ops \<Rightarrow> string \<Rightarrow> 'u outcome" where
  "fix_dirty_url ops input =
     (case url_parse ops input of
        Inl e \<Rightarrow> Inl (bail (''failed to parse subscription URL: '' @ e @ '', input: '' @ mask_url input))
      | Inr url \<Rightarrow>
          (if url_query ops url = None \<and> CHR ''&'' \<in> set (url_path ops url)
           then let path = url_path ops url; clean = takeWhile (\<lambda>c. c \<noteq> CHR ''&'') path
                in Inr (url_extend_query ops (drop (Suc (length clean)) path) (url_set_path ops clean url))
           else Inr url))"

definition proxy_type_of :: "item_option option \<Rightarrow> fetch_proxy" where
  "proxy_type_of option =
     (if unwrap_or False (Option.bind option self_proxy) then ThroughCore
      else if unwrap_or False (Option.bind option with_proxy) then ThroughSystem else ThroughNone)"

text \<open>What is read off the reply before anything is saved.\<close>

definition remote_mapping :: "'u profiles_env \<Rightarrow> url_reply \<Rightarrow> string outcome" where
  "remote_mapping env reply =
     (let data = drop_boms (rp_text reply)
      in case pv_yaml env data of
           Inl e \<Rightarrow> Inl (add_context (Text ''the remote profile data is invalid yaml'') (bail e))
         | Inr yaml \<Rightarrow>
             if get yaml ''proxies'' = None \<and> get yaml ''proxy-providers'' = None
             then Inl (bail ''profile does not contain `proxies` or `proxy-providers`'') else Inr data)"

definition from_reply :: "'u profiles_env \<Rightarrow> string \<Rightarrow> string option \<Rightarrow> string option \<Rightarrow> item_option option \<Rightarrow> url_reply
    \<Rightarrow> profiles_world \<Rightarrow> prf_item profiles_result" where
  "from_reply env url name desc option reply w =
     (if \<not> rp_success reply then (Inl (bail (''failed to fetch remote profile with status '' @ rp_status reply)), w)
      else
        let headers = rp_headers reply; (uid, w) = get_uid env ''R'' w
        in case remote_mapping env reply of
             Inl e \<Rightarrow> (Inl e, w)
           | Inr data \<Rightarrow>
               try_then (attach_all env option (item_option_default\<lparr>
                   update_interval := remote_interval (Option.bind option update_interval) headers,
                   allow_auto_update := Some (allow_auto_update_enabled option)\<rparr>) w) (\<lambda>opts w.
               (Inr \<lparr>prf_uid = Some uid, prf_itype = Some ''remote'',
                  prf_name = Some (case name of Some n \<Rightarrow> n | None \<Rightarrow> unwrap_or ''Remote File'' (remote_filename env url headers)),
                  prf_file = Some (uid @ ''.yaml''), prf_desc = desc, prf_url = Some url, prf_selected = None,
                  prf_extra = subscription_extra headers, prf_updated = Some (pv_stamp env (pw_tick w)), prf_option = Some opts,
                  prf_home = Option.bind (Option.bind (header_get ''profile-web-page-url'' headers) hv_text)
                    (normalize_profile_home_url (pv_url env)),
                  prf_file_data = Some data\<rparr>, w)))"

definition from_url :: "'u profiles_env \<Rightarrow> string \<Rightarrow> string option \<Rightarrow> string option \<Rightarrow> item_option option \<Rightarrow> profiles_world
    \<Rightarrow> prf_item profiles_result" where
  "from_url env url name desc option w =
     (case fix_dirty_url (pv_url env) url of
        Inl e \<Rightarrow> (Inl e, w)
      | Inr parsed \<Rightarrow>
          (let url = url_text (pv_url env) parsed; proxy = proxy_type_of option;
               answer = pv_fetch env (pw_tick w) url proxy (unwrap_or 20 (Option.bind option timeout_seconds))
                 (Option.bind option user_agent) (unwrap_or False (Option.bind option danger_accept_invalid_certs));
               w = pass (note_profiles (Fetched url proxy) w)
           in case answer of
                Inl e \<Rightarrow> (Inl (add_context (Text ''failed to fetch remote profile'') (bail e)), w)
              | Inr reply \<Rightarrow> from_reply env url name desc option reply w))"

definition from_item :: "'u profiles_env \<Rightarrow> prf_item \<Rightarrow> string option \<Rightarrow> profiles_world \<Rightarrow> prf_item profiles_result" where
  "from_item env item file_data w =
     (case prf_itype item of
        None \<Rightarrow> (Inl (bail ''type should not be null''), w)
      | Some typ \<Rightarrow>
          if typ = ''remote'' then
            (case prf_url item of None \<Rightarrow> (Inl (bail ''url should not be null''), w)
             | Some url \<Rightarrow> from_url env url (prf_name item) (prf_desc item) (prf_option item) w)
          else if typ = ''local'' then
            from_local env (unwrap_or ''Local File'' (prf_name item)) (unwrap_or [] (prf_desc item)) file_data (prf_option item) w
          else (Inl (bail (''invalid profile item type \"'' @ typ @ ''\"'')), w))"

definition profiles_append_item_with_filedata_safe :: "'u profiles_env \<Rightarrow> prf_item \<Rightarrow> string option \<Rightarrow> profiles_world
    \<Rightarrow> unit profiles_result" where
  "profiles_append_item_with_filedata_safe env item file_data w =
     try_then (from_item env item file_data w) (\<lambda>item w. profiles_append_item_safe env item w)"

text \<open>The two global items every list of profiles has.\<close>

definition ensure_item :: "'u profiles_env \<Rightarrow> string \<Rightarrow> (profiles_world \<Rightarrow> prf_item \<times> profiles_world) \<Rightarrow> profiles_world
    \<Rightarrow> unit profiles_result" where
  "ensure_item env uid build w =
     (if is_ok (get_item (view_latest (profiles_cell w)) uid) then (Inr (), w)
      else let (item, w) = build w in profiles_append_item_to_safe env item w)"

definition ensure_default_profile_items :: "'u profiles_env \<Rightarrow> profiles_world \<Rightarrow> unit profiles_result" where
  "ensure_default_profile_items env w =
     (if items (view_latest (profiles_cell w)) = None then (Inr (), w)
      else try_then (ensure_item env ''Merge'' (from_merge env (Some ''Merge'')) w) (\<lambda>_ w.
        ensure_item env ''Script'' (from_script env (Some ''Script'')) w))"

end
