(* ===== verification/Hotkey.thy ===== *)
theory Hotkey
  imports Failures
begin

section \<open>Global hotkeys: \<open>core/hotkey.rs\<close>\<close>

text \<open>
  A hotkey of the settings is the text of a function and of a key.  The global-shortcut plug-in answers through
  arguments: it parses a key to a shortcut \<open>'k\<close>, refuses a call or not, and calls the handler it holds for a
  shortcut.  The order in which a hash map is walked is an argument as well.
\<close>

datatype hotkey_function =
    OpenOrCloseDashboard | ClashModeRule | ClashModeGlobal | ClashModeDirect | ToggleSystemProxy | ToggleTunMode
  | EntryLightweightMode | ReactivateProfiles | Quit | Hide

definition show_function :: "hotkey_function \<Rightarrow> string" where
  "show_function f = (case f of
       OpenOrCloseDashboard \<Rightarrow> ''open_or_close_dashboard''
     | ClashModeRule \<Rightarrow> ''clash_mode_rule''
     | ClashModeGlobal \<Rightarrow> ''clash_mode_global''
     | ClashModeDirect \<Rightarrow> ''clash_mode_direct''
     | ToggleSystemProxy \<Rightarrow> ''toggle_system_proxy''
     | ToggleTunMode \<Rightarrow> ''toggle_tun_mode''
     | EntryLightweightMode \<Rightarrow> ''entry_lightweight_mode''
     | ReactivateProfiles \<Rightarrow> ''reactivate_profiles''
     | Quit \<Rightarrow> ''quit''
     | Hide \<Rightarrow> ''hide'')"

definition function_from_str :: "platform \<Rightarrow> string \<Rightarrow> hotkey_function outcome" where
  "function_from_str plat s =
     (let t = trim s in
      if t = ''open_or_close_dashboard'' then Inr OpenOrCloseDashboard
      else if t = ''clash_mode_rule'' then Inr ClashModeRule
      else if t = ''clash_mode_global'' then Inr ClashModeGlobal
      else if t = ''clash_mode_direct'' then Inr ClashModeDirect
      else if t = ''toggle_system_proxy'' then Inr ToggleSystemProxy
      else if t = ''toggle_tun_mode'' then Inr ToggleTunMode
      else if t = ''entry_lightweight_mode'' then Inr EntryLightweightMode
      else if t = ''reactivate_profiles'' then Inr ReactivateProfiles
      else if t = ''quit'' then Inr Quit
      else if t = ''hide'' \<and> plat = MacOS then Inr Hide
      else Inl (bail (''invalid hotkey function: '' @ s)))"

datatype system_hotkey = CmdQ | CmdW

definition show_system_hotkey :: "system_hotkey \<Rightarrow> string" where
  "show_system_hotkey h = (case h of CmdQ \<Rightarrow> ''CMD+Q'' | CmdW \<Rightarrow> ''CMD+W'')"

definition system_hotkey_function :: "system_hotkey \<Rightarrow> hotkey_function" where
  "system_hotkey_function h = (case h of CmdQ \<Rightarrow> Quit | CmdW \<Rightarrow> Hide)"

subsection \<open>What a hotkey does\<close>

datatype hotkey_event =
    DashboardToggled | ClashModeChanged string | SystemProxyToggled bool | TunModeToggled bool
  | LightweightModeEntered | ProfilesReactivated | AppQuit

datatype hotkey_effect =
    DoToggleDashboard | DoChangeMode string | DoToggleProxy | DoToggleTun | DoEnterLightweight | DoEnhance
  | DoRefreshClash | DoNotice string string | DoNotify hotkey_event | DoQuit | DoHide

text \<open>What the features answer: the proxy after its toggle, the TUN mode after its toggle, and whether the profiles were
  accepted (\<open>None\<close>), or what is shown otherwise.\<close>

record feature_answers =
  fa_proxy :: "bool option"
  fa_tun :: bool
  fa_enhanced :: "string option"

definition execute_function :: "feature_answers \<Rightarrow> hotkey_function \<Rightarrow> hotkey_effect list" where
  "execute_function a f = (case f of
       OpenOrCloseDashboard \<Rightarrow> [DoToggleDashboard, DoNotify DashboardToggled]
     | ClashModeRule \<Rightarrow> [DoChangeMode ''rule'', DoNotify (ClashModeChanged ''Rule'')]
     | ClashModeGlobal \<Rightarrow> [DoChangeMode ''global'', DoNotify (ClashModeChanged ''Global'')]
     | ClashModeDirect \<Rightarrow> [DoChangeMode ''direct'', DoNotify (ClashModeChanged ''Direct'')]
     | ToggleSystemProxy \<Rightarrow> DoToggleProxy # (case fa_proxy a of Some on \<Rightarrow> [DoNotify (SystemProxyToggled on)] | None \<Rightarrow> [])
     | ToggleTunMode \<Rightarrow> [DoToggleTun, DoNotify (TunModeToggled (fa_tun a))]
     | EntryLightweightMode \<Rightarrow> [DoEnterLightweight, DoNotify LightweightModeEntered]
     | ReactivateProfiles \<Rightarrow> DoEnhance # (case fa_enhanced a of
           None \<Rightarrow> [DoRefreshClash, DoNotify ProfilesReactivated]
         | Some message \<Rightarrow> [DoNotice ''reactivate_profiles::error'' message])
     | Quit \<Rightarrow> [DoNotify AppQuit, DoQuit]
     | Hide \<Rightarrow> [DoHide])"

datatype key_state = KeyPressed | KeyReleased

text \<open>The window when the key goes down: whether there is one, is visible and has the focus.\<close>

record window_state =
  win_exists :: bool
  win_visible :: bool
  win_focused :: bool

record key_event =
  ke_state :: key_state
  ke_is_q :: bool
  ke_window :: window_state
  ke_global :: "bool option"

definition handle_event :: "hotkey_function \<Rightarrow> key_event \<Rightarrow> bool \<Rightarrow> hotkey_function option \<times> bool" where
  "handle_event f event pressed =
     (case ke_state event of
        KeyReleased \<Rightarrow> (None, False)
      | KeyPressed \<Rightarrow>
          if pressed then (None, True)
          else if ke_is_q event \<and> f = Quit
          then (if win_exists (ke_window event) \<and> win_focused (ke_window event) then Some f else None, True)
          else if unwrap_or True (ke_global event) then (Some f, True)
          else (if win_focused (ke_window event) \<and> win_visible (ke_window event) then Some f else None, True))"

fun handle_events :: "hotkey_function \<Rightarrow> key_event list \<Rightarrow> bool \<Rightarrow> hotkey_function option list" where
  "handle_events f [] pressed = []"
| "handle_events f (event # events) pressed =
     (let (ran, pressed) = handle_event f event pressed in ran # handle_events f events pressed)"

subsection \<open>Registering\<close>

record 'k hotkey_env =
  hk_plat :: platform
  hk_parse :: "string \<Rightarrow> string + 'k"
  hk_refuses :: "nat \<Rightarrow> string option"
  hk_order :: "(string \<times> string) list \<Rightarrow> (string \<times> string) list"

record 'k hotkeys_world =
  hw_current :: "string list"
  hw_registered :: "'k \<rightharpoonup> hotkey_function"
  hw_calls :: nat

text \<open>A call of the plug-in on a key: it fails when the key does not parse or the system refuses.\<close>

definition plugin_call :: "'k hotkey_env \<Rightarrow> string \<Rightarrow> (('k \<rightharpoonup> hotkey_function) \<Rightarrow> 'k \<Rightarrow> 'k \<rightharpoonup> hotkey_function) \<Rightarrow> 'k hotkeys_world
    \<Rightarrow> unit outcome \<times> 'k hotkeys_world" where
  "plugin_call env key f w =
     (let n = hw_calls w; w = w\<lparr>hw_calls := Suc n\<rparr>
      in case hk_parse env key of
           Inl e \<Rightarrow> (Inl [Text e], w)
         | Inr k \<Rightarrow> (case hk_refuses env n of
               Some e \<Rightarrow> (Inl [Text e], w)
             | None \<Rightarrow> (Inr (), w\<lparr>hw_registered := f (hw_registered w) k\<rparr>)))"

definition is_registered :: "'k hotkey_env \<Rightarrow> string \<Rightarrow> 'k hotkeys_world \<Rightarrow> bool" where
  "is_registered env key w = (case hk_parse env key of Inl _ \<Rightarrow> False | Inr k \<Rightarrow> hw_registered w k \<noteq> None)"

definition unregister :: "'k hotkey_env \<Rightarrow> string \<Rightarrow> 'k hotkeys_world \<Rightarrow> unit outcome \<times> 'k hotkeys_world" where
  "unregister env key = plugin_call env key (\<lambda>m k. m(k := None))"

definition register_hotkey_with_function :: "'k hotkey_env \<Rightarrow> string \<Rightarrow> hotkey_function \<Rightarrow> 'k hotkeys_world
    \<Rightarrow> unit outcome \<times> 'k hotkeys_world" where
  "register_hotkey_with_function env key f w =
     try_then (if is_registered env key w then unregister env key w else (Inr (), w)) (\<lambda>_ w.
     plugin_call env key (\<lambda>m k. m(k \<mapsto> f)) w)"

definition register_hotkey :: "'k hotkey_env \<Rightarrow> string \<Rightarrow> string \<Rightarrow> 'k hotkeys_world \<Rightarrow> unit outcome \<times> 'k hotkeys_world" where
  "register_hotkey env key func w =
     (case function_from_str (hk_plat env) func of
        Inl e \<Rightarrow> (Inl e, w)
      | Inr f \<Rightarrow> register_hotkey_with_function env key f w)"

definition register_system_hotkey :: "'k hotkey_env \<Rightarrow> system_hotkey \<Rightarrow> 'k hotkeys_world \<Rightarrow> unit outcome \<times> 'k hotkeys_world" where
  "register_system_hotkey env h = register_hotkey_with_function env (show_system_hotkey h) (system_hotkey_function h)"

definition unregister_system_hotkey :: "'k hotkey_env \<Rightarrow> system_hotkey \<Rightarrow> 'k hotkeys_world \<Rightarrow> unit outcome \<times> 'k hotkeys_world" where
  "unregister_system_hotkey env h = unregister env (show_system_hotkey h)"

definition hotkeys_reset :: "'k hotkey_env \<Rightarrow> 'k hotkeys_world \<Rightarrow> unit outcome \<times> 'k hotkeys_world" where
  "hotkeys_reset env w =
     (let n = hw_calls w; w = w\<lparr>hw_calls := Suc n\<rparr>
      in case hk_refuses env n of Some e \<Rightarrow> (Inl [Text e], w) | None \<Rightarrow> (Inr (), w\<lparr>hw_registered := (\<lambda>_. None)\<rparr>))"

definition comma :: char where
  "comma = CHR '',''"

text \<open>The function and the key of one setting; more fields are ignored.\<close>

definition hotkey_fields :: "string \<Rightarrow> (string \<times> string) option" where
  "hotkey_fields hotkey = (case split_on comma hotkey of func # key # _ \<Rightarrow> Some (func, key) | _ \<Rightarrow> None)"

fun init_loop :: "'k hotkey_env \<Rightarrow> string list \<Rightarrow> 'k hotkeys_world \<Rightarrow> 'k hotkeys_world" where
  "init_loop env [] w = w"
| "init_loop env (hotkey # hotkeys) w =
     init_loop env hotkeys (case hotkey_fields hotkey of
         Some (func, key) \<Rightarrow> snd (register_hotkey env key func w)
       | None \<Rightarrow> w)"

definition hotkeys_init :: "'k hotkey_env \<Rightarrow> bool \<Rightarrow> string list option \<Rightarrow> 'k hotkeys_world \<Rightarrow> 'k hotkeys_world" where
  "hotkeys_init env skip settings w =
     (if skip then w
      else case settings of
          None \<Rightarrow> w
        | Some hotkeys \<Rightarrow> (init_loop env hotkeys w)\<lparr>hw_current := hotkeys\<rparr>)"

subsection \<open>Changing the hotkeys\<close>

fun put_key :: "string \<Rightarrow> string \<Rightarrow> (string \<times> string) list \<Rightarrow> (string \<times> string) list" where
  "put_key k v [] = [(k, v)]"
| "put_key k v (e # m) = (if fst e = k then (k, v) # m else e # put_key k v m)"

fun map_from_vec :: "string list \<Rightarrow> (string \<times> string) list \<Rightarrow> (string \<times> string) list" where
  "map_from_vec [] m = m"
| "map_from_vec (hotkey # hotkeys) m =
     map_from_vec hotkeys (case hotkey_fields hotkey of Some (func, key) \<Rightarrow> put_key (trim key) (trim func) m | None \<Rightarrow> m)"

definition get_map_from_vec :: "'k hotkey_env \<Rightarrow> string list \<Rightarrow> (string \<times> string) list" where
  "get_map_from_vec env hotkeys = hk_order env (map_from_vec hotkeys [])"

definition get_diff :: "(string \<times> string) list \<Rightarrow> (string \<times> string) list \<Rightarrow> string list \<times> (string \<times> string) list" where
  "get_diff old_map new_map =
     (List.map_filter (\<lambda>(key, func). case map_of new_map key of
          Some new_func \<Rightarrow> if new_func \<noteq> func then Some key else None
        | None \<Rightarrow> Some key) old_map,
      List.map_filter (\<lambda>(key, func). case map_of new_map key of
          Some new_func \<Rightarrow> if new_func \<noteq> func then Some (key, new_func) else None
        | None \<Rightarrow> None) old_map
      @ filter (\<lambda>(key, func). map_of old_map key = None) new_map)"

fun delete_loop :: "'k hotkey_env \<Rightarrow> string list \<Rightarrow> 'k hotkeys_world \<Rightarrow> 'k hotkeys_world" where
  "delete_loop env [] w = w"
| "delete_loop env (key # keys) w = delete_loop env keys (snd (unregister env key w))"

fun add_loop :: "'k hotkey_env \<Rightarrow> (string \<times> string) list \<Rightarrow> 'k hotkeys_world \<Rightarrow> unit outcome \<times> 'k hotkeys_world" where
  "add_loop env [] w = (Inr (), w)"
| "add_loop env ((key, func) # adds) w = try_then (register_hotkey env key func w) (\<lambda>_ w. add_loop env adds w)"

definition update_hotkeys :: "'k hotkey_env \<Rightarrow> string list \<Rightarrow> 'k hotkeys_world \<Rightarrow> unit outcome \<times> 'k hotkeys_world" where
  "update_hotkeys env new_hotkeys w =
     (let (del, add) = get_diff (get_map_from_vec env (hw_current w)) (get_map_from_vec env new_hotkeys)
      in try_then (add_loop env add (delete_loop env del w)) (\<lambda>_ w. (Inr (), w\<lparr>hw_current := new_hotkeys\<rparr>)))"

end
