(* ===== verification/SettingsPatch.thy ===== *)
theory SettingsPatch
  imports PortChange Hotkey
begin

section \<open>Changing the settings: \<open>feat/config.rs\<close>, \<open>feat/tun.rs\<close>, \<open>feat/dns.rs\<close> and the toggles\<close>

text \<open>
  A patch of the settings is staged in the draft of the settings, the parts of the program it concerns are told one
  after the other, and only then is it committed and saved.  The core, the configuration and the hotkeys are the
  models of their own theories; the tray, the logger and the launch entry answer through an argument and are logged.
  An operation starts when it holds the lock of configuration writes.
\<close>

subsection \<open>What a patch concerns\<close>

datatype update_flag =
    RESTART_CORE | CLASH_CONFIG | VERGE_CONFIG | LAUNCH | SYS_PROXY | SYSTRAY_ICON | HOTKEY | SYSTRAY_MENU
  | SYSTRAY_TOOLTIP | SYSTRAY_CLICK_BEHAVIOR | LIGHT_WEIGHT | LANGUAGE | LOG_LEVEL | LOG_FILE

definition GROUP_SYS_TRAY :: "update_flag set" where
  "GROUP_SYS_TRAY = {SYSTRAY_MENU, SYSTRAY_TOOLTIP, SYSTRAY_ICON}"

definition restart_core_needed :: "platform \<Rightarrow> iverge \<Rightarrow> bool" where
  "restart_core_needed p patch \<longleftrightarrow>
     verge_socks_enabled patch \<noteq> None \<or> verge_http_enabled patch \<noteq> None \<or> verge_socks_port patch \<noteq> None
     \<or> verge_port patch \<noteq> None \<or> verge_mixed_port patch \<noteq> None \<or> enable_external_controller patch \<noteq> None
     \<or> (p \<noteq> Windows \<and> (verge_redir_enabled patch \<noteq> None \<or> verge_redir_port patch \<noteq> None))
     \<or> (p = Linux \<and> (verge_tproxy_enabled patch \<noteq> None \<or> verge_tproxy_port patch \<noteq> None \<or> enable_tun_mode patch = Some True))"

definition flags_if :: "bool \<Rightarrow> update_flag set \<Rightarrow> update_flag set" where
  "flags_if c flags = (if c then flags else {})"

definition determine_update_flags :: "platform \<Rightarrow> iverge \<Rightarrow> update_flag set" where
  "determine_update_flags p patch =
     flags_if (restart_core_needed p patch) {RESTART_CORE}
     \<union> flags_if (enable_tun_mode patch \<noteq> None) ({CLASH_CONFIG} \<union> GROUP_SYS_TRAY)
     \<union> flags_if (enable_global_hotkey patch \<noteq> None \<or> home_cards patch \<noteq> None) {VERGE_CONFIG}
     \<union> flags_if (enable_auto_launch patch \<noteq> None) {LAUNCH}
     \<union> flags_if (enable_system_proxy patch \<noteq> None) ({SYS_PROXY} \<union> GROUP_SYS_TRAY)
     \<union> flags_if (system_proxy_bypass patch \<noteq> None \<or> pac_file_content patch \<noteq> None \<or> proxy_auto_config patch \<noteq> None
          \<or> enable_proxy_guard patch \<noteq> None \<or> proxy_guard_duration patch \<noteq> None) {SYS_PROXY}
     \<union> flags_if (language patch \<noteq> None) {LANGUAGE, SYSTRAY_MENU, SYSTRAY_TOOLTIP}
     \<union> flags_if (common_tray_icon patch \<noteq> None \<or> sysproxy_tray_icon patch \<noteq> None \<or> tun_tray_icon patch \<noteq> None
          \<or> (p = MacOS \<and> (tray_icon patch \<noteq> None \<or> enable_tray_speed patch \<noteq> None))) {SYSTRAY_ICON}
     \<union> flags_if (hotkeys patch \<noteq> None) {HOTKEY, SYSTRAY_MENU}
     \<union> flags_if (tray_event patch \<noteq> None) {SYSTRAY_CLICK_BEHAVIOR}
     \<union> flags_if (enable_auto_light_weight_mode patch \<noteq> None) {LIGHT_WEIGHT}
     \<union> flags_if (tray_proxy_groups_display_mode patch \<noteq> None) {SYSTRAY_MENU}
     \<union> flags_if (app_log_level patch \<noteq> None) {LOG_LEVEL}
     \<union> flags_if (app_log_max_size patch \<noteq> None \<or> app_log_max_count patch \<noteq> None) {LOG_FILE}
     \<union> flags_if (tray_inline_outbound_modes patch \<noteq> None) {SYSTRAY_MENU}"

subsection \<open>The world of a patch\<close>

datatype outside_effect =
    UpdateLaunch | SetLocale string | TrayMenu | TrayIcon iverge | TraySpeed bool | TrayTooltip | TrayClick | TrayMenuAndIcon
  | LightWeightOn | LightWeightOff | SetLogLevel level_filter | SetLogFiles u64 u64
  | RefreshClash | RefreshVerge | RefreshBackup | NoticeOf string string
  | PatchCoreMode string | CloseConnections

record 'k settings_env =
  sv_config :: config_env
  sv_hotkeys :: "'k hotkey_env"
  sv_outside :: "nat \<Rightarrow> outside_effect \<Rightarrow> unit outcome"
  sv_writes_disabled :: bool
  sv_dns_file :: "nat \<Rightarrow> string + mapping"

record 'k settings_world =
  st_config :: config_world
  st_hotkeys :: "'k hotkeys_world"
  st_disabling_tun :: bool
  st_clock :: nat
  st_effects :: "(outside_effect \<times> bool) list"

type_synonym 'k settings_step = "'k settings_world \<Rightarrow> unit outcome \<times> 'k settings_world"

definition outside :: "'k settings_env \<Rightarrow> outside_effect \<Rightarrow> 'k settings_step" where
  "outside env e w =
     (let r = sv_outside env (st_clock w) e
      in (r, w\<lparr>st_clock := Suc (st_clock w), st_effects := st_effects w @ [(e, is_ok r)]\<rparr>))"

text \<open>An effect whose result the code does not look at, or that cannot fail.\<close>

definition tell :: "'k settings_env \<Rightarrow> outside_effect \<Rightarrow> 'k settings_world \<Rightarrow> 'k settings_world" where
  "tell env e w = snd (outside env e w)"

definition tell_ok :: "'k settings_env \<Rightarrow> outside_effect \<Rightarrow> 'k settings_step" where
  "tell_ok env e w = (Inr (), tell env e w)"

definition in_config :: "(config_world \<Rightarrow> 'r \<times> config_world) \<Rightarrow> 'k settings_world \<Rightarrow> 'r \<times> 'k settings_world" where
  "in_config f w = (let (r, c) = f (st_config w) in (r, w\<lparr>st_config := c\<rparr>))"

definition in_hotkeys :: "('k hotkeys_world \<Rightarrow> 'r \<times> 'k hotkeys_world) \<Rightarrow> 'k settings_world \<Rightarrow> 'r \<times> 'k settings_world" where
  "in_hotkeys f w = (let (r, h) = f (st_hotkeys w) in (r, w\<lparr>st_hotkeys := h\<rparr>))"

fun run_steps :: "'k settings_step list \<Rightarrow> 'k settings_step" where
  "run_steps [] w = (Inr (), w)"
| "run_steps (s # ss) w = try_then (s w) (\<lambda>_ w. run_steps ss w)"

definition when_flagged :: "update_flag set \<Rightarrow> update_flag \<Rightarrow> 'k settings_step \<Rightarrow> 'k settings_step" where
  "when_flagged flags f s w = (if f \<in> flags then s w else (Inr (), w))"

subsection \<open>Telling the program\<close>

text \<open>Generating the runtime configuration and restarting the core, which then reads the run file.\<close>

definition generate_and_restart :: "config_env \<Rightarrow> config_world \<Rightarrow> unit outcome \<times> config_world" where
  "generate_and_restart env w =
     try_then (generate env w) (\<lambda>_ w. on_core (restart_core (ce_core env)) (note_load w))"

definition apply_sys_proxy :: "config_env \<Rightarrow> config_world \<Rightarrow> unit outcome \<times> config_world" where
  "apply_sys_proxy env w =
     (let w = ctick env (w\<lparr>cw_core := ce_lock env (cw_tick w) (cw_core w)\<rparr>)
      in if unwrap_or False (enable_system_proxy (view_latest (cw_verge w)))
         then on_core (apply_proxy_after_start (ce_core env)) w
         else on_core (\<lambda>c. try_then (call_ext (ce_core env) ProxyApply c) (\<lambda>_ c. call_ext (ce_core env) GuardRefresh c)) w)"

definition tray_icon_step :: "'k settings_env \<Rightarrow> iverge \<Rightarrow> 'k settings_step" where
  "tray_icon_step env patch w =
     try_then (outside env (TrayIcon (view_latest (cw_verge (st_config w)))) w) (\<lambda>_ w.
       if plat (ce_core (sv_config env)) = MacOS \<and> enable_tray_speed patch \<noteq> None
       then tell_ok env (TraySpeed (unwrap_or False (enable_tray_speed patch))) w else (Inr (), w))"

definition process_terminated_flags :: "'k settings_env \<Rightarrow> update_flag set \<Rightarrow> iverge \<Rightarrow> 'k settings_step" where
  "process_terminated_flags env flags patch = run_steps
     [when_flagged flags RESTART_CORE (in_config (generate_and_restart (sv_config env))),
      when_flagged flags CLASH_CONFIG (\<lambda>w. try_then (in_config (update_config_checked (sv_config env)) w) (\<lambda>_. tell_ok env RefreshClash)),
      when_flagged flags LAUNCH (outside env UpdateLaunch),
      when_flagged flags LANGUAGE (case language patch of Some l \<Rightarrow> tell_ok env (SetLocale l) | None \<Rightarrow> Pair (Inr ())),
      when_flagged flags SYS_PROXY (in_config (apply_sys_proxy (sv_config env))),
      when_flagged flags HOTKEY (case hotkeys patch of Some hs \<Rightarrow> in_hotkeys (update_hotkeys (sv_hotkeys env) hs) | None \<Rightarrow> Pair (Inr ())),
      when_flagged flags SYSTRAY_MENU (outside env TrayMenu),
      when_flagged flags SYSTRAY_ICON (tray_icon_step env patch),
      when_flagged flags SYSTRAY_TOOLTIP (outside env TrayTooltip),
      when_flagged flags SYSTRAY_CLICK_BEHAVIOR (outside env TrayClick),
      when_flagged flags LIGHT_WEIGHT (tell_ok env (if unwrap_or False (enable_auto_light_weight_mode patch) then LightWeightOn else LightWeightOff)),
      when_flagged flags LOG_LEVEL (outside env (SetLogLevel (get_log_level patch))),
      when_flagged flags LOG_FILE (outside env (SetLogFiles (unwrap_or 128 (app_log_max_size patch)) (unwrap_or 8 (app_log_max_count patch))))]"

subsection \<open>Patching the settings\<close>

definition edit_verge :: "(iverge \<Rightarrow> iverge) \<Rightarrow> config_world \<Rightarrow> config_world" where
  "edit_verge f w = w\<lparr>cw_verge := snd (view_edit (\<lambda>d. ((), f d)) (cw_verge w))\<rparr>"

definition save_verge :: "config_env \<Rightarrow> config_world \<Rightarrow> unit outcome \<times> config_world" where
  "save_verge env w = save_source env VergeFile (verge_bytes env (fst (cw_verge w))) w"

definition drop_transaction :: "config_world draft_transaction \<Rightarrow> 'k settings_world \<Rightarrow> 'k settings_world" where
  "drop_transaction t w = w\<lparr>st_config := transaction_drop t (st_config w)\<rparr>"

definition apply_verge_patch_locked :: "'k settings_env \<Rightarrow> iverge \<Rightarrow> bool \<Rightarrow> 'k settings_step" where
  "apply_verge_patch_locked env patch not_save_file w =
     (let p = plat (ce_core (sv_config env))
      in try_then (in_config (begin_transaction [VergeLayer]) w) (\<lambda>transaction w.
         let w = w\<lparr>st_config := edit_verge (Verge.patch_config p patch) (st_config w)\<rparr>
         in case process_terminated_flags env (determine_update_flags p patch) patch w of
              (Inl e, w) \<Rightarrow> (Inl e, drop_transaction transaction w)
            | (Inr _, w) \<Rightarrow>
                (let w = w\<lparr>st_config := transaction_commit transaction (st_config w)\<rparr>;
                     w = tell env RefreshBackup (tell env RefreshVerge w)
                 in if not_save_file then (Inr (), w) else in_config (save_verge (sv_config env)) w)))"

definition apply_verge_patch :: "'k settings_env \<Rightarrow> iverge \<Rightarrow> bool \<Rightarrow> 'k settings_step" where
  "apply_verge_patch env patch not_save_file w = apply_verge_patch_locked env patch not_save_file w"

definition reconcile_tun_availability :: "'k settings_env \<Rightarrow> 'k settings_world \<Rightarrow> 'k settings_world" where
  "reconcile_tun_availability env w =
     (let core = cw_core (st_config w)
      in if st_disabling_tun w then w
         else if running core = NotRunning then w
         else if \<not> tun_should_be_disabled (snapshot (cstore core)) (unwrap_or False (enable_tun_mode (fst (cw_verge (st_config w))))) then w
         else (let (r, w) = apply_verge_patch_locked env (iverge_default\<lparr>enable_tun_mode := Some False\<rparr>) False (w\<lparr>st_disabling_tun := True\<rparr>)
               in (tell env (NoticeOf (if is_ok r then ''tun_mode::auto_disabled'' else ''tun_mode::auto_disable_failed'') []) w)
                    \<lparr>st_disabling_tun := False\<rparr>))"

definition patch_verge :: "'k settings_env \<Rightarrow> iverge \<Rightarrow> bool \<Rightarrow> 'k settings_step" where
  "patch_verge env patch not_save_file w =
     (if enable_system_proxy patch \<noteq> None \<and> sv_writes_disabled env
      then (Inl (bail ''System proxy control is read-only for this explicitly isolated instance; existing Windows proxy settings are preserved.''), w)
      else try_then (apply_verge_patch env patch not_save_file w) (\<lambda>_ w.
        (Inr (), if enable_tun_mode patch \<noteq> None then reconcile_tun_availability env w else w)))"

subsection \<open>Toggles\<close>

text \<open>\<open>Some on\<close> is the new state; the failure is filed and reported elsewhere.\<close>

definition toggle_system_proxy :: "'k settings_env \<Rightarrow> 'k settings_world \<Rightarrow> bool option \<times> 'k settings_world" where
  "toggle_system_proxy env w =
     (let v = view_latest (cw_verge (st_config w));
          on = unwrap_or False (enable_system_proxy v); auto_close = unwrap_or False (auto_close_connection v);
          w = (if on \<and> auto_close then tell env CloseConnections w else w);
          (r, w) = patch_verge env (iverge_default\<lparr>enable_system_proxy := Some (\<not> on)\<rparr>) False w
      in (if is_ok r then Some (\<not> on) else None, w))"

definition toggle_operation :: "bool \<Rightarrow> failed_operation" where
  "toggle_operation requested = (if requested then SystemProxyEnable else SystemProxyDisable)"

definition toggle_tun_mode :: "'k settings_env \<Rightarrow> bool option \<Rightarrow> 'k settings_world \<Rightarrow> bool \<times> 'k settings_world" where
  "toggle_tun_mode env not_save_file w =
     (let on = unwrap_or False (enable_tun_mode (view_latest (cw_verge (st_config w))));
          (r, w) = patch_verge env (iverge_default\<lparr>enable_tun_mode := Some (\<not> on)\<rparr>) (unwrap_or False not_save_file) w
      in if is_ok r then (let w = tell env RefreshVerge w in (unwrap_or False (enable_tun_mode (view_latest (cw_verge (st_config w)))), w))
         else (on, w))"

subsection \<open>Patching the configuration of the core\<close>

definition edit_clash :: "mapping \<Rightarrow> config_world \<Rightarrow> config_world" where
  "edit_clash patch w = w\<lparr>cw_clash := snd (view_edit (\<lambda>d. ((), iclash_patch_config d patch)) (cw_clash w))\<rparr>"

definition apply_clash :: "config_world \<Rightarrow> config_world" where
  "apply_clash w = w\<lparr>cw_clash := view_apply (cw_clash w)\<rparr>"

definition save_clash :: "config_env \<Rightarrow> config_world \<Rightarrow> unit outcome \<times> config_world" where
  "save_clash env w = save_source env ClashFile (clash_bytes env (fst (cw_clash w))) w"

text \<open>
  The \<open>?\<close> of a step leaves the whole function, because the block around it is no function of its own: the branch
  of \<open>res\<close> that discards the draft is never taken.
\<close>

definition patch_clash :: "'k settings_env \<Rightarrow> mapping \<Rightarrow> 'k settings_step" where
  "patch_clash env patch w =
     (let w = w\<lparr>st_config := edit_clash patch (st_config w)\<rparr>
      in try_then
           (if get patch ''secret'' \<noteq> None \<or> get patch ''external-controller'' \<noteq> None
            then in_config (generate_and_restart (sv_config env)) w
            else if get patch ''allow-lan'' \<noteq> None then in_config (update_config_checked (sv_config env)) w
            else (let w = (if get patch ''mode'' \<noteq> None then tell env TrayMenuAndIcon w else w)
                  in in_config (update_config_checked (sv_config env)) w)) (\<lambda>_ w.
         let w = tell env RefreshClash w; w = w\<lparr>st_config := apply_clash (st_config w)\<rparr>
         in in_config (save_clash (sv_config env)) w))"

definition change_clash_mode :: "'k settings_env \<Rightarrow> string \<Rightarrow> 'k settings_step" where
  "change_clash_mode env new_mode w =
     try_then (outside env (PatchCoreMode new_mode) w) (\<lambda>_ w.
       let w = w\<lparr>st_config := apply_clash (edit_clash [(Str ''mode'', Str new_mode)] (st_config w))\<rparr>;
           (r, w) = in_config (save_clash (sv_config env)) w;
           w = (if is_ok r then tell env TrayMenuAndIcon (tell env RefreshClash w) else w)
       in (Inr (), if unwrap_or False (auto_close_connection (fst (cw_verge (st_config w)))) then tell env CloseConnections w else w))"

definition restart_clash_core :: "'k settings_env \<Rightarrow> 'k settings_world \<Rightarrow> 'k settings_world" where
  "restart_clash_core env w =
     (let (r, w) = in_config (\<lambda>c. on_core (restart_core (ce_core (sv_config env))) (note_load c)) w
      in case r of Inr _ \<Rightarrow> tell env (NoticeOf ''set_config::ok'' ''ok'') (tell env RefreshClash w)
       | Inl e \<Rightarrow> tell env (NoticeOf ''set_config::error'' (show_chain e)) w)"

subsection \<open>The DNS override\<close>

datatype dns_override_outcome = DnsApplied | ConfirmationRequired string

definition set_profile_dns :: "string \<Rightarrow> profile_dns_settings \<Rightarrow> iverge \<Rightarrow> iverge" where
  "set_profile_dns uid s v = v\<lparr>profile_dns_settings := (profile_dns_settings v)(uid \<mapsto> s)\<rparr>"

definition lift_error :: "string + 'a \<Rightarrow> 'a outcome" where
  "lift_error r = map_sum bail id r"

definition finish_dns_override :: "'k settings_env \<Rightarrow> string \<Rightarrow> bool \<Rightarrow> config_world draft_transaction \<Rightarrow> 'k settings_world
    \<Rightarrow> dns_override_outcome outcome \<times> 'k settings_world" where
  "finish_dns_override env uid on transaction w =
     (let state = rt_dns_override (fst (cw_runtime (st_config w)));
          refused = (case state of Some st \<Rightarrow> if on \<and> \<not> ovr_enabled st then Some st else None | None \<Rightarrow> None);
          w = (if refused = None then w
               else w\<lparr>st_config := edit_verge (set_profile_dns uid \<lparr>dns_enabled = False, dns_confirmation = None\<rparr>) (st_config w)\<rparr>);
          answer = (case refused of Some st \<Rightarrow> (case ovr_source st of Some source \<Rightarrow> ConfirmationRequired source | None \<Rightarrow> DnsApplied)
            | None \<Rightarrow> DnsApplied);
          w = w\<lparr>st_config := transaction_commit transaction (st_config w)\<rparr>;
          w = tell env RefreshClash (tell env RefreshVerge w)
      in try_then (in_config (save_verge (sv_config env)) w) (\<lambda>_ w. (Inr answer, w)))"

definition set_dns_override :: "'k settings_env \<Rightarrow> string \<Rightarrow> bool \<Rightarrow> string option \<Rightarrow> 'k settings_world
    \<Rightarrow> dns_override_outcome outcome \<times> 'k settings_world" where
  "set_dns_override env uid on confirmation w =
     (let profiles = fst (cw_profiles (st_config w)); ge = ce_generate (sv_config env) (cw_tick (st_config w));
          files = files_of (ge_enhance ge)
      in if current profiles \<noteq> Some uid then (Inl (bail ''The active profile changed; retry the DNS setting''), w)
         else case and_then (lift_error (current_mapping (profiles_dir files) (read_map files) profiles))
                (\<lambda>m. lift_error (dns_override_source (ge_digest ge) (unwrap_or [] (current profiles)) m)) of
             Inl e \<Rightarrow> (Inl e, w)
           | Inr source \<Rightarrow>
               (case (if on \<and> source \<noteq> confirmation then source else None) of
                  Some s \<Rightarrow> (Inr (ConfirmationRequired s), w)
                | None \<Rightarrow>
                    (case (if on then sv_dns_file env (st_clock w) else Inr []) of
                       Inl e \<Rightarrow> (Inl (bail e), w)
                     | Inr _ \<Rightarrow>
                         try_then (in_config (begin_transaction [VergeLayer]) w) (\<lambda>transaction w.
                         let w = w\<lparr>st_config := edit_verge (set_profile_dns uid
                               \<lparr>dns_enabled = on, dns_confirmation = (if on then source else None)\<rparr>) (st_config w)\<rparr>
                         in case in_config (update_config_checked (sv_config env)) w of
                              (Inl e, w) \<Rightarrow> (Inl e, drop_transaction transaction w)
                            | (Inr _, w) \<Rightarrow> finish_dns_override env uid on transaction w))))"

end
