(* ===== verification/ProfileSwitch.thy ===== *)
theory ProfileSwitch
  imports ProfileFetch SettingsPatch
begin

section \<open>Switching, updating and deleting profiles: \<open>cmd/profile.rs\<close> and \<open>feat/profile.rs\<close>\<close>

text \<open>
  The commands of the interface that change profiles, over the configuration updates.  A switch stages the new
  profile in the draft of the profiles, updates the core from it and commits it, or goes back; only one
  switch runs at a time.  Deleting a profile and switching hold the lock of profile writes, which the edits by
  \<open>with_data_modify\<close> of other tasks do not take: these commit at the awaits of \<open>others_commit\<close>.
\<close>

subsection \<open>Failures of commands: \<open>cmd/mod.rs\<close>\<close>

record command_failure =
  cf_code :: "string option"
  cf_detail :: string
  cf_operation :: "failed_operation option"

definition coded :: "string \<Rightarrow> string \<Rightarrow> command_failure" where
  "coded code detail = \<lparr>cf_code = Some code, cf_detail = detail, cf_operation = None\<rparr>"

definition plain :: "string \<Rightarrow> command_failure" where
  "plain detail = \<lparr>cf_code = None, cf_detail = detail, cf_operation = None\<rparr>"

definition asking_for :: "failed_operation option \<Rightarrow> command_failure \<Rightarrow> command_failure" where
  "asking_for operation f = f\<lparr>cf_operation := operation\<rparr>"

definition show_error :: "error \<Rightarrow> string" where
  "show_error e = show_cause (hd e)"

definition stringify_err :: "'a outcome \<Rightarrow> command_failure + 'a" where
  "stringify_err r = map_sum (\<lambda>e. plain (show_error e)) id r"

definition with_error_code :: "string \<Rightarrow> 'a outcome \<Rightarrow> command_failure + 'a" where
  "with_error_code code r = map_sum (\<lambda>e. coded code (show_chain e)) id r"

text \<open>\<open>coded_error\<close> prints an error without its causes.\<close>

definition coded_error :: "string \<Rightarrow> error \<Rightarrow> command_failure" where
  "coded_error code e = coded code (show_error e)"

definition proxy_aware_coded_error :: "error \<Rightarrow> string \<Rightarrow> command_failure" where
  "proxy_aware_coded_error e fallback =
     coded (case from_chain e of Some f \<Rightarrow> failure_code f | None \<Rightarrow> fallback) (show_chain e)"

definition proxy_aware_error :: "error \<Rightarrow> command_failure" where
  "proxy_aware_error e = (case from_chain e of Some f \<Rightarrow> coded (failure_code f) (show_chain e) | None \<Rightarrow> plain (show_chain e))"

definition profile_import_error :: "error \<Rightarrow> string" where
  "profile_import_error e =
     (case find (contains_str ''TLS 1.0/1.1'') (map show_cause e) of
        Some cause \<Rightarrow> cause
      | None \<Rightarrow> bytes [0xE5, 0xAF, 0xBC, 0xE5, 0x85, 0xA5, 0xE8, 0xAE, 0xA2, 0xE9, 0x98, 0x85, 0xE5, 0xA4, 0xB1, 0xE8, 0xB4, 0xA5]
          @ '': '' @ show_chain e)"

subsection \<open>The configuration under the profiles\<close>

definition on_config :: "(config_world \<Rightarrow> 'r \<times> config_world) \<Rightarrow> profiles_world \<Rightarrow> 'r \<times> profiles_world" where
  "on_config f w = (let (r, c) = f (pw_config w) in (r, w\<lparr>pw_config := c\<rparr>))"

definition sync_dns_now :: "'u profiles_env \<Rightarrow> profiles_world \<Rightarrow> unit profiles_result" where
  "sync_dns_now env w =
     (case rt_dns_override (fst (cw_runtime (pw_config w))) of
        None \<Rightarrow> (Inr (), w)
      | Some st \<Rightarrow>
          try_then (on_config (begin_transaction [VergeLayer]) w) (\<lambda>transaction w.
          let (changed, v) = view_edit (apply_to st) (cw_verge (pw_config w));
              w = w\<lparr>pw_config := (pw_config w)\<lparr>cw_verge := v\<rparr>\<rparr>
          in if \<not> changed then (Inr (), w\<lparr>pw_config := transaction_drop transaction (pw_config w)\<rparr>)
             else let w = note_profiles RefreshedVerge (w\<lparr>pw_config := transaction_commit transaction (pw_config w)\<rparr>);
                      w = (if ovr_requested st \<and> \<not> ovr_enabled st
                           then note_profiles (NoticeMessage ''dns_override::auto_disabled'' []) w else w)
                  in on_config (save_verge (pv_config env)) w))"

text \<open>A call whose failure is only logged.\<close>

definition logged :: "'r \<times> profiles_world \<Rightarrow> profiles_world" where
  "logged x = snd x"

definition edit_profiles :: "iprofiles \<Rightarrow> profiles_world \<Rightarrow> profiles_world" where
  "edit_profiles patch w = set_cell (snd (view_edit (\<lambda>d. ((), profiles_patch_config patch d)) (profiles_cell w))) w"

definition discard_profiles :: "profiles_world \<Rightarrow> profiles_world" where
  "discard_profiles w = set_cell (view_discard (profiles_cell w)) w"

definition with_current :: "string \<Rightarrow> iprofiles" where
  "with_current uid = iprofiles_default\<lparr>current := Some uid\<rparr>"

subsection \<open>Switching the profile\<close>

text \<open>The draft is made and applied in two steps; another task may commit between them.\<close>

definition restore_previous_profile :: "'u profiles_env \<Rightarrow> string \<Rightarrow> profiles_world \<Rightarrow> profiles_world" where
  "restore_previous_profile env prev w =
     (let w = others_commit env (edit_profiles (with_current prev) w)
      in note_profiles SpawnSave (set_cell (view_apply (profiles_cell w)) w))"

definition commit_current_profile :: "'u profiles_env \<Rightarrow> string option \<Rightarrow> profiles_world \<Rightarrow> unit profiles_result" where
  "commit_current_profile env new_current w =
     (let w = discard_profiles w
      in case new_current of
           None \<Rightarrow> (Inr (), w)
         | Some c \<Rightarrow> with_profiles_modify env (\<lambda>p w. (Inr (profiles_patch_config (with_current c) p, ()), w)) w)"

definition handle_success :: "'u profiles_env \<Rightarrow> string option \<Rightarrow> profiles_world
    \<Rightarrow> (command_failure + validation_outcome) \<times> profiles_world" where
  "handle_success env current_value w =
     (case commit_current_profile env current_value w of
        (Inl e, w) \<Rightarrow> (stringify_err (Inl e), w)
      | (Inr _, w) \<Rightarrow>
          (let w = note_profiles ActivateNodes w;
               w = logged (profiles_save_file_safe env w);
               w = (case current_value of Some c \<Rightarrow> if pv_window env (pw_tick w) then note_profiles (NotifyProfile c) w else w
                    | None \<Rightarrow> w)
           in (Inr Valid, logged (sync_dns_now env w))))"

definition discard_and_restore :: "'u profiles_env \<Rightarrow> string option \<Rightarrow> profiles_world \<Rightarrow> profiles_world" where
  "discard_and_restore env current_profile w =
     (let w = discard_profiles w
      in case current_profile of Some prev \<Rightarrow> restore_previous_profile env prev w | None \<Rightarrow> w)"

definition handle_validation_failure :: "'u profiles_env \<Rightarrow> validation_outcome \<Rightarrow> string option \<Rightarrow> profiles_world
    \<Rightarrow> (command_failure + validation_outcome) \<times> profiles_world" where
  "handle_validation_failure env outcome current_profile w =
     (Inr outcome, note_profiles (ValidationNotice outcome) (discard_and_restore env current_profile w))"

definition handle_update_error :: "'u profiles_env \<Rightarrow> error \<Rightarrow> string option \<Rightarrow> profiles_world
    \<Rightarrow> (command_failure + validation_outcome) \<times> profiles_world" where
  "handle_update_error env e current_profile w =
     (Inr (invalid_from_message (show_error e)),
      note_profiles (NoticeMessage ''config_validate::boot_error'' (show_error e)) (discard_and_restore env current_profile w))"

text \<open>The flag of a running switch is cleared on every way out.\<close>

definition perform_switch :: "'u profiles_env \<Rightarrow> string option \<Rightarrow> string option \<Rightarrow> profiles_world
    \<Rightarrow> (command_failure + validation_outcome) \<times> profiles_world" where
  "perform_switch env current_value current_profile w =
     (let (update_result, w) = on_config (update_config_forced (pv_config env)) w;
          w = others_commit env w;
          (r, w) = (case update_result of
              Inr outcome \<Rightarrow> if is_valid_outcome outcome then handle_success env current_value w
                else handle_validation_failure env outcome current_profile w
            | Inl e \<Rightarrow> handle_update_error env e current_profile w)
      in (r, w\<lparr>pw_switching := False\<rparr>))"

definition patch_profiles_config :: "'u profiles_env \<Rightarrow> iprofiles \<Rightarrow> profiles_world
    \<Rightarrow> (command_failure + validation_outcome) \<times> profiles_world" where
  "patch_profiles_config env profiles w =
     (if pw_app_running w
      then (Inl (coded ''APP_PROXY_RUNNING'' ''stop application proxy before switching profiles or subscriptions''), w)
      else if pw_switching w then (Inr Busy, w)
      else let w = others_commit env (w\<lparr>pw_switching := True\<rparr>);
               previous_profile = current (fst (profiles_cell w));
               (r, w) = perform_switch env (current profiles) previous_profile (edit_profiles profiles w)
           in (map_sum (\<lambda>e. coded ''PROFILE_SWITCH_FAILED'' (cf_detail e)) id r, w))"

definition patch_profiles_config_by_profile_index :: "'u profiles_env \<Rightarrow> string \<Rightarrow> profiles_world
    \<Rightarrow> (command_failure + validation_outcome) \<times> profiles_world" where
  "patch_profiles_config_by_profile_index env index w = patch_profiles_config env (with_current index) w"

definition toggle_proxy_profile :: "'u profiles_env \<Rightarrow> string \<Rightarrow> profiles_world \<Rightarrow> profiles_world" where
  "toggle_proxy_profile env index w = logged (patch_profiles_config_by_profile_index env index w)"

subsection \<open>Deleting, making and editing profiles\<close>

definition remove_files :: "'u profiles_env \<Rightarrow> string list \<Rightarrow> profiles_world \<Rightarrow> profiles_world" where
  "remove_files env names w =
     (let gone = set (filter (pv_remove env (pw_tick w)) (cleanup_plan (pv_dir env (pw_tick w)) names))
      in pass (w\<lparr>pw_files := (\<lambda>f. if f \<in> gone then None else pw_files w f)\<rparr>))"

text \<open>
  The edit of a deletion.  Its answer is the verdict of a rejected configuration, or whether the current profile was
  deleted and which one is current now; a deleted current profile leaves the update of the core held.
\<close>

type_synonym delete_answer = "validation_outcome + bool \<times> string option"

definition delete_edit :: "'u profiles_env \<Rightarrow> string \<Rightarrow> iprofiles \<Rightarrow> profiles_world \<Rightarrow> (iprofiles \<times> delete_answer) profiles_result" where
  "delete_edit env index original w =
     (case plan_delete_item index original of
        (Inl e, _) \<Rightarrow> (Inl (bail e), w)
      | (Inr (should_update, names), candidate) \<Rightarrow>
          (let c = pv_config env;
               (r, w) = (if should_update then on_config (update_config_forced_with_profiles c candidate original) w
                         else (case on_config (save_profiles_file c candidate) w of (r, w) \<Rightarrow> (map_sum id (\<lambda>_. Inr False) r, w)))
           in case r of
                Inl e \<Rightarrow> (Inl e, w)
              | Inr (Inl outcome) \<Rightarrow> (Inr (original, Inl outcome), w)
              | Inr (Inr _) \<Rightarrow> (Inr (candidate, Inr (should_update, current candidate)), remove_files env names w)))"

text \<open>Dropping the guard of an update that went through.\<close>

definition drop_guard :: "delete_answer \<Rightarrow> profiles_world \<Rightarrow> profiles_world" where
  "drop_guard a w = (case a of Inr (True, _) \<Rightarrow> w\<lparr>pw_config := end_update (pw_config w)\<rparr> | _ \<Rightarrow> w)"

definition delete_profile :: "'u profiles_env \<Rightarrow> string \<Rightarrow> profiles_world \<Rightarrow> (command_failure + unit) \<times> profiles_world" where
  "delete_profile env index w =
     (case with_profiles_modify_dropping env drop_guard (delete_edit env index) w of
        (Inl e, w) \<Rightarrow> (with_error_code ''PROFILE_DELETE_FAILED'' (Inl e), w)
      | (Inr (Inl outcome), w) \<Rightarrow>
          (Inl (coded ''PROFILE_DELETE_FAILED'' (show_outcome outcome)), note_profiles (ValidationNotice outcome) w)
      | (Inr (Inr (should_update, new_current)), w) \<Rightarrow>
          (let w = (if should_update then note_profiles ActivateNodes w else w);
               w = drop_guard (Inr (should_update, new_current)) w;
               w = (if should_update then logged (sync_dns_now env w) else w);
               w = note_profiles MenuUpdated (note_profiles TooltipUpdated w);
               w = (if should_update then
                      (let w = note_profiles RefreshedClash w
                       in case new_current of Some c \<Rightarrow> note_profiles (NotifyProfile c) w | None \<Rightarrow> w)
                    else w)
           in (Inr (), note_profiles RefreshTimer w)))"

definition notify_uid :: "string option \<Rightarrow> profiles_world \<Rightarrow> profiles_world" where
  "notify_uid uid w = (case uid of Some u \<Rightarrow> note_profiles (NotifyProfile u) w | None \<Rightarrow> w)"

definition import_profile :: "'u profiles_env \<Rightarrow> string \<Rightarrow> item_option option \<Rightarrow> profiles_world
    \<Rightarrow> (command_failure + unit) \<times> profiles_world" where
  "import_profile env url option w =
     (case from_url env url None None option w of
        (Inl e, w) \<Rightarrow> (Inl (coded ''PROFILE_IMPORT_FAILED'' (profile_import_error e)), w)
      | (Inr item, w) \<Rightarrow>
          (case try_then (profiles_append_item_safe env item w) (\<lambda>_ w. profiles_save_file_safe env w) of
             (Inl e, w) \<Rightarrow> (Inl (coded_error ''PROFILE_IMPORT_FAILED'' e), w)
           | (Inr _, w) \<Rightarrow> (Inr (), notify_uid (prf_uid item) (note_profiles RefreshTimer w))))"

definition reorder_profile :: "'u profiles_env \<Rightarrow> string \<Rightarrow> string \<Rightarrow> profiles_world \<Rightarrow> (command_failure + unit) \<times> profiles_world" where
  "reorder_profile env active_id over_id w =
     (let (r, w) = profiles_reorder_safe env active_id over_id w in (map_sum (coded_error ''PROFILE_REORDER_FAILED'') id r, w))"

definition create_profile :: "'u profiles_env \<Rightarrow> prf_item \<Rightarrow> string option \<Rightarrow> profiles_world \<Rightarrow> (command_failure + unit) \<times> profiles_world" where
  "create_profile env item file_data w =
     (case profiles_append_item_with_filedata_safe env item file_data w of
        (Inl e, w) \<Rightarrow> (Inl (coded_error ''PROFILE_CREATE_FAILED'' e), w)
      | (Inr _, w) \<Rightarrow>
          (case profiles_save_file_safe env w of
             (Inl e, w) \<Rightarrow> (with_error_code ''PROFILE_CREATE_FAILED'' (Inl e), w)
           | (Inr _, w) \<Rightarrow> (Inr (), notify_uid (prf_uid item) (note_profiles RefreshTimer w))))"

definition should_refresh_timer :: "iprofiles \<Rightarrow> string \<Rightarrow> prf_item \<Rightarrow> bool" where
  "should_refresh_timer p index profile =
     (case (get_item p index, prf_option profile) of
        (Inr old, Some new) \<Rightarrow> Option.bind (prf_option old) update_interval \<noteq> update_interval new
          \<or> Option.bind (prf_option old) allow_auto_update \<noteq> allow_auto_update new
      | _ \<Rightarrow> False)"

text \<open>The refresh of the timer runs in a task of its own, which tells the interface when it is through.\<close>

definition patch_profile :: "'u profiles_env \<Rightarrow> string \<Rightarrow> prf_item \<Rightarrow> profiles_world \<Rightarrow> (command_failure + unit) \<times> profiles_world" where
  "patch_profile env index profile w =
     (let refresh = should_refresh_timer (view_latest (profiles_cell w)) index profile
      in case profiles_patch_item_safe env index profile w of
           (Inl e, w) \<Rightarrow> (with_error_code ''PROFILE_UPDATE_FAILED'' (Inl e), w)
         | (Inr _, w) \<Rightarrow>
             (let w = (if prf_selected profile \<noteq> None then note_profiles SupersedeNodes w else w)
              in (Inr (), if refresh then note_profiles (NotifyTimer index) (note_profiles RefreshTimer w) else w)))"

subsection \<open>Updating a profile from its server\<close>

definition should_update_profile :: "iprofiles \<Rightarrow> string \<Rightarrow> bool \<Rightarrow> (string \<times> item_option option) option outcome" where
  "should_update_profile profiles uid ignore_auto_update =
     (case get_item profiles uid of
        Inl e \<Rightarrow> Inl (bail e)
      | Inr item \<Rightarrow>
          if prf_itype item \<noteq> Some ''remote'' then Inr None
          else (case prf_url item of
                  None \<Rightarrow> Inl (bail ''failed to get the profile item url'')
                | Some url \<Rightarrow>
                    if \<not> ignore_auto_update \<and> \<not> unwrap_or True (Option.bind (prf_option item) allow_auto_update) then Inr None
                    else Inr (Some (url, prf_option item))))"

definition through :: "bool \<Rightarrow> bool \<Rightarrow> item_option option \<Rightarrow> item_option option" where
  "through own sys option = Some ((unwrap_or item_option_default option)\<lparr>self_proxy := Some own, with_proxy := Some sys\<rparr>)"

text \<open>One attempt: what was fetched is saved, and a failed save ends the update.\<close>

definition attempt_update :: "'u profiles_env \<Rightarrow> string \<Rightarrow> string \<Rightarrow> item_option option \<Rightarrow> profiles_world
    \<Rightarrow> (error + unit outcome) \<times> profiles_world" where
  "attempt_update env uid url option w =
     (case from_url env url None None option w of
        (Inl e, w) \<Rightarrow> (Inl e, w)
      | (Inr item, w) \<Rightarrow> (let (r, w) = profiles_update_item_safe env uid item w in (Inr r, w)))"

definition perform_profile_update :: "'u profiles_env \<Rightarrow> string \<Rightarrow> string \<Rightarrow> item_option option \<Rightarrow> item_option option \<Rightarrow> bool
    \<Rightarrow> profiles_world \<Rightarrow> unit profiles_result" where
  "perform_profile_update env uid url opt option manual w =
     (let merged = item_option_merge opt option;
          profile_name = (case get_item (view_latest (profiles_cell w)) uid of
            Inr item \<Rightarrow> unwrap_or ''UnKnown Profile'' (prf_name item) | Inl _ \<Rightarrow> ''UnKnown Profile'');
          told = (\<lambda>r w. (r, if is_ok r then note_profiles (NoticeMessage ''update_with_clash_proxy'' profile_name) w else w))
      in case attempt_update env uid url merged w of
           (Inr r, w) \<Rightarrow> (r, w)
         | (Inl _, w) \<Rightarrow>
             (case attempt_update env uid url (through True False merged) w of
                (Inr r, w) \<Rightarrow> told r w
              | (Inl _, w) \<Rightarrow>
                  (case attempt_update env uid url (through False True merged) w of
                     (Inr r, w) \<Rightarrow> told r w
                   | (Inl e, w) \<Rightarrow>
                       (let last_err = mask_err (show_error e)
                        in (Inl (bail last_err),
                            if manual then note_profiles (NoticeMessage ''update_failed_even_with_clash'' (profile_name @ '' - '' @ last_err)) w
                            else w)))))"

definition saved_but_not_applied :: string where
  "saved_but_not_applied = bytes [0xE8, 0xAE, 0xA2, 0xE9, 0x98, 0x85, 0xE5, 0xB7, 0xB2, 0xE4, 0xBF, 0x9D, 0xE5, 0xAD, 0x98, 0xEF, 0xBC,
     0x8C, 0xE4, 0xBD, 0x86, 0xE6, 0x9C, 0xAA, 0xE8, 0x83, 0xBD, 0xE7, 0xA1, 0xAE, 0xE8, 0xAE, 0xA4, 0xE5, 0xB7, 0xB2, 0xE5, 0xBA, 0x94,
     0xE7, 0x94, 0xA8, 0xE5, 0x88, 0xB0, 0xE5, 0x86, 0x85, 0xE6, 0xA0, 0xB8] @ '': ''"

text \<open>The update of the core after a profile in use was updated.\<close>

definition refresh_core :: "'u profiles_env \<Rightarrow> bool \<Rightarrow> bool \<Rightarrow> profiles_world \<Rightarrow> unit profiles_result" where
  "refresh_core env persisted manual w =
     (let (result, w) = on_config (update_config_with_force (pv_config env) manual) w;
          refused = (\<lambda>shown.
            let message = (if persisted then saved_but_not_applied else []) @ mask_err shown
            in (Inl (bail message), note_profiles (NoticeMessage ''update_failed'' message) w))
      in case result of
           Inl e \<Rightarrow> refused (show_error e)
         | Inr outcome \<Rightarrow>
             if is_valid_outcome outcome then (Inr (), note_profiles RefreshedClash (logged (sync_dns_now env w)))
             else if \<not> manual \<and> (case outcome of Skipped _ \<Rightarrow> True | Busy \<Rightarrow> True | _ \<Rightarrow> False) then (Inr (), w)
             else refused (show_outcome outcome))"

definition update_profile :: "'u profiles_env \<Rightarrow> string \<Rightarrow> item_option option \<Rightarrow> bool \<Rightarrow> profiles_world \<Rightarrow> unit profiles_result" where
  "update_profile env uid option manual w =
     (case should_update_profile (view_latest (profiles_cell w)) uid manual of
        Inl e \<Rightarrow> (Inl e, w)
      | Inr url_opt \<Rightarrow>
          try_then (case url_opt of Some (url, opt) \<Rightarrow> perform_profile_update env uid url opt option manual w | None \<Rightarrow> (Inr (), w)) (\<lambda>_ w.
          let persisted = url_opt \<noteq> None; is_current = (current (view_latest (profiles_cell w)) = Some uid)
          in if is_current \<or> (\<not> persisted \<and> manual) then refresh_core env persisted manual w else (Inr (), w)))"

definition update_profile_command :: "'u profiles_env \<Rightarrow> string \<Rightarrow> item_option option \<Rightarrow> profiles_world
    \<Rightarrow> (command_failure + unit) \<times> profiles_world" where
  "update_profile_command env index option w =
     (let (r, w) = update_profile env index option True w in (map_sum (coded_error ''PROFILE_UPDATE_FAILED'') id r, w))"

definition enhance_profiles :: "'u profiles_env \<Rightarrow> profiles_world \<Rightarrow> validation_outcome profiles_result" where
  "enhance_profiles env w =
     (let (r, w) = on_config (update_config_forced (pv_config env)) w
      in case r of
           Inl e \<Rightarrow> (Inl e, w)
         | Inr outcome \<Rightarrow> (Inr outcome, if is_valid_outcome outcome then logged (sync_dns_now env w) else w))"

definition enhance_profiles_command :: "'u profiles_env \<Rightarrow> profiles_world \<Rightarrow> (command_failure + validation_outcome) \<times> profiles_world" where
  "enhance_profiles_command env w =
     (case enhance_profiles env w of
        (Inl e, w) \<Rightarrow> (Inl (coded_error ''PROFILE_ENHANCE_FAILED'' e), w)
      | (Inr outcome, w) \<Rightarrow>
          (Inr outcome, note_profiles (if is_valid_outcome outcome then RefreshedClash else ValidationNotice outcome) w))"

subsection \<open>Switching a node\<close>

definition ask_node :: "'u profiles_env \<Rightarrow> string \<Rightarrow> string \<Rightarrow> profiles_world \<Rightarrow> bool \<times> profiles_world" where
  "ask_node env g node w = (pv_select env (pw_tick w) g node, pass (note_profiles (AskedNode g node) w))"

definition record_switched_node :: "'u profiles_env \<Rightarrow> string \<Rightarrow> string \<Rightarrow> profiles_world \<Rightarrow> profiles_world" where
  "record_switched_node env g node w = logged (record_selected_node env g node w)"

definition switch_proxy_node :: "'u profiles_env \<Rightarrow> string \<Rightarrow> string \<Rightarrow> profiles_world \<Rightarrow> profiles_world" where
  "switch_proxy_node env g node w =
     (let (first, w) = ask_node env g node w
      in if first then note_profiles MenuUpdated (note_profiles RefreshedProxies (record_switched_node env g node w))
         else (let (second, w) = ask_node env g node w
               in if second then note_profiles MenuUpdated (record_switched_node env g node w) else w))"

end
