(* ===== verification/HotkeyProps.thy ===== *)
theory HotkeyProps
  imports Hotkey
begin

section \<open>What the hotkeys guarantee\<close>

subsection \<open>Names and presses\<close>

lemma function_names_round_trip_facts:
  "function_from_str plat (show_function f) = (if f = Hide \<and> plat \<noteq> MacOS then Inl (bail ''invalid hotkey function: hide'') else Inr f)"
  by (cases f) (simp_all add: function_from_str_def show_function_def trim_def is_ws_def Let_def)

text \<open>
  Every function is read back from its name, and hiding only exists on macOS.
\<close>

theorem function_names_round_trip:
  "function_from_str plat (show_function f) = (if f = Hide \<and> plat \<noteq> MacOS then Inl (bail ''invalid hotkey function: hide'') else Inr f)"
  by (rule function_names_round_trip_facts)

text \<open>
  A key that is held down runs its function at most once: an event runs it only when it is a press and the
  event before it, if any, was a release.
\<close>

theorem held_key_runs_once:
  "length (handle_events f events pressed) = length events
   \<and> list_all (\<lambda>(i, event, ran). ran \<noteq> None \<longrightarrow> ran = Some f \<and> ke_state event = KeyPressed
        \<and> (if i = 0 then \<not> pressed else ke_state (events ! (i - 1)) = KeyReleased))
      (zip [0 ..< length events] (zip events (handle_events f events pressed)))"
proof -
  have len: "length (handle_events f events pressed) = length events" for pressed
    by (induction events arbitrary: pressed) (auto split: prod.splits)
  have one: "i < length events \<Longrightarrow> handle_events f events pressed ! i \<noteq> None \<Longrightarrow>
      handle_events f events pressed ! i = Some f \<and> ke_state (events ! i) = KeyPressed
      \<and> (if i = 0 then \<not> pressed else ke_state (events ! (i - 1)) = KeyReleased)" for i pressed
  proof (induction events arbitrary: i pressed)
    case (Cons event events)
    obtain ran p where h: "handle_event f event pressed = (ran, p)" by fastforce
    have p: "p \<longleftrightarrow> ke_state event = KeyPressed"
      using h by (auto simp: handle_event_def split: key_state.splits if_splits)
    show ?case
    proof (cases i)
      case 0
      with Cons.prems h show ?thesis by (auto simp: handle_event_def split: key_state.splits if_splits)
    next
      case (Suc j)
      with Cons.prems h have j: "j < length events" "handle_events f events p ! j \<noteq> None" by simp_all
      from Cons.IH [OF j] Suc h p show ?thesis
        by (cases j) (auto split: if_splits, metis key_state.exhaust)
    qed
  qed simp
  show ?thesis
    using len one [of _ pressed] by (fastforce simp: list_all_length)
qed

subsection \<open>Maps of hotkeys\<close>

lemma map_of_put_key [simp]: "map_of (put_key k v m) = (map_of m)(k \<mapsto> v)"
  by (induction m) (auto simp: fun_eq_iff)

lemma keys_put_key: "fst ` set (put_key k v m) = insert k (fst ` set m)"
  by (induction m) auto

lemma distinct_put_key: "distinct (map fst m) \<Longrightarrow> distinct (map fst (put_key k v m))"
  by (induction m) (auto simp: keys_put_key)

lemma distinct_map_from_vec: "distinct (map fst m) \<Longrightarrow> distinct (map fst (map_from_vec hs m))"
  by (induction hs m rule: map_from_vec.induct) (auto simp: distinct_put_key split: option.splits)

text \<open>A walk of a hash map yields each of its entries once.\<close>

definition walks :: "'k hotkey_env \<Rightarrow> bool" where
  "walks env \<longleftrightarrow> (\<forall>m. distinct (map fst m) \<longrightarrow> distinct (map fst (hk_order env m)) \<and> set (hk_order env m) = set m)"

lemma walked:
  assumes "walks env"
  shows "distinct (map fst (get_map_from_vec env hs))" and "map_of (get_map_from_vec env hs) = map_of (map_from_vec hs [])"
proof -
  have d: "distinct (map fst (map_from_vec hs []))" by (rule distinct_map_from_vec) simp
  then show "distinct (map fst (get_map_from_vec env hs))" using assms by (simp add: get_map_from_vec_def walks_def)
  show "map_of (get_map_from_vec env hs) = map_of (map_from_vec hs [])"
    using assms d by (simp add: get_map_from_vec_def walks_def map_of_inject_set)
qed

lemma set_map_filter: "y \<in> set (List.map_filter f xs) \<longleftrightarrow> (\<exists>x \<in> set xs. f x = Some y)"
  by (induction xs) (auto simp: List.map_filter_simps split: option.splits)

lemma bex_pair: "(\<exists>x \<in> S. fst x = k \<and> Q (snd x)) \<longleftrightarrow> (\<exists>v. (k, v) \<in> S \<and> Q v)"
  by force

lemma diff_del:
  assumes "distinct (map fst old)"
  shows "key \<in> set (fst (get_diff old new)) \<longleftrightarrow> (\<exists>func. map_of old key = Some func \<and> map_of new key \<noteq> Some func)"
proof -
  have "key \<in> set (fst (get_diff old new)) \<longleftrightarrow> (\<exists>func. (key, func) \<in> set old \<and> map_of new key \<noteq> Some func)"
  proof -
    have "(case x of (key', func) \<Rightarrow> case map_of new key' of None \<Rightarrow> Some key' | Some nf \<Rightarrow> if nf \<noteq> func then Some key' else None) = Some key
        \<longleftrightarrow> fst x = key \<and> map_of new key \<noteq> Some (snd x)" for x by (cases x) (auto split: option.splits)
    then show ?thesis unfolding get_diff_def fst_conv set_map_filter by (simp only: bex_pair [of _ _ "\<lambda>v. map_of new key \<noteq> Some v"])
  qed
  with assms show ?thesis by simp
qed

lemma diff_add:
  assumes "distinct (map fst old)" "distinct (map fst new)"
  shows "(key, func) \<in> set (snd (get_diff old new)) \<longleftrightarrow> map_of new key = Some func \<and> map_of old key \<noteq> Some func"
proof -
  have "(key, func) \<in> set (snd (get_diff old new)) \<longleftrightarrow>
      (\<exists>func'. (key, func') \<in> set old \<and> map_of new key = Some func \<and> func \<noteq> func') \<or> ((key, func) \<in> set new \<and> map_of old key = None)"
  proof -
    have "(case x of (key', func') \<Rightarrow> case map_of new key' of None \<Rightarrow> None | Some nf \<Rightarrow> if nf \<noteq> func' then Some (key', nf) else None) = Some (key, func)
        \<longleftrightarrow> fst x = key \<and> map_of new key = Some func \<and> func \<noteq> snd x" for x by (cases x) (auto split: option.splits)
    then have a: "(\<exists>x \<in> set old. (case x of (key', func') \<Rightarrow> case map_of new key' of None \<Rightarrow> None | Some nf \<Rightarrow> if nf \<noteq> func' then Some (key', nf) else None) = Some (key, func))
        \<longleftrightarrow> (\<exists>func'. (key, func') \<in> set old \<and> map_of new key = Some func \<and> func \<noteq> func')"
      by (simp only: bex_pair [of _ _ "\<lambda>v. map_of new key = Some func \<and> func \<noteq> v"])
    show ?thesis unfolding get_diff_def snd_conv set_append Un_iff set_map_filter a by simp
  qed
  moreover have "(key, v) \<in> set old \<longleftrightarrow> map_of old key = Some v" "(key, v) \<in> set new \<longleftrightarrow> map_of new key = Some v" for v
    using assms by simp_all
  ultimately have "(key, func) \<in> set (snd (get_diff old new)) \<longleftrightarrow>
      (\<exists>func'. map_of old key = Some func' \<and> map_of new key = Some func \<and> func \<noteq> func') \<or> (map_of new key = Some func \<and> map_of old key = None)"
    by (simp only:)
  then show ?thesis by (cases "map_of old key") (simp_all del: map_of_eq_Some_iff, metis)
qed

lemma distinct_adds:
  assumes "distinct (map fst old)" "distinct (map fst new)"
  shows "distinct (map fst (snd (get_diff old new)))"
proof -
  let ?f = "\<lambda>(key, func). case map_of new key of Some new_func \<Rightarrow> if new_func \<noteq> func then Some (key, new_func) else None | None \<Rightarrow> None"
  have f: "?f x = Some y \<Longrightarrow> fst y = fst x" for x y by (cases x) (auto split: option.splits if_splits)
  have sub: "fst ` set (List.map_filter ?f xs) \<subseteq> fst ` set xs" for xs
  proof
    fix k assume "k \<in> fst ` set (List.map_filter ?f xs)"
    then obtain y where "y \<in> set (List.map_filter ?f xs)" "k = fst y" by blast
    then obtain x where "x \<in> set xs" "?f x = Some y" unfolding set_map_filter by blast
    with f [OF this(2)] \<open>k = fst y\<close> show "k \<in> fst ` set xs" by force
  qed
  have d: "distinct (map fst (List.map_filter ?f xs))" if "distinct (map fst xs)" for xs
    using that
  proof (induction xs)
    case (Cons x xs)
    show ?case
    proof (cases "?f x")
      case None
      with Cons show ?thesis by (simp add: List.map_filter_simps)
    next
      case (Some y)
      have "fst y \<notin> fst ` set (List.map_filter ?f xs)" using f [OF Some] sub [of xs] Cons.prems by auto
      with Some Cons show ?thesis by (simp add: List.map_filter_simps)
    qed
  qed (simp add: List.map_filter_simps)
  have "fst ` set (filter (\<lambda>(key, func). map_of old key = None) new) \<inter> fst ` set old = {}"
    by (auto simp: map_of_eq_None_iff intro: rev_image_eqI)
  with d [OF assms(1)] sub [of old] assms(2) show ?thesis
    unfolding get_diff_def snd_conv map_append distinct_append by (auto simp: distinct_map_filter)
qed

lemma diff_same:
  assumes "distinct (map fst old)" "map_of new = map_of old"
  shows "get_diff old new = ([], [])"
proof -
  have n: "map_of new k = Some v" if "(k, v) \<in> set old" for k v using assms that by simp
  have "map_of old k \<noteq> None" if "(k, v) \<in> set new" for k v
    using assms(2) that by (metis map_of_eq_None_iff fst_conv imageI)
  then have "filter (\<lambda>(key, func). map_of old key = None) new = []" by (auto simp: filter_empty_conv)
  with n show ?thesis by (auto simp: get_diff_def List.map_filter_def filter_empty_conv)
qed

subsection \<open>The properties of a change\<close>

text \<open>
  A change of the hotkeys that fails keeps the old list as the current one, so a change back to the old list, such as
  the roll-back of the settings makes, compares equal and registers nothing: what the failed change
  had unregistered stays unregistered.
\<close>

theorem failed_hotkey_change_is_not_undone:
  assumes "walks env" and "walks env'" and run: "update_hotkeys env new w = (Inl e, w')"
  shows "hw_current w' = hw_current w \<and> update_hotkeys env' (hw_current w) w' = (Inr (), w')"
proof -
  have del: "hw_current (delete_loop env ks w) = hw_current w" for ks and w :: "'a hotkeys_world"
    by (induction ks arbitrary: w) (auto simp: unregister_def plugin_call_def Let_def split: sum.splits option.splits)
  have call: "hw_current (snd (plugin_call env k f w)) = hw_current w" for k f and w :: "'a hotkeys_world"
    by (auto simp: plugin_call_def Let_def split: sum.splits option.splits)
  have reg: "hw_current (snd (register_hotkey env k f w)) = hw_current w" for k f and w :: "'a hotkeys_world"
    using call by (auto simp: register_hotkey_def register_hotkey_with_function_def unregister_def try_then_def
        split: sum.splits prod.splits) (metis snd_conv)+
  have add: "hw_current (snd (add_loop env as w)) = hw_current w" for as and w :: "'a hotkeys_world"
  proof (induction as arbitrary: w)
    case (Cons a as)
    obtain k f where a: "a = (k, f)" by fastforce
    obtain r w1 where r: "register_hotkey env k f w = (r, w1)" by fastforce
    with reg [of k f w] have "hw_current w1 = hw_current w" by simp
    with Cons [of w1] r a show ?case by (cases r) (simp_all add: try_then_def)
  qed simp
  obtain ds as where d: "get_diff (get_map_from_vec env (hw_current w)) (get_map_from_vec env new) = (ds, as)" by fastforce
  obtain r w1 where a: "add_loop env as (delete_loop env ds w) = (r, w1)" by fastforce
  from run d a have "w' = w1" by (auto simp: update_hotkeys_def try_then_def split: sum.splits)
  with add [of as "delete_loop env ds w"] a del [of ds w] have cur: "hw_current w' = hw_current w" by simp
  have "get_diff (get_map_from_vec env' (hw_current w')) (get_map_from_vec env' (hw_current w)) = ([], [])"
    using walked [OF assms(2)] cur by (intro diff_same) simp_all
  with cur show ?thesis by (simp add: update_hotkeys_def try_then_def)
qed

subsection \<open>A plug-in that does what it is asked\<close>

text \<open>
  \<open>obeys\<close>: the plug-in refuses nothing, and different keys of the two lists are different shortcuts.
\<close>

definition obeys :: "'k hotkey_env \<Rightarrow> string set \<Rightarrow> bool" where
  "obeys env keys \<longleftrightarrow> (\<forall>n. hk_refuses env n = None) \<and> (\<forall>key \<in> keys. \<exists>k. hk_parse env key = Inr k)
     \<and> inj_on (hk_parse env) keys"

definition keys_of :: "string list \<Rightarrow> string set" where
  "keys_of hs = dom (map_of (map_from_vec hs []))"

text \<open>What the plug-in holds for the keys of a list.\<close>

definition held :: "'k hotkey_env \<Rightarrow> 'k hotkeys_world \<Rightarrow> string \<Rightarrow> hotkey_function option" where
  "held env w key = (case hk_parse env key of Inr k \<Rightarrow> hw_registered w k | Inl _ \<Rightarrow> None)"

definition wanted :: "'k hotkey_env \<Rightarrow> string list \<Rightarrow> string \<Rightarrow> hotkey_function option" where
  "wanted env hs key = (case map_of (map_from_vec hs []) key of
       Some func \<Rightarrow> (case function_from_str (hk_plat env) func of Inr f \<Rightarrow> Some f | Inl _ \<Rightarrow> None)
     | None \<Rightarrow> None)"

lemma obeyed_call:
  assumes "obeys env K" "key \<in> K"
  obtains k where "hk_parse env key = Inr k"
    "plugin_call env key f w = (Inr (), w\<lparr>hw_calls := Suc (hw_calls w), hw_registered := f (hw_registered w) k\<rparr>)"
  using assms by (auto simp: obeys_def plugin_call_def Let_def)

lemma held_other:
  assumes "obeys env K" "key \<in> K" "key' \<in> K" "key \<noteq> key'" "hk_parse env key = Inr k"
  shows "held env (w\<lparr>hw_calls := c, hw_registered := (hw_registered w)(k := x)\<rparr>) key' = held env w key'"
  using assms by (auto simp: obeys_def held_def inj_on_def split: sum.splits)

lemma held_same:
  assumes "hk_parse env key = Inr k"
  shows "held env (w\<lparr>hw_calls := c, hw_registered := (hw_registered w)(k := x)\<rparr>) key = x"
  using assms by (simp add: held_def)

lemma delete_loop_held:
  assumes "obeys env K" "set ks \<subseteq> K" "key \<in> K"
  shows "held env (delete_loop env ks w) key = (if key \<in> set ks then None else held env w key)
    \<and> hw_current (delete_loop env ks w) = hw_current w"
  using assms(2)
proof (induction ks arbitrary: w)
  case (Cons key' ks)
  from Cons.prems have k': "key' \<in> K" by simp
  obtain k where k: "hk_parse env key' = Inr k"
    "plugin_call env key' (\<lambda>m k. m(k := None)) w = (Inr (), w\<lparr>hw_calls := Suc (hw_calls w), hw_registered := (hw_registered w)(k := None)\<rparr>)"
    by (rule obeyed_call [OF assms(1) k'])
  let ?w = "w\<lparr>hw_calls := Suc (hw_calls w), hw_registered := (hw_registered w)(k := None)\<rparr>"
  have "held env ?w key = (if key = key' then None else held env w key)"
    using held_same [OF k(1)] held_other [OF assms(1) k' assms(3) _ k(1)] by auto
  with Cons k show ?case by (cases "key = key'") (simp_all add: unregister_def)
qed simp

lemma register_held:
  assumes o: "obeys env K" and k': "key' \<in> K" and f: "function_from_str (hk_plat env) func = Inr f"
  obtains w' where "register_hotkey env key' func w = (Inr (), w')" "hw_current w' = hw_current w"
    "\<And>key. key \<in> K \<Longrightarrow> held env w' key = (if key = key' then Some f else held env w key)"
proof -
  have put: "\<exists>w'. plugin_call env key' (\<lambda>m k. m(k \<mapsto> f)) v = (Inr (), w') \<and> hw_current w' = hw_current v
      \<and> (\<forall>key \<in> K. held env w' key = (if key = key' then Some f else held env v key))" for v
  proof -
    obtain k where k: "hk_parse env key' = Inr k"
      "plugin_call env key' (\<lambda>m k. m(k \<mapsto> f)) v = (Inr (), v\<lparr>hw_calls := Suc (hw_calls v), hw_registered := (hw_registered v)(k \<mapsto> f)\<rparr>)"
      by (rule obeyed_call [OF o k'])
    then show ?thesis using held_same [OF k(1), of v] held_other [OF o k' _ _ k(1), of _ v] by (auto simp: fun_upd_def)
  qed
  obtain v where v: "(if is_registered env key' w then unregister env key' w else (Inr (), w)) = (Inr (), v)" "hw_current v = hw_current w"
    "\<forall>key \<in> K. key \<noteq> key' \<longrightarrow> held env v key = held env w key"
  proof (cases "is_registered env key' w")
    case True
    obtain k where k: "hk_parse env key' = Inr k"
      "plugin_call env key' (\<lambda>m k. m(k := None)) w = (Inr (), w\<lparr>hw_calls := Suc (hw_calls w), hw_registered := (hw_registered w)(k := None)\<rparr>)"
      by (rule obeyed_call [OF o k'])
    show thesis
      by (rule that [of "w\<lparr>hw_calls := Suc (hw_calls w), hw_registered := (hw_registered w)(k := None)\<rparr>"])
        (use True k held_other [OF o k' _ _ k(1), of _ w] in \<open>auto simp: unregister_def\<close>)
  qed (use that in auto)
  from put [of v] obtain w' where "plugin_call env key' (\<lambda>m k. m(k \<mapsto> f)) v = (Inr (), w')" "hw_current w' = hw_current v"
    "\<forall>key \<in> K. held env w' key = (if key = key' then Some f else held env v key)" by blast
  then show thesis
    by (intro that [of w']) (use f v in \<open>auto simp: register_hotkey_def register_hotkey_with_function_def try_then_def\<close>)
qed

lemma add_loop_held:
  assumes o: "obeys env K" and "fst ` set adds \<subseteq> K" and "distinct (map fst adds)"
    and "\<forall>(key, func) \<in> set adds. \<exists>f. function_from_str (hk_plat env) func = Inr f"
  shows "\<exists>w'. add_loop env adds w = (Inr (), w') \<and> hw_current w' = hw_current w
    \<and> (\<forall>key \<in> K. held env w' key = (case map_of adds key of
         Some func \<Rightarrow> Some (projr (function_from_str (hk_plat env) func)) | None \<Rightarrow> held env w key))"
  using assms(2-4)
proof (induction adds arbitrary: w)
  case (Cons add adds)
  obtain key' func where a: "add = (key', func)" by fastforce
  from Cons.prems a obtain f where f: "function_from_str (hk_plat env) func = Inr f" and k': "key' \<in> K" by auto
  obtain w1 where w1: "register_hotkey env key' func w = (Inr (), w1)" "hw_current w1 = hw_current w"
    "\<And>key. key \<in> K \<Longrightarrow> held env w1 key = (if key = key' then Some f else held env w key)"
    by (rule register_held [OF o k' f, where w = w]) blast
  from Cons.prems a obtain w' where w': "add_loop env adds w1 = (Inr (), w')" "hw_current w' = hw_current w1"
    "\<forall>key \<in> K. held env w' key = (case map_of adds key of
         Some func \<Rightarrow> Some (projr (function_from_str (hk_plat env) func)) | None \<Rightarrow> held env w1 key)"
    using Cons.IH [of w1] by auto
  have "map_of adds key' = None" using Cons.prems(2) a by (simp add: map_of_eq_None_iff)
  with w1 w' f a show ?case by (intro exI [of _ w']) (auto simp: try_then_def split: option.splits)
qed simp

text \<open>
  When the plug-in does what it is asked, a change to a list of known functions succeeds, and if the plug-in held the
  hotkeys of the old list, then it holds exactly the hotkeys of the new list: those of removed keys are gone, changed
  ones replaced and new ones registered.
\<close>

theorem hotkeys_follow_settings:
  assumes w: "walks env" and o: "obeys env (keys_of (hw_current w) \<union> keys_of new)"
    and known: "\<forall>func \<in> ran (map_of (map_from_vec new [])). is_ok (function_from_str (hk_plat env) func)"
    and held: "\<forall>key \<in> keys_of (hw_current w) \<union> keys_of new. held env w key = wanted env (hw_current w) key"
  shows "\<exists>w'. update_hotkeys env new w = (Inr (), w') \<and> hw_current w' = new
    \<and> (\<forall>key \<in> keys_of (hw_current w) \<union> keys_of new. held env w' key = wanted env new key)"
proof -
  let ?K = "keys_of (hw_current w) \<union> keys_of new"
  let ?o = "get_map_from_vec env (hw_current w)" and ?n = "get_map_from_vec env new"
  note wo = walked [OF w, of "hw_current w"] and wn = walked [OF w, of new]
  obtain ds as where d: "get_diff ?o ?n = (ds, as)" by fastforce
  have del: "key \<in> set ds \<longleftrightarrow> (\<exists>func. map_of ?o key = Some func \<and> map_of ?n key \<noteq> Some func)" for key
    using diff_del [OF wo(1), of key ?n] d by simp
  have "distinct (map fst as)" using distinct_adds [OF wo(1) wn(1)] d by simp
  moreover have add: "(key, func) \<in> set as \<longleftrightarrow> map_of ?n key = Some func \<and> map_of ?o key \<noteq> Some func" for key func
    using diff_add [OF wo(1) wn(1), of key func] d by simp
  ultimately have add_map: "map_of as key = (case map_of ?n key of Some func \<Rightarrow> if map_of ?o key = Some func then None else Some func | None \<Rightarrow> None)" for key
    by (cases "map_of as key") (auto simp: map_of_eq_None_iff split: option.splits if_splits)
  have ds_K: "set ds \<subseteq> ?K"
  proof
    fix key assume "key \<in> set ds"
    with del wo(2) show "key \<in> ?K" by (metis UnI1 domI keys_of_def)
  qed
  have as_K: "fst ` set as \<subseteq> ?K"
  proof
    fix key assume "key \<in> fst ` set as"
    then obtain func where "(key, func) \<in> set as" by force
    with add wn(2) show "key \<in> ?K" by (metis UnI2 domI keys_of_def)
  qed
  have known_as: "\<forall>(key, func) \<in> set as. \<exists>f. function_from_str (hk_plat env) func = Inr f"
  proof clarify
    fix key func assume "(key, func) \<in> set as"
    with add wn(2) have "func \<in> ran (map_of (map_from_vec new []))" by (metis ranI)
    with known have "is_ok (function_from_str (hk_plat env) func)" by blast
    then show "\<exists>f. function_from_str (hk_plat env) func = Inr f" by (cases "function_from_str (hk_plat env) func") simp_all
  qed
  let ?w1 = "delete_loop env ds w"
  obtain w2 where w2: "add_loop env as ?w1 = (Inr (), w2)"
    "\<forall>key \<in> ?K. held env w2 key = (case map_of as key of
         Some func \<Rightarrow> Some (projr (function_from_str (hk_plat env) func)) | None \<Rightarrow> held env ?w1 key)"
    using add_loop_held [OF o as_K \<open>distinct (map fst as)\<close> known_as, of ?w1] by blast
  have "held env w2 key = wanted env new key" if key: "key \<in> ?K" for key
  proof -
    have h1: "held env ?w1 key = (if key \<in> set ds then None else wanted env (hw_current w) key)"
      using delete_loop_held [OF o ds_K key] held key by auto
    show ?thesis
    proof (cases "map_of as key")
      case (Some func)
      with add_map [of key] wn(2) have "map_of (map_from_vec new []) key = Some func" by (auto split: option.splits if_splits)
      moreover from this known have "is_ok (function_from_str (hk_plat env) func)" by (meson ranI)
      then obtain f where "function_from_str (hk_plat env) func = Inr f"
        by (cases "function_from_str (hk_plat env) func") simp_all
      ultimately show ?thesis using w2(2) key Some by (auto simp: wanted_def)
    next
      case None
      with w2(2) key h1 have h2: "held env w2 key = (if key \<in> set ds then None else wanted env (hw_current w) key)" by auto
      from None add_map [of key] have "map_of ?n key = None \<or> map_of ?n key = map_of ?o key" by (auto split: option.splits if_splits)
      then show ?thesis
      proof
        assume n: "map_of ?n key = None"
        with del [of key] h2 wo(2) wn(2) show ?thesis by (cases "map_of ?o key") (auto simp: wanted_def)
      next
        assume n: "map_of ?n key = map_of ?o key"
        with del [of key] have "key \<notin> set ds" by auto
        with n h2 wo(2) wn(2) show ?thesis by (simp add: wanted_def)
      qed
    qed
  qed
  moreover have "held env (w2\<lparr>hw_current := new\<rparr>) key = held env w2 key" for key by (simp add: held_def split: sum.splits)
  ultimately show ?thesis using d w2(1) by (simp add: update_hotkeys_def try_then_def)
qed

subsection \<open>An example\<close>

definition sample_hotkeys :: "string hotkey_env" where
  "sample_hotkeys = \<lparr>hk_plat = Linux, hk_parse = (\<lambda>key. if key = ''?'' then Inl ''no such key'' else Inr key),
     hk_refuses = (\<lambda>_. None), hk_order = id\<rparr>"

definition sample_hotkeys_world :: "string hotkeys_world" where
  "sample_hotkeys_world = \<lparr>hw_current = [''quit,A''], hw_registered = [''A'' \<mapsto> Quit], hw_calls = 0\<rparr>"

lemma sample_walks: "walks sample_hotkeys"
  by (simp add: walks_def sample_hotkeys_def)

lemma sample_fields:
  "map_from_vec [''quit,A''] [] = [(''A'', ''quit'')]" "map_from_vec [''hide,A''] [] = [(''A'', ''hide'')]"
  "map_from_vec [''quit,?''] [] = [(''?'', ''quit'')]" "map_from_vec [''toggle_tun_mode,B''] [] = [(''B'', ''toggle_tun_mode'')]"
  by (simp_all add: hotkey_fields_def comma_def trim_def is_ws_def Let_def)

lemma sample_functions: "function_from_str plat ''quit'' = Inr Quit" "function_from_str plat ''toggle_tun_mode'' = Inr ToggleTunMode"
  using function_names_round_trip_facts [of plat Quit] function_names_round_trip_facts [of plat ToggleTunMode] by (simp_all add: show_function_def)

theorem held_key_runs_once_witness:
  "length (handle_events Quit [\<lparr>ke_state = KeyPressed, ke_is_q = False, ke_window = \<lparr>win_exists = False, win_visible = False,
     win_focused = False\<rparr>, ke_global = None\<rparr>] False) = 1"
  using held_key_runs_once [of Quit "[\<lparr>ke_state = KeyPressed, ke_is_q = False, ke_window = \<lparr>win_exists = False, win_visible = False,
     win_focused = False\<rparr>, ke_global = None\<rparr>]" False] by simp

theorem failed_hotkey_change_is_not_undone_witness:
  "\<exists>e w'. update_hotkeys sample_hotkeys [''quit,?''] sample_hotkeys_world = (Inl e, w') \<and> hw_registered w' ''A'' = None
     \<and> update_hotkeys sample_hotkeys [''quit,A''] w' = (Inr (), w')"
proof -
  obtain e w' where u: "update_hotkeys sample_hotkeys [''quit,?''] sample_hotkeys_world = (Inl e, w')" "hw_registered w' ''A'' = None"
    by (simp add: update_hotkeys_def get_map_from_vec_def sample_fields sample_hotkeys_world_def sample_hotkeys_def get_diff_def
        List.map_filter_simps unregister_def plugin_call_def Let_def register_hotkey_def sample_functions register_hotkey_with_function_def
        is_registered_def try_then_def del: map_from_vec.simps)
  from failed_hotkey_change_is_not_undone [OF sample_walks sample_walks u(1)] u show ?thesis
    by (auto simp: sample_hotkeys_world_def)
qed

lemma sample_hotkey_change:
  "\<exists>w'. update_hotkeys sample_hotkeys [''toggle_tun_mode,B''] sample_hotkeys_world = (Inr (), w') \<and> held sample_hotkeys w' ''B'' = Some ToggleTunMode"
  by (simp add: update_hotkeys_def get_map_from_vec_def sample_fields sample_hotkeys_world_def sample_hotkeys_def get_diff_def
      List.map_filter_simps unregister_def plugin_call_def Let_def register_hotkey_def sample_functions register_hotkey_with_function_def
      is_registered_def try_then_def held_def del: map_from_vec.simps)

theorem hotkeys_follow_settings_witness:
  "\<exists>w'. update_hotkeys sample_hotkeys [''toggle_tun_mode,B''] sample_hotkeys_world = (Inr (), w')
     \<and> held sample_hotkeys w' ''A'' = None \<and> held sample_hotkeys w' ''B'' = Some ToggleTunMode"
proof -
  have k: "keys_of (hw_current sample_hotkeys_world) \<union> keys_of [''toggle_tun_mode,B''] = {''A'', ''B''}"
    by (auto simp: keys_of_def sample_hotkeys_world_def sample_fields simp del: map_from_vec.simps)
  have o: "obeys sample_hotkeys {''A'', ''B''}" by (simp add: obeys_def sample_hotkeys_def)
  have kn: "\<forall>func \<in> ran (map_of (map_from_vec [''toggle_tun_mode,B''] [])). is_ok (function_from_str (hk_plat sample_hotkeys) func)"
    by (simp add: sample_fields sample_functions del: map_from_vec.simps)
  have h: "\<forall>key \<in> {''A'', ''B''}. held sample_hotkeys sample_hotkeys_world key = wanted sample_hotkeys (hw_current sample_hotkeys_world) key"
    by (simp add: held_def wanted_def sample_hotkeys_world_def sample_fields sample_functions sample_hotkeys_def del: map_from_vec.simps)
  from hotkeys_follow_settings [OF sample_walks, of sample_hotkeys_world "[''toggle_tun_mode,B'']", unfolded k, OF o kn h]
  show ?thesis by (auto simp: wanted_def sample_fields sample_functions simp del: map_from_vec.simps)
qed

end
