(* ===== verification/SettingsPatchProps.thy ===== *)
theory SettingsPatchProps
  imports SettingsPatch PortChangeProps HotkeyProps
begin

section \<open>What a patch of the settings guarantees\<close>

text \<open>
  The steps of a patch never touch the cells of the settings and of the core configuration, so a patch is decided by
  its transaction alone; what it told the program is not taken back.
\<close>

subsection \<open>Steps keep the cells\<close>

definition kept :: "config_world \<Rightarrow> config_world \<Rightarrow> bool" where
  "kept c c' \<longleftrightarrow> cw_clash c' = cw_clash c \<and> cw_verge c' = cw_verge c \<and> cw_claims c' = cw_claims c
     \<and> cw_profiles c' = cw_profiles c"

definition cells_free :: "config_world \<Rightarrow> bool" where
  "cells_free c \<longleftrightarrow> RuntimeLayer \<notin> set (cw_claims c)"

lemma kept_refl [simp]: "kept c c" and kept_trans: "kept a b \<Longrightarrow> kept b c \<Longrightarrow> kept a c"
  and kept_free: "kept a b \<Longrightarrow> cells_free a \<Longrightarrow> cells_free b"
  by (simp_all add: kept_def cells_free_def)

lemma quiet_kept: "PortChangeProps.quiet c c' \<Longrightarrow> kept c c'"
  by (simp add: kept_def quiet_fields)

lemma on_core_kept: "on_core f c = (r, c') \<Longrightarrow> kept c c'"
  by (auto simp: on_core_def kept_def split: prod.splits)

lemma note_load_kept: "kept c (note_load c)"
  by (simp add: kept_def note_load_def)

lemma generate_kept: "generate env c = (r, c') \<Longrightarrow> kept c c'"
  using generate_settings(1) [of env c r c'] by (simp add: kept_def same_settings_def)

lemma update_checked_kept:
  assumes "update_config_checked env c = (r, c')" and "cells_free c"
  shows "kept c c'"
proof -
  obtain q c1 where f: "update_config_with_force env True c = (q, c1)" by fastforce
  with assms(1) have "c' = c1" by (auto simp: update_config_checked_def update_config_forced_def try_then_def split: sum.splits if_splits)
  moreover have "kept c c1"
    using update_force_facts [OF f] assms(2) by (simp add: kept_def same_sources_def cells_free_def)
  ultimately show ?thesis by simp
qed

lemma restart_kept:
  assumes "generate_and_restart env c = (r, c')"
  shows "kept c c'"
proof -
  obtain q c1 where g: "generate env c = (q, c1)" by fastforce
  from assms [unfolded generate_and_restart_def g] show ?thesis
  proof (cases rule: try_then_cases)
    case (error e w)
    with generate_kept [OF g] show ?thesis by simp
  next
    case (ok u w)
    then have "on_core (restart_core (ce_core env)) (note_load c1) = (r, c')" by simp
    from kept_trans [OF kept_trans [OF generate_kept [OF g] note_load_kept] on_core_kept [OF this]] show ?thesis .
  qed
qed

lemma sys_proxy_kept: "apply_sys_proxy env c = (r, c') \<Longrightarrow> kept c c'"
proof -
  let ?c = "ctick env (c\<lparr>cw_core := ce_lock env (cw_tick c) (cw_core c)\<rparr>)"
  have "kept c ?c" by (simp add: kept_def ctick_def)
  moreover assume "apply_sys_proxy env c = (r, c')"
  then have "kept ?c c'" using on_core_kept by (auto simp: apply_sys_proxy_def Let_def split: if_splits)
  ultimately show ?thesis by (rule kept_trans)
qed

definition keeping :: "'k settings_step \<Rightarrow> bool" where
  "keeping s \<longleftrightarrow> (\<forall>w r w'. s w = (r, w') \<longrightarrow> cells_free (st_config w) \<longrightarrow> kept (st_config w) (st_config w'))"

lemma keepingD: "keeping s \<Longrightarrow> s w = (r, w') \<Longrightarrow> cells_free (st_config w) \<Longrightarrow> kept (st_config w) (st_config w')"
  by (auto simp: keeping_def)

lemma keeping_config:
  assumes "\<And>c r c'. f c = (r, c') \<Longrightarrow> cells_free c \<Longrightarrow> kept c c'"
  shows "keeping (in_config f)"
  using assms by (auto simp: keeping_def in_config_def split: prod.splits)

lemma keeping_basic: "keeping (outside env e)" "keeping (tell_ok env e)" "keeping (in_hotkeys h)" "keeping (Pair x)"
  by (auto simp: keeping_def outside_def tell_ok_def tell_def in_hotkeys_def Let_def split: prod.splits)

lemma keeping_then:
  assumes "keeping s" "\<And>u. keeping (t u)"
  shows "keeping (\<lambda>w. try_then (s w) (\<lambda>u w. t u w))"
  unfolding keeping_def
proof (intro allI impI)
  fix w r w' assume run: "try_then (s w) (\<lambda>u w. t u w) = (r, w')" and free: "cells_free (st_config w)"
  obtain q w1 where s: "s w = (q, w1)" by fastforce
  note k = keepingD [OF assms(1) s free]
  from run [unfolded s] show "kept (st_config w) (st_config w')"
  proof (cases rule: try_then_cases)
    case (error e v)
    with k show ?thesis by simp
  next
    case (ok u v)
    then have "t u w1 = (r, w')" by simp
    from kept_trans [OF k keepingD [OF assms(2) this kept_free [OF k free]]] show ?thesis .
  qed
qed

lemma keeping_flagged: "keeping s \<Longrightarrow> keeping (when_flagged flags f s)"
  by (auto simp: keeping_def when_flagged_def split: if_splits)

lemma keeping_steps: "list_all keeping ss \<Longrightarrow> keeping (run_steps ss)"
proof (induction ss)
  case Nil
  then show ?case by (simp add: keeping_def)
next
  case (Cons s ss)
  then have "keeping (\<lambda>w. try_then (s w) (\<lambda>u w. run_steps ss w))" by (intro keeping_then) simp_all
  then show ?case by (simp add: keeping_def)
qed

lemma keeping_icon: "keeping (tray_icon_step env patch)"
proof -
  have "keeping (\<lambda>w. try_then (outside env (TrayIcon (view_latest (cw_verge (st_config w)))) w)
      (\<lambda>u w. (\<lambda>w. if plat (ce_core (sv_config env)) = MacOS \<and> enable_tray_speed patch \<noteq> None
        then tell_ok env (TraySpeed (unwrap_or False (enable_tray_speed patch))) w else (Inr (), w)) w))"
    by (rule keeping_then) (auto simp: keeping_def outside_def tell_ok_def tell_def Let_def split: if_splits)
  then show ?thesis by (simp add: keeping_def tray_icon_step_def)
qed

lemma process_keeping: "keeping (process_terminated_flags env flags patch)"
  unfolding process_terminated_flags_def
proof (rule keeping_steps)
  have 1: "keeping (in_config (generate_and_restart (sv_config env)))" by (rule keeping_config) (rule restart_kept)
  have 2: "keeping (\<lambda>w. try_then (in_config (update_config_checked (sv_config env)) w) (\<lambda>u. tell_ok env RefreshClash))"
    by (rule keeping_then [OF keeping_config keeping_basic(2)]) (rule update_checked_kept)
  have 3: "keeping (in_config (apply_sys_proxy (sv_config env)))" by (rule keeping_config) (rule sys_proxy_kept)
  have 4: "keeping (case language patch of Some l \<Rightarrow> tell_ok env (SetLocale l) | None \<Rightarrow> Pair (Inr ()))"
    "keeping (case hotkeys patch of Some hs \<Rightarrow> in_hotkeys (update_hotkeys (sv_hotkeys env) hs) | None \<Rightarrow> Pair (Inr ()))"
    by (auto split: option.split intro: keeping_basic)
  show "list_all keeping
     [when_flagged flags RESTART_CORE (in_config (generate_and_restart (sv_config env))),
      when_flagged flags CLASH_CONFIG (\<lambda>w. try_then (in_config (update_config_checked (sv_config env)) w) (\<lambda>_. tell_ok env RefreshClash)),
      when_flagged flags LAUNCH (outside env UpdateLaunch),
      when_flagged flags LANGUAGE (case language patch of Some l \<Rightarrow> tell_ok env (SetLocale l) | None \<Rightarrow> Pair (Inr ())),
      when_flagged flags SYS_PROXY (in_config (apply_sys_proxy (sv_config env))),
      when_flagged flags HOTKEY (case hotkeys patch of Some hs \<Rightarrow> in_hotkeys (update_hotkeys (sv_hotkeys env) hs) | None \<Rightarrow> Pair (Inr ())),
      when_flagged flags SYSTRAY_MENU (outside env TrayMenu),
      when_flagged flags SYSTRAY_ICON (tray_icon_step env patch),
      when_flagged flags SYSTRAY_TOOLTIP (outside env TrayTooltip),
      when_flagged flags SYSTRAY_CLICK_BEHAVIOR (outside env TrayClick),
      when_flagged flags LIGHT_WEIGHT (tell_ok env (if unwrap_or False (enable_auto_light_weight_mode patch) then LightWeightOn else LightWeightOff)),
      when_flagged flags LOG_LEVEL (outside env (SetLogLevel (get_log_level patch))),
      when_flagged flags LOG_FILE (outside env (SetLogFiles (unwrap_or 128 (app_log_max_size patch)) (unwrap_or 8 (app_log_max_count patch))))]"
    by (simp add: keeping_flagged keeping_basic keeping_icon 1 2 3 4)
qed

subsection \<open>The transaction of the settings\<close>

definition verge_transaction :: "config_world draft_transaction" where
  "verge_transaction = \<lparr>layers = [config_layer_of VergeLayer], is_committed = False\<rparr>"

lemma begin_verge:
  "begin_transaction [VergeLayer] c =
     (if VergeLayer \<in> set (cw_claims c) then (Inl (bail ''configuration layer IVerge is being changed elsewhere''), c)
      else (Inr verge_transaction, c\<lparr>cw_claims := VergeLayer # cw_claims c\<rparr>))"
  by (simp add: begin_transaction_def transaction_begin_def verge_transaction_def config_layer_of_def layer_text_def)

lemma drop_verge: "transaction_drop verge_transaction c =
    c\<lparr>cw_verge := view_discard (cw_verge c), cw_claims := removeAll VergeLayer (cw_claims c)\<rparr>"
  by (simp add: transaction_drop_def verge_transaction_def config_layer_of_def)

lemma commit_verge: "transaction_commit verge_transaction c =
    c\<lparr>cw_verge := view_apply (cw_verge c), cw_claims := removeAll VergeLayer (cw_claims c)\<rparr>"
  by (simp add: transaction_commit_def transaction_drop_def verge_transaction_def config_layer_of_def)

lemma tell_config [simp]: "st_config (tell env e w) = st_config w" "st_hotkeys (tell env e w) = st_hotkeys w"
  by (simp_all add: tell_def outside_def Let_def)

text \<open>How a patch may end.\<close>

definition patched_view :: "config_env \<Rightarrow> iverge \<Rightarrow> config_world \<Rightarrow> iverge draft_view" where
  "patched_view env patch c = (Verge.patch_config (plat (ce_core env)) patch (view_latest (cw_verge c)), None)"

lemma patch_result:
  assumes run: "apply_verge_patch_locked env patch not_save_file w = (r, w')" and free: "cells_free (st_config w)"
  obtains (claimed) "VergeLayer \<in> set (cw_claims (st_config w))" "\<not> is_ok r" "w' = w"
  | (refused) v e where "VergeLayer \<notin> set (cw_claims (st_config w))" "r = Inl e"
      "process_terminated_flags env (determine_update_flags (plat (ce_core (sv_config env))) patch) patch
         (w\<lparr>st_config := edit_verge (Verge.patch_config (plat (ce_core (sv_config env))) patch)
           ((st_config w)\<lparr>cw_claims := VergeLayer # cw_claims (st_config w)\<rparr>)\<rparr>) = (Inl e, v)"
      "w' = drop_transaction verge_transaction v"
      "cw_verge (st_config w') = view_discard (cw_verge (st_config w))"
      "cw_clash (st_config w') = cw_clash (st_config w)" "cw_claims (st_config w') = cw_claims (st_config w)"
  | (landed) "VergeLayer \<notin> set (cw_claims (st_config w))"
      "cw_verge (st_config w') = patched_view (sv_config env) patch (st_config w)"
      "cw_clash (st_config w') = cw_clash (st_config w)" "cw_claims (st_config w') = cw_claims (st_config w)"
      "not_save_file \<Longrightarrow> r = Inr ()"
      "\<not> not_save_file \<Longrightarrow> r = Inr () \<Longrightarrow> \<exists>content. verge_bytes (sv_config env) (fst (cw_verge (st_config w'))) = Inr content
         \<and> cw_verge_file (st_config w') = Some content"
proof (cases "VergeLayer \<in> set (cw_claims (st_config w))")
  case True
  then have "in_config (begin_transaction [VergeLayer]) w = (Inl (bail ''configuration layer IVerge is being changed elsewhere''), w)"
    by (simp add: in_config_def begin_verge)
  with run have "r = Inl (bail ''configuration layer IVerge is being changed elsewhere'')" "w' = w"
    by (simp_all add: apply_verge_patch_locked_def try_then_def)
  with True claimed show thesis by simp
next
  case False
  let ?p = "plat (ce_core (sv_config env))"
  let ?c = "edit_verge (Verge.patch_config ?p patch) ((st_config w)\<lparr>cw_claims := VergeLayer # cw_claims (st_config w)\<rparr>)"
  let ?w = "w\<lparr>st_config := ?c\<rparr>"
  obtain q v where pr: "process_terminated_flags env (determine_update_flags ?p patch) patch ?w = (q, v)" by fastforce
  have cf: "cells_free (st_config ?w)" using free by (simp add: cells_free_def edit_verge_def)
  have k: "kept ?c (st_config v)" using keepingD [OF process_keeping pr cf] by simp
  obtain committed staged where cv: "cw_verge (st_config w) = (committed, staged)" by fastforce
  have vv: "cw_verge (st_config v) = (committed, Some (Verge.patch_config ?p patch (view_latest (cw_verge (st_config w)))))"
    "cw_clash (st_config v) = cw_clash (st_config w)" "removeAll VergeLayer (cw_claims (st_config v)) = cw_claims (st_config w)"
    using k cv False by (simp_all add: kept_def edit_verge_def view_edit_def removeAll_id)
  have run': "(case (q, v) of (Inl e, w) \<Rightarrow> (Inl e, drop_transaction verge_transaction w)
      | (Inr _, w) \<Rightarrow> (let w = w\<lparr>st_config := transaction_commit verge_transaction (st_config w)\<rparr>;
          w = tell env RefreshBackup (tell env RefreshVerge w)
        in if not_save_file then (Inr (), w) else in_config (save_verge (sv_config env)) w)) = (r, w')"
    using run False pr by (simp add: apply_verge_patch_locked_def in_config_def begin_verge try_then_def Let_def)
  show thesis
  proof (cases q)
    case (Inl e)
    with run' have r: "r = Inl e" "w' = drop_transaction verge_transaction v" by simp_all
    show thesis
      by (rule refused [OF False r(1) pr [unfolded Inl] r(2)]) (use r vv cv in \<open>simp_all add: drop_transaction_def drop_verge\<close>)
  next
    case (Inr u)
    let ?v = "tell env RefreshBackup (tell env RefreshVerge (v\<lparr>st_config := transaction_commit verge_transaction (st_config v)\<rparr>))"
    have c: "cw_verge (st_config ?v) = patched_view (sv_config env) patch (st_config w)" "cw_clash (st_config ?v) = cw_clash (st_config w)"
      "cw_claims (st_config ?v) = cw_claims (st_config w)"
      using vv by (simp_all add: commit_verge patched_view_def)
    show thesis
    proof (cases not_save_file)
      case True
      with run' Inr have "r = Inr ()" "w' = ?v" by simp_all
      with landed False c True show thesis by simp
    next
      case save: False
      obtain q3 c3 where s: "save_verge (sv_config env) (st_config ?v) = (q3, c3)" by fastforce
      with run' Inr save have r: "r = q3" "st_config w' = c3" by (auto simp: in_config_def Let_def)
      note sr = save_source_result [OF s [unfolded save_verge_def]]
      have "kept (st_config ?v) c3" by (rule quiet_kept [OF sr(1)])
      with landed False c save r sr(2) show thesis by (simp add: kept_def file_of_def)
    qed
  qed
qed


text \<open>
  A patch of the hotkeys alone that fails because the menu of the tray cannot be rebuilt keeps the old settings, but
  the new hotkeys stay registered: only the settings are rolled back.
\<close>

theorem failed_patch_keeps_new_hotkeys:
  assumes free: "VergeLayer \<notin> set (cw_claims (st_config w))"
    and hot: "update_hotkeys (sv_hotkeys env) new (st_hotkeys w) = (Inr (), h)"
    and menu: "sv_outside env (st_clock w) TrayMenu = Inl e"
  shows "\<exists>w'. apply_verge_patch_locked env (iverge_default\<lparr>hotkeys := Some new\<rparr>) not_save_file w = (Inl e, w')
    \<and> cw_verge (st_config w') = view_discard (cw_verge (st_config w)) \<and> st_hotkeys w' = h"
proof -
  let ?patch = "iverge_default\<lparr>hotkeys := Some new\<rparr>"
  have flags: "determine_update_flags p ?patch = {HOTKEY, SYSTRAY_MENU}" for p
    by (simp add: determine_update_flags_def restart_core_needed_def flags_if_def iverge_default_def insert_commute)
  have hs: "hotkeys ?patch = Some new" by simp
  obtain committed staged where cv: "cw_verge (st_config w) = (committed, staged)" by fastforce
  show ?thesis
    using free hot menu cv
    by (simp add: apply_verge_patch_locked_def in_config_def begin_verge try_then_def Let_def flags hs process_terminated_flags_def
        when_flagged_def in_hotkeys_def outside_def drop_transaction_def drop_verge edit_verge_def view_edit_def)
qed

subsection \<open>The configuration of the core\<close>

lemma save_clash_kept:
  assumes "save_clash env c = (r, c')"
  shows "kept c c'"
  using save_source_result(1) [OF assms [unfolded save_clash_def]] by (rule quiet_kept)


subsection \<open>Toggles\<close>

lemma patch_system_proxy:
  "enable_system_proxy (Verge.patch_config p patch s) = patched (enable_system_proxy patch) (enable_system_proxy s)"
  by (simp add: Verge.patch_config_def)

lemma toggled_patch: "enable_tun_mode (iverge_default\<lparr>enable_system_proxy := x\<rparr>) = None"
  "enable_system_proxy (iverge_default\<lparr>enable_system_proxy := x\<rparr>) = x"
  by (simp_all add: iverge_default_def)

text \<open>A toggle of the system proxy that reports a state has committed exactly that state, and an isolated process
  never changes it.\<close>

theorem toggle_reports_committed_state:
  assumes run: "toggle_system_proxy env w = (reported, w')" and free: "cells_free (st_config w)"
  shows "(reported = Some on \<longrightarrow> enable_system_proxy (fst (cw_verge (st_config w'))) = Some on
        \<and> on = (\<not> unwrap_or False (enable_system_proxy (view_latest (cw_verge (st_config w))))))
    \<and> (sv_writes_disabled env \<longrightarrow> reported = None \<and> st_config w' = st_config w)"
proof -
  let ?old = "unwrap_or False (enable_system_proxy (view_latest (cw_verge (st_config w))))"
  define patch where "patch = iverge_default\<lparr>enable_system_proxy := Some (\<not> ?old)\<rparr>"
  define w1 where "w1 = (if ?old \<and> unwrap_or False (auto_close_connection (view_latest (cw_verge (st_config w)))) then tell env CloseConnections w else w)"
  have conf: "st_config w1 = st_config w" by (simp add: w1_def)
  have tun: "enable_tun_mode patch = None" and proxy: "enable_system_proxy patch = Some (\<not> ?old)"
    by (simp_all only: patch_def toggled_patch)
  obtain r v where p: "patch_verge env patch False w1 = (r, v)" by fastforce
  have a: "reported = (if is_ok r then Some (\<not> ?old) else None)" "w' = v"
    using run p unfolding toggle_system_proxy_def Let_def patch_def [symmetric] w1_def [symmetric] by simp_all
  show ?thesis
  proof (cases "sv_writes_disabled env")
    case True
    with p proxy have "\<not> is_ok r" "v = w1" by (auto simp: patch_verge_def)
    with a True conf show ?thesis by simp
  next
    case False
    obtain r2 v2 where l: "apply_verge_patch_locked env patch False w1 = (r2, v2)" by fastforce
    have r: "is_ok r = is_ok r2" "is_ok r \<Longrightarrow> v = v2"
      using p False l tun by (cases r2; simp add: patch_verge_def apply_verge_patch_def try_then_def)+
    have "cw_verge (st_config v2) = patched_view (sv_config env) patch (st_config w1)" if "is_ok r2"
      using l free [folded conf] by (rule patch_result) (use that in simp_all)
    moreover have "enable_system_proxy (fst (patched_view (sv_config env) patch (st_config w1))) = Some (\<not> ?old)"
      by (simp add: patched_view_def patch_system_proxy proxy Patching.patched_def)
    ultimately show ?thesis using a r False by auto
  qed
qed

subsection \<open>An example\<close>

definition demo_settings_env :: "bool \<Rightarrow> string settings_env" where
  "demo_settings_env disabled = \<lparr>sv_config = demo_config_env\<lparr>ce_exiting := (\<lambda>_. True)\<rparr>, sv_hotkeys = sample_hotkeys,
     sv_outside = (\<lambda>_ e. if e = TrayMenu then Inl (bail ''no tray'') else Inr ()), sv_writes_disabled = disabled,
     sv_dns_file = (\<lambda>_. Inr [])\<rparr>"

definition demo_settings_world :: "string settings_world" where
  "demo_settings_world = \<lparr>st_config = demo_config_world, st_hotkeys = sample_hotkeys_world, st_disabling_tun = False,
     st_clock = 0, st_effects = []\<rparr>"

lemma demo_free: "cells_free (st_config demo_settings_world)" "VergeLayer \<notin> set (cw_claims (st_config demo_settings_world))"
  by (simp_all add: cells_free_def demo_settings_world_def)


theorem failed_patch_keeps_new_hotkeys_witness:
  "\<exists>w'. apply_verge_patch_locked (demo_settings_env False) (iverge_default\<lparr>hotkeys := Some [''toggle_tun_mode,B'']\<rparr>) False demo_settings_world
       = (Inl (bail ''no tray''), w')
     \<and> held sample_hotkeys (st_hotkeys w') ''B'' = Some ToggleTunMode"
proof -
  obtain h where h: "update_hotkeys sample_hotkeys [''toggle_tun_mode,B''] sample_hotkeys_world = (Inr (), h)" "held sample_hotkeys h ''B'' = Some ToggleTunMode"
    using sample_hotkey_change by blast
  have "update_hotkeys (sv_hotkeys (demo_settings_env False)) [''toggle_tun_mode,B''] (st_hotkeys demo_settings_world) = (Inr (), h)"
    using h by (simp add: demo_settings_env_def demo_settings_world_def)
  moreover have "sv_outside (demo_settings_env False) (st_clock demo_settings_world) TrayMenu = Inl (bail ''no tray'')"
    by (simp add: demo_settings_env_def)
  ultimately have "\<exists>w'. apply_verge_patch_locked (demo_settings_env False) (iverge_default\<lparr>hotkeys := Some [''toggle_tun_mode,B'']\<rparr>) False
      demo_settings_world = (Inl (bail ''no tray''), w') \<and> cw_verge (st_config w') = view_discard (cw_verge (st_config demo_settings_world))
    \<and> st_hotkeys w' = h"
    by (rule failed_patch_keeps_new_hotkeys [OF demo_free(2)])
  with h(2) show ?thesis by blast
qed

lemma exiting_update:
  "update_config_checked (sv_config (demo_settings_env d)) c = (Inl (bail (show_outcome (Skipped Exiting))), c)"
  by (simp add: update_config_checked_def update_config_forced_def update_config_with_force_def try_then_def demo_settings_env_def
      is_valid_outcome_def)

lemma get_mode:
  "get [(Str ''mode'', v)] ''mode'' = Some v" "get [(Str ''mode'', v)] ''secret'' = None"
  "get [(Str ''mode'', v)] ''external-controller'' = None" "get [(Str ''mode'', v)] ''allow-lan'' = None"
  by (simp_all add: get_def)


theorem toggle_reports_committed_state_witness:
  "\<exists>w'. toggle_system_proxy (demo_settings_env True) demo_settings_world = (None, w') \<and> st_config w' = demo_config_world"
proof -
  obtain reported w' where run: "toggle_system_proxy (demo_settings_env True) demo_settings_world = (reported, w')" by fastforce
  have "sv_writes_disabled (demo_settings_env True)" by (simp add: demo_settings_env_def)
  with toggle_reports_committed_state [OF run demo_free(1)] run show ?thesis by (auto simp: demo_settings_world_def)
qed

end
