(* ===== verification/ProfileSwitchProps.thy ===== *)
theory ProfileSwitchProps
  imports ProfileSwitch SettingsPatchProps
begin

section \<open>What a change of profiles guarantees\<close>

text \<open>
  A task that runs alone (\<open>alone\<close>) sees nobody else commit profiles.  The first lemmas say what the small steps keep;
  then a switch and a deletion are all or nothing, an update keeps what the user set, and a switch that
  fails overwrites what others committed while it went back.
\<close>

subsection \<open>Small steps\<close>

definition alone :: "'u profiles_env \<Rightarrow> bool" where
  "alone env \<longleftrightarrow> (\<forall>t. pv_others env t = id \<and> pv_applied env t = None)"

lemma cell_simps [simp]:
  "profiles_cell (set_cell v w) = v" "profiles_cell (pass w) = profiles_cell w"
  "profiles_cell (note_profiles e w) = profiles_cell w" "profiles_cell (w\<lparr>pw_switching := b\<rparr>) = profiles_cell w"
  "profiles_cell (w\<lparr>pw_files := fs\<rparr>) = profiles_cell w"
  "set_cell (profiles_cell w) w = w"
  by (simp_all add: profiles_cell_def set_cell_def pass_def note_profiles_def)

lemma step_simps [simp]:
  "pw_config (pass w) = pw_config w" "pw_config (note_profiles e w) = pw_config w"
  "pw_config (set_cell v w) = (pw_config w)\<lparr>cw_profiles := v\<rparr>"
  "pw_files (pass w) = pw_files w" "pw_files (note_profiles e w) = pw_files w" "pw_files (set_cell v w) = pw_files w"
  "pw_switching (pass w) = pw_switching w" "pw_switching (note_profiles e w) = pw_switching w"
  "pw_switching (set_cell v w) = pw_switching w"
  "pw_tick (note_profiles e w) = pw_tick w" "pw_tick (set_cell v w) = pw_tick w" "pw_tick (pass w) = Suc (pw_tick w)"
  "pw_app_running (pass w) = pw_app_running w" "pw_events (pass w) = pw_events w" "pw_events (set_cell v w) = pw_events w"
  "pw_events (note_profiles e w) = pw_events w @ [e]"
  by (simp_all add: set_cell_def pass_def note_profiles_def)

lemma others_alone: "alone env \<Longrightarrow> others_commit env w = pass w"
  by (simp add: others_commit_def alone_def split: prod.split)

lemma modify_alone:
  assumes "alone env" and "f (fst (profiles_cell w)) (pass w) = (r, v)"
  shows "with_profiles_modify_dropping env dropped f w = (case r of Inl e \<Rightarrow> (Inl e, pass v)
    | Inr (new, x) \<Rightarrow> (Inr x, set_cell (new, snd (profiles_cell v)) (pass v)))"
  using assms by (simp add: with_profiles_modify_dropping_def others_alone alone_def split: sum.split)

text \<open>What the core runs on: the configuration built from these profiles, in force and in the run file.\<close>

definition runs_on :: "'u profiles_env \<Rightarrow> iprofiles \<Rightarrow> config_world \<Rightarrow> bool" where
  "runs_on env ps c \<longleftrightarrow> (\<exists>c1. built_from (pv_config env) ps c1 \<and> cw_runtime c = cw_runtime c1 \<and> cw_run_file c = cw_run_file c1)"

definition same_runtime :: "config_world \<Rightarrow> config_world \<Rightarrow> bool" where
  "same_runtime c c' \<longleftrightarrow> cw_runtime c' = cw_runtime c \<and> cw_run_file c' = cw_run_file c"

lemma same_runtime_refl [simp]: "same_runtime c c"
  and same_runtime_trans: "same_runtime a b \<Longrightarrow> same_runtime b c \<Longrightarrow> same_runtime a c"
  by (simp_all add: same_runtime_def)

lemma runs_on_same: "runs_on env ps c \<Longrightarrow> same_runtime c c' \<Longrightarrow> runs_on env ps c'"
  by (auto simp: runs_on_def same_runtime_def)

lemma runs_on_built: "built_from (pv_config env) ps c \<Longrightarrow> runs_on env ps c"
  by (auto simp: runs_on_def)

text \<open>Steps that touch neither the profiles nor what the core runs on.\<close>

definition aside :: "profiles_world \<Rightarrow> profiles_world \<Rightarrow> bool" where
  "aside w w' \<longleftrightarrow> profiles_cell w' = profiles_cell w \<and> same_runtime (pw_config w) (pw_config w')
     \<and> pw_files w' = pw_files w \<and> cw_profiles_file (pw_config w') = cw_profiles_file (pw_config w)"

lemma aside_refl [simp]: "aside w w" and aside_trans: "aside a b \<Longrightarrow> aside b c \<Longrightarrow> aside a c"
  by (auto simp: aside_def intro: same_runtime_trans)

lemma aside_steps [simp]: "aside w (pass w)" "aside w (note_profiles e w)" "aside w (notify_uid u w)"
  by (simp_all add: aside_def notify_uid_def split: option.split)

lemma save_verge_aside:
  assumes "save_verge c v = (r, v')"
  shows "cw_profiles v' = cw_profiles v" "same_runtime v v'" "cw_profiles_file v' = cw_profiles_file v"
  using assms by (auto simp: save_verge_def save_source_def same_runtime_def ctick_def set_file_def Let_def split: sum.splits prod.splits)

lemma sync_dns_aside: "aside w (snd (sync_dns_now env w))"
proof (cases "rt_dns_override (fst (cw_runtime (pw_config w)))")
  case (Some st)
  let ?c = "pw_config w"
  obtain committed staged where v: "cw_verge ?c = (committed, staged)" by fastforce
  obtain changed new where a: "apply_to st (unwrap_or committed staged) = (changed, new)" by fastforce
  show ?thesis
  proof (cases "VergeLayer \<in> set (cw_claims ?c) \<or> \<not> changed")
    case True
    with Some v a show ?thesis
      by (auto simp: sync_dns_now_def on_config_def begin_verge drop_verge try_then_def view_edit_def aside_def profiles_cell_def
          same_runtime_def Let_def)
  next
    case False
    define c1 where "c1 = ?c\<lparr>cw_claims := VergeLayer # cw_claims ?c, cw_verge := (committed, Some new)\<rparr>"
    define c2 where "c2 = transaction_commit verge_transaction c1"
    obtain q c3 where s: "save_verge (pv_config env) c2 = (q, c3)" by fastforce
    have "pw_config (snd (sync_dns_now env w)) = c3" "pw_files (snd (sync_dns_now env w)) = pw_files w"
      using False Some v a s
      by (simp_all add: sync_dns_now_def on_config_def begin_verge try_then_def view_edit_def Let_def c1_def c2_def)
    moreover have "cw_profiles c2 = cw_profiles ?c" "same_runtime ?c c2" "cw_profiles_file c2 = cw_profiles_file ?c"
      by (simp_all add: c2_def c1_def commit_verge same_runtime_def)
    ultimately show ?thesis
      using save_verge_aside [OF s] same_runtime_trans by (auto simp: aside_def profiles_cell_def)
  qed
qed (simp add: sync_dns_now_def)

lemma latest_pair [simp]: "view_latest (c, Some d) = d" "view_latest (c, None) = c"
  by simp_all

lemma patch_keeps: "current p = Some u \<Longrightarrow> current (profiles_patch_config (with_current u) p) = current p
    \<and> item_list (profiles_patch_config (with_current u) p) = item_list p"
  by (simp add: profiles_patch_config_def with_current_def iprofiles_default_def item_list_def)

subsection \<open>Switching\<close>

text \<open>Saving the profiles while nobody else commits.\<close>

lemma save_alone:
  assumes "alone env" and "profiles_save_file_safe env w = (r, w')"
  shows "profiles_cell w' = profiles_cell w" "same_runtime (pw_config w) (pw_config w')" "pw_files w' = pw_files w"
    "pw_switching w' = pw_switching w" "is_ok r \<Longrightarrow> cw_profiles_file (pw_config w') = Some (fst (profiles_cell w))"
    "\<not> is_ok r \<Longrightarrow> cw_profiles_file (pw_config w') = cw_profiles_file (pw_config w)"
proof -
  let ?a = "save_answer env (pass w) (fst (profiles_cell w))"
  let ?v = "if is_ok ?a then w\<lparr>pw_config := (pw_config w)\<lparr>cw_profiles_file := Some (fst (profiles_cell w))\<rparr>\<rparr> else w"
  have v: "profiles_cell ?v = profiles_cell w" "same_runtime (pw_config w) (pw_config ?v)" "pw_files ?v = pw_files w"
    "pw_switching ?v = pw_switching w"
    by (simp_all add: profiles_cell_def same_runtime_def)
  have "profiles_cell w' = profiles_cell w \<and> same_runtime (pw_config w) (pw_config w') \<and> pw_files w' = pw_files w
    \<and> pw_switching w' = pw_switching w \<and> is_ok r = is_ok ?a \<and> cw_profiles_file (pw_config w') = cw_profiles_file (pw_config ?v)"
    using assms v
    by (cases ?a)
      (auto simp: profiles_save_file_safe_def with_profiles_modify_def modify_alone run_edit_def same_runtime_def profiles_cell_def set_cell_def pass_def)
  then show "profiles_cell w' = profiles_cell w" "same_runtime (pw_config w) (pw_config w')" "pw_files w' = pw_files w"
    "pw_switching w' = pw_switching w" "is_ok r \<Longrightarrow> cw_profiles_file (pw_config w') = Some (fst (profiles_cell w))"
    "\<not> is_ok r \<Longrightarrow> cw_profiles_file (pw_config w') = cw_profiles_file (pw_config w)"
    by simp_all
qed

text \<open>A switch that goes through.\<close>

lemma success_alone:
  assumes "alone env" and "handle_success env new_current w = (r, w')"
  shows "r = Inr Valid" "same_runtime (pw_config w) (pw_config w')"
    "profiles_cell w' = ((case new_current of Some u \<Rightarrow> profiles_patch_config (with_current u) (fst (profiles_cell w))
       | None \<Rightarrow> fst (profiles_cell w)), None)"
proof -
  let ?new = "case new_current of Some u \<Rightarrow> profiles_patch_config (with_current u) (fst (profiles_cell w)) | None \<Rightarrow> fst (profiles_cell w)"
  obtain q v where c: "commit_current_profile env new_current w = (q, v)" by fastforce
  have v: "q = Inr ()" "profiles_cell v = (?new, None)" "same_runtime (pw_config w) (pw_config v)"
    using assms(1) c
    by (cases "profiles_cell w"; cases new_current;
        force simp: commit_current_profile_def discard_profiles_def with_profiles_modify_def modify_alone same_runtime_def)+
  obtain q2 v2 where s: "profiles_save_file_safe env (note_profiles ActivateNodes v) = (q2, v2)" by fastforce
  note S = save_alone [OF assms(1) s]
  define v3 where "v3 = (case new_current of Some c \<Rightarrow> if pv_window env (pw_tick v2) then note_profiles (NotifyProfile c) v2 else v2 | None \<Rightarrow> v2)"
  have v3: "profiles_cell v3 = profiles_cell v2" "pw_config v3 = pw_config v2"
    by (simp_all add: v3_def split: option.split)
  have w': "r = Inr Valid" "w' = snd (sync_dns_now env v3)"
    using assms(2) c v(1) s by (auto simp: handle_success_def logged_def v3_def)
  note D = sync_dns_aside [of v3 env, folded w'(2), unfolded aside_def]
  show "r = Inr Valid" by (fact w')
  show "profiles_cell w' = (?new, None)" using D S(1) v(2) v3 by simp
  show "same_runtime (pw_config w) (pw_config w')"
    using v(3) S(2) v3 D same_runtime_trans by (metis step_simps(2))
qed

text \<open>Going back puts the previous profile on what was committed when the draft was made, whatever others commit then.\<close>

lemma restore_cell:
  assumes "snd (profiles_cell w) = None"
  shows "profiles_cell (restore_previous_profile env prev w) = (profiles_patch_config (with_current prev) (fst (profiles_cell w)), None)"
    "same_runtime (pw_config w) (pw_config (restore_previous_profile env prev w))"
  using assms
  by (cases "profiles_cell w"; simp add: restore_previous_profile_def edit_profiles_def others_commit_def view_edit_def same_runtime_def)+

lemma back_cell:
  "profiles_cell (discard_and_restore env prev w) = ((case prev of Some u \<Rightarrow> profiles_patch_config (with_current u) (fst (profiles_cell w))
     | None \<Rightarrow> fst (profiles_cell w)), None)"
  "same_runtime (pw_config w) (pw_config (discard_and_restore env prev w))"
  using restore_cell [of "discard_profiles w" env "the prev"]
  by (cases "profiles_cell w"; cases prev; simp add: discard_and_restore_def discard_profiles_def same_runtime_def)+

lemma force_profiles:
  assumes "on_config (update_config_forced c) w = (r, w')" and "cells_free (pw_config w)"
  shows "profiles_cell w' = profiles_cell w" "w' = w\<lparr>pw_config := pw_config w'\<rparr>"
    "update_ok r \<Longrightarrow> built_from c (view_latest (profiles_cell w)) (pw_config w')"
    "\<not> update_ok r \<Longrightarrow> fst (cw_runtime (pw_config w')) = fst (cw_runtime (pw_config w))"
proof -
  obtain c' where u: "update_config_with_force c True (pw_config w) = (r, c')" and w': "w' = w\<lparr>pw_config := c'\<rparr>"
    using assms(1) by (auto simp: on_config_def update_config_forced_def split: prod.splits)
  note F = update_force_facts [OF u assms(2) [unfolded cells_free_def]]
  show "profiles_cell w' = profiles_cell w" "w' = w\<lparr>pw_config := pw_config w'\<rparr>"
    using F by (simp_all add: w' profiles_cell_def same_sources_def)
  show "update_ok r \<Longrightarrow> built_from c (view_latest (profiles_cell w)) (pw_config w')"
    "\<not> update_ok r \<Longrightarrow> fst (cw_runtime (pw_config w')) = fst (cw_runtime (pw_config w))"
    using F by (simp_all add: w' profiles_cell_def)
qed

definition valid_answer :: "command_failure + validation_outcome \<Rightarrow> bool" where
  "valid_answer r \<longleftrightarrow> (\<exists>outcome. r = Inr outcome \<and> is_valid_outcome outcome)"

text \<open>The staged profiles, and what a switch does once it is under way.\<close>

lemma staged_cell: "profiles_cell (edit_profiles patch w) = (fst (profiles_cell w), Some (profiles_patch_config patch (view_latest (profiles_cell w))))"
  "pw_config (edit_profiles patch w) = (pw_config w)\<lparr>cw_profiles := profiles_cell (edit_profiles patch w)\<rparr>"
  "pw_tick (edit_profiles patch w) = pw_tick w"
  by (simp_all add: edit_profiles_def view_edit_def)


text \<open>
  C25: a switch that fails overwrites what others commit while it goes back.  The previous profile is put on the list as it
  was when the draft was made, at the second tick; what another task commits at the third, before the draft is
  applied, is lost, although the way of a successful switch keeps it.
\<close>

theorem failed_switch_overwrites_concurrent_edit:
  fixes w :: profiles_world
  defines "t \<equiv> pw_tick w"
  assumes idle: "\<not> pw_app_running w" "\<not> pw_switching w" and free: "cells_free (pw_config w)"
    and update: "on_config (update_config_forced (pv_config env)) (edit_profiles patch (others_commit env (w\<lparr>pw_switching := True\<rparr>))) = (u, w1)"
    and failed: "\<not> update_ok u"
    and prev: "current (pv_others env t (fst (profiles_cell w))) = Some prev"
  shows "fst (profiles_cell (snd (patch_profiles_config env patch w)))
    = profiles_patch_config (with_current prev) (pv_others env (Suc t) (pv_others env t (fst (profiles_cell w))))"
proof -
  let ?w0 = "edit_profiles patch (others_commit env (w\<lparr>pw_switching := True\<rparr>))"
  let ?p = "pv_others env t (fst (profiles_cell w))"
  have o: "profiles_cell (others_commit env (w\<lparr>pw_switching := True\<rparr>)) = (?p, snd (profiles_cell w))"
    by (simp add: others_commit_def t_def split: prod.split)
  have tick: "pw_tick ?w0 = Suc t" by (simp add: staged_cell others_commit_def t_def split: prod.split)
  have "cells_free (pw_config ?w0)"
    using free by (simp add: staged_cell others_commit_def cells_free_def split: prod.split)
  note F = force_profiles [OF update this]
  have w1: "fst (profiles_cell w1) = ?p" "pw_tick w1 = Suc t"
    using F(1) o tick arg_cong [where f = pw_tick, OF F(2)] by (simp_all add: staged_cell)
  obtain c d where cd: "profiles_cell w1 = (c, d)" by fastforce
  have restored: "fst (profiles_cell (discard_and_restore env (Some prev) (others_commit env w1)))
      = profiles_patch_config (with_current prev) (pv_others env (Suc t) ?p)"
    using back_cell(1) [of env "Some prev" "others_commit env w1"] w1 cd by (simp add: others_commit_def)
  obtain r w2 where s: "perform_switch env (current patch) (Some prev) ?w0 = (r, w2)" by fastforce
  have "profiles_cell w2 = profiles_cell (discard_and_restore env (Some prev) (others_commit env w1))"
    using s failed update
    by (auto simp: perform_switch_def update_ok_def handle_validation_failure_def handle_update_error_def split: sum.splits if_splits)
  moreover have "snd (patch_profiles_config env patch w) = w2"
    using idle s prev o by (simp add: patch_profiles_config_def Let_def)
  ultimately show ?thesis using restored by simp
qed

subsection \<open>Updating\<close>

definition fetched :: "profiles_world \<Rightarrow> fetch_proxy list" where
  "fetched w = List.map_filter (\<lambda>e. case e of Fetched _ p \<Rightarrow> Some p | _ \<Rightarrow> None) (pw_events w)"

lemma fetched_simps [simp]:
  "fetched (pass w) = fetched w" "fetched (set_cell v w) = fetched w"
  "fetched (note_profiles (Fetched u p) w) = fetched w @ [p]"
  "fetched (note_profiles (NoticeMessage a b) w) = fetched w"
  by (simp_all add: fetched_def List.map_filter_def)

text \<open>The profile stays where it is found, and nothing is fetched.\<close>

definition undisturbed :: "string \<Rightarrow> profiles_world \<Rightarrow> profiles_world \<Rightarrow> bool" where
  "undisturbed uid w w' \<longleftrightarrow> fetched w' = fetched w
     \<and> (\<forall>x. get_item (fst (profiles_cell w)) uid = Inr x \<longrightarrow> get_item (fst (profiles_cell w')) uid = Inr x)"

lemma undisturbed_refl [simp]: "undisturbed uid w w" "undisturbed uid w (pass w)"
  and undisturbed_trans: "undisturbed uid a b \<Longrightarrow> undisturbed uid b c \<Longrightarrow> undisturbed uid a c"
  by (simp_all add: undisturbed_def)

lemma undisturbed_same: "profiles_cell w' = profiles_cell w \<Longrightarrow> fetched w' = fetched w \<Longrightarrow> undisturbed uid w w'"
  by (simp add: undisturbed_def)

lemma find_append: "find P (xs @ ys) = (case find P xs of Some x \<Rightarrow> Some x | None \<Rightarrow> find P ys)"
  by (induction xs) simp_all

lemma append_finds: "get_item p uid = Inr x \<Longrightarrow> get_item (append_listed p item) uid = Inr x"
  by (auto simp: get_item_def append_listed_def item_list_def find_append Let_def split: option.splits if_splits)

lemma file_effects: "fetched (fold (file_effect ok) es w) = fetched w \<and> profiles_cell (fold (file_effect ok) es w) = profiles_cell w"
proof (induction es arbitrary: w)
  case (Cons e es)
  have "fetched (file_effect ok e w) = fetched w \<and> profiles_cell (file_effect ok e w) = profiles_cell w"
    by (cases e) (simp_all add: fetched_def profiles_cell_def)
  with Cons show ?case by simp
qed simp

lemma run_edit_simps:
  assumes "run_edit (r, p, es) w = (q, w')"
  shows "q = map_sum bail (\<lambda>_. (p, ())) r" "fetched w' = fetched w" "profiles_cell w' = profiles_cell w"
  using assms file_effects [of "is_ok r" es w] by (auto simp: run_edit_def)

text \<open>An edit of the list by a task that runs alone.\<close>

lemma edit_alone:
  assumes "alone env" and "with_profiles_modify env (\<lambda>p v. run_edit (edit p v) v) w = (r, w')"
    and "edit (fst (profiles_cell w)) (pass w) = (a, p, es)"
  shows "fetched w' = fetched w" "is_ok r = is_ok a"
    "profiles_cell w' = (if is_ok a then (p, snd (profiles_cell w)) else profiles_cell w)"
proof -
  obtain q v where e: "run_edit (a, p, es) (pass w) = (q, v)" by fastforce
  note E = run_edit_simps [OF e]
  have "with_profiles_modify env (\<lambda>p v. run_edit (edit p v) v) w = (case q of Inl e \<Rightarrow> (Inl e, pass v)
    | Inr (new, x) \<Rightarrow> (Inr x, set_cell (new, snd (profiles_cell v)) (pass v)))"
    unfolding with_profiles_modify_def by (rule modify_alone [OF assms(1)]) (simp add: assms(3) e)
  with assms(2) E show "fetched w' = fetched w" "is_ok r = is_ok a"
    "profiles_cell w' = (if is_ok a then (p, snd (profiles_cell w)) else profiles_cell w)"
    by (cases a; auto)+
qed

lemma append_item_ok: "append_item dir store item p0 = (Inr u, p, i, es) \<Longrightarrow> \<exists>item. p = append_listed p0 item"
  by (auto simp: append_item_def Let_def split: if_splits option.splits sum.splits)

lemma append_undisturbed:
  assumes "alone env" and "profiles_append_item_safe env item w = (r, w')"
  shows "undisturbed uid w w'"
proof -
  let ?w = "pass w"
  obtain a p i es where e: "append_item (pv_dir env (pw_tick ?w)) (pv_write env (pw_tick ?w)) item (fst (profiles_cell w)) = (a, p, i, es)"
    by (metis prod_cases4)
  note E = edit_alone [OF assms(1) assms(2) [unfolded profiles_append_item_safe_def profiles_append_item_to_safe_def], of a p es]
  have "is_ok a \<Longrightarrow> \<exists>item. p = append_listed (fst (profiles_cell w)) item"
    using e append_item_ok by (cases a) fastforce+
  with E e append_finds show ?thesis by (auto simp: undisturbed_def)
qed

lemma attach_undisturbed:
  assumes "alone env" and "attach env build given w = (r, w')" and "\<And>v. undisturbed uid v (snd (build v))"
  shows "undisturbed uid w w'"
proof (cases "given = None")
  case True
  obtain item v where b: "build w = (item, v)" by fastforce
  obtain q v2 where a: "profiles_append_item_safe env item v = (q, v2)" by fastforce
  have "w' = v2" using assms(2) True b a by (cases q) (auto simp: attach_def try_then_def)
  with undisturbed_trans [OF _ append_undisturbed [OF assms(1) a], of uid w] assms(3) [of w] b show ?thesis by simp
qed (use assms(2) in \<open>simp add: attach_def\<close>)

lemma builders_undisturbed:
  "undisturbed uid v (snd (from_merge env None v))" "undisturbed uid v (snd (from_script env None v))"
  "undisturbed uid v (snd (from_rules env v))" "undisturbed uid v (snd (from_proxies env v))"
  "undisturbed uid v (snd (from_groups env v))"
  by (simp_all add: from_merge_def from_script_def from_rules_def from_proxies_def from_groups_def get_uid_def)

definition route_options :: "item_option \<Rightarrow> string option \<times> bool option \<times> bool option \<times> u64 option \<times> bool option" where
  "route_options o1 = (user_agent o1, with_proxy o1, self_proxy o1, timeout_seconds o1, danger_accept_invalid_certs o1)"

lemma attach_all_result:
  assumes alone: "alone env" and run: "attach_all env given opts w = (r, w')"
  shows "undisturbed uid w w'" "r = Inr o1 \<Longrightarrow> route_options o1 = route_options opts"
proof -
  note T = attach_undisturbed [OF alone _ builders_undisturbed(1)] attach_undisturbed [OF alone _ builders_undisturbed(2)]
    attach_undisturbed [OF alone _ builders_undisturbed(3)] attach_undisturbed [OF alone _ builders_undisturbed(4)]
    attach_undisturbed [OF alone _ builders_undisturbed(5)]
  show "undisturbed uid w w'"
    using run unfolding attach_all_def try_then_def
    by (auto split: sum.splits prod.splits dest!: T [where uid = uid]) (meson undisturbed_trans)+
  show "r = Inr o1 \<Longrightarrow> route_options o1 = route_options opts"
    using run by (auto simp: attach_all_def try_then_def route_options_def split: sum.splits prod.splits)
qed

lemma from_reply_result:
  assumes alone: "alone env" and run: "from_reply env url name desc option reply w = (r, w')"
  shows "undisturbed uid w w'" "r = Inr item \<Longrightarrow> \<exists>o1. prf_option item = Some o1 \<and> route_options o1 = route_options item_option_default"
proof -
  have "undisturbed uid w w' \<and> (r = Inr item \<longrightarrow> (\<exists>o1. prf_option item = Some o1 \<and> route_options o1 = route_options item_option_default))"
  proof (cases "\<not> rp_success reply \<or> \<not> is_ok (remote_mapping env reply)")
    case True
    with run show ?thesis
      by (auto simp: from_reply_def get_uid_def Let_def split: sum.splits if_splits)
  next
    case False
    then obtain data where d: "remote_mapping env reply = Inr data" by (cases "remote_mapping env reply") auto
    let ?opts = "item_option_default\<lparr>update_interval := remote_interval (Option.bind option update_interval) (rp_headers reply),
      allow_auto_update := Some (allow_auto_update_enabled option)\<rparr>"
    obtain q v where a: "attach_all env option ?opts (pass w) = (q, v)" by fastforce
    note A = attach_all_result [OF alone a]
    have "w' = v" using run False d a by (cases q) (auto simp: from_reply_def get_uid_def Let_def try_then_def)
    moreover have "\<exists>o1. prf_option item = Some o1 \<and> route_options o1 = route_options item_option_default" if "r = Inr item"
      using run False d a that A(2)
      by (cases q) (auto simp: from_reply_def get_uid_def Let_def try_then_def route_options_def)
    ultimately show ?thesis using undisturbed_trans [OF undisturbed_refl(2) A(1)] by blast
  qed
  then show "undisturbed uid w w'" "r = Inr item \<Longrightarrow> \<exists>o1. prf_option item = Some o1 \<and> route_options o1 = route_options item_option_default"
    by blast+
qed

text \<open>What the user set: everything a refresh does not bring, and how the profile is fetched.\<close>

definition same_user_part :: "prf_item \<Rightarrow> prf_item \<Rightarrow> bool" where
  "same_user_part x y \<longleftrightarrow> prf_uid y = prf_uid x \<and> prf_itype y = prf_itype x \<and> prf_name y = prf_name x \<and> prf_desc y = prf_desc x
     \<and> prf_url y = prf_url x \<and> prf_selected y = prf_selected x
     \<and> route_options (unwrap_or item_option_default (prf_option y)) = route_options (unwrap_or item_option_default (prf_option x))"

lemma find_update_first:
  "find P xs = Some x \<Longrightarrow> P (f x) \<Longrightarrow> find P (update_first P f xs) = Some (f x)"
  by (induction xs) auto

lemma refreshed_same:
  assumes "prf_option item = Some o1" and "route_options o1 = route_options item_option_default"
  shows "same_user_part x (refreshed_item item x)" "same_user_part x ((refreshed_item item x)\<lparr>prf_file := f\<rparr>)"
  using assms
  by (cases "prf_option x"; simp add: same_user_part_def refreshed_item_def item_option_merge_def overlay_option_def route_options_def
      item_option_default_def Patching.patched_def)+

lemma update_item_result:
  assumes "update_item dir store save uid item p0 = (Inr u, p, es)" and "get_item p0 uid = Inr x"
    and "prf_option item = Some o1" and "route_options o1 = route_options item_option_default"
  shows "\<exists>y. get_item p uid = Inr y \<and> same_user_part x y"
proof -
  have x: "find (\<lambda>e. prf_uid e = Some uid) (item_list p0) = Some x" "prf_uid x = Some uid"
    using assms(2) by (auto simp: get_item_def find_Some_iff split: option.splits)
  have "\<exists>f. item_list p = update_first (\<lambda>e. prf_uid e = Some uid) f (item_list p0) \<and> same_user_part x (f x)"
    using assms(1,2) refreshed_same [OF assms(3,4), of x]
    by (fastforce simp: update_item_def get_item_def item_list_def Let_def split: option.splits sum.splits)
  then obtain f where f: "item_list p = update_first (\<lambda>e. prf_uid e = Some uid) f (item_list p0)" "same_user_part x (f x)"
    by blast
  moreover have "prf_uid (f x) = Some uid" using f(2) x(2) by (simp add: same_user_part_def)
  ultimately show ?thesis using find_update_first [OF x(1), of f] by (auto simp: get_item_def)
qed

text \<open>One attempt: at most one fetch, and the profile is as it was or refreshed.\<close>

lemma attempt_result:
  assumes alone: "alone env" and run: "attempt_update env uid url option w = (r, w')"
    and old: "get_item (fst (profiles_cell w)) uid = Inr x"
  shows "fetched w' = fetched w \<and> \<not> is_ok r \<and> \<not> is_ok (fix_dirty_url (pv_url env) url)
      \<or> fetched w' = fetched w @ [proxy_type_of option] \<and> is_ok (fix_dirty_url (pv_url env) url)"
    "\<exists>y. get_item (fst (profiles_cell w')) uid = Inr y \<and> (if r = Inr (Inr ()) then same_user_part x y else y = x)"
proof -
  obtain q v where u: "from_url env url None None option w = (q, v)" by fastforce
  have U: "(if is_ok (fix_dirty_url (pv_url env) url) then fetched v = fetched w @ [proxy_type_of option] else fetched v = fetched w \<and> \<not> is_ok q)
    \<and> get_item (fst (profiles_cell v)) uid = Inr x
    \<and> (\<forall>item. q = Inr item \<longrightarrow> (\<exists>o1. prf_option item = Some o1 \<and> route_options o1 = route_options item_option_default))"
  proof (cases "fix_dirty_url (pv_url env) url")
    case (Inr parsed)
    let ?url = "url_text (pv_url env) parsed"
    let ?w = "pass (note_profiles (Fetched ?url (proxy_type_of option)) w)"
    let ?answer = "pv_fetch env (pw_tick w) ?url (proxy_type_of option) (unwrap_or 20 (Option.bind option timeout_seconds))
                 (Option.bind option user_agent) (unwrap_or False (Option.bind option danger_accept_invalid_certs))"
    show ?thesis
    proof (cases ?answer)
      case (Inl e)
      with u Inr old show ?thesis by (auto simp: from_url_def Let_def)
    next
      case (Inr reply)
      with u \<open>fix_dirty_url _ _ = _\<close> have "from_reply env ?url None None option reply ?w = (q, v)"
        by (simp add: from_url_def Let_def)
      note R = from_reply_result [OF alone this]
      from R(1) [of uid] R(2) old \<open>fix_dirty_url _ _ = _\<close> show ?thesis by (auto simp: undisturbed_def)
    qed
  qed (use u old in \<open>auto simp: from_url_def\<close>)
  show "fetched w' = fetched w \<and> \<not> is_ok r \<and> \<not> is_ok (fix_dirty_url (pv_url env) url)
      \<or> fetched w' = fetched w @ [proxy_type_of option] \<and> is_ok (fix_dirty_url (pv_url env) url)"
    "\<exists>y. get_item (fst (profiles_cell w')) uid = Inr y \<and> (if r = Inr (Inr ()) then same_user_part x y else y = x)"
  proof (atomize (full), cases q)
    case (Inl e)
    with run u U show "(fetched w' = fetched w \<and> \<not> is_ok r \<and> \<not> is_ok (fix_dirty_url (pv_url env) url)
      \<or> fetched w' = fetched w @ [proxy_type_of option] \<and> is_ok (fix_dirty_url (pv_url env) url))
      \<and> (\<exists>y. get_item (fst (profiles_cell w')) uid = Inr y \<and> (if r = Inr (Inr ()) then same_user_part x y else y = x))"
      by (auto simp: attempt_update_def split: if_splits)
  next
    case (Inr item)
    with U obtain o1 where o1: "prf_option item = Some o1" "route_options o1 = route_options item_option_default" by blast
    obtain q2 v2 where e: "profiles_update_item_safe env uid item v = (q2, v2)" by fastforce
    let ?v = "pass v"
    obtain a p es where ed: "update_item (pv_dir env (pw_tick ?v)) (pv_write env (pw_tick ?v)) (save_answer env ?v) uid item (fst (profiles_cell v)) = (a, p, es)"
      by (metis prod_cases3)
    note E = edit_alone [OF alone e [unfolded profiles_update_item_safe_def] ed]
    have "\<exists>y. get_item (fst (profiles_cell v2)) uid = Inr y \<and> (if is_ok q2 then same_user_part x y else y = x)"
    proof (cases a)
      case (Inr b)
      from update_item_result [OF ed [unfolded Inr] _ o1] U E Inr show ?thesis by simp
    qed (use E U in simp)
    moreover have "r = Inr q2" "w' = v2" using run u Inr e by (simp_all add: attempt_update_def)
    moreover have "is_ok q2 = (q2 = Inr ())" by (cases q2) simp_all
    ultimately show "(fetched w' = fetched w \<and> \<not> is_ok r \<and> \<not> is_ok (fix_dirty_url (pv_url env) url)
      \<or> fetched w' = fetched w @ [proxy_type_of option] \<and> is_ok (fix_dirty_url (pv_url env) url))
      \<and> (\<exists>y. get_item (fst (profiles_cell w')) uid = Inr y \<and> (if r = Inr (Inr ()) then same_user_part x y else y = x))"
      using U E(1) Inr by (auto split: if_splits)
  qed
qed

lemma through_routes: "proxy_type_of (through True False m) = ThroughCore" "proxy_type_of (through False True m) = ThroughSystem"
  by (simp_all add: proxy_type_of_def through_def)


subsection \<open>Deleting\<close>

lemma remove_files_simps:
  "profiles_cell (remove_files env names w) = profiles_cell w" "pw_config (remove_files env names w) = pw_config w"
  "f \<notin> set names \<Longrightarrow> pw_files (remove_files env names w) f = pw_files w f"
  by (auto simp: remove_files_def cleanup_plan_def profiles_cell_def Let_def split: sum.splits)

lemma save_profiles_plain:
  assumes "save_profiles_file c p v = (r, v')"
  shows "cw_profiles v' = cw_profiles v" "is_ok r \<Longrightarrow> cw_profiles_file v' = Some p"
  using assms by (auto simp: save_profiles_file_def ctick_def split: sum.splits)

lemma delete_edit_result:
  assumes run: "delete_edit env index p0 w = (q, v)" and free: "cells_free (pw_config w)"
  shows "case q of
      Inl _ \<Rightarrow> profiles_cell v = profiles_cell w \<and> pw_files v = pw_files w
    | Inr (new, Inl _) \<Rightarrow> new = p0 \<and> profiles_cell v = profiles_cell w \<and> pw_files v = pw_files w
    | Inr (new, Inr (b, c)) \<Rightarrow> profiles_cell v = profiles_cell w \<and> (\<exists>names. plan_delete_item index p0 = (Inr (b, names), new)
        \<and> (\<forall>f. f \<notin> set names \<longrightarrow> pw_files v f = pw_files w f)) \<and> cw_profiles_file (pw_config v) = Some new
        \<and> (b \<longrightarrow> runs_on env new (pw_config v))"
proof (cases "plan_delete_item index p0")
  case (Pair planned new)
  show ?thesis
  proof (cases planned)
    case (Inl e)
    with run Pair show ?thesis by (auto simp: delete_edit_def)
  next
    case (Inr x)
    then obtain b names where plan: "plan_delete_item index p0 = (Inr (b, names), new)" using Pair by (cases x) simp
    show ?thesis
    proof (cases b)
      case True
      obtain u c where up: "update_config_forced_with_profiles (pv_config env) new p0 (pw_config w) = (u, c)" by fastforce
      note U = update_with_profiles [OF up free [unfolded cells_free_def]]
      let ?w = "w\<lparr>pw_config := c\<rparr>"
      have w: "profiles_cell ?w = profiles_cell w" "pw_files ?w = pw_files w" using U by (simp_all add: profiles_cell_def)
      have q: "(q, v) = (case u of Inl e \<Rightarrow> (Inl e, ?w) | Inr (Inl outcome) \<Rightarrow> (Inr (p0, Inl outcome), ?w)
          | Inr (Inr _) \<Rightarrow> (Inr (new, Inr (b, current new)), remove_files env names ?w))"
        using run plan up True by (auto simp: delete_edit_def on_config_def split: sum.split sum.split_asm)
      show ?thesis
      proof (cases "\<exists>y. u = Inr (Inr y)")
        case ok: True
        then have "cw_profiles_file c = Some new" "runs_on env new c"
          using U by (auto simp: profiles_verdict_def intro: runs_on_built)
        with q ok plan w show ?thesis by (auto simp: remove_files_simps)
      qed (use q w in \<open>auto split: sum.splits\<close>)
    next
      case False
      obtain u c where up: "save_profiles_file (pv_config env) new (pw_config w) = (u, c)" by fastforce
      note U = save_profiles_plain [OF up]
      let ?w = "w\<lparr>pw_config := c\<rparr>"
      have w: "profiles_cell ?w = profiles_cell w" "pw_files ?w = pw_files w" using U by (simp_all add: profiles_cell_def)
      have q: "(q, v) = (case u of Inl e \<Rightarrow> (Inl e, ?w) | Inr _ \<Rightarrow> (Inr (new, Inr (b, current new)), remove_files env names ?w))"
        using run plan up False by (cases u) (auto simp: delete_edit_def on_config_def)
      show ?thesis
        using q w plan U(2) False by (cases u) (auto simp: remove_files_simps)
    qed
  qed
qed

lemma drop_guard_aside: "aside w (drop_guard a w)"
  by (cases a) (auto simp: drop_guard_def aside_def profiles_cell_def same_runtime_def split: bool.split prod.split)

text \<open>
  C28: a deletion is all or nothing for a task that runs alone.  When it reports success the planned list is committed and
  saved, only files of the plan are gone, and when the current profile was deleted the core runs on a configuration
  built from that list; otherwise the committed profiles and every file are as before.
\<close>

theorem delete_profile_all_or_nothing:
  assumes run: "delete_profile env index w = (r, w')" and alone: "alone env" and free: "cells_free (pw_config w)"
  shows "case r of
      Inl _ \<Rightarrow> profiles_cell w' = profiles_cell w \<and> pw_files w' = pw_files w
    | Inr _ \<Rightarrow> \<exists>deleted_current names p. plan_delete_item index (fst (profiles_cell w)) = (Inr (deleted_current, names), p)
        \<and> fst (profiles_cell w') = p \<and> cw_profiles_file (pw_config w') = Some p
        \<and> (\<forall>f. f \<notin> set names \<longrightarrow> pw_files w' f = pw_files w f)
        \<and> (deleted_current \<longrightarrow> runs_on env p (pw_config w'))"
proof -
  let ?p0 = "fst (profiles_cell w)"
  obtain q v where e: "delete_edit env index ?p0 (pass w) = (q, v)" by fastforce
  note E = delete_edit_result [OF e] and M = modify_alone [where f = "delete_edit env index" and w = w and dropped = drop_guard, OF alone e]
  have free': "cells_free (pw_config (pass w))" using free by simp
  show ?thesis
  proof (cases q)
    case (Inl x)
    with run M E [OF free'] show ?thesis by (auto simp: delete_profile_def with_error_code_def)
  next
    case (Inr y)
    then obtain new a where q: "q = Inr (new, a)" by (cases y) simp
    show ?thesis
    proof (cases a)
      case (Inl outcome)
      with run M E [OF free'] q show ?thesis by (auto simp: delete_profile_def)
    next
      case (Inr z)
      then obtain b c where a: "a = Inr (b, c)" by (cases z) simp
      define u where "u = set_cell (new, snd (profiles_cell v)) (pass v)"
      define u1 where "u1 = drop_guard (Inr (b, c)) (if b then note_profiles ActivateNodes u else u)"
      define u2 where "u2 = (if b then logged (sync_dns_now env u1) else u1)"
      have "aside u u1" using aside_trans [OF aside_steps(2) drop_guard_aside] drop_guard_aside by (simp add: u1_def)
      moreover have "aside u1 u2" using sync_dns_aside [of u1 env] by (simp add: u2_def logged_def)
      moreover have "r = Inr ()" and "aside u2 w'"
        using run M q a
        by (auto simp: delete_profile_def u_def u1_def u2_def Let_def aside_def split: option.splits)
      ultimately have w': "r = Inr ()" "aside u w'" by (blast intro: aside_trans)+
      have U: "fst (profiles_cell u) = new" "pw_files u = pw_files v" "cw_profiles_file (pw_config u) = cw_profiles_file (pw_config v)"
        "same_runtime (pw_config v) (pw_config u)"
        by (simp_all add: u_def same_runtime_def)
      have "runs_on env new (pw_config v) \<Longrightarrow> runs_on env new (pw_config w')"
        using runs_on_same same_runtime_trans U(4) w'(2) unfolding aside_def by blast
      with E [OF free'] q a U w' show ?thesis by (auto simp: aside_def)
    qed
  qed
qed

subsection \<open>An example\<close>

definition demo_profiles_env :: "(nat \<Rightarrow> iprofiles \<Rightarrow> iprofiles) \<Rightarrow> string profiles_env" where
  "demo_profiles_env edits = \<lparr>pv_config = demo_config_env\<lparr>ce_exiting := (\<lambda>_. True), ce_write_profiles := (\<lambda>_. Inr ())\<rparr>, pv_others = edits, pv_applied = (\<lambda>_. None),
     pv_dir = (\<lambda>_. Inr ()), pv_write = (\<lambda>_ _ _. Inr ()), pv_nanoid = show_nat, pv_stamp = (\<lambda>_. 0),
     pv_fetch = (\<lambda>_ _ _ _ _ _. Inl ''offline''),
     pv_url = \<lparr>url_parse = Inr, url_scheme = (\<lambda>_. ''https''), url_host = Some, url_path = id, url_query = (\<lambda>_. None),
       url_set_path = (\<lambda>p _. p), url_extend_query = (\<lambda>q u. u @ ''?'' @ q), url_text = id\<rparr>,
     pv_percent = Some, pv_percent_lossy = id, pv_yaml = (\<lambda>_. Inr []), pv_select = (\<lambda>_ _ _. True), pv_window = (\<lambda>_. False),
     pv_remove = (\<lambda>_ _. True)\<rparr>"

definition demo_profile :: "string \<Rightarrow> prf_item" where
  "demo_profile uid = prf_item_default\<lparr>prf_uid := Some uid, prf_itype := Some ''remote'', prf_url := Some ''https://h/s''\<rparr>"

definition demo_profiles_world :: profiles_world where
  "demo_profiles_world = \<lparr>pw_config = demo_config_world\<lparr>cw_profiles := (\<lparr>current = Some ''a'', items = Some [demo_profile ''a'', demo_profile ''b'']\<rparr>, None)\<rparr>,
     pw_files = (\<lambda>_. None), pw_switching = False, pw_app_running = False, pw_tick = 0, pw_events = []\<rparr>"

lemma demo_profiles [simp]:
  "alone (demo_profiles_env (\<lambda>_. id))" "cells_free (pw_config demo_profiles_world)"
  "profiles_cell demo_profiles_world = (\<lparr>current = Some ''a'', items = Some [demo_profile ''a'', demo_profile ''b'']\<rparr>, None)"
  "\<not> pw_app_running demo_profiles_world" "\<not> pw_switching demo_profiles_world" "pw_tick demo_profiles_world = 0"
  "prf_uid (demo_profile u) = Some u"
  by (simp_all add: alone_def demo_profiles_env_def cells_free_def demo_profiles_world_def profiles_cell_def demo_profile_def)

lemma exiting_switch:
  "on_config (update_config_forced (pv_config (demo_profiles_env edits))) w = (Inr (Skipped Exiting), w)"
  by (simp add: on_config_def update_config_forced_def update_config_with_force_def demo_profiles_env_def)


theorem failed_switch_overwrites_concurrent_edit_witness:
  "let edits = (\<lambda>t p. if t = 2 then append_listed p (demo_profile ''new'') else p);
       after = fst (profiles_cell (snd (patch_profiles_config (demo_profiles_env edits) (with_current ''b'') demo_profiles_world)))
   in map prf_uid (item_list after) = [Some ''a'', Some ''b'']
     \<and> map prf_uid (item_list (edits 2 after)) = [Some ''a'', Some ''b'', Some ''new'']"
proof -
  define edits where "edits = (\<lambda>t p. if t = (2 :: nat) then append_listed p (demo_profile ''new'') else p)"
  have pv: "pv_others (demo_profiles_env edits) t p = (if t = 2 then append_listed p (demo_profile ''new'') else p)" for t p
    by (simp add: demo_profiles_env_def) (simp add: edits_def)
  have "fst (profiles_cell (snd (patch_profiles_config (demo_profiles_env edits) (with_current ''b'') demo_profiles_world)))
    = profiles_patch_config (with_current ''a'') (fst (profiles_cell demo_profiles_world))"
    using failed_switch_overwrites_concurrent_edit [where patch = "with_current ''b''" and prev = "''a''", OF demo_profiles(4,5,2) exiting_switch [of edits]]
    by (simp add: pv update_ok_def is_valid_outcome_def)
  then show ?thesis
    by (simp add: edits_def [symmetric]) (simp add: edits_def append_listed_def profiles_patch_config_def with_current_def
        iprofiles_default_def item_list_def Let_def)
qed


theorem delete_profile_all_or_nothing_witness:
  "\<exists>w'. delete_profile (demo_profiles_env (\<lambda>_. id)) ''b'' demo_profiles_world = (Inr (), w')
     \<and> map prf_uid (item_list (fst (profiles_cell w'))) = [Some ''a'']"
proof -
  let ?env = "demo_profiles_env (\<lambda>_. id)"
  obtain r w' where run: "delete_profile ?env ''b'' demo_profiles_world = (r, w')" by fastforce
  have p: "plan_delete_item ''b'' (fst (profiles_cell demo_profiles_world))
      = (Inr (False, []), \<lparr>current = Some ''a'', items = Some [demo_profile ''a'']\<rparr>)"
    by (simp add: plan_delete_item_def get_item_def item_list_def linked_uids_def demo_profile_def prf_item_default_def Let_def)
  obtain c where "save_profiles_file (pv_config ?env) \<lparr>current = Some ''a'', items = Some [demo_profile ''a'']\<rparr> (pw_config demo_profiles_world) = (Inr (), c)"
    by (simp add: save_profiles_file_def demo_profiles_env_def)
  then obtain v where "delete_edit ?env ''b'' (fst (profiles_cell demo_profiles_world)) (pass demo_profiles_world)
      = (Inr (\<lparr>current = Some ''a'', items = Some [demo_profile ''a'']\<rparr>, Inr (False, Some ''a'')), v)"
    by (auto simp: delete_edit_def p [unfolded demo_profiles(3) fst_conv] on_config_def Let_def)
  note M = modify_alone [where f = "delete_edit ?env ''b''" and w = demo_profiles_world and dropped = drop_guard, OF demo_profiles(1) this]
  have "r = Inr ()" using run M by (auto simp: delete_profile_def Let_def)
  with delete_profile_all_or_nothing [OF run demo_profiles(1,2)] run show ?thesis
    unfolding p by (auto simp: item_list_def)
qed

end
