(* ===== verification/SaveProfile.thy ===== *)
theory SaveProfile
  imports ProfileSwitchProps
begin

section \<open>Saving an edited profile file: \<open>cmd/save_profile.rs\<close> and \<open>cmd/validate.rs\<close>\<close>

text \<open>
  The editor of the interface hands over the new text of a profile file.  It is written, checked, and when the
  current profile uses it the core is updated from it; a text that is not accepted is replaced by the original.
  Files are named within the profile directory.  A file operation fails with the message of \<open>sv_io\<close> at its
  tick; a failed write leaves what \<open>sv_torn\<close> says.
\<close>

subsection \<open>Notices\<close>

datatype validation_notice_target = NoticeRuntime | NoticeMerge | NoticeScript

fun notice_key :: "validation_error_kind \<Rightarrow> validation_notice_target \<Rightarrow> string" where
  "notice_key FileMissing _ = ''config_validate::file_not_found''"
| "notice_key FileRead NoticeScript = ''config_validate::script_error''"
| "notice_key FileRead _ = ''config_validate::yaml_read_error''"
| "notice_key YamlSyntax NoticeMerge = ''config_validate::merge_syntax_error''"
| "notice_key YamlSyntax NoticeScript = ''config_validate::script_error''"
| "notice_key YamlSyntax NoticeRuntime = ''config_validate::yaml_syntax_error''"
| "notice_key YamlMapping NoticeMerge = ''config_validate::merge_mapping_error''"
| "notice_key YamlMapping NoticeScript = ''config_validate::script_error''"
| "notice_key YamlMapping NoticeRuntime = ''config_validate::yaml_mapping_error''"
| "notice_key ScriptSyntax _ = ''config_validate::script_syntax_error''"
| "notice_key ScriptMissingMain _ = ''config_validate::script_missing_main''"
| "notice_key ProcessTerminated _ = ''config_validate::process_terminated''"
| "notice_key Validation.CoreRejected _ = ''config_validate::error''"
| "notice_key ValidationTimeout _ = ''config_validate::error''"

definition handle_validation_notice :: "validation_outcome \<Rightarrow> validation_notice_target \<Rightarrow> profiles_world \<Rightarrow> profiles_world" where
  "handle_validation_notice outcome target w =
     (case outcome of
        Invalid kind message \<Rightarrow> note_profiles (NoticeMessage (notice_key kind target) message) w
      | Valid \<Rightarrow> w
      | _ \<Rightarrow> note_profiles (NoticeMessage ''config_validate::error'' (show_outcome outcome)) w)"

subsection \<open>Files\<close>

record 'u save_env =
  sf_profiles :: "'u profiles_env"
  sf_io :: "nat \<Rightarrow> string option"
  sf_torn :: "nat \<Rightarrow> string option"
  sf_checks :: "nat \<Rightarrow> (string \<Rightarrow> string option) \<Rightarrow> file_checks"
  sf_core_run :: "nat \<Rightarrow> core_run"

definition file_exists :: "'u save_env \<Rightarrow> string \<Rightarrow> profiles_world \<Rightarrow> (string + bool) \<times> profiles_world" where
  "file_exists env path w =
     ((case sf_io env (pw_tick w) of Some e \<Rightarrow> Inl e | None \<Rightarrow> Inr (pw_files w path \<noteq> None)), pass w)"

text \<open>\<open>PrfItem::read_file\<close>, of whose error only the outermost message is shown.\<close>

definition read_profile :: "'u save_env \<Rightarrow> string \<Rightarrow> profiles_world \<Rightarrow> (string + string) \<times> profiles_world" where
  "read_profile env path w =
     ((case (sf_io env (pw_tick w), pw_files w path) of
         (None, Some content) \<Rightarrow> Inr content
       | _ \<Rightarrow> Inl (''failed to read the file \"'' @ path @ ''\"'')), pass w)"

definition write_file :: "'u save_env \<Rightarrow> string \<Rightarrow> string \<Rightarrow> profiles_world \<Rightarrow> (string + unit) \<times> profiles_world" where
  "write_file env path data w =
     (case sf_io env (pw_tick w) of
        Some e \<Rightarrow> (Inl e, pass (w\<lparr>pw_files := (pw_files w)(path := sf_torn env (pw_tick w))\<rparr>))
      | None \<Rightarrow> (Inr (), pass (w\<lparr>pw_files := (pw_files w)(path \<mapsto> data)\<rparr>)))"

definition remove_file :: "'u save_env \<Rightarrow> string \<Rightarrow> profiles_world \<Rightarrow> (string + unit) \<times> profiles_world" where
  "remove_file env path w =
     (case sf_io env (pw_tick w) of
        Some e \<Rightarrow> (Inl e, pass w)
      | None \<Rightarrow> if pw_files w path = None then (Inl ''No such file or directory'', pass w)
          else (Inr (), pass (w\<lparr>pw_files := (pw_files w)(path := None)\<rparr>)))"

definition plainly :: "(string + 'a) \<times> profiles_world \<Rightarrow> (command_failure + 'a) \<times> profiles_world" where
  "plainly x = (map_sum plain id (fst x), snd x)"

definition restore_original :: "'u save_env \<Rightarrow> string \<Rightarrow> string \<Rightarrow> bool \<Rightarrow> profiles_world \<Rightarrow> (command_failure + unit) \<times> profiles_world" where
  "restore_original env path original_content original_existed w =
     plainly (if original_existed then write_file env path original_content w else remove_file env path w)"

subsection \<open>Saving\<close>

definition profile_affects_runtime :: "iprofiles \<Rightarrow> string \<Rightarrow> bool" where
  "profile_affects_runtime profiles index =
     (case current profiles of
        None \<Rightarrow> False
      | Some uid \<Rightarrow> uid = index \<or> (case get_item profiles uid of
          Inl _ \<Rightarrow> False
        | Inr item \<Rightarrow> (let opt = prf_option item in index \<in> set
            [unwrap_or ''Merge'' (Option.bind opt opt_merge), unwrap_or ''Script'' (Option.bind opt opt_script),
             unwrap_or ''Rules'' (Option.bind opt opt_rules), unwrap_or ''Proxies'' (Option.bind opt opt_proxies),
             unwrap_or ''Groups'' (Option.bind opt opt_groups)])))"

definition validate_saved :: "'u save_env \<Rightarrow> string \<Rightarrow> bool \<Rightarrow> profiles_world \<Rightarrow> validation_outcome res \<times> profiles_world" where
  "validate_saved env path is_merge_file w =
     (validate_config_file_outcome (sf_checks env (pw_tick w) (pw_files w)) (sf_core_run env (pw_tick w))
        (get_valid_clash_core (view_latest (cw_verge (pw_config w)))) path (Some is_merge_file), pass w)"

definition handle_saved_profile_file :: "'u save_env \<Rightarrow> string \<Rightarrow> string \<Rightarrow> bool \<Rightarrow> bool \<Rightarrow> bool \<Rightarrow> bool \<Rightarrow> profiles_world
    \<Rightarrow> (command_failure + validation_outcome) \<times> profiles_world" where
  "handle_saved_profile_file env path original_content original_existed is_merge_file is_script affects_runtime w =
     (let target = (if is_script then NoticeScript else if is_merge_file then NoticeMerge else NoticeRuntime);
          restore = restore_original env path original_content original_existed;
          refuse = (\<lambda>r target w. try_then (restore w) (\<lambda>_ w.
            (r, case r of Inr outcome \<Rightarrow> handle_validation_notice outcome target w | Inl _ \<Rightarrow> w)));
          (checked, w) = validate_saved env path is_merge_file w
      in case checked of
           Inl e \<Rightarrow> refuse (Inl (plain e)) target w
         | Inr outcome \<Rightarrow>
             if \<not> is_valid_outcome outcome then refuse (Inr outcome) target w
             else if \<not> affects_runtime then (Inr Valid, w)
             else (case on_config (update_config_forced (pv_config (sf_profiles env))) w of
                 (Inl e, w) \<Rightarrow> refuse (Inl (plain (show_error e))) NoticeRuntime w
               | (Inr outcome, w) \<Rightarrow>
                   if is_valid_outcome outcome
                   then (Inr Valid, note_profiles RefreshedClash (logged (sync_dns_now (sf_profiles env) w)))
                   else refuse (Inr outcome) NoticeRuntime w))"

datatype auto_backup_trigger = ScheduledBackup | GlobalMerge | GlobalScript

definition backup_trigger :: "string \<Rightarrow> auto_backup_trigger option" where
  "backup_trigger index = (if index = ''Merge'' then Some GlobalMerge else if index = ''Script'' then Some GlobalScript else None)"

definition save_profile_file :: "'u save_env \<Rightarrow> string \<Rightarrow> string option \<Rightarrow> profiles_world
    \<Rightarrow> (command_failure + validation_outcome \<times> auto_backup_trigger option) \<times> profiles_world" where
  "save_profile_file env index file_data w =
     (case file_data of
        None \<Rightarrow> (Inr (Valid, None), w)
      | Some data \<Rightarrow>
          (let profiles = view_latest (profiles_cell w)
           in case get_item profiles index of
                Inl e \<Rightarrow> (Inl (plain e), w)
              | Inr item \<Rightarrow>
                  (case prf_file item of
                     None \<Rightarrow> (Inl (plain ''file field is null''), w)
                   | Some path \<Rightarrow>
                       (let is_merge = (prf_itype item = Some ''merge'');
                            is_script = (prf_itype item = Some ''script'' \<or> ends_with ''.js'' path)
                        in case pv_dir (sf_profiles env) (pw_tick w) of
                             Inl e \<Rightarrow> (Inl (plain e), w)
                           | Inr _ \<Rightarrow>
                               try_then (case file_exists env path w of (Inl e, w) \<Rightarrow>
                                   (Inl (plain (''failed to check profile file \"'' @ path @ ''\": '' @ e)), w)
                                 | (Inr b, w) \<Rightarrow> (Inr b, w)) (\<lambda>original_existed w.
                               try_then (if original_existed then plainly (read_profile env path w) else (Inr [], w)) (\<lambda>original_content w.
                               try_then (plainly (write_file env path data w)) (\<lambda>_ w.
                               try_then (handle_saved_profile_file env path original_content original_existed is_merge is_script
                                   (profile_affects_runtime profiles index) w) (\<lambda>changes w.
                               (Inr (changes, if is_valid_outcome changes then backup_trigger index else None), w)))))))))"

subsection \<open>A save is all or nothing\<close>

lemma plainly_fst [simp]: "plainly (Inr x, w) = (Inr x, w)" "plainly (Inl e, w) = (Inl (plain e), w)"
  by (simp_all add: plainly_def)

lemma notice_frame [simp]:
  "pw_files (handle_validation_notice outcome target w) = pw_files w"
  "pw_config (handle_validation_notice outcome target w) = pw_config w"
  by (simp_all add: handle_validation_notice_def split: validation_outcome.split)

text \<open>The original comes back when the files answer.\<close>

lemma restore_original_result:
  assumes "\<forall>t. sf_io env t = None" and "pw_files w = fs(path \<mapsto> data)"
    and "if existed then fs path = Some original else fs path = None"
  shows "\<exists>v. restore_original env path original existed w = (Inr (), v) \<and> pw_files v = fs \<and> pw_config v = pw_config w"
  using assms by (auto simp: restore_original_def write_file_def remove_file_def fun_upd_idem split: if_splits)

lemma handle_saved_result:
  assumes run: "handle_saved_profile_file env path original existed is_merge is_script affects w = (r, w')"
    and io: "\<forall>t. sf_io env t = None" and files: "pw_files w = fs(path \<mapsto> data)"
    and original: "if existed then fs path = Some original else fs path = None" and free: "cells_free (pw_config w)"
  shows "if valid_answer r then pw_files w' = fs(path \<mapsto> data)
        \<and> (affects \<longrightarrow> runs_on (sf_profiles env) (view_latest (profiles_cell w)) (pw_config w'))
      else pw_files w' = fs \<and> fst (cw_runtime (pw_config w')) = fst (cw_runtime (pw_config w))"
proof -
  let ?refuse = "\<lambda>r target w. try_then (restore_original env path original existed w) (\<lambda>_ w.
            (r, case r of Inr outcome \<Rightarrow> handle_validation_notice outcome target w | Inl _ \<Rightarrow> w))"
  have refused: "q = a \<and> pw_files v' = fs \<and> pw_config v' = pw_config v"
    if "?refuse a target v = (q, v')" and "pw_files v = fs(path \<mapsto> data)" for q v' v target and a :: "command_failure + validation_outcome"
    using restore_original_result [OF io that(2) original] that(1) by (auto simp: try_then_def split: sum.splits)
  obtain checked w1 where c: "validate_saved env path is_merge w = (checked, w1)" by fastforce
  have w1: "pw_files w1 = fs(path \<mapsto> data)" "pw_config w1 = pw_config w" "profiles_cell w1 = profiles_cell w"
    using c files by (auto simp: validate_saved_def)
  obtain u w2 where up: "on_config (update_config_forced (pv_config (sf_profiles env))) w1 = (u, w2)" by fastforce
  note F = force_profiles [OF up free [folded w1(2)]]
  have w2: "pw_files w2 = fs(path \<mapsto> data)" using w1(1) F(2) by (metis profiles_world.select_convs(2) profiles_world.surjective profiles_world.update_convs(1))
  note body = run [unfolded handle_saved_profile_file_def Let_def c prod.case]
  show ?thesis
  proof (cases checked)
    case (Inl e)
    with body have "?refuse (Inl (plain e)) (if is_script then NoticeScript else if is_merge then NoticeMerge else NoticeRuntime) w1 = (r, w')"
      by simp
    from refused [OF this w1(1)] w1 show ?thesis by (simp add: valid_answer_def)
  next
    case (Inr outcome)
    show ?thesis
    proof (cases "is_valid_outcome outcome")
      case False
      with body Inr have "?refuse (Inr outcome) (if is_script then NoticeScript else if is_merge then NoticeMerge else NoticeRuntime) w1 = (r, w')"
        by simp
      from refused [OF this w1(1)] w1 False show ?thesis by (auto simp: valid_answer_def)
    next
      case valid: True
      show ?thesis
      proof (cases affects)
        case False
        with body Inr valid w1 show ?thesis by (auto simp: valid_answer_def is_valid_outcome_def)
      next
        case affects: True
        show ?thesis
        proof (cases "update_ok u")
          case True
          then obtain o2 where o2: "u = Inr o2" "is_valid_outcome o2" by (auto simp: update_ok_def split: sum.splits)
          have "aside w2 (logged (sync_dns_now (sf_profiles env) w2))" using sync_dns_aside by (simp add: logged_def)
          moreover have "r = Inr Valid" "w' = note_profiles RefreshedClash (logged (sync_dns_now (sf_profiles env) w2))"
            using body Inr valid affects up o2 by auto
          ultimately show ?thesis
            using w2 F(3) [OF True] w1(3) runs_on_same [OF runs_on_built]
            by (auto simp: valid_answer_def is_valid_outcome_def aside_def)
        next
          case False
          then have nv: "\<And>x. u = Inr x \<Longrightarrow> \<not> is_valid_outcome x" by (auto simp: update_ok_def)
          show ?thesis
          proof (cases u)
            case (Inl e)
            with body \<open>checked = Inr outcome\<close> valid affects up have "?refuse (Inl (plain (show_error e))) NoticeRuntime w2 = (r, w')" by simp
            from refused [OF this w2] F(4) [OF False] w1(2) show ?thesis by (simp add: valid_answer_def)
          next
            case (Inr o2)
            with body \<open>checked = Inr outcome\<close> valid affects up nv [OF Inr] have "?refuse (Inr o2) NoticeRuntime w2 = (r, w')" by simp
            from refused [OF this w2] F(4) [OF False] w1(2) nv [OF Inr] show ?thesis by (auto simp: valid_answer_def)
          qed
        qed
      qed
    qed
  qed
qed

lemma save_refused:
  assumes "\<nexists>item path. get_item (view_latest (profiles_cell w)) index = Inr item \<and> prf_file item = Some path
    \<and> is_ok (pv_dir (sf_profiles env) (pw_tick w))"
  shows "\<exists>f. save_profile_file env index (Some data) w = (Inl f, w)"
proof (cases "get_item (view_latest (profiles_cell w)) index")
  case (Inr item)
  with assms show ?thesis
    by (cases "prf_file item"; cases "pv_dir (sf_profiles env) (pw_tick w)") (simp_all add: save_profile_file_def Let_def)
qed (simp add: save_profile_file_def Let_def)


text \<open>
  A write that fails, say on a full disk, ends the save at once: what the failed write left stays in place of the
  profile, although the original text had just been read.
\<close>

theorem failed_write_is_not_restored:
  fixes w :: profiles_world
  defines "t \<equiv> pw_tick w"
  assumes "get_item (view_latest (profiles_cell w)) index = Inr item" and "prf_file item = Some path"
    and "pv_dir (sf_profiles env) t = Inr u" and "pw_files w path = Some original"
    and "sf_io env t = None" and "sf_io env (Suc t) = None" and "sf_io env (Suc (Suc t)) = Some e"
  shows "\<exists>w'. save_profile_file env index (Some data) w = (Inl (plain e), w') \<and> pw_files w' path = sf_torn env (Suc (Suc t))"
  using assms by (simp add: save_profile_file_def Let_def file_exists_def read_profile_def write_file_def try_then_def)

subsection \<open>An example\<close>

definition demo_save_env :: "(nat \<Rightarrow> string option) \<Rightarrow> string save_env" where
  "demo_save_env io_errors = \<lparr>sf_profiles = demo_profiles_env (\<lambda>_. id), sf_io = io_errors, sf_torn = (\<lambda>_. Some []),
     sf_checks = (\<lambda>_ fs. \<lparr>path_exists = (\<lambda>_. True), read_file = (\<lambda>_. Inr []), parse_value = (\<lambda>_. Inl ''bad''), eval_js = (\<lambda>_. CheckTimedOut)\<rparr>),
     sf_core_run = (\<lambda>_. \<lparr>is_exiting = (\<lambda>_. True), home_dir = Inr ''home'', path_to_str = Inr, sidecar_command = (\<lambda>_. Inr ()),
       command_run = (\<lambda>_ _. Inl ''none'')\<rparr>)\<rparr>"

definition demo_save_world :: profiles_world where
  "demo_save_world = set_cell (\<lparr>current = Some ''a'', items = Some [(demo_profile ''a'')\<lparr>prf_file := Some ''a.yaml''\<rparr>]\<rparr>, None)
     (demo_profiles_world\<lparr>pw_files := [''a.yaml'' \<mapsto> ''old'']\<rparr>)"

lemma demo_save [simp]:
  "view_latest (profiles_cell demo_save_world) = \<lparr>current = Some ''a'', items = Some [(demo_profile ''a'')\<lparr>prf_file := Some ''a.yaml''\<rparr>]\<rparr>"
  "pw_files demo_save_world = [''a.yaml'' \<mapsto> ''old'']" "cells_free (pw_config demo_save_world)" "pw_tick demo_save_world = 0"
  by (simp_all add: demo_save_world_def cells_free_def demo_profiles_world_def)

lemma demo_saved_item:
  "get_item (view_latest (profiles_cell demo_save_world)) ''a'' = Inr ((demo_profile ''a'')\<lparr>prf_file := Some ''a.yaml''\<rparr>)"
  by (simp add: get_item_def item_list_def demo_profile_def)


theorem failed_write_is_not_restored_witness:
  "\<exists>w'. save_profile_file (demo_save_env (\<lambda>t. if t = 2 then Some ''disk full'' else None)) ''a'' (Some ''new'') demo_save_world
       = (Inl (plain ''disk full''), w') \<and> pw_files w' ''a.yaml'' = Some []"
proof -
  let ?env = "demo_save_env (\<lambda>t. if t = 2 then Some ''disk full'' else None)"
  have "\<exists>w'. save_profile_file ?env ''a'' (Some ''new'') demo_save_world = (Inl (plain ''disk full''), w')
      \<and> pw_files w' ''a.yaml'' = sf_torn ?env (Suc (Suc (pw_tick demo_save_world)))"
    by (rule failed_write_is_not_restored [OF demo_saved_item, where original = "''old''" and u = "()"])
      (simp_all add: demo_save_env_def demo_profiles_env_def)
  then show ?thesis by (simp add: demo_save_env_def)
qed

end
