(* ===== verification/Spec2Isabelle.thy ===== *)
theory Spec2Isabelle
  imports Draft Verge DnsOverride ProxyControl LifecycleProps Limiter I18n OwnerWatch ServiceStatus Readiness
    EnhanceConfig NodeSelection ClashConfig Validation AppProxyProps Listeners
    ConfigUpdateProps PortChangeProps TimerProps ProxyViewProps SysoptProps SaveProfile
begin

text \<open>
  A verification library for the Rust core of a Clash Verge build: a desktop program that supervises
  a proxy core (\<open>mihomo\<close>), run either as a child process (the sidecar) or by a privileged system
  service, and points the system proxy at it.

  Parts and theories

  \<open>Prelude\<close>: machine integers, results, the ASCII string primitives and decimal numbers.

  \<open>Patching\<close>: a locale for partial records that overwrite only the fields they name.

  \<open>Draft\<close> (\<open>crates/clash-verge-draft/src/lib.rs\<close>): the cell that holds every configuration, a
  committed \<open>Arc\<close> and an optional draft, with copy-on-write edits decided by pointer counts, the
  optimistic lock of asynchronous edits, and transactions over several cells.  The lemmas refine it to
  a pair of values, show that snapshots never change under a reader, that no update is lost, and, in a
  locale interpreted on a family of drafts, that a transaction is all or nothing.

  \<open>Verge\<close> (\<open>src-tauri/src/config/verge.rs\<close>): the application settings, field by field, their
  patches, template, validation and loading.  \<open>DnsOverride\<close> (\<open>config/dns.rs\<close>): the per-profile
  DNS override verdict and how it is written back without undoing a later user write.

  \<open>RunHealth\<close>, \<open>RunStore\<close>, \<open>OwnerWatch\<close> (\<open>core/runstate/\<close>): the observed state of the
  service, the store of observations, requests, the privileged-operation slot and the PAC flag, and
  the watch that decides when the service is lost.  \<open>ServiceStatus\<close> (\<open>core/service.rs\<close>): the flat
  status, privileged actions, owner sessions and hexadecimal payloads.  \<open>Readiness\<close>
  (\<open>core/manager/mod.rs\<close>): the atomic readiness word.

  \<open>Failures\<close> (\<open>core/proxy_control.rs\<close>, \<open>core/notification.rs\<close>): error chains with their
  classifications and the table of unresolved failures.  \<open>ProxyControl\<close>
  (\<open>core/proxy_control.rs\<close>): applying, clearing and guarding the system proxy.

  \<open>CoreProcess\<close> (\<open>core/manager/state.rs\<close>, \<open>core/service.rs\<close>) and \<open>Lifecycle\<close>
  (\<open>core/manager/lifecycle.rs\<close>, \<open>core/manager/mod.rs\<close>): starting and stopping the core by
  either route, readiness polls, retries, fallbacks, hand-over and recovery; \<open>LifecycleProps\<close> holds
  the properties over them.  The central invariant is that the reported mode, the held process and the
  readiness word agree after any sequence of operations.

  \<open>Yaml\<close>, \<open>NetAddr\<close>: YAML values with their lookups, and the parsing and printing of socket
  addresses.  \<open>ConfigMerge\<close> (\<open>enhance/field.rs\<close>, \<open>merge.rs\<close>, \<open>tun.rs\<close>, \<open>seq.rs\<close>),
  \<open>Authoritative\<close> (\<open>enhance/mod.rs\<close>, the fields the application owns), \<open>Script\<close>
  (\<open>enhance/script.rs\<close>) and \<open>Enhance\<close> with \<open>EnhanceConfig\<close> (\<open>enhance/mod.rs\<close>): the
  generation of the core configuration from a profile, its overlays and scripts and the settings, and
  that user overlays never change what the application owns.

  \<open>Profiles\<close> (\<open>config/profiles.rs\<close>, \<open>prfitem.rs\<close>) and \<open>NodeSelection\<close>
  (\<open>config/profiles.rs\<close>): the list of profiles with its edits, and the remembered node of every group.

  \<open>ClashConfig\<close> (\<open>config/clash.rs\<close>, \<open>runtime.rs\<close>): the settings of the core and the edits that do
  not regenerate its configuration.  \<open>Files\<close> (\<open>utils/help.rs\<close>, \<open>config/snapshot.rs\<close>): atomic
  replacement of files, snapshots, masking of URLs.  \<open>Validation\<close> (\<open>core/validate.rs\<close>): how a
  configuration is checked before it is used.

  \<open>AppProxyRules\<close>, \<open>AppProxy\<close>, \<open>AppProxyProps\<close> (\<open>core/app_proxy.rs\<close>): the application proxy,
  which sends the connections of chosen programs through a helper process to listeners of the core.  The
  lemmas classify every step by what it can change; the invariant over all sequences of operations is
  that the running flag, the helper held, the rules in memory and on disk agree.

  \<open>Ports\<close> (\<open>utils/port.rs\<close>, \<open>config/mixed_port.rs\<close>, \<open>config/port.rs\<close>): which port the proxy
  listens on and how another one is searched.  \<open>Listeners\<close> (\<open>core/listener.rs\<close>): what a
  configuration binds and the probes that decide whether it can.

  \<open>RuntimeBundle\<close>, \<open>BundleProps\<close> (\<open>core/runtime_bundle.rs\<close>): which files the providers of a
  configuration use, how contested ones are renamed, and the bundle given to the service.
  \<open>RuntimeConfig\<close> (\<open>config/config.rs\<close>, \<open>config/runtime.rs\<close>): from the pipeline's result to the runtime
  configuration and its bytes.  \<open>ConfigUpdate\<close>, \<open>ConfigUpdateProps\<close> (\<open>core/manager/config.rs\<close>,
  \<open>config/config.rs\<close>): one update of the running core over the configuration cells, the files, the validator
  and the lifecycle, its roll-back, and staging through the service.  The invariant over all sequences of
  operations is that the core is told to take only bytes that its own check accepted.
  \<open>PortChange\<close>, \<open>PortChangeProps\<close> (\<open>feat/listener.rs\<close>, \<open>config/port.rs\<close>, \<open>config/snapshot.rs\<close>): a
  change of the proxy ports as one transaction over three cells and three files, with every way back, and
  the fallback of a launch whose port is taken; both are proved all or nothing.

  \<open>Timer\<close>, \<open>TimerProps\<close> (\<open>core/timer.rs\<close>): the scheduler of profile updates as a step relation over its
  commands, the delay queue and the updates in flight, with its invariant.

  \<open>Sysopt\<close>, \<open>SysoptProps\<close> (\<open>core/sysopt.rs\<close>): the local writer of the system proxy, which
  logs every call of the \<open>sysproxy\<close> crate, so that the properties speak of what was written, read and guarded.

  \<open>Hotkey\<close>, \<open>HotkeyProps\<close> (\<open>core/hotkey.rs\<close>): the global hotkeys, from their names to their
  handlers and their registration with the global-shortcut plug-in.

  \<open>SettingsPatch\<close>, \<open>SettingsPatchProps\<close> (\<open>feat/config.rs\<close>, \<open>feat/tun.rs\<close>, \<open>feat/proxy.rs\<close>,
  \<open>feat/clash.rs\<close>, \<open>feat/dns.rs\<close>): a change of the settings over the configuration updates, the
  lifecycle and the hotkeys: staged, told to the parts it concerns, then committed and saved.

  \<open>ProfileFetch\<close> (\<open>config/prfitem.rs\<close>, \<open>config/profiles.rs\<close>): a profile made from a file or from the answer
  of a server, with its five attachments, and the edits of the committed profiles, between which other tasks
  commit.  \<open>ProfileSwitch\<close>, \<open>ProfileSwitchProps\<close> (\<open>cmd/profile.rs\<close>, \<open>feat/profile.rs\<close>, \<open>cmd/mod.rs\<close>): switching,
  updating, deleting and editing profiles over the configuration updates; a switch and a deletion are proved all
  or nothing for a task that runs alone, and what a failing switch overwrites is stated for any other tasks.

  \<open>SaveProfile\<close> (\<open>cmd/save_profile.rs\<close>, \<open>cmd/validate.rs\<close>): saving the text of an edited profile file, which is
  checked, applied, or put back.

  \<open>ProxyView\<close>, \<open>ProxyViewProps\<close> (\<open>core/proxy_view.rs\<close>): the view of groups, nodes and providers the
  interface shows; a sorted map is a list ordered by its keys, an instance of the locale \<open>name_map\<close>.

  \<open>Limiter\<close> (\<open>crates/clash-verge-limiter\<close>) and \<open>I18n\<close> (\<open>crates/clash-verge-i18n\<close>): the rate
  limiter, sequentially and interleaved, and the resolution of language tags.

  How the outside is modelled

  Answers of IPC, the file system, the operating system and third-party crates are arguments
  (records of functions of a tick counter), so every theorem holds for all of them.  An asynchronous
  operation is split at its awaits; what other tasks do there is an argument too, limited to what they
  can do without the locks the operation holds.  Results of type \<open>Result\<close> are sums with the error on
  the left.  Integers keep their width and wrap as in a release build.

  Bounds

  Every retry loop of the code is bounded and is modelled by recursion on its budget (61 readiness
  probes, 30 sidecar probes, 5 service starts, 3 proxy clears, 3 port fallbacks, 60 hand-over rounds,
  151 readiness and 61 publication polls of the helper, 32 port allocations, 64511 candidates for a free
  port), so no fuel is needed.  The theorems about wrapping counters assume fewer than \<open>2^63\<close> or
  \<open>2^64\<close> changes.

  Not modelled: the user interface and tray, window handling, logging, backup and download I/O,
  platform tools, the vendored routing engine, and of the remaining configuration code the parts the
  manifest lists as such.
\<close>

end
